(* ===== verification/Prelude.thy ===== *)
theory Prelude
  imports Main "HOL-Library.Word"
begin

text \<open>
  Shared vocabulary of the development: the machine integers of the C++ sources, the
  optional information elements of the PFCP library (\<open>std::pair<bool, T>\<close>), the loops over
  rule vectors that every component uses (search, edit the first match, erase the first
  match), byte order conversions, and the lemma collections the other theories feed.
\<close>

unbundle bit_operations_syntax

section \<open>Machine integers and byte order\<close>

type_synonym u8 = "8 word"
type_synonym u16 = "16 word"
type_synonym u32 = "32 word"
type_synonym u64 = "64 word"
type_synonym byte = "8 word"

text \<open>
  The sources run on little-endian Linux hosts (\<open>be32toh\<close>, \<open>htons\<close> and \<open>htonl\<close> swap).
  A network-order field read as an integer is the byte-swapped host value.
\<close>

definition bswap16 :: "u16 \<Rightarrow> u16" where
  "bswap16 w = push_bit 8 w OR drop_bit 8 w"

definition bswap32 :: "u32 \<Rightarrow> u32" where
  "bswap32 w = push_bit 24 w OR (push_bit 8 w AND 0xFF0000) OR
               (drop_bit 8 w AND 0xFF00) OR drop_bit 24 w"

lemma bswap16_bswap16 [simp]: "bswap16 (bswap16 w) = w"
  by (rule bit_word_eqI)
     (auto simp: bswap16_def bit_simps)

lemma all_less_32:
  fixes P :: "nat \<Rightarrow> bool"
  shows "(\<forall>n<32. P n) \<longleftrightarrow> list_all P [0,1,2,3,4,5,6,7,8,9,10,11,12,13,14,15,
           16,17,18,19,20,21,22,23,24,25,26,27,28,29,30,31]"
proof -
  have "(\<forall>n<32. P n) \<longleftrightarrow> list_all P [0..<32]"
    by (auto simp: list_all_iff)
  also have "[0..<32] = [0,1,2,3,4,5,6,7,8,9,10,11,12,13,14,15,
           16,17,18,19,20,21,22,23,24,25,26,27,28,29,30,31::nat]"
    by code_simp
  finally show ?thesis .
qed

lemma bit_bswap32:
  assumes "n < 32"
  shows "bit (bswap32 w) n \<longleftrightarrow> bit w (8 * (3 - n div 8) + n mod 8)"
proof -
  have hi: "\<not> bit w k" if "32 \<le> k" for k
    using bit_imp_le_length [of w k] that by auto
  have "\<forall>n<32. bit (bswap32 w) n \<longleftrightarrow> bit w (8 * (3 - n div 8) + n mod 8)"
    unfolding all_less_32
    by (simp add: bswap32_def bit_simps hi) (simp add: eval_nat_numeral)
  then show ?thesis using assms by blast
qed

lemma bswap32_bswap32 [simp]: "bswap32 (bswap32 w) = w"
proof -
  have "\<forall>n<32. bit (bswap32 (bswap32 w)) n = bit w n"
    unfolding all_less_32 by (simp add: bit_bswap32) (simp add: eval_nat_numeral)
  then show ?thesis by (auto intro: bit_word_eqI)
qed

lemma bswap32_inj [simp]: "bswap32 a = bswap32 b \<longleftrightarrow> a = b"
  by (metis bswap32_bswap32)

section \<open>Optional information elements\<close>

text \<open>
  The PFCP library stores an optional element as \<open>std::pair<bool, T>\<close>. The second component
  exists whether or not the first is set, and the sources do read it unguarded in places, so
  the model keeps the pair rather than an option.
\<close>

type_synonym 'a ie = "bool \<times> 'a"

abbreviation present :: "'a ie \<Rightarrow> bool" where "present \<equiv> fst"
abbreviation ie_val :: "'a ie \<Rightarrow> 'a" where "ie_val \<equiv> snd"

section \<open>Loops over rule vectors\<close>

text \<open>\<open>for (it : v) if (P it) { f it; return; }\<close>: edit the first element that satisfies \<open>P\<close>.\<close>

fun update_first :: "('a \<Rightarrow> bool) \<Rightarrow> ('a \<Rightarrow> 'a) \<Rightarrow> 'a list \<Rightarrow> 'a list" where
  "update_first P f [] = []"
| "update_first P f (x # xs) = (if P x then f x # xs else x # update_first P f xs)"

text \<open>\<open>for (it : v) if (P it) { v.erase(it); return; }\<close>: drop the first such element.\<close>

fun remove_first :: "('a \<Rightarrow> bool) \<Rightarrow> 'a list \<Rightarrow> 'a list" where
  "remove_first P [] = []"
| "remove_first P (x # xs) = (if P x then xs else x # remove_first P xs)"

text \<open>\<open>while (it != end && less(*it, x)) ++it; v.insert(it, x)\<close>.\<close>

fun insert_before :: "('a \<Rightarrow> bool) \<Rightarrow> 'a \<Rightarrow> 'a list \<Rightarrow> 'a list" where
  "insert_before P x [] = [x]"
| "insert_before P x (y # ys) = (if P y then y # insert_before P x ys else x # y # ys)"

named_theorems vec_simps \<open>rewriting the vector loops\<close>

lemma update_first_none [vec_simps]: "(\<forall>x\<in>set xs. \<not> P x) \<Longrightarrow> update_first P f xs = xs"
  by (induction xs) auto

lemma remove_first_none [vec_simps]: "(\<forall>x\<in>set xs. \<not> P x) \<Longrightarrow> remove_first P xs = xs"
  by (induction xs) auto

lemma length_update_first [simp]: "length (update_first P f xs) = length xs"
  by (induction xs) auto

lemma map_update_first [vec_simps]:
  "(\<And>x. P x \<Longrightarrow> g (f x) = g x) \<Longrightarrow> map g (update_first P f xs) = map g xs"
  by (induction xs) auto

lemma set_remove_first_subset: "set (remove_first P xs) \<subseteq> set xs"
  by (induction xs) auto

lemma distinct_map_remove_first:
  "distinct (map g xs) \<Longrightarrow> distinct (map g (remove_first P xs))"
  by (induction xs) (use set_remove_first_subset in fastforce)+

lemma set_update_firstD:
  "x \<in> set (update_first P f xs) \<Longrightarrow> x \<in> set xs \<or> (\<exists>y\<in>set xs. P y \<and> x = f y)"
  by (induction xs) (auto split: if_splits)

lemma set_insert_before [simp]: "set (insert_before P x xs) = insert x (set xs)"
  by (induction xs) auto

lemma length_insert_before [simp]: "length (insert_before P x xs) = Suc (length xs)"
  by (induction xs) auto

lemma find_key_distinct:
  assumes "distinct (map g xs)" "x \<in> set xs"
  shows "find (\<lambda>y. g y = g x) xs = Some x"
  using assms by (induction xs) (auto simp: rev_image_eqI)

lemma find_remove_first_key:
  assumes "distinct (map g xs)"
  shows "find (\<lambda>y. g y = k') (remove_first (\<lambda>y. g y = k) xs) =
         (if k' = k then None else find (\<lambda>y. g y = k') xs)"
  using assms
proof (induction xs)
  case (Cons x xs)
  show ?case
  proof (cases "g x = k")
    case True
    with Cons.prems have "\<forall>y\<in>set xs. g y \<noteq> k" by (auto simp: image_iff)
    with True show ?thesis by (auto simp: find_None_iff)
  next
    case False
    with Cons show ?thesis by auto
  qed
qed simp

lemma find_update_first_key:
  assumes "\<And>x. g x = k \<Longrightarrow> g (f x) = k"
  shows "find (\<lambda>y. g y = k') (update_first (\<lambda>y. g y = k) f xs) =
         (if k' = k then map_option f (find (\<lambda>y. g y = k) xs) else find (\<lambda>y. g y = k') xs)"
  by (induction xs) (auto simp: assms)

lemma find_append: "find P (xs @ ys) = (case find P xs of None \<Rightarrow> find P ys | Some x \<Rightarrow> Some x)"
  by (induction xs) auto

end
