(* ===== verification/UpfMap.thy ===== *)
theory UpfMap
  imports Prelude
begin

text \<open>
  The bounded lookup table of the datapath (\<open>simpleswitch/upf_map.hpp\<close>): open addressing with
  linear probing over a power-of-two vector of slots, tombstones for erased nodes. The model
  keeps the slot vector, the mask, the live count and the nodes handed to the RCU domain, in
  the order they were retired. The main result is a refinement: under the table invariant
  the probing operations implement a partial map. The interface the rest of the switch relies
  on is the locale \<open>lookup_table\<close>, interpreted here on the model.
\<close>

unbundle bit_operations_syntax

section \<open>The table and its operations\<close>

datatype ('k, 'v) slot = Never | Tombstone | Live 'k 'v

record ('k, 'v) upf_map =
  slots :: "('k, 'v) slot list"
  um_mask :: nat
  count :: nat
  retired :: "('k \<times> 'v) list"

text \<open>Constructor: \<open>n = 16; while (n < capacity * 2) n <<= 1;\<close>. The guard \<open>0 < n\<close> always holds.\<close>

function table_size :: "nat \<Rightarrow> nat \<Rightarrow> nat" where
  "table_size target n = (if 0 < n \<and> n < target then table_size target (2 * n) else n)"
  by pat_completeness auto
termination
  by (relation "measure (\<lambda>(target, n). target - n)") auto

declare table_size.simps [simp del]

definition um_new :: "nat \<Rightarrow> ('k, 'v) upf_map" where
  "um_new capacity =
     (let n = table_size (capacity * 2) 16
      in \<lparr>slots = replicate n Never, um_mask = n - 1, count = 0, retired = []\<rparr>)"

text \<open>\<open>index_of\<close>: Fibonacci hashing of the key widened to 64 bits, masked to the table.\<close>

definition index_of :: "nat \<Rightarrow> 'k::len word \<Rightarrow> nat" where
  "index_of m key =
     unat (drop_bit 32 (ucast key * (0x9E3779B97F4A7C15 :: u64))) AND m"

text \<open>
  The three probe loops, \<open>for (probe = 0; probe <= mask_; probe++)\<close>. The last argument is the
  number of probes left, \<open>i\<close> the slot under the probe.
\<close>

fun find_probe :: "('k, 'v) slot list \<Rightarrow> nat \<Rightarrow> 'k \<Rightarrow> nat \<Rightarrow> nat \<Rightarrow> 'v option" where
  "find_probe ss m key i 0 = None"
| "find_probe ss m key i (Suc r) =
     (case ss ! i of
        Never \<Rightarrow> None
      | Tombstone \<Rightarrow> find_probe ss m key (Suc i AND m) r
      | Live k v \<Rightarrow> if k = key then Some v else find_probe ss m key (Suc i AND m) r)"

text \<open>Where an insert lands: on a live node of the same key, or in the first free slot seen.\<close>

datatype landing = Replace nat | Free nat | Full

definition land_free :: "nat option \<Rightarrow> landing" where
  "land_free free = (case free of None \<Rightarrow> Full | Some f \<Rightarrow> Free f)"

fun insert_probe :: "('k, 'v) slot list \<Rightarrow> nat \<Rightarrow> 'k \<Rightarrow> nat \<Rightarrow> nat option \<Rightarrow> nat \<Rightarrow> landing" where
  "insert_probe ss m key i free 0 = land_free free"
| "insert_probe ss m key i free (Suc r) =
     (case ss ! i of
        Never \<Rightarrow> land_free (if free = None then Some i else free)
      | Tombstone \<Rightarrow>
          insert_probe ss m key (Suc i AND m) (if free = None then Some i else free) r
      | Live k v \<Rightarrow>
          if k = key then Replace i else insert_probe ss m key (Suc i AND m) free r)"

fun erase_probe :: "('k, 'v) slot list \<Rightarrow> nat \<Rightarrow> 'k \<Rightarrow> nat \<Rightarrow> nat \<Rightarrow> nat option" where
  "erase_probe ss m key i 0 = None"
| "erase_probe ss m key i (Suc r) =
     (case ss ! i of
        Never \<Rightarrow> None
      | Tombstone \<Rightarrow> erase_probe ss m key (Suc i AND m) r
      | Live k v \<Rightarrow> if k = key then Some i else erase_probe ss m key (Suc i AND m) r)"

definition um_find :: "('k::len word, 'v) upf_map \<Rightarrow> 'k word \<Rightarrow> 'v option" where
  "um_find t key = find_probe (slots t) (um_mask t) key (index_of (um_mask t) key) (Suc (um_mask t))"

text \<open>The node a slot holds, as handed to \<open>rcu_.retire\<close>.\<close>

fun node_of :: "('k, 'v) slot \<Rightarrow> ('k \<times> 'v) list" where
  "node_of (Live k v) = [(k, v)]"
| "node_of s = []"

definition um_insert ::
    "('k::len word, 'v) upf_map \<Rightarrow> 'k word \<Rightarrow> 'v \<Rightarrow> ('k word, 'v) upf_map \<times> bool" where
  "um_insert t key val =
     (case insert_probe (slots t) (um_mask t) key (index_of (um_mask t) key) None (Suc (um_mask t)) of
        Replace i \<Rightarrow> (t\<lparr>slots := (slots t)[i := Live key val],
                       retired := retired t @ node_of (slots t ! i)\<rparr>, True)
      | Free f \<Rightarrow> (t\<lparr>slots := (slots t)[f := Live key val], count := count t + 1\<rparr>, True)
      | Full \<Rightarrow> (t, False))"

definition um_erase ::
    "('k::len word, 'v) upf_map \<Rightarrow> 'k word \<Rightarrow> ('k word, 'v) upf_map \<times> bool" where
  "um_erase t key =
     (case erase_probe (slots t) (um_mask t) key (index_of (um_mask t) key) (Suc (um_mask t)) of
        None \<Rightarrow> (t, False)
      | Some i \<Rightarrow> (t\<lparr>slots := (slots t)[i := Tombstone], count := count t - 1,
                      retired := retired t @ node_of (slots t ! i)\<rparr>, True))"

text \<open>\<open>for_each\<close> visits the live nodes in slot order; the model returns what it visits.\<close>

definition um_entries :: "('k, 'v) upf_map \<Rightarrow> ('k \<times> 'v) list" where
  "um_entries t = concat (map node_of (slots t))"

section \<open>The table invariant\<close>

text \<open>The slot reached after \<open>d\<close> steps from the key's home slot.\<close>

definition probe_at :: "nat \<Rightarrow> nat \<Rightarrow> nat \<Rightarrow> nat" where
  "probe_at m h d = (h + d) AND m"

definition is_live :: "('k, 'v) slot \<Rightarrow> bool" where
  "is_live s = (case s of Live _ _ \<Rightarrow> True | _ \<Rightarrow> False)"

definition um_inv :: "('k::len word, 'v) upf_map \<Rightarrow> bool" where
  "um_inv t \<longleftrightarrow>
     (\<exists>n. um_mask t = 2 ^ n - 1) \<and> length (slots t) = Suc (um_mask t) \<and>
     count t = length (filter is_live (slots t)) \<and>
     (\<forall>i < length (slots t). \<forall>j < length (slots t). \<forall>k v w.
        slots t ! i = Live k v \<longrightarrow> slots t ! j = Live k w \<longrightarrow> i = j) \<and>
     (\<forall>k v. Live k v \<in> set (slots t) \<longrightarrow>
        (\<exists>d \<le> um_mask t. slots t ! probe_at (um_mask t) (index_of (um_mask t) k) d = Live k v \<and>
           (\<forall>e<d. slots t ! probe_at (um_mask t) (index_of (um_mask t) k) e \<noteq> Never)))"

section \<open>Probe paths\<close>

lemma and_mask_mod: "m = 2 ^ n - 1 \<Longrightarrow> (x::nat) AND m = x mod Suc m"
proof -
  assume m: "m = 2 ^ n - 1"
  have "x AND m = take_bit n x" by (simp only: m take_bit_eq_mask mask_eq_exp_minus_1)
  then show ?thesis by (simp add: m take_bit_eq_mod)
qed

lemma probe_at_mod: "m = 2 ^ n - 1 \<Longrightarrow> probe_at m h d = (h + d) mod Suc m"
  by (simp add: probe_at_def and_mask_mod)

lemma probe_at_step: "m = 2 ^ n - 1 \<Longrightarrow> Suc (probe_at m h d) AND m = probe_at m h (Suc d)"
  by (simp add: probe_at_mod and_mask_mod mod_Suc_eq)

lemma probe_at_less: "m = 2 ^ n - 1 \<Longrightarrow> probe_at m h d < Suc m"
  by (simp add: probe_at_mod)

lemma probe_at_home: "m = 2 ^ n - 1 \<Longrightarrow> probe_at m (index_of m k) 0 = index_of m k"
  by (simp add: probe_at_def index_of_def and.assoc)

lemma probe_at_covers:
  assumes "m = 2 ^ n - 1" "i < Suc m"
  shows "\<exists>d\<le>m. probe_at m h d = i"
proof (intro exI conjI)
  let ?d = "(i + (Suc m - h mod Suc m)) mod Suc m"
  show "?d \<le> m" by (simp add: less_Suc_eq_le [symmetric])
  have "h mod Suc m \<le> Suc m" by (simp add: less_imp_le)
  then have "(h mod Suc m + (i + (Suc m - h mod Suc m))) mod Suc m = (i + Suc m) mod Suc m"
    by (simp only: add.commute add.left_commute le_add_diff_inverse)
  also have "(i + Suc m) mod Suc m = i"
    using assms(2) by (simp only: mod_add_self2 mod_less)
  finally have "(h + (i + (Suc m - h mod Suc m))) mod Suc m = i"
    by (simp only: mod_add_left_eq)
  then show "probe_at m h ?d = i"
    using assms(1) by (simp add: probe_at_mod mod_add_right_eq)
qed

text \<open>All three loops stop at the same slot: a never-used one, or a live node of the key.\<close>

definition stops :: "('k, 'v) slot list \<Rightarrow> 'k \<Rightarrow> nat \<Rightarrow> bool" where
  "stops ss key i = (case ss ! i of Never \<Rightarrow> True | Tombstone \<Rightarrow> False | Live k _ \<Rightarrow> k = key)"

definition first_stop :: "('k, 'v) slot list \<Rightarrow> nat \<Rightarrow> 'k \<Rightarrow> nat \<Rightarrow> nat \<Rightarrow> nat \<Rightarrow> nat option" where
  "first_stop ss m key h d r = find (stops ss key) (map (probe_at m h) [d..<d + r])"

lemma first_stop_0 [simp]: "first_stop ss m key h d 0 = None"
  by (simp add: first_stop_def)

lemma first_stop_Suc [simp]:
  "first_stop ss m key h d (Suc r) =
     (if stops ss key (probe_at m h d) then Some (probe_at m h d)
      else first_stop ss m key h (Suc d) r)"
  by (simp add: first_stop_def upt_conv_Cons del: upt_Suc)

lemma find_probe_first_stop:
  assumes "m = 2 ^ n - 1"
  shows "find_probe ss m key (probe_at m h d) r =
     (case first_stop ss m key h d r of None \<Rightarrow> None
      | Some i \<Rightarrow> (case ss ! i of Live k v \<Rightarrow> Some v | _ \<Rightarrow> None))"
  by (induction r arbitrary: d)
     (auto simp: stops_def probe_at_step [OF assms] split: slot.splits)

lemma erase_probe_first_stop:
  assumes "m = 2 ^ n - 1"
  shows "erase_probe ss m key (probe_at m h d) r =
     (case first_stop ss m key h d r of None \<Rightarrow> None
      | Some i \<Rightarrow> if is_live (ss ! i) then Some i else None)"
  by (induction r arbitrary: d)
     (auto simp: stops_def is_live_def probe_at_step [OF assms] split: slot.splits)

lemma insert_probe_Replace_iff:
  assumes "m = 2 ^ n - 1"
  shows "insert_probe ss m key (probe_at m h d) free r = Replace i \<longleftrightarrow>
     first_stop ss m key h d r = Some i \<and> is_live (ss ! i)"
  by (induction r arbitrary: d free)
     (auto simp: stops_def is_live_def land_free_def probe_at_step [OF assms]
           split: slot.splits option.splits)

lemma insert_probe_Free:
  assumes "m = 2 ^ n - 1" "insert_probe ss m key (probe_at m h d) free r = Free f"
  shows "free = Some f \<or>
     free = None \<and> (\<exists>c. d \<le> c \<and> c < d + r \<and> f = probe_at m h c \<and> \<not> is_live (ss ! f) \<and>
                        (\<forall>e. d \<le> e \<and> e < c \<longrightarrow> ss ! probe_at m h e \<noteq> Never))"
  using assms(2)
proof (induction r arbitrary: d free)
  case 0
  then show ?case by (auto simp: land_free_def split: option.splits)
next
  case (Suc r)
  let ?i = "probe_at m h d"
  show ?case
  proof (cases "ss ! ?i")
    case Never
    then have "f = ?i \<and> free = None \<or> free = Some f"
      using Suc.prems by (auto simp: land_free_def split: if_splits option.splits)
    then show ?thesis
      using Never by (force simp: is_live_def intro!: exI [of _ d])
  next
    case Tombstone
    then have rec: "insert_probe ss m key (probe_at m h (Suc d))
        (if free = None then Some ?i else free) r = Free f"
      using Suc.prems by (simp add: probe_at_step [OF assms(1)])
    show ?thesis
      using Suc.IH [OF rec] Tombstone
      by (cases free) (force simp: is_live_def intro!: exI [of _ d])+
  next
    case (Live k v)
    then have ne: "k \<noteq> key" and rec: "insert_probe ss m key (probe_at m h (Suc d)) free r = Free f"
      using Suc.prems by (auto simp: probe_at_step [OF assms(1)] split: if_splits)
    from Suc.IH [OF rec] show ?thesis
    proof (elim disjE conjE exE)
      fix c assume "free = None" "Suc d \<le> c" "c < Suc d + r" "f = probe_at m h c"
        "\<not> is_live (ss ! f)" "\<forall>e. Suc d \<le> e \<and> e < c \<longrightarrow> ss ! probe_at m h e \<noteq> Never"
      moreover from this Live have "\<forall>e. d \<le> e \<and> e < c \<longrightarrow> ss ! probe_at m h e \<noteq> Never"
        by (metis Suc_leI le_neq_implies_less slot.distinct(3))
      ultimately show ?thesis by (intro disjI2 conjI exI [of _ c]) auto
    qed simp
  qed
qed

lemma insert_probe_Full:
  assumes "m = 2 ^ n - 1" "insert_probe ss m key (probe_at m h d) free r = Full"
  shows "free = None \<and> (\<forall>c. d \<le> c \<and> c < d + r \<longrightarrow> is_live (ss ! probe_at m h c)) \<and>
         first_stop ss m key h d r = None"
  using assms(2)
proof (induction r arbitrary: d free)
  case 0
  then show ?case by (auto simp: land_free_def split: option.splits)
next
  case (Suc r)
  show ?case
  proof (cases "ss ! probe_at m h d")
    case (Live k v)
    then have ne: "k \<noteq> key" and rec: "insert_probe ss m key (probe_at m h (Suc d)) free r = Full"
      using Suc.prems by (auto simp: probe_at_step [OF assms(1)] split: if_splits)
    have "is_live (ss ! probe_at m h c)" if "d \<le> c" "c < d + Suc r" for c
      using that Suc.IH [OF rec] Live by (cases "c = d") (auto simp: is_live_def)
    then show ?thesis using Suc.IH [OF rec] Live ne by (auto simp: stops_def)
  next
    case Tombstone
    then have "insert_probe ss m key (probe_at m h (Suc d))
        (if free = None then Some (probe_at m h d) else free) r = Full"
      using Suc.prems by (simp add: probe_at_step [OF assms(1)])
    from Suc.IH [OF this] show ?thesis by (simp split: if_splits)
  qed (use Suc.prems in \<open>auto simp: land_free_def split: if_splits option.splits\<close>)
qed

section \<open>The operations implement a partial map\<close>

text \<open>The set-like reading of a table: which key-value pairs are live in it.\<close>

lemma um_invD:
  assumes "um_inv t"
  shows "\<exists>n. um_mask t = 2 ^ n - 1" "length (slots t) = Suc (um_mask t)"
    "count t = length (filter is_live (slots t))"
    "\<And>i j k v w. i < length (slots t) \<Longrightarrow> j < length (slots t) \<Longrightarrow>
       slots t ! i = Live k v \<Longrightarrow> slots t ! j = Live k w \<Longrightarrow> i = j"
    "\<And>k v. Live k v \<in> set (slots t) \<Longrightarrow>
        \<exists>d \<le> um_mask t. slots t ! probe_at (um_mask t) (index_of (um_mask t) k) d = Live k v \<and>
           (\<forall>e<d. slots t ! probe_at (um_mask t) (index_of (um_mask t) k) e \<noteq> Never)"
  using assms unfolding um_inv_def by blast+

lemma first_stop_SomeD:
  assumes "first_stop ss m key h d r = Some i"
  shows "stops ss key i \<and> (\<exists>c. d \<le> c \<and> c < d + r \<and> i = probe_at m h c)"
proof -
  from assms obtain j where "j < r" "stops ss key (probe_at m h (d + j))" "i = probe_at m h (d + j)"
    unfolding first_stop_def by (auto simp: find_Some_iff simp del: upt_Suc)
  then show ?thesis by (intro conjI exI [of _ "d + j"]) auto
qed

lemma first_stop_SomeI:
  assumes "c < r" "stops ss key (probe_at m h c)" "\<forall>e<c. \<not> stops ss key (probe_at m h e)"
  shows "first_stop ss m key h 0 r = Some (probe_at m h c)"
  unfolding first_stop_def find_Some_iff
  by (rule exI [of _ c]) (use assms in \<open>auto simp del: upt_Suc\<close>)

text \<open>Under the invariant the probe for a key stops on that key's node whenever it has one.\<close>

lemma first_stop_live:
  assumes inv: "um_inv t" and live: "i < length (slots t)" "slots t ! i = Live key v"
  shows "first_stop (slots t) (um_mask t) key (index_of (um_mask t) key) 0 (Suc (um_mask t)) = Some i"
proof -
  let ?P = "probe_at (um_mask t) (index_of (um_mask t) key)"
  from um_invD(1) [OF inv] obtain n where n: "um_mask t = 2 ^ n - 1" by blast
  have len: "?P e < length (slots t)" for e
    using probe_at_less [OF n] by (simp add: um_invD(2) [OF inv])
  from live have "Live key v \<in> set (slots t)" by (metis nth_mem)
  then obtain d where d: "d \<le> um_mask t" "slots t ! ?P d = Live key v" "\<forall>e<d. slots t ! ?P e \<noteq> Never"
    using um_invD(5) [OF inv] by blast
  have only: "?P e = i" if "slots t ! ?P e = Live key w" for e w
    using um_invD(4) [OF inv len live(1) that live(2)] .
  define c where "c = (LEAST c. ?P c = i)"
  have Pd: "?P d = i" using only [OF d(2)] .
  have c: "?P c = i" "c \<le> d" "\<And>e. e < c \<Longrightarrow> ?P e \<noteq> i"
    unfolding c_def
    by (rule LeastI [of "\<lambda>c. ?P c = i", OF Pd], rule Least_le [of "\<lambda>c. ?P c = i", OF Pd],
        erule not_less_Least)
  have "\<not> stops (slots t) key (?P e)" if "e < c" for e
  proof (cases "slots t ! ?P e")
    case Never
    then show ?thesis using d(3) that c(2) by simp
  next
    case (Live k w)
    have "k \<noteq> key"
    proof
      assume "k = key"
      with Live have "?P e = i" using only [of e w] by simp
      with c(3) [OF that] show False by simp
    qed
    with Live show ?thesis by (simp add: stops_def)
  qed (simp add: stops_def)
  then have ns: "\<forall>e<c. \<not> stops (slots t) key (?P e)" by simp
  have st: "stops (slots t) key (?P c)" using c(1) live(2) by (simp add: stops_def)
  have "c < Suc (um_mask t)" using c(2) d(1) by simp
  from first_stop_SomeI [OF this st ns] show ?thesis by (simp only: c(1))
qed

lemma um_find_iff:
  assumes inv: "um_inv t"
  shows "um_find t key = Some v \<longleftrightarrow> Live key v \<in> set (slots t)"
proof -
  let ?F = "first_stop (slots t) (um_mask t) key (index_of (um_mask t) key) 0 (Suc (um_mask t))"
  from um_invD(1) [OF inv] obtain n where n: "um_mask t = 2 ^ n - 1" by blast
  have eq: "um_find t key = (case ?F of None \<Rightarrow> None
      | Some i \<Rightarrow> (case slots t ! i of Live k v \<Rightarrow> Some v | _ \<Rightarrow> None))"
    unfolding um_find_def
    by (subst probe_at_home [OF n, symmetric], rule find_probe_first_stop [OF n])
  show ?thesis
  proof
    assume "um_find t key = Some v"
    then obtain i k where i: "?F = Some i" "slots t ! i = Live k v"
      using eq by (auto split: option.splits slot.splits)
    moreover from first_stop_SomeD [OF i(1)] have "i < length (slots t)" "stops (slots t) key i"
      using probe_at_less [OF n] by (auto simp: um_invD(2) [OF inv])
    ultimately show "Live key v \<in> set (slots t)"
      by (auto simp: stops_def) (metis nth_mem)
  next
    assume "Live key v \<in> set (slots t)"
    then obtain i where "i < length (slots t)" "slots t ! i = Live key v"
      by (auto simp: in_set_conv_nth)
    with first_stop_live [OF inv this] show "um_find t key = Some v" by (simp add: eq)
  qed
qed

text \<open>A slot that is not live may become live for a key that has no node: the invariant is kept.\<close>

lemma count_update:
  "i < length xs \<Longrightarrow> length (filter P (xs[i := x])) + (if P (xs ! i) then 1 else 0) =
     length (filter P xs) + (if P x then 1 else 0)"
proof (induction xs arbitrary: i)
  case (Cons a xs)
  then show ?case by (cases i) (use Cons.IH in \<open>fastforce split: if_splits\<close>)+
qed simp

lemma um_inv_fill:
  assumes inv: "um_inv t" and c: "c \<le> um_mask t"
    and f: "f = probe_at (um_mask t) (index_of (um_mask t) key) c" "\<not> is_live (slots t ! f)"
    and path: "\<forall>e<c. slots t ! probe_at (um_mask t) (index_of (um_mask t) key) e \<noteq> Never"
    and fresh: "\<forall>v. Live key v \<notin> set (slots t)"
  shows "um_inv (t\<lparr>slots := (slots t)[f := Live key val], count := count t + 1\<rparr>)"
proof -
  let ?ss = "(slots t)[f := Live key val]" and ?m = "um_mask t"
  note I = um_invD [OF inv]
  obtain n where n: "?m = 2 ^ n - 1" using I(1) by blast
  have fl: "f < length (slots t)" using probe_at_less [OF n] by (simp add: f(1) I(2))
  have old: "slots t ! i = Live k v \<Longrightarrow> i < length (slots t) \<Longrightarrow> k \<noteq> key \<and> i \<noteq> f" for i k v
    using fresh f(2) by (auto simp: is_live_def dest: nth_mem)
  have uniq: "i = j" if "i < length ?ss" "j < length ?ss" "?ss ! i = Live k v" "?ss ! j = Live k w"
    for i j k v w
  proof (cases "i = f \<or> j = f")
    case True
    then have "k = key" using that fl by auto
    then have "slots t ! i = Live k v \<Longrightarrow> False" "slots t ! j = Live k w \<Longrightarrow> False"
      using old that(1,2) by auto
    with that True show ?thesis by (auto simp: nth_list_update split: if_splits)
  qed (use that I(4) [of i j k v w] in simp)
  have never: "slots t ! i \<noteq> Never \<Longrightarrow> ?ss ! i \<noteq> Never" for i
    using fl by (cases "i = f") auto
  have pth: "\<exists>d \<le> ?m. ?ss ! probe_at ?m (index_of ?m k) d = Live k v \<and>
          (\<forall>e<d. ?ss ! probe_at ?m (index_of ?m k) e \<noteq> Never)" if kv: "Live k v \<in> set ?ss" for k v
  proof (cases "k = key")
    case True
    then have "v = val" using kv fresh set_update_subset_insert [of "slots t" f "Live key val"] by auto
    with True show ?thesis using c path never fl by (intro exI [of _ c]) (simp add: f(1))
  next
    case False
    then have "Live k v \<in> set (slots t)"
      using kv set_update_subset_insert [of "slots t" f "Live key val"] by auto
    then obtain d where d: "d \<le> ?m" "slots t ! probe_at ?m (index_of ?m k) d = Live k v"
        "\<forall>e<d. slots t ! probe_at ?m (index_of ?m k) e \<noteq> Never"
      using I(5) by blast
    have "probe_at ?m (index_of ?m k) d \<noteq> f" using d(2) f(2) by (auto simp: is_live_def)
    then show ?thesis using d never by (intro exI [of _ d]) simp
  qed
  show ?thesis
    unfolding um_inv_def
    using n I(2) I(3) fl count_update [OF fl, of is_live "Live key val"] f(2) uniq pth
    by (simp add: is_live_def) blast
qed

text \<open>A live node may be replaced by another of its key, or by a tombstone.\<close>

lemma um_inv_overwrite:
  assumes inv: "um_inv t" and i: "i < length (slots t)" "slots t ! i = Live key old"
    and s: "s = Live key val \<and> cnt = count t \<or> s = Tombstone \<and> cnt = count t - 1"
  shows "um_inv (t\<lparr>slots := (slots t)[i := s], count := cnt, retired := r\<rparr>)"
proof -
  let ?ss = "(slots t)[i := s]" and ?m = "um_mask t"
  note I = um_invD [OF inv]
  obtain n where n: "?m = 2 ^ n - 1" using I(1) by blast
  have only: "j < length (slots t) \<Longrightarrow> slots t ! j = Live key v \<Longrightarrow> j = i" for j v
    using I(4) i by blast
  have uniq: "a = b" if "a < length ?ss" "b < length ?ss" "?ss ! a = Live k v" "?ss ! b = Live k w"
    for a b k v w
  proof (cases "a = i \<or> b = i")
    case True
    then have "k = key" using that i s by auto
    then have "slots t ! a = Live k v \<Longrightarrow> a = i" "slots t ! b = Live k w \<Longrightarrow> b = i"
      using only that(1,2) by auto
    with that True show ?thesis by (auto simp: nth_list_update split: if_splits)
  qed (use that I(4) [of a b k v w] in simp)
  have never: "slots t ! j \<noteq> Never \<Longrightarrow> ?ss ! j \<noteq> Never" for j
    using s i(1) by (cases "j = i") auto
  have plen: "probe_at ?m h d < length (slots t)" for h d
    using probe_at_less [OF n] by (simp add: I(2))
  have pth: "\<exists>d \<le> ?m. ?ss ! probe_at ?m (index_of ?m k) d = Live k v \<and>
          (\<forall>e<d. ?ss ! probe_at ?m (index_of ?m k) e \<noteq> Never)" if kv: "Live k v \<in> set ?ss" for k v
  proof -
    from kv obtain j where j: "j < length (slots t)" "?ss ! j = Live k v"
      by (auto simp: in_set_conv_nth)
    obtain w where w: "slots t ! j = Live k w"
    proof (cases "j = i")
      case True
      with j s i show ?thesis by (intro that [of old]) auto
    next
      case False
      with j that show ?thesis by simp
    qed
    then have "Live k w \<in> set (slots t)" using j(1) by (metis nth_mem)
    then obtain d where d: "d \<le> ?m" "slots t ! probe_at ?m (index_of ?m k) d = Live k w"
        "\<forall>e<d. slots t ! probe_at ?m (index_of ?m k) e \<noteq> Never"
      using I(5) by blast
    have "probe_at ?m (index_of ?m k) d = j" using I(4) [OF plen j(1) d(2) w] .
    then show ?thesis using d(1,3) j(2) never by (intro exI [of _ d]) simp
  qed
  have "length (filter is_live ?ss) + 1 = count t + (if is_live s then 1 else 0)"
    using count_update [OF i(1), of is_live s] i(2) I(3) by (simp add: is_live_def)
  then have "length (filter is_live ?ss) = cnt" using s by (auto simp: is_live_def)
  with uniq pth n I(2) show ?thesis unfolding um_inv_def by simp blast
qed

lemma insert_probe_lands:
  fixes t :: "('k::len word, 'v) upf_map" and key :: "'k word"
  assumes inv: "um_inv t"
  defines "ip \<equiv> insert_probe (slots t) (um_mask t) key (index_of (um_mask t) key) None (Suc (um_mask t))"
  shows "ip = Replace i \<Longrightarrow> i < length (slots t) \<and> (\<exists>v. slots t ! i = Live key v)"
    and "ip = Free f \<Longrightarrow> (\<exists>c\<le>um_mask t. f = probe_at (um_mask t) (index_of (um_mask t) key) c \<and>
           \<not> is_live (slots t ! f) \<and>
           (\<forall>e<c. slots t ! probe_at (um_mask t) (index_of (um_mask t) key) e \<noteq> Never)) \<and>
           (\<forall>v. Live key v \<notin> set (slots t))"
    and "ip = Full \<Longrightarrow> (\<forall>i<length (slots t). is_live (slots t ! i)) \<and> (\<forall>v. Live key v \<notin> set (slots t))"
proof -
  let ?h = "index_of (um_mask t) key"
  let ?F = "first_stop (slots t) (um_mask t) key ?h 0 (Suc (um_mask t))"
  note I = um_invD [OF inv]
  obtain n where n: "um_mask t = 2 ^ n - 1" using I(1) by blast
  have ip: "ip = insert_probe (slots t) (um_mask t) key (probe_at (um_mask t) ?h 0) None (Suc (um_mask t))"
    by (simp only: ip_def probe_at_home [OF n])
  have fresh: "\<forall>v. Live key v \<notin> set (slots t)" if "\<forall>i. ip \<noteq> Replace i"
  proof (rule allI, rule notI)
    fix v assume "Live key v \<in> set (slots t)"
    then obtain j where "j < length (slots t)" "slots t ! j = Live key v"
      by (auto simp: in_set_conv_nth)
    then have "?F = Some j" "is_live (slots t ! j)"
      using first_stop_live [OF inv] by (blast, simp add: is_live_def)
    then have "ip = Replace j"
      unfolding ip by (intro iffD2 [OF insert_probe_Replace_iff [OF n]] conjI)
    with that show False by simp
  qed
  show "ip = Replace i \<Longrightarrow> i < length (slots t) \<and> (\<exists>v. slots t ! i = Live key v)"
  proof -
    assume "ip = Replace i"
    then have FL: "?F = Some i \<and> is_live (slots t ! i)"
      unfolding ip by (rule iffD1 [OF insert_probe_Replace_iff [OF n]])
    note F = conjunct1 [OF FL] and L = conjunct2 [OF FL]
    from first_stop_SomeD [OF F] probe_at_less [OF n] L show ?thesis
      by (auto simp: I(2) stops_def is_live_def split: slot.splits)
  qed
  show "ip = Free f \<Longrightarrow> (\<exists>c\<le>um_mask t. f = probe_at (um_mask t) ?h c \<and> \<not> is_live (slots t ! f) \<and>
           (\<forall>e<c. slots t ! probe_at (um_mask t) ?h e \<noteq> Never)) \<and> (\<forall>v. Live key v \<notin> set (slots t))"
  proof -
    assume F: "ip = Free f"
    from insert_probe_Free [OF n F [unfolded ip]] obtain c where
      "c < Suc (um_mask t)" "f = probe_at (um_mask t) ?h c" "\<not> is_live (slots t ! f)"
      "\<forall>e<c. slots t ! probe_at (um_mask t) ?h e \<noteq> Never" by auto
    then show ?thesis using fresh F by (intro conjI exI [of _ c]) auto
  qed
  show "ip = Full \<Longrightarrow> (\<forall>i<length (slots t). is_live (slots t ! i)) \<and> (\<forall>v. Live key v \<notin> set (slots t))"
  proof -
    assume F: "ip = Full"
    have all: "is_live (slots t ! probe_at (um_mask t) ?h c)" if "c \<le> um_mask t" for c
      using insert_probe_Full [OF n F [unfolded ip]] that by simp
    have "is_live (slots t ! i)" if "i < length (slots t)" for i
      using probe_at_covers [OF n, of i ?h] that all by (auto simp: I(2))
    then show ?thesis using fresh F by simp
  qed
qed

section \<open>Effect of the operations on the live set\<close>

lemma in_set_list_update:
  "i < length xs \<Longrightarrow> y \<in> set (xs[i := x]) \<longleftrightarrow> y = x \<or> (\<exists>j<length xs. j \<noteq> i \<and> xs ! j = y)"
  unfolding in_set_conv_nth by (auto simp: nth_list_update)

lemma set_update_live:
  assumes inv: "um_inv t" and i: "i < length (slots t)"
    and here: "slots t ! i = Live key old \<or> \<not> is_live (slots t ! i) \<and> (\<forall>v. Live key v \<notin> set (slots t))"
  shows "(\<exists>j<length (slots t). j \<noteq> i \<and> slots t ! j = Live k v) \<longleftrightarrow>
         k \<noteq> key \<and> Live k v \<in> set (slots t)"
proof -
  have "k \<noteq> key" if "j < length (slots t)" "j \<noteq> i" "slots t ! j = Live k v" for j
    using here
  proof
    assume "slots t ! i = Live key old"
    with um_invD(4) [OF inv that(1) i that(3)] that(2) show ?thesis by auto
  next
    assume "\<not> is_live (slots t ! i) \<and> (\<forall>v. Live key v \<notin> set (slots t))"
    with that show ?thesis by (auto dest: nth_mem)
  qed
  moreover have "slots t ! i = Live k v \<Longrightarrow> k = key"
    using here by (auto simp: is_live_def)
  ultimately show ?thesis by (auto simp: in_set_conv_nth)
qed

lemma um_find_eqI:
  assumes "um_inv t" "\<And>k v. Live k v \<in> set (slots t) \<longleftrightarrow> M k = Some v"
  shows "um_find t = M"
proof
  fix k
  have iff: "um_find t k = Some v \<longleftrightarrow> M k = Some v" for v
    by (simp only: um_find_iff [OF assms(1)] assms(2))
  show "um_find t k = M k"
  proof (cases "M k")
    case None
    with iff have "um_find t k \<noteq> Some v" for v by simp
    with None show ?thesis by (metis not_None_eq)
  next
    case (Some v)
    with iff show ?thesis by simp
  qed
qed

lemma um_insert_ok:
  assumes inv: "um_inv t" and ins: "um_insert t key val = (t', True)"
  shows "um_inv t' \<and> um_find t' = (um_find t)(key \<mapsto> val)"
proof -
  note lands = insert_probe_lands [OF inv, of key]
  obtain i old cnt r where
    t': "t' = t\<lparr>slots := (slots t)[i := Live key val], count := cnt, retired := r\<rparr>" and
    i: "i < length (slots t)" and inv': "um_inv t'" and
    here: "slots t ! i = Live key old \<or> \<not> is_live (slots t ! i) \<and> (\<forall>v. Live key v \<notin> set (slots t))"
  proof (cases "insert_probe (slots t) (um_mask t) key (index_of (um_mask t) key) None (Suc (um_mask t))")
    case (Replace i)
    with ins have t': "t' = t\<lparr>slots := (slots t)[i := Live key val], count := count t,
        retired := retired t @ node_of (slots t ! i)\<rparr>" by (auto simp: um_insert_def)
    from lands(1) [OF Replace] obtain old where "i < length (slots t)" "slots t ! i = Live key old"
      by auto
    with um_inv_overwrite [OF inv this, of "Live key val" val "count t"] t' that show ?thesis by blast
  next
    case (Free f)
    with ins have t': "t' = t\<lparr>slots := (slots t)[f := Live key val], count := count t + 1\<rparr>"
      by (auto simp: um_insert_def)
    from lands(2) [OF Free] obtain c where c: "c \<le> um_mask t"
      "f = probe_at (um_mask t) (index_of (um_mask t) key) c" "\<not> is_live (slots t ! f)"
      "\<forall>e<c. slots t ! probe_at (um_mask t) (index_of (um_mask t) key) e \<noteq> Never"
      and fresh: "\<forall>v. Live key v \<notin> set (slots t)" by auto
    have "f < length (slots t)"
      using um_invD(1,2) [OF inv] probe_at_less c(2) by metis
    moreover have "um_inv t'" unfolding t' by (rule um_inv_fill [OF inv c fresh])
    moreover have "t' = t\<lparr>slots := (slots t)[f := Live key val], count := count t + 1,
        retired := retired t\<rparr>" by (simp add: t')
    ultimately show ?thesis using c(3) fresh that by blast
  qed (use ins in \<open>simp add: um_insert_def\<close>)
  have "Live k v \<in> set (slots t') \<longleftrightarrow> ((um_find t)(key \<mapsto> val)) k = Some v" for k v
    using in_set_list_update [OF i] set_update_live [OF inv i here] um_find_iff [OF inv, of k v]
    by (auto simp: t')
  with inv' show ?thesis using um_find_eqI by blast
qed

lemma um_insert_full:
  assumes inv: "um_inv t" and ins: "um_insert t key val = (t', False)"
  shows "t' = t \<and> um_find t key = None \<and> count t = length (slots t)"
proof (cases "insert_probe (slots t) (um_mask t) key (index_of (um_mask t) key) None (Suc (um_mask t))")
  case Full
  from insert_probe_lands(3) [OF inv Full]
  have "filter is_live (slots t) = slots t" "\<forall>v. um_find t key \<noteq> Some v"
    by (auto simp: um_find_iff [OF inv] filter_id_conv in_set_conv_nth)
  with Full ins um_invD(3) [OF inv] show ?thesis by (auto simp: um_insert_def)
qed (use ins in \<open>simp_all add: um_insert_def\<close>)

lemma erase_probe_lands:
  fixes t :: "('k::len word, 'v) upf_map" and key :: "'k word"
  assumes inv: "um_inv t"
  defines "ep \<equiv> erase_probe (slots t) (um_mask t) key (index_of (um_mask t) key) (Suc (um_mask t))"
  shows "ep = None \<Longrightarrow> um_find t key = None"
    and "ep = Some i \<Longrightarrow> i < length (slots t) \<and> (\<exists>v. slots t ! i = Live key v)"
proof -
  let ?h = "index_of (um_mask t) key"
  let ?F = "first_stop (slots t) (um_mask t) key ?h 0 (Suc (um_mask t))"
  obtain n where n: "um_mask t = 2 ^ n - 1" using um_invD(1) [OF inv] by blast
  have E: "ep = (case ?F of None \<Rightarrow> None | Some i \<Rightarrow> if is_live (slots t ! i) then Some i else None)"
    unfolding ep_def
    using erase_probe_first_stop [OF n, of "slots t" key ?h 0 "Suc (um_mask t)"]
    unfolding probe_at_home [OF n] .
  show "ep = None \<Longrightarrow> um_find t key = None"
  proof -
    assume None: "ep = None"
    have "\<not> Live key v \<in> set (slots t)" for v
    proof
      assume "Live key v \<in> set (slots t)"
      then obtain j where j: "j < length (slots t)" "slots t ! j = Live key v"
        by (auto simp: in_set_conv_nth)
      with first_stop_live [OF inv j] E None show False by (simp add: is_live_def)
    qed
    then show "um_find t key = None" using um_find_iff [OF inv] by (metis not_None_eq)
  qed
  show "ep = Some i \<Longrightarrow> i < length (slots t) \<and> (\<exists>v. slots t ! i = Live key v)"
  proof -
    assume "ep = Some i"
    from trans [OF E [symmetric] this] have FL: "?F = Some i \<and> is_live (slots t ! i)"
      by (cases ?F) (auto simp del: first_stop_Suc split: if_splits)
    note F = conjunct1 [OF FL] and L = conjunct2 [OF FL]
    from first_stop_SomeD [OF F] probe_at_less [OF n] L show ?thesis
      by (auto simp: um_invD(2) [OF inv] stops_def is_live_def split: slot.splits)
  qed
qed

lemma find_live_nth:
  "um_inv t \<Longrightarrow> i < length (slots t) \<Longrightarrow> slots t ! i = Live k v \<Longrightarrow> um_find t k = Some v"
  by (metis um_find_iff nth_mem)

lemma um_erase_ok:
  assumes inv: "um_inv t" and era: "um_erase t key = (t', b)"
  shows "um_inv t' \<and> um_find t' = (um_find t)(key := None) \<and> (b \<longleftrightarrow> um_find t key \<noteq> None)"
proof (cases "erase_probe (slots t) (um_mask t) key (index_of (um_mask t) key) (Suc (um_mask t))")
  case None
  with erase_probe_lands(1) [OF inv None] era inv show ?thesis
    by (auto simp: um_erase_def fun_upd_idem)
next
  case (Some i)
  from erase_probe_lands(2) [OF inv Some] obtain old where
    i: "i < length (slots t)" "slots t ! i = Live key old" by auto
  have t': "t' = t\<lparr>slots := (slots t)[i := Tombstone], count := count t - 1,
      retired := retired t @ node_of (slots t ! i)\<rparr>" and b
    using Some era by (auto simp: um_erase_def)
  have inv': "um_inv t'"
    unfolding t' by (rule um_inv_overwrite [OF inv i]) simp
  have "Live k v \<in> set (slots t') \<longleftrightarrow> ((um_find t)(key := None)) k = Some v" for k v
    using in_set_list_update [OF i(1)] set_update_live [OF inv i(1), of key old k v] i(2)
      um_find_iff [OF inv, of k v] by (auto simp: t')
  then have "um_find t' = (um_find t)(key := None)" by (rule um_find_eqI [OF inv'])
  then show ?thesis using inv' \<open>b\<close> find_live_nth [OF inv i] by simp
qed

lemma um_erase_node:
  assumes inv: "um_inv t"
  shows "retired (fst (um_erase t k)) =
           retired t @ (case um_find t k of None \<Rightarrow> [] | Some v \<Rightarrow> [(k, v)])"
proof (cases "erase_probe (slots t) (um_mask t) k (index_of (um_mask t) k) (Suc (um_mask t))")
  case None
  with erase_probe_lands(1) [OF inv None] show ?thesis by (simp add: um_erase_def)
next
  case (Some i)
  from erase_probe_lands(2) [OF inv Some] obtain v where
    i: "i < length (slots t)" "slots t ! i = Live k v" by auto
  with Some find_live_nth [OF inv i] show ?thesis by (simp add: um_erase_def)
qed

section \<open>The interface the switch relies on\<close>

text \<open>
  What a client of the table may assume: a find after an insert or an erase, that a refused
  insert changes nothing, and that every operation keeps the table's invariant.
\<close>

locale lookup_table =
  fixes inv :: "'t \<Rightarrow> bool"
    and lookup :: "'t \<Rightarrow> 'k \<Rightarrow> 'v option"
    and ins :: "'t \<Rightarrow> 'k \<Rightarrow> 'v \<Rightarrow> 't \<times> bool"
    and era :: "'t \<Rightarrow> 'k \<Rightarrow> 't \<times> bool"
  assumes ins_ok: "inv t \<Longrightarrow> ins t k v = (t', True) \<Longrightarrow> inv t' \<and> lookup t' = (lookup t)(k \<mapsto> v)"
    and ins_full: "inv t \<Longrightarrow> ins t k v = (t', False) \<Longrightarrow> t' = t \<and> lookup t k = None"
    and era_ok: "inv t \<Longrightarrow> era t k = (t', b) \<Longrightarrow>
                   inv t' \<and> lookup t' = (lookup t)(k := None) \<and> (b \<longleftrightarrow> lookup t k \<noteq> None)"
begin

lemma inv_ins: "inv t \<Longrightarrow> inv (fst (ins t k v))"
  by (cases "ins t k v"; cases "snd (ins t k v)") (auto dest: ins_ok ins_full)

lemma inv_era: "inv t \<Longrightarrow> inv (fst (era t k))"
  by (cases "era t k") (auto dest: era_ok)

lemma lookup_ins_other: "inv t \<Longrightarrow> k' \<noteq> k \<Longrightarrow> lookup (fst (ins t k v)) k' = lookup t k'"
  by (cases "ins t k v"; cases "snd (ins t k v)") (auto dest: ins_ok ins_full)

lemma lookup_ins_same:
  "inv t \<Longrightarrow> lookup (fst (ins t k v)) k = (if snd (ins t k v) then Some v else None)"
  by (cases "ins t k v"; cases "snd (ins t k v)") (auto dest: ins_ok ins_full)

text \<open>Replacing the entry of a key that is present never fails, however full the table is.\<close>

lemma ins_present: "inv t \<Longrightarrow> lookup t k \<noteq> None \<Longrightarrow> snd (ins t k v)"
  by (cases "ins t k v"; cases "snd (ins t k v)") (auto dest: ins_full)

lemma lookup_era: "inv t \<Longrightarrow> lookup (fst (era t k)) = (lookup t)(k := None)"
  by (cases "era t k") (auto dest: era_ok)

text \<open>Moving an entry from one key to another, new entry first, as an update does.\<close>

lemma lookup_move:
  assumes "inv t" "k \<noteq> k'" "snd (ins t k' v)"
  shows "lookup (fst (era (fst (ins t k' v)) k)) = (lookup t)(k' \<mapsto> v, k := None)"
proof -
  from assms(3) obtain t' where "ins t k' v = (t', True)" by (cases "ins t k' v") auto
  from ins_ok [OF assms(1) this] this show ?thesis by (simp add: lookup_era)
qed

end

interpretation um: lookup_table um_inv um_find um_insert um_erase
  by unfold_locales (blast intro: um_insert_ok um_insert_full [THEN conjunct1]
      um_insert_full [THEN conjunct2, THEN conjunct1] um_erase_ok
      dest: um_insert_ok um_insert_full um_erase_ok)+

section \<open>Start-up size and load\<close>

lemma table_size_pow2:
  assumes "0 < n"
  shows "\<exists>k. table_size target n = n * 2 ^ k \<and> target \<le> table_size target n"
  using assms
proof (induction target n rule: table_size.induct)
  case (1 target n)
  show ?case
  proof (cases "n < target")
    case True
    then obtain k where "table_size target (2 * n) = 2 * n * 2 ^ k" "target \<le> table_size target (2 * n)"
      using "1" by auto
    then show ?thesis
      using True "1.prems" by (intro exI [of _ "Suc k"]) (simp add: table_size.simps [of target n])
  next
    case False
    then show ?thesis by (intro exI [of _ 0]) (simp add: table_size.simps [of target n])
  qed
qed

lemma um_new_inv: "um_inv (um_new capacity :: ('k::len word, 'v) upf_map)"
proof -
  obtain k where k: "table_size (capacity * 2) 16 = 16 * 2 ^ k" using table_size_pow2 [of 16] by auto
  then have "\<exists>n. table_size (capacity * 2) 16 - 1 = 2 ^ n - 1"
    by (intro exI [of _ "4 + k"]) (simp add: power_add)
  with k show ?thesis by (simp add: um_inv_def um_new_def Let_def is_live_def)
qed

lemma um_new_empty: "um_find (um_new capacity) = Map.empty"
  by (rule um_find_eqI [OF um_new_inv]) (simp add: um_new_def Let_def)

lemma slots_new: "capacity * 2 \<le> length (slots (um_new capacity :: ('k, 'v) upf_map))"
  using table_size_pow2 [of 16 "capacity * 2"] by (auto simp: um_new_def Let_def)

text \<open>The live count is the number of keys the table answers for.\<close>

definition key_at :: "('k, 'v) slot \<Rightarrow> 'k option" where
  "key_at s = (case s of Live k _ \<Rightarrow> Some k | _ \<Rightarrow> None)"

lemma count_card:
  assumes inv: "um_inv t"
  shows "count t = card (dom (um_find t)) \<and> finite (dom (um_find t))"
proof -
  let ?I = "{i. i < length (slots t) \<and> is_live (slots t ! i)}"
  let ?f = "\<lambda>i. the (key_at (slots t ! i))"
  have inj: "inj_on ?f ?I"
    using um_invD(4) [OF inv]
    by (auto simp: inj_on_def is_live_def key_at_def split: slot.splits)
  have img: "?f ` ?I = dom (um_find t)"
  proof (rule equalityI; rule subsetI)
    fix k assume "k \<in> ?f ` ?I"
    then obtain i v where "i < length (slots t)" "slots t ! i = Live k v"
      by (auto simp: is_live_def key_at_def split: slot.splits)
    then have "Live k v \<in> set (slots t)" by (metis nth_mem)
    then show "k \<in> dom (um_find t)" by (auto simp: um_find_iff [OF inv, symmetric])
  next
    fix k assume "k \<in> dom (um_find t)"
    then obtain v where "Live k v \<in> set (slots t)" by (auto simp: um_find_iff [OF inv])
    then obtain i where "i < length (slots t)" "slots t ! i = Live k v" by (auto simp: in_set_conv_nth)
    then show "k \<in> ?f ` ?I"
      by (intro image_eqI [of _ _ i]) (auto simp: is_live_def key_at_def)
  qed
  have "count t = card ?I" using um_invD(3) [OF inv] by (simp add: length_filter_conv_card)
  also have "\<dots> = card (dom (um_find t))" using card_image [OF inj] img by simp
  moreover have "finite (?f ` ?I)" by simp
  ultimately show ?thesis by (simp only: img)
qed

lemma length_slots_ops [simp]:
  "length (slots (fst (um_insert t k v))) = length (slots t)"
  "length (slots (fst (um_erase t k))) = length (slots t)"
  by (auto simp: um_insert_def um_erase_def split: landing.splits option.splits)

section \<open>Runs of operations\<close>

datatype ('k, 'v) table_op = Put 'k 'v | Del 'k

fun um_run :: "('k::len word, 'v) table_op list \<Rightarrow> ('k word, 'v) upf_map \<Rightarrow> ('k word, 'v) upf_map" where
  "um_run [] t = t"
| "um_run (Put k v # ops) t = um_run ops (fst (um_insert t k v))"
| "um_run (Del k # ops) t = um_run ops (fst (um_erase t k))"

fun map_run :: "('k, 'v) table_op list \<Rightarrow> ('k \<rightharpoonup> 'v) \<Rightarrow> ('k \<rightharpoonup> 'v)" where
  "map_run [] m = m"
| "map_run (Put k v # ops) m = map_run ops (m(k \<mapsto> v))"
| "map_run (Del k # ops) m = map_run ops (m(k := None))"

fun put_keys :: "('k, 'v) table_op list \<Rightarrow> 'k set" where
  "put_keys [] = {}"
| "put_keys (Put k v # ops) = insert k (put_keys ops)"
| "put_keys (Del k # ops) = put_keys ops"

lemma finite_put_keys [simp]: "finite (put_keys ops)"
  by (induction ops rule: put_keys.induct) auto

text \<open>While the keys ever put fit the table, no put is refused and the run tracks the map.\<close>

lemma um_run_map:
  assumes "um_inv t" "dom (um_find t) \<subseteq> K" "put_keys ops \<subseteq> K" "finite K" "card K \<le> length (slots t)"
  shows "um_inv (um_run ops t) \<and> um_find (um_run ops t) = map_run ops (um_find t)"
  using assms
proof (induction ops t rule: um_run.induct)
  case (2 k v ops t)
  obtain t' ok where ins: "um_insert t k v = (t', ok)" by fastforce
  have ok
  proof (rule ccontr)
    assume "\<not> ok"
    with um_insert_full [OF "2.prems"(1)] ins
    have full: "um_find t k = None" "count t = length (slots t)" by auto
    then have "dom (um_find t) \<subset> K" using "2.prems"(2,3) by auto
    then have "card (dom (um_find t)) < card K" using "2.prems"(4) by (rule psubset_card_mono [rotated])
    with full(2) count_card [OF "2.prems"(1)] "2.prems"(5) show False by simp
  qed
  with ins um_insert_ok [OF "2.prems"(1), of k v t']
  have t': "um_inv t'" "um_find t' = (um_find t)(k \<mapsto> v)" by auto
  have "length (slots t') = length (slots t)" using length_slots_ops(1) [of t k v] ins by simp
  moreover have "dom (um_find t') \<subseteq> K" using "2.prems"(2,3) t'(2) by auto
  ultimately have "um_inv (um_run ops t') \<and> um_find (um_run ops t') = map_run ops (um_find t')"
    using "2.IH" t'(1) "2.prems" ins by simp
  then show ?case by (simp only: um_run.simps map_run.simps ins fst_conv t'(2))
next
  case (3 k ops t)
  let ?t = "fst (um_erase t k)"
  have t: "um_inv ?t" "um_find ?t = (um_find t)(k := None)"
    using um.inv_era [OF "3.prems"(1)] um.lookup_era [OF "3.prems"(1)] by auto
  moreover have "dom (um_find ?t) \<subseteq> K" using "3.prems"(2) t(2) by auto
  ultimately have "um_inv (um_run ops ?t) \<and> um_find (um_run ops ?t) = map_run ops (um_find ?t)"
    using "3.IH" [OF t(1) _ _ "3.prems"(4)] "3.prems"(3,5) by (simp only: length_slots_ops put_keys.simps)
  then show ?case by (simp only: um_run.simps map_run.simps t(2))
qed simp

text \<open>Which node each operation hands to the RCU domain.\<close>

lemma um_insert_node:
  assumes inv: "um_inv t"
  shows "retired (fst (um_insert t k w)) =
           retired t @ (case um_find t k of None \<Rightarrow> [] | Some v \<Rightarrow> [(k, v)])"
proof (cases "insert_probe (slots t) (um_mask t) k (index_of (um_mask t) k) None (Suc (um_mask t))")
  case (Replace i)
  from insert_probe_lands(1) [OF inv Replace] obtain v where
    i: "i < length (slots t)" "slots t ! i = Live k v" by auto
  with Replace find_live_nth [OF inv i] show ?thesis by (simp add: um_insert_def)
next
  case (Free f)
  from insert_probe_lands(2) [OF inv Free] have "\<forall>v. um_find t k \<noteq> Some v"
    by (simp add: um_find_iff [OF inv])
  then have "um_find t k = None" by (metis not_None_eq)
  with Free show ?thesis by (simp add: um_insert_def)
next
  case Full
  from insert_probe_lands(3) [OF inv Full] have "\<forall>v. um_find t k \<noteq> Some v"
    by (simp add: um_find_iff [OF inv])
  then have "um_find t k = None" by (metis not_None_eq)
  with Full show ?thesis by (simp add: um_insert_def)
qed

section \<open>Properties\<close>

text \<open>C11: the open-addressing table is a partial map. Starting from the empty table built for
  \<open>capacity\<close> entries, after any sequence of inserts (or replacements) and erases that touches at
  most \<open>2 * capacity\<close> distinct keys, no insert is refused and a look-up of any key returns exactly
  what the corresponding sequence of map updates would hold.\<close>

theorem um_refines_map:
  assumes "card (put_keys ops) \<le> 2 * capacity"
  shows "um_find (um_run ops (um_new capacity)) key = map_run ops Map.empty key"
proof -
  let ?t = "um_new capacity :: ('a word, 'b) upf_map"
  have "card (put_keys ops) \<le> length (slots ?t)"
    using assms slots_new [of capacity, where ?'k = "'a word" and ?'v = 'b] by simp
  from um_run_map [OF um_new_inv _ subset_refl finite_put_keys this]
  show ?thesis by (simp add: um_new_empty)
qed

theorem um_refines_map_witness:
  "um_find (um_run [Put 5 ''a'', Put 7 ''b'', Del 5, Put 7 ''c''] (um_new 1)) (7 :: u32) = Some ''c''"
  using um_refines_map [of "[Put 5 ''a'', Put 7 ''b'', Del 5, Put 7 ''c'']" 1 "7 :: u32"]
  by (simp add: card_insert_if)

text \<open>Unlink before retire. Erasing a key, and inserting over a key already present, hand to
  the RCU domain exactly the node that held the key, once, and by then no look-up can return it:
  the table answers nothing (after an erase) or the new value (after an insert).\<close>

lemma um_retires_unlinked:
  assumes "um_inv t"
  shows "retired (fst (um_erase t k)) =
           retired t @ (case um_find t k of None \<Rightarrow> [] | Some v \<Rightarrow> [(k, v)]) \<and>
         um_find (fst (um_erase t k)) k = None \<and>
         retired (fst (um_insert t k w)) =
           retired t @ (case um_find t k of None \<Rightarrow> [] | Some v \<Rightarrow> [(k, v)]) \<and>
         (um_find t k \<noteq> None \<longrightarrow> um_find (fst (um_insert t k w)) k = Some w)"
proof -
  have erase: "retired (fst (um_erase t k)) =
      retired t @ (case um_find t k of None \<Rightarrow> [] | Some v \<Rightarrow> [(k, v)])"
    using um_erase_node [OF assms] by simp
  have insert: "retired (fst (um_insert t k w)) =
      retired t @ (case um_find t k of None \<Rightarrow> [] | Some v \<Rightarrow> [(k, v)])"
    using um_insert_node [OF assms] by simp
  show ?thesis
    using erase insert um.lookup_era [OF assms, of k] um.ins_present [OF assms, of k w]
      um.lookup_ins_same [OF assms, of k w] by simp
qed

end
