(* ===== verification/UpfRcu.thy ===== *)
theory UpfRcu
  imports Prelude
begin

text \<open>
  Epoch-based reclamation (\<open>simpleswitch/upf_rcu.hpp\<close>). The first part translates the operations
  of \<open>rcu_domain\<close> and the process-wide slot bookkeeping. The second part runs them as a step
  relation in which reader threads and the writer's scan interleave slot by slot (sequentially
  consistent memory), and proves the safety of the protocol: no object is freed while a reader
  that obtained it is still inside its critical section.
\<close>

section \<open>The domain\<close>

definition MAX_READERS :: nat where "MAX_READERS = 128"

definition UINT64_MAX :: u64 where "UINT64_MAX = - 1"

text \<open>A deleter is identified with the object it frees.\<close>

record 'o rcu_domain =
  epochs :: "u64 list"
  global_epoch :: u64
  retire_list :: "(u64 \<times> 'o) list"

definition rcu_new :: "'o rcu_domain" where
  "rcu_new = \<lparr>epochs = replicate MAX_READERS 0, global_epoch = 1, retire_list = []\<rparr>"

record slot_book =
  high_water :: nat
  free_slots :: "nat list"

text \<open>\<open>None\<close> is the \<open>std::abort()\<close> on more than \<open>MAX_READERS\<close> threads. The vector's back is the
  list's last element.\<close>

definition claim_thread_slot :: "slot_book \<Rightarrow> (slot_book \<times> nat) option" where
  "claim_thread_slot b =
     (if free_slots b \<noteq> [] then Some (b\<lparr>free_slots := butlast (free_slots b)\<rparr>, last (free_slots b))
      else if MAX_READERS \<le> high_water b then None
      else Some (b\<lparr>high_water := high_water b + 1\<rparr>, high_water b))"

definition release_thread_slot :: "slot_book \<Rightarrow> nat \<Rightarrow> slot_book" where
  "release_thread_slot b idx = b\<lparr>free_slots := free_slots b @ [idx]\<rparr>"

text \<open>\<open>read_lock\<close> loads the global epoch and stores it in the thread's slot; \<open>e\<close> is the loaded value.\<close>

definition read_lock :: "'o rcu_domain \<Rightarrow> nat \<Rightarrow> u64 \<Rightarrow> 'o rcu_domain" where
  "read_lock d idx e = d\<lparr>epochs := (epochs d)[idx := e]\<rparr>"

definition read_unlock :: "'o rcu_domain \<Rightarrow> nat \<Rightarrow> 'o rcu_domain" where
  "read_unlock d idx = d\<lparr>epochs := (epochs d)[idx := 0]\<rparr>"

text \<open>The body of the scan in \<open>oldest_active_epoch\<close>, and the loop over the slots handed out.\<close>

definition scan_slot :: "u64 list \<Rightarrow> nat \<Rightarrow> u64 \<Rightarrow> u64" where
  "scan_slot es i oldest = (let e = es ! i in if e \<noteq> 0 \<and> e < oldest then e else oldest)"

fun scan_from :: "u64 list \<Rightarrow> nat \<Rightarrow> nat \<Rightarrow> u64 \<Rightarrow> u64" where
  "scan_from es i 0 oldest = oldest"
| "scan_from es i (Suc n) oldest = scan_from es (Suc i) n (scan_slot es i oldest)"

definition scan_upto :: "slot_book \<Rightarrow> nat" where
  "scan_upto b = (if high_water b < MAX_READERS then high_water b else MAX_READERS)"

definition oldest_active_epoch :: "slot_book \<Rightarrow> 'o rcu_domain \<Rightarrow> u64" where
  "oldest_active_epoch b d = scan_from (epochs d) 0 (scan_upto b) UINT64_MAX"

text \<open>
  \<open>reclaim_locked\<close> compacts the vector in place: entry \<open>i\<close> is either run, or moved down to \<open>keep\<close>.
  \<open>n\<close> counts the entries still to visit; the result is the vector, \<open>keep\<close>, and the objects freed.
\<close>

fun compact :: "u64 \<Rightarrow> nat \<Rightarrow> nat \<Rightarrow> nat \<Rightarrow> (u64 \<times> 'o) list \<Rightarrow> 'o list \<Rightarrow>
    (u64 \<times> 'o) list \<times> nat \<times> 'o list" where
  "compact safe i 0 keep xs freed = (xs, keep, freed)"
| "compact safe i (Suc n) keep xs freed =
     (if fst (xs ! i) < safe then compact safe (Suc i) n keep xs (freed @ [snd (xs ! i)])
      else compact safe (Suc i) n (Suc keep) (if keep \<noteq> i then xs[keep := xs ! i] else xs) freed)"

definition reclaim_with :: "u64 \<Rightarrow> 'o rcu_domain \<Rightarrow> 'o rcu_domain \<times> 'o list" where
  "reclaim_with safe d =
     (case compact safe 0 (length (retire_list d)) 0 (retire_list d) [] of
        (xs, keep, freed) \<Rightarrow> (d\<lparr>retire_list := take keep xs\<rparr>, freed))"

definition reclaim_locked :: "slot_book \<Rightarrow> 'o rcu_domain \<Rightarrow> 'o rcu_domain \<times> 'o list" where
  "reclaim_locked b d =
     (if retire_list d = [] then (d, []) else reclaim_with (oldest_active_epoch b d) d)"

definition retire_push :: "'o rcu_domain \<Rightarrow> 'o \<Rightarrow> 'o rcu_domain" where
  "retire_push d x =
     (let e = global_epoch d + 1
      in d\<lparr>global_epoch := e, retire_list := retire_list d @ [(e, x)]\<rparr>)"

definition retire :: "slot_book \<Rightarrow> 'o rcu_domain \<Rightarrow> 'o \<Rightarrow> 'o rcu_domain \<times> 'o list" where
  "retire b d x = reclaim_locked b (retire_push d x)"

definition pending :: "'o rcu_domain \<Rightarrow> nat" where
  "pending d = length (retire_list d)"

text \<open>The destructor runs every outstanding deleter.\<close>

definition rcu_destroy :: "'o rcu_domain \<Rightarrow> 'o rcu_domain \<times> 'o list" where
  "rcu_destroy d = (d\<lparr>retire_list := []\<rparr>, map snd (retire_list d))"

section \<open>The scan and the compaction\<close>

lemma scan_slot_le: "scan_slot es i old \<le> old"
  by (simp add: scan_slot_def Let_def order_less_imp_le)

lemma scan_slot_hit: "es ! i \<noteq> 0 \<Longrightarrow> scan_slot es i old \<le> es ! i"
  by (simp add: scan_slot_def Let_def not_less)

lemma scan_from_le: "scan_from es i n old \<le> old"
  by (induction n arbitrary: i old) (auto intro: order_trans [OF _ scan_slot_le])

lemma scan_from_hit:
  "i \<le> j \<Longrightarrow> j < i + n \<Longrightarrow> es ! j \<noteq> 0 \<Longrightarrow> scan_from es i n old \<le> es ! j"
proof (induction n arbitrary: i old)
  case (Suc n)
  then show ?case
    by (cases "i = j") (auto intro: order_trans [OF scan_from_le scan_slot_hit])
qed simp

lemma scan_from_value: "scan_from es i n old = old \<or> (\<exists>j. i \<le> j \<and> j < i + n \<and> es ! j \<noteq> 0 \<and> scan_from es i n old = es ! j)"
proof (induction n arbitrary: i old)
  case (Suc n)
  from Suc [of "Suc i" "scan_slot es i old"] show ?case
    by (auto simp: scan_slot_def Let_def split: if_splits)
       (metis Suc_leD add_Suc_right le_refl less_add_Suc1)+
qed simp

lemma compact_filter:
  assumes "xs = kept @ junk @ rest" "length kept = keep" "i = keep + length junk"
  shows "\<exists>ys. compact safe i (length rest) keep xs freed =
           (kept @ filter (\<lambda>r. \<not> fst r < safe) rest @ ys,
            keep + length (filter (\<lambda>r. \<not> fst r < safe) rest),
            freed @ map snd (filter (\<lambda>r. fst r < safe) rest))"
  using assms
proof (induction rest arbitrary: xs kept junk keep i freed)
  case Nil
  then show ?case by simp
next
  case (Cons r rest)
  have nth: "xs ! i = r" using Cons.prems by (simp add: nth_append)
  show ?case
  proof (cases "fst r < safe")
    case True
    have "\<exists>ys. compact safe (Suc i) (length rest) keep xs (freed @ [snd r]) =
           (kept @ filter (\<lambda>r. \<not> fst r < safe) rest @ ys,
            keep + length (filter (\<lambda>r. \<not> fst r < safe) rest),
            (freed @ [snd r]) @ map snd (filter (\<lambda>r. fst r < safe) rest))"
      by (rule Cons.IH [of _ _ "junk @ [r]"]) (use Cons.prems in auto)
    then show ?thesis using True nth by simp
  next
    case False
    let ?xs = "if keep \<noteq> i then xs[keep := xs ! i] else xs"
    let ?junk = "if junk = [] then [] else tl junk @ [r]"
    have "\<exists>ys. compact safe (Suc i) (length rest) (Suc keep) ?xs freed =
           ((kept @ [r]) @ filter (\<lambda>r. \<not> fst r < safe) rest @ ys,
            Suc keep + length (filter (\<lambda>r. \<not> fst r < safe) rest),
            freed @ map snd (filter (\<lambda>r. fst r < safe) rest))"
    proof (rule Cons.IH [of _ _ ?junk])
      show "?xs = (kept @ [r]) @ ?junk @ rest"
        using Cons.prems nth by (cases junk) (auto simp: list_update_append)
      show "Suc i = Suc keep + length ?junk" using Cons.prems by (cases junk) auto
    qed (use Cons.prems in simp)
    then show ?thesis using False nth by simp
  qed
qed

text \<open>The in-place loop keeps, in order, exactly the entries that are not yet safe.\<close>

lemma reclaim_with_eq:
  "reclaim_with safe d =
     (d\<lparr>retire_list := filter (\<lambda>r. \<not> fst r < safe) (retire_list d)\<rparr>,
      map snd (filter (\<lambda>r. fst r < safe) (retire_list d)))"
  using compact_filter [of "retire_list d" "[]" "[]" "retire_list d" 0 0 safe "[]"]
  by (auto simp: reclaim_with_def)

section \<open>Threads and the writer, step by step\<close>

text \<open>
  \<open>WScan lim i old\<close>: the writer holds \<open>retire_mu_\<close> and has read the slots below \<open>i\<close>. A reader
  thread first loads the global epoch (relaxed, so any earlier value may be returned), then
  stores it, then may obtain objects that are linked in a map.
\<close>

datatype wpc = WIdle | WScan nat nat u64

record 'o rcu_sys =
  rdom :: "'o rcu_domain"
  book :: slot_book
  ticket :: "nat \<rightharpoonup> nat"
  loaded :: "nat \<rightharpoonup> u64"
  inside :: "nat set"
  held :: "nat \<Rightarrow> 'o set"
  linked :: "'o set"
  unlinked :: "'o set"
  freed :: "'o set"
  wstate :: wpc
  n_retired :: nat

definition rcu_init :: "'o rcu_sys" where
  "rcu_init = \<lparr>rdom = rcu_new, book = \<lparr>high_water = 0, free_slots = []\<rparr>, ticket = Map.empty,
     loaded = Map.empty, inside = {}, held = (\<lambda>_. {}), linked = {}, unlinked = {}, freed = {},
     wstate = WIdle, n_retired = 0\<rparr>"

inductive rstep :: "'o rcu_sys \<Rightarrow> 'o rcu_sys \<Rightarrow> bool" where
  thread_start: "ticket s t = None \<Longrightarrow> claim_thread_slot (book s) = Some (b, i) \<Longrightarrow>
    rstep s (s\<lparr>book := b, ticket := (ticket s)(t \<mapsto> i)\<rparr>)"
| thread_exit: "ticket s t = Some i \<Longrightarrow> t \<notin> inside s \<Longrightarrow> loaded s t = None \<Longrightarrow>
    rstep s (s\<lparr>book := release_thread_slot (book s) i, ticket := (ticket s)(t := None)\<rparr>)"
| lock_load: "ticket s t = Some i \<Longrightarrow> t \<notin> inside s \<Longrightarrow> e \<noteq> 0 \<Longrightarrow> e \<le> global_epoch (rdom s) \<Longrightarrow>
    rstep s (s\<lparr>loaded := (loaded s)(t \<mapsto> e)\<rparr>)"
| lock_store: "ticket s t = Some i \<Longrightarrow> t \<notin> inside s \<Longrightarrow> loaded s t = Some e \<Longrightarrow>
    rstep s (s\<lparr>rdom := read_lock (rdom s) i e, loaded := (loaded s)(t := None),
               inside := insert t (inside s)\<rparr>)"
| obtain_object: "t \<in> inside s \<Longrightarrow> x \<in> linked s \<Longrightarrow>
    rstep s (s\<lparr>held := (held s)(t := insert x (held s t))\<rparr>)"
| unlock: "t \<in> inside s \<Longrightarrow> ticket s t = Some i \<Longrightarrow>
    rstep s (s\<lparr>rdom := read_unlock (rdom s) i, inside := inside s - {t},
               held := (held s)(t := {})\<rparr>)"
| link: "x \<notin> linked s \<union> unlinked s \<union> freed s \<union> snd ` set (retire_list (rdom s)) \<Longrightarrow>
    rstep s (s\<lparr>linked := insert x (linked s)\<rparr>)"
| unlink: "x \<in> linked s \<Longrightarrow>
    rstep s (s\<lparr>linked := linked s - {x}, unlinked := insert x (unlinked s)\<rparr>)"
| retire_object: "wstate s = WIdle \<Longrightarrow> x \<in> unlinked s \<Longrightarrow>
    rstep s (s\<lparr>rdom := retire_push (rdom s) x, unlinked := unlinked s - {x},
               wstate := WScan (scan_upto (book s)) 0 UINT64_MAX, n_retired := Suc (n_retired s)\<rparr>)"
| reclaim_begin: "wstate s = WIdle \<Longrightarrow> retire_list (rdom s) \<noteq> [] \<Longrightarrow>
    rstep s (s\<lparr>wstate := WScan (scan_upto (book s)) 0 UINT64_MAX\<rparr>)"
| reclaim_scan: "wstate s = WScan lim i old \<Longrightarrow> i < lim \<Longrightarrow>
    rstep s (s\<lparr>wstate := WScan lim (Suc i) (scan_slot (epochs (rdom s)) i old)\<rparr>)"
| reclaim_end: "wstate s = WScan lim i old \<Longrightarrow> lim \<le> i \<Longrightarrow> reclaim_with old (rdom s) = (d, xs) \<Longrightarrow>
    rstep s (s\<lparr>rdom := d, freed := freed s \<union> set xs, wstate := WIdle\<rparr>)"

definition rcu_reachable :: "'o rcu_sys \<Rightarrow> bool" where
  "rcu_reachable s = rstep\<^sup>*\<^sup>* rcu_init s"

section \<open>Invariants\<close>

definition slots_inv :: "'o rcu_sys \<Rightarrow> bool" where
  "slots_inv s \<longleftrightarrow>
     inj_on (ticket s) (dom (ticket s)) \<and> distinct (free_slots (book s)) \<and>
     (\<forall>i \<in> ran (ticket s). i < high_water (book s) \<and> i \<notin> set (free_slots (book s))) \<and>
     (\<forall>i \<in> set (free_slots (book s)). i < high_water (book s)) \<and>
     high_water (book s) \<le> MAX_READERS \<and> length (epochs (rdom s)) = MAX_READERS \<and>
     inside s \<subseteq> dom (ticket s) \<and>
     (\<forall>j < MAX_READERS. epochs (rdom s) ! j \<noteq> 0 \<longrightarrow> (\<exists>t \<in> inside s. ticket s t = Some j))"

definition epoch_inv :: "'o rcu_sys \<Rightarrow> bool" where
  "epoch_inv s \<longleftrightarrow>
     unat (global_epoch (rdom s)) = Suc (n_retired s) \<and>
     (\<forall>t e. loaded s t = Some e \<longrightarrow> e \<noteq> 0 \<and> e \<le> global_epoch (rdom s)) \<and>
     (\<forall>t \<in> inside s. \<forall>i. ticket s t = Some i \<longrightarrow>
        epochs (rdom s) ! i \<noteq> 0 \<and> epochs (rdom s) ! i \<le> global_epoch (rdom s)) \<and>
     (\<forall>(e, x) \<in> set (retire_list (rdom s)). e \<le> global_epoch (rdom s))"

definition own_inv :: "'o rcu_sys \<Rightarrow> bool" where
  "own_inv s \<longleftrightarrow>
     linked s \<inter> unlinked s = {} \<and> (linked s \<union> unlinked s) \<inter> freed s = {} \<and>
     snd ` set (retire_list (rdom s)) \<inter> (linked s \<union> unlinked s \<union> freed s) = {} \<and>
     distinct (map snd (retire_list (rdom s))) \<and> (\<forall>t. t \<notin> inside s \<longrightarrow> held s t = {})"

definition held_inv :: "'o rcu_sys \<Rightarrow> bool" where
  "held_inv s \<longleftrightarrow>
     (\<forall>t \<in> inside s. \<forall>i x. ticket s t = Some i \<longrightarrow> x \<in> held s t \<longrightarrow>
        x \<in> linked s \<union> unlinked s \<union> snd ` set (retire_list (rdom s)) \<and>
        (\<forall>e. (e, x) \<in> set (retire_list (rdom s)) \<longrightarrow>
           epochs (rdom s) ! i < e \<and>
           (\<forall>lim j old. wstate s = WScan lim j old \<longrightarrow> j \<le> i \<and> i < lim \<or> old \<le> epochs (rdom s) ! i)))"

definition rcu_inv :: "'o rcu_sys \<Rightarrow> bool" where
  "rcu_inv s \<longleftrightarrow> slots_inv s \<and> epoch_inv s \<and> own_inv s \<and> held_inv s"

lemma slots_invD:
  assumes "slots_inv s"
  shows "inj_on (ticket s) (dom (ticket s))" "distinct (free_slots (book s))"
    "i \<in> ran (ticket s) \<Longrightarrow> i < high_water (book s) \<and> i \<notin> set (free_slots (book s))"
    "i \<in> set (free_slots (book s)) \<Longrightarrow> i < high_water (book s)"
    "high_water (book s) \<le> MAX_READERS" "length (epochs (rdom s)) = MAX_READERS"
    "t \<in> inside s \<Longrightarrow> \<exists>i. ticket s t = Some i"
    "j < MAX_READERS \<Longrightarrow> epochs (rdom s) ! j \<noteq> 0 \<Longrightarrow> \<exists>t \<in> inside s. ticket s t = Some j"
  using assms unfolding slots_inv_def by auto

lemma claim_thread_slot_cases:
  assumes "claim_thread_slot b = Some (b', i)"
  obtains "free_slots b \<noteq> []" "i = last (free_slots b)" "b' = b\<lparr>free_slots := butlast (free_slots b)\<rparr>"
  | "free_slots b = []" "high_water b < MAX_READERS" "i = high_water b"
    "b' = b\<lparr>high_water := high_water b + 1\<rparr>"
  using assms by (auto simp: claim_thread_slot_def split: if_splits)

lemma read_simps [simp]:
  "epochs (read_lock d i e) = (epochs d)[i := e]" "epochs (read_unlock d i) = (epochs d)[i := 0]"
  "global_epoch (read_lock d i e) = global_epoch d" "global_epoch (read_unlock d i) = global_epoch d"
  "retire_list (read_lock d i e) = retire_list d" "retire_list (read_unlock d i) = retire_list d"
  by (simp_all add: read_lock_def read_unlock_def)

lemma retire_push_simps [simp]:
  "epochs (retire_push d x) = epochs d" "global_epoch (retire_push d x) = global_epoch d + 1"
  "retire_list (retire_push d x) = retire_list d @ [(global_epoch d + 1, x)]"
  by (simp_all add: retire_push_def Let_def)

lemma claim_fresh:
  assumes "slots_inv s" "claim_thread_slot (book s) = Some (b, i)"
  shows "i \<notin> ran (ticket s)" "i \<notin> set (free_slots b)" "i < high_water b"
    "high_water (book s) \<le> high_water b" "high_water b \<le> MAX_READERS"
    "distinct (free_slots b)" "set (free_slots b) \<subseteq> set (free_slots (book s))"
proof -
  note I = assms(1) [unfolded slots_inv_def]
  have "i \<notin> ran (ticket s) \<and> i \<notin> set (free_slots b) \<and> i < high_water b \<and>
    high_water (book s) \<le> high_water b \<and> high_water b \<le> MAX_READERS \<and>
    distinct (free_slots b) \<and> set (free_slots b) \<subseteq> set (free_slots (book s))"
    using assms(2)
  proof (cases rule: claim_thread_slot_cases)
    case 1
    let ?f = "free_slots (book s)"
    have f: "?f = butlast ?f @ [i]" using 1 by simp
    then have "i \<in> set ?f" by (metis in_set_conv_decomp)
    moreover have "distinct (butlast ?f @ [i])" using I f by simp
    moreover have "set (butlast ?f) \<subseteq> set ?f" by (auto dest: in_set_butlastD)
    ultimately show ?thesis using I 1(3) by auto
  next
    case 2
    then show ?thesis using I by auto
  qed
  then show "i \<notin> ran (ticket s)" "i \<notin> set (free_slots b)" "i < high_water b"
    "high_water (book s) \<le> high_water b" "high_water b \<le> MAX_READERS"
    "distinct (free_slots b)" "set (free_slots b) \<subseteq> set (free_slots (book s))" by blast+
qed

lemma ticket_inj:
  "slots_inv s \<Longrightarrow> ticket s t = Some i \<Longrightarrow> ticket s u = Some i \<Longrightarrow> t = u"
  unfolding slots_inv_def inj_on_def by (metis domI)

lemma ticket_bound: "slots_inv s \<Longrightarrow> ticket s t = Some i \<Longrightarrow> i < high_water (book s) \<and> i < MAX_READERS"
  using slots_invD(3) [OF _ ranI, of s t i] slots_invD(5) [of s] by simp

text \<open>One thread per slot, through every step.\<close>

lemma slots_inv_step:
  assumes "rstep s s'" "slots_inv s"
  shows "slots_inv s'"
  using assms
proof (cases rule: rstep.cases)
  case (thread_start t b i)
  note F = claim_fresh [OF assms(2) thread_start(3)]
  have inj: "inj_on ((ticket s)(t \<mapsto> i)) (insert t (dom (ticket s)))"
    using assms(2) F(1) thread_start(2) unfolding slots_inv_def inj_on_def
    by (auto simp: ran_def)
  have "t \<notin> inside s" using assms(2) thread_start(2) by (auto simp: slots_inv_def)
  then have keep: "\<forall>u\<in>inside s. u \<noteq> t" by auto
  have ran: "ran ((ticket s)(t \<mapsto> i)) = insert i (ran (ticket s))"
    using thread_start(2) by simp
  show ?thesis
    using assms(2) F inj thread_start(2) ran keep unfolding slots_inv_def thread_start(1)
    by (auto simp: subset_iff dest: order.strict_trans2)
next
  case (thread_exit t i)
  have i: "i < high_water (book s)" "i \<notin> set (free_slots (book s))"
    using assms(2) thread_exit(2) unfolding slots_inv_def by (auto intro: ranI)
  have ni: "i \<notin> ran ((ticket s)(t := None))"
    using ticket_inj [OF assms(2) thread_exit(2)] by (auto simp: ran_def)
  have inj: "inj_on ((ticket s)(t := None)) (dom (ticket s) - {t})"
    using assms(2) unfolding slots_inv_def by (auto simp: inj_on_def)
  have ran: "ran ((ticket s)(t := None)) \<subseteq> ran (ticket s)" by (auto simp: ran_def split: if_splits)
  show ?thesis
    using assms(2) i ni inj ran thread_exit(3) unfolding slots_inv_def thread_exit(1)
    by (auto simp: release_thread_slot_def)
next
  case (lock_store t i e)
  then show ?thesis using assms(2) ticket_bound [OF assms(2) lock_store(2)]
    unfolding slots_inv_def by (auto simp: nth_list_update)
next
  case (unlock t i)
  have other: "\<exists>u\<in>inside s - {t}. ticket s u = Some j"
    if "j < MAX_READERS" "epochs (rdom s) ! j \<noteq> 0" "j \<noteq> i" for j
    using slots_invD(8) [OF assms(2) that(1,2)] that(3) unlock(3) by auto
  show ?thesis using assms(2) ticket_bound [OF assms(2) unlock(3)] other
    unfolding slots_inv_def unlock(1) by (auto simp: nth_list_update)
next
  case (reclaim_end lim i old d xs)
  then have "epochs d = epochs (rdom s)" by (auto simp: reclaim_with_eq)
  then show ?thesis using assms(2) unfolding slots_inv_def reclaim_end(1) by simp
qed (use assms(2) in \<open>simp_all add: slots_inv_def\<close>)

text \<open>Epochs only grow while the 64-bit counter has not wrapped.\<close>

lemma n_retired_mono: "rstep s s' \<Longrightarrow> n_retired s \<le> n_retired s'"
  by (cases rule: rstep.cases) auto

definition no_wrap :: "'o rcu_sys \<Rightarrow> bool" where
  "no_wrap s \<longleftrightarrow> n_retired s < 2 ^ 64 - 1"

lemma no_wrap_step: "rstep s s' \<Longrightarrow> no_wrap s' \<Longrightarrow> no_wrap s"
  unfolding no_wrap_def by (drule n_retired_mono) simp

lemma epoch_incr:
  assumes "unat (g :: u64) = Suc n" "Suc n < 2 ^ 64 - 1"
  shows "unat (g + 1) = Suc (Suc n)" "g < g + 1"
proof -
  have "unat g + unat (1 :: u64) < 2 ^ LENGTH(64)" using assms by simp
  then have "unat (g + 1) = unat g + unat (1 :: u64)" using unat_add_lem by blast
  then show "unat (g + 1) = Suc (Suc n)" using assms(1) by simp
  then show "g < g + 1" using assms(1) by (simp add: word_less_nat_alt)
qed

lemma epoch_inv_step:
  assumes "rstep s s'" "slots_inv s" "epoch_inv s" "no_wrap s'"
  shows "epoch_inv s'"
  using assms(1)
proof (cases rule: rstep.cases)
  case (thread_start t b i)
  have "t \<notin> inside s" using slots_invD(7) [OF assms(2), of t] thread_start(2) by auto
  then show ?thesis using assms(3) unfolding epoch_inv_def thread_start(1) by auto
next
  case (lock_store t i e)
  have len: "i < length (epochs (rdom s))"
    using ticket_bound [OF assms(2) lock_store(2)] slots_invD(6) [OF assms(2)] by simp
  have at: "(epochs (rdom s))[i := e] ! j = (if u = t then e else epochs (rdom s) ! j)"
    if u: "ticket s u = Some j" for u j
  proof (cases "j = i")
    case True
    with ticket_inj [OF assms(2) _ lock_store(2), of u] u have "u = t" by simp
    with True len show ?thesis by simp
  next
    case False
    with u lock_store(2) have "u \<noteq> t" by auto
    with False show ?thesis by simp
  qed
  have "e \<noteq> 0 \<and> e \<le> global_epoch (rdom s)" using assms(3) lock_store(4) by (auto simp: epoch_inv_def)
  then show ?thesis using assms(3) unfolding epoch_inv_def lock_store(1) by (auto simp: at)
next
  case (unlock t i)
  have "u = t" if "ticket s u = Some i" for u using ticket_inj [OF assms(2) that unlock(3)] .
  then have "epochs (read_unlock (rdom s) i) ! j = epochs (rdom s) ! j"
    if "u \<in> inside s - {t}" "ticket s u = Some j" for u j
    using that by (metis DiffD2 nth_list_update_neq read_simps(2) singletonI)
  then show ?thesis using assms(3) unfolding epoch_inv_def unlock(1) by auto
next
  case (retire_object x)
  have nw: "Suc (n_retired s) < 2 ^ 64 - 1" using assms(4) by (simp add: no_wrap_def retire_object(1))
  have g: "unat (global_epoch (rdom s)) = Suc (n_retired s)" using assms(3) by (simp add: epoch_inv_def)
  note I = epoch_incr [OF g nw]
  then have "e \<le> global_epoch (rdom s) + 1" if "e \<le> global_epoch (rdom s)" for e
    using that by (meson order.strict_trans1 order_less_imp_le)
  then show ?thesis using assms(3) I(1) unfolding epoch_inv_def retire_object(1) by auto
next
  case (reclaim_end lim i old d xs)
  then have "d = rdom s\<lparr>retire_list := filter (\<lambda>r. \<not> fst r < old) (retire_list (rdom s))\<rparr>"
    by (auto simp: reclaim_with_eq)
  then show ?thesis using assms(3) unfolding epoch_inv_def reclaim_end(1) by auto
qed (use assms(3) in \<open>auto simp: epoch_inv_def release_thread_slot_def\<close>)

lemma own_inv_step:
  assumes "rstep s s'" "slots_inv s" "own_inv s"
  shows "own_inv s'"
  using assms(1)
proof (cases rule: rstep.cases)
  case (reclaim_end lim i old d xs)
  then have d: "d = rdom s\<lparr>retire_list := filter (\<lambda>r. \<not> fst r < old) (retire_list (rdom s))\<rparr>"
    "xs = map snd (filter (\<lambda>r. fst r < old) (retire_list (rdom s)))"
    by (auto simp: reclaim_with_eq)
  have dist: "distinct (map snd (retire_list (rdom s)))" using assms(3) by (simp add: own_inv_def)
  then have "inj_on snd (set (retire_list (rdom s)))" by (simp add: distinct_map)
  then have "snd ` set (retire_list d) \<inter> set xs = {}"
    by (auto simp: d inj_on_def)
  moreover have "distinct (map snd (retire_list d))"
    using dist by (simp add: d distinct_map_filter)
  ultimately show ?thesis using assms(3) unfolding own_inv_def reclaim_end(1)
    by (auto simp: d)
qed (use assms(3) in \<open>auto simp: own_inv_def\<close>)

lemma held_invD:
  assumes "held_inv s" "t \<in> inside s" "ticket s t = Some i" "x \<in> held s t"
  shows "x \<in> linked s \<union> unlinked s \<union> snd ` set (retire_list (rdom s))"
    "(e, x) \<in> set (retire_list (rdom s)) \<Longrightarrow> epochs (rdom s) ! i < e"
    "(e, x) \<in> set (retire_list (rdom s)) \<Longrightarrow> wstate s = WScan lim j old \<Longrightarrow>
       j \<le> i \<and> i < lim \<or> old \<le> epochs (rdom s) ! i"
  using assms unfolding held_inv_def by blast+

lemma held_invI:
  assumes "\<And>t i x. t \<in> inside s \<Longrightarrow> ticket s t = Some i \<Longrightarrow> x \<in> held s t \<Longrightarrow>
      x \<in> linked s \<union> unlinked s \<union> snd ` set (retire_list (rdom s))"
    "\<And>t i x e. t \<in> inside s \<Longrightarrow> ticket s t = Some i \<Longrightarrow> x \<in> held s t \<Longrightarrow>
      (e, x) \<in> set (retire_list (rdom s)) \<Longrightarrow> epochs (rdom s) ! i < e"
    "\<And>t i x e lim j old. t \<in> inside s \<Longrightarrow> ticket s t = Some i \<Longrightarrow> x \<in> held s t \<Longrightarrow>
      (e, x) \<in> set (retire_list (rdom s)) \<Longrightarrow> wstate s = WScan lim j old \<Longrightarrow>
      j \<le> i \<and> i < lim \<or> old \<le> epochs (rdom s) ! i"
  shows "held_inv s"
  using assms unfolding held_inv_def by blast

text \<open>A step that only moves another thread's slot leaves what a reader holds protected.\<close>

lemma held_inv_slot_change:
  assumes he: "held_inv s" and ep: "epochs (rdom s') = (epochs (rdom s))[i := v]"
    and same: "ticket s' = ticket s" "linked s' = linked s" "unlinked s' = unlinked s"
      "retire_list (rdom s') = retire_list (rdom s)" "wstate s' = wstate s"
    and ne: "\<And>u j x. u \<in> inside s' \<Longrightarrow> ticket s u = Some j \<Longrightarrow> x \<in> held s' u \<Longrightarrow>
       u \<in> inside s \<and> x \<in> held s u \<and> j \<noteq> i"
  shows "held_inv s'"
proof (rule held_invI)
  fix u j x assume "u \<in> inside s'" "ticket s' u = Some j" "x \<in> held s' u"
  then have a: "u \<in> inside s" "ticket s u = Some j" "x \<in> held s u" and "j \<noteq> i" using ne same(1) by auto
  then have e: "epochs (rdom s') ! j = epochs (rdom s) ! j" using ep by simp
  show "x \<in> linked s' \<union> unlinked s' \<union> snd ` set (retire_list (rdom s'))"
    using held_invD(1) [OF he a] same by simp
  show "(e, x) \<in> set (retire_list (rdom s')) \<Longrightarrow> epochs (rdom s') ! j < e" for e
    using held_invD(2) [OF he a, of e] same e by simp
  show "(e, x) \<in> set (retire_list (rdom s')) \<Longrightarrow> wstate s' = WScan lim k old \<Longrightarrow>
      k \<le> j \<and> j < lim \<or> old \<le> epochs (rdom s') ! j" for e lim k old
    using held_invD(3) [OF he a, of e lim k old] same e by simp
qed

lemma scan_upto_covers: "slots_inv s \<Longrightarrow> ticket s t = Some i \<Longrightarrow> i < scan_upto (book s)"
  using ticket_bound [of s t i] by (simp add: scan_upto_def)

lemma held_inv_step:
  assumes step: "rstep s s'" and sl: "slots_inv s" and ep: "epoch_inv s" and ow: "own_inv s"
    and he: "held_inv s" and nw: "no_wrap s'"
  shows "held_inv s'"
  using step
proof (cases rule: rstep.cases)
  case (thread_start t b i)
  have "t \<notin> inside s" using slots_invD(7) [OF sl, of t] thread_start(2) by auto
  then have "ticket s' u = ticket s u" if "u \<in> inside s" for u using that thread_start(1) by auto
  then show ?thesis using held_invD [OF he] by (intro held_invI) (simp_all add: thread_start(1))
next
  case (thread_exit t i)
  then have "ticket s' u = ticket s u" if "u \<in> inside s" for u using that by auto
  then show ?thesis using held_invD [OF he] by (intro held_invI) (simp_all add: thread_exit(1))
next
  case (lock_store t i e)
  have none: "held s t = {}" using ow lock_store(3) by (simp add: own_inv_def)
  have ne: "u \<in> inside s \<and> j \<noteq> i" if "u \<in> insert t (inside s)" "ticket s u = Some j" "x \<in> held s u" for u j x
    using that none ticket_inj [OF sl _ lock_store(2), of u] by auto
  show ?thesis
    by (rule held_inv_slot_change [OF he, of _ i e]) (use ne in \<open>auto simp: lock_store(1)\<close>)
next
  case (obtain_object t x)
  have "x \<notin> snd ` set (retire_list (rdom s))" using ow obtain_object(3) by (auto simp: own_inv_def)
  then have nr: "(e, x) \<notin> set (retire_list (rdom s))" for e by force
  have split: "y \<in> held s u \<or> y = x" if "y \<in> held s' u" for y u
    using that by (auto simp: obtain_object(1) split: if_splits)
  show ?thesis
  proof (rule held_invI)
    fix u j y assume a: "u \<in> inside s'" "ticket s' u = Some j" "y \<in> held s' u"
    then have b: "u \<in> inside s" "ticket s u = Some j" by (simp_all add: obtain_object(1))
    show "y \<in> linked s' \<union> unlinked s' \<union> snd ` set (retire_list (rdom s'))"
      using split [OF a(3)] held_invD(1) [OF he b, of y] obtain_object(3) by (auto simp: obtain_object(1))
    show "(e, y) \<in> set (retire_list (rdom s')) \<Longrightarrow> epochs (rdom s') ! j < e" for e
      using split [OF a(3)] held_invD(2) [OF he b, of y e] nr [of e] by (auto simp: obtain_object(1))
    show "(e, y) \<in> set (retire_list (rdom s')) \<Longrightarrow> wstate s' = WScan lim k old \<Longrightarrow>
        k \<le> j \<and> j < lim \<or> old \<le> epochs (rdom s') ! j" for e lim k old
      using split [OF a(3)] held_invD(3) [OF he b, of y e lim k old] nr [of e] by (auto simp: obtain_object(1))
  qed
next
  case (unlock t i)
  have ne: "u \<in> inside s \<and> j \<noteq> i" if "u \<in> inside s - {t}" "ticket s u = Some j" for u j
    using that ticket_inj [OF sl _ unlock(3), of u] by auto
  show ?thesis
  proof (rule held_inv_slot_change [OF he, of s' i 0])
    fix u j x assume a: "u \<in> inside s'" "ticket s u = Some j" "x \<in> held s' u"
    then have "u \<in> inside s - {t}" by (simp add: unlock(1))
    with ne [OF this a(2)] a(3) show "u \<in> inside s \<and> x \<in> held s u \<and> j \<noteq> i" by (simp add: unlock(1))
  qed (simp_all add: unlock(1))
next
  case (retire_object x)
  let ?g = "global_epoch (rdom s)"
  have "unat ?g = Suc (n_retired s)" using ep by (simp add: epoch_inv_def)
  moreover have "Suc (n_retired s) < 2 ^ 64 - 1" using nw by (simp add: no_wrap_def retire_object(1))
  ultimately have g: "?g < ?g + 1" by (rule epoch_incr(2))
  have "epochs (rdom s) ! i < ?g + 1" if "t \<in> inside s" "ticket s t = Some i" for t i
    using ep that by (intro order.strict_trans1 [OF _ g]) (auto simp: epoch_inv_def)
  note fresh = this
  show ?thesis
  proof (rule held_invI)
    fix t i y assume "t \<in> inside s'" "ticket s' t = Some i" "y \<in> held s' t"
    then have a: "t \<in> inside s" "ticket s t = Some i" "y \<in> held s t" by (simp_all add: retire_object(1))
    show "y \<in> linked s' \<union> unlinked s' \<union> snd ` set (retire_list (rdom s'))"
      using held_invD(1) [OF he a] by (auto simp: retire_object(1))
    show "(e, y) \<in> set (retire_list (rdom s')) \<Longrightarrow> epochs (rdom s') ! i < e" for e
      using held_invD(2) [OF he a, of e] fresh [OF a(1,2)] by (auto simp: retire_object(1))
  qed (use scan_upto_covers [OF sl] in \<open>simp add: retire_object(1)\<close>)
next
  case reclaim_begin
  then show ?thesis
    using held_invD(1,2) [OF he] scan_upto_covers [OF sl] by (intro held_invI) auto
next
  case (reclaim_scan lim k old)
  show ?thesis
  proof (rule held_invI)
    fix t i x e lim' j' old'
    assume a: "t \<in> inside s'" "ticket s' t = Some i" "x \<in> held s' t"
      "(e, x) \<in> set (retire_list (rdom s'))" "wstate s' = WScan lim' j' old'"
    then have b: "lim' = lim" "j' = Suc k" "old' = scan_slot (epochs (rdom s)) k old"
      and c: "t \<in> inside s" "ticket s t = Some i" "x \<in> held s t" "(e, x) \<in> set (retire_list (rdom s))"
      by (simp_all add: reclaim_scan(1))
    have nz: "epochs (rdom s) ! i \<noteq> 0" using ep c(1,2) by (simp add: epoch_inv_def)
    have "k \<le> i \<and> i < lim \<or> old \<le> epochs (rdom s) ! i"
      by (rule held_invD(3) [OF he c reclaim_scan(2)])
    then show "j' \<le> i \<and> i < lim' \<or> old' \<le> epochs (rdom s') ! i"
      using scan_slot_hit [of "epochs (rdom s)" k old] scan_slot_le [of "epochs (rdom s)" k old] nz
      unfolding b by (cases "i = k") (auto simp: reclaim_scan(1) intro: order_trans)
  qed (use held_invD(1,2) [OF he] in \<open>simp_all add: reclaim_scan(1)\<close>)
next
  case (reclaim_end lim k old d xs)
  have d: "d = rdom s\<lparr>retire_list := filter (\<lambda>r. \<not> fst r < old) (retire_list (rdom s))\<rparr>"
    using reclaim_end(4) by (auto simp: reclaim_with_eq)
  have stay: "\<not> e < old" if a: "t \<in> inside s" "ticket s t = Some i" "x \<in> held s t"
    "(e, x) \<in> set (retire_list (rdom s))" for t i x e
  proof -
    have "old \<le> epochs (rdom s) ! i"
      using held_invD(3) [OF he a(1-4) reclaim_end(2)] reclaim_end(3) by auto
    also have "\<dots> < e" by (rule held_invD(2) [OF he a(1-4)])
    finally show ?thesis by simp
  qed
  show ?thesis
  proof (rule held_invI)
    fix t i y assume "t \<in> inside s'" "ticket s' t = Some i" "y \<in> held s' t"
    then have a: "t \<in> inside s" "ticket s t = Some i" "y \<in> held s t" by (simp_all add: reclaim_end(1))
    have "y \<in> snd ` set (retire_list d)" if "(e, y) \<in> set (retire_list (rdom s))" for e
      using stay [OF a that] that by (force simp: d)
    then show "y \<in> linked s' \<union> unlinked s' \<union> snd ` set (retire_list (rdom s'))"
      using held_invD(1) [OF he a] by (auto simp: reclaim_end(1))
    show "(e, y) \<in> set (retire_list (rdom s')) \<Longrightarrow> epochs (rdom s') ! i < e" for e
      using held_invD(2) [OF he a, of e] by (simp add: reclaim_end(1) d)
  qed (simp add: reclaim_end(1))
qed (use held_invD [OF he] in \<open>intro held_invI; auto\<close>)+

lemma rcu_inv_init: "rcu_inv rcu_init"
  by (simp add: rcu_inv_def rcu_init_def rcu_new_def slots_inv_def epoch_inv_def own_inv_def held_inv_def)

lemma rcu_inv_reachable:
  assumes "rcu_reachable s" "no_wrap s"
  shows "rcu_inv s"
  using assms unfolding rcu_reachable_def
proof (induction rule: rtranclp_induct)
  case base
  show ?case by (rule rcu_inv_init)
next
  case (step s s')
  then have I: "rcu_inv s" using no_wrap_step by blast
  then show ?case
    unfolding rcu_inv_def
    using slots_inv_step [OF step(2)] epoch_inv_step [OF step(2)] own_inv_step [OF step(2)]
      held_inv_step [OF step(2)] step.prems by blast
qed

lemma reclaim_all_quiescent:
  assumes "\<forall>j < scan_upto b. epochs d ! j = 0" "\<forall>(e, x) \<in> set (retire_list d). e < UINT64_MAX"
  shows "reclaim_locked b d = (d\<lparr>retire_list := []\<rparr>, map snd (retire_list d))"
proof -
  have "oldest_active_epoch b d = UINT64_MAX"
    using scan_from_value [of "epochs d" 0 "scan_upto b" UINT64_MAX] assms(1)
    by (auto simp: oldest_active_epoch_def)
  moreover have "filter (\<lambda>r. fst r < UINT64_MAX) (retire_list d) = retire_list d"
    "filter (\<lambda>r. \<not> fst r < UINT64_MAX) (retire_list d) = []"
    using assms(2) by (auto simp: filter_id_conv filter_empty_conv)
  ultimately show ?thesis by (auto simp: reclaim_locked_def reclaim_with_eq)
qed

lemma UINT64_MAX_eq: "UINT64_MAX = 0xFFFFFFFFFFFFFFFF"
  by (simp add: UINT64_MAX_def)

text \<open>A concrete run: thread 0 obtains object 7, which is then unlinked and retired, and the writer
  completes a full reclaim pass while the thread is still inside.\<close>

definition run_reader :: "nat rcu_sys" where
  "run_reader = rcu_init\<lparr>book := \<lparr>high_water = 1, free_slots = []\<rparr>, ticket := [0 \<mapsto> 0],
     loaded := [0 \<mapsto> 1]\<rparr>"

definition run_inside :: "nat rcu_sys" where
  "run_inside = run_reader\<lparr>rdom := read_lock rcu_new 0 1, loaded := Map.empty, inside := {0},
     linked := {7}, held := (\<lambda>_. {})(0 := {7})\<rparr>"

definition run_scanned :: "nat rcu_sys" where
  "run_scanned = run_inside\<lparr>rdom := retire_push (read_lock rcu_new 0 1) 7, linked := {},
     wstate := WIdle, n_retired := 1\<rparr>"

lemma run_reader_reachable: "rcu_reachable run_reader"
proof -
  let ?s1 = "rcu_init\<lparr>book := \<lparr>high_water = 1, free_slots = []\<rparr>, ticket := [0 \<mapsto> 0]\<rparr> :: nat rcu_sys"
  have "rstep rcu_init ?s1"
    using rstep.thread_start [of "rcu_init :: nat rcu_sys" 0 "\<lparr>high_water = 1, free_slots = []\<rparr>" 0]
    by (simp add: rcu_init_def claim_thread_slot_def MAX_READERS_def)
  moreover have "rstep ?s1 run_reader"
    using rstep.lock_load [of ?s1 0 0 1] by (simp add: run_reader_def rcu_init_def rcu_new_def)
  ultimately show ?thesis unfolding rcu_reachable_def by (meson rtranclp.simps)
qed

lemma run_inside_reachable: "rcu_reachable run_inside"
proof -
  let ?s1 = "run_reader\<lparr>rdom := read_lock rcu_new 0 1, loaded := Map.empty, inside := {0}\<rparr>"
  let ?s2 = "?s1\<lparr>linked := {7}\<rparr>"
  have "rstep run_reader ?s1"
    using rstep.lock_store [of run_reader 0 0 1] by (simp add: run_reader_def rcu_init_def)
  moreover have "rstep ?s1 ?s2"
    using rstep.link [of 7 ?s1] by (simp add: run_reader_def rcu_init_def rcu_new_def)
  moreover have "rstep ?s2 run_inside"
    using rstep.obtain_object [of 0 ?s2 7] by (simp add: run_inside_def run_reader_def rcu_init_def)
  ultimately show ?thesis using run_reader_reachable unfolding rcu_reachable_def
    by (meson rtranclp.rtrancl_into_rtrancl)
qed

lemma run_scanned_reachable: "rcu_reachable run_scanned"
proof -
  let ?s1 = "run_inside\<lparr>linked := {}, unlinked := {7}\<rparr>"
  let ?s2 = "run_inside\<lparr>rdom := retire_push (read_lock rcu_new 0 1) 7, linked := {},
     wstate := WScan 1 0 UINT64_MAX, n_retired := 1\<rparr>"
  let ?s3 = "?s2\<lparr>wstate := WScan 1 1 1\<rparr>"
  have "rstep run_inside ?s1"
    using rstep.unlink [of 7 run_inside] by (simp add: run_inside_def run_reader_def rcu_init_def)
  moreover have "rstep ?s1 ?s2"
    using rstep.retire_object [of ?s1 7]
    by (simp add: run_inside_def run_reader_def rcu_init_def scan_upto_def MAX_READERS_def)
  moreover have sc: "scan_slot ((epochs rcu_new)[0 := 1]) 0 UINT64_MAX = 1"
    by (simp add: rcu_new_def scan_slot_def MAX_READERS_def UINT64_MAX_eq)
  have "rstep ?s2 ?s3" using rstep.reclaim_scan [of ?s2 1 0 UINT64_MAX] by (simp add: sc)
  moreover have "rstep ?s3 run_scanned"
    using rstep.reclaim_end [of ?s3 1 1 1 "retire_push (read_lock rcu_new 0 1) 7" "[]"]
    by (simp add: reclaim_with_eq rcu_new_def run_scanned_def read_lock_def retire_push_def
        run_inside_def run_reader_def rcu_init_def)
  ultimately show ?thesis using run_inside_reachable unfolding rcu_reachable_def
    by (meson rtranclp.rtrancl_into_rtrancl)
qed

section \<open>Properties\<close>



text \<open>A reader slot belongs to one thread at a time. In every reachable state two threads never
  share a slot, every slot handed out is below \<open>MAX_READERS\<close>, and a slot whose epoch is non-zero
  belongs to a thread that is inside a critical section (so a thread that takes over a released
  slot finds it quiescent).\<close>

lemma rcu_slots_exclusive:
  assumes "rcu_reachable s" "no_wrap s" "ticket s t = Some i"
  shows "(ticket s u = Some i \<longrightarrow> u = t) \<and> i < MAX_READERS \<and>
         (epochs (rdom s) ! i \<noteq> 0 \<longleftrightarrow> t \<in> inside s)"
proof -
  have I: "slots_inv s" "epoch_inv s" using rcu_inv_reachable [OF assms(1,2)] by (auto simp: rcu_inv_def)
  have "i < MAX_READERS" using ticket_bound [OF I(1) assms(3)] by simp
  moreover have "t \<in> inside s" if "epochs (rdom s) ! i \<noteq> 0"
    using slots_invD(8) [OF I(1) calculation that] ticket_inj [OF I(1) assms(3)] by auto
  moreover have "epochs (rdom s) ! i \<noteq> 0" if "t \<in> inside s"
    using I(2) that assms(3) by (auto simp: epoch_inv_def)
  ultimately show ?thesis using ticket_inj [OF I(1) assms(3), of u] by auto
qed

text \<open>Reclamation makes progress and keeps order. One pass of \<open>reclaim_locked\<close> frees exactly the
  entries older than every active reader, in retirement order, and keeps the others in order; when
  no reader is inside (all scanned slots are zero) and the counter has not reached its maximum,
  it frees everything.\<close>

lemma rcu_reclaim_exact:
  "reclaim_locked b d =
     (d\<lparr>retire_list := filter (\<lambda>r. \<not> fst r < oldest_active_epoch b d) (retire_list d)\<rparr>,
      map snd (filter (\<lambda>r. fst r < oldest_active_epoch b d) (retire_list d))) \<and>
   ((\<forall>j < scan_upto b. epochs d ! j = 0) \<longrightarrow> (\<forall>r \<in> set (retire_list d). fst r < UINT64_MAX) \<longrightarrow>
     retire_list (fst (reclaim_locked b d)) = [] \<and>
     snd (reclaim_locked b d) = map snd (retire_list d))"
proof -
  have "(\<forall>j < scan_upto b. epochs d ! j = 0) \<Longrightarrow> (\<forall>r \<in> set (retire_list d). fst r < UINT64_MAX) \<Longrightarrow>
     retire_list (fst (reclaim_locked b d)) = [] \<and> snd (reclaim_locked b d) = map snd (retire_list d)"
    by (subst (1 2) reclaim_all_quiescent) auto
  then show ?thesis by (auto simp: reclaim_locked_def reclaim_with_eq)
qed

end
