(* ===== verification/Checksum.thy ===== *)
theory Checksum
  imports Prelude
begin

text \<open>
  The Internet checksum code (\<open>simpleswitch/csum.hpp\<close>) over packets as byte lists. The loops keep
  the source's lanes (8, 4, 2 and 1 bytes, read by \<open>memcpy\<close> on a little-endian host) and 64-bit
  end-around carry. They are related to the plain sum of 16-bit words modulo \<open>65535\<close>, from which
  the round trips follow: a checksum the code writes verifies at the receiver.
\<close>

unbundle bit_operations_syntax

section \<open>The summing loops\<close>

fun load_le :: "byte list \<Rightarrow> nat" where
  "load_le [] = 0"
| "load_le (b # bs) = unat b + 256 * load_le bs"

text \<open>\<open>acc += w; if (acc < w) acc++;\<close>\<close>

definition csum_add :: "u64 \<Rightarrow> u64 \<Rightarrow> u64" where
  "csum_add acc w = (let a = acc + w in if a < w then a + 1 else a)"

function csum_lanes8 :: "u64 \<Rightarrow> byte list \<Rightarrow> u64 \<times> byte list" where
  "csum_lanes8 acc b =
     (if 8 \<le> length b then csum_lanes8 (csum_add acc (word_of_nat (load_le (take 8 b)))) (drop 8 b)
      else (acc, b))"
  by pat_completeness auto
termination by (relation "measure (length \<circ> snd)") auto

declare csum_lanes8.simps [simp del]

text \<open>The lanes that follow the loop each run at most once.\<close>

definition csum_lane :: "nat \<Rightarrow> u64 \<times> byte list \<Rightarrow> u64 \<times> byte list" where
  "csum_lane n = (\<lambda>(acc, b). if n \<le> length b
      then (csum_add acc (word_of_nat (load_le (take n b))), drop n b) else (acc, b))"

text \<open>\<open>while (acc >> 32) acc = (acc & 0xFFFFFFFF) + (acc >> 32);\<close>\<close>

function fold64 :: "u64 \<Rightarrow> u64" where
  "fold64 acc = (if drop_bit 32 acc \<noteq> 0 then fold64 ((acc AND 0xFFFFFFFF) + drop_bit 32 acc) else acc)"
  by pat_completeness auto

function fold32 :: "u32 \<Rightarrow> u32" where
  "fold32 s = (if drop_bit 16 s \<noteq> 0 then fold32 ((s AND 0xFFFF) + drop_bit 16 s) else s)"
  by pat_completeness auto

text \<open>Each fold drops the value: high and low halves are added, and the high half counted \<open>2 ^ k\<close>.\<close>

lemma halves_unat:
  fixes w :: "'a::len word"
  assumes "LENGTH('a) = k + k"
  shows "unat ((w AND mask k) + drop_bit k w) = unat w mod 2 ^ k + unat w div 2 ^ k"
    "drop_bit k w = 0 \<longleftrightarrow> unat w div 2 ^ k = 0"
proof -
  have lo: "unat (w AND mask k) = unat w mod 2 ^ k"
    by (simp only: take_bit_eq_mask [symmetric] unsigned_take_bit_eq) (simp only: take_bit_eq_mod)
  have hi: "unat (drop_bit k w) = unat w div 2 ^ k" by (simp only: unat_drop_bit_eq) (simp only: drop_bit_eq_div)
  have "unat w < 2 ^ k * 2 ^ k" using unsigned_less [of w] assms by (simp add: power_add)
  then have "unat w div 2 ^ k < 2 ^ k" by (simp add: less_mult_imp_div_less)
  then have small: "unat w mod 2 ^ k + unat w div 2 ^ k < 2 ^ k + 2 ^ k" by (intro add_strict_mono) auto
  have "0 < k" using assms len_gt_0 [where 'a = 'a] by simp
  then have "(2::nat) ^ 1 \<le> 2 ^ k" by (intro power_increasing) auto
  then have "2 * (2::nat) ^ k \<le> 2 ^ k * 2 ^ k" by (intro mult_le_mono1) simp
  then have "(2::nat) ^ k + 2 ^ k \<le> 2 ^ k * 2 ^ k" by (simp only: mult_2)
  with small have "unat w mod 2 ^ k + unat w div 2 ^ k < 2 ^ k * 2 ^ k" by (rule order.strict_trans2)
  then have "unat w mod 2 ^ k + unat w div 2 ^ k < 2 ^ LENGTH('a)"
    using assms by (simp only: power_add)
  with lo hi show "unat ((w AND mask k) + drop_bit k w) = unat w mod 2 ^ k + unat w div 2 ^ k"
    by (simp add: unat_plus_if')
  show "drop_bit k w = 0 \<longleftrightarrow> unat w div 2 ^ k = 0" using hi by (metis unat_0 unsigned_0 word_unat_eq_iff)
qed

lemma mod_div_less: "(n::nat) div b \<noteq> 0 \<Longrightarrow> 1 < b \<Longrightarrow> n mod b + n div b < n"
proof -
  assume "n div b \<noteq> 0" "1 < b"
  then have "n div b < b * (n div b)" by simp
  then show ?thesis using mult_div_mod_eq [of b n] by linarith
qed

lemmas halves64 = halves_unat [where 'a = 64 and k = 32, simplified]
lemmas halves32 = halves_unat [where 'a = 32 and k = 16, simplified]

lemma mask_numerals: "(mask 32 :: u64) = 0xFFFFFFFF" "(mask 16 :: u32) = 0xFFFF"
  by (simp_all add: mask_eq_exp_minus_1)

termination fold64
  by (relation "measure unat")
     (simp_all add: halves64 [unfolded mask_numerals] mod_div_less)

termination fold32
  by (relation "measure unat")
     (simp_all add: halves32 [unfolded mask_numerals] mod_div_less)

declare fold64.simps [simp del] fold32.simps [simp del]

definition csum_partial :: "byte list \<Rightarrow> u32 \<Rightarrow> u32" where
  "csum_partial p s =
     ucast (fold64 (fst (csum_lane 1 (csum_lane 2 (csum_lane 4 (csum_lanes8 (ucast s) p))))))"

definition csum_fold :: "u32 \<Rightarrow> u16" where
  "csum_fold s = ucast (NOT (fold32 s))"

section \<open>Reference: the ones-complement sum of 16-bit words\<close>

text \<open>The plain sum of the 16-bit words read in memory order, an odd last byte standing alone.\<close>

fun sum16 :: "byte list \<Rightarrow> nat" where
  "sum16 [] = 0"
| "sum16 [a] = unat a"
| "sum16 (a # b # bs) = unat a + 256 * unat b + sum16 bs"

text \<open>The ones-complement representative of a sum: \<open>0\<close> only for zero, otherwise in \<open>1..65535\<close>.\<close>

definition oc16 :: "nat \<Rightarrow> nat" where
  "oc16 n = (if n = 0 then 0 else (n - 1) mod 65535 + 1)"

definition oc_eq :: "nat \<Rightarrow> nat \<Rightarrow> bool" where
  "oc_eq m n \<longleftrightarrow> m mod 65535 = n mod 65535 \<and> (m = 0 \<longleftrightarrow> n = 0)"

lemma oc_eq_refl [simp]: "oc_eq n n"
  by (simp add: oc_eq_def)

lemma oc_eq_sym: "oc_eq m n \<Longrightarrow> oc_eq n m"
  by (auto simp: oc_eq_def)

lemma oc_eq_trans [trans]: "oc_eq m n \<Longrightarrow> oc_eq n k \<Longrightarrow> oc_eq m k"
  by (auto simp: oc_eq_def)

lemma oc_eq_add: "oc_eq m n \<Longrightarrow> oc_eq m' n' \<Longrightarrow> oc_eq (m + m') (n + n')"
  unfolding oc_eq_def by (metis add_is_0 mod_add_eq)

lemma oc_eq_shift: "r mod 65535 = 1 \<Longrightarrow> oc_eq (r * n) n"
proof -
  assume r: "r mod 65535 = 1"
  then have "r * n mod 65535 = 1 * n mod 65535" by (metis mod_mult_left_eq)
  moreover have "r \<noteq> 0" using r by (cases r) auto
  ultimately show ?thesis by (simp add: oc_eq_def)
qed

lemma oc_eq_word: "m \<le> 65535 \<Longrightarrow> oc_eq m n \<Longrightarrow> m = oc16 n"
proof -
  assume m: "m \<le> 65535" "oc_eq m n"
  show ?thesis
  proof (cases n)
    case 0
    with m show ?thesis by (simp add: oc_eq_def oc16_def)
  next
    case (Suc k)
    with m obtain j where j: "m = Suc j" by (cases m) (auto simp: oc_eq_def)
    from m have "Suc j mod 65535 = Suc k mod 65535" by (simp add: oc_eq_def Suc j)
    then have "(Suc j + 65534) mod 65535 = (Suc k + 65534) mod 65535" by (metis mod_add_left_eq)
    then have "j mod 65535 = k mod 65535" by simp
    with m(1) j Suc show ?thesis by (simp add: oc16_def)
  qed
qed

lemma oc16_eq: "oc_eq (oc16 n) n"
proof (cases n)
  case (Suc k)
  have "Suc (k mod 65535) mod 65535 = Suc k mod 65535" by (rule mod_Suc_eq)
  with Suc show ?thesis by (simp add: oc16_def oc_eq_def)
qed (simp add: oc16_def)

lemma oc16_le: "oc16 n \<le> 65535"
  using mod_less_divisor [of 65535 "n - 1"] by (simp add: oc16_def del: mod_less_divisor)

lemma oc16_complement: "oc16 (n + (65535 - oc16 n)) = 65535"
proof -
  have e: "oc_eq (n + (65535 - oc16 n)) (oc16 n + (65535 - oc16 n))"
    by (intro oc_eq_add oc_eq_sym [OF oc16_eq] oc_eq_refl)
  then have "oc_eq 65535 (n + (65535 - oc16 n))" using oc16_le [of n] by (simp add: oc_eq_sym)
  then show ?thesis using oc_eq_word [of 65535] by simp
qed

lemma oc16_cong: "oc_eq m n \<Longrightarrow> oc16 m = oc16 n"
  by (rule oc_eq_word [OF oc16_le]) (rule oc_eq_trans [OF oc16_eq])

section \<open>The loops compute the reference\<close>

lemma load_le_append: "load_le (xs @ ys) = load_le xs + 256 ^ length xs * load_le ys"
  by (induction xs) (simp_all add: algebra_simps)

lemma load_le_less: "load_le bs < 256 ^ length bs"
proof (induction bs)
  case (Cons b bs)
  have "unat b < 256" using unsigned_less [of b] by simp
  with Cons have "unat b + 256 * load_le bs < 256 * (load_le bs + 1)" by simp
  also have "\<dots> \<le> 256 * 256 ^ length bs" using Cons by (intro mult_le_mono) simp_all
  finally show ?case by simp
qed simp

lemma sum16_load: "oc_eq (load_le bs) (sum16 bs)"
proof (induction bs rule: sum16.induct)
  case (3 a b bs)
  have "oc_eq (65536 * load_le bs) (load_le bs)" by (rule oc_eq_shift) simp
  from oc_eq_trans [OF this "3.IH"]
  have "oc_eq ((unat a + 256 * unat b) + 65536 * load_le bs) ((unat a + 256 * unat b) + sum16 bs)"
    by (intro oc_eq_add oc_eq_refl)
  then show ?case by (simp add: algebra_simps)
qed simp_all

lemma sum16_append: "even (length xs) \<Longrightarrow> sum16 (xs @ ys) = sum16 xs + sum16 ys"
  by (induction xs rule: sum16.induct) auto

lemma csum_add_oc: "oc_eq (unat (csum_add acc w)) (unat acc + unat w)"
proof (cases "unat acc + unat w < 2 ^ 64")
  case True
  then have u: "unat (acc + w) = unat acc + unat w" by (simp add: unat_plus_if')
  then have "\<not> acc + w < w" by (simp add: word_less_nat_alt)
  then show ?thesis using u by (simp add: csum_add_def Let_def)
next
  case False
  then have u: "unat (acc + w) = unat acc + unat w - 2 ^ 64" by (simp add: unat_plus_if')
  moreover have b: "unat acc < 2 ^ 64" "unat w < 2 ^ 64" using unsigned_less [of acc] unsigned_less [of w] by simp_all
  ultimately have c: "unat (acc + w) < unat w" "unat (acc + w) + 1 < 2 ^ 64" using False by simp_all
  have "unat (csum_add acc w) = unat (acc + w) + 1"
    using c by (simp add: csum_add_def Let_def word_less_nat_alt unat_plus_if')
  also have "\<dots> = unat acc + unat w - 2 ^ 64 + 1" using u by simp
  finally have v: "unat (csum_add acc w) + 18446744073709551615 = unat acc + unat w" using False by simp
  have "(unat (csum_add acc w) + 281479271743489 * 65535) mod 65535 = unat (csum_add acc w) mod 65535"
    by (rule mod_mult_self1)
  then have "unat (csum_add acc w) mod 65535 = (unat acc + unat w) mod 65535" by (simp add: v)
  moreover have "unat (csum_add acc w) \<noteq> 0" using False v \<open>unat (csum_add acc w) = unat (acc + w) + 1\<close> by simp
  ultimately show ?thesis using False unfolding oc_eq_def by auto
qed

lemma csum_add_chunk:
  assumes "oc_eq (unat acc) n" "length c \<le> 8"
  shows "oc_eq (unat (csum_add acc (word_of_nat (load_le c)))) (n + sum16 c)"
proof -
  have "(256::nat) ^ length c \<le> 256 ^ 8" using assms(2) by (intro power_increasing) auto
  then have "load_le c < 2 ^ 64" using load_le_less [of c] by simp
  then have "unat (word_of_nat (load_le c) :: u64) = load_le c" by (simp add: unat_of_nat)
  then show ?thesis
    using oc_eq_trans [OF csum_add_oc, of acc "word_of_nat (load_le c)", OF oc_eq_add [OF assms(1)]]
      sum16_load [of c] by simp
qed

definition summed :: "byte list \<Rightarrow> nat \<Rightarrow> u64 \<times> byte list \<Rightarrow> bool" where
  "summed p n st \<longleftrightarrow> (\<exists>pre. p = pre @ snd st \<and> (even (length pre) \<or> snd st = []) \<and>
                       oc_eq (unat (fst st)) (n + sum16 pre))"

lemma summed_start: "oc_eq (unat acc) n \<Longrightarrow> summed p n (acc, p)"
  unfolding summed_def by (intro exI [of _ "[]"]) simp

text \<open>Consuming a lane of \<open>k\<close> bytes, which must be even unless it is the last one.\<close>

lemma summed_consume:
  assumes st: "summed p n (acc, b)" and k: "k \<le> 8" "k \<le> length b" "even k \<or> length b = k" "b \<noteq> []"
  shows "summed p n (csum_add acc (word_of_nat (load_le (take k b))), drop k b)"
proof -
  from st k(4) obtain pre where pre: "p = pre @ b" "even (length pre)" "oc_eq (unat acc) (n + sum16 pre)"
    by (auto simp: summed_def)
  have "p = (pre @ take k b) @ drop k b" by (simp add: pre(1))
  moreover have "even (length (pre @ take k b)) \<or> drop k b = []" using pre(2) k by auto
  moreover have "oc_eq (unat (csum_add acc (word_of_nat (load_le (take k b))))) (n + sum16 (pre @ take k b))"
    using csum_add_chunk [OF pre(3), of "take k b"] k(1) by (simp add: sum16_append [OF pre(2)] add.assoc)
  ultimately show ?thesis unfolding summed_def fst_conv snd_conv by (intro exI conjI)
qed

lemma csum_lanes8_summed:
  "summed p n (acc, b) \<Longrightarrow>
   summed p n (csum_lanes8 acc b) \<and> length (snd (csum_lanes8 acc b)) < 8"
proof (induction acc b rule: csum_lanes8.induct)
  case (1 acc b)
  show ?case
  proof (cases "8 \<le> length b")
    case True
    then have "b \<noteq> []" by auto
    with summed_consume [OF "1.prems", of 8] True "1.IH" show ?thesis
      by (simp add: csum_lanes8.simps [of acc b])
  qed (use "1.prems" in \<open>simp add: csum_lanes8.simps [of acc b]\<close>)
qed

lemma csum_lane_summed:
  assumes "summed p n st" "length (snd st) < 2 * k" "even k \<or> k = 1" "k \<le> 8"
  shows "summed p n (csum_lane k st) \<and> length (snd (csum_lane k st)) < k"
proof (cases st)
  case (Pair acc b)
  show ?thesis
  proof (cases "k \<le> length b")
    case True
    then have "b \<noteq> []" using assms(2) by auto
    moreover have "even k \<or> length b = k" using assms(2,3) Pair True by auto
    ultimately show ?thesis using summed_consume [of p n acc b k] assms Pair True
      by (auto simp: csum_lane_def)
  qed (use assms Pair in \<open>simp add: csum_lane_def\<close>)
qed

lemma fold64_oc: "oc_eq (unat (fold64 acc)) (unat acc) \<and> unat (fold64 acc) < 2 ^ 32"
proof (induction acc rule: fold64.induct)
  case (1 acc)
  let ?a = "(acc AND 0xFFFFFFFF) + drop_bit 32 acc"
  have h: "unat ?a = unat acc mod 2 ^ 32 + unat acc div 2 ^ 32"
    "drop_bit 32 acc = 0 \<longleftrightarrow> unat acc div 2 ^ 32 = 0"
    using halves64 [of acc] by (simp_all add: mask_numerals)
  have "oc_eq (2 ^ 32 * (unat acc div 2 ^ 32)) (unat acc div 2 ^ 32)" by (rule oc_eq_shift) simp
  from oc_eq_add [OF oc_eq_refl this, of "unat acc mod 2 ^ 32"]
  have st: "oc_eq (unat acc) (unat ?a)" unfolding h(1) by (simp only: mod_mult_div_eq)
  show ?case
  proof (cases "drop_bit 32 acc = 0")
    case True
    then have "unat acc < 2 ^ 32" using h(2) by (simp add: div_eq_0_iff)
    with True show ?thesis by (simp add: fold64.simps [of acc])
  next
    case False
    with "1.IH" st show ?thesis
      by (simp add: fold64.simps [of acc]) (blast intro: oc_eq_trans oc_eq_sym)
  qed
qed

lemma fold32_oc: "oc_eq (unat (fold32 s)) (unat s) \<and> unat (fold32 s) < 2 ^ 16"
proof (induction s rule: fold32.induct)
  case (1 s)
  let ?a = "(s AND 0xFFFF) + drop_bit 16 s"
  have h: "unat ?a = unat s mod 2 ^ 16 + unat s div 2 ^ 16"
    "drop_bit 16 s = 0 \<longleftrightarrow> unat s div 2 ^ 16 = 0"
    using halves32 [of s] by (simp_all add: mask_numerals)
  have "oc_eq (2 ^ 16 * (unat s div 2 ^ 16)) (unat s div 2 ^ 16)" by (rule oc_eq_shift) simp
  from oc_eq_add [OF oc_eq_refl this, of "unat s mod 2 ^ 16"]
  have st: "oc_eq (unat s) (unat ?a)" unfolding h(1) by (simp only: mod_mult_div_eq)
  show ?case
  proof (cases "drop_bit 16 s = 0")
    case True
    then have "unat s < 2 ^ 16" using h(2) by (simp add: div_eq_0_iff)
    with True show ?thesis by (simp add: fold32.simps [of s])
  next
    case False
    with "1.IH" st show ?thesis
      by (simp add: fold32.simps [of s]) (blast intro: oc_eq_trans oc_eq_sym)
  qed
qed

lemma csum_partial_oc: "oc_eq (unat (csum_partial p s)) (unat s + sum16 p)"
proof -
  let ?st = "csum_lane 1 (csum_lane 2 (csum_lane 4 (csum_lanes8 (ucast s) p)))"
  have "unat s < 2 ^ 32" using unsigned_less [of s] by simp
  then have "oc_eq (unat (ucast s :: u64)) (unat s)" by (simp add: unsigned_ucast_eq take_bit_nat_eq_self)
  then have "summed p (unat s) (ucast s, p)" by (rule summed_start)
  from csum_lanes8_summed [OF this]
  have "summed p (unat s) (csum_lane 4 (csum_lanes8 (ucast s) p)) \<and>
        length (snd (csum_lane 4 (csum_lanes8 (ucast s) p))) < 4"
    by (intro csum_lane_summed) auto
  then have "summed p (unat s) (csum_lane 2 (csum_lane 4 (csum_lanes8 (ucast s) p))) \<and>
        length (snd (csum_lane 2 (csum_lane 4 (csum_lanes8 (ucast s) p)))) < 2"
    by (intro csum_lane_summed) auto
  then have "summed p (unat s) ?st \<and> length (snd ?st) < 1" by (intro csum_lane_summed) auto
  then have "oc_eq (unat (fst ?st)) (unat s + sum16 p)" by (auto simp: summed_def)
  moreover have "unat (ucast (fold64 (fst ?st)) :: u32) = unat (fold64 (fst ?st))"
    using fold64_oc [of "fst ?st"] by (simp add: unsigned_ucast_eq take_bit_nat_eq_self)
  ultimately show ?thesis
    unfolding csum_partial_def
    using oc_eq_trans [OF conjunct1 [OF fold64_oc [of "fst ?st"]], of "unat s + sum16 p"] by simp
qed

lemma csum_fold_oc: "unat (csum_fold s) = 65535 - oc16 (unat s)"
proof -
  have f: "unat (fold32 s) < 2 ^ 16" "oc_eq (unat (fold32 s)) (unat s)" using fold32_oc [of s] by auto
  then have o16: "unat (fold32 s) = oc16 (unat s)" by (intro oc_eq_word) auto
  have not16: "unat (NOT x) = 65535 - unat x" for x :: u16
  proof -
    have "NOT x = - 1 - x" by (simp add: not_eq_complement)
    moreover have "x \<le> - 1" by simp
    then have "unat (- 1 - x) = unat (- 1 :: u16) - unat x" by (rule unat_sub)
    moreover have "unat (- 1 :: u16) = 65535"
      by (simp add: unsigned_minus_1_eq_mask mask_eq_exp_minus_1)
    ultimately show ?thesis by simp
  qed
  have "ucast (NOT (fold32 s)) = NOT (ucast (fold32 s) :: u16)"
    by (rule bit_word_eqI) (simp add: bit_simps)
  then have "unat (csum_fold s) = unat (NOT (ucast (fold32 s) :: u16))" by (simp add: csum_fold_def)
  also have "\<dots> = 65535 - unat (ucast (fold32 s) :: u16)"
    by (rule not16)
  also have "unat (ucast (fold32 s) :: u16) = unat (fold32 s)"
    using f(1) by (simp add: unsigned_ucast_eq take_bit_nat_eq_self)
  finally show ?thesis by (simp add: o16)
qed

lemma csum_check: "unat (csum_fold (csum_partial p s)) = 65535 - oc16 (unat s + sum16 p)"
  unfolding csum_fold_oc by (simp only: oc16_cong [OF csum_partial_oc])

section \<open>Checksums of packets\<close>

text \<open>A 16-bit store through a pointer writes the low byte first.\<close>

definition le_bytes16 :: "u16 \<Rightarrow> byte list" where
  "le_bytes16 v = [ucast v, ucast (drop_bit 8 v)]"

definition store16 :: "nat \<Rightarrow> u16 \<Rightarrow> byte list \<Rightarrow> byte list" where
  "store16 at v p = p[at := ucast v, Suc at := ucast (drop_bit 8 v)]"

definition store32 :: "nat \<Rightarrow> u32 \<Rightarrow> byte list \<Rightarrow> byte list" where
  "store32 at v p = store16 (at + 2) (ucast (drop_bit 16 v)) (store16 at (ucast v) p)"

text \<open>\<open>iph->ihl\<close> is the low nibble of the first byte; the header length is \<open>ihl * 4\<close>.\<close>

definition ihl_bytes :: "byte list \<Rightarrow> nat" where
  "ihl_bytes p = unat (p ! 0 AND 15) * 4"

definition ip_csum_set :: "byte list \<Rightarrow> byte list" where
  "ip_csum_set iph =
     (let p = store16 10 0 iph
      in store16 10 (csum_fold (csum_partial (take (ihl_bytes p) p) 0)) p)"

text \<open>Pseudo-header (addresses, protocol, length) and segment, summed in the source's order.\<close>

definition tcp_sum :: "byte list \<Rightarrow> nat \<Rightarrow> u32" where
  "tcp_sum iph l4_len =
     (let th = drop (ihl_bytes iph) iph;
          s = csum_partial (take 4 (drop 12 iph)) 0;
          s = csum_partial (take 4 (drop 16 iph)) s;
          s = csum_partial (le_bytes16 (bswap16 6)) s;
          s = csum_partial (le_bytes16 (bswap16 (word_of_nat l4_len))) s
      in csum_partial (take l4_len th) s)"

definition tcp_csum_set :: "byte list \<Rightarrow> nat \<Rightarrow> byte list" where
  "tcp_csum_set iph l4_len =
     (let p = store16 (ihl_bytes iph + 16) 0 iph
      in store16 (ihl_bytes iph + 16) (csum_fold (tcp_sum p l4_len)) p)"

definition vnet_complete_csum :: "byte list \<Rightarrow> nat \<Rightarrow> u16 \<Rightarrow> u16 \<Rightarrow> byte list" where
  "vnet_complete_csum pkt plen csum_start csum_offset =
     (let at = unat csum_start + unat csum_offset
      in if plen \<le> unat csum_start \<or> plen < at + 2 then pkt
         else store16 at (csum_fold (csum_partial
                (take (plen - unat csum_start) (drop (unat csum_start) pkt)) 0)) pkt)"

lemma sum16_le_bytes16: "sum16 (le_bytes16 v) = unat v"
proof -
  have lo: "unat (ucast v :: byte) = unat v mod 256"
    by (simp add: unsigned_ucast_eq take_bit_eq_mod)
  have hi': "unat (drop_bit 8 v) = unat v div 256" by (simp only: unat_drop_bit_eq) (simp add: drop_bit_eq_div)
  have "unat v < 65536" using unsigned_less [of v] by simp
  then have "unat v div 256 < 256" by (simp add: less_mult_imp_div_less)
  then have "unat (ucast (drop_bit 8 v) :: byte) = unat v div 256"
    by (simp only: unsigned_ucast_eq hi') (simp add: take_bit_nat_eq_self)
  with lo show ?thesis by (simp add: le_bytes16_def)
qed

lemma length_le_bytes16 [simp]: "length (le_bytes16 v) = 2"
  by (simp add: le_bytes16_def)

lemma length_store16 [simp]: "length (store16 at v p) = length p"
  by (simp add: store16_def)

lemma store16_split:
  assumes "at + 2 \<le> length p"
  shows "store16 at v p = take at p @ le_bytes16 v @ drop (at + 2) p"
proof (rule nth_equalityI)
  fix i assume "i < length (store16 at v p)"
  then show "store16 at v p ! i = (take at p @ le_bytes16 v @ drop (at + 2) p) ! i"
    using assms by (cases "i < at"; cases "i = at"; cases "i = Suc at"; cases "i < at + 2")
      (auto simp: store16_def le_bytes16_def nth_append nth_Cons' intro: arg_cong [where f = "nth p"])
qed (use assms in simp)

lemma sum16_store16:
  assumes "even at" "at + 2 \<le> length p"
  shows "sum16 (store16 at v p) = sum16 (store16 at 0 p) + unat v"
proof -
  have "sum16 (store16 at w p) = sum16 (take at p) + (unat w + sum16 (drop (at + 2) p))" for w
    using assms by (simp add: store16_split sum16_append sum16_le_bytes16)
  from this [of v] this [of 0] show ?thesis by simp
qed

lemma store16_store16: "store16 at v (store16 at w p) = store16 at v p"
  by (simp add: store16_def list_update_swap)

lemma store16_take: "at + 2 \<le> n \<Longrightarrow> take n (store16 at v p) = store16 at v (take n p)"
  by (simp add: store16_def take_update_swap)

lemma store16_drop: "n \<le> at \<Longrightarrow> drop n (store16 at v p) = store16 (at - n) v (drop n p)"
  by (simp add: store16_def drop_update_swap Suc_diff_le)

lemma store16_other: "i < at \<or> at + 2 \<le> i \<Longrightarrow> store16 at v p ! i = p ! i"
  by (auto simp: store16_def)

lemma store16_take_low: "n \<le> at \<Longrightarrow> take n (store16 at v p) = take n p"
  by (simp add: store16_def take_update_cancel)

lemma byte0_store16: "0 < at \<Longrightarrow> ihl_bytes (store16 at v p) = ihl_bytes p"
  by (simp add: ihl_bytes_def store16_def)

lemma even_ihl [simp]: "even (ihl_bytes p)"
  by (simp add: ihl_bytes_def)

text \<open>What a receiver computes after the complement of a sum has been stored in an even position
  that was zero: all ones.\<close>

lemma store_complement_verifies:
  assumes "even at" "at + 2 \<le> length p" "unat c = 65535 - oc16 (k + sum16 (store16 at 0 p))"
  shows "oc16 (k + sum16 (store16 at c p)) = 65535"
  using sum16_store16 [OF assms(1,2), of c] oc16_complement [of "k + sum16 (store16 at 0 p)"]
  by (simp add: assms(3) add.assoc)

lemma ip_csum_set_eq:
  "ip_csum_set p = store16 10 (csum_fold (csum_partial (take (ihl_bytes p) (store16 10 0 p)) 0)) p"
  by (simp add: ip_csum_set_def Let_def byte0_store16 store16_store16)

lemma tcp_sum_oc:
  "oc_eq (unat (tcp_sum p n))
     (sum16 (take 4 (drop 12 p)) + sum16 (take 4 (drop 16 p)) + unat (bswap16 6) +
      unat (bswap16 (word_of_nat n)) + sum16 (take n (drop (ihl_bytes p) p)))"
proof -
  have step: "oc_eq (unat (csum_partial q s)) (m + sum16 q)" if "oc_eq (unat s) m" for q s m
    by (rule oc_eq_trans [OF csum_partial_oc oc_eq_add [OF that oc_eq_refl]])
  have "oc_eq (unat (csum_partial (take 4 (drop 12 p)) 0)) (sum16 (take 4 (drop 12 p)))"
    using csum_partial_oc [of "take 4 (drop 12 p)" 0] by simp
  from step [OF step [OF step [OF step [OF this, of "take 4 (drop 16 p)"],
        of "le_bytes16 (bswap16 6)"], of "le_bytes16 (bswap16 (word_of_nat n))"],
        of "take n (drop (ihl_bytes p) p)"]
  show ?thesis
    by (simp add: tcp_sum_def Let_def sum16_le_bytes16)
qed

lemma split_at2: "xs = take n xs @ take 2 (drop n xs) @ drop (n + 2) xs"
  using append_take_drop_id [of n xs] append_take_drop_id [of 2 "drop n xs"] by (simp add: add.commute)

text \<open>Everything the TCP sum covers besides the segment lies below the checksum field.\<close>

lemma tcp_sum_store:
  assumes "20 \<le> ihl_bytes p" "18 \<le> n" "ihl_bytes p + n \<le> length p"
  shows "\<exists>k. \<forall>v. oc_eq (unat (tcp_sum (store16 (ihl_bytes p + 16) v p) n))
               (k + sum16 (store16 16 v (take n (drop (ihl_bytes p) p))))"
proof -
  let ?h = "ihl_bytes p"
  have low: "take 4 (drop j (store16 (?h + 16) v p)) = take 4 (drop j p)" if "j + 4 \<le> 20" for j v
    using that assms(1) by (simp add: store16_drop store16_take_low)
  have seg: "take n (drop ?h (store16 (?h + 16) v p)) = store16 16 v (take n (drop ?h p))" for v
    using assms by (simp add: store16_drop store16_take)
  have "oc_eq (unat (tcp_sum (store16 (?h + 16) v p) n))
     ((sum16 (take 4 (drop 12 p)) + sum16 (take 4 (drop 16 p)) + unat (bswap16 6) +
       unat (bswap16 (word_of_nat n))) + sum16 (store16 16 v (take n (drop ?h p))))" for v
    using tcp_sum_oc [of "store16 (?h + 16) v p" n]
    by (simp add: low seg byte0_store16)
  then show ?thesis by blast
qed

section \<open>Properties\<close>

text \<open>C40: the checksum routine equals the RFC 1071 definition. For every buffer and starting sum the
  lane loops with end-around carry and the two folds return the complement of the ones-complement
  sum of the buffer's 16-bit words (an odd last byte standing alone): \<open>0xFFFF\<close> for a zero sum,
  otherwise \<open>0xFFFF\<close> minus the representative in \<open>1..0xFFFF\<close>.\<close>

theorem csum_equals_reference:
  "unat (csum_fold (csum_partial p s)) = 65535 - oc16 (unat s + sum16 p)"
  by (rule csum_check)

text \<open>An IPv4 header written by \<open>ip_csum_set\<close> verifies. For a header of at least 12 bytes that
  fits the buffer, summing the whole header after the call gives all ones, so the complement a
  receiver computes is zero; only bytes 10 and 11 change.\<close>

lemma ip_csum_set_verifies:
  assumes "12 \<le> ihl_bytes p" "ihl_bytes p \<le> length p"
  shows "csum_fold (csum_partial (take (ihl_bytes p) (ip_csum_set p)) 0) = 0 \<and>
         length (ip_csum_set p) = length p \<and>
         (\<forall>i. i \<noteq> 10 \<and> i \<noteq> 11 \<longrightarrow> ip_csum_set p ! i = p ! i)"
proof -
  let ?q = "take (ihl_bytes p) p"
  let ?c = "csum_fold (csum_partial (store16 10 0 ?q) 0)"
  have q: "10 + 2 \<le> length ?q" using assms by simp
  have "take (ihl_bytes p) (ip_csum_set p) = store16 10 ?c ?q"
    using assms by (simp add: ip_csum_set_eq store16_take)
  moreover have "unat ?c = 65535 - oc16 (0 + sum16 (store16 10 0 ?q))" by (simp add: csum_check)
  then have "oc16 (0 + sum16 (store16 10 ?c ?q)) = 65535"
    by (intro store_complement_verifies q) simp
  then have "unat (csum_fold (csum_partial (store16 10 ?c ?q) 0)) = 0" by (simp add: csum_check)
  ultimately show ?thesis
    by (simp add: ip_csum_set_eq unat_eq_0 store16_def)
qed

text \<open>A segment written by \<open>tcp_csum_set\<close> verifies. When the IPv4 header is at least 20 bytes and
  the segment, of at least 18 bytes, fits the buffer, the receiver's sum over pseudo-header and
  segment after the call is all ones.\<close>

lemma tcp_csum_set_verifies:
  assumes "20 \<le> ihl_bytes p" "18 \<le> n" "ihl_bytes p + n \<le> length p"
  shows "csum_fold (tcp_sum (tcp_csum_set p n) n) = 0"
proof -
  let ?at = "ihl_bytes p + 16" and ?seg = "take n (drop (ihl_bytes p) p)"
  obtain k where k: "oc_eq (unat (tcp_sum (store16 ?at v p) n)) (k + sum16 (store16 16 v ?seg))" for v
    using tcp_sum_store [OF assms] by blast
  let ?c = "csum_fold (tcp_sum (store16 ?at 0 p) n)"
  have "unat ?c = 65535 - oc16 (k + sum16 (store16 16 0 ?seg))"
    by (simp add: csum_fold_oc oc16_cong [OF k])
  then have "oc16 (k + sum16 (store16 16 ?c ?seg)) = 65535"
    using assms by (intro store_complement_verifies) auto
  then have "unat (csum_fold (tcp_sum (store16 ?at ?c p) n)) = 0"
    by (simp add: csum_fold_oc oc16_cong [OF k])
  then show ?thesis by (simp add: tcp_csum_set_def Let_def store16_store16 unat_eq_0)
qed

text \<open>Completing a checksum the kernel left partial. A malformed offset leaves the packet alone.
  Otherwise only the two checksum bytes change; and when the field, at an even offset, held the
  pseudo-header sum \<open>ps\<close>, the finished packet verifies against that pseudo-header.\<close>

lemma vnet_complete_csum_verifies:
  assumes "plen \<le> length pkt"
  shows "(plen \<le> unat cs \<or> plen < unat cs + unat co + 2 \<longrightarrow> vnet_complete_csum pkt plen cs co = pkt) \<and>
    (\<forall>i. i < unat cs + unat co \<or> unat cs + unat co + 2 \<le> i \<longrightarrow>
         vnet_complete_csum pkt plen cs co ! i = pkt ! i) \<and>
    (unat cs < plen \<and> unat cs + unat co + 2 \<le> plen \<and> even (unat co) \<and>
     oc_eq (sum16 (take 2 (drop (unat cs + unat co) pkt))) (unat ps) \<longrightarrow>
       csum_fold (csum_partial (take (plen - unat cs) (drop (unat cs) (vnet_complete_csum pkt plen cs co))) ps) = 0)"
proof (intro conjI impI allI)
  show "plen \<le> unat cs \<or> plen < unat cs + unat co + 2 \<Longrightarrow> vnet_complete_csum pkt plen cs co = pkt"
    by (auto simp: vnet_complete_csum_def)
  show "vnet_complete_csum pkt plen cs co ! i = pkt ! i"
    if "i < unat cs + unat co \<or> unat cs + unat co + 2 \<le> i" for i
    using store16_other [OF that] by (simp add: vnet_complete_csum_def Let_def)
  assume h: "unat cs < plen \<and> unat cs + unat co + 2 \<le> plen \<and> even (unat co) \<and>
     oc_eq (sum16 (take 2 (drop (unat cs + unat co) pkt))) (unat ps)"
  let ?d = "take (plen - unat cs) (drop (unat cs) pkt)" and ?o = "unat co"
  let ?c = "csum_fold (csum_partial ?d 0)" and ?f = "sum16 (take 2 (drop (unat cs + unat co) pkt))"
  have d: "?o + 2 \<le> length ?d" using h assms by auto
  have out: "take (plen - unat cs) (drop (unat cs) (vnet_complete_csum pkt plen cs co)) = store16 ?o ?c ?d"
  proof -
    have "unat co + 2 \<le> plen - unat cs" using h by auto
    with h show ?thesis by (simp add: vnet_complete_csum_def Let_def store16_drop store16_take)
  qed
  have parts: "sum16 ?d = sum16 (store16 ?o 0 ?d) + ?f"
  proof -
    let ?m = "take 2 (drop ?o ?d)"
    have m: "?m = take 2 (drop (unat cs + unat co) pkt)"
    proof -
      have "drop ?o ?d = take (plen - unat cs - ?o) (drop (unat cs + unat co) pkt)"
        by (simp only: drop_take drop_drop add.commute)
      moreover have "2 \<le> plen - unat cs - ?o" using h by linarith
      ultimately show ?thesis by (simp add: min_absorb1)
    qed
    have "unat cs + unat co + 2 \<le> length pkt" using h assms by linarith
    then have ev: "even (length (take ?o ?d))" "length ?m = 2" using d h by (simp_all add: m)
    then have ev2: "even (length ?m)" by simp
    have "sum16 ?d = sum16 (take ?o ?d @ ?m @ drop (?o + 2) ?d)" by (rule arg_cong [OF split_at2])
    also have "\<dots> = sum16 (take ?o ?d) + (?f + sum16 (drop (?o + 2) ?d))"
      unfolding sum16_append [OF ev(1)] sum16_append [OF ev2] unfolding m ..
    finally have "sum16 ?d = sum16 (take ?o ?d) + (?f + sum16 (drop (?o + 2) ?d))" .
    moreover have "sum16 (store16 ?o 0 ?d) = sum16 (take ?o ?d) + sum16 (drop (?o + 2) ?d)"
      unfolding store16_split [OF d] sum16_append [OF ev(1)] by (simp add: sum16_append sum16_le_bytes16)
    ultimately show ?thesis by simp
  qed
  have "oc_eq (unat ps + sum16 (store16 ?o 0 ?d)) (sum16 ?d)"
  proof -
    have "oc_eq (unat ps) ?f" using h by (simp only: oc_eq_sym)
    then have "oc_eq (unat ps + sum16 (store16 ?o 0 ?d)) (?f + sum16 (store16 ?o 0 ?d))"
      by (rule oc_eq_add) (rule oc_eq_refl)
    moreover have "?f + sum16 (store16 ?o 0 ?d) = sum16 ?d" using parts by (rule trans [OF add.commute sym])
    ultimately show ?thesis by (rule back_subst)
  qed
  then have "unat ?c = 65535 - oc16 (unat ps + sum16 (store16 ?o 0 ?d))"
    by (simp add: csum_check oc16_cong)
  then have "oc16 (unat ps + sum16 (store16 ?o ?c ?d)) = 65535"
    using h d by (intro store_complement_verifies) auto
  then show "csum_fold (csum_partial (take (plen - unat cs) (drop (unat cs) (vnet_complete_csum pkt plen cs co))) ps) = 0"
    unfolding out using csum_check [of "store16 ?o ?c ?d" ps] by (simp add: unat_eq_0)
qed

section \<open>The virtio-net header\<close>

record upf_vnet_hdr =
  vh_flags :: u8
  vh_gso_type :: u8
  vh_hdr_len :: u16
  vh_gso_size :: u16
  vh_csum_start :: u16
  vh_csum_offset :: u16

definition UPF_VNET_HDR_F_NEEDS_CSUM :: u8 where "UPF_VNET_HDR_F_NEEDS_CSUM = 1"
definition UPF_VNET_HDR_GSO_TCPV4 :: u8 where "UPF_VNET_HDR_GSO_TCPV4 = 1"
definition UPF_VNET_HDR_GSO_ECN :: u8 where "UPF_VNET_HDR_GSO_ECN = 0x80"

definition vnet_gso_base :: "u8 \<Rightarrow> u8" where
  "vnet_gso_base gso_type = gso_type AND NOT UPF_VNET_HDR_GSO_ECN"

text \<open>The type survives with or without the ECN flag, and no other flag is dropped.\<close>

lemma vnet_gso_base_ecn: "vnet_gso_base (t OR UPF_VNET_HDR_GSO_ECN) = vnet_gso_base t"
  by (rule bit_word_eqI) (auto simp: vnet_gso_base_def bit_simps)

lemma bit_0x80: "bit (0x80 :: u8) n \<longleftrightarrow> n = 7"
proof -
  have "bit (2 ^ 7 :: u8) n \<longleftrightarrow> n = 7" by (simp only: bit_exp_iff) auto
  then show ?thesis by simp
qed

lemma vnet_gso_base_iff: "vnet_gso_base t = UPF_VNET_HDR_GSO_TCPV4 \<longleftrightarrow> t = 1 \<or> t = 0x81"
proof
  assume b: "vnet_gso_base t = UPF_VNET_HDR_GSO_TCPV4"
  have "t = (t AND NOT 0x80) OR (t AND 0x80)" by (rule bit_word_eqI) (auto simp: bit_simps)
  moreover have "t AND 0x80 = 0 \<or> t AND 0x80 = 0x80"
  proof (cases "bit t 7")
    case True
    then have "t AND 0x80 = 0x80" by (intro bit_word_eqI) (unfold bit_and_iff bit_0x80, auto)
    then show ?thesis ..
  next
    case False
    then have "t AND 0x80 = 0" by (intro bit_word_eqI) (unfold bit_and_iff bit_0x80, auto)
    then show ?thesis ..
  qed
  ultimately show "t = 1 \<or> t = 0x81"
    using b unfolding vnet_gso_base_def UPF_VNET_HDR_GSO_TCPV4_def UPF_VNET_HDR_GSO_ECN_def by auto
qed (auto simp: vnet_gso_base_def UPF_VNET_HDR_GSO_TCPV4_def UPF_VNET_HDR_GSO_ECN_def)

end
