(* ===== verification/GtpuWalk.thy ===== *)
theory GtpuWalk
  imports Prelude
begin

text \<open>
  The walk over a GTP-U header in front of a user packet (\<open>simpleswitch/gtpu_walk.hpp\<close>). Reads of
  the buffer are checked in the model, so that an out-of-bounds read would be a value of its own;
  the theorems show that it never happens, that the walk ends, and that it finds the payload behind
  every well-formed header, extension headers included.
\<close>

unbundle bit_operations_syntax

section \<open>The walk\<close>

datatype walk = OutOfBounds | Nothing | Inner nat nat

definition GTPU_HDR :: nat where "GTPU_HDR = 8"
definition GTPU_E :: byte where "GTPU_E = 0x04"
definition GTPU_S :: byte where "GTPU_S = 0x02"
definition GTPU_PN :: byte where "GTPU_PN = 0x01"

text \<open>The code after the extension loop.\<close>

definition gtpu_end :: "byte list \<Rightarrow> nat \<Rightarrow> walk" where
  "gtpu_end buf off = (if length buf \<le> off then Nothing else Inner off (length buf - off))"

text \<open>\<open>while ((flags & E) && off < len && buf[off - 1])\<close>; entered with \<open>0 < off\<close>.\<close>

function gtpu_exts :: "byte list \<Rightarrow> byte \<Rightarrow> nat \<Rightarrow> walk" where
  "gtpu_exts buf flags off =
     (if flags AND GTPU_E = 0 \<or> length buf \<le> off then gtpu_end buf off
      else if length buf \<le> off - 1 then OutOfBounds
      else if buf ! (off - 1) = 0 then gtpu_end buf off
      else let units = buf ! off
           in if units = 0 then Nothing
              else if length buf < off + unat units * 4 then Nothing
              else gtpu_exts buf flags (off + unat units * 4))"
  by pat_completeness auto
termination
  by (relation "measure (\<lambda>(buf, flags, off). length buf - off)") (auto simp: unat_gt_0 [symmetric] simp del: unat_gt_0)

declare gtpu_exts.simps [simp del]

definition gtpu_inner :: "byte list \<Rightarrow> walk" where
  "gtpu_inner buf =
     (if length buf < GTPU_HDR then Nothing
      else let flags = buf ! 0
           in if flags AND (GTPU_E OR GTPU_S OR GTPU_PN) \<noteq> 0
              then if length buf < GTPU_HDR + 4 then Nothing else gtpu_exts buf flags (GTPU_HDR + 4)
              else gtpu_end buf GTPU_HDR)"

section \<open>Headers as they are built\<close>

text \<open>An extension header is its type and content; its length in 4-byte units and the type of its
  successor frame the content on the wire (TS 29.281, 5.2.1).\<close>

type_synonym ext_hdr = "byte \<times> byte list"

definition ext_ok :: "ext_hdr \<Rightarrow> bool" where
  "ext_ok x \<longleftrightarrow> fst x \<noteq> 0 \<and> (\<exists>u. 1 \<le> u \<and> u \<le> 255 \<and> length (snd x) + 2 = 4 * u)"

definition first_type :: "ext_hdr list \<Rightarrow> byte" where
  "first_type xs = (case xs of [] \<Rightarrow> 0 | x # _ \<Rightarrow> fst x)"

fun enc_exts :: "ext_hdr list \<Rightarrow> byte list" where
  "enc_exts [] = []"
| "enc_exts (x # xs) =
     [word_of_nat ((length (snd x) + 2) div 4)] @ snd x @ [first_type xs] @ enc_exts xs"

definition enc_gpdu :: "byte \<Rightarrow> byte list \<Rightarrow> byte list \<Rightarrow> ext_hdr list \<Rightarrow> byte list \<Rightarrow> byte list" where
  "enc_gpdu flags rest opt xs payload =
     flags # rest @
     (if flags AND (GTPU_E OR GTPU_S OR GTPU_PN) \<noteq> 0 then opt @ [first_type xs] @ enc_exts xs else []) @
     payload"

lemma gtpu_exts_enc:
  assumes "\<forall>x \<in> set xs. ext_ok x" "flags AND GTPU_E \<noteq> 0" "pre \<noteq> []" "last pre = first_type xs" "payload \<noteq> []"
  shows "gtpu_exts (pre @ enc_exts xs @ payload) flags (length pre) =
         Inner (length pre + length (enc_exts xs)) (length payload)"
  using assms
proof (induction xs arbitrary: pre)
  case Nil
  have "(pre @ payload) ! (length pre - 1) = last pre"
    using Nil.prems(3) by (simp add: nth_append last_conv_nth)
  with Nil.prems show ?case
    by (cases pre; subst gtpu_exts.simps) (auto simp: first_type_def gtpu_end_def)
next
  case (Cons x xs)
  obtain u where u: "1 \<le> u" "u \<le> 255" "length (snd x) + 2 = 4 * u" and ty: "fst x \<noteq> 0"
    using Cons.prems(1) by (auto simp: ext_ok_def)
  let ?e = "[word_of_nat ((length (snd x) + 2) div 4)] @ snd x @ [first_type xs] :: byte list"
  let ?buf = "pre @ enc_exts (x # xs) @ payload"
  have nu: "unat (word_of_nat u :: byte) = u" using u by (simp add: unat_of_nat)
  have units: "?buf ! length pre = word_of_nat u"
    using arg_cong [OF u(3), of "\<lambda>n. n div 4"] by simp
  then have nz: "?buf ! length pre \<noteq> 0" using nu u(1) by (metis not_one_le_zero unsigned_0)
  have le: "length ?e = 4 * u" using u(3) by simp
  have prev: "?buf ! (length pre - 1) \<noteq> 0"
    using Cons.prems(3,4) ty by (simp add: nth_append last_conv_nth first_type_def)
  have buf: "?buf = (pre @ ?e) @ enc_exts xs @ payload" by simp
  have ub: "unat (?buf ! length pre) * 4 = 4 * u" by (simp only: units nu mult.commute)
  have lens: "\<not> length ?buf \<le> length pre" "\<not> length ?buf \<le> length pre - 1"
    "\<not> length ?buf < length pre + 4 * u"
    using le Cons.prems(3) by (cases pre; simp)+
  have "gtpu_exts ?buf flags (length pre) = gtpu_exts ?buf flags (length pre + 4 * u)"
    by (subst gtpu_exts.simps) (simp only: Let_def Cons.prems(2) prev nz ub lens if_False simp_thms)
  also have "\<dots> = gtpu_exts ((pre @ ?e) @ enc_exts xs @ payload) flags (length (pre @ ?e))"
    using le by (simp only: buf length_append)
  also have "\<dots> = Inner (length (pre @ ?e) + length (enc_exts xs)) (length payload)"
    by (rule Cons.IH) (use Cons.prems in auto)
  finally show ?case using le by simp
qed

lemma gtpu_exts_bounds:
  "0 < off \<Longrightarrow> case gtpu_exts buf flags off of OutOfBounds \<Rightarrow> False | Nothing \<Rightarrow> True
     | Inner o' n \<Rightarrow> off \<le> o' \<and> o' + n = length buf \<and> 0 < n"
proof (induction buf flags off rule: gtpu_exts.induct)
  case (1 buf flags off)
  let ?next = "off + unat (buf ! off) * 4"
  have stop: "case gtpu_end buf off of OutOfBounds \<Rightarrow> False | Nothing \<Rightarrow> True
     | Inner o' n \<Rightarrow> off \<le> o' \<and> o' + n = length buf \<and> 0 < n"
    by (simp add: gtpu_end_def)
  show ?case
  proof (cases "flags AND GTPU_E = 0 \<or> length buf \<le> off \<or> buf ! (off - 1) = 0 \<or> buf ! off = 0 \<or>
      length buf < ?next")
    case True
    with stop "1.prems" show ?thesis by (subst gtpu_exts.simps) (auto simp: Let_def)
  next
    case False
    with "1.prems" have "gtpu_exts buf flags off = gtpu_exts buf flags ?next"
      by (subst gtpu_exts.simps) (auto simp: Let_def)
    moreover have "case gtpu_exts buf flags ?next of OutOfBounds \<Rightarrow> False | Nothing \<Rightarrow> True
       | Inner o' n \<Rightarrow> ?next \<le> o' \<and> o' + n = length buf \<and> 0 < n"
      by (rule "1.IH") (use False "1.prems" in auto)
    ultimately show ?thesis by (auto split: walk.splits)
  qed
qed

lemma gtpu_inner_enc:
  assumes "length rest = 7" "length opt = 3" "\<forall>x \<in> set xs. ext_ok x" "payload \<noteq> []"
    and "xs = [] \<or> flags AND GTPU_E \<noteq> 0"
  shows "gtpu_inner (enc_gpdu flags rest opt xs payload) =
           Inner (length (enc_gpdu flags rest opt xs payload) - length payload) (length payload)"
proof (cases "flags AND (GTPU_E OR GTPU_S OR GTPU_PN) = 0")
  case True
  then show ?thesis using assms(1,4)
    by (simp add: gtpu_inner_def enc_gpdu_def GTPU_HDR_def gtpu_end_def Suc_leI)
next
  case False
  let ?pre = "flags # rest @ opt @ [first_type xs]"
  have buf: "enc_gpdu flags rest opt xs payload = ?pre @ enc_exts xs @ payload"
    using False by (simp add: enc_gpdu_def)
  have len: "length ?pre = 12" using assms(1,2) by simp
  have "gtpu_inner (enc_gpdu flags rest opt xs payload) = gtpu_exts (?pre @ enc_exts xs @ payload) flags (length ?pre)"
    using False len assms(1,2) by (simp add: gtpu_inner_def buf GTPU_HDR_def)
  also have "\<dots> = Inner (length ?pre + length (enc_exts xs)) (length payload)"
  proof (cases "flags AND GTPU_E = 0")
    case True
    then show ?thesis using assms(4,5) by (subst gtpu_exts.simps) (simp add: gtpu_end_def Suc_leI)
  qed (use gtpu_exts_enc [OF assms(3), of flags ?pre payload] assms(4) in simp)
  finally show ?thesis by (simp add: buf)
qed

section \<open>Properties\<close>

text \<open>The GTP-U walk stays inside the datagram. For every received buffer, whatever its header
  claims, the walk ends, reads no byte past the end, and either reports nothing to forward or an
  offset and a non-zero length that together cover exactly the rest of the datagram behind at least
  the mandatory header.\<close>

lemma gtpu_inner_bounds:
  "case gtpu_inner buf of OutOfBounds \<Rightarrow> False | Nothing \<Rightarrow> True
     | Inner off n \<Rightarrow> GTPU_HDR \<le> off \<and> off + n = length buf \<and> 0 < n"
  using gtpu_exts_bounds [of 12 buf "buf ! 0"]
  by (auto simp: gtpu_inner_def GTPU_HDR_def Let_def gtpu_end_def split: walk.splits)

text \<open>The walk finds the payload of every well-formed G-PDU. Behind the 8-byte header, the
  optional 4-byte block and any chain of extension headers (each 1 to 255 units of 4 bytes, with a
  non-zero type) the reported offset is where the payload starts, and the reported length is its
  length.\<close>

lemma gtpu_inner_finds_payload:
  assumes "length rest = 7" "length opt = 3" "\<forall>x \<in> set xs. ext_ok x" "payload \<noteq> []"
    and "xs = [] \<or> flags AND GTPU_E \<noteq> 0"
  shows "gtpu_inner (enc_gpdu flags rest opt xs payload) =
           Inner (length (enc_gpdu flags rest opt xs payload) - length payload) (length payload)"
  using assms by (rule gtpu_inner_enc)

end
