(* ===== verification/QosMbr.thy ===== *)
theory QosMbr
  imports Prelude
begin

text \<open>
  Rate limiting (\<open>simpleswitch/qos_mbr.hpp\<close>): one rate as a departure clock, and the pair of
  rates (flow MBR, session AMBR) a packet has to fit. All arithmetic is on 64-bit words as in the
  source. The compare-and-swap loops are modelled by their attempts: an attempt decides on a clock
  value it has loaded, and installs its result only if the clock still holds that value, so a
  completed call is one atomic step on the clock.
\<close>

unbundle bit_operations_syntax

definition QOS_TOO_LATE :: u64 where "QOS_TOO_LATE = - 1"

record qos_bucket =
  qb_rate :: u64
  ns_per_byte :: u64
  tolerance :: u64
  qb_shape :: bool
  qb_tat :: u64

definition qos_bucket_new :: "u64 \<Rightarrow> u64 \<Rightarrow> bool \<Rightarrow> qos_bucket" where
  "qos_bucket_new rate_bps tolerance_ms sh =
     \<lparr>qb_rate = rate_bps,
      ns_per_byte = (if rate_bps \<noteq> 0 then push_bit 16 8000000000 div rate_bps else 0),
      tolerance = tolerance_ms * 1000000, qb_shape = sh, qb_tat = 0\<rparr>"

definition qb_cost :: "qos_bucket \<Rightarrow> u64 \<Rightarrow> u64" where
  "qb_cost b n = drop_bit 16 (n * ns_per_byte b)"

definition due_time :: "u64 \<Rightarrow> u64 \<Rightarrow> u64" where
  "due_time t now = (if now < t then t else now)"

text \<open>One pass of the loop body on the loaded clock \<open>t\<close>: refuse, or the value to swap in and the
  departure time to report.\<close>

definition reserve_try :: "qos_bucket \<Rightarrow> u64 \<Rightarrow> u64 \<Rightarrow> bool \<Rightarrow> u64 \<Rightarrow> (u64 \<times> u64) option" where
  "reserve_try b now n may_wait t =
     (let due = due_time t now
      in if tolerance b < due - now then None
         else if qb_shape b \<and> \<not> may_wait \<and> now < due then None
         else Some (due + qb_cost b n, if qb_shape b \<and> now < due then due else 0))"

text \<open>The loop: \<open>seen\<close> lists the clock values loaded by attempts whose swap then failed; the last
  attempt runs on the bucket's clock and its swap succeeds. \<open>took\<close> is the clock installed.\<close>

fun reserve_loop :: "qos_bucket \<Rightarrow> u64 \<Rightarrow> u64 \<Rightarrow> bool \<Rightarrow> u64 list \<Rightarrow> qos_bucket \<times> u64 \<times> u64 option" where
  "reserve_loop b now n may_wait (t # seen) =
     (case reserve_try b now n may_wait t of
        None \<Rightarrow> (b, QOS_TOO_LATE, None)
      | Some _ \<Rightarrow> reserve_loop b now n may_wait seen)"
| "reserve_loop b now n may_wait [] =
     (case reserve_try b now n may_wait (qb_tat b) of
        None \<Rightarrow> (b, QOS_TOO_LATE, None)
      | Some (tat', res) \<Rightarrow> (b\<lparr>qb_tat := tat'\<rparr>, res, Some tat'))"

definition reserve_contended ::
    "u64 list \<Rightarrow> qos_bucket \<Rightarrow> u64 \<Rightarrow> u64 \<Rightarrow> bool \<Rightarrow> qos_bucket \<times> u64 \<times> u64 option" where
  "reserve_contended seen b now n may_wait =
     (if qb_rate b = 0 then (b, 0, None) else reserve_loop b now n may_wait seen)"

abbreviation reserve :: "qos_bucket \<Rightarrow> u64 \<Rightarrow> u64 \<Rightarrow> bool \<Rightarrow> qos_bucket \<times> u64 \<times> u64 option" where
  "reserve \<equiv> reserve_contended []"

definition refund :: "qos_bucket \<Rightarrow> u64 \<Rightarrow> u64 \<Rightarrow> qos_bucket \<times> bool" where
  "refund b took n =
     (if qb_rate b = 0 then (b, True)
      else if qb_tat b = took then (b\<lparr>qb_tat := took - qb_cost b n\<rparr>, True)
      else (b, False))"

definition clamp :: "qos_bucket \<Rightarrow> u64 \<Rightarrow> qos_bucket" where
  "clamp b now = (if now + tolerance b < qb_tat b then b\<lparr>qb_tat := now + tolerance b\<rparr> else b)"

section \<open>A flow and its session\<close>

text \<open>The session bucket is shared by pointer; \<open>bh\<close> holds the buckets that exist.\<close>

type_synonym bucket_heap = "nat \<rightharpoonup> qos_bucket"

record qos_mbr =
  flow :: qos_bucket
  session_bucket :: "nat option"

definition qos_mbr_new :: "u64 \<Rightarrow> nat option \<Rightarrow> u64 \<Rightarrow> bool \<Rightarrow> qos_mbr" where
  "qos_mbr_new flow_bps sess tolerance_ms sh =
     \<lparr>flow = qos_bucket_new flow_bps tolerance_ms sh, session_bucket = sess\<rparr>"

definition same_as :: "qos_mbr \<Rightarrow> u64 \<Rightarrow> nat option \<Rightarrow> bool" where
  "same_as m flow_bps sess \<longleftrightarrow> qb_rate (flow m) = flow_bps \<and> session_bucket m = sess"

definition due_at :: "qos_mbr \<Rightarrow> bucket_heap \<Rightarrow> u64 \<Rightarrow> u64 \<Rightarrow> bool \<Rightarrow> qos_mbr \<times> bucket_heap \<times> u64" where
  "due_at m bh now bytes may_wait =
     (case reserve (flow m) now bytes may_wait of (fb, f, took) \<Rightarrow>
        let m1 = m\<lparr>flow := fb\<rparr>;
            took0 = (case took of None \<Rightarrow> 0 | Some t \<Rightarrow> t)
        in if f = QOS_TOO_LATE then (m1, bh, f)
           else case session_bucket m of
                  None \<Rightarrow> (m1, bh, f)
                | Some r \<Rightarrow>
                   (case bh r of
                      None \<Rightarrow> (m1, bh, f)
                    | Some sb \<Rightarrow>
                       (case reserve sb now bytes may_wait of (sb', s, _) \<Rightarrow>
                          if s = QOS_TOO_LATE
                          then (m1\<lparr>flow := fst (refund fb took0 bytes)\<rparr>, bh(r \<mapsto> sb'), s)
                          else (m1, bh(r \<mapsto> sb'), if s < f then f else s))))"

definition pass_packet :: "qos_mbr \<Rightarrow> bucket_heap \<Rightarrow> u64 \<Rightarrow> u64 \<Rightarrow> qos_mbr \<times> bucket_heap \<times> bool" where
  "pass_packet m bh now bytes =
     (case due_at m bh now bytes True of (m', bh', d) \<Rightarrow> (m', bh', d \<noteq> QOS_TOO_LATE))"

section \<open>One reservation\<close>

text \<open>No sum of the current time, the tolerance and one packet's cost reaches the top of the clock
  (the tolerance is milliseconds, the clock counts nanoseconds since boot).\<close>

definition fits :: "qos_bucket \<Rightarrow> u64 \<Rightarrow> u64 \<Rightarrow> bool" where
  "fits b now n \<longleftrightarrow> unat now + unat (tolerance b) + unat (qb_cost b n) < 2 ^ 64 - 1"

lemma due_time_unat: "unat (due_time t now) = max (unat t) (unat now)"
  by (auto simp: due_time_def max_def word_less_nat_alt)

lemma due_minus_now: "unat (due_time t now - now) = max (unat t) (unat now) - unat now"
proof -
  have "now \<le> due_time t now" by (auto simp: due_time_def word_less_nat_alt word_le_nat_alt)
  then show ?thesis by (simp add: unat_sub due_time_unat)
qed

lemma reserve_try_Some:
  assumes "reserve_try b now n mw t = Some (t', res)" "fits b now n"
  shows "max (unat t) (unat now) \<le> unat now + unat (tolerance b)"
    "unat t' = max (unat t) (unat now) + unat (qb_cost b n)"
    "t' - qb_cost b n = due_time t now"
    "res = (if qb_shape b \<and> now < due_time t now then due_time t now else 0)"
    "res \<noteq> QOS_TOO_LATE"
proof -
  have d: "\<not> tolerance b < due_time t now - now" and t': "t' = due_time t now + qb_cost b n"
    and res: "res = (if qb_shape b \<and> now < due_time t now then due_time t now else 0)"
    using assms(1) by (auto simp: reserve_try_def Let_def split: if_splits)
  show le: "max (unat t) (unat now) \<le> unat now + unat (tolerance b)"
    using d by (simp add: word_less_nat_alt due_minus_now)
  then have small: "max (unat t) (unat now) + unat (qb_cost b n) < 2 ^ 64 - 1"
    using assms(2) unfolding fits_def by linarith
  then show "unat t' = max (unat t) (unat now) + unat (qb_cost b n)"
    unfolding t' by (simp add: unat_plus_if' due_time_unat)
  show "t' - qb_cost b n = due_time t now" by (simp add: t')
  show "res = (if qb_shape b \<and> now < due_time t now then due_time t now else 0)" by (rule res)
  have "unat (due_time t now) < 2 ^ 64 - 1" using small unfolding due_time_unat by linarith
  then have "due_time t now \<noteq> QOS_TOO_LATE"
    by (auto simp: QOS_TOO_LATE_def unsigned_minus_1_eq_mask mask_eq_exp_minus_1)
  then show "res \<noteq> QOS_TOO_LATE" by (simp add: res QOS_TOO_LATE_def)
qed

text \<open>Contention can turn an acceptance into a refusal, but never changes what an acceptance does.\<close>

lemma reserve_contended_cases:
  "reserve_contended seen b now n mw = reserve b now n mw \<or>
   reserve_contended seen b now n mw = (b, QOS_TOO_LATE, None)"
proof (cases "qb_rate b = 0")
  case False
  have "reserve_loop b now n mw seen = reserve_loop b now n mw [] \<or>
        reserve_loop b now n mw seen = (b, QOS_TOO_LATE, None)"
    by (induction seen) (auto split: option.splits)
  with False show ?thesis by (simp add: reserve_contended_def)
qed (simp add: reserve_contended_def)

lemma reserve_cases:
  assumes "qb_rate b \<noteq> 0" "fits b now n"
  obtains "reserve b now n mw = (b, QOS_TOO_LATE, None)"
  | t' res where "reserve b now n mw = (b\<lparr>qb_tat := t'\<rparr>, res, Some t')"
      "reserve_try b now n mw (qb_tat b) = Some (t', res)" "res \<noteq> QOS_TOO_LATE"
proof (cases "reserve_try b now n mw (qb_tat b)")
  case None
  then show ?thesis using assms(1) that(1) by (simp add: reserve_contended_def)
next
  case (Some p)
  obtain t' res where p: "p = (t', res)" by fastforce
  with Some show ?thesis using assms(1) that(2) reserve_try_Some(5) [OF _ assms(2)]
    by (simp add: reserve_contended_def)
qed

section \<open>A stream of reservations\<close>

text \<open>Calls in the order their swaps succeed, each with the stale clock values it saw; the result
  collects the accepted ones as (time, cost).\<close>

fun reserves :: "qos_bucket \<Rightarrow> (u64 list \<times> u64 \<times> u64 \<times> bool) list \<Rightarrow> qos_bucket \<times> (nat \<times> nat) list" where
  "reserves b [] = (b, [])"
| "reserves b ((seen, now, n, mw) # calls) =
     (case reserve_contended seen b now n mw of (b', res, took) \<Rightarrow>
        (case reserves b' calls of (b'', acc) \<Rightarrow>
           (b'', (if took = None then [] else [(unat now, unat (qb_cost b n))]) @ acc)))"

lemma fits_tat [simp]: "fits (b\<lparr>qb_tat := t\<rparr>) now n = fits b now n"
  by (simp add: fits_def qb_cost_def)

lemma cost_tat [simp]: "qb_cost (b\<lparr>qb_tat := t\<rparr>) n = qb_cost b n"
  by (simp add: qb_cost_def)

lemma reserves_bound:
  assumes "qb_rate b \<noteq> 0" "\<forall>(seen, now, n, mw) \<in> set calls. fits b now n"
    "snd (reserves b calls) = (t1, c1) # acc"
  shows "max (unat (qb_tat b)) t1 + sum_list (map snd (butlast ((t1, c1) # acc)))
           \<le> fst (last ((t1, c1) # acc)) + unat (tolerance b)"
  using assms
proof (induction calls arbitrary: b t1 c1 acc)
  case (Cons call calls)
  obtain seen now n mw where call: "call = (seen, now, n, mw)" by (cases call)
  have f: "fits b now n" using Cons.prems(2) call by simp
  consider (no) "reserve_contended seen b now n mw = (b, QOS_TOO_LATE, None)"
    | (yes) t' res where "reserve_contended seen b now n mw = (b\<lparr>qb_tat := t'\<rparr>, res, Some t')"
        "reserve_try b now n mw (qb_tat b) = Some (t', res)"
    using reserve_contended_cases [of seen b now n mw]
    by (cases rule: reserve_cases [OF Cons.prems(1) f, of mw]) auto
  then show ?case
  proof cases
    case no
    with Cons.prems call show ?thesis by (intro Cons.IH) (auto split: prod.splits)
  next
    case (yes t' res)
    note R = reserve_try_Some [OF yes(2) f]
    let ?b = "b\<lparr>qb_tat := t'\<rparr>"
    have acc: "t1 = unat now" "c1 = unat (qb_cost b n)" "snd (reserves ?b calls) = acc"
      using Cons.prems(3) call yes(1) by (auto split: prod.splits)
    show ?thesis
    proof (cases acc)
      case Nil
      with R(1) acc(1) show ?thesis by simp
    next
      case (Cons a acc')
      obtain t2 c2 where a: "a = (t2, c2)" by fastforce
      have "max (unat (qb_tat ?b)) t2 + sum_list (map snd (butlast ((t2, c2) # acc')))
              \<le> fst (last ((t2, c2) # acc')) + unat (tolerance ?b)"
        by (rule Cons.IH) (use Cons.prems call acc(3) Cons a in auto)
      then show ?thesis using R(2) acc(1,2) Cons a by auto
    qed
  qed
qed simp

lemma qos_refund_core:
  assumes "qb_rate b \<noteq> 0" "fits b now n" "reserve b now n mw = (b1, res, Some took)"
  shows "refund b1 took n = (b\<lparr>qb_tat := due_time (qb_tat b) now\<rparr>, True)"
  using assms(3,1)
  by (cases rule: reserve_cases [OF assms(1,2), of mw])
     (auto simp: refund_def dest: reserve_try_Some(3) [OF _ assms(2)])

section \<open>Properties\<close>

text \<open>C32: a meter never exceeds its rate. Take any stream of reservations on one rate, by any
  number of threads, in the order their compare-and-swaps succeed and whatever stale clocks they
  saw. Whatever lies between the first and the last accepted packet, the time charged for all
  accepted packets but the last is at most the time between those two plus the tolerance (the
  burst, or the queue). Assumes the 64-bit clock does not overflow.\<close>

theorem qos_rate_bound:
  assumes "qb_rate b \<noteq> 0" "\<forall>(seen, now, n, mw) \<in> set calls. fits b now n"
    and "snd (reserves b calls) = (t1, c1) # acc"
  shows "t1 + sum_list (map snd (butlast (snd (reserves b calls))))
           \<le> fst (last (snd (reserves b calls))) + unat (tolerance b)"
  using reserves_bound [OF assms] by (simp add: assms(3))

theorem qos_rate_bound_witness:
  "length (snd (reserves (qos_bucket_new 8000000 1 False)
     [([], 1000000, 1000, True), ([7], 1000000, 500, True), ([], 1500000, 100, True)])) = 3 \<and>
   1000000 + (1000000 + 500000) \<le> (1500000 :: nat) + 1000000"
  (is "length (snd (reserves ?b ?calls)) = 3 \<and> _")
proof -
  have c: "qb_cost ?b 1000 = 1000000 \<and> qb_cost ?b 500 = 500000"
    by (simp add: qb_cost_def qos_bucket_new_def)
  have acc: "snd (reserves ?b ?calls) = [(1000000, unat (qb_cost ?b 1000)), (1000000, unat (qb_cost ?b 500)),
      (1500000, unat (qb_cost ?b 100))]"
    by (simp add: reserve_contended_def reserve_try_def due_time_def qos_bucket_new_def Let_def
        qb_cost_def QOS_TOO_LATE_def)
  have "\<forall>(seen, now, n, mw) \<in> set ?calls. fits ?b now n"
    by (simp add: fits_def qb_cost_def qos_bucket_new_def)
  note fit = this
  have r: "qb_rate ?b \<noteq> 0" "unat (tolerance ?b) = 1000000" by (simp_all add: qos_bucket_new_def)
  show ?thesis using qos_rate_bound [OF r(1) fit acc] unfolding acc by (simp add: c r(2))
qed

text \<open>A refund takes back exactly the reservation it belongs to, and only that. Right after the
  reservation it puts the clock back to where the reserved slot began, so the next caller is
  offered that slot again; once anyone else has reserved a packet of non-zero cost, it leaves the
  clock alone.\<close>

lemma qos_refund_exact:
  assumes "qb_rate b \<noteq> 0" "fits b now n" "reserve b now n mw = (b1, res, Some took)"
  shows "refund b1 took n = (b\<lparr>qb_tat := due_time (qb_tat b) now\<rparr>, True) \<and>
    (fits b now' n' \<and> reserve b1 now' n' mw' = (b2, res', Some took') \<and> qb_cost b n' \<noteq> 0 \<longrightarrow>
       refund b2 took n = (b2, False))"
proof (intro conjI impI)
  show "refund b1 took n = (b\<lparr>qb_tat := due_time (qb_tat b) now\<rparr>, True)"
    by (rule qos_refund_core [OF assms])
  have b1: "b1 = b\<lparr>qb_tat := took\<rparr>"
    using assms(3) by (cases rule: reserve_cases [OF assms(1,2), of mw]) auto
  assume "fits b now' n' \<and> reserve b1 now' n' mw' = (b2, res', Some took') \<and> qb_cost b n' \<noteq> 0"
  then have f: "fits b now' n'" and r2: "reserve b1 now' n' mw' = (b2, res', Some took')" and c: "qb_cost b n' \<noteq> 0"
    by auto
  have "qb_rate b1 \<noteq> 0" "fits b1 now' n'" using assms(1) f b1 by simp_all
  then show "refund b2 took n = (b2, False)"
  proof (cases rule: reserve_cases [of b1 now' n' mw'])
    case (2 t' res2)
    have "unat t' = max (unat took) (unat now') + unat (qb_cost b n')"
      using reserve_try_Some(2) [OF 2(2)] f by (simp add: b1)
    moreover have "0 < unat (qb_cost b n')" using c by (simp add: unat_gt_0)
    ultimately have "t' \<noteq> took" by auto
    then show ?thesis using 2(1) r2 assms(1) by (auto simp: refund_def b1)
  qed (use r2 in simp)
qed

text \<open>Neither rate is charged for a packet the other turns away. When the flow refuses, nothing
  moves. When the session refuses, its clock is untouched and the flow's clock goes back to where
  the reserved slot began. When both accept, the departure time reported is the later of the two.\<close>

lemma due_at_no_overcharge:
  assumes "qb_rate (flow m) \<noteq> 0" "fits (flow m) now bytes" "session_bucket m = Some r" "bh r = Some sb"
    and "qb_rate sb \<noteq> 0" "fits sb now bytes" "due_at m bh now bytes mw = (m', bh', d)"
  shows "(snd (snd (reserve (flow m) now bytes mw)) = None \<longrightarrow> m' = m \<and> bh' = bh \<and> d = QOS_TOO_LATE) \<and>
    (snd (snd (reserve (flow m) now bytes mw)) \<noteq> None \<and> snd (snd (reserve sb now bytes mw)) = None \<longrightarrow>
       m' = m\<lparr>flow := (flow m)\<lparr>qb_tat := due_time (qb_tat (flow m)) now\<rparr>\<rparr> \<and> bh' = bh \<and> d = QOS_TOO_LATE) \<and>
    (snd (snd (reserve (flow m) now bytes mw)) \<noteq> None \<and> snd (snd (reserve sb now bytes mw)) \<noteq> None \<longrightarrow>
       m' = m\<lparr>flow := fst (reserve (flow m) now bytes mw)\<rparr> \<and> bh' = bh(r \<mapsto> fst (reserve sb now bytes mw)) \<and>
       d = max (fst (snd (reserve (flow m) now bytes mw))) (fst (snd (reserve sb now bytes mw))))"
proof (cases rule: reserve_cases [OF assms(1,2), of mw])
  case 1
  then show ?thesis using assms(7) by (simp add: due_at_def Let_def)
next
  case (2 t' res)
  note F = this
  show ?thesis
  proof (cases rule: reserve_cases [OF assms(5,6), of mw])
    case 1
    have "refund ((flow m)\<lparr>qb_tat := t'\<rparr>) t' bytes =
        ((flow m)\<lparr>qb_tat := due_time (qb_tat (flow m)) now\<rparr>, True)"
      using qos_refund_core [OF assms(1,2) F(1)] .
    then show ?thesis using assms(3,4,7) F 1 by (auto simp: due_at_def Let_def fun_upd_idem)
  next
    case (2 t2 res2)
    then show ?thesis using assms(3,4,7) F by (auto simp: due_at_def Let_def max_def)
  qed
qed

end
