(* ===== verification/SdfFilter.thy ===== *)
theory SdfFilter
  imports Prelude Checksum "HOL-Library.Char_ord"
begin

text \<open>
  SDF filters (\<open>simpleswitch/sdf_filter.cpp\<close>): the IPFilterRule text of a PDI is compiled once and
  matched per packet. Strings are character lists; \<open>strtol\<close> and stream extraction are modelled as
  the source uses them. \<open>inet_pton\<close> is a parameter \<open>pton\<close> that returns the address in network
  byte order. Addresses stay in network byte order, as in the source.
\<close>

unbundle bit_operations_syntax

section \<open>Characters and numbers\<close>

definition is_space :: "char \<Rightarrow> bool" where
  "is_space c \<longleftrightarrow> (of_char c :: nat) \<in> {9, 10, 11, 12, 13, 32}"

definition is_digit :: "char \<Rightarrow> bool" where
  "is_digit c \<longleftrightarrow> 48 \<le> (of_char c :: nat) \<and> (of_char c :: nat) \<le> 57"

text \<open>\<open>while (is >> w) t.push_back(w)\<close>.\<close>

fun split_ws :: "string \<Rightarrow> string \<Rightarrow> string list" where
  "split_ws acc [] = (if acc = [] then [] else [rev acc])"
| "split_ws acc (c # cs) =
     (if is_space c then (if acc = [] then split_ws [] cs else rev acc # split_ws [] cs)
      else split_ws (c # acc) cs)"

text \<open>A C function that is handed \<open>c_str()\<close> stops at the first NUL.\<close>

definition c_str :: "string \<Rightarrow> string" where
  "c_str s = takeWhile (\<lambda>c. of_char c \<noteq> (0 :: nat)) s"

definition digits_val :: "string \<Rightarrow> nat" where
  "digits_val ds = foldl (\<lambda>n c. n * 10 + (of_char c - 48)) 0 ds"

definition clamp_long :: "int \<Rightarrow> int" where
  "clamp_long v = max (- (2 ^ 63)) (min (2 ^ 63 - 1) v)"

text \<open>\<open>strtol(s, &end, 10)\<close>: the value and the text from \<open>end\<close>; \<open>None\<close> is \<open>end == s\<close>.\<close>

definition strtol :: "string \<Rightarrow> (int \<times> string) option" where
  "strtol s =
     (let s1 = dropWhile is_space (c_str s);
          neg = (s1 \<noteq> [] \<and> hd s1 = CHR ''-'');
          s2 = (if s1 \<noteq> [] \<and> (hd s1 = CHR ''-'' \<or> hd s1 = CHR ''+'') then tl s1 else s1);
          ds = takeWhile is_digit s2;
          v = int (digits_val ds)
      in if ds = [] then None
         else Some (clamp_long (if neg then - v else v), drop (length ds) s2))"

section \<open>The compiled rule\<close>

record sdf_rule =
  sr_present :: bool
  sr_valid :: bool
  sr_out :: bool
  any_proto :: bool
  sr_proto :: u8
  src_any :: bool
  src_assigned :: bool
  src_addr :: u32
  src_mask :: u32
  dst_any :: bool
  dst_assigned :: bool
  dst_addr :: u32
  dst_mask :: u32
  has_src_ports :: bool
  src_lo :: u16
  src_hi :: u16
  has_dst_ports :: bool
  dst_lo :: u16
  dst_hi :: u16

definition sdf_rule_default :: sdf_rule where
  "sdf_rule_default =
     \<lparr>sr_present = False, sr_valid = False, sr_out = True, any_proto = True, sr_proto = 0,
      src_any = True, src_assigned = False, src_addr = 0, src_mask = 0,
      dst_any = True, dst_assigned = False, dst_addr = 0, dst_mask = 0,
      has_src_ports = False, src_lo = 0, src_hi = 0, has_dst_ports = False, dst_lo = 0, dst_hi = 0\<rparr>"

definition IPPROTO_ICMP :: u8 where "IPPROTO_ICMP = 1"
definition IPPROTO_TCP :: u8 where "IPPROTO_TCP = 6"
definition IPPROTO_UDP :: u8 where "IPPROTO_UDP = 17"
definition IPPROTO_SCTP :: u8 where "IPPROTO_SCTP = 132"

definition prefix_mask :: "nat \<Rightarrow> u32" where
  "prefix_mask prefix = (if prefix = 0 then 0 else bswap32 (push_bit (32 - prefix) 0xFFFFFFFF))"

text \<open>The out-parameters are results: success, \<open>any\<close>, \<open>assigned\<close>, \<open>addr\<close>, \<open>mask\<close>; on failure the last
  two keep the values \<open>old\<close> they had.\<close>

definition parse_addr ::
    "(string \<Rightarrow> u32 option) \<Rightarrow> string \<Rightarrow> u32 \<times> u32 \<Rightarrow> bool \<times> bool \<times> bool \<times> u32 \<times> u32" where
  "parse_addr pton tok old =
     (if tok = ''any'' then (True, True, False, old)
      else if tok = ''assigned'' then (True, False, True, old)
      else
        let ip = takeWhile (\<lambda>c. c \<noteq> CHR ''/'') tok;
            rest = dropWhile (\<lambda>c. c \<noteq> CHR ''/'') tok;
            prefix = (if rest = [] then Some 32
                      else case strtol (tl rest) of
                             None \<Rightarrow> None
                           | Some (v, end) \<Rightarrow> if end \<noteq> [] \<or> v < 0 \<or> 32 < v then None else Some (nat v))
        in case prefix of
             None \<Rightarrow> (False, False, False, old)
           | Some n \<Rightarrow>
               (case pton (c_str ip) of
                  None \<Rightarrow> (False, False, False, old)
                | Some a \<Rightarrow> (True, False, False, a, prefix_mask n)))"

definition parse_ports :: "string \<Rightarrow> (u16 \<times> u16) option" where
  "parse_ports tok =
     (case strtol tok of
        None \<Rightarrow> None
      | Some (a, e) \<Rightarrow>
          if a < 0 \<or> 65535 < a then None
          else if e = [] then Some (word_of_int a, word_of_int a)
          else if hd e \<noteq> CHR ''-'' then None
          else (case strtol (tl e) of
                  None \<Rightarrow> None
                | Some (b, e2) \<Rightarrow>
                    if e2 \<noteq> [] \<or> b < a \<or> 65535 < b then None
                    else Some (word_of_int a, word_of_int b)))"

definition parse_proto :: "string \<Rightarrow> u8 \<Rightarrow> bool \<times> bool \<times> u8" where
  "parse_proto tok old =
     (if tok = ''ip'' then (True, True, old)
      else if tok = ''tcp'' then (True, False, IPPROTO_TCP)
      else if tok = ''udp'' then (True, False, IPPROTO_UDP)
      else if tok = ''icmp'' then (True, False, IPPROTO_ICMP)
      else if tok = ''sctp'' then (True, False, IPPROTO_SCTP)
      else case strtol tok of
             None \<Rightarrow> (False, False, old)
           | Some (v, e) \<Rightarrow>
               if e \<noteq> [] \<or> v < 0 \<or> 255 < v then (False, False, old) else (True, False, word_of_int v))"

text \<open>\<open>parse\<close> from the destination ports on, from the destination address on, and whole.\<close>

definition parse_tail :: "string list \<Rightarrow> nat \<Rightarrow> sdf_rule \<Rightarrow> sdf_rule \<times> bool" where
  "parse_tail t i r =
     (if i < length t
      then (case parse_ports (t ! i) of
              None \<Rightarrow> (r, False)
            | Some (lo, hi) \<Rightarrow> (r\<lparr>dst_lo := lo, dst_hi := hi, has_dst_ports := True\<rparr>, Suc i = length t))
      else (r, i = length t))"

definition parse_dst :: "(string \<Rightarrow> u32 option) \<Rightarrow> string list \<Rightarrow> nat \<Rightarrow> sdf_rule \<Rightarrow> sdf_rule \<times> bool" where
  "parse_dst pton t i r =
     (if length t \<le> i \<or> t ! i \<noteq> ''to'' then (r, False)
      else if length t \<le> Suc i then (r, False)
      else (case parse_addr pton (t ! Suc i) (dst_addr r, dst_mask r) of
              (ok, any, asg, a, m) \<Rightarrow>
                let r = r\<lparr>dst_any := any, dst_assigned := asg, dst_addr := a, dst_mask := m\<rparr>
                in if ok then parse_tail t (Suc (Suc i)) r else (r, False)))"

definition parse_src :: "(string \<Rightarrow> u32 option) \<Rightarrow> string list \<Rightarrow> nat \<Rightarrow> sdf_rule \<Rightarrow> sdf_rule \<times> bool" where
  "parse_src pton t i r =
     (case parse_addr pton (t ! i) (src_addr r, src_mask r) of
        (ok, any, asg, a, m) \<Rightarrow>
          let r = r\<lparr>src_any := any, src_assigned := asg, src_addr := a, src_mask := m\<rparr>; i = Suc i
          in if \<not> ok then (r, False)
             else if i < length t \<and> t ! i \<noteq> ''to''
             then (case parse_ports (t ! i) of
                     None \<Rightarrow> (r, False)
                   | Some (lo, hi) \<Rightarrow>
                       parse_dst pton t (Suc i) (r\<lparr>src_lo := lo, src_hi := hi, has_src_ports := True\<rparr>))
             else parse_dst pton t i r)"

definition parse :: "(string \<Rightarrow> u32 option) \<Rightarrow> string \<Rightarrow> sdf_rule \<Rightarrow> sdf_rule \<times> bool" where
  "parse pton fd r =
     (let t = split_ws [] fd
      in if length t < 7 then (r, False)
         else if t ! 0 \<noteq> ''permit'' then (r, False)
         else if t ! 1 \<noteq> ''out'' \<and> t ! 1 \<noteq> ''in'' then (r, False)
         else
           let r = r\<lparr>sr_out := (t ! 1 = ''out'')\<rparr>
           in case parse_proto (t ! 2) (sr_proto r) of
                (ok, any, p) \<Rightarrow>
                  let r = r\<lparr>any_proto := any, sr_proto := p\<rparr>
                  in if \<not> ok then (r, False)
                     else if t ! 3 \<noteq> ''from'' then (r, False)
                     else parse_src pton t 4 r)"

definition sdf_compile :: "(string \<Rightarrow> u32 option) \<Rightarrow> string \<Rightarrow> sdf_rule" where
  "sdf_compile pton fd =
     (if fd = [] then sdf_rule_default
      else let (r, ok) = parse pton fd (sdf_rule_default\<lparr>sr_present := True\<rparr>)
           in r\<lparr>sr_valid := ok\<rparr>)"

section \<open>Matching a packet\<close>

text \<open>Fields of the packet as the little-endian host loads them (raw network-order integers).\<close>

definition load16 :: "byte list \<Rightarrow> nat \<Rightarrow> u16" where
  "load16 p i = word_of_nat (load_le (take 2 (drop i p)))"

definition load32 :: "byte list \<Rightarrow> nat \<Rightarrow> u32" where
  "load32 p i = word_of_nat (load_le (take 4 (drop i p)))"

definition addr_ok :: "bool \<Rightarrow> bool \<Rightarrow> u32 \<Rightarrow> u32 \<Rightarrow> u32 \<Rightarrow> u32 \<Rightarrow> bool" where
  "addr_ok any assigned addr msk pkt ue_ip =
     (if any then True else if assigned then pkt = ue_ip else pkt AND msk = addr AND msk)"

definition ports_ok :: "sdf_rule \<Rightarrow> u16 \<Rightarrow> u16 \<Rightarrow> bool" where
  "ports_ok r rsp rdp =
     (if has_src_ports r \<and> (rsp < src_lo r \<or> src_hi r < rsp) then False
      else if has_dst_ports r \<and> (rdp < dst_lo r \<or> dst_hi r < rdp) then False
      else True)"

definition sdf_match :: "sdf_rule \<Rightarrow> byte list \<Rightarrow> nat \<Rightarrow> bool \<Rightarrow> u32 \<Rightarrow> bool" where
  "sdf_match r iph len uplink ue_ip =
     (if \<not> sr_present r then True
      else if \<not> sr_valid r then False
      else if \<not> any_proto r \<and> iph ! 9 \<noteq> sr_proto r then False
      else
        let mirror = (sr_out r = uplink);
            src = (if mirror then load32 iph 16 else load32 iph 12);
            dst = (if mirror then load32 iph 12 else load32 iph 16)
        in if \<not> addr_ok (src_any r) (src_assigned r) (src_addr r) (src_mask r) src ue_ip then False
           else if \<not> addr_ok (dst_any r) (dst_assigned r) (dst_addr r) (dst_mask r) dst ue_ip then False
           else if \<not> has_src_ports r \<and> \<not> has_dst_ports r then True
           else if load16 iph 6 AND bswap16 0x1FFF \<noteq> 0 then False
           else if iph ! 9 \<noteq> IPPROTO_TCP \<and> iph ! 9 \<noteq> IPPROTO_UDP \<and> iph ! 9 \<noteq> IPPROTO_SCTP then False
           else if len < ihl_bytes iph + 4 then False
           else
             let sport = bswap16 (load16 iph (ihl_bytes iph));
                 dport = bswap16 (load16 iph (ihl_bytes iph + 2))
             in ports_ok r (if mirror then dport else sport) (if mirror then sport else dport))"

section \<open>Prefixes\<close>

lemma bswap32_AND: "bswap32 (a AND b) = bswap32 a AND bswap32 b"
proof -
  have "\<forall>n<32. bit (bswap32 (a AND b)) n = bit (bswap32 a AND bswap32 b) n"
    by (simp add: bit_bswap32 bit_and_iff)
  then show ?thesis by (auto intro: bit_word_eqI)
qed

lemma bswap32_0 [simp]: "bswap32 0 = 0"
  by (simp add: bswap32_def)

lemma AND_high_eq_iff:
  fixes a b :: u32
  assumes "k \<le> 32"
  shows "a AND push_bit k 0xFFFFFFFF = b AND push_bit k 0xFFFFFFFF \<longleftrightarrow> drop_bit k a = drop_bit k b"
proof -
  have ones: "(0xFFFFFFFF :: u32) = - 1" by simp
  have "a AND push_bit k (- 1) = push_bit k (drop_bit k a)" for a :: u32
    by (rule bit_word_eqI) (auto simp: bit_simps)
  moreover have "drop_bit k (push_bit k (drop_bit k a)) = drop_bit k a" for a :: u32
    by (rule bit_word_eqI) (auto simp: bit_simps dest: bit_imp_le_length)
  ultimately show ?thesis unfolding ones by metis
qed

text \<open>The network-order mask compares exactly the first \<open>n\<close> bits of the host-order addresses.\<close>

lemma prefix_mask_semantics:
  assumes "n \<le> 32"
  shows "pkt AND prefix_mask n = addr AND prefix_mask n \<longleftrightarrow>
         drop_bit (32 - n) (bswap32 pkt) = drop_bit (32 - n) (bswap32 addr)"
proof (cases "n = 0")
  case True
  have "drop_bit 32 w = 0" for w :: u32 by (rule bit_word_eqI) (auto simp: bit_simps)
  with True show ?thesis by (simp add: prefix_mask_def)
next
  case False
  let ?m = "push_bit (32 - n) 0xFFFFFFFF :: u32"
  have "pkt AND bswap32 ?m = addr AND bswap32 ?m \<longleftrightarrow> bswap32 pkt AND ?m = bswap32 addr AND ?m"
    by (metis bswap32_AND bswap32_bswap32)
  with AND_high_eq_iff [of "32 - n"] False show ?thesis by (simp add: prefix_mask_def)
qed

section \<open>Reading numbers\<close>

definition digit_char :: "nat \<Rightarrow> char" where
  "digit_char d = char_of (48 + d)"

function show_nat :: "nat \<Rightarrow> string" where
  "show_nat n = (if n < 10 then [digit_char n] else show_nat (n div 10) @ [digit_char (n mod 10)])"
  by pat_completeness auto
termination by (relation "measure id") auto

declare show_nat.simps [simp del]

lemma of_char_digit: "d < 10 \<Longrightarrow> of_char (digit_char d) = (48 + d :: nat)"
  by (simp add: digit_char_def)

lemma is_digit_digit [simp]: "d < 10 \<Longrightarrow> is_digit (digit_char d)"
  by (simp add: is_digit_def of_char_digit)

lemma show_nat_digits: "\<forall>c \<in> set (show_nat n). is_digit c"
  by (induction n rule: show_nat.induct) (subst show_nat.simps, auto)

lemma show_nat_nonempty [simp]: "show_nat n \<noteq> []"
  by (subst show_nat.simps) simp

lemma digits_val_show: "digits_val (show_nat n) = n"
proof (induction n rule: show_nat.induct)
  case (1 n)
  show ?case
  proof (cases "n < 10")
    case True
    then show ?thesis by (subst show_nat.simps) (simp add: digits_val_def of_char_digit)
  next
    case False
    then have "digits_val (show_nat n) = digits_val (show_nat (n div 10)) * 10 + n mod 10"
      by (subst show_nat.simps) (simp add: digits_val_def of_char_digit)
    with "1.IH" False show ?thesis by simp
  qed
qed

lemma digit_props:
  assumes "is_digit c"
  shows "\<not> is_space c" "c \<noteq> CHR ''-''" "c \<noteq> CHR ''+''" "c \<noteq> CHR ''/''" "of_char c \<noteq> (0::nat)"
  using assms by (auto simp: is_digit_def is_space_def)

text \<open>\<open>strtol\<close> reads back a printed number and leaves what follows, up to the first NUL.\<close>

lemma strtol_show:
  assumes "n < 2 ^ 63" "rest = [] \<or> \<not> is_digit (hd rest)" "\<forall>c \<in> set rest. of_char c \<noteq> (0::nat)"
  shows "strtol (show_nat n @ rest) = Some (int n, rest)"
proof -
  have nz: "\<forall>c \<in> set (show_nat n). of_char c \<noteq> (0::nat)" using show_nat_digits digit_props(5) by blast
  have "c_str (show_nat n @ rest) = show_nat n @ rest"
    unfolding c_str_def using nz assms(3) by (subst takeWhile_eq_all_conv) auto
  moreover obtain c cs where c: "show_nat n = c # cs" by (cases "show_nat n") auto
  then have d: "is_digit c" using show_nat_digits [of n] by simp
  then have "dropWhile is_space (show_nat n @ rest) = show_nat n @ rest"
    using digit_props(1) c by simp
  moreover have "takeWhile is_digit (show_nat n @ rest) = show_nat n"
    using show_nat_digits [of n] assms(2) by (cases rest) (auto simp: takeWhile_append2)
  moreover have "clamp_long (int n) = int n" using assms(1) by (simp add: clamp_long_def)
  ultimately show ?thesis
    using c digit_props(2,3) [OF d] digits_val_show [of n] by (simp add: strtol_def Let_def)
qed

section \<open>The rule language\<close>

text \<open>IPFilterRule text as TS 29.212 has it: an abstract rule, how it is written, what it means.\<close>

datatype proto_spec = ProtoAny | ProtoTcp | ProtoUdp | ProtoIcmp | ProtoSctp | ProtoNum nat
datatype endpoint = AnyAddr | AssignedAddr | NetAddr string "nat option"
datatype port_spec = NoPorts | OnePort nat | PortRange nat nat

record rule_spec =
  rs_out :: bool
  rs_proto :: proto_spec
  rs_src :: endpoint
  rs_src_ports :: port_spec
  rs_dst :: endpoint
  rs_dst_ports :: port_spec

fun proto_text :: "proto_spec \<Rightarrow> string" where
  "proto_text ProtoAny = ''ip''"
| "proto_text ProtoTcp = ''tcp''"
| "proto_text ProtoUdp = ''udp''"
| "proto_text ProtoIcmp = ''icmp''"
| "proto_text ProtoSctp = ''sctp''"
| "proto_text (ProtoNum n) = show_nat n"

fun addr_text :: "endpoint \<Rightarrow> string" where
  "addr_text AnyAddr = ''any''"
| "addr_text AssignedAddr = ''assigned''"
| "addr_text (NetAddr ip None) = ip"
| "addr_text (NetAddr ip (Some n)) = ip @ ''/'' @ show_nat n"

fun ports_text :: "port_spec \<Rightarrow> string list" where
  "ports_text NoPorts = []"
| "ports_text (OnePort n) = [show_nat n]"
| "ports_text (PortRange a b) = [show_nat a @ ''-'' @ show_nat b]"

definition rule_tokens :: "rule_spec \<Rightarrow> string list" where
  "rule_tokens s =
     [''permit'', if rs_out s then ''out'' else ''in'', proto_text (rs_proto s), ''from'', addr_text (rs_src s)] @
     ports_text (rs_src_ports s) @ [''to'', addr_text (rs_dst s)] @ ports_text (rs_dst_ports s)"

fun unwords :: "string list \<Rightarrow> string" where
  "unwords [] = []"
| "unwords [w] = w"
| "unwords (w # ws) = w @ '' '' @ unwords ws"

fun proto_wf :: "proto_spec \<Rightarrow> bool" where
  "proto_wf (ProtoNum n) = (n \<le> 255)"
| "proto_wf _ = True"

text \<open>An address literal: no separator in it, and \<open>inet_pton\<close> accepts it.\<close>

definition ip_wf :: "(string \<Rightarrow> u32 option) \<Rightarrow> string \<Rightarrow> bool" where
  "ip_wf pton ip \<longleftrightarrow> pton ip \<noteq> None \<and> ip \<notin> {[], ''any'', ''assigned''} \<and>
     (\<forall>c \<in> set ip. \<not> is_space c \<and> c \<noteq> CHR ''/'' \<and> of_char c \<noteq> (0::nat))"

fun addr_wf :: "(string \<Rightarrow> u32 option) \<Rightarrow> endpoint \<Rightarrow> bool" where
  "addr_wf pton (NetAddr ip None) = ip_wf pton ip"
| "addr_wf pton (NetAddr ip (Some n)) = (ip_wf pton ip \<and> n \<le> 32)"
| "addr_wf pton _ = True"

fun ports_wf :: "port_spec \<Rightarrow> bool" where
  "ports_wf NoPorts = True"
| "ports_wf (OnePort n) = (n \<le> 65535)"
| "ports_wf (PortRange a b) = (a \<le> b \<and> b \<le> 65535)"

definition rule_wf :: "(string \<Rightarrow> u32 option) \<Rightarrow> rule_spec \<Rightarrow> bool" where
  "rule_wf pton s \<longleftrightarrow> proto_wf (rs_proto s) \<and> addr_wf pton (rs_src s) \<and> addr_wf pton (rs_dst s) \<and>
     ports_wf (rs_src_ports s) \<and> ports_wf (rs_dst_ports s)"

fun proto_num :: "proto_spec \<Rightarrow> u8" where
  "proto_num ProtoAny = 0"
| "proto_num ProtoTcp = 6"
| "proto_num ProtoUdp = 17"
| "proto_num ProtoIcmp = 1"
| "proto_num ProtoSctp = 132"
| "proto_num (ProtoNum n) = word_of_nat n"

fun addr_num :: "(string \<Rightarrow> u32 option) \<Rightarrow> endpoint \<Rightarrow> u32" where
  "addr_num pton (NetAddr ip _) = the (pton ip)"
| "addr_num pton _ = 0"

fun addr_mask :: "endpoint \<Rightarrow> u32" where
  "addr_mask (NetAddr ip p) = prefix_mask (case p of None \<Rightarrow> 32 | Some n \<Rightarrow> n)"
| "addr_mask _ = 0"

fun ports_num :: "port_spec \<Rightarrow> u16 \<times> u16" where
  "ports_num NoPorts = (0, 0)"
| "ports_num (OnePort n) = (word_of_nat n, word_of_nat n)"
| "ports_num (PortRange a b) = (word_of_nat a, word_of_nat b)"

definition rule_meaning :: "(string \<Rightarrow> u32 option) \<Rightarrow> rule_spec \<Rightarrow> sdf_rule" where
  "rule_meaning pton s =
     \<lparr>sr_present = True, sr_valid = True, sr_out = rs_out s,
      any_proto = (rs_proto s = ProtoAny), sr_proto = proto_num (rs_proto s),
      src_any = (rs_src s = AnyAddr), src_assigned = (rs_src s = AssignedAddr),
      src_addr = addr_num pton (rs_src s), src_mask = addr_mask (rs_src s),
      dst_any = (rs_dst s = AnyAddr), dst_assigned = (rs_dst s = AssignedAddr),
      dst_addr = addr_num pton (rs_dst s), dst_mask = addr_mask (rs_dst s),
      has_src_ports = (rs_src_ports s \<noteq> NoPorts),
      src_lo = fst (ports_num (rs_src_ports s)), src_hi = snd (ports_num (rs_src_ports s)),
      has_dst_ports = (rs_dst_ports s \<noteq> NoPorts),
      dst_lo = fst (ports_num (rs_dst_ports s)), dst_hi = snd (ports_num (rs_dst_ports s))\<rparr>"

lemma split_ws_word: "\<forall>c \<in> set w. \<not> is_space c \<Longrightarrow> split_ws acc (w @ cs) = split_ws (rev w @ acc) cs"
  by (induction w arbitrary: acc) auto

lemma split_ws_unwords:
  "ws \<noteq> [] \<Longrightarrow> \<forall>w \<in> set ws. w \<noteq> [] \<and> (\<forall>c \<in> set w. \<not> is_space c) \<Longrightarrow> split_ws [] (unwords ws) = ws"
proof (induction ws rule: unwords.induct)
  case (2 w)
  then show ?case using split_ws_word [of w "[]" "[]"] by simp
next
  case (3 w v ws)
  have "is_space (CHR '' '')" by (simp add: is_space_def)
  with 3 split_ws_word [of w "[]" "'' '' @ unwords (v # ws)"] show ?case by simp
qed simp

text \<open>A printed number starts with a digit, so it is never a keyword.\<close>

lemma show_nat_hd: "hd (show_nat n @ r) \<in> set (show_nat n)"
  by (cases "show_nat n") auto

lemma show_nat_not_word:
  assumes "\<not> is_digit c"
  shows "show_nat n @ r \<noteq> c # cs"
  using show_nat_hd [of n r] show_nat_digits [of n] assms by (metis list.sel(1))

lemma parse_proto_text: "proto_wf p \<Longrightarrow> parse_proto (proto_text p) 0 = (True, p = ProtoAny, proto_num p)"
proof (cases p)
  case (ProtoNum n)
  assume "proto_wf p"
  then have "n \<le> 255" using ProtoNum by simp
  moreover have "strtol (show_nat n) = Some (int n, [])" using strtol_show [of n "[]"] calculation by simp
  moreover have "show_nat n \<noteq> c # cs" if "\<not> is_digit c" for c cs
    using show_nat_not_word [OF that, of n "[]"] by simp
  ultimately show ?thesis using ProtoNum by (simp add: parse_proto_def is_digit_def)
qed (simp_all add: parse_proto_def IPPROTO_TCP_def IPPROTO_UDP_def IPPROTO_ICMP_def IPPROTO_SCTP_def)

lemma parse_addr_text:
  assumes "addr_wf pton e"
  shows "parse_addr pton (addr_text e) (0, 0) =
     (True, e = AnyAddr, e = AssignedAddr, addr_num pton e, addr_mask e)"
proof (cases e)
  case (NetAddr ip p)
  then have ip: "ip_wf pton ip" using assms by (cases p) auto
  then obtain a where a: "pton ip = Some a" by (auto simp: ip_wf_def)
  have c: "c_str ip = ip" using ip by (simp add: c_str_def ip_wf_def takeWhile_eq_all_conv)
  have nosl: "\<forall>c \<in> set ip. c \<noteq> CHR ''/''" using ip by (simp add: ip_wf_def)
  show ?thesis
  proof (cases p)
    case None
    have t: "takeWhile (\<lambda>c. c \<noteq> CHR ''/'') ip = ip" "dropWhile (\<lambda>c. c \<noteq> CHR ''/'') ip = []"
      using nosl by (auto simp: takeWhile_eq_all_conv dropWhile_eq_Nil_conv)
    from None NetAddr ip a c show ?thesis by (simp add: parse_addr_def Let_def ip_wf_def t)
  next
    case (Some n)
    let ?t = "ip @ ''/'' @ show_nat n"
    have n: "n \<le> 32" using assms NetAddr Some by simp
    have "takeWhile (\<lambda>c. c \<noteq> CHR ''/'') ?t = ip" "dropWhile (\<lambda>c. c \<noteq> CHR ''/'') ?t = ''/'' @ show_nat n"
      using nosl by (simp_all add: takeWhile_append dropWhile_append)
    moreover have "strtol (show_nat n) = Some (int n, [])" using strtol_show [of n "[]"] n by simp
    moreover have "CHR ''/'' \<in> set ?t" by simp
    then have "w \<noteq> ?t" if "CHR ''/'' \<notin> set w" for w using that by metis
    from this [of "''any''"] this [of "''assigned''"] have "?t \<noteq> ''any''" "?t \<noteq> ''assigned''" by auto
    ultimately show ?thesis using Some NetAddr a c n by (simp add: parse_addr_def Let_def)
  qed
qed (simp_all add: parse_addr_def)

lemma parse_ports_text:
  assumes "ports_wf q" "ports_text q = [tok]"
  shows "parse_ports tok = Some (ports_num q)" "tok \<noteq> ''to''"
proof -
  have dash: "\<not> is_digit (CHR ''-'')" "of_char (CHR ''-'') \<noteq> (0::nat)" by (simp_all add: is_digit_def)
  have t: "\<not> is_digit (CHR ''t'')" by (simp add: is_digit_def)
  show "tok \<noteq> ''to''"
    using assms(2) show_nat_not_word [OF t, of _ "[]"] show_nat_not_word [OF t] by (cases q) auto
  show "parse_ports tok = Some (ports_num q)"
  proof (cases q)
    case (OnePort n)
    then have "n \<le> 65535" using assms(1) by simp
    with OnePort assms(2) strtol_show [of n "[]"] show ?thesis by (simp add: parse_ports_def)
  next
    case (PortRange a b)
    then have ab: "a \<le> b" "b \<le> 65535" using assms(1) by auto
    have "\<forall>c \<in> set (show_nat b). of_char c \<noteq> (0::nat)" using show_nat_digits digit_props(5) by blast
    then have "strtol (show_nat a @ ''-'' @ show_nat b) = Some (int a, ''-'' @ show_nat b)"
      using ab dash by (intro strtol_show) auto
    moreover have "strtol (show_nat b) = Some (int b, [])" using strtol_show [of b "[]"] ab by simp
    ultimately show ?thesis using PortRange assms(2) ab by (simp add: parse_ports_def)
  qed (use assms in simp)
qed

lemma rule_tokens_words:
  assumes "rule_wf pton s" "w \<in> set (rule_tokens s)"
  shows "w \<noteq> [] \<and> (\<forall>c \<in> set w. \<not> is_space c)"
proof -
  have num: "\<forall>c \<in> set (show_nat n). \<not> is_space c" for n using show_nat_digits digit_props(1) by blast
  have proto: "proto_text p \<noteq> [] \<and> (\<forall>c \<in> set (proto_text p). \<not> is_space c)" for p
    using num by (cases p) (auto simp: is_space_def)
  have addr: "addr_text e \<noteq> [] \<and> (\<forall>c \<in> set (addr_text e). \<not> is_space c)" if "addr_wf pton e" for e
    using that num by (cases "(pton, e)" rule: addr_wf.cases) (auto simp: is_space_def ip_wf_def)
  have ports: "w \<noteq> [] \<and> (\<forall>c \<in> set w. \<not> is_space c)" if "w \<in> set (ports_text q)" for q w
    using that num by (cases q) (auto simp: is_space_def)
  have kw: "w \<noteq> [] \<and> (\<forall>c \<in> set w. \<not> is_space c)" if "w \<in> {''permit'', ''out'', ''in'', ''from'', ''to''}" for w
    using that by (auto simp: is_space_def)
  have wf: "addr_wf pton (rs_src s)" "addr_wf pton (rs_dst s)" using assms(1) by (simp_all add: rule_wf_def)
  have "w \<in> {''permit'', ''out'', ''in'', ''from'', ''to''} \<or> w = proto_text (rs_proto s) \<or>
    w = addr_text (rs_src s) \<or> w = addr_text (rs_dst s) \<or> w \<in> set (ports_text (rs_src_ports s)) \<or>
    w \<in> set (ports_text (rs_dst_ports s))"
    using assms(2) unfolding rule_tokens_def by (simp split: if_splits) blast+
  then show ?thesis
    using kw [of w] proto addr [OF wf(1)] addr [OF wf(2)] ports [of w] by (elim disjE) simp_all
qed

lemma parse_tail_text:
  assumes "ports_wf q" "length pre = i"
  shows "parse_tail (pre @ ports_text q) i r =
     (if q = NoPorts then r else r\<lparr>dst_lo := fst (ports_num q), dst_hi := snd (ports_num q), has_dst_ports := True\<rparr>, True)"
proof (cases "ports_text q")
  case Nil
  then have "q = NoPorts" by (cases q) auto
  with assms show ?thesis by (simp add: parse_tail_def)
next
  case (Cons tok more)
  then have q: "q \<noteq> NoPorts" "ports_text q = [tok]" by (cases q; simp)+
  with parse_ports_text [OF assms(1) q(2)] assms(2) show ?thesis
    by (cases "ports_num q") (simp add: parse_tail_def nth_append)
qed

lemma parse_dst_text:
  assumes "addr_wf pton e" "ports_wf q" "length pre = i" "dst_addr r = 0" "dst_mask r = 0"
  shows "parse_dst pton (pre @ [''to'', addr_text e] @ ports_text q) i r =
     parse_tail (pre @ [''to'', addr_text e] @ ports_text q) (Suc (Suc i))
       (r\<lparr>dst_any := e = AnyAddr, dst_assigned := e = AssignedAddr,
          dst_addr := addr_num pton e, dst_mask := addr_mask e\<rparr>)"
  using assms(3-5) parse_addr_text [OF assms(1)]
  by (simp add: parse_dst_def nth_append Let_def)

lemma parse_src_text:
  assumes "addr_wf pton e" "ports_wf q" "length pre = i" "src_addr r = 0" "src_mask r = 0"
  shows "parse_src pton (pre @ [addr_text e] @ ports_text q @ ''to'' # rest) i r =
     parse_dst pton (pre @ [addr_text e] @ ports_text q @ ''to'' # rest) (Suc i + length (ports_text q))
       ((if q = NoPorts then (\<lambda>r. r)
         else (\<lambda>r. r\<lparr>src_lo := fst (ports_num q), src_hi := snd (ports_num q), has_src_ports := True\<rparr>))
        (r\<lparr>src_any := e = AnyAddr, src_assigned := e = AssignedAddr,
           src_addr := addr_num pton e, src_mask := addr_mask e\<rparr>))"
proof (cases "ports_text q")
  case Nil
  then have "q = NoPorts" by (cases q) auto
  with assms(3-5) parse_addr_text [OF assms(1)] Nil show ?thesis
    by (simp add: parse_src_def nth_append Let_def)
next
  case (Cons tok more)
  then have q: "q \<noteq> NoPorts" "ports_text q = [tok]" by (cases q; simp)+
  with parse_ports_text [OF assms(2) q(2)] assms(3-5) parse_addr_text [OF assms(1)] show ?thesis
    by (cases "ports_num q") (simp add: parse_src_def nth_append Let_def)
qed

lemma parse_rule_text:
  assumes "rule_wf pton s"
  shows "sdf_compile pton (unwords (rule_tokens s)) = rule_meaning pton s"
proof -
  let ?t = "rule_tokens s"
  have words: "split_ws [] (unwords ?t) = ?t"
    using rule_tokens_words [OF assms] by (intro split_ws_unwords) (auto simp: rule_tokens_def)
  have wf: "proto_wf (rs_proto s)" "addr_wf pton (rs_src s)" "addr_wf pton (rs_dst s)"
    "ports_wf (rs_src_ports s)" "ports_wf (rs_dst_ports s)"
    using assms by (simp_all add: rule_wf_def)
  let ?pre = "[''permit'', if rs_out s then ''out'' else ''in'', proto_text (rs_proto s), ''from'']"
  let ?mid = "?pre @ [addr_text (rs_src s)] @ ports_text (rs_src_ports s)"
  have t1: "?t = ?pre @ [addr_text (rs_src s)] @ ports_text (rs_src_ports s) @ ''to'' #
      addr_text (rs_dst s) # ports_text (rs_dst_ports s)"
    by (simp add: rule_tokens_def)
  have t2: "?t = ?mid @ [''to'', addr_text (rs_dst s)] @ ports_text (rs_dst_ports s)"
    by (simp add: rule_tokens_def)
  have t3: "?t = (?mid @ [''to'', addr_text (rs_dst s)]) @ ports_text (rs_dst_ports s)"
    by (simp add: rule_tokens_def)
  obtain k where k: "k = Suc 4 + length (ports_text (rs_src_ports s))" by simp
  have len: "length ?pre = 4" "length ?mid = k"
    "length (?mid @ [''to'', addr_text (rs_dst s)]) = Suc (Suc k)"
    by (simp_all add: k)
  have src: "parse_src pton ?t 4 r = parse_dst pton ?t k
       ((if rs_src_ports s = NoPorts then (\<lambda>r. r)
         else (\<lambda>r. r\<lparr>src_lo := fst (ports_num (rs_src_ports s)), src_hi := snd (ports_num (rs_src_ports s)),
                     has_src_ports := True\<rparr>))
        (r\<lparr>src_any := rs_src s = AnyAddr, src_assigned := rs_src s = AssignedAddr,
           src_addr := addr_num pton (rs_src s), src_mask := addr_mask (rs_src s)\<rparr>))"
    if "src_addr r = 0" "src_mask r = 0" for r
    unfolding t1 k by (rule parse_src_text [OF wf(2,4) len(1) that])
  have dst: "parse_dst pton ?t k r =
     parse_tail ?t (Suc (Suc k))
       (r\<lparr>dst_any := rs_dst s = AnyAddr, dst_assigned := rs_dst s = AssignedAddr,
          dst_addr := addr_num pton (rs_dst s), dst_mask := addr_mask (rs_dst s)\<rparr>)"
    if "dst_addr r = 0" "dst_mask r = 0" for r
    unfolding t2 by (rule parse_dst_text [OF wf(3,5) len(2) that])
  have tail: "parse_tail ?t (Suc (Suc k)) r =
     (if rs_dst_ports s = NoPorts then r
      else r\<lparr>dst_lo := fst (ports_num (rs_dst_ports s)), dst_hi := snd (ports_num (rs_dst_ports s)),
             has_dst_ports := True\<rparr>, True)" for r
    unfolding t3 by (rule parse_tail_text [OF wf(5) len(3)])
  have front: "7 \<le> length ?t" "?t ! 0 = ''permit''" "?t ! 1 = (if rs_out s then ''out'' else ''in'')"
    "?t ! 2 = proto_text (rs_proto s)" "?t ! 3 = ''from''" "unwords ?t \<noteq> []"
    by (simp_all add: rule_tokens_def)
  show ?thesis
    using front parse_proto_text [OF wf(1)]
    by (cases "rs_src_ports s = NoPorts"; cases "rs_dst_ports s = NoPorts")
       (simp_all add: sdf_compile_def parse_def words Let_def sdf_rule_default_def src dst tail rule_meaning_def)
qed

section \<open>What a rule means for a packet\<close>

fun proto_matches :: "proto_spec \<Rightarrow> u8 \<Rightarrow> bool" where
  "proto_matches ProtoAny p = True"
| "proto_matches q p = (p = proto_num q)"

text \<open>Addresses in network byte order; a prefix compares the leading bits of the host-order values.\<close>

fun endpoint_matches :: "(string \<Rightarrow> u32 option) \<Rightarrow> endpoint \<Rightarrow> u32 \<Rightarrow> u32 \<Rightarrow> bool" where
  "endpoint_matches pton AnyAddr ue a = True"
| "endpoint_matches pton AssignedAddr ue a = (a = ue)"
| "endpoint_matches pton (NetAddr ip n) ue a =
     (let k = 32 - (case n of None \<Rightarrow> 32 | Some n \<Rightarrow> n)
      in drop_bit k (bswap32 a) = drop_bit k (bswap32 (the (pton ip))))"

fun port_matches :: "port_spec \<Rightarrow> u16 \<Rightarrow> bool" where
  "port_matches NoPorts p = True"
| "port_matches (OnePort n) p = (unat p = n)"
| "port_matches (PortRange a b) p = (a \<le> unat p \<and> unat p \<le> b)"

text \<open>The ports of a packet, when its first fragment carries them within the available bytes.\<close>

definition l4_ports :: "byte list \<Rightarrow> nat \<Rightarrow> (u16 \<times> u16) option" where
  "l4_ports p len =
     (if load16 p 6 AND bswap16 0x1FFF = 0 \<and> p ! 9 \<in> {IPPROTO_TCP, IPPROTO_UDP, IPPROTO_SCTP} \<and>
         ihl_bytes p + 4 \<le> len
      then Some (bswap16 (load16 p (ihl_bytes p)), bswap16 (load16 p (ihl_bytes p + 2))) else None)"

lemma endpoint_addr_ok:
  assumes "addr_wf pton e"
  shows "addr_ok (e = AnyAddr) (e = AssignedAddr) (addr_num pton e) (addr_mask e) a ue =
         endpoint_matches pton e ue a"
proof (cases e)
  case (NetAddr ip n)
  then have "(case n of None \<Rightarrow> 32 | Some n \<Rightarrow> n) \<le> 32" using assms by (cases n) auto
  from prefix_mask_semantics [OF this, of a "the (pton ip)"] NetAddr show ?thesis
    by (simp add: addr_ok_def Let_def)
qed (simp_all add: addr_ok_def)

lemma port_range_ok:
  assumes "ports_wf q"
  shows "q \<noteq> NoPorts \<and> (p < fst (ports_num q) \<or> snd (ports_num q) < p) \<longleftrightarrow> \<not> port_matches q p"
  using assms by (cases q) (auto simp: word_less_nat_alt unat_of_nat)

lemma parse_tail_present: "sr_present (fst (parse_tail t i r)) = sr_present r"
  by (simp add: parse_tail_def split: option.splits prod.splits)

lemma parse_dst_present: "sr_present (fst (parse_dst pton t i r)) = sr_present r"
  by (simp add: parse_dst_def Let_def parse_tail_present split: prod.splits)

lemma parse_src_present: "sr_present (fst (parse_src pton t i r)) = sr_present r"
  by (simp add: parse_src_def Let_def parse_dst_present split: prod.splits option.splits)

lemma parse_present: "sr_present (fst (parse pton fd r)) = sr_present r"
  by (simp add: parse_def Let_def parse_src_present split: prod.splits)

section \<open>Properties\<close>

text \<open>C36: every well-formed IPFilterRule compiles to exactly what it says. For each rule of the
  language (protocol by name or number, \<open>any\<close>, \<open>assigned\<close>, an address with or without a prefix
  length up to 32, a port, a port range or none on either side), written out as text, the compiler
  returns the rule's meaning, marked valid. Address literals are those \<open>inet_pton\<close> accepts.\<close>

theorem sdf_compile_roundtrip:
  assumes "rule_wf pton s"
  shows "sdf_compile pton (unwords (rule_tokens s)) = rule_meaning pton s"
  by (rule parse_rule_text [OF assms])

text \<open>An example: \<open>permit out tcp from 10.0.0.0/8 to assigned 5000-5010\<close>. The address parser is any
  function that reads this one literal.\<close>

definition pton_example :: "string \<Rightarrow> u32 option" where
  "pton_example t = (if t = ''10.0.0.0'' then Some 0x0000000A else None)"

definition spec_example :: rule_spec where
  "spec_example = \<lparr>rs_out = True, rs_proto = ProtoTcp, rs_src = NetAddr ''10.0.0.0'' (Some 8),
     rs_src_ports = NoPorts, rs_dst = AssignedAddr, rs_dst_ports = PortRange 5000 5010\<rparr>"

lemma spec_example_wf: "rule_wf pton_example spec_example"
  by (simp add: rule_wf_def spec_example_def ip_wf_def pton_example_def is_space_def)

lemma spec_example_tokens:
  "rule_tokens spec_example = [''permit'', ''out'', ''tcp'', ''from'', ''10.0.0.0/8'', ''to'', ''assigned'', ''5000-5010'']"
  by (simp add: rule_tokens_def spec_example_def show_nat.simps digit_char_def char_of_def bit_0)

theorem sdf_compile_roundtrip_witness:
  "sdf_compile pton_example ''permit out tcp from 10.0.0.0/8 to assigned 5000-5010'' =
     sdf_rule_default\<lparr>sr_present := True, sr_valid := True, any_proto := False, sr_proto := 6,
       src_any := False, src_addr := 0x0000000A, src_mask := 0x000000FF,
       dst_any := False, dst_assigned := True, has_dst_ports := True, dst_lo := 5000, dst_hi := 5010\<rparr>"
  using sdf_compile_roundtrip [OF spec_example_wf] unfolding spec_example_tokens
  by (simp add: rule_meaning_def spec_example_def sdf_rule_default_def pton_example_def prefix_mask_def bswap32_def)

lemma match_semantics:
  fixes p :: "byte list" and uplink :: bool
  assumes "rule_wf pton s"
  defines "mirror \<equiv> (rs_out s = uplink)"
  defines "src \<equiv> load32 p (if mirror then 16 else 12)" and "dst \<equiv> load32 p (if mirror then 12 else 16)"
  shows "sdf_match (rule_meaning pton s) p len uplink ue \<longleftrightarrow>
     proto_matches (rs_proto s) (p ! 9) \<and> endpoint_matches pton (rs_src s) ue src \<and>
     endpoint_matches pton (rs_dst s) ue dst \<and>
     (rs_src_ports s = NoPorts \<and> rs_dst_ports s = NoPorts \<or>
      (\<exists>sp dp. l4_ports p len = Some (sp, dp) \<and>
         port_matches (rs_src_ports s) (if mirror then dp else sp) \<and>
         port_matches (rs_dst_ports s) (if mirror then sp else dp)))"
proof -
  have wf: "addr_wf pton (rs_src s)" "addr_wf pton (rs_dst s)" "ports_wf (rs_src_ports s)" "ports_wf (rs_dst_ports s)"
    using assms(1) by (simp_all add: rule_wf_def)
  let ?r = "rule_meaning pton s"
  have proto: "\<not> any_proto ?r \<and> p ! 9 \<noteq> sr_proto ?r \<longleftrightarrow> \<not> proto_matches (rs_proto s) (p ! 9)"
    by (cases "rs_proto s") (auto simp: rule_meaning_def)
  have ep: "addr_ok (src_any ?r) (src_assigned ?r) (src_addr ?r) (src_mask ?r) a ue = endpoint_matches pton (rs_src s) ue a"
    "addr_ok (dst_any ?r) (dst_assigned ?r) (dst_addr ?r) (dst_mask ?r) a ue = endpoint_matches pton (rs_dst s) ue a" for a
    using endpoint_addr_ok [OF wf(1)] endpoint_addr_ok [OF wf(2)] by (simp_all add: rule_meaning_def)
  have ports: "ports_ok ?r sp dp \<longleftrightarrow> port_matches (rs_src_ports s) sp \<and> port_matches (rs_dst_ports s) dp" for sp dp
    using port_range_ok [OF wf(3), of sp] port_range_ok [OF wf(4), of dp]
    by (auto simp: ports_ok_def rule_meaning_def)
  have flags: "sr_present ?r" "sr_valid ?r" "sr_out ?r = rs_out s"
    "has_src_ports ?r = (rs_src_ports s \<noteq> NoPorts)" "has_dst_ports ?r = (rs_dst_ports s \<noteq> NoPorts)"
    by (simp_all add: rule_meaning_def)
  have chain: "(if \<not> x then True else if \<not> y then False else if a then False else if \<not> b then False
      else if \<not> c then False else if d then True else if e then False else if f then False
      else if g then False else h) \<longleftrightarrow> \<not> a \<and> b \<and> c \<and> (d \<or> \<not> e \<and> \<not> f \<and> \<not> g \<and> h)"
    if "x" "y" for x y a b c d e f g h :: bool
    using that by auto
  have vis: "(\<exists>sp dp. l4_ports p len = Some (sp, dp) \<and> P sp dp) \<longleftrightarrow>
      load16 p 6 AND bswap16 0x1FFF = 0 \<and> p ! 9 \<in> {IPPROTO_TCP, IPPROTO_UDP, IPPROTO_SCTP} \<and>
      ihl_bytes p + 4 \<le> len \<and>
      P (bswap16 (load16 p (ihl_bytes p))) (bswap16 (load16 p (ihl_bytes p + 2)))" for P
    by (auto simp: l4_ports_def split: if_splits)
  show ?thesis
    unfolding sdf_match_def Let_def chain [OF flags(1,2)] proto ep ports flags(3-5) mirror_def [symmetric]
      vis src_def dst_def
    by (auto simp: not_less)
qed

text \<open>C37: a compiled rule matches exactly the packets the rule describes. The protocol must agree;
  the two addresses must lie in the endpoints' ranges, where a prefix compares leading bits of the
  host-order addresses; ports, when the rule has any, must be visible (first fragment, TCP, UDP or
  SCTP, within the bytes available) and in range. A packet travelling against the rule's direction
  is compared with its endpoints swapped.\<close>

theorem sdf_match_semantics:
  fixes p :: "byte list" and uplink :: bool
  assumes "rule_wf pton s"
  defines "mirror \<equiv> (rs_out s = uplink)"
  defines "src \<equiv> load32 p (if mirror then 16 else 12)" and "dst \<equiv> load32 p (if mirror then 12 else 16)"
  shows "sdf_match (rule_meaning pton s) p len uplink ue \<longleftrightarrow>
     proto_matches (rs_proto s) (p ! 9) \<and> endpoint_matches pton (rs_src s) ue src \<and>
     endpoint_matches pton (rs_dst s) ue dst \<and>
     (rs_src_ports s = NoPorts \<and> rs_dst_ports s = NoPorts \<or>
      (\<exists>sp dp. l4_ports p len = Some (sp, dp) \<and>
         port_matches (rs_src_ports s) (if mirror then dp else sp) \<and>
         port_matches (rs_dst_ports s) (if mirror then sp else dp)))"
  unfolding mirror_def src_def dst_def by (rule match_semantics [OF assms(1)])

definition packet_example :: "byte list" where
  "packet_example = [0x45, 0, 0, 44, 0, 0, 0, 0, 64, 6, 0, 0, 10, 1, 2, 3, 12, 1, 1, 2, 0, 80, 19, 137, 0, 0, 0, 0]"

theorem sdf_match_semantics_witness:
  "sdf_match (rule_meaning pton_example spec_example) packet_example 28 False 0x0201010C"
proof -
  have l: "load32 packet_example 12 = 0x0302010A" "load32 packet_example 16 = 0x0201010C"
    "load16 packet_example 6 = 0" "load16 packet_example 20 = 0x5000" "load16 packet_example 22 = 0x8913"
    "packet_example ! 9 = 6" "ihl_bytes packet_example = 20"
    by (simp_all add: packet_example_def load32_def load16_def ihl_bytes_def)
  have "l4_ports packet_example 28 = Some (80, 5001)"
    by (simp add: l4_ports_def l IPPROTO_TCP_def bswap16_def)
  then show ?thesis
    unfolding sdf_match_semantics [OF spec_example_wf]
    by (simp add: spec_example_def pton_example_def l bswap32_def)
qed

text \<open>No filter matches everything, and a filter that was not understood matches nothing, so its
  PDR is skipped rather than widened.\<close>

lemma sdf_not_understood_matches_nothing:
  "sdf_match (sdf_compile pton []) p len uplink ue \<and>
   (fd \<noteq> [] \<and> \<not> snd (parse pton fd (sdf_rule_default\<lparr>sr_present := True\<rparr>)) \<longrightarrow>
      \<not> sdf_match (sdf_compile pton fd) p len uplink ue)"
proof -
  let ?r = "sdf_rule_default\<lparr>sr_present := True\<rparr>"
  have "sr_present (fst (parse pton fd ?r))" by (simp add: parse_present)
  then have "fd \<noteq> [] \<Longrightarrow> \<not> snd (parse pton fd ?r) \<Longrightarrow> \<not> sdf_match (sdf_compile pton fd) p len uplink ue"
    by (cases "parse pton fd ?r") (simp add: sdf_compile_def sdf_match_def)
  then show ?thesis by (auto simp: sdf_match_def sdf_compile_def sdf_rule_default_def)
qed

end
