(* ===== verification/PfcpTransactions.thy ===== *)
theory PfcpTransactions
  imports Prelude
begin

text \<open>
  PFCP transactions (\<open>pfcp/pfcp.cpp\<close>, \<open>pfcp_l4_stack\<close>): sequence numbers, pending procedures, the
  retry and clean-up timers, and the matching of responses to requests. The ITTI timer service is
  the counter and the set of armed timers it keeps. Message type codes and what the message class
  does to a sequence number that is stored in it come from the PFCP library: they are fields of the
  parameter \<open>pfcp_lib\<close>. Transaction identifiers come from the library's generator and are
  arguments. Datagrams handed to UDP are recorded in order.
\<close>

unbundle bit_operations_syntax

section \<open>Messages, procedures, state\<close>

record pfcp_lib =
  PFCP_HEARTBEAT_REQUEST :: u8
  PFCP_HEARTBEAT_RESPONSE :: u8
  PFCP_PFD_MANAGEMENT_REQUEST :: u8
  PFCP_ASSOCIATION_SETUP_REQUEST :: u8
  PFCP_ASSOCIATION_SETUP_RESPONSE :: u8
  PFCP_ASSOCIATION_UPDATE_REQUEST :: u8
  PFCP_ASSOCIATION_RELEASE_REQUEST :: u8
  PFCP_ASSOCIATION_RELEASE_RESPONSE :: u8
  PFCP_VERSION_NOT_SUPPORTED_RESPONSE :: u8
  PFCP_NODE_REPORT_REQUEST :: u8
  PFCP_NODE_REPORT_RESPONSE :: u8
  PFCP_SESSION_ESTABLISHMENT_REQUEST :: u8
  PFCP_SESSION_ESTABLISHMENT_RESPONSE :: u8
  PFCP_SESSION_MODIFICATION_REQUEST :: u8
  PFCP_SESSION_MODIFICATION_RESPONSE :: u8
  PFCP_SESSION_DELETION_REQUEST :: u8
  PFCP_SESSION_DELETION_RESPONSE :: u8
  PFCP_SESSION_REPORT_REQUEST :: u8
  PFCP_SESSION_REPORT_RESPONSE :: u8
  stored_seq :: "u32 \<Rightarrow> u32"

record 'b pfcp_msg =
  msg_type :: u8
  msg_seid :: "u64 option"
  msg_seq :: u32
  msg_ies :: 'b

record ('b, 'e) pfcp_procedure =
  retry_msg :: "'b pfcp_msg option"
  remote_endpoint :: "'e option"
  retry_timer_id :: u32
  proc_cleanup_timer_id :: u32
  trxn_id :: u64
  initial_msg_type :: u8
  triggered_msg_type :: u8
  retry_count :: u8

definition pfcp_procedure_new :: "('b, 'e) pfcp_procedure" where
  "pfcp_procedure_new =
     \<lparr>retry_msg = None, remote_endpoint = None, retry_timer_id = 0, proc_cleanup_timer_id = 0,
      trxn_id = 0, initial_msg_type = 0, triggered_msg_type = 0, retry_count = 0\<rparr>"

datatype ('b, 'e) datagram = FromAllocated "'b pfcp_msg" 'e | From8805 "'b pfcp_msg" "'e option"

datatype trxn_action = DELETE_TX | CONTINUE_TX

record ('b, 'e) pfcp_stack =
  seq_num :: u32
  trxn_id2seq_num :: "u64 \<rightharpoonup> u32"
  proc_cleanup_timers :: "u32 \<rightharpoonup> u32"
  msg_out_retry_timers :: "u32 \<rightharpoonup> u32"
  pending_procedures :: "u32 \<rightharpoonup> ('b, 'e) pfcp_procedure"
  itti_last :: u32
  itti_armed :: "u32 \<rightharpoonup> u32 \<times> u32"
  sent :: "('b, 'e) datagram list"

definition PFCP_T1_RESPONSE_MS :: u32 where "PFCP_T1_RESPONSE_MS = 1000"
definition PFCP_N1_REQUESTS :: u8 where "PFCP_N1_REQUESTS = 3"
definition PFCP_PROC_TIME_OUT_MS :: u32 where "PFCP_PROC_TIME_OUT_MS = 1000 * (3 + 1 + 1)"

text \<open>Constructor; \<open>nsec\<close> is the clock reading the first sequence number is drawn from.\<close>

definition pfcp_stack_new :: "u32 \<Rightarrow> ('b, 'e) pfcp_stack" where
  "pfcp_stack_new nsec =
     \<lparr>seq_num = nsec AND 0x7FFFFFFF, trxn_id2seq_num = Map.empty, proc_cleanup_timers = Map.empty,
      msg_out_retry_timers = Map.empty, pending_procedures = Map.empty, itti_last = 0,
      itti_armed = Map.empty, sent = []\<rparr>"

text \<open>\<open>std::map::insert\<close> keeps an existing entry.\<close>

definition map_insert :: "'k \<Rightarrow> 'v \<Rightarrow> ('k \<rightharpoonup> 'v) \<Rightarrow> ('k \<rightharpoonup> 'v)" where
  "map_insert k v m = (if m k = None then m(k \<mapsto> v) else m)"

section \<open>Sequence numbers and types\<close>

definition get_next_seq_num :: "('b, 'e) pfcp_stack \<Rightarrow> ('b, 'e) pfcp_stack" where
  "get_next_seq_num st =
     (let n = seq_num st + 1
      in st\<lparr>seq_num := if n AND 0x80000000 \<noteq> 0 then 0 else n\<rparr>)"

definition check_request_type :: "pfcp_lib \<Rightarrow> u8 \<Rightarrow> bool" where
  "check_request_type lib initial \<longleftrightarrow> initial \<in>
     {PFCP_HEARTBEAT_REQUEST lib, PFCP_PFD_MANAGEMENT_REQUEST lib, PFCP_ASSOCIATION_SETUP_REQUEST lib,
      PFCP_ASSOCIATION_UPDATE_REQUEST lib, PFCP_ASSOCIATION_RELEASE_REQUEST lib,
      PFCP_NODE_REPORT_REQUEST lib, PFCP_NODE_REPORT_RESPONSE lib,
      PFCP_SESSION_ESTABLISHMENT_REQUEST lib, PFCP_SESSION_MODIFICATION_REQUEST lib,
      PFCP_SESSION_DELETION_REQUEST lib, PFCP_SESSION_REPORT_REQUEST lib, PFCP_SESSION_REPORT_RESPONSE lib}"

definition check_response_type :: "pfcp_lib \<Rightarrow> u8 \<Rightarrow> u8 \<Rightarrow> bool" where
  "check_response_type lib initial triggered =
     (if initial \<in>
         {PFCP_HEARTBEAT_REQUEST lib, PFCP_PFD_MANAGEMENT_REQUEST lib, PFCP_ASSOCIATION_SETUP_REQUEST lib,
          PFCP_ASSOCIATION_UPDATE_REQUEST lib, PFCP_ASSOCIATION_RELEASE_REQUEST lib,
          PFCP_NODE_REPORT_REQUEST lib, PFCP_SESSION_ESTABLISHMENT_REQUEST lib,
          PFCP_SESSION_MODIFICATION_REQUEST lib, PFCP_SESSION_DELETION_REQUEST lib,
          PFCP_SESSION_REPORT_REQUEST lib}
      then (ucast triggered :: u32) = ucast initial + 1
      else triggered = PFCP_VERSION_NOT_SUPPORTED_RESPONSE lib)"

section \<open>Timers\<close>

text \<open>\<open>itti_mw::timer_setup\<close> with seconds and microseconds, for a valid task (callers pass constants),
  and \<open>timer_remove\<close>.\<close>

definition timer_setup :: "u32 \<Rightarrow> u32 \<Rightarrow> ('b, 'e) pfcp_stack \<Rightarrow> ('b, 'e) pfcp_stack \<times> u32" where
  "timer_setup sec us st =
     (let t = itti_last st + 1
      in (st\<lparr>itti_last := t, itti_armed := (itti_armed st)(t \<mapsto> (sec, us))\<rparr>, t))"

definition timer_remove :: "u32 \<Rightarrow> ('b, 'e) pfcp_stack \<Rightarrow> ('b, 'e) pfcp_stack" where
  "timer_remove t st = st\<lparr>itti_armed := (itti_armed st)(t := None)\<rparr>"

definition start_msg_retry_timer ::
    "('b, 'e) pfcp_procedure \<Rightarrow> u32 \<Rightarrow> u32 \<Rightarrow> ('b, 'e) pfcp_stack \<Rightarrow> ('b, 'e) pfcp_stack \<times> ('b, 'e) pfcp_procedure" where
  "start_msg_retry_timer p ms seq st =
     (case timer_setup (ms div 1000) (ms mod 1000) st of (st, t) \<Rightarrow>
        (st\<lparr>msg_out_retry_timers := map_insert t seq (msg_out_retry_timers st)\<rparr>, p\<lparr>retry_timer_id := t\<rparr>))"

definition stop_msg_retry_timer ::
    "('b, 'e) pfcp_procedure \<Rightarrow> ('b, 'e) pfcp_stack \<Rightarrow> ('b, 'e) pfcp_stack \<times> ('b, 'e) pfcp_procedure" where
  "stop_msg_retry_timer p st =
     (if retry_timer_id p \<noteq> 0
      then let t = retry_timer_id p; st = timer_remove t st
           in (st\<lparr>msg_out_retry_timers := (msg_out_retry_timers st)(t := None)\<rparr>, p\<lparr>retry_timer_id := 0\<rparr>)
      else (st, p))"

definition start_proc_cleanup_timer ::
    "('b, 'e) pfcp_procedure \<Rightarrow> u32 \<Rightarrow> u32 \<Rightarrow> ('b, 'e) pfcp_stack \<Rightarrow> ('b, 'e) pfcp_stack \<times> ('b, 'e) pfcp_procedure" where
  "start_proc_cleanup_timer p ms seq st =
     (case timer_setup (ms div 1000) (ms mod 1000) st of (st, t) \<Rightarrow>
        (st\<lparr>proc_cleanup_timers := map_insert t seq (proc_cleanup_timers st)\<rparr>, p\<lparr>proc_cleanup_timer_id := t\<rparr>))"

text \<open>As written, this erases from \<open>msg_out_retry_timers\<close>.\<close>

definition stop_proc_cleanup_timer ::
    "('b, 'e) pfcp_procedure \<Rightarrow> ('b, 'e) pfcp_stack \<Rightarrow> ('b, 'e) pfcp_stack \<times> ('b, 'e) pfcp_procedure" where
  "stop_proc_cleanup_timer p st =
     (let t = proc_cleanup_timer_id p; st = timer_remove t st
      in (st\<lparr>msg_out_retry_timers := (msg_out_retry_timers st)(t := None)\<rparr>, p\<lparr>proc_cleanup_timer_id := 0\<rparr>))"

section \<open>Receiving\<close>

text \<open>The result carries \<open>error\<close> and \<open>trxn_id\<close>; \<open>uid\<close> is the next generated transaction id.\<close>

definition handle_receive_message_cb ::
    "pfcp_lib \<Rightarrow> u64 \<Rightarrow> 'b pfcp_msg \<Rightarrow> ('b, 'e) pfcp_stack \<Rightarrow> ('b, 'e) pfcp_stack \<times> bool \<times> u64" where
  "handle_receive_message_cb lib uid msg st =
     (case pending_procedures st (msg_seq msg) of
        None \<Rightarrow>
          if check_request_type lib (msg_type msg) then
            (let p = pfcp_procedure_new\<lparr>trxn_id := uid, initial_msg_type := msg_type msg\<rparr>
             in case start_proc_cleanup_timer p PFCP_PROC_TIME_OUT_MS (msg_seq msg) st of (st, p) \<Rightarrow>
                  (st\<lparr>pending_procedures := map_insert (msg_seq msg) p (pending_procedures st),
                      trxn_id2seq_num := map_insert (trxn_id p) (msg_seq msg) (trxn_id2seq_num st)\<rparr>,
                   False, trxn_id p))
          else (st, True, 0)
      | Some p \<Rightarrow>
          let check_initial = (if triggered_msg_type p = 0 then initial_msg_type p else triggered_msg_type p)
          in if check_response_type lib check_initial (msg_type msg) then
               let p = (if triggered_msg_type p = 0 then p\<lparr>triggered_msg_type := msg_type msg\<rparr> else p);
                   (st, p) = (if retry_timer_id p \<noteq> 0 then stop_msg_retry_timer p st else (st, p))
               in (st\<lparr>pending_procedures := (pending_procedures st)(msg_seq msg \<mapsto> p)\<rparr>, False, trxn_id p)
             else (st, True, 0))"

section \<open>Sending\<close>

text \<open>Common body of the \<open>send_request\<close> overloads, then the overloads.\<close>

definition send_request ::
    "pfcp_lib \<Rightarrow> u8 \<Rightarrow> u64 option \<Rightarrow> 'b \<Rightarrow> 'e \<Rightarrow> u64 \<Rightarrow> ('b, 'e) pfcp_stack \<Rightarrow> ('b, 'e) pfcp_stack \<times> u32" where
  "send_request lib ty seid ies dest trxn st =
     (let st = get_next_seq_num st;
          msg = \<lparr>msg_type = ty, msg_seid = seid, msg_seq = stored_seq lib (seq_num st), msg_ies = ies\<rparr>;
          p = pfcp_procedure_new\<lparr>initial_msg_type := msg_type msg, trxn_id := trxn,
                retry_msg := Some msg, remote_endpoint := Some dest\<rparr>
      in case start_msg_retry_timer p PFCP_T1_RESPONSE_MS (msg_seq msg) st of (st, p) \<Rightarrow>
         case start_proc_cleanup_timer p PFCP_PROC_TIME_OUT_MS (msg_seq msg) st of (st, p) \<Rightarrow>
           (st\<lparr>pending_procedures := map_insert (msg_seq msg) p (pending_procedures st),
               trxn_id2seq_num := map_insert (trxn_id p) (msg_seq msg) (trxn_id2seq_num st),
               sent := sent st @ [FromAllocated msg dest]\<rparr>, msg_seq msg))"

definition send_heartbeat_request where
  "send_heartbeat_request lib = send_request lib (PFCP_HEARTBEAT_REQUEST lib) None"
definition send_association_setup_request where
  "send_association_setup_request lib = send_request lib (PFCP_ASSOCIATION_SETUP_REQUEST lib) None"
definition send_association_release_request where
  "send_association_release_request lib = send_request lib (PFCP_ASSOCIATION_RELEASE_REQUEST lib) None"
definition send_node_report_request where
  "send_node_report_request lib = send_request lib (PFCP_NODE_REPORT_REQUEST lib) None"
definition send_session_establishment_request where
  "send_session_establishment_request lib seid = send_request lib (PFCP_SESSION_ESTABLISHMENT_REQUEST lib) (Some seid)"
definition send_session_modification_request where
  "send_session_modification_request lib seid = send_request lib (PFCP_SESSION_MODIFICATION_REQUEST lib) (Some seid)"
definition send_session_deletion_request where
  "send_session_deletion_request lib seid = send_request lib (PFCP_SESSION_DELETION_REQUEST lib) (Some seid)"
definition send_session_report_request where
  "send_session_report_request lib seid = send_request lib (PFCP_SESSION_REPORT_REQUEST lib) (Some seid)"

definition send_response ::
    "pfcp_lib \<Rightarrow> u8 \<Rightarrow> u64 option \<Rightarrow> 'b \<Rightarrow> 'e \<Rightarrow> u64 \<Rightarrow> trxn_action \<Rightarrow> ('b, 'e) pfcp_stack \<Rightarrow> ('b, 'e) pfcp_stack" where
  "send_response lib ty seid ies dest trxn a st =
     (case trxn_id2seq_num st trxn of
        None \<Rightarrow> st
      | Some seq \<Rightarrow>
          let msg = \<lparr>msg_type = ty, msg_seid = seid, msg_seq = stored_seq lib seq, msg_ies = ies\<rparr>;
              st = st\<lparr>sent := sent st @ [From8805 msg (Some dest)]\<rparr>
          in if a = DELETE_TX then
               let st = (case pending_procedures st seq of
                           None \<Rightarrow> st
                         | Some p \<Rightarrow>
                             let st = fst (stop_proc_cleanup_timer p st)
                             in st\<lparr>pending_procedures := (pending_procedures st)(seq := None)\<rparr>)
               in st\<lparr>trxn_id2seq_num := (trxn_id2seq_num st)(trxn := None)\<rparr>
             else st)"

definition send_heartbeat_response where
  "send_heartbeat_response lib = send_response lib (PFCP_HEARTBEAT_RESPONSE lib) None"
definition send_association_setup_response where
  "send_association_setup_response lib = send_response lib (PFCP_ASSOCIATION_SETUP_RESPONSE lib) None"
definition send_association_release_response where
  "send_association_release_response lib = send_response lib (PFCP_ASSOCIATION_RELEASE_RESPONSE lib) None"
definition send_session_establishment_response where
  "send_session_establishment_response lib seid = send_response lib (PFCP_SESSION_ESTABLISHMENT_RESPONSE lib) (Some seid)"
definition send_session_modification_response where
  "send_session_modification_response lib seid = send_response lib (PFCP_SESSION_MODIFICATION_RESPONSE lib) (Some seid)"
definition send_session_deletion_response where
  "send_session_deletion_response lib seid = send_response lib (PFCP_SESSION_DELETION_RESPONSE lib) (Some seid)"
definition send_session_report_response where
  "send_session_report_response lib seid = send_response lib (PFCP_SESSION_REPORT_RESPONSE lib) (Some seid)"

section \<open>Time-outs\<close>

definition time_out_event :: "u32 \<Rightarrow> ('b, 'e) pfcp_stack \<Rightarrow> ('b, 'e) pfcp_stack \<times> bool" where
  "time_out_event timer st =
     (case msg_out_retry_timers st timer of
        Some seq \<Rightarrow>
          let st = st\<lparr>msg_out_retry_timers := (msg_out_retry_timers st)(timer := None)\<rparr>
          in (case pending_procedures st seq of
                None \<Rightarrow> (st, True)
              | Some p \<Rightarrow>
                  if retry_count p < PFCP_N1_REQUESTS then
                    (case retry_msg p of
                       None \<Rightarrow> (st, True)
                     | Some msg \<Rightarrow>
                         let p = p\<lparr>retry_count := retry_count p + 1\<rparr>
                         in case start_msg_retry_timer p PFCP_T1_RESPONSE_MS (msg_seq msg) st of (st, p) \<Rightarrow>
                              (st\<lparr>pending_procedures := (pending_procedures st)(seq \<mapsto> p),
                                  sent := sent st @ [From8805 msg (remote_endpoint p)]\<rparr>, True))
                  else (st, True))
      | None \<Rightarrow>
          (case proc_cleanup_timers st timer of
             None \<Rightarrow> (st, False)
           | Some seq \<Rightarrow>
               (st\<lparr>proc_cleanup_timers := (proc_cleanup_timers st)(timer := None),
                   pending_procedures := (pending_procedures st)(seq := None)\<rparr>, True)))"

section \<open>The stack as a state machine\<close>

text \<open>
  Besides the handlers: an armed timer may fire, which queues its time-out for the task, and a
  queued time-out is delivered later. \<open>started\<close> counts the timers ever started.
\<close>

record ('b, 'e) pfcp_sys =
  stack :: "('b, 'e) pfcp_stack"
  queued :: "u32 set"
  started :: nat

definition after :: "('b, 'e) pfcp_sys \<Rightarrow> ('b, 'e) pfcp_stack \<Rightarrow> u32 set \<Rightarrow> ('b, 'e) pfcp_sys" where
  "after s st q = \<lparr>stack = st, queued = q, started = started s + unat (itti_last st - itti_last (stack s))\<rparr>"

inductive pstep :: "pfcp_lib \<Rightarrow> ('b, 'e) pfcp_sys \<Rightarrow> ('b, 'e) pfcp_sys \<Rightarrow> bool" for lib where
  receive: "handle_receive_message_cb lib uid msg (stack s) = (st, err, trxn) \<Longrightarrow>
    pstep lib s (after s st (queued s))"
| request: "send_request lib ty seid ies dest trxn (stack s) = (st, seq) \<Longrightarrow>
    pstep lib s (after s st (queued s))"
| response: "send_response lib ty seid ies dest trxn a (stack s) = st \<Longrightarrow>
    pstep lib s (after s st (queued s))"
| fire: "t \<in> dom (itti_armed (stack s)) \<Longrightarrow>
    pstep lib s (after s (timer_remove t (stack s)) (insert t (queued s)))"
| deliver: "t \<in> queued s \<Longrightarrow> time_out_event t (stack s) = (st, handled) \<Longrightarrow>
    pstep lib s (after s st (queued s - {t}))"

definition pfcp_reachable :: "pfcp_lib \<Rightarrow> u32 \<Rightarrow> ('b, 'e) pfcp_sys \<Rightarrow> bool" where
  "pfcp_reachable lib nsec s = (pstep lib)\<^sup>*\<^sup>* \<lparr>stack = pfcp_stack_new nsec, queued = {}, started = 0\<rparr> s"

definition proc_ok :: "('b, 'e) pfcp_stack \<Rightarrow> u32 set \<Rightarrow> u32 \<Rightarrow> ('b, 'e) pfcp_procedure \<Rightarrow> bool" where
  "proc_ok st q seq p \<longleftrightarrow>
     proc_cleanup_timers st (proc_cleanup_timer_id p) = Some seq \<and>
     proc_cleanup_timer_id p \<in> dom (itti_armed st) \<union> q \<and>
     retry_timer_id p \<notin> dom (proc_cleanup_timers st) \<and>
     unat (retry_timer_id p) \<le> unat (itti_last st) \<and> retry_count p \<le> PFCP_N1_REQUESTS"

definition timers_ok :: "('b, 'e) pfcp_stack \<Rightarrow> u32 set \<Rightarrow> bool" where
  "timers_ok st q \<longleftrightarrow>
     dom (msg_out_retry_timers st) \<inter> dom (proc_cleanup_timers st) = {} \<and>
     (\<forall>t \<in> dom (msg_out_retry_timers st) \<union> dom (proc_cleanup_timers st) \<union> dom (itti_armed st) \<union> q.
        t \<noteq> 0 \<and> unat t \<le> unat (itti_last st))"

definition pfcp_inv :: "('b, 'e) pfcp_sys \<Rightarrow> bool" where
  "pfcp_inv s \<longleftrightarrow> unat (itti_last (stack s)) = started s \<and> timers_ok (stack s) (queued s) \<and>
     (\<forall>seq p. pending_procedures (stack s) seq = Some p \<longrightarrow> proc_ok (stack s) (queued s) seq p)"

text \<open>A new timer, while the 32-bit counter has not wrapped.\<close>

lemma next_timer:
  assumes "unat (t :: u32) + 1 < 2 ^ 32"
  shows "unat (t + 1) = unat t + 1" "t + 1 \<noteq> 0"
  using assms by (auto simp: unat_plus_if' unat_eq_0 [symmetric] simp del: unat_eq_0)

lemma timers_ok_fresh:
  assumes "timers_ok st q" "unat (itti_last st) + 1 < 2 ^ 32"
  shows "itti_last st + 1 \<notin> dom (msg_out_retry_timers st) \<union> dom (proc_cleanup_timers st) \<union> dom (itti_armed st) \<union> q"
proof
  assume "itti_last st + 1 \<in> dom (msg_out_retry_timers st) \<union> dom (proc_cleanup_timers st) \<union> dom (itti_armed st) \<union> q"
  then have "unat (itti_last st + 1) \<le> unat (itti_last st)" using assms(1) unfolding timers_ok_def by blast
  then show False using next_timer(1) [OF assms(2)] by simp
qed

lemma timers_ok_disjoint: "timers_ok st q \<Longrightarrow> dom (msg_out_retry_timers st) \<inter> dom (proc_cleanup_timers st) = {}"
  by (simp add: timers_ok_def)

lemma timers_ok_bound:
  "timers_ok st q \<Longrightarrow> t \<in> dom (msg_out_retry_timers st) \<union> dom (proc_cleanup_timers st) \<union> dom (itti_armed st) \<union> q \<Longrightarrow>
   t \<noteq> 0 \<and> unat t \<le> unat (itti_last st)"
  unfolding timers_ok_def by blast

lemma timers_ok_grow:
  assumes "timers_ok st q" "unat (itti_last st) + 1 < 2 ^ 32" "itti_last st' = itti_last st + 1"
    "dom (msg_out_retry_timers st') \<inter> dom (proc_cleanup_timers st') = {}"
    "dom (msg_out_retry_timers st') \<subseteq> insert (itti_last st + 1) (dom (msg_out_retry_timers st))"
    "dom (proc_cleanup_timers st') \<subseteq> insert (itti_last st + 1) (dom (proc_cleanup_timers st))"
    "dom (itti_armed st') \<subseteq> insert (itti_last st + 1) (dom (itti_armed st))"
  shows "timers_ok st' q"
  unfolding timers_ok_def
proof (rule conjI, rule assms(4), rule ballI)
  fix t assume "t \<in> dom (msg_out_retry_timers st') \<union> dom (proc_cleanup_timers st') \<union> dom (itti_armed st') \<union> q"
  then have "t = itti_last st + 1 \<or>
      t \<in> dom (msg_out_retry_timers st) \<union> dom (proc_cleanup_timers st) \<union> dom (itti_armed st) \<union> q"
    using assms(5-7) by blast
  then show "t \<noteq> 0 \<and> unat t \<le> unat (itti_last st')"
  proof
    assume "t = itti_last st + 1"
    then show ?thesis using next_timer(2) [OF assms(2)] assms(3) by simp
  next
    assume "t \<in> dom (msg_out_retry_timers st) \<union> dom (proc_cleanup_timers st) \<union> dom (itti_armed st) \<union> q"
    from timers_ok_bound [OF assms(1) this] show ?thesis
      unfolding assms(3) next_timer(1) [OF assms(2)] by simp
  qed
qed

lemma start_msg_retry_timer_eq:
  "start_msg_retry_timer p ms seq st =
     (st\<lparr>itti_last := itti_last st + 1, itti_armed := (itti_armed st)(itti_last st + 1 \<mapsto> (ms div 1000, ms mod 1000)),
         msg_out_retry_timers := map_insert (itti_last st + 1) seq (msg_out_retry_timers st)\<rparr>,
      p\<lparr>retry_timer_id := itti_last st + 1\<rparr>)"
  by (simp add: start_msg_retry_timer_def timer_setup_def Let_def)

lemma start_proc_cleanup_timer_eq:
  "start_proc_cleanup_timer p ms seq st =
     (st\<lparr>itti_last := itti_last st + 1, itti_armed := (itti_armed st)(itti_last st + 1 \<mapsto> (ms div 1000, ms mod 1000)),
         proc_cleanup_timers := map_insert (itti_last st + 1) seq (proc_cleanup_timers st)\<rparr>,
      p\<lparr>proc_cleanup_timer_id := itti_last st + 1\<rparr>)"
  by (simp add: start_proc_cleanup_timer_def timer_setup_def Let_def)

lemma map_insert_fresh: "k \<notin> dom m \<Longrightarrow> map_insert k v m = m(k \<mapsto> v)"
  by (auto simp: map_insert_def)

text \<open>Starting a timer of either kind keeps what is known of the others.\<close>

lemma start_retry_ok:
  assumes "timers_ok st q" "unat (itti_last st) + 1 < 2 ^ 32" "start_msg_retry_timer p ms seq st = (st', p')"
  shows "timers_ok st' q" "unat (itti_last st') = unat (itti_last st) + 1"
    "proc_ok st q k r \<Longrightarrow> proc_ok st' q k r"
    "p' = p\<lparr>retry_timer_id := itti_last st'\<rparr>" "itti_last st' \<notin> dom (proc_cleanup_timers st')"
    "pending_procedures st' = pending_procedures st" "itti_last st' = itti_last st + 1"
    "proc_cleanup_timers st' = proc_cleanup_timers st" "dom (itti_armed st) \<subseteq> dom (itti_armed st')"
proof -
  note F = timers_ok_fresh [OF assms(1,2)] and N = next_timer [OF assms(2)]
  have st': "st' = st\<lparr>itti_last := itti_last st + 1,
      itti_armed := (itti_armed st)(itti_last st + 1 \<mapsto> (ms div 1000, ms mod 1000)),
      msg_out_retry_timers := (msg_out_retry_timers st)(itti_last st + 1 \<mapsto> seq)\<rparr>"
    and p': "p' = p\<lparr>retry_timer_id := itti_last st + 1\<rparr>"
    using assms(3) F by (auto simp: start_msg_retry_timer_eq map_insert_fresh)
  show "timers_ok st' q"
    by (rule timers_ok_grow [OF assms(1,2)]) (use F timers_ok_disjoint [OF assms(1)] in \<open>simp_all add: st' subset_insertI\<close>)
  show "unat (itti_last st') = unat (itti_last st) + 1" using N by (simp add: st')
  show "proc_ok st q k r \<Longrightarrow> proc_ok st' q k r" using N(1) unfolding proc_ok_def st' by auto
  show "p' = p\<lparr>retry_timer_id := itti_last st'\<rparr>" by (simp add: p' st')
  show "itti_last st' \<notin> dom (proc_cleanup_timers st')" using F by (simp add: st')
qed (use assms(3) in \<open>auto simp: start_msg_retry_timer_eq\<close>)

lemma start_cleanup_ok:
  assumes "timers_ok st q" "unat (itti_last st) + 1 < 2 ^ 32" "start_proc_cleanup_timer p ms seq st = (st', p')"
  shows "timers_ok st' q" "unat (itti_last st') = unat (itti_last st) + 1"
    "proc_ok st q k r \<Longrightarrow> proc_ok st' q k r"
    "p' = p\<lparr>proc_cleanup_timer_id := itti_last st'\<rparr>" "proc_cleanup_timers st' (itti_last st') = Some seq"
    "itti_last st' \<in> dom (itti_armed st')"
    "pending_procedures st' = pending_procedures st" "itti_last st' = itti_last st + 1"
    "dom (proc_cleanup_timers st') = insert (itti_last st + 1) (dom (proc_cleanup_timers st))"
proof -
  note F = timers_ok_fresh [OF assms(1,2)] and N = next_timer [OF assms(2)]
  have st': "st' = st\<lparr>itti_last := itti_last st + 1,
      itti_armed := (itti_armed st)(itti_last st + 1 \<mapsto> (ms div 1000, ms mod 1000)),
      proc_cleanup_timers := (proc_cleanup_timers st)(itti_last st + 1 \<mapsto> seq)\<rparr>"
    and p': "p' = p\<lparr>proc_cleanup_timer_id := itti_last st + 1\<rparr>"
    using assms(3) F by (auto simp: start_proc_cleanup_timer_eq map_insert_fresh)
  show "timers_ok st' q"
    by (rule timers_ok_grow [OF assms(1,2)]) (use F timers_ok_disjoint [OF assms(1)] in \<open>simp_all add: st' subset_insertI\<close>)
  show "unat (itti_last st') = unat (itti_last st) + 1" using N by (simp add: st')
  have "retry_timer_id r \<noteq> itti_last st + 1" if "proc_ok st q k r"
    using that N(1) by (auto simp: proc_ok_def)
  then show "proc_ok st q k r \<Longrightarrow> proc_ok st' q k r" using F N(1) unfolding proc_ok_def st' by auto
qed (use assms(3) timers_ok_fresh [OF assms(1,2)] in \<open>auto simp: start_proc_cleanup_timer_eq map_insert_fresh\<close>)

definition stack_ok :: "('b, 'e) pfcp_stack \<Rightarrow> u32 set \<Rightarrow> bool" where
  "stack_ok st q \<longleftrightarrow> timers_ok st q \<and>
     (\<forall>seq p. pending_procedures st seq = Some p \<longrightarrow> proc_ok st q seq p)"

definition few_timers :: "('b, 'e) pfcp_stack \<Rightarrow> bool" where
  "few_timers st \<longleftrightarrow> unat (itti_last st) + 2 < 2 ^ 32"

text \<open>Fields that the invariant does not read may change freely.\<close>

lemma proc_ok_cong:
  "proc_cleanup_timers st' = proc_cleanup_timers st \<Longrightarrow> itti_armed st' = itti_armed st \<Longrightarrow>
   itti_last st' = itti_last st \<Longrightarrow> proc_ok st' = proc_ok st"
  by (intro ext) (simp add: proc_ok_def)

lemma timers_ok_cong:
  "proc_cleanup_timers st' = proc_cleanup_timers st \<Longrightarrow> itti_armed st' = itti_armed st \<Longrightarrow>
   itti_last st' = itti_last st \<Longrightarrow> msg_out_retry_timers st' = msg_out_retry_timers st \<Longrightarrow>
   timers_ok st' = timers_ok st"
  by (intro ext) (simp add: timers_ok_def)

text \<open>Removing a timer that is not any procedure's clean-up timer.\<close>

lemma timers_ok_shrink:
  assumes "timers_ok st q" "dom (msg_out_retry_timers st') \<subseteq> dom (msg_out_retry_timers st)"
    "dom (proc_cleanup_timers st') \<subseteq> dom (proc_cleanup_timers st)"
    "dom (itti_armed st') \<union> q' \<subseteq> dom (itti_armed st) \<union> q" "itti_last st' = itti_last st"
  shows "timers_ok st' q'"
proof -
  have "t \<in> dom (msg_out_retry_timers st) \<union> dom (proc_cleanup_timers st) \<union> dom (itti_armed st) \<union> q"
    if "t \<in> dom (msg_out_retry_timers st') \<union> dom (proc_cleanup_timers st') \<union> dom (itti_armed st') \<union> q'" for t
    using that assms(2-4) by blast
  moreover have "dom (msg_out_retry_timers st') \<inter> dom (proc_cleanup_timers st') = {}"
    using timers_ok_disjoint [OF assms(1)] assms(2,3) by blast
  ultimately show ?thesis
    using timers_ok_bound [OF assms(1)] unfolding timers_ok_def assms(5) by blast
qed

lemma proc_ok_keep:
  assumes "proc_ok st q k r" "t \<noteq> proc_cleanup_timer_id r" "proc_cleanup_timers st' = proc_cleanup_timers st"
    "itti_last st' = itti_last st" "dom (itti_armed st) \<union> q - {t} \<subseteq> dom (itti_armed st') \<union> q'"
  shows "proc_ok st' q' k r"
  using assms unfolding proc_ok_def by auto

lemma stop_msg_retry_timer_ok:
  assumes "stack_ok st q" "pending_procedures st seq = Some p" "stop_msg_retry_timer p st = (st', p')"
  shows "stack_ok st' q \<and> itti_last st' = itti_last st \<and> pending_procedures st' = pending_procedures st \<and>
         proc_ok st' q seq p' \<and> trxn_id p' = trxn_id p"
proof -
  have T: "timers_ok st q" and P: "\<And>k r. pending_procedures st k = Some r \<Longrightarrow> proc_ok st q k r"
    using assms(1) by (auto simp: stack_ok_def)
  show ?thesis
  proof (cases "retry_timer_id p = 0")
    case True
    then show ?thesis
      using assms P by (simp add: stop_msg_retry_timer_def)
  next
    case False
    let ?t = "retry_timer_id p"
    have st': "st' = st\<lparr>itti_armed := (itti_armed st)(?t := None),
        msg_out_retry_timers := (msg_out_retry_timers st)(?t := None)\<rparr>" and p': "p' = p\<lparr>retry_timer_id := 0\<rparr>"
      using assms(3) False by (auto simp: stop_msg_retry_timer_def timer_remove_def Let_def)
    have nt: "?t \<notin> dom (proc_cleanup_timers st)" using P [OF assms(2)] by (simp add: proc_ok_def)
    have keep: "proc_ok st' q k r" if "proc_ok st q k r" for k r
      by (rule proc_ok_keep [OF that, of ?t]) (use nt that in \<open>auto simp: st' proc_ok_def\<close>)
    have "timers_ok st' q" by (rule timers_ok_shrink [OF T]) (auto simp: st')
    moreover have "proc_ok st' q seq p'"
      using keep [OF P [OF assms(2)]] T unfolding p' proc_ok_def timers_ok_def by (auto simp: st')
    ultimately show ?thesis
      using keep P by (auto simp: stack_ok_def st' p')
  qed
qed

lemma proc_ok_triggered:
  "proc_ok st q k (p\<lparr>triggered_msg_type := t\<rparr>) = proc_ok st q k p"
  by (simp add: proc_ok_def)

lemma stop_msg_retry_timer_triggered:
  "stop_msg_retry_timer (p\<lparr>triggered_msg_type := t\<rparr>) st =
     (case stop_msg_retry_timer p st of (st', p') \<Rightarrow> (st', p'\<lparr>triggered_msg_type := t\<rparr>))"
  by (simp add: stop_msg_retry_timer_def Let_def)

text \<open>Storing back an edited procedure, or adding one.\<close>

lemma stack_ok_store:
  assumes "stack_ok st q" "proc_ok st q seq p" "pending_procedures st' = (pending_procedures st)(seq \<mapsto> p)"
    "proc_cleanup_timers st' = proc_cleanup_timers st" "itti_armed st' = itti_armed st"
    "itti_last st' = itti_last st" "msg_out_retry_timers st' = msg_out_retry_timers st"
  shows "stack_ok st' q"
  using assms(1-3) timers_ok_cong [OF assms(4-7)] proc_ok_cong [OF assms(4-6)]
  by (auto simp: stack_ok_def)

lemma stack_ok_insert:
  assumes "stack_ok st q" "proc_ok st q seq p" "pending_procedures st' = map_insert seq p (pending_procedures st)"
    "proc_cleanup_timers st' = proc_cleanup_timers st" "itti_armed st' = itti_armed st"
    "itti_last st' = itti_last st" "msg_out_retry_timers st' = msg_out_retry_timers st"
  shows "stack_ok st' q"
  using assms(1-3) timers_ok_cong [OF assms(4-7)] proc_ok_cong [OF assms(4-6)]
  by (auto simp: stack_ok_def map_insert_def split: if_splits)

lemma receive_ok:
  assumes ok: "stack_ok st q" "few_timers st" and r: "handle_receive_message_cb lib uid msg st = (st', err, trxn)"
  shows "stack_ok st' q \<and> (itti_last st' = itti_last st \<or> itti_last st' = itti_last st + 1)"
proof (cases "pending_procedures st (msg_seq msg)")
  case None
  show ?thesis
  proof (cases "check_request_type lib (msg_type msg)")
    case True
    let ?p = "pfcp_procedure_new\<lparr>trxn_id := uid, initial_msg_type := msg_type msg\<rparr> :: ('a, 'b) pfcp_procedure"
    obtain s1 p1 where s1: "start_proc_cleanup_timer ?p PFCP_PROC_TIME_OUT_MS (msg_seq msg) st = (s1, p1)" by fastforce
    have few: "unat (itti_last st) + 1 < 2 ^ 32" using ok(2) by (simp add: few_timers_def)
    have T: "timers_ok st q" using ok(1) by (simp add: stack_ok_def)
    note C = start_cleanup_ok [OF T few s1]
    have s1ok: "stack_ok s1 q" using ok(1) C(1,3,7) by (simp add: stack_ok_def)
    have "(0 :: u32) \<notin> dom (proc_cleanup_timers s1)"
      using timers_ok_bound [OF C(1), of 0] by blast
    then have p1: "proc_ok s1 q (msg_seq msg) p1"
      using C(5,6) by (simp add: proc_ok_def C(4) pfcp_procedure_new_def PFCP_N1_REQUESTS_def)
    show ?thesis
      using r None True s1 C(8) stack_ok_insert [OF s1ok p1, of st']
      by (auto simp: handle_receive_message_cb_def Let_def)
  qed (use r ok None in \<open>simp add: handle_receive_message_cb_def\<close>)
next
  case (Some p)
  obtain s1 p1 where s1: "stop_msg_retry_timer p st = (s1, p1)" by fastforce
  note S = stop_msg_retry_timer_ok [OF ok(1) Some s1]
  have pok: "proc_ok st q (msg_seq msg) p" using ok(1) Some by (simp add: stack_ok_def)
  have a: "stack_ok (st\<lparr>pending_procedures := (pending_procedures st)(msg_seq msg \<mapsto> p')\<rparr>) q"
    if "proc_ok st q (msg_seq msg) p'" for p'
    by (rule stack_ok_store [OF ok(1) that]) simp_all
  have b: "stack_ok (s1\<lparr>pending_procedures := (pending_procedures st)(msg_seq msg \<mapsto> p')\<rparr>) q"
    if "proc_ok s1 q (msg_seq msg) p'" for p'
    by (rule stack_ok_store [OF _ that]) (use S in simp_all)
  show ?thesis
    using r Some S pok ok(1)
    by (auto simp: handle_receive_message_cb_def Let_def s1 stop_msg_retry_timer_triggered proc_ok_triggered
        split: if_splits intro!: a b)
qed

lemma get_next_seq_num_fields [simp]:
  "trxn_id2seq_num (get_next_seq_num st) = trxn_id2seq_num st"
  "proc_cleanup_timers (get_next_seq_num st) = proc_cleanup_timers st"
  "msg_out_retry_timers (get_next_seq_num st) = msg_out_retry_timers st"
  "pending_procedures (get_next_seq_num st) = pending_procedures st"
  "itti_last (get_next_seq_num st) = itti_last st" "itti_armed (get_next_seq_num st) = itti_armed st"
  "sent (get_next_seq_num st) = sent st"
  by (simp_all add: get_next_seq_num_def Let_def)

lemma send_request_ok:
  assumes ok: "stack_ok st q" "few_timers st" and r: "send_request lib ty seid ies dest trxn st = (st', seq)"
  shows "stack_ok st' q \<and> itti_last st' = itti_last st + 1 + 1"
proof -
  let ?st = "get_next_seq_num st"
  let ?m = "\<lparr>msg_type = ty, msg_seid = seid, msg_seq = stored_seq lib (seq_num ?st), msg_ies = ies\<rparr>"
  let ?p = "pfcp_procedure_new\<lparr>initial_msg_type := ty, trxn_id := trxn, retry_msg := Some ?m, remote_endpoint := Some dest\<rparr>"
  obtain s1 p1 where s1: "start_msg_retry_timer ?p PFCP_T1_RESPONSE_MS (msg_seq ?m) ?st = (s1, p1)" by fastforce
  obtain s2 p2 where s2: "start_proc_cleanup_timer p1 PFCP_PROC_TIME_OUT_MS (msg_seq ?m) s1 = (s2, p2)" by fastforce
  have few: "unat (itti_last ?st) + 2 < 2 ^ 32" using ok(2) by (simp add: few_timers_def)
  have ok0: "timers_ok ?st q" "\<And>k p. pending_procedures ?st k = Some p \<Longrightarrow> proc_ok ?st q k p"
    using ok(1) timers_ok_cong [of ?st st] proc_ok_cong [of ?st st] by (auto simp: stack_ok_def)
  have few1: "unat (itti_last ?st) + 1 < 2 ^ 32" using few by simp
  note R = start_retry_ok [OF ok0(1) few1 s1]
  have few2: "unat (itti_last s1) + 1 < 2 ^ 32" using few R(2) by simp
  note C = start_cleanup_ok [OF R(1) few2 s2]
  have ok2: "stack_ok s2 q"
    using C(1,3,7) R(3,6) ok0(2) by (simp add: stack_ok_def)
  have "itti_last s1 \<notin> dom (proc_cleanup_timers s2)" using R(5) C(2,8,9) by auto
  moreover have "unat (itti_last s1) \<le> unat (itti_last s2)" using C(2) by simp
  ultimately have p2: "proc_ok s2 q (msg_seq ?m) p2"
    using C(5,6) R(4) C(4) by (simp add: proc_ok_def pfcp_procedure_new_def PFCP_N1_REQUESTS_def)
  have "st' = s2\<lparr>pending_procedures := map_insert (msg_seq ?m) p2 (pending_procedures s2),
               trxn_id2seq_num := map_insert (trxn_id p2) (msg_seq ?m) (trxn_id2seq_num s2),
               sent := sent s2 @ [FromAllocated ?m dest]\<rparr>"
    using r s1 s2 by (auto simp: send_request_def Let_def)
  then have "stack_ok st' q" by (intro stack_ok_insert [OF ok2 p2]) simp_all
  moreover have "itti_last st' = itti_last st + 1 + 1"
    using \<open>st' = _\<close> C(8) R(7) by simp
  ultimately show ?thesis ..
qed

lemma send_response_ok:
  assumes ok: "stack_ok st q" and r: "send_response lib ty seid ies dest trxn a st = st'"
  shows "stack_ok st' q \<and> itti_last st' = itti_last st"
proof (cases "trxn_id2seq_num st trxn")
  case None
  then show ?thesis using r ok by (auto simp: send_response_def)
next
  case (Some seq)
  have T: "timers_ok st q" and P: "\<And>k r. pending_procedures st k = Some r \<Longrightarrow> proc_ok st q k r"
    using ok by (auto simp: stack_ok_def)
  show ?thesis
  proof (cases "a = DELETE_TX \<and> pending_procedures st seq \<noteq> None")
    case False
    then have same: "pending_procedures st' = pending_procedures st" "proc_cleanup_timers st' = proc_cleanup_timers st"
      "itti_armed st' = itti_armed st" "itti_last st' = itti_last st" "msg_out_retry_timers st' = msg_out_retry_timers st"
      using r Some by (auto simp: send_response_def Let_def split: option.splits if_splits)
    then show ?thesis using ok timers_ok_cong [OF same(2-5)] proc_ok_cong [OF same(2-4)] by (simp add: stack_ok_def)
  next
    case True
    then obtain p where p: "pending_procedures st seq = Some p" by auto
    let ?t = "proc_cleanup_timer_id p"
    have st': "pending_procedures st' = (pending_procedures st)(seq := None)"
      "proc_cleanup_timers st' = proc_cleanup_timers st" "itti_armed st' = (itti_armed st)(?t := None)"
      "itti_last st' = itti_last st" "msg_out_retry_timers st' = (msg_out_retry_timers st)(?t := None)"
      using r Some True p by (auto simp: send_response_def stop_proc_cleanup_timer_def timer_remove_def Let_def)
    have "proc_ok st' q k r" if "pending_procedures st' k = Some r" for k r
    proof (rule proc_ok_keep)
      have k: "k \<noteq> seq" "pending_procedures st k = Some r" using that st'(1) by (auto split: if_splits)
      show "proc_ok st q k r" by (rule P [OF k(2)])
      show "?t \<noteq> proc_cleanup_timer_id r" using P [OF p] P [OF k(2)] k(1) by (auto simp: proc_ok_def)
    qed (auto simp: st')
    moreover have "timers_ok st' q" by (rule timers_ok_shrink [OF T]) (auto simp: st')
    ultimately show ?thesis using st'(4) by (simp add: stack_ok_def)
  qed
qed

lemma time_out_ok:
  assumes ok: "stack_ok st q" "few_timers st" and r: "time_out_event t st = (st', handled)"
  shows "stack_ok st' (q - {t}) \<and> (itti_last st' = itti_last st \<or> itti_last st' = itti_last st + 1)"
proof -
  have T: "timers_ok st q" and P: "\<And>k r. pending_procedures st k = Some r \<Longrightarrow> proc_ok st q k r"
    using ok(1) by (auto simp: stack_ok_def)
  consider (neither) "msg_out_retry_timers st t = None" "proc_cleanup_timers st t = None"
    | (retry) seq where "msg_out_retry_timers st t = Some seq"
    | (cleanup) seq where "msg_out_retry_timers st t = None" "proc_cleanup_timers st t = Some seq"
    by (cases "msg_out_retry_timers st t"; cases "proc_cleanup_timers st t") auto
  then show ?thesis
  proof cases
    case neither
    have "proc_ok st (q - {t}) k p" if "pending_procedures st k = Some p" for k p
      by (rule proc_ok_keep [OF P [OF that], of t]) (use neither P [OF that] in \<open>auto simp: proc_ok_def\<close>)
    moreover have "timers_ok st (q - {t})" by (rule timers_ok_shrink [OF T]) auto
    ultimately show ?thesis using r neither by (simp add: time_out_event_def stack_ok_def)
  next
    case (cleanup seq)
    have st': "pending_procedures st' = (pending_procedures st)(seq := None)" "itti_armed st' = itti_armed st"
      "proc_cleanup_timers st' = (proc_cleanup_timers st)(t := None)" "itti_last st' = itti_last st"
      "msg_out_retry_timers st' = msg_out_retry_timers st"
      using r cleanup by (auto simp: time_out_event_def)
    have "proc_ok st' (q - {t}) k p" if "pending_procedures st' k = Some p" for k p
    proof -
      have k: "k \<noteq> seq" "pending_procedures st k = Some p" using that st'(1) by (auto split: if_splits)
      then have "proc_cleanup_timer_id p \<noteq> t" using P [OF k(2)] cleanup(2) by (auto simp: proc_ok_def)
      then show ?thesis using P [OF k(2)] by (auto simp: proc_ok_def st')
    qed
    moreover have "timers_ok st' (q - {t})" by (rule timers_ok_shrink [OF T]) (auto simp: st')
    ultimately show ?thesis using st'(4) by (simp add: stack_ok_def)
  next
    case (retry seq)
    let ?st = "st\<lparr>msg_out_retry_timers := (msg_out_retry_timers st)(t := None)\<rparr>"
    have nt: "proc_cleanup_timers st t = None" using timers_ok_disjoint [OF T] retry by auto
    have P1: "proc_ok ?st (q - {t}) k p" if "pending_procedures st k = Some p" for k p
      by (rule proc_ok_keep [OF P [OF that], of t]) (use nt P [OF that] in \<open>auto simp: proc_ok_def\<close>)
    have T1: "timers_ok ?st (q - {t})" by (rule timers_ok_shrink [OF T]) auto
    have ok1: "stack_ok ?st (q - {t})" using P1 T1 by (simp add: stack_ok_def)
    show ?thesis
    proof (cases "\<exists>p msg. pending_procedures st seq = Some p \<and> retry_count p < PFCP_N1_REQUESTS \<and> retry_msg p = Some msg")
      case False
      then have "st' = ?st" using r retry by (auto simp: time_out_event_def Let_def split: option.splits if_splits)
      with ok1 show ?thesis by simp
    next
      case True
      then obtain p msg where p: "pending_procedures st seq = Some p" "retry_count p < PFCP_N1_REQUESTS" "retry_msg p = Some msg"
        by blast
      let ?p = "p\<lparr>retry_count := retry_count p + 1\<rparr>"
      obtain s1 p1 where s1: "start_msg_retry_timer ?p PFCP_T1_RESPONSE_MS (msg_seq msg) ?st = (s1, p1)" by fastforce
      have few: "unat (itti_last ?st) + 1 < 2 ^ 32" using ok(2) by (simp add: few_timers_def)
      note R = start_retry_ok [OF T1 few s1]
      have rc: "retry_count p + 1 \<le> PFCP_N1_REQUESTS"
      proof -
        have "unat (retry_count p) < 3" using p(2) by (simp add: PFCP_N1_REQUESTS_def word_less_nat_alt)
        then have "unat (retry_count p + 1) \<le> 3" by (simp add: unat_plus_if')
        then show ?thesis by (simp add: PFCP_N1_REQUESTS_def word_le_nat_alt)
      qed
      have "proc_ok s1 (q - {t}) seq p1"
        using R(3) [OF P1 [OF p(1)]] R(5) rc by (simp add: proc_ok_def R(4))
      moreover have "stack_ok s1 (q - {t})" using R(1,3,6) P1 by (simp add: stack_ok_def)
      moreover have "st' = s1\<lparr>pending_procedures := (pending_procedures s1)(seq \<mapsto> p1),
          sent := sent s1 @ [From8805 msg (remote_endpoint p1)]\<rparr>"
        using r retry p s1 by (auto simp: time_out_event_def Let_def)
      ultimately have "stack_ok st' (q - {t})" "itti_last st' = itti_last s1"
        using stack_ok_store [of s1 "q - {t}" seq p1 st'] by simp_all
      then show ?thesis using R(7) by simp
    qed
  qed
qed

lemma fire_ok:
  assumes "stack_ok st q" "t \<in> dom (itti_armed st)"
  shows "stack_ok (timer_remove t st) (insert t q)"
proof -
  have "proc_ok (timer_remove t st) (insert t q) k p" if "proc_ok st q k p" for k p
    using that by (auto simp: proc_ok_def timer_remove_def)
  moreover have "timers_ok (timer_remove t st) (insert t q)"
    by (rule timers_ok_shrink [of st q]) (use assms in \<open>auto simp: stack_ok_def timer_remove_def\<close>)
  ultimately show ?thesis using assms(1) by (auto simp: stack_ok_def timer_remove_def)
qed

lemma u32_diff_small: "unat ((a :: u32) - a) = 0" "unat (a + 1 - a) = 1" "unat (a + 1 + 1 - a) = 2"
  by simp_all

lemma started_mono: "pstep lib s s' \<Longrightarrow> started s \<le> started s'"
  by (cases rule: pstep.cases) (auto simp: after_def)

lemma pfcp_inv_after:
  assumes "pfcp_inv s" "started s + 2 < 2 ^ 32" "stack_ok st q"
    "itti_last st = itti_last (stack s) \<or> itti_last st = itti_last (stack s) + 1 \<or>
     itti_last st = itti_last (stack s) + 1 + 1"
  shows "pfcp_inv (after s st q)"
proof -
  have l: "unat (itti_last (stack s)) = started s" using assms(1) by (simp add: pfcp_inv_def)
  have "unat (itti_last (stack s)) + 1 < 2 ^ 32" "unat (itti_last (stack s)) + 2 < 2 ^ 32" using l assms(2) by simp_all
  then have "unat (itti_last (stack s) + 1) = started s + 1" "unat (itti_last (stack s) + 1 + 1) = started s + 2"
    using next_timer(1) [of "itti_last (stack s)"] next_timer(1) [of "itti_last (stack s) + 1"] l by simp_all
  then have "unat (itti_last st) = started s + unat (itti_last st - itti_last (stack s))"
    using assms(4) l u32_diff_small [of "itti_last (stack s)"] by (elim disjE) simp_all
  then show ?thesis using assms(3) by (simp add: pfcp_inv_def after_def stack_ok_def)
qed

lemma pfcp_inv_step:
  assumes "pstep lib s s'" "pfcp_inv s" "started s' + 2 < 2 ^ 32"
  shows "pfcp_inv s'"
proof -
  have few: "started s + 2 < 2 ^ 32" using started_mono [OF assms(1)] assms(3) by simp
  have ok: "stack_ok (stack s) (queued s)" "few_timers (stack s)"
    using assms(2) few by (auto simp: pfcp_inv_def stack_ok_def few_timers_def)
  show ?thesis using assms(1)
  proof (cases rule: pstep.cases)
    case (receive uid msg st err trxn)
    show ?thesis unfolding receive(1)
      by (rule pfcp_inv_after [OF assms(2) few]) (use receive_ok [OF ok receive(2)] in auto)
  next
    case (request ty seid ies dest trxn st seq)
    show ?thesis unfolding request(1)
      by (rule pfcp_inv_after [OF assms(2) few]) (use send_request_ok [OF ok request(2)] in auto)
  next
    case (response ty seid ies dest trxn a st)
    show ?thesis unfolding response(1)
      by (rule pfcp_inv_after [OF assms(2) few]) (use send_response_ok [OF ok(1) response(2)] in auto)
  next
    case (fire t)
    show ?thesis unfolding fire(1)
      by (rule pfcp_inv_after [OF assms(2) few fire_ok [OF ok(1) fire(2)]]) (simp add: timer_remove_def)
  next
    case (deliver t st handled)
    show ?thesis unfolding deliver(1)
      by (rule pfcp_inv_after [OF assms(2) few]) (use time_out_ok [OF ok deliver(3)] in auto)
  qed
qed

lemma pfcp_inv_reachable:
  assumes "pfcp_reachable lib nsec s" "started s + 2 < 2 ^ 32"
  shows "pfcp_inv s"
  using assms unfolding pfcp_reachable_def
proof (induction rule: rtranclp_induct)
  case base
  show ?case by (simp add: pfcp_inv_def pfcp_stack_new_def timers_ok_def)
next
  case (step s s')
  then have "started s + 2 < 2 ^ 32" using started_mono [OF step(2)] by simp
  with step show ?case using pfcp_inv_step by blast
qed

section \<open>Sequence numbers\<close>

lemma top_bit_31: "(w :: u32) AND 0x80000000 \<noteq> 0 \<longleftrightarrow> 2 ^ 31 \<le> unat w"
proof -
  have "w AND push_bit 31 1 \<noteq> 0 \<longleftrightarrow> bit w 31"
    using bit_iff_and_push_bit_not_eq_0 [of w 31] by simp
  also have "\<dots> \<longleftrightarrow> 2 ^ 31 \<le> unat w"
  proof -
    have "bit w 31 \<longleftrightarrow> bit (unat w) 31" by (simp only: bit_unsigned_iff) simp
    then have "bit w 31 \<longleftrightarrow> odd (unat w div 2 ^ 31)" by (simp only: bit_iff_odd)
    moreover have "unat w < 2 ^ 32" using unsigned_less [of w] by simp
    then have "unat w div 2 ^ 31 < 2" by (simp add: less_mult_imp_div_less)
    then have "odd (unat w div 2 ^ 31) \<longleftrightarrow> unat w div 2 ^ 31 = 1" by (cases "unat w div 2 ^ 31 = 0") auto
    moreover have "unat w div 2 ^ 31 = 1 \<longleftrightarrow> 2 ^ 31 \<le> unat w"
      using \<open>unat w div 2 ^ 31 < 2\<close> div_greater_zero_iff [of "unat w" "2 ^ 31"] by auto
    ultimately show ?thesis by simp
  qed
  finally show ?thesis by simp
qed

lemma next_seq_unat:
  assumes "unat (seq_num st) < 2 ^ 31"
  shows "unat (seq_num (get_next_seq_num st)) = (unat (seq_num st) + 1) mod 2 ^ 31"
proof -
  have u: "unat (seq_num st + 1) = unat (seq_num st) + 1" using assms by (simp add: unat_plus_if')
  show ?thesis
    using assms by (simp add: get_next_seq_num_def Let_def top_bit_31 u) (auto simp: mod_if)
qed

lemma seq_iterate:
  assumes "unat (seq_num st) < 2 ^ 31"
  shows "unat (seq_num ((get_next_seq_num ^^ n) st)) = (unat (seq_num st) + n) mod 2 ^ 31"
proof (induction n)
  case 0
  show ?case using assms by simp
next
  case (Suc n)
  have "unat (seq_num ((get_next_seq_num ^^ n) st)) < 2 ^ 31" using Suc by simp
  from next_seq_unat [OF this] Suc show ?case by (simp add: mod_Suc_eq)
qed

lemma mod_distinct:
  assumes "i < j" "j < i + m"
  shows "((a :: nat) + i) mod m \<noteq> (a + j) mod m"
proof
  assume "(a + i) mod m = (a + j) mod m"
  then have "m dvd (a + j) - (a + i)" using assms(1) by (metis add_le_cancel_left less_imp_le mod_eq_dvd_iff_nat)
  moreover have "(a + j) - (a + i) = j - i" by simp
  ultimately have "m \<le> j - i" using assms(1) by (auto dest: dvd_imp_le)
  with assms show False by simp
qed

section \<open>A library for the examples\<close>

text \<open>The message types of TS 29.244, 7.3, with sequence numbers stored unchanged.\<close>

definition lib_29244 :: pfcp_lib where
  "lib_29244 =
     \<lparr>PFCP_HEARTBEAT_REQUEST = 1, PFCP_HEARTBEAT_RESPONSE = 2, PFCP_PFD_MANAGEMENT_REQUEST = 3,
      PFCP_ASSOCIATION_SETUP_REQUEST = 5, PFCP_ASSOCIATION_SETUP_RESPONSE = 6,
      PFCP_ASSOCIATION_UPDATE_REQUEST = 7, PFCP_ASSOCIATION_RELEASE_REQUEST = 9,
      PFCP_ASSOCIATION_RELEASE_RESPONSE = 10, PFCP_VERSION_NOT_SUPPORTED_RESPONSE = 11,
      PFCP_NODE_REPORT_REQUEST = 12, PFCP_NODE_REPORT_RESPONSE = 13,
      PFCP_SESSION_ESTABLISHMENT_REQUEST = 50, PFCP_SESSION_ESTABLISHMENT_RESPONSE = 51,
      PFCP_SESSION_MODIFICATION_REQUEST = 52, PFCP_SESSION_MODIFICATION_RESPONSE = 53,
      PFCP_SESSION_DELETION_REQUEST = 54, PFCP_SESSION_DELETION_RESPONSE = 55,
      PFCP_SESSION_REPORT_REQUEST = 56, PFCP_SESSION_REPORT_RESPONSE = 57, stored_seq = id\<rparr>"

text \<open>The stack after one Heartbeat Request has been sent from a fresh stack.\<close>

definition sys_example :: "(unit, nat) pfcp_sys" where
  "sys_example = after \<lparr>stack = pfcp_stack_new 7, queued = {}, started = 0\<rparr>
     (fst (send_heartbeat_request lib_29244 () 4 99 (pfcp_stack_new 7))) {}"

lemma sys_example_reachable: "pfcp_reachable lib_29244 7 sys_example"
proof -
  obtain st seq where r: "send_request lib_29244 1 None () (4 :: nat) 99 (pfcp_stack_new 7) = (st, seq)" by fastforce
  have "pstep lib_29244 \<lparr>stack = pfcp_stack_new 7, queued = {}, started = 0\<rparr>
      (after \<lparr>stack = pfcp_stack_new 7, queued = {}, started = 0\<rparr> st {})"
    using pstep.request [of lib_29244 1 None "()" "4 :: nat" 99 "\<lparr>stack = pfcp_stack_new 7, queued = {}, started = 0\<rparr>" st seq] r
    by simp
  moreover have "sys_example = after \<lparr>stack = pfcp_stack_new 7, queued = {}, started = 0\<rparr> st {}"
    using r by (simp add: sys_example_def send_heartbeat_request_def lib_29244_def)
  ultimately show ?thesis unfolding pfcp_reachable_def by auto
qed

lemma sys_example_eval:
  "pending_procedures (stack sys_example) 8 =
     Some \<lparr>retry_msg = Some \<lparr>msg_type = 1, msg_seid = None, msg_seq = 8, msg_ies = ()\<rparr>, remote_endpoint = Some 4,
           retry_timer_id = 1, proc_cleanup_timer_id = 2, trxn_id = 99, initial_msg_type = 1,
           triggered_msg_type = 0, retry_count = 0\<rparr>"
  "started sys_example = 2"
  by (simp_all add: sys_example_def after_def send_heartbeat_request_def send_request_def Let_def
      start_msg_retry_timer_eq start_proc_cleanup_timer_eq get_next_seq_num_def pfcp_stack_new_def lib_29244_def
      pfcp_procedure_new_def map_insert_def)

section \<open>Properties\<close>



text \<open>Retransmission is bounded. In every reachable state a pending request has been
  retransmitted at most \<open>PFCP_N1_REQUESTS\<close> times, and a retry time-out resends exactly the original
  message to the original peer, counts it and arms the next retry timer when the limit has not been
  reached, and sends nothing when it has.\<close>

lemma retransmission_bounded:
  assumes "pfcp_reachable lib nsec s" "started s + 2 < 2 ^ 32"
    and "pending_procedures (stack s) seq = Some p" "msg_out_retry_timers (stack s) t = Some seq"
  shows "retry_count p \<le> PFCP_N1_REQUESTS \<and>
    (retry_count p = PFCP_N1_REQUESTS \<longrightarrow> sent (fst (time_out_event t (stack s))) = sent (stack s)) \<and>
    (retry_count p < PFCP_N1_REQUESTS \<and> retry_msg p = Some m \<longrightarrow>
       sent (fst (time_out_event t (stack s))) = sent (stack s) @ [From8805 m (remote_endpoint p)] \<and>
       (\<exists>q. pending_procedures (fst (time_out_event t (stack s))) seq = Some q \<and>
          retry_count q = retry_count p + 1 \<and> retry_timer_id q \<in> dom (itti_armed (fst (time_out_event t (stack s))))))"
proof -
  have "proc_ok (stack s) (queued s) seq p"
    using pfcp_inv_reachable [OF assms(1,2)] assms(3) by (auto simp: pfcp_inv_def)
  then have "retry_count p \<le> PFCP_N1_REQUESTS" by (simp add: proc_ok_def)
  then show ?thesis
    using assms(3,4) by (simp add: time_out_event_def start_msg_retry_timer_eq Let_def)
qed

text \<open>A response is delivered once, to the transaction that asked. After a request is sent under
  a free sequence number, the first message with that number and the matching response type is
  accepted with the request's transaction identifier and disarms the retry timer; the same message
  again is refused and changes nothing.\<close>

lemma response_accepted_once:
  assumes "pending_procedures st (stored_seq lib (seq_num (get_next_seq_num st))) = None"
    and "send_request lib ty seid ies dest trxn st = (st1, seq)"
    and "check_response_type lib ty (msg_type m)" "msg_seq m = seq" "msg_type m \<noteq> 0"
    and "\<not> check_response_type lib (msg_type m) (msg_type m)" "itti_last st + 1 \<noteq> 0"
    and "handle_receive_message_cb lib uid m st1 = (st2, err, trxn')"
  shows "\<not> err \<and> trxn' = trxn \<and> itti_armed st2 (itti_last st + 1) = None \<and>
    msg_out_retry_timers st2 (itti_last st + 1) = None \<and>
    handle_receive_message_cb lib uid' m st2 = (st2, True, 0)"
proof -
  let ?l = "itti_last st + 1"
  obtain p where p: "pending_procedures st1 seq = Some p" "initial_msg_type p = ty" "triggered_msg_type p = 0"
    "trxn_id p = trxn" "retry_timer_id p = ?l"
    using assms(1,2)
    by (auto simp: send_request_def Let_def start_msg_retry_timer_eq start_proc_cleanup_timer_eq map_insert_def
        pfcp_procedure_new_def)
  have st2: "st2 = st1\<lparr>itti_armed := (itti_armed st1)(?l := None),
      msg_out_retry_timers := (msg_out_retry_timers st1)(?l := None),
      pending_procedures := (pending_procedures st1)(seq \<mapsto> p\<lparr>triggered_msg_type := msg_type m, retry_timer_id := 0\<rparr>)\<rparr>"
    and e: "\<not> err" "trxn' = trxn"
    using assms(3-5,7,8) p
    by (auto simp: handle_receive_message_cb_def Let_def stop_msg_retry_timer_def timer_remove_def)
  have "handle_receive_message_cb lib uid' m st2 = (st2, True, 0)"
    using assms(4-6) by (simp add: handle_receive_message_cb_def st2)
  then show ?thesis using e by (simp add: st2)
qed

text \<open>A peer's request opens one transaction, and the answer goes out under its number. A request
  whose sequence number is free is accepted and given the generated transaction identifier; the
  same request arriving again while it is pending is discarded without effect; the response sent
  for that transaction carries the request's sequence number, and closes it.\<close>

lemma request_answered_once:
  assumes "pending_procedures st (msg_seq m) = None" "trxn_id2seq_num st uid = None"
    and "check_request_type lib (msg_type m)" "msg_type m \<noteq> PFCP_VERSION_NOT_SUPPORTED_RESPONSE lib"
    and "handle_receive_message_cb lib uid m st = (st1, err, trxn)"
    and "send_response lib rty seid ies dest trxn DELETE_TX st1 = st2"
  shows "\<not> err \<and> trxn = uid \<and> handle_receive_message_cb lib uid' m st1 = (st1, True, 0) \<and>
    sent st2 = sent st @ [From8805 \<lparr>msg_type = rty, msg_seid = seid, msg_seq = stored_seq lib (msg_seq m), msg_ies = ies\<rparr> (Some dest)] \<and>
    pending_procedures st2 = pending_procedures st \<and> trxn_id2seq_num st2 = trxn_id2seq_num st"
proof -
  let ?p = "pfcp_procedure_new\<lparr>trxn_id := uid, initial_msg_type := msg_type m, proc_cleanup_timer_id := itti_last st + 1\<rparr>"
  have st1: "pending_procedures st1 = (pending_procedures st)(msg_seq m \<mapsto> ?p)"
    "trxn_id2seq_num st1 = (trxn_id2seq_num st)(uid \<mapsto> msg_seq m)" "sent st1 = sent st" and e: "\<not> err" "trxn = uid"
    using assms(1-3,5)
    by (auto simp: handle_receive_message_cb_def Let_def start_proc_cleanup_timer_eq map_insert_def pfcp_procedure_new_def)
  have n: "(ucast (msg_type m) :: u32) \<noteq> ucast (msg_type m) + 1" by simp
  have dup: "handle_receive_message_cb lib uid' m st1 = (st1, True, 0)"
  proof -
    have "\<not> check_response_type lib (msg_type m) (msg_type m)" using assms(4) n by (simp add: check_response_type_def)
    then show ?thesis by (simp add: handle_receive_message_cb_def st1 pfcp_procedure_new_def)
  qed
  have "pending_procedures st2 = (pending_procedures st)(msg_seq m := None)"
    "trxn_id2seq_num st2 = (trxn_id2seq_num st)(uid := None)"
    "sent st2 = sent st @ [From8805 \<lparr>msg_type = rty, msg_seid = seid, msg_seq = stored_seq lib (msg_seq m), msg_ies = ies\<rparr> (Some dest)]"
    using assms(6) e(2)
    by (auto simp: send_response_def Let_def st1 stop_proc_cleanup_timer_def timer_remove_def)
  with assms(1,2) e dup show ?thesis by (simp add: fun_upd_idem)
qed

text \<open>Sequence numbers do not repeat. Counting from any 31-bit value, \<open>2^31\<close> consecutive calls of
  \<open>get_next_seq_num\<close> return pairwise different numbers, all below \<open>2^31\<close>, then start over.\<close>

lemma seq_nums_distinct:
  assumes "unat (seq_num st) < 2 ^ 31" "i < j" "j < i + 2 ^ 31"
  shows "seq_num ((get_next_seq_num ^^ i) st) \<noteq> seq_num ((get_next_seq_num ^^ j) st) \<and>
    unat (seq_num ((get_next_seq_num ^^ j) st)) < 2 ^ 31 \<and>
    seq_num ((get_next_seq_num ^^ (2 ^ 31)) st) = seq_num st"
proof -
  have "unat (seq_num ((get_next_seq_num ^^ i) st)) \<noteq> unat (seq_num ((get_next_seq_num ^^ j) st))"
    unfolding seq_iterate [OF assms(1)] by (rule mod_distinct [OF assms(2,3)])
  then have a: "seq_num ((get_next_seq_num ^^ i) st) \<noteq> seq_num ((get_next_seq_num ^^ j) st)"
    by (rule contrapos_nn) (rule arg_cong)
  have "unat (seq_num ((get_next_seq_num ^^ (2 ^ 31)) st)) = unat (seq_num st)"
    unfolding seq_iterate [OF assms(1)] using assms(1) by (simp only: mod_add_self2 mod_less)
  then have c: "seq_num ((get_next_seq_num ^^ (2 ^ 31)) st) = seq_num st" by (simp only: word_unat_eq_iff)
  have "unat (seq_num ((get_next_seq_num ^^ j) st)) < 2 ^ 31"
    unfolding seq_iterate [OF assms(1)] by (rule mod_less_divisor) simp
  from a this c show ?thesis by (rule conjI [OF _ conjI])
qed

section \<open>Observations\<close>

text \<open>\<open>stop_proc_cleanup_timer\<close> leaves the entry of \<open>proc_cleanup_timers\<close> behind.\<close>

lemma cleanup_timer_entry_stays:
  assumes "pending_procedures st seq = Some p" "trxn_id2seq_num st trxn = Some seq"
    and "proc_cleanup_timers st (proc_cleanup_timer_id p) = Some seq"
  shows "pending_procedures (send_response lib ty seid ies dest trxn DELETE_TX st) seq = None \<and>
    proc_cleanup_timers (send_response lib ty seid ies dest trxn DELETE_TX st) (proc_cleanup_timer_id p) = Some seq"
  using assms by (simp add: send_response_def Let_def stop_proc_cleanup_timer_def timer_remove_def)

text \<open>A clean-up time-out leaves the transaction's entry in \<open>trxn_id2seq_num\<close>.\<close>

lemma timed_out_trxn_stays: "trxn_id2seq_num (fst (time_out_event t st)) = trxn_id2seq_num st"
  by (simp add: time_out_event_def start_msg_retry_timer_eq Let_def split: option.splits)

text \<open>A peer's request under the number of one of our own pending requests is taken for a response.\<close>

lemma peer_request_collides:
  assumes "pending_procedures st (msg_seq m) = Some p" "triggered_msg_type p = 0"
    and "\<not> check_response_type lib (initial_msg_type p) (msg_type m)"
  shows "handle_receive_message_cb lib uid m st = (st, True, 0)"
  using assms by (simp add: handle_receive_message_cb_def)

end
