(* ===== verification/PfcpRules.thy ===== *)
theory PfcpRules
  imports Prelude SdfFilter QosMbr
begin

text \<open>
  The rule objects a PFCP session is made of (\<open>simpleswitch/pfcp_pdr\<close>, \<open>pfcp_far\<close>, \<open>pfcp_qer\<close>,
  \<open>pfcp_urr\<close>, \<open>pfcp_bar\<close>, \<open>pfcp_mar\<close>): construction from a Create IE, update from an Update IE,
  and for the PDR and the FAR what they decide about a packet.

  The message types of the PFCP library appear as the records the sources read. An element whose
  content the sources only copy is its encoded bytes (\<open>payload\<close>). A library accessor
  \<open>u.get(x)\<close> writes the element into \<open>x\<close> and returns true when it is present, and leaves
  \<open>x\<close> alone otherwise. Copy constructors copy every field, so a copy is the record itself.
\<close>

type_synonym payload = "byte list"

section \<open>Library constants\<close>

datatype pfcp_cause =
    CAUSE_VALUE_REQUEST_ACCEPTED | CAUSE_VALUE_REQUEST_REJECTED
  | CAUSE_VALUE_SESSION_CONTEXT_NOT_FOUND | CAUSE_VALUE_MANDATORY_IE_MISSING
  | CAUSE_VALUE_CONDITIONAL_IE_MISSING | CAUSE_VALUE_RULE_CREATION_MODIFICATION_FAILURE

datatype ie_type =
    IE_UNSET | PFCP_IE_F_SEID | PFCP_IE_CREATE_FAR | PFCP_IE_CREATE_QER
  | PFCP_IE_PACKET_DETECTION_RULE_ID | PFCP_IE_PDI | PFCP_IE_PRECEDENCE | PFCP_IE_SOURCE_INTERFACE
  | PFCP_IE_F_TEID | PFCP_IE_FAR_ID | PFCP_IE_APPLY_ACTION | PFCP_IE_FORWARDING_PARAMETERS
  | PFCP_IE_DUPLICATING_PARAMETERS | PFCP_IE_QER_ID | PFCP_IE_MBR | PFCP_IE_QFI
  | PFCP_IE_URR_ID | PFCP_IE_MEASUREMENT_METHOD | PFCP_IE_REPORTING_TRIGGERS
  | PFCP_IE_BAR_ID | PFCP_IE_MAR_ID

datatype interface_value =
    INTERFACE_VALUE_ACCESS | INTERFACE_VALUE_CORE | INTERFACE_VALUE_CP_FUNCTION
  | INTERFACE_VALUE_OTHER u8

datatype ohr_description = OUTER_HEADER_REMOVAL_GTPU_UDP_IPV4 | OUTER_HEADER_REMOVAL_OTHER u8

datatype ohc_description =
    OUTER_HEADER_CREATION_GTPU_UDP_IPV4 | OUTER_HEADER_CREATION_GTPU_UDP_IPV6
  | OUTER_HEADER_CREATION_UDP_IPV4 | OUTER_HEADER_CREATION_UDP_IPV6 | OUTER_HEADER_CREATION_OTHER u16

section \<open>Configuration\<close>

text \<open>The part of \<open>upf_cfg\<close> the switch reads, and the library functions it relies on.\<close>

record upf_env =
  enable_qos :: bool
  enable_bpf_datapath :: bool
  enable_urr :: bool
  enable_bar :: bool
  enable_mar :: bool
  enable_fr :: bool
  bypass_ul_pfcp_rules :: bool
  qos_shape_ms :: u64
  qos_shape_ul_ms :: u64
  qos_burst_ms :: u64
  n3_addr4 :: u32
  n3_addr6 :: payload
  n3_port :: u16
  network_ipv4 :: u32
  network_mask_ipv4_be :: u32
  pton :: "string \<Rightarrow> u32 option"

section \<open>Packet Detection Rules\<close>

record fteid =
  ft_ch :: bool
  ft_chid :: bool
  ft_v4 :: bool
  ft_v6 :: bool
  ft_teid :: u32
  ft_ipv4_address :: u32
  ft_ipv6_address :: payload
  ft_choose_id :: u8

definition fteid_zero :: fteid where
  "fteid_zero = \<lparr>ft_ch = False, ft_chid = False, ft_v4 = False, ft_v6 = False, ft_teid = 0,
     ft_ipv4_address = 0, ft_ipv6_address = [], ft_choose_id = 0\<rparr>"

record ue_ip_address =
  ue_v4 :: bool
  ue_ipv4_address :: u32

record pdi =
  pdi_source_interface :: "interface_value ie"
  pdi_local_fteid :: "fteid ie"
  pdi_ue_ip_address :: "ue_ip_address ie"
  pdi_sdf_filter :: "string ie"
  pdi_qfi :: "u8 ie"
  pdi_traffic_endpoint_id :: "payload ie"
  pdi_ethernet_pdu_session_information :: "payload ie"
  pdi_ethernet_packet_filter :: "payload ie"
  pdi_framed_route :: "string list ie"

record create_pdr_ie =
  cpdr_pdr_id :: "u16 ie"
  cpdr_precedence :: "u32 ie"
  cpdr_pdi :: "pdi ie"
  cpdr_outer_header_removal :: "ohr_description ie"
  cpdr_far_id :: "u32 ie"
  cpdr_urr_id :: "u32 ie"
  cpdr_qer_id :: "u32 ie"
  cpdr_activate_predefined_rules :: "payload ie"

record update_pdr_ie =
  updr_pdr_id :: "u16 ie"
  updr_outer_header_removal :: "ohr_description ie"
  updr_precedence :: "u32 ie"
  updr_pdi :: "pdi ie"
  updr_far_id :: "u32 ie"
  updr_urr_id :: "u32 ie"
  updr_qer_id :: "u32 ie"

text \<open>\<open>qos\<close> is a shared pointer: a PDR copied by an update shares the meter of its predecessor.\<close>

record pfcp_pdr =
  pdr_local_seid :: u64
  pdr_id :: u16
  pdr_precedence :: "u32 ie"
  pdr_pdi :: "pdi ie"
  pdr_outer_header_removal :: "ohr_description ie"
  pdr_far_id :: "u32 ie"
  pdr_urr_id :: "u32 ie"
  pdr_qer_id :: "u32 ie"
  pdr_mar_id :: "u8 ie"
  pdr_activate_predefined_rules :: "payload ie"
  pdr_qos :: "nat option"
  pdr_tx_qfi :: int
  pdr_sdf :: sdf_rule
  pdr_notified_cp :: bool

definition pdi_ue_ipv4 :: "pfcp_pdr \<Rightarrow> u32" where
  "pdi_ue_ipv4 p =
     (if present (pdr_pdi p) \<and> present (pdi_ue_ip_address (ie_val (pdr_pdi p))) \<and>
         ue_v4 (ie_val (pdi_ue_ip_address (ie_val (pdr_pdi p))))
      then ue_ipv4_address (ie_val (pdi_ue_ip_address (ie_val (pdr_pdi p)))) else 0)"

definition compile_sdf :: "upf_env \<Rightarrow> pfcp_pdr \<Rightarrow> pfcp_pdr" where
  "compile_sdf env p =
     p\<lparr>pdr_sdf := (if present (pdr_pdi p) \<and> present (pdi_sdf_filter (ie_val (pdr_pdi p)))
                    then sdf_compile (pton env) (ie_val (pdi_sdf_filter (ie_val (pdr_pdi p))))
                    else sdf_rule_default)\<rparr>"

definition pdr_of_create :: "upf_env \<Rightarrow> create_pdr_ie \<Rightarrow> pfcp_pdr" where
  "pdr_of_create env c =
     compile_sdf env
       \<lparr>pdr_local_seid = 0, pdr_id = ie_val (cpdr_pdr_id c), pdr_precedence = cpdr_precedence c,
        pdr_pdi = cpdr_pdi c, pdr_outer_header_removal = cpdr_outer_header_removal c,
        pdr_far_id = cpdr_far_id c, pdr_urr_id = cpdr_urr_id c, pdr_qer_id = cpdr_qer_id c,
        pdr_mar_id = (False, 0), pdr_activate_predefined_rules = cpdr_activate_predefined_rules c,
        pdr_qos = None, pdr_tx_qfi = -1, pdr_sdf = sdf_rule_default, pdr_notified_cp = False\<rparr>"

definition pdr_set_seid :: "u64 \<Rightarrow> pfcp_pdr \<Rightarrow> pfcp_pdr" where
  "pdr_set_seid v p = p\<lparr>pdr_local_seid := v\<rparr>"

definition pdr_set_pdi :: "upf_env \<Rightarrow> pdi \<Rightarrow> pfcp_pdr \<Rightarrow> pfcp_pdr" where
  "pdr_set_pdi env v p = compile_sdf env (p\<lparr>pdr_pdi := (True, v)\<rparr>)"

text \<open>\<open>if (u.get(x.second)) x.first = true;\<close>\<close>

definition merge_ie :: "'a ie \<Rightarrow> 'a ie \<Rightarrow> 'a ie" where
  "merge_ie new old = (if present new then (True, ie_val new) else old)"

definition pdr_update :: "upf_env \<Rightarrow> update_pdr_ie \<Rightarrow> pfcp_pdr \<Rightarrow> pfcp_pdr \<times> pfcp_cause" where
  "pdr_update env u p =
     (let p1 = p\<lparr>pdr_outer_header_removal := merge_ie (updr_outer_header_removal u) (pdr_outer_header_removal p),
                 pdr_precedence := merge_ie (updr_precedence u) (pdr_precedence p)\<rparr>;
          p2 = (if present (updr_pdi u) then pdr_set_pdi env (ie_val (updr_pdi u)) p1 else p1);
          p3 = p2\<lparr>pdr_far_id := merge_ie (updr_far_id u) (pdr_far_id p2),
                  pdr_urr_id := merge_ie (updr_urr_id u) (pdr_urr_id p2),
                  pdr_qer_id := merge_ie (updr_qer_id u) (pdr_qer_id p2)\<rparr>
      in (p3, CAUSE_VALUE_REQUEST_ACCEPTED))"

definition pdr_less :: "pfcp_pdr \<Rightarrow> pfcp_pdr \<Rightarrow> bool" where
  "pdr_less p q \<longleftrightarrow> ie_val (pdr_precedence p) < ie_val (pdr_precedence q)"

text \<open>The address words of an \<open>iphdr\<close>, as loaded on the host.\<close>

abbreviation iph_saddr :: "byte list \<Rightarrow> u32" where "iph_saddr iph \<equiv> load32 iph 12"
abbreviation iph_daddr :: "byte list \<Rightarrow> u32" where "iph_daddr iph \<equiv> load32 iph 16"

definition look_up_pack_in_access :: "pfcp_pdr \<Rightarrow> byte list \<Rightarrow> nat \<Rightarrow> u32 \<Rightarrow> bool" where
  "look_up_pack_in_access p iph num_bytes tunnel_id =
     (if present (pdr_outer_header_removal p)
      then if ie_val (pdr_outer_header_removal p) \<noteq> OUTER_HEADER_REMOVAL_GTPU_UDP_IPV4 then False
           else if present (pdr_pdi p)
           then let d = ie_val (pdr_pdi p)
                in if present (pdi_source_interface d) \<and> ie_val (pdi_source_interface d) \<noteq> INTERFACE_VALUE_ACCESS
                   then False
                   else if present (pdi_local_fteid d) \<and> ft_teid (ie_val (pdi_local_fteid d)) \<noteq> tunnel_id
                   then False
                   else if present (pdi_ue_ip_address d) \<and> \<not> ue_v4 (ie_val (pdi_ue_ip_address d))
                   then False
                   else if present (pdi_ue_ip_address d) \<and>
                           ue_ipv4_address (ie_val (pdi_ue_ip_address d)) \<noteq> iph_saddr iph
                   then False
                   else sdf_match (pdr_sdf p) iph num_bytes True (pdi_ue_ipv4 p)
           else False
      else False)"

definition look_up_pack_in_core :: "upf_env \<Rightarrow> pfcp_pdr \<Rightarrow> byte list \<Rightarrow> nat \<Rightarrow> bool" where
  "look_up_pack_in_core env p iph num_bytes =
     (if present (pdr_outer_header_removal p) then False
      else let ue = pdi_ue_ip_address (ie_val (pdr_pdi p))
           in if present ue \<and> \<not> ue_v4 (ie_val ue) then False
              else if present ue \<and> \<not> enable_fr env \<and> ue_ipv4_address (ie_val ue) \<noteq> iph_daddr iph then False
              else sdf_match (pdr_sdf p) iph num_bytes False (pdi_ue_ipv4 p))"

text \<open>The Downlink Data Report, at most once per rule. The result is the PDR id to report.\<close>

definition notify_cp_requested :: "pfcp_pdr \<Rightarrow> pfcp_pdr \<times> u16 option" where
  "notify_cp_requested p =
     (if \<not> pdr_notified_cp p then (p\<lparr>pdr_notified_cp := True\<rparr>, Some (pdr_id p)) else (p, None))"

section \<open>Forwarding Action Rules\<close>

record apply_action =
  aa_drop :: bool
  aa_forw :: bool
  aa_buff :: bool
  aa_nocp :: bool
  aa_dupl :: bool

record outer_header_creation =
  ohc_description :: ohc_description
  ohc_teid :: u32
  ohc_ipv4_address :: u32
  ohc_ipv6_address :: payload
  ohc_port_number :: u16

record forwarding_parameters =
  fp_destination_interface :: "interface_value ie"
  fp_outer_header_creation :: "outer_header_creation ie"
  fp_network_instance :: "payload ie"
  fp_transport_level_marking :: "byte list ie"

record create_far_ie =
  cfar_far_id :: "u32 ie"
  cfar_apply_action :: "apply_action ie"
  cfar_forwarding_parameters :: "forwarding_parameters ie"
  cfar_duplicating_parameters :: "payload ie"
  cfar_bar_id :: "u8 ie"

text \<open>The library's Update Forwarding Parameters carries the same elements as the parameters.\<close>

record update_far_ie =
  ufar_far_id :: u32
  ufar_apply_action :: "apply_action ie"
  ufar_update_forwarding_parameters :: "forwarding_parameters ie"
  ufar_update_duplicating_parameters :: "payload ie"
  ufar_bar_id :: "u8 ie"

record pfcp_far =
  far_id :: u32
  far_apply_action :: apply_action
  far_forwarding_parameters :: "forwarding_parameters ie"
  far_duplicating_parameters :: "payload ie"
  far_bar_id :: "u8 ie"

definition far_of_create :: "create_far_ie \<Rightarrow> pfcp_far" where
  "far_of_create c =
     \<lparr>far_id = ie_val (cfar_far_id c), far_apply_action = ie_val (cfar_apply_action c),
      far_forwarding_parameters = cfar_forwarding_parameters c,
      far_duplicating_parameters = cfar_duplicating_parameters c, far_bar_id = cfar_bar_id c\<rparr>"

text \<open>\<open>pfcp_far::update\<close>; the two library \<open>update\<close> methods of the parameter groups are arguments.\<close>

definition far_update ::
    "(forwarding_parameters \<Rightarrow> forwarding_parameters \<Rightarrow> forwarding_parameters) \<Rightarrow>
     (payload \<Rightarrow> payload \<Rightarrow> payload) \<Rightarrow> update_far_ie \<Rightarrow> pfcp_far \<Rightarrow> pfcp_far \<times> pfcp_cause" where
  "far_update fp_update dp_update u f =
     (let f1 = f\<lparr>far_apply_action := ie_val (ufar_apply_action u)\<rparr>;
          f2 = (if present (ufar_update_forwarding_parameters u)
                then f1\<lparr>far_forwarding_parameters :=
                       (True, fp_update (ie_val (ufar_update_forwarding_parameters u))
                                (ie_val (far_forwarding_parameters f1)))\<rparr>
                else f1);
          f3 = (if present (ufar_update_duplicating_parameters u)
                then f2\<lparr>far_duplicating_parameters :=
                       (True, dp_update (ie_val (ufar_update_duplicating_parameters u))
                                (ie_val (far_duplicating_parameters f2)))\<rparr>
                else f2);
          f4 = f3\<lparr>far_bar_id := merge_ie (ufar_bar_id u) (far_bar_id f3)\<rparr>
      in (f4, CAUSE_VALUE_REQUEST_ACCEPTED))"

text \<open>
  What a FAR does with a packet: encapsulate and send on N3, hand to the core side, or nothing;
  and the two flags it raises for its caller. An IPv6 tunnel is sent with the defaults of
  \<open>send_g_pdu\<close>.
\<close>

datatype far_verdict =
    SendGPduV4 u32 u16 u32 u8 u8   \<comment> \<open>address, port, TEID, QFI, type of service\<close>
  | SendGPduV6 payload u16 u32     \<comment> \<open>address, port, TEID\<close>
  | ToCore
  | NoForward

text \<open>The switch over the Outer Header Creation description.\<close>

definition encapsulate :: "upf_env \<Rightarrow> forwarding_parameters \<Rightarrow> u8 \<Rightarrow> far_verdict" where
  "encapsulate env rule qfi =
     (let o' = ie_val (fp_outer_header_creation rule);
          tlm = fp_transport_level_marking rule
      in (case ohc_description o' of
            OUTER_HEADER_CREATION_GTPU_UDP_IPV4 \<Rightarrow>
              SendGPduV4 (ohc_ipv4_address o') (n3_port env) (ohc_teid o') qfi
                (if present tlm \<and> ie_val tlm \<noteq> [] then hd (ie_val tlm) else 0)
          | OUTER_HEADER_CREATION_GTPU_UDP_IPV6 \<Rightarrow>
              SendGPduV6 (ohc_ipv6_address o') (n3_port env) (ohc_teid o')
          | _ \<Rightarrow> NoForward))"

definition forward :: "upf_env \<Rightarrow> pfcp_far \<Rightarrow> u8 \<Rightarrow> far_verdict" where
  "forward env f qfi =
     (let rule = ie_val (far_forwarding_parameters f);
          dst = fp_destination_interface rule
      in if \<not> present (far_forwarding_parameters f) then NoForward
         else if \<not> present dst then NoForward
         else if ie_val dst = INTERFACE_VALUE_ACCESS
         then (if present (fp_outer_header_creation rule) then encapsulate env rule qfi else NoForward)
         else if ie_val dst = INTERFACE_VALUE_CORE \<or> ie_val dst = INTERFACE_VALUE_CP_FUNCTION
         then (if \<not> enable_bpf_datapath env then ToCore else NoForward)
         else NoForward)"

text \<open>The result also says whether \<open>nocp\<close> and \<open>buff\<close> are raised.\<close>

definition apply_forwarding_rules :: "upf_env \<Rightarrow> pfcp_far \<Rightarrow> u8 \<Rightarrow> far_verdict \<times> bool \<times> bool" where
  "apply_forwarding_rules env f qfi =
     (let a = far_apply_action f
      in (if aa_forw a then forward env f qfi else NoForward,
          aa_nocp a,
          \<not> aa_forw a \<and> \<not> aa_drop a \<and> aa_buff a))"

section \<open>QoS Enforcement Rules\<close>

text \<open>Gate status and the two bit rates hold an uplink and a downlink value. A Create QER and an Update
  QER carry the elements of the rule; one record serves the three.\<close>

record pfcp_qer =
  qer_id :: "u32 ie"
  qer_gate_status :: "(u8 \<times> u8) ie"
  qer_correlation_id :: "u32 ie"
  qer_maximum_bitrate :: "(u64 \<times> u64) ie"
  qer_guaranteed_bitrate :: "(u64 \<times> u64) ie"
  qer_qos_flow_id :: "u8 ie"
  qer_reflective_qos :: "bool ie"
  qer_paging_policy_indicator :: "u8 ie"
  qer_averaging_window :: "u32 ie"

definition qer_of_create :: "pfcp_qer \<Rightarrow> pfcp_qer" where
  "qer_of_create c =
     \<lparr>qer_id = qer_id c, qer_gate_status = qer_gate_status c, qer_correlation_id = qer_correlation_id c,
      qer_maximum_bitrate = qer_maximum_bitrate c, qer_guaranteed_bitrate = qer_guaranteed_bitrate c,
      qer_qos_flow_id = qer_qos_flow_id c, qer_reflective_qos = qer_reflective_qos c,
      qer_paging_policy_indicator = qer_paging_policy_indicator c, qer_averaging_window = qer_averaging_window c\<rparr>"

definition qer_update :: "pfcp_qer \<Rightarrow> pfcp_qer \<Rightarrow> pfcp_qer \<times> pfcp_cause" where
  "qer_update u q =
     (\<lparr>qer_id = merge_ie (qer_id u) (qer_id q),
       qer_gate_status = merge_ie (qer_gate_status u) (qer_gate_status q),
       qer_correlation_id = merge_ie (qer_correlation_id u) (qer_correlation_id q),
       qer_maximum_bitrate = merge_ie (qer_maximum_bitrate u) (qer_maximum_bitrate q),
       qer_guaranteed_bitrate = merge_ie (qer_guaranteed_bitrate u) (qer_guaranteed_bitrate q),
       qer_qos_flow_id = merge_ie (qer_qos_flow_id u) (qer_qos_flow_id q),
       qer_reflective_qos = merge_ie (qer_reflective_qos u) (qer_reflective_qos q),
       qer_paging_policy_indicator = merge_ie (qer_paging_policy_indicator u) (qer_paging_policy_indicator q),
       qer_averaging_window = merge_ie (qer_averaging_window u) (qer_averaging_window q)\<rparr>,
      CAUSE_VALUE_REQUEST_ACCEPTED)"

section \<open>Usage Reporting Rules\<close>

text \<open>A Create URR and an Update URR carry the elements of the rule; one record serves the three.\<close>

record pfcp_urr =
  urr_id :: "u32 ie"
  urr_measurement_method :: "payload ie"
  urr_reporting_triggers :: "payload ie"
  urr_measurement_period :: "payload ie"
  urr_volume_threshold :: "payload ie"
  urr_volume_quota :: "payload ie"
  urr_time_threshold :: "payload ie"
  urr_time_quota :: "payload ie"
  urr_quota_holding_time :: "payload ie"
  urr_dropped_dl_traffic_threshold :: "payload ie"
  urr_monitoring_time :: "payload ie"
  urr_subsequent_volume_threshold :: "payload ie"
  urr_subsequent_time_threshold :: "payload ie"
  urr_subsequent_volume_quota :: "payload ie"
  urr_subsequent_time_quota :: "payload ie"
  urr_inactivity_detection_time :: "payload ie"
  urr_linked_urr_id :: "payload ie"
  urr_measurement_information :: "payload ie"
  urr_time_quota_mechanism :: "payload ie"
  urr_aggregated_urrs :: "payload ie"
  urr_far_id_for_quota_action :: "payload ie"
  urr_ethernet_inactivity_timer :: "payload ie"
  urr_additional_monitoring_time :: "payload ie"
  urr_event_information :: "payload ie"

definition urr_of_create :: "pfcp_urr \<Rightarrow> pfcp_urr" where
  "urr_of_create c =
     \<lparr>urr_id = urr_id c,
      urr_measurement_method = urr_measurement_method c,
      urr_reporting_triggers = urr_reporting_triggers c,
      urr_measurement_period = urr_measurement_period c,
      urr_volume_threshold = urr_volume_threshold c,
      urr_volume_quota = urr_volume_quota c,
      urr_time_threshold = urr_time_threshold c,
      urr_time_quota = urr_time_quota c,
      urr_quota_holding_time = urr_quota_holding_time c,
      urr_dropped_dl_traffic_threshold = urr_dropped_dl_traffic_threshold c,
      urr_monitoring_time = urr_monitoring_time c,
      urr_subsequent_volume_threshold = urr_subsequent_volume_threshold c,
      urr_subsequent_time_threshold = urr_subsequent_time_threshold c,
      urr_subsequent_volume_quota = urr_subsequent_volume_quota c,
      urr_subsequent_time_quota = urr_subsequent_time_quota c,
      urr_inactivity_detection_time = urr_inactivity_detection_time c,
      urr_linked_urr_id = urr_linked_urr_id c,
      urr_measurement_information = urr_measurement_information c,
      urr_time_quota_mechanism = urr_time_quota_mechanism c,
      urr_aggregated_urrs = urr_aggregated_urrs c,
      urr_far_id_for_quota_action = urr_far_id_for_quota_action c,
      urr_ethernet_inactivity_timer = urr_ethernet_inactivity_timer c,
      urr_additional_monitoring_time = urr_additional_monitoring_time c,
      urr_event_information = urr_event_information c\<rparr>"

definition urr_update :: "pfcp_urr \<Rightarrow> pfcp_urr \<Rightarrow> pfcp_urr" where
  "urr_update u r =
     \<lparr>urr_id = urr_id r,
      urr_measurement_method = merge_ie (urr_measurement_method u) (urr_measurement_method r),
      urr_reporting_triggers = merge_ie (urr_reporting_triggers u) (urr_reporting_triggers r),
      urr_measurement_period = merge_ie (urr_measurement_period u) (urr_measurement_period r),
      urr_volume_threshold = merge_ie (urr_volume_threshold u) (urr_volume_threshold r),
      urr_volume_quota = merge_ie (urr_volume_quota u) (urr_volume_quota r),
      urr_time_threshold = merge_ie (urr_time_threshold u) (urr_time_threshold r),
      urr_time_quota = merge_ie (urr_time_quota u) (urr_time_quota r),
      urr_quota_holding_time = merge_ie (urr_quota_holding_time u) (urr_quota_holding_time r),
      urr_dropped_dl_traffic_threshold = merge_ie (urr_dropped_dl_traffic_threshold u) (urr_dropped_dl_traffic_threshold r),
      urr_monitoring_time = merge_ie (urr_monitoring_time u) (urr_monitoring_time r),
      urr_subsequent_volume_threshold = merge_ie (urr_subsequent_volume_threshold u) (urr_subsequent_volume_threshold r),
      urr_subsequent_time_threshold = merge_ie (urr_subsequent_time_threshold u) (urr_subsequent_time_threshold r),
      urr_subsequent_volume_quota = merge_ie (urr_subsequent_volume_quota u) (urr_subsequent_volume_quota r),
      urr_subsequent_time_quota = merge_ie (urr_subsequent_time_quota u) (urr_subsequent_time_quota r),
      urr_inactivity_detection_time = merge_ie (urr_inactivity_detection_time u) (urr_inactivity_detection_time r),
      urr_linked_urr_id = merge_ie (urr_linked_urr_id u) (urr_linked_urr_id r),
      urr_measurement_information = merge_ie (urr_measurement_information u) (urr_measurement_information r),
      urr_time_quota_mechanism = merge_ie (urr_time_quota_mechanism u) (urr_time_quota_mechanism r),
      urr_aggregated_urrs = merge_ie (urr_aggregated_urrs u) (urr_aggregated_urrs r),
      urr_far_id_for_quota_action = merge_ie (urr_far_id_for_quota_action u) (urr_far_id_for_quota_action r),
      urr_ethernet_inactivity_timer = merge_ie (urr_ethernet_inactivity_timer u) (urr_ethernet_inactivity_timer r),
      urr_additional_monitoring_time = merge_ie (urr_additional_monitoring_time u) (urr_additional_monitoring_time r),
      urr_event_information = merge_ie (urr_event_information u) (urr_event_information r)\<rparr>"

section \<open>Buffering Action Rules\<close>

record create_bar_ie =
  cbar_bar_id :: "u8 ie"
  cbar_suggested_buffering_packets_count :: "u8 ie"
  cbar_downlink_data_notification_delay :: "u8 ie"

record update_bar_ie =
  ubar_bar_id :: "u8 ie"
  ubar_downlink_data_notification_delay :: "u8 ie"
  ubar_suggested_buffering_packets_count :: "u8 ie"

text \<open>The form of Update BAR in a Session Report Response has two more elements.\<close>

record update_bar_report_ie = update_bar_ie +
  ubar_dl_buffering_duration :: "u8 ie"
  ubar_dl_buffering_suggested_packet_count :: "u16 ie"

record pfcp_bar =
  bar_id :: "u8 ie"
  bar_downlink_data_notification_delay :: "u8 ie"
  bar_suggested_buffering_packets_count :: "u8 ie"
  bar_dl_buffering_duration :: "u8 ie"
  bar_dl_buffering_suggested_packet_count :: "u16 ie"
  bar_mt_edt_control_information :: "u8 ie"

definition bar_of_create :: "create_bar_ie \<Rightarrow> pfcp_bar" where
  "bar_of_create c =
     \<lparr>bar_id = cbar_bar_id c,
      bar_downlink_data_notification_delay = merge_ie (cbar_downlink_data_notification_delay c) (False, 0),
      bar_suggested_buffering_packets_count = merge_ie (cbar_suggested_buffering_packets_count c) (False, 0),
      bar_dl_buffering_duration = (False, 0), bar_dl_buffering_suggested_packet_count = (False, 0),
      bar_mt_edt_control_information = (False, 0)\<rparr>"

definition bar_update :: "update_bar_ie \<Rightarrow> pfcp_bar \<Rightarrow> pfcp_bar \<times> pfcp_cause" where
  "bar_update u b =
     (b\<lparr>bar_downlink_data_notification_delay :=
          merge_ie (ubar_downlink_data_notification_delay u) (bar_downlink_data_notification_delay b),
        bar_suggested_buffering_packets_count :=
          merge_ie (ubar_suggested_buffering_packets_count u) (bar_suggested_buffering_packets_count b)\<rparr>,
      CAUSE_VALUE_REQUEST_ACCEPTED)"

definition bar_update_report :: "update_bar_report_ie \<Rightarrow> pfcp_bar \<Rightarrow> pfcp_bar \<times> pfcp_cause" where
  "bar_update_report u b =
     (b\<lparr>bar_downlink_data_notification_delay :=
          merge_ie (ubar_downlink_data_notification_delay u) (bar_downlink_data_notification_delay b),
        bar_dl_buffering_duration :=
          merge_ie (ubar_dl_buffering_duration u) (bar_dl_buffering_duration b),
        bar_dl_buffering_suggested_packet_count :=
          merge_ie (ubar_dl_buffering_suggested_packet_count u) (bar_dl_buffering_suggested_packet_count b),
        bar_suggested_buffering_packets_count :=
          merge_ie (ubar_suggested_buffering_packets_count u) (bar_suggested_buffering_packets_count b)\<rparr>,
      CAUSE_VALUE_REQUEST_ACCEPTED)"

section \<open>Multi-Access Rules\<close>

text \<open>\<open>afai\<close> is the library's Access Forwarding Action Information,
  \<open>mar_access_forwarding_action\<close> the form it is kept in.\<close>

record afai =
  afai_far_id :: "u32 ie"
  afai_urr_id :: "u32 ie"
  afai_weight :: "u8 ie"
  afai_priority :: "u8 ie"

record mar_access_forwarding_action =
  maf_far_id :: u32
  maf_weight :: u8
  maf_priority :: u8
  maf_urr_id :: u32
  maf_rat_type :: u8
  maf_weight_present :: bool
  maf_priority_present :: bool
  maf_urr_id_present :: bool
  maf_rat_type_present :: bool

definition maf_zero :: mar_access_forwarding_action where
  "maf_zero = \<lparr>maf_far_id = 0, maf_weight = 0, maf_priority = 0, maf_urr_id = 0, maf_rat_type = 0,
     maf_weight_present = False, maf_priority_present = False, maf_urr_id_present = False,
     maf_rat_type_present = False\<rparr>"

definition convert_afai :: "afai \<Rightarrow> mar_access_forwarding_action" where
  "convert_afai a =
     (let d0 = maf_zero;
          d1 = (if present (afai_far_id a) then d0\<lparr>maf_far_id := ie_val (afai_far_id a)\<rparr> else d0);
          d2 = (if present (afai_urr_id a)
                then d1\<lparr>maf_urr_id := ie_val (afai_urr_id a), maf_urr_id_present := True\<rparr> else d1);
          d3 = (if present (afai_weight a)
                then d2\<lparr>maf_weight := ie_val (afai_weight a), maf_weight_present := True\<rparr> else d2)
      in (if present (afai_priority a)
          then d3\<lparr>maf_priority := ie_val (afai_priority a), maf_priority_present := True\<rparr> else d3))"

text \<open>A Create MAR and an Update MAR carry the same elements.\<close>

record mar_ies =
  cmar_mar_id :: "u8 ie"
  cmar_steering_functionality :: "u8 ie"
  cmar_steering_mode :: "u8 ie"
  cmar_afai_1 :: "afai ie"
  cmar_afai_2 :: "afai ie"

record pfcp_mar =
  mar_id :: "u8 ie"
  mar_steering_functionality :: "u8 ie"
  mar_steering_mode :: "u8 ie"
  mar_afai_1 :: "mar_access_forwarding_action ie"
  mar_afai_2 :: "mar_access_forwarding_action ie"
  mar_thresholds :: "payload ie"
  mar_steering_mode_indicator :: "payload ie"

definition mar_of_create :: "mar_ies \<Rightarrow> pfcp_mar" where
  "mar_of_create c =
     \<lparr>mar_id = cmar_mar_id c,
      mar_steering_functionality =
        (if present (cmar_steering_functionality c) then cmar_steering_functionality c else (False, 0)),
      mar_steering_mode = (if present (cmar_steering_mode c) then cmar_steering_mode c else (False, 0)),
      mar_afai_1 =
        (if present (cmar_afai_1 c) then (True, convert_afai (ie_val (cmar_afai_1 c))) else (False, maf_zero)),
      mar_afai_2 =
        (if present (cmar_afai_2 c) then (True, convert_afai (ie_val (cmar_afai_2 c))) else (False, maf_zero)),
      mar_thresholds = (False, []), mar_steering_mode_indicator = (False, [])\<rparr>"

text \<open>The body of the update loop for the rule found.\<close>

definition mar_update :: "mar_ies \<Rightarrow> pfcp_mar \<Rightarrow> pfcp_mar" where
  "mar_update u r =
     r\<lparr>mar_steering_functionality :=
         (if present (cmar_steering_functionality u) then cmar_steering_functionality u
          else mar_steering_functionality r),
       mar_steering_mode :=
         (if present (cmar_steering_mode u) then cmar_steering_mode u else mar_steering_mode r),
       mar_afai_1 :=
         (if present (cmar_afai_1 u) then (True, convert_afai (ie_val (cmar_afai_1 u))) else mar_afai_1 r),
       mar_afai_2 :=
         (if present (cmar_afai_2 u) then (True, convert_afai (ie_val (cmar_afai_2 u))) else mar_afai_2 r)\<rparr>"

end
