(* ===== verification/PfcpTables.thy ===== *)
theory PfcpTables
  imports PfcpRules UpfMap
begin

text \<open>
  The state of the switch (\<open>simpleswitch/pfcp_switch\<close>) and of a session
  (\<open>simpleswitch/pfcp_session.hpp\<close>), and the lookup tables: adding, removing and replacing a PDR in
  the TEID and UE-address tables, and registering sessions.

  PDRs, FARs, meters and sessions are shared by pointer in the source (a table and a session hold the
  same PDR; the published FAR view and the session hold the same FAR), so they live in heaps and are
  named by references. The PDR vectors of the tables are never written once published, so they are
  values. Tables are the open-addressing maps of \<open>UpfMap\<close>.
\<close>

section \<open>State\<close>

record fseid =
  fs_seid :: u64
  fs_addr :: payload

datatype pdn_type_value = PDN_UNDEFINED | PDN_IPV4 | PDN_IPV6 | PDN_IPV4V6 | PDN_ETHERNET

record counter_shard =
  ul_octets :: u64
  dl_octets :: u64
  ul_packets :: u64
  dl_packets :: u64

record pfcp_session =
  s_cp_fseid :: fseid
  s_seid :: u64
  s_pdn_type :: pdn_type_value
  s_qfi :: u8
  s_counters :: "counter_shard list"
  s_reported :: counter_shard
  s_ur_seqn :: u32
  s_measurement_start :: u64
  s_pdrs :: "nat list"
  s_fars :: "nat list"
  s_qers :: "pfcp_qer list"
  s_urrs :: "pfcp_urr list"
  s_bars :: "pfcp_bar list"
  s_mars :: "pfcp_mar list"
  s_fars_view :: "nat list option"
  s_teid_uplink :: fteid
  s_chosen_fteids :: "u8 \<rightharpoonup> fteid"
  s_qos_session_ul :: "nat option"
  s_qos_session_dl :: "nat option"

definition COUNTER_SHARDS :: nat where "COUNTER_SHARDS = 16"

definition shard_zero :: counter_shard where
  "shard_zero = \<lparr>ul_octets = 0, dl_octets = 0, ul_packets = 0, dl_packets = 0\<rparr>"

text \<open>\<open>pfcp_session(fseid, seid)\<close> at time \<open>now\<close> (nanoseconds of the steady clock).\<close>

definition session_new :: "fseid \<Rightarrow> u64 \<Rightarrow> u64 \<Rightarrow> pfcp_session" where
  "session_new cp up_seid now =
     \<lparr>s_cp_fseid = cp, s_seid = up_seid, s_pdn_type = PDN_UNDEFINED, s_qfi = 5,
      s_counters = replicate COUNTER_SHARDS shard_zero, s_reported = shard_zero, s_ur_seqn = 0,
      s_measurement_start = now, s_pdrs = [], s_fars = [], s_qers = [], s_urrs = [], s_bars = [],
      s_mars = [], s_fars_view = None, s_teid_uplink = fteid_zero, s_chosen_fteids = Map.empty,
      s_qos_session_ul = None, s_qos_session_dl = None\<rparr>"

text \<open>The framed-route engine, the association list and the N4 sender are other components: what the
  switch tells them is recorded in order.\<close>

datatype fr_call = AddFramedRoute u32 string | RemoveEntry u32

datatype assoc_call = NotifyAddSession payload fseid | NotifyDelSession fseid

record usage_report =
  ur_urr_id :: u32
  ur_seqn :: u32
  ur_periodic :: bool
  ur_total_volume :: u64
  ur_uplink_volume :: u64
  ur_downlink_volume :: u64
  ur_total_nop :: u64
  ur_uplink_nop :: u64
  ur_downlink_nop :: u64
  ur_duration :: u64

datatype n4_msg = UsageReport usage_report | DownlinkDataReport u16

record upf_switch =
  pdr_heap :: "nat \<rightharpoonup> pfcp_pdr"
  far_heap :: "nat \<rightharpoonup> pfcp_far"
  mbr_heap :: "nat \<rightharpoonup> qos_mbr"
  buckets :: bucket_heap
  sess_heap :: "nat \<rightharpoonup> pfcp_session"
  next_ref :: nat
  seids_given :: nat
  teids_given :: nat
  cp_fseid2pfcp_sessions :: "fseid \<rightharpoonup> nat"
  up_seid2pfcp_sessions :: "(u64, nat) upf_map"
  ul_n3_teid2pfcp_pdr :: "(u32, nat list) upf_map"
  ue_ipv4_hbo2pfcp_pdr :: "(u32, nat list) upf_map"
  fr_calls :: "fr_call list"
  assoc_calls :: "assoc_call list"
  n4_out :: "(fseid \<times> n4_msg) list"

definition PFCP_SWITCH_MAX_SESSIONS :: nat where "PFCP_SWITCH_MAX_SESSIONS = 1024"
definition PFCP_SWITCH_MAX_PDRS :: nat where "PFCP_SWITCH_MAX_PDRS = 1024"

definition switch_new :: upf_switch where
  "switch_new =
     \<lparr>pdr_heap = Map.empty, far_heap = Map.empty, mbr_heap = Map.empty, buckets = Map.empty,
      sess_heap = Map.empty, next_ref = 0, seids_given = 0, teids_given = 0,
      cp_fseid2pfcp_sessions = Map.empty,
      up_seid2pfcp_sessions = um_new PFCP_SWITCH_MAX_SESSIONS,
      ul_n3_teid2pfcp_pdr = um_new PFCP_SWITCH_MAX_PDRS,
      ue_ipv4_hbo2pfcp_pdr = um_new PFCP_SWITCH_MAX_PDRS,
      fr_calls = [], assoc_calls = [], n4_out = []\<rparr>"

text \<open>References are never null and never dangle, so they are followed with \<open>the\<close>.\<close>

abbreviation pdr_at :: "upf_switch \<Rightarrow> nat \<Rightarrow> pfcp_pdr" where "pdr_at sw r \<equiv> the (pdr_heap sw r)"
abbreviation far_at :: "upf_switch \<Rightarrow> nat \<Rightarrow> pfcp_far" where "far_at sw r \<equiv> the (far_heap sw r)"

text \<open>\<open>std::make_shared\<close>.\<close>

definition new_pdr :: "pfcp_pdr \<Rightarrow> upf_switch \<Rightarrow> nat \<times> upf_switch" where
  "new_pdr p sw = (next_ref sw, sw\<lparr>pdr_heap := (pdr_heap sw)(next_ref sw \<mapsto> p), next_ref := Suc (next_ref sw)\<rparr>)"

definition new_far :: "pfcp_far \<Rightarrow> upf_switch \<Rightarrow> nat \<times> upf_switch" where
  "new_far f sw = (next_ref sw, sw\<lparr>far_heap := (far_heap sw)(next_ref sw \<mapsto> f), next_ref := Suc (next_ref sw)\<rparr>)"

section \<open>Generators\<close>

text \<open>The library's \<open>uint_generator\<close> hands out one identifier per call; \<open>uids\<close> gives the n-th.\<close>

record uids =
  nth_seid :: "nat \<Rightarrow> u64"
  nth_teid :: "nat \<Rightarrow> u32"

definition generate_seid :: "uids \<Rightarrow> upf_switch \<Rightarrow> u64 \<times> upf_switch" where
  "generate_seid g sw = (nth_seid g (seids_given sw), sw\<lparr>seids_given := Suc (seids_given sw)\<rparr>)"

definition generate_teid_n3 :: "uids \<Rightarrow> upf_switch \<Rightarrow> u32 \<times> upf_switch" where
  "generate_teid_n3 g sw = (nth_teid g (teids_given sw), sw\<lparr>teids_given := Suc (teids_given sw)\<rparr>)"

definition generate_fteid_n3 :: "upf_env \<Rightarrow> uids \<Rightarrow> upf_switch \<Rightarrow> fteid \<times> upf_switch" where
  "generate_fteid_n3 env g sw =
     (case generate_teid_n3 g sw of (teid, sw') \<Rightarrow>
        (if n3_addr4 env \<noteq> 0
         then fteid_zero\<lparr>ft_teid := teid, ft_v4 := True, ft_ipv4_address := n3_addr4 env\<rparr>
         else fteid_zero\<lparr>ft_teid := teid, ft_v6 := True, ft_ipv6_address := n3_addr6 env\<rparr>,
         sw'))"

section \<open>Session tables\<close>

definition get_pfcp_session_by_cp_fseid :: "upf_switch \<Rightarrow> fseid \<Rightarrow> nat option" where
  "get_pfcp_session_by_cp_fseid sw f = cp_fseid2pfcp_sessions sw f"

definition get_pfcp_session_by_up_seid :: "upf_switch \<Rightarrow> u64 \<Rightarrow> nat option" where
  "get_pfcp_session_by_up_seid sw seid = um_find (up_seid2pfcp_sessions sw) seid"

definition get_pfcp_ul_pdrs_by_up_teid :: "upf_switch \<Rightarrow> u32 \<Rightarrow> nat list option" where
  "get_pfcp_ul_pdrs_by_up_teid sw teid = um_find (ul_n3_teid2pfcp_pdr sw) teid"

definition get_pfcp_dl_pdrs_by_ue_ip :: "upf_switch \<Rightarrow> u32 \<Rightarrow> nat list option" where
  "get_pfcp_dl_pdrs_by_ue_ip sw ue_ip = um_find (ue_ipv4_hbo2pfcp_pdr sw) ue_ip"

text \<open>\<open>unordered_map::insert\<close> does not replace an entry.\<close>

definition add_pfcp_session_by_cp_fseid :: "fseid \<Rightarrow> nat \<Rightarrow> upf_switch \<Rightarrow> upf_switch" where
  "add_pfcp_session_by_cp_fseid f r sw =
     (if cp_fseid2pfcp_sessions sw f = None
      then sw\<lparr>cp_fseid2pfcp_sessions := (cp_fseid2pfcp_sessions sw)(f \<mapsto> r)\<rparr> else sw)"

text \<open>\<open>insert_or_error\<close> only logs a full table.\<close>

definition insert_or_error :: "('k::len word, 'v) upf_map \<Rightarrow> 'k word \<Rightarrow> 'v \<Rightarrow> ('k word, 'v) upf_map" where
  "insert_or_error t key val = fst (um_insert t key val)"

definition add_pfcp_session_by_up_seid :: "u64 \<Rightarrow> nat \<Rightarrow> upf_switch \<Rightarrow> upf_switch" where
  "add_pfcp_session_by_up_seid seid r sw =
     sw\<lparr>up_seid2pfcp_sessions := insert_or_error (up_seid2pfcp_sessions sw) seid r\<rparr>"

section \<open>PDR tables\<close>

abbreviation entries :: "('k::len word, nat list) upf_map \<Rightarrow> 'k word \<Rightarrow> nat list" where
  "entries t k \<equiv> (case um_find t k of None \<Rightarrow> [] | Some v \<Rightarrow> v)"

text \<open>Two PDRs are versions of one rule when session and rule id agree.\<close>

definition same_rule :: "pfcp_pdr \<Rightarrow> pfcp_pdr \<Rightarrow> bool" where
  "same_rule e p \<longleftrightarrow> pdr_local_seid e = pdr_local_seid p \<and> pdr_id e = pdr_id p"

text \<open>The vector to publish: older versions dropped, the PDR inserted before the first rule that does
  not precede it.\<close>

definition pdr_vector_add :: "upf_switch \<Rightarrow> nat \<Rightarrow> nat list \<Rightarrow> nat list" where
  "pdr_vector_add sw r cur =
     insert_before (\<lambda>e. pdr_less (pdr_at sw e) (pdr_at sw r)) r
       (filter (\<lambda>e. \<not> same_rule (pdr_at sw e) (pdr_at sw r)) cur)"

definition add_pfcp_ul_pdr_by_up_teid :: "u32 \<Rightarrow> nat \<Rightarrow> upf_switch \<Rightarrow> upf_switch" where
  "add_pfcp_ul_pdr_by_up_teid teid r sw =
     (let fresh = pdr_vector_add sw r (entries (ul_n3_teid2pfcp_pdr sw) teid)
      in sw\<lparr>ul_n3_teid2pfcp_pdr := insert_or_error (ul_n3_teid2pfcp_pdr sw) teid fresh\<rparr>)"

definition add_pfcp_dl_pdr_by_ue_ip :: "upf_env \<Rightarrow> u32 \<Rightarrow> nat \<Rightarrow> upf_switch \<Rightarrow> upf_switch" where
  "add_pfcp_dl_pdr_by_ue_ip env ue_ip r sw =
     (let is_new = (um_find (ue_ipv4_hbo2pfcp_pdr sw) ue_ip = None);
          fresh = pdr_vector_add sw r (entries (ue_ipv4_hbo2pfcp_pdr sw) ue_ip);
          sw1 = sw\<lparr>ue_ipv4_hbo2pfcp_pdr := insert_or_error (ue_ipv4_hbo2pfcp_pdr sw) ue_ip fresh\<rparr>;
          routes = pdi_framed_route (ie_val (pdr_pdi (pdr_at sw r)))
      in if is_new \<and> \<not> enable_bpf_datapath env \<and> enable_fr env \<and> present routes
         then sw1\<lparr>fr_calls := fr_calls sw1 @ map (AddFramedRoute ue_ip) (ie_val routes)\<rparr>
         else sw1)"

definition remove_pfcp_ul_pdrs_by_up_teid :: "u32 \<Rightarrow> upf_switch \<Rightarrow> upf_switch" where
  "remove_pfcp_ul_pdrs_by_up_teid teid sw =
     sw\<lparr>ul_n3_teid2pfcp_pdr := fst (um_erase (ul_n3_teid2pfcp_pdr sw) teid)\<rparr>"

definition remove_pfcp_dl_pdrs_by_ue_ip :: "upf_env \<Rightarrow> u32 \<Rightarrow> upf_switch \<Rightarrow> upf_switch" where
  "remove_pfcp_dl_pdrs_by_ue_ip env ue_ip sw =
     (let sw1 = sw\<lparr>ue_ipv4_hbo2pfcp_pdr := fst (um_erase (ue_ipv4_hbo2pfcp_pdr sw) ue_ip)\<rparr>
      in if \<not> enable_bpf_datapath env \<and> enable_fr env
         then sw1\<lparr>fr_calls := fr_calls sw1 @ [RemoveEntry ue_ip]\<rparr> else sw1)"

text \<open>The key a PDR is filed under (\<open>key_of\<close>): its TEID, its UE address in host order, or none.\<close>

datatype pdr_key = UlKey u32 | DlKey u32

definition key_of :: "pfcp_pdr \<Rightarrow> pdr_key option" where
  "key_of p =
     (let d = ie_val (pdr_pdi p); si = pdi_source_interface d
      in if \<not> present (pdr_pdi p) \<or> \<not> present si then None
         else if ie_val si = INTERFACE_VALUE_ACCESS \<and> present (pdi_local_fteid d)
         then Some (UlKey (ft_teid (ie_val (pdi_local_fteid d))))
         else if ie_val si = INTERFACE_VALUE_CORE \<and> present (pdi_ue_ip_address d) \<and>
                 ue_v4 (ie_val (pdi_ue_ip_address d))
         then Some (DlKey (bswap32 (ue_ipv4_address (ie_val (pdi_ue_ip_address d)))))
         else None)"

definition remove_pdr_from_lookup :: "upf_env \<Rightarrow> nat \<Rightarrow> upf_switch \<Rightarrow> upf_switch" where
  "remove_pdr_from_lookup env r sw =
     (case key_of (pdr_at sw r) of
        None \<Rightarrow> sw
      | Some (UlKey teid) \<Rightarrow>
          (let fresh = filter (\<lambda>p. p \<noteq> r) (entries (ul_n3_teid2pfcp_pdr sw) teid)
           in if fresh = [] then remove_pfcp_ul_pdrs_by_up_teid teid sw
              else sw\<lparr>ul_n3_teid2pfcp_pdr := insert_or_error (ul_n3_teid2pfcp_pdr sw) teid fresh\<rparr>)
      | Some (DlKey ue_ip) \<Rightarrow>
          (let fresh = filter (\<lambda>p. p \<noteq> r) (entries (ue_ipv4_hbo2pfcp_pdr sw) ue_ip)
           in if fresh = [] then remove_pfcp_dl_pdrs_by_ue_ip env ue_ip sw
              else sw\<lparr>ue_ipv4_hbo2pfcp_pdr := insert_or_error (ue_ipv4_hbo2pfcp_pdr sw) ue_ip fresh\<rparr>))"

text \<open>Same key: one publish with the old rule swapped out.\<close>

definition swapped :: "nat \<Rightarrow> nat \<Rightarrow> nat list \<Rightarrow> nat list" where
  "swapped old new cur =
     (let fresh = map (\<lambda>p. if p = old then new else p) cur in if fresh = [] then [new] else fresh)"

definition add_under_key :: "upf_env \<Rightarrow> pdr_key \<Rightarrow> nat \<Rightarrow> upf_switch \<Rightarrow> upf_switch" where
  "add_under_key env k r sw =
     (case k of UlKey teid \<Rightarrow> add_pfcp_ul_pdr_by_up_teid teid r sw
              | DlKey ue_ip \<Rightarrow> add_pfcp_dl_pdr_by_ue_ip env ue_ip r sw)"

definition swap_under_key :: "pdr_key \<Rightarrow> nat \<Rightarrow> nat \<Rightarrow> upf_switch \<Rightarrow> upf_switch" where
  "swap_under_key k old new sw =
     (case k of
        UlKey teid \<Rightarrow>
          sw\<lparr>ul_n3_teid2pfcp_pdr := insert_or_error (ul_n3_teid2pfcp_pdr sw) teid
               (swapped old new (entries (ul_n3_teid2pfcp_pdr sw) teid))\<rparr>
      | DlKey ue_ip \<Rightarrow>
          sw\<lparr>ue_ipv4_hbo2pfcp_pdr := insert_or_error (ue_ipv4_hbo2pfcp_pdr sw) ue_ip
               (swapped old new (entries (ue_ipv4_hbo2pfcp_pdr sw) ue_ip))\<rparr>)"

definition replace_pdr_in_lookup :: "upf_env \<Rightarrow> nat \<Rightarrow> nat \<Rightarrow> upf_switch \<Rightarrow> upf_switch" where
  "replace_pdr_in_lookup env old new sw =
     (case key_of (pdr_at sw new) of
        None \<Rightarrow> (if key_of (pdr_at sw old) \<noteq> None then remove_pdr_from_lookup env old sw else sw)
      | Some k \<Rightarrow>
          if key_of (pdr_at sw old) = Some k then swap_under_key k old new sw
          else let sw1 = add_under_key env k new sw
               in if key_of (pdr_at sw old) \<noteq> None then remove_pdr_from_lookup env old sw1 else sw1)"

definition create_packet_in_access :: "nat \<Rightarrow> fteid \<Rightarrow> upf_switch \<Rightarrow> upf_switch \<times> pfcp_cause \<times> bool" where
  "create_packet_in_access r f sw =
     (add_pfcp_ul_pdr_by_up_teid (ft_teid f) r sw, CAUSE_VALUE_REQUEST_ACCEPTED, True)"

section \<open>The tables as one directory\<close>

text \<open>Both PDR tables seen as one map from keys to vectors, what makes it usable, and the condition
  under which a publish under a key is not refused.\<close>

definition at_key :: "upf_switch \<Rightarrow> pdr_key \<Rightarrow> nat list" where
  "at_key sw k = (case k of UlKey t \<Rightarrow> entries (ul_n3_teid2pfcp_pdr sw) t
                          | DlKey a \<Rightarrow> entries (ue_ipv4_hbo2pfcp_pdr sw) a)"

definition tables_ok :: "upf_switch \<Rightarrow> bool" where
  "tables_ok sw \<longleftrightarrow> um_inv (ul_n3_teid2pfcp_pdr sw) \<and> um_inv (ue_ipv4_hbo2pfcp_pdr sw) \<and>
     um_inv (up_seid2pfcp_sessions sw)"

definition um_room :: "('k::len word, 'v) upf_map \<Rightarrow> 'k word \<Rightarrow> bool" where
  "um_room t k \<longleftrightarrow> count t < length (slots t) \<or> um_find t k \<noteq> None"

definition key_room :: "upf_switch \<Rightarrow> pdr_key \<Rightarrow> bool" where
  "key_room sw k = (case k of UlKey t \<Rightarrow> um_room (ul_n3_teid2pfcp_pdr sw) t
                            | DlKey a \<Rightarrow> um_room (ue_ipv4_hbo2pfcp_pdr sw) a)"

named_theorems frame \<open>what a table operation leaves alone\<close>
named_theorems directory \<open>what a table operation does to the directory\<close>

lemma um_room_insert: "um_inv t \<Longrightarrow> um_room t k \<Longrightarrow> snd (um_insert t k v)"
  by (cases "um_insert t k v"; cases "snd (um_insert t k v)")
     (auto simp: um_room_def dest: um_insert_full)

lemma find_insert_or_error:
  assumes "um_inv t" "um_room t k"
  shows "um_find (insert_or_error t k v) = (um_find t)(k \<mapsto> v)"
proof -
  have "um_insert t k v = (insert_or_error t k v, True)"
    using um_room_insert [OF assms, of v] by (simp add: insert_or_error_def prod_eq_iff)
  from um.ins_ok [OF assms(1) this] show ?thesis by simp
qed

lemma inv_insert_or_error [simp]: "um_inv t \<Longrightarrow> um_inv (insert_or_error t k v)"
  by (simp add: insert_or_error_def um.inv_ins)

lemma entries_insert:
  "um_inv t \<Longrightarrow> um_room t k \<Longrightarrow> entries (insert_or_error t k v) = (entries t)(k := v)"
  by (auto simp: find_insert_or_error fun_eq_iff)

lemma entries_erase: "um_inv t \<Longrightarrow> entries (fst (um_erase t k)) = (entries t)(k := [])"
  by (auto simp: um.lookup_era fun_eq_iff)

lemma entries_room: "entries t k \<noteq> [] \<Longrightarrow> um_room t k"
  by (auto simp: um_room_def split: option.splits)

lemma at_key_UlKey [simp]: "at_key sw (UlKey t) = entries (ul_n3_teid2pfcp_pdr sw) t"
  and at_key_DlKey [simp]: "at_key sw (DlKey a) = entries (ue_ipv4_hbo2pfcp_pdr sw) a"
  by (simp_all add: at_key_def)

lemma at_key_eqI:
  assumes "\<And>t. entries (ul_n3_teid2pfcp_pdr sw) t = f (UlKey t)"
    and "\<And>a. entries (ue_ipv4_hbo2pfcp_pdr sw) a = f (DlKey a)"
  shows "at_key sw = f"
  using assms by (auto simp: fun_eq_iff at_key_def split: pdr_key.splits)

text \<open>Publishing a vector, the step every operation is made of.\<close>

definition publish :: "pdr_key \<Rightarrow> nat list \<Rightarrow> upf_switch \<Rightarrow> upf_switch" where
  "publish k v sw =
     (case k of
        UlKey t \<Rightarrow> sw\<lparr>ul_n3_teid2pfcp_pdr := insert_or_error (ul_n3_teid2pfcp_pdr sw) t v\<rparr>
      | DlKey a \<Rightarrow> sw\<lparr>ue_ipv4_hbo2pfcp_pdr := insert_or_error (ue_ipv4_hbo2pfcp_pdr sw) a v\<rparr>)"

lemma at_key_publish:
  assumes "tables_ok sw" "key_room sw k"
  shows "at_key (publish k v sw) = (at_key sw)(k := v)"
proof (cases k)
  case (UlKey t)
  with assms have "entries (insert_or_error (ul_n3_teid2pfcp_pdr sw) t v) =
      (entries (ul_n3_teid2pfcp_pdr sw))(t := v)"
    by (intro entries_insert) (auto simp: tables_ok_def key_room_def)
  then show ?thesis by (intro at_key_eqI) (simp_all add: UlKey publish_def fun_eq_iff)
next
  case (DlKey a)
  with assms have "entries (insert_or_error (ue_ipv4_hbo2pfcp_pdr sw) a v) =
      (entries (ue_ipv4_hbo2pfcp_pdr sw))(a := v)"
    by (intro entries_insert) (auto simp: tables_ok_def key_room_def)
  then show ?thesis by (intro at_key_eqI) (simp_all add: DlKey publish_def fun_eq_iff)
qed

lemma at_key_fr_calls [simp]: "at_key (sw\<lparr>fr_calls := c\<rparr>) = at_key sw"
  by (rule at_key_eqI) simp_all

lemma tables_ok_publish: "tables_ok sw \<Longrightarrow> tables_ok (publish k v sw)"
  by (auto simp: tables_ok_def publish_def split: pdr_key.splits)

lemma ul_add_publish:
  "add_pfcp_ul_pdr_by_up_teid t r sw = publish (UlKey t) (pdr_vector_add sw r (at_key sw (UlKey t))) sw"
  by (simp add: add_pfcp_ul_pdr_by_up_teid_def publish_def Let_def)

lemma dl_add_publish:
  obtains c where "add_pfcp_dl_pdr_by_ue_ip env a r sw =
    (publish (DlKey a) (pdr_vector_add sw r (at_key sw (DlKey a))) sw)\<lparr>fr_calls := c\<rparr>"
proof -
  let ?p = "publish (DlKey a) (pdr_vector_add sw r (at_key sw (DlKey a))) sw"
  have "\<exists>c. add_pfcp_dl_pdr_by_ue_ip env a r sw = ?p\<lparr>fr_calls := c\<rparr>"
  proof (cases "um_find (ue_ipv4_hbo2pfcp_pdr sw) a = None \<and> \<not> enable_bpf_datapath env \<and> enable_fr env \<and>
      present (pdi_framed_route (ie_val (pdr_pdi (pdr_at sw r))))")
    case False
    then have "add_pfcp_dl_pdr_by_ue_ip env a r sw = ?p\<lparr>fr_calls := fr_calls ?p\<rparr>"
      by (auto simp: add_pfcp_dl_pdr_by_ue_ip_def publish_def Let_def)
    then show ?thesis by blast
  qed (auto simp: add_pfcp_dl_pdr_by_ue_ip_def publish_def Let_def)
  with that show thesis by blast
qed

lemma at_key_add [directory]:
  assumes "tables_ok sw" "key_room sw k"
  shows "at_key (add_under_key env k r sw) = (at_key sw)(k := pdr_vector_add sw r (at_key sw k))"
proof (cases k)
  case (DlKey a)
  obtain c where "add_pfcp_dl_pdr_by_ue_ip env a r sw =
      (publish (DlKey a) (pdr_vector_add sw r (at_key sw (DlKey a))) sw)\<lparr>fr_calls := c\<rparr>"
    by (rule dl_add_publish)
  with DlKey at_key_publish [OF assms] show ?thesis by (simp add: add_under_key_def)
qed (use at_key_publish [OF assms] in \<open>simp add: add_under_key_def ul_add_publish\<close>)

lemma swap_publish: "swap_under_key k old new sw = publish k (swapped old new (at_key sw k)) sw"
  by (cases k) (simp_all add: swap_under_key_def publish_def)

lemma at_key_swap [directory]:
  "tables_ok sw \<Longrightarrow> key_room sw k \<Longrightarrow>
   at_key (swap_under_key k old new sw) = (at_key sw)(k := swapped old new (at_key sw k))"
  by (simp add: swap_publish at_key_publish)

lemma at_key_erase_ul [directory]:
  assumes "tables_ok sw"
  shows "at_key (remove_pfcp_ul_pdrs_by_up_teid t sw) = (at_key sw)(UlKey t := [])"
proof -
  have "entries (fst (um_erase (ul_n3_teid2pfcp_pdr sw) t)) = (entries (ul_n3_teid2pfcp_pdr sw))(t := [])"
    using assms by (intro entries_erase) (simp add: tables_ok_def)
  then show ?thesis by (intro at_key_eqI) (simp_all add: remove_pfcp_ul_pdrs_by_up_teid_def fun_eq_iff)
qed

lemma at_key_erase_dl [directory]:
  assumes "tables_ok sw"
  shows "at_key (remove_pfcp_dl_pdrs_by_ue_ip env a sw) = (at_key sw)(DlKey a := [])"
proof -
  have "entries (fst (um_erase (ue_ipv4_hbo2pfcp_pdr sw) a)) = (entries (ue_ipv4_hbo2pfcp_pdr sw))(a := [])"
    using assms by (intro entries_erase) (simp add: tables_ok_def)
  then show ?thesis
    by (intro at_key_eqI) (simp_all add: remove_pfcp_dl_pdrs_by_ue_ip_def Let_def fun_eq_iff)
qed

text \<open>Dropping a PDR republishes the rest of its vector, or erases the entry when nothing is left.\<close>

lemma key_room_nonempty: "at_key sw k \<noteq> [] \<Longrightarrow> key_room sw k"
  by (cases k) (simp_all add: key_room_def entries_room)

lemma remove_pdr_cases:
  "remove_pdr_from_lookup env r sw =
     (case key_of (pdr_at sw r) of
        None \<Rightarrow> sw
      | Some k \<Rightarrow>
          let fresh = filter (\<lambda>p. p \<noteq> r) (at_key sw k)
          in if fresh \<noteq> [] then publish k fresh sw
             else case k of UlKey t \<Rightarrow> remove_pfcp_ul_pdrs_by_up_teid t sw
                          | DlKey a \<Rightarrow> remove_pfcp_dl_pdrs_by_ue_ip env a sw)"
  by (auto simp: remove_pdr_from_lookup_def publish_def Let_def split: option.splits pdr_key.splits)

lemma at_key_remove [directory]:
  assumes "tables_ok sw"
  shows "at_key (remove_pdr_from_lookup env r sw) =
    (case key_of (pdr_at sw r) of None \<Rightarrow> at_key sw
     | Some k \<Rightarrow> (at_key sw)(k := filter (\<lambda>p. p \<noteq> r) (at_key sw k)))"
proof (cases "key_of (pdr_at sw r)")
  case (Some k)
  let ?fresh = "filter (\<lambda>p. p \<noteq> r) (at_key sw k)"
  show ?thesis
  proof (cases "?fresh = []")
    case True
    with Some assms show ?thesis
      by (cases k) (simp_all add: remove_pdr_cases at_key_erase_ul at_key_erase_dl)
  next
    case False
    then have "at_key sw k \<noteq> []" by auto
    with Some False assms show ?thesis
      by (simp add: remove_pdr_cases at_key_publish key_room_nonempty)
  qed
qed (simp add: remove_pdr_cases)

text \<open>What stays as it was.\<close>

lemma heap_publish [frame]: "pdr_heap (publish k v sw) = pdr_heap sw"
  by (simp add: publish_def split: pdr_key.splits)

lemma heap_erase [frame]:
  "pdr_heap (remove_pfcp_ul_pdrs_by_up_teid t sw) = pdr_heap sw"
  "pdr_heap (remove_pfcp_dl_pdrs_by_ue_ip env a sw) = pdr_heap sw"
  by (simp_all add: remove_pfcp_ul_pdrs_by_up_teid_def remove_pfcp_dl_pdrs_by_ue_ip_def Let_def)

lemma heap_remove [frame]: "pdr_heap (remove_pdr_from_lookup env r sw) = pdr_heap sw"
  by (auto simp: remove_pdr_cases frame Let_def split: option.splits pdr_key.splits)

lemma heap_dl_add [frame]: "pdr_heap (add_pfcp_dl_pdr_by_ue_ip env a r sw) = pdr_heap sw"
  by (rule dl_add_publish [of env a r sw]) (simp add: frame)

lemma heap_add [frame]: "pdr_heap (add_under_key env k r sw) = pdr_heap sw"
  by (cases k) (simp_all add: add_under_key_def ul_add_publish frame)

lemma heap_swap [frame]: "pdr_heap (swap_under_key k old new sw) = pdr_heap sw"
  by (simp add: swap_publish frame)

text \<open>No table operation touches an object or a generator.\<close>

definition heaps :: "upf_switch \<Rightarrow> _" where
  "heaps sw = (pdr_heap sw, far_heap sw, mbr_heap sw, buckets sw, sess_heap sw, next_ref sw, seids_given sw,
     teids_given sw, cp_fseid2pfcp_sessions sw)"

lemma heaps_eqD:
  assumes "heaps sw' = heaps sw"
  shows "pdr_heap sw' = pdr_heap sw" "far_heap sw' = far_heap sw" "mbr_heap sw' = mbr_heap sw"
    "buckets sw' = buckets sw" "sess_heap sw' = sess_heap sw" "next_ref sw' = next_ref sw"
    "cp_fseid2pfcp_sessions sw' = cp_fseid2pfcp_sessions sw"
  using assms by (simp_all add: heaps_def)

lemma heaps_fr_calls [simp]: "heaps (sw\<lparr>fr_calls := c\<rparr>) = heaps sw"
  by (simp add: heaps_def)

lemma heaps_publish [simp]: "heaps (publish k v sw) = heaps sw"
  by (simp add: heaps_def publish_def split: pdr_key.splits)

lemma heaps_erase [simp]:
  "heaps (remove_pfcp_ul_pdrs_by_up_teid t sw) = heaps sw"
  "heaps (remove_pfcp_dl_pdrs_by_ue_ip env a sw) = heaps sw"
  by (simp_all add: heaps_def remove_pfcp_ul_pdrs_by_up_teid_def remove_pfcp_dl_pdrs_by_ue_ip_def Let_def)

lemma heaps_remove [simp]: "heaps (remove_pdr_from_lookup env r sw) = heaps sw"
  by (auto simp: remove_pdr_cases Let_def split: option.splits pdr_key.splits)

lemma heaps_ul_add [simp]: "heaps (add_pfcp_ul_pdr_by_up_teid t r sw) = heaps sw"
  by (simp add: ul_add_publish)

lemma heaps_dl_add [simp]: "heaps (add_pfcp_dl_pdr_by_ue_ip env a r sw) = heaps sw"
  by (rule dl_add_publish [of env a r sw]) simp

lemma heaps_add [simp]: "heaps (add_under_key env k r sw) = heaps sw"
  by (cases k) (simp_all add: add_under_key_def)

lemma heaps_replace [simp]: "heaps (replace_pdr_in_lookup env old new sw) = heaps sw"
  by (auto simp: replace_pdr_in_lookup_def swap_publish Let_def split: option.splits)

lemma tables_ok_erase:
  "tables_ok sw \<Longrightarrow> tables_ok (remove_pfcp_ul_pdrs_by_up_teid t sw)"
  "tables_ok sw \<Longrightarrow> tables_ok (remove_pfcp_dl_pdrs_by_ue_ip env a sw)"
  by (simp_all add: tables_ok_def remove_pfcp_ul_pdrs_by_up_teid_def remove_pfcp_dl_pdrs_by_ue_ip_def
      Let_def um.inv_era)

lemma tables_ok_remove: "tables_ok sw \<Longrightarrow> tables_ok (remove_pdr_from_lookup env r sw)"
  by (auto simp: remove_pdr_cases Let_def tables_ok_publish tables_ok_erase split: option.splits pdr_key.splits)

lemma tables_ok_fr_calls [simp]: "tables_ok (sw\<lparr>fr_calls := c\<rparr>) = tables_ok sw"
  by (simp add: tables_ok_def)

lemma tables_ok_dl_add: "tables_ok sw \<Longrightarrow> tables_ok (add_pfcp_dl_pdr_by_ue_ip env a r sw)"
  by (rule dl_add_publish [of env a r sw]) (simp add: tables_ok_publish)

lemma tables_ok_add: "tables_ok sw \<Longrightarrow> tables_ok (add_under_key env k r sw)"
  by (cases k) (simp_all add: add_under_key_def ul_add_publish tables_ok_publish tables_ok_dl_add)

lemma tables_ok_swap: "tables_ok sw \<Longrightarrow> tables_ok (swap_under_key k old new sw)"
  by (simp add: swap_publish tables_ok_publish)

lemma tables_ok_replace: "tables_ok sw \<Longrightarrow> tables_ok (replace_pdr_in_lookup env old new sw)"
  by (auto simp: replace_pdr_in_lookup_def Let_def tables_ok_remove tables_ok_add tables_ok_swap
      split: option.splits)

lemma tables_ok_new: "tables_ok switch_new"
  by (simp add: tables_ok_def switch_new_def um_new_inv)

section \<open>Order and membership of the vectors\<close>

abbreviation prec_at :: "upf_switch \<Rightarrow> nat \<Rightarrow> u32" where
  "prec_at sw r \<equiv> ie_val (pdr_precedence (pdr_at sw r))"

definition in_order :: "upf_switch \<Rightarrow> nat list \<Rightarrow> bool" where
  "in_order sw rs \<longleftrightarrow> sorted_wrt (\<lambda>a b. prec_at sw a \<le> prec_at sw b) rs"

definition tables_ordered :: "upf_switch \<Rightarrow> bool" where
  "tables_ordered sw \<longleftrightarrow> (\<forall>k. in_order sw (at_key sw k))"

lemma sorted_wrt_insert_before:
  assumes "sorted_wrt (\<lambda>a b. f a \<le> (f b :: 'b::linorder)) xs"
  shows "sorted_wrt (\<lambda>a b. f a \<le> f b) (insert_before (\<lambda>e. f e < f x) x xs)"
  using assms
proof (induction xs)
  case (Cons y ys)
  then show ?case by (cases "f y < f x") (auto intro: order_trans)
qed simp

lemma in_order_filter: "in_order sw rs \<Longrightarrow> in_order sw (filter P rs)"
  by (simp add: in_order_def sorted_wrt_filter)

lemma in_order_add: "in_order sw rs \<Longrightarrow> in_order sw (pdr_vector_add sw r rs)"
  unfolding pdr_vector_add_def pdr_less_def in_order_def
  by (rule sorted_wrt_insert_before) (simp add: sorted_wrt_filter)

lemma in_order_cong: "pdr_heap sw' = pdr_heap sw \<Longrightarrow> in_order sw' = in_order sw"
  by (simp add: in_order_def fun_eq_iff)

lemma set_pdr_vector_add [simp]:
  "set (pdr_vector_add sw r cur) = insert r {e \<in> set cur. \<not> same_rule (pdr_at sw e) (pdr_at sw r)}"
  by (simp add: pdr_vector_add_def)

lemma tables_ordered_add:
  assumes "tables_ok sw" "key_room sw k" "tables_ordered sw"
  shows "tables_ordered (add_under_key env k r sw)"
proof -
  have "in_order (add_under_key env k r sw) = in_order sw" by (rule in_order_cong) (rule heap_add)
  then show ?thesis using assms by (simp add: tables_ordered_def at_key_add in_order_add)
qed

lemma tables_ordered_remove:
  assumes "tables_ok sw" "tables_ordered sw"
  shows "tables_ordered (remove_pdr_from_lookup env r sw)"
proof -
  have "in_order (remove_pdr_from_lookup env r sw) = in_order sw" by (rule in_order_cong) (rule heap_remove)
  then show ?thesis
    using assms by (simp add: tables_ordered_def at_key_remove in_order_filter split: option.splits)
qed

lemma set_swapped:
  assumes "old \<in> set cur"
  shows "set (swapped old new cur) = insert new (set cur - {old})"
  using assms by (auto simp: swapped_def Let_def)

text \<open>A PDR is filed where its own key says, and only there.\<close>

definition filed :: "upf_switch \<Rightarrow> nat \<Rightarrow> bool" where
  "filed sw r \<longleftrightarrow> (\<forall>k. r \<in> set (at_key sw k) \<longleftrightarrow> key_of (pdr_at sw r) = Some k)"

definition unfiled :: "upf_switch \<Rightarrow> nat \<Rightarrow> bool" where
  "unfiled sw r \<longleftrightarrow> (\<forall>k. r \<notin> set (at_key sw k))"

lemma replace_at_key:
  assumes "tables_ok sw" "\<forall>k. key_of (pdr_at sw new) = Some k \<longrightarrow> key_room sw k"
  shows "at_key (replace_pdr_in_lookup env old new sw) =
    (case key_of (pdr_at sw new) of
       None \<Rightarrow> at_key (remove_pdr_from_lookup env old sw)
     | Some k \<Rightarrow>
        if key_of (pdr_at sw old) = Some k
        then (at_key sw)(k := swapped old new (at_key sw k))
        else (case key_of (pdr_at sw old) of
                None \<Rightarrow> (at_key sw)(k := pdr_vector_add sw new (at_key sw k))
              | Some k' \<Rightarrow> (at_key sw)(k := pdr_vector_add sw new (at_key sw k),
                                     k' := filter (\<lambda>p. p \<noteq> old) (at_key sw k'))))"
proof (cases "key_of (pdr_at sw new)")
  case (Some k)
  with assms show ?thesis
    by (auto simp: replace_pdr_in_lookup_def Let_def directory frame tables_ok_add fun_eq_iff split: option.splits)
qed (auto simp: replace_pdr_in_lookup_def remove_pdr_cases)

lemma replace_set:
  assumes "tables_ok sw" "old \<noteq> new" "\<forall>k. key_of (pdr_at sw new) = Some k \<longrightarrow> key_room sw k"
    and "filed sw old" "unfiled sw new"
  shows "set (at_key (replace_pdr_in_lookup env old new sw) k) =
    {e \<in> set (at_key sw k). e \<noteq> old \<and>
       \<not> (key_of (pdr_at sw new) = Some k \<and> key_of (pdr_at sw old) \<noteq> Some k \<and>
          same_rule (pdr_at sw e) (pdr_at sw new))} \<union>
    (if key_of (pdr_at sw new) = Some k then {new} else {})"
proof -
  have o': "old \<in> set (at_key sw k') \<longleftrightarrow> key_of (pdr_at sw old) = Some k'"
    and n: "new \<notin> set (at_key sw k')" for k' using assms(4,5) by (auto simp: filed_def unfiled_def)
  show ?thesis
  proof (cases "key_of (pdr_at sw new)")
    case None
    then have "at_key (replace_pdr_in_lookup env old new sw) = at_key (remove_pdr_from_lookup env old sw)"
      by (auto simp: replace_pdr_in_lookup_def remove_pdr_cases)
    then show ?thesis using o' None
      by (auto simp: at_key_remove [OF assms(1)] split: option.splits)
  next
    case (Some kn)
    show ?thesis
    proof (cases "key_of (pdr_at sw old) = Some kn")
      case True
      then have "set (swapped old new (at_key sw kn)) = insert new (set (at_key sw kn) - {old})"
        using o' by (simp add: set_swapped)
      with Some True o' show ?thesis by (auto simp: replace_at_key [OF assms(1,3)])
    next
      case False
      with Some o' n assms(2) show ?thesis
        by (auto simp: replace_at_key [OF assms(1,3)] split: option.splits)
    qed
  qed
qed

section \<open>An example\<close>

text \<open>Two versions of an uplink rule with different TEIDs; the tables hold the first.\<close>

definition ex_env :: upf_env where
  "ex_env = \<lparr>enable_qos = True, enable_bpf_datapath = False, enable_urr = True, enable_bar = False,
     enable_mar = False, enable_fr = False, bypass_ul_pfcp_rules = False, qos_shape_ms = 0,
     qos_shape_ul_ms = 0, qos_burst_ms = 10, n3_addr4 = 0x0100000A, n3_addr6 = [], n3_port = 2152,
     network_ipv4 = 0x0000000C, network_mask_ipv4_be = 0x000000FF, pton = (\<lambda>_. None)\<rparr>"

definition ex_pdi :: "u32 \<Rightarrow> pdi" where
  "ex_pdi teid = \<lparr>pdi_source_interface = (True, INTERFACE_VALUE_ACCESS),
     pdi_local_fteid = (True, fteid_zero\<lparr>ft_teid := teid\<rparr>),
     pdi_ue_ip_address = (False, \<lparr>ue_v4 = False, ue_ipv4_address = 0\<rparr>), pdi_sdf_filter = (False, []),
     pdi_qfi = (False, 0), pdi_traffic_endpoint_id = (False, []),
     pdi_ethernet_pdu_session_information = (False, []), pdi_ethernet_packet_filter = (False, []),
     pdi_framed_route = (False, [])\<rparr>"

definition ex_create_pdr :: "u16 \<Rightarrow> u32 \<Rightarrow> pdi \<Rightarrow> create_pdr_ie" where
  "ex_create_pdr i prec d = \<lparr>cpdr_pdr_id = (True, i), cpdr_precedence = (True, prec), cpdr_pdi = (True, d),
     cpdr_outer_header_removal = (True, OUTER_HEADER_REMOVAL_GTPU_UDP_IPV4), cpdr_far_id = (True, 1),
     cpdr_urr_id = (False, 0), cpdr_qer_id = (False, 0), cpdr_activate_predefined_rules = (False, [])\<rparr>"

definition ex_pdr :: "u16 \<Rightarrow> u32 \<Rightarrow> u32 \<Rightarrow> pfcp_pdr" where
  "ex_pdr i prec teid = pdr_of_create ex_env (ex_create_pdr i prec (ex_pdi teid))"

definition ex_switch :: upf_switch where
  "ex_switch = publish (UlKey 1) [0]
     (switch_new\<lparr>pdr_heap := [0 \<mapsto> ex_pdr 7 10 1, 1 \<mapsto> ex_pdr 7 20 2], next_ref := 2\<rparr>)"

lemma key_of_ex_pdr [simp]: "key_of (ex_pdr i prec teid) = Some (UlKey teid)"
  by (simp add: ex_pdr_def ex_create_pdr_def pdr_of_create_def compile_sdf_def ex_pdi_def key_of_def fteid_zero_def)

lemma prec_ex_pdr [simp]: "ie_val (pdr_precedence (ex_pdr i prec teid)) = prec"
  by (simp add: ex_pdr_def ex_create_pdr_def pdr_of_create_def compile_sdf_def)

lemma at_key_new: "at_key (switch_new\<lparr>pdr_heap := h, next_ref := n\<rparr>) = (\<lambda>_. [])"
  by (rule at_key_eqI) (simp_all add: switch_new_def um_new_empty)

lemma count_insert_le: "count (fst (um_insert t k v)) \<le> Suc (count t)"
  by (simp add: um_insert_def split: landing.splits)

lemma um_room_new: "um_room (um_new PFCP_SWITCH_MAX_PDRS :: (u32, nat list) upf_map) k"
  using slots_new [of PFCP_SWITCH_MAX_PDRS, where ?'k = u32 and ?'v = "nat list"]
  by (simp add: um_room_def PFCP_SWITCH_MAX_PDRS_def) (simp add: um_new_def Let_def)

lemma um_room_new_insert:
  "um_room (insert_or_error (um_new PFCP_SWITCH_MAX_PDRS :: (u32, nat list) upf_map) k' v) k"
proof -
  let ?t = "um_new PFCP_SWITCH_MAX_PDRS :: (u32, nat list) upf_map"
  have "length (slots (fst (um_insert ?t k' v))) = length (slots ?t)" by simp
  moreover have "count ?t = 0" by (simp add: um_new_def Let_def)
  ultimately show ?thesis
    using slots_new [of PFCP_SWITCH_MAX_PDRS, where ?'k = u32 and ?'v = "nat list"] count_insert_le [of ?t k' v]
    by (simp add: um_room_def insert_or_error_def PFCP_SWITCH_MAX_PDRS_def)
qed

lemma ex_switch_facts:
  "tables_ok ex_switch" "at_key ex_switch = (\<lambda>_. [])(UlKey 1 := [0])" "key_room ex_switch (UlKey t)"
  "pdr_heap ex_switch = [0 \<mapsto> ex_pdr 7 10 1, 1 \<mapsto> ex_pdr 7 20 2]"
proof -
  let ?s = "switch_new\<lparr>pdr_heap := [0 \<mapsto> ex_pdr 7 10 1, 1 \<mapsto> ex_pdr 7 20 2], next_ref := 2\<rparr>"
  have ok: "tables_ok ?s" using tables_ok_new by (simp add: tables_ok_def)
  have room: "key_room ?s (UlKey 1)" by (simp add: key_room_def switch_new_def um_room_new)
  show "tables_ok ex_switch" unfolding ex_switch_def by (rule tables_ok_publish [OF ok])
  show "at_key ex_switch = (\<lambda>_. [])(UlKey 1 := [0])"
    unfolding ex_switch_def by (simp only: at_key_publish [OF ok room] at_key_new)
  show "key_room ex_switch (UlKey t)"
    by (simp add: ex_switch_def key_room_def publish_def switch_new_def um_room_new_insert)
  show "pdr_heap ex_switch = [0 \<mapsto> ex_pdr 7 10 1, 1 \<mapsto> ex_pdr 7 20 2]" by (simp add: ex_switch_def frame)
qed

text \<open>Two rules under one TEID, and an update of the first that only raises its precedence value.\<close>

definition ex_switch3 :: upf_switch where
  "ex_switch3 = publish (UlKey 1) [0, 1]
     (switch_new\<lparr>pdr_heap := [0 \<mapsto> ex_pdr 7 10 1, 1 \<mapsto> ex_pdr 8 15 1, 2 \<mapsto> ex_pdr 7 20 1], next_ref := 3\<rparr>)"

lemma ex_switch3_facts:
  "tables_ok ex_switch3" "at_key ex_switch3 = (\<lambda>_. [])(UlKey 1 := [0, 1])"
  "pdr_heap ex_switch3 = [0 \<mapsto> ex_pdr 7 10 1, 1 \<mapsto> ex_pdr 8 15 1, 2 \<mapsto> ex_pdr 7 20 1]"
proof -
  let ?s = "switch_new\<lparr>pdr_heap := [0 \<mapsto> ex_pdr 7 10 1, 1 \<mapsto> ex_pdr 8 15 1, 2 \<mapsto> ex_pdr 7 20 1], next_ref := 3\<rparr>"
  have ok: "tables_ok ?s" using tables_ok_new by (simp add: tables_ok_def)
  have room: "key_room ?s (UlKey 1)" by (simp add: key_room_def switch_new_def um_room_new)
  show "tables_ok ex_switch3" unfolding ex_switch3_def by (rule tables_ok_publish [OF ok])
  show "at_key ex_switch3 = (\<lambda>_. [])(UlKey 1 := [0, 1])"
    unfolding ex_switch3_def by (simp only: at_key_publish [OF ok room] at_key_new)
  show "pdr_heap ex_switch3 = [0 \<mapsto> ex_pdr 7 10 1, 1 \<mapsto> ex_pdr 8 15 1, 2 \<mapsto> ex_pdr 7 20 1]"
    by (simp add: ex_switch3_def frame)
qed

section \<open>Properties\<close>

text \<open>C5: an update moves the tables from the old version of a PDR onto the new one. If the old version
  was filed under its own key and the new one nowhere, then afterwards the old one is nowhere, the
  new one is filed under exactly its own key (so it stays reachable when the update changed the
  TEID or the UE address), and every other rule stays where it was.\<close>

theorem replace_pdr_refiles:
  assumes "tables_ok sw" "old \<noteq> new" "\<forall>k. key_of (pdr_at sw new) = Some k \<longrightarrow> key_room sw k"
    and "filed sw old" "unfiled sw new" "sw' = replace_pdr_in_lookup env old new sw"
  shows "unfiled sw' old \<and> filed sw' new \<and> tables_ok sw' \<and>
    (\<forall>k e. e \<notin> {old, new} \<and> \<not> same_rule (pdr_at sw e) (pdr_at sw new) \<longrightarrow>
           (e \<in> set (at_key sw' k) \<longleftrightarrow> e \<in> set (at_key sw k)))"
proof -
  have h: "pdr_heap sw' = pdr_heap sw"
    unfolding assms(6) by (auto simp: replace_pdr_in_lookup_def Let_def frame split: option.splits)
  have S: "set (at_key sw' k) = {e \<in> set (at_key sw k). e \<noteq> old \<and>
       \<not> (key_of (pdr_at sw new) = Some k \<and> key_of (pdr_at sw old) \<noteq> Some k \<and>
          same_rule (pdr_at sw e) (pdr_at sw new))} \<union>
    (if key_of (pdr_at sw new) = Some k then {new} else {})" for k
    unfolding assms(6) by (rule replace_set) (use assms in auto)
  have "tables_ok sw'" unfolding assms(6) by (rule tables_ok_replace [OF assms(1)])
  moreover have "unfiled sw' old" using assms(2) by (simp add: unfiled_def S)
  moreover have "filed sw' new" using assms(5) by (auto simp: filed_def unfiled_def S h)
  ultimately show ?thesis by (auto simp: S)
qed

theorem replace_pdr_refiles_witness:
  "let sw' = replace_pdr_in_lookup ex_env 0 1 ex_switch
   in unfiled sw' 0 \<and> filed sw' 1 \<and> 1 \<in> set (at_key sw' (UlKey 2))"
proof -
  have "filed ex_switch 0" "unfiled ex_switch 1"
    by (auto simp: filed_def unfiled_def ex_switch_facts)
  moreover have "\<forall>k. key_of (pdr_at ex_switch 1) = Some k \<longrightarrow> key_room ex_switch k"
    by (auto simp: ex_switch_facts)
  ultimately have R: "unfiled (replace_pdr_in_lookup ex_env 0 1 ex_switch) 0 \<and>
      filed (replace_pdr_in_lookup ex_env 0 1 ex_switch) 1"
    using replace_pdr_refiles [OF ex_switch_facts(1), of 0 1 _ ex_env] by auto
  have "pdr_heap (replace_pdr_in_lookup ex_env 0 1 ex_switch) = pdr_heap ex_switch"
    by (auto simp: replace_pdr_in_lookup_def Let_def frame split: option.splits)
  with R show ?thesis by (simp add: Let_def filed_def ex_switch_facts del: at_key_UlKey)
qed

text \<open>C8: the vectors stay in precedence order (lowest value, that is highest precedence, first) when a
  PDR is filed, when one is removed, and when an update files a PDR under another key.\<close>

theorem pdr_tables_stay_ordered:
  assumes "tables_ok sw" "tables_ordered sw"
  shows "(\<forall>k r. key_room sw k \<longrightarrow> tables_ordered (add_under_key env k r sw)) \<and>
    (\<forall>r. tables_ordered (remove_pdr_from_lookup env r sw)) \<and>
    (\<forall>old new k. key_of (pdr_at sw new) = Some k \<and> key_of (pdr_at sw old) \<noteq> Some k \<and> key_room sw k \<longrightarrow>
       tables_ordered (replace_pdr_in_lookup env old new sw))"
proof -
  have add: "tables_ordered (add_under_key env k r sw)" if "key_room sw k" for k r
    using tables_ordered_add [OF assms(1) that assms(2)] .
  moreover have "tables_ordered (replace_pdr_in_lookup env old new sw)"
    if "key_of (pdr_at sw new) = Some k" "key_of (pdr_at sw old) \<noteq> Some k" "key_room sw k" for old new k
    using that add [OF that(3)] tables_ordered_remove [OF tables_ok_add [OF assms(1)] add [OF that(3)]]
    by (auto simp: replace_pdr_in_lookup_def Let_def split: option.splits)
  ultimately show ?thesis using tables_ordered_remove [OF assms] by blast
qed

theorem pdr_tables_stay_ordered_witness:
  "tables_ordered (add_under_key ex_env (UlKey 1) 1 ex_switch) \<and>
   at_key (add_under_key ex_env (UlKey 1) 1 ex_switch) (UlKey 1) = [1]"
proof -
  have "tables_ordered ex_switch" by (auto simp: tables_ordered_def ex_switch_facts in_order_def)
  from pdr_tables_stay_ordered [OF ex_switch_facts(1) this, of ex_env]
  have "tables_ordered (add_under_key ex_env (UlKey 1) 1 ex_switch)" by (simp add: ex_switch_facts)
  moreover have "same_rule (ex_pdr 7 10 1) (ex_pdr 7 20 2)"
    by (simp add: same_rule_def ex_pdr_def ex_create_pdr_def pdr_of_create_def compile_sdf_def)
  ultimately show ?thesis
    by (simp add: at_key_add [OF ex_switch_facts(1,3)] ex_switch_facts pdr_vector_add_def)
qed

text \<open>An update that raises the precedence value without changing the key leaves the PDR where it
  was, so the vector it is in need not be in order afterwards.\<close>

lemma same_key_update_not_resorted:
  "\<exists>sw. tables_ok sw \<and> tables_ordered sw \<and> filed sw 0 \<and> unfiled sw 2 \<and>
        \<not> tables_ordered (replace_pdr_in_lookup ex_env 0 2 sw)"
proof -
  have "at_key (replace_pdr_in_lookup ex_env 0 2 ex_switch3) (UlKey 1) = [2, 1]"
    by (simp add: replace_pdr_in_lookup_def swapped_def ex_switch3_facts
        at_key_swap [OF ex_switch3_facts(1) key_room_nonempty] del: at_key_UlKey)
  moreover have "pdr_heap (replace_pdr_in_lookup ex_env 0 2 ex_switch3) = pdr_heap ex_switch3"
    by (simp add: replace_pdr_in_lookup_def ex_switch3_facts frame)
  ultimately have "\<not> in_order (replace_pdr_in_lookup ex_env 0 2 ex_switch3)
      (at_key (replace_pdr_in_lookup ex_env 0 2 ex_switch3) (UlKey 1))"
    by (simp add: in_order_def ex_switch3_facts del: at_key_UlKey)
  then have "\<not> tables_ordered (replace_pdr_in_lookup ex_env 0 2 ex_switch3)" unfolding tables_ordered_def by blast
  moreover have "tables_ordered ex_switch3" by (auto simp: tables_ordered_def in_order_def ex_switch3_facts)
  moreover have "filed ex_switch3 0" "unfiled ex_switch3 2"
    by (auto simp: filed_def unfiled_def ex_switch3_facts)
  ultimately show ?thesis using ex_switch3_facts(1) by blast
qed

end
