(* ===== verification/RuleVectors.thy ===== *)
theory RuleVectors
  imports Prelude
begin

text \<open>
  A session keeps each kind of rule in a vector searched by rule id. This theory holds the three
  loops the session's operations share and the contract of an insertion: it never makes two entries
  with one id and disturbs no other id. What a look-up returns after an insertion, an update or a
  removal follows from that contract, once, for every kind of rule.
\<close>

section \<open>Loops\<close>

text \<open>An entry of the same id is kept, and the new rule dropped.\<close>

definition push_unless :: "('a \<Rightarrow> bool) \<Rightarrow> 'a \<Rightarrow> 'a list \<Rightarrow> 'a list" where
  "push_unless P x xs = (case find P xs of Some _ \<Rightarrow> xs | None \<Rightarrow> xs @ [x])"

text \<open>An entry of the same id is replaced where it stands.\<close>

definition replace_or_push :: "('a \<Rightarrow> bool) \<Rightarrow> 'a \<Rightarrow> 'a list \<Rightarrow> 'a list" where
  "replace_or_push P x xs = (case find P xs of Some _ \<Rightarrow> update_first P (\<lambda>_. x) xs | None \<Rightarrow> xs @ [x])"

text \<open>The vector without the first such entry, or nothing when there is none.\<close>

definition erase_first :: "('a \<Rightarrow> bool) \<Rightarrow> 'a list \<Rightarrow> 'a list option" where
  "erase_first P xs = (case find P xs of Some _ \<Rightarrow> Some (remove_first P xs) | None \<Rightarrow> None)"

lemma find_key_None: "find (\<lambda>e. key e = k) xs = None \<longleftrightarrow> k \<notin> key ` set xs"
  by (auto simp: find_None_iff)

lemma erase_first_None: "erase_first (\<lambda>e. key e = k) xs = None \<longleftrightarrow> k \<notin> key ` set xs"
  using find_key_None [of key k xs] by (auto simp: erase_first_def split: option.splits)

lemma erase_first_Some:
  "erase_first (\<lambda>e. key e = k) xs = Some ys \<longleftrightarrow> k \<in> key ` set xs \<and> ys = remove_first (\<lambda>e. key e = k) xs"
  using find_key_None [of key k xs] by (auto simp: erase_first_def split: option.splits)

lemma update_first_find:
  "find P xs = Some y \<Longrightarrow> update_first P f xs = update_first P (\<lambda>_. f y) xs"
  by (induction xs) auto

section \<open>The contract\<close>

locale rule_vector =
  fixes key :: "'r \<Rightarrow> 'k"
    and add :: "'r \<Rightarrow> 'r list \<Rightarrow> 'r list"
  assumes add_new: "key r \<notin> key ` set xs \<Longrightarrow> add r xs = xs @ [r]"
    and add_taken: "key r \<in> key ` set xs \<Longrightarrow> map key (add r xs) = map key xs"
    and add_other: "k \<noteq> key r \<Longrightarrow> find (\<lambda>e. key e = k) (add r xs) = find (\<lambda>e. key e = k) xs"
begin

lemma add_distinct:
  assumes "distinct (map key xs)"
  shows "distinct (map key (add r xs))"
  using assms by (cases "key r \<in> key ` set xs") (simp_all only: add_taken, simp_all add: add_new)

lemma add_keys: "key ` set (add r xs) = insert (key r) (key ` set xs)"
proof (cases "key r \<in> key ` set xs")
  case True
  then have "set (map key (add r xs)) = set (map key xs)" by (simp only: add_taken)
  with True show ?thesis by auto
qed (simp add: add_new)

lemma add_found: "find (\<lambda>e. key e = key r) (add r xs) \<noteq> None"
  using add_keys [of r xs] by (simp add: find_key_None)

lemma erase_distinct:
  "erase_first (\<lambda>e. key e = k) xs = Some ys \<Longrightarrow> distinct (map key xs) \<Longrightarrow> distinct (map key ys)"
  by (simp add: erase_first_Some distinct_map_remove_first)

lemma erase_find:
  assumes "erase_first (\<lambda>e. key e = k) xs = Some ys" "distinct (map key xs)"
  shows "(\<lambda>k'. find (\<lambda>e. key e = k') ys) = (\<lambda>k'. find (\<lambda>e. key e = k') xs)(k := None)"
  using assms by (simp add: erase_first_Some find_remove_first_key fun_eq_iff)

text \<open>Removing what was just added leaves no rule of that id and every other rule as it was.\<close>

lemma erase_add:
  assumes "distinct (map key xs)"
  obtains ys where "erase_first (\<lambda>e. key e = key r) (add r xs) = Some ys"
    "(\<lambda>k. find (\<lambda>e. key e = k) ys) = (\<lambda>k. find (\<lambda>e. key e = k) xs)(key r := None)"
proof -
  have "erase_first (\<lambda>e. key e = key r) (add r xs) \<noteq> None"
    using add_keys [of r xs] by (simp add: erase_first_None)
  then obtain ys where ys: "erase_first (\<lambda>e. key e = key r) (add r xs) = Some ys" by auto
  have "(\<lambda>k. find (\<lambda>e. key e = k) ys) = (\<lambda>k. find (\<lambda>e. key e = k) (add r xs))(key r := None)"
    by (rule erase_find [OF ys add_distinct [OF assms]])
  also have "\<dots> = (\<lambda>k. find (\<lambda>e. key e = k) xs)(key r := None)" by (auto simp: fun_eq_iff add_other)
  finally show thesis using ys that by blast
qed

lemma update_distinct:
  assumes "\<And>x. key x = k \<Longrightarrow> key (f x) = k"
  shows "map key (update_first (\<lambda>e. key e = k) f xs) = map key xs"
  by (rule map_update_first) (simp add: assms)

lemma update_find:
  assumes "\<And>x. key x = k \<Longrightarrow> key (f x) = k"
  shows "(\<lambda>k'. find (\<lambda>e. key e = k') (update_first (\<lambda>e. key e = k) f xs)) =
    (\<lambda>k'. find (\<lambda>e. key e = k') xs)(k := map_option f (find (\<lambda>e. key e = k) xs))"
proof
  fix k'
  show "find (\<lambda>e. key e = k') (update_first (\<lambda>e. key e = k) f xs) =
    ((\<lambda>k'. find (\<lambda>e. key e = k') xs)(k := map_option f (find (\<lambda>e. key e = k) xs))) k'"
    by (subst find_update_first_key) (use assms in auto)
qed

end

text \<open>The two ways an insertion is written in the session meet the contract.\<close>

lemma rule_vector_push: "rule_vector key (\<lambda>r. push_unless (\<lambda>e. key e = key r) r)"
proof
  fix r xs
  show "push_unless (\<lambda>e. key e = key r) r xs = xs @ [r]" if "key r \<notin> key ` set xs"
  proof -
    have "find (\<lambda>e. key e = key r) xs = None" using that by (simp add: find_key_None)
    then show ?thesis by (simp add: push_unless_def)
  qed
  show "map key (push_unless (\<lambda>e. key e = key r) r xs) = map key xs" if "key r \<in> key ` set xs"
  proof -
    have "find (\<lambda>e. key e = key r) xs \<noteq> None" using that by (simp add: find_key_None)
    then show ?thesis by (auto simp: push_unless_def)
  qed
  fix k
  assume "k \<noteq> key r"
  then show "find (\<lambda>e. key e = k) (push_unless (\<lambda>e. key e = key r) r xs) = find (\<lambda>e. key e = k) xs"
    by (auto simp: push_unless_def find_append split: option.splits)
qed

lemma rule_vector_replace: "rule_vector key (\<lambda>r. replace_or_push (\<lambda>e. key e = key r) r)"
proof
  fix r xs
  show "replace_or_push (\<lambda>e. key e = key r) r xs = xs @ [r]" if "key r \<notin> key ` set xs"
  proof -
    have "find (\<lambda>e. key e = key r) xs = None" using that by (simp add: find_key_None)
    then show ?thesis by (simp add: replace_or_push_def)
  qed
  show "map key (replace_or_push (\<lambda>e. key e = key r) r xs) = map key xs" if "key r \<in> key ` set xs"
  proof -
    have "find (\<lambda>e. key e = key r) xs \<noteq> None" using that by (simp add: find_key_None)
    moreover have "map key (update_first (\<lambda>e. key e = key r) (\<lambda>_. r) xs) = map key xs"
      by (rule map_update_first) simp
    ultimately show ?thesis by (auto simp: replace_or_push_def)
  qed
  fix k
  assume k: "k \<noteq> key r"
  have "find (\<lambda>e. key e = k) (update_first (\<lambda>e. key e = key r) (\<lambda>_. r) xs) = find (\<lambda>e. key e = k) xs"
    by (subst find_update_first_key) (use k in auto)
  with k show "find (\<lambda>e. key e = k) (replace_or_push (\<lambda>e. key e = key r) r xs) = find (\<lambda>e. key e = k) xs"
    by (auto simp: replace_or_push_def find_append split: option.splits)
qed

end
