(* ===== verification/PfcpSession.thy ===== *)
theory PfcpSession
  imports PfcpTables RuleVectors
begin

text \<open>
  The operations of a session (\<open>simpleswitch/pfcp_session\<close>). A session is passed as a value next to
  the switch state: only the N4 thread writes it, one message at a time, and the handlers store it
  back. An operation with the out-parameters \<open>cause\<close> and \<open>offending_ie\<close> takes them as a
  \<open>status\<close> and returns the status the caller sees.
\<close>

type_synonym status = "pfcp_cause \<times> ie_type"

section \<open>Accessors\<close>

definition session_set_fteid :: "fteid \<Rightarrow> pfcp_session \<Rightarrow> pfcp_session" where
  "session_set_fteid f s = s\<lparr>s_teid_uplink := f\<rparr>"

definition session_get_fteid :: "pfcp_session \<Rightarrow> fteid \<times> bool" where
  "session_get_fteid s = (s_teid_uplink s, True)"

definition session_set_pdn_type :: "pdn_type_value \<Rightarrow> pfcp_session \<Rightarrow> pfcp_session" where
  "session_set_pdn_type t s = s\<lparr>s_pdn_type := t\<rparr>"

definition get_up_seid :: "pfcp_session \<Rightarrow> u64" where
  "get_up_seid s = s_seid s"

definition get_far :: "upf_switch \<Rightarrow> pfcp_session \<Rightarrow> u32 \<Rightarrow> nat option" where
  "get_far sw s i = find (\<lambda>r. far_id (far_at sw r) = i) (s_fars s)"

definition publish_fars :: "pfcp_session \<Rightarrow> pfcp_session" where
  "publish_fars s = s\<lparr>s_fars_view := Some (s_fars s)\<rparr>"

definition find_far :: "upf_switch \<Rightarrow> pfcp_session \<Rightarrow> u32 \<Rightarrow> nat option" where
  "find_far sw s i =
     (case s_fars_view s of None \<Rightarrow> None | Some view \<Rightarrow> find (\<lambda>r. far_id (far_at sw r) = i) view)"

definition get_pdr :: "upf_switch \<Rightarrow> pfcp_session \<Rightarrow> u16 \<Rightarrow> nat option" where
  "get_pdr sw s i = find (\<lambda>r. pdr_id (pdr_at sw r) = i) (s_pdrs s)"

definition get_qer :: "pfcp_session \<Rightarrow> u32 \<Rightarrow> pfcp_qer option" where
  "get_qer s i = find (\<lambda>q. present (qer_id q) \<and> ie_val (qer_id q) = i) (s_qers s)"

definition get_urr :: "pfcp_session \<Rightarrow> u32 \<Rightarrow> pfcp_urr option" where
  "get_urr s i = find (\<lambda>q. present (urr_id q) \<and> ie_val (urr_id q) = i) (s_urrs s)"

definition get_bar :: "pfcp_session \<Rightarrow> u8 \<Rightarrow> pfcp_bar option" where
  "get_bar s i = find (\<lambda>q. present (bar_id q) \<and> ie_val (bar_id q) = i) (s_bars s)"

definition get_mar :: "pfcp_session \<Rightarrow> u8 \<Rightarrow> pfcp_mar option" where
  "get_mar s i = find (\<lambda>q. present (mar_id q) \<and> ie_val (mar_id q) = i) (s_mars s)"

section \<open>Usage counters\<close>

text \<open>\<open>my_shard\<close>: the n-th thread to ask gets shard n modulo the number of shards.\<close>

definition my_shard :: "nat \<Rightarrow> nat" where
  "my_shard n = n mod COUNTER_SHARDS"

definition add_ul :: "nat \<Rightarrow> u64 \<Rightarrow> pfcp_session \<Rightarrow> pfcp_session" where
  "add_ul thread octets s =
     (let i = my_shard thread; c = s_counters s ! i
      in s\<lparr>s_counters := (s_counters s)[i := c\<lparr>ul_octets := ul_octets c + octets, ul_packets := ul_packets c + 1\<rparr>]\<rparr>)"

definition add_dl :: "nat \<Rightarrow> u64 \<Rightarrow> pfcp_session \<Rightarrow> pfcp_session" where
  "add_dl thread octets s =
     (let i = my_shard thread; c = s_counters s ! i
      in s\<lparr>s_counters := (s_counters s)[i := c\<lparr>dl_octets := dl_octets c + octets, dl_packets := dl_packets c + 1\<rparr>]\<rparr>)"

definition total_ul_octets :: "pfcp_session \<Rightarrow> u64" where
  "total_ul_octets s = foldl (\<lambda>t c. t + ul_octets c) 0 (s_counters s)"

definition total_dl_octets :: "pfcp_session \<Rightarrow> u64" where
  "total_dl_octets s = foldl (\<lambda>t c. t + dl_octets c) 0 (s_counters s)"

definition total_ul_packets :: "pfcp_session \<Rightarrow> u64" where
  "total_ul_packets s = foldl (\<lambda>t c. t + ul_packets c) 0 (s_counters s)"

definition total_dl_packets :: "pfcp_session \<Rightarrow> u64" where
  "total_dl_packets s = foldl (\<lambda>t c. t + dl_packets c) 0 (s_counters s)"

section \<open>Adding rules\<close>

text \<open>A FAR whose id is taken only patches the TEID of the existing one, in place.\<close>

definition patch_teid :: "u32 \<Rightarrow> pfcp_far \<Rightarrow> pfcp_far" where
  "patch_teid t f =
     (let fp = far_forwarding_parameters f; ohc = fp_outer_header_creation (ie_val fp)
      in f\<lparr>far_forwarding_parameters :=
             (present fp, (ie_val fp)\<lparr>fp_outer_header_creation := (present ohc, (ie_val ohc)\<lparr>ohc_teid := t\<rparr>)\<rparr>)\<rparr>)"

definition add_far :: "nat \<Rightarrow> pfcp_session \<Rightarrow> upf_switch \<Rightarrow> pfcp_session \<times> upf_switch" where
  "add_far r s sw =
     (let f = far_at sw r
      in case find (\<lambda>e. far_id (far_at sw e) = far_id f) (s_fars s) of
           Some e \<Rightarrow>
             (s, if present (far_forwarding_parameters f) \<and>
                    present (fp_outer_header_creation (ie_val (far_forwarding_parameters f)))
                 then sw\<lparr>far_heap := (far_heap sw)
                        (e \<mapsto> patch_teid (ohc_teid (ie_val (fp_outer_header_creation (ie_val (far_forwarding_parameters f)))))
                               (far_at sw e))\<rparr>
                 else sw)
         | None \<Rightarrow> (publish_fars (s\<lparr>s_fars := s_fars s @ [r]\<rparr>), sw))"

text \<open>A PDR whose id is taken is skipped.\<close>

abbreviation pdr_id_at :: "upf_switch \<Rightarrow> nat \<Rightarrow> u16" where "pdr_id_at sw r \<equiv> pdr_id (pdr_at sw r)"
abbreviation far_id_at :: "upf_switch \<Rightarrow> nat \<Rightarrow> u32" where "far_id_at sw r \<equiv> far_id (far_at sw r)"

definition pdrs_add :: "upf_switch \<Rightarrow> nat \<Rightarrow> nat list \<Rightarrow> nat list" where
  "pdrs_add sw r = push_unless (\<lambda>e. pdr_id_at sw e = pdr_id_at sw r) r"

definition add_pdr :: "upf_switch \<Rightarrow> nat \<Rightarrow> pfcp_session \<Rightarrow> pfcp_session" where
  "add_pdr sw r s = s\<lparr>s_pdrs := pdrs_add sw r (s_pdrs s)\<rparr>"

text \<open>The vectors of the rules kept by value: a QER whose id is taken is skipped, a URR, BAR or MAR
  takes the place of the existing one.\<close>

definition qer_key :: "pfcp_qer \<Rightarrow> u32" where "qer_key q = ie_val (qer_id q)"
definition urr_key :: "pfcp_urr \<Rightarrow> u32" where "urr_key q = ie_val (urr_id q)"
definition bar_key :: "pfcp_bar \<Rightarrow> u8" where "bar_key q = ie_val (bar_id q)"
definition mar_key :: "pfcp_mar \<Rightarrow> u8" where "mar_key q = ie_val (mar_id q)"

definition qers_add :: "pfcp_qer \<Rightarrow> pfcp_qer list \<Rightarrow> pfcp_qer list" where
  "qers_add q = push_unless (\<lambda>e. qer_key e = qer_key q) q"

definition add_qer :: "pfcp_qer \<Rightarrow> pfcp_session \<Rightarrow> pfcp_session" where
  "add_qer q s = (if \<not> present (qer_id q) then s else s\<lparr>s_qers := qers_add q (s_qers s)\<rparr>)"

definition urrs_add :: "pfcp_urr \<Rightarrow> pfcp_urr list \<Rightarrow> pfcp_urr list" where
  "urrs_add q = replace_or_push (\<lambda>e. urr_key e = urr_key q) q"

definition bars_add :: "pfcp_bar \<Rightarrow> pfcp_bar list \<Rightarrow> pfcp_bar list" where
  "bars_add q = replace_or_push (\<lambda>e. bar_key e = bar_key q) q"

definition mars_add :: "pfcp_mar \<Rightarrow> pfcp_mar list \<Rightarrow> pfcp_mar list" where
  "mars_add q = replace_or_push (\<lambda>e. mar_key e = mar_key q) q"

definition add_urr :: "pfcp_urr \<Rightarrow> pfcp_session \<Rightarrow> pfcp_session" where
  "add_urr q s = s\<lparr>s_urrs := urrs_add q (s_urrs s)\<rparr>"

definition add_bar :: "pfcp_bar \<Rightarrow> pfcp_session \<Rightarrow> pfcp_session" where
  "add_bar q s = s\<lparr>s_bars := bars_add q (s_bars s)\<rparr>"

definition add_mar :: "pfcp_mar \<Rightarrow> pfcp_session \<Rightarrow> pfcp_session" where
  "add_mar q s = s\<lparr>s_mars := mars_add q (s_mars s)\<rparr>"

section \<open>URR\<close>

definition create_urr :: "pfcp_urr \<Rightarrow> status \<Rightarrow> pfcp_session \<Rightarrow> pfcp_session \<times> status \<times> bool" where
  "create_urr c st s =
     (if \<not> present (urr_id c) then (s, (CAUSE_VALUE_MANDATORY_IE_MISSING, PFCP_IE_URR_ID), False)
      else if \<not> present (urr_measurement_method c)
      then (s, (CAUSE_VALUE_MANDATORY_IE_MISSING, PFCP_IE_MEASUREMENT_METHOD), False)
      else if \<not> present (urr_reporting_triggers c)
      then (s, (CAUSE_VALUE_MANDATORY_IE_MISSING, PFCP_IE_REPORTING_TRIGGERS), False)
      else (add_urr (urr_of_create c) s, (CAUSE_VALUE_REQUEST_ACCEPTED, snd st), True))"

text \<open>The session writes a subset of the elements itself instead of calling \<open>pfcp_urr::update\<close>.\<close>

definition urr_patch :: "pfcp_urr \<Rightarrow> pfcp_urr \<Rightarrow> pfcp_urr" where
  "urr_patch u r =
     r\<lparr>urr_measurement_method := merge_ie (urr_measurement_method u) (urr_measurement_method r),
       urr_reporting_triggers := merge_ie (urr_reporting_triggers u) (urr_reporting_triggers r),
       urr_measurement_period := merge_ie (urr_measurement_period u) (urr_measurement_period r),
       urr_volume_threshold := merge_ie (urr_volume_threshold u) (urr_volume_threshold r),
       urr_volume_quota := merge_ie (urr_volume_quota u) (urr_volume_quota r),
       urr_time_threshold := merge_ie (urr_time_threshold u) (urr_time_threshold r),
       urr_time_quota := merge_ie (urr_time_quota u) (urr_time_quota r),
       urr_quota_holding_time := merge_ie (urr_quota_holding_time u) (urr_quota_holding_time r),
       urr_monitoring_time := merge_ie (urr_monitoring_time u) (urr_monitoring_time r),
       urr_linked_urr_id := merge_ie (urr_linked_urr_id u) (urr_linked_urr_id r)\<rparr>"

definition update_urr :: "pfcp_urr \<Rightarrow> pfcp_session \<Rightarrow> pfcp_session \<times> pfcp_cause \<times> bool" where
  "update_urr u s =
     (if \<not> present (urr_id u) then (s, CAUSE_VALUE_RULE_CREATION_MODIFICATION_FAILURE, False)
      else case find (\<lambda>e. urr_key e = ie_val (urr_id u)) (s_urrs s) of
             Some _ \<Rightarrow>
               (s\<lparr>s_urrs := update_first (\<lambda>e. urr_key e = ie_val (urr_id u)) (urr_patch u) (s_urrs s)\<rparr>,
                CAUSE_VALUE_REQUEST_ACCEPTED, True)
           | None \<Rightarrow> (s, CAUSE_VALUE_RULE_CREATION_MODIFICATION_FAILURE, False))"

definition remove_urr :: "u32 ie \<Rightarrow> status \<Rightarrow> pfcp_session \<Rightarrow> pfcp_session \<times> status \<times> bool" where
  "remove_urr i st s =
     (if \<not> present i then (s, (CAUSE_VALUE_MANDATORY_IE_MISSING, PFCP_IE_URR_ID), False)
      else case erase_first (\<lambda>e. urr_key e = ie_val i) (s_urrs s) of
             Some us \<Rightarrow> (s\<lparr>s_urrs := us\<rparr>, (CAUSE_VALUE_REQUEST_ACCEPTED, snd st), True)
           | None \<Rightarrow> (s, (CAUSE_VALUE_RULE_CREATION_MODIFICATION_FAILURE, PFCP_IE_URR_ID), False))"

section \<open>BAR\<close>

definition create_bar :: "create_bar_ie \<Rightarrow> status \<Rightarrow> pfcp_session \<Rightarrow> pfcp_session \<times> status \<times> bool" where
  "create_bar c st s =
     (if \<not> present (cbar_bar_id c) then (s, (CAUSE_VALUE_MANDATORY_IE_MISSING, PFCP_IE_BAR_ID), False)
      else (add_bar (bar_of_create c) s, (CAUSE_VALUE_REQUEST_ACCEPTED, snd st), True))"

text \<open>The loop body patches the same two elements as \<open>pfcp_bar::update\<close>.\<close>

definition update_bar :: "update_bar_ie \<Rightarrow> pfcp_session \<Rightarrow> pfcp_session \<times> pfcp_cause \<times> bool" where
  "update_bar u s =
     (if \<not> present (ubar_bar_id u) then (s, CAUSE_VALUE_RULE_CREATION_MODIFICATION_FAILURE, False)
      else case find (\<lambda>e. bar_key e = ie_val (ubar_bar_id u)) (s_bars s) of
             Some _ \<Rightarrow>
               (s\<lparr>s_bars := update_first (\<lambda>e. bar_key e = ie_val (ubar_bar_id u)) (\<lambda>b. fst (bar_update u b)) (s_bars s)\<rparr>,
                CAUSE_VALUE_REQUEST_ACCEPTED, True)
           | None \<Rightarrow> (s, CAUSE_VALUE_RULE_CREATION_MODIFICATION_FAILURE, False))"

definition remove_bar :: "u8 ie \<Rightarrow> status \<Rightarrow> pfcp_session \<Rightarrow> pfcp_session \<times> status \<times> bool" where
  "remove_bar i st s =
     (if \<not> present i then (s, (CAUSE_VALUE_MANDATORY_IE_MISSING, PFCP_IE_BAR_ID), False)
      else case erase_first (\<lambda>e. bar_key e = ie_val i) (s_bars s) of
             Some bs \<Rightarrow> (s\<lparr>s_bars := bs\<rparr>, (CAUSE_VALUE_REQUEST_ACCEPTED, snd st), True)
           | None \<Rightarrow> (s, (CAUSE_VALUE_RULE_CREATION_MODIFICATION_FAILURE, PFCP_IE_BAR_ID), False))"

section \<open>MAR\<close>

definition create_mar :: "mar_ies \<Rightarrow> status \<Rightarrow> pfcp_session \<Rightarrow> pfcp_session \<times> status \<times> bool" where
  "create_mar c st s =
     (if \<not> present (cmar_mar_id c) then (s, (CAUSE_VALUE_MANDATORY_IE_MISSING, PFCP_IE_MAR_ID), False)
      else (add_mar (mar_of_create c) s, (CAUSE_VALUE_REQUEST_ACCEPTED, snd st), True))"

definition update_mar :: "mar_ies \<Rightarrow> pfcp_session \<Rightarrow> pfcp_session \<times> pfcp_cause \<times> bool" where
  "update_mar u s =
     (if \<not> present (cmar_mar_id u) then (s, CAUSE_VALUE_RULE_CREATION_MODIFICATION_FAILURE, False)
      else case find (\<lambda>e. mar_key e = ie_val (cmar_mar_id u)) (s_mars s) of
             Some _ \<Rightarrow>
               (s\<lparr>s_mars := update_first (\<lambda>e. mar_key e = ie_val (cmar_mar_id u)) (mar_update u) (s_mars s)\<rparr>,
                CAUSE_VALUE_REQUEST_ACCEPTED, True)
           | None \<Rightarrow> (s, CAUSE_VALUE_RULE_CREATION_MODIFICATION_FAILURE, False))"

definition remove_mar :: "u8 ie \<Rightarrow> status \<Rightarrow> pfcp_session \<Rightarrow> pfcp_session \<times> status \<times> bool" where
  "remove_mar i st s =
     (if \<not> present i then (s, (CAUSE_VALUE_MANDATORY_IE_MISSING, PFCP_IE_MAR_ID), False)
      else case erase_first (\<lambda>e. mar_key e = ie_val i) (s_mars s) of
             Some ms \<Rightarrow> (s\<lparr>s_mars := ms\<rparr>, (CAUSE_VALUE_REQUEST_ACCEPTED, snd st), True)
           | None \<Rightarrow> (s, (CAUSE_VALUE_RULE_CREATION_MODIFICATION_FAILURE, PFCP_IE_MAR_ID), False))"

section \<open>PDR\<close>

text \<open>An update works on a copy that takes the slot of the old rule, then moves the tables onto it.\<close>

definition pdr_patch :: "upf_env \<Rightarrow> update_pdr_ie \<Rightarrow> pfcp_pdr \<Rightarrow> pfcp_pdr" where
  "pdr_patch env u p =
     (let p1 = (if present (updr_far_id u) then p\<lparr>pdr_far_id := updr_far_id u\<rparr> else p);
          p2 = (if present (updr_qer_id u) then p1\<lparr>pdr_qer_id := updr_qer_id u\<rparr> else p1);
          p3 = (if present (updr_precedence u) then p2\<lparr>pdr_precedence := updr_precedence u\<rparr> else p2)
      in (if present (updr_pdi u) then pdr_set_pdi env (ie_val (updr_pdi u)) p3 else p3))"

definition update_pdr ::
    "upf_env \<Rightarrow> update_pdr_ie \<Rightarrow> pfcp_session \<Rightarrow> upf_switch \<Rightarrow> pfcp_session \<times> upf_switch \<times> pfcp_cause \<times> bool" where
  "update_pdr env u s sw =
     (if \<not> present (updr_pdr_id u) then (s, sw, CAUSE_VALUE_MANDATORY_IE_MISSING, False)
      else case get_pdr sw s (ie_val (updr_pdr_id u)) of
             Some old_pdr \<Rightarrow>
               (case new_pdr (pdr_patch env u (pdr_at sw old_pdr)) sw of (r, sw1) \<Rightarrow>
                  (s\<lparr>s_pdrs := update_first (\<lambda>e. pdr_id (pdr_at sw e) = ie_val (updr_pdr_id u)) (\<lambda>_. r) (s_pdrs s)\<rparr>,
                   replace_pdr_in_lookup env old_pdr r sw1, CAUSE_VALUE_REQUEST_ACCEPTED, True))
           | None \<Rightarrow> (s, sw, CAUSE_VALUE_RULE_CREATION_MODIFICATION_FAILURE, False))"

definition remove_pdr :: "u16 ie \<Rightarrow> status \<Rightarrow> upf_switch \<Rightarrow> pfcp_session \<Rightarrow> pfcp_session \<times> status \<times> bool" where
  "remove_pdr i st sw s =
     (if \<not> present i then (s, (CAUSE_VALUE_MANDATORY_IE_MISSING, PFCP_IE_PACKET_DETECTION_RULE_ID), False)
      else case erase_first (\<lambda>e. pdr_id (pdr_at sw e) = ie_val i) (s_pdrs s) of
             Some ps \<Rightarrow> (s\<lparr>s_pdrs := ps\<rparr>, (CAUSE_VALUE_REQUEST_ACCEPTED, snd st), True)
           | None \<Rightarrow> (s, (CAUSE_VALUE_RULE_CREATION_MODIFICATION_FAILURE, PFCP_IE_PACKET_DETECTION_RULE_ID), False))"

section \<open>FAR\<close>

definition far_patch :: "update_far_ie \<Rightarrow> pfcp_far \<Rightarrow> pfcp_far" where
  "far_patch u f =
     (let f1 = (if present (ufar_apply_action u) then f\<lparr>far_apply_action := ie_val (ufar_apply_action u)\<rparr> else f);
          n = ie_val (ufar_update_forwarding_parameters u);
          f2 = (if present (fp_destination_interface n)
                then f1\<lparr>far_forwarding_parameters :=
                       (True, (ie_val (far_forwarding_parameters f1))
                                \<lparr>fp_destination_interface := fp_destination_interface n\<rparr>)\<rparr>
                else f1);
          f3 = (if present (fp_outer_header_creation n)
                then f2\<lparr>far_forwarding_parameters :=
                       (True, (ie_val (far_forwarding_parameters f2))
                                \<lparr>fp_outer_header_creation := fp_outer_header_creation n\<rparr>)\<rparr>
                else f2);
          f4 = (if present (fp_network_instance n)
                then f3\<lparr>far_forwarding_parameters :=
                       (present (far_forwarding_parameters f3),
                        (ie_val (far_forwarding_parameters f3))\<lparr>fp_network_instance := fp_network_instance n\<rparr>)\<rparr>
                else f3)
      in if present (ufar_update_forwarding_parameters u) then f4 else f1)"

definition update_far ::
    "update_far_ie \<Rightarrow> pfcp_session \<Rightarrow> upf_switch \<Rightarrow> pfcp_session \<times> upf_switch \<times> pfcp_cause \<times> bool" where
  "update_far u s sw =
     (case get_far sw s (ufar_far_id u) of
        Some old_far \<Rightarrow>
          (case new_far (far_patch u (far_at sw old_far)) sw of (r, sw1) \<Rightarrow>
             (publish_fars
                (s\<lparr>s_fars := update_first (\<lambda>e. far_id (far_at sw e) = ufar_far_id u) (\<lambda>_. r) (s_fars s)\<rparr>),
              sw1, CAUSE_VALUE_REQUEST_ACCEPTED, True))
      | None \<Rightarrow> (s, sw, CAUSE_VALUE_RULE_CREATION_MODIFICATION_FAILURE, False))"

definition remove_far :: "u32 ie \<Rightarrow> status \<Rightarrow> upf_switch \<Rightarrow> pfcp_session \<Rightarrow> pfcp_session \<times> status \<times> bool" where
  "remove_far i st sw s =
     (if \<not> present i then (s, (CAUSE_VALUE_MANDATORY_IE_MISSING, PFCP_IE_FAR_ID), False)
      else case erase_first (\<lambda>e. far_id (far_at sw e) = ie_val i) (s_fars s) of
             Some fs \<Rightarrow> (publish_fars (s\<lparr>s_fars := fs\<rparr>), (CAUSE_VALUE_REQUEST_ACCEPTED, snd st), True)
           | None \<Rightarrow> (s, (CAUSE_VALUE_RULE_CREATION_MODIFICATION_FAILURE, PFCP_IE_FAR_ID), False))"

definition create_far ::
    "create_far_ie \<Rightarrow> status \<Rightarrow> pfcp_session \<Rightarrow> upf_switch \<Rightarrow> pfcp_session \<times> upf_switch \<times> status \<times> bool" where
  "create_far c st s sw =
     (if \<not> present (cfar_far_id c)
      then (s, sw, (CAUSE_VALUE_MANDATORY_IE_MISSING, PFCP_IE_FAR_ID), False)
      else if \<not> present (cfar_apply_action c)
      then (s, sw, (CAUSE_VALUE_MANDATORY_IE_MISSING, PFCP_IE_APPLY_ACTION), False)
      else if aa_forw (ie_val (cfar_apply_action c)) \<and> \<not> present (cfar_forwarding_parameters c)
      then (s, sw, (CAUSE_VALUE_MANDATORY_IE_MISSING, PFCP_IE_FORWARDING_PARAMETERS), False)
      else if aa_dupl (ie_val (cfar_apply_action c)) \<and> \<not> present (cfar_duplicating_parameters c)
      then (s, sw, (CAUSE_VALUE_MANDATORY_IE_MISSING, PFCP_IE_DUPLICATING_PARAMETERS), False)
      else case new_far (far_of_create c) sw of (r, sw1) \<Rightarrow>
             (case add_far r s sw1 of (s', sw2) \<Rightarrow> (s', sw2, (CAUSE_VALUE_REQUEST_ACCEPTED, snd st), True)))"

section \<open>QER\<close>

definition update_qer :: "pfcp_qer \<Rightarrow> pfcp_session \<Rightarrow> pfcp_session \<times> pfcp_cause \<times> bool" where
  "update_qer u s =
     (if \<not> present (qer_id u) then (s, CAUSE_VALUE_MANDATORY_IE_MISSING, False)
      else case find (\<lambda>e. qer_key e = ie_val (qer_id u)) (s_qers s) of
             Some _ \<Rightarrow>
               (s\<lparr>s_qers := update_first (\<lambda>e. qer_key e = ie_val (qer_id u)) (\<lambda>q. fst (qer_update u q)) (s_qers s)\<rparr>,
                CAUSE_VALUE_REQUEST_ACCEPTED, True)
           | None \<Rightarrow> (s, CAUSE_VALUE_RULE_CREATION_MODIFICATION_FAILURE, False))"

definition remove_qer :: "u32 ie \<Rightarrow> status \<Rightarrow> pfcp_session \<Rightarrow> pfcp_session \<times> status \<times> bool" where
  "remove_qer i st s =
     (if \<not> present i then (s, (CAUSE_VALUE_MANDATORY_IE_MISSING, PFCP_IE_QER_ID), False)
      else case erase_first (\<lambda>e. qer_key e = ie_val i) (s_qers s) of
             Some qs \<Rightarrow> (s\<lparr>s_qers := qs\<rparr>, (CAUSE_VALUE_REQUEST_ACCEPTED, snd st), True)
           | None \<Rightarrow> (s, (CAUSE_VALUE_RULE_CREATION_MODIFICATION_FAILURE, PFCP_IE_QER_ID), False))"

text \<open>A missing QER id only writes the status; the rest of the checks go on.\<close>

definition create_qer :: "pfcp_qer \<Rightarrow> status \<Rightarrow> pfcp_session \<Rightarrow> pfcp_session \<times> status \<times> bool" where
  "create_qer c st s =
     (let st1 = (if \<not> present (qer_id c) then (CAUSE_VALUE_CONDITIONAL_IE_MISSING, PFCP_IE_QER_ID) else st);
          has_mbr = present (qer_maximum_bitrate c);
          has_gbr = present (qer_guaranteed_bitrate c)
      in if \<not> has_mbr \<and> has_gbr then (s, (CAUSE_VALUE_CONDITIONAL_IE_MISSING, PFCP_IE_MBR), False)
         else if \<not> present (qer_qos_flow_id c)
         then (s, (CAUSE_VALUE_CONDITIONAL_IE_MISSING, PFCP_IE_QFI), False)
         else (add_qer (qer_of_create c) s, (CAUSE_VALUE_REQUEST_ACCEPTED, snd st1), True))"

section \<open>Create PDR\<close>

text \<open>The F-TEID of an uplink PDR: with CHOOSE, the one already chosen for its CHOOSE id or a new one
  remembered under that id; otherwise the one the control plane sent.\<close>

definition allocate_fteid ::
    "upf_env \<Rightarrow> uids \<Rightarrow> fteid \<Rightarrow> pfcp_session \<Rightarrow> upf_switch \<Rightarrow> fteid \<times> pfcp_session \<times> upf_switch" where
  "allocate_fteid env g local_fteid s sw =
     (if ft_ch local_fteid
      then (case (if ft_chid local_fteid then s_chosen_fteids s (ft_choose_id local_fteid) else None) of
              Some f \<Rightarrow> (f, s, sw)
            | None \<Rightarrow>
                (case generate_fteid_n3 env g sw of (f, sw1) \<Rightarrow>
                   (f, if ft_chid local_fteid
                       then s\<lparr>s_chosen_fteids := (s_chosen_fteids s)(ft_choose_id local_fteid \<mapsto> f)\<rparr> else s,
                    sw1)))
      else (local_fteid, s, sw))"

text \<open>\<open>pdi.second.set(fteid)\<close>.\<close>

definition pdr_set_fteid :: "fteid \<Rightarrow> pfcp_pdr \<Rightarrow> pfcp_pdr" where
  "pdr_set_fteid f p =
     p\<lparr>pdr_pdi := (present (pdr_pdi p), (ie_val (pdr_pdi p))\<lparr>pdi_local_fteid := (True, f)\<rparr>)\<rparr>"

definition modify_pdr :: "nat \<Rightarrow> (pfcp_pdr \<Rightarrow> pfcp_pdr) \<Rightarrow> upf_switch \<Rightarrow> upf_switch" where
  "modify_pdr r f sw = sw\<lparr>pdr_heap := (pdr_heap sw)(r \<mapsto> f (pdr_at sw r))\<rparr>"

text \<open>The branch for ACCESS and CP_FUNCTION. \<open>get(fteid)\<close> and \<open>create_packet_in_access\<close> always return
  true; their failure branches are kept.\<close>

definition create_uplink_pdr ::
    "upf_env \<Rightarrow> uids \<Rightarrow> create_pdr_ie \<Rightarrow> status \<Rightarrow> pfcp_session \<Rightarrow> upf_switch \<Rightarrow>
     pfcp_session \<times> upf_switch \<times> status \<times> fteid \<times> bool" where
  "create_uplink_pdr env g c st s sw =
     (let d = ie_val (cpdr_pdi c)
      in if \<not> present (pdi_local_fteid d)
         then (s, sw, (CAUSE_VALUE_MANDATORY_IE_MISSING, PFCP_IE_F_TEID), fteid_zero, False)
         else case allocate_fteid env g (ie_val (pdi_local_fteid d)) s sw of (f, s1, sw1) \<Rightarrow>
           (case new_pdr (if ft_ch (ie_val (pdi_local_fteid d)) then pdr_set_fteid f (pdr_of_create env c)
                          else pdr_of_create env c) sw1 of (r, sw2) \<Rightarrow>
              let s2 = session_set_fteid f s1
              in if \<not> snd (session_get_fteid s2)
                 then (s2, sw2, (CAUSE_VALUE_REQUEST_REJECTED, snd st), f, False)
                 else (case create_packet_in_access r f sw2 of (sw3, _, ok) \<Rightarrow>
                         if ok
                         then let sw4 = modify_pdr r (pdr_set_seid (get_up_seid s2)) sw3
                              in (add_pdr sw4 r s2, sw4, st, f, True)
                         else (s2, sw3, (CAUSE_VALUE_REQUEST_REJECTED, snd st), f, False))))"

text \<open>The branch for CORE.\<close>

definition create_downlink_pdr ::
    "upf_env \<Rightarrow> create_pdr_ie \<Rightarrow> status \<Rightarrow> pfcp_session \<Rightarrow> upf_switch \<Rightarrow>
     pfcp_session \<times> upf_switch \<times> status \<times> fteid \<times> bool" where
  "create_downlink_pdr env c st s sw =
     (let d = ie_val (cpdr_pdi c)
      in case new_pdr (pdr_set_seid (get_up_seid s) (pdr_of_create env c)) sw of (r, sw1) \<Rightarrow>
           if present (pdi_ue_ip_address d) \<and> ue_v4 (ie_val (pdi_ue_ip_address d))
           then let sw2 = add_pfcp_dl_pdr_by_ue_ip env (bswap32 (ue_ipv4_address (ie_val (pdi_ue_ip_address d)))) r sw1
                in (add_pdr sw2 r s, sw2, st, fteid_zero, True)
           else if present (pdi_ethernet_pdu_session_information d)
           then (add_pdr sw1 r s, sw1, st, fteid_zero, True)
           else (s, sw1, (CAUSE_VALUE_REQUEST_REJECTED, snd st), fteid_zero, False))"

definition create_pdr ::
    "upf_env \<Rightarrow> uids \<Rightarrow> create_pdr_ie \<Rightarrow> status \<Rightarrow> pfcp_session \<Rightarrow> upf_switch \<Rightarrow>
     pfcp_session \<times> upf_switch \<times> status \<times> fteid \<times> bool" where
  "create_pdr env g c st s sw =
     (let d = ie_val (cpdr_pdi c); si = pdi_source_interface d
      in if \<not> present (cpdr_pdr_id c)
         then (s, sw, (CAUSE_VALUE_MANDATORY_IE_MISSING, PFCP_IE_PACKET_DETECTION_RULE_ID), fteid_zero, False)
         else if \<not> present (cpdr_pdi c)
         then (s, sw, (CAUSE_VALUE_MANDATORY_IE_MISSING, PFCP_IE_PDI), fteid_zero, False)
         else if \<not> present (cpdr_precedence c)
         then (s, sw, (CAUSE_VALUE_MANDATORY_IE_MISSING, PFCP_IE_PRECEDENCE), fteid_zero, False)
         else if \<not> present si
         then (s, sw, (CAUSE_VALUE_MANDATORY_IE_MISSING, PFCP_IE_SOURCE_INTERFACE), fteid_zero, False)
         else if present (pdi_traffic_endpoint_id d)
         then (s, sw, (CAUSE_VALUE_REQUEST_REJECTED, snd st), fteid_zero, False)
         else (case (if ie_val si = INTERFACE_VALUE_ACCESS \<or> ie_val si = INTERFACE_VALUE_CP_FUNCTION
                     then create_uplink_pdr env g c st s sw
                     else if ie_val si = INTERFACE_VALUE_CORE then create_downlink_pdr env c st s sw
                     else (s, sw, (CAUSE_VALUE_REQUEST_REJECTED, snd st), fteid_zero, False)) of
                 (s1, sw1, st1, f, ok) \<Rightarrow>
                   if \<not> ok then (s1, sw1, st1, f, False)
                   else let s2 = (if present (pdi_ethernet_pdu_session_information d) \<or>
                                     present (pdi_ethernet_packet_filter d)
                                  then session_set_pdn_type PDN_ETHERNET s1 else s1)
                        in (s2, sw1, (CAUSE_VALUE_REQUEST_ACCEPTED, snd st1), f, True)))"

section \<open>Cleanup\<close>

text \<open>The tests of the loop are those of \<open>key_of\<close>.\<close>

definition cleanup_pdr :: "upf_env \<Rightarrow> nat \<Rightarrow> upf_switch \<Rightarrow> upf_switch" where
  "cleanup_pdr env r sw =
     (case key_of (pdr_at sw r) of
        None \<Rightarrow> sw
      | Some (UlKey teid) \<Rightarrow> remove_pfcp_ul_pdrs_by_up_teid teid sw
      | Some (DlKey ue_ip) \<Rightarrow> remove_pfcp_dl_pdrs_by_ue_ip env ue_ip sw)"

definition cleanup :: "upf_env \<Rightarrow> pfcp_session \<Rightarrow> upf_switch \<Rightarrow> pfcp_session \<times> upf_switch" where
  "cleanup env s sw =
     ((publish_fars (s\<lparr>s_fars := []\<rparr>))
        \<lparr>s_pdrs := [], s_urrs := [], s_bars := [], s_mars := [], s_chosen_fteids := Map.empty\<rparr>,
      fold (cleanup_pdr env) (s_pdrs s) sw)"

section \<open>The rule vectors meet their contract\<close>

definition fars_add :: "upf_switch \<Rightarrow> nat \<Rightarrow> nat list \<Rightarrow> nat list" where
  "fars_add sw r = push_unless (\<lambda>e. far_id_at sw e = far_id_at sw r) r"

lemma s_fars_add_far: "s_fars (fst (add_far r s sw)) = fars_add sw r (s_fars s)"
  by (simp add: add_far_def fars_add_def push_unless_def publish_fars_def Let_def split: option.splits)

interpretation pdr_vec: rule_vector "pdr_id_at sw" "pdrs_add sw" for sw
  unfolding pdrs_add_def by (rule rule_vector_push)

interpretation far_vec: rule_vector "far_id_at sw" "fars_add sw" for sw
  unfolding fars_add_def by (rule rule_vector_push)

interpretation qer_vec: rule_vector qer_key qers_add
  unfolding qers_add_def by (rule rule_vector_push)

interpretation urr_vec: rule_vector urr_key urrs_add
  unfolding urrs_add_def by (rule rule_vector_replace)

interpretation bar_vec: rule_vector bar_key bars_add
  unfolding bars_add_def by (rule rule_vector_replace)

interpretation mar_vec: rule_vector mar_key mars_add
  unfolding mars_add_def by (rule rule_vector_replace)

end
