(* ===== verification/SessionInv.thy ===== *)
theory SessionInv
  imports PfcpSession
begin

text \<open>
  What the session operations keep: one rule per id in every vector, references that are alive, the
  published FAR view in step with the FARs, and rules that are never edited once made. A run of
  any operations from a new session is considered, with other activity on the same switch allowed
  in between as long as it only makes new objects or changes the mutable fields of a PDR.
\<close>

section \<open>How the heaps may change\<close>

text \<open>The fields of a PDR other than those the control plane refreshes in place.\<close>

definition pdr_rule :: "pfcp_pdr \<Rightarrow> pfcp_pdr" where
  "pdr_rule p = p\<lparr>pdr_tx_qfi := 0, pdr_qos := None, pdr_notified_cp := False\<rparr>"

definition heap_ok :: "upf_switch \<Rightarrow> bool" where
  "heap_ok sw \<longleftrightarrow> (\<forall>r \<ge> next_ref sw. pdr_heap sw r = None \<and> far_heap sw r = None)"

text \<open>Every object of \<open>h\<close> is still there in \<open>h'\<close>, with the same \<open>f\<close>.\<close>

definition keeps :: "('o \<Rightarrow> 'c) \<Rightarrow> (nat \<rightharpoonup> 'o) \<Rightarrow> (nat \<rightharpoonup> 'o) \<Rightarrow> bool" where
  "keeps f h h' \<longleftrightarrow> (\<forall>r x. h r = Some x \<longrightarrow> (\<exists>x'. h' r = Some x' \<and> f x' = f x))"

lemma keepsD: "keeps f h h' \<Longrightarrow> h r = Some x \<Longrightarrow> \<exists>x'. h' r = Some x' \<and> f x' = f x"
  by (simp add: keeps_def)

lemma keeps_refl [simp]: "keeps f h h"
  by (simp add: keeps_def)

lemma keeps_trans:
  assumes "keeps f h h1" "keeps f h1 h2"
  shows "keeps f h h2"
  unfolding keeps_def
proof (intro allI impI)
  fix r x assume "h r = Some x"
  then obtain x1 where "h1 r = Some x1" "f x1 = f x" using keepsD [OF assms(1)] by blast
  then show "\<exists>x'. h2 r = Some x' \<and> f x' = f x" using keepsD [OF assms(2)] by fastforce
qed

lemma keeps_new: "h r = None \<Longrightarrow> keeps f h (h(r \<mapsto> x))"
  by (auto simp: keeps_def)

lemma keeps_upd: "h r = Some x \<Longrightarrow> f x' = f x \<Longrightarrow> keeps f h (h(r \<mapsto> x'))"
  by (auto simp: keeps_def)

lemma keeps_dom: "keeps f h h' \<Longrightarrow> dom h \<subseteq> dom h'"
  by (fastforce simp: keeps_def)

lemma keeps_the: "keeps f h h' \<Longrightarrow> r \<in> dom h \<Longrightarrow> f (the (h' r)) = f (the (h r))"
  by (fastforce simp: keeps_def)

definition evolves :: "upf_switch \<Rightarrow> upf_switch \<Rightarrow> bool" where
  "evolves sw sw' \<longleftrightarrow> next_ref sw \<le> next_ref sw' \<and>
     keeps pdr_rule (pdr_heap sw) (pdr_heap sw') \<and> keeps far_id (far_heap sw) (far_heap sw')"

lemma pdr_rule_fields [simp]: "pdr_id (pdr_rule p) = pdr_id p" "pdr_pdi (pdr_rule p) = pdr_pdi p"
  by (simp_all add: pdr_rule_def)

lemma pdr_rule_eqD:
  assumes "pdr_rule p' = pdr_rule p"
  shows "pdr_id p' = pdr_id p" "pdr_pdi p' = pdr_pdi p"
  using arg_cong [OF assms, of pdr_id] arg_cong [OF assms, of pdr_pdi] by simp_all

lemma evolves_refl [simp]: "evolves sw sw"
  by (simp add: evolves_def)

lemma evolves_trans: "evolves sw sw1 \<Longrightarrow> evolves sw1 sw2 \<Longrightarrow> evolves sw sw2"
  using keeps_trans [of pdr_rule "pdr_heap sw" "pdr_heap sw1" "pdr_heap sw2"]
    keeps_trans [of far_id "far_heap sw" "far_heap sw1" "far_heap sw2"] by (simp add: evolves_def)

lemma evolves_heaps: "heaps sw' = heaps sw1 \<Longrightarrow> evolves sw sw1 \<Longrightarrow> evolves sw sw'"
  using heaps_eqD [of sw' sw1] by (simp add: evolves_def)

lemma heap_ok_heaps: "heaps sw' = heaps sw \<Longrightarrow> heap_ok sw' = heap_ok sw"
  using heaps_eqD [of sw' sw] by (simp add: heap_ok_def)

lemma new_pdr_fields [simp]:
  "pdr_heap (snd (new_pdr p sw)) = (pdr_heap sw)(next_ref sw \<mapsto> p)" "far_heap (snd (new_pdr p sw)) = far_heap sw"
  "next_ref (snd (new_pdr p sw)) = Suc (next_ref sw)" "fst (new_pdr p sw) = next_ref sw"
  by (simp_all add: new_pdr_def)

lemma new_far_fields [simp]:
  "pdr_heap (snd (new_far f sw)) = pdr_heap sw" "far_heap (snd (new_far f sw)) = (far_heap sw)(next_ref sw \<mapsto> f)"
  "next_ref (snd (new_far f sw)) = Suc (next_ref sw)" "fst (new_far f sw) = next_ref sw"
  by (simp_all add: new_far_def)

lemma heap_ok_new [simp]:
  "heap_ok sw \<Longrightarrow> heap_ok (snd (new_pdr p sw))" "heap_ok sw \<Longrightarrow> heap_ok (snd (new_far f sw))"
  by (auto simp: heap_ok_def)

lemma evolves_new:
  assumes "heap_ok sw"
  shows "evolves sw (snd (new_pdr p sw))" "evolves sw (snd (new_far f sw))"
  using assms by (simp_all add: evolves_def heap_ok_def keeps_new)

section \<open>The invariant\<close>

definition pdrs_ok :: "upf_switch \<Rightarrow> nat list \<Rightarrow> bool" where
  "pdrs_ok sw rs \<longleftrightarrow> set rs \<subseteq> dom (pdr_heap sw) \<and> distinct (map (pdr_id_at sw) rs)"

definition fars_ok :: "upf_switch \<Rightarrow> nat list \<Rightarrow> bool" where
  "fars_ok sw rs \<longleftrightarrow> set rs \<subseteq> dom (far_heap sw) \<and> distinct (map (far_id_at sw) rs)"

definition view_ok :: "pfcp_session \<Rightarrow> bool" where
  "view_ok s \<longleftrightarrow> s_fars_view s = Some (s_fars s) \<or> s_fars_view s = None \<and> s_fars s = []"

definition values_ok :: "pfcp_session \<Rightarrow> bool" where
  "values_ok s \<longleftrightarrow>
     distinct (map qer_key (s_qers s)) \<and> (\<forall>q \<in> set (s_qers s). present (qer_id q)) \<and>
     distinct (map urr_key (s_urrs s)) \<and> (\<forall>q \<in> set (s_urrs s). present (urr_id q)) \<and>
     distinct (map bar_key (s_bars s)) \<and> (\<forall>q \<in> set (s_bars s). present (bar_id q)) \<and>
     distinct (map mar_key (s_mars s)) \<and> (\<forall>q \<in> set (s_mars s). present (mar_id q)) \<and>
     length (s_counters s) = COUNTER_SHARDS"

definition session_inv :: "upf_switch \<Rightarrow> pfcp_session \<Rightarrow> bool" where
  "session_inv sw s \<longleftrightarrow> pdrs_ok sw (s_pdrs s) \<and> fars_ok sw (s_fars s) \<and> view_ok s \<and> values_ok s"

lemma pdr_ids_evolve:
  assumes "pdrs_ok sw rs" "evolves sw sw'"
  shows "\<forall>r \<in> set rs. pdr_id_at sw' r = pdr_id_at sw r"
proof
  fix r assume "r \<in> set rs"
  then have "r \<in> dom (pdr_heap sw)" using assms(1) by (auto simp: pdrs_ok_def)
  then have "pdr_rule (pdr_at sw' r) = pdr_rule (pdr_at sw r)"
    using assms(2) keeps_the unfolding evolves_def by blast
  then show "pdr_id_at sw' r = pdr_id_at sw r" by (rule pdr_rule_eqD)
qed

lemma far_ids_evolve:
  assumes "fars_ok sw rs" "evolves sw sw'"
  shows "\<forall>r \<in> set rs. far_id_at sw' r = far_id_at sw r"
proof
  fix r assume "r \<in> set rs"
  then have "r \<in> dom (far_heap sw)" using assms(1) by (auto simp: fars_ok_def)
  then show "far_id_at sw' r = far_id_at sw r"
    using assms(2) keeps_the unfolding evolves_def by blast
qed

lemma pdrs_ok_evolves:
  assumes "pdrs_ok sw rs" "evolves sw sw'"
  shows "pdrs_ok sw' rs"
proof -
  have "map (pdr_id_at sw') rs = map (pdr_id_at sw) rs" using pdr_ids_evolve [OF assms] by simp
  moreover have "set rs \<subseteq> dom (pdr_heap sw')"
    using assms keeps_dom unfolding pdrs_ok_def evolves_def by blast
  ultimately show ?thesis using assms(1) by (simp only: pdrs_ok_def)
qed

lemma fars_ok_evolves:
  assumes "fars_ok sw rs" "evolves sw sw'"
  shows "fars_ok sw' rs"
proof -
  have "map (far_id_at sw') rs = map (far_id_at sw) rs" using far_ids_evolve [OF assms] by simp
  moreover have "set rs \<subseteq> dom (far_heap sw')"
    using assms keeps_dom unfolding fars_ok_def evolves_def by blast
  ultimately show ?thesis using assms(1) by (simp only: fars_ok_def)
qed

lemma session_inv_evolves: "session_inv sw s \<Longrightarrow> evolves sw sw' \<Longrightarrow> session_inv sw' s"
  unfolding session_inv_def using pdrs_ok_evolves fars_ok_evolves by blast

section \<open>Each operation\<close>

lemma pdrs_ok_add:
  assumes "pdrs_ok sw rs" "r \<in> dom (pdr_heap sw)"
  shows "pdrs_ok sw (pdrs_add sw r rs)"
proof -
  have "set (pdrs_add sw r rs) \<subseteq> insert r (set rs)"
    by (auto simp: pdrs_add_def push_unless_def split: option.splits)
  with assms show ?thesis by (auto simp: pdrs_ok_def pdr_vec.add_distinct)
qed

lemma fars_ok_add:
  assumes "fars_ok sw rs" "r \<in> dom (far_heap sw)"
  shows "fars_ok sw (fars_add sw r rs)"
proof -
  have "set (fars_add sw r rs) \<subseteq> insert r (set rs)"
    by (auto simp: fars_add_def push_unless_def split: option.splits)
  with assms show ?thesis by (auto simp: fars_ok_def far_vec.add_distinct)
qed

lemma erase_first_subset: "erase_first P xs = Some ys \<Longrightarrow> set ys \<subseteq> set xs"
  by (auto simp: erase_first_def split: option.splits dest: set_remove_first_subset [THEN subsetD])

lemma far_id_patch_teid [simp]: "far_id (patch_teid t f) = far_id f"
  by (simp add: patch_teid_def Let_def)

text \<open>\<open>add(far)\<close> publishes a new vector or patches one existing FAR, keeping its id.\<close>

lemma add_far_evolves:
  assumes "fars_ok sw (s_fars s)"
  shows "evolves sw (snd (add_far r s sw)) \<and> next_ref (snd (add_far r s sw)) = next_ref sw \<and>
    pdr_heap (snd (add_far r s sw)) = pdr_heap sw \<and>
    dom (far_heap (snd (add_far r s sw))) = dom (far_heap sw)"
proof (cases "find (\<lambda>e. far_id_at sw e = far_id_at sw r) (s_fars s)")
  case (Some e)
  then have "e \<in> set (s_fars s)" by (auto simp: find_Some_iff)
  with assms obtain f where "far_heap sw e = Some f" by (auto simp: fars_ok_def)
  with Some show ?thesis by (auto simp: add_far_def Let_def evolves_def intro!: keeps_upd)
qed (simp add: add_far_def Let_def)

lemma session_inv_add_far:
  assumes "session_inv sw s" "r \<in> dom (far_heap sw)"
  shows "session_inv (snd (add_far r s sw)) (fst (add_far r s sw))"
proof -
  have f: "fars_ok sw (s_fars s)" using assms(1) by (simp add: session_inv_def)
  have "session_inv sw (fst (add_far r s sw))"
    using assms fars_ok_add [OF f assms(2)] s_fars_add_far [of r s sw]
    by (auto simp: session_inv_def add_far_def Let_def publish_fars_def view_ok_def values_ok_def split: option.splits)
  then show ?thesis using add_far_evolves [OF f, of r] by (blast intro: session_inv_evolves)
qed

lemma create_far_inv:
  assumes "session_inv sw s" "heap_ok sw" "create_far c st s sw = (s', sw', st', ok)"
  shows "session_inv sw' s' \<and> heap_ok sw' \<and> evolves sw sw'"
proof (cases ok)
  case True
  define sw1 where "sw1 = snd (new_far (far_of_create c) sw)"
  have n: "new_far (far_of_create c) sw = (next_ref sw, sw1)"
    by (simp add: sw1_def prod_eq_iff)
  have eq: "add_far (next_ref sw) s sw1 = (s', sw')"
    using assms(3) True by (auto simp: create_far_def n split: if_splits prod.splits)
  have e1: "evolves sw sw1" and h1: "heap_ok sw1"
    unfolding sw1_def using evolves_new(2) [OF assms(2)] assms(2) by auto
  have i1: "session_inv sw1 s" by (rule session_inv_evolves [OF assms(1) e1])
  have "next_ref sw \<in> dom (far_heap sw1)" by (simp add: sw1_def)
  from session_inv_add_far [OF i1 this] eq have i: "session_inv sw' s'" by simp
  have E: "evolves sw1 sw' \<and> next_ref sw' = next_ref sw1 \<and> pdr_heap sw' = pdr_heap sw1 \<and>
      dom (far_heap sw') = dom (far_heap sw1)"
    using add_far_evolves [of sw1 s "next_ref sw"] i1 eq by (simp add: session_inv_def)
  have "far_heap sw' r = None" if "far_heap sw1 r = None" for r
  proof -
    have D: "dom (far_heap sw') = dom (far_heap sw1)" using E by blast
    from that have "r \<notin> dom (far_heap sw')" unfolding D by auto
    then show ?thesis by auto
  qed
  with E have "heap_ok sw'" using h1 by (simp add: heap_ok_def)
  moreover have "evolves sw sw'" using evolves_trans [OF e1] E by blast
  ultimately show ?thesis using i by blast
next
  case False
  with assms(3) have "s' = s \<and> sw' = sw" by (auto simp: create_far_def split: if_splits prod.splits)
  with assms show ?thesis by simp
qed

lemma update_slot_ids:
  assumes "\<forall>e \<in> set rs. key e = k \<longrightarrow> key' r = k" "\<forall>e \<in> set rs. key' e = key e"
  shows "map key' (update_first (\<lambda>e. key e = k) (\<lambda>_. r) rs) = map key rs"
  using assms by (induction rs) auto

lemma update_far_inv:
  assumes "session_inv sw s" "heap_ok sw" "update_far u s sw = (s', sw', c, ok)"
  shows "session_inv sw' s' \<and> heap_ok sw' \<and> evolves sw sw'"
proof (cases "get_far sw s (ufar_far_id u)")
  case None
  with assms(3) have "s' = s \<and> sw' = sw" by (simp add: update_far_def)
  with assms show ?thesis by simp
next
  case (Some old)
  let ?f = "far_patch u (far_at sw old)"
  define sw1 where "sw1 = snd (new_far ?f sw)"
  have n: "new_far ?f sw = (next_ref sw, sw1)" by (simp add: sw1_def prod_eq_iff)
  let ?rs = "update_first (\<lambda>e. far_id_at sw e = ufar_far_id u) (\<lambda>_. next_ref sw) (s_fars s)"
  have s': "s' = publish_fars (s\<lparr>s_fars := ?rs\<rparr>)" "sw' = sw1"
    using assms(3) Some n by (auto simp: update_far_def)
  have e1: "evolves sw sw1" and h1: "heap_ok sw1"
    unfolding sw1_def using evolves_new(2) [OF assms(2)] assms(2) by auto
  have i1: "session_inv sw1 s" by (rule session_inv_evolves [OF assms(1) e1])
  have f: "fars_ok sw (s_fars s)" using assms(1) by (simp add: session_inv_def)
  from Some have "far_id_at sw old = ufar_far_id u" by (auto simp: get_far_def find_Some_iff)
  then have "far_id_at sw1 (next_ref sw) = ufar_far_id u"
    by (simp add: sw1_def far_patch_def Let_def)
  with far_ids_evolve [OF f e1]
  have "map (far_id_at sw1) ?rs = map (far_id_at sw) (s_fars s)"
    by (intro update_slot_ids) auto
  moreover have "set ?rs \<subseteq> dom (far_heap sw1)"
  proof
    fix x assume "x \<in> set ?rs"
    then consider "x \<in> set (s_fars s)" | "x = next_ref sw" by (auto dest: set_update_firstD)
    then show "x \<in> dom (far_heap sw1)"
    proof cases
      case 1
      with i1 show ?thesis by (auto simp: session_inv_def fars_ok_def)
    qed (simp add: sw1_def)
  qed
  ultimately have "fars_ok sw1 ?rs" using f by (simp add: fars_ok_def)
  then have "session_inv sw1 s'"
    using i1 by (auto simp: s' session_inv_def publish_fars_def view_ok_def values_ok_def)
  with h1 e1 show ?thesis by (simp add: s'(2))
qed

lemma update_pdr_inv:
  assumes "session_inv sw s" "heap_ok sw" "update_pdr env u s sw = (s', sw', c, ok)"
  shows "session_inv sw' s' \<and> heap_ok sw' \<and> evolves sw sw'"
proof (cases "present (updr_pdr_id u) \<and> get_pdr sw s (ie_val (updr_pdr_id u)) \<noteq> None")
  case False
  with assms(3) have "s' = s \<and> sw' = sw" by (auto simp: update_pdr_def split: if_splits)
  with assms show ?thesis by simp
next
  case True
  then obtain old where Some: "get_pdr sw s (ie_val (updr_pdr_id u)) = Some old" by auto
  let ?p = "pdr_patch env u (pdr_at sw old)" and ?k = "ie_val (updr_pdr_id u)"
  define sw1 where "sw1 = snd (new_pdr ?p sw)"
  have n: "new_pdr ?p sw = (next_ref sw, sw1)" by (simp add: sw1_def prod_eq_iff)
  let ?rs = "update_first (\<lambda>e. pdr_id_at sw e = ?k) (\<lambda>_. next_ref sw) (s_pdrs s)"
  have s': "s' = s\<lparr>s_pdrs := ?rs\<rparr>" "heaps sw' = heaps sw1"
    using assms(3) Some True n by (auto simp: update_pdr_def)
  have e1: "evolves sw sw1" and h1: "heap_ok sw1"
    unfolding sw1_def using evolves_new(1) [OF assms(2)] assms(2) by auto
  have i1: "session_inv sw1 s" by (rule session_inv_evolves [OF assms(1) e1])
  have p: "pdrs_ok sw (s_pdrs s)" using assms(1) by (simp add: session_inv_def)
  from Some have "pdr_id_at sw old = ?k" by (auto simp: get_pdr_def find_Some_iff)
  then have "pdr_id_at sw1 (next_ref sw) = ?k"
    by (simp add: sw1_def pdr_patch_def pdr_set_pdi_def compile_sdf_def Let_def)
  with pdr_ids_evolve [OF p e1]
  have "map (pdr_id_at sw1) ?rs = map (pdr_id_at sw) (s_pdrs s)"
    by (intro update_slot_ids) auto
  moreover have "set ?rs \<subseteq> dom (pdr_heap sw1)"
  proof
    fix x assume "x \<in> set ?rs"
    then consider "x \<in> set (s_pdrs s)" | "x = next_ref sw" by (auto dest: set_update_firstD)
    then show "x \<in> dom (pdr_heap sw1)"
    proof cases
      case 1
      with i1 show ?thesis by (auto simp: session_inv_def pdrs_ok_def)
    qed (simp add: sw1_def)
  qed
  ultimately have "pdrs_ok sw1 ?rs" using p by (simp add: pdrs_ok_def)
  then have "session_inv sw1 s'" using i1 by (auto simp: s' session_inv_def view_ok_def values_ok_def)
  moreover have "evolves sw1 sw'" by (rule evolves_heaps [OF s'(2)]) simp
  ultimately show ?thesis
    using session_inv_evolves evolves_trans [OF e1] heap_ok_heaps [OF s'(2)] h1 by blast
qed

text \<open>What creating a PDR does to the heap, in both branches: one new PDR.\<close>

lemma allocate_fteid_fields:
  assumes "allocate_fteid env g l s sw = (f, s1, sw1)"
  shows "pdr_heap sw1 = pdr_heap sw" "far_heap sw1 = far_heap sw" "next_ref sw1 = next_ref sw"
    "at_key sw1 = at_key sw" "tables_ok sw1 = tables_ok sw" "key_room sw1 = key_room sw"
    "\<exists>m. s1 = s\<lparr>s_chosen_fteids := m\<rparr>"
  using assms
  by (auto simp: allocate_fteid_def generate_fteid_n3_def generate_teid_n3_def at_key_def fun_eq_iff
      tables_ok_def key_room_def split: if_splits option.splits pdr_key.splits)
     (metis pfcp_session.surjective pfcp_session.update_convs(17))+

definition uplink_pdr :: "upf_env \<Rightarrow> create_pdr_ie \<Rightarrow> fteid \<Rightarrow> pfcp_pdr" where
  "uplink_pdr env c f =
     (if ft_ch (ie_val (pdi_local_fteid (ie_val (cpdr_pdi c)))) then pdr_set_fteid f (pdr_of_create env c)
      else pdr_of_create env c)"

lemma modify_pdr_fields [simp]:
  "pdr_heap (modify_pdr r h sw) = (pdr_heap sw)(r \<mapsto> h (pdr_at sw r))" "far_heap (modify_pdr r h sw) = far_heap sw"
  "next_ref (modify_pdr r h sw) = next_ref sw" "at_key (modify_pdr r h sw) = at_key sw"
  "tables_ok (modify_pdr r h sw) = tables_ok sw" "key_room (modify_pdr r h sw) = key_room sw"
  by (simp_all add: modify_pdr_def at_key_def tables_ok_def key_room_def fun_eq_iff split: pdr_key.splits)

text \<open>An accepted uplink PDR: its F-TEID, the object made, and the vector it is filed in. The vector is
  computed while the PDR still carries no session (\<open>p\<close>), and the session is filled in after.\<close>

lemma create_uplink_ok:
  assumes "create_uplink_pdr env g c st s sw = (s', sw', st', f, True)"
  obtains s1 sw1 where
    "allocate_fteid env g (ie_val (pdi_local_fteid (ie_val (cpdr_pdi c)))) s sw = (f, s1, sw1)"
    "present (pdi_local_fteid (ie_val (cpdr_pdi c)))"
    "pdr_heap sw' = (pdr_heap sw)(next_ref sw \<mapsto> pdr_set_seid (s_seid s) (uplink_pdr env c f))"
    "far_heap sw' = far_heap sw" "next_ref sw' = Suc (next_ref sw)"
    "s' = add_pdr sw' (next_ref sw) (session_set_fteid f s1)" "st' = st"
    "at_key sw' = at_key (add_pfcp_ul_pdr_by_up_teid (ft_teid f) (next_ref sw) (snd (new_pdr (uplink_pdr env c f) sw1)))"
    "tables_ok sw \<Longrightarrow> tables_ok sw'"
proof -
  let ?l = "ie_val (pdi_local_fteid (ie_val (cpdr_pdi c)))"
  have l: "present (pdi_local_fteid (ie_val (cpdr_pdi c)))"
    using assms by (auto simp: create_uplink_pdr_def Let_def split: if_splits)
  obtain f' s1 sw1 where a: "allocate_fteid env g ?l s sw = (f', s1, sw1)" by (cases "allocate_fteid env g ?l s sw")
  note A = allocate_fteid_fields [OF a]
  define sw2 where "sw2 = snd (new_pdr (uplink_pdr env c f') sw1)"
  have n: "new_pdr (uplink_pdr env c f') sw1 = (next_ref sw, sw2)"
    by (simp add: sw2_def prod_eq_iff A(3))
  define sw3 where "sw3 = add_pfcp_ul_pdr_by_up_teid (ft_teid f') (next_ref sw) sw2"
  have h3: "heaps sw3 = heaps sw2" by (simp add: sw3_def)
  obtain m where m: "s1 = s\<lparr>s_chosen_fteids := m\<rparr>" using A(7) by blast
  let ?sw4 = "modify_pdr (next_ref sw) (pdr_set_seid (s_seid s)) sw3"
  have eq: "f = f'" "sw' = ?sw4" "st' = st" "s' = add_pdr ?sw4 (next_ref sw) (session_set_fteid f' s1)"
    using assms l a n
    by (auto simp: create_uplink_pdr_def Let_def uplink_pdr_def session_get_fteid_def
        create_packet_in_access_def get_up_seid_def session_set_fteid_def m sw3_def)
  show thesis
  proof (rule that)
    show "allocate_fteid env g ?l s sw = (f, s1, sw1)" using a eq(1) by simp
    show "pdr_heap sw' = (pdr_heap sw)(next_ref sw \<mapsto> pdr_set_seid (s_seid s) (uplink_pdr env c f))"
      using heaps_eqD [OF h3] by (simp add: eq sw2_def A)
    show "far_heap sw' = far_heap sw" "next_ref sw' = Suc (next_ref sw)"
      using heaps_eqD [OF h3] by (simp_all add: eq sw2_def A)
    show "at_key sw' = at_key (add_pfcp_ul_pdr_by_up_teid (ft_teid f) (next_ref sw)
        (snd (new_pdr (uplink_pdr env c f) sw1)))"
      by (simp add: eq sw3_def sw2_def)
    have "tables_ok sw2" if "tables_ok sw"
      using that A(5) by (simp add: sw2_def tables_ok_def new_pdr_def)
    then have "tables_ok sw3" if "tables_ok sw"
      using that by (simp add: sw3_def ul_add_publish tables_ok_publish)
    then show "tables_ok sw \<Longrightarrow> tables_ok sw'" by (simp add: eq)
  qed (use eq l in simp_all)
qed

lemma create_uplink_refused:
  assumes "create_uplink_pdr env g c st s sw = (s', sw', st', f, False)"
  shows "s' = s \<and> sw' = sw \<and> fst st' \<noteq> CAUSE_VALUE_REQUEST_ACCEPTED"
proof (cases "present (pdi_local_fteid (ie_val (cpdr_pdi c)))")
  case True
  then have False using assms
    by (auto simp: create_uplink_pdr_def Let_def session_get_fteid_def create_packet_in_access_def split: prod.splits)
  then show ?thesis ..
qed (use assms in \<open>auto simp: create_uplink_pdr_def Let_def\<close>)

lemma create_downlink_ok:
  assumes "create_downlink_pdr env c st s sw = (s', sw', st', f, True)"
  shows "pdr_heap sw' = (pdr_heap sw)(next_ref sw \<mapsto> pdr_set_seid (s_seid s) (pdr_of_create env c))"
    "far_heap sw' = far_heap sw" "next_ref sw' = Suc (next_ref sw)" "s' = add_pdr sw' (next_ref sw) s" "st' = st"
    "f = fteid_zero" "tables_ok sw \<Longrightarrow> tables_ok sw'"
    "sw' = (let d = pdi_ue_ip_address (ie_val (cpdr_pdi c));
                sw1 = snd (new_pdr (pdr_set_seid (s_seid s) (pdr_of_create env c)) sw)
            in if present d \<and> ue_v4 (ie_val d)
               then add_pfcp_dl_pdr_by_ue_ip env (bswap32 (ue_ipv4_address (ie_val d))) (next_ref sw) sw1 else sw1)"
proof -
  let ?d = "pdi_ue_ip_address (ie_val (cpdr_pdi c))"
  define sw1 where "sw1 = snd (new_pdr (pdr_set_seid (s_seid s) (pdr_of_create env c)) sw)"
  have n: "new_pdr (pdr_set_seid (s_seid s) (pdr_of_create env c)) sw = (next_ref sw, sw1)"
    by (simp add: sw1_def prod_eq_iff)
  let ?sw2 = "if present ?d \<and> ue_v4 (ie_val ?d)
    then add_pfcp_dl_pdr_by_ue_ip env (bswap32 (ue_ipv4_address (ie_val ?d))) (next_ref sw) sw1 else sw1"
  have eq: "sw' = ?sw2" "s' = add_pdr sw' (next_ref sw) s" "st' = st" "f = fteid_zero"
    using assms n by (auto simp: create_downlink_pdr_def Let_def get_up_seid_def split: if_splits)
  have h: "heaps sw' = heaps sw1" by (simp add: eq(1))
  show "pdr_heap sw' = (pdr_heap sw)(next_ref sw \<mapsto> pdr_set_seid (s_seid s) (pdr_of_create env c))"
    "far_heap sw' = far_heap sw" "next_ref sw' = Suc (next_ref sw)"
    using heaps_eqD [OF h] by (simp_all add: sw1_def)
  have "tables_ok sw1" if "tables_ok sw" using that by (simp add: sw1_def new_pdr_def tables_ok_def)
  then show "tables_ok sw \<Longrightarrow> tables_ok sw'" by (simp add: eq(1) tables_ok_dl_add)
  show "s' = add_pdr sw' (next_ref sw) s" "st' = st" "f = fteid_zero" by (rule eq)+
  show "sw' = (let d = pdi_ue_ip_address (ie_val (cpdr_pdi c));
                sw1 = snd (new_pdr (pdr_set_seid (s_seid s) (pdr_of_create env c)) sw)
            in if present d \<and> ue_v4 (ie_val d)
               then add_pfcp_dl_pdr_by_ue_ip env (bswap32 (ue_ipv4_address (ie_val d))) (next_ref sw) sw1 else sw1)"
    using eq(1) by (simp add: sw1_def Let_def)
qed

lemma create_downlink_refused:
  assumes "create_downlink_pdr env c st s sw = (s', sw', st', f, False)"
  shows "s' = s \<and> sw' = snd (new_pdr (pdr_set_seid (s_seid s) (pdr_of_create env c)) sw) \<and>
    fst st' \<noteq> CAUSE_VALUE_REQUEST_ACCEPTED"
  using assms by (auto simp: create_downlink_pdr_def Let_def get_up_seid_def split: prod.splits if_splits)

lemma session_inv_add_pdr:
  assumes "session_inv sw s" "r \<in> dom (pdr_heap sw)"
  shows "session_inv sw (add_pdr sw r (session_set_fteid f (s\<lparr>s_chosen_fteids := m\<rparr>)))" "session_inv sw (add_pdr sw r s)"
proof -
  have "pdrs_ok sw (pdrs_add sw r (s_pdrs s))"
    by (rule pdrs_ok_add) (use assms in \<open>simp_all add: session_inv_def\<close>)
  with assms(1) show "session_inv sw (add_pdr sw r (session_set_fteid f (s\<lparr>s_chosen_fteids := m\<rparr>)))"
    "session_inv sw (add_pdr sw r s)"
    by (simp_all add: session_inv_def add_pdr_def session_set_fteid_def view_ok_def values_ok_def)
qed

lemma evolves_new_pdr_heap:
  assumes "heap_ok sw" "pdr_heap sw' = (pdr_heap sw)(next_ref sw \<mapsto> p)" "far_heap sw' = far_heap sw"
    "next_ref sw' = Suc (next_ref sw)"
  shows "evolves sw sw'" "heap_ok sw'" "next_ref sw \<in> dom (pdr_heap sw')"
  using assms by (auto simp: evolves_def heap_ok_def intro!: keeps_new)

lemma create_uplink_inv:
  assumes "session_inv sw s" "heap_ok sw" "create_uplink_pdr env g c st s sw = (s', sw', st', f, ok)"
  shows "session_inv sw' s' \<and> heap_ok sw' \<and> evolves sw sw'"
proof (cases ok)
  case True
  with assms(3) have "create_uplink_pdr env g c st s sw = (s', sw', st', f, True)" by simp
  then obtain s1 sw1 where
    a: "allocate_fteid env g (ie_val (pdi_local_fteid (ie_val (cpdr_pdi c)))) s sw = (f, s1, sw1)" and
    h: "pdr_heap sw' = (pdr_heap sw)(next_ref sw \<mapsto> pdr_set_seid (s_seid s) (uplink_pdr env c f))"
      "far_heap sw' = far_heap sw" "next_ref sw' = Suc (next_ref sw)" and
    s': "s' = add_pdr sw' (next_ref sw) (session_set_fteid f s1)"
    by (rule create_uplink_ok)
  obtain m where m: "s1 = s\<lparr>s_chosen_fteids := m\<rparr>" using allocate_fteid_fields(7) [OF a] by blast
  note E = evolves_new_pdr_heap [OF assms(2) h]
  have "session_inv sw' s'"
    unfolding s' m by (rule session_inv_add_pdr [OF session_inv_evolves [OF assms(1) E(1)] E(3)])
  with E show ?thesis by blast
next
  case False
  with assms create_uplink_refused [of env g c st s sw s' sw' st' f] show ?thesis by simp
qed

lemma create_downlink_inv:
  assumes "session_inv sw s" "heap_ok sw" "create_downlink_pdr env c st s sw = (s', sw', st', f, ok)"
  shows "session_inv sw' s' \<and> heap_ok sw' \<and> evolves sw sw'"
proof (cases ok)
  case True
  with assms(3) have d: "create_downlink_pdr env c st s sw = (s', sw', st', f, True)" by simp
  note E = evolves_new_pdr_heap [OF assms(2) create_downlink_ok(1,2,3) [OF d]]
  have "session_inv sw' s'"
    unfolding create_downlink_ok(4) [OF d]
    by (rule session_inv_add_pdr(2) [OF session_inv_evolves [OF assms(1) E(1)] E(3)])
  with E show ?thesis by blast
next
  case False
  with assms(3) have "s' = s \<and> sw' = snd (new_pdr (pdr_set_seid (s_seid s) (pdr_of_create env c)) sw)"
    using create_downlink_refused [of env c st s sw s' sw' st' f] by simp
  then show ?thesis
    using evolves_new(1) [OF assms(2)] heap_ok_new(1) [OF assms(2)] session_inv_evolves [OF assms(1)] by simp
qed

lemma session_inv_pdn [simp]: "session_inv sw (session_set_pdn_type t s) = session_inv sw s"
  by (simp add: session_inv_def session_set_pdn_type_def view_ok_def values_ok_def)

lemma create_pdr_cases:
  assumes "create_pdr env g c st s sw = (s', sw', st', f, ok)"
  obtains (rejected) "s' = s" "sw' = sw" "\<not> ok" "fst st' \<noteq> CAUSE_VALUE_REQUEST_ACCEPTED"
  | (uplink) s1 st1 where "create_uplink_pdr env g c st s sw = (s1, sw', st1, f, ok)"
      "s' = s1 \<or> s' = session_set_pdn_type PDN_ETHERNET s1" "ok \<longrightarrow> fst st' = CAUSE_VALUE_REQUEST_ACCEPTED"
      "\<not> ok \<longrightarrow> s' = s1 \<and> st' = st1"
      "ie_val (pdi_source_interface (ie_val (cpdr_pdi c))) \<in> {INTERFACE_VALUE_ACCESS, INTERFACE_VALUE_CP_FUNCTION}"
      "present (cpdr_pdi c)" "present (pdi_source_interface (ie_val (cpdr_pdi c)))"
  | (downlink) s1 st1 where "create_downlink_pdr env c st s sw = (s1, sw', st1, f, ok)"
      "s' = s1 \<or> s' = session_set_pdn_type PDN_ETHERNET s1" "ok \<longrightarrow> fst st' = CAUSE_VALUE_REQUEST_ACCEPTED"
      "\<not> ok \<longrightarrow> s' = s1 \<and> st' = st1"
      "ie_val (pdi_source_interface (ie_val (cpdr_pdi c))) = INTERFACE_VALUE_CORE"
      "present (cpdr_pdi c)" "present (pdi_source_interface (ie_val (cpdr_pdi c)))"
proof -
  let ?si = "pdi_source_interface (ie_val (cpdr_pdi c))"
  show thesis
  proof (cases "present (cpdr_pdr_id c) \<and> present (cpdr_pdi c) \<and> present (cpdr_precedence c) \<and> present ?si \<and>
      \<not> present (pdi_traffic_endpoint_id (ie_val (cpdr_pdi c))) \<and>
      ie_val ?si \<in> {INTERFACE_VALUE_ACCESS, INTERFACE_VALUE_CP_FUNCTION, INTERFACE_VALUE_CORE}")
    case False
    with assms that(1) show thesis by (auto simp: create_pdr_def Let_def split: if_splits)
  next
    case True
    then consider (u) "ie_val ?si \<in> {INTERFACE_VALUE_ACCESS, INTERFACE_VALUE_CP_FUNCTION}"
      | (d) "ie_val ?si = INTERFACE_VALUE_CORE" by blast
    then show thesis
    proof cases
      case u
      obtain s1 sw1 st1 f1 ok1 where e: "create_uplink_pdr env g c st s sw = (s1, sw1, st1, f1, ok1)"
        by (cases "create_uplink_pdr env g c st s sw")
      with True u assms show thesis
        by (intro that(2) [of s1 st1]) (auto simp: create_pdr_def Let_def split: if_splits)
    next
      case d
      obtain s1 sw1 st1 f1 ok1 where e: "create_downlink_pdr env c st s sw = (s1, sw1, st1, f1, ok1)"
        by (cases "create_downlink_pdr env c st s sw")
      with True d assms show thesis
        by (intro that(3) [of s1 st1]) (auto simp: create_pdr_def Let_def split: if_splits)
    qed
  qed
qed

lemma create_pdr_inv:
  assumes "session_inv sw s" "heap_ok sw" "create_pdr env g c st s sw = (s', sw', st', f, ok)"
  shows "session_inv sw' s' \<and> heap_ok sw' \<and> evolves sw sw'"
  using assms(3)
proof (cases rule: create_pdr_cases)
  case (uplink s1 st1)
  with create_uplink_inv [OF assms(1,2) uplink(1)] show ?thesis by auto
next
  case (downlink s1 st1)
  with create_downlink_inv [OF assms(1,2) downlink(1)] show ?thesis by auto
qed (use assms in simp)

text \<open>Removals.\<close>

lemma remove_pdr_inv:
  assumes "session_inv sw s" "remove_pdr i st sw s = (s', st', ok)"
  shows "session_inv sw s'"
proof (cases "erase_first (\<lambda>e. pdr_id_at sw e = ie_val i) (s_pdrs s)")
  case (Some ps)
  have p: "pdrs_ok sw (s_pdrs s)" using assms(1) by (simp add: session_inv_def)
  then have "pdrs_ok sw ps"
    using erase_first_subset [OF Some] pdr_vec.erase_distinct [OF Some] by (auto simp: pdrs_ok_def)
  then have "session_inv sw (s\<lparr>s_pdrs := ps\<rparr>)"
    using assms(1) by (simp add: session_inv_def view_ok_def values_ok_def)
  with assms Some show ?thesis by (auto simp: remove_pdr_def split: if_splits)
qed (use assms in \<open>auto simp: remove_pdr_def split: if_splits\<close>)

lemma remove_far_inv:
  assumes "session_inv sw s" "remove_far i st sw s = (s', st', ok)"
  shows "session_inv sw s'"
proof (cases "erase_first (\<lambda>e. far_id_at sw e = ie_val i) (s_fars s)")
  case (Some fs)
  have p: "fars_ok sw (s_fars s)" using assms(1) by (simp add: session_inv_def)
  then have "fars_ok sw fs"
    using erase_first_subset [OF Some] far_vec.erase_distinct [OF Some] by (auto simp: fars_ok_def)
  then have "session_inv sw (publish_fars (s\<lparr>s_fars := fs\<rparr>))"
    using assms(1) by (simp add: session_inv_def view_ok_def values_ok_def publish_fars_def)
  with assms Some show ?thesis by (auto simp: remove_far_def split: if_splits)
qed (use assms in \<open>auto simp: remove_far_def split: if_splits\<close>)

text \<open>The rules kept by value. Each operation rewrites one vector.\<close>

lemma session_inv_qers:
  "session_inv sw s \<Longrightarrow> distinct (map qer_key qs) \<Longrightarrow> \<forall>q \<in> set qs. present (qer_id q) \<Longrightarrow>
   session_inv sw (s\<lparr>s_qers := qs\<rparr>)"
  by (simp add: session_inv_def view_ok_def values_ok_def)

lemma session_inv_urrs:
  "session_inv sw s \<Longrightarrow> distinct (map urr_key qs) \<Longrightarrow> \<forall>q \<in> set qs. present (urr_id q) \<Longrightarrow>
   session_inv sw (s\<lparr>s_urrs := qs\<rparr>)"
  by (simp add: session_inv_def view_ok_def values_ok_def)

lemma session_inv_bars:
  "session_inv sw s \<Longrightarrow> distinct (map bar_key qs) \<Longrightarrow> \<forall>q \<in> set qs. present (bar_id q) \<Longrightarrow>
   session_inv sw (s\<lparr>s_bars := qs\<rparr>)"
  by (simp add: session_inv_def view_ok_def values_ok_def)

lemma session_inv_mars:
  "session_inv sw s \<Longrightarrow> distinct (map mar_key qs) \<Longrightarrow> \<forall>q \<in> set qs. present (mar_id q) \<Longrightarrow>
   session_inv sw (s\<lparr>s_mars := qs\<rparr>)"
  by (simp add: session_inv_def view_ok_def values_ok_def)

lemma session_inv_valuesD:
  assumes "session_inv sw s"
  shows "distinct (map qer_key (s_qers s))" "\<forall>q \<in> set (s_qers s). present (qer_id q)"
    "distinct (map urr_key (s_urrs s))" "\<forall>q \<in> set (s_urrs s). present (urr_id q)"
    "distinct (map bar_key (s_bars s))" "\<forall>q \<in> set (s_bars s). present (bar_id q)"
    "distinct (map mar_key (s_mars s))" "\<forall>q \<in> set (s_mars s). present (mar_id q)"
  using assms by (simp_all add: session_inv_def values_ok_def)

lemma set_push_unless: "set (push_unless P x xs) \<subseteq> insert x (set xs)"
  by (auto simp: push_unless_def split: option.splits)

lemma set_replace_or_push: "set (replace_or_push P x xs) \<subseteq> insert x (set xs)"
  by (auto simp: replace_or_push_def split: option.splits dest: set_update_firstD)

lemma set_pushD: "x \<in> set (push_unless P y xs) \<Longrightarrow> x = y \<or> x \<in> set xs"
  "x \<in> set (replace_or_push P y xs) \<Longrightarrow> x = y \<or> x \<in> set xs"
  using set_push_unless [of P y xs] set_replace_or_push [of P y xs] by auto

lemma add_qer_inv:
  assumes "session_inv sw s" "present (qer_id q)"
  shows "session_inv sw (add_qer q s)"
proof -
  note V = session_inv_valuesD [OF assms(1)]
  have "\<forall>e \<in> set (qers_add q (s_qers s)). present (qer_id e)"
    using V(2) assms(2) by (auto simp: qers_add_def dest!: set_pushD)
  with session_inv_qers [OF assms(1) qer_vec.add_distinct [OF V(1)]] show ?thesis
    by (simp add: add_qer_def assms(2))
qed

lemma add_urr_inv:
  assumes "session_inv sw s" "present (urr_id q)"
  shows "session_inv sw (add_urr q s)"
proof -
  note V = session_inv_valuesD [OF assms(1)]
  have "\<forall>e \<in> set (urrs_add q (s_urrs s)). present (urr_id e)"
    using V(4) assms(2) by (auto simp: urrs_add_def dest!: set_pushD)
  with session_inv_urrs [OF assms(1) urr_vec.add_distinct [OF V(3)]] show ?thesis
    by (simp add: add_urr_def assms(2))
qed

lemma add_bar_inv:
  assumes "session_inv sw s" "present (bar_id q)"
  shows "session_inv sw (add_bar q s)"
proof -
  note V = session_inv_valuesD [OF assms(1)]
  have "\<forall>e \<in> set (bars_add q (s_bars s)). present (bar_id e)"
    using V(6) assms(2) by (auto simp: bars_add_def dest!: set_pushD)
  with session_inv_bars [OF assms(1) bar_vec.add_distinct [OF V(5)]] show ?thesis
    by (simp add: add_bar_def assms(2))
qed

lemma add_mar_inv:
  assumes "session_inv sw s" "present (mar_id q)"
  shows "session_inv sw (add_mar q s)"
proof -
  note V = session_inv_valuesD [OF assms(1)]
  have "\<forall>e \<in> set (mars_add q (s_mars s)). present (mar_id e)"
    using V(8) assms(2) by (auto simp: mars_add_def dest!: set_pushD)
  with session_inv_mars [OF assms(1) mar_vec.add_distinct [OF V(7)]] show ?thesis
    by (simp add: add_mar_def assms(2))
qed

lemma add_qer_absent: "\<not> present (qer_id q) \<Longrightarrow> add_qer q s = s"
  by (simp add: add_qer_def)

lemma create_value_inv:
  assumes "session_inv sw s"
  shows "session_inv sw (fst (create_qer c st s))" "session_inv sw (fst (create_urr c1 st s))"
    "session_inv sw (fst (create_bar c2 st s))" "session_inv sw (fst (create_mar c3 st s))"
proof -
  have "session_inv sw (add_qer q s)" for q
    using assms add_qer_inv add_qer_absent by (cases "present (qer_id q)") auto
  with assms show "session_inv sw (fst (create_qer c st s))" by (simp add: create_qer_def Let_def)
qed (use assms in \<open>simp_all add: create_urr_def create_bar_def create_mar_def add_urr_inv add_bar_inv
      add_mar_inv urr_of_create_def bar_of_create_def mar_of_create_def\<close>)

text \<open>An update keeps the keys, since it writes the id it searched for or none at all.\<close>

lemma update_first_keeps:
  assumes "distinct (map key xs)" "\<forall>x \<in> set xs. Q x"
    and "\<And>x. key x = k \<Longrightarrow> Q x \<Longrightarrow> key (f x) = k \<and> Q (f x)"
  shows "distinct (map key (update_first (\<lambda>e. key e = k) f xs)) \<and>
    (\<forall>x \<in> set (update_first (\<lambda>e. key e = k) f xs). Q x)"
proof -
  have "map key (update_first (\<lambda>e. key e = k) f xs) = map key xs"
    using assms(2,3) by (induction xs) auto
  with assms show ?thesis by (auto dest!: set_update_firstD)
qed

lemma update_value_inv:
  assumes "session_inv sw s"
  shows "session_inv sw (fst (update_qer u s))" "session_inv sw (fst (update_urr u1 s))"
    "session_inv sw (fst (update_bar u2 s))" "session_inv sw (fst (update_mar u3 s))"
proof -
  note V = session_inv_valuesD [OF assms]
  have K: "distinct (map qer_key (update_first (\<lambda>e. qer_key e = ie_val (qer_id u)) (\<lambda>q. fst (qer_update u q)) (s_qers s))) \<and>
      (\<forall>q \<in> set (update_first (\<lambda>e. qer_key e = ie_val (qer_id u)) (\<lambda>q. fst (qer_update u q)) (s_qers s)). present (qer_id q))"
    by (rule update_first_keeps [OF V(1,2)]) (auto simp: qer_key_def qer_update_def merge_ie_def)
  show "session_inv sw (fst (update_qer u s))"
    using session_inv_qers [OF assms conjunct1 [OF K] conjunct2 [OF K]] assms
    by (simp add: update_qer_def split: option.split)
  have K: "distinct (map urr_key (update_first (\<lambda>e. urr_key e = ie_val (urr_id u1)) (urr_patch u1) (s_urrs s))) \<and>
      (\<forall>q \<in> set (update_first (\<lambda>e. urr_key e = ie_val (urr_id u1)) (urr_patch u1) (s_urrs s)). present (urr_id q))"
    by (rule update_first_keeps [OF V(3,4)]) (auto simp: urr_key_def urr_patch_def)
  show "session_inv sw (fst (update_urr u1 s))"
    using session_inv_urrs [OF assms conjunct1 [OF K] conjunct2 [OF K]] assms
    by (simp add: update_urr_def split: option.split)
  have K: "distinct (map bar_key (update_first (\<lambda>e. bar_key e = ie_val (ubar_bar_id u2)) (\<lambda>b. fst (bar_update u2 b)) (s_bars s))) \<and>
      (\<forall>q \<in> set (update_first (\<lambda>e. bar_key e = ie_val (ubar_bar_id u2)) (\<lambda>b. fst (bar_update u2 b)) (s_bars s)). present (bar_id q))"
    by (rule update_first_keeps [OF V(5,6)]) (auto simp: bar_key_def bar_update_def)
  show "session_inv sw (fst (update_bar u2 s))"
    using session_inv_bars [OF assms conjunct1 [OF K] conjunct2 [OF K]] assms
    by (simp add: update_bar_def split: option.split)
  have K: "distinct (map mar_key (update_first (\<lambda>e. mar_key e = ie_val (cmar_mar_id u3)) (mar_update u3) (s_mars s))) \<and>
      (\<forall>q \<in> set (update_first (\<lambda>e. mar_key e = ie_val (cmar_mar_id u3)) (mar_update u3) (s_mars s)). present (mar_id q))"
    by (rule update_first_keeps [OF V(7,8)]) (auto simp: mar_key_def mar_update_def)
  show "session_inv sw (fst (update_mar u3 s))"
    using session_inv_mars [OF assms conjunct1 [OF K] conjunct2 [OF K]] assms
    by (simp add: update_mar_def split: option.split)
qed

lemma erase_first_keeps:
  assumes "erase_first (\<lambda>e. key e = k) xs = Some ys" "distinct (map key xs)" "\<forall>x \<in> set xs. Q x"
  shows "distinct (map key ys)" "\<forall>x \<in> set ys. Q x"
  using assms erase_first_subset [OF assms(1)] by (auto simp: erase_first_Some distinct_map_remove_first)

lemma remove_value_inv:
  assumes "session_inv sw s"
  shows "session_inv sw (fst (remove_qer i st s))" "session_inv sw (fst (remove_urr i1 st s))"
    "session_inv sw (fst (remove_bar i2 st s))" "session_inv sw (fst (remove_mar i3 st s))"
proof -
  note V = session_inv_valuesD [OF assms]
  show "session_inv sw (fst (remove_qer i st s))"
  proof (cases "erase_first (\<lambda>e. qer_key e = ie_val i) (s_qers s)")
    case (Some ys)
    show ?thesis
      using session_inv_qers [OF assms erase_first_keeps [OF Some V(1,2)]] assms Some
      by (simp add: remove_qer_def)
  qed (simp add: remove_qer_def assms)
  show "session_inv sw (fst (remove_urr i1 st s))"
  proof (cases "erase_first (\<lambda>e. urr_key e = ie_val i1) (s_urrs s)")
    case (Some ys)
    show ?thesis
      using session_inv_urrs [OF assms erase_first_keeps [OF Some V(3,4)]] assms Some
      by (simp add: remove_urr_def)
  qed (simp add: remove_urr_def assms)
  show "session_inv sw (fst (remove_bar i2 st s))"
  proof (cases "erase_first (\<lambda>e. bar_key e = ie_val i2) (s_bars s)")
    case (Some ys)
    show ?thesis
      using session_inv_bars [OF assms erase_first_keeps [OF Some V(5,6)]] assms Some
      by (simp add: remove_bar_def)
  qed (simp add: remove_bar_def assms)
  show "session_inv sw (fst (remove_mar i3 st s))"
  proof (cases "erase_first (\<lambda>e. mar_key e = ie_val i3) (s_mars s)")
    case (Some ys)
    show ?thesis
      using session_inv_mars [OF assms erase_first_keeps [OF Some V(7,8)]] assms Some
      by (simp add: remove_mar_def)
  qed (simp add: remove_mar_def assms)
qed

end
