(* ===== verification/SessionRun.thy ===== *)
theory SessionRun
  imports SessionInv
begin

text \<open>
  Runs of session operations: one constructor per operation of the class, one step function, and runs
  in which other sessions and the datapath act on the same switch in between. The theorems say what
  holds of a session after any such run.
\<close>

section \<open>Operations\<close>

datatype session_op =
    Create_pdr create_pdr_ie | Update_pdr update_pdr_ie | Remove_pdr "u16 ie"
  | Create_far create_far_ie | Update_far update_far_ie | Remove_far "u32 ie"
  | Create_qer pfcp_qer | Update_qer pfcp_qer | Remove_qer "u32 ie"
  | Create_urr pfcp_urr | Update_urr pfcp_urr | Remove_urr "u32 ie"
  | Create_bar create_bar_ie | Update_bar update_bar_ie | Remove_bar "u8 ie"
  | Create_mar mar_ies | Update_mar mar_ies | Remove_mar "u8 ie"
  | Count_ul nat u64 | Count_dl nat u64
  | Clean_up

text \<open>Every operation starts from the status of an accepted request, as the handlers call it.\<close>

abbreviation accepted :: status where "accepted \<equiv> (CAUSE_VALUE_REQUEST_ACCEPTED, IE_UNSET)"

fun session_step ::
    "upf_env \<Rightarrow> uids \<Rightarrow> session_op \<Rightarrow> pfcp_session \<Rightarrow> upf_switch \<Rightarrow>
     pfcp_session \<times> upf_switch \<times> pfcp_cause \<times> bool" where
  "session_step env g (Create_pdr c) s sw =
     (case create_pdr env g c accepted s sw of (s', sw', st, f, ok) \<Rightarrow> (s', sw', fst st, ok))"
| "session_step env g (Update_pdr u) s sw = update_pdr env u s sw"
| "session_step env g (Remove_pdr i) s sw =
     (case remove_pdr i accepted sw s of (s', st, ok) \<Rightarrow> (s', sw, fst st, ok))"
| "session_step env g (Create_far c) s sw =
     (case create_far c accepted s sw of (s', sw', st, ok) \<Rightarrow> (s', sw', fst st, ok))"
| "session_step env g (Update_far u) s sw = update_far u s sw"
| "session_step env g (Remove_far i) s sw =
     (case remove_far i accepted sw s of (s', st, ok) \<Rightarrow> (s', sw, fst st, ok))"
| "session_step env g (Create_qer c) s sw = (case create_qer c accepted s of (s', st, ok) \<Rightarrow> (s', sw, fst st, ok))"
| "session_step env g (Update_qer u) s sw = (case update_qer u s of (s', c, ok) \<Rightarrow> (s', sw, c, ok))"
| "session_step env g (Remove_qer i) s sw = (case remove_qer i accepted s of (s', st, ok) \<Rightarrow> (s', sw, fst st, ok))"
| "session_step env g (Create_urr c) s sw = (case create_urr c accepted s of (s', st, ok) \<Rightarrow> (s', sw, fst st, ok))"
| "session_step env g (Update_urr u) s sw = (case update_urr u s of (s', c, ok) \<Rightarrow> (s', sw, c, ok))"
| "session_step env g (Remove_urr i) s sw = (case remove_urr i accepted s of (s', st, ok) \<Rightarrow> (s', sw, fst st, ok))"
| "session_step env g (Create_bar c) s sw = (case create_bar c accepted s of (s', st, ok) \<Rightarrow> (s', sw, fst st, ok))"
| "session_step env g (Update_bar u) s sw = (case update_bar u s of (s', c, ok) \<Rightarrow> (s', sw, c, ok))"
| "session_step env g (Remove_bar i) s sw = (case remove_bar i accepted s of (s', st, ok) \<Rightarrow> (s', sw, fst st, ok))"
| "session_step env g (Create_mar c) s sw = (case create_mar c accepted s of (s', st, ok) \<Rightarrow> (s', sw, fst st, ok))"
| "session_step env g (Update_mar u) s sw = (case update_mar u s of (s', c, ok) \<Rightarrow> (s', sw, c, ok))"
| "session_step env g (Remove_mar i) s sw = (case remove_mar i accepted s of (s', st, ok) \<Rightarrow> (s', sw, fst st, ok))"
| "session_step env g (Count_ul t n) s sw = (add_ul t n s, sw, CAUSE_VALUE_REQUEST_ACCEPTED, True)"
| "session_step env g (Count_dl t n) s sw = (add_dl t n s, sw, CAUSE_VALUE_REQUEST_ACCEPTED, True)"
| "session_step env g Clean_up s sw =
     (case cleanup env s sw of (s', sw') \<Rightarrow> (s', sw', CAUSE_VALUE_REQUEST_ACCEPTED, True))"

text \<open>Runs with the operations of \<open>A\<close>. The other steps are those of other sessions and of the datapath.\<close>

inductive session_runs ::
    "upf_env \<Rightarrow> uids \<Rightarrow> session_op set \<Rightarrow> pfcp_session \<Rightarrow> upf_switch \<Rightarrow> pfcp_session \<Rightarrow> upf_switch \<Rightarrow> bool"
  for env g A s0 sw0 where
  start: "session_runs env g A s0 sw0 s0 sw0"
| step: "session_runs env g A s0 sw0 s sw \<Longrightarrow> p \<in> A \<Longrightarrow> session_step env g p s sw = (s', sw', c, ok) \<Longrightarrow>
    session_runs env g A s0 sw0 s' sw'"
| other: "session_runs env g A s0 sw0 s sw \<Longrightarrow> evolves sw sw' \<Longrightarrow> heap_ok sw' \<Longrightarrow> session_runs env g A s0 sw0 s sw'"

section \<open>The invariant over runs\<close>

lemma session_inv_new: "session_inv sw (session_new cp seid now)"
  by (simp add: session_inv_def session_new_def pdrs_ok_def fars_ok_def view_ok_def values_ok_def)

lemma heaps_cleanup_pdrs [simp]: "heaps (fold (cleanup_pdr env) rs sw) = heaps sw"
proof (induction rs arbitrary: sw)
  case (Cons r rs)
  have "heaps (cleanup_pdr env r sw) = heaps sw"
    by (simp add: cleanup_pdr_def split: option.split pdr_key.split)
  with Cons show ?case by simp
qed simp

lemma cleanup_inv:
  assumes "session_inv sw s" "heap_ok sw" "cleanup env s sw = (s', sw')"
  shows "session_inv sw' s' \<and> heap_ok sw' \<and> evolves sw sw'"
proof -
  have h: "heaps sw' = heaps sw" using assms(3) by (auto simp: cleanup_def)
  have s': "s' = (publish_fars (s\<lparr>s_fars := []\<rparr>))
      \<lparr>s_pdrs := [], s_urrs := [], s_bars := [], s_mars := [], s_chosen_fteids := Map.empty\<rparr>"
    using assms(3) by (simp add: cleanup_def)
  have "session_inv sw' s'"
    using assms(1)
    by (simp add: s' session_inv_def pdrs_ok_def fars_ok_def view_ok_def values_ok_def publish_fars_def)
  with assms(2) evolves_heaps [OF h evolves_refl] heap_ok_heaps [OF h] show ?thesis by simp
qed

lemma count_inv: "session_inv sw s \<Longrightarrow> session_inv sw (add_ul t n s)" "session_inv sw s \<Longrightarrow> session_inv sw (add_dl t n s)"
  by (simp_all add: session_inv_def add_ul_def add_dl_def Let_def view_ok_def values_ok_def)

lemma session_step_inv:
  assumes "session_inv sw s" "heap_ok sw" "session_step env g p s sw = (s', sw', c, ok)"
  shows "session_inv sw' s' \<and> heap_ok sw' \<and> evolves sw sw'"
proof (cases p)
  case (Create_pdr x)
  with assms(3) obtain st f where "create_pdr env g x accepted s sw = (s', sw', st, f, ok)"
    by (auto split: prod.splits)
  then show ?thesis by (rule create_pdr_inv [OF assms(1,2)])
next
  case (Create_far x)
  with assms(3) obtain st where "create_far x accepted s sw = (s', sw', st, ok)" by (auto split: prod.splits)
  then show ?thesis by (rule create_far_inv [OF assms(1,2)])
next
  case (Update_pdr x)
  with assms(3) show ?thesis by (simp add: update_pdr_inv [OF assms(1,2)])
next
  case (Update_far x)
  with assms(3) show ?thesis by (simp add: update_far_inv [OF assms(1,2)])
next
  case (Remove_pdr x)
  with assms(3) obtain st where "remove_pdr x accepted sw s = (s', st, ok)" "sw' = sw" by (auto split: prod.splits)
  with remove_pdr_inv [OF assms(1)] assms(2) show ?thesis by auto
next
  case (Remove_far x)
  with assms(3) obtain st where "remove_far x accepted sw s = (s', st, ok)" "sw' = sw" by (auto split: prod.splits)
  with remove_far_inv [OF assms(1)] assms(2) show ?thesis by auto
next
  case Clean_up
  with assms(3) have "cleanup env s sw = (s', sw')" by (auto split: prod.splits)
  then show ?thesis by (rule cleanup_inv [OF assms(1,2)])
next
  case (Create_qer x)
  with assms create_value_inv(1) [OF assms(1), of x accepted] show ?thesis by (auto split: prod.splits)
next
  case (Create_urr x)
  with assms create_value_inv(2) [OF assms(1), of x accepted] show ?thesis by (auto split: prod.splits)
next
  case (Create_bar x)
  with assms create_value_inv(3) [OF assms(1), of x accepted] show ?thesis by (auto split: prod.splits)
next
  case (Create_mar x)
  with assms create_value_inv(4) [OF assms(1), of x accepted] show ?thesis by (auto split: prod.splits)
next
  case (Update_qer x)
  with assms update_value_inv(1) [OF assms(1), of x] show ?thesis by (auto split: prod.splits)
next
  case (Update_urr x)
  with assms update_value_inv(2) [OF assms(1), of x] show ?thesis by (auto split: prod.splits)
next
  case (Update_bar x)
  with assms update_value_inv(3) [OF assms(1), of x] show ?thesis by (auto split: prod.splits)
next
  case (Update_mar x)
  with assms update_value_inv(4) [OF assms(1), of x] show ?thesis by (auto split: prod.splits)
next
  case (Remove_qer x)
  with assms remove_value_inv(1) [OF assms(1), of x accepted] show ?thesis by (auto split: prod.splits)
next
  case (Remove_urr x)
  with assms remove_value_inv(2) [OF assms(1), of x accepted] show ?thesis by (auto split: prod.splits)
next
  case (Remove_bar x)
  with assms remove_value_inv(3) [OF assms(1), of x accepted] show ?thesis by (auto split: prod.splits)
next
  case (Remove_mar x)
  with assms remove_value_inv(4) [OF assms(1), of x accepted] show ?thesis by (auto split: prod.splits)
qed (use assms count_inv in auto)

lemma session_runs_inv:
  assumes "session_runs env g A s0 sw0 s sw" "session_inv sw0 s0" "heap_ok sw0"
  shows "session_inv sw s \<and> heap_ok sw \<and> evolves sw0 sw"
  using assms(1)
proof induction
  case (step s sw p s' sw' c ok)
  then show ?case using session_step_inv [OF _ _ step.hyps(3)] evolves_trans by blast
next
  case (other s sw sw')
  then show ?case using session_inv_evolves evolves_trans by blast
qed (use assms in simp)

section \<open>What an operation does to the rule objects\<close>

definition pdr_compiled :: "upf_env \<Rightarrow> pfcp_pdr \<Rightarrow> bool" where
  "pdr_compiled env p \<longleftrightarrow> pdr_sdf p = pdr_sdf (compile_sdf env p)"

lemma pdr_compiled_rule: "pdr_rule p = pdr_rule q \<Longrightarrow> pdr_compiled env p = pdr_compiled env q"
proof -
  assume e: "pdr_rule p = pdr_rule q"
  have "pdr_sdf (pdr_rule p) = pdr_sdf (pdr_rule q)" using e by simp
  then have "pdr_sdf p = pdr_sdf q" by (simp add: pdr_rule_def)
  then show ?thesis using pdr_rule_eqD(2) [OF e] by (simp add: pdr_compiled_def compile_sdf_def)
qed

lemma pdr_compiled_of_create: "pdr_compiled env (pdr_of_create env c)"
  by (simp add: pdr_compiled_def pdr_of_create_def compile_sdf_def)

lemma pdr_compiled_set [simp]:
  "pdr_compiled env (pdr_set_seid v p) = pdr_compiled env p"
  "pdr_compiled env (pdr_set_fteid f p) = pdr_compiled env p"
  "pdr_compiled env (pdr_set_pdi env d p)"
  by (simp_all add: pdr_compiled_def pdr_set_seid_def pdr_set_fteid_def pdr_set_pdi_def compile_sdf_def)

lemma pdr_compiled_patch: "pdr_compiled env p \<Longrightarrow> pdr_compiled env (pdr_patch env u p)"
  by (auto simp: pdr_patch_def Let_def pdr_compiled_def compile_sdf_def pdr_set_pdi_def)

lemma pdr_compiled_uplink: "pdr_compiled env (uplink_pdr env c f)"
  by (simp add: uplink_pdr_def pdr_compiled_of_create)

text \<open>An operation makes at most one PDR, and it is compiled when the PDRs of the session are.\<close>

definition one_new :: "upf_env \<Rightarrow> pfcp_session \<Rightarrow> upf_switch \<Rightarrow> pfcp_session \<Rightarrow> upf_switch \<Rightarrow> bool" where
  "one_new env s sw s' sw' \<longleftrightarrow> pdr_heap sw \<subseteq>\<^sub>m pdr_heap sw' \<and>
     ((\<forall>r \<in> set (s_pdrs s). pdr_compiled env (pdr_at sw r)) \<longrightarrow>
      (\<forall>r \<in> set (s_pdrs s'). r \<in> set (s_pdrs s) \<or> pdr_compiled env (pdr_at sw' r)))"

lemma one_new_same: "pdr_heap sw' = pdr_heap sw \<Longrightarrow> set (s_pdrs s') \<subseteq> set (s_pdrs s) \<Longrightarrow> one_new env s sw s' sw'"
  by (auto simp: one_new_def)

lemma heap_le_new: "heap_ok sw \<Longrightarrow> pdr_heap sw \<subseteq>\<^sub>m (pdr_heap sw)(next_ref sw \<mapsto> x)"
  by (auto simp: heap_ok_def map_le_def)

lemma one_new_pdr:
  assumes "heap_ok sw" "pdr_heap sw' = (pdr_heap sw)(next_ref sw \<mapsto> x)"
    "(\<forall>r \<in> set (s_pdrs s). pdr_compiled env (pdr_at sw r)) \<longrightarrow> pdr_compiled env x"
    "set (s_pdrs s') \<subseteq> insert (next_ref sw) (set (s_pdrs s))"
  shows "one_new env s sw s' sw'"
  using assms heap_le_new [OF assms(1)] by (auto simp: one_new_def)

lemma set_s_pdrs_add: "set (s_pdrs (add_pdr sw r s)) \<subseteq> insert r (set (s_pdrs s))"
  by (auto simp: add_pdr_def pdrs_add_def dest: set_pushD)

lemma create_pdr_new:
  assumes "heap_ok sw" "create_pdr env g c st s sw = (s', sw', st', f, ok)"
  shows "one_new env s sw s' sw' \<and> far_heap sw' = far_heap sw"
  using assms(2)
proof (cases rule: create_pdr_cases)
  case (uplink s1 st1)
  show ?thesis
  proof (cases ok)
    case True
    with uplink(1) have u: "create_uplink_pdr env g c st s sw = (s1, sw', st1, f, True)" by simp
    from u obtain s2 sw2 where
      "allocate_fteid env g (ie_val (pdi_local_fteid (ie_val (cpdr_pdi c)))) s sw = (f, s2, sw2)" and
      h: "pdr_heap sw' = (pdr_heap sw)(next_ref sw \<mapsto> pdr_set_seid (s_seid s) (uplink_pdr env c f))"
        "far_heap sw' = far_heap sw" and
      s1: "s1 = add_pdr sw' (next_ref sw) (session_set_fteid f s2)"
      by (rule create_uplink_ok)
    then have "s_pdrs (session_set_fteid f s2) = s_pdrs s"
      using allocate_fteid_fields(7) by (fastforce simp: session_set_fteid_def)
    then have "set (s_pdrs s1) \<subseteq> insert (next_ref sw) (set (s_pdrs s))"
      using set_s_pdrs_add [of sw' "next_ref sw" "session_set_fteid f s2"] s1 by simp
    then have "set (s_pdrs s') \<subseteq> insert (next_ref sw) (set (s_pdrs s))"
      using uplink(2) by (auto simp: session_set_pdn_type_def)
    then have "one_new env s sw s' sw'"
      by (intro one_new_pdr [OF assms(1) h(1)]) (simp_all add: pdr_compiled_uplink)
    with h(2) show ?thesis by simp
  next
    case False
    with uplink create_uplink_refused [of env g c st s sw s1 sw' st1 f] show ?thesis
      by (auto intro!: one_new_same)
  qed
next
  case (downlink s1 st1)
  show ?thesis
  proof (cases ok)
    case True
    with downlink(1) have d: "create_downlink_pdr env c st s sw = (s1, sw', st1, f, True)" by simp
    note D = create_downlink_ok [OF d]
    have "set (s_pdrs s') \<subseteq> insert (next_ref sw) (set (s_pdrs s))"
      using downlink(2) set_s_pdrs_add [of sw' "next_ref sw" s] D(4) by (auto simp: session_set_pdn_type_def)
    then have "one_new env s sw s' sw'"
      by (intro one_new_pdr [OF assms(1) D(1)]) (simp_all add: pdr_compiled_of_create)
    with D(2) show ?thesis by simp
  next
    case False
    with downlink create_downlink_refused [of env c st s sw s1 sw' st1 f]
    have e: "s' = s" "sw' = snd (new_pdr (pdr_set_seid (s_seid s) (pdr_of_create env c)) sw)" by simp_all
    have "one_new env s sw s sw'"
      by (rule one_new_pdr [OF assms(1)]) (auto simp: e(2) pdr_compiled_of_create)
    then show ?thesis by (simp add: e)
  qed
qed (auto intro: one_new_same)

lemma update_pdr_new:
  assumes "heap_ok sw" "update_pdr env u s sw = (s', sw', c, ok)"
  shows "one_new env s sw s' sw' \<and> far_heap sw' = far_heap sw"
proof (cases "present (updr_pdr_id u) \<and> get_pdr sw s (ie_val (updr_pdr_id u)) \<noteq> None")
  case False
  with assms(2) have "s' = s \<and> sw' = sw" by (auto simp: update_pdr_def split: if_splits)
  then show ?thesis by (simp add: one_new_same)
next
  case True
  then obtain old where o: "get_pdr sw s (ie_val (updr_pdr_id u)) = Some old" by auto
  let ?p = "pdr_patch env u (pdr_at sw old)"
  define sw1 where "sw1 = snd (new_pdr ?p sw)"
  have n: "new_pdr ?p sw = (next_ref sw, sw1)" by (simp add: sw1_def prod_eq_iff)
  have s': "s' = s\<lparr>s_pdrs := update_first (\<lambda>e. pdr_id_at sw e = ie_val (updr_pdr_id u)) (\<lambda>_. next_ref sw) (s_pdrs s)\<rparr>"
    and h: "heaps sw' = heaps sw1"
    using assms(2) o True n by (auto simp: update_pdr_def)
  have "old \<in> set (s_pdrs s)" using o by (auto simp: get_pdr_def find_Some_iff)
  then have "(\<forall>r \<in> set (s_pdrs s). pdr_compiled env (pdr_at sw r)) \<longrightarrow> pdr_compiled env ?p"
    by (simp add: pdr_compiled_patch)
  moreover have "pdr_heap sw' = (pdr_heap sw)(next_ref sw \<mapsto> ?p)" using heaps_eqD [OF h] by (simp add: sw1_def)
  ultimately have "one_new env s sw s' sw'"
    by (intro one_new_pdr [OF assms(1)]) (auto simp: s' dest: set_update_firstD)
  then show ?thesis using heaps_eqD [OF h] by (simp add: sw1_def)
qed

lemma map_le_at: "f \<subseteq>\<^sub>m g \<Longrightarrow> r \<in> dom f \<Longrightarrow> g r = f r"
  by (simp add: map_le_def)

lemma new_far_le: "heap_ok sw \<Longrightarrow> far_heap sw \<subseteq>\<^sub>m (far_heap sw)(next_ref sw \<mapsto> x)"
  by (auto simp: heap_ok_def map_le_def)

lemma create_far_pdrs:
  "create_far c st s sw = (s', sw', st', ok) \<Longrightarrow> pdr_heap sw' = pdr_heap sw \<and> s_pdrs s' = s_pdrs s"
  by (auto simp: create_far_def new_far_def add_far_def publish_fars_def Let_def split: if_splits option.splits)

lemma update_far_pdrs:
  "update_far u s sw = (s', sw', c, ok) \<Longrightarrow> pdr_heap sw' = pdr_heap sw \<and> s_pdrs s' = s_pdrs s"
  by (auto simp: update_far_def new_far_def publish_fars_def split: option.splits)

lemma update_far_le:
  "heap_ok sw \<Longrightarrow> update_far u s sw = (s', sw', c, ok) \<Longrightarrow> far_heap sw \<subseteq>\<^sub>m far_heap sw'"
  by (auto simp: update_far_def new_far_def new_far_le split: option.splits)

lemma remove_pdr_subset: "remove_pdr i st sw s = (s', st', ok) \<Longrightarrow> set (s_pdrs s') \<subseteq> set (s_pdrs s)"
  by (auto simp: remove_pdr_def split: if_splits option.splits dest: erase_first_subset [THEN subsetD])

lemma remove_far_pdrs: "remove_far i st sw s = (s', st', ok) \<Longrightarrow> s_pdrs s' = s_pdrs s"
  by (auto simp: remove_far_def publish_fars_def split: if_splits option.splits)

lemma value_ops_pdrs [simp]:
  "s_pdrs (fst (create_qer c st s)) = s_pdrs s" "s_pdrs (fst (create_urr c1 st s)) = s_pdrs s"
  "s_pdrs (fst (create_bar c2 st s)) = s_pdrs s" "s_pdrs (fst (create_mar c3 st s)) = s_pdrs s"
  "s_pdrs (fst (update_qer c4 s)) = s_pdrs s" "s_pdrs (fst (update_urr c5 s)) = s_pdrs s"
  "s_pdrs (fst (update_bar c6 s)) = s_pdrs s" "s_pdrs (fst (update_mar c7 s)) = s_pdrs s"
  "s_pdrs (fst (remove_qer i st s)) = s_pdrs s" "s_pdrs (fst (remove_urr i st s)) = s_pdrs s"
  "s_pdrs (fst (remove_bar j st s)) = s_pdrs s" "s_pdrs (fst (remove_mar j st s)) = s_pdrs s"
  by (simp_all add: create_qer_def create_urr_def create_bar_def create_mar_def add_qer_def add_urr_def
      add_bar_def add_mar_def update_qer_def update_urr_def update_bar_def update_mar_def remove_qer_def
      remove_urr_def remove_bar_def remove_mar_def Let_def split: option.split)

text \<open>The operations on the rules kept by value.\<close>

fun value_op :: "session_op \<Rightarrow> bool" where
  "value_op (Create_pdr _) = False" | "value_op (Update_pdr _) = False" | "value_op (Remove_pdr _) = False"
| "value_op (Create_far _) = False" | "value_op (Update_far _) = False" | "value_op (Remove_far _) = False"
| "value_op Clean_up = False" | "value_op _ = True"

lemma value_op_step:
  assumes "value_op p" "session_step env g p s sw = (s', sw', c, ok)"
  shows "sw' = sw" "s_pdrs s' = s_pdrs s"
proof -
  have "s_pdrs (fst (session_step env g p s sw)) = s_pdrs s \<and> fst (snd (session_step env g p s sw)) = sw"
    using assms(1) by (cases p) (simp_all add: case_prod_beta add_ul_def add_dl_def Let_def)
  with assms(2) show "sw' = sw" "s_pdrs s' = s_pdrs s" by simp_all
qed

lemma session_step_new:
  assumes "heap_ok sw" "session_step env g p s sw = (s', sw', c, ok)"
  shows "one_new env s sw s' sw' \<and> ((\<forall>x. p \<noteq> Create_far x) \<longrightarrow> far_heap sw \<subseteq>\<^sub>m far_heap sw')"
proof (cases p)
  case (Create_pdr x)
  with assms(2) obtain st f where "create_pdr env g x accepted s sw = (s', sw', st, f, ok)"
    by (auto split: prod.splits)
  from create_pdr_new [OF assms(1) this] show ?thesis by simp
next
  case (Update_pdr x)
  with assms(2) have "update_pdr env x s sw = (s', sw', c, ok)" by simp
  from update_pdr_new [OF assms(1) this] show ?thesis by simp
next
  case (Remove_pdr x)
  with assms(2) obtain st where "remove_pdr x accepted sw s = (s', st, ok)" "sw' = sw" by (auto split: prod.splits)
  with remove_pdr_subset show ?thesis by (simp add: one_new_same)
next
  case (Create_far x)
  with assms(2) obtain st where "create_far x accepted s sw = (s', sw', st, ok)" by (auto split: prod.splits)
  with create_far_pdrs show ?thesis by (fastforce simp: Create_far intro: one_new_same)
next
  case (Update_far x)
  with assms(2) have u: "update_far x s sw = (s', sw', c, ok)" by simp
  from update_far_pdrs [OF u] update_far_le [OF assms(1) u] show ?thesis by (simp add: one_new_same)
next
  case (Remove_far x)
  with assms(2) obtain st where "remove_far x accepted sw s = (s', st, ok)" "sw' = sw" by (auto split: prod.splits)
  with remove_far_pdrs show ?thesis by (fastforce intro: one_new_same)
next
  case Clean_up
  with assms(2) have c: "cleanup env s sw = (s', sw')" by (auto split: prod.splits)
  then have "heaps sw' = heaps sw" "s_pdrs s' = []" by (auto simp: cleanup_def)
  then show ?thesis using heaps_eqD [of sw' sw] by (simp add: one_new_same)
qed (use value_op_step [OF _ assms(2)] one_new_same in auto)

section \<open>Accepted uplink PDRs\<close>

lemma create_uplink_accepted:
  assumes "present (pdi_local_fteid (ie_val (cpdr_pdi c)))"
  shows "\<exists>s' sw' f. create_uplink_pdr env g c st s sw = (s', sw', st, f, True)"
  using assms by (auto simp: create_uplink_pdr_def session_get_fteid_def create_packet_in_access_def Let_def
      split: prod.splits)

lemma create_uplink_teids:
  assumes "create_uplink_pdr env g c st s sw = (s', sw', st', f, True)"
    "allocate_fteid env g (ie_val (pdi_local_fteid (ie_val (cpdr_pdi c)))) s sw = (f, s1, sw1)"
  shows "teids_given sw' = teids_given sw1"
  using assms
  by (auto simp: create_uplink_pdr_def session_get_fteid_def create_packet_in_access_def Let_def new_pdr_def
      modify_pdr_def add_pfcp_ul_pdr_by_up_teid_def split: if_splits)

lemma create_pdr_uplink_ok:
  assumes "create_pdr env g c st s sw = (s', sw', st', f, True)"
    "ie_val (pdi_source_interface (ie_val (cpdr_pdi c))) = INTERFACE_VALUE_ACCESS"
  obtains s1 sw1 where
    "allocate_fteid env g (ie_val (pdi_local_fteid (ie_val (cpdr_pdi c)))) s sw = (f, s1, sw1)"
    "present (cpdr_pdi c)" "present (pdi_source_interface (ie_val (cpdr_pdi c)))"
    "present (pdi_local_fteid (ie_val (cpdr_pdi c)))"
    "pdr_heap sw' = (pdr_heap sw)(next_ref sw \<mapsto> pdr_set_seid (s_seid s) (uplink_pdr env c f))"
    "s_pdrs s' = pdrs_add sw' (next_ref sw) (s_pdrs s)" "s_chosen_fteids s' = s_chosen_fteids s1"
    "at_key sw' = at_key (add_pfcp_ul_pdr_by_up_teid (ft_teid f) (next_ref sw) (snd (new_pdr (uplink_pdr env c f) sw1)))"
    "tables_ok sw \<Longrightarrow> tables_ok sw'" "teids_given sw' = teids_given sw1" "next_ref sw' = Suc (next_ref sw)"
  using assms(1)
proof (cases rule: create_pdr_cases)
  case (uplink s2 st2)
  show thesis
  proof (rule create_uplink_ok [OF uplink(1)])
    fix s1 sw1
    assume a: "allocate_fteid env g (ie_val (pdi_local_fteid (ie_val (cpdr_pdi c)))) s sw = (f, s1, sw1)"
      and l: "present (pdi_local_fteid (ie_val (cpdr_pdi c)))"
      and h: "pdr_heap sw' = (pdr_heap sw)(next_ref sw \<mapsto> pdr_set_seid (s_seid s) (uplink_pdr env c f))"
      and s2: "s2 = add_pdr sw' (next_ref sw) (session_set_fteid f s1)"
      and k: "at_key sw' =
        at_key (add_pfcp_ul_pdr_by_up_teid (ft_teid f) (next_ref sw) (snd (new_pdr (uplink_pdr env c f) sw1)))"
      and t: "tables_ok sw \<Longrightarrow> tables_ok sw'" and n: "next_ref sw' = Suc (next_ref sw)"
    have "s_pdrs s1 = s_pdrs s" using allocate_fteid_fields(7) [OF a] by auto
    then have p: "s_pdrs s' = pdrs_add sw' (next_ref sw) (s_pdrs s)" "s_chosen_fteids s' = s_chosen_fteids s1"
      using uplink(2) s2 by (auto simp: session_set_pdn_type_def session_set_fteid_def add_pdr_def)
    show thesis
      by (rule that [OF a uplink(6,7) l h p k t create_uplink_teids [OF uplink(1) a] n])
  qed
qed (use assms(2) in auto)

text \<open>The F-TEIDs chosen so far are only forgotten by a cleanup.\<close>

lemma allocate_fteid_chosen:
  "allocate_fteid env g l s sw = (f, s1, sw1) \<Longrightarrow> s_chosen_fteids s \<subseteq>\<^sub>m s_chosen_fteids s1"
  by (auto simp: allocate_fteid_def map_le_def split: if_splits option.splits prod.splits)

lemma allocate_fteid_remembers:
  "allocate_fteid env g l s sw = (f, s1, sw1) \<Longrightarrow> ft_ch l \<Longrightarrow> ft_chid l \<Longrightarrow>
   s_chosen_fteids s1 (ft_choose_id l) = Some f"
  by (auto simp: allocate_fteid_def split: if_splits option.splits prod.splits)

lemma allocate_fteid_known:
  "s_chosen_fteids s (ft_choose_id l) = Some f \<Longrightarrow> ft_ch l \<Longrightarrow> ft_chid l \<Longrightarrow>
   allocate_fteid env g l s sw = (f, s, sw)"
  by (simp add: allocate_fteid_def)

lemma create_pdr_chosen:
  assumes "create_pdr env g c st s sw = (s', sw', st', f, ok)"
  shows "s_chosen_fteids s \<subseteq>\<^sub>m s_chosen_fteids s'"
  using assms
proof (cases rule: create_pdr_cases)
  case (uplink s1 st1)
  show ?thesis
  proof (cases ok)
    case True
    with uplink(1) have u: "create_uplink_pdr env g c st s sw = (s1, sw', st1, f, True)" by simp
    show ?thesis
    proof (rule create_uplink_ok [OF u])
      fix s2 sw2
      assume a: "allocate_fteid env g (ie_val (pdi_local_fteid (ie_val (cpdr_pdi c)))) s sw = (f, s2, sw2)"
        and s1: "s1 = add_pdr sw' (next_ref sw) (session_set_fteid f s2)"
      have "s_chosen_fteids s' = s_chosen_fteids s2"
        using uplink(2) s1 by (auto simp: session_set_pdn_type_def session_set_fteid_def add_pdr_def)
      with allocate_fteid_chosen [OF a] show ?thesis by simp
    qed
  next
    case False
    with uplink create_uplink_refused [of env g c st s sw s1 sw' st1 f] show ?thesis by auto
  qed
next
  case (downlink s1 st1)
  show ?thesis
  proof (cases ok)
    case True
    with downlink(1) have "create_downlink_pdr env c st s sw = (s1, sw', st1, f, True)" by simp
    from create_downlink_ok(4) [OF this] downlink(2) show ?thesis
      by (auto simp: add_pdr_def session_set_pdn_type_def)
  next
    case False
    with downlink create_downlink_refused [of env c st s sw s1 sw' st1 f] show ?thesis by auto
  qed
qed simp

lemma session_step_chosen:
  assumes "session_step env g p s sw = (s', sw', c, ok)" "p \<noteq> Clean_up"
  shows "s_chosen_fteids s \<subseteq>\<^sub>m s_chosen_fteids s'"
proof (cases p)
  case (Create_pdr x)
  with assms(1) obtain st f where "create_pdr env g x accepted s sw = (s', sw', st, f, ok)"
    by (auto split: prod.splits)
  then show ?thesis by (rule create_pdr_chosen)
next
  case (Create_far x)
  with assms(1) obtain st where "create_far x accepted s sw = (s', sw', st, ok)" by (auto split: prod.splits)
  then show ?thesis
    by (auto simp: create_far_def add_far_def publish_fars_def Let_def split: if_splits option.splits prod.splits)
qed (use assms in \<open>auto simp: update_pdr_def remove_pdr_def update_far_def remove_far_def publish_fars_def
      create_qer_def create_urr_def create_bar_def create_mar_def add_qer_def add_urr_def
      add_bar_def add_mar_def update_qer_def update_urr_def update_bar_def update_mar_def remove_qer_def
      remove_urr_def remove_bar_def remove_mar_def add_ul_def add_dl_def Let_def
      split: if_splits option.splits prod.splits\<close>)

lemma session_runs_chosen:
  assumes "session_runs env g A s0 sw0 s sw" "Clean_up \<notin> A"
  shows "s_chosen_fteids s0 \<subseteq>\<^sub>m s_chosen_fteids s"
  using assms(1)
proof induction
  case (step s sw p s' sw' c ok)
  then have "s_chosen_fteids s \<subseteq>\<^sub>m s_chosen_fteids s'" using session_step_chosen assms(2) by blast
  with step.IH show ?case by (rule map_le_trans)
qed simp_all

end
