(* ===== verification/SessionProps.thy ===== *)
theory SessionProps
  imports SessionRun
begin

text \<open>
  What a session promises: well-formed rule vectors and a published view in step, rules that readers
  can trust not to change under them, filters in step with their PDI, honest causes, one F-TEID per
  CHOOSE id, uplink PDRs that are reachable, and a cleanup that leaves nothing filed.
\<close>

section \<open>An example run\<close>

definition ex_forwarding :: forwarding_parameters where
  "ex_forwarding = \<lparr>fp_destination_interface = (True, INTERFACE_VALUE_CORE),
     fp_outer_header_creation = (False, \<lparr>ohc_description = OUTER_HEADER_CREATION_GTPU_UDP_IPV4, ohc_teid = 0,
       ohc_ipv4_address = 0, ohc_ipv6_address = [], ohc_port_number = 0\<rparr>),
     fp_network_instance = (False, []), fp_transport_level_marking = (False, [])\<rparr>"

definition ex_create_far :: "u32 \<Rightarrow> create_far_ie" where
  "ex_create_far i = \<lparr>cfar_far_id = (True, i),
     cfar_apply_action = (True, \<lparr>aa_drop = False, aa_forw = True, aa_buff = False, aa_nocp = False, aa_dupl = False\<rparr>),
     cfar_forwarding_parameters = (True, ex_forwarding), cfar_duplicating_parameters = (False, []),
     cfar_bar_id = (False, 0)\<rparr>"

definition ex_update_far :: "u32 \<Rightarrow> update_far_ie" where
  "ex_update_far i = \<lparr>ufar_far_id = i,
     ufar_apply_action = (True, \<lparr>aa_drop = True, aa_forw = False, aa_buff = False, aa_nocp = False, aa_dupl = False\<rparr>),
     ufar_update_forwarding_parameters = (False, ex_forwarding),
     ufar_update_duplicating_parameters = (False, []), ufar_bar_id = (False, 0)\<rparr>"

definition ex_uids :: uids where
  "ex_uids = \<lparr>nth_seid = (\<lambda>n. of_nat n + 1), nth_teid = (\<lambda>n. of_nat n + 1)\<rparr>"

definition ex_session :: pfcp_session where
  "ex_session = session_new \<lparr>fs_seid = 9, fs_addr = []\<rparr> 1 0"

lemma heap_ok_switch_new [simp]: "heap_ok switch_new"
  by (simp add: heap_ok_def switch_new_def)

lemma far_at_new: "far_heap (switch_new\<lparr>far_heap := h, next_ref := n\<rparr>) = h"
  by simp

lemma ex_far_steps:
  "session_step ex_env ex_uids (Create_far (ex_create_far 7)) ex_session switch_new =
     (publish_fars (ex_session\<lparr>s_fars := [0]\<rparr>),
      switch_new\<lparr>far_heap := [0 \<mapsto> far_of_create (ex_create_far 7)], next_ref := 1\<rparr>,
      CAUSE_VALUE_REQUEST_ACCEPTED, True)"
  by (simp add: create_far_def ex_create_far_def new_far_def add_far_def Let_def switch_new_def
      ex_session_def session_new_def publish_fars_def far_of_create_def)

section \<open>Well-formed sessions\<close>

text \<open>C1: after any run of session operations from a new session, with other sessions and the datapath
  acting on the switch in between, every rule vector holds each id once, every PDR and FAR the session
  refers to is alive, and the view the datapath reads finds exactly the FARs the control plane finds.\<close>

theorem session_stays_well_formed:
  assumes "heap_ok sw0" "session_runs env g A (session_new cp seid now) sw0 s sw"
  shows "session_inv sw s \<and> (\<forall>i. find_far sw s i = get_far sw s i)"
proof -
  have i: "session_inv sw s" using session_runs_inv [OF assms(2) session_inv_new assms(1)] by simp
  then show ?thesis by (auto simp: session_inv_def view_ok_def find_far_def get_far_def)
qed

theorem session_stays_well_formed_witness:
  "\<exists>s sw. s_fars s = [0] \<and> far_id_at sw 0 = 7 \<and> session_inv sw s \<and> find_far sw s 7 = Some 0"
proof -
  let ?s = "publish_fars (ex_session\<lparr>s_fars := [0]\<rparr>)"
  let ?sw = "switch_new\<lparr>far_heap := [0 \<mapsto> far_of_create (ex_create_far 7)], next_ref := 1\<rparr>"
  have "session_runs ex_env ex_uids UNIV ex_session switch_new ?s ?sw"
    by (rule session_runs.step [OF session_runs.start _ ex_far_steps]) simp
  then have "session_inv ?sw ?s \<and> (\<forall>i. find_far ?sw ?s i = get_far ?sw ?s i)"
    unfolding ex_session_def by (rule session_stays_well_formed [OF heap_ok_switch_new])
  moreover have "get_far ?sw ?s 7 = Some 0"
    by (simp add: get_far_def publish_fars_def far_of_create_def ex_create_far_def)
  ultimately have "session_inv ?sw ?s \<and> find_far ?sw ?s 7 = Some 0" by simp
  moreover have "s_fars ?s = [0] \<and> far_id_at ?sw 0 = 7"
    by (simp add: publish_fars_def far_of_create_def ex_create_far_def)
  ultimately show ?thesis by blast
qed

text \<open>An operation never edits a PDR that exists, and only a Create FAR may edit a FAR that exists:
  updates publish new objects, so a reader that holds a rule sees it unchanged.\<close>

lemma updates_copy_on_write:
  assumes "heap_ok sw" "session_step env g p s sw = (s', sw', c, ok)"
  shows "pdr_heap sw \<subseteq>\<^sub>m pdr_heap sw' \<and> ((\<forall>x. p \<noteq> Create_far x) \<longrightarrow> far_heap sw \<subseteq>\<^sub>m far_heap sw')"
  using session_step_new [OF assms] by (simp add: one_new_def)

text \<open>At any time the compiled filter of every PDR of the session is the compilation of the SDF
  filter in its PDI (or the match-all default when it has none), whatever creates, updates and removals
  came before.\<close>

lemma filters_in_step_with_pdi:
  assumes "heap_ok sw0" "session_runs env g A (session_new cp seid now) sw0 s sw"
  shows "\<forall>r \<in> set (s_pdrs s). pdr_sdf (pdr_at sw r) = pdr_sdf (compile_sdf env (pdr_at sw r))"
proof -
  have "\<forall>r \<in> set (s_pdrs s). pdr_compiled env (pdr_at sw r)"
    using assms(2)
  proof (induction rule: session_runs.induct)
    case start
    show ?case by (simp add: session_new_def)
  next
    case (step s sw p s' sw' c ok)
    have i: "session_inv sw s" "heap_ok sw"
      using session_runs_inv [OF step.hyps(1) session_inv_new assms(1)] by simp_all
    then have alive: "set (s_pdrs s) \<subseteq> dom (pdr_heap sw)" by (simp add: session_inv_def pdrs_ok_def)
    have n: "one_new env s sw s' sw'" using session_step_new [OF i(2) step.hyps(3)] by simp
    show ?case
    proof
      fix r assume "r \<in> set (s_pdrs s')"
      with n step.IH consider "r \<in> set (s_pdrs s)" | "pdr_compiled env (pdr_at sw' r)"
        by (auto simp: one_new_def)
      then show "pdr_compiled env (pdr_at sw' r)"
      proof cases
        case 1
        then have d: "r \<in> dom (pdr_heap sw)" using alive by blast
        have "pdr_heap sw \<subseteq>\<^sub>m pdr_heap sw'" using n by (simp add: one_new_def)
        then have "pdr_at sw' r = pdr_at sw r" using map_le_at d by fastforce
        with 1 step.IH show ?thesis by simp
      qed simp
    qed
  next
    case (other s sw sw')
    have "session_inv sw s" using session_runs_inv [OF other.hyps(1) session_inv_new assms(1)] by simp
    then have alive: "set (s_pdrs s) \<subseteq> dom (pdr_heap sw)" by (simp add: session_inv_def pdrs_ok_def)
    have "pdr_rule (pdr_at sw' r) = pdr_rule (pdr_at sw r)" if "r \<in> set (s_pdrs s)" for r
      using other.hyps(2) keeps_the alive that unfolding evolves_def by blast
    with other.IH pdr_compiled_rule show ?case by blast
  qed
  then show ?thesis by (simp add: pdr_compiled_def)
qed

text \<open>An uplink PDR with a CHOOSE F-TEID, accepted by a new session.\<close>

definition ex_choose_pdi :: pdi where
  "ex_choose_pdi = (ex_pdi 0)\<lparr>pdi_local_fteid := (True, fteid_zero\<lparr>ft_ch := True, ft_chid := True, ft_choose_id := 3\<rparr>),
     pdi_sdf_filter := (True, ''permit out ip from any to assigned'')\<rparr>"

abbreviation ex_cr_pdr :: "u16 \<Rightarrow> create_pdr_ie" where "ex_cr_pdr i \<equiv> ex_create_pdr i 10 ex_choose_pdi"

lemma ex_cr_pdr_simps [simp]:
  "cpdr_pdr_id (ex_cr_pdr i) = (True, i)" "cpdr_pdi (ex_cr_pdr i) = (True, ex_choose_pdi)"
  "cpdr_precedence (ex_cr_pdr i) = (True, 10)"
  "pdi_source_interface ex_choose_pdi = (True, INTERFACE_VALUE_ACCESS)"
  "pdi_local_fteid ex_choose_pdi = (True, fteid_zero\<lparr>ft_ch := True, ft_chid := True, ft_choose_id := 3\<rparr>)"
  "pdi_traffic_endpoint_id ex_choose_pdi = (False, [])" "pdi_ethernet_packet_filter ex_choose_pdi = (False, [])"
  "pdi_ethernet_pdu_session_information ex_choose_pdi = (False, [])"
  "pdi_sdf_filter ex_choose_pdi = (True, ''permit out ip from any to assigned'')"
  by (simp_all add: ex_create_pdr_def ex_choose_pdi_def ex_pdi_def)

lemma ex_accepted:
  obtains s' sw' f where "create_pdr env g (ex_cr_pdr i) accepted s sw = (s', sw', accepted, f, True)"
proof -
  obtain s' sw' f where "create_uplink_pdr env g (ex_cr_pdr i) accepted s sw = (s', sw', accepted, f, True)"
  proof -
    obtain s' sw' st' f where u: "create_uplink_pdr env g (ex_cr_pdr i) accepted s sw = (s', sw', st', f, True)"
      using create_uplink_accepted [of "ex_cr_pdr i"]
      by (metis ex_cr_pdr_simps(2,5) prod.collapse prod.sel)
    moreover have "st' = accepted" using u by (rule create_uplink_ok)
    ultimately show thesis using that by blast
  qed
  then have "create_pdr env g (ex_cr_pdr i) accepted s sw = (s', sw', accepted, f, True)"
    by (simp add: create_pdr_def Let_def)
  with that show thesis .
qed

section \<open>Causes\<close>

text \<open>C14: an operation succeeds exactly when the cause it leaves is \<open>REQUEST_ACCEPTED\<close>, and one that
  fails leaves the session as it was and both PDR tables as they were.\<close>

theorem refused_operation_changes_nothing:
  assumes "session_step env g p s sw = (s', sw', c, ok)"
  shows "(ok \<longleftrightarrow> c = CAUSE_VALUE_REQUEST_ACCEPTED) \<and> (\<not> ok \<longrightarrow> s' = s \<and> at_key sw' = at_key sw)"
proof (cases p)
  case (Create_pdr x)
  with assms obtain st f where cr: "create_pdr env g x accepted s sw = (s', sw', st, f, ok)" "c = fst st"
    by (auto split: prod.splits)
  from cr(1) show ?thesis
  proof (cases rule: create_pdr_cases)
    case (uplink s1 st1)
    then show ?thesis
      using create_uplink_refused [of env g x accepted s sw s1 sw' st1 f] cr(2) by (cases ok) auto
  next
    case (downlink s1 st1)
    then show ?thesis
      using create_downlink_refused [of env x accepted s sw s1 sw' st1 f] cr(2)
      by (cases ok) (auto simp: new_pdr_def at_key_def fun_eq_iff split: pdr_key.splits)
  qed (use cr in simp)
qed (use assms in \<open>auto simp: update_pdr_def remove_pdr_def create_far_def update_far_def remove_far_def
      create_qer_def create_urr_def create_bar_def create_mar_def update_qer_def update_urr_def
      update_bar_def update_mar_def remove_qer_def remove_urr_def remove_bar_def remove_mar_def Let_def
      split: if_splits option.splits prod.splits\<close>)

theorem refused_operation_changes_nothing_witness:
  "session_step ex_env ex_uids (Update_far (ex_update_far 8)) ex_session switch_new =
     (ex_session, switch_new, CAUSE_VALUE_RULE_CREATION_MODIFICATION_FAILURE, False)"
proof -
  obtain s' sw' c ok where e: "session_step ex_env ex_uids (Update_far (ex_update_far 8)) ex_session switch_new =
      (s', sw', c, ok)" by (cases "session_step ex_env ex_uids (Update_far (ex_update_far 8)) ex_session switch_new")
  then have "c = CAUSE_VALUE_RULE_CREATION_MODIFICATION_FAILURE" "sw' = switch_new"
    by (auto simp: update_far_def get_far_def ex_session_def session_new_def)
  with e refused_operation_changes_nothing [OF e] show ?thesis by simp
qed

section \<open>One F-TEID per CHOOSE id\<close>

text \<open>Once a PDR with a CHOOSE F-TEID and a CHOOSE id was accepted, every later accepted PDR of the
  session with that CHOOSE id gets the same F-TEID and takes no new TEID from the generator, whatever
  other operations happen in between, until the session is cleaned up.\<close>

lemma choose_id_shares_fteid:
  assumes "create_pdr env g c st s sw = (s1, sw1, st1, f, True)"
    and "session_runs env g A s1 sw1 s2 sw2" "Clean_up \<notin> A"
    and "create_pdr env g c' st' s2 sw2 = (s3, sw3, st3, f', True)"
    and "\<forall>x \<in> {c, c'}. ie_val (pdi_source_interface (ie_val (cpdr_pdi x))) = INTERFACE_VALUE_ACCESS \<and>
           ft_ch (ie_val (pdi_local_fteid (ie_val (cpdr_pdi x)))) \<and>
           ft_chid (ie_val (pdi_local_fteid (ie_val (cpdr_pdi x)))) \<and>
           ft_choose_id (ie_val (pdi_local_fteid (ie_val (cpdr_pdi x)))) = k"
  shows "f' = f \<and> teids_given sw3 = teids_given sw2"
proof -
  let ?l = "ie_val (pdi_local_fteid (ie_val (cpdr_pdi c)))" and ?l' = "ie_val (pdi_local_fteid (ie_val (cpdr_pdi c')))"
  have si: "ie_val (pdi_source_interface (ie_val (cpdr_pdi c))) = INTERFACE_VALUE_ACCESS"
    "ie_val (pdi_source_interface (ie_val (cpdr_pdi c'))) = INTERFACE_VALUE_ACCESS" using assms(5) by auto
  have "s_chosen_fteids s1 k = Some f"
    using create_pdr_uplink_ok [OF assms(1) si(1)] allocate_fteid_remembers [of env g ?l s sw f] assms(5)
    by (metis insertI1)
  then have "s_chosen_fteids s2 k = Some f"
    using map_le_at [OF session_runs_chosen [OF assms(2,3)], of k] by (simp add: domI)
  then have known: "allocate_fteid env g ?l' s2 sw2 = (f, s2, sw2)"
    using assms(5) by (intro allocate_fteid_known) auto
  show ?thesis by (rule create_pdr_uplink_ok [OF assms(4) si(2)]) (simp add: known)
qed

lemma choose_fteid_again:
  assumes "create_pdr ex_env ex_uids (ex_cr_pdr i) accepted s sw = (s1, sw1, accepted, f, True)"
    "create_pdr ex_env ex_uids (ex_cr_pdr j) accepted s1 sw1 = (s2, sw2, accepted, f', True)"
  shows "f' = f"
proof -
  let ?l = "ie_val (pdi_local_fteid (ie_val (cpdr_pdi (ex_cr_pdr i))))"
  have si: "ie_val (pdi_source_interface (ie_val (cpdr_pdi (ex_cr_pdr n)))) = INTERFACE_VALUE_ACCESS" for n by simp
  have "s_chosen_fteids s1 3 = Some f"
    using create_pdr_uplink_ok [OF assms(1) si] allocate_fteid_remembers [of ex_env ex_uids ?l s sw f]
    by fastforce
  then show ?thesis
    using create_pdr_uplink_ok [OF assms(2) si] by (fastforce simp: allocate_fteid_known)
qed

section \<open>Reachable uplink PDRs\<close>

text \<open>The vector under the TEID of an accepted PDR, and the rest of the tables.\<close>

lemma accepted_uplink_tables:
  assumes "tables_ok sw"
    "create_pdr env g c st s sw = (s', sw', st', f, True)"
    "ie_val (pdi_source_interface (ie_val (cpdr_pdi c))) = INTERFACE_VALUE_ACCESS"
    "key_room sw (UlKey (ft_teid f))"
  obtains sw2 where
    "at_key sw' = (at_key sw)(UlKey (ft_teid f) := pdr_vector_add sw2 (next_ref sw) (at_key sw (UlKey (ft_teid f))))"
    "pdr_heap sw2 = (pdr_heap sw)(next_ref sw \<mapsto> uplink_pdr env c f)"
proof (rule create_pdr_uplink_ok [OF assms(2,3)])
  fix s1 sw1
  assume a: "allocate_fteid env g (ie_val (pdi_local_fteid (ie_val (cpdr_pdi c)))) s sw = (f, s1, sw1)"
    and k: "at_key sw' =
      at_key (add_pfcp_ul_pdr_by_up_teid (ft_teid f) (next_ref sw) (snd (new_pdr (uplink_pdr env c f) sw1)))"
  note A = allocate_fteid_fields [OF a]
  let ?sw2 = "snd (new_pdr (uplink_pdr env c f) sw1)"
  have sw2: "?sw2 = sw1\<lparr>pdr_heap := (pdr_heap sw1)(next_ref sw1 \<mapsto> uplink_pdr env c f), next_ref := Suc (next_ref sw1)\<rparr>"
    by (simp add: new_pdr_def)
  have "at_key ?sw2 = at_key sw1" "tables_ok ?sw2 = tables_ok sw1" "key_room ?sw2 = key_room sw1"
    unfolding sw2 by (simp_all add: at_key_def tables_ok_def key_room_def fun_eq_iff split: pdr_key.split)
  with A(4-6) assms(1,4) have o: "at_key ?sw2 = at_key sw" "tables_ok ?sw2" "key_room ?sw2 (UlKey (ft_teid f))"
    by simp_all
  have "at_key sw' = (at_key sw)(UlKey (ft_teid f) := pdr_vector_add ?sw2 (next_ref sw) (at_key sw (UlKey (ft_teid f))))"
    unfolding k ul_add_publish at_key_publish [OF o(2,3)] o(1) ..
  then show thesis by (rule that) (simp add: A)
qed

text \<open>An accepted Create PDR for the ACCESS side is filed: it is in the vector of its TEID, which is
  the key its own PDI gives, it carries the id of the session, and nothing else moves. The vector always
  grows by one, even when the session already has this rule there: the rule is filed before it carries
  its session, so the test for older versions never finds one (sessions have non-zero ids).\<close>

lemma accepted_uplink_pdr_filed:
  assumes "tables_ok sw" "create_pdr env g c st s sw = (s', sw', st', f, True)"
    and "ie_val (pdi_source_interface (ie_val (cpdr_pdi c))) = INTERFACE_VALUE_ACCESS"
    and "key_room sw (UlKey (ft_teid f))"
    and "\<forall>r \<in> set (at_key sw (UlKey (ft_teid f))). r < next_ref sw \<and> pdr_local_seid (pdr_at sw r) \<noteq> 0"
  shows "key_of (pdr_at sw' (next_ref sw)) = Some (UlKey (ft_teid f)) \<and>
    pdr_local_seid (pdr_at sw' (next_ref sw)) = s_seid s \<and>
    set (at_key sw' (UlKey (ft_teid f))) = insert (next_ref sw) (set (at_key sw (UlKey (ft_teid f)))) \<and>
    length (at_key sw' (UlKey (ft_teid f))) = Suc (length (at_key sw (UlKey (ft_teid f)))) \<and>
    (\<forall>k. k \<noteq> UlKey (ft_teid f) \<longrightarrow> at_key sw' k = at_key sw k)"
proof -
  let ?k = "UlKey (ft_teid f)" and ?p = "uplink_pdr env c f"
  obtain sw2 where t: "at_key sw' = (at_key sw)(?k := pdr_vector_add sw2 (next_ref sw) (at_key sw ?k))"
    and h: "pdr_heap sw2 = (pdr_heap sw)(next_ref sw \<mapsto> ?p)"
    by (rule accepted_uplink_tables [OF assms(1-4)])
  have seid: "pdr_local_seid ?p = 0"
    by (simp add: uplink_pdr_def pdr_set_fteid_def pdr_of_create_def compile_sdf_def)
  have n: "\<not> same_rule (pdr_at sw2 r) (pdr_at sw2 (next_ref sw))" if "r \<in> set (at_key sw ?k)" for r
    using bspec [OF assms(5) that] by (auto simp: same_rule_def h seid)
  have "filter (\<lambda>e. \<not> same_rule (pdr_at sw2 e) (pdr_at sw2 (next_ref sw))) (at_key sw ?k) = at_key sw ?k"
    using n by (simp only: filter_id_conv) blast
  then have v: "set (at_key sw' ?k) = insert (next_ref sw) (set (at_key sw ?k))"
    "length (at_key sw' ?k) = Suc (length (at_key sw ?k))" "\<forall>k. k \<noteq> ?k \<longrightarrow> at_key sw' k = at_key sw k"
    unfolding t by (simp_all add: pdr_vector_add_def del: at_key_UlKey)
  have "key_of (pdr_at sw' (next_ref sw)) = Some ?k \<and> pdr_local_seid (pdr_at sw' (next_ref sw)) = s_seid s"
  proof (rule create_pdr_uplink_ok [OF assms(2,3)])
    fix s1 sw1
    assume a: "allocate_fteid env g (ie_val (pdi_local_fteid (ie_val (cpdr_pdi c)))) s sw = (f, s1, sw1)"
      and p: "present (cpdr_pdi c)" "present (pdi_source_interface (ie_val (cpdr_pdi c)))"
        "present (pdi_local_fteid (ie_val (cpdr_pdi c)))"
      and h': "pdr_heap sw' = (pdr_heap sw)(next_ref sw \<mapsto> pdr_set_seid (s_seid s) ?p)"
    have "f = ie_val (pdi_local_fteid (ie_val (cpdr_pdi c)))"
      if "\<not> ft_ch (ie_val (pdi_local_fteid (ie_val (cpdr_pdi c))))"
      using a that by (simp add: allocate_fteid_def)
    then show ?thesis
      using p assms(3)
      by (simp add: h' uplink_pdr_def pdr_set_fteid_def pdr_of_create_def compile_sdf_def pdr_set_seid_def key_of_def)
  qed
  with v show ?thesis by (simp del: at_key_UlKey)
qed

text \<open>The same Create PDR twice: the second one is filed beside the first.\<close>

section \<open>Cleanup\<close>

lemma cleanup_pdr_at_key:
  assumes "tables_ok sw"
  shows "at_key (cleanup_pdr env r sw) =
      (case key_of (pdr_at sw r) of None \<Rightarrow> at_key sw | Some k \<Rightarrow> (at_key sw)(k := []))"
    "tables_ok (cleanup_pdr env r sw)" "pdr_heap (cleanup_pdr env r sw) = pdr_heap sw"
  using assms
  by (simp_all add: cleanup_pdr_def directory frame tables_ok_erase split: option.split pdr_key.split)

lemma cleanup_at_key:
  assumes "tables_ok sw"
  shows "at_key (fold (cleanup_pdr env) rs sw) k =
    (if \<exists>r \<in> set rs. key_of (pdr_at sw r) = Some k then [] else at_key sw k)"
  using assms
proof (induction rs arbitrary: sw)
  case (Cons r rs)
  show ?case
    using Cons.IH [OF cleanup_pdr_at_key(2) [OF Cons.prems, of env r]]
    by (auto simp: cleanup_pdr_at_key [OF Cons.prems] split: option.splits simp del: at_key_UlKey at_key_DlKey)
qed simp

text \<open>A cleanup takes everything filed under the keys of the session's PDRs out of the tables and
  leaves the other keys alone; the view of the FARs is empty from then on, so the datapath finds none.\<close>

lemma cleanup_unfiles_session:
  assumes "tables_ok sw" "cleanup env s sw = (s', sw')"
  shows "(\<forall>k. at_key sw' k = (if \<exists>r \<in> set (s_pdrs s). key_of (pdr_at sw r) = Some k then [] else at_key sw k)) \<and>
    (\<forall>i. find_far sw' s' i = None) \<and> (\<forall>i. get_pdr sw' s' i = None)"
  using assms(2) cleanup_at_key [OF assms(1)]
  by (auto simp: cleanup_def find_far_def get_pdr_def publish_fars_def simp del: at_key_UlKey at_key_DlKey)

end
