(* ===== verification/UsageReports.thy ===== *)
theory UsageReports
  imports PfcpSession
begin

text \<open>
  Usage reporting (\<open>pfcp_switch::send_usage_report\<close>, the pass of \<open>usage_report_loop\<close>): the volume
  counted since the previous report, taken from the sharded counters of the session. A report is one
  step (the source holds the session's report mutex throughout); packets are counted in between.
\<close>

section \<open>The operations\<close>

definition send_usage_report :: "bool \<Rightarrow> u64 \<Rightarrow> pfcp_session \<Rightarrow> upf_switch \<Rightarrow> pfcp_session \<times> upf_switch \<times> bool" where
  "send_usage_report periodic now s sw =
     (let ul = total_ul_octets s; dl = total_dl_octets s; ulp = total_ul_packets s; dlp = total_dl_packets s;
          d_ul = ul - ul_octets (s_reported s);
          d_dl = dl - dl_octets (s_reported s);
          d_ulp = ulp - ul_packets (s_reported s);
          d_dlp = dlp - dl_packets (s_reported s);
          i = (case s_urrs s of u # _ \<Rightarrow> if present (urr_id u) then ie_val (urr_id u) else 0 | [] \<Rightarrow> 0)
      in if d_ul = 0 \<and> d_dl = 0 then (s, sw, False)
         else (s\<lparr>s_ur_seqn := s_ur_seqn s + 1,
                 s_reported := \<lparr>ul_octets = ul, dl_octets = dl, ul_packets = ulp, dl_packets = dlp\<rparr>\<rparr>,
               sw\<lparr>n4_out := n4_out sw @
                    [(s_cp_fseid s,
                      UsageReport \<lparr>ur_urr_id = i, ur_seqn = s_ur_seqn s, ur_periodic = periodic,
                        ur_total_volume = d_ul + d_dl, ur_uplink_volume = d_ul, ur_downlink_volume = d_dl,
                        ur_total_nop = d_ulp + d_dlp, ur_uplink_nop = d_ulp, ur_downlink_nop = d_dlp,
                        ur_duration = (now - s_measurement_start s) div 1000000000\<rparr>)]\<rparr>,
               True))"

text \<open>One period of the loop: every session of the table.\<close>

definition usage_report_pass :: "upf_env \<Rightarrow> u64 \<Rightarrow> upf_switch \<Rightarrow> upf_switch" where
  "usage_report_pass env now sw =
     (if \<not> enable_urr env then sw
      else fold (\<lambda>r sw. case send_usage_report True now (the (sess_heap sw r)) sw of (s', sw', _) \<Rightarrow>
                          sw'\<lparr>sess_heap := (sess_heap sw')(r \<mapsto> s')\<rparr>)
             (map snd (um_entries (up_seid2pfcp_sessions sw))) sw)"

section \<open>Counting in shards\<close>

lemma foldl_sum_list: "foldl (\<lambda>t c. t + f c) (a :: 'a :: comm_monoid_add) xs = a + sum_list (map f xs)"
  by (induction xs arbitrary: a) (simp_all add: ac_simps)

lemma sum_list_upd:
  fixes f :: "'c \<Rightarrow> 'a :: ab_group_add"
  shows "i < length xs \<Longrightarrow> sum_list (map f (xs[i := c])) = sum_list (map f xs) + (f c - f (xs ! i))"
  by (induction xs arbitrary: i) (auto split: nat.split simp: algebra_simps)

lemmas totals = total_ul_octets_def total_dl_octets_def total_ul_packets_def total_dl_packets_def
  foldl_sum_list add_0_left

lemma my_shard_less: "my_shard t < COUNTER_SHARDS"
  by (simp add: my_shard_def COUNTER_SHARDS_def)

lemma total_add:
  assumes "length (s_counters s) = COUNTER_SHARDS"
  shows "total_ul_octets (add_ul t n s) = total_ul_octets s + n" "total_dl_octets (add_ul t n s) = total_dl_octets s"
    "total_dl_octets (add_dl t n s) = total_dl_octets s + n" "total_ul_octets (add_dl t n s) = total_ul_octets s"
  using assms my_shard_less [of t]
  by (simp_all add: totals add_ul_def add_dl_def Let_def sum_list_upd)

section \<open>Runs of packets and reports\<close>

datatype usage_event = Ul nat u64 | Dl nat u64 | Report bool u64

fun usage_step :: "usage_event \<Rightarrow> pfcp_session \<times> upf_switch \<Rightarrow> pfcp_session \<times> upf_switch" where
  "usage_step (Ul t n) (s, sw) = (add_ul t n s, sw)"
| "usage_step (Dl t n) (s, sw) = (add_dl t n s, sw)"
| "usage_step (Report p now) (s, sw) = (case send_usage_report p now s sw of (s', sw', _) \<Rightarrow> (s', sw'))"

fun ul_of :: "usage_event \<Rightarrow> u64" where "ul_of (Ul _ n) = n" | "ul_of _ = 0"
fun dl_of :: "usage_event \<Rightarrow> u64" where "dl_of (Dl _ n) = n" | "dl_of _ = 0"

text \<open>The usage reports sent, in order.\<close>

definition reports_of :: "(fseid \<times> n4_msg) list \<Rightarrow> usage_report list" where
  "reports_of ms = concat (map (\<lambda>(_, m). case m of UsageReport u \<Rightarrow> [u] | DownlinkDataReport _ \<Rightarrow> []) ms)"

lemma reports_of_append [simp]:
  "reports_of (ms @ [(f, UsageReport u)]) = reports_of ms @ [u]" "reports_of [] = []"
  by (simp_all add: reports_of_def)

definition usage_ok :: "usage_event list \<Rightarrow> pfcp_session \<times> upf_switch \<Rightarrow> bool" where
  "usage_ok evs x \<longleftrightarrow>
     (case x of (s, sw) \<Rightarrow>
        length (s_counters s) = COUNTER_SHARDS \<and>
        total_ul_octets s = sum_list (map ul_of evs) \<and> total_dl_octets s = sum_list (map dl_of evs) \<and>
        ul_octets (s_reported s) = sum_list (map ur_uplink_volume (reports_of (n4_out sw))) \<and>
        dl_octets (s_reported s) = sum_list (map ur_downlink_volume (reports_of (n4_out sw))) \<and>
        s_ur_seqn s = of_nat (length (reports_of (n4_out sw))) \<and>
        map ur_seqn (reports_of (n4_out sw)) = map of_nat [0..<length (reports_of (n4_out sw))])"

lemma total_cong:
  "s_counters s' = s_counters s \<Longrightarrow> total_ul_octets s' = total_ul_octets s"
  "s_counters s' = s_counters s \<Longrightarrow> total_dl_octets s' = total_dl_octets s"
  by (simp_all add: totals)

lemma usage_ok_step:
  assumes "usage_ok evs (s, sw)"
  shows "usage_ok (evs @ [e]) (usage_step e (s, sw))"
proof (cases e)
  case (Report p now)
  obtain s' sw' b where r: "send_usage_report p now s sw = (s', sw', b)" by (cases "send_usage_report p now s sw")
  have c: "s_counters s' = s_counters s"
    using r by (auto simp: send_usage_report_def Let_def split: if_splits)
  show ?thesis
    using assms r
    by (simp add: Report usage_ok_def total_cong [OF c] c)
       (auto simp: send_usage_report_def Let_def algebra_simps split: if_splits)
qed (use assms in \<open>auto simp: usage_ok_def total_add\<close>, simp_all add: add_ul_def add_dl_def Let_def)

lemma usage_ok_run:
  "usage_ok evs x \<Longrightarrow> usage_ok (evs @ evs') (fold usage_step evs' x)"
proof (induction evs' arbitrary: evs x)
  case (Cons e evs')
  have "usage_ok (evs @ [e]) (usage_step e x)" using Cons.prems usage_ok_step by (cases x) auto
  from Cons.IH [OF this] show ?case by simp
qed simp

lemma report_reaches_totals:
  "ul_octets (s_reported (fst (usage_step (Report p now) (s, sw)))) = total_ul_octets s \<and>
   dl_octets (s_reported (fst (usage_step (Report p now) (s, sw)))) = total_dl_octets s"
  by (auto simp: send_usage_report_def Let_def)

text \<open>C35: whatever threads counted packets and whenever reports were taken, once a report has been taken
  the uplink volumes of all usage reports add up to exactly the uplink octets counted, the downlink
  volumes to the downlink octets, and the reports are numbered 0, 1, 2 and so on: nothing is counted
  twice and nothing is lost between reports.\<close>

theorem usage_reports_account_for_all:
  "case fold usage_step (evs @ [Report p now]) (session_new cp seid t0, switch_new) of
     (s, sw) \<Rightarrow>
       sum_list (map ur_uplink_volume (reports_of (n4_out sw))) = sum_list (map ul_of evs) \<and>
       sum_list (map ur_downlink_volume (reports_of (n4_out sw))) = sum_list (map dl_of evs) \<and>
       map ur_seqn (reports_of (n4_out sw)) = map of_nat [0..<length (reports_of (n4_out sw))]"
proof -
  let ?x0 = "(session_new cp seid t0, switch_new)"
  have i: "usage_ok [] ?x0"
    by (simp add: usage_ok_def session_new_def switch_new_def totals shard_zero_def sum_list_replicate)
  obtain s sw where x: "fold usage_step evs ?x0 = (s, sw)" by (cases "fold usage_step evs ?x0")
  obtain s' sw' where x': "usage_step (Report p now) (s, sw) = (s', sw')" by (cases "usage_step (Report p now) (s, sw)")
  have ok: "usage_ok evs (s, sw)" using usage_ok_run [OF i, of evs] x by simp
  have "usage_ok (evs @ [Report p now]) (s', sw')" using usage_ok_step [OF ok, of "Report p now"] x' by simp
  moreover have "ul_octets (s_reported s') = total_ul_octets s" "dl_octets (s_reported s') = total_dl_octets s"
    using report_reaches_totals [of p now s sw] x' by simp_all
  ultimately show ?thesis using ok x x' by (simp add: usage_ok_def)
qed

end
