(* ===== verification/PfcpQos.thy ===== *)
theory PfcpQos
  imports SessionInv
begin

text \<open>
  The QoS side of a session (\<open>pfcp_switch::resolve_pdr_qfis\<close>, \<open>apply_qos_mbr\<close>): which QFI a PDR's
  packets carry, and which meter each PDR gets. A meter limits one flow and points at the bucket of
  the session's direction; buckets and meters are shared by reference.
\<close>

unbundle bit_operations_syntax

section \<open>QFIs\<close>

definition resolve_qfi :: "pfcp_session \<Rightarrow> pfcp_pdr \<Rightarrow> int" where
  "resolve_qfi s p =
     (if present (pdr_pdi p) \<and> present (pdi_qfi (ie_val (pdr_pdi p)))
      then uint (ie_val (pdi_qfi (ie_val (pdr_pdi p))))
      else if \<not> present (pdr_qer_id p) then -1
      else case get_qer s (ie_val (pdr_qer_id p)) of
             None \<Rightarrow> -1
           | Some q \<Rightarrow> if present (qer_qos_flow_id q) then uint (ie_val (qer_qos_flow_id q)) else -1)"

definition resolve_pdr_qfis :: "pfcp_session \<Rightarrow> upf_switch \<Rightarrow> upf_switch" where
  "resolve_pdr_qfis s sw = fold (\<lambda>r. modify_pdr r (\<lambda>p. p\<lparr>pdr_tx_qfi := resolve_qfi s p\<rparr>)) (s_pdrs s) sw"

section \<open>Classifying the QERs\<close>

definition qer_by_id :: "pfcp_session \<Rightarrow> u32 \<rightharpoonup> pfcp_qer" where
  "qer_by_id s = fold (\<lambda>q m. if present (qer_id q) then m(ie_val (qer_id q) \<mapsto> q) else m) (s_qers s) Map.empty"

text \<open>The QFIs that point at a QER, as a mask of 64 bits.\<close>

definition qfi_bit :: "int \<Rightarrow> u64" where
  "qfi_bit q = push_bit (if q < 0 then 0 else nat q mod 64) 1"

definition qfis_of :: "upf_switch \<Rightarrow> pfcp_session \<Rightarrow> u32 \<rightharpoonup> u64" where
  "qfis_of sw s =
     fold (\<lambda>r m. let p = pdr_at sw r; i = ie_val (pdr_qer_id p)
                  in if present (pdr_qer_id p)
                     then m(i \<mapsto> (case m i of None \<Rightarrow> 0 | Some v \<Rightarrow> v) OR qfi_bit (pdr_tx_qfi p)) else m)
       (s_pdrs s) Map.empty"

definition session_wide :: "(u32 \<rightharpoonup> u64) \<Rightarrow> u32 \<Rightarrow> bool" where
  "session_wide qfis i = (case qfis i of None \<Rightarrow> True | Some v \<Rightarrow> v AND (v - 1) \<noteq> 0)"

text \<open>PFCP expresses a bit rate in kbit/s; a bit-rate element is an uplink and a downlink value.\<close>

definition rate_of :: "bool \<Rightarrow> pfcp_qer \<Rightarrow> u64" where
  "rate_of is_dl q = (if is_dl then snd (ie_val (qer_maximum_bitrate q)) else fst (ie_val (qer_maximum_bitrate q))) * 1000"

definition lower_rate :: "u64 \<Rightarrow> u64 \<Rightarrow> u64" where
  "lower_rate new sess = (if new \<noteq> 0 \<and> (sess = 0 \<or> new < sess) then new else sess)"

text \<open>The loop over the map keeps the smallest non-zero rate, so the order of its entries is free; they
  are taken in the order of the QERs.\<close>

definition session_rate :: "upf_switch \<Rightarrow> pfcp_session \<Rightarrow> bool \<Rightarrow> u64" where
  "session_rate sw s is_dl =
     fold (\<lambda>i acc. case qer_by_id s i of
                      None \<Rightarrow> acc
                    | Some q \<Rightarrow> if \<not> present (qer_maximum_bitrate q) \<or> \<not> session_wide (qfis_of sw s) i then acc
                                else lower_rate (rate_of is_dl q) acc)
       (remdups (map qer_key (filter (\<lambda>q. present (qer_id q)) (s_qers s)))) 0"

section \<open>Buckets and meters\<close>

definition tolerance_of :: "upf_env \<Rightarrow> bool \<Rightarrow> u64" where
  "tolerance_of env is_dl =
     (if is_dl then (if qos_shape_ms env > 0 then qos_shape_ms env else qos_burst_ms env)
      else (if qos_shape_ul_ms env > 0 then qos_shape_ul_ms env else qos_burst_ms env))"

definition shaped :: "upf_env \<Rightarrow> bool \<Rightarrow> bool" where
  "shaped env is_dl = (if is_dl then qos_shape_ms env > 0 else qos_shape_ul_ms env > 0)"

definition session_bucket_for ::
    "upf_env \<Rightarrow> bool \<Rightarrow> u64 \<Rightarrow> nat option \<Rightarrow> upf_switch \<Rightarrow> nat option \<times> upf_switch" where
  "session_bucket_for env is_dl bps b sw =
     (if bps = 0 then (None, sw)
      else if b = None \<or> qb_rate (the (buckets sw (the b))) \<noteq> bps
      then (Some (next_ref sw),
            sw\<lparr>buckets := (buckets sw)(next_ref sw \<mapsto> qos_bucket_new bps (tolerance_of env is_dl) (shaped env is_dl)),
               next_ref := Suc (next_ref sw)\<rparr>)
      else (b, sw))"

definition pdr_is_dl :: "pfcp_pdr \<Rightarrow> bool" where
  "pdr_is_dl p \<longleftrightarrow> present (pdi_source_interface (ie_val (pdr_pdi p))) \<and>
     ie_val (pdi_source_interface (ie_val (pdr_pdi p))) = INTERFACE_VALUE_CORE"

definition flow_rate :: "upf_switch \<Rightarrow> pfcp_session \<Rightarrow> pfcp_pdr \<Rightarrow> u64" where
  "flow_rate sw s p =
     (if present (pdr_qer_id p)
      then (case qer_by_id s (ie_val (pdr_qer_id p)) of
              None \<Rightarrow> 0
            | Some q \<Rightarrow> if present (qer_maximum_bitrate q) \<and> \<not> session_wide (qfis_of sw s) (ie_val (pdr_qer_id p))
                        then rate_of (pdr_is_dl p) q else 0)
      else 0)"

text \<open>The meter of one PDR: dropped when nothing limits it, kept when it already fits, new otherwise.\<close>

definition meter_pdr :: "upf_env \<Rightarrow> (pfcp_pdr \<Rightarrow> u64) \<Rightarrow> nat option \<Rightarrow> nat option \<Rightarrow> nat \<Rightarrow> upf_switch \<Rightarrow> upf_switch" where
  "meter_pdr env fl sess_ul sess_dl r sw =
     (let p = pdr_at sw r; is_dl = pdr_is_dl p; bps = fl p; sess = (if is_dl then sess_dl else sess_ul)
      in if \<not> present (pdr_pdi p) then sw
         else if bps = 0 \<and> sess = None
         then (if pdr_qos p \<noteq> None then modify_pdr r (\<lambda>p. p\<lparr>pdr_qos := None\<rparr>) sw else sw)
         else if pdr_qos p = None \<or> \<not> same_as (the (mbr_heap sw (the (pdr_qos p)))) bps sess
         then (modify_pdr r (\<lambda>p. p\<lparr>pdr_qos := Some (next_ref sw)\<rparr>) sw)
                \<lparr>mbr_heap := (mbr_heap sw)(next_ref sw \<mapsto> qos_mbr_new bps sess (tolerance_of env is_dl) (shaped env is_dl)),
                 next_ref := Suc (next_ref sw)\<rparr>
         else sw)"

definition apply_qos_mbr :: "upf_env \<Rightarrow> pfcp_session \<Rightarrow> upf_switch \<Rightarrow> pfcp_session \<times> upf_switch" where
  "apply_qos_mbr env s sw =
     (if \<not> enable_qos env \<or> enable_bpf_datapath env then (s, sw)
      else (case session_bucket_for env False (session_rate sw s False) (s_qos_session_ul s) sw of (ul, sw1) \<Rightarrow>
           (case session_bucket_for env True (session_rate sw s True) (s_qos_session_dl s) sw1 of (dl, sw2) \<Rightarrow>
              (s\<lparr>s_qos_session_ul := ul, s_qos_session_dl := dl\<rparr>,
               fold (meter_pdr env (flow_rate sw s) ul dl) (s_pdrs s) sw2))))"

section \<open>What the pass over the PDRs does\<close>

definition metered :: "(pfcp_pdr \<Rightarrow> u64) \<Rightarrow> nat option \<Rightarrow> nat option \<Rightarrow> upf_switch \<Rightarrow> nat \<Rightarrow> bool" where
  "metered fl ul dl sw r \<longleftrightarrow>
     (let p = pdr_at sw r; sess = (if pdr_is_dl p then dl else ul)
      in present (pdr_pdi p) \<longrightarrow>
         (if fl p = 0 \<and> sess = None then pdr_qos p = None
          else \<exists>m b. pdr_qos p = Some m \<and> mbr_heap sw m = Some b \<and> same_as b (fl p) sess))"

text \<open>The meter a PDR holds exists.\<close>

definition meter_alive :: "upf_switch \<Rightarrow> nat \<Rightarrow> bool" where
  "meter_alive sw r \<longleftrightarrow> (\<forall>m. pdr_qos (pdr_at sw r) = Some m \<longrightarrow> m < next_ref sw \<and> mbr_heap sw m \<noteq> None)"

definition qos_blind :: "(pfcp_pdr \<Rightarrow> 'a) \<Rightarrow> bool" where
  "qos_blind fl \<longleftrightarrow> (\<forall>p x. fl (p\<lparr>pdr_qos := x\<rparr>) = fl p)"

lemma qos_blind_is_dl [simp]: "pdr_is_dl (p\<lparr>pdr_qos := x\<rparr>) = pdr_is_dl p"
  by (simp add: pdr_is_dl_def)

lemma qos_blind_flow_rate: "qos_blind (flow_rate sw s)"
  by (auto simp: qos_blind_def flow_rate_def split: option.split)

lemma meter_pdr_frame:
  "r' \<noteq> r \<Longrightarrow> pdr_heap (meter_pdr env fl ul dl r sw) r' = pdr_heap sw r'"
  "\<exists>x. pdr_at (meter_pdr env fl ul dl r sw) r = (pdr_at sw r)\<lparr>pdr_qos := x\<rparr>"
  "next_ref sw \<le> next_ref (meter_pdr env fl ul dl r sw)"
  "m < next_ref sw \<Longrightarrow> mbr_heap (meter_pdr env fl ul dl r sw) m = mbr_heap sw m"
  "buckets (meter_pdr env fl ul dl r sw) = buckets sw"
proof -
  show "\<exists>x. pdr_at (meter_pdr env fl ul dl r sw) r = (pdr_at sw r)\<lparr>pdr_qos := x\<rparr>"
    by (cases "pdr_at sw r") (auto simp: meter_pdr_def Let_def modify_pdr_def)
qed (auto simp: meter_pdr_def Let_def modify_pdr_def)

lemma metered_same:
  assumes "metered fl ul dl sw r"
  shows "meter_pdr env fl ul dl r sw = sw"
  using assms by (auto simp: metered_def meter_pdr_def Let_def split: if_splits)

lemma meter_pdr_metered:
  assumes "meter_alive sw r" "qos_blind fl"
  shows "metered fl ul dl (meter_pdr env fl ul dl r sw) r"
proof -
  define p where "p = pdr_at sw r"
  define sess where "sess = (if pdr_is_dl p then dl else ul)"
  consider (absent) "\<not> present (pdr_pdi p)" | (none) "present (pdr_pdi p)" "fl p = 0" "sess = None"
    | (new) "present (pdr_pdi p)" "\<not> (fl p = 0 \<and> sess = None)"
        "pdr_qos p = None \<or> \<not> same_as (the (mbr_heap sw (the (pdr_qos p)))) (fl p) sess"
    | (keep) m where "present (pdr_pdi p)" "\<not> (fl p = 0 \<and> sess = None)" "pdr_qos p = Some m"
        "same_as (the (mbr_heap sw m)) (fl p) sess"
    by (cases "pdr_qos p") auto
  then show ?thesis
  proof cases
    case absent
    then show ?thesis by (simp add: p_def meter_pdr_def metered_def)
  next
    case none
    then show ?thesis using assms(2)
      by (auto simp: p_def sess_def meter_pdr_def metered_def Let_def qos_blind_def modify_pdr_def)
  next
    case new
    let ?b = "qos_mbr_new (fl p) sess (tolerance_of env (pdr_is_dl p)) (shaped env (pdr_is_dl p))"
    have e: "meter_pdr env fl ul dl r sw =
        (modify_pdr r (\<lambda>p. p\<lparr>pdr_qos := Some (next_ref sw)\<rparr>) sw)
          \<lparr>mbr_heap := (mbr_heap sw)(next_ref sw \<mapsto> ?b), next_ref := Suc (next_ref sw)\<rparr>"
      unfolding meter_pdr_def Let_def p_def [symmetric] sess_def [symmetric]
      by (simp only: new(1) if_not_P [OF new(2)] if_P [OF new(3)] not_True_eq_False if_False)
    have "same_as ?b (fl p) sess" by (simp add: same_as_def qos_mbr_new_def qos_bucket_new_def)
    then show ?thesis
      using new assms(2)
      by (simp add: e metered_def modify_pdr_def p_def [symmetric] sess_def [symmetric] qos_blind_def)
  next
    case keep
    have e: "meter_pdr env fl ul dl r sw = sw"
      unfolding meter_pdr_def Let_def p_def [symmetric] sess_def [symmetric] using keep by auto
    from keep(3) assms(1) obtain b where "mbr_heap sw m = Some b" by (auto simp: meter_alive_def p_def)
    with keep show ?thesis
      by (simp add: e metered_def p_def [symmetric] sess_def [symmetric])
  qed
qed

lemma meter_pdr_other:
  assumes "r' \<noteq> r" "meter_alive sw r'"
  shows "meter_alive (meter_pdr env fl ul dl r sw) r'"
    "metered fl ul dl sw r' \<Longrightarrow> metered fl ul dl (meter_pdr env fl ul dl r sw) r'"
proof -
  let ?sw = "meter_pdr env fl ul dl r sw"
  note F = meter_pdr_frame(1) [OF assms(1), of env fl ul dl sw] meter_pdr_frame(3) [of sw env fl ul dl r]
  have m: "m < next_ref sw \<and> mbr_heap ?sw m = mbr_heap sw m" if "pdr_qos (pdr_at sw r') = Some m" for m
    using assms(2) that meter_pdr_frame(4) [of m sw env fl ul dl r] by (auto simp: meter_alive_def)
  show "meter_alive ?sw r'"
    unfolding meter_alive_def
  proof (intro allI impI)
    fix m assume "pdr_qos (pdr_at ?sw r') = Some m"
    then have q: "pdr_qos (pdr_at sw r') = Some m" by (simp add: F(1))
    then show "m < next_ref ?sw \<and> mbr_heap ?sw m \<noteq> None"
      using m [OF q] F(2) assms(2) by (auto simp: meter_alive_def)
  qed
  assume M: "metered fl ul dl sw r'"
  show "metered fl ul dl ?sw r'"
  proof (cases "pdr_qos (pdr_at sw r')")
    case None
    with M show ?thesis by (auto simp: metered_def Let_def F(1))
  next
    case (Some k)
    from m [OF Some] M show ?thesis by (auto simp: metered_def Let_def F(1) Some)
  qed
qed

lemma meter_pdr_alive:
  assumes "meter_alive sw r'"
  shows "meter_alive (meter_pdr env fl ul dl r sw) r'"
proof (cases "r' = r")
  case True
  with assms show ?thesis by (auto simp: meter_alive_def meter_pdr_def Let_def modify_pdr_def)
qed (use assms meter_pdr_other in simp)

lemma meter_rest:
  assumes "meter_alive sw r" "r \<notin> set rs" "metered fl ul dl sw r"
  shows "metered fl ul dl (fold (meter_pdr env fl ul dl) rs sw) r"
  using assms
proof (induction rs arbitrary: sw)
  case (Cons x rs)
  then have "r \<noteq> x" by auto
  from Cons meter_pdr_alive [OF Cons.prems(1)] meter_pdr_other(2) [OF this Cons.prems(1,3)]
  show ?case by simp
qed simp

lemma meter_all:
  assumes "distinct rs" "\<forall>r \<in> set rs. meter_alive sw r" "qos_blind fl"
  shows "\<forall>r \<in> set rs. metered fl ul dl (fold (meter_pdr env fl ul dl) rs sw) r"
  using assms(1,2)
proof (induction rs arbitrary: sw)
  case (Cons x rs)
  let ?sw = "meter_pdr env fl ul dl x sw"
  have x: "metered fl ul dl ?sw x" "meter_alive ?sw x"
    using meter_pdr_metered [OF _ assms(3)] meter_pdr_alive Cons.prems(2) by auto
  have "\<forall>r \<in> set rs. meter_alive ?sw r" using meter_pdr_alive Cons.prems(2) by simp
  with Cons have "\<forall>r \<in> set rs. metered fl ul dl (fold (meter_pdr env fl ul dl) rs ?sw) r" by simp
  moreover have "metered fl ul dl (fold (meter_pdr env fl ul dl) rs ?sw) x"
    using meter_rest [OF x(2) _ x(1)] Cons.prems(1) by simp
  ultimately show ?case by simp
qed simp

text \<open>The pass only touches the meters, so the rates it computed from stay what they were.\<close>

definition same_pdrs :: "upf_switch \<Rightarrow> upf_switch \<Rightarrow> bool" where
  "same_pdrs sw sw' \<longleftrightarrow> (\<forall>r. \<exists>x. pdr_at sw' r = (pdr_at sw r)\<lparr>pdr_qos := x\<rparr>)"

lemma same_pdrs_refl: "pdr_heap sw' = pdr_heap sw \<Longrightarrow> same_pdrs sw sw'"
  unfolding same_pdrs_def by (metis pfcp_pdr.surjective pfcp_pdr.update_convs(11))

lemma same_pdrs_trans: "same_pdrs sw sw1 \<Longrightarrow> same_pdrs sw1 sw2 \<Longrightarrow> same_pdrs sw sw2"
  unfolding same_pdrs_def by (metis pfcp_pdr.surjective pfcp_pdr.update_convs(11))

lemma same_pdrs_meter: "same_pdrs sw (meter_pdr env fl ul dl r sw)"
  unfolding same_pdrs_def
proof
  fix r'
  show "\<exists>x. pdr_at (meter_pdr env fl ul dl r sw) r' = (pdr_at sw r')\<lparr>pdr_qos := x\<rparr>"
  proof (cases "r' = r")
    case False
    then show ?thesis using same_pdrs_refl [of sw sw] by (simp add: meter_pdr_frame(1) same_pdrs_def)
  qed (use meter_pdr_frame(2) in simp)
qed

lemma same_pdrs_fold: "same_pdrs sw (fold (meter_pdr env fl ul dl) rs sw)"
proof (induction rs arbitrary: sw)
  case (Cons r rs)
  show ?case using same_pdrs_trans [OF same_pdrs_meter Cons] by simp
qed (simp add: same_pdrs_refl)

lemma same_pdrs_fields:
  assumes "same_pdrs sw sw'"
  shows "pdr_qer_id (pdr_at sw' r) = pdr_qer_id (pdr_at sw r)" "pdr_tx_qfi (pdr_at sw' r) = pdr_tx_qfi (pdr_at sw r)"
    "pdr_pdi (pdr_at sw' r) = pdr_pdi (pdr_at sw r)"
  using assms unfolding same_pdrs_def by (metis pfcp_pdr.select_convs pfcp_pdr.surjective pfcp_pdr.update_convs(11))+

lemma qfis_of_cong:
  assumes "same_pdrs sw sw'" "s_pdrs s' = s_pdrs s"
  shows "qfis_of sw' s' = qfis_of sw s"
  unfolding qfis_of_def Let_def assms(2) same_pdrs_fields [OF assms(1)] ..

lemma session_rate_cong:
  assumes "same_pdrs sw sw'" "s_pdrs s' = s_pdrs s" "s_qers s' = s_qers s"
  shows "session_rate sw' s' is_dl = session_rate sw s is_dl"
  unfolding session_rate_def qer_by_id_def qfis_of_cong [OF assms(1,2)] assms(3) ..

lemma flow_rate_cong:
  assumes "same_pdrs sw sw'" "s_pdrs s' = s_pdrs s" "s_qers s' = s_qers s"
  shows "flow_rate sw' s' = flow_rate sw s"
  by (rule ext) (simp only: flow_rate_def qer_by_id_def qfis_of_cong [OF assms(1,2)] assms(3))

section \<open>The session buckets\<close>

definition bucket_ok :: "upf_switch \<Rightarrow> nat option \<Rightarrow> u64 \<Rightarrow> bool" where
  "bucket_ok sw b bps \<longleftrightarrow>
     (case b of None \<Rightarrow> bps = 0 | Some r \<Rightarrow> bps \<noteq> 0 \<and> r < next_ref sw \<and> qb_rate (the (buckets sw r)) = bps)"

lemma bucket_for_ok:
  assumes "session_bucket_for env is_dl bps b sw = (b', sw')" "\<forall>r. b = Some r \<longrightarrow> r < next_ref sw"
  shows "bucket_ok sw' b' bps" "pdr_heap sw' = pdr_heap sw" "mbr_heap sw' = mbr_heap sw"
    "next_ref sw \<le> next_ref sw'" "\<And>r. r < next_ref sw \<Longrightarrow> buckets sw' r = buckets sw r"
  using assms by (auto simp: session_bucket_for_def bucket_ok_def qos_bucket_new_def split: if_splits)

lemma bucket_for_same: "bucket_ok sw b bps \<Longrightarrow> session_bucket_for env is_dl bps b sw = (b, sw)"
  by (auto simp: bucket_ok_def session_bucket_for_def split: option.splits)

lemma bucket_ok_later:
  "bucket_ok sw b bps \<Longrightarrow> next_ref sw \<le> next_ref sw' \<Longrightarrow> (\<And>r. r < next_ref sw \<Longrightarrow> buckets sw' r = buckets sw r) \<Longrightarrow>
   bucket_ok sw' b bps"
  by (auto simp: bucket_ok_def split: option.splits)

lemma meter_fold_frame:
  "next_ref sw \<le> next_ref (fold (meter_pdr env fl ul dl) rs sw) \<and> buckets (fold (meter_pdr env fl ul dl) rs sw) = buckets sw"
proof (induction rs arbitrary: sw)
  case (Cons r rs)
  show ?case using Cons [of "meter_pdr env fl ul dl r sw"] meter_pdr_frame(3) [of sw env fl ul dl r]
      meter_pdr_frame(5) [of env fl ul dl r sw]
    by (auto intro: order_trans)
qed simp

text \<open>What the references of a session must satisfy for its meters to be worked on.\<close>

definition qos_refs_ok :: "upf_switch \<Rightarrow> pfcp_session \<Rightarrow> bool" where
  "qos_refs_ok sw s \<longleftrightarrow> distinct (s_pdrs s) \<and> (\<forall>r \<in> set (s_pdrs s). meter_alive sw r) \<and>
     (\<forall>b. s_qos_session_ul s = Some b \<or> s_qos_session_dl s = Some b \<longrightarrow> b < next_ref sw)"

definition simple_qos :: "upf_env \<Rightarrow> bool" where
  "simple_qos env \<longleftrightarrow> enable_qos env \<and> \<not> enable_bpf_datapath env"

lemma apply_qos_mbr_facts:
  assumes "simple_qos env" "qos_refs_ok sw s" "apply_qos_mbr env s sw = (s', sw')"
  shows "\<forall>r \<in> set (s_pdrs s). metered (flow_rate sw s) (s_qos_session_ul s') (s_qos_session_dl s') sw' r"
    "bucket_ok sw' (s_qos_session_ul s') (session_rate sw s False)"
    "bucket_ok sw' (s_qos_session_dl s') (session_rate sw s True)"
    "same_pdrs sw sw'" "s_pdrs s' = s_pdrs s" "s_qers s' = s_qers s"
proof -
  obtain ul sw1 where 1: "session_bucket_for env False (session_rate sw s False) (s_qos_session_ul s) sw = (ul, sw1)"
    by (cases "session_bucket_for env False (session_rate sw s False) (s_qos_session_ul s) sw")
  obtain dl sw2 where 2: "session_bucket_for env True (session_rate sw s True) (s_qos_session_dl s) sw1 = (dl, sw2)"
    by (cases "session_bucket_for env True (session_rate sw s True) (s_qos_session_dl s) sw1")
  let ?fl = "flow_rate sw s"
  have eq: "s' = s\<lparr>s_qos_session_ul := ul, s_qos_session_dl := dl\<rparr>"
    "sw' = fold (meter_pdr env ?fl ul dl) (s_pdrs s) sw2"
    using assms(1,3) 1 2 by (auto simp: apply_qos_mbr_def simple_qos_def)
  have r1: "\<forall>r. s_qos_session_ul s = Some r \<longrightarrow> r < next_ref sw" using assms(2) by (simp add: qos_refs_ok_def)
  note B1 = bucket_for_ok [OF 1 r1]
  have r2: "\<forall>r. s_qos_session_dl s = Some r \<longrightarrow> r < next_ref sw1"
    using assms(2) B1(4) by (auto simp: qos_refs_ok_def)
  note B2 = bucket_for_ok [OF 2 r2]
  note F = meter_fold_frame [of sw2 env ?fl ul dl "s_pdrs s", folded eq(2)]
  have "bucket_ok sw2 ul (session_rate sw s False)" using bucket_ok_later [OF B1(1) B2(4,5)] .
  then show "bucket_ok sw' (s_qos_session_ul s') (session_rate sw s False)"
    using bucket_ok_later F by (simp add: eq(1))
  show "bucket_ok sw' (s_qos_session_dl s') (session_rate sw s True)"
    using bucket_ok_later [OF B2(1)] F by (simp add: eq(1))
  have alive: "\<forall>r \<in> set (s_pdrs s). meter_alive sw2 r"
    using assms(2) B1(2-4) B2(2-4) by (fastforce simp: qos_refs_ok_def meter_alive_def)
  have "distinct (s_pdrs s)" using assms(2) by (simp add: qos_refs_ok_def)
  from meter_all [OF this alive qos_blind_flow_rate, where ?ul = ul and ?dl = dl]
  show "\<forall>r \<in> set (s_pdrs s). metered ?fl (s_qos_session_ul s') (s_qos_session_dl s') sw' r"
    by (simp add: eq)
  have "pdr_heap sw2 = pdr_heap sw" using B1(2) B2(2) by simp
  from same_pdrs_trans [OF same_pdrs_refl [OF this] same_pdrs_fold]
  show "same_pdrs sw sw'" unfolding eq(2) .
  show "s_pdrs s' = s_pdrs s" "s_qers s' = s_qers s" by (simp_all add: eq(1))
qed

section \<open>Properties\<close>

text \<open>After the meters were applied, every PDR of the session is limited by exactly its flow rate and
  the bucket of its direction. All PDRs of a direction hold the same session bucket, whose rate is the
  lowest session-wide rate, and a PDR nothing limits holds no meter.\<close>

lemma every_pdr_gets_its_meter:
  assumes "simple_qos env" "qos_refs_ok sw s" "apply_qos_mbr env s sw = (s', sw')"
  shows "(\<forall>r \<in> set (s_pdrs s). present (pdr_pdi (pdr_at sw r)) \<longrightarrow>
      (let sess = (if pdr_is_dl (pdr_at sw r) then s_qos_session_dl s' else s_qos_session_ul s');
           bps = flow_rate sw s (pdr_at sw r)
       in if bps = 0 \<and> sess = None then pdr_qos (pdr_at sw' r) = None
          else \<exists>m b. pdr_qos (pdr_at sw' r) = Some m \<and> mbr_heap sw' m = Some b \<and>
                     qb_rate (flow b) = bps \<and> session_bucket b = sess)) \<and>
    bucket_ok sw' (s_qos_session_ul s') (session_rate sw s False) \<and>
    bucket_ok sw' (s_qos_session_dl s') (session_rate sw s True)"
proof -
  note A = apply_qos_mbr_facts [OF assms]
  have e: "flow_rate sw s (pdr_at sw' r) = flow_rate sw s (pdr_at sw r)"
    "pdr_is_dl (pdr_at sw' r) = pdr_is_dl (pdr_at sw r)" for r
    using same_pdrs_fields [OF A(4)] by (auto simp: flow_rate_def pdr_is_dl_def split: option.split)
  then show ?thesis
    using A(1-3) unfolding metered_def Let_def same_as_def e same_pdrs_fields(3) [OF A(4)] by blast
qed

text \<open>Applying the meters again to an unchanged session changes nothing, however much of their
  credit the buckets and meters have spent in between: a Session Modification does not refill them.\<close>

lemma unchanged_session_keeps_credit:
  assumes "simple_qos env" "qos_refs_ok sw s" "apply_qos_mbr env s sw = (s', sw')"
    and "\<forall>b. qb_rate (the (bh b)) = qb_rate (the (buckets sw' b))"
    and "\<forall>m x. mbr_heap sw' m = Some x \<longrightarrow>
           (\<exists>y. mh m = Some y \<and> qb_rate (flow y) = qb_rate (flow x) \<and> session_bucket y = session_bucket x)"
  shows "apply_qos_mbr env s' (sw'\<lparr>buckets := bh, mbr_heap := mh\<rparr>) = (s', sw'\<lparr>buckets := bh, mbr_heap := mh\<rparr>)"
proof -
  note A = apply_qos_mbr_facts [OF assms(1-3)]
  let ?sw = "sw'\<lparr>buckets := bh, mbr_heap := mh\<rparr>"
  have same: "same_pdrs sw ?sw" using same_pdrs_trans [OF A(4) same_pdrs_refl, of ?sw] by simp
  have ul: "bucket_ok ?sw (s_qos_session_ul s') (session_rate sw s False)"
    and dl: "bucket_ok ?sw (s_qos_session_dl s') (session_rate sw s True)"
    using A(2,3) assms(4) by (auto simp: bucket_ok_def split: option.splits)
  have m: "metered (flow_rate sw s) (s_qos_session_ul s') (s_qos_session_dl s') ?sw r" if "r \<in> set (s_pdrs s')" for r
  proof -
    have "metered (flow_rate sw s) (s_qos_session_ul s') (s_qos_session_dl s') sw' r" using A(1,5) that by simp
    then show ?thesis using assms(5) by (fastforce simp: metered_def Let_def same_as_def split: if_splits)
  qed
  have f: "fold (meter_pdr env (flow_rate sw s) (s_qos_session_ul s') (s_qos_session_dl s')) rs ?sw = ?sw"
    if "set rs \<subseteq> set (s_pdrs s')" for rs
    using that by (induction rs) (simp_all add: metered_same [OF m])
  show ?thesis
    using assms(1) f [OF order_refl]
    by (simp add: apply_qos_mbr_def simple_qos_def session_rate_cong [OF same A(5,6)] flow_rate_cong [OF same A(5,6)]
        bucket_for_same [OF ul] bucket_for_same [OF dl])
qed

end
