(* ===== verification/PfcpHandlers.thy ===== *)
theory PfcpHandlers
  imports PfcpQos UsageReports
begin

text \<open>
  The three N4 session handlers of the switch (\<open>handle_pfcp_session_establishment_request\<close>,
  \<open>..._modification_request\<close>, \<open>..._deletion_request\<close>) and \<open>remove_pfcp_session\<close>. A handler works on
  a record of its local variables: the session, the switch, the cause and offending element, the
  response. Each loop over a group of elements is one phase.

  Three library functions are parameters (\<open>pfcp_lib\<close>), and so is what the BPF side does when
  \<open>call_datapath\<close> is made (\<open>dp\<close>).
\<close>

section \<open>Requests and responses\<close>

record pfcp_lib =
  lib_get_far :: "create_far_ie list \<Rightarrow> u32 \<Rightarrow> create_far_ie option"
  lib_get_qer :: "pfcp_qer list \<Rightarrow> u32 \<Rightarrow> pfcp_qer option"
  lib_fteid_is_zero :: "fteid \<Rightarrow> bool"

record establishment_request =
  er_cp_fseid :: "fseid ie"
  er_node_id :: payload
  er_create_fars :: "create_far_ie list"
  er_create_pdrs :: "create_pdr_ie list"
  er_create_qers :: "pfcp_qer list"
  er_create_urrs :: "pfcp_urr list"
  er_create_bar :: "create_bar_ie ie"
  er_create_mars :: "mar_ies list"

record modification_request =
  mr_seid :: u64
  mr_cp_fseid :: "fseid ie"
  mr_remove_pdrs :: "u16 ie list"
  mr_remove_fars :: "u32 ie list"
  mr_remove_qers :: "u32 ie list"
  mr_remove_urrs :: "u32 ie list"
  mr_remove_bar :: "u8 ie ie"
  mr_remove_mars :: "u8 ie list"
  mr_create_fars :: "create_far_ie list"
  mr_create_pdrs :: "create_pdr_ie list"
  mr_create_qers :: "pfcp_qer list"
  mr_create_urrs :: "pfcp_urr list"
  mr_create_bar :: "create_bar_ie ie"
  mr_create_mars :: "mar_ies list"
  mr_update_pdrs :: "update_pdr_ie list"
  mr_update_fars :: "update_far_ie list"
  mr_update_qers :: "pfcp_qer list"
  mr_update_urrs :: "pfcp_urr list"
  mr_update_bar :: "update_bar_ie ie"
  mr_update_mars :: "mar_ies list"

datatype failed_rule =
    FAILED_RULE_ID_TYPE_PDR u16 | FAILED_RULE_ID_TYPE_FAR u32 | FAILED_RULE_ID_TYPE_QER u32
  | FAILED_RULE_ID_TYPE_URR u32 | FAILED_RULE_ID_TYPE_BAR u8 | FAILED_RULE_ID_TYPE_MAR u8

text \<open>The elements set on a response: the Created PDRs and failed rules in the order they are set, and
  the last value of the others. \<open>rsp_up_seid\<close> is the SEID of the UP F-SEID.\<close>

record response =
  rsp_seid :: u64
  rsp_cause :: pfcp_cause
  rsp_offending_ie :: "ie_type option"
  rsp_created_pdrs :: "(u16 \<times> fteid option) list"
  rsp_failed_rules :: "failed_rule list"
  rsp_up_seid :: "u64 option"

definition rsp_new :: response where
  "rsp_new = \<lparr>rsp_seid = 0, rsp_cause = CAUSE_VALUE_REQUEST_ACCEPTED, rsp_offending_ie = None,
     rsp_created_pdrs = [], rsp_failed_rules = [], rsp_up_seid = None\<rparr>"

section \<open>Phases\<close>

record handler =
  h_s :: pfcp_session
  h_sw :: upf_switch
  h_st :: status
  h_rsp :: response
  h_deleted :: bool

text \<open>A loop that stops at the first element that fails, and one that always goes on.\<close>

fun until_fails :: "('a \<Rightarrow> handler \<Rightarrow> handler \<times> bool) \<Rightarrow> 'a list \<Rightarrow> handler \<Rightarrow> handler" where
  "until_fails f [] h = h"
| "until_fails f (x # xs) h = (case f x h of (h', ok) \<Rightarrow> if ok then until_fails f xs h' else h')"

abbreviation h_accepted :: "handler \<Rightarrow> bool" where
  "h_accepted h \<equiv> fst (h_st h) = CAUSE_VALUE_REQUEST_ACCEPTED"

text \<open>A phase that is only entered under its gate and when nothing failed so far.\<close>

definition phase :: "bool \<Rightarrow> ('a \<Rightarrow> handler \<Rightarrow> handler \<times> bool) \<Rightarrow> 'a list \<Rightarrow> handler \<Rightarrow> handler" where
  "phase gate f xs h = (if gate \<and> h_accepted h then until_fails f xs h else h)"

definition opt_list :: "'a ie \<Rightarrow> 'a list" where
  "opt_list x = (if present x then [ie_val x] else [])"

definition add_failed :: "failed_rule \<Rightarrow> handler \<Rightarrow> handler" where
  "add_failed r h = h\<lparr>h_rsp := (h_rsp h)\<lparr>rsp_failed_rules := rsp_failed_rules (h_rsp h) @ [r]\<rparr>\<rparr>"

definition add_created :: "u16 \<Rightarrow> fteid option \<Rightarrow> handler \<Rightarrow> handler" where
  "add_created i f h = h\<lparr>h_rsp := (h_rsp h)\<lparr>rsp_created_pdrs := rsp_created_pdrs (h_rsp h) @ [(i, f)]\<rparr>\<rparr>"

text \<open>The last lines of a handler.\<close>

definition finish :: "handler \<Rightarrow> response" where
  "finish h =
     (h_rsp h)\<lparr>rsp_cause := fst (h_st h),
               rsp_offending_ie := (if fst (h_st h) = CAUSE_VALUE_MANDATORY_IE_MISSING \<or>
                                       fst (h_st h) = CAUSE_VALUE_CONDITIONAL_IE_MISSING
                                    then Some (snd (h_st h)) else rsp_offending_ie (h_rsp h))\<rparr>"

text \<open>\<open>session->cleanup(); delete session;\<close>: the destructor cleans up once more.\<close>

definition delete_session :: "upf_env \<Rightarrow> handler \<Rightarrow> handler" where
  "delete_session env h =
     (case cleanup env (h_s h) (h_sw h) of (s1, sw1) \<Rightarrow>
        (case cleanup env s1 sw1 of (s2, sw2) \<Rightarrow> h\<lparr>h_s := s2, h_sw := sw2, h_deleted := True\<rparr>))"

text \<open>The steps on the rules kept by value share one shape.\<close>

definition value_step ::
    "(status \<Rightarrow> pfcp_session \<Rightarrow> pfcp_session \<times> status \<times> bool) \<Rightarrow> handler \<Rightarrow> handler \<times> bool" where
  "value_step f h = (case f (h_st h) (h_s h) of (s', st', ok) \<Rightarrow> (h\<lparr>h_s := s', h_st := st'\<rparr>, ok))"

definition do_create_far :: "create_far_ie \<Rightarrow> handler \<Rightarrow> handler \<times> bool" where
  "do_create_far c h =
     (case create_far c (h_st h) (h_s h) (h_sw h) of (s', sw', st', ok) \<Rightarrow> (h\<lparr>h_s := s', h_sw := sw', h_st := st'\<rparr>, ok))"

definition do_create_pdr :: "upf_env \<Rightarrow> uids \<Rightarrow> create_pdr_ie \<Rightarrow> handler \<Rightarrow> handler \<times> fteid \<times> bool" where
  "do_create_pdr env g c h =
     (case create_pdr env g c (h_st h) (h_s h) (h_sw h) of (s', sw', st', f, ok) \<Rightarrow>
        (h\<lparr>h_s := s', h_sw := sw', h_st := st'\<rparr>, f, ok))"

section \<open>Establishment\<close>

definition est_far :: "upf_env \<Rightarrow> create_far_ie \<Rightarrow> handler \<Rightarrow> handler \<times> bool" where
  "est_far env c h = (case do_create_far c h of (h', ok) \<Rightarrow> (if ok then h' else delete_session env h', ok))"

definition qer_default :: pfcp_qer where
  "qer_default = \<lparr>qer_id = (False, 0), qer_gate_status = (False, 0, 0), qer_correlation_id = (False, 0),
     qer_maximum_bitrate = (False, 0, 0), qer_guaranteed_bitrate = (False, 0, 0), qer_qos_flow_id = (False, 0),
     qer_reflective_qos = (False, False), qer_paging_policy_indicator = (False, 0), qer_averaging_window = (False, 0)\<rparr>"

text \<open>The QER a PDR names: looked up in the request; when it is not there an empty one is created.\<close>

definition est_qer :: "pfcp_lib \<Rightarrow> upf_env \<Rightarrow> establishment_request \<Rightarrow> create_pdr_ie \<Rightarrow> handler \<Rightarrow> handler" where
  "est_qer lib env req c h =
     (if enable_qos env \<and> present (cpdr_qer_id c)
      then (case lib_get_qer lib (er_create_qers req) (ie_val (cpdr_qer_id c)) of
              Some q \<Rightarrow> fst (value_step (create_qer q) h)
            | None \<Rightarrow> fst (value_step (create_qer qer_default)
                        (h\<lparr>h_st := (CAUSE_VALUE_CONDITIONAL_IE_MISSING, PFCP_IE_CREATE_QER)\<rparr>)))
      else h)"

definition est_pdr ::
    "pfcp_lib \<Rightarrow> upf_env \<Rightarrow> uids \<Rightarrow> establishment_request \<Rightarrow> create_pdr_ie \<Rightarrow> handler \<Rightarrow> handler \<times> bool" where
  "est_pdr lib env g req c h =
     (if \<not> present (cpdr_far_id c)
      then (delete_session env (h\<lparr>h_st := (CAUSE_VALUE_MANDATORY_IE_MISSING, PFCP_IE_FAR_ID)\<rparr>), False)
      else if lib_get_far lib (er_create_fars req) (ie_val (cpdr_far_id c)) = None
      then (delete_session env (h\<lparr>h_st := (CAUSE_VALUE_MANDATORY_IE_MISSING, PFCP_IE_CREATE_FAR)\<rparr>), False)
      else case do_create_pdr env g c (est_qer lib env req c h) of (h2, f, ok) \<Rightarrow>
             if \<not> ok
             then let h3 = delete_session env h2
                  in (if fst (h_st h3) = CAUSE_VALUE_CONDITIONAL_IE_MISSING
                      then h3\<lparr>h_rsp := (h_rsp h3)\<lparr>rsp_offending_ie := Some (snd (h_st h3))\<rparr>\<rparr> else h3, False)
             else (if ft_v4 f \<or> ft_v6 f then add_created (ie_val (cpdr_pdr_id c)) (Some f) h2 else h2, True))"

datatype dp_call = EstablishSession | ModifySession | RemoveSession

type_synonym datapath = "dp_call \<Rightarrow> pfcp_session \<Rightarrow> upf_switch \<Rightarrow> upf_switch"

text \<open>The rule phases of an establishment.\<close>

definition est_rules ::
    "pfcp_lib \<Rightarrow> upf_env \<Rightarrow> uids \<Rightarrow> establishment_request \<Rightarrow> handler \<Rightarrow> handler" where
  "est_rules lib env g req h =
     (let bpf = enable_bpf_datapath env;
          h1 = until_fails (est_far env) (er_create_fars req) h;
          h2 = phase True (est_pdr lib env g req) (er_create_pdrs req) h1;
          h3 = phase (enable_urr env) (\<lambda>c. value_step (create_urr c)) (er_create_urrs req) h2;
          h4 = phase (bpf \<and> enable_bar env) (\<lambda>c. value_step (create_bar c)) (opt_list (er_create_bar req)) h3
      in phase (bpf \<and> enable_mar env) (\<lambda>c. value_step (create_mar c)) (er_create_mars req) h4)"

definition register_session :: "upf_env \<Rightarrow> establishment_request \<Rightarrow> handler \<Rightarrow> handler" where
  "register_session env req h =
     (let s = h_s h; sw = h_sw h; r = next_ref sw; fseid = ie_val (er_cp_fseid req);
          sw1 = sw\<lparr>sess_heap := (sess_heap sw)(r \<mapsto> s), next_ref := Suc r\<rparr>;
          sw2 = add_pfcp_session_by_up_seid (s_seid s) r (add_pfcp_session_by_cp_fseid fseid r sw1)
      in case apply_qos_mbr env s (resolve_pdr_qfis s sw2) of (s', sw3) \<Rightarrow>
           h\<lparr>h_s := s',
             h_sw := sw3\<lparr>sess_heap := (sess_heap sw3)(r \<mapsto> s'),
                         assoc_calls := assoc_calls sw3 @ [NotifyAddSession (er_node_id req) fseid]\<rparr>,
             h_rsp := (h_rsp h)\<lparr>rsp_up_seid := Some (get_up_seid s')\<rparr>\<rparr>)"

text \<open>None is a run that follows the deleted session: the BPF call does not look at the cause.\<close>

definition handle_establishment ::
    "pfcp_lib \<Rightarrow> datapath \<Rightarrow> upf_env \<Rightarrow> uids \<Rightarrow> u64 \<Rightarrow> establishment_request \<Rightarrow> upf_switch \<Rightarrow> (response \<times> upf_switch) option" where
  "handle_establishment lib dp env g now req sw =
     (let h0 = \<lparr>h_s = session_new (ie_val (er_cp_fseid req)) 0 now, h_sw = sw, h_st = (CAUSE_VALUE_REQUEST_ACCEPTED, IE_UNSET),
                h_rsp = rsp_new, h_deleted = False\<rparr>
      in if \<not> present (er_cp_fseid req)
         then Some (finish (h0\<lparr>h_st := (CAUSE_VALUE_MANDATORY_IE_MISSING, PFCP_IE_F_SEID)\<rparr>), sw)
         else if get_pfcp_session_by_cp_fseid sw (ie_val (er_cp_fseid req)) \<noteq> None
         then Some (finish (h0\<lparr>h_st := (CAUSE_VALUE_REQUEST_REJECTED, IE_UNSET)\<rparr>), sw)
         else (case generate_seid g sw of (seid, sw0) \<Rightarrow>
           let h1 = est_rules lib env g req
                      (h0\<lparr>h_s := session_new (ie_val (er_cp_fseid req)) seid now, h_sw := sw0\<rparr>)
           in if enable_bpf_datapath env \<and> h_deleted h1 then None
              else let h2 = (if enable_bpf_datapath env then h1\<lparr>h_sw := dp EstablishSession (h_s h1) (h_sw h1)\<rparr> else h1);
                       h3 = (if h_accepted h2 then register_session env req h2 else h2)
                   in Some (finish h3, h_sw h3)))"

section \<open>Modification\<close>

definition mod_datapath :: "datapath \<Rightarrow> upf_env \<Rightarrow> handler \<Rightarrow> handler" where
  "mod_datapath dp env h =
     (if enable_bpf_datapath env then h\<lparr>h_sw := dp ModifySession (h_s h) (h_sw h)\<rparr> else h)"

text \<open>A removal that finds no rule is reported and stops its loop; one without an id only leaves its cause.\<close>

definition rm_step ::
    "(status \<Rightarrow> pfcp_session \<Rightarrow> pfcp_session \<times> status \<times> bool) \<Rightarrow> failed_rule \<Rightarrow> handler \<Rightarrow> handler \<times> bool" where
  "rm_step f fr h =
     (case value_step f h of (h', ok) \<Rightarrow>
        if \<not> ok \<and> fst (h_st h') = CAUSE_VALUE_RULE_CREATION_MODIFICATION_FAILURE
        then (add_failed fr h', False) else (h', True))"

definition mod_rm_pdr :: "datapath \<Rightarrow> upf_env \<Rightarrow> u16 ie \<Rightarrow> handler \<Rightarrow> handler \<times> bool" where
  "mod_rm_pdr dp env i h =
     (let h1 = mod_datapath dp env h;
          h2 = (case (if present i then get_pdr (h_sw h1) (h_s h1) (ie_val i) else None) of
                  None \<Rightarrow> h1
                | Some r \<Rightarrow> h1\<lparr>h_sw := remove_pdr_from_lookup env r (h_sw h1)\<rparr>)
      in rm_step (\<lambda>st. remove_pdr i st (h_sw h2)) (FAILED_RULE_ID_TYPE_PDR (ie_val i)) h2)"

definition mod_rm_far :: "datapath \<Rightarrow> upf_env \<Rightarrow> u32 ie \<Rightarrow> handler \<Rightarrow> handler \<times> bool" where
  "mod_rm_far dp env i h =
     (let h1 = mod_datapath dp env h
      in rm_step (\<lambda>st. remove_far i st (h_sw h1)) (FAILED_RULE_ID_TYPE_FAR (ie_val i)) h1)"

definition mod_removals :: "datapath \<Rightarrow> upf_env \<Rightarrow> modification_request \<Rightarrow> handler \<Rightarrow> handler" where
  "mod_removals dp env req h =
     (let bpf = enable_bpf_datapath env;
          h1 = until_fails (mod_rm_pdr dp env) (mr_remove_pdrs req) h;
          h2 = phase True (mod_rm_far dp env) (mr_remove_fars req) h1;
          h3 = phase (enable_qos env)
                 (\<lambda>i h. rm_step (remove_qer i) (FAILED_RULE_ID_TYPE_QER (ie_val i)) (mod_datapath dp env h))
                 (mr_remove_qers req) h2;
          h4 = phase (enable_urr env) (\<lambda>i. rm_step (remove_urr i) (FAILED_RULE_ID_TYPE_URR (ie_val i)))
                 (mr_remove_urrs req) h3;
          h5 = phase (bpf \<and> enable_bar env) (\<lambda>i. rm_step (remove_bar i) (FAILED_RULE_ID_TYPE_BAR (ie_val i)))
                 (opt_list (mr_remove_bar req)) h4
      in phase (bpf \<and> enable_mar env) (\<lambda>i. rm_step (remove_mar i) (FAILED_RULE_ID_TYPE_MAR (ie_val i)))
           (mr_remove_mars req) h5)"

definition mod_create_pdr :: "pfcp_lib \<Rightarrow> upf_env \<Rightarrow> uids \<Rightarrow> create_pdr_ie \<Rightarrow> handler \<Rightarrow> handler \<times> bool" where
  "mod_create_pdr lib env g c h =
     (if \<not> present (cpdr_far_id c)
      then (h\<lparr>h_st := (CAUSE_VALUE_MANDATORY_IE_MISSING, PFCP_IE_FAR_ID)\<rparr>, False)
      else if get_far (h_sw h) (h_s h) (ie_val (cpdr_far_id c)) = None
      then (add_failed (FAILED_RULE_ID_TYPE_PDR (ie_val (cpdr_pdr_id c)))
              (h\<lparr>h_st := (CAUSE_VALUE_RULE_CREATION_MODIFICATION_FAILURE, snd (h_st h))\<rparr>), False)
      else case do_create_pdr env g c h of (h2, f, ok) \<Rightarrow>
             if \<not> ok
             then (if fst (h_st h2) = CAUSE_VALUE_CONDITIONAL_IE_MISSING
                   then h2\<lparr>h_rsp := (h_rsp h2)\<lparr>rsp_offending_ie := Some (snd (h_st h2))\<rparr>\<rparr> else h2, False)
             else (add_created (ie_val (cpdr_pdr_id c)) (if \<not> lib_fteid_is_zero lib f then Some f else None) h2, True))"

definition mod_creations :: "pfcp_lib \<Rightarrow> upf_env \<Rightarrow> uids \<Rightarrow> modification_request \<Rightarrow> handler \<Rightarrow> handler" where
  "mod_creations lib env g req h =
     (let bpf = enable_bpf_datapath env;
          h1 = phase True do_create_far (mr_create_fars req) h;
          h2 = phase True (mod_create_pdr lib env g) (mr_create_pdrs req) h1;
          h3 = phase (enable_qos env) (\<lambda>c. value_step (create_qer c)) (mr_create_qers req) h2;
          h4 = phase (enable_urr env) (\<lambda>c. value_step (create_urr c)) (mr_create_urrs req) h3;
          h5 = phase (bpf \<and> enable_bar env) (\<lambda>c. value_step (create_bar c)) (opt_list (mr_create_bar req)) h4
      in phase (bpf \<and> enable_mar env) (\<lambda>c. value_step (create_mar c)) (mr_create_mars req) h5)"

text \<open>Updates never stop their loop. Only a failed Update FAR changes the cause.\<close>

definition mod_update_pdr :: "upf_env \<Rightarrow> update_pdr_ie \<Rightarrow> handler \<Rightarrow> handler" where
  "mod_update_pdr env u h =
     (case update_pdr env u (h_s h) (h_sw h) of (s', sw', _, ok) \<Rightarrow>
        let h' = h\<lparr>h_s := s', h_sw := sw'\<rparr>
        in if ok then h' else add_failed (FAILED_RULE_ID_TYPE_PDR (ie_val (updr_pdr_id u))) h')"

definition mod_update_far :: "update_far_ie \<Rightarrow> handler \<Rightarrow> handler" where
  "mod_update_far u h =
     (case update_far u (h_s h) (h_sw h) of (s', sw', c, ok) \<Rightarrow>
        let h' = h\<lparr>h_s := s', h_sw := sw'\<rparr>
        in if ok then h'
           else add_failed (FAILED_RULE_ID_TYPE_FAR (ufar_far_id u)) (h'\<lparr>h_st := (c, snd (h_st h'))\<rparr>))"

definition mod_update_value ::
    "(pfcp_session \<Rightarrow> pfcp_session \<times> pfcp_cause \<times> bool) \<Rightarrow> failed_rule \<Rightarrow> handler \<Rightarrow> handler" where
  "mod_update_value f fr h =
     (case f (h_s h) of (s', _, ok) \<Rightarrow> let h' = h\<lparr>h_s := s'\<rparr> in if ok then h' else add_failed fr h')"

definition mod_updates :: "upf_env \<Rightarrow> modification_request \<Rightarrow> handler \<Rightarrow> handler" where
  "mod_updates env req h =
     (if \<not> h_accepted h then h
      else
        let bpf = enable_bpf_datapath env;
            h1 = fold (mod_update_pdr env) (mr_update_pdrs req) h;
            h2 = fold mod_update_far (mr_update_fars req) h1;
            h3 = (if enable_qos env
                  then fold (\<lambda>u. mod_update_value (update_qer u) (FAILED_RULE_ID_TYPE_QER (ie_val (qer_id u))))
                         (mr_update_qers req) h2 else h2);
            h4 = (if enable_urr env
                  then fold (\<lambda>u. mod_update_value (update_urr u) (FAILED_RULE_ID_TYPE_URR (ie_val (urr_id u))))
                         (mr_update_urrs req) h3 else h3);
            h5 = (if bpf \<and> enable_bar env
                  then fold (\<lambda>u. mod_update_value (update_bar u) (FAILED_RULE_ID_TYPE_BAR (ie_val (ubar_bar_id u))))
                         (opt_list (mr_update_bar req)) h4 else h4)
        in if bpf \<and> enable_mar env
           then fold (\<lambda>u. mod_update_value (update_mar u) (FAILED_RULE_ID_TYPE_MAR (ie_val (cmar_mar_id u))))
                  (mr_update_mars req) h5 else h5)"

text \<open>The session as found by its UP SEID is modified and stored back.\<close>

definition handle_modification ::
    "pfcp_lib \<Rightarrow> datapath \<Rightarrow> upf_env \<Rightarrow> uids \<Rightarrow> modification_request \<Rightarrow> upf_switch \<Rightarrow> response \<times> upf_switch" where
  "handle_modification lib dp env g req sw =
     (case get_pfcp_session_by_up_seid sw (mr_seid req) of
        None \<Rightarrow> (rsp_new\<lparr>rsp_cause := CAUSE_VALUE_SESSION_CONTEXT_NOT_FOUND\<rparr>, sw)
      | Some r \<Rightarrow>
          (let s0 = the (sess_heap sw r);
               s1 = (if present (mr_cp_fseid req) then s0\<lparr>s_cp_fseid := ie_val (mr_cp_fseid req)\<rparr> else s0);
               h0 = \<lparr>h_s = s1, h_sw = sw, h_st = (CAUSE_VALUE_REQUEST_ACCEPTED, IE_UNSET),
                     h_rsp = rsp_new\<lparr>rsp_seid := fs_seid (s_cp_fseid s1)\<rparr>, h_deleted = False\<rparr>;
               h1 = mod_updates env req (mod_creations lib env g req (mod_removals dp env req h0));
               h2 = mod_datapath dp env h1
           in case apply_qos_mbr env (h_s h2) (resolve_pdr_qfis (h_s h2) (h_sw h2)) of (s', sw') \<Rightarrow>
                (finish h2, sw'\<lparr>sess_heap := (sess_heap sw')(r \<mapsto> s')\<rparr>)))"

section \<open>Deletion\<close>

definition remove_pfcp_session :: "upf_env \<Rightarrow> u64 \<Rightarrow> nat \<Rightarrow> upf_switch \<Rightarrow> upf_switch" where
  "remove_pfcp_session env now r sw =
     (let s = the (sess_heap sw r)
      in case (if enable_urr env \<and> \<not> enable_bpf_datapath env then send_usage_report False now s sw else (s, sw, False)) of
           (s1, sw1, _) \<Rightarrow>
             (case cleanup env s1 sw1 of (s2, sw2) \<Rightarrow>
                sw2\<lparr>sess_heap := (sess_heap sw2)(r \<mapsto> s2),
                    cp_fseid2pfcp_sessions := (cp_fseid2pfcp_sessions sw2)(s_cp_fseid s2 := None),
                    up_seid2pfcp_sessions := fst (um_erase (up_seid2pfcp_sessions sw2) (s_seid s2))\<rparr>))"

definition remove_pfcp_session_by_cp_fseid :: "upf_env \<Rightarrow> u64 \<Rightarrow> fseid \<Rightarrow> upf_switch \<Rightarrow> upf_switch" where
  "remove_pfcp_session_by_cp_fseid env now f sw =
     (case get_pfcp_session_by_cp_fseid sw f of None \<Rightarrow> sw | Some r \<Rightarrow> remove_pfcp_session env now r sw)"

definition fseid_zero :: fseid where "fseid_zero = \<lparr>fs_seid = 0, fs_addr = []\<rparr>"

text \<open>The association is told about an F-SEID that is never filled in.\<close>

definition handle_deletion :: "datapath \<Rightarrow> upf_env \<Rightarrow> u64 \<Rightarrow> u64 \<Rightarrow> upf_switch \<Rightarrow> response \<times> upf_switch" where
  "handle_deletion dp env now seid sw =
     (case (case get_pfcp_session_by_up_seid sw seid of
              None \<Rightarrow> (rsp_new\<lparr>rsp_cause := CAUSE_VALUE_SESSION_CONTEXT_NOT_FOUND\<rparr>, sw)
            | Some r \<Rightarrow>
                (let s = the (sess_heap sw r);
                     sw1 = (if enable_bpf_datapath env then dp RemoveSession s sw else sw)
                 in (rsp_new\<lparr>rsp_seid := fs_seid (s_cp_fseid s)\<rparr>, remove_pfcp_session env now r sw1))) of
        (rsp, sw') \<Rightarrow> (rsp, sw'\<lparr>assoc_calls := assoc_calls sw' @ [NotifyDelSession fseid_zero]\<rparr>))"

end
