(* ===== verification/HandlerInv.thy ===== *)
theory HandlerInv
  imports PfcpHandlers SessionRun
begin

text \<open>
  What the phases of a handler keep: the invariant of the session at work, the other sessions' view of
  the heaps, usable tables, and the registration of sessions, which only the ends of the handlers
  touch. The handlers are considered without the BPF datapath.
\<close>

section \<open>Frames\<close>

definition registry :: "upf_switch \<Rightarrow> _" where
  "registry sw = (sess_heap sw, cp_fseid2pfcp_sessions sw, up_seid2pfcp_sessions sw, assoc_calls sw, n4_out sw)"

definition ident :: "pfcp_session \<Rightarrow> fseid \<times> u64" where
  "ident s = (s_cp_fseid s, s_seid s)"

named_theorems registry_frame \<open>operations that leave the registration of sessions alone\<close>

lemma registry_basic [registry_frame]:
  "registry (snd (new_pdr p sw)) = registry sw" "registry (snd (new_far x sw)) = registry sw"
  "registry (modify_pdr r f sw) = registry sw" "registry (publish k v sw) = registry sw"
  "registry (sw\<lparr>fr_calls := c\<rparr>) = registry sw"
  by (simp_all add: registry_def new_pdr_def new_far_def modify_pdr_def publish_def split: pdr_key.split)

lemma registry_tables [registry_frame]:
  "registry (add_pfcp_ul_pdr_by_up_teid t r sw) = registry sw"
  "registry (add_pfcp_dl_pdr_by_ue_ip env a r sw) = registry sw"
  "registry (remove_pfcp_ul_pdrs_by_up_teid t sw) = registry sw"
  "registry (remove_pfcp_dl_pdrs_by_ue_ip env a sw) = registry sw"
  by (simp_all add: registry_def add_pfcp_ul_pdr_by_up_teid_def add_pfcp_dl_pdr_by_ue_ip_def
      remove_pfcp_ul_pdrs_by_up_teid_def remove_pfcp_dl_pdrs_by_ue_ip_def Let_def)

lemma registry_remove [registry_frame]: "registry (remove_pdr_from_lookup env r sw) = registry sw"
  by (auto simp: remove_pdr_cases registry_frame Let_def split: option.split pdr_key.split)

lemma registry_replace [registry_frame]: "registry (replace_pdr_in_lookup env r r' sw) = registry sw"
  by (auto simp: replace_pdr_in_lookup_def registry_frame Let_def swap_publish add_under_key_def
      split: option.split pdr_key.split)

lemma registry_cleanup [registry_frame]: "registry (fold (cleanup_pdr env) rs sw) = registry sw"
proof (induction rs arbitrary: sw)
  case (Cons r rs)
  have "registry (cleanup_pdr env r sw) = registry sw"
    by (simp add: cleanup_pdr_def registry_frame split: option.split pdr_key.split)
  with Cons show ?case by simp
qed simp

lemma registry_allocate: "allocate_fteid env g l s sw = (f, s1, sw1) \<Longrightarrow> registry sw1 = registry sw \<and> ident s1 = ident s"
  by (auto simp: allocate_fteid_def generate_fteid_n3_def generate_teid_n3_def registry_def ident_def
      split: if_splits option.splits)

text \<open>What an operation keeps of the switch and of the session's identity.\<close>

definition framed :: "pfcp_session \<Rightarrow> upf_switch \<Rightarrow> pfcp_session \<Rightarrow> upf_switch \<Rightarrow> bool" where
  "framed s sw s' sw' \<longleftrightarrow> registry sw' = registry sw \<and> ident s' = ident s \<and> (tables_ok sw \<longrightarrow> tables_ok sw')"

lemma framed_refl [simp]: "framed s sw s sw"
  by (simp add: framed_def)

lemma framed_trans: "framed s sw s1 sw1 \<Longrightarrow> framed s1 sw1 s2 sw2 \<Longrightarrow> framed s sw s2 sw2"
  by (simp add: framed_def)

lemma ident_updates [simp]:
  "ident (add_pdr sw r s) = ident s" "ident (session_set_fteid f s) = ident s"
  "ident (session_set_pdn_type t s) = ident s" "ident (publish_fars s) = ident s"
  by (simp_all add: ident_def add_pdr_def session_set_fteid_def session_set_pdn_type_def publish_fars_def)

lemma create_uplink_framed:
  assumes "create_uplink_pdr env g c st s sw = (s', sw', st', f, ok)"
  shows "framed s sw s' sw'"
proof (cases ok)
  case True
  with assms have u: "create_uplink_pdr env g c st s sw = (s', sw', st', f, True)" by simp
  show ?thesis
  proof (rule create_uplink_ok [OF u])
    fix s1 sw1
    assume a: "allocate_fteid env g (ie_val (pdi_local_fteid (ie_val (cpdr_pdi c)))) s sw = (f, s1, sw1)"
      and l: "present (pdi_local_fteid (ie_val (cpdr_pdi c)))"
      and s': "s' = add_pdr sw' (next_ref sw) (session_set_fteid f s1)"
      and t: "tables_ok sw \<Longrightarrow> tables_ok sw'"
    have "registry sw' = registry sw1"
      using u a l
      by (auto simp: create_uplink_pdr_def Let_def session_get_fteid_def create_packet_in_access_def
          registry_frame split: prod.splits) (metis registry_basic(1) snd_conv)+
    with registry_allocate [OF a] s' t show ?thesis by (simp add: framed_def)
  qed
next
  case False
  with assms create_uplink_refused [of env g c st s sw s' sw' st' f] show ?thesis by simp
qed

lemma tables_ok_new_pdr: "tables_ok sw \<Longrightarrow> tables_ok (snd (new_pdr p sw))"
  by (simp add: tables_ok_def new_pdr_def)

lemma create_downlink_framed:
  assumes "create_downlink_pdr env c st s sw = (s', sw', st', f, ok)"
  shows "framed s sw s' sw'"
proof (cases ok)
  case True
  with assms have d: "create_downlink_pdr env c st s sw = (s', sw', st', f, True)" by simp
  note D = create_downlink_ok [OF d]
  have "registry sw' = registry sw" unfolding D(8) by (simp add: Let_def registry_frame)
  with D(4,7) show ?thesis by (simp add: framed_def)
next
  case False
  with assms create_downlink_refused [of env c st s sw s' sw' st' f] show ?thesis
    by (auto simp: framed_def registry_frame tables_ok_new_pdr)
qed

lemma create_pdr_framed:
  assumes "create_pdr env g c st s sw = (s', sw', st', f, ok)"
  shows "framed s sw s' sw'"
  using assms
proof (cases rule: create_pdr_cases)
  case (uplink s1 st1)
  from create_uplink_framed [OF uplink(1)] uplink(2) show ?thesis by (auto simp: framed_def)
next
  case (downlink s1 st1)
  from create_downlink_framed [OF downlink(1)] downlink(2) show ?thesis by (auto simp: framed_def)
qed simp

lemma tables_ok_far_heap [simp]: "tables_ok (sw\<lparr>far_heap := h\<rparr>) = tables_ok sw"
  "tables_ok (snd (new_far x sw)) = tables_ok sw"
  by (simp_all add: tables_ok_def new_far_def)

lemma registry_far_heap [simp]: "registry (sw\<lparr>far_heap := h\<rparr>) = registry sw"
  by (simp add: registry_def)

lemma ident_rules [simp]:
  "ident (s\<lparr>s_fars := fs\<rparr>) = ident s" "ident (s\<lparr>s_pdrs := ps\<rparr>) = ident s" "ident (s\<lparr>s_qers := qs\<rparr>) = ident s"
  "ident (s\<lparr>s_urrs := us\<rparr>) = ident s" "ident (s\<lparr>s_bars := bs\<rparr>) = ident s" "ident (s\<lparr>s_mars := ms\<rparr>) = ident s"
  "ident (s\<lparr>s_chosen_fteids := m\<rparr>) = ident s"
  by (simp_all add: ident_def)

lemma add_far_framed: "framed s sw (fst (add_far r s sw)) (snd (add_far r s sw))"
  by (auto simp: framed_def add_far_def Let_def split: option.split)

lemma create_far_framed:
  assumes "create_far c st s sw = (s', sw', st', ok)"
  shows "framed s sw s' sw'"
proof (cases ok)
  case True
  then obtain r sw1 where n: "new_far (far_of_create c) sw = (r, sw1)" and a: "add_far r s sw1 = (s', sw')"
    using assms by (auto simp: create_far_def split: if_splits prod.splits)
  have "framed s sw s sw1"
    using registry_basic(2) [of "far_of_create c" sw] tables_ok_far_heap(2) [of "far_of_create c" sw] n
    by (simp add: framed_def)
  moreover have "framed s sw1 s' sw'" using add_far_framed [of s sw1 r] a by simp
  ultimately show ?thesis by (rule framed_trans)
next
  case False
  with assms have "s' = s \<and> sw' = sw" by (auto simp: create_far_def split: if_splits prod.splits)
  then show ?thesis by simp
qed

lemma update_far_framed:
  assumes "update_far u s sw = (s', sw', c, ok)"
  shows "framed s sw s' sw'"
  using assms by (auto simp: update_far_def new_far_def framed_def registry_def tables_ok_def split: option.splits)

lemma update_pdr_framed:
  assumes "update_pdr env u s sw = (s', sw', c, ok)"
  shows "framed s sw s' sw'"
proof (cases "present (updr_pdr_id u) \<and> get_pdr sw s (ie_val (updr_pdr_id u)) \<noteq> None")
  case True
  then obtain old where o: "get_pdr sw s (ie_val (updr_pdr_id u)) = Some old" by auto
  let ?p = "pdr_patch env u (pdr_at sw old)"
  obtain r sw1 where n: "new_pdr ?p sw = (r, sw1)" by (cases "new_pdr ?p sw")
  then have sw1: "sw1 = snd (new_pdr ?p sw)" by simp
  have "ident s' = ident s" "sw' = replace_pdr_in_lookup env old r sw1"
    using assms True o n by (auto simp: update_pdr_def)
  then show ?thesis
    by (auto simp: framed_def registry_frame sw1 tables_ok_new_pdr intro: tables_ok_replace)
qed (use assms in \<open>auto simp: update_pdr_def split: if_splits\<close>)

lemma value_ops_ident [simp]:
  "ident (fst (create_qer c st s)) = ident s" "ident (fst (create_urr c1 st s)) = ident s"
  "ident (fst (create_bar c2 st s)) = ident s" "ident (fst (create_mar c3 st s)) = ident s"
  "ident (fst (update_qer c4 s)) = ident s" "ident (fst (update_urr c5 s)) = ident s"
  "ident (fst (update_bar c6 s)) = ident s" "ident (fst (update_mar c7 s)) = ident s"
  "ident (fst (remove_qer i st s)) = ident s" "ident (fst (remove_urr i st s)) = ident s"
  "ident (fst (remove_bar j st s)) = ident s" "ident (fst (remove_mar j st s)) = ident s"
  "ident (fst (remove_pdr k st sw s)) = ident s" "ident (fst (remove_far i st sw s)) = ident s"
  by (simp_all add: create_qer_def create_urr_def create_bar_def create_mar_def add_qer_def add_urr_def
      add_bar_def add_mar_def update_qer_def update_urr_def update_bar_def update_mar_def remove_qer_def
      remove_urr_def remove_bar_def remove_mar_def remove_pdr_def remove_far_def Let_def split: option.split)

lemma cleanup_framed:
  assumes "cleanup env s sw = (s', sw')"
  shows "framed s sw s' sw'"
proof -
  have "tables_ok (fold (cleanup_pdr env) rs x)" if "tables_ok x" for rs x
    using that
  proof (induction rs arbitrary: x)
    case (Cons r rs)
    have "tables_ok (cleanup_pdr env r x)"
      using Cons.prems by (auto simp: cleanup_pdr_def tables_ok_erase split: option.split pdr_key.split)
    with Cons show ?case by simp
  qed simp
  moreover have "ident s' = ident s" using assms by (auto simp: cleanup_def ident_def publish_fars_def)
  ultimately show ?thesis using assms by (auto simp: cleanup_def framed_def registry_frame)
qed

section \<open>Phases\<close>

text \<open>The invariant of a handler that began with session \<open>s0\<close> on switch \<open>sw0\<close>.\<close>

definition good :: "pfcp_session \<Rightarrow> upf_switch \<Rightarrow> handler \<Rightarrow> bool" where
  "good s0 sw0 h \<longleftrightarrow> session_inv (h_sw h) (h_s h) \<and> heap_ok (h_sw h) \<and> evolves sw0 (h_sw h) \<and>
     framed s0 sw0 (h_s h) (h_sw h)"

lemma good_step:
  assumes "good s0 sw0 h" "session_inv (h_sw h') (h_s h') \<and> heap_ok (h_sw h') \<and> evolves (h_sw h) (h_sw h')"
    "framed (h_s h) (h_sw h) (h_s h') (h_sw h')"
  shows "good s0 sw0 h'"
  using assms evolves_trans framed_trans unfolding good_def by blast

lemma until_fails_keeps:
  assumes "\<And>x h. P h \<Longrightarrow> P (fst (f x h))" "P h"
  shows "P (until_fails f xs h)"
  using assms(2)
proof (induction xs arbitrary: h)
  case (Cons x xs)
  have "P (fst (f x h))" using assms(1) Cons.prems .
  with Cons.IH show ?case by (simp add: case_prod_beta)
qed simp

lemma phase_keeps: "(\<And>x h. P h \<Longrightarrow> P (fst (f x h))) \<Longrightarrow> P h \<Longrightarrow> P (phase gate f xs h)"
  by (simp add: phase_def until_fails_keeps)

lemma fold_keeps: "(\<And>x h. P h \<Longrightarrow> P (f x h)) \<Longrightarrow> P h \<Longrightarrow> P (fold f xs h)"
  by (induction xs arbitrary: h) auto

lemma good_fields [simp]:
  "good s0 sw0 (h\<lparr>h_st := st\<rparr>) = good s0 sw0 h" "good s0 sw0 (h\<lparr>h_rsp := rsp\<rparr>) = good s0 sw0 h"
  "good s0 sw0 (h\<lparr>h_deleted := d\<rparr>) = good s0 sw0 h"
  "good s0 sw0 (add_failed r h) = good s0 sw0 h" "good s0 sw0 (add_created i f h) = good s0 sw0 h"
  by (simp_all add: good_def add_failed_def add_created_def)

lemma good_session:
  assumes "good s0 sw0 h" "session_inv (h_sw h) s'" "ident s' = ident (h_s h)"
  shows "good s0 sw0 (h\<lparr>h_s := s'\<rparr>)"
  using assms by (simp add: good_def framed_def)

lemma good_value_step:
  assumes "good s0 sw0 h" "session_inv (h_sw h) (fst (f (h_st h) (h_s h)))" "ident (fst (f (h_st h) (h_s h))) = ident (h_s h)"
  shows "good s0 sw0 (fst (value_step f h))"
proof -
  have "fst (value_step f h) = (h\<lparr>h_s := fst (f (h_st h) (h_s h))\<rparr>)\<lparr>h_st := fst (snd (f (h_st h) (h_s h)))\<rparr>"
    by (cases "f (h_st h) (h_s h)") (auto simp: value_step_def)
  then show ?thesis using good_session [OF assms] by (simp only: good_fields)
qed

lemma good_inv: "good s0 sw0 h \<Longrightarrow> session_inv (h_sw h) (h_s h)" "good s0 sw0 h \<Longrightarrow> heap_ok (h_sw h)"
  by (simp_all add: good_def)

lemma good_creates [intro]:
  assumes "good s0 sw0 h"
  shows "good s0 sw0 (fst (value_step (create_qer c) h))" "good s0 sw0 (fst (value_step (create_urr c1) h))"
    "good s0 sw0 (fst (value_step (create_bar c2) h))" "good s0 sw0 (fst (value_step (create_mar c3) h))"
  by (intro good_value_step [OF assms] create_value_inv [OF good_inv(1) [OF assms]] value_ops_ident)+

lemma good_create_far [intro]:
  assumes "good s0 sw0 h"
  shows "good s0 sw0 (fst (do_create_far c h))"
proof -
  obtain s' sw' st' ok where c: "create_far c (h_st h) (h_s h) (h_sw h) = (s', sw', st', ok)"
    by (cases "create_far c (h_st h) (h_s h) (h_sw h)")
  show ?thesis
    by (rule good_step [OF assms])
       (use create_far_inv [OF good_inv [OF assms] c] create_far_framed [OF c] in \<open>simp_all add: do_create_far_def c\<close>)
qed

lemma good_create_pdr [intro]:
  assumes "good s0 sw0 h"
  shows "good s0 sw0 (fst (do_create_pdr env g c h))"
proof -
  obtain s' sw' st' f ok where c: "create_pdr env g c (h_st h) (h_s h) (h_sw h) = (s', sw', st', f, ok)"
    by (cases "create_pdr env g c (h_st h) (h_s h) (h_sw h)")
  show ?thesis
    by (rule good_step [OF assms])
       (use create_pdr_inv [OF good_inv [OF assms] c] create_pdr_framed [OF c] in \<open>simp_all add: do_create_pdr_def c\<close>)
qed

lemma good_delete [intro]:
  assumes "good s0 sw0 h"
  shows "good s0 sw0 (delete_session env h)"
proof -
  obtain s1 sw1 where 1: "cleanup env (h_s h) (h_sw h) = (s1, sw1)" by (cases "cleanup env (h_s h) (h_sw h)")
  obtain s2 sw2 where 2: "cleanup env s1 sw1 = (s2, sw2)" by (cases "cleanup env s1 sw1")
  note I1 = cleanup_inv [OF good_inv [OF assms] 1]
  have I2: "session_inv sw2 s2 \<and> heap_ok sw2 \<and> evolves sw1 sw2" using cleanup_inv [OF _ _ 2] I1 by blast
  show ?thesis
    by (rule good_step [OF assms])
       (use I1 I2 evolves_trans framed_trans [OF cleanup_framed [OF 1] cleanup_framed [OF 2]]
        in \<open>auto simp: delete_session_def 1 2\<close>)
qed

section \<open>The rules of an establishment\<close>

lemma good_est_far [intro]:
  assumes "good s0 sw0 h"
  shows "good s0 sw0 (fst (est_far env c h))"
proof -
  obtain h' ok where c: "do_create_far c h = (h', ok)" by (cases "do_create_far c h")
  have "good s0 sw0 h'" using good_create_far [OF assms, of c] c by simp
  then show ?thesis using good_delete by (auto simp: est_far_def c)
qed

lemma good_est_qer [intro]: "good s0 sw0 h \<Longrightarrow> good s0 sw0 (est_qer lib env req c h)"
  by (auto simp: est_qer_def split: option.split intro!: good_creates(1))

lemma good_est_pdr [intro]:
  assumes "good s0 sw0 h"
  shows "good s0 sw0 (fst (est_pdr lib env g req c h))"
proof -
  obtain h2 f ok where c: "do_create_pdr env g c (est_qer lib env req c h) = (h2, f, ok)"
    by (cases "do_create_pdr env g c (est_qer lib env req c h)")
  have "good s0 sw0 h2" using good_create_pdr [OF good_est_qer [OF assms]] c by (metis fst_conv)
  then show ?thesis using assms good_delete by (auto simp: est_pdr_def c Let_def)
qed

lemma good_est_rules: "good s0 sw0 h \<Longrightarrow> good s0 sw0 (est_rules lib env g req h)"
  unfolding est_rules_def Let_def
  by (intro phase_keeps [where P = "good s0 sw0"] until_fails_keeps [where P = "good s0 sw0"]
      good_est_far good_est_pdr good_creates)

section \<open>The rules of a modification\<close>

definition simple :: "upf_env \<Rightarrow> bool" where
  "simple env \<longleftrightarrow> \<not> enable_bpf_datapath env"

lemma mod_datapath_simple [simp]: "simple env \<Longrightarrow> mod_datapath dp env h = h"
  by (simp add: mod_datapath_def simple_def)

lemma good_rm_step:
  assumes "good s0 sw0 h" "session_inv (h_sw h) (fst (f (h_st h) (h_s h)))" "ident (fst (f (h_st h) (h_s h))) = ident (h_s h)"
  shows "good s0 sw0 (fst (rm_step f fr h))"
proof -
  obtain h' ok where v: "value_step f h = (h', ok)" by (cases "value_step f h")
  have "good s0 sw0 (fst (value_step f h))" by (rule good_value_step) (fact assms)+
  then have "good s0 sw0 h'" by (simp add: v)
  then show ?thesis by (simp add: rm_step_def v)
qed

lemma remove_inv_fst:
  assumes "session_inv sw s"
  shows "session_inv sw (fst (remove_pdr i st sw s))" "session_inv sw (fst (remove_far j st sw s))"
  by (cases "remove_pdr i st sw s", simp add: remove_pdr_inv [OF assms])
     (cases "remove_far j st sw s", simp add: remove_far_inv [OF assms])

lemma good_tables:
  assumes "good s0 sw0 h" "heaps sw' = heaps (h_sw h)" "registry sw' = registry (h_sw h)" "tables_ok (h_sw h) \<longrightarrow> tables_ok sw'"
  shows "good s0 sw0 (h\<lparr>h_sw := sw'\<rparr>)"
proof (rule good_step [OF assms(1)])
  have e: "evolves (h_sw h) sw'" by (rule evolves_heaps [OF assms(2) evolves_refl])
  then show "session_inv (h_sw (h\<lparr>h_sw := sw'\<rparr>)) (h_s (h\<lparr>h_sw := sw'\<rparr>)) \<and> heap_ok (h_sw (h\<lparr>h_sw := sw'\<rparr>)) \<and>
      evolves (h_sw h) (h_sw (h\<lparr>h_sw := sw'\<rparr>))"
    using session_inv_evolves [OF good_inv(1) [OF assms(1)] e] heap_ok_heaps [OF assms(2)] good_inv(2) [OF assms(1)]
    by simp
qed (use assms in \<open>simp add: framed_def\<close>)

lemma good_mod_rm_pdr [intro]:
  assumes "simple env" "good s0 sw0 h"
  shows "good s0 sw0 (fst (mod_rm_pdr dp env i h))"
proof -
  define h2 where "h2 = (case (if present i then get_pdr (h_sw h) (h_s h) (ie_val i) else None) of
      None \<Rightarrow> h | Some r \<Rightarrow> h\<lparr>h_sw := remove_pdr_from_lookup env r (h_sw h)\<rparr>)"
  have g: "good s0 sw0 h2"
    using assms(2) by (auto simp: h2_def registry_frame tables_ok_remove split: option.split intro!: good_tables)
  have "session_inv (h_sw h2) (fst (remove_pdr i st (h_sw h2) (h_s h2)))" for st
    by (rule remove_inv_fst [OF good_inv(1) [OF g]])
  then have "good s0 sw0 (fst (rm_step (\<lambda>st. remove_pdr i st (h_sw h2)) (FAILED_RULE_ID_TYPE_PDR (ie_val i)) h2))"
    by (intro good_rm_step [OF g]) simp_all
  then show ?thesis using assms(1) by (simp add: mod_rm_pdr_def h2_def Let_def)
qed

lemma good_mod_rm_far [intro]:
  assumes "simple env" "good s0 sw0 h"
  shows "good s0 sw0 (fst (mod_rm_far dp env i h))"
proof -
  have "good s0 sw0 (fst (rm_step (\<lambda>st. remove_far i st (h_sw h)) (FAILED_RULE_ID_TYPE_FAR (ie_val i)) h))"
    using remove_inv_fst(2) [OF good_inv(1) [OF assms(2)]] by (intro good_rm_step [OF assms(2)]) simp_all
  then show ?thesis using assms(1) by (simp add: mod_rm_far_def Let_def)
qed

lemma good_rm_values [intro]:
  assumes "good s0 sw0 h"
  shows "good s0 sw0 (fst (rm_step (remove_qer i) r h))" "good s0 sw0 (fst (rm_step (remove_urr i) r h))"
    "good s0 sw0 (fst (rm_step (remove_bar j) r h))" "good s0 sw0 (fst (rm_step (remove_mar j) r h))"
  by (intro good_rm_step [OF assms] remove_value_inv [OF good_inv(1) [OF assms]] value_ops_ident)+

lemma good_removals:
  assumes "simple env" "good s0 sw0 h"
  shows "good s0 sw0 (mod_removals dp env req h)"
  unfolding mod_removals_def Let_def mod_datapath_simple [OF assms(1)]
  by (intro phase_keeps [where P = "good s0 sw0"] until_fails_keeps [where P = "good s0 sw0"]
      good_mod_rm_pdr good_mod_rm_far good_rm_values assms)

lemma good_mod_create_pdr [intro]:
  assumes "good s0 sw0 h"
  shows "good s0 sw0 (fst (mod_create_pdr lib env g c h))"
proof -
  obtain h2 f ok where c: "do_create_pdr env g c h = (h2, f, ok)" by (cases "do_create_pdr env g c h")
  have "good s0 sw0 h2" using good_create_pdr [OF assms] c by (metis fst_conv)
  then show ?thesis using assms by (auto simp: mod_create_pdr_def c)
qed

lemma good_creations: "good s0 sw0 h \<Longrightarrow> good s0 sw0 (mod_creations lib env g req h)"
  unfolding mod_creations_def Let_def
  by (intro phase_keeps [where P = "good s0 sw0"] good_create_far good_mod_create_pdr good_creates)

lemma good_update_pdr [intro]:
  assumes "good s0 sw0 h"
  shows "good s0 sw0 (mod_update_pdr env u h)"
proof -
  obtain s' sw' c ok where u: "update_pdr env u (h_s h) (h_sw h) = (s', sw', c, ok)"
    by (cases "update_pdr env u (h_s h) (h_sw h)")
  have "good s0 sw0 (h\<lparr>h_s := s', h_sw := sw'\<rparr>)"
    by (rule good_step [OF assms]) (use update_pdr_inv [OF good_inv [OF assms] u] update_pdr_framed [OF u] in simp_all)
  then show ?thesis by (simp add: mod_update_pdr_def u Let_def)
qed

lemma good_update_far [intro]:
  assumes "good s0 sw0 h"
  shows "good s0 sw0 (mod_update_far u h)"
proof -
  obtain s' sw' c ok where u: "update_far u (h_s h) (h_sw h) = (s', sw', c, ok)"
    by (cases "update_far u (h_s h) (h_sw h)")
  have "good s0 sw0 (h\<lparr>h_s := s', h_sw := sw'\<rparr>)"
    by (rule good_step [OF assms]) (use update_far_inv [OF good_inv [OF assms] u] update_far_framed [OF u] in simp_all)
  then show ?thesis by (simp add: mod_update_far_def u Let_def)
qed

lemma good_update_value:
  assumes "good s0 sw0 h" "session_inv (h_sw h) (fst (f (h_s h)))" "ident (fst (f (h_s h))) = ident (h_s h)"
  shows "good s0 sw0 (mod_update_value f r h)"
proof -
  obtain s' c ok where u: "f (h_s h) = (s', c, ok)" by (cases "f (h_s h)")
  with assms have "good s0 sw0 (h\<lparr>h_s := s'\<rparr>)" by (intro good_session) simp_all
  then show ?thesis by (simp add: mod_update_value_def u Let_def)
qed

lemma good_update_values [intro]:
  assumes "good s0 sw0 h"
  shows "good s0 sw0 (mod_update_value (update_qer u) r h)" "good s0 sw0 (mod_update_value (update_urr u1) r h)"
    "good s0 sw0 (mod_update_value (update_bar u2) r h)" "good s0 sw0 (mod_update_value (update_mar u3) r h)"
  by (intro good_update_value [OF assms] update_value_inv [OF good_inv(1) [OF assms]] value_ops_ident)+

lemma good_updates:
  assumes "good s0 sw0 h"
  shows "good s0 sw0 (mod_updates env req h)"
proof -
  note K = fold_keeps [where P = "good s0 sw0"]
  show ?thesis
    using assms unfolding mod_updates_def Let_def
    by (auto intro!: K)
qed

end
