(* ===== verification/HandlerProps.thy ===== *)
theory HandlerProps
  imports HandlerInv SessionProps
begin

text \<open>
  The handlers as wholes: every sequence of N4 requests keeps the switch consistent, a refused
  establishment registers nothing, an accepted one can be found both ways, a deletion undoes it, and
  an unknown session is refused without effect.
\<close>

section \<open>The last steps of a handler\<close>

text \<open>A change that keeps the heaps of PDRs and FARs up to the fields that are refreshed in place.\<close>

definition soft :: "upf_switch \<Rightarrow> upf_switch \<Rightarrow> bool" where
  "soft sw sw' \<longleftrightarrow> evolves sw sw' \<and> heap_ok sw' \<and> registry sw' = registry sw \<and> (tables_ok sw \<longrightarrow> tables_ok sw')"

lemma soft_refl: "heap_ok sw \<Longrightarrow> soft sw sw"
  by (simp add: soft_def)

lemma soft_trans: "soft sw sw1 \<Longrightarrow> soft sw1 sw2 \<Longrightarrow> soft sw sw2"
  using evolves_trans by (simp add: soft_def) blast

lemma soft_dom: "soft sw sw' \<Longrightarrow> dom (pdr_heap sw) \<subseteq> dom (pdr_heap sw')"
  unfolding soft_def evolves_def using keeps_dom by blast

lemma soft_modify:
  assumes "heap_ok sw" "r \<in> dom (pdr_heap sw)" "\<And>p. pdr_rule (f p) = pdr_rule p"
  shows "soft sw (modify_pdr r f sw)"
proof -
  obtain p where p: "pdr_heap sw r = Some p" using assms(2) by auto
  then have "r < next_ref sw" using assms(1) by (metis heap_ok_def linorder_not_less option.distinct(1))
  then have "heap_ok (modify_pdr r f sw)" using assms(1) by (auto simp: heap_ok_def)
  then show ?thesis
    using keeps_upd [of "pdr_heap sw" r p pdr_rule "f p"] p assms(3)
    by (simp add: soft_def evolves_def registry_frame)
qed

lemma soft_extra:
  assumes "heap_ok sw"
  shows "soft sw (sw\<lparr>mbr_heap := h, next_ref := Suc (next_ref sw)\<rparr>)"
    "soft sw (sw\<lparr>buckets := b, next_ref := Suc (next_ref sw)\<rparr>)"
  using assms by (simp_all add: soft_def evolves_def heap_ok_def registry_def tables_ok_def)

lemma soft_fold:
  assumes "\<And>r sw. r \<in> set rs \<Longrightarrow> heap_ok sw \<Longrightarrow> r \<in> dom (pdr_heap sw) \<Longrightarrow> soft sw (f r sw)"
    "heap_ok sw" "set rs \<subseteq> dom (pdr_heap sw)"
  shows "soft sw (fold f rs sw)"
  using assms
proof (induction rs arbitrary: sw)
  case (Cons r rs)
  have s: "soft sw (f r sw)" using Cons.prems by simp
  have "set rs \<subseteq> dom (pdr_heap (f r sw))" using Cons.prems(3) by (intro subset_trans [OF _ soft_dom [OF s]]) simp
  moreover have "heap_ok (f r sw)" using s by (simp add: soft_def)
  ultimately have "soft (f r sw) (fold f rs (f r sw))" using Cons by simp
  with s show ?case using soft_trans by simp
qed (simp add: soft_refl)

lemma soft_meter:
  assumes "heap_ok sw" "r \<in> dom (pdr_heap sw)"
  shows "soft sw (meter_pdr env fl ul dl r sw)"
proof -
  have m: "soft sw (modify_pdr r (\<lambda>p. p\<lparr>pdr_qos := x\<rparr>) sw)" for x
    by (rule soft_modify [OF assms]) (simp add: pdr_rule_def)
  have "soft sw ((modify_pdr r (\<lambda>p. p\<lparr>pdr_qos := x\<rparr>) sw)\<lparr>mbr_heap := h, next_ref := Suc (next_ref sw)\<rparr>)" for x h
  proof -
    have "heap_ok (modify_pdr r (\<lambda>p. p\<lparr>pdr_qos := x\<rparr>) sw)" using m by (simp add: soft_def)
    from soft_trans [OF m soft_extra(1) [OF this]] show ?thesis by simp
  qed
  then show ?thesis using m soft_refl [OF assms(1)] by (simp add: meter_pdr_def Let_def)
qed

lemma soft_bucket: "heap_ok sw \<Longrightarrow> soft sw (snd (session_bucket_for env d bps b sw))"
  by (simp add: session_bucket_for_def soft_refl soft_extra)

lemma soft_qos:
  assumes "session_inv sw s" "heap_ok sw" "apply_qos_mbr env s (resolve_pdr_qfis s sw) = (s', sw')"
  shows "soft sw sw' \<and> session_inv sw' s' \<and> ident s' = ident s"
proof -
  have d: "set (s_pdrs s) \<subseteq> dom (pdr_heap sw)" using assms(1) by (simp add: session_inv_def pdrs_ok_def)
  let ?r = "resolve_pdr_qfis s sw"
  have r: "soft sw ?r"
    unfolding resolve_pdr_qfis_def
    by (rule soft_fold [OF soft_modify assms(2) d]) (simp_all add: pdr_rule_def)
  have "soft sw sw' \<and> (\<exists>ul dl. s' = s\<lparr>s_qos_session_ul := ul, s_qos_session_dl := dl\<rparr>)"
  proof (cases "\<not> enable_qos env \<or> enable_bpf_datapath env")
    case True
    then have "s' = s" "sw' = ?r" using assms(3) by (auto simp: apply_qos_mbr_def)
    moreover have "s = s\<lparr>s_qos_session_ul := s_qos_session_ul s, s_qos_session_dl := s_qos_session_dl s\<rparr>" by simp
    ultimately show ?thesis using r by blast
  next
    case False
    obtain ul sw1 where 1: "session_bucket_for env False (session_rate ?r s False) (s_qos_session_ul s) ?r = (ul, sw1)"
      by (cases "session_bucket_for env False (session_rate ?r s False) (s_qos_session_ul s) ?r")
    obtain dl sw2 where 2: "session_bucket_for env True (session_rate ?r s True) (s_qos_session_dl s) sw1 = (dl, sw2)"
      by (cases "session_bucket_for env True (session_rate ?r s True) (s_qos_session_dl s) sw1")
    have s1: "soft sw sw1" using soft_trans [OF r soft_bucket] r 1 by (metis snd_conv soft_def)
    have s2: "soft sw sw2" using soft_trans [OF s1 soft_bucket] s1 2 by (metis snd_conv soft_def)
    have "soft sw2 (fold (meter_pdr env (flow_rate ?r s) ul dl) (s_pdrs s) sw2)"
      by (rule soft_fold [OF soft_meter]) (use s2 soft_dom [OF s2] d in \<open>auto simp: soft_def\<close>)
    with soft_trans [OF s2] show ?thesis using assms(3) False 1 2 by (auto simp: apply_qos_mbr_def)
  qed
  then obtain ul dl where s: "soft sw sw'" and s': "s' = s\<lparr>s_qos_session_ul := ul, s_qos_session_dl := dl\<rparr>" by blast
  have "session_inv sw' s" using session_inv_evolves [OF assms(1)] s by (simp add: soft_def)
  then show ?thesis using s by (simp add: s' session_inv_def view_ok_def values_ok_def ident_def)
qed

section \<open>A consistent switch\<close>

text \<open>Every registered session exists, is well formed and is filed under its own SEID.\<close>

definition n4_inv :: "upf_switch \<Rightarrow> bool" where
  "n4_inv sw \<longleftrightarrow> heap_ok sw \<and> tables_ok sw \<and>
     (\<forall>r s. sess_heap sw r = Some s \<longrightarrow> r < next_ref sw \<and> session_inv sw s) \<and>
     (\<forall>seid r. get_pfcp_session_by_up_seid sw seid = Some r \<longrightarrow> (\<exists>s. sess_heap sw r = Some s \<and> s_seid s = seid)) \<and>
     (\<forall>f r. get_pfcp_session_by_cp_fseid sw f = Some r \<longrightarrow> r \<in> dom (sess_heap sw))"

lemma n4_inv_new: "n4_inv switch_new"
  using tables_ok_new
  by (simp add: n4_inv_def get_pfcp_session_by_up_seid_def get_pfcp_session_by_cp_fseid_def)
     (simp add: switch_new_def um_new_empty)

lemma registry_eqD:
  "registry sw' = registry sw \<Longrightarrow> sess_heap sw' = sess_heap sw"
  "registry sw' = registry sw \<Longrightarrow> get_pfcp_session_by_up_seid sw' = get_pfcp_session_by_up_seid sw"
  "registry sw' = registry sw \<Longrightarrow> get_pfcp_session_by_cp_fseid sw' = get_pfcp_session_by_cp_fseid sw"
  "registry sw' = registry sw \<Longrightarrow> assoc_calls sw' = assoc_calls sw"
  by (simp_all add: registry_def get_pfcp_session_by_up_seid_def get_pfcp_session_by_cp_fseid_def fun_eq_iff)

lemma n4_inv_evolves:
  assumes "n4_inv sw" "evolves sw sw'" "heap_ok sw'" "registry sw' = registry sw" "tables_ok sw'"
  shows "n4_inv sw'"
proof -
  note R = registry_eqD [OF assms(4)]
  have "next_ref sw \<le> next_ref sw'" using assms(2) by (simp add: evolves_def)
  then have "r < next_ref sw' \<and> session_inv sw' s" if "sess_heap sw r = Some s" for r s
    using assms(1) session_inv_evolves [OF _ assms(2)] that by (fastforce simp: n4_inv_def)
  then show ?thesis using assms(1,3,5) by (simp add: n4_inv_def R)
qed

text \<open>Storing a session back under its reference.\<close>

lemma session_inv_extra [simp]:
  "session_inv (sw\<lparr>sess_heap := h\<rparr>) s = session_inv sw s" "session_inv (sw\<lparr>assoc_calls := a\<rparr>) s = session_inv sw s"
  "session_inv (sw\<lparr>n4_out := n\<rparr>) s = session_inv sw s"
  "session_inv (sw\<lparr>cp_fseid2pfcp_sessions := m\<rparr>) s = session_inv sw s"
  "session_inv (sw\<lparr>up_seid2pfcp_sessions := t\<rparr>) s = session_inv sw s"
  by (simp_all add: session_inv_def pdrs_ok_def fars_ok_def)

lemma n4_invD:
  assumes "n4_inv sw"
  shows "heap_ok sw" "tables_ok sw"
    "\<And>r s. sess_heap sw r = Some s \<Longrightarrow> r < next_ref sw \<and> session_inv sw s"
    "\<And>seid r. get_pfcp_session_by_up_seid sw seid = Some r \<Longrightarrow> \<exists>s. sess_heap sw r = Some s \<and> s_seid s = seid"
    "\<And>f r. get_pfcp_session_by_cp_fseid sw f = Some r \<Longrightarrow> r \<in> dom (sess_heap sw)"
  using assms unfolding n4_inv_def by blast+

lemma n4_inv_store:
  assumes "n4_inv sw" "sess_heap sw r = Some s0" "session_inv sw s'" "s_seid s' = s_seid s0"
  shows "n4_inv (sw\<lparr>sess_heap := (sess_heap sw)(r \<mapsto> s')\<rparr>)"
  unfolding n4_inv_def
proof (intro conjI allI impI)
  let ?sw = "sw\<lparr>sess_heap := (sess_heap sw)(r \<mapsto> s')\<rparr>"
  note I = n4_invD [OF assms(1)]
  show "heap_ok ?sw" using I(1) by (simp add: heap_ok_def)
  show "tables_ok ?sw" using I(2) by (simp add: tables_ok_def)
  fix r2 s2 assume "sess_heap ?sw r2 = Some s2"
  then show "r2 < next_ref ?sw" "session_inv ?sw s2"
    using I(3) [of r2] I(3) [OF assms(2)] assms(3) by (auto split: if_splits)
next
  let ?sw = "sw\<lparr>sess_heap := (sess_heap sw)(r \<mapsto> s')\<rparr>"
  fix seid r2 assume "get_pfcp_session_by_up_seid ?sw seid = Some r2"
  then have "get_pfcp_session_by_up_seid sw seid = Some r2" by (simp add: get_pfcp_session_by_up_seid_def)
  from n4_invD(4) [OF assms(1) this]
  show "\<exists>s. sess_heap ?sw r2 = Some s \<and> s_seid s = seid" using assms(2,4) by auto
next
  let ?sw = "sw\<lparr>sess_heap := (sess_heap sw)(r \<mapsto> s')\<rparr>"
  fix f r2 assume "get_pfcp_session_by_cp_fseid ?sw f = Some r2"
  then have "get_pfcp_session_by_cp_fseid sw f = Some r2" by (simp add: get_pfcp_session_by_cp_fseid_def)
  from n4_invD(5) [OF assms(1) this] show "r2 \<in> dom (sess_heap ?sw)" by auto
qed

lemma good_n4:
  assumes "n4_inv sw" "good s0 sw h"
  shows "n4_inv (h_sw h)"
  using n4_inv_evolves [OF assms(1)] assms by (auto simp: good_def framed_def n4_inv_def)

section \<open>Modification\<close>

lemma modification_keeps_n4_inv:
  assumes "simple env" "n4_inv sw"
  shows "n4_inv (snd (handle_modification lib dp env g req sw))"
proof (cases "get_pfcp_session_by_up_seid sw (mr_seid req)")
  case None
  with assms show ?thesis by (simp add: handle_modification_def)
next
  case (Some r)
  from n4_invD(4) [OF assms(2) this] obtain s0 where s0: "sess_heap sw r = Some s0" by blast
  define s1 where "s1 = (if present (mr_cp_fseid req) then s0\<lparr>s_cp_fseid := ie_val (mr_cp_fseid req)\<rparr> else s0)"
  define h0 where "h0 = \<lparr>h_s = s1, h_sw = sw, h_st = (CAUSE_VALUE_REQUEST_ACCEPTED, IE_UNSET),
      h_rsp = rsp_new\<lparr>rsp_seid := fs_seid (s_cp_fseid s1)\<rparr>, h_deleted = False\<rparr>"
  define h1 where "h1 = mod_updates env req (mod_creations lib env g req (mod_removals dp env req h0))"
  obtain s' sw' where q: "apply_qos_mbr env (h_s h1) (resolve_pdr_qfis (h_s h1) (h_sw h1)) = (s', sw')"
    by (cases "apply_qos_mbr env (h_s h1) (resolve_pdr_qfis (h_s h1) (h_sw h1))")
  have "session_inv sw s0" using n4_invD(3) [OF assms(2) s0] by simp
  then have "session_inv sw s1" by (simp add: s1_def session_inv_def view_ok_def values_ok_def)
  then have "good s1 sw h0" using assms(2) by (simp add: good_def h0_def n4_inv_def)
  then have g: "good s1 sw h1" unfolding h1_def by (intro good_updates good_creations good_removals assms)
  note Q = soft_qos [OF good_inv [OF g] q]
  have n: "n4_inv sw'"
    using n4_inv_evolves [OF good_n4 [OF assms(2) g]] Q good_n4 [OF assms(2) g] by (simp add: soft_def n4_inv_def)
  have "registry sw' = registry sw" using Q g by (simp add: soft_def good_def framed_def)
  then have r': "sess_heap sw' = sess_heap sw" by (rule registry_eqD)
  have "ident s' = ident s1" using Q g by (simp add: good_def framed_def)
  then have "s_seid s' = s_seid s0" by (simp add: ident_def s1_def split: if_splits)
  then have "n4_inv (sw'\<lparr>sess_heap := (sess_heap sw')(r \<mapsto> s')\<rparr>)"
    using n4_inv_store [OF n, of r s0 s'] Q r' s0 by auto
  moreover have "snd (handle_modification lib dp env g req sw) = sw'\<lparr>sess_heap := (sess_heap sw')(r \<mapsto> s')\<rparr>"
    using assms(1) by (simp add: handle_modification_def Some s0 Let_def s1_def [symmetric] h0_def [symmetric]
        h1_def [symmetric] q)
  ultimately show ?thesis by simp
qed

section \<open>Establishment\<close>

text \<open>What is needed of the switch for a new session to be stored under a fresh reference.\<close>

lemma n4_inv_alloc:
  assumes "n4_inv sw" "session_inv sw s"
  shows "n4_inv (sw\<lparr>sess_heap := (sess_heap sw)(next_ref sw \<mapsto> s), next_ref := Suc (next_ref sw)\<rparr>)"
  unfolding n4_inv_def
proof (intro conjI allI impI)
  let ?sw = "sw\<lparr>sess_heap := (sess_heap sw)(next_ref sw \<mapsto> s), next_ref := Suc (next_ref sw)\<rparr>"
  note I = n4_invD [OF assms(1)]
  have fresh: "sess_heap sw (next_ref sw) = None" using I(3) [of "next_ref sw"] by (cases "sess_heap sw (next_ref sw)") auto
  have e: "session_inv ?sw x = session_inv sw x" for x by (simp add: session_inv_def pdrs_ok_def fars_ok_def)
  show "heap_ok ?sw" using I(1) by (simp add: heap_ok_def)
  show "tables_ok ?sw" using I(2) by (simp add: tables_ok_def)
  { fix r2 s2 assume "sess_heap ?sw r2 = Some s2"
    then show "r2 < next_ref ?sw" "session_inv ?sw s2"
      unfolding e using I(3) [of r2 s2] assms(2) by (auto split: if_splits) }
  { fix seid r2 assume "get_pfcp_session_by_up_seid ?sw seid = Some r2"
    then have "get_pfcp_session_by_up_seid sw seid = Some r2" by (simp add: get_pfcp_session_by_up_seid_def)
    from I(4) [OF this] show "\<exists>s. sess_heap ?sw r2 = Some s \<and> s_seid s = seid" using fresh by auto }
  { fix f r2 assume "get_pfcp_session_by_cp_fseid ?sw f = Some r2"
    then have "get_pfcp_session_by_cp_fseid sw f = Some r2" by (simp add: get_pfcp_session_by_cp_fseid_def)
    from I(5) [OF this] show "r2 \<in> dom (sess_heap ?sw)" by auto }
qed

lemma find_insert_or_error_cases:
  assumes "um_inv t" "um_find (insert_or_error t k v) k' = Some v'"
  shows "k' = k \<and> v' = v \<or> um_find t k' = Some v'"
proof (cases "snd (um_insert t k v)")
  case True
  then have "um_insert t k v = (insert_or_error t k v, True)" by (simp add: insert_or_error_def prod_eq_iff)
  from um.ins_ok [OF assms(1) this] assms(2) show ?thesis by (auto split: if_splits)
next
  case False
  then have "um_insert t k v = (insert_or_error t k v, False)" by (simp add: insert_or_error_def prod_eq_iff)
  from um.ins_full [OF assms(1) this] assms(2) show ?thesis by simp
qed

lemma n4_inv_register:
  assumes "n4_inv sw" "sess_heap sw r = Some s" "s_seid s = seid"
  shows "n4_inv (add_pfcp_session_by_up_seid seid r (add_pfcp_session_by_cp_fseid f r sw))"
  unfolding n4_inv_def
proof (intro conjI allI impI)
  let ?sw = "add_pfcp_session_by_up_seid seid r (add_pfcp_session_by_cp_fseid f r sw)"
  note I = n4_invD [OF assms(1)]
  have h: "sess_heap ?sw = sess_heap sw" "next_ref ?sw = next_ref sw" "session_inv ?sw x = session_inv sw x" for x
    by (simp_all add: add_pfcp_session_by_up_seid_def add_pfcp_session_by_cp_fseid_def)
  show "heap_ok ?sw" using I(1)
    by (simp add: heap_ok_def add_pfcp_session_by_up_seid_def add_pfcp_session_by_cp_fseid_def)
  show "tables_ok ?sw" using I(2)
    by (simp add: tables_ok_def add_pfcp_session_by_up_seid_def add_pfcp_session_by_cp_fseid_def)
  { fix r2 s2 assume "sess_heap ?sw r2 = Some s2"
    then show "r2 < next_ref ?sw" "session_inv ?sw s2" using I(3) [of r2 s2] by (simp_all add: h) }
  { fix seid2 r2 assume g: "get_pfcp_session_by_up_seid ?sw seid2 = Some r2"
    have "um_inv (up_seid2pfcp_sessions sw)" using I(2) by (simp add: tables_ok_def)
    from find_insert_or_error_cases [OF this, of seid r seid2 r2] g
    have "seid2 = seid \<and> r2 = r \<or> get_pfcp_session_by_up_seid sw seid2 = Some r2"
      by (simp add: get_pfcp_session_by_up_seid_def add_pfcp_session_by_up_seid_def
          add_pfcp_session_by_cp_fseid_def split: if_splits)
    then show "\<exists>s. sess_heap ?sw r2 = Some s \<and> s_seid s = seid2" unfolding h using assms(2,3) I(4) by blast }
  { fix f2 r2 assume "get_pfcp_session_by_cp_fseid ?sw f2 = Some r2"
    then have "r2 = r \<or> get_pfcp_session_by_cp_fseid sw f2 = Some r2"
      by (auto simp: get_pfcp_session_by_cp_fseid_def add_pfcp_session_by_up_seid_def
          add_pfcp_session_by_cp_fseid_def split: if_splits)
    then show "r2 \<in> dom (sess_heap ?sw)" unfolding h using assms(2) I(5) by blast }
qed

lemma n4_inv_assoc [simp]: "n4_inv (sw\<lparr>assoc_calls := a\<rparr>) = n4_inv sw"
  by (simp add: n4_inv_def heap_ok_def tables_ok_def get_pfcp_session_by_up_seid_def get_pfcp_session_by_cp_fseid_def)

lemma register_keeps_n4_inv:
  assumes "n4_inv (h_sw h)" "session_inv (h_sw h) (h_s h)"
  shows "n4_inv (h_sw (register_session env req h))"
proof -
  let ?s = "h_s h" and ?sw = "h_sw h" and ?r = "next_ref (h_sw h)" and ?f = "ie_val (er_cp_fseid req)"
  define sw1 where "sw1 = ?sw\<lparr>sess_heap := (sess_heap ?sw)(?r \<mapsto> ?s), next_ref := Suc ?r\<rparr>"
  define sw2 where "sw2 = add_pfcp_session_by_up_seid (s_seid ?s) ?r (add_pfcp_session_by_cp_fseid ?f ?r sw1)"
  obtain s' sw3 where q: "apply_qos_mbr env ?s (resolve_pdr_qfis ?s sw2) = (s', sw3)"
    by (cases "apply_qos_mbr env ?s (resolve_pdr_qfis ?s sw2)")
  have n1: "n4_inv sw1" unfolding sw1_def by (rule n4_inv_alloc [OF assms])
  have s1: "sess_heap sw1 ?r = Some ?s" by (simp add: sw1_def)
  have n2: "n4_inv sw2" unfolding sw2_def by (rule n4_inv_register [OF n1 s1]) simp
  have s2: "sess_heap sw2 ?r = Some ?s"
    using s1 by (simp add: sw2_def add_pfcp_session_by_up_seid_def add_pfcp_session_by_cp_fseid_def)
  note I2 = n4_invD [OF n2]
  have i2: "session_inv sw2 ?s" using I2(3) [OF s2] by simp
  note Q = soft_qos [OF i2 I2(1) q]
  have n3: "n4_inv sw3" using n4_inv_evolves [OF n2] Q I2(2) by (simp add: soft_def)
  have "registry sw3 = registry sw2" using Q by (simp add: soft_def)
  from registry_eqD(1) [OF this] s2 have s3: "sess_heap sw3 ?r = Some ?s" by simp
  have "s_seid s' = s_seid ?s" using Q by (simp add: ident_def)
  then have "n4_inv (sw3\<lparr>sess_heap := (sess_heap sw3)(?r \<mapsto> s')\<rparr>)" using n4_inv_store [OF n3 s3] Q by blast
  then show ?thesis
    by (simp add: register_session_def Let_def sw1_def [symmetric] sw2_def [symmetric] q)
qed

text \<open>The rules of an establishment, as run by the handler.\<close>

definition est_run ::
    "pfcp_lib \<Rightarrow> upf_env \<Rightarrow> uids \<Rightarrow> u64 \<Rightarrow> establishment_request \<Rightarrow> upf_switch \<Rightarrow> handler" where
  "est_run lib env g now req sw =
     est_rules lib env g req
       \<lparr>h_s = session_new (ie_val (er_cp_fseid req)) (fst (generate_seid g sw)) now, h_sw = snd (generate_seid g sw),
        h_st = (CAUSE_VALUE_REQUEST_ACCEPTED, IE_UNSET), h_rsp = rsp_new, h_deleted = False\<rparr>"

lemma handle_establishment_simple:
  assumes "simple env"
  shows "handle_establishment lib dp env g now req sw =
    (if \<not> present (er_cp_fseid req)
     then Some (rsp_new\<lparr>rsp_cause := CAUSE_VALUE_MANDATORY_IE_MISSING, rsp_offending_ie := Some PFCP_IE_F_SEID\<rparr>, sw)
     else if get_pfcp_session_by_cp_fseid sw (ie_val (er_cp_fseid req)) \<noteq> None
     then Some (rsp_new\<lparr>rsp_cause := CAUSE_VALUE_REQUEST_REJECTED\<rparr>, sw)
     else let h = est_run lib env g now req sw;
              h' = (if h_accepted h then register_session env req h else h)
          in Some (finish h', h_sw h'))"
  using assms
  by (auto simp: handle_establishment_def est_run_def simple_def Let_def finish_def rsp_new_def split: prod.splits)

lemma n4_inv_seid [simp]: "n4_inv (sw\<lparr>seids_given := n\<rparr>) = n4_inv sw"
  by (simp add: n4_inv_def heap_ok_def tables_ok_def get_pfcp_session_by_up_seid_def get_pfcp_session_by_cp_fseid_def
      session_inv_def pdrs_ok_def fars_ok_def)

lemma est_run_good:
  assumes "n4_inv sw"
  shows "good (session_new (ie_val (er_cp_fseid req)) (fst (generate_seid g sw)) now) (snd (generate_seid g sw))
    (est_run lib env g now req sw)"
proof -
  have "n4_inv (snd (generate_seid g sw))" using assms by (simp add: generate_seid_def)
  then have "heap_ok (snd (generate_seid g sw))" by (rule n4_invD)
  then show ?thesis
    unfolding est_run_def by (intro good_est_rules) (simp add: good_def session_inv_new)
qed

lemma est_run_n4:
  assumes "n4_inv sw"
  shows "n4_inv (h_sw (est_run lib env g now req sw))"
    "session_inv (h_sw (est_run lib env g now req sw)) (h_s (est_run lib env g now req sw))"
    "registry (h_sw (est_run lib env g now req sw)) = registry sw"
    "ident (h_s (est_run lib env g now req sw)) = (ie_val (er_cp_fseid req), fst (generate_seid g sw))"
proof -
  note G = est_run_good [OF assms, of req g now lib env]
  have "n4_inv (snd (generate_seid g sw))" using assms by (simp add: generate_seid_def)
  from good_n4 [OF this G] show "n4_inv (h_sw (est_run lib env g now req sw))" .
  show "session_inv (h_sw (est_run lib env g now req sw)) (h_s (est_run lib env g now req sw))"
    using G by (simp add: good_def)
  have "registry (snd (generate_seid g sw)) = registry sw" by (simp add: generate_seid_def registry_def)
  with G show "registry (h_sw (est_run lib env g now req sw)) = registry sw" by (simp add: good_def framed_def)
  show "ident (h_s (est_run lib env g now req sw)) = (ie_val (er_cp_fseid req), fst (generate_seid g sw))"
    using G by (simp add: good_def framed_def) (simp add: ident_def session_new_def)
qed

lemma establishment_keeps_n4_inv:
  assumes "simple env" "n4_inv sw" "handle_establishment lib dp env g now req sw = Some (rsp, sw')"
  shows "n4_inv sw'"
  using assms(2,3) est_run_n4 [OF assms(2), of lib env g now req] register_keeps_n4_inv
  by (auto simp: handle_establishment_simple [OF assms(1)] Let_def split: if_splits)

section \<open>Deletion\<close>

lemma at_key_n4_out [simp]: "at_key (sw\<lparr>n4_out := n\<rparr>) = at_key sw"
  by (rule at_key_eqI) simp_all

lemma send_usage_frame:
  assumes "send_usage_report p now s sw = (s1, sw1, b)"
  shows "s_pdrs s1 = s_pdrs s" "ident s1 = ident s" "session_inv sw s1 = session_inv sw s" "\<exists>n. sw1 = sw\<lparr>n4_out := n\<rparr>"
proof -
  have d: "s1 = s \<and> sw1 = sw \<or> (\<exists>q rep n. s1 = s\<lparr>s_ur_seqn := q, s_reported := rep\<rparr> \<and> sw1 = sw\<lparr>n4_out := n\<rparr>)"
    using assms by (auto simp: send_usage_report_def Let_def split: if_splits)
  have "\<exists>n. sw = sw\<lparr>n4_out := n\<rparr>" by (rule exI [of _ "n4_out sw"]) simp
  with d show "\<exists>n. sw1 = sw\<lparr>n4_out := n\<rparr>" by blast
  have "s1 = s \<or> (\<exists>q rep. s1 = s\<lparr>s_ur_seqn := q, s_reported := rep\<rparr>)" using d by blast
  then show "s_pdrs s1 = s_pdrs s" "ident s1 = ident s" "session_inv sw s1 = session_inv sw s"
    by (auto simp: ident_def session_inv_def view_ok_def values_ok_def)
qed

text \<open>What a removal does, in one place: the final report, then the cleanup, then the tables.\<close>

lemma remove_pfcp_session_cases:
  assumes "sess_heap sw r = Some s"
  obtains s1 n s2 sw2 where "s_pdrs s1 = s_pdrs s" "ident s1 = ident s" "session_inv sw s1 = session_inv sw s"
    "cleanup env s1 (sw\<lparr>n4_out := n\<rparr>) = (s2, sw2)"
    "remove_pfcp_session env now r sw =
       sw2\<lparr>sess_heap := (sess_heap sw2)(r \<mapsto> s2),
           cp_fseid2pfcp_sessions := (cp_fseid2pfcp_sessions sw2)(s_cp_fseid s2 := None),
           up_seid2pfcp_sessions := fst (um_erase (up_seid2pfcp_sessions sw2) (s_seid s2))\<rparr>"
proof -
  let ?u = "if enable_urr env \<and> \<not> enable_bpf_datapath env then send_usage_report False now s sw else (s, sw, False)"
  obtain s1 sw1 b where u: "?u = (s1, sw1, b)" by (cases ?u)
  have "s_pdrs s1 = s_pdrs s \<and> ident s1 = ident s \<and> session_inv sw s1 = session_inv sw s \<and> (\<exists>n. sw1 = sw\<lparr>n4_out := n\<rparr>)"
  proof (cases "enable_urr env \<and> \<not> enable_bpf_datapath env")
    case True
    with u have "send_usage_report False now s sw = (s1, sw1, b)" by simp
    from send_usage_frame [OF this] show ?thesis by blast
  next
    case False
    with u have e: "s1 = s" "sw1 = sw" by (auto split: if_splits)
    have "\<exists>n. sw = sw\<lparr>n4_out := n\<rparr>" by (rule exI [of _ "n4_out sw"]) simp
    then show ?thesis unfolding e by blast
  qed
  then obtain n where 1: "s_pdrs s1 = s_pdrs s" "ident s1 = ident s" "session_inv sw s1 = session_inv sw s"
    "sw1 = sw\<lparr>n4_out := n\<rparr>" by blast
  obtain s2 sw2 where c: "cleanup env s1 sw1 = (s2, sw2)" by (cases "cleanup env s1 sw1")
  have "remove_pfcp_session env now r sw =
       sw2\<lparr>sess_heap := (sess_heap sw2)(r \<mapsto> s2),
           cp_fseid2pfcp_sessions := (cp_fseid2pfcp_sessions sw2)(s_cp_fseid s2 := None),
           up_seid2pfcp_sessions := fst (um_erase (up_seid2pfcp_sessions sw2) (s_seid s2))\<rparr>"
    unfolding remove_pfcp_session_def assms option.sel Let_def u by (simp add: c)
  with that [OF 1(1-3), of n s2 sw2] c 1(4) show thesis by simp
qed

lemma n4_inv_n4_out [simp]: "n4_inv (sw\<lparr>n4_out := n\<rparr>) = n4_inv sw"
  by (simp add: n4_inv_def heap_ok_def tables_ok_def get_pfcp_session_by_up_seid_def get_pfcp_session_by_cp_fseid_def)

lemma n4_inv_unregister:
  assumes "n4_inv sw"
  shows "n4_inv (sw\<lparr>cp_fseid2pfcp_sessions := (cp_fseid2pfcp_sessions sw)(f := None),
                    up_seid2pfcp_sessions := fst (um_erase (up_seid2pfcp_sessions sw) seid)\<rparr>)"
  unfolding n4_inv_def
proof (intro conjI allI impI)
  let ?sw = "sw\<lparr>cp_fseid2pfcp_sessions := (cp_fseid2pfcp_sessions sw)(f := None),
                    up_seid2pfcp_sessions := fst (um_erase (up_seid2pfcp_sessions sw) seid)\<rparr>"
  note I = n4_invD [OF assms]
  have um: "um_inv (up_seid2pfcp_sessions sw)" using I(2) by (simp add: tables_ok_def)
  show "heap_ok ?sw" using I(1) by (simp add: heap_ok_def)
  show "tables_ok ?sw" using I(2) um.inv_era [OF um] by (simp add: tables_ok_def)
  { fix r2 s2 assume "sess_heap ?sw r2 = Some s2"
    then show "r2 < next_ref ?sw" "session_inv ?sw s2" using I(3) [of r2 s2] by simp_all }
  { fix seid2 r2 assume "get_pfcp_session_by_up_seid ?sw seid2 = Some r2"
    then have "get_pfcp_session_by_up_seid sw seid2 = Some r2"
      by (auto simp: get_pfcp_session_by_up_seid_def um.lookup_era [OF um] split: if_splits)
    from I(4) [OF this] show "\<exists>s. sess_heap ?sw r2 = Some s \<and> s_seid s = seid2" by simp }
  { fix f2 r2 assume "get_pfcp_session_by_cp_fseid ?sw f2 = Some r2"
    then have "get_pfcp_session_by_cp_fseid sw f2 = Some r2"
      by (auto simp: get_pfcp_session_by_cp_fseid_def split: if_splits)
    from I(5) [OF this] show "r2 \<in> dom (sess_heap ?sw)" by simp }
qed

lemma remove_keeps_n4_inv:
  assumes "n4_inv sw" "sess_heap sw r = Some s"
  shows "n4_inv (remove_pfcp_session env now r sw)"
proof (rule remove_pfcp_session_cases [OF assms(2), of env now])
  fix s1 n s2 sw2
  assume 1: "ident s1 = ident s" "session_inv sw s1 = session_inv sw s"
    and c: "cleanup env s1 (sw\<lparr>n4_out := n\<rparr>) = (s2, sw2)"
    and eq: "remove_pfcp_session env now r sw =
       sw2\<lparr>sess_heap := (sess_heap sw2)(r \<mapsto> s2),
           cp_fseid2pfcp_sessions := (cp_fseid2pfcp_sessions sw2)(s_cp_fseid s2 := None),
           up_seid2pfcp_sessions := fst (um_erase (up_seid2pfcp_sessions sw2) (s_seid s2))\<rparr>"
  let ?sw = "sw\<lparr>n4_out := n\<rparr>"
  have n0: "n4_inv ?sw" using assms(1) by simp
  have i: "session_inv ?sw s1" using n4_invD(3) [OF assms] 1(2) by simp
  note C = cleanup_inv [OF i n4_invD(1) [OF n0] c] and F = cleanup_framed [OF c]
  have n2: "n4_inv sw2" using n4_inv_evolves [OF n0] C F n4_invD(2) [OF n0] by (simp add: framed_def)
  have "registry sw2 = registry ?sw" using F by (simp add: framed_def)
  from registry_eqD(1) [OF this] assms(2) have h2: "sess_heap sw2 r = Some s" by simp
  have "s_seid s2 = s_seid s" using F 1(1) by (simp add: framed_def ident_def)
  then have "n4_inv (sw2\<lparr>sess_heap := (sess_heap sw2)(r \<mapsto> s2)\<rparr>)" using n4_inv_store [OF n2 h2] C by blast
  from n4_inv_unregister [OF this, where f = "s_cp_fseid s2" and seid = "s_seid s2"] show ?thesis by (simp add: eq)
qed

lemma deletion_keeps_n4_inv:
  assumes "simple env" "n4_inv sw"
  shows "n4_inv (snd (handle_deletion dp env now seid sw))"
proof (cases "get_pfcp_session_by_up_seid sw seid")
  case (Some r)
  from n4_invD(4) [OF assms(2) this] obtain s where "sess_heap sw r = Some s" by blast
  from remove_keeps_n4_inv [OF assms(2) this] assms(1) show ?thesis
    by (simp add: handle_deletion_def Some simple_def Let_def)
qed (use assms in \<open>simp add: handle_deletion_def\<close>)

section \<open>Sequences of requests\<close>

datatype n4_request = Establish establishment_request u64 | Modify modification_request | Delete u64 u64

fun n4_step :: "pfcp_lib \<Rightarrow> datapath \<Rightarrow> upf_env \<Rightarrow> uids \<Rightarrow> n4_request \<Rightarrow> upf_switch \<Rightarrow> (response \<times> upf_switch) option" where
  "n4_step lib dp env g (Establish req now) sw = handle_establishment lib dp env g now req sw"
| "n4_step lib dp env g (Modify req) sw = Some (handle_modification lib dp env g req sw)"
| "n4_step lib dp env g (Delete seid now) sw = Some (handle_deletion dp env now seid sw)"

fun n4_run :: "pfcp_lib \<Rightarrow> datapath \<Rightarrow> upf_env \<Rightarrow> uids \<Rightarrow> n4_request list \<Rightarrow> upf_switch \<Rightarrow> upf_switch option" where
  "n4_run lib dp env g [] sw = Some sw"
| "n4_run lib dp env g (r # rs) sw =
     (case n4_step lib dp env g r sw of None \<Rightarrow> None | Some (_, sw') \<Rightarrow> n4_run lib dp env g rs sw')"

lemma establishment_total: "simple env \<Longrightarrow> \<exists>x. handle_establishment lib dp env g now req sw = Some x"
  by (auto simp: handle_establishment_simple Let_def)

lemma n4_step_keeps:
  assumes "simple env" "n4_inv sw"
  shows "\<exists>rsp sw'. n4_step lib dp env g r sw = Some (rsp, sw') \<and> n4_inv sw'"
proof (cases r)
  case (Establish req now)
  obtain rsp sw' where e: "handle_establishment lib dp env g now req sw = Some (rsp, sw')"
    using establishment_total [OF assms(1)] by (metis prod.collapse)
  from establishment_keeps_n4_inv [OF assms e] e Establish show ?thesis by simp
next
  case (Modify req)
  then show ?thesis using modification_keeps_n4_inv [OF assms, of lib dp g req]
    by (cases "handle_modification lib dp env g req sw") simp
next
  case (Delete seid now)
  then show ?thesis using deletion_keeps_n4_inv [OF assms, of dp now seid]
    by (cases "handle_deletion dp env now seid sw") simp
qed

lemma n4_run_keeps: "simple env \<Longrightarrow> n4_inv sw \<Longrightarrow> \<exists>sw'. n4_run lib dp env g rs sw = Some sw' \<and> n4_inv sw'"
proof (induction rs arbitrary: sw)
  case (Cons r rs)
  obtain rsp sw1 where 1: "n4_step lib dp env g r sw = Some (rsp, sw1)" "n4_inv sw1"
    using n4_step_keeps [OF Cons.prems] by blast
  from Cons.IH [OF Cons.prems(1) 1(2)] show ?case by (simp add: 1(1))
qed simp

section \<open>Properties\<close>

text \<open>Without the BPF datapath every sequence of N4 session requests on a new switch is handled to
  its end (no deleted session is followed), and the switch is consistent afterwards: every registered
  session exists, is filed under its own SEID, and is well formed.\<close>

lemma n4_requests_keep_switch_consistent:
  assumes "simple env"
  shows "\<exists>sw. n4_run lib dp env g reqs switch_new = Some sw \<and> n4_inv sw"
  by (rule n4_run_keeps [OF assms n4_inv_new])

definition ex_lib :: pfcp_lib where
  "ex_lib = \<lparr>lib_get_far = (\<lambda>cs i. find (\<lambda>c. ie_val (cfar_far_id c) = i) cs),
     lib_get_qer = (\<lambda>cs i. find (\<lambda>c. qer_key c = i) cs), lib_fteid_is_zero = (\<lambda>f. ft_teid f = 0)\<rparr>"

definition ex_request :: establishment_request where
  "ex_request = \<lparr>er_cp_fseid = (True, \<lparr>fs_seid = 9, fs_addr = []\<rparr>), er_node_id = [1], er_create_fars = [ex_create_far 1],
     er_create_pdrs = [ex_cr_pdr 7], er_create_qers = [], er_create_urrs = [],
     er_create_bar = (False, \<lparr>cbar_bar_id = (False, 0), cbar_suggested_buffering_packets_count = (False, 0),
       cbar_downlink_data_notification_delay = (False, 0)\<rparr>), er_create_mars = []\<rparr>"

lemma simple_ex_env [simp]: "simple ex_env"
  by (simp add: simple_def ex_env_def)

text \<open>What registering does to the tables.\<close>

lemma register_facts:
  assumes "n4_inv (h_sw h)" "session_inv (h_sw h) (h_s h)" "um_room (up_seid2pfcp_sessions (h_sw h)) (s_seid (h_s h))"
    "get_pfcp_session_by_cp_fseid (h_sw h) (ie_val (er_cp_fseid req)) = None"
  shows "get_pfcp_session_by_cp_fseid (h_sw (register_session env req h)) =
      (get_pfcp_session_by_cp_fseid (h_sw h))(ie_val (er_cp_fseid req) \<mapsto> next_ref (h_sw h))"
    "get_pfcp_session_by_up_seid (h_sw (register_session env req h)) =
      (get_pfcp_session_by_up_seid (h_sw h))(s_seid (h_s h) \<mapsto> next_ref (h_sw h))"
    "\<exists>s. sess_heap (h_sw (register_session env req h)) = (sess_heap (h_sw h))(next_ref (h_sw h) \<mapsto> s) \<and>
       ident s = ident (h_s h) \<and> session_inv (h_sw (register_session env req h)) s"
    "rsp_up_seid (h_rsp (register_session env req h)) = Some (s_seid (h_s h))"
    "assoc_calls (h_sw (register_session env req h)) =
       assoc_calls (h_sw h) @ [NotifyAddSession (er_node_id req) (ie_val (er_cp_fseid req))]"
    "h_st (register_session env req h) = h_st h"
    "n4_out (h_sw (register_session env req h)) = n4_out (h_sw h)"
proof -
  let ?s = "h_s h" and ?sw = "h_sw h" and ?r = "next_ref (h_sw h)" and ?f = "ie_val (er_cp_fseid req)"
  define sw1 where "sw1 = ?sw\<lparr>sess_heap := (sess_heap ?sw)(?r \<mapsto> ?s), next_ref := Suc ?r\<rparr>"
  define sw2 where "sw2 = add_pfcp_session_by_up_seid (s_seid ?s) ?r (add_pfcp_session_by_cp_fseid ?f ?r sw1)"
  obtain s' sw3 where q: "apply_qos_mbr env ?s (resolve_pdr_qfis ?s sw2) = (s', sw3)"
    by (cases "apply_qos_mbr env ?s (resolve_pdr_qfis ?s sw2)")
  have reg: "register_session env req h =
      h\<lparr>h_s := s',
        h_sw := sw3\<lparr>sess_heap := (sess_heap sw3)(?r \<mapsto> s'),
                    assoc_calls := assoc_calls sw3 @ [NotifyAddSession (er_node_id req) ?f]\<rparr>,
        h_rsp := (h_rsp h)\<lparr>rsp_up_seid := Some (get_up_seid s')\<rparr>\<rparr>"
    by (simp add: register_session_def Let_def sw1_def [symmetric] sw2_def [symmetric] q)
  have n1: "n4_inv sw1" unfolding sw1_def by (rule n4_inv_alloc [OF assms(1,2)])
  have s1: "sess_heap sw1 ?r = Some ?s" by (simp add: sw1_def)
  have n2: "n4_inv sw2" unfolding sw2_def by (rule n4_inv_register [OF n1 s1]) simp
  have s2: "sess_heap sw2 = (sess_heap ?sw)(?r \<mapsto> ?s)" "assoc_calls sw2 = assoc_calls ?sw" "n4_out sw2 = n4_out ?sw"
    by (simp_all add: sw2_def sw1_def add_pfcp_session_by_up_seid_def add_pfcp_session_by_cp_fseid_def)
  have "session_inv sw2 ?s" using n4_invD(3) [OF n2, of ?r] s2(1) by simp
  note Q = soft_qos [OF this n4_invD(1) [OF n2] q]
  have "registry sw3 = registry sw2" using Q by (simp add: soft_def)
  note R = registry_eqD [OF this]
  have cp: "get_pfcp_session_by_cp_fseid sw2 = (get_pfcp_session_by_cp_fseid ?sw)(?f \<mapsto> ?r)"
    using assms(4) by (auto simp: sw2_def sw1_def add_pfcp_session_by_up_seid_def add_pfcp_session_by_cp_fseid_def
        get_pfcp_session_by_cp_fseid_def fun_eq_iff)
  have um: "um_inv (up_seid2pfcp_sessions ?sw)" using n4_invD(2) [OF assms(1)] by (simp add: tables_ok_def)
  have up: "get_pfcp_session_by_up_seid sw2 = (get_pfcp_session_by_up_seid ?sw)(s_seid ?s \<mapsto> ?r)"
    using find_insert_or_error [OF um assms(3)]
    by (auto simp: sw2_def sw1_def add_pfcp_session_by_up_seid_def add_pfcp_session_by_cp_fseid_def
        get_pfcp_session_by_up_seid_def fun_eq_iff)
  show "get_pfcp_session_by_cp_fseid (h_sw (register_session env req h)) =
      (get_pfcp_session_by_cp_fseid ?sw)(?f \<mapsto> ?r)"
    using R(3) cp by (simp add: reg get_pfcp_session_by_cp_fseid_def fun_eq_iff)
  show "get_pfcp_session_by_up_seid (h_sw (register_session env req h)) =
      (get_pfcp_session_by_up_seid ?sw)(s_seid ?s \<mapsto> ?r)"
    using R(2) up by (simp add: reg get_pfcp_session_by_up_seid_def fun_eq_iff)
  show "\<exists>s. sess_heap (h_sw (register_session env req h)) = (sess_heap ?sw)(?r \<mapsto> s) \<and>
       ident s = ident ?s \<and> session_inv (h_sw (register_session env req h)) s"
    using Q R(1) s2(1) by (intro exI [of _ s']) (simp add: reg)
  show "rsp_up_seid (h_rsp (register_session env req h)) = Some (s_seid ?s)"
    using Q by (simp add: reg get_up_seid_def ident_def)
  show "assoc_calls (h_sw (register_session env req h)) = assoc_calls ?sw @ [NotifyAddSession (er_node_id req) ?f]"
    using R(4) s2(2) by (simp add: reg)
  show "h_st (register_session env req h) = h_st h" by (simp add: reg)
  show "n4_out (h_sw (register_session env req h)) = n4_out ?sw"
    using \<open>registry sw3 = registry sw2\<close> s2(3) by (simp add: reg registry_def)
qed

text \<open>An establishment seen from outside: refused, or its rules run and then registered.\<close>

lemma establishment_cases:
  assumes "simple env" "handle_establishment lib dp env g now req sw = Some (rsp, sw')"
  obtains (early) "sw' = sw" "rsp_cause rsp \<noteq> CAUSE_VALUE_REQUEST_ACCEPTED" "rsp_up_seid rsp = None"
  | (failed) "sw' = h_sw (est_run lib env g now req sw)" "rsp_cause rsp \<noteq> CAUSE_VALUE_REQUEST_ACCEPTED"
  | (ok) "h_accepted (est_run lib env g now req sw)" "rsp_cause rsp = CAUSE_VALUE_REQUEST_ACCEPTED"
      "sw' = h_sw (register_session env req (est_run lib env g now req sw))"
      "rsp = finish (register_session env req (est_run lib env g now req sw))"
      "get_pfcp_session_by_cp_fseid sw (ie_val (er_cp_fseid req)) = None"
proof -
  let ?h = "est_run lib env g now req sw"
  have c: "rsp_cause (finish h) = fst (h_st h)" for h by (simp add: finish_def)
  have st: "h_st (register_session env req h) = h_st h" for h
    by (simp add: register_session_def Let_def split: prod.split)
  consider "\<not> present (er_cp_fseid req)" | "present (er_cp_fseid req)" "get_pfcp_session_by_cp_fseid sw (ie_val (er_cp_fseid req)) \<noteq> None"
    | "present (er_cp_fseid req)" "get_pfcp_session_by_cp_fseid sw (ie_val (er_cp_fseid req)) = None" by blast
  then show thesis
  proof cases
    case 3
    then have eq: "rsp = finish (if h_accepted ?h then register_session env req ?h else ?h)"
      "sw' = h_sw (if h_accepted ?h then register_session env req ?h else ?h)"
      using assms(2) by (auto simp: handle_establishment_simple [OF assms(1)] Let_def split: if_splits)
    show thesis
    proof (cases "h_accepted ?h")
      case True
      then show thesis using ok eq 3(2) by (simp add: c st)
    next
      case False
      then show thesis using failed eq by (simp add: c)
    qed
  qed (use assms(2) early in \<open>auto simp: handle_establishment_simple [OF assms(1)] rsp_new_def\<close>)
qed

lemma est_registers:
  assumes "simple env" "n4_inv sw" "handle_establishment lib dp env g now req sw = Some (rsp, sw')"
    and "rsp_cause rsp = CAUSE_VALUE_REQUEST_ACCEPTED"
    and "um_room (up_seid2pfcp_sessions sw) (fst (generate_seid g sw))"
  shows "\<exists>r s. sess_heap sw r = None \<and> sess_heap sw' r = Some s \<and> session_inv sw' s \<and>
      s_cp_fseid s = ie_val (er_cp_fseid req) \<and> rsp_up_seid rsp = Some (s_seid s) \<and>
      get_pfcp_session_by_cp_fseid sw' = (get_pfcp_session_by_cp_fseid sw)(s_cp_fseid s \<mapsto> r) \<and>
      get_pfcp_session_by_up_seid sw' = (get_pfcp_session_by_up_seid sw)(s_seid s \<mapsto> r) \<and>
      s_seid s = fst (generate_seid g sw) \<and>
      assoc_calls sw' = assoc_calls sw @ [NotifyAddSession (er_node_id req) (s_cp_fseid s)]"
  using assms(1,3)
proof (cases rule: establishment_cases)
  case ok
  let ?h = "est_run lib env g now req sw"
  note E = est_run_n4 [OF assms(2), of lib env g now req] and R = registry_eqD [OF est_run_n4(3) [OF assms(2)]]
  have id: "s_cp_fseid (h_s ?h) = ie_val (er_cp_fseid req)" "s_seid (h_s ?h) = fst (generate_seid g sw)"
    using E(4) by (simp_all add: ident_def)
  have "up_seid2pfcp_sessions (h_sw ?h) = up_seid2pfcp_sessions sw" using E(3) by (simp add: registry_def)
  then have room: "um_room (up_seid2pfcp_sessions (h_sw ?h)) (s_seid (h_s ?h))" using assms(5) id by simp
  have new: "get_pfcp_session_by_cp_fseid (h_sw ?h) (ie_val (er_cp_fseid req)) = None" using ok(5) R(3) by simp
  note F = register_facts [OF E(1,2) room new, of env]
  obtain s where s: "sess_heap sw' = (sess_heap (h_sw ?h))(next_ref (h_sw ?h) \<mapsto> s)" "ident s = ident (h_s ?h)"
    "session_inv sw' s" using F(3) unfolding ok(3) by blast
  have "sess_heap (h_sw ?h) (next_ref (h_sw ?h)) = None"
    using n4_invD(3) [OF E(1), of "next_ref (h_sw ?h)"] by (cases "sess_heap (h_sw ?h) (next_ref (h_sw ?h))") auto
  then have fresh: "sess_heap sw (next_ref (h_sw ?h)) = None" using R(1) by simp
  have sid: "s_cp_fseid s = ie_val (er_cp_fseid req)" "s_seid s = fst (generate_seid g sw)"
    using s(2) id by (simp_all add: ident_def)
  have "rsp_up_seid rsp = Some (s_seid s)" using F(4) id(2) sid(2) by (simp add: ok(4) finish_def)
  moreover have "get_pfcp_session_by_cp_fseid sw' = (get_pfcp_session_by_cp_fseid sw)(s_cp_fseid s \<mapsto> next_ref (h_sw ?h))"
    "get_pfcp_session_by_up_seid sw' = (get_pfcp_session_by_up_seid sw)(s_seid s \<mapsto> next_ref (h_sw ?h))"
    "assoc_calls sw' = assoc_calls sw @ [NotifyAddSession (er_node_id req) (s_cp_fseid s)]"
    using F(1,2,5) R(2-4) id sid by (simp_all add: ok(3))
  ultimately show ?thesis
    using s(1,3) fresh sid by (intro exI [of _ "next_ref (h_sw ?h)"] exI [of _ s]) simp
qed (use assms(4) in simp_all)

lemma establishment_reports_nothing:
  assumes "simple env" "n4_inv sw" "handle_establishment lib dp env g now req sw = Some (rsp, sw')"
    and "um_room (up_seid2pfcp_sessions sw) (fst (generate_seid g sw))"
  shows "n4_out sw' = n4_out sw"
  using assms(1,3)
proof (cases rule: establishment_cases)
  case failed
  with est_run_n4(3) [OF assms(2), of lib env g now req] show ?thesis by (simp add: registry_def)
next
  case ok
  let ?h = "est_run lib env g now req sw"
  note E = est_run_n4 [OF assms(2), of lib env g now req]
  have o: "n4_out (h_sw ?h) = n4_out sw" "up_seid2pfcp_sessions (h_sw ?h) = up_seid2pfcp_sessions sw"
    "cp_fseid2pfcp_sessions (h_sw ?h) = cp_fseid2pfcp_sessions sw" using E(3) by (simp_all add: registry_def)
  have room: "um_room (up_seid2pfcp_sessions (h_sw ?h)) (s_seid (h_s ?h))" using assms(4) o E(4) by (simp add: ident_def)
  have new: "get_pfcp_session_by_cp_fseid (h_sw ?h) (ie_val (er_cp_fseid req)) = None"
    using ok(5) o(3) by (simp add: get_pfcp_session_by_cp_fseid_def)
  show ?thesis unfolding ok(3) using register_facts(7) [OF E(1,2) room new] o(1) by simp
qed simp

text \<open>An accepted establishment registers one new session: the CP F-SEID of the request and the UP
  SEID of the response both lead to it, it carries both and is well formed, every other registration
  stays as it was, and the association is told.\<close>

lemma accepted_establishment_registers:
  assumes "simple env" "n4_inv sw" "handle_establishment lib dp env g now req sw = Some (rsp, sw')"
    and "rsp_cause rsp = CAUSE_VALUE_REQUEST_ACCEPTED"
    and "um_room (up_seid2pfcp_sessions sw) (fst (generate_seid g sw))"
  shows "\<exists>r s. sess_heap sw r = None \<and> sess_heap sw' r = Some s \<and> session_inv sw' s \<and>
      s_cp_fseid s = ie_val (er_cp_fseid req) \<and> rsp_up_seid rsp = Some (s_seid s) \<and>
      get_pfcp_session_by_cp_fseid sw' = (get_pfcp_session_by_cp_fseid sw)(s_cp_fseid s \<mapsto> r) \<and>
      get_pfcp_session_by_up_seid sw' = (get_pfcp_session_by_up_seid sw)(s_seid s \<mapsto> r) \<and>
      s_seid s = fst (generate_seid g sw) \<and>
      assoc_calls sw' = assoc_calls sw @ [NotifyAddSession (er_node_id req) (s_cp_fseid s)]"
  by (rule est_registers [OF assms])

text \<open>A refused establishment registers nothing: both session tables, the sessions and the calls to
  the association are as before.\<close>

lemma refused_establishment_registers_nothing:
  assumes "simple env" "n4_inv sw" "handle_establishment lib dp env g now req sw = Some (rsp, sw')"
    and "rsp_cause rsp \<noteq> CAUSE_VALUE_REQUEST_ACCEPTED"
  shows "sess_heap sw' = sess_heap sw \<and> assoc_calls sw' = assoc_calls sw \<and>
    get_pfcp_session_by_cp_fseid sw' = get_pfcp_session_by_cp_fseid sw \<and>
    get_pfcp_session_by_up_seid sw' = get_pfcp_session_by_up_seid sw"
  using assms(1,3)
proof (cases rule: establishment_cases)
  case failed
  note R = registry_eqD [OF est_run_n4(3) [OF assms(2), of lib env g now req]]
  show ?thesis by (simp add: failed(1) R)
qed (use assms(4) in simp_all)

text \<open>The example request is accepted by a new switch.\<close>

lemma ex_far_created:
  "\<exists>s' sw'. create_far (ex_create_far i) accepted s sw = (s', sw', accepted, True)"
  by (auto simp: create_far_def ex_create_far_def split: prod.splits)

lemma ex_est_accepted: "h_accepted (est_run ex_lib ex_env ex_uids now ex_request sw)"
proof -
  have env: "\<not> enable_bpf_datapath ex_env" by (simp add: ex_env_def)
  define h0 where "h0 = \<lparr>h_s = session_new (ie_val (er_cp_fseid ex_request)) (fst (generate_seid ex_uids sw)) now,
      h_sw = snd (generate_seid ex_uids sw), h_st = accepted, h_rsp = rsp_new, h_deleted = False\<rparr>"
  obtain s1 sw1 where f: "create_far (ex_create_far 1) accepted (h_s h0) (h_sw h0) = (s1, sw1, accepted, True)"
    using ex_far_created by blast
  define h1 where "h1 = h0\<lparr>h_s := s1, h_sw := sw1\<rparr>"
  have st0: "h_st h0 = accepted" by (simp add: h0_def)
  have 1: "until_fails (est_far ex_env) (er_create_fars ex_request) h0 = h1"
    using f st0 by (simp add: ex_request_def est_far_def do_create_far_def h1_def h0_def)
  obtain s2 sw2 f2 where c: "create_pdr ex_env ex_uids (ex_cr_pdr 7) accepted s1 sw1 = (s2, sw2, accepted, f2, True)"
    by (rule ex_accepted)
  have q: "cpdr_far_id (ex_cr_pdr 7) = (True, 1)" "cpdr_qer_id (ex_cr_pdr 7) = (False, 0)"
    by (simp_all add: ex_create_pdr_def)
  have g: "lib_get_far ex_lib (er_create_fars ex_request) 1 = Some (ex_create_far 1)"
    by (simp add: ex_lib_def ex_request_def ex_create_far_def)
  have 2: "h_st (fst (est_pdr ex_lib ex_env ex_uids ex_request (ex_cr_pdr 7) h1)) = accepted"
    using c g st0 by (simp add: est_pdr_def q est_qer_def do_create_pdr_def h1_def add_created_def)
  have "phase True (est_pdr ex_lib ex_env ex_uids ex_request) (er_create_pdrs ex_request) h1 =
      fst (est_pdr ex_lib ex_env ex_uids ex_request (ex_cr_pdr 7) h1)"
    using st0 by (simp add: phase_def ex_request_def h1_def case_prod_beta)
  with 1 2 env show ?thesis
    unfolding est_run_def h0_def [symmetric]
    by (simp add: est_rules_def Let_def phase_def ex_request_def opt_list_def)
qed

lemma ex_established:
  obtains rsp sw' where "handle_establishment ex_lib dp ex_env ex_uids now ex_request switch_new = Some (rsp, sw')"
    "rsp_cause rsp = CAUSE_VALUE_REQUEST_ACCEPTED"
proof -
  have p: "present (er_cp_fseid ex_request)" by (simp add: ex_request_def)
  have n: "get_pfcp_session_by_cp_fseid switch_new f = None" for f
    by (simp add: get_pfcp_session_by_cp_fseid_def switch_new_def)
  show thesis
    by (rule that [OF handle_establishment_simple [OF simple_ex_env, THEN trans]])
       (use p n ex_est_accepted in \<open>auto simp: Let_def finish_def register_session_def split: prod.split\<close>)
qed

lemma ex_room: "um_room (up_seid2pfcp_sessions switch_new) seid"
  using slots_new [of PFCP_SWITCH_MAX_SESSIONS, where ?'k = u64 and ?'v = nat]
  by (simp add: um_room_def PFCP_SWITCH_MAX_SESSIONS_def switch_new_def) (simp add: um_new_def Let_def)

text \<open>A request whose PDR names a FAR the request does not create.\<close>

definition ex_bad_request :: establishment_request where
  "ex_bad_request = ex_request\<lparr>er_create_fars := []\<rparr>"

lemma deletion_effect:
  assumes "simple env" "n4_inv sw" "get_pfcp_session_by_up_seid sw seid = Some r" "sess_heap sw r = Some s"
    and "handle_deletion dp env now seid sw = (rsp, sw')"
  shows "rsp_cause rsp = CAUSE_VALUE_REQUEST_ACCEPTED \<and> rsp_seid rsp = fs_seid (s_cp_fseid s) \<and>
    get_pfcp_session_by_up_seid sw' = (get_pfcp_session_by_up_seid sw)(seid := None) \<and>
    get_pfcp_session_by_cp_fseid sw' = (get_pfcp_session_by_cp_fseid sw)(s_cp_fseid s := None) \<and>
    (\<forall>k. at_key sw' k = (if \<exists>p \<in> set (s_pdrs s). key_of (pdr_at sw p) = Some k then [] else at_key sw k))"
proof (rule remove_pfcp_session_cases [OF assms(4), of env now])
  fix s1 n s2 sw2
  assume 1: "s_pdrs s1 = s_pdrs s" "ident s1 = ident s"
    and c: "cleanup env s1 (sw\<lparr>n4_out := n\<rparr>) = (s2, sw2)"
    and eq: "remove_pfcp_session env now r sw =
       sw2\<lparr>sess_heap := (sess_heap sw2)(r \<mapsto> s2),
           cp_fseid2pfcp_sessions := (cp_fseid2pfcp_sessions sw2)(s_cp_fseid s2 := None),
           up_seid2pfcp_sessions := fst (um_erase (up_seid2pfcp_sessions sw2) (s_seid s2))\<rparr>"
  have h: "rsp = rsp_new\<lparr>rsp_seid := fs_seid (s_cp_fseid s)\<rparr>"
    "sw' = (remove_pfcp_session env now r sw)\<lparr>assoc_calls := assoc_calls (remove_pfcp_session env now r sw) @
       [NotifyDelSession fseid_zero]\<rparr>"
    using assms(1,3-5) by (simp_all add: handle_deletion_def simple_def Let_def)
  have "registry sw2 = registry (sw\<lparr>n4_out := n\<rparr>)" "ident s2 = ident s1"
    using cleanup_framed [OF c] by (simp_all add: framed_def)
  then have R: "cp_fseid2pfcp_sessions sw2 = cp_fseid2pfcp_sessions sw" "up_seid2pfcp_sessions sw2 = up_seid2pfcp_sessions sw"
    and id: "s_cp_fseid s2 = s_cp_fseid s" "s_seid s2 = s_seid s"
    using 1(2) by (simp_all add: registry_def ident_def)
  have seid: "s_seid s = seid" using n4_invD(4) [OF assms(2,3)] assms(4) by auto
  have um: "um_inv (up_seid2pfcp_sessions sw)" using n4_invD(2) [OF assms(2)] by (simp add: tables_ok_def)
  have up: "get_pfcp_session_by_up_seid sw' = (get_pfcp_session_by_up_seid sw)(seid := None)"
    using um.lookup_era [OF um]
    by (simp add: h(2) eq R id seid get_pfcp_session_by_up_seid_def fun_eq_iff)
  have cp: "get_pfcp_session_by_cp_fseid sw' = (get_pfcp_session_by_cp_fseid sw)(s_cp_fseid s := None)"
    by (simp add: h(2) eq R id get_pfcp_session_by_cp_fseid_def fun_eq_iff)
  have ok: "tables_ok (sw\<lparr>n4_out := n\<rparr>)" using n4_invD(2) [OF assms(2)] by (simp add: tables_ok_def)
  have "sw2 = fold (cleanup_pdr env) (s_pdrs s) (sw\<lparr>n4_out := n\<rparr>)" using c 1(1) by (simp add: cleanup_def)
  with cleanup_at_key [OF ok, of env "s_pdrs s"]
  have k2: "at_key sw2 k = (if \<exists>p \<in> set (s_pdrs s). key_of (pdr_at sw p) = Some k then [] else at_key sw k)" for k
    by (simp del: at_key_UlKey at_key_DlKey)
  have "at_key sw' = at_key sw2" by (rule at_key_eqI) (simp_all add: h(2) eq)
  with up cp k2 show ?thesis by (simp add: h(1) rsp_new_def del: at_key_UlKey at_key_DlKey)
qed

text \<open>Deleting a registered session is accepted and answered with its CP SEID; the UP SEID and the
  CP F-SEID of the session lead nowhere afterwards and all other registrations stay; everything filed
  under the keys of the session's PDRs is gone from the PDR tables and no other key is touched.\<close>

lemma deletion_unregisters:
  assumes "simple env" "n4_inv sw" "get_pfcp_session_by_up_seid sw seid = Some r" "sess_heap sw r = Some s"
    and "handle_deletion dp env now seid sw = (rsp, sw')"
  shows "rsp_cause rsp = CAUSE_VALUE_REQUEST_ACCEPTED \<and> rsp_seid rsp = fs_seid (s_cp_fseid s) \<and>
    get_pfcp_session_by_up_seid sw' = (get_pfcp_session_by_up_seid sw)(seid := None) \<and>
    get_pfcp_session_by_cp_fseid sw' = (get_pfcp_session_by_cp_fseid sw)(s_cp_fseid s := None) \<and>
    (\<forall>k. at_key sw' k = (if \<exists>p \<in> set (s_pdrs s). key_of (pdr_at sw p) = Some k then [] else at_key sw k))"
  by (rule deletion_effect [OF assms])

text \<open>C6: establishing a session and deleting it by the UP SEID of the response leaves both session
  tables as they were, and deleting it once more finds no session.\<close>

theorem establish_delete_roundtrip:
  assumes "simple env" "n4_inv sw" "handle_establishment lib dp env g now req sw = Some (rsp, sw1)"
    and "rsp_cause rsp = CAUSE_VALUE_REQUEST_ACCEPTED"
    and "um_room (up_seid2pfcp_sessions sw) (fst (generate_seid g sw))"
    and "get_pfcp_session_by_up_seid sw (fst (generate_seid g sw)) = None"
    and "handle_deletion dp env now' (the (rsp_up_seid rsp)) sw1 = (rsp2, sw2)"
  shows "rsp_cause rsp2 = CAUSE_VALUE_REQUEST_ACCEPTED \<and>
    get_pfcp_session_by_cp_fseid sw2 = get_pfcp_session_by_cp_fseid sw \<and>
    get_pfcp_session_by_up_seid sw2 = get_pfcp_session_by_up_seid sw \<and>
    rsp_cause (fst (handle_deletion dp env now'' (the (rsp_up_seid rsp)) sw2)) = CAUSE_VALUE_SESSION_CONTEXT_NOT_FOUND"
proof -
  obtain r and s :: pfcp_session where s: "sess_heap sw1 r = Some s" "s_cp_fseid s = ie_val (er_cp_fseid req)"
    "rsp_up_seid rsp = Some (s_seid s)"
    "get_pfcp_session_by_cp_fseid sw1 = (get_pfcp_session_by_cp_fseid sw)(s_cp_fseid s \<mapsto> r)"
    "get_pfcp_session_by_up_seid sw1 = (get_pfcp_session_by_up_seid sw)(s_seid s \<mapsto> r)"
    "s_seid s = fst (generate_seid g sw)"
  proof -
    note E = est_registers [OF assms(1-5)]
    from E that show thesis by blast
  qed
  have cp: "get_pfcp_session_by_cp_fseid sw (s_cp_fseid s) = None"
    using assms(1,3) by (cases rule: establishment_cases) (use assms(4) s(2) in simp_all)
  have n1: "n4_inv sw1" by (rule establishment_keeps_n4_inv [OF assms(1-3)])
  have g1: "get_pfcp_session_by_up_seid sw1 (s_seid s) = Some r" by (simp add: s(5))
  have d: "handle_deletion dp env now' (s_seid s) sw1 = (rsp2, sw2)" using assms(7) s(3) by simp
  note D = deletion_effect [OF assms(1) n1 g1 s(1) d]
  have "get_pfcp_session_by_up_seid sw2 (s_seid s) = None" using D by simp
  then have "rsp_cause (fst (handle_deletion dp env now'' (s_seid s) sw2)) = CAUSE_VALUE_SESSION_CONTEXT_NOT_FOUND"
    by (simp add: handle_deletion_def)
  with D s cp assms(6) show ?thesis by (simp add: fun_eq_iff)
qed

abbreviation ex_dp :: datapath where "ex_dp \<equiv> (\<lambda>_ _ x. x)"

text \<open>The example session, established on a new switch.\<close>

lemma ex_established_at:
  obtains rsp sw1 r and s :: pfcp_session where
    "handle_establishment ex_lib ex_dp ex_env ex_uids 0 ex_request switch_new = Some (rsp, sw1)"
    "rsp_cause rsp = CAUSE_VALUE_REQUEST_ACCEPTED" "n4_inv sw1" "sess_heap sw1 r = Some s"
    "get_pfcp_session_by_up_seid sw1 1 = Some r" "rsp_up_seid rsp = Some 1"
    "get_pfcp_session_by_cp_fseid sw1 \<lparr>fs_seid = 9, fs_addr = []\<rparr> = Some r"
    "s_cp_fseid s = \<lparr>fs_seid = 9, fs_addr = []\<rparr>"
proof -
  obtain rsp sw1 where e: "handle_establishment ex_lib ex_dp ex_env ex_uids 0 ex_request switch_new = Some (rsp, sw1)"
    and c: "rsp_cause rsp = CAUSE_VALUE_REQUEST_ACCEPTED" by (rule ex_established)
  have i: "fst (generate_seid ex_uids switch_new) = 1" "ie_val (er_cp_fseid ex_request) = \<lparr>fs_seid = 9, fs_addr = []\<rparr>"
    by (simp_all add: generate_seid_def ex_uids_def switch_new_def ex_request_def)
  obtain r and s :: pfcp_session where s: "sess_heap sw1 r = Some s" "s_cp_fseid s = ie_val (er_cp_fseid ex_request)"
    "rsp_up_seid rsp = Some (s_seid s)"
    "get_pfcp_session_by_cp_fseid sw1 = (get_pfcp_session_by_cp_fseid switch_new)(s_cp_fseid s \<mapsto> r)"
    "get_pfcp_session_by_up_seid sw1 = (get_pfcp_session_by_up_seid switch_new)(s_seid s \<mapsto> r)"
    "s_seid s = fst (generate_seid ex_uids switch_new)"
    using est_registers [OF simple_ex_env n4_inv_new e c ex_room] by blast
  from s i show thesis
    by (intro that [OF e c establishment_keeps_n4_inv [OF simple_ex_env n4_inv_new e] s(1)]) simp_all
qed

theorem establish_delete_roundtrip_witness:
  "\<exists>rsp sw1 rsp2 sw2. handle_establishment ex_lib ex_dp ex_env ex_uids 0 ex_request switch_new = Some (rsp, sw1) \<and>
     handle_deletion ex_dp ex_env 5 1 sw1 = (rsp2, sw2) \<and> rsp_cause rsp2 = CAUSE_VALUE_REQUEST_ACCEPTED \<and>
     get_pfcp_session_by_up_seid sw1 1 \<noteq> None \<and> get_pfcp_session_by_up_seid sw2 = get_pfcp_session_by_up_seid switch_new"
proof -
  obtain rsp sw1 r where e: "handle_establishment ex_lib ex_dp ex_env ex_uids 0 ex_request switch_new = Some (rsp, sw1)"
    "rsp_cause rsp = CAUSE_VALUE_REQUEST_ACCEPTED" "get_pfcp_session_by_up_seid sw1 1 = Some r" "rsp_up_seid rsp = Some 1"
    by (rule ex_established_at)
  obtain rsp2 sw2 where d: "handle_deletion ex_dp ex_env 5 1 sw1 = (rsp2, sw2)" by (cases "handle_deletion ex_dp ex_env 5 1 sw1")
  have "get_pfcp_session_by_up_seid switch_new x = None" for x
    by (simp add: get_pfcp_session_by_up_seid_def switch_new_def um_new_empty)
  moreover have "handle_deletion ex_dp ex_env 5 (the (rsp_up_seid rsp)) sw1 = (rsp2, sw2)" using d e(4) by simp
  ultimately show ?thesis
    using establish_delete_roundtrip [OF simple_ex_env n4_inv_new e(1,2) ex_room] d e by simp
qed

section \<open>A changed CP F-SEID\<close>

lemma modification_registry:
  assumes "simple env" "n4_inv sw" "get_pfcp_session_by_up_seid sw (mr_seid req) = Some r" "sess_heap sw r = Some s0"
    "present (mr_cp_fseid req)" "handle_modification lib dp env g req sw = (rsp, sw')"
  shows "get_pfcp_session_by_cp_fseid sw' = get_pfcp_session_by_cp_fseid sw"
    "get_pfcp_session_by_up_seid sw' = get_pfcp_session_by_up_seid sw"
    "\<exists>s'. sess_heap sw' r = Some s' \<and> s_cp_fseid s' = ie_val (mr_cp_fseid req)"
proof -
  define s1 where "s1 = (if present (mr_cp_fseid req) then s0\<lparr>s_cp_fseid := ie_val (mr_cp_fseid req)\<rparr> else s0)"
  define h0 where "h0 = \<lparr>h_s = s1, h_sw = sw, h_st = (CAUSE_VALUE_REQUEST_ACCEPTED, IE_UNSET),
      h_rsp = rsp_new\<lparr>rsp_seid := fs_seid (s_cp_fseid s1)\<rparr>, h_deleted = False\<rparr>"
  define h1 where "h1 = mod_updates env req (mod_creations lib env g req (mod_removals dp env req h0))"
  obtain s' sw3 where q: "apply_qos_mbr env (h_s h1) (resolve_pdr_qfis (h_s h1) (h_sw h1)) = (s', sw3)"
    by (cases "apply_qos_mbr env (h_s h1) (resolve_pdr_qfis (h_s h1) (h_sw h1))")
  have eq: "sw' = sw3\<lparr>sess_heap := (sess_heap sw3)(r \<mapsto> s')\<rparr>"
    using assms(1,6) by (simp add: handle_modification_def assms(3,4) Let_def s1_def [symmetric] h0_def [symmetric]
        h1_def [symmetric] q)
  have "session_inv sw s0" using n4_invD(3) [OF assms(2,4)] by simp
  then have "session_inv sw s1" by (simp add: s1_def session_inv_def view_ok_def values_ok_def)
  then have "good s1 sw h0" using assms(2) by (simp add: good_def h0_def n4_inv_def)
  then have g: "good s1 sw h1" unfolding h1_def by (intro good_updates good_creations good_removals assms)
  note Q = soft_qos [OF good_inv [OF g] q]
  have "registry sw3 = registry sw" "ident s' = ident s1" using Q g by (simp_all add: soft_def good_def framed_def)
  then show "get_pfcp_session_by_cp_fseid sw' = get_pfcp_session_by_cp_fseid sw"
    "get_pfcp_session_by_up_seid sw' = get_pfcp_session_by_up_seid sw"
    "\<exists>s'. sess_heap sw' r = Some s' \<and> s_cp_fseid s' = ie_val (mr_cp_fseid req)"
    by (simp_all add: eq registry_def ident_def s1_def assms(5) get_pfcp_session_by_cp_fseid_def get_pfcp_session_by_up_seid_def
        fun_eq_iff)
qed

text \<open>A modification that changes the CP F-SEID of a session leaves it registered under the old one
  only, and deleting the session later erases the new one: the old CP F-SEID stays registered for good,
  and an establishment that uses it again is refused.\<close>

lemma changed_cp_fseid_stays_registered:
  assumes "simple env" "n4_inv sw" "get_pfcp_session_by_up_seid sw (mr_seid req) = Some r"
    and "get_pfcp_session_by_cp_fseid sw f = Some r" "present (mr_cp_fseid req)" "ie_val (mr_cp_fseid req) \<noteq> f"
    and "handle_modification lib dp env g req sw = (rsp1, sw1)"
    and "handle_deletion dp env now (mr_seid req) sw1 = (rsp2, sw2)"
    and "er_cp_fseid again = (True, f)"
  shows "rsp_cause rsp2 = CAUSE_VALUE_REQUEST_ACCEPTED \<and> get_pfcp_session_by_cp_fseid sw2 f = Some r \<and>
    handle_establishment lib dp env g now' again sw2 =
      Some (rsp_new\<lparr>rsp_cause := CAUSE_VALUE_REQUEST_REJECTED\<rparr>, sw2)"
proof -
  obtain s0 where s0: "sess_heap sw r = Some s0" using n4_invD(4) [OF assms(2,3)] by blast
  note M = modification_registry [OF assms(1-3) s0 assms(5,7)]
  obtain s' where s': "sess_heap sw1 r = Some s'" "s_cp_fseid s' = ie_val (mr_cp_fseid req)" using M(3) by blast
  have n1: "n4_inv sw1" using modification_keeps_n4_inv [OF assms(1,2), of lib dp g req] assms(7) by simp
  have "get_pfcp_session_by_up_seid sw1 (mr_seid req) = Some r" using M(2) assms(3) by simp
  note D = deletion_effect [OF assms(1) n1 this s'(1) assms(8)]
  then have f: "get_pfcp_session_by_cp_fseid sw2 f = Some r" using M(1) s'(2) assms(4,6) by simp
  then show ?thesis using D assms(9) by (simp add: handle_establishment_simple [OF assms(1)])
qed

end
