(* ===== verification/GsoSegment.thy ===== *)
theory GsoSegment
  imports SdfFilter
begin

text \<open>
  Software segmentation of the super-packets a tun queue hands over
  (\<open>pfcp_switch::segment_and_forward\<close>) and the loop of \<open>pdn_read_loop\<close> that calls it until the packet
  is used up, flushing the batch whenever its slots run out. Packets are byte lists; a filled slot is
  the packet written into it.
\<close>

unbundle bit_operations_syntax

section \<open>Header fields\<close>

definition ip_version :: "byte list \<Rightarrow> byte" where
  "ip_version p = drop_bit 4 (p ! 0)"

definition tcp_doff_bytes :: "byte list \<Rightarrow> nat" where
  "tcp_doff_bytes p = unat (drop_bit 4 (p ! (ihl_bytes p + 12))) * 4"

text \<open>The bits \<open>fin\<close> and \<open>psh\<close> of byte 13 of a TCP header.\<close>

definition clear_fin_psh :: "nat \<Rightarrow> byte list \<Rightarrow> byte list" where
  "clear_fin_psh ihl p = p[ihl + 13 := p ! (ihl + 13) AND NOT 9]"

definition gso_hdr :: "byte list \<Rightarrow> nat" where
  "gso_hdr pkt = ihl_bytes pkt + tcp_doff_bytes pkt"

section \<open>Segmentation\<close>

definition IP_MIN :: nat where "IP_MIN = 20"     \<comment> \<open>\<open>sizeof(struct iphdr)\<close>\<close>
definition TCP_MIN :: nat where "TCP_MIN = 20"   \<comment> \<open>\<open>sizeof(struct tcphdr)\<close>\<close>

definition splittable :: "byte list \<Rightarrow> upf_vnet_hdr \<Rightarrow> bool" where
  "splittable pkt vnet \<longleftrightarrow>
     IP_MIN \<le> length pkt \<and> ip_version pkt = 4 \<and> pkt ! 9 = IPPROTO_TCP \<and> 0 < vh_gso_size vnet \<and>
     (vnet_gso_base (vh_gso_type vnet) = UPF_VNET_HDR_GSO_TCPV4 \<or> vnet_gso_base (vh_gso_type vnet) = 0)"

definition forward_whole :: "byte list \<Rightarrow> upf_vnet_hdr \<Rightarrow> nat \<Rightarrow> byte list list" where
  "forward_whole pkt vnet slot_capacity =
     (if slot_capacity < length pkt then []
      else [if vh_flags vnet AND UPF_VNET_HDR_F_NEEDS_CSUM \<noteq> 0
            then vnet_complete_csum pkt (length pkt) (vh_csum_start vnet) (vh_csum_offset vnet) else pkt])"

text \<open>One segment: the headers, the payload from \<open>off\<close> on, the fields that differ, the checksums.\<close>

definition segment_raw :: "byte list \<Rightarrow> nat \<Rightarrow> nat \<Rightarrow> byte list" where
  "segment_raw pkt mss off =
     (let ihl = ihl_bytes pkt; hdr = gso_hdr pkt; body = length pkt - hdr;
          chunk = min mss (body - off);
          seq0 = bswap32 (load32 pkt (ihl + 4)); id0 = bswap16 (load16 pkt 4);
          out = take hdr pkt @ take chunk (drop (hdr + off) pkt);
          out = store16 2 (bswap16 (word_of_nat (hdr + chunk))) out;
          out = store16 4 (bswap16 (id0 + word_of_nat (off div mss))) out;
          out = store32 (ihl + 4) (bswap32 (seq0 + word_of_nat off)) out
      in if off + chunk \<ge> body then out else clear_fin_psh ihl out)"

definition segment :: "byte list \<Rightarrow> nat \<Rightarrow> nat \<Rightarrow> byte list" where
  "segment pkt mss off =
     (let hdr = gso_hdr pkt; chunk = min mss (length pkt - hdr - off)
      in tcp_csum_set (ip_csum_set (segment_raw pkt mss off)) (tcp_doff_bytes pkt + chunk))"

text \<open>The filling loop, by the slots that are left; it returns the cursor.\<close>

fun fill_slots :: "byte list \<Rightarrow> nat \<Rightarrow> nat \<Rightarrow> nat \<Rightarrow> byte list list \<times> nat" where
  "fill_slots pkt mss 0 off = ([], off)"
| "fill_slots pkt mss (Suc k) off =
     (if off < length pkt - (gso_hdr pkt)
      then (case fill_slots pkt mss k (off + mss) of (segs, off') \<Rightarrow> (segment pkt mss off # segs, off'))
      else ([], off))"

definition sent_whole :: "byte list \<Rightarrow> upf_vnet_hdr \<Rightarrow> nat \<Rightarrow> bool" where
  "sent_whole pkt vnet slot_capacity \<longleftrightarrow>
     \<not> splittable pkt vnet \<or> length pkt < ihl_bytes pkt + TCP_MIN \<or>
     (let hdr = gso_hdr pkt; mss = unat (vh_gso_size vnet)
      in length pkt \<le> hdr \<or> slot_capacity < hdr + mss \<or> length pkt \<le> hdr + mss)"

definition segment_and_forward ::
    "byte list \<Rightarrow> upf_vnet_hdr \<Rightarrow> nat \<Rightarrow> nat \<Rightarrow> nat \<Rightarrow> byte list list \<times> nat" where
  "segment_and_forward pkt vnet max_slots slot_capacity off =
     (if max_slots = 0 then ([], off)
      else if sent_whole pkt vnet slot_capacity then (forward_whole pkt vnet slot_capacity, length pkt)
      else case fill_slots pkt (unat (vh_gso_size vnet)) max_slots off of
             (segs, off') \<Rightarrow>
               (segs, if length pkt - (gso_hdr pkt) \<le> off' then length pkt else off'))"

section \<open>The read loop's use of it\<close>

definition DL_BATCH :: nat where "DL_BATCH = 64"
definition payload_capacity :: nat where "payload_capacity = 2048 - 64"

text \<open>\<open>batch\<close> holds the slots filled so far, \<open>sent\<close> what \<open>forward_batch\<close> has forwarded, in order. The
  C++ loop has no bound of its own: \<open>None\<close> would be a run that never leaves it.\<close>

partial_function (option) fan_out ::
    "byte list \<Rightarrow> upf_vnet_hdr \<Rightarrow> byte list list \<Rightarrow> nat \<Rightarrow> byte list list \<Rightarrow> (byte list list \<times> byte list list) option" where
  "fan_out pkt vnet batch off sent =
     (if off < length pkt
      then (case segment_and_forward pkt vnet (DL_BATCH - length batch) payload_capacity off of
              (segs, off') \<Rightarrow>
                if off' < length pkt then fan_out pkt vnet [] off' (sent @ batch @ segs)
                else fan_out pkt vnet (batch @ segs) off' sent)
      else Some (batch, sent))"

text \<open>What is done with one packet read from the tun queue (\<open>plen\<close> bytes, header \<open>vnet\<close>).\<close>

definition read_one :: "byte list \<Rightarrow> upf_vnet_hdr \<Rightarrow> byte list list \<Rightarrow> (byte list list \<times> byte list list) option" where
  "read_one pkt vnet batch =
     (if length pkt \<le> payload_capacity \<and> vh_gso_type vnet = 0
      then Some (batch @ [if vh_flags vnet AND UPF_VNET_HDR_F_NEEDS_CSUM \<noteq> 0
                          then vnet_complete_csum pkt (length pkt) (vh_csum_start vnet) (vh_csum_offset vnet)
                          else pkt], [])
      else fan_out pkt vnet batch 0 [])"


section \<open>The loop ends, and how the slots fall does not matter\<close>

definition gso_body :: "byte list \<Rightarrow> nat" where
  "gso_body pkt = length pkt - (gso_hdr pkt)"

definition gso_count :: "byte list \<Rightarrow> nat \<Rightarrow> nat" where
  "gso_count pkt mss = (gso_body pkt + mss - 1) div mss"

text \<open>What a packet becomes, without slots, cursor or batches.\<close>

definition gso_packets :: "byte list \<Rightarrow> upf_vnet_hdr \<Rightarrow> byte list list" where
  "gso_packets pkt vnet =
     (if sent_whole pkt vnet payload_capacity then forward_whole pkt vnet payload_capacity
      else map (\<lambda>k. segment pkt (unat (vh_gso_size vnet)) (k * unat (vh_gso_size vnet)))
             [0..<gso_count pkt (unat (vh_gso_size vnet))])"

lemma gso_count_iff: "0 < mss \<Longrightarrow> k * mss < gso_body pkt \<longleftrightarrow> k < gso_count pkt mss"
proof -
  assume m: "0 < mss"
  have "k < gso_count pkt mss \<longleftrightarrow> Suc k \<le> (gso_body pkt + mss - 1) div mss" by (simp add: gso_count_def Suc_le_eq)
  also have "\<dots> \<longleftrightarrow> Suc k * mss \<le> gso_body pkt + mss - 1" by (rule less_eq_div_iff_mult_less_eq [OF m])
  also have "\<dots> \<longleftrightarrow> k * mss < gso_body pkt" using m by auto
  finally show ?thesis by simp
qed

lemma fill_slots_count:
  assumes "0 < mss" "j \<le> gso_count pkt mss"
  shows "fill_slots pkt mss n (j * mss) =
           (map (\<lambda>k. segment pkt mss (k * mss)) [j..<min (j + n) (gso_count pkt mss)],
            min (j + n) (gso_count pkt mss) * mss)"
  using assms(2)
proof (induction n arbitrary: j)
  case (Suc n)
  show ?case
  proof (cases "j < gso_count pkt mss")
    case True
    have "Suc j \<le> gso_count pkt mss" using True by simp
    from Suc.IH [OF this] have ih: "fill_slots pkt mss n (j * mss + mss) =
        (map (\<lambda>k. segment pkt mss (k * mss)) [Suc j..<min (Suc j + n) (gso_count pkt mss)],
         min (Suc j + n) (gso_count pkt mss) * mss)" by (simp add: add.commute)
    have "j < min (Suc j + n) (gso_count pkt mss)" using True by simp
    then show ?thesis using True gso_count_iff [OF assms(1), of j pkt] ih
      by (simp add: gso_body_def upt_conv_Cons)
  next
    case False
    with Suc.prems gso_count_iff [OF assms(1), of j pkt] show ?thesis by (simp add: gso_body_def)
  qed
qed simp

lemma fan_out_done: "length pkt \<le> off \<Longrightarrow> fan_out pkt vnet batch off sent = Some (batch, sent)"
  by (subst fan_out.simps) simp

lemma split_cursor:
  assumes "\<not> sent_whole pkt vnet cap" "j < gso_count pkt (unat (vh_gso_size vnet))"
  shows "0 < unat (vh_gso_size vnet)" "j * unat (vh_gso_size vnet) < gso_body pkt" "gso_body pkt \<le> length pkt"
proof -
  show m: "0 < unat (vh_gso_size vnet)"
    using assms(1) unfolding sent_whole_def splittable_def word_less_nat_alt by auto
  show "j * unat (vh_gso_size vnet) < gso_body pkt" using assms(2) gso_count_iff [OF m] by blast
  show "gso_body pkt \<le> length pkt" by (simp add: gso_body_def)
qed

text \<open>One round: the segments that fit the free slots, and the cursor after them.\<close>

lemma split_round:
  assumes "\<not> sent_whole pkt vnet cap" "j < gso_count pkt (unat (vh_gso_size vnet))" "0 < n"
  defines "mss \<equiv> unat (vh_gso_size vnet)" and "N \<equiv> gso_count pkt (unat (vh_gso_size vnet))"
  shows "segment_and_forward pkt vnet n cap (j * mss) =
     (map (\<lambda>k. segment pkt mss (k * mss)) [j..<min (j + n) N],
      if N \<le> j + n then length pkt else (j + n) * mss)"
proof -
  note c = split_cursor [OF assms(1,2), folded mss_def N_def]
  have "gso_body pkt \<le> min (j + n) N * mss \<longleftrightarrow> N \<le> j + n"
    using gso_count_iff [OF c(1), of "min (j + n) N" pkt] by (auto simp: N_def mss_def min_def not_less [symmetric])
  then show ?thesis
    using assms(1-3) fill_slots_count [OF c(1), of j pkt n] c
    by (auto simp: segment_and_forward_def mss_def N_def gso_body_def min_def)
qed

lemma fan_out_split:
  assumes "\<not> sent_whole pkt vnet payload_capacity"
  defines "mss \<equiv> unat (vh_gso_size vnet)" and "N \<equiv> gso_count pkt (unat (vh_gso_size vnet))"
  shows "j < N \<Longrightarrow> length batch \<le> DL_BATCH \<Longrightarrow>
     \<exists>batch' sent'. fan_out pkt vnet batch (j * mss) sent = Some (batch', sent') \<and> length batch' \<le> DL_BATCH \<and>
       sent' @ batch' = sent @ batch @ map (\<lambda>k. segment pkt mss (k * mss)) [j..<N]"
proof (induction "2 * (N - j) + (if length batch = DL_BATCH then 1 else 0)" arbitrary: j batch sent rule: less_induct)
  case less
  note c = split_cursor [OF assms(1) less.prems(1)[unfolded N_def], folded mss_def]
  let ?n = "DL_BATCH - length batch" and ?seg = "\<lambda>k. segment pkt mss (k * mss)"
  have off: "j * mss < length pkt" using c by linarith
  note unfold = fan_out.simps [of pkt vnet batch "j * mss" sent]
  show ?case
  proof (cases "?n = 0")
    case True
    then have f: "length batch = DL_BATCH" using less.prems(2) by simp
    have "fan_out pkt vnet batch (j * mss) sent = fan_out pkt vnet [] (j * mss) (sent @ batch)"
      using off True by (subst unfold) (simp add: segment_and_forward_def)
    moreover have "2 * (N - j) + (if length ([] :: byte list list) = DL_BATCH then 1 else 0) <
        2 * (N - j) + (if length batch = DL_BATCH then 1 else 0)" using f by (simp add: DL_BATCH_def)
    from less.hyps [OF this less.prems(1), of "sent @ batch"]
    obtain b' s' where "fan_out pkt vnet [] (j * mss) (sent @ batch) = Some (b', s')" "length b' \<le> DL_BATCH"
      "s' @ b' = (sent @ batch) @ [] @ map ?seg [j..<N]" by auto
    ultimately show ?thesis by auto
  next
    case False
    then have "0 < ?n" by simp
    note r = split_round [OF assms(1) less.prems(1)[unfolded N_def] this, folded mss_def N_def]
    show ?thesis
    proof (cases "N \<le> j + ?n")
      case True
      then have "fan_out pkt vnet batch (j * mss) sent = Some (batch @ map ?seg [j..<N], sent)"
        using off r by (subst unfold) (simp add: fan_out_done min_absorb2)
      moreover have "length (batch @ map ?seg [j..<N]) \<le> DL_BATCH" using True less.prems by simp
      ultimately show ?thesis by auto
    next
      case more: False
      then have j': "j + ?n < N" by simp
      have off': "(j + ?n) * mss < length pkt" using split_cursor [OF assms(1) j'[unfolded N_def]] by (simp add: mss_def)
      have step: "fan_out pkt vnet batch (j * mss) sent =
          fan_out pkt vnet [] ((j + ?n) * mss) (sent @ batch @ map ?seg [j..<j + ?n])"
        using off r more off' by (subst unfold) (simp add: min_absorb1)
      have "2 * (N - (j + ?n)) + (if length ([] :: byte list list) = DL_BATCH then 1 else 0) <
          2 * (N - j) + (if length batch = DL_BATCH then 1 else 0)"
        using j' \<open>0 < ?n\<close> by (simp add: DL_BATCH_def)
      from less.hyps [OF this j', of "sent @ batch @ map ?seg [j..<j + ?n]"]
      obtain b' s' where *: "fan_out pkt vnet [] ((j + ?n) * mss) (sent @ batch @ map ?seg [j..<j + ?n]) = Some (b', s')"
        "length b' \<le> DL_BATCH" "s' @ b' = (sent @ batch @ map ?seg [j..<j + ?n]) @ [] @ map ?seg [j + ?n..<N]" by auto
      have "[j..<N] = [j..<j + ?n] @ [j + ?n..<N]"
        using upt_add_eq_append [of j "j + ?n" "N - (j + ?n)"] j' by simp
      with * step show ?thesis by auto
    qed
  qed
qed

lemma fan_out_whole:
  assumes "sent_whole pkt vnet payload_capacity" "pkt \<noteq> []" "length batch \<le> DL_BATCH"
  shows "\<exists>batch' sent'. fan_out pkt vnet batch 0 sent = Some (batch', sent') \<and> length batch' \<le> DL_BATCH \<and>
    sent' @ batch' = sent @ batch @ forward_whole pkt vnet payload_capacity"
proof -
  have l: "length (forward_whole pkt vnet payload_capacity) \<le> 1" by (simp add: forward_whole_def)
  have room: "\<exists>batch' sent'. fan_out pkt vnet batch 0 sent = Some (batch', sent') \<and> length batch' \<le> DL_BATCH \<and>
      sent' @ batch' = sent @ batch @ forward_whole pkt vnet payload_capacity"
    if "length batch < DL_BATCH" for batch sent :: "byte list list"
  proof -
    have "fan_out pkt vnet batch 0 sent = Some (batch @ forward_whole pkt vnet payload_capacity, sent)"
      using that assms by (subst fan_out.simps) (simp add: segment_and_forward_def fan_out_done)
    moreover have "length (batch @ forward_whole pkt vnet payload_capacity) \<le> DL_BATCH" using l that by simp
    ultimately show ?thesis by auto
  qed
  show ?thesis
  proof (cases "length batch = DL_BATCH")
    case True
    then have "fan_out pkt vnet batch 0 sent = fan_out pkt vnet [] 0 (sent @ batch)"
      using assms by (subst fan_out.simps) (simp add: segment_and_forward_def)
    with room [of "[]" "sent @ batch"] show ?thesis by (simp add: DL_BATCH_def)
  qed (use room assms(3) in simp)
qed

text \<open>C15: the loop that fans a super-packet out ends for every packet, whatever the virtio-net header
  says and however few slots the batch has left, and it loses nothing: what is forwarded by the
  flushes on the way, followed by what is left in the batch, is the batch it started with and the
  packets the super-packet splits into, in order, and the batch never overruns its slots.\<close>

theorem fan_out_ends:
  assumes "length batch \<le> DL_BATCH"
  shows "\<exists>batch' sent. fan_out pkt vnet batch 0 [] = Some (batch', sent) \<and> length batch' \<le> DL_BATCH \<and>
    sent @ batch' = batch @ (if pkt = [] then [] else gso_packets pkt vnet)"
proof (cases "pkt = []")
  case True
  with assms show ?thesis by (subst fan_out.simps) simp
next
  case False
  show ?thesis
  proof (cases "sent_whole pkt vnet payload_capacity")
    case True
    with fan_out_whole [OF True False assms, of "[]"] False show ?thesis by (simp add: gso_packets_def)
  next
    case split: False
    then have "length pkt > gso_hdr pkt" by (auto simp: sent_whole_def Let_def not_le)
    then have "0 * unat (vh_gso_size vnet) < gso_body pkt" by (simp add: gso_body_def)
    moreover have "0 < unat (vh_gso_size vnet)"
      using split unfolding sent_whole_def splittable_def word_less_nat_alt by auto
    ultimately have "0 < gso_count pkt (unat (vh_gso_size vnet))" using gso_count_iff by blast
    from fan_out_split [OF split this assms, of "[]"] split False show ?thesis by (simp add: gso_packets_def)
  qed
qed


section \<open>What a segment holds\<close>

lemma load_le_bytes16: "load_le (le_bytes16 v) = unat v"
  using sum16_le_bytes16 [of v] by (simp add: le_bytes16_def)

lemma load16_store16: "at + 2 \<le> length p \<Longrightarrow> load16 (store16 at v p) at = v"
proof -
  assume "at + 2 \<le> length p"
  then have "take 2 (drop at (store16 at v p)) = le_bytes16 v" by (simp add: store16_split)
  then show ?thesis by (simp add: load16_def load_le_bytes16)
qed

lemma load16_cong: "take 2 (drop i p) = take 2 (drop i q) \<Longrightarrow> load16 p i = load16 q i"
  by (simp add: load16_def)

lemma load16_other: "at + 2 \<le> i \<or> i + 2 \<le> at \<Longrightarrow> load16 (store16 at v p) i = load16 p i"
proof (rule load16_cong)
  assume "at + 2 \<le> i \<or> i + 2 \<le> at"
  then show "take 2 (drop i (store16 at v p)) = take 2 (drop i p)"
    by (auto simp: store16_def drop_update_swap drop_update_cancel take_update_cancel not_less)
qed

lemma load16_update_other: "i < at \<and> Suc i < at \<or> at < i \<Longrightarrow> load16 (p[at := b]) i = load16 p i"
  by (rule load16_cong) (auto simp: drop_update_swap drop_update_cancel take_update_cancel not_less)

lemma load32_halves: "i + 4 \<le> length p \<Longrightarrow>
    load32 p i = word_of_nat (unat (load16 p i) + 65536 * unat (load16 p (i + 2)))"
proof -
  assume l: "i + 4 \<le> length p"
  have "take 4 (drop i p) = take 2 (drop i p) @ take 2 (drop (i + 2) p)"
    using take_add [of 2 2 "drop i p"] by (simp add: add.commute)
  moreover have u: "unat (load16 p j) = load_le (take 2 (drop j p))" if "j + 2 \<le> length p" for j
  proof -
    have "load_le (take 2 (drop j p)) < 256 ^ length (take 2 (drop j p))" by (rule load_le_less)
    also have "length (take 2 (drop j p)) = 2" using that by simp
    finally show ?thesis by (simp add: load16_def unat_of_nat)
  qed
  ultimately show ?thesis
    using l u [of i] u [of "i + 2"] by (simp add: load32_def load_le_append)
qed

lemma halves_word: "word_of_nat (unat (ucast v :: u16) + 65536 * unat (ucast (drop_bit 16 v) :: u16)) = (v :: u32)"
proof -
  have lo: "unat (ucast v :: u16) = unat v mod 65536" by (simp add: unsigned_ucast_eq take_bit_eq_mod)
  have d: "unat (drop_bit 16 v) = unat v div 65536" by (simp only: unat_drop_bit_eq) (simp add: drop_bit_eq_div)
  have "unat v < 65536 * 65536" using unsigned_less [of v] by simp
  then have "unat v div 65536 < 65536" by (rule less_mult_imp_div_less)
  then have "unat (ucast (drop_bit 16 v) :: u16) = unat v div 65536"
    by (simp only: unsigned_ucast_eq d) (simp add: take_bit_nat_eq_self)
  with lo show ?thesis by simp
qed

lemmas halves_ucast = halves_word [simplified]

lemma length_store32 [simp]: "length (store32 at v p) = length p"
  by (simp add: store32_def)

lemma load32_store32: "at + 4 \<le> length p \<Longrightarrow> load32 (store32 at v p) at = v"
  by (simp add: load32_halves store32_def load16_store16 load16_other halves_ucast)

lemma load32_cong: "i + 4 \<le> length p \<Longrightarrow> length q = length p \<Longrightarrow> load16 p i = load16 q i \<Longrightarrow>
    load16 p (i + 2) = load16 q (i + 2) \<Longrightarrow> load32 p i = load32 q i"
  by (simp add: load32_halves)

lemma load32_other: "i + 4 \<le> length p \<Longrightarrow> at + 2 \<le> i \<or> i + 4 \<le> at \<Longrightarrow> load32 (store16 at v p) i = load32 p i"
  by (rule load32_cong) (auto simp: load16_other)

lemma load32_clear: "i + 4 \<le> length p \<Longrightarrow> i + 4 \<le> ihl + 13 \<Longrightarrow> load32 (clear_fin_psh ihl p) i = load32 p i"
  by (rule load32_cong) (auto simp: load16_update_other clear_fin_psh_def)

lemma load16_clear: "i + 2 \<le> ihl + 13 \<Longrightarrow> load16 (clear_fin_psh ihl p) i = load16 p i"
  by (auto simp: load16_update_other clear_fin_psh_def)

lemma load16_store32: "i + 2 \<le> at \<Longrightarrow> load16 (store32 at v p) i = load16 p i"
  by (simp add: store32_def load16_other)

lemma store32_other: "i < at \<or> at + 4 \<le> i \<Longrightarrow> store32 at v p ! i = p ! i"
  by (auto simp: store32_def store16_other)

lemma length_clear [simp]: "length (clear_fin_psh ihl p) = length p"
  by (simp add: clear_fin_psh_def)

lemma clear_other: "i \<noteq> ihl + 13 \<Longrightarrow> clear_fin_psh ihl p ! i = p ! i"
  by (simp add: clear_fin_psh_def)

lemma length_csum_set [simp]: "length (ip_csum_set p) = length p" "length (tcp_csum_set p n) = length p"
  by (simp_all add: ip_csum_set_def tcp_csum_set_def Let_def)

lemma ip_csum_other: "i \<noteq> 10 \<Longrightarrow> i \<noteq> 11 \<Longrightarrow> ip_csum_set p ! i = p ! i"
  by (simp add: ip_csum_set_def Let_def store16_def)

lemma tcp_csum_other: "i \<noteq> ihl_bytes p + 16 \<Longrightarrow> i \<noteq> ihl_bytes p + 17 \<Longrightarrow> tcp_csum_set p n ! i = p ! i"
  by (simp add: tcp_csum_set_def Let_def store16_def)

lemma ihl_ip_csum [simp]: "ihl_bytes (ip_csum_set p) = ihl_bytes p"
  by (simp add: ip_csum_set_def Let_def byte0_store16)

text \<open>A packet the splitter takes apart, with headers of their minimum sizes.\<close>

definition tcp_packet :: "byte list \<Rightarrow> bool" where
  "tcp_packet pkt \<longleftrightarrow> 20 \<le> ihl_bytes pkt \<and> 20 \<le> tcp_doff_bytes pkt"

definition chunk_len :: "byte list \<Rightarrow> nat \<Rightarrow> nat \<Rightarrow> nat" where
  "chunk_len pkt mss off = min mss (gso_body pkt - off)"

text \<open>The bytes \<open>segment\<close> writes.\<close>

definition rewritten :: "byte list \<Rightarrow> nat set" where
  "rewritten pkt = {2..<6} \<union> {10, 11} \<union> {ihl_bytes pkt + 4..<ihl_bytes pkt + 8} \<union>
     {ihl_bytes pkt + 13, ihl_bytes pkt + 16, ihl_bytes pkt + 17}"

definition seg_ok :: "byte list \<Rightarrow> nat \<Rightarrow> nat \<Rightarrow> bool" where
  "seg_ok pkt mss off \<longleftrightarrow> tcp_packet pkt \<and> off < gso_body pkt \<and> 0 < mss"

lemma seg_sizes:
  assumes "seg_ok pkt mss off"
  shows "20 \<le> ihl_bytes pkt" "20 \<le> tcp_doff_bytes pkt" "gso_hdr pkt \<le> length pkt"
  "gso_hdr pkt = ihl_bytes pkt + tcp_doff_bytes pkt" "length pkt = gso_hdr pkt + gso_body pkt"
  "0 < chunk_len pkt mss off" "chunk_len pkt mss off \<le> mss" "off + chunk_len pkt mss off \<le> gso_body pkt"
  using assms by (auto simp: seg_ok_def tcp_packet_def gso_hdr_def gso_body_def chunk_len_def)

lemma base_length: "seg_ok pkt mss off \<Longrightarrow> length (take (gso_hdr pkt) pkt @ take (chunk_len pkt mss off) (drop (gso_hdr pkt + off) pkt)) =
    gso_hdr pkt + chunk_len pkt mss off"
  using seg_sizes [of pkt mss off] by simp

lemma raw_unfold: "segment_raw pkt mss off =
   (let out = store32 (ihl_bytes pkt + 4) (bswap32 (bswap32 (load32 pkt (ihl_bytes pkt + 4)) + word_of_nat off))
        (store16 4 (bswap16 (bswap16 (load16 pkt 4) + word_of_nat (off div mss)))
          (store16 2 (bswap16 (word_of_nat (gso_hdr pkt + chunk_len pkt mss off)))
            (take (gso_hdr pkt) pkt @ take (chunk_len pkt mss off) (drop (gso_hdr pkt + off) pkt))))
    in if gso_body pkt \<le> off + chunk_len pkt mss off then out else clear_fin_psh (ihl_bytes pkt) out)"
  by (simp only: segment_raw_def Let_def chunk_len_def gso_body_def)

lemma raw_length: "seg_ok pkt mss off \<Longrightarrow> length (segment_raw pkt mss off) = gso_hdr pkt + chunk_len pkt mss off"
  using base_length by (simp add: raw_unfold Let_def)

lemma raw_nth: "i \<notin> rewritten pkt \<Longrightarrow> segment_raw pkt mss off ! i =
    (take (gso_hdr pkt) pkt @ take (chunk_len pkt mss off) (drop (gso_hdr pkt + off) pkt)) ! i"
  by (auto simp: raw_unfold Let_def rewritten_def clear_other store32_other store16_other not_less)

lemma raw_byte0: "seg_ok pkt mss off \<Longrightarrow> segment_raw pkt mss off ! 0 = pkt ! 0"
  using raw_nth [of 0 pkt mss off] seg_sizes [of pkt mss off] by (simp add: rewritten_def nth_append)

lemma raw_ihl: "seg_ok pkt mss off \<Longrightarrow> ihl_bytes (segment_raw pkt mss off) = ihl_bytes pkt"
  using raw_byte0 by (simp add: ihl_bytes_def)

lemma segment_unfold: "segment pkt mss off =
    tcp_csum_set (ip_csum_set (segment_raw pkt mss off)) (tcp_doff_bytes pkt + chunk_len pkt mss off)"
  by (simp add: segment_def Let_def chunk_len_def gso_body_def)

lemma segment_length: "seg_ok pkt mss off \<Longrightarrow> length (segment pkt mss off) = gso_hdr pkt + chunk_len pkt mss off"
  by (simp add: segment_unfold raw_length)

lemma segment_keeps: "seg_ok pkt mss off \<Longrightarrow> i \<notin> rewritten pkt \<Longrightarrow> segment pkt mss off ! i =
    (take (gso_hdr pkt) pkt @ take (chunk_len pkt mss off) (drop (gso_hdr pkt + off) pkt)) ! i"
  using raw_nth [of i pkt mss off] by (auto simp: segment_unfold rewritten_def raw_ihl tcp_csum_other ip_csum_other not_less)

lemma segment_raw_nth: "seg_ok pkt mss off \<Longrightarrow> i \<notin> {10, 11, ihl_bytes pkt + 16, ihl_bytes pkt + 17} \<Longrightarrow>
    segment pkt mss off ! i = segment_raw pkt mss off ! i"
  by (simp add: segment_unfold raw_ihl tcp_csum_other ip_csum_other)

lemma segment_payload:
  assumes ok: "seg_ok pkt mss off"
  shows "drop (gso_hdr pkt) (segment pkt mss off) = take (chunk_len pkt mss off) (drop (gso_hdr pkt + off) pkt)"
proof (rule nth_equalityI)
  show "length (drop (gso_hdr pkt) (segment pkt mss off)) = length (take (chunk_len pkt mss off) (drop (gso_hdr pkt + off) pkt))"
    using base_length [OF ok] by (simp add: segment_length [OF ok])
next
  fix i assume i: "i < length (drop (gso_hdr pkt) (segment pkt mss off))"
  have "gso_hdr pkt + i \<notin> rewritten pkt" using seg_sizes [OF ok] by (auto simp: rewritten_def)
  from segment_keeps [OF ok this] i show "drop (gso_hdr pkt) (segment pkt mss off) ! i =
      take (chunk_len pkt mss off) (drop (gso_hdr pkt + off) pkt) ! i"
    using seg_sizes [OF ok] by (simp add: nth_append segment_length [OF ok])
qed

text \<open>The fields of a segment.\<close>

lemma segment_load16: "i + 2 \<le> 10 \<Longrightarrow> seg_ok pkt mss off \<Longrightarrow>
    load16 (segment pkt mss off) i = load16 (segment_raw pkt mss off) i"
proof (rule load16_cong, rule nth_equalityI)
  assume i: "i + 2 \<le> 10" and ok: "seg_ok pkt mss off"
  show "length (take 2 (drop i (segment pkt mss off))) = length (take 2 (drop i (segment_raw pkt mss off)))"
    by (simp add: segment_unfold)
  fix j assume j: "j < length (take 2 (drop i (segment pkt mss off)))"
  then have "i \<le> length (segment_raw pkt mss off)" by (auto simp: segment_unfold)
  with i j ok show "take 2 (drop i (segment pkt mss off)) ! j = take 2 (drop i (segment_raw pkt mss off)) ! j"
    using segment_raw_nth [OF ok, of "i + j"] seg_sizes [OF ok] by (simp add: segment_unfold)
qed

lemma segment_tot_len:
  assumes ok: "seg_ok pkt mss off"
  shows "bswap16 (load16 (segment pkt mss off) 2) = word_of_nat (length (segment pkt mss off))"
proof -
  have "load16 (segment_raw pkt mss off) 2 = bswap16 (word_of_nat (gso_hdr pkt + chunk_len pkt mss off))"
    using seg_sizes [OF ok] by (simp add: raw_unfold Let_def load16_clear load16_store32 load16_other load16_store16)
  then show ?thesis by (simp add: segment_load16 ok segment_length)
qed

lemma segment_id:
  assumes ok: "seg_ok pkt mss off"
  shows "bswap16 (load16 (segment pkt mss off) 4) = bswap16 (load16 pkt 4) + word_of_nat (off div mss)"
proof -
  have "load16 (segment_raw pkt mss off) 4 = bswap16 (bswap16 (load16 pkt 4) + word_of_nat (off div mss))"
    using seg_sizes [OF ok] by (simp add: raw_unfold Let_def load16_clear load16_store32 load16_other load16_store16)
  then show ?thesis by (simp add: segment_load16 ok)
qed

lemma take4_cong: "i + 4 \<le> n \<Longrightarrow> length p = length q \<Longrightarrow> (\<And>j. i \<le> j \<Longrightarrow> j < i + 4 \<Longrightarrow> p ! j = q ! j) \<Longrightarrow>
    take 4 (drop i p) = take 4 (drop i q)"
  by (rule nth_equalityI) auto

lemma segment_seq:
  assumes ok: "seg_ok pkt mss off"
  shows "bswap32 (load32 (segment pkt mss off) (ihl_bytes pkt + 4)) =
           bswap32 (load32 pkt (ihl_bytes pkt + 4)) + word_of_nat off"
proof -
  have "take 4 (drop (ihl_bytes pkt + 4) (segment pkt mss off)) = take 4 (drop (ihl_bytes pkt + 4) (segment_raw pkt mss off))"
    using seg_sizes [OF ok] by (intro take4_cong segment_raw_nth ok) (auto simp: segment_unfold)
  then have "load32 (segment pkt mss off) (ihl_bytes pkt + 4) = load32 (segment_raw pkt mss off) (ihl_bytes pkt + 4)"
    by (simp add: load32_def)
  also have "\<dots> = bswap32 (bswap32 (load32 pkt (ihl_bytes pkt + 4)) + word_of_nat off)"
    using seg_sizes [OF ok] by (simp add: raw_unfold Let_def load32_clear load32_store32)
  finally show ?thesis by simp
qed

lemma segment_flags:
  assumes ok: "seg_ok pkt mss off"
  shows "segment pkt mss off ! (ihl_bytes pkt + 13) =
    (if gso_body pkt \<le> off + chunk_len pkt mss off then pkt ! (ihl_bytes pkt + 13)
     else pkt ! (ihl_bytes pkt + 13) AND NOT 9)"
proof -
  have f: "ihl_bytes pkt + 13 < gso_hdr pkt" using seg_sizes [OF ok] by simp
  have "segment pkt mss off ! (ihl_bytes pkt + 13) = segment_raw pkt mss off ! (ihl_bytes pkt + 13)"
    using seg_sizes [OF ok] by (intro segment_raw_nth ok) auto
  then show ?thesis using f seg_sizes [OF ok]
    by (simp add: raw_unfold Let_def clear_fin_psh_def store32_other store16_other nth_append)
qed

lemma segment_ip_csum:
  assumes ok: "seg_ok pkt mss off"
  shows "csum_fold (csum_partial (take (ihl_bytes pkt) (segment pkt mss off)) 0) = 0"
proof -
  have "take (ihl_bytes pkt) (segment pkt mss off) = take (ihl_bytes pkt) (ip_csum_set (segment_raw pkt mss off))"
    by (simp add: segment_unfold tcp_csum_set_def Let_def raw_ihl [OF ok] store16_take_low)
  then show ?thesis
    using ip_csum_set_verifies [of "segment_raw pkt mss off"] seg_sizes [OF ok]
    by (simp add: raw_ihl [OF ok] raw_length [OF ok])
qed

lemma segment_tcp_csum:
  assumes ok: "seg_ok pkt mss off"
  shows "csum_fold (tcp_sum (segment pkt mss off) (length (segment pkt mss off) - ihl_bytes pkt)) = 0"
proof -
  have n: "length (segment pkt mss off) - ihl_bytes pkt = tcp_doff_bytes pkt + chunk_len pkt mss off"
    using seg_sizes [OF ok] by (simp add: segment_length [OF ok])
  show ?thesis unfolding n unfolding segment_unfold
    by (rule tcp_csum_set_verifies) (use seg_sizes [OF ok] in \<open>simp_all add: raw_ihl [OF ok] raw_length [OF ok]\<close>)
qed

section \<open>What a super-packet becomes\<close>

lemma concat_chunks: "concat (map (\<lambda>k. take m (drop (k * m) xs)) [0..<n]) = take (n * m) xs"
proof (induction n)
  case (Suc n)
  have "take (n * m + m) xs = take (n * m) xs @ take m (drop (n * m) xs)" by (rule take_add)
  with Suc show ?case by (simp add: add.commute)
qed simp

lemma split_ok:
  assumes "\<not> sent_whole pkt vnet cap" "tcp_packet pkt" "k < gso_count pkt (unat (vh_gso_size vnet))"
  shows "seg_ok pkt (unat (vh_gso_size vnet)) (k * unat (vh_gso_size vnet))"
  using split_cursor [OF assms(1,3)] assms(2) by (simp add: seg_ok_def)

text \<open>C19: segmentation loses, repeats and reorders no payload. When a super-packet is split, the bodies of
  its segments, put together, are its TCP payload; every segment carries at least one byte and at
  most the MSS the kernel asked for, and fits a slot.\<close>

theorem segments_carry_the_payload:
  assumes "\<not> sent_whole pkt vnet payload_capacity" "tcp_packet pkt"
  shows "concat (map (drop (gso_hdr pkt)) (gso_packets pkt vnet)) = drop (gso_hdr pkt) pkt \<and>
    (\<forall>s\<in>set (gso_packets pkt vnet). gso_hdr pkt < length s \<and>
       length s \<le> gso_hdr pkt + unat (vh_gso_size vnet) \<and> length s \<le> payload_capacity)"
proof
  let ?m = "unat (vh_gso_size vnet)" and ?N = "gso_count pkt (unat (vh_gso_size vnet))"
  have m: "0 < ?m" using assms(1) unfolding sent_whole_def splittable_def word_less_nat_alt by auto
  have P: "gso_packets pkt vnet = map (\<lambda>k. segment pkt ?m (k * ?m)) [0..<?N]"
    using assms(1) by (simp add: gso_packets_def)
  have "drop (gso_hdr pkt) (segment pkt ?m (k * ?m)) = take ?m (drop (k * ?m) (drop (gso_hdr pkt) pkt))" if "k < ?N" for k
    using segment_payload [OF split_ok [OF assms that]]
    by (simp add: chunk_len_def gso_body_def add.commute min_def)
  then have "concat (map (drop (gso_hdr pkt)) (gso_packets pkt vnet)) =
      concat (map (\<lambda>k. take ?m (drop (k * ?m) (drop (gso_hdr pkt) pkt))) [0..<?N])"
    by (intro arg_cong [where f = concat]) (simp add: P)
  also have "\<dots> = take (?N * ?m) (drop (gso_hdr pkt) pkt)" by (rule concat_chunks)
  also have "\<dots> = drop (gso_hdr pkt) pkt"
    using gso_count_iff [OF m, of ?N pkt] by (simp add: gso_body_def)
  finally show "concat (map (drop (gso_hdr pkt)) (gso_packets pkt vnet)) = drop (gso_hdr pkt) pkt" .
  have "gso_hdr pkt + ?m \<le> payload_capacity" using assms(1) by (auto simp: sent_whole_def Let_def)
  then show "\<forall>s\<in>set (gso_packets pkt vnet). gso_hdr pkt < length s \<and> length s \<le> gso_hdr pkt + ?m \<and> length s \<le> payload_capacity"
    using segment_length [OF split_ok [OF assms]] seg_sizes [OF split_ok [OF assms]]
    by (fastforce simp: P)
qed

text \<open>C24: every segment of a split super-packet is a valid packet of the same connection. Its total
  length is its length, its identification and sequence number follow those of the super-packet, only
  the last keeps FIN and PSH, both checksums verify at a receiver, and every other header byte is the
  super-packet's.\<close>

theorem segments_are_valid_packets:
  assumes "\<not> sent_whole pkt vnet payload_capacity" "tcp_packet pkt" "k < length (gso_packets pkt vnet)"
  defines "s \<equiv> gso_packets pkt vnet ! k" and "ihl \<equiv> ihl_bytes pkt" and "mss \<equiv> unat (vh_gso_size vnet)"
  shows "ihl_bytes s = ihl \<and>
    bswap16 (load16 s 2) = word_of_nat (length s) \<and>
    bswap16 (load16 s 4) = bswap16 (load16 pkt 4) + word_of_nat k \<and>
    bswap32 (load32 s (ihl + 4)) = bswap32 (load32 pkt (ihl + 4)) + word_of_nat (k * mss) \<and>
    s ! (ihl + 13) = (if Suc k = length (gso_packets pkt vnet) then pkt ! (ihl + 13) else pkt ! (ihl + 13) AND NOT 9) \<and>
    csum_fold (csum_partial (take ihl s) 0) = 0 \<and> csum_fold (tcp_sum s (length s - ihl)) = 0 \<and>
    (\<forall>i < gso_hdr pkt. i \<notin> rewritten pkt \<longrightarrow> s ! i = pkt ! i)"
proof (intro conjI allI impI)
  have N: "length (gso_packets pkt vnet) = gso_count pkt mss" using assms(1) by (simp add: gso_packets_def mss_def)
  then have k: "k < gso_count pkt mss" using assms(3) by simp
  have s: "s = segment pkt mss (k * mss)" using assms(1) k by (simp add: s_def gso_packets_def mss_def)
  note ok = split_ok [OF assms(1,2) k[unfolded mss_def], folded mss_def]
  have m: "0 < mss" using ok by (simp add: seg_ok_def)
  have b0: "s ! 0 = pkt ! 0"
    using segment_keeps [OF ok, of 0] seg_sizes [OF ok] by (simp add: s rewritten_def nth_append)
  then show "ihl_bytes s = ihl" by (simp add: ihl_bytes_def ihl_def)
  show "bswap16 (load16 s 2) = word_of_nat (length s)" using segment_tot_len [OF ok] by (simp add: s)
  show "bswap16 (load16 s 4) = bswap16 (load16 pkt 4) + word_of_nat k" using segment_id [OF ok] m by (simp add: s)
  show "bswap32 (load32 s (ihl + 4)) = bswap32 (load32 pkt (ihl + 4)) + word_of_nat (k * mss)"
    using segment_seq [OF ok] by (simp add: s ihl_def)
  have "gso_body pkt \<le> k * mss + chunk_len pkt mss (k * mss) \<longleftrightarrow> Suc k = gso_count pkt mss"
    using gso_count_iff [OF m, of "Suc k" pkt] k by (auto simp: chunk_len_def)
  then show "s ! (ihl + 13) = (if Suc k = length (gso_packets pkt vnet) then pkt ! (ihl + 13) else pkt ! (ihl + 13) AND NOT 9)"
    using segment_flags [OF ok] by (simp add: s ihl_def N)
  show "csum_fold (csum_partial (take ihl s) 0) = 0" using segment_ip_csum [OF ok] by (simp add: s ihl_def)
  show "csum_fold (tcp_sum s (length s - ihl)) = 0" using segment_tcp_csum [OF ok] by (simp add: s ihl_def)
  show "s ! i = pkt ! i" if "i < gso_hdr pkt" "i \<notin> rewritten pkt" for i
    using segment_keeps [OF ok that(2)] that(1) seg_sizes [OF ok] by (simp add: s nth_append)
qed

text \<open>A 6000-byte packet with an MSS of 1400, marked for ECN.\<close>

definition ex_super :: "byte list" where
  "ex_super = [0x45, 0, 0x17, 0x70, 0, 1, 0, 0, 64, 6, 0, 0, 10, 0, 0, 1, 12, 1, 1, 2] @
     [0, 80, 0x13, 0x89, 0, 0, 0, 7, 0, 0, 0, 0, 0x50, 0x18, 0, 1, 0, 0, 0, 0] @ replicate 5960 9"

definition ex_vnet :: upf_vnet_hdr where
  "ex_vnet = \<lparr>vh_flags = 1, vh_gso_type = 0x81, vh_hdr_len = 40, vh_gso_size = 1400, vh_csum_start = 20, vh_csum_offset = 16\<rparr>"

lemma ex_super_split: "\<not> sent_whole ex_super ex_vnet payload_capacity" "tcp_packet ex_super"
    "length (gso_packets ex_super ex_vnet) = 5"
proof -
  have base: "ihl_bytes ex_super = 20" "tcp_doff_bytes ex_super = 20" "length ex_super = 6000"
    "ip_version ex_super = 4" "ex_super ! 9 = 6"
    by (simp_all add: ex_super_def ihl_bytes_def tcp_doff_bytes_def ip_version_def)
  then show split: "\<not> sent_whole ex_super ex_vnet payload_capacity"
    by (simp add: sent_whole_def splittable_def gso_hdr_def payload_capacity_def IP_MIN_def TCP_MIN_def IPPROTO_TCP_def
        vnet_gso_base_def UPF_VNET_HDR_GSO_TCPV4_def UPF_VNET_HDR_GSO_ECN_def ex_vnet_def)
  show "tcp_packet ex_super" using base by (simp add: tcp_packet_def)
  show "length (gso_packets ex_super ex_vnet) = 5"
    using split base by (simp add: gso_packets_def gso_count_def gso_body_def gso_hdr_def ex_vnet_def)
qed

theorem fan_out_ends_witness:
  "\<exists>batch' sent. fan_out ex_super ex_vnet (replicate 62 [1]) 0 [] = Some (batch', sent) \<and> length batch' \<le> DL_BATCH \<and>
     sent @ batch' = replicate 62 [1] @ gso_packets ex_super ex_vnet"
  using fan_out_ends [of "replicate 62 [1]" ex_super ex_vnet] by (simp add: DL_BATCH_def ex_super_def)

theorem segments_carry_the_payload_witness:
  "concat (map (drop (gso_hdr ex_super)) (gso_packets ex_super ex_vnet)) = drop (gso_hdr ex_super) ex_super"
  using segments_carry_the_payload [OF ex_super_split(1,2)] by blast

theorem segments_are_valid_packets_witness:
  "bswap32 (load32 (gso_packets ex_super ex_vnet ! 4) (ihl_bytes ex_super + 4)) =
     bswap32 (load32 ex_super (ihl_bytes ex_super + 4)) + 5600"
  using segments_are_valid_packets [OF ex_super_split(1,2), of 4] ex_super_split(3) by (simp add: ex_vnet_def)

end
