(* ===== verification/FramedRouting.thy ===== *)
theory FramedRouting
  imports PfcpTables
begin

text \<open>
  Framed routes (\<open>framed_routing/FramedRouting.cpp\<close>, \<open>LocalRouting.cpp\<close>): the networks behind a UE,
  given as text by the control plane, kept in a hash map keyed by network and mask and searched by
  the datapath for the UE that owns an address. The commands given to the operating system are
  recorded; whether each succeeds is a parameter. Addresses are in host byte order.
\<close>

unbundle bit_operations_syntax

section \<open>Reading a route\<close>

text \<open>What ends a call early: an exception of \<open>std::stoi\<close>, or a shift the language leaves undefined.\<close>

datatype fr_error = Invalid_argument | Out_of_range | Undefined_shift

definition stoi :: "string \<Rightarrow> fr_error + int" where
  "stoi s = (case strtol s of
               None \<Rightarrow> Inl Invalid_argument
             | Some (v, _) \<Rightarrow> if - (2 ^ 31) \<le> v \<and> v < 2 ^ 31 then Inr v else Inl Out_of_range)"

text \<open>\<open>std::stoi(ip_temp) << shift_counter\<close> on an \<open>int\<close>.\<close>

definition shifted :: "int \<Rightarrow> int \<Rightarrow> fr_error + u32" where
  "shifted v sh = (if sh < 0 \<or> v < 0 \<or> 2 ^ 32 \<le> v * 2 ^ nat sh then Inl Undefined_shift
                   else Inr (push_bit (nat sh) (word_of_int v)))"

fun ip_loop :: "string \<Rightarrow> string \<Rightarrow> int \<Rightarrow> u32 \<Rightarrow> fr_error + u32" where
  "ip_loop ip_temp [] shift_counter result = Inr result"
| "ip_loop ip_temp (c # cs) shift_counter result =
     (let ip_temp' = ip_temp @ [c]
      in if c = CHR ''.'' \<or> cs = []
         then (case stoi ip_temp' of
                 Inl e \<Rightarrow> Inl e
               | Inr v \<Rightarrow> (case shifted v shift_counter of
                             Inl e \<Rightarrow> Inl e
                           | Inr w \<Rightarrow> ip_loop [] cs (shift_counter - 8) (result OR w)))
         else ip_loop ip_temp' cs shift_counter result)"

definition framedIPToUeIP :: "string \<Rightarrow> fr_error + u32" where
  "framedIPToUeIP ip = ip_loop [] ip 24 0"

text \<open>The argument is reversed text; more than two characters mean a host route.\<close>

definition frameSubnetToUInt :: "string \<Rightarrow> fr_error + u32" where
  "frameSubnetToUInt subnet =
     (if 2 < length subnet then Inr 32
      else case stoi (rev subnet) of Inl e \<Rightarrow> Inl e | Inr v \<Rightarrow> Inr (word_of_int v))"

text \<open>\<open>substr(0, find(c))\<close> and \<open>substr(0, rfind(c))\<close>: the whole text when \<open>c\<close> does not occur.\<close>

definition before_first :: "char \<Rightarrow> string \<Rightarrow> string" where
  "before_first c s = takeWhile (\<lambda>d. d \<noteq> c) s"

definition before_last :: "char \<Rightarrow> string \<Rightarrow> string" where
  "before_last c s = (if c \<in> set s then rev (tl (dropWhile (\<lambda>d. d \<noteq> c) (rev s))) else s)"

definition extractIPCidr :: "string \<Rightarrow> fr_error + u32 \<times> u32" where
  "extractIPCidr fr_subnet =
     (case framedIPToUeIP (before_first (CHR ''/'') fr_subnet) of
        Inl e \<Rightarrow> Inl e
      | Inr ip \<Rightarrow> (case frameSubnetToUInt (before_last (CHR ''/'') (rev fr_subnet)) of
                     Inl e \<Rightarrow> Inl e
                   | Inr cidr \<Rightarrow> Inr (ip, cidr)))"

text \<open>\<open>while (std::getline(ss, ipsubnetmask, ' '))\<close>.\<close>

function getlines :: "char \<Rightarrow> string \<Rightarrow> string list" where
  "getlines d s =
     (if s = [] then []
      else takeWhile (\<lambda>c. c \<noteq> d) s # getlines d (tl (dropWhile (\<lambda>c. c \<noteq> d) s)))"
  by pat_completeness auto
termination
proof (relation "measure (length \<circ> snd)")
  fix d s
  assume "(s :: string) \<noteq> []"
  then have "length (tl (dropWhile (\<lambda>c. c \<noteq> d) s)) < length s"
    using length_dropWhile_le [of "\<lambda>c. c \<noteq> d" s] by (cases s) auto
  then show "((d, tl (dropWhile (\<lambda>c. c \<noteq> d) s)), d, s) \<in> measure (length \<circ> snd)" by simp
qed simp

declare getlines.simps [simp del]

section \<open>The routing table\<close>

record fr_key =
  networkAdress :: u32
  subnet :: u32

definition createFramedRoutingKey :: "u32 \<times> u32 \<Rightarrow> fr_error + fr_key" where
  "createFramedRoutingKey ipCidr =
     (case ipCidr of (ip, cidr) \<Rightarrow>
        if 32 \<le> unat (32 - cidr) then Inl Undefined_shift
        else let subnet_adress = push_bit (unat (32 - cidr)) 0xFFFFFFFF
             in Inr \<lparr>networkAdress = subnet_adress AND ip, subnet = subnet_adress\<rparr>)"

datatype local_cmd =
    IpRouteAdd u32 u32 u32     \<comment> \<open>destination, prefix length, gateway\<close>
  | IpRouteDel u32 u32 u32
  | IptablesSnat u32 u32

record framed_routing =
  KeyToIp :: "fr_key \<rightharpoonup> u32"
  routeInfoToRtEntry :: "u32 \<rightharpoonup> u32 \<times> u32"
  commands :: "local_cmd list"

definition framed_routing_new :: framed_routing where
  "framed_routing_new = \<lparr>KeyToIp = Map.empty, routeInfoToRtEntry = Map.empty, commands = []\<rparr>"

text \<open>\<open>system\<close>: the n-th command succeeds when \<open>ok n\<close>.\<close>

definition run_command :: "(nat \<Rightarrow> bool) \<Rightarrow> local_cmd \<Rightarrow> framed_routing \<Rightarrow> framed_routing \<times> bool" where
  "run_command ok c fr = (fr\<lparr>commands := commands fr @ [c]\<rparr>, ok (length (commands fr)))"

definition add_route :: "(nat \<Rightarrow> bool) \<Rightarrow> u32 \<Rightarrow> u32 \<Rightarrow> u32 \<Rightarrow> framed_routing \<Rightarrow> framed_routing" where
  "add_route ok destination netmask gateway fr =
     (case run_command ok (IpRouteAdd destination netmask gateway) fr of (fr', rc) \<Rightarrow>
        if rc \<and> routeInfoToRtEntry fr' destination = None
        then fr'\<lparr>routeInfoToRtEntry := (routeInfoToRtEntry fr')(destination \<mapsto> (netmask, gateway))\<rparr> else fr')"

definition delete_route :: "(nat \<Rightarrow> bool) \<Rightarrow> u32 \<Rightarrow> framed_routing \<Rightarrow> framed_routing" where
  "delete_route ok network_address fr =
     (case routeInfoToRtEntry fr network_address of
        None \<Rightarrow> fr
      | Some (netmask, gateway) \<Rightarrow> fst (run_command ok (IpRouteDel network_address netmask gateway) fr))"

definition add_source_snat :: "(nat \<Rightarrow> bool) \<Rightarrow> u32 \<Rightarrow> u32 \<Rightarrow> framed_routing \<Rightarrow> framed_routing" where
  "add_source_snat ok destination netmask fr = fst (run_command ok (IptablesSnat destination netmask) fr)"

text \<open>\<open>addFramedRoute\<close> with the gateway of the first PDN; the error, if any, ends the loop.\<close>

definition add_one_route ::
    "(nat \<Rightarrow> bool) \<Rightarrow> u32 \<Rightarrow> u32 \<Rightarrow> string \<Rightarrow> framed_routing \<Rightarrow> framed_routing \<times> fr_error option" where
  "add_one_route ok gateway ue_ip ipsubnetmask fr =
     (case extractIPCidr ipsubnetmask of
        Inl e \<Rightarrow> (fr, Some e)
      | Inr (ip, cidr) \<Rightarrow>
         (case createFramedRoutingKey (ip, cidr) of
            Inl e \<Rightarrow> (fr, Some e)
          | Inr key \<Rightarrow>
             (let fr1 = (if KeyToIp fr key = None then fr\<lparr>KeyToIp := (KeyToIp fr)(key \<mapsto> ue_ip)\<rparr> else fr)
              in (add_source_snat ok ip cidr (add_route ok ip cidr gateway fr1), None))))"

fun add_routes ::
    "(nat \<Rightarrow> bool) \<Rightarrow> u32 \<Rightarrow> u32 \<Rightarrow> string list \<Rightarrow> framed_routing \<Rightarrow> framed_routing \<times> fr_error option" where
  "add_routes ok gateway ue_ip [] fr = (fr, None)"
| "add_routes ok gateway ue_ip (t # ts) fr =
     (case add_one_route ok gateway ue_ip t fr of
        (fr', Some e) \<Rightarrow> (fr', Some e)
      | (fr', None) \<Rightarrow> add_routes ok gateway ue_ip ts fr')"

definition addFramedRoute ::
    "(nat \<Rightarrow> bool) \<Rightarrow> u32 \<Rightarrow> u32 \<Rightarrow> string \<Rightarrow> framed_routing \<Rightarrow> framed_routing \<times> fr_error option" where
  "addFramedRoute ok gateway ue_ip framed_route fr =
     add_routes ok gateway ue_ip (getlines (CHR '' '') framed_route) fr"

text \<open>The key of an address at a prefix length between 1 and 32, where the shift is defined.\<close>

definition net_key :: "u32 \<Rightarrow> nat \<Rightarrow> fr_key" where
  "net_key ip i = \<lparr>networkAdress = push_bit (32 - i) 0xFFFFFFFF AND ip, subnet = push_bit (32 - i) 0xFFFFFFFF\<rparr>"

text \<open>\<open>for (uint32_t i = 32; i > 0; --i)\<close>.\<close>

fun retrieve_from :: "(fr_key \<rightharpoonup> u32) \<Rightarrow> u32 \<Rightarrow> nat \<Rightarrow> u32" where
  "retrieve_from m destination_ip 0 = 0"
| "retrieve_from m destination_ip (Suc i) =
     (case m (net_key destination_ip (Suc i)) of Some ip \<Rightarrow> ip | None \<Rightarrow> retrieve_from m destination_ip i)"

definition retrieveUEIp :: "framed_routing \<Rightarrow> u32 \<Rightarrow> u32" where
  "retrieveUEIp fr destination_ip = retrieve_from (KeyToIp fr) destination_ip 32"

text \<open>The other \<open>retrieveUEIp\<close>: the UE of the first route of the text that is in the table.\<close>

fun retrieve_routes :: "string list \<Rightarrow> framed_routing \<Rightarrow> fr_error + u32" where
  "retrieve_routes [] fr = Inr 0"
| "retrieve_routes (t # ts) fr =
     (case extractIPCidr t of
        Inl e \<Rightarrow> Inl e
      | Inr ic \<Rightarrow>
         (case createFramedRoutingKey ic of
            Inl e \<Rightarrow> Inl e
          | Inr key \<Rightarrow> (case KeyToIp fr key of Some ip \<Rightarrow> Inr ip | None \<Rightarrow> retrieve_routes ts fr)))"

definition retrieveUEIp_route :: "framed_routing \<Rightarrow> string \<Rightarrow> fr_error + u32" where
  "retrieveUEIp_route fr framed_route = retrieve_routes (getlines (CHR '' '') framed_route) fr"

text \<open>\<open>remove_entry\<close> reads the erased entry through the iterator it has just invalidated; the model
  takes the value it had.\<close>

fun remove_from :: "(nat \<Rightarrow> bool) \<Rightarrow> u32 \<Rightarrow> nat \<Rightarrow> framed_routing \<Rightarrow> framed_routing" where
  "remove_from ok ue_ip 0 fr = fr"
| "remove_from ok ue_ip (Suc i) fr =
     (case KeyToIp fr (net_key ue_ip (Suc i)) of
        None \<Rightarrow> remove_from ok ue_ip i fr
      | Some ip \<Rightarrow> remove_from ok ue_ip i
                     (delete_route ok ip (fr\<lparr>KeyToIp := (KeyToIp fr)(net_key ue_ip (Suc i) := None)\<rparr>)))"

definition remove_entry :: "(nat \<Rightarrow> bool) \<Rightarrow> u32 \<Rightarrow> framed_routing \<Rightarrow> framed_routing" where
  "remove_entry ok ue_ip fr = remove_from ok ue_ip 32 fr"

text \<open>What the switch tells this component, in order.\<close>

fun fr_run :: "(nat \<Rightarrow> bool) \<Rightarrow> u32 \<Rightarrow> fr_call list \<Rightarrow> framed_routing \<Rightarrow> framed_routing" where
  "fr_run ok gateway [] fr = fr"
| "fr_run ok gateway (AddFramedRoute ue_ip t # cs) fr = fr_run ok gateway cs (fst (addFramedRoute ok gateway ue_ip t fr))"
| "fr_run ok gateway (RemoveEntry ue_ip # cs) fr = fr_run ok gateway cs (remove_entry ok ue_ip fr)"

section \<open>Networks and prefixes\<close>

definition prefix_mask :: "nat \<Rightarrow> u32" where
  "prefix_mask i = push_bit (32 - i) 0xFFFFFFFF"

definition covers :: "fr_key \<Rightarrow> u32 \<Rightarrow> bool" where
  "covers k d \<longleftrightarrow> subnet k AND d = networkAdress k"

text \<open>Every key is a network address with a contiguous mask of 1 to 32 bits.\<close>

definition keys_ok :: "(fr_key \<rightharpoonup> u32) \<Rightarrow> bool" where
  "keys_ok m \<longleftrightarrow> (\<forall>k\<in>dom m. \<exists>ip i. 1 \<le> i \<and> i \<le> 32 \<and> k = net_key ip i)"

lemma net_key_mask: "net_key ip i = \<lparr>networkAdress = prefix_mask i AND ip, subnet = prefix_mask i\<rparr>"
  by (simp add: net_key_def prefix_mask_def)

lemma covers_net_key: "covers (net_key ip i) d \<longleftrightarrow> net_key d i = net_key ip i"
  by (auto simp: covers_def net_key_mask)

lemma unat_prefix_mask: "i \<le> 32 \<Longrightarrow> unat (prefix_mask i) = 2 ^ 32 - 2 ^ (32 - i)"
proof -
  assume i: "i \<le> 32"
  have "unat (prefix_mask i) = take_bit 32 (push_bit (32 - i) 4294967295)"
    by (simp add: prefix_mask_def unsigned_push_bit_eq)
  also have "\<dots> = 2 ^ 32 - 2 ^ (32 - i)"
  proof -
    let ?p = "2 ^ (32 - i) :: nat"
    have p: "1 \<le> ?p" "?p \<le> 2 ^ 32" using power_increasing [of "32 - i" 32 "2::nat"] by simp_all
    have "push_bit (32 - i) 4294967295 = (?p - 1) * 2 ^ 32 + (2 ^ 32 - ?p)"
      using p by (simp add: push_bit_eq_mult algebra_simps diff_mult_distrib)
    moreover have "2 ^ 32 - ?p < 2 ^ 32" using p by simp
    ultimately show ?thesis by (simp add: take_bit_eq_mod)
  qed
  finally show ?thesis .
qed

lemma prefix_mask_less: "i < j \<Longrightarrow> j \<le> 32 \<Longrightarrow> prefix_mask i < prefix_mask j"
proof -
  assume ij: "i < j" "j \<le> 32"
  then have "(2::nat) ^ (32 - j) < 2 ^ (32 - i)" by (intro power_strict_increasing) auto
  moreover have "(2::nat) ^ (32 - i) \<le> 2 ^ 32" by (rule power_increasing) auto
  ultimately have "(2::nat) ^ 32 - 2 ^ (32 - i) < 2 ^ 32 - 2 ^ (32 - j)" by (intro diff_less_mono2) linarith+
  then show ?thesis using ij by (simp only: word_less_nat_alt unat_prefix_mask)
qed

lemma prefix_mask_mono: "prefix_mask i \<le> prefix_mask j \<Longrightarrow> i \<le> 32 \<Longrightarrow> j \<le> 32 \<Longrightarrow> i \<le> j"
  using prefix_mask_less [of j i] by (cases "j < i") auto

section \<open>Every table the switch can build is well formed\<close>

lemma keys_ok_new [simp]: "keys_ok (KeyToIp framed_routing_new)"
  by (simp add: keys_ok_def framed_routing_new_def)

lemma keys_ok_remove: "keys_ok m \<Longrightarrow> keys_ok (m(k := None))"
  by (auto simp: keys_ok_def)

lemma create_net_key: "createFramedRoutingKey (ip, cidr) = Inr k \<Longrightarrow> \<exists>i. 1 \<le> i \<and> i \<le> 32 \<and> unat cidr = i \<and> k = net_key ip i"
proof -
  assume c: "createFramedRoutingKey (ip, cidr) = Inr k"
  then have l: "unat (32 - cidr) < 32" by (auto simp: createFramedRoutingKey_def split: if_splits)
  have "unat cidr \<le> 32"
  proof (rule ccontr)
    assume "\<not> unat cidr \<le> 32"
    moreover have "unat cidr < 2 ^ 32" using unsigned_less [of cidr] by simp
    moreover have "unat (32 - cidr) = (if unat cidr \<le> 32 then 32 - unat cidr else 32 + 2 ^ 32 - unat cidr)"
      by (simp add: unat_sub_if_size word_size)
    ultimately show False using l by simp
  qed
  then have "cidr \<le> 32" by (simp add: word_le_nat_alt)
  then have u: "unat (32 - cidr) = 32 - unat cidr" by (simp add: unat_sub)
  with l have "1 \<le> unat cidr" by linarith
  moreover have "k = net_key ip (unat cidr)"
    using c u by (auto simp: createFramedRoutingKey_def net_key_def Let_def split: if_splits)
  ultimately show ?thesis using \<open>unat cidr \<le> 32\<close> by blast
qed

lemma key_to_ip_commands [simp]:
  "KeyToIp (fst (run_command ok c fr)) = KeyToIp fr"
  "KeyToIp (add_route ok ip cidr gateway fr) = KeyToIp fr"
  "KeyToIp (delete_route ok ip fr) = KeyToIp fr"
  "KeyToIp (add_source_snat ok ip cidr fr) = KeyToIp fr"
  by (simp_all add: run_command_def add_route_def delete_route_def add_source_snat_def split: option.split)

lemma keys_ok_add_one: "keys_ok (KeyToIp fr) \<Longrightarrow> keys_ok (KeyToIp (fst (add_one_route ok gateway ue t fr)))"
proof -
  assume k: "keys_ok (KeyToIp fr)"
  have "keys_ok ((KeyToIp fr)(key \<mapsto> ue))" if "createFramedRoutingKey (ip, cidr) = Inr key" for ip cidr key
    using k create_net_key [OF that] by (auto simp: keys_ok_def)
  with k show ?thesis by (auto simp: add_one_route_def Let_def split: sum.split)
qed

lemma keys_ok_add: "keys_ok (KeyToIp fr) \<Longrightarrow> keys_ok (KeyToIp (fst (add_routes ok gateway ue ts fr)))"
proof (induction ts arbitrary: fr)
  case (Cons t ts)
  from keys_ok_add_one [OF Cons.prems, of ok gateway ue t]
  show ?case using Cons.IH by (cases "add_one_route ok gateway ue t fr") (auto split: option.split)
qed simp

lemma keys_ok_remove_from: "keys_ok (KeyToIp fr) \<Longrightarrow> keys_ok (KeyToIp (remove_from ok ue i fr))"
  by (induction i arbitrary: fr) (simp_all add: keys_ok_remove split: option.split)

lemma keys_ok_run: "keys_ok (KeyToIp fr) \<Longrightarrow> keys_ok (KeyToIp (fr_run ok gateway cs fr))"
  by (induction ok gateway cs fr rule: fr_run.induct)
     (simp_all add: addFramedRoute_def remove_entry_def keys_ok_add keys_ok_remove_from)

section \<open>The search\<close>

lemma retrieve_from_hit:
  assumes "m (net_key d j) = Some ip" "1 \<le> j" "j \<le> i" "\<And>j'. j < j' \<Longrightarrow> j' \<le> i \<Longrightarrow> m (net_key d j') = None"
  shows "retrieve_from m d i = ip"
  using assms
proof (induction i)
  case (Suc i)
  then show ?case by (cases "j = Suc i") auto
qed simp

lemma retrieve_from_miss: "(\<And>j. 1 \<le> j \<Longrightarrow> j \<le> i \<Longrightarrow> m (net_key d j) = None) \<Longrightarrow> retrieve_from m d i = 0"
  by (induction i) auto

lemma retrieve_longest:
  assumes ok: "keys_ok (KeyToIp fr)" and k: "KeyToIp fr k = Some ue" "covers k d"
    and best: "\<And>k'. k' \<in> dom (KeyToIp fr) \<Longrightarrow> covers k' d \<Longrightarrow> subnet k' \<le> subnet k"
  shows "retrieveUEIp fr d = ue"
proof -
  have "k \<in> dom (KeyToIp fr)" using k(1) by (rule domI)
  with ok obtain ip j where j: "1 \<le> j" "j \<le> 32" "k = net_key ip j" unfolding keys_ok_def by blast
  with k(2) have kd: "k = net_key d j" by (simp add: covers_net_key)
  show ?thesis unfolding retrieveUEIp_def
  proof (rule retrieve_from_hit [of _ _ j])
    show "KeyToIp fr (net_key d j) = Some ue" using k(1) kd by simp
    fix j' assume j': "j < j'" "j' \<le> 32"
    show "KeyToIp fr (net_key d j') = None"
    proof (rule ccontr)
      assume "KeyToIp fr (net_key d j') \<noteq> None"
      then have "subnet (net_key d j') \<le> subnet k" by (intro best) (auto simp: covers_net_key)
      then show False using prefix_mask_less [OF j'] kd by (simp add: net_key_mask)
    qed
  qed (use j in auto)
qed

lemma retrieve_none:
  assumes "\<And>k. k \<in> dom (KeyToIp fr) \<Longrightarrow> \<not> covers k d"
  shows "retrieveUEIp fr d = 0"
  unfolding retrieveUEIp_def
proof (rule retrieve_from_miss, rule ccontr)
  fix j assume "KeyToIp fr (net_key d j) \<noteq> None"
  then have "\<not> covers (net_key d j) d" by (intro assms) auto
  then show False by (simp add: covers_net_key)
qed

text \<open>C33: after any sequence of calls the switch makes, the search answers the longest-prefix match: the UE
  of the stored network that contains the address and has the longest mask, and \<open>0\<close> when no stored
  network contains it.\<close>

theorem retrieve_is_longest_prefix_match:
  fixes ok gateway calls
  defines "m \<equiv> KeyToIp (fr_run ok gateway calls framed_routing_new)"
  shows "(\<forall>k ue. m k = Some ue \<and> covers k d \<and> (\<forall>k'\<in>dom m. covers k' d \<longrightarrow> subnet k' \<le> subnet k) \<longrightarrow>
            retrieveUEIp (fr_run ok gateway calls framed_routing_new) d = ue) \<and>
         ((\<forall>k\<in>dom m. \<not> covers k d) \<longrightarrow> retrieveUEIp (fr_run ok gateway calls framed_routing_new) d = 0)"
proof -
  have "keys_ok (KeyToIp (fr_run ok gateway calls framed_routing_new))" by (simp add: keys_ok_run)
  from retrieve_longest [OF this] retrieve_none [of "fr_run ok gateway calls framed_routing_new" d] show ?thesis
    unfolding m_def by blast
qed


text \<open>One network inside another: the longer prefix wins.\<close>

definition ex_calls :: "fr_call list" where
  "ex_calls = [AddFramedRoute 0x0C010102 ''10.1.0.0/16'', AddFramedRoute 0x0C010103 ''10.1.2.0/24 10.9.9.9'']"

lemma ex_lines: "getlines (CHR '' '') ''10.1.0.0/16'' = [''10.1.0.0/16'']"
  "getlines (CHR '' '') ''10.1.2.0/24 10.9.9.9'' = [''10.1.2.0/24'', ''10.9.9.9'']"
  by code_simp+

lemma ex_cidrs: "extractIPCidr ''10.1.0.0/16'' = Inr (0x0A010000, 16)"
  "extractIPCidr ''10.1.2.0/24'' = Inr (0x0A010200, 24)" "extractIPCidr ''10.9.9.9'' = Inr (0x0A090909, 32)"
  by code_simp+

lemma ex_keys: "createFramedRoutingKey (0x0A010000, 16) = Inr \<lparr>networkAdress = 0x0A010000, subnet = 0xFFFF0000\<rparr>"
  "createFramedRoutingKey (0x0A010200, 24) = Inr \<lparr>networkAdress = 0x0A010200, subnet = 0xFFFFFF00\<rparr>"
  "createFramedRoutingKey (0x0A090909, 32) = Inr \<lparr>networkAdress = 0x0A090909, subnet = 0xFFFFFFFF\<rparr>"
  by code_simp+

lemma ex_calls_keys:
  "KeyToIp (fr_run ok gateway ex_calls framed_routing_new) =
     [\<lparr>networkAdress = 0x0A010000, subnet = 0xFFFF0000\<rparr> \<mapsto> 0x0C010102,
      \<lparr>networkAdress = 0x0A010200, subnet = 0xFFFFFF00\<rparr> \<mapsto> 0x0C010103,
      \<lparr>networkAdress = 0x0A090909, subnet = 0xFFFFFFFF\<rparr> \<mapsto> 0x0C010103]"
  by (simp add: ex_calls_def addFramedRoute_def ex_lines add_one_route_def ex_cidrs ex_keys
      framed_routing_new_def)

theorem retrieve_is_longest_prefix_match_witness:
  "retrieveUEIp (fr_run (\<lambda>_. True) 0 ex_calls framed_routing_new) 0x0A010203 = 0x0C010103 \<and>
   retrieveUEIp (fr_run (\<lambda>_. True) 0 ex_calls framed_routing_new) 0x0B000001 = 0"
proof -
  note r = retrieve_is_longest_prefix_match [of "\<lambda>_. True" 0 ex_calls, unfolded ex_calls_keys]
  have "retrieveUEIp (fr_run (\<lambda>_. True) 0 ex_calls framed_routing_new) 0x0A010203 = 0x0C010103"
    by (rule conjunct1 [OF r, rule_format, of "\<lparr>networkAdress = 0x0A010200, subnet = 0xFFFFFF00\<rparr>"])
       (auto simp: covers_def)
  moreover have "retrieveUEIp (fr_run (\<lambda>_. True) 0 ex_calls framed_routing_new) 0x0B000001 = 0"
    by (rule conjunct2 [OF r, rule_format]) (auto simp: covers_def)
  ultimately show ?thesis ..
qed


section \<open>Removal\<close>

lemma remove_from_keys: "KeyToIp (remove_from ok ue i fr) =
    (\<lambda>k. if \<exists>j. 1 \<le> j \<and> j \<le> i \<and> k = net_key ue j then None else KeyToIp fr k)"
proof (induction i arbitrary: fr)
  case (Suc i)
  have *: "(\<exists>j. 1 \<le> j \<and> j \<le> Suc i \<and> k = net_key ue j) \<longleftrightarrow> (\<exists>j. 1 \<le> j \<and> j \<le> i \<and> k = net_key ue j) \<or> k = net_key ue (Suc i)" for k
    by (auto simp: le_Suc_eq)
  show ?case
  proof
    fix k
    show "KeyToIp (remove_from ok ue (Suc i) fr) k =
        (if \<exists>j. 1 \<le> j \<and> j \<le> Suc i \<and> k = net_key ue j then None else KeyToIp fr k)"
      unfolding *
    proof (cases "\<exists>j. 1 \<le> j \<and> j \<le> i \<and> k = net_key ue j")
      case True
      then have "KeyToIp (remove_from ok ue i fr') k = None" for fr' by (simp only: Suc.IH if_True)
      with True show "KeyToIp (remove_from ok ue (Suc i) fr) k =
        (if (\<exists>j. 1 \<le> j \<and> j \<le> i \<and> k = net_key ue j) \<or> k = net_key ue (Suc i) then None else KeyToIp fr k)"
        by (simp split: option.split)
    next
      case False
      then have "KeyToIp (remove_from ok ue i fr') k = KeyToIp fr' k" for fr' by (simp only: Suc.IH if_False)
      then have "KeyToIp (remove_from ok ue (Suc i) fr) k =
        (if k = net_key ue (Suc i) then None else KeyToIp fr k)"
        by (cases "k = net_key ue (Suc i)") (auto split: option.split)
      with False show "KeyToIp (remove_from ok ue (Suc i) fr) k =
        (if (\<exists>j. 1 \<le> j \<and> j \<le> i \<and> k = net_key ue j) \<or> k = net_key ue (Suc i) then None else KeyToIp fr k)"
        by (simp only: False simp_thms)
    qed
  qed
qed auto

lemma remove_entry_keys:
  assumes "keys_ok (KeyToIp fr)"
  shows "KeyToIp (remove_entry ok ue fr) = (\<lambda>k. if covers k ue then None else KeyToIp fr k)"
proof
  fix k
  have "(\<exists>j. 1 \<le> j \<and> j \<le> 32 \<and> k = net_key ue j) \<longleftrightarrow> covers k ue" if k: "KeyToIp fr k \<noteq> None"
  proof
    assume c: "covers k ue"
    from k have "k \<in> dom (KeyToIp fr)" by (rule domIff [THEN iffD2])
    with assms obtain ip i where "1 \<le> i" "i \<le> 32" "k = net_key ip i" unfolding keys_ok_def by blast
    with c show "\<exists>j. 1 \<le> j \<and> j \<le> 32 \<and> k = net_key ue j" by (metis covers_net_key)
  qed (auto simp: covers_net_key)
  then show "KeyToIp (remove_entry ok ue fr) k = (if covers k ue then None else KeyToIp fr k)"
    by (cases "KeyToIp fr k = None") (auto simp: remove_entry_def remove_from_keys)
qed

text \<open>Removing the entry of a UE removes exactly the networks that contain the UE's own address,
  whichever UE they belong to. A framed route of the UE to any other network stays in the table.\<close>

lemma remove_entry_removes_by_address:
  "KeyToIp (remove_entry ok ue (fr_run ok gateway calls framed_routing_new)) =
     (\<lambda>k. if covers k ue then None else KeyToIp (fr_run ok gateway calls framed_routing_new) k)"
  by (rule remove_entry_keys) (simp add: keys_ok_run)

section \<open>A route read back from its text\<close>

definition ipv4 :: "nat \<Rightarrow> nat \<Rightarrow> nat \<Rightarrow> nat \<Rightarrow> u32" where
  "ipv4 a b c d = push_bit 24 (word_of_nat a) OR push_bit 16 (word_of_nat b) OR push_bit 8 (word_of_nat c) OR word_of_nat d"

definition show_ip :: "nat \<Rightarrow> nat \<Rightarrow> nat \<Rightarrow> nat \<Rightarrow> string" where
  "show_ip a b c d = show_nat a @ CHR ''.'' # show_nat b @ CHR ''.'' # show_nat c @ CHR ''.'' # show_nat d"

definition show_cidr :: "nat \<Rightarrow> nat \<Rightarrow> nat \<Rightarrow> nat \<Rightarrow> nat \<Rightarrow> string" where
  "show_cidr a b c d n = show_ip a b c d @ CHR ''/'' # show_nat n"

lemma dot_not_digit: "\<not> is_digit (CHR ''.'')" "\<not> is_digit (CHR ''/'')" "\<not> is_digit (CHR '' '')"
  by (simp_all add: is_digit_def)

lemma show_nat_no: "\<not> is_digit ch \<Longrightarrow> ch \<notin> set (show_nat n)"
  using show_nat_digits by blast

lemma stoi_show: "n < 2 ^ 31 \<Longrightarrow> rest = [] \<or> rest = ''.'' \<Longrightarrow> stoi (show_nat n @ rest) = Inr (int n)"
  using strtol_show [of n rest] by (auto simp: stoi_def dot_not_digit)

lemma ip_loop_acc: "CHR ''.'' \<notin> set ds \<Longrightarrow> cs \<noteq> [] \<Longrightarrow> ip_loop tmp (ds @ cs) sh r = ip_loop (tmp @ ds) cs sh r"
  by (induction ds arbitrary: tmp) auto

lemma shifted_byte: "n < 256 \<Longrightarrow> k \<le> 24 \<Longrightarrow> shifted (int n) (int k) = Inr (push_bit k (word_of_nat n))"
proof -
  assume n: "n < 256" and k: "k \<le> 24"
  have "(2::int) ^ k \<le> 2 ^ 24" using k by (intro power_increasing) auto
  with n have "int n * 2 ^ k \<le> 255 * 2 ^ 24" by (intro mult_mono) auto
  then show ?thesis by (simp add: shifted_def)
qed

lemma ip_loop_component:
  assumes "n < 256" "k \<le> 24"
  shows "ip_loop [] (show_nat n @ CHR ''.'' # rest) (int k) r =
           ip_loop [] rest (int k - 8) (r OR push_bit k (word_of_nat n))"
  using assms by (simp add: ip_loop_acc show_nat_no dot_not_digit stoi_show shifted_byte)

lemma ip_loop_last:
  assumes "n < 256" "k \<le> 24"
  shows "ip_loop [] (show_nat n) (int k) r = Inr (r OR push_bit k (word_of_nat n))"
proof -
  obtain ds c where ds: "show_nat n = ds @ [c]" by (cases "show_nat n" rule: rev_cases) auto
  then have "CHR ''.'' \<notin> set ds" using show_nat_no [OF dot_not_digit(1), of n] by simp
  then have "ip_loop [] (show_nat n) (int k) r = ip_loop ds [c] (int k) r" by (simp add: ds ip_loop_acc)
  then show ?thesis using assms stoi_show [of n "[]"] ds by (simp add: shifted_byte)
qed

lemma framedIPToUeIP_show:
  assumes "a < 256" "b < 256" "c < 256" "d < 256"
  shows "framedIPToUeIP (show_ip a b c d) = Inr (ipv4 a b c d)"
  using ip_loop_component [OF assms(1), of 24] ip_loop_component [OF assms(2), of 16]
    ip_loop_component [OF assms(3), of 8] ip_loop_last [OF assms(4), of 0]
  by (simp add: framedIPToUeIP_def show_ip_def ipv4_def or.assoc)

lemma show_ip_no: "\<not> is_digit ch \<Longrightarrow> ch \<noteq> CHR ''.'' \<Longrightarrow> ch \<notin> set (show_ip a b c d)"
  by (auto simp: show_ip_def dest: show_nat_no)

lemma length_show_nat: "n < 100 \<Longrightarrow> length (show_nat n) \<le> 2"
  by (subst show_nat.simps, subst show_nat.simps) (simp add: less_mult_imp_div_less)

lemma extractIPCidr_show:
  assumes "a < 256" "b < 256" "c < 256" "d < 256" "n \<le> 32"
  shows "extractIPCidr (show_cidr a b c d n) = Inr (ipv4 a b c d, word_of_nat n)"
proof -
  have no: "CHR ''/'' \<notin> set (show_ip a b c d)" "CHR ''/'' \<notin> set (show_nat n)"
    by (simp_all add: show_ip_no show_nat_no dot_not_digit)
  have before: "before_first (CHR ''/'') (show_cidr a b c d n) = show_ip a b c d"
    using no(1) by (auto simp: before_first_def show_cidr_def takeWhile_append)
  have "dropWhile (\<lambda>d. d \<noteq> CHR ''/'') (show_cidr a b c d n) = CHR ''/'' # show_nat n"
    using no(1) by (auto simp: show_cidr_def dropWhile_append)
  then have last: "before_last (CHR ''/'') (rev (show_cidr a b c d n)) = rev (show_nat n)"
    by (simp add: before_last_def) (simp add: show_cidr_def)
  have "frameSubnetToUInt (rev (show_nat n)) = Inr (word_of_nat n)"
    using assms(5) length_show_nat [of n] stoi_show [of n "[]"] by (simp add: frameSubnetToUInt_def)
  then show ?thesis by (simp add: extractIPCidr_def before last framedIPToUeIP_show assms(1-4))
qed

lemma getlines_show: "getlines (CHR '' '') (show_cidr a b c d n) = [show_cidr a b c d n]"
proof -
  have no: "CHR '' '' \<notin> set (show_cidr a b c d n)"
    using show_ip_no [of "CHR '' ''" a b c d] show_nat_no [of "CHR '' ''" n] by (simp add: show_cidr_def dot_not_digit)
  then have "takeWhile (\<lambda>x. x \<noteq> CHR '' '') (show_cidr a b c d n) = show_cidr a b c d n"
    "dropWhile (\<lambda>x. x \<noteq> CHR '' '') (show_cidr a b c d n) = []" by auto
  moreover have "show_cidr a b c d n \<noteq> []" by (simp add: show_cidr_def)
  ultimately show ?thesis
    using getlines.simps [of "CHR '' ''" "show_cidr a b c d n"] by (simp only:) (simp add: getlines.simps [of _ "[]"])
qed

lemma create_key_nat: "1 \<le> n \<Longrightarrow> n \<le> 32 \<Longrightarrow> createFramedRoutingKey (ip, word_of_nat n) = Inr (net_key ip n)"
proof -
  assume n: "1 \<le> n" "n \<le> 32"
  then have u: "unat (word_of_nat n :: u32) = n" by (simp add: unat_of_nat)
  then have "unat (32 - word_of_nat n :: u32) = 32 - n"
    using n by (subst unat_sub) (simp_all add: word_le_nat_alt)
  with n show ?thesis by (simp add: createFramedRoutingKey_def net_key_def Let_def)
qed

text \<open>A framed route in the notation the control plane uses, \<open>a.b.c.d/n\<close>, is understood, installed in
  the operating system with its own prefix length, and from then on every address of the network that
  no stored longer prefix claims is answered with the UE's address.\<close>

lemma added_route_is_found:
  fixes ue :: u32
  assumes "a < 256" "b < 256" "c < 256" "d < 256" "1 \<le> n" "n \<le> 32"
    and free: "KeyToIp (fr_run ok gateway calls framed_routing_new) (net_key (ipv4 a b c d) n) = None"
    and inside: "covers (net_key (ipv4 a b c d) n) addr"
    and longest: "\<And>k. k \<in> dom (KeyToIp (fr_run ok gateway calls framed_routing_new)) \<Longrightarrow> covers k addr \<Longrightarrow> subnet k \<le> prefix_mask n"
  defines "fr \<equiv> fr_run ok gateway calls framed_routing_new"
  defines "res \<equiv> addFramedRoute ok gateway ue (show_cidr a b c d n) fr"
  shows "snd res = None \<and> retrieveUEIp (fst res) addr = ue \<and>
    commands (fst res) = commands fr @ [IpRouteAdd (ipv4 a b c d) (word_of_nat n) gateway, IptablesSnat (ipv4 a b c d) (word_of_nat n)]"
proof -
  let ?k = "net_key (ipv4 a b c d) n"
  have res: "res = (add_source_snat ok (ipv4 a b c d) (word_of_nat n) (add_route ok (ipv4 a b c d) (word_of_nat n) gateway
      (fr\<lparr>KeyToIp := (KeyToIp fr)(?k \<mapsto> ue)\<rparr>)), None)"
    using free by (simp add: res_def fr_def addFramedRoute_def getlines_show add_one_route_def
        extractIPCidr_show [OF assms(1-4) assms(6)] create_key_nat [OF assms(5,6)] Let_def)
  have "keys_ok (KeyToIp fr)" by (simp add: fr_def keys_ok_run)
  then have "keys_ok (KeyToIp (fst res))" using assms(5,6) by (auto simp: res keys_ok_def)
  then have "retrieveUEIp (fst res) addr = ue"
    by (rule retrieve_longest [of _ ?k]) (use inside longest in \<open>auto simp: res fr_def net_key_mask\<close>)
  then show ?thesis by (simp add: res add_source_snat_def add_route_def run_command_def)
qed

text \<open>The empty table, and a route to a network that does not contain the UE that owns it.\<close>

end
