(* ===== verification/ShapingQueue.thy ===== *)
theory ShapingQueue
  imports PfcpSession "HOL-Library.Multiset"
begin

text \<open>
  The per-thread queue of packets held until their rate lets them go (\<open>shaper_queue\<close> in
  \<open>pfcp_switch.cpp\<close>). A held packet lies in a slot of a slab; \<open>free_slots\<close> is the stack of unused
  slots, \<open>heap\<close> the vector that \<open>std::push_heap\<close> and \<open>std::pop_heap\<close> keep as a heap on the departure
  time. Those two functions promise only that a packet with an earliest departure comes out first:
  which one, among several, is the parameter \<open>tie\<close>.
\<close>

section \<open>The queue\<close>

record shaped_packet =
  sp_due :: u64
  sp_slot :: nat
  sp_len :: nat
  sp_teid :: u32
  sp_peer :: payload

record shaper_queue =
  slab :: "nat \<Rightarrow> byte list"
  free_slots :: "nat list"
  heap :: "shaped_packet list"
  held :: u64
  dropped :: u64
  queued :: u64
  late_max :: u64

definition SHAPER_SLOTS :: nat where "SHAPER_SLOTS = 1024"

definition slot_capacity :: nat where "slot_capacity = 2048 - 64"

definition shaper_queue_new :: shaper_queue where
  "shaper_queue_new = \<lparr>slab = (\<lambda>_. []), free_slots = [0..<SHAPER_SLOTS], heap = [], held = 0, dropped = 0,
     queued = 0, late_max = 0\<rparr>"

definition has_room :: "shaper_queue \<Rightarrow> bool" where
  "has_room q \<longleftrightarrow> free_slots q \<noteq> []"

definition hold :: "byte list \<Rightarrow> u64 \<Rightarrow> u32 \<Rightarrow> payload \<Rightarrow> shaper_queue \<Rightarrow> shaper_queue \<times> bool" where
  "hold pkt due teid peer q =
     (if free_slots q = [] \<or> slot_capacity < length pkt then (q, False)
      else let slot = last (free_slots q);
               h = heap q @ [\<lparr>sp_due = due, sp_slot = slot, sp_len = length pkt, sp_teid = teid, sp_peer = peer\<rparr>]
           in (q\<lparr>free_slots := butlast (free_slots q), slab := (slab q)(slot := pkt), heap := h,
                 held := held q + 1, queued := word_of_nat (length h)\<rparr>, True))"

definition drop_packet :: "shaper_queue \<Rightarrow> shaper_queue" where
  "drop_packet q = q\<lparr>dropped := dropped q + 1\<rparr>"

text \<open>\<open>heap.front()\<close>: an earliest departure.\<close>

definition earliest :: "shaped_packet list \<Rightarrow> shaped_packet list" where
  "earliest h = filter (\<lambda>p. \<forall>q\<in>set h. sp_due p \<le> sp_due q) h"

definition heap_front :: "(shaped_packet list \<Rightarrow> nat) \<Rightarrow> shaped_packet list \<Rightarrow> shaped_packet" where
  "heap_front tie h = earliest h ! (tie h mod length (earliest h))"

text \<open>\<open>pop_heap\<close> and \<open>pop_back\<close>, with the record of the worst lateness.\<close>

definition pop_front :: "(shaped_packet list \<Rightarrow> nat) \<Rightarrow> u64 \<Rightarrow> shaper_queue \<Rightarrow> shaped_packet \<times> shaper_queue" where
  "pop_front tie now q =
     (let p = heap_front tie (heap q)
      in (p, q\<lparr>heap := remove1 p (heap q),
               late_max := (if late_max q < now - sp_due p then now - sp_due p else late_max q)\<rparr>))"

definition free_slot :: "nat \<Rightarrow> shaper_queue \<Rightarrow> shaper_queue" where
  "free_slot slot q = q\<lparr>free_slots := free_slots q @ [slot]\<rparr>"

section \<open>Slots are neither lost nor shared\<close>

text \<open>The slots in use are those of the held packets and of the packets being released (\<open>out\<close>).\<close>

definition slots_ok :: "nat list \<Rightarrow> shaper_queue \<Rightarrow> bool" where
  "slots_ok out q \<longleftrightarrow> mset (free_slots q) + mset (map sp_slot (heap q)) + mset out = mset [0..<SHAPER_SLOTS]"

lemma slots_ok_new [simp]: "slots_ok [] shaper_queue_new"
  by (simp add: slots_ok_def shaper_queue_new_def)

lemma slots_ok_drop [simp]: "slots_ok out (drop_packet q) = slots_ok out q"
  by (simp add: slots_ok_def drop_packet_def)

lemma slots_ok_hold: "slots_ok out q \<Longrightarrow> slots_ok out (fst (hold pkt due teid peer q))"
proof (cases "free_slots q = []")
  case False
  then have "mset (free_slots q) = mset (butlast (free_slots q)) + {#last (free_slots q)#}"
    by (metis append_butlast_last_id mset.simps(1) mset_append mset_single_iff)
  then show "slots_ok out q \<Longrightarrow> slots_ok out (fst (hold pkt due teid peer q))"
    by (simp add: slots_ok_def hold_def Let_def ac_simps)
qed (simp add: hold_def)

lemma earliest_nonempty: "h \<noteq> [] \<Longrightarrow> earliest h \<noteq> []"
proof -
  assume "h \<noteq> []"
  then have "Min (sp_due ` set h) \<in> sp_due ` set h" by (intro Min_in) auto
  then obtain p where "p \<in> set h" "sp_due p = Min (sp_due ` set h)" by auto
  then have "p \<in> set (earliest h)" by (auto simp: earliest_def)
  then show ?thesis by auto
qed

lemma heap_front_in: "h \<noteq> [] \<Longrightarrow> heap_front tie h \<in> set (earliest h)"
  using earliest_nonempty [of h] by (simp add: heap_front_def)

lemma heap_front_least: "h \<noteq> [] \<Longrightarrow> heap_front tie h \<in> set h \<and> (\<forall>q\<in>set h. sp_due (heap_front tie h) \<le> sp_due q)"
  using heap_front_in [of h tie] by (simp add: earliest_def)

lemma slots_ok_pop:
  assumes "slots_ok out q" "heap q \<noteq> []" "pop_front tie now q = (p, q')"
  shows "slots_ok (sp_slot p # out) q'"
proof -
  have p: "p \<in> set (heap q)" using assms heap_front_least [of "heap q" tie] by (auto simp: pop_front_def Let_def)
  then have "mset (map sp_slot (heap q)) = mset (map sp_slot (remove1 p (heap q))) + {#sp_slot p#}"
    by (metis add_mset_add_single image_mset_add_mset mset_map mset_remove1 insert_DiffM set_mset_mset)
  then show ?thesis using assms by (auto simp: slots_ok_def pop_front_def Let_def)
qed

lemma slots_ok_free: "slots_ok (slot # out) q \<Longrightarrow> slots_ok out (free_slot slot q)"
  by (simp add: slots_ok_def free_slot_def)

lemma hold_frame: "free_slots q \<noteq> [] \<Longrightarrow> length pkt \<le> slot_capacity \<Longrightarrow>
    hold pkt due teid peer q =
      (q\<lparr>free_slots := butlast (free_slots q), slab := (slab q)(last (free_slots q) := pkt),
         heap := heap q @ [\<lparr>sp_due = due, sp_slot = last (free_slots q), sp_len = length pkt, sp_teid = teid, sp_peer = peer\<rparr>],
         held := held q + 1, queued := word_of_nat (Suc (length (heap q)))\<rparr>, True)"
  by (simp add: hold_def Let_def)

text \<open>Invariant parts of a queue: slots, every held packet's bytes are in its slot, and never a slot twice.\<close>

lemma slots_distinct:
  assumes "slots_ok out q"
  shows "distinct (free_slots q @ map sp_slot (heap q) @ out)"
  and "length (free_slots q) + length (heap q) + length out = SHAPER_SLOTS"
proof -
  have m: "mset (free_slots q @ map sp_slot (heap q) @ out) = mset [0..<SHAPER_SLOTS]"
    using assms by (simp add: slots_ok_def add.assoc)
  then show "distinct (free_slots q @ map sp_slot (heap q) @ out)"
    using mset_eq_imp_distinct_iff [OF m] by simp
  have "length (free_slots q @ map sp_slot (heap q) @ out) = SHAPER_SLOTS"
    using mset_eq_length [OF m] by simp
  then show "length (free_slots q) + length (heap q) + length out = SHAPER_SLOTS" by simp
qed

end
