(* ===== verification/Datapath.thy ===== *)
theory Datapath
  imports HandlerProps GsoSegment FramedRouting ShapingQueue
begin

text \<open>
  The per-packet path of the switch: metering and shaping, the uplink and the downlink look-up, the
  release of shaped packets and the choice of the tun queue. One thread is modelled; what it sees of
  the switch is a state, and the read-side critical sections are the subject of \<open>UpfRcu\<close>. Sending is
  recorded in order. A packet is the byte list of exactly its length.
\<close>

unbundle bit_operations_syntax

section \<open>State\<close>

text \<open>The n-th reading of the steady clock, the choice among equal departures, the results of the
  commands of the framed routes, the gateway they use, the bytes that lie behind the header copied to
  the stack, the number of the thread and the descriptors of the tun queues.\<close>

record dp_env =
  dp_cfg :: upf_env
  dp_clock :: "nat \<Rightarrow> u64"
  dp_tie :: "shaped_packet list \<Rightarrow> nat"
  dp_sys :: "nat \<Rightarrow> bool"
  dp_gateway :: u32
  dp_stack :: "byte list"
  dp_thread :: nat
  dp_tun_fds :: "int list"
  dp_sock_w :: int

datatype dp_event =
    SendGPdu far_verdict "byte list"
  | WriteTun int "byte list"
  | ErrorIndication payload u32
  | BufferingRequested nat "byte list"

record datapath_state =
  d_sw :: upf_switch
  d_shaping :: bool
  d_sq :: shaper_queue
  d_reads :: nat
  d_log :: "dp_event list"

definition emit :: "dp_event \<Rightarrow> datapath_state \<Rightarrow> datapath_state" where
  "emit ev d = d\<lparr>d_log := d_log d @ [ev]\<rparr>"

definition read_clock :: "dp_env \<Rightarrow> datapath_state \<Rightarrow> u64 \<times> datapath_state" where
  "read_clock e d = (dp_clock e (d_reads d), d\<lparr>d_reads := Suc (d_reads d)\<rparr>)"

section \<open>The tun queue of a flow\<close>

definition flow_ports :: "byte list \<Rightarrow> u16 \<times> u16" where
  "flow_ports pkt =
     (if (pkt ! 9 = IPPROTO_TCP \<or> pkt ! 9 = IPPROTO_UDP) \<and> ihl_bytes pkt + 4 \<le> length pkt
      then (load16 pkt (ihl_bytes pkt), load16 pkt (ihl_bytes pkt + 2)) else (0, 0))"

definition flow_hash :: "byte list \<Rightarrow> u32" where
  "flow_hash pkt =
     (let (sport, dport) = flow_ports pkt;
          h = iph_saddr pkt XOR iph_daddr pkt;
          h = h XOR push_bit 16 (ucast (sport XOR dport));
          h = h XOR ucast (pkt ! 9);
          h = h XOR drop_bit 16 h;
          h = h * 0x7feb352d;
          h = h XOR drop_bit 15 h;
          h = h * 0x846ca68b
      in h XOR drop_bit 16 h)"

definition tun_tx_fd :: "dp_env \<Rightarrow> byte list \<Rightarrow> int" where
  "tun_tx_fd e pkt =
     (let fds = dp_tun_fds e
      in if fds = [] then dp_sock_w e
         else if length fds = 1 then fds ! 0
         else fds ! (unat (flow_hash pkt) mod length fds))"

definition send_to_core :: "dp_env \<Rightarrow> byte list \<Rightarrow> datapath_state \<Rightarrow> datapath_state" where
  "send_to_core e pkt d = emit (WriteTun (tun_tx_fd e pkt) pkt) d"

section \<open>Metering\<close>

text \<open>\<open>due_at\<close> on the meter in the heap, at the time the clock shows; it reads the clock once.\<close>

definition charge :: "dp_env \<Rightarrow> nat \<Rightarrow> nat \<Rightarrow> bool \<Rightarrow> datapath_state \<Rightarrow> u64 \<times> datapath_state" where
  "charge e q len may_wait d =
     (case read_clock e d of (now, d1) \<Rightarrow>
        (case due_at (the (mbr_heap (d_sw d1) q)) (buckets (d_sw d1)) now (word_of_nat len) may_wait of
           (m', bh', due) \<Rightarrow>
             (due, d1\<lparr>d_sw := (d_sw d1)\<lparr>mbr_heap := (mbr_heap (d_sw d1))(q \<mapsto> m'), buckets := bh'\<rparr>\<rparr>)))"

definition meter :: "dp_env \<Rightarrow> nat \<Rightarrow> byte list \<Rightarrow> u32 \<Rightarrow> payload \<Rightarrow> datapath_state \<Rightarrow> datapath_state \<times> bool" where
  "meter e q pkt teid peer d =
     (let d1 = (if \<not> d_shaping d \<and> teid \<noteq> 0 \<and> qos_shape_ul_ms (dp_cfg e) \<noteq> 0 then d\<lparr>d_shaping := True\<rparr> else d);
          may_wait = (d_shaping d1 \<and> has_room (d_sq d1))
      in case charge e q (length pkt) may_wait d1 of (due, d2) \<Rightarrow>
           if due = QOS_TOO_LATE
           then (if d_shaping d2 then d2\<lparr>d_sq := drop_packet (d_sq d2)\<rparr> else d2, False)
           else if due = 0 then (d2, True)
           else (case hold pkt due teid peer (d_sq d2) of
                   (q', True) \<Rightarrow> (d2\<lparr>d_sq := q'\<rparr>, False)
                 | (q', False) \<Rightarrow> (d2\<lparr>d_sq := drop_packet q'\<rparr>, False)))"

text \<open>The guard both look-ups put before the meter: no meter, or a packet coming back out of the queue.\<close>

definition metered :: "dp_env \<Rightarrow> nat \<Rightarrow> bool \<Rightarrow> byte list \<Rightarrow> u32 \<Rightarrow> payload \<Rightarrow> datapath_state \<Rightarrow> datapath_state \<times> bool" where
  "metered e r released pkt teid peer d =
     (case pdr_qos (pdr_at (d_sw d) r) of
        None \<Rightarrow> (d, True)
      | Some q \<Rightarrow> if released then (d, True) else meter e q pkt teid peer d)"

section \<open>Looking a packet up\<close>

text \<open>What the framed-route component holds after the calls made so far.\<close>

definition fr_now :: "dp_env \<Rightarrow> datapath_state \<Rightarrow> framed_routing" where
  "fr_now e d = fr_run (dp_sys e) (dp_gateway e) (fr_calls (d_sw d)) framed_routing_new"

definition sess_at :: "upf_switch \<Rightarrow> nat \<Rightarrow> pfcp_session" where
  "sess_at sw r = the (sess_heap sw r)"

definition set_session :: "nat \<Rightarrow> pfcp_session \<Rightarrow> datapath_state \<Rightarrow> datapath_state" where
  "set_session r s d = d\<lparr>d_sw := (d_sw d)\<lparr>sess_heap := (sess_heap (d_sw d))(r \<mapsto> s)\<rparr>\<rparr>"

text \<open>The session of a matched rule and its FAR, by the published view.\<close>

definition rule_target :: "upf_switch \<Rightarrow> nat \<Rightarrow> (nat \<times> nat) option" where
  "rule_target sw r =
     (case get_pfcp_session_by_up_seid sw (pdr_local_seid (pdr_at sw r)) of
        None \<Rightarrow> None
      | Some s \<Rightarrow> if present (pdr_far_id (pdr_at sw r))
                  then map_option (Pair s) (find_far sw (sess_at sw s) (ie_val (pdr_far_id (pdr_at sw r))))
                  else None)"

definition find_dl_pdrs :: "dp_env \<Rightarrow> datapath_state \<Rightarrow> u32 \<Rightarrow> nat list option" where
  "find_dl_pdrs e d ue_ip =
     (case get_pfcp_dl_pdrs_by_ue_ip (d_sw d) ue_ip of
        Some v \<Rightarrow> Some v
      | None \<Rightarrow> if enable_fr (dp_cfg e)
                then let fr_ip = retrieveUEIp (fr_now e d) ue_ip
                     in get_pfcp_dl_pdrs_by_ue_ip (d_sw d) (if fr_ip \<noteq> 0 then fr_ip else ue_ip)
                else None)"

text \<open>The packet is for a UE of the PDN network, and not for its gateway (host part 1).\<close>

definition internal_dest :: "upf_env \<Rightarrow> byte list \<Rightarrow> bool" where
  "internal_dest cfg pkt \<longleftrightarrow>
     network_ipv4 cfg = iph_daddr pkt AND network_mask_ipv4_be cfg \<and> bswap32 (iph_daddr pkt) AND 0xFF \<noteq> 1"

definition notify_cp :: "nat \<Rightarrow> nat \<Rightarrow> datapath_state \<Rightarrow> datapath_state" where
  "notify_cp r s d =
     (case notify_cp_requested (pdr_at (d_sw d) r) of (p', rep) \<Rightarrow>
        let sw = (d_sw d)\<lparr>pdr_heap := (pdr_heap (d_sw d))(r \<mapsto> p')\<rparr>
        in d\<lparr>d_sw := (case rep of
                        None \<Rightarrow> sw
                      | Some i \<Rightarrow> sw\<lparr>n4_out := n4_out sw @ [(s_cp_fseid (sess_at sw s), DownlinkDataReport i)]\<rparr>)\<rparr>)"

definition raise_flags :: "nat \<Rightarrow> nat \<Rightarrow> byte list \<Rightarrow> bool \<Rightarrow> bool \<Rightarrow> datapath_state \<Rightarrow> datapath_state" where
  "raise_flags r s pkt nocp buff d =
     (let d1 = (if buff then emit (BufferingRequested r pkt) d else d)
      in if nocp then notify_cp r s d1 else d1)"

text \<open>The first rule of the vector that matches: the loop leaves on it, whatever happens next.\<close>

definition match_dl :: "dp_env \<Rightarrow> datapath_state \<Rightarrow> byte list \<Rightarrow> nat list \<Rightarrow> nat option" where
  "match_dl e d pkt pdrs = find (\<lambda>r. look_up_pack_in_core (dp_cfg e) (pdr_at (d_sw d) r) pkt (length pkt)) pdrs"

text \<open>The QFI the downlink tunnel header carries.\<close>

definition tx_qfi :: "upf_switch \<Rightarrow> nat \<Rightarrow> nat \<Rightarrow> u8" where
  "tx_qfi sw r s =
     (if 0 \<le> pdr_tx_qfi (pdr_at sw r) then word_of_int (pdr_tx_qfi (pdr_at sw r)) else s_qfi (sess_at sw s))"

text \<open>The part of the downlink path between the match and the FAR: meter, then count.\<close>

definition dl_admit :: "dp_env \<Rightarrow> nat \<Rightarrow> nat \<Rightarrow> byte list \<Rightarrow> bool \<Rightarrow> datapath_state \<Rightarrow> datapath_state \<times> bool" where
  "dl_admit e r s pkt released d =
     (case metered e r released pkt 0 [] d of
        (d1, go) \<Rightarrow>
          (if go then set_session s (add_dl (dp_thread e) (word_of_nat (length pkt)) (sess_at (d_sw d1) s)) d1 else d1, go))"

text \<open>\<open>apply_forwarding_rules\<close> hands a packet for the core side to \<open>no_internal_loop\<close>, which looks it up
  as a downlink packet when it is for a UE: the look-up can call itself. \<open>None\<close> is a run that does not
  return.\<close>

partial_function (option) look_up_core :: "dp_env \<Rightarrow> byte list \<Rightarrow> bool \<Rightarrow> datapath_state \<Rightarrow> datapath_state option" where
  "look_up_core e pkt released d =
     (if ip_version pkt = 4
      then (case find_dl_pdrs e d (bswap32 (iph_daddr pkt)) of
              None \<Rightarrow> Some d
            | Some pdrs \<Rightarrow>
               (case match_dl e d pkt pdrs of
                  None \<Rightarrow> Some d
                | Some r \<Rightarrow>
                   (case rule_target (d_sw d) r of
                      None \<Rightarrow> Some d
                    | Some (s, f) \<Rightarrow>
                       (case dl_admit e r s pkt released d of
                          (d1, go) \<Rightarrow>
                           if \<not> go then Some d1
                           else (case apply_forwarding_rules (dp_cfg e) (far_at (d_sw d) f) (tx_qfi (d_sw d) r s) of
                              (v, nocp, buff) \<Rightarrow>
                                Option.bind
                                  (if v = ToCore
                                   then if internal_dest (dp_cfg e) pkt then look_up_core e pkt False d1
                                        else Some (send_to_core e pkt d1)
                                   else if v = NoForward then Some d1 else Some (emit (SendGPdu v pkt) d1))
                                  (\<lambda>d2. Some (raise_flags r s pkt nocp buff d2)))))))
      else Some d)"

text \<open>The uplink side. \<open>fr_header\<close> is the stack copy of the header with the address of the UE in it.\<close>

definition fr_header :: "dp_env \<Rightarrow> datapath_state \<Rightarrow> byte list \<Rightarrow> byte list" where
  "fr_header e d pkt =
     store32 12 (bswap32 (retrieveUEIp (fr_now e d) (bswap32 (iph_saddr pkt)))) (take 20 pkt) @ dp_stack e"

definition in_access :: "dp_env \<Rightarrow> datapath_state \<Rightarrow> byte list \<Rightarrow> u32 \<Rightarrow> nat \<Rightarrow> bool" where
  "in_access e d pkt teid r =
     (let p = pdr_at (d_sw d) r
      in look_up_pack_in_access p pkt (length pkt) teid \<or>
         enable_fr (dp_cfg e) \<and> present (pdi_framed_route (ie_val (pdr_pdi p))) \<and>
           look_up_pack_in_access p (fr_header e d pkt) (length pkt) teid)"

definition match_ul :: "dp_env \<Rightarrow> datapath_state \<Rightarrow> byte list \<Rightarrow> u32 \<Rightarrow> nat list \<Rightarrow> nat option" where
  "match_ul e d pkt teid pdrs = find (in_access e d pkt teid) pdrs"

text \<open>Uplink: QFI into the session, meter, count.\<close>

definition ul_admit :: "dp_env \<Rightarrow> nat \<Rightarrow> nat \<Rightarrow> byte list \<Rightarrow> u32 \<Rightarrow> payload \<Rightarrow> bool \<Rightarrow> datapath_state \<Rightarrow> datapath_state \<times> bool" where
  "ul_admit e r s pkt teid peer released d =
     (let d0 = set_session s ((sess_at (d_sw d) s)\<lparr>s_qfi := ie_val (pdi_qfi (ie_val (pdr_pdi (pdr_at (d_sw d) r))))\<rparr>) d
      in case metered e r released pkt teid peer d0 of
           (d1, go) \<Rightarrow>
             (if go then set_session s (add_ul (dp_thread e) (word_of_nat (length pkt)) (sess_at (d_sw d1) s)) d1 else d1, go))"

text \<open>What the core side does with a packet: \<open>if (no_internal_loop(..)) send_to_core(..)\<close>.\<close>

definition to_core :: "dp_env \<Rightarrow> byte list \<Rightarrow> datapath_state \<Rightarrow> datapath_state option" where
  "to_core e pkt d =
     (if internal_dest (dp_cfg e) pkt then look_up_core e pkt False d else Some (send_to_core e pkt d))"

definition look_up_access ::
    "dp_env \<Rightarrow> byte list \<Rightarrow> payload \<Rightarrow> u32 \<Rightarrow> bool \<Rightarrow> datapath_state \<Rightarrow> datapath_state option" where
  "look_up_access e pkt peer teid released d =
     (if bypass_ul_pfcp_rules (dp_cfg e) then to_core e pkt d
      else case get_pfcp_ul_pdrs_by_up_teid (d_sw d) teid of
             None \<Rightarrow> Some (emit (ErrorIndication peer teid) d)
           | Some pdrs \<Rightarrow>
              (case match_ul e d pkt teid pdrs of
                 None \<Rightarrow> Some d
               | Some r \<Rightarrow>
                  (case rule_target (d_sw d) r of
                     None \<Rightarrow> Some d
                   | Some (s, f) \<Rightarrow>
                      (case ul_admit e r s pkt teid peer released d of
                         (d1, go) \<Rightarrow>
                          if \<not> go then Some d1
                          else (let v = fst (apply_forwarding_rules (dp_cfg e) (far_at (d_sw d) f) 0)
                           in if v = ToCore then to_core e pkt d1
                              else if v = NoForward then Some d1 else Some (emit (SendGPdu v pkt) d1))))))"

section \<open>Releasing held packets\<close>

text \<open>One held packet is forwarded: it is popped, looked up again, and its slot is freed.\<close>

definition release_one :: "dp_env \<Rightarrow> u64 \<Rightarrow> datapath_state \<Rightarrow> datapath_state option" where
  "release_one e now d =
     (case pop_front (dp_tie e) now (d_sq d) of (p, q') \<Rightarrow>
        let pkt = take (sp_len p) (slab q' (sp_slot p)); d1 = d\<lparr>d_sq := q'\<rparr>
        in map_option (\<lambda>d2. d2\<lparr>d_sq := free_slot (sp_slot p) (d_sq d2)\<rparr>)
             (if sp_teid p \<noteq> 0 then look_up_access e pkt (sp_peer p) (sp_teid p) True d1
              else look_up_core e pkt True d1))"

partial_function (option) release_loop :: "dp_env \<Rightarrow> u64 \<Rightarrow> datapath_state \<Rightarrow> datapath_state option" where
  "release_loop e now d =
     (if heap (d_sq d) \<noteq> [] \<and> sp_due (heap_front (dp_tie e) (heap (d_sq d))) \<le> now
      then Option.bind (release_one e now d) (release_loop e now)
      else Some d)"

text \<open>The result also says how long until the next packet is due; \<open>-1\<close> when none is held.\<close>

definition release_shaped :: "dp_env \<Rightarrow> datapath_state \<Rightarrow> (datapath_state \<times> int) option" where
  "release_shaped e d =
     (if \<not> d_shaping d \<or> heap (d_sq d) = [] then Some (d, -1)
      else case read_clock e d of (now, d1) \<Rightarrow>
        map_option (\<lambda>d2. (d2\<lparr>d_sq := (d_sq d2)\<lparr>queued := word_of_nat (length (heap (d_sq d2)))\<rparr>\<rparr>,
                          if heap (d_sq d2) = [] then -1
                          else sint (sp_due (heap_front (dp_tie e) (heap (d_sq d2))) - now)))
          (release_loop e now d1))"


section \<open>What the packet path leaves alone\<close>

definition same_forwarding :: "upf_switch \<Rightarrow> upf_switch \<Rightarrow> bool" where
  "same_forwarding sw sw' \<longleftrightarrow>
     up_seid2pfcp_sessions sw' = up_seid2pfcp_sessions sw \<and> ul_n3_teid2pfcp_pdr sw' = ul_n3_teid2pfcp_pdr sw \<and>
     ue_ipv4_hbo2pfcp_pdr sw' = ue_ipv4_hbo2pfcp_pdr sw \<and> far_heap sw' = far_heap sw \<and> fr_calls sw' = fr_calls sw \<and>
     (\<forall>r. (pdr_at sw' r)\<lparr>pdr_notified_cp := False\<rparr> = (pdr_at sw r)\<lparr>pdr_notified_cp := False\<rparr>) \<and>
     (\<forall>r. s_fars_view (sess_at sw' r) = s_fars_view (sess_at sw r))"

text \<open>One step of the path: the switch forwards as before, the clock moves on, packets are only added to
  the queue, due after \<open>T\<close>, and no slot is lost.\<close>

definition path_evolves :: "u64 \<Rightarrow> datapath_state \<Rightarrow> datapath_state \<Rightarrow> bool" where
  "path_evolves T d d' \<longleftrightarrow> same_forwarding (d_sw d) (d_sw d') \<and> d_reads d \<le> d_reads d' \<and>
     (\<exists>new. heap (d_sq d') = heap (d_sq d) @ new \<and> (\<forall>p\<in>set new. T < sp_due p)) \<and>
     (\<forall>out. slots_ok out (d_sq d) \<longrightarrow> slots_ok out (d_sq d'))"

text \<open>No reading of the clock from now on is before \<open>T\<close>.\<close>

definition clock_past :: "dp_env \<Rightarrow> u64 \<Rightarrow> datapath_state \<Rightarrow> bool" where
  "clock_past e T d \<longleftrightarrow> (\<forall>n\<ge>d_reads d. T \<le> dp_clock e n)"

lemma same_forwarding_refl [simp]: "same_forwarding sw sw"
  by (simp add: same_forwarding_def)

lemma same_forwarding_trans: "same_forwarding a b \<Longrightarrow> same_forwarding b c \<Longrightarrow> same_forwarding a c"
  by (simp add: same_forwarding_def)

lemma path_evolves_refl [simp]: "path_evolves T d d"
  by (simp add: path_evolves_def)

lemma path_evolves_trans [trans]: "path_evolves T a b \<Longrightarrow> path_evolves T b c \<Longrightarrow> path_evolves T a c"
  unfolding path_evolves_def by (auto intro: same_forwarding_trans)

lemma evolves_clock: "path_evolves T d d' \<Longrightarrow> clock_past e T d \<Longrightarrow> clock_past e T d'"
  by (auto simp: path_evolves_def clock_past_def)

lemma evolves_sw: "path_evolves T d d' \<Longrightarrow> same_forwarding (d_sw d) (d_sw d')"
  by (simp add: path_evolves_def)

lemma evolves_emit [simp]: "path_evolves T d (emit ev d)" "path_evolves T d (send_to_core e pkt d)"
  by (simp_all add: path_evolves_def emit_def send_to_core_def)

lemma evolves_only_sw: "same_forwarding (d_sw d) sw \<Longrightarrow> path_evolves T d (d\<lparr>d_sw := sw\<rparr>)"
  by (simp add: path_evolves_def)

lemma evolves_session: "s_fars_view s = s_fars_view (sess_at (d_sw d) r) \<Longrightarrow> path_evolves T d (set_session r s d)"
  unfolding set_session_def by (rule evolves_only_sw) (auto simp: same_forwarding_def sess_at_def)

lemma evolves_shaping [simp]: "path_evolves T d (d\<lparr>d_shaping := b\<rparr>)"
  by (simp add: path_evolves_def)

lemma charge_facts:
  assumes "charge e q len mw d = (due, d')" "clock_past e T d"
  shows "path_evolves T d d'" "due \<noteq> 0 \<Longrightarrow> due \<noteq> QOS_TOO_LATE \<Longrightarrow> T < due"
    "d_sq d' = d_sq d" "d_shaping d' = d_shaping d" "d_log d' = d_log d" "sess_heap (d_sw d') = sess_heap (d_sw d)"
proof -
  obtain m' bh' where a: "due_at (the (mbr_heap (d_sw d) q)) (buckets (d_sw d)) (dp_clock e (d_reads d)) (word_of_nat len) mw = (m', bh', due)"
    and d': "d' = d\<lparr>d_reads := Suc (d_reads d), d_sw := (d_sw d)\<lparr>mbr_heap := (mbr_heap (d_sw d))(q \<mapsto> m'), buckets := bh'\<rparr>\<rparr>"
    using assms(1) by (auto simp: charge_def read_clock_def split: prod.splits)
  show "path_evolves T d d'" by (simp add: d' path_evolves_def same_forwarding_def sess_at_def)
  show "d_sq d' = d_sq d" "d_shaping d' = d_shaping d" "d_log d' = d_log d" "sess_heap (d_sw d') = sess_heap (d_sw d)"
    by (simp_all add: d')
  assume due: "due \<noteq> 0" "due \<noteq> QOS_TOO_LATE"
  have r: "now < x" if "reserve b now n mw = (b', x, t)" "x \<noteq> 0" "x \<noteq> QOS_TOO_LATE" for b b' now n x t
    using that by (auto simp: reserve_contended_def reserve_try_def Let_def split: if_splits option.splits prod.splits)
  have "dp_clock e (d_reads d) < due"
    using a due by (auto simp: due_at_def Let_def dest: r split: prod.splits option.splits if_splits)
  then show "T < due" using assms(2) by (auto simp: clock_past_def intro: order.strict_trans1)
qed

lemma meter_facts:
  assumes "meter e q pkt teid peer d = (d', go)" "clock_past e T d"
  shows "path_evolves T d d'" "d_log d' = d_log d" "sess_heap (d_sw d') = sess_heap (d_sw d)"
proof -
  let ?d1 = "if \<not> d_shaping d \<and> teid \<noteq> 0 \<and> qos_shape_ul_ms (dp_cfg e) \<noteq> 0 then d\<lparr>d_shaping := True\<rparr> else d"
  let ?mw = "d_shaping ?d1 \<and> has_room (d_sq ?d1)"
  obtain due d2 where c: "charge e q (length pkt) ?mw ?d1 = (due, d2)" by fastforce
  have cl: "clock_past e T ?d1" using assms(2) by (simp add: clock_past_def)
  have e2: "path_evolves T d d2"
    using path_evolves_trans [OF _ charge_facts(1) [OF c cl], of d] evolves_shaping [of T d True] by (auto split: if_splits)
  note f = charge_facts [OF c cl]
  have base: "d_log d2 = d_log d" "sess_heap (d_sw d2) = sess_heap (d_sw d)" using f(5,6) by (auto split: if_splits)
  have drop: "path_evolves T d2 (d2\<lparr>d_sq := drop_packet (d_sq d2)\<rparr>)" by (simp add: path_evolves_def drop_packet_def slots_ok_def)
  have step: "path_evolves T d2 d' \<and> d_log d' = d_log d2 \<and> sess_heap (d_sw d') = sess_heap (d_sw d2)"
  proof (cases "due = QOS_TOO_LATE \<or> due = 0")
    case True
    then show ?thesis using assms(1) c drop by (auto simp: meter_def Let_def split: if_splits)
  next
    case False
    then have T: "T < due" using f(2) by blast
    obtain q' ok where h: "hold pkt due teid peer (d_sq d2) = (q', ok)" by fastforce
    have "path_evolves T d2 (d2\<lparr>d_sq := q'\<rparr>)"
      using h slots_ok_hold [of _ "d_sq d2" pkt due teid peer] T
      by (auto simp: path_evolves_def hold_def Let_def split: if_splits)
    moreover have "q' = d_sq d2" if "\<not> ok" using h that by (auto simp: hold_def Let_def split: if_splits)
    ultimately show ?thesis using assms(1) c h False drop
      by (cases ok) (auto simp: meter_def Let_def)
  qed
  show "path_evolves T d d'" using step e2 by (blast intro: path_evolves_trans)
  show "d_log d' = d_log d" "sess_heap (d_sw d') = sess_heap (d_sw d)" using step base by auto
qed


lemma metered_facts:
  assumes "metered e r released pkt teid peer d = (d', go)" "clock_past e T d"
  shows "path_evolves T d d'" "d_log d' = d_log d" "sess_heap (d_sw d') = sess_heap (d_sw d)"
  using assms meter_facts by (auto simp: metered_def split: option.splits if_splits)

lemma dl_admit_facts:
  assumes "dl_admit e r s pkt released d = (d', go)" "clock_past e T d"
  shows "path_evolves T d d'" "d_log d' = d_log d"
proof -
  obtain d1 where m: "metered e r released pkt 0 [] d = (d1, go)"
    and d': "d' = (if go then set_session s (add_dl (dp_thread e) (word_of_nat (length pkt)) (sess_at (d_sw d1) s)) d1 else d1)"
    using assms(1) by (auto simp: dl_admit_def split: prod.splits)
  have "path_evolves T d1 d'" unfolding d' by (auto intro!: evolves_session simp: add_dl_def Let_def)
  with metered_facts [OF m assms(2)] show "path_evolves T d d'" by (blast intro: path_evolves_trans)
  show "d_log d' = d_log d" using metered_facts(2) [OF m assms(2)] by (simp add: d' set_session_def)
qed

lemma ul_admit_facts:
  assumes "ul_admit e r s pkt teid peer released d = (d', go)" "clock_past e T d"
  shows "path_evolves T d d'" "d_log d' = d_log d"
proof -
  let ?d0 = "set_session s ((sess_at (d_sw d) s)\<lparr>s_qfi := ie_val (pdi_qfi (ie_val (pdr_pdi (pdr_at (d_sw d) r))))\<rparr>) d"
  obtain d1 where m: "metered e r released pkt teid peer ?d0 = (d1, go)"
    and d': "d' = (if go then set_session s (add_ul (dp_thread e) (word_of_nat (length pkt)) (sess_at (d_sw d1) s)) d1 else d1)"
    using assms(1) by (auto simp: ul_admit_def Let_def split: prod.splits)
  have e0: "path_evolves T d ?d0" by (rule evolves_session) simp
  note f = metered_facts [OF m evolves_clock [OF e0 assms(2)]]
  have "path_evolves T d1 d'" unfolding d' by (auto intro!: evolves_session simp: add_ul_def Let_def)
  with e0 f(1) show "path_evolves T d d'" by (blast intro: path_evolves_trans)
  show "d_log d' = d_log d" using f(2) by (simp add: d' set_session_def)
qed

lemma evolves_flags [simp]: "path_evolves T d (raise_flags r s pkt nocp buff d)"
proof -
  have "path_evolves T d (notify_cp r s d)" for d
    unfolding notify_cp_def notify_cp_requested_def
    by (auto simp: Let_def intro!: evolves_only_sw) (auto simp: same_forwarding_def sess_at_def)
  then show ?thesis by (auto simp: raise_flags_def Let_def intro: path_evolves_trans evolves_emit)
qed

text \<open>Partial correctness of the look-up that may call itself.\<close>

lemma look_up_core_evolves:
  assumes "look_up_core e pkt released d = Some d'" "clock_past e T d"
  shows "path_evolves T d d'"
proof -
  have "clock_past e T d \<longrightarrow> path_evolves T d d'"
  proof (rule look_up_core.raw_induct [where P = "\<lambda>e pkt released d d'. clock_past e T d \<longrightarrow> path_evolves T d d'", OF _ assms(1)], intro impI)
    fix luc e pkt released d d'
    assume IH: "\<And>e pkt released d d'. luc e pkt released d = Some d' \<Longrightarrow> clock_past e T d \<longrightarrow> path_evolves T d d'"
      and run: "(if ip_version pkt = 4
      then (case find_dl_pdrs e d (bswap32 (iph_daddr pkt)) of
              None \<Rightarrow> Some d
            | Some pdrs \<Rightarrow>
               (case match_dl e d pkt pdrs of
                  None \<Rightarrow> Some d
                | Some r \<Rightarrow>
                   (case rule_target (d_sw d) r of
                      None \<Rightarrow> Some d
                    | Some (s, f) \<Rightarrow>
                       (case dl_admit e r s pkt released d of
                          (d1, go) \<Rightarrow>
                           if \<not> go then Some d1
                           else (case apply_forwarding_rules (dp_cfg e) (far_at (d_sw d) f) (tx_qfi (d_sw d) r s) of
                              (v, nocp, buff) \<Rightarrow>
                                Option.bind
                                  (if v = ToCore
                                   then if internal_dest (dp_cfg e) pkt then luc e pkt False d1
                                        else Some (send_to_core e pkt d1)
                                   else if v = NoForward then Some d1 else Some (emit (SendGPdu v pkt) d1))
                                  (\<lambda>d2. Some (raise_flags r s pkt nocp buff d2)))))))
      else Some d) = Some d'" and cl: "clock_past e T d"
    show "path_evolves T d d'"
    proof (cases "d' = d")
      case False
      then obtain pdrs r s f where m: "ip_version pkt = 4" "find_dl_pdrs e d (bswap32 (iph_daddr pkt)) = Some pdrs"
          "match_dl e d pkt pdrs = Some r"
          "rule_target (d_sw d) r = Some (s, f)"
        using run by (auto split: if_splits option.splits)
      obtain d1 go v nocp buff where a: "dl_admit e r s pkt released d = (d1, go)"
          and v: "apply_forwarding_rules (dp_cfg e) (far_at (d_sw d) f) (tx_qfi (d_sw d) r s) = (v, nocp, buff)"
        by (meson prod_cases3 surj_pair)
      note e1 = dl_admit_facts(1) [OF a cl]
      show ?thesis
      proof (cases go)
        case False
        then show ?thesis using run m a e1 by simp
      next
        case True
        let ?mid = "if v = ToCore then if internal_dest (dp_cfg e) pkt then luc e pkt False d1 else Some (send_to_core e pkt d1)
          else if v = NoForward then Some d1 else Some (emit (SendGPdu v pkt) d1)"
        have "Option.bind ?mid (\<lambda>d2. Some (raise_flags r s pkt nocp buff d2)) = Some d'"
          using run m a v True by simp
        then obtain d2 where d2: "?mid = Some d2" and d': "d' = raise_flags r s pkt nocp buff d2"
          by (auto simp: bind_eq_Some_conv)
        have "path_evolves T d1 d2"
          using d2 IH [of e pkt False d1 d2] evolves_clock [OF e1 cl] by (auto split: if_splits)
        then show ?thesis using e1 d' by (blast intro: path_evolves_trans evolves_flags)
      qed
    qed simp
  qed
  with assms(2) show ?thesis by blast
qed


section \<open>The look-ups return\<close>

text \<open>No rule a downlink look-up can choose sends its packets on to the core side.\<close>

definition no_core_loop :: "upf_env \<Rightarrow> upf_switch \<Rightarrow> bool" where
  "no_core_loop cfg sw \<longleftrightarrow>
     (\<forall>ue pdrs r s f q. get_pfcp_dl_pdrs_by_ue_ip sw ue = Some pdrs \<and> r \<in> set pdrs \<and> rule_target sw r = Some (s, f) \<longrightarrow>
        fst (apply_forwarding_rules cfg (far_at sw f) q) \<noteq> ToCore)"

lemma rule_fields:
  assumes "same_forwarding sw sw'"
  shows "pdr_local_seid (pdr_at sw' r) = pdr_local_seid (pdr_at sw r)"
    "pdr_far_id (pdr_at sw' r) = pdr_far_id (pdr_at sw r)" "pdr_qos (pdr_at sw' r) = pdr_qos (pdr_at sw r)"
    "pdr_tx_qfi (pdr_at sw' r) = pdr_tx_qfi (pdr_at sw r)" "pdr_precedence (pdr_at sw' r) = pdr_precedence (pdr_at sw r)"
    "pdr_sdf (pdr_at sw' r) = pdr_sdf (pdr_at sw r)" "pdr_pdi (pdr_at sw' r) = pdr_pdi (pdr_at sw r)"
    "pdr_outer_header_removal (pdr_at sw' r) = pdr_outer_header_removal (pdr_at sw r)"
proof -
  have eq: "(pdr_at sw' r)\<lparr>pdr_notified_cp := False\<rparr> = (pdr_at sw r)\<lparr>pdr_notified_cp := False\<rparr>"
    using assms by (simp add: same_forwarding_def)
  show "pdr_local_seid (pdr_at sw' r) = pdr_local_seid (pdr_at sw r)"
    "pdr_far_id (pdr_at sw' r) = pdr_far_id (pdr_at sw r)" "pdr_qos (pdr_at sw' r) = pdr_qos (pdr_at sw r)"
    "pdr_tx_qfi (pdr_at sw' r) = pdr_tx_qfi (pdr_at sw r)" "pdr_precedence (pdr_at sw' r) = pdr_precedence (pdr_at sw r)"
    "pdr_sdf (pdr_at sw' r) = pdr_sdf (pdr_at sw r)" "pdr_pdi (pdr_at sw' r) = pdr_pdi (pdr_at sw r)"
    "pdr_outer_header_removal (pdr_at sw' r) = pdr_outer_header_removal (pdr_at sw r)"
    using eq by (cases "pdr_at sw' r"; cases "pdr_at sw r"; simp)+
qed

lemma same_rule_target: "same_forwarding sw sw' \<Longrightarrow> rule_target sw' r = rule_target sw r"
proof -
  assume s: "same_forwarding sw sw'"
  then have g: "get_pfcp_session_by_up_seid sw' = get_pfcp_session_by_up_seid sw" and f: "far_heap sw' = far_heap sw"
    and v: "\<And>x. s_fars_view (sess_at sw' x) = s_fars_view (sess_at sw x)"
    by (simp_all add: same_forwarding_def get_pfcp_session_by_up_seid_def fun_eq_iff)
  show ?thesis unfolding rule_target_def find_far_def rule_fields [OF s] g f v ..
qed

lemma same_tables: "same_forwarding sw sw' \<Longrightarrow> get_pfcp_dl_pdrs_by_ue_ip sw' = get_pfcp_dl_pdrs_by_ue_ip sw \<and>
    get_pfcp_ul_pdrs_by_up_teid sw' = get_pfcp_ul_pdrs_by_up_teid sw \<and> far_heap sw' = far_heap sw"
  by (simp add: same_forwarding_def get_pfcp_dl_pdrs_by_ue_ip_def get_pfcp_ul_pdrs_by_up_teid_def fun_eq_iff)

lemma same_dl: "same_forwarding (d_sw d) (d_sw d') \<Longrightarrow> find_dl_pdrs e d' ue = find_dl_pdrs e d ue"
proof -
  assume s: "same_forwarding (d_sw d) (d_sw d')"
  then have f: "fr_now e d' = fr_now e d" by (simp add: fr_now_def same_forwarding_def)
  have t: "get_pfcp_dl_pdrs_by_ue_ip (d_sw d') = get_pfcp_dl_pdrs_by_ue_ip (d_sw d)" using same_tables [OF s] by simp
  show ?thesis unfolding find_dl_pdrs_def f t ..
qed

lemma same_in_core: "same_forwarding sw sw' \<Longrightarrow>
    look_up_pack_in_core cfg (pdr_at sw' r) pkt n = look_up_pack_in_core cfg (pdr_at sw r) pkt n"
  by (simp only: look_up_pack_in_core_def pdi_ue_ipv4_def rule_fields)

lemma no_core_loop_cong: "same_forwarding sw sw' \<Longrightarrow> no_core_loop cfg sw \<Longrightarrow> no_core_loop cfg sw'"
  using same_tables [of sw sw'] same_rule_target [of sw sw'] unfolding no_core_loop_def by metis

lemma find_dl_in_table: "find_dl_pdrs e d ue = Some pdrs \<Longrightarrow> \<exists>ue'. get_pfcp_dl_pdrs_by_ue_ip (d_sw d) ue' = Some pdrs"
  by (auto simp: find_dl_pdrs_def Let_def split: option.splits if_splits)

lemma look_up_core_returns:
  assumes "no_core_loop (dp_cfg e) (d_sw d)"
  shows "\<exists>d'. look_up_core e pkt released d = Some d'"
proof (cases "find_dl_pdrs e d (bswap32 (iph_daddr pkt))")
  case (Some pdrs)
  show ?thesis
  proof (cases "match_dl e d pkt pdrs")
    case r: (Some r)
    then have "r \<in> set pdrs" by (auto simp: match_dl_def find_Some_iff)
    then have "fst (apply_forwarding_rules (dp_cfg e) (far_at (d_sw d) f) q) \<noteq> ToCore" if "rule_target (d_sw d) r = Some (s, f)" for s f q
      using assms that find_dl_in_table [OF Some] unfolding no_core_loop_def by blast
    note target = this
    show ?thesis
    proof (cases "rule_target (d_sw d) r")
      case t: (Some sf)
      then obtain s f where sf: "rule_target (d_sw d) r = Some (s, f)" by (cases sf) auto
      obtain d1 go v nocp buff where "dl_admit e r s pkt released d = (d1, go)"
          and v: "apply_forwarding_rules (dp_cfg e) (far_at (d_sw d) f) (tx_qfi (d_sw d) r s) = (v, nocp, buff)"
        by (meson prod_cases3 surj_pair)
      moreover have "v \<noteq> ToCore" using target [OF sf, of "tx_qfi (d_sw d) r s"] by (simp add: v)
      ultimately show ?thesis by (subst look_up_core.simps) (simp add: Some r sf)
    qed (subst look_up_core.simps, simp add: Some r)
  qed (subst look_up_core.simps, simp add: Some)
qed (subst look_up_core.simps, simp)

lemma to_core_returns:
  assumes "no_core_loop (dp_cfg e) (d_sw d)" "clock_past e T d"
  shows "\<exists>d'. to_core e pkt d = Some d' \<and> path_evolves T d d'"
  using look_up_core_returns [OF assms(1)] look_up_core_evolves assms(2)
  by (auto simp: to_core_def) blast

lemma look_up_access_returns:
  assumes "no_core_loop (dp_cfg e) (d_sw d)" "clock_past e T d"
  shows "\<exists>d'. look_up_access e pkt peer teid released d = Some d' \<and> path_evolves T d d'"
proof (cases "bypass_ul_pfcp_rules (dp_cfg e)")
  case True
  with to_core_returns [OF assms] show ?thesis by (simp add: look_up_access_def)
next
  case False
  note un = look_up_access_def [of e pkt peer teid released d]
  show ?thesis
  proof (cases "get_pfcp_ul_pdrs_by_up_teid (d_sw d) teid")
    case (Some pdrs)
    show ?thesis
    proof (cases "match_ul e d pkt teid pdrs")
      case r: (Some r)
      show ?thesis
      proof (cases "rule_target (d_sw d) r")
        case t: (Some sf)
        obtain s f where sf: "sf = (s, f)" by fastforce
        obtain d1 go where a: "ul_admit e r s pkt teid peer released d = (d1, go)" by fastforce
        note e1 = ul_admit_facts(1) [OF a assms(2)]
        note n1 = no_core_loop_cong [OF evolves_sw [OF e1] assms(1)]
        from to_core_returns [OF n1 evolves_clock [OF e1 assms(2)], of pkt]
        obtain d2 where "to_core e pkt d1 = Some d2" "path_evolves T d1 d2" by blast
        then show ?thesis using path_evolves_trans [OF e1] e1 path_evolves_trans [OF e1 evolves_emit(1)]
          by (simp add: un False Some r t sf a Let_def)
      qed (simp add: un False Some r)
    qed (simp add: un False Some)
  qed (simp add: un False)
qed

section \<open>Releasing\<close>

definition due_now :: "u64 \<Rightarrow> datapath_state \<Rightarrow> nat" where
  "due_now now d = length (filter (\<lambda>p. sp_due p \<le> now) (heap (d_sq d)))"

lemma release_one_returns:
  assumes loop: "no_core_loop (dp_cfg e) (d_sw d)" and cl: "clock_past e now d" and h: "heap (d_sq d) \<noteq> []"
    and front: "sp_due (heap_front (dp_tie e) (heap (d_sq d))) \<le> now" and ok: "slots_ok [] (d_sq d)"
  shows "\<exists>d'. release_one e now d = Some d' \<and> same_forwarding (d_sw d) (d_sw d') \<and> clock_past e now d' \<and>
    d_reads d \<le> d_reads d' \<and> slots_ok [] (d_sq d') \<and> due_now now d' < due_now now d"
proof -
  obtain p q' where pop: "pop_front (dp_tie e) now (d_sq d) = (p, q')" by fastforce
  let ?d1 = "d\<lparr>d_sq := q'\<rparr>" and ?pkt = "take (sp_len p) (slab q' (sp_slot p))"
  have q': "heap q' = remove1 p (heap (d_sq d))" and pf: "p = heap_front (dp_tie e) (heap (d_sq d))"
    using pop by (auto simp: pop_front_def Let_def)
  have n1: "no_core_loop (dp_cfg e) (d_sw ?d1)" and c1: "clock_past e now ?d1" using loop cl by (simp_all add: clock_past_def)
  obtain d2 where d2: "(if sp_teid p \<noteq> 0 then look_up_access e ?pkt (sp_peer p) (sp_teid p) True ?d1 else look_up_core e ?pkt True ?d1) = Some d2"
    and e2: "path_evolves now ?d1 d2"
    using look_up_access_returns [OF n1 c1, of ?pkt "sp_peer p" "sp_teid p" True]
      look_up_core_returns [OF n1, of ?pkt True] look_up_core_evolves [OF _ c1, of ?pkt True]
    by (cases "sp_teid p \<noteq> 0") auto
  let ?d' = "d2\<lparr>d_sq := free_slot (sp_slot p) (d_sq d2)\<rparr>"
  have "release_one e now d = Some ?d'" using d2 by (simp add: release_one_def pop Let_def)
  moreover have "same_forwarding (d_sw d) (d_sw ?d')" "d_reads d \<le> d_reads ?d'" using e2 by (simp_all add: path_evolves_def)
  moreover have "clock_past e now ?d'" using evolves_clock [OF e2 c1] by (simp add: clock_past_def)
  moreover have "slots_ok [] (d_sq ?d')"
  proof -
    have "slots_ok [sp_slot p] q'" using slots_ok_pop [OF ok h pop] .
    then have "slots_ok [sp_slot p] (d_sq d2)" using e2 by (simp add: path_evolves_def)
    then show ?thesis using slots_ok_free by simp
  qed
  moreover have "due_now now ?d' < due_now now d"
  proof -
    obtain new where new: "heap (d_sq d2) = heap q' @ new" "\<forall>x\<in>set new. now < sp_due x" using e2 by (auto simp: path_evolves_def)
    have "filter (\<lambda>x. sp_due x \<le> now) new = []" using new(2) by (auto simp: filter_empty_conv)
    then have "due_now now ?d' = length (filter (\<lambda>x. sp_due x \<le> now) (remove1 p (heap (d_sq d))))"
      using new(1) q' by (simp add: due_now_def free_slot_def)
    also have "\<dots> = length (remove1 p (filter (\<lambda>x. sp_due x \<le> now) (heap (d_sq d))))"
      by (simp only: filter_remove1)
    also have "\<dots> < due_now now d"
    proof -
      have "p \<in> set (filter (\<lambda>x. sp_due x \<le> now) (heap (d_sq d)))"
        using heap_front_least [OF h, of "dp_tie e"] front by (simp add: pf)
      then show ?thesis unfolding due_now_def
        by (simp add: length_remove1) (metis (no_types, lifting) Suc_pred filter_empty_conv length_greater_0_conv lessI set_filter)
    qed
    finally show ?thesis .
  qed
  ultimately show ?thesis by blast
qed

lemma release_loop_returns:
  assumes "no_core_loop (dp_cfg e) (d_sw d)" "clock_past e now d" "slots_ok [] (d_sq d)"
  shows "\<exists>d'. release_loop e now d = Some d' \<and> slots_ok [] (d_sq d') \<and> (\<forall>p\<in>set (heap (d_sq d')). now < sp_due p)"
  using assms
proof (induction "due_now now d" arbitrary: d rule: less_induct)
  case less
  show ?case
  proof (cases "heap (d_sq d) \<noteq> [] \<and> sp_due (heap_front (dp_tie e) (heap (d_sq d))) \<le> now")
    case True
    from release_one_returns [OF less.prems(1,2) conjunct1 [OF True] conjunct2 [OF True] less.prems(3)]
    obtain d1 where d1: "release_one e now d = Some d1" "same_forwarding (d_sw d) (d_sw d1)" "clock_past e now d1"
      "slots_ok [] (d_sq d1)" "due_now now d1 < due_now now d" by blast
    from less.hyps [OF d1(5) no_core_loop_cong [OF d1(2) less.prems(1)] d1(3,4)] True d1(1)
    show ?thesis by (subst release_loop.simps) simp
  next
    case False
    have "now < sp_due p" if "p \<in> set (heap (d_sq d))" for p
    proof -
      have "heap (d_sq d) \<noteq> []" using that by auto
      then have "\<not> sp_due (heap_front (dp_tie e) (heap (d_sq d))) \<le> now"
        "sp_due (heap_front (dp_tie e) (heap (d_sq d))) \<le> sp_due p"
        using False heap_front_least [of "heap (d_sq d)" "dp_tie e"] that by auto
      then show ?thesis by (metis leI order.strict_trans2)
    qed
    then show ?thesis using False less.prems(3) by (subst release_loop.simps) auto
  qed
qed


section \<open>Properties\<close>

text \<open>C25: the shaper never stalls and never leaks. When no downlink rule sends packets to the core side
  and the clock does not run backwards, releasing held packets returns, every packet that was due has
  left the queue, and every slot of the slab is again either free or holds one waiting packet.\<close>

theorem shaped_packets_are_released:
  assumes "no_core_loop (dp_cfg e) (d_sw d)" "\<forall>n\<ge>d_reads d. dp_clock e (d_reads d) \<le> dp_clock e n"
    "d_shaping d" "slots_ok [] (d_sq d)"
  shows "\<exists>d' wait. release_shaped e d = Some (d', wait) \<and> slots_ok [] (d_sq d') \<and>
    (\<forall>p\<in>set (heap (d_sq d')). dp_clock e (d_reads d) < sp_due p)"
proof (cases "heap (d_sq d) = []")
  case True
  with assms show ?thesis by (simp add: release_shaped_def)
next
  case False
  let ?d1 = "d\<lparr>d_reads := Suc (d_reads d)\<rparr>"
  have "clock_past e (dp_clock e (d_reads d)) ?d1" using assms(2) by (simp add: clock_past_def)
  from release_loop_returns [of e ?d1, OF _ this] assms(1,4)
  obtain d2 where "release_loop e (dp_clock e (d_reads d)) ?d1 = Some d2" "slots_ok [] (d_sq d2)"
    "\<forall>p\<in>set (heap (d_sq d2)). dp_clock e (d_reads d) < sp_due p" by auto
  then show ?thesis using False assms(3)
    by (simp add: release_shaped_def read_clock_def slots_ok_def)
qed

text \<open>C9: looking a packet up ends. When no downlink rule sends packets to the core side, the uplink and
  the downlink look-up return for every packet, leave tables, rules and FARs as they were, only add
  packets to the shaping queue and lose none of its slots.\<close>

theorem packet_look_ups_return:
  assumes "no_core_loop (dp_cfg e) (d_sw d)"
  shows "(\<exists>d'. look_up_access e pkt peer teid released d = Some d' \<and> path_evolves 0 d d') \<and>
         (\<exists>d'. look_up_core e pkt released d = Some d' \<and> path_evolves 0 d d')"
proof -
  have c: "clock_past e 0 d" by (simp add: clock_past_def)
  from look_up_access_returns [OF assms c] look_up_core_returns [OF assms] look_up_core_evolves [OF _ c]
  show ?thesis by blast
qed

text \<open>The matched downlink rule forwards to the core side, and the packet is for a UE.\<close>

definition core_loop :: "dp_env \<Rightarrow> datapath_state \<Rightarrow> byte list \<Rightarrow> bool" where
  "core_loop e d pkt \<longleftrightarrow> ip_version pkt = 4 \<and> internal_dest (dp_cfg e) pkt \<and>
     (\<exists>pdrs r s f. find_dl_pdrs e d (bswap32 (iph_daddr pkt)) = Some pdrs \<and> match_dl e d pkt pdrs = Some r \<and>
        pdr_qos (pdr_at (d_sw d) r) = None \<and> rule_target (d_sw d) r = Some (s, f) \<and>
        fst (apply_forwarding_rules (dp_cfg e) (far_at (d_sw d) f) 0) = ToCore)"

lemma to_core_qfi: "fst (apply_forwarding_rules cfg f q) = ToCore \<longleftrightarrow> fst (apply_forwarding_rules cfg f 0) = ToCore"
  by (auto simp: apply_forwarding_rules_def forward_def encapsulate_def Let_def split: ohc_description.splits)

lemma core_loop_cong: "same_forwarding (d_sw d) (d_sw d') \<Longrightarrow> core_loop e d pkt \<Longrightarrow> core_loop e d' pkt"
proof -
  assume s: "same_forwarding (d_sw d) (d_sw d')"
  have "match_dl e d' pkt pdrs = match_dl e d pkt pdrs" for pdrs by (simp add: match_dl_def same_in_core [OF s])
  moreover have "far_heap (d_sw d') = far_heap (d_sw d)" using same_tables [OF s] by simp
  ultimately show "core_loop e d pkt \<Longrightarrow> core_loop e d' pkt"
    unfolding core_loop_def by (simp only: same_dl [OF s] rule_fields [OF s] same_rule_target [OF s])
qed

text \<open>The look-up of a downlink packet whose rule, without a rate limit, forwards to the core side while
  the packet is addressed to a UE never returns: \<open>no_internal_loop\<close> looks the packet up again, and the
  same rule answers.\<close>

lemma core_loop_never_returns:
  assumes "core_loop e d pkt"
  shows "look_up_core e pkt released d = None"
proof (rule ccontr)
  assume "look_up_core e pkt released d \<noteq> None"
  then obtain d' where ret: "look_up_core e pkt released d = Some d'" by auto
  have "\<not> core_loop e d pkt"
  proof (rule look_up_core.raw_induct [where P = "\<lambda>e pkt released d d'. \<not> core_loop e d pkt", OF _ ret], rule notI)
    fix luc e pkt released d d'
    assume IH: "\<And>e pkt released d d'. luc e pkt released d = Some d' \<Longrightarrow> \<not> core_loop e d pkt"
      and run: "(if ip_version pkt = 4
      then (case find_dl_pdrs e d (bswap32 (iph_daddr pkt)) of
              None \<Rightarrow> Some d
            | Some pdrs \<Rightarrow>
               (case match_dl e d pkt pdrs of
                  None \<Rightarrow> Some d
                | Some r \<Rightarrow>
                   (case rule_target (d_sw d) r of
                      None \<Rightarrow> Some d
                    | Some (s, f) \<Rightarrow>
                       (case dl_admit e r s pkt released d of
                          (d1, go) \<Rightarrow>
                           if \<not> go then Some d1
                           else (case apply_forwarding_rules (dp_cfg e) (far_at (d_sw d) f) (tx_qfi (d_sw d) r s) of
                              (v, nocp, buff) \<Rightarrow>
                                Option.bind
                                  (if v = ToCore
                                   then if internal_dest (dp_cfg e) pkt then luc e pkt False d1
                                        else Some (send_to_core e pkt d1)
                                   else if v = NoForward then Some d1 else Some (emit (SendGPdu v pkt) d1))
                                  (\<lambda>d2. Some (raise_flags r s pkt nocp buff d2)))))))
      else Some d) = Some d'" and loop: "core_loop e d pkt"
    from loop obtain pdrs r s f where m: "ip_version pkt = 4" "internal_dest (dp_cfg e) pkt"
        "find_dl_pdrs e d (bswap32 (iph_daddr pkt)) = Some pdrs" "match_dl e d pkt pdrs = Some r"
        "pdr_qos (pdr_at (d_sw d) r) = None" "rule_target (d_sw d) r = Some (s, f)"
        "fst (apply_forwarding_rules (dp_cfg e) (far_at (d_sw d) f) 0) = ToCore"
      unfolding core_loop_def by blast
    obtain v nocp buff where v: "apply_forwarding_rules (dp_cfg e) (far_at (d_sw d) f) (tx_qfi (d_sw d) r s) = (v, nocp, buff)"
      by (meson prod_cases3)
    have "v = ToCore" using to_core_qfi [of "dp_cfg e" "far_at (d_sw d) f" "tx_qfi (d_sw d) r s"] m(7) by (simp add: v)
    moreover obtain d1 where a: "dl_admit e r s pkt released d = (d1, True)" by (simp add: dl_admit_def metered_def m(5))
    ultimately obtain d2 where "luc e pkt False d1 = Some d2" using run m v by (auto simp: bind_eq_Some_conv)
    then have "\<not> core_loop e d1 pkt" by (rule IH)
    moreover have "clock_past e 0 d" by (simp add: clock_past_def)
    ultimately show False using core_loop_cong [OF evolves_sw [OF dl_admit_facts(1) [OF a]] loop] by blast
  qed
  with assms show False by blast
qed

lemma find_least:
  assumes "sorted_wrt (\<lambda>a b. f a \<le> (f b :: 'b::linorder)) xs" "x \<in> set xs" "P x"
  shows "\<exists>r. find P xs = Some r \<and> P r \<and> r \<in> set xs \<and> f r \<le> f x"
  using assms by (induction xs) auto



lemma metered_counts:
  assumes "metered e r released pkt teid peer d = (d', go)"
  shows "go \<or> pdr_qos (pdr_at (d_sw d) r) \<noteq> None \<and> \<not> released"
  using assms by (auto simp: metered_def split: option.splits if_splits)

text \<open>An uplink packet is counted exactly when it is forwarded. Its matched rule being bound to a
  session and a FAR towards the core, the packet is either written to the tun queue of its flow, and
  the uplink octets of that session grow by its length, or the rate of the rule held or dropped it,
  and then neither the counters nor the output change. No other session is touched.\<close>

lemma uplink_counted_when_forwarded:
  assumes "\<not> bypass_ul_pfcp_rules (dp_cfg e)" "get_pfcp_ul_pdrs_by_up_teid (d_sw d) teid = Some pdrs"
    "match_ul e d pkt teid pdrs = Some r" "rule_target (d_sw d) r = Some (s, f)"
    "fst (apply_forwarding_rules (dp_cfg e) (far_at (d_sw d) f) 0) = ToCore" "\<not> internal_dest (dp_cfg e) pkt"
    "length (s_counters (sess_at (d_sw d) s)) = COUNTER_SHARDS"
  shows "\<exists>d'. look_up_access e pkt peer teid released d = Some d' \<and>
    (\<forall>s'. s' \<noteq> s \<longrightarrow> sess_heap (d_sw d') s' = sess_heap (d_sw d) s') \<and>
    total_dl_octets (sess_at (d_sw d') s) = total_dl_octets (sess_at (d_sw d) s) \<and>
    (d_log d' = d_log d @ [WriteTun (tun_tx_fd e pkt) pkt] \<and>
       total_ul_octets (sess_at (d_sw d') s) = total_ul_octets (sess_at (d_sw d) s) + word_of_nat (length pkt) \<or>
     d_log d' = d_log d \<and> total_ul_octets (sess_at (d_sw d') s) = total_ul_octets (sess_at (d_sw d) s) \<and>
       pdr_qos (pdr_at (d_sw d) r) \<noteq> None \<and> \<not> released)"
proof -
  let ?s0 = "(sess_at (d_sw d) s)\<lparr>s_qfi := ie_val (pdi_qfi (ie_val (pdr_pdi (pdr_at (d_sw d) r))))\<rparr>"
  let ?d0 = "set_session s ?s0 d"
  obtain d1 go where m: "metered e r released pkt teid peer ?d0 = (d1, go)" by fastforce
  have c: "clock_past e 0 ?d0" by (simp add: clock_past_def)
  note f = metered_facts(2,3) [OF m c]
  have heap1: "sess_heap (d_sw d1) = (sess_heap (d_sw d))(s \<mapsto> ?s0)" "d_log d1 = d_log d"
    using f by (simp_all add: set_session_def)
  let ?d2 = "set_session s (add_ul (dp_thread e) (word_of_nat (length pkt)) (sess_at (d_sw d1) s)) d1"
  have a: "ul_admit e r s pkt teid peer released d = (if go then ?d2 else d1, go)"
    using m by (simp add: ul_admit_def Let_def)
  have run: "look_up_access e pkt peer teid released d = Some (if go then send_to_core e pkt ?d2 else d1)"
    using assms(1-6) a by (simp add: look_up_access_def to_core_def Let_def)
  have tot: "total_ul_octets (sess_at (d_sw d1) s) = total_ul_octets (sess_at (d_sw d) s)"
    "total_dl_octets (sess_at (d_sw d1) s) = total_dl_octets (sess_at (d_sw d) s)"
    "length (s_counters (sess_at (d_sw d1) s)) = COUNTER_SHARDS"
    using assms(7) by (simp_all add: sess_at_def heap1 total_ul_octets_def total_dl_octets_def)
  have sess2: "sess_heap (d_sw (send_to_core e pkt ?d2)) =
      (sess_heap (d_sw d1))(s \<mapsto> add_ul (dp_thread e) (word_of_nat (length pkt)) (sess_at (d_sw d1) s))"
    by (simp add: send_to_core_def emit_def set_session_def)
  show ?thesis
  proof (cases go)
    case True
    then show ?thesis using run sess2 heap1 tot total_add [OF tot(3)]
      by (simp add: send_to_core_def emit_def set_session_def sess_at_def)
  next
    case False
    with metered_counts [OF m] have "pdr_qos (pdr_at (d_sw d) r) \<noteq> None \<and> \<not> released"
      by (simp add: set_session_def)
    with False run heap1 tot show ?thesis by simp
  qed
qed

text \<open>A downlink packet leaves in the tunnel its FAR names. Its matched rule being bound to a session
  and a FAR that encapsulates towards an IPv4 peer, the packet is either sent with the address and
  TEID of the FAR and the QFI of the rule, and the downlink octets of the session grow by its length,
  or the rate of the rule held or dropped it, and nothing is sent or counted.\<close>

lemma downlink_counted_when_forwarded:
  assumes "ip_version pkt = 4" "find_dl_pdrs e d (bswap32 (iph_daddr pkt)) = Some pdrs"
    "match_dl e d pkt pdrs = Some r" "rule_target (d_sw d) r = Some (s, f)"
    "apply_forwarding_rules (dp_cfg e) (far_at (d_sw d) f) (tx_qfi (d_sw d) r s) = (SendGPduV4 addr port teid qfi tos, False, False)"
    "length (s_counters (sess_at (d_sw d) s)) = COUNTER_SHARDS"
  shows "qfi = tx_qfi (d_sw d) r s \<and> (\<exists>d'. look_up_core e pkt released d = Some d' \<and>
    (\<forall>s'. s' \<noteq> s \<longrightarrow> sess_heap (d_sw d') s' = sess_heap (d_sw d) s') \<and>
    total_ul_octets (sess_at (d_sw d') s) = total_ul_octets (sess_at (d_sw d) s) \<and>
    (d_log d' = d_log d @ [SendGPdu (SendGPduV4 addr port teid qfi tos) pkt] \<and>
       total_dl_octets (sess_at (d_sw d') s) = total_dl_octets (sess_at (d_sw d) s) + word_of_nat (length pkt) \<or>
     d_log d' = d_log d \<and> total_dl_octets (sess_at (d_sw d') s) = total_dl_octets (sess_at (d_sw d) s) \<and>
       pdr_qos (pdr_at (d_sw d) r) \<noteq> None \<and> \<not> released))"
proof
  show "qfi = tx_qfi (d_sw d) r s"
    using assms(5) by (auto simp: apply_forwarding_rules_def forward_def encapsulate_def Let_def split: if_splits ohc_description.splits)
  obtain d1 go where m: "metered e r released pkt 0 [] d = (d1, go)" by fastforce
  have c: "clock_past e 0 d" by (simp add: clock_past_def)
  note f = metered_facts(2,3) [OF m c]
  let ?d2 = "set_session s (add_dl (dp_thread e) (word_of_nat (length pkt)) (sess_at (d_sw d1) s)) d1"
  have a: "dl_admit e r s pkt released d = (if go then ?d2 else d1, go)" using m by (simp add: dl_admit_def)
  have run: "look_up_core e pkt released d =
      Some (if go then emit (SendGPdu (SendGPduV4 addr port teid qfi tos) pkt) ?d2 else d1)"
    using assms(1-5) a by (subst look_up_core.simps) (simp add: raise_flags_def Let_def)
  have l: "length (s_counters (sess_at (d_sw d1) s)) = COUNTER_SHARDS" "sess_at (d_sw d1) s = sess_at (d_sw d) s"
    using assms(6) f by (simp_all add: sess_at_def)
  show "\<exists>d'. look_up_core e pkt released d = Some d' \<and>
    (\<forall>s'. s' \<noteq> s \<longrightarrow> sess_heap (d_sw d') s' = sess_heap (d_sw d) s') \<and>
    total_ul_octets (sess_at (d_sw d') s) = total_ul_octets (sess_at (d_sw d) s) \<and>
    (d_log d' = d_log d @ [SendGPdu (SendGPduV4 addr port teid qfi tos) pkt] \<and>
       total_dl_octets (sess_at (d_sw d') s) = total_dl_octets (sess_at (d_sw d) s) + word_of_nat (length pkt) \<or>
     d_log d' = d_log d \<and> total_dl_octets (sess_at (d_sw d') s) = total_dl_octets (sess_at (d_sw d) s) \<and>
       pdr_qos (pdr_at (d_sw d) r) \<noteq> None \<and> \<not> released)"
  proof (cases go)
    case True
    then show ?thesis using run f l total_add [OF l(1)]
      by (simp add: emit_def set_session_def sess_at_def)
  next
    case False
    with metered_counts [OF m] run f l show ?thesis by simp
  qed
qed


lemma xor_swap: "iph_saddr q = iph_daddr p \<Longrightarrow> iph_daddr q = iph_saddr p \<Longrightarrow> q ! 9 = p ! 9 \<Longrightarrow>
    flow_ports q = prod.swap (flow_ports p) \<Longrightarrow> flow_hash q = flow_hash p"
  by (cases "flow_ports p") (simp add: flow_hash_def Let_def xor.commute)

text \<open>Both directions of a flow use one tun queue: a packet whose addresses and ports are those of
  another packet exchanged, of the same protocol, is written to the same descriptor.\<close>

lemma both_directions_use_one_queue:
  assumes "iph_saddr q = iph_daddr p" "iph_daddr q = iph_saddr p" "q ! 9 = p ! 9"
    "flow_ports q = prod.swap (flow_ports p)"
  shows "tun_tx_fd e q = tun_tx_fd e p"
  by (simp add: tun_tx_fd_def Let_def xor_swap [OF assms])

section \<open>An example\<close>

text \<open>One session with an uplink rule towards the core and a downlink rule for the UE 12.1.1.2, whose FAR
  goes to \<open>dst\<close>.\<close>

definition ex_far :: "u32 \<Rightarrow> interface_value \<Rightarrow> pfcp_far" where
  "ex_far i dst = \<lparr>far_id = i,
     far_apply_action = \<lparr>aa_drop = False, aa_forw = True, aa_buff = False, aa_nocp = False, aa_dupl = False\<rparr>,
     far_forwarding_parameters = (True, \<lparr>fp_destination_interface = (True, dst),
       fp_outer_header_creation = (True, \<lparr>ohc_description = OUTER_HEADER_CREATION_GTPU_UDP_IPV4, ohc_teid = 77,
          ohc_ipv4_address = 0x0A0A0A0A, ohc_ipv6_address = [], ohc_port_number = 0\<rparr>),
       fp_network_instance = (False, []), fp_transport_level_marking = (False, [])\<rparr>),
     far_duplicating_parameters = (False, []), far_bar_id = (False, 0)\<rparr>"

definition ex_dl_pdr :: pfcp_pdr where
  "ex_dl_pdr = (ex_pdr 8 20 0)\<lparr>pdr_outer_header_removal := (False, OUTER_HEADER_REMOVAL_GTPU_UDP_IPV4),
     pdr_far_id := (True, 2)\<rparr>"

definition ex_path :: "interface_value \<Rightarrow> upf_switch" where
  "ex_path dst = switch_new\<lparr>pdr_heap := [0 \<mapsto> ex_pdr 7 10 1, 1 \<mapsto> ex_dl_pdr],
     far_heap := [3 \<mapsto> ex_far 1 INTERFACE_VALUE_CORE, 4 \<mapsto> ex_far 2 dst],
     sess_heap := [5 \<mapsto> (session_new \<lparr>fs_seid = 9, fs_addr = []\<rparr> 0 0)\<lparr>s_fars := [3, 4], s_fars_view := Some [3, 4]\<rparr>],
     next_ref := 6,
     up_seid2pfcp_sessions := insert_or_error (um_new PFCP_SWITCH_MAX_SESSIONS) 0 5,
     ul_n3_teid2pfcp_pdr := insert_or_error (um_new PFCP_SWITCH_MAX_PDRS) 1 [0],
     ue_ipv4_hbo2pfcp_pdr := insert_or_error (um_new PFCP_SWITCH_MAX_PDRS) 0x0C010102 [1]\<rparr>"

definition ex_dp :: dp_env where
  "ex_dp = \<lparr>dp_cfg = ex_env, dp_clock = (\<lambda>_. 5), dp_tie = (\<lambda>_. 0), dp_sys = (\<lambda>_. True), dp_gateway = 0,
     dp_stack = [], dp_thread = 0, dp_tun_fds = [11, 12], dp_sock_w = -1\<rparr>"

definition ex_state :: "interface_value \<Rightarrow> datapath_state" where
  "ex_state dst = \<lparr>d_sw = ex_path dst, d_shaping = True, d_sq = shaper_queue_new, d_reads = 0, d_log = []\<rparr>"

text \<open>From 12.1.1.2 to 8.8.8.8, and from there to the UE.\<close>

definition ex_up :: "byte list" where
  "ex_up = [0x45, 0, 0, 28, 0, 0, 0, 0, 64, 17, 0, 0, 12, 1, 1, 2, 8, 8, 8, 8, 0, 53, 0, 99, 0, 8, 0, 0]"

definition ex_down :: "byte list" where
  "ex_down = [0x45, 0, 0, 28, 0, 0, 0, 0, 64, 17, 0, 0, 8, 8, 8, 8, 12, 1, 1, 2, 0, 99, 0, 53, 0, 8, 0, 0]"

lemma um_find_new_insert:
  "um_find (insert_or_error (um_new PFCP_SWITCH_MAX_PDRS :: (u32, nat list) upf_map) k v) = [k \<mapsto> v]"
  "um_find (insert_or_error (um_new PFCP_SWITCH_MAX_SESSIONS :: (u64, nat) upf_map) i r) = [i \<mapsto> r]"
  using find_insert_or_error [OF um_new_inv um_room_new, of k v] find_insert_or_error [OF um_new_inv, of PFCP_SWITCH_MAX_SESSIONS i r] ex_room [of i]
  by (simp_all add: um_new_empty fun_eq_iff switch_new_def)

lemma ex_path_facts:
  "get_pfcp_ul_pdrs_by_up_teid (ex_path dst) = [1 \<mapsto> [0]]"
  "get_pfcp_dl_pdrs_by_ue_ip (ex_path dst) = [0x0C010102 \<mapsto> [1]]"
  "get_pfcp_session_by_up_seid (ex_path dst) = [0 \<mapsto> 5]"
  "pdr_at (ex_path dst) 0 = ex_pdr 7 10 1" "pdr_at (ex_path dst) (Suc 0) = ex_dl_pdr"
  "far_at (ex_path dst) 3 = ex_far 1 INTERFACE_VALUE_CORE" "far_at (ex_path dst) 4 = ex_far 2 dst"
  by (simp_all add: ex_path_def get_pfcp_ul_pdrs_by_up_teid_def get_pfcp_dl_pdrs_by_ue_ip_def
      get_pfcp_session_by_up_seid_def um_find_new_insert fun_eq_iff)

lemma ex_rules:
  "pdr_local_seid (ex_pdr i prec t) = 0" "pdr_far_id (ex_pdr i prec t) = (True, 1)" "pdr_qos (ex_pdr i prec t) = None"
  "pdr_local_seid ex_dl_pdr = 0" "pdr_far_id ex_dl_pdr = (True, 2)" "pdr_qos ex_dl_pdr = None" "pdr_tx_qfi ex_dl_pdr = -1"
  by (simp_all add: ex_dl_pdr_def ex_pdr_def ex_create_pdr_def pdr_of_create_def compile_sdf_def)

lemma ex_targets: "rule_target (ex_path dst) 0 = Some (5, 3)" "rule_target (ex_path dst) (Suc 0) = Some (5, 4)"
proof -
  have v: "s_fars_view (sess_at (ex_path dst) 5) = Some [3, 4]" by (simp add: ex_path_def sess_at_def)
  show "rule_target (ex_path dst) 0 = Some (5, 3)" "rule_target (ex_path dst) (Suc 0) = Some (5, 4)"
    by (simp_all add: rule_target_def ex_path_facts ex_rules find_far_def v) (simp_all add: ex_far_def)
qed

lemma ex_verdicts:
  "apply_forwarding_rules ex_env (ex_far i INTERFACE_VALUE_CORE) q = (ToCore, False, False)"
  "apply_forwarding_rules ex_env (ex_far i INTERFACE_VALUE_ACCESS) q = (SendGPduV4 0x0A0A0A0A 2152 77 q 0, False, False)"
  by (simp_all add: ex_far_def apply_forwarding_rules_def forward_def encapsulate_def Let_def ex_env_def)

lemma ex_matches: "match_ul ex_dp (ex_state dst) ex_up 1 [0] = Some 0" "match_dl ex_dp (ex_state dst) p [Suc 0] = Some (Suc 0)"
  by (simp_all add: match_ul_def match_dl_def in_access_def ex_state_def ex_path_facts ex_dl_pdr_def ex_pdr_def
      ex_create_pdr_def pdr_of_create_def compile_sdf_def ex_pdi_def look_up_pack_in_access_def look_up_pack_in_core_def
      fteid_zero_def sdf_match_def sdf_rule_default_def Let_def)

lemma ex_addresses: "iph_daddr ex_down = 0x0201010C" "iph_saddr ex_down = 0x08080808" "iph_daddr ex_up = 0x08080808"
  "iph_saddr ex_up = 0x0201010C" "bswap32 0x0201010C = 0x0C010102" "ip_version ex_down = 4"
  "bswap32 0x08080808 = 0x08080808"
  by (simp_all add: ex_down_def ex_up_def load32_def ip_version_def) (simp_all add: bswap32_def)

lemma ex_no_core_loop: "no_core_loop ex_env (ex_path INTERFACE_VALUE_ACCESS)"
  unfolding no_core_loop_def ex_path_facts
  by (auto simp: ex_targets ex_path_facts ex_verdicts split: if_splits)


lemma ex_state_simps: "d_sw (ex_state dst) = ex_path dst" "d_log (ex_state dst) = []" "d_shaping (ex_state dst)"
  "d_reads (ex_state dst) = 0" "d_sq (ex_state dst) = shaper_queue_new" "dp_cfg ex_dp = ex_env" "dp_clock ex_dp = (\<lambda>_. 5)"
  by (simp_all add: ex_state_def ex_dp_def)

text \<open>A packet held until 3 is gone when the clock shows 5.\<close>

theorem shaped_packets_are_released_witness:
  "\<exists>d' wait. release_shaped ex_dp ((ex_state INTERFACE_VALUE_ACCESS)\<lparr>d_sq := fst (hold ex_down 3 0 [] shaper_queue_new)\<rparr>) = Some (d', wait) \<and>
     slots_ok [] (d_sq d') \<and> (\<forall>p\<in>set (heap (d_sq d')). 5 < sp_due p)"
  using shaped_packets_are_released [of ex_dp "(ex_state INTERFACE_VALUE_ACCESS)\<lparr>d_sq := fst (hold ex_down 3 0 [] shaper_queue_new)\<rparr>"]
  by (simp add: ex_state_simps ex_no_core_loop slots_ok_hold)

theorem packet_look_ups_return_witness:
  "\<exists>d'. look_up_access ex_dp ex_up [] 1 False (ex_state INTERFACE_VALUE_ACCESS) = Some d'"
  using packet_look_ups_return [of ex_dp "ex_state INTERFACE_VALUE_ACCESS" ex_up "[]" 1 False]
  by (auto simp: ex_state_simps ex_no_core_loop)

lemma ex_core_loop: "core_loop ex_dp (ex_state INTERFACE_VALUE_CORE) ex_down"
  unfolding core_loop_def
proof (intro conjI exI)
  show "ip_version ex_down = 4" by (simp add: ex_addresses)
  show "internal_dest (dp_cfg ex_dp) ex_down"
    by (simp add: internal_dest_def ex_state_simps ex_addresses) (simp add: ex_env_def)
  show "find_dl_pdrs ex_dp (ex_state INTERFACE_VALUE_CORE) (bswap32 (iph_daddr ex_down)) = Some [1]"
    by (simp add: find_dl_pdrs_def ex_addresses ex_state_simps ex_path_facts)
  show "match_dl ex_dp (ex_state INTERFACE_VALUE_CORE) ex_down [1] = Some 1" using ex_matches(2) by simp
  show "rule_target (d_sw (ex_state INTERFACE_VALUE_CORE)) 1 = Some (5, 4)" by (simp add: ex_state_simps ex_targets)
qed (simp_all add: ex_state_simps ex_path_facts ex_rules ex_verdicts)

lemma core_loop_example:
  "look_up_core ex_dp ex_down False (ex_state INTERFACE_VALUE_CORE) = None"
  by (rule core_loop_never_returns [OF ex_core_loop])


end
