(* ===== verification/GtpuMessages.thy ===== *)
theory GtpuMessages
  imports Prelude
begin

text \<open>
  GTP-U signalling messages (\<open>gtpv1u/3gpp_29.281.hpp\<close>, \<open>3gpp_29.281.cpp\<close>, \<open>msg_gtpv1u.hpp\<close>) and
  the sending half of the stack (\<open>gtpv1u/gtpv1u.cpp\<close>). The numbers of messages, information elements
  and extension headers are macros of a header outside the repository: fields of the parameter
  \<open>gtpu_lib\<close>. Input streams keep what \<open>std::istream::read\<close> does at the end of the data: it stores
  what is left, fails, and every later read stores nothing. Exceptions are values.
\<close>

unbundle bit_operations_syntax

section \<open>Library, byte order, streams\<close>

record gtpu_lib =
  GTPU_ECHO_REQUEST :: u8
  GTPU_ECHO_RESPONSE :: u8
  GTPU_ERROR_INDICATION :: u8
  GTPU_SUPPORTED_EXTENSION_HEADERS_NOTIFICATION :: u8
  GTPU_END_MARKER :: u8
  GTPU_G_PDU :: u8
  GTPU_IE_RECOVERY :: u8
  GTPU_IE_TUNNEL_ENDPOINT_IDENTIFIER_DATA_I :: u8
  GTPU_IE_GTP_U_PEER_ADDRESS :: u8
  GTPU_IE_PRIVATE_EXTENSION :: u8
  GTPU_PDU_SESSION_CONTAINER :: u8
  GTPU_NO_MORE_EXTENSION_HEADER :: u8
  GTPU_DL_PDU_SESSION_INFORMATION :: u8

text \<open>The bytes \<open>htobe16\<close> and \<open>htobe32\<close> leave in memory, and the values read back from them.\<close>

definition be16 :: "u16 \<Rightarrow> byte list" where
  "be16 w = [ucast (drop_bit 8 w), ucast w]"

definition be32 :: "u32 \<Rightarrow> byte list" where
  "be32 w = [ucast (drop_bit 24 w), ucast (drop_bit 16 w), ucast (drop_bit 8 w), ucast w]"

definition of_be16 :: "byte list \<Rightarrow> u16" where
  "of_be16 b = push_bit 8 (ucast (b ! 0)) OR ucast (b ! 1)"

definition of_be32 :: "byte list \<Rightarrow> u32" where
  "of_be32 b = push_bit 24 (ucast (b ! 0)) OR push_bit 16 (ucast (b ! 1)) OR
               push_bit 8 (ucast (b ! 2)) OR ucast (b ! 3)"

record istream =
  unread :: "byte list"
  at_end :: bool

definition open_stream :: "byte list \<Rightarrow> istream" where
  "open_stream b = \<lparr>unread = b, at_end = False\<rparr>"

text \<open>\<open>is.read(old, length old)\<close>.\<close>

definition sread :: "byte list \<Rightarrow> istream \<Rightarrow> byte list \<times> istream" where
  "sread old s =
     (if at_end s then (old, s)
      else (take (length old) (unread s) @ drop (length (unread s)) old,
            \<lparr>unread = drop (length old) (unread s), at_end = length (unread s) < length old\<rparr>))"

section \<open>Information elements\<close>

record gtpv1u_tlv =
  tlv_type :: u8
  tlv_length :: u16

definition tlv_dump :: "gtpv1u_tlv \<Rightarrow> byte list" where
  "tlv_dump t = tlv_type t # (if tlv_type t AND 0x80 \<noteq> 0 then be16 (tlv_length t) else [])"

definition tlv_load :: "istream \<Rightarrow> gtpv1u_tlv \<times> istream" where
  "tlv_load s =
     (case sread [0] s of
        (ty, s1) \<Rightarrow>
          if hd ty AND 0x80 \<noteq> 0
          then (case sread [0, 0] s1 of (l, s2) \<Rightarrow> (\<lparr>tlv_type = hd ty, tlv_length = of_be16 l\<rparr>, s2))
          else (\<lparr>tlv_type = hd ty, tlv_length = 0\<rparr>, s1))"

text \<open>Addresses are the bytes in memory. The address of the family an element does not carry is not
  read; constructors leave it alone, the model has it zero.\<close>

record gtp_u_peer_address =
  pa_is_v4 :: bool
  pa_v4 :: "byte list"
  pa_v6 :: "byte list"

datatype gtpv1u_ie =
    RecoveryIe gtpv1u_tlv u8
  | TeidDataIe gtpv1u_tlv u32
  | PeerAddressIe gtpv1u_tlv gtp_u_peer_address
  | PrivateExtensionIe gtpv1u_tlv u16 "byte list"

fun ie_tlv :: "gtpv1u_ie \<Rightarrow> gtpv1u_tlv" where
  "ie_tlv (RecoveryIe t _) = t"
| "ie_tlv (TeidDataIe t _) = t"
| "ie_tlv (PeerAddressIe t _) = t"
| "ie_tlv (PrivateExtensionIe t _ _) = t"

definition recovery_ie :: "gtpu_lib \<Rightarrow> u8 \<Rightarrow> gtpv1u_ie" where
  "recovery_ie lib c = RecoveryIe \<lparr>tlv_type = GTPU_IE_RECOVERY lib, tlv_length = 1\<rparr> c"

text \<open>This constructor sets no length.\<close>

definition teid_data_ie :: "gtpu_lib \<Rightarrow> u32 \<Rightarrow> gtpv1u_ie" where
  "teid_data_ie lib t =
     TeidDataIe \<lparr>tlv_type = GTPU_IE_TUNNEL_ENDPOINT_IDENTIFIER_DATA_I lib, tlv_length = 0\<rparr> t"

definition peer_address_ie :: "gtpu_lib \<Rightarrow> gtp_u_peer_address \<Rightarrow> gtpv1u_ie" where
  "peer_address_ie lib p =
     PeerAddressIe \<lparr>tlv_type = GTPU_IE_GTP_U_PEER_ADDRESS lib, tlv_length = (if pa_is_v4 p then 4 else 16)\<rparr> p"

definition private_extension_ie :: "gtpu_lib \<Rightarrow> u16 \<times> byte list \<Rightarrow> gtpv1u_ie" where
  "private_extension_ie lib x =
     PrivateExtensionIe \<lparr>tlv_type = GTPU_IE_PRIVATE_EXTENSION lib, tlv_length = word_of_nat (2 + length (snd x))\<rparr>
       (fst x) (snd x)"

fun ie_dump :: "gtpv1u_ie \<Rightarrow> byte list" where
  "ie_dump (RecoveryIe t c) = tlv_dump t @ [c]"
| "ie_dump (TeidDataIe t x) = tlv_dump t @ be32 x"
| "ie_dump (PeerAddressIe t p) =
     (if pa_is_v4 p then tlv_dump (t\<lparr>tlv_length := 4\<rparr>) @ pa_v4 p else tlv_dump (t\<lparr>tlv_length := 16\<rparr>) @ pa_v6 p)"
| "ie_dump (PrivateExtensionIe t i v) = tlv_dump (t\<lparr>tlv_length := word_of_nat (2 + length v)\<rparr>) @ be16 i @ v"

datatype ie_result = NoIe | GotIe gtpv1u_ie | TlvBadLength

text \<open>The \<open>load_from\<close> of each class. \<open>stack\<close> is what the uninitialised buffer of the private extension
  holds.\<close>

definition recovery_load :: "gtpv1u_tlv \<Rightarrow> istream \<Rightarrow> ie_result \<times> istream" where
  "recovery_load t s = (case sread [0] s of (b, s1) \<Rightarrow> (GotIe (RecoveryIe t (hd b)), s1))"

definition teid_data_load :: "gtpv1u_tlv \<Rightarrow> istream \<Rightarrow> ie_result \<times> istream" where
  "teid_data_load t s = (case sread [0, 0, 0, 0] s of (b, s1) \<Rightarrow> (GotIe (TeidDataIe t (of_be32 b)), s1))"

definition peer_address_load :: "gtpv1u_tlv \<Rightarrow> istream \<Rightarrow> ie_result \<times> istream" where
  "peer_address_load t s =
     (let p = \<lparr>pa_is_v4 = True, pa_v4 = [0, 0, 0, 0], pa_v6 = replicate 16 0\<rparr>
      in if tlv_length t = 4
         then (case sread (pa_v4 p) s of (b, s1) \<Rightarrow> (GotIe (PeerAddressIe t (p\<lparr>pa_v4 := b\<rparr>)), s1))
         else if tlv_length t = 16
         then (case sread (pa_v6 p) s of (b, s1) \<Rightarrow> (GotIe (PeerAddressIe t (p\<lparr>pa_v6 := b\<rparr>)), s1))
         else (TlvBadLength, s))"

definition private_extension_load :: "(nat \<Rightarrow> byte) \<Rightarrow> gtpv1u_tlv \<Rightarrow> istream \<Rightarrow> ie_result \<times> istream" where
  "private_extension_load stack t s =
     (case sread [0, 0] s of
        (i, s1) \<Rightarrow>
          if 2 < unat (tlv_length t)
          then (case sread (map stack [0..<unat (tlv_length t) - 2]) s1 of
                  (v, s2) \<Rightarrow> (GotIe (PrivateExtensionIe t (of_be16 i) v), s2))
          else (GotIe (PrivateExtensionIe t (of_be16 i) []), s1))"

definition new_gtpv1u_ie_from_stream :: "gtpu_lib \<Rightarrow> (nat \<Rightarrow> byte) \<Rightarrow> istream \<Rightarrow> ie_result \<times> istream" where
  "new_gtpv1u_ie_from_stream lib stack s =
     (case tlv_load s of
        (t, s1) \<Rightarrow>
          if tlv_length t = 0 then (NoIe, s1)
          else if tlv_type t = GTPU_IE_RECOVERY lib then recovery_load t s1
          else if tlv_type t = GTPU_IE_TUNNEL_ENDPOINT_IDENTIFIER_DATA_I lib then teid_data_load t s1
          else if tlv_type t = GTPU_IE_GTP_U_PEER_ADDRESS lib then peer_address_load t s1
          else if tlv_type t = GTPU_IE_PRIVATE_EXTENSION lib then private_extension_load stack t s1
          else (NoIe, s1))"

section \<open>Messages\<close>

record gtpv1u_msg =
  h_flags :: u8
  h_type :: u8
  h_length :: u16
  h_teid :: u32
  h_seq :: u16
  h_npdu :: u8
  h_next :: u8
  m_ies :: "gtpv1u_ie list"

text \<open>Version 1, protocol type GTP.\<close>

definition gtpv1u_msg_new :: gtpv1u_msg where
  "gtpv1u_msg_new = \<lparr>h_flags = 0x30, h_type = 0, h_length = 0, h_teid = 0, h_seq = 0, h_npdu = 0, h_next = 0, m_ies = []\<rparr>"

definition OPTIONAL_FIELDS_BYTES :: u16 where "OPTIONAL_FIELDS_BYTES = 4"
definition S_PN_E_MASK :: u8 where "S_PN_E_MASK = 7"
definition TLV_IE_LENGTH :: u16 where "TLV_IE_LENGTH = 4"

definition has_optional_fields :: "gtpv1u_msg \<Rightarrow> bool" where
  "has_optional_fields m \<longleftrightarrow> h_flags m AND S_PN_E_MASK \<noteq> 0"

definition get_message_length_wo_xheader :: "gtpv1u_msg \<Rightarrow> u16" where
  "get_message_length_wo_xheader m = (if has_optional_fields m then h_length m - OPTIONAL_FIELDS_BYTES else h_length m)"

definition get_sequence_number :: "gtpv1u_msg \<Rightarrow> u16 option" where
  "get_sequence_number m = (if h_flags m AND 2 \<noteq> 0 then Some (h_seq m) else None)"

definition set_sequence_number :: "u16 \<Rightarrow> gtpv1u_msg \<Rightarrow> gtpv1u_msg" where
  "set_sequence_number n m =
     (let m = (if has_optional_fields m then m else m\<lparr>h_length := h_length m + OPTIONAL_FIELDS_BYTES\<rparr>)
      in m\<lparr>h_seq := n, h_flags := h_flags m OR 2\<rparr>)"

definition add_ie :: "gtpv1u_ie \<Rightarrow> gtpv1u_msg \<Rightarrow> gtpv1u_msg" where
  "add_ie x m = m\<lparr>m_ies := m_ies m @ [x], h_length := h_length m + TLV_IE_LENGTH + tlv_length (ie_tlv x)\<rparr>"

definition header_dump :: "gtpv1u_msg \<Rightarrow> byte list" where
  "header_dump m =
     [h_flags m AND NOT 8, h_type m] @ be16 (h_length m) @ be32 (h_teid m) @
     (if has_optional_fields m then be16 (h_seq m) @ [h_npdu m, h_next m] else [])"

text \<open>\<open>load_from\<close> of the header, into a message fresh from its constructor.\<close>

definition header_load :: "istream \<Rightarrow> gtpv1u_msg \<times> istream" where
  "header_load s =
     (case sread [h_flags gtpv1u_msg_new] s of (fl, s1) \<Rightarrow>
      case sread [0] s1 of (ty, s2) \<Rightarrow>
      case sread [0, 0] s2 of (ln, s3) \<Rightarrow>
      case sread [0, 0, 0, 0] s3 of (te, s4) \<Rightarrow>
        let m = gtpv1u_msg_new\<lparr>h_flags := hd fl, h_type := hd ty, h_length := of_be16 ln, h_teid := of_be32 te\<rparr>
        in if has_optional_fields m
           then (case sread [0, 0] s4 of (sq, s5) \<Rightarrow>
                 case sread [0] s5 of (np, s6) \<Rightarrow>
                 case sread [0] s6 of (nx, s7) \<Rightarrow>
                   (m\<lparr>h_seq := of_be16 sq, h_npdu := hd np, h_next := hd nx\<rparr>, s7))
           else (m, s4))"

definition msg_dump :: "gtpv1u_msg \<Rightarrow> byte list" where
  "msg_dump m = header_dump m @ concat (map ie_dump (m_ies m))"

text \<open>An element that was read took at least its type from the stream.\<close>

lemma sread_shrinks: "sread old s = (b, s') \<Longrightarrow> length (unread s') \<le> length (unread s)"
  by (auto simp: sread_def Let_def split: if_splits)

lemma sread_end: "at_end s \<or> unread s = [] \<Longrightarrow> fst (sread old s) = old"
  by (auto simp: sread_def Let_def)

lemma sread_less:
  "\<not> at_end s \<and> unread s \<noteq> [] \<Longrightarrow> old \<noteq> [] \<Longrightarrow> length (unread (snd (sread old s))) < length (unread s)"
  by (auto simp: sread_def Let_def)

lemma length_sread [simp]: "sread old s = (b, s') \<Longrightarrow> length b = length old"
  by (auto simp: sread_def Let_def split: if_splits)

lemma tlv_load_consumes:
  assumes "tlv_load s = (t, s')" "tlv_length t \<noteq> 0"
  shows "length (unread s') < length (unread s)"
proof -
  obtain ty s1 where r: "sread [0] s = (ty, s1)" by force
  have "ty = [0]" if "at_end s \<or> unread s = []"
    using sread_end [OF that, of "[0]"] r by simp
  then have "\<not> at_end s \<and> unread s \<noteq> []"
    using assms r by (auto simp: tlv_load_def)
  then have less: "length (unread s1) < length (unread s)"
    using sread_less [of s "[0]"] r by simp
  have "length (unread s') \<le> length (unread s1)"
  proof (cases "hd ty AND 0x80 = 0")
    case True
    with assms(1) r show ?thesis by (simp add: tlv_load_def)
  next
    case False
    obtain l s2 where "sread [0, 0] s1 = (l, s2)" by force
    with False assms(1) r sread_shrinks [OF this] show ?thesis by (simp add: tlv_load_def)
  qed
  with less show ?thesis by linarith
qed

lemma ie_load_shrinks:
  "recovery_load t s = (r, s') \<Longrightarrow> length (unread s') \<le> length (unread s)"
  "teid_data_load t s = (r, s') \<Longrightarrow> length (unread s') \<le> length (unread s)"
  "peer_address_load t s = (r, s') \<Longrightarrow> length (unread s') \<le> length (unread s)"
  "private_extension_load stack t s = (r, s') \<Longrightarrow> length (unread s') \<le> length (unread s)"
     apply (auto simp: recovery_load_def split: prod.splits dest: sread_shrinks)[1]
    apply (auto simp: teid_data_load_def split: prod.splits dest: sread_shrinks)[1]
   apply (auto simp: peer_address_load_def Let_def split: prod.splits if_splits dest: sread_shrinks)[1]
  apply (auto simp: private_extension_load_def split: prod.splits if_splits dest!: sread_shrinks)
  done

lemma ie_from_stream_consumes:
  assumes "new_gtpv1u_ie_from_stream lib stack s = (GotIe x, s')"
  shows "length (unread s') < length (unread s)"
proof -
  obtain t s1 where t: "tlv_load s = (t, s1)" by force
  have len: "tlv_length t \<noteq> 0" using assms t by (auto simp: new_gtpv1u_ie_from_stream_def)
  have "length (unread s') \<le> length (unread s1)"
    using assms t len ie_load_shrinks
    by (auto simp: new_gtpv1u_ie_from_stream_def split: if_splits)
  with tlv_load_consumes [OF t len] show ?thesis by linarith
qed

text \<open>\<open>do .. while (ie && ies_length < check_msg_length)\<close>.\<close>

datatype load_result = LoadedIes "gtpv1u_ie list" u16 | LoadBadLength

function load_ies :: "gtpu_lib \<Rightarrow> (nat \<Rightarrow> byte) \<Rightarrow> u16 \<Rightarrow> gtpv1u_ie list \<Rightarrow> u16 \<Rightarrow> istream \<Rightarrow> load_result" where
  "load_ies lib stack check xs n s =
     (case new_gtpv1u_ie_from_stream lib stack s of
        (NoIe, s') \<Rightarrow> LoadedIes xs n
      | (TlvBadLength, s') \<Rightarrow> LoadBadLength
      | (GotIe x, s') \<Rightarrow>
          let n' = n + (TLV_IE_LENGTH + tlv_length (ie_tlv x))
          in if n' < check then load_ies lib stack check (xs @ [x]) n' s' else LoadedIes (xs @ [x]) n')"
  by pat_completeness auto
termination
  by (relation "measure (\<lambda>(_, _, _, _, _, s). length (unread s))") (auto dest!: ie_from_stream_consumes [OF sym])

declare load_ies.simps [simp del]

datatype msg_result = Loaded gtpv1u_msg | MsgBadLength

definition msg_load :: "gtpu_lib \<Rightarrow> (nat \<Rightarrow> byte) \<Rightarrow> byte list \<Rightarrow> msg_result" where
  "msg_load lib stack b =
     (case header_load (open_stream b) of
        (m, s) \<Rightarrow>
          (case load_ies lib stack (get_message_length_wo_xheader m) [] 0 s of
             LoadBadLength \<Rightarrow> MsgBadLength
           | LoadedIes xs n \<Rightarrow>
               if get_message_length_wo_xheader m < n then MsgBadLength else Loaded (m\<lparr>m_ies := xs\<rparr>)))"

section \<open>What a message carries\<close>

text \<open>\<open>gtpv1u_ies_container\<close> and its subclasses: the classes differ in the elements whose \<open>set\<close> they
  override, and the others throw. An endpoint is the bytes of its socket address.\<close>

datatype ies_class = EchoRequestIes | EchoResponseIes | ErrorIndicationIes

record gtpv1u_ies =
  c_endpoint :: "byte list"
  c_teid :: "u32 ie"
  c_sequence_number :: "u16 ie"
  c_recovery :: "u8 ie"
  c_teid_data :: "u32 ie"
  c_peer_address :: "gtp_u_peer_address ie"
  c_private_extension :: "(u16 \<times> byte list) ie"

definition no_peer_address :: gtp_u_peer_address where
  "no_peer_address = \<lparr>pa_is_v4 = False, pa_v4 = [0, 0, 0, 0], pa_v6 = replicate 16 0\<rparr>"

definition gtpv1u_ies_new :: gtpv1u_ies where
  "gtpv1u_ies_new =
     \<lparr>c_endpoint = [], c_teid = (False, 0), c_sequence_number = (False, 0), c_recovery = (False, 0),
      c_teid_data = (False, 0), c_peer_address = (False, no_peer_address),
      c_private_extension = (False, (0, []))\<rparr>"

text \<open>\<open>to_core_type\<close>; \<open>None\<close> is the exception of an element the class does not have. The address is
  copied without saying which family it is.\<close>

fun ie_to_core :: "ies_class \<Rightarrow> gtpv1u_ie \<Rightarrow> gtpv1u_ies \<Rightarrow> gtpv1u_ies option" where
  "ie_to_core k (RecoveryIe _ c) s = (if k = EchoResponseIes then Some (s\<lparr>c_recovery := (True, c)\<rparr>) else None)"
| "ie_to_core k (TeidDataIe _ x) s = (if k = ErrorIndicationIes then Some (s\<lparr>c_teid_data := (True, x)\<rparr>) else None)"
| "ie_to_core k (PeerAddressIe _ p) s =
     (if k = ErrorIndicationIes
      then Some (s\<lparr>c_peer_address := (True, if pa_is_v4 p then no_peer_address\<lparr>pa_v4 := pa_v4 p\<rparr>
                                           else no_peer_address\<lparr>pa_v6 := pa_v6 p\<rparr>)\<rparr>)
      else None)"
| "ie_to_core k (PrivateExtensionIe _ i v) s = Some (s\<lparr>c_private_extension := (True, (i, v))\<rparr>)"

fun ies_to_core :: "ies_class \<Rightarrow> gtpv1u_ie list \<Rightarrow> gtpv1u_ies \<Rightarrow> gtpv1u_ies option" where
  "ies_to_core k [] s = Some s"
| "ies_to_core k (x # xs) s = Option.bind (ie_to_core k x s) (ies_to_core k xs)"

text \<open>The constructors from containers.\<close>

definition add_private_extension :: "gtpu_lib \<Rightarrow> gtpv1u_ies \<Rightarrow> gtpv1u_msg \<Rightarrow> gtpv1u_msg" where
  "add_private_extension lib s m =
     (if present (c_private_extension s) then add_ie (private_extension_ie lib (ie_val (c_private_extension s))) m else m)"

definition echo_request_msg :: "gtpu_lib \<Rightarrow> gtpv1u_ies \<Rightarrow> gtpv1u_msg" where
  "echo_request_msg lib s = add_private_extension lib s (gtpv1u_msg_new\<lparr>h_type := GTPU_ECHO_REQUEST lib\<rparr>)"

definition echo_response_msg :: "gtpu_lib \<Rightarrow> gtpv1u_ies \<Rightarrow> gtpv1u_msg" where
  "echo_response_msg lib s =
     (let m = gtpv1u_msg_new\<lparr>h_type := GTPU_ECHO_RESPONSE lib\<rparr>;
          m = (if present (c_recovery s) then add_ie (recovery_ie lib (ie_val (c_recovery s))) m else m)
      in add_private_extension lib s m)"

definition error_indication_msg :: "gtpu_lib \<Rightarrow> gtpv1u_ies \<Rightarrow> gtpv1u_msg" where
  "error_indication_msg lib s =
     (let m = set_sequence_number 0 (gtpv1u_msg_new\<lparr>h_type := GTPU_ERROR_INDICATION lib\<rparr>);
          m = (if present (c_teid_data s) then add_ie (teid_data_ie lib (ie_val (c_teid_data s))) m else m);
          m = (if present (c_peer_address s) then add_ie (peer_address_ie lib (ie_val (c_peer_address s))) m else m)
      in add_private_extension lib s m)"

section \<open>Sending\<close>

text \<open>A datagram with its destination. \<open>send_echo_response\<close> and \<open>send_indication\<close> differ in the
  constructor.\<close>

definition send_signalling :: "gtpv1u_msg \<Rightarrow> gtpv1u_ies \<Rightarrow> byte list \<times> byte list" where
  "send_signalling m s =
     (let m = (if present (c_teid s) then m\<lparr>h_teid := ie_val (c_teid s)\<rparr> else m);
          m = (if present (c_sequence_number s) then set_sequence_number (ie_val (c_sequence_number s)) m else m)
      in (msg_dump m, c_endpoint s))"

definition send_echo_response :: "gtpu_lib \<Rightarrow> gtpv1u_ies \<Rightarrow> byte list \<times> byte list" where
  "send_echo_response lib s = send_signalling (echo_response_msg lib s) s"

definition send_indication :: "gtpu_lib \<Rightarrow> gtpv1u_ies \<Rightarrow> byte list \<times> byte list" where
  "send_indication lib s = send_signalling (error_indication_msg lib s) s"

text \<open>\<open>send_g_pdu\<close> writes its header into the bytes in front of the payload, which lies at \<open>off\<close> of a
  buffer. \<open>None\<close> is a header that starts before the buffer. The result is the buffer and the datagram.\<close>

definition g_pdu_header :: "gtpu_lib \<Rightarrow> bool \<Rightarrow> u32 \<Rightarrow> nat \<Rightarrow> u8 \<Rightarrow> byte list" where
  "g_pdu_header lib send_ext_hdr teid len qfi =
     (if \<not> send_ext_hdr
      then [0x30, GTPU_G_PDU lib] @ be16 (word_of_nat len) @ be32 teid
      else [0x34, GTPU_G_PDU lib] @ be16 (word_of_nat (len + 4 + 4)) @ be32 teid @
           [0, 0, 0, GTPU_PDU_SESSION_CONTAINER lib] @
           [1, GTPU_DL_PDU_SESSION_INFORMATION lib, qfi, GTPU_NO_MORE_EXTENSION_HEADER lib])"

text \<open>\<open>room\<close> bytes before the payload the datagram starts, and there the header is written.\<close>

definition send_in_front :: "nat \<Rightarrow> byte list \<Rightarrow> byte list \<Rightarrow> nat \<Rightarrow> nat \<Rightarrow> (byte list \<times> byte list) option" where
  "send_in_front room hdr buf off len =
     (if off < room then None
      else let buf' = take (off - room) buf @ hdr @ drop (off - room + length hdr) buf
           in Some (buf', take (len + room) (drop (off - room) buf')))"

definition send_g_pdu ::
    "gtpu_lib \<Rightarrow> bool \<Rightarrow> byte list \<Rightarrow> nat \<Rightarrow> nat \<Rightarrow> u32 \<Rightarrow> u8 \<Rightarrow> (byte list \<times> byte list) option" where
  "send_g_pdu lib send_ext_hdr buf off len teid qfi =
     send_in_front (if send_ext_hdr then 16 else 8) (g_pdu_header lib send_ext_hdr teid len qfi) buf off len"

text \<open>To an IPv6 peer: the whole 12-byte structure is sent, the first 8 bytes of it are written.\<close>

definition send_g_pdu_v6 :: "gtpu_lib \<Rightarrow> byte list \<Rightarrow> nat \<Rightarrow> nat \<Rightarrow> u32 \<Rightarrow> (byte list \<times> byte list) option" where
  "send_g_pdu_v6 lib buf off len teid = send_in_front 12 (g_pdu_header lib False teid len 0) buf off len"

section \<open>Lemmas: bytes and streams\<close>

lemma length_be [simp]: "length (be16 w) = 2" "length (be32 v) = 4"
  by (simp_all add: be16_def be32_def)

lemma of_be16_be16 [simp]: "of_be16 (be16 w) = w"
  by (rule bit_word_eqI) (auto simp: of_be16_def be16_def bit_simps)

lemma of_be32_be32 [simp]: "of_be32 (be32 w) = w"
proof -
  have "bit (of_be32 (be32 w)) n = bit w n" if "n < 32" for n
    using that by (cases "n < 8"; cases "n < 16"; cases "n < 24")
      (simp_all add: of_be32_def be32_def bit_simps, arith+)
  then show ?thesis by (auto intro: bit_word_eqI)
qed

lemma sread_append: "length old = length b \<Longrightarrow> sread old (open_stream (b @ r)) = (b, open_stream r)"
  by (simp only: sread_def open_stream_def istream.simps if_False take_append drop_append length_append take_all drop_all
      le_refl diff_self_eq_0 take0 drop0 append_Nil append_Nil2 le_add1 not_less if_True) simp

lemma sread_known:
  "sread [x] (open_stream (y # r)) = ([y], open_stream r)"
  "sread [x, x'] (open_stream (be16 w @ r)) = (be16 w, open_stream r)"
  "sread [x, x', y, y'] (open_stream (be32 v @ r)) = (be32 v, open_stream r)"
  using sread_append [of "[x]" "[y]" r] sread_append [of "[x, x']" "be16 w" r]
    sread_append [of "[x, x', y, y']" "be32 v" r] by simp_all

text \<open>What the table of element types in TS 29.281 says of the numbers: the top bit marks the elements
  with a length, and the types differ.\<close>

definition ie_types_ok :: "gtpu_lib \<Rightarrow> bool" where
  "ie_types_ok lib \<longleftrightarrow>
     GTPU_IE_RECOVERY lib AND 0x80 = 0 \<and> GTPU_IE_TUNNEL_ENDPOINT_IDENTIFIER_DATA_I lib AND 0x80 = 0 \<and>
     GTPU_IE_GTP_U_PEER_ADDRESS lib AND 0x80 \<noteq> 0 \<and> GTPU_IE_PRIVATE_EXTENSION lib AND 0x80 \<noteq> 0 \<and>
     GTPU_IE_GTP_U_PEER_ADDRESS lib \<noteq> GTPU_IE_PRIVATE_EXTENSION lib"

lemma ie_types_distinct:
  assumes "ie_types_ok lib"
  shows "GTPU_IE_GTP_U_PEER_ADDRESS lib \<noteq> GTPU_IE_RECOVERY lib"
    "GTPU_IE_GTP_U_PEER_ADDRESS lib \<noteq> GTPU_IE_TUNNEL_ENDPOINT_IDENTIFIER_DATA_I lib"
    "GTPU_IE_GTP_U_PEER_ADDRESS lib \<noteq> GTPU_IE_PRIVATE_EXTENSION lib"
    "GTPU_IE_PRIVATE_EXTENSION lib \<noteq> GTPU_IE_RECOVERY lib"
    "GTPU_IE_PRIVATE_EXTENSION lib \<noteq> GTPU_IE_TUNNEL_ENDPOINT_IDENTIFIER_DATA_I lib"
    "GTPU_IE_PRIVATE_EXTENSION lib \<noteq> GTPU_IE_GTP_U_PEER_ADDRESS lib"
  using assms by (auto simp: ie_types_ok_def)

section \<open>Reading back what was written\<close>

definition header_ok :: "gtpv1u_msg \<Rightarrow> bool" where
  "header_ok m \<longleftrightarrow> h_flags m AND 8 = 0 \<and>
     (has_optional_fields m \<or> h_seq m = 0 \<and> h_npdu m = 0 \<and> h_next m = 0)"

lemma clear_spare:
  assumes "(w :: u8) AND 8 = 0"
  shows "w AND NOT 8 = w"
proof -
  have "w = (w AND 8) OR (w AND NOT 8)" by (simp flip: bit.conj_disj_distrib)
  with assms show ?thesis by (metis or.left_neutral)
qed

lemma header_load_dump:
  assumes "header_ok m"
  shows "header_load (open_stream (header_dump m @ r)) = (m\<lparr>m_ies := []\<rparr>, open_stream r)"
proof -
  have spare: "h_flags m AND NOT 8 = h_flags m" using assms clear_spare unfolding header_ok_def by blast
  let ?m = "gtpv1u_msg_new\<lparr>h_flags := h_flags m, h_type := h_type m, h_length := h_length m, h_teid := h_teid m\<rparr>"
  have opt: "has_optional_fields ?m = has_optional_fields m" by (simp add: has_optional_fields_def)
  show ?thesis
  proof (cases "has_optional_fields m")
    case True
    then show ?thesis unfolding header_load_def header_dump_def spare
      by (simp add: sread_known Let_def opt) (simp add: gtpv1u_msg_new_def)
  next
    case False
    with assms show ?thesis unfolding header_load_def header_dump_def spare
      by (simp add: sread_known Let_def opt header_ok_def) (simp add: gtpv1u_msg_new_def)
  qed
qed

text \<open>Elements with a length that carry what their length says.\<close>

fun wire_ie :: "gtpu_lib \<Rightarrow> gtpv1u_ie \<Rightarrow> bool" where
  "wire_ie lib (PeerAddressIe t p) \<longleftrightarrow>
     t = \<lparr>tlv_type = GTPU_IE_GTP_U_PEER_ADDRESS lib, tlv_length = 4\<rparr> \<and>
     pa_is_v4 p \<and> length (pa_v4 p) = 4 \<and> pa_v6 p = replicate 16 0"
| "wire_ie lib (PrivateExtensionIe t i v) \<longleftrightarrow>
     t = \<lparr>tlv_type = GTPU_IE_PRIVATE_EXTENSION lib, tlv_length = word_of_nat (2 + length v)\<rparr> \<and>
     2 + length v < 2 ^ 16"
| "wire_ie lib _ \<longleftrightarrow> False"

lemma tlv_load_dump:
  "tlv_type t AND 0x80 \<noteq> 0 \<Longrightarrow> tlv_load (open_stream (tlv_dump t @ r)) = (t, open_stream r)"
  by (cases t) (simp add: tlv_load_def tlv_dump_def sread_known)

lemma private_extension_load_dump:
  assumes "unat (tlv_length t) = 2 + length v"
  shows "private_extension_load stack t (open_stream (be16 i @ v @ r)) = (GotIe (PrivateExtensionIe t i v), open_stream r)"
proof -
  have v: "sread (map stack [0..<length v]) (open_stream (v @ r)) = (v, open_stream r)"
    by (rule sread_append) simp
  show ?thesis
    unfolding private_extension_load_def sread_known prod.case assms add_diff_cancel_left' of_be16_be16 v
    by (cases "v = []") simp_all
qed

lemma ie_load_dump:
  assumes "ie_types_ok lib" "wire_ie lib x"
  shows "new_gtpv1u_ie_from_stream lib stack (open_stream (ie_dump x @ r)) = (GotIe x, open_stream r)"
proof (cases x)
  case (PeerAddressIe t p)
  have "sread [0, 0, 0, 0] (open_stream (pa_v4 p @ r)) = (pa_v4 p, open_stream r)"
    using assms(2) PeerAddressIe by (intro sread_append) simp
  with assms PeerAddressIe show ?thesis
    by (cases p) (simp add: new_gtpv1u_ie_from_stream_def tlv_load_dump ie_types_distinct ie_types_ok_def
        peer_address_load_def Let_def)
next
  case (PrivateExtensionIe t i v)
  let ?t = "\<lparr>tlv_type = GTPU_IE_PRIVATE_EXTENSION lib, tlv_length = word_of_nat (2 + length v)\<rparr>"
  have t: "t = ?t" and small: "2 + length v < 2 ^ 16" using assms(2) PrivateExtensionIe by auto
  have len: "unat (tlv_length ?t) = 2 + length v"
    unfolding gtpv1u_tlv.simps unat_of_nat using small by (intro mod_less) simp
  then have nz: "tlv_length ?t \<noteq> 0" by (metis add_is_0 unsigned_0 zero_neq_numeral)
  have "private_extension_load stack ?t (open_stream (be16 i @ v @ r)) = (GotIe (PrivateExtensionIe ?t i v), open_stream r)"
    using len by (rule private_extension_load_dump)
  moreover have "new_gtpv1u_ie_from_stream lib stack (open_stream (tlv_dump ?t @ be16 i @ v @ r)) =
      private_extension_load stack ?t (open_stream (be16 i @ v @ r))"
    using assms(1) nz
    by (simp add: new_gtpv1u_ie_from_stream_def tlv_load_dump ie_types_distinct ie_types_ok_def del: of_nat_add)
  ultimately show ?thesis using PrivateExtensionIe t by simp
qed (use assms in auto)

text \<open>The length the sender and the receiver count for an element.\<close>

definition counted :: "gtpv1u_ie \<Rightarrow> nat" where
  "counted x = 4 + unat (tlv_length (ie_tlv x))"

lemma unat_word_ariths_no_wrap:
  "unat (a :: u16) + unat b < 2 ^ 16 \<Longrightarrow> unat (a + b) = unat a + unat b"
  by (simp add: unat_plus_if')

lemma unat_u16_less: "unat (w :: u16) < 2 ^ 16"
  by (rule order.strict_trans2 [OF unsigned_less]) simp

lemma load_ies_dump:
  assumes "ie_types_ok lib" "\<forall>x \<in> set ys. wire_ie lib x" "ys \<noteq> []"
    and "unat n + sum_list (map counted ys) = unat check"
  shows "load_ies lib stack check xs n (open_stream (concat (map ie_dump ys) @ r)) = LoadedIes (xs @ ys) check"
  using assms(2-)
proof (induction ys arbitrary: xs n)
  case (Cons y ys)
  let ?n = "n + (TLV_IE_LENGTH + tlv_length (ie_tlv y))"
  have bound: "unat n + counted y \<le> unat check" using Cons.prems(3) by simp
  then have n: "unat ?n = unat n + counted y"
    using unat_u16_less [of check] unat_word_ariths_no_wrap [of "TLV_IE_LENGTH" "tlv_length (ie_tlv y)"]
      unat_word_ariths_no_wrap [of n "TLV_IE_LENGTH + tlv_length (ie_tlv y)"]
    by (simp add: counted_def TLV_IE_LENGTH_def)
  have "load_ies lib stack check xs n (open_stream (concat (map ie_dump (y # ys)) @ r)) =
      (if ?n < check then load_ies lib stack check (xs @ [y]) ?n (open_stream (concat (map ie_dump ys) @ r))
       else LoadedIes (xs @ [y]) ?n)"
    using ie_load_dump [OF assms(1), of y stack] Cons.prems(1)
    by (subst load_ies.simps) (simp add: Let_def)
  also have "\<dots> = LoadedIes (xs @ y # ys) check"
  proof (cases "ys = []")
    case True
    then have "?n = check" using Cons.prems(3) n by (simp add: word_unat_eq_iff)
    with True show ?thesis by simp
  next
    case False
    then have "0 < sum_list (map counted ys)" by (cases ys) (auto simp: counted_def)
    then have "?n < check" using Cons.prems(3) n by (simp add: word_less_nat_alt)
    moreover have "load_ies lib stack check (xs @ [y]) ?n (open_stream (concat (map ie_dump ys) @ r)) =
        LoadedIes ((xs @ [y]) @ ys) check"
      by (rule Cons.IH) (use Cons.prems False n in auto)
    ultimately show ?thesis by simp
  qed
  finally show ?case .
qed simp

lemma load_ies_end: "load_ies lib stack check xs n (open_stream []) = LoadedIes xs n"
  by (subst load_ies.simps)
     (simp add: new_gtpv1u_ie_from_stream_def tlv_load_def sread_def open_stream_def)

lemma msg_load_dump:
  assumes "ie_types_ok lib" "header_ok m" "\<forall>x \<in> set (m_ies m). wire_ie lib x"
    and "unat (h_length m) = (if has_optional_fields m then 4 else 0) + sum_list (map counted (m_ies m))"
  shows "msg_load lib stack (msg_dump m) = Loaded m"
proof -
  have check: "unat (get_message_length_wo_xheader m) = sum_list (map counted (m_ies m))"
    using assms(4)
    by (simp add: get_message_length_wo_xheader_def OPTIONAL_FIELDS_BYTES_def unat_sub_if' split: if_splits)
  have same: "get_message_length_wo_xheader (m\<lparr>m_ies := []\<rparr>) = get_message_length_wo_xheader m"
    by (simp add: get_message_length_wo_xheader_def has_optional_fields_def)
  have "load_ies lib stack (get_message_length_wo_xheader m) [] 0 (open_stream (concat (map ie_dump (m_ies m)))) =
      LoadedIes (m_ies m) (get_message_length_wo_xheader m)"
  proof (cases "m_ies m = []")
    case True
    with check have "get_message_length_wo_xheader m = 0" by (simp add: unat_eq_0)
    with True show ?thesis by (simp add: load_ies_end)
  next
    case False
    then show ?thesis
      using load_ies_dump [OF assms(1,3) False, of 0 "get_message_length_wo_xheader m" stack "[]" "[]"] check by simp
  qed
  then show ?thesis using header_load_dump [OF assms(2), of "concat (map ie_dump (m_ies m))"]
    by (simp add: msg_load_def msg_dump_def same)
qed

lemma msg_load_dump_plain:
  assumes "header_ok m" "m_ies m = []" "unat (h_length m) = (if has_optional_fields m then 4 else 0)"
  shows "msg_load lib stack (msg_dump m) = Loaded m"
proof -
  have "h_length m = word_of_nat (if has_optional_fields m then 4 else 0)" 
    using assms(3) by (simp add: word_unat_eq_iff)
  then have "get_message_length_wo_xheader m = 0"
    by (simp add: get_message_length_wo_xheader_def OPTIONAL_FIELDS_BYTES_def)
  moreover have "get_message_length_wo_xheader (m\<lparr>m_ies := []\<rparr>) = get_message_length_wo_xheader m"
    by (simp add: get_message_length_wo_xheader_def has_optional_fields_def)
  ultimately show ?thesis
    using header_load_dump [OF assms(1), of "[]"] assms(2) by (simp add: msg_load_def msg_dump_def load_ies_end)
qed

text \<open>What the stack writes it reads back. For every message with a well-formed header whose
  length counts its optional block and its elements, and whose elements are IPv4 peer addresses and
  private extensions of any content, decoding the encoded bytes returns the message itself.\<close>

lemma gtpu_message_roundtrip:
  assumes "ie_types_ok lib" "header_ok m" "\<forall>x \<in> set (m_ies m). wire_ie lib x"
    and "unat (h_length m) = (if has_optional_fields m then 4 else 0) + sum_list (map counted (m_ies m))"
  shows "msg_load lib stack (msg_dump m) = Loaded m"
  using assms by (rule msg_load_dump)

text \<open>The numbers of TS 29.281, for examples.\<close>

definition ex_gtpu_lib :: gtpu_lib where
  "ex_gtpu_lib =
     \<lparr>GTPU_ECHO_REQUEST = 1, GTPU_ECHO_RESPONSE = 2, GTPU_ERROR_INDICATION = 26,
      GTPU_SUPPORTED_EXTENSION_HEADERS_NOTIFICATION = 31, GTPU_END_MARKER = 254, GTPU_G_PDU = 255,
      GTPU_IE_RECOVERY = 14, GTPU_IE_TUNNEL_ENDPOINT_IDENTIFIER_DATA_I = 16, GTPU_IE_GTP_U_PEER_ADDRESS = 133,
      GTPU_IE_PRIVATE_EXTENSION = 255, GTPU_PDU_SESSION_CONTAINER = 0x85, GTPU_NO_MORE_EXTENSION_HEADER = 0,
      GTPU_DL_PDU_SESSION_INFORMATION = 0\<rparr>"

lemma ex_gtpu_lib_ok: "ie_types_ok ex_gtpu_lib"
  by (simp add: ie_types_ok_def ex_gtpu_lib_def)

section \<open>Where sender and standard disagree\<close>

text \<open>The element that opens an Error Indication has no length field, and the reader takes a missing
  length for an absent element: of the messages this stack sends, it reads none of the elements of
  an Error Indication.\<close>

lemma tv_element_ends_the_list:
  assumes "tlv_type t AND 0x80 = 0"
  shows "load_ies lib stack check xs n (open_stream (tlv_dump t @ r)) = LoadedIes xs n"
  using assms
  by (subst load_ies.simps)
     (simp add: new_gtpv1u_ie_from_stream_def tlv_load_def tlv_dump_def sread_known)

text \<open>A private extension as the standard counts it: 3 bytes for type and length, not 4.\<close>

lemma standard_private_extension_refused:
  assumes "ie_types_ok lib" "9 + length v < 2 ^ 16" "h_flags m = 0x32" "header_ok m"
    and "h_length m = word_of_nat (4 + (3 + 2 + length v))"
  shows "msg_load lib stack (header_dump m @ ie_dump (private_extension_ie lib (i, v))) = MsgBadLength"
proof -
  let ?x = "private_extension_ie lib (i, v)"
  have opt: "has_optional_fields m" using assms(3) by (simp add: has_optional_fields_def S_PN_E_MASK_def)
  have same: "get_message_length_wo_xheader (m\<lparr>m_ies := []\<rparr>) = get_message_length_wo_xheader m"
    by (simp add: get_message_length_wo_xheader_def has_optional_fields_def)
  have check: "get_message_length_wo_xheader m = word_of_nat (5 + length v)"
    using opt assms(5) by (simp add: get_message_length_wo_xheader_def OPTIONAL_FIELDS_BYTES_def)
  have n: "TLV_IE_LENGTH + tlv_length (ie_tlv ?x) = word_of_nat (6 + length v)"
    by (simp add: TLV_IE_LENGTH_def private_extension_ie_def)
  have less: "(word_of_nat (5 + length v) :: u16) < word_of_nat (6 + length v)"
    unfolding word_less_nat_alt unat_of_nat using assms(2) by simp
  have "wire_ie lib ?x" using assms(2) by (simp add: private_extension_ie_def)
  from ie_load_dump [OF assms(1) this, of stack "[]"]
  have ld: "new_gtpv1u_ie_from_stream lib stack (open_stream (ie_dump ?x)) = (GotIe ?x, open_stream [])" by simp
  have ge: "\<not> (word_of_nat (6 + length v) :: u16) < word_of_nat (5 + length v)" using less by (metis order.asym)
  have "load_ies lib stack (get_message_length_wo_xheader m) [] 0 (open_stream (ie_dump ?x)) =
      LoadedIes [?x] (word_of_nat (6 + length v))"
    unfolding check by (subst load_ies.simps)
      (simp only: ld prod.case ie_result.case Let_def n add_0 ge if_False append_Nil)
  with header_load_dump [OF assms(4), of "ie_dump ?x"] less show ?thesis
    by (simp add: msg_load_def same check del: of_nat_add of_nat_Suc)
qed

section \<open>Datagrams\<close>

lemma send_in_front_datagram:
  assumes "room \<le> off" "off + len \<le> length buf" "length hdr = room"
  shows "send_in_front room hdr buf off len =
     Some (take (off - room) buf @ hdr @ drop off buf, hdr @ take len (drop off buf))"
proof -
  have a: "off - room + length hdr = off" using assms by simp
  have b: "drop (off - room) (take (off - room) buf @ hdr @ drop off buf) = hdr @ drop off buf"
    using assms by simp
  have c: "take (len + room) (hdr @ drop off buf) = hdr @ take len (drop off buf)"
    using assms(3) by simp
  show ?thesis using assms(1) unfolding send_in_front_def Let_def a b c by simp
qed

lemma length_g_pdu_header: "length (g_pdu_header lib e teid len qfi) = (if e then 16 else 8)"
  by (simp add: g_pdu_header_def)

end
