(* ===== verification/UpfN3.thy ===== *)
theory UpfN3
  imports Datapath GtpuMessages GtpuWalk
begin

text \<open>
  The N3 side of the UPF (\<open>simpleswitch/simple_switch.cpp\<close>) with the part of the application task that
  answers echoes (\<open>app/upf_app.cpp\<close>): a datagram from a gNB is a user packet for the switch or a
  signalling message, which the tasks hand to each other through ITTI queues. A datagram lies in a
  receive buffer that keeps older bytes behind it. The conversion of an endpoint to a GTP-U peer
  address comes from a library: a parameter.
\<close>

unbundle bit_operations_syntax

section \<open>State\<close>

record n3_env =
  n3_dp :: dp_env
  n3_lib :: gtpu_lib
  n3_send_ext_hdr :: bool
  n3_stack :: "nat \<Rightarrow> byte"
  endpoint_to_gtp_u_peer_address :: "byte list \<Rightarrow> gtp_u_peer_address option"

datatype n3_task_msg = N3EchoResponse gtpv1u_ies | N3ErrorIndication gtpv1u_ies

record upf_n3 =
  n3_path :: datapath_state
  app_queue :: "gtpv1u_ies list"
  n3_queue :: "n3_task_msg list"
  n3_sent :: "(byte list \<times> byte list) list"
  n3_dropped :: nat

section \<open>Reports and echoes\<close>

definition report_error_indication :: "n3_env \<Rightarrow> byte list \<Rightarrow> u32 \<Rightarrow> gtpv1u_ies option" where
  "report_error_indication e ep tunnel_id =
     (case endpoint_to_gtp_u_peer_address e ep of
        None \<Rightarrow> None
      | Some p \<Rightarrow>
          Some (gtpv1u_ies_new\<lparr>c_endpoint := ep, c_teid := (True, 0), c_teid_data := (True, tunnel_id),
                               c_peer_address := (True, p)\<rparr>))"

text \<open>What the switch reported in a run goes to the queue of the N3 task.\<close>

fun reported :: "n3_env \<Rightarrow> dp_event \<Rightarrow> n3_task_msg list" where
  "reported e (ErrorIndication ep teid) =
     (case report_error_indication e ep teid of None \<Rightarrow> [] | Some s \<Rightarrow> [N3ErrorIndication s])"
| "reported e _ = []"

definition run_switch :: "n3_env \<Rightarrow> (datapath_state \<Rightarrow> datapath_state option) \<Rightarrow> upf_n3 \<Rightarrow> upf_n3 option" where
  "run_switch e f s =
     map_option (\<lambda>d. s\<lparr>n3_path := d,
         n3_queue := n3_queue s @ concat (map (reported e) (drop (length (d_log (n3_path s))) (d_log d)))\<rparr>)
       (f (n3_path s))"

text \<open>\<open>None\<close>: an element an Echo Request does not have throws.\<close>

definition handle_receive_echo_request :: "gtpv1u_msg \<Rightarrow> byte list \<Rightarrow> upf_n3 \<Rightarrow> upf_n3 option" where
  "handle_receive_echo_request m ep s =
     (case ies_to_core EchoRequestIes (m_ies m) gtpv1u_ies_new of
        None \<Rightarrow> None
      | Some c \<Rightarrow>
          let c = c\<lparr>c_endpoint := ep, c_teid := (True, h_teid m)\<rparr>;
              c = (case get_sequence_number m of None \<Rightarrow> c | Some n \<Rightarrow> c\<lparr>c_sequence_number := (True, n)\<rparr>)
          in Some (s\<lparr>app_queue := app_queue s @ [c]\<rparr>))"

definition handle_receive_gtpv1u_msg :: "n3_env \<Rightarrow> gtpv1u_msg \<Rightarrow> byte list \<Rightarrow> upf_n3 \<Rightarrow> upf_n3 option" where
  "handle_receive_gtpv1u_msg e m ep s =
     (if h_type m = GTPU_ECHO_REQUEST (n3_lib e) then handle_receive_echo_request m ep s else Some s)"

section \<open>Receiving\<close>

text \<open>A G-PDU whose user packet is found: by IP version to the look-ups, of which the IPv6 one is
  empty.\<close>

definition dispatch_g_pdu :: "n3_env \<Rightarrow> byte list \<Rightarrow> byte list \<Rightarrow> u32 \<Rightarrow> upf_n3 \<Rightarrow> upf_n3 option" where
  "dispatch_g_pdu e pkt ep tunnel_id s =
     (if ip_version pkt = 4 then run_switch e (look_up_access (n3_dp e) pkt ep tunnel_id False) s else Some s)"

text \<open>The outer result is \<open>None\<close> when a look-up does not return. Messages without GTP version 1 go to
  overloads with empty bodies.\<close>

definition n3_handle_receive :: "n3_env \<Rightarrow> byte list \<Rightarrow> nat \<Rightarrow> byte list \<Rightarrow> upf_n3 \<Rightarrow> upf_n3 option" where
  "n3_handle_receive e recv_buffer bytes ep s =
     (let dg = take bytes recv_buffer
      in if drop_bit 5 (recv_buffer ! 0) = 1 then
           if recv_buffer ! 1 = GTPU_G_PDU (n3_lib e) then
             (case gtpu_inner dg of
                Inner off len \<Rightarrow> dispatch_g_pdu e (take len (drop off dg)) ep (of_be32 (take 4 (drop 4 recv_buffer))) s
              | _ \<Rightarrow> Some (s\<lparr>n3_dropped := Suc (n3_dropped s)\<rparr>))
           else
             (case msg_load (n3_lib e) (n3_stack e) dg of
                MsgBadLength \<Rightarrow> Some s
              | Loaded m \<Rightarrow> (case handle_receive_gtpv1u_msg e m ep s of None \<Rightarrow> Some s | Some s' \<Rightarrow> Some s'))
         else Some s)"

section \<open>The tasks\<close>

text \<open>The application answers an echo with its endpoint, TEID and sequence number.\<close>

definition app_echo_response :: "gtpv1u_ies \<Rightarrow> gtpv1u_ies" where
  "app_echo_response q =
     gtpv1u_ies_new\<lparr>c_endpoint := c_endpoint q, c_teid := c_teid q, c_sequence_number := c_sequence_number q\<rparr>"

definition app_task_step :: "upf_n3 \<Rightarrow> upf_n3" where
  "app_task_step s =
     (case app_queue s of
        [] \<Rightarrow> s
      | q # qs \<Rightarrow> s\<lparr>app_queue := qs, n3_queue := n3_queue s @ [N3EchoResponse (app_echo_response q)]\<rparr>)"

fun n3_handle_itti_msg :: "gtpu_lib \<Rightarrow> n3_task_msg \<Rightarrow> byte list \<times> byte list" where
  "n3_handle_itti_msg lib (N3EchoResponse s) = send_echo_response lib s"
| "n3_handle_itti_msg lib (N3ErrorIndication s) = send_indication lib s"

definition n3_task_step :: "n3_env \<Rightarrow> upf_n3 \<Rightarrow> upf_n3" where
  "n3_task_step e s =
     (case n3_queue s of
        [] \<Rightarrow> s
      | m # ms \<Rightarrow> s\<lparr>n3_queue := ms, n3_sent := n3_sent s @ [n3_handle_itti_msg (n3_lib e) m]\<rparr>)"

section \<open>User packets\<close>

text \<open>For examples.\<close>

definition ex_n3 :: n3_env where
  "ex_n3 = \<lparr>n3_dp = ex_dp, n3_lib = ex_gtpu_lib, n3_send_ext_hdr = True, n3_stack = (\<lambda>_. 0),
     endpoint_to_gtp_u_peer_address = (\<lambda>ep. Some \<lparr>pa_is_v4 = True, pa_v4 = ep, pa_v6 = replicate 16 0\<rparr>)\<rparr>"

definition ex_n3_state :: "datapath_state \<Rightarrow> upf_n3" where
  "ex_n3_state d = \<lparr>n3_path = d, app_queue = [], n3_queue = [], n3_sent = [], n3_dropped = 0\<rparr>"

lemma ex_n3_simps:
  "n3_lib ex_n3 = ex_gtpu_lib" "n3_dp ex_n3 = ex_dp" "GTPU_G_PDU ex_gtpu_lib = 255" "GTPU_ECHO_REQUEST ex_gtpu_lib = 1"
  "GTPU_ECHO_RESPONSE ex_gtpu_lib = 2" "GTPU_ERROR_INDICATION ex_gtpu_lib = 26"
  "GTPU_IE_TUNNEL_ENDPOINT_IDENTIFIER_DATA_I ex_gtpu_lib = 16" "GTPU_IE_GTP_U_PEER_ADDRESS ex_gtpu_lib = 133"
  "app_queue (ex_n3_state d) = []" "n3_queue (ex_n3_state d) = []" "n3_sent (ex_n3_state d) = []"
  "n3_path (ex_n3_state d) = d" "be16 0x1234 = [0x12, 0x34]" "be16 4 = [0, 4]" "be16 16 = [0, 16]"
  "be32 0 = [0, 0, 0, 0]" "be32 9 = [0, 0, 0, 9]"
  "endpoint_to_gtp_u_peer_address ex_n3 ep = Some \<lparr>pa_is_v4 = True, pa_v4 = ep, pa_v6 = replicate 16 0\<rparr>"
  by (simp_all add: ex_n3_def ex_n3_state_def ex_gtpu_lib_def be16_def be32_def)

lemma ex_ext_ok: "\<forall>x \<in> set [(0x85, [0x10, 5])]. ext_ok x"
  by (auto simp: ext_ok_def intro: exI [of _ 1])

lemma g_pdu_looked_up:
  assumes "drop_bit 5 flags = 1" "length opt = 3" "\<forall>x \<in> set xs. ext_ok x" "xs = [] \<or> flags AND GTPU_E \<noteq> 0"
    and "pkt \<noteq> []" "ip_version pkt = 4"
    and dg_def: "dg = enc_gpdu flags ([GTPU_G_PDU (n3_lib e)] @ be16 len @ be32 teid) opt xs pkt"
  shows "n3_handle_receive e (dg @ older) (length dg) ep s =
           run_switch e (look_up_access (n3_dp e) pkt ep teid False) s"
proof -
  let ?rest = "[GTPU_G_PDU (n3_lib e)] @ be16 len @ be32 teid"
  have inner: "gtpu_inner dg = Inner (length dg - length pkt) (length pkt)"
    unfolding dg_def by (rule gtpu_inner_enc) (use assms(2-5) in \<open>auto simp: be16_def be32_def\<close>)
  obtain h where h: "dg = h @ pkt" unfolding dg_def enc_gpdu_def by (metis append.assoc append_Cons)
  obtain t where t: "dg = [flags, GTPU_G_PDU (n3_lib e)] @ be16 len @ be32 teid @ t"
    unfolding dg_def enc_gpdu_def by simp
  have "take 4 (drop 4 (dg @ older)) = be32 teid" by (simp add: t be16_def be32_def)
  moreover have "(dg @ older) ! 0 = flags" "(dg @ older) ! 1 = GTPU_G_PDU (n3_lib e)" by (simp_all add: t)
  moreover have "take (length pkt) (drop (length dg - length pkt) dg) = pkt" unfolding h by simp
  ultimately show ?thesis
    using assms(1,6) inner by (simp add: n3_handle_receive_def dispatch_g_pdu_def Let_def)
qed

text \<open>C27: an uplink packet reaches the switch as the UE sent it. A datagram with a well-formed GTP-U
  header, optional block and extension headers around an IPv4 packet is handed to the look-up as
  exactly that packet, with the tunnel identifier of the header, whatever older bytes follow it in
  the receive buffer.\<close>

theorem g_pdu_is_looked_up:
  assumes "drop_bit 5 flags = 1" "length opt = 3" "\<forall>x \<in> set xs. ext_ok x" "xs = [] \<or> flags AND GTPU_E \<noteq> 0"
    and "pkt \<noteq> []" "ip_version pkt = 4"
    and dg_def: "dg = enc_gpdu flags ([GTPU_G_PDU (n3_lib e)] @ be16 len @ be32 teid) opt xs pkt"
  shows "n3_handle_receive e (dg @ older) (length dg) ep s =
           run_switch e (look_up_access (n3_dp e) pkt ep teid False) s"
  using assms(1-6) unfolding dg_def by (rule g_pdu_looked_up) rule

theorem g_pdu_is_looked_up_witness:
  "\<forall>s. n3_handle_receive ex_n3 (enc_gpdu 0x34 ([255] @ be16 36 @ be32 1) [0, 0, 0] [(0x85, [0x10, 5])] ex_up @ [7, 7, 7]) 44 [] s =
     run_switch ex_n3 (look_up_access ex_dp ex_up [] 1 False) s"
proof
  fix s
  let ?dg = "enc_gpdu 0x34 ([255] @ be16 36 @ be32 1) [0, 0, 0] [(0x85, [0x10, 5])] ex_up"
  have l: "length ?dg = 44" by (simp add: enc_gpdu_def GTPU_E_def GTPU_S_def GTPU_PN_def ex_up_def)
  have "n3_handle_receive ex_n3 (?dg @ [7, 7, 7]) (length ?dg) [] s =
      run_switch ex_n3 (look_up_access (n3_dp ex_n3) ex_up [] 1 False) s"
    by (rule g_pdu_is_looked_up [OF _ _ ex_ext_ok, where opt = "[0, 0, 0]" and flags = "0x34" and len = 36])
       (simp_all add: ex_n3_simps GTPU_E_def ex_up_def ip_version_def)
  then show "n3_handle_receive ex_n3 (?dg @ [7, 7, 7]) 44 [] s = run_switch ex_n3 (look_up_access ex_dp ex_up [] 1 False) s"
    unfolding l ex_n3_simps .
qed

section \<open>Signalling\<close>

text \<open>An echo is answered. A well-formed Echo Request with a sequence number and no private
  extension is answered, once both tasks have run, by exactly one datagram: an Echo Response to the
  sender with the TEID and the sequence number of the request and a correct length.\<close>

lemma echo_is_answered:
  assumes "header_ok m" "drop_bit 5 (h_flags m) = 1" "h_flags m AND 2 \<noteq> 0" "h_length m = 4" "m_ies m = []"
    and "h_type m = GTPU_ECHO_REQUEST (n3_lib e)" "GTPU_ECHO_REQUEST (n3_lib e) \<noteq> GTPU_G_PDU (n3_lib e)"
    and "app_queue s = []" "n3_queue s = []"
  shows "\<exists>s'. n3_handle_receive e (msg_dump m @ older) (length (msg_dump m)) ep s = Some s' \<and>
           n3_sent (n3_task_step e (app_task_step s')) = n3_sent s @
             [([0x32, GTPU_ECHO_RESPONSE (n3_lib e)] @ be16 4 @ be32 (h_teid m) @ be16 (h_seq m) @ [0, 0], ep)]"
proof -
  have opt: "has_optional_fields m"
  proof -
    have "h_flags m AND 2 = (h_flags m AND 7) AND 2" by (simp add: and.assoc)
    with assms(3) show ?thesis unfolding has_optional_fields_def S_PN_E_MASK_def by auto
  qed
  have load: "msg_load (n3_lib e) (n3_stack e) (msg_dump m) = Loaded m"
    using msg_load_dump_plain [OF assms(1)] assms(4,5) opt by simp
  have flags: "h_flags m AND NOT 8 = h_flags m" using assms(1) clear_spare unfolding header_ok_def by blast
  have first: "(msg_dump m @ older) ! 0 = h_flags m" "(msg_dump m @ older) ! 1 = h_type m"
    unfolding msg_dump_def header_dump_def flags by simp_all
  let ?c = "gtpv1u_ies_new\<lparr>c_endpoint := ep, c_teid := (True, h_teid m), c_sequence_number := (True, h_seq m)\<rparr>"
  have "n3_handle_receive e (msg_dump m @ older) (length (msg_dump m)) ep s = Some (s\<lparr>app_queue := [?c]\<rparr>)"
    using assms(2,3,5-9) first load
    by (simp add: n3_handle_receive_def handle_receive_gtpv1u_msg_def handle_receive_echo_request_def
        get_sequence_number_def Let_def)
  moreover have "n3_handle_itti_msg (n3_lib e) (N3EchoResponse (app_echo_response ?c)) =
      ([0x32, GTPU_ECHO_RESPONSE (n3_lib e)] @ be16 4 @ be32 (h_teid m) @ be16 (h_seq m) @ [0, 0], ep)"
    by (simp add: app_echo_response_def send_echo_response_def echo_response_msg_def send_signalling_def
        gtpv1u_ies_new_def add_private_extension_def gtpv1u_msg_new_def set_sequence_number_def has_optional_fields_def
        S_PN_E_MASK_def msg_dump_def header_dump_def Let_def OPTIONAL_FIELDS_BYTES_def)
  ultimately show ?thesis using assms(9)
    by (simp add: app_task_step_def n3_task_step_def)
qed

lemma error_indication_wire:
  assumes "ie_types_ok lib" "pa_is_v4 p"
  shows "send_indication lib (gtpv1u_ies_new\<lparr>c_endpoint := ep, c_teid := (True, 0), c_teid_data := (True, teid),
           c_peer_address := (True, p)\<rparr>) =
     ([0x32, GTPU_ERROR_INDICATION lib] @ be16 16 @ be32 0 @ [0, 0, 0, 0] @
      [GTPU_IE_TUNNEL_ENDPOINT_IDENTIFIER_DATA_I lib] @ be32 teid @
      [GTPU_IE_GTP_U_PEER_ADDRESS lib] @ be16 4 @ pa_v4 p, ep)"
  using assms
  by (simp add: send_indication_def error_indication_msg_def send_signalling_def gtpv1u_ies_new_def
      add_private_extension_def gtpv1u_msg_new_def set_sequence_number_def has_optional_fields_def S_PN_E_MASK_def
      msg_dump_def header_dump_def Let_def OPTIONAL_FIELDS_BYTES_def TLV_IE_LENGTH_def add_ie_def teid_data_ie_def
      peer_address_ie_def tlv_dump_def ie_types_ok_def)
     (simp add: be16_def)

text \<open>A packet for an unknown tunnel is reported to the gNB that sent it. When no rule is filed
  under the tunnel of an uplink packet, the N3 task sends one datagram back to the sender: an Error
  Indication with a zero TEID in its header, the unknown tunnel and the peer's IPv4 address as its
  elements, and a length that counts exactly the 16 bytes behind the mandatory header.\<close>

lemma unknown_tunnel_is_reported:
  assumes "drop_bit 5 flags = 1" "length opt = 3" "\<forall>x \<in> set xs. ext_ok x" "xs = [] \<or> flags AND GTPU_E \<noteq> 0"
    and "pkt \<noteq> []" "ip_version pkt = 4"
    and dg_def: "dg = enc_gpdu flags ([GTPU_G_PDU (n3_lib e)] @ be16 len @ be32 teid) opt xs pkt"
    and "\<not> bypass_ul_pfcp_rules (dp_cfg (n3_dp e))" "get_pfcp_ul_pdrs_by_up_teid (d_sw (n3_path s)) teid = None"
    and "endpoint_to_gtp_u_peer_address e ep = Some p" "pa_is_v4 p" "length (pa_v4 p) = 4"
    and "ie_types_ok (n3_lib e)" "n3_queue s = []"
  shows "\<exists>s' bytes. n3_handle_receive e (dg @ older) (length dg) ep s = Some s' \<and>
     n3_sent (n3_task_step e s') = n3_sent s @ [(bytes, ep)] \<and> length bytes = 8 + 16 \<and>
     bytes = [0x32, GTPU_ERROR_INDICATION (n3_lib e)] @ be16 16 @ be32 0 @ [0, 0, 0, 0] @
        [GTPU_IE_TUNNEL_ENDPOINT_IDENTIFIER_DATA_I (n3_lib e)] @ be32 teid @
        [GTPU_IE_GTP_U_PEER_ADDRESS (n3_lib e)] @ be16 4 @ pa_v4 p"
proof -
  have rx: "n3_handle_receive e (dg @ older) (length dg) ep s =
      run_switch e (look_up_access (n3_dp e) pkt ep teid False) s"
    unfolding dg_def by (rule g_pdu_looked_up) (use assms(1-6) in auto)
  have up: "look_up_access (n3_dp e) pkt ep teid False (n3_path s) = Some (emit (ErrorIndication ep teid) (n3_path s))"
    using assms(8,9) by (simp add: look_up_access_def)
  let ?c = "gtpv1u_ies_new\<lparr>c_endpoint := ep, c_teid := (True, 0), c_teid_data := (True, teid), c_peer_address := (True, p)\<rparr>"
  have "run_switch e (look_up_access (n3_dp e) pkt ep teid False) s =
      Some (s\<lparr>n3_path := emit (ErrorIndication ep teid) (n3_path s), n3_queue := [N3ErrorIndication ?c]\<rparr>)"
    using assms(10,14) up by (simp add: run_switch_def emit_def report_error_indication_def)
  then show ?thesis
    unfolding rx using error_indication_wire [OF assms(13,11), where ep = ep and teid = teid] assms(12)
    by (simp add: n3_task_step_def)
qed

section \<open>Downlink packets in their tunnel\<close>

lemma ext_header_bytes:
  "g_pdu_header lib True teid len qfi @ pkt =
     enc_gpdu 0x34 ([GTPU_G_PDU lib] @ be16 (word_of_nat (len + 4 + 4)) @ be32 teid) [0, 0, 0]
       [(GTPU_PDU_SESSION_CONTAINER lib, [GTPU_DL_PDU_SESSION_INFORMATION lib, qfi])] pkt"
  if "GTPU_NO_MORE_EXTENSION_HEADER lib = 0"
  using that
  by (simp add: g_pdu_header_def enc_gpdu_def GTPU_E_def GTPU_S_def GTPU_PN_def first_type_def del: of_nat_add)

lemma plain_header_bytes:
  "g_pdu_header lib False teid len qfi @ pkt =
     enc_gpdu 0x30 ([GTPU_G_PDU lib] @ be16 (word_of_nat len) @ be32 teid) [0, 0, 0] [] pkt"
  by (simp add: g_pdu_header_def enc_gpdu_def GTPU_E_def GTPU_S_def GTPU_PN_def)

text \<open>C31: what the UPF puts into a tunnel comes out of it. For every packet that lies in a buffer with
  room for the header in front of it, the datagram is a GTP-U G-PDU in which the walk of the receiving
  side finds exactly the packet; its tunnel identifier is the one of the FAR, its QFI the given one
  when the extension header is sent, its length field counts all bytes behind the mandatory header
  (while it fits 16 bits), and no byte of the packet or before the header is touched.\<close>

theorem sent_g_pdu_is_read_back:
  assumes "GTPU_PDU_SESSION_CONTAINER lib \<noteq> 0" "GTPU_NO_MORE_EXTENSION_HEADER lib = 0"
    and "(if ext then 16 else 8) \<le> off" "off + len \<le> length buf" "0 < len"
  shows "\<exists>buf' dg. send_g_pdu lib ext buf off len teid qfi = Some (buf', dg) \<and>
     gtpu_inner dg = Inner (length dg - len) len \<and> drop (length dg - len) dg = take len (drop off buf) \<and>
     dg ! 1 = GTPU_G_PDU lib \<and> take 4 (drop 4 dg) = be32 teid \<and> (ext \<longrightarrow> dg ! 14 = qfi) \<and>
     (length dg - 8 < 2 ^ 16 \<longrightarrow> unat (of_be16 (take 2 (drop 2 dg))) = length dg - 8) \<and>
     drop off buf' = drop off buf \<and> take (off - 16) buf' = take (off - 16) buf"
proof -
  define h where "h = g_pdu_header lib ext teid len qfi"
  define p where "p = take len (drop off buf)"
  have h: "length h = (if ext then 16 else 8)" by (simp add: h_def length_g_pdu_header)
  have p: "length p = len" "p \<noteq> []" using assms(4,5) by (auto simp: p_def)
  have sent: "send_g_pdu lib ext buf off len teid qfi =
      Some (take (off - length h) buf @ h @ drop off buf, h @ p)"
    unfolding send_g_pdu_def p_def h h_def [symmetric]
    by (rule send_in_front_datagram) (use assms h in auto)
  have "gtpu_inner (h @ p) = Inner (length (h @ p) - length p) (length p)"
  proof (cases ext)
    case True
    have ok: "\<forall>x \<in> set [(GTPU_PDU_SESSION_CONTAINER lib, [GTPU_DL_PDU_SESSION_INFORMATION lib, qfi])]. ext_ok x"
      using assms(1) by (auto simp: ext_ok_def intro: exI [of _ 1])
    show ?thesis unfolding h_def using True ext_header_bytes [OF assms(2)] p(2)
      by simp (rule gtpu_inner_enc [OF _ _ ok], simp_all add: GTPU_E_def)
  next
    case False
    then show ?thesis unfolding h_def using plain_header_bytes p(2)
      by simp (rule gtpu_inner_enc, simp_all)
  qed
  moreover have "(h @ p) ! 1 = GTPU_G_PDU lib" "take 4 (drop 4 (h @ p)) = be32 teid" "ext \<longrightarrow> (h @ p) ! 14 = qfi"
    by (simp_all add: h_def g_pdu_header_def be16_def be32_def)
  moreover have "take 2 (drop 2 (h @ p)) = be16 (word_of_nat (length (h @ p) - 8))"
    using p(1) by (cases ext) (simp_all add: h_def g_pdu_header_def be16_def be32_def ac_simps)
  moreover have "drop off (take (off - length h) buf @ h @ drop off buf) = drop off buf \<and>
    take (off - 16) (take (off - length h) buf @ h @ drop off buf) = take (off - 16) buf"
  proof -
    have r: "length h \<le> off" "off \<le> length buf" "length h \<le> 16" using assms(3,4) h by (auto split: if_splits)
    then have "min (length buf) (off - length h) = off - length h" "min (off - 16) (off - length h) = off - 16"
      "off - (16 + (off - length h)) = 0" by auto
    with r show ?thesis by simp
  qed
  ultimately show ?thesis
    using sent p(1) by (simp add: p_def unat_of_nat)
qed

theorem sent_g_pdu_is_read_back_witness:
  "\<exists>buf' dg. send_g_pdu ex_gtpu_lib True (replicate 64 0 @ ex_down) 64 28 77 5 = Some (buf', dg) \<and>
     gtpu_inner dg = Inner (length dg - 28) 28 \<and> drop (length dg - 28) dg = ex_down \<and> dg ! 14 = 5"
  using sent_g_pdu_is_read_back [of ex_gtpu_lib True 64 28 "replicate 64 0 @ ex_down" 77 5]
  by (simp add: ex_gtpu_lib_def ex_down_def) blast

text \<open>A user packet that is sent on from where it was received has only the received header in front
  of it: behind a header without extensions there is no room for one with.\<close>

lemma loop_back_leaves_the_buffer: "send_g_pdu lib True (h @ pkt) (length h) len teid qfi = None" if "length h = 8"
  using that by (simp add: send_g_pdu_def send_in_front_def)

text \<open>To an IPv6 peer four stray bytes go in front of the packet.\<close>

lemma v6_datagram_has_stray_bytes:
  assumes "12 \<le> off" "off + len \<le> length buf"
  shows "\<exists>buf' dg. send_g_pdu_v6 lib buf off len teid = Some (buf', dg) \<and> gtpu_inner dg = Inner 8 (len + 4) \<and>
     drop 8 dg = take 4 (drop (off - 4) buf) @ take len (drop off buf)"
proof -
  let ?h = "g_pdu_header lib False teid len 0"
  have h: "length ?h = 8" by (simp add: length_g_pdu_header)
  have e: "off - 12 + 8 = off - 4" using assms(1) by simp
  have d: "drop (off - 12) (take (off - 12) buf @ ?h @ drop (off - 4) buf) = ?h @ drop (off - 4) buf"
    using assms by simp
  have t: "take (len + 12) (?h @ drop (off - 4) buf) = ?h @ take (len + 4) (drop (off - 4) buf)"
    by (simp add: h add.commute)
  have "drop 4 (drop (off - 4) buf) = drop off buf" using assms(1) by simp
  then have t': "take (len + 4) (drop (off - 4) buf) = take 4 (drop (off - 4) buf) @ take len (drop off buf)"
    using take_add [of 4 len "drop (off - 4) buf"] by (metis add.commute)
  have nl: "(off < 12) = False" using assms(1) by simp
  have s: "send_g_pdu_v6 lib buf off len teid =
      Some (take (off - 12) buf @ ?h @ drop (off - 4) buf, ?h @ take 4 (drop (off - 4) buf) @ take len (drop off buf))"
    by (simp only: send_g_pdu_v6_def send_in_front_def Let_def h e d t t' nl if_False)
  define p where "p = take 4 (drop (off - 4) buf) @ take len (drop off buf)"
  have l: "length p = len + 4" using assms by (simp add: p_def)
  then have "p \<noteq> []" by auto
  then have "gtpu_inner (?h @ p) = Inner 8 (len + 4)"
    using gtpu_inner_enc [of "[GTPU_G_PDU lib] @ be16 (word_of_nat len) @ be32 teid" "[0, 0, 0]" "[]" p "0x30"] l
    unfolding plain_header_bytes by (simp add: enc_gpdu_def GTPU_E_def GTPU_S_def GTPU_PN_def)
  moreover have "drop 8 (?h @ p) = p" by (simp add: h)
  ultimately show ?thesis using s unfolding p_def [symmetric] by blast
qed

end
