(* ===== verification/PfcpAssociations.thy ===== *)
theory PfcpAssociations
  imports PfcpHandlers "HOL-Library.AList"
begin

text \<open>
  PFCP associations (\<open>app/upf_pfcp_association.cpp\<close>): the peers the UPF is associated with, the sessions
  each of them set up, and the candidates it waits for. This theory has the operations on that state;
  those that arm a timer or send are in \<open>UpfN4\<close>. The hash of a node id, its type and address, and the
  order of F-SEIDs come from the PFCP library: the parameter \<open>node_lib\<close>. The hash map is a list of
  entries in its iteration order, with a new key at the end: nothing proved depends on where.
\<close>

section \<open>State\<close>

datatype node_id_type = NODE_ID_TYPE_IPV4_ADDRESS | NODE_ID_TYPE_IPV6_ADDRESS | NODE_ID_TYPE_FQDN

record node_lib =
  node_hash :: "payload \<Rightarrow> u64"
  node_id_type_of :: "payload \<Rightarrow> node_id_type"
  node_ipv4_address :: "payload \<Rightarrow> u32"
  fseid_less :: "fseid \<Rightarrow> fseid \<Rightarrow> bool"

definition PFCP_ASSOCIATION_HEARTBEAT_MAX_RETRIES :: int where
  "PFCP_ASSOCIATION_HEARTBEAT_MAX_RETRIES = 5"

definition ITTI_INVALID_TIMER_ID :: u32 where "ITTI_INVALID_TIMER_ID = 0"

record pfcp_association =
  as_node_id :: payload
  as_peer_addr :: u32
  as_has_peer_addr :: bool
  as_hash_node_id :: u64
  as_recovery_time_stamp :: u32
  as_function_features :: "payload ie"
  as_sessions :: "fseid list"
  as_timer_heartbeat :: u32
  as_num_retries :: int
  as_trxn_id_heartbeat :: u64

definition pfcp_association_new :: "node_lib \<Rightarrow> payload \<Rightarrow> pfcp_association" where
  "pfcp_association_new lib n =
     \<lparr>as_node_id = n, as_peer_addr = 0, as_has_peer_addr = False, as_hash_node_id = node_hash lib n,
      as_recovery_time_stamp = 0, as_function_features = (False, []), as_sessions = [],
      as_timer_heartbeat = ITTI_INVALID_TIMER_ID, as_num_retries = 0, as_trxn_id_heartbeat = 0\<rparr>"

record pfcp_associations =
  associations :: "(u32 \<times> pfcp_association) list"
  pending_associations :: "pfcp_association list"

definition pfcp_associations_new :: pfcp_associations where
  "pfcp_associations_new = \<lparr>associations = [], pending_associations = []\<rparr>"

text \<open>The key: the hash cut to 32 bits.\<close>

definition assoc_key :: "node_lib \<Rightarrow> payload \<Rightarrow> u32" where
  "assoc_key lib n = ucast (node_hash lib n)"

section \<open>The sessions of one association\<close>

text \<open>\<open>std::set<fseid_t>\<close>, as the list of its elements in order.\<close>

definition as_notify_add_session :: "node_lib \<Rightarrow> fseid \<Rightarrow> pfcp_association \<Rightarrow> pfcp_association" where
  "as_notify_add_session lib f a =
     a\<lparr>as_sessions := (if f \<in> set (as_sessions a) then as_sessions a
                       else insert_before (\<lambda>g. fseid_less lib g f) f (as_sessions a))\<rparr>"

definition has_session :: "fseid \<Rightarrow> pfcp_association \<Rightarrow> bool" where
  "has_session f a \<longleftrightarrow> f \<in> set (as_sessions a)"

definition as_notify_del_session :: "fseid \<Rightarrow> pfcp_association \<Rightarrow> pfcp_association" where
  "as_notify_del_session f a = a\<lparr>as_sessions := remove_first (\<lambda>g. g = f) (as_sessions a)\<rparr>"

section \<open>Candidates\<close>

definition remove_peer_candidate_node :: "payload \<Rightarrow> pfcp_associations \<Rightarrow> pfcp_associations \<times> pfcp_association option" where
  "remove_peer_candidate_node n db =
     (case find (\<lambda>a. as_node_id a = n) (pending_associations db) of
        None \<Rightarrow> (db, None)
      | Some a \<Rightarrow> (db\<lparr>pending_associations := remove_first (\<lambda>a. as_node_id a = n) (pending_associations db)\<rparr>, Some a))"

definition add_peer_candidate_node :: "node_lib \<Rightarrow> payload \<Rightarrow> pfcp_associations \<Rightarrow> pfcp_associations" where
  "add_peer_candidate_node lib n db =
     db\<lparr>pending_associations :=
          remove_first (\<lambda>a. as_node_id a = n) (pending_associations db) @ [pfcp_association_new lib n]\<rparr>"

section \<open>Associations\<close>

definition get_association :: "node_lib \<Rightarrow> payload \<Rightarrow> pfcp_associations \<Rightarrow> pfcp_association option" where
  "get_association lib n db = map_of (associations db) (assoc_key lib n)"

definition get_association_by_fseid :: "fseid \<Rightarrow> pfcp_associations \<Rightarrow> (u32 \<times> pfcp_association) option" where
  "get_association_by_fseid f db = find (\<lambda>(k, a). has_session f a) (associations db)"

definition put_association :: "u32 \<Rightarrow> pfcp_association \<Rightarrow> pfcp_associations \<Rightarrow> pfcp_associations" where
  "put_association k a db = db\<lparr>associations := AList.update k a (associations db)\<rparr>"

definition erase_association :: "u32 \<Rightarrow> pfcp_associations \<Rightarrow> pfcp_associations" where
  "erase_association k db = db\<lparr>associations := AList.delete k (associations db)\<rparr>"

text \<open>\<open>add_association\<close> up to \<open>store_association\<close>: a candidate if there is one, a new object otherwise.
  Both overloads; the one without features clears them.\<close>

definition take_candidate :: "node_lib \<Rightarrow> payload \<Rightarrow> u32 \<Rightarrow> payload ie \<Rightarrow> pfcp_associations \<Rightarrow> pfcp_associations \<times> pfcp_association" where
  "take_candidate lib n ts ff db =
     (case remove_peer_candidate_node n db of
        (db', c) \<Rightarrow>
          let a = (case c of None \<Rightarrow> pfcp_association_new lib n | Some a \<Rightarrow> a)
          in (db', a\<lparr>as_recovery_time_stamp := ts,
                     as_function_features := (if present ff then (True, ie_val ff) else (False, []))\<rparr>))"

definition set_peer_addr :: "node_lib \<Rightarrow> payload \<Rightarrow> u32 option \<Rightarrow> pfcp_associations \<Rightarrow> pfcp_associations" where
  "set_peer_addr lib n addr db =
     (case addr of
        None \<Rightarrow> db
      | Some ip \<Rightarrow>
          (case get_association lib n db of
             None \<Rightarrow> db
           | Some a \<Rightarrow> put_association (assoc_key lib n) (a\<lparr>as_peer_addr := ip, as_has_peer_addr := True\<rparr>) db))"

definition notify_add_session :: "node_lib \<Rightarrow> payload \<Rightarrow> fseid \<Rightarrow> pfcp_associations \<Rightarrow> pfcp_associations" where
  "notify_add_session lib n f db =
     (case get_association lib n db of
        None \<Rightarrow> db
      | Some a \<Rightarrow> put_association (assoc_key lib n) (as_notify_add_session lib f a) db)"

definition notify_del_session :: "fseid \<Rightarrow> pfcp_associations \<Rightarrow> pfcp_associations" where
  "notify_del_session f db =
     (case get_association_by_fseid f db of
        None \<Rightarrow> db
      | Some (k, a) \<Rightarrow> put_association k (as_notify_del_session f a) db)"

text \<open>What a session handler of the switch told the associations.\<close>

fun assoc_notify :: "node_lib \<Rightarrow> assoc_call \<Rightarrow> pfcp_associations \<Rightarrow> pfcp_associations" where
  "assoc_notify lib (NotifyAddSession n f) db = notify_add_session lib n f db"
| "assoc_notify lib (NotifyDelSession f) db = notify_del_session f db"

section \<open>Well-formed state\<close>

text \<open>One entry per key, filed under the cut hash of its node; candidates are of different nodes.\<close>

definition assoc_ok :: "node_lib \<Rightarrow> u32 \<Rightarrow> pfcp_association \<Rightarrow> bool" where
  "assoc_ok lib k a \<longleftrightarrow> as_hash_node_id a = node_hash lib (as_node_id a) \<and> k = ucast (as_hash_node_id a) \<and>
     distinct (as_sessions a)"

definition db_ok :: "node_lib \<Rightarrow> pfcp_associations \<Rightarrow> bool" where
  "db_ok lib db \<longleftrightarrow> distinct (map fst (associations db)) \<and> (\<forall>(k, a) \<in> set (associations db). assoc_ok lib k a) \<and>
     distinct (map as_node_id (pending_associations db)) \<and>
     (\<forall>a \<in> set (pending_associations db). as_hash_node_id a = node_hash lib (as_node_id a) \<and> as_sessions a = [])"

lemma db_ok_new: "db_ok lib pfcp_associations_new"
  by (simp add: db_ok_def pfcp_associations_new_def)

lemma db_ok_entry: "db_ok lib db \<Longrightarrow> map_of (associations db) k = Some a \<Longrightarrow> assoc_ok lib k a"
  unfolding db_ok_def by (auto dest!: map_of_SomeD)

lemma set_AList_update: "(k', a') \<in> set (AList.update k a xs) \<Longrightarrow> (k', a') = (k, a) \<or> (k', a') \<in> set xs"
  by (induction xs) (auto split: if_splits)

lemma db_ok_put: "db_ok lib db \<Longrightarrow> assoc_ok lib k a \<Longrightarrow> db_ok lib (put_association k a db)"
  unfolding db_ok_def put_association_def
  by (auto simp: AList.distinct_update dest!: set_AList_update)

lemma db_ok_erase: "db_ok lib db \<Longrightarrow> db_ok lib (erase_association k db)"
  unfolding db_ok_def erase_association_def
  by (auto simp: AList.delete_eq distinct_map_filter)

lemma find_SomeD: "find P xs = Some x \<Longrightarrow> x \<in> set xs \<and> P x"
  by (induction xs) (auto split: if_splits)

lemma db_ok_remove_candidate:
  assumes "db_ok lib db" "remove_peer_candidate_node n db = (db', c)"
  shows "db_ok lib db'" "associations db' = associations db"
    "c = Some a \<Longrightarrow> as_node_id a = n \<and> as_hash_node_id a = node_hash lib n \<and> as_sessions a = []"
proof -
  show "associations db' = associations db"
    using assms(2) by (auto simp: remove_peer_candidate_node_def split: option.splits)
  show "db_ok lib db'"
    using assms set_remove_first_subset [of "\<lambda>a. as_node_id a = n" "pending_associations db"]
    by (auto simp: remove_peer_candidate_node_def db_ok_def distinct_map_remove_first split: option.splits)
  assume "c = Some a"
  then have "find (\<lambda>a. as_node_id a = n) (pending_associations db) = Some a"
    using assms(2) by (auto simp: remove_peer_candidate_node_def split: option.splits)
  from find_SomeD [OF this] assms(1) show "as_node_id a = n \<and> as_hash_node_id a = node_hash lib n \<and> as_sessions a = []"
    by (auto simp: db_ok_def)
qed

lemma candidate_removed:
  "distinct (map as_node_id xs) \<Longrightarrow> n \<notin> as_node_id ` set (remove_first (\<lambda>a. as_node_id a = n) xs)"
  by (induction xs) auto

lemma db_ok_add_candidate:
  assumes "db_ok lib db"
  shows "db_ok lib (add_peer_candidate_node lib n db)"
proof -
  let ?ps = "remove_first (\<lambda>a. as_node_id a = n) (pending_associations db)"
  have "n \<notin> as_node_id ` set ?ps" using assms by (intro candidate_removed) (simp add: db_ok_def)
  moreover have "set ?ps \<subseteq> set (pending_associations db)" by (rule set_remove_first_subset)
  ultimately show ?thesis
    using assms unfolding db_ok_def add_peer_candidate_node_def
    by (auto simp: distinct_map_remove_first pfcp_association_new_def)
qed

lemma take_candidate_ok:
  assumes "db_ok lib db" "take_candidate lib n ts ff db = (db', a)"
  shows "db_ok lib db'" "assoc_ok lib (assoc_key lib n) a" "as_node_id a = n" "as_sessions a = []"
    "associations db' = associations db"
proof -
  obtain c where r: "remove_peer_candidate_node n db = (db', c)"
    using assms(2) by (auto simp: take_candidate_def Let_def split: prod.splits)
  note F = db_ok_remove_candidate [OF assms(1) r]
  show "db_ok lib db'" "associations db' = associations db" using F by auto
  have a: "as_node_id a = n \<and> as_hash_node_id a = node_hash lib n \<and> as_sessions a = []"
  proof (cases c)
    case None
    with assms(2) r show ?thesis by (auto simp: take_candidate_def Let_def pfcp_association_new_def)
  next
    case (Some b)
    with assms(2) r F(3) [OF Some] show ?thesis by (auto simp: take_candidate_def Let_def)
  qed
  then show "assoc_ok lib (assoc_key lib n) a" "as_node_id a = n" "as_sessions a = []"
    by (simp_all add: assoc_ok_def assoc_key_def)
qed

lemma db_ok_set_peer_addr: "db_ok lib db \<Longrightarrow> db_ok lib (set_peer_addr lib n addr db)"
  by (auto simp: set_peer_addr_def get_association_def assoc_ok_def split: option.splits
      intro!: db_ok_put dest: db_ok_entry)

lemma distinct_insert_before: "x \<notin> set xs \<Longrightarrow> distinct xs \<Longrightarrow> distinct (insert_before P x xs)"
  by (induction xs) auto

lemma distinct_remove_first: "distinct xs \<Longrightarrow> distinct (remove_first P xs)"
  by (induction xs) (auto dest: set_remove_first_subset [THEN subsetD])

lemma set_remove_first_distinct: "distinct xs \<Longrightarrow> set (remove_first (\<lambda>y. y = x) xs) = set xs - {x}"
  by (induction xs) auto

lemma db_ok_notify: "db_ok lib db \<Longrightarrow> db_ok lib (assoc_notify lib c db)"
proof (cases c)
  case (NotifyAddSession n f)
  assume "db_ok lib db"
  with NotifyAddSession show ?thesis
    by (auto simp: notify_add_session_def get_association_def as_notify_add_session_def assoc_ok_def
        distinct_insert_before split: option.splits intro!: db_ok_put dest: db_ok_entry)
next
  case (NotifyDelSession f)
  assume ok: "db_ok lib db"
  show ?thesis
  proof (cases "get_association_by_fseid f db")
    case (Some x)
    obtain k a where x: "x = (k, a)" by force
    then have "(k, a) \<in> set (associations db)" using Some find_SomeD unfolding get_association_by_fseid_def by fastforce
    then have "assoc_ok lib k a" using ok by (auto simp: db_ok_def)
    then have "assoc_ok lib k (as_notify_del_session f a)"
      by (simp add: assoc_ok_def as_notify_del_session_def distinct_remove_first)
    with ok Some x NotifyDelSession show ?thesis by (simp add: notify_del_session_def db_ok_put)
  qed (use ok NotifyDelSession in \<open>simp add: notify_del_session_def\<close>)
qed

lemma map_of_put [simp]: "map_of (associations (put_association k a db)) = (map_of (associations db))(k \<mapsto> a)"
  by (simp add: put_association_def AList.update_conv')

lemma map_of_erase [simp]: "map_of (associations (erase_association k db)) = (map_of (associations db))(k := None)"
  by (simp add: erase_association_def AList.delete_conv')

end
