(* ===== verification/UpfN4.thy ===== *)
theory UpfN4
  imports PfcpAssociations PfcpTransactions
begin

text \<open>
  The N4 node (\<open>app/upf_n4.cpp\<close>, the timer-driven half of \<open>app/upf_pfcp_association.cpp\<close>, and the
  session part of \<open>app/upf_app.cpp\<close>): the PFCP stack of \<open>PfcpTransactions\<close>, the associations and the
  session handlers of the switch put together by the messages of three ITTI queues. A received
  message is what the library decodes (\<open>None\<close> is its exception). Timers carry two arguments; those
  of the PFCP stack leave them at their defaults.
\<close>

section \<open>State\<close>

datatype n4_endpoint = InetEndpoint u32 u16 | OtherEndpoint payload

definition default_port :: u16 where "default_port = 8805"

datatype n4_body =
    NoBody
  | EstRequest establishment_request
  | ModRequest modification_request
  | SessionResponse PfcpHandlers.response
  | SessionReport n4_msg

record n4_ies =
  n4_cause :: "pfcp_cause option"
  n4_node_id :: "payload ie"
  n4_recovery_time_stamp :: "u32 ie"
  n4_cp_function_features :: "payload ie"
  n4_up_function_features :: "payload ie"
  n4_enterprise_specific :: "payload ie"
  n4_body :: n4_body

definition no_ies :: n4_ies where
  "no_ies = \<lparr>n4_cause = None, n4_node_id = (False, []), n4_recovery_time_stamp = (False, 0),
     n4_cp_function_features = (False, []), n4_up_function_features = (False, []),
     n4_enterprise_specific = (False, []), n4_body = NoBody\<rparr>"

type_synonym n4_stack = "(n4_ies, n4_endpoint) pfcp_stack"
type_synonym n4_msg_in = "n4_ies pfcp_msg"

record n4_env =
  nv_lib :: PfcpTransactions.pfcp_lib
  nv_nodes :: node_lib
  nv_session_lib :: PfcpHandlers.pfcp_lib
  nv_dp :: datapath
  nv_cfg :: upf_env
  nv_uids :: uids
  nv_trxn :: "nat \<Rightarrow> u64"
  nv_draws :: nat
  nv_no_seid :: u64
  nv_own_node_id :: "payload option"
  nv_recovery_time_stamp :: u64
  nv_up_features :: payload
  nv_enterprise :: payload

datatype app_msg =
    AppEstablish n4_endpoint u64 establishment_request
  | AppModify n4_endpoint u64 modification_request
  | AppDelete n4_endpoint u64 u64
  | AppReportResponse u64

datatype session_procedure = Establishment | Modification | Deletion

datatype n4_task_msg =
    N4SessionResponse session_procedure n4_endpoint u64 n4_ies u64
  | N4Timeout u32 u64 u64

record n4_node =
  nd_db :: pfcp_associations
  nd_stack :: n4_stack
  nd_timer_args :: "u32 \<rightharpoonup> u64 \<times> u64"
  nd_trxns :: nat
  nd_switch :: upf_switch
  nd_app_queue :: "app_msg list"
  nd_n4_queue :: "n4_task_msg list"

definition TASK_UPF_N4_TRIGGER_HEARTBEAT_REQUEST :: u64 where "TASK_UPF_N4_TRIGGER_HEARTBEAT_REQUEST = 0"
definition TASK_UPF_N4_TIMEOUT_HEARTBEAT_REQUEST :: u64 where "TASK_UPF_N4_TIMEOUT_HEARTBEAT_REQUEST = 1"

definition generate_trxn_id :: "n4_env \<Rightarrow> n4_node \<Rightarrow> u64 \<times> n4_node" where
  "generate_trxn_id nv nd = (nv_trxn nv (nd_trxns nd), nd\<lparr>nd_trxns := Suc (nd_trxns nd)\<rparr>)"

definition on_db :: "(pfcp_associations \<Rightarrow> pfcp_associations) \<Rightarrow> n4_node \<Rightarrow> n4_node" where
  "on_db f nd = nd\<lparr>nd_db := f (nd_db nd)\<rparr>"

definition on_stack :: "(n4_stack \<Rightarrow> n4_stack) \<Rightarrow> n4_node \<Rightarrow> n4_node" where
  "on_stack f nd = nd\<lparr>nd_stack := f (nd_stack nd)\<rparr>"

text \<open>A timer of five seconds with arguments.\<close>

definition heartbeat_timer :: "u64 \<Rightarrow> u64 \<Rightarrow> n4_node \<Rightarrow> n4_node \<times> u32" where
  "heartbeat_timer arg1 arg2 nd =
     (case timer_setup 5 0 (nd_stack nd) of
        (st, t) \<Rightarrow> (nd\<lparr>nd_stack := st, nd_timer_args := (nd_timer_args nd)(t \<mapsto> (arg1, arg2))\<rparr>, t))"

text \<open>The arguments a timer's message carries.\<close>

definition timer_args :: "n4_node \<Rightarrow> u32 \<Rightarrow> u64 \<times> u64" where
  "timer_args nd t = (case nd_timer_args nd t of None \<Rightarrow> (0, 0) | Some a \<Rightarrow> a)"

definition is_ipv4_node :: "n4_env \<Rightarrow> payload \<Rightarrow> bool" where
  "is_ipv4_node nv n \<longleftrightarrow> node_id_type_of (nv_nodes nv) n = NODE_ID_TYPE_IPV4_ADDRESS"

definition node_endpoint :: "n4_env \<Rightarrow> payload \<Rightarrow> n4_endpoint" where
  "node_endpoint nv n = InetEndpoint (node_ipv4_address (nv_nodes nv) n) default_port"

definition recovery_ies :: "n4_env \<Rightarrow> n4_ies" where
  "recovery_ies nv = no_ies\<lparr>n4_recovery_time_stamp := (True, ucast (nv_recovery_time_stamp nv))\<rparr>"

section \<open>Heartbeats\<close>

text \<open>For the association \<open>a\<close> filed under \<open>k\<close>, which the caller may have changed.\<close>

definition n4_send_heartbeat_request :: "n4_env \<Rightarrow> u32 \<Rightarrow> pfcp_association \<Rightarrow> n4_node \<Rightarrow> n4_node" where
  "n4_send_heartbeat_request nv k a nd =
     (if is_ipv4_node nv (as_node_id a)
      then (case heartbeat_timer TASK_UPF_N4_TIMEOUT_HEARTBEAT_REQUEST (as_hash_node_id a) nd of (nd1, t) \<Rightarrow>
            case generate_trxn_id nv nd1 of (trxn, nd2) \<Rightarrow>
              on_stack (\<lambda>st. fst (send_heartbeat_request (nv_lib nv) (recovery_ies nv) (node_endpoint nv (as_node_id a)) trxn st))
                (on_db (put_association k (a\<lparr>as_timer_heartbeat := t, as_trxn_id_heartbeat := trxn\<rparr>)) nd2))
      else on_db (put_association k a) nd)"

definition n4_send_heartbeat_response :: "n4_env \<Rightarrow> n4_endpoint \<Rightarrow> u64 \<Rightarrow> n4_node \<Rightarrow> n4_node" where
  "n4_send_heartbeat_response nv ep trxn nd =
     on_stack (send_heartbeat_response (nv_lib nv) (recovery_ies nv) ep trxn DELETE_TX) nd"

definition trigger_heartbeat_request_procedure :: "u32 \<Rightarrow> pfcp_association \<Rightarrow> n4_node \<Rightarrow> n4_node" where
  "trigger_heartbeat_request_procedure k a nd =
     (case heartbeat_timer TASK_UPF_N4_TRIGGER_HEARTBEAT_REQUEST (as_hash_node_id a) nd of
        (nd1, t) \<Rightarrow> on_db (put_association k (a\<lparr>as_timer_heartbeat := t\<rparr>)) nd1)"

text \<open>The loops over the associations take the keys in the order of the map.\<close>

fun initiate_loop :: "n4_env \<Rightarrow> u64 \<Rightarrow> u32 list \<Rightarrow> n4_node \<Rightarrow> n4_node" where
  "initiate_loop nv hash [] nd = nd"
| "initiate_loop nv hash (k # ks) nd =
     (case map_of (associations (nd_db nd)) k of
        None \<Rightarrow> initiate_loop nv hash ks nd
      | Some a \<Rightarrow>
          initiate_loop nv hash ks
            (if as_hash_node_id a = hash then n4_send_heartbeat_request nv k (a\<lparr>as_num_retries := 0\<rparr>) nd else nd))"

definition initiate_heartbeat_request :: "n4_env \<Rightarrow> u64 \<Rightarrow> n4_node \<Rightarrow> n4_node" where
  "initiate_heartbeat_request nv hash nd = initiate_loop nv hash (map fst (associations (nd_db nd))) nd"

definition assoc_heartbeat_response :: "u64 \<Rightarrow> n4_node \<Rightarrow> n4_node" where
  "assoc_heartbeat_response trxn nd =
     (case find (\<lambda>(k, a). as_trxn_id_heartbeat a = trxn) (associations (nd_db nd)) of
        None \<Rightarrow> nd
      | Some (k, a) \<Rightarrow>
          trigger_heartbeat_request_procedure k a (on_stack (timer_remove (as_timer_heartbeat a)) nd))"

section \<open>Session reports\<close>

definition send_report_to :: "n4_env \<Rightarrow> u64 \<Rightarrow> fseid \<Rightarrow> n4_msg \<Rightarrow> pfcp_association \<Rightarrow> n4_node \<Rightarrow> n4_node" where
  "send_report_to nv trxn f m a nd =
     (let go = (\<lambda>ep. on_stack (\<lambda>st. fst (send_session_report_request (nv_lib nv) (fs_seid f)
                       (no_ies\<lparr>n4_body := SessionReport m\<rparr>) ep trxn st)) nd)
      in if is_ipv4_node nv (as_node_id a) then go (node_endpoint nv (as_node_id a))
         else if as_has_peer_addr a then go (InetEndpoint (as_peer_addr a) default_port)
         else nd)"

definition send_session_report :: "n4_env \<Rightarrow> fseid \<Rightarrow> n4_msg \<Rightarrow> n4_node \<Rightarrow> n4_node" where
  "send_session_report nv f m nd =
     (case generate_trxn_id nv nd of
        (trxn, nd1) \<Rightarrow>
          (case get_association_by_fseid f (nd_db nd1) of
             None \<Rightarrow> nd1
           | Some (_, a) \<Rightarrow> send_report_to nv trxn f m a nd1))"

text \<open>The same while the sessions of the association \<open>locked\<close> are locked: asking it for the session
  would wait for this very thread. \<open>None\<close> is that deadlock.\<close>

definition send_session_report_locked :: "n4_env \<Rightarrow> u32 \<Rightarrow> fseid \<Rightarrow> n4_msg \<Rightarrow> n4_node \<Rightarrow> n4_node option" where
  "send_session_report_locked nv locked f m nd =
     (case generate_trxn_id nv nd of
        (trxn, nd1) \<Rightarrow>
          (case find (\<lambda>(k, a). k = locked \<or> has_session f a) (associations (nd_db nd1)) of
             None \<Rightarrow> Some nd1
           | Some (k, a) \<Rightarrow> if k = locked then None else Some (send_report_to nv trxn f m a nd1)))"

section \<open>Losing a peer\<close>

fun send_reports_locked :: "n4_env \<Rightarrow> u32 \<Rightarrow> (fseid \<times> n4_msg) list \<Rightarrow> n4_node \<Rightarrow> n4_node option" where
  "send_reports_locked nv locked [] nd = Some nd"
| "send_reports_locked nv locked ((f, m) # ms) nd =
     Option.bind (send_session_report_locked nv locked f m nd) (send_reports_locked nv locked ms)"

text \<open>\<open>del_sessions\<close>: every session leaves the switch, and its last report goes out while the set of
  sessions is locked.\<close>

fun del_sessions_loop :: "n4_env \<Rightarrow> u64 \<Rightarrow> u32 \<Rightarrow> fseid list \<Rightarrow> n4_node \<Rightarrow> n4_node option" where
  "del_sessions_loop nv now k [] nd = Some nd"
| "del_sessions_loop nv now k (f # fs) nd =
     (let sw' = remove_pfcp_session_by_cp_fseid (nv_cfg nv) now f (nd_switch nd)
      in Option.bind
           (send_reports_locked nv k (drop (length (n4_out (nd_switch nd))) (n4_out sw')) (nd\<lparr>nd_switch := sw'\<rparr>))
           (\<lambda>nd1. del_sessions_loop nv now k fs
              (on_db (\<lambda>db. case map_of (associations db) k of
                         None \<Rightarrow> db
                       | Some a \<Rightarrow> put_association k (as_notify_del_session f a) db) nd1)))"

fun timeout_loop :: "n4_env \<Rightarrow> u64 \<Rightarrow> u64 \<Rightarrow> u32 list \<Rightarrow> n4_node \<Rightarrow> n4_node option" where
  "timeout_loop nv now hash [] nd = Some nd"
| "timeout_loop nv now hash (k # ks) nd =
     (case map_of (associations (nd_db nd)) k of
        None \<Rightarrow> timeout_loop nv now hash ks nd
      | Some a \<Rightarrow>
          if as_hash_node_id a \<noteq> hash then timeout_loop nv now hash ks nd
          else if as_num_retries a < PFCP_ASSOCIATION_HEARTBEAT_MAX_RETRIES
          then timeout_loop nv now hash ks
                 (n4_send_heartbeat_request nv k (a\<lparr>as_num_retries := as_num_retries a + 1\<rparr>) nd)
          else map_option
                 (on_db (\<lambda>db. add_peer_candidate_node (nv_nodes nv) (as_node_id a)
                                (erase_association (ucast (as_hash_node_id a)) db)))
                 (del_sessions_loop nv now k (as_sessions a) nd))"

definition timeout_heartbeat_request :: "n4_env \<Rightarrow> u64 \<Rightarrow> u64 \<Rightarrow> n4_node \<Rightarrow> n4_node option" where
  "timeout_heartbeat_request nv now hash nd =
     timeout_loop nv now hash (map fst (associations (nd_db nd))) nd"

section \<open>Associating\<close>

definition store_association :: "n4_env \<Rightarrow> payload \<Rightarrow> pfcp_association \<Rightarrow> n4_node \<Rightarrow> n4_node" where
  "store_association nv n a nd =
     (let k = assoc_key (nv_nodes nv) n
      in if is_ipv4_node nv n then trigger_heartbeat_request_procedure k a nd else on_db (put_association k a) nd)"

definition add_association :: "n4_env \<Rightarrow> payload \<Rightarrow> u32 \<Rightarrow> payload ie \<Rightarrow> n4_node \<Rightarrow> n4_node" where
  "add_association nv n ts ff nd =
     (case take_candidate (nv_nodes nv) n ts ff (nd_db nd) of
        (db', a) \<Rightarrow> store_association nv n a (nd\<lparr>nd_db := db'\<rparr>))"

definition start_association :: "n4_env \<Rightarrow> payload \<Rightarrow> n4_node \<Rightarrow> n4_node" where
  "start_association nv n nd =
     (case generate_trxn_id nv (on_db (add_peer_candidate_node (nv_nodes nv) n) nd) of
        (trxn, nd1) \<Rightarrow>
          (case nv_own_node_id nv of
             None \<Rightarrow> nd1
           | Some me \<Rightarrow>
               if is_ipv4_node nv n
               then on_stack (\<lambda>st. fst (send_association_setup_request (nv_lib nv)
                      ((recovery_ies nv)\<lparr>n4_node_id := (True, me), n4_up_function_features := (True, nv_up_features nv)\<rparr>)
                      (node_endpoint nv n) trxn st)) nd1
               else nd1))"

section \<open>Receiving\<close>

definition endpoint_ipv4 :: "n4_endpoint \<Rightarrow> u32 option" where
  "endpoint_ipv4 ep = (case ep of InetEndpoint ip _ \<Rightarrow> Some ip | OtherEndpoint _ \<Rightarrow> None)"

text \<open>Every handler first registers the message with the stack, and only goes on without an error. The
  stack draws a transaction id for a new procedure.\<close>

definition accept_message ::
    "n4_env \<Rightarrow> n4_msg_in \<Rightarrow> (u64 \<Rightarrow> n4_node \<Rightarrow> n4_node) \<Rightarrow> n4_node \<Rightarrow> n4_node" where
  "accept_message nv msg go nd =
     (case handle_receive_message_cb (nv_lib nv) (nv_trxn nv (nd_trxns nd)) msg (nd_stack nd) of
        (st, err, trxn) \<Rightarrow>
          let drawn = (pending_procedures (nd_stack nd) (msg_seq msg) = None \<and> check_request_type (nv_lib nv) (msg_type msg));
              nd1 = nd\<lparr>nd_stack := st, nd_trxns := (if drawn then Suc (nd_trxns nd) else nd_trxns nd)\<rparr>
          in if err then nd1 else go trxn nd1)"

definition handle_receive_heartbeat_request :: "n4_env \<Rightarrow> n4_msg_in \<Rightarrow> n4_endpoint \<Rightarrow> n4_node \<Rightarrow> n4_node" where
  "handle_receive_heartbeat_request nv msg ep nd =
     accept_message nv msg
       (\<lambda>trxn nd. if present (n4_recovery_time_stamp (msg_ies msg)) then n4_send_heartbeat_response nv ep trxn nd else nd) nd"

definition handle_receive_heartbeat_response :: "n4_env \<Rightarrow> n4_msg_in \<Rightarrow> n4_node \<Rightarrow> n4_node" where
  "handle_receive_heartbeat_response nv msg nd =
     accept_message nv msg
       (\<lambda>trxn nd. if present (n4_recovery_time_stamp (msg_ies msg)) then assoc_heartbeat_response trxn nd else nd) nd"

definition associate :: "n4_env \<Rightarrow> n4_ies \<Rightarrow> n4_endpoint \<Rightarrow> n4_node \<Rightarrow> n4_node" where
  "associate nv i ep nd =
     on_db (set_peer_addr (nv_nodes nv) (ie_val (n4_node_id i)) (endpoint_ipv4 ep))
       (add_association nv (ie_val (n4_node_id i)) (ie_val (n4_recovery_time_stamp i)) (n4_cp_function_features i) nd)"

definition handle_receive_association_setup_response :: "n4_env \<Rightarrow> n4_msg_in \<Rightarrow> n4_endpoint \<Rightarrow> n4_node \<Rightarrow> n4_node" where
  "handle_receive_association_setup_response nv msg ep nd =
     accept_message nv msg
       (\<lambda>trxn nd. if present (n4_node_id (msg_ies msg)) \<and> present (n4_recovery_time_stamp (msg_ies msg))
                  then associate nv (msg_ies msg) ep nd else nd) nd"

definition handle_receive_association_setup_request :: "n4_env \<Rightarrow> n4_msg_in \<Rightarrow> n4_endpoint \<Rightarrow> n4_node \<Rightarrow> n4_node" where
  "handle_receive_association_setup_request nv msg ep nd =
     accept_message nv msg
       (\<lambda>trxn nd.
          if present (n4_node_id (msg_ies msg)) \<and> present (n4_recovery_time_stamp (msg_ies msg)) then
            (let nd1 = associate nv (msg_ies msg) ep nd
             in case nv_own_node_id nv of
                  None \<Rightarrow> nd1
                | Some me \<Rightarrow>
                    if node_id_type_of (nv_nodes nv) me \<noteq> NODE_ID_TYPE_IPV6_ADDRESS
                    then on_stack (send_association_setup_response (nv_lib nv)
                           ((recovery_ies nv)\<lparr>n4_cause := Some CAUSE_VALUE_REQUEST_ACCEPTED, n4_node_id := (True, me),
                              n4_up_function_features := (True, nv_up_features nv),
                              n4_enterprise_specific := (True, nv_enterprise nv)\<rparr>) ep trxn DELETE_TX) nd1
                    else nd1)
          else nd) nd"

definition msg_get_seid :: "n4_env \<Rightarrow> n4_msg_in \<Rightarrow> u64" where
  "msg_get_seid nv msg = (case msg_seid msg of None \<Rightarrow> nv_no_seid nv | Some s \<Rightarrow> s)"

definition to_app :: "app_msg \<Rightarrow> n4_node \<Rightarrow> n4_node" where
  "to_app m nd = nd\<lparr>nd_app_queue := nd_app_queue nd @ [m]\<rparr>"

text \<open>The session requests are passed on with endpoint and transaction. The bodies a message of these
  types can have are the only ones.\<close>

definition handle_receive_session_request :: "n4_env \<Rightarrow> session_procedure \<Rightarrow> n4_msg_in \<Rightarrow> n4_endpoint \<Rightarrow> n4_node \<Rightarrow> n4_node" where
  "handle_receive_session_request nv k msg ep nd =
     accept_message nv msg
       (\<lambda>trxn nd. case (k, n4_body (msg_ies msg)) of
            (Establishment, EstRequest r) \<Rightarrow> to_app (AppEstablish ep trxn r) nd
          | (Modification, ModRequest r) \<Rightarrow> to_app (AppModify ep trxn (r\<lparr>mr_seid := msg_get_seid nv msg\<rparr>)) nd
          | (Deletion, _) \<Rightarrow> to_app (AppDelete ep trxn (msg_get_seid nv msg)) nd
          | _ \<Rightarrow> nd) nd"

definition handle_receive_session_report_response :: "n4_env \<Rightarrow> n4_msg_in \<Rightarrow> n4_node \<Rightarrow> n4_node" where
  "handle_receive_session_report_response nv msg nd =
     accept_message nv msg (\<lambda>trxn nd. to_app (AppReportResponse trxn) nd) nd"

definition handle_receive_pfcp_msg :: "n4_env \<Rightarrow> n4_msg_in \<Rightarrow> n4_endpoint \<Rightarrow> n4_node \<Rightarrow> n4_node" where
  "handle_receive_pfcp_msg nv msg ep nd =
     (let lib = nv_lib nv; ty = msg_type msg
      in if ty = PFCP_ASSOCIATION_SETUP_RESPONSE lib then handle_receive_association_setup_response nv msg ep nd
         else if ty = PFCP_SESSION_ESTABLISHMENT_REQUEST lib then handle_receive_session_request nv Establishment msg ep nd
         else if ty = PFCP_SESSION_MODIFICATION_REQUEST lib then handle_receive_session_request nv Modification msg ep nd
         else if ty = PFCP_SESSION_DELETION_REQUEST lib then handle_receive_session_request nv Deletion msg ep nd
         else if ty = PFCP_SESSION_REPORT_RESPONSE lib then handle_receive_session_report_response nv msg nd
         else if ty = PFCP_HEARTBEAT_REQUEST lib then handle_receive_heartbeat_request nv msg ep nd
         else if ty = PFCP_HEARTBEAT_RESPONSE lib then handle_receive_heartbeat_response nv msg nd
         else if ty = PFCP_ASSOCIATION_SETUP_REQUEST lib then handle_receive_association_setup_request nv msg ep nd
         else nd)"

definition n4_handle_receive :: "n4_env \<Rightarrow> n4_msg_in option \<Rightarrow> n4_endpoint \<Rightarrow> n4_node \<Rightarrow> n4_node" where
  "n4_handle_receive nv decoded ep nd =
     (case decoded of None \<Rightarrow> nd | Some msg \<Rightarrow> handle_receive_pfcp_msg nv msg ep nd)"

section \<open>The application task\<close>

text \<open>What a handler of the switch called while it ran: reports first (the last one of a session is sent
  before it is forgotten), then the notifications.\<close>

definition after_handler :: "n4_env \<Rightarrow> upf_switch \<Rightarrow> n4_node \<Rightarrow> n4_node" where
  "after_handler nv sw' nd =
     (let new_reports = drop (length (n4_out (nd_switch nd))) (n4_out sw');
          new_calls = drop (length (assoc_calls (nd_switch nd))) (assoc_calls sw');
          nd1 = fold (\<lambda>(f, m). send_session_report nv f m) new_reports (nd\<lparr>nd_switch := sw'\<rparr>)
      in on_db (fold (assoc_notify (nv_nodes nv)) new_calls) nd1)"

definition to_n4 :: "n4_task_msg \<Rightarrow> n4_node \<Rightarrow> n4_node" where
  "to_n4 m nd = nd\<lparr>nd_n4_queue := nd_n4_queue nd @ [m]\<rparr>"

definition response_ies :: "PfcpHandlers.response \<Rightarrow> n4_ies" where
  "response_ies r = no_ies\<lparr>n4_body := SessionResponse r\<rparr>"

text \<open>The establishment response also carries the node id, and goes to the SEID of the CP F-SEID of the
  request. \<open>None\<close>: the handler does not come back.\<close>

fun app_handle :: "n4_env \<Rightarrow> u64 \<Rightarrow> app_msg \<Rightarrow> n4_node \<Rightarrow> n4_node option" where
  "app_handle nv now (AppEstablish ep trxn r) nd =
     map_option (\<lambda>(rsp, sw').
         to_n4 (N4SessionResponse Establishment ep (fs_seid (ie_val (er_cp_fseid r)))
                  ((response_ies rsp)\<lparr>n4_node_id := (True, case nv_own_node_id nv of None \<Rightarrow> [] | Some me \<Rightarrow> me)\<rparr>) trxn)
           (after_handler nv sw' nd))
       (handle_establishment (nv_session_lib nv) (nv_dp nv) (nv_cfg nv) (nv_uids nv) now r (nd_switch nd))"
| "app_handle nv now (AppModify ep trxn r) nd =
     (case handle_modification (nv_session_lib nv) (nv_dp nv) (nv_cfg nv) (nv_uids nv) r (nd_switch nd) of
        (rsp, sw') \<Rightarrow> Some (to_n4 (N4SessionResponse Modification ep (rsp_seid rsp) (response_ies rsp) trxn) (after_handler nv sw' nd)))"
| "app_handle nv now (AppDelete ep trxn seid) nd =
     (case handle_deletion (nv_dp nv) (nv_cfg nv) now seid (nd_switch nd) of
        (rsp, sw') \<Rightarrow> Some (to_n4 (N4SessionResponse Deletion ep (rsp_seid rsp) (response_ies rsp) trxn) (after_handler nv sw' nd)))"
| "app_handle nv now (AppReportResponse trxn) nd = Some nd"

definition n4_app_step :: "n4_env \<Rightarrow> u64 \<Rightarrow> n4_node \<Rightarrow> n4_node option" where
  "n4_app_step nv now nd =
     (case nd_app_queue nd of [] \<Rightarrow> Some nd | m # ms \<Rightarrow> app_handle nv now m (nd\<lparr>nd_app_queue := ms\<rparr>))"

section \<open>The N4 task\<close>

fun session_response_type :: "session_procedure \<Rightarrow> PfcpTransactions.pfcp_lib \<Rightarrow> u64 \<Rightarrow> n4_ies \<Rightarrow> n4_endpoint \<Rightarrow> u64 \<Rightarrow>
    trxn_action \<Rightarrow> n4_stack \<Rightarrow> n4_stack" where
  "session_response_type Establishment = send_session_establishment_response"
| "session_response_type Modification = send_session_modification_response"
| "session_response_type Deletion = send_session_deletion_response"

fun n4_task_handle :: "n4_env \<Rightarrow> u64 \<Rightarrow> n4_task_msg \<Rightarrow> n4_node \<Rightarrow> n4_node option" where
  "n4_task_handle nv now (N4SessionResponse k ep seid i trxn) nd =
     Some (on_stack (session_response_type k (nv_lib nv) seid i ep trxn DELETE_TX) nd)"
| "n4_task_handle nv now (N4Timeout t arg1 arg2) nd =
     (if arg1 = TASK_UPF_N4_TRIGGER_HEARTBEAT_REQUEST then Some (initiate_heartbeat_request nv arg2 nd)
      else if arg1 = TASK_UPF_N4_TIMEOUT_HEARTBEAT_REQUEST then timeout_heartbeat_request nv now arg2 nd
      else Some nd)"

definition n4_task_step :: "n4_env \<Rightarrow> u64 \<Rightarrow> n4_node \<Rightarrow> n4_node option" where
  "n4_task_step nv now nd =
     (case nd_n4_queue nd of [] \<Rightarrow> Some nd | m # ms \<Rightarrow> n4_task_handle nv now m (nd\<lparr>nd_n4_queue := ms\<rparr>))"

text \<open>An armed timer that expires leaves the service and becomes a message.\<close>

definition timer_expires :: "u32 \<Rightarrow> n4_node \<Rightarrow> n4_node" where
  "timer_expires t nd =
     (case timer_args nd t of (a1, a2) \<Rightarrow> to_n4 (N4Timeout t a1 a2) (on_stack (timer_remove t) nd))"

section \<open>The node as a state machine\<close>

inductive node_step :: "n4_env \<Rightarrow> n4_node \<Rightarrow> n4_node \<Rightarrow> bool" for nv where
  start: "node_step nv nd (start_association nv n nd)"
| receive: "node_step nv nd (n4_handle_receive nv decoded ep nd)"
| app: "n4_app_step nv now nd = Some nd' \<Longrightarrow> node_step nv nd nd'"
| n4: "n4_task_step nv now nd = Some nd' \<Longrightarrow> node_step nv nd nd'"
| expire: "t \<in> dom (itti_armed (nd_stack nd)) \<Longrightarrow> node_step nv nd (timer_expires t nd)"
| report: "node_step nv nd (send_session_report nv f m nd)"

definition n4_node_new :: "u32 \<Rightarrow> n4_node" where
  "n4_node_new nsec =
     \<lparr>nd_db = pfcp_associations_new, nd_stack = pfcp_stack_new nsec, nd_timer_args = Map.empty, nd_trxns = 0,
      nd_switch = switch_new, nd_app_queue = [], nd_n4_queue = []\<rparr>"

definition node_reachable :: "n4_env \<Rightarrow> u32 \<Rightarrow> n4_node \<Rightarrow> bool" where
  "node_reachable nv nsec nd = (node_step nv)\<^sup>*\<^sup>* (n4_node_new nsec) nd"

end
