(* ===== verification/UpfN4Inv.thy ===== *)
theory UpfN4Inv
  imports UpfN4
begin

text \<open>
  What every run of the N4 node keeps: the associations are filed under their hashes, every response
  still owed belongs to a procedure of its own, no procedure has ever been repeated, and a procedure
  the UPF started is never given up. Each operation is shown to keep this once; the steps of the node
  are their compositions.
\<close>

section \<open>Operations of the stack\<close>

definition never_repeated :: "('b, 'e) pfcp_stack \<Rightarrow> bool" where
  "never_repeated st \<longleftrightarrow> (\<forall>seq p. pending_procedures st seq = Some p \<longrightarrow> retry_count p = 0)"

definition keeps_own :: "('b, 'e) pfcp_stack \<Rightarrow> ('b, 'e) pfcp_stack \<Rightarrow> bool" where
  "keeps_own st st' \<longleftrightarrow>
     (\<forall>seq p m. pending_procedures st seq = Some p \<and> retry_msg p = Some m \<longrightarrow>
        (\<exists>p'. pending_procedures st' seq = Some p' \<and> retry_msg p' = Some m))"

definition owed_to :: "('b, 'e) pfcp_stack \<Rightarrow> u64 \<Rightarrow> bool" where
  "owed_to st t \<longleftrightarrow>
     (\<exists>seq p. trxn_id2seq_num st t = Some seq \<and> pending_procedures st seq = Some p \<and> trxn_id p = t \<and> retry_msg p = None)"

lemma keeps_own_refl: "keeps_own st st"
  by (simp add: keeps_own_def)

lemma keeps_own_trans: "keeps_own a b \<Longrightarrow> keeps_own b c \<Longrightarrow> keeps_own a c"
  unfolding keeps_own_def by blast

text \<open>Operations that only touch timers and the record of what was sent.\<close>

definition same_procedures :: "('b, 'e) pfcp_stack \<Rightarrow> ('b, 'e) pfcp_stack \<Rightarrow> bool" where
  "same_procedures st st' \<longleftrightarrow> pending_procedures st' = pending_procedures st \<and> trxn_id2seq_num st' = trxn_id2seq_num st"

lemma same_procedures_ops:
  "timer_setup s u st = (st', t) \<Longrightarrow> same_procedures st st'"
  "same_procedures st (timer_remove t st)"
  "stop_msg_retry_timer p st = (st', p') \<Longrightarrow> same_procedures st st'"
  "start_msg_retry_timer p ms seq st = (st', p') \<Longrightarrow> same_procedures st st'"
  "start_proc_cleanup_timer p ms seq st = (st', p') \<Longrightarrow> same_procedures st st'"
  "same_procedures st (fst (stop_proc_cleanup_timer p st))"
  by (auto simp: same_procedures_def timer_setup_def timer_remove_def stop_msg_retry_timer_def start_msg_retry_timer_def
      start_proc_cleanup_timer_def stop_proc_cleanup_timer_def Let_def split: if_splits prod.splits)

lemma same_procedures_good:
  assumes "same_procedures st st'"
  shows "never_repeated st' = never_repeated st" "keeps_own st st'" "owed_to st' = owed_to st"
  using assms by (auto simp: same_procedures_def never_repeated_def keeps_own_def owed_to_def fun_eq_iff)

text \<open>A request of the UPF under a fresh transaction.\<close>

lemma send_request_effect:
  assumes "send_request lib ty seid ies dest trxn st = (st', seq)"
  shows "\<exists>p. retry_msg p \<noteq> None \<and> retry_count p = 0 \<and> trxn_id p = trxn \<and>
     pending_procedures st' = map_insert seq p (pending_procedures st) \<and>
     trxn_id2seq_num st' = map_insert trxn seq (trxn_id2seq_num st)"
proof -
  let ?st = "get_next_seq_num st"
  let ?m = "\<lparr>msg_type = ty, msg_seid = seid, msg_seq = stored_seq lib (seq_num ?st), msg_ies = ies\<rparr>"
  let ?p = "pfcp_procedure_new\<lparr>initial_msg_type := ty, trxn_id := trxn, retry_msg := Some ?m, remote_endpoint := Some dest\<rparr>"
  obtain st1 p1 where 1: "start_msg_retry_timer ?p PFCP_T1_RESPONSE_MS (msg_seq ?m) ?st = (st1, p1)" by force
  obtain st2 p2 where 2: "start_proc_cleanup_timer p1 PFCP_PROC_TIME_OUT_MS (msg_seq ?m) st1 = (st2, p2)" by force
  have p: "retry_msg p2 = Some ?m" "retry_count p2 = 0" "trxn_id p2 = trxn"
    using 1 2 by (auto simp: start_msg_retry_timer_eq start_proc_cleanup_timer_eq pfcp_procedure_new_def)
  have "same_procedures st st2"
    using same_procedures_ops(4) [OF 1] same_procedures_ops(5) [OF 2]
    by (simp add: same_procedures_def get_next_seq_num_def Let_def)
  with assms 1 2 p show ?thesis
    by (intro exI [of _ p2]) (auto simp: send_request_def Let_def same_procedures_def)
qed

lemma send_request_good:
  assumes "send_request lib ty seid ies dest trxn st = (st', seq)" "trxn_id2seq_num st trxn = None"
  shows "never_repeated st \<Longrightarrow> never_repeated st'" "keeps_own st st'" "owed_to st t \<Longrightarrow> owed_to st' t"
    "dom (trxn_id2seq_num st') \<subseteq> insert trxn (dom (trxn_id2seq_num st))"
proof -
  obtain p where p: "retry_msg p \<noteq> None" "retry_count p = 0" "trxn_id p = trxn"
    "pending_procedures st' = map_insert seq p (pending_procedures st)"
    "trxn_id2seq_num st' = map_insert trxn seq (trxn_id2seq_num st)"
    using send_request_effect [OF assms(1)] by blast
  show "never_repeated st \<Longrightarrow> never_repeated st'"
    using p(2,4) by (auto simp: never_repeated_def map_insert_def split: if_splits)
  show "keeps_own st st'" using p(4) by (auto simp: keeps_own_def map_insert_def)
  show "owed_to st t \<Longrightarrow> owed_to st' t"
    using p(4,5) assms(2) unfolding owed_to_def map_insert_def by (auto split: if_splits)
  show "dom (trxn_id2seq_num st') \<subseteq> insert trxn (dom (trxn_id2seq_num st))"
    using p(5) by (auto simp: map_insert_def)
qed

text \<open>A received message: the procedure it starts, or the one it belongs to.\<close>

lemma receive_effect:
  assumes "handle_receive_message_cb lib uid msg st = (st', err, trxn)"
  shows "pending_procedures st (msg_seq msg) = None \<and> check_request_type lib (msg_type msg) \<and> \<not> err \<and> trxn = uid \<and>
       (\<exists>p. retry_msg p = None \<and> retry_count p = 0 \<and> trxn_id p = uid \<and>
          pending_procedures st' = (pending_procedures st)(msg_seq msg \<mapsto> p) \<and>
          trxn_id2seq_num st' = map_insert uid (msg_seq msg) (trxn_id2seq_num st)) \<or>
     pending_procedures st (msg_seq msg) = None \<and> \<not> check_request_type lib (msg_type msg) \<and> err \<and> st' = st \<or>
     (\<exists>p p'. pending_procedures st (msg_seq msg) = Some p \<and> \<not> err \<and> trxn = trxn_id p \<and>
        check_response_type lib (if triggered_msg_type p = 0 then initial_msg_type p else triggered_msg_type p) (msg_type msg) \<and>
        pending_procedures st' = (pending_procedures st)(msg_seq msg \<mapsto> p') \<and> trxn_id2seq_num st' = trxn_id2seq_num st \<and>
        trxn_id p' = trxn_id p \<and> retry_msg p' = retry_msg p \<and> retry_count p' = retry_count p) \<or>
     (\<exists>p. pending_procedures st (msg_seq msg) = Some p \<and> err \<and> st' = st \<and>
        \<not> check_response_type lib (if triggered_msg_type p = 0 then initial_msg_type p else triggered_msg_type p) (msg_type msg))"
proof (cases "pending_procedures st (msg_seq msg)")
  case None
  let ?p = "pfcp_procedure_new\<lparr>trxn_id := uid, initial_msg_type := msg_type msg\<rparr>"
  obtain st1 p1 where 1: "start_proc_cleanup_timer ?p PFCP_PROC_TIME_OUT_MS (msg_seq msg) st = (st1, p1)" by force
  have "retry_msg p1 = None" "retry_count p1 = 0" "trxn_id p1 = uid"
    using 1 by (auto simp: start_proc_cleanup_timer_eq pfcp_procedure_new_def)
  with None assms 1 same_procedures_ops(5) [OF 1] show ?thesis
    by (auto simp: handle_receive_message_cb_def Let_def same_procedures_def map_insert_def split: if_splits)
next
  case (Some p)
  let ?q = "if triggered_msg_type p = 0 then p\<lparr>triggered_msg_type := msg_type msg\<rparr> else p"
  obtain st1 p1 where 1: "(if retry_timer_id ?q \<noteq> 0 then stop_msg_retry_timer ?q st else (st, ?q)) = (st1, p1)" by force
  have same: "same_procedures st st1"
    using 1 same_procedures_ops(3) [of ?q st] by (cases "retry_timer_id ?q \<noteq> 0") (auto simp: same_procedures_def)
  have p1: "trxn_id p1 = trxn_id p" "retry_msg p1 = retry_msg p" "retry_count p1 = retry_count p"
    using 1 by (auto simp: stop_msg_retry_timer_def Let_def split: if_splits)
  let ?c = "check_response_type lib (if triggered_msg_type p = 0 then initial_msg_type p else triggered_msg_type p) (msg_type msg)"
  have res: "handle_receive_message_cb lib uid msg st =
      (if ?c then (st1\<lparr>pending_procedures := (pending_procedures st1)(msg_seq msg \<mapsto> p1)\<rparr>, False, trxn_id p1) else (st, True, 0))"
    unfolding handle_receive_message_cb_def Some option.case Let_def 1 prod.case by (rule refl)
  show ?thesis
  proof (cases ?c)
    case True
    with res assms have "st' = st1\<lparr>pending_procedures := (pending_procedures st1)(msg_seq msg \<mapsto> p1)\<rparr>" "\<not> err" "trxn = trxn_id p1" by simp_all
    with Some True same p1 show ?thesis unfolding same_procedures_def
      by (intro disjI2 disjI1 exI [of _ p] exI [of _ p1]) simp
  next
    case False
    with res assms Some show ?thesis by simp
  qed
qed

text \<open>A response to an owed transaction.\<close>

lemma send_response_good:
  assumes "owed_to st t"
  shows "never_repeated st \<Longrightarrow> never_repeated (send_response lib ty seid ies dest t DELETE_TX st)"
    "keeps_own st (send_response lib ty seid ies dest t DELETE_TX st)"
    "owed_to st u \<Longrightarrow> u \<noteq> t \<Longrightarrow> owed_to (send_response lib ty seid ies dest t DELETE_TX st) u"
    "dom (trxn_id2seq_num (send_response lib ty seid ies dest t DELETE_TX st)) \<subseteq> dom (trxn_id2seq_num st)"
proof -
  obtain seq p where p: "trxn_id2seq_num st t = Some seq" "pending_procedures st seq = Some p" "trxn_id p = t" "retry_msg p = None"
    using assms by (auto simp: owed_to_def)
  let ?st = "send_response lib ty seid ies dest t DELETE_TX st"
  have e: "pending_procedures ?st = (pending_procedures st)(seq := None)" "trxn_id2seq_num ?st = (trxn_id2seq_num st)(t := None)"
    using p by (simp_all add: send_response_def Let_def stop_proc_cleanup_timer_def timer_remove_def)
  show "never_repeated st \<Longrightarrow> never_repeated ?st" by (auto simp: never_repeated_def e split: if_splits)
  show "keeps_own st ?st" using p by (auto simp: keeps_own_def e)
  show "owed_to st u \<Longrightarrow> u \<noteq> t \<Longrightarrow> owed_to ?st u"
    using p unfolding owed_to_def e by (metis fun_upd_other option.inject)
  show "dom (trxn_id2seq_num ?st) \<subseteq> dom (trxn_id2seq_num st)" unfolding e by auto
qed

section \<open>Operations of the node\<close>

text \<open>What the code relies on of the library: the first \<open>nv_draws\<close> transaction identifiers differ, and the
  message types it dispatches on are different numbers, those of the requests no numbers of responses.\<close>

definition codes_ok :: "PfcpTransactions.pfcp_lib \<Rightarrow> bool" where
  "codes_ok lib \<longleftrightarrow>
     distinct [PFCP_ASSOCIATION_SETUP_RESPONSE lib, PFCP_SESSION_ESTABLISHMENT_REQUEST lib,
       PFCP_SESSION_MODIFICATION_REQUEST lib, PFCP_SESSION_DELETION_REQUEST lib, PFCP_SESSION_REPORT_RESPONSE lib,
       PFCP_HEARTBEAT_REQUEST lib, PFCP_HEARTBEAT_RESPONSE lib, PFCP_ASSOCIATION_SETUP_REQUEST lib] \<and>
     (\<forall>c \<in> {PFCP_HEARTBEAT_REQUEST lib, PFCP_ASSOCIATION_SETUP_REQUEST lib, PFCP_SESSION_ESTABLISHMENT_REQUEST lib,
            PFCP_SESSION_MODIFICATION_REQUEST lib, PFCP_SESSION_DELETION_REQUEST lib}.
        c \<noteq> PFCP_VERSION_NOT_SUPPORTED_RESPONSE lib \<and>
        (\<forall>r \<in> {PFCP_HEARTBEAT_REQUEST lib, PFCP_PFD_MANAGEMENT_REQUEST lib, PFCP_ASSOCIATION_SETUP_REQUEST lib,
               PFCP_ASSOCIATION_UPDATE_REQUEST lib, PFCP_ASSOCIATION_RELEASE_REQUEST lib, PFCP_NODE_REPORT_REQUEST lib,
               PFCP_SESSION_ESTABLISHMENT_REQUEST lib, PFCP_SESSION_MODIFICATION_REQUEST lib,
               PFCP_SESSION_DELETION_REQUEST lib, PFCP_SESSION_REPORT_REQUEST lib}.
           (ucast c :: u32) \<noteq> ucast r + 1))"

lemma codes_distinct: "codes_ok lib \<Longrightarrow>
     distinct [PFCP_ASSOCIATION_SETUP_RESPONSE lib, PFCP_SESSION_ESTABLISHMENT_REQUEST lib,
       PFCP_SESSION_MODIFICATION_REQUEST lib, PFCP_SESSION_DELETION_REQUEST lib, PFCP_SESSION_REPORT_RESPONSE lib,
       PFCP_HEARTBEAT_REQUEST lib, PFCP_HEARTBEAT_RESPONSE lib, PFCP_ASSOCIATION_SETUP_REQUEST lib]"
  unfolding codes_ok_def by (rule conjunct1)

definition served_request :: "PfcpTransactions.pfcp_lib \<Rightarrow> u8 \<Rightarrow> bool" where
  "served_request lib c \<longleftrightarrow>
     c \<in> {PFCP_HEARTBEAT_REQUEST lib, PFCP_ASSOCIATION_SETUP_REQUEST lib, PFCP_SESSION_ESTABLISHMENT_REQUEST lib,
          PFCP_SESSION_MODIFICATION_REQUEST lib, PFCP_SESSION_DELETION_REQUEST lib}"

lemma served_request_no_response: "codes_ok lib \<Longrightarrow> served_request lib c \<Longrightarrow> \<not> check_response_type lib i c"
  unfolding codes_ok_def served_request_def check_response_type_def
  apply (erule conjE, thin_tac "distinct _")
  by (cases "i \<in> {PFCP_HEARTBEAT_REQUEST lib, PFCP_PFD_MANAGEMENT_REQUEST lib, PFCP_ASSOCIATION_SETUP_REQUEST lib,
          PFCP_ASSOCIATION_UPDATE_REQUEST lib, PFCP_ASSOCIATION_RELEASE_REQUEST lib,
          PFCP_NODE_REPORT_REQUEST lib, PFCP_SESSION_ESTABLISHMENT_REQUEST lib,
          PFCP_SESSION_MODIFICATION_REQUEST lib, PFCP_SESSION_DELETION_REQUEST lib,
          PFCP_SESSION_REPORT_REQUEST lib}") (simp_all only: if_True if_False, blast+)

lemma served_request_is_request: "served_request lib c \<Longrightarrow> check_request_type lib c"
  unfolding served_request_def check_request_type_def by blast

definition nv_ok :: "n4_env \<Rightarrow> bool" where
  "nv_ok nv \<longleftrightarrow> inj_on (nv_trxn nv) {..<nv_draws nv} \<and> codes_ok (nv_lib nv)"

text \<open>The invariant, with the transactions whose responses are owed.\<close>

definition node_inv :: "n4_env \<Rightarrow> u64 list \<Rightarrow> n4_node \<Rightarrow> bool" where
  "node_inv nv T nd \<longleftrightarrow> db_ok (nv_nodes nv) (nd_db nd) \<and> never_repeated (nd_stack nd) \<and> distinct T \<and>
     (\<forall>t \<in> set T. owed_to (nd_stack nd) t) \<and>
     dom (trxn_id2seq_num (nd_stack nd)) \<subseteq> nv_trxn nv ` {..<nd_trxns nd}"

definition node_good :: "n4_env \<Rightarrow> u64 list \<Rightarrow> n4_node \<Rightarrow> u64 list \<Rightarrow> n4_node \<Rightarrow> bool" where
  "node_good nv T nd T' nd' \<longleftrightarrow> nd_trxns nd \<le> nd_trxns nd' \<and>
     (node_inv nv T nd \<longrightarrow> nd_trxns nd' \<le> nv_draws nv \<longrightarrow> node_inv nv T' nd' \<and> keeps_own (nd_stack nd) (nd_stack nd'))"

lemma node_good_refl: "node_good nv T nd T nd"
  by (simp add: node_good_def keeps_own_refl)

lemma node_good_trans: "node_good nv T1 nd1 T2 nd2 \<Longrightarrow> node_good nv T2 nd2 T3 nd3 \<Longrightarrow> node_good nv T1 nd1 T3 nd3"
  unfolding node_good_def by (meson keeps_own_trans order_trans)

lemma node_good_mono: "node_good nv T nd T' nd' \<Longrightarrow> nd_trxns nd \<le> nd_trxns nd'"
  by (simp add: node_good_def)

text \<open>Changes outside stack and associations, of the associations, of timers.\<close>

lemma node_good_frame:
  "nd_db nd' = nd_db nd \<Longrightarrow> nd_stack nd' = nd_stack nd \<Longrightarrow> nd_trxns nd' = nd_trxns nd \<Longrightarrow> node_good nv T nd T nd'"
  by (simp add: node_good_def node_inv_def keeps_own_refl)

lemma node_good_db: "(db_ok (nv_nodes nv) (nd_db nd) \<Longrightarrow> db_ok (nv_nodes nv) (f (nd_db nd))) \<Longrightarrow> node_good nv T nd T (on_db f nd)"
  by (simp add: node_good_def node_inv_def keeps_own_refl on_db_def)

lemma node_good_timers:
  assumes "same_procedures (nd_stack nd) (nd_stack nd')" "nd_db nd' = nd_db nd" "nd_trxns nd' = nd_trxns nd"
  shows "node_good nv T nd T nd'"
  using assms same_procedures_good [OF assms(1)]
  by (simp add: node_good_def node_inv_def same_procedures_def)

lemma node_good_heartbeat_timer:
  assumes "heartbeat_timer a1 a2 nd = (nd', t)"
  shows "node_good nv T nd T nd'" "nd_db nd' = nd_db nd" "nd_trxns nd' = nd_trxns nd"
proof -
  obtain st where st: "timer_setup 5 0 (nd_stack nd) = (st, t)" "nd' = nd\<lparr>nd_stack := st, nd_timer_args := (nd_timer_args nd)(t \<mapsto> (a1, a2))\<rparr>"
    using assms by (auto simp: heartbeat_timer_def split: prod.splits)
  show "node_good nv T nd T nd'" by (rule node_good_timers) (use st same_procedures_ops(1) [OF st(1)] in simp_all)
  show "nd_db nd' = nd_db nd" "nd_trxns nd' = nd_trxns nd" using st by simp_all
qed

text \<open>A fresh transaction and the request sent under it.\<close>

definition fresh_trxn :: "n4_env \<Rightarrow> n4_node \<Rightarrow> u64 \<Rightarrow> bool" where
  "fresh_trxn nv nd t \<longleftrightarrow> trxn_id2seq_num (nd_stack nd) t = None \<and> t \<in> nv_trxn nv ` {..<nd_trxns nd}"

lemma next_trxn_fresh:
  assumes "nv_ok nv" "node_inv nv T nd" "nd_trxns nd < nv_draws nv"
  shows "trxn_id2seq_num (nd_stack nd) (nv_trxn nv (nd_trxns nd)) = None"
proof -
  have "nv_trxn nv (nd_trxns nd) \<notin> nv_trxn nv ` {..<nd_trxns nd}"
    using assms(1,3) by (auto simp: nv_ok_def dest!: inj_onD)
  then show ?thesis using assms(2) by (auto simp: node_inv_def)
qed

lemma generate_good:
  assumes "generate_trxn_id nv nd = (t, nd')"
  shows "node_good nv T nd T nd'" "nd_db nd' = nd_db nd" "nd_stack nd' = nd_stack nd"
    "nv_ok nv \<Longrightarrow> node_inv nv T nd \<Longrightarrow> nd_trxns nd' \<le> nv_draws nv \<Longrightarrow> fresh_trxn nv nd' t"
proof -
  have e: "t = nv_trxn nv (nd_trxns nd)" "nd' = nd\<lparr>nd_trxns := Suc (nd_trxns nd)\<rparr>"
    using assms by (auto simp: generate_trxn_id_def)
  show "node_good nv T nd T nd'" by (auto simp: e node_good_def node_inv_def keeps_own_refl)
  show "nd_db nd' = nd_db nd" "nd_stack nd' = nd_stack nd" by (simp_all add: e)
  show "nv_ok nv \<Longrightarrow> node_inv nv T nd \<Longrightarrow> nd_trxns nd' \<le> nv_draws nv \<Longrightarrow> fresh_trxn nv nd' t" using next_trxn_fresh by (auto simp: fresh_trxn_def e)
qed

lemma send_request_node_good:
  assumes "fresh_trxn nv nd t"
  shows "node_good nv T nd T (on_stack (\<lambda>st. fst (send_request lib ty seid ies dest t st)) nd)"
proof -
  obtain st seq where r: "send_request lib ty seid ies dest t (nd_stack nd) = (st, seq)" by force
  have f: "trxn_id2seq_num (nd_stack nd) t = None" "t \<in> nv_trxn nv ` {..<nd_trxns nd}"
    using assms by (auto simp: fresh_trxn_def)
  note G = send_request_good [OF r f(1)]
  show ?thesis unfolding node_good_def
  proof (intro impI conjI)
    show "nd_trxns nd \<le> nd_trxns (on_stack (\<lambda>st. fst (send_request lib ty seid ies dest t st)) nd)"
      by (simp add: on_stack_def)
    assume i: "node_inv nv T nd"
    then have "dom (trxn_id2seq_num (nd_stack nd)) \<subseteq> nv_trxn nv ` {..<nd_trxns nd}" by (simp add: node_inv_def)
    then have "dom (trxn_id2seq_num st) \<subseteq> nv_trxn nv ` {..<nd_trxns nd}"
      by (rule order_trans [OF G(4) insert_subsetI [OF f(2)]])
    with i G(1,3) r show "node_inv nv T (on_stack (\<lambda>st. fst (send_request lib ty seid ies dest t st)) nd)"
      by (simp add: node_inv_def on_stack_def)
  qed (use G(2) r in \<open>simp add: on_stack_def\<close>)
qed

lemmas request_defs = send_heartbeat_request_def send_association_setup_request_def send_session_report_request_def

lemmas response_defs = send_heartbeat_response_def send_association_setup_response_def
  send_session_establishment_response_def send_session_modification_response_def send_session_deletion_response_def

text \<open>A response takes its transaction off the list.\<close>

lemma send_response_node_good:
  "node_good nv (t # T) nd T (on_stack (send_response lib ty seid ies dest t DELETE_TX) nd)"
  unfolding node_good_def
proof (intro impI conjI)
  show "nd_trxns nd \<le> nd_trxns (on_stack (send_response lib ty seid ies dest t DELETE_TX) nd)" by (simp add: on_stack_def)
  assume i: "node_inv nv (t # T) nd"
  then have o: "owed_to (nd_stack nd) t" and d: "t \<notin> set T" by (simp_all add: node_inv_def)
  note G = send_response_good [OF o]
  show "node_inv nv T (on_stack (send_response lib ty seid ies dest t DELETE_TX) nd)"
    unfolding node_inv_def
  proof (intro conjI ballI)
    fix u assume "u \<in> set T"
    with i d show "owed_to (nd_stack (on_stack (send_response lib ty seid ies dest t DELETE_TX) nd)) u"
      using G(3) [of u] by (cases "u = t") (auto simp: node_inv_def on_stack_def)
  next
    show "dom (trxn_id2seq_num (nd_stack (on_stack (send_response lib ty seid ies dest t DELETE_TX) nd)))
        \<subseteq> nv_trxn nv ` {..<nd_trxns (on_stack (send_response lib ty seid ies dest t DELETE_TX) nd)}"
      using i order_trans [OF G(4)] by (simp add: node_inv_def on_stack_def)
  qed (use i G(1) in \<open>simp_all add: node_inv_def on_stack_def\<close>)
  show "keeps_own (nd_stack nd) (nd_stack (on_stack (send_response lib ty seid ies dest t DELETE_TX) nd))"
    using G(2) by (simp add: on_stack_def)
qed

lemma node_good_perm: "set T = set T' \<Longrightarrow> (distinct T \<Longrightarrow> distinct T') \<Longrightarrow> node_good nv T nd T' nd"
  by (auto simp: node_good_def node_inv_def keeps_own_refl)

lemma node_good_drop: "node_good nv (t # T) nd T nd"
  by (simp add: node_good_def node_inv_def keeps_own_refl)

section \<open>Heartbeats, reports and associations\<close>

lemma on_db_simps [simp]: "nd_stack (on_db f nd) = nd_stack nd" "nd_trxns (on_db f nd) = nd_trxns nd"
  "nd_db (on_db f nd) = f (nd_db nd)" "nd_app_queue (on_db f nd) = nd_app_queue nd"
  "nd_n4_queue (on_db f nd) = nd_n4_queue nd" "nd_switch (on_db f nd) = nd_switch nd"
  by (simp_all add: on_db_def)

lemma on_stack_simps [simp]: "nd_stack (on_stack f nd) = f (nd_stack nd)" "nd_trxns (on_stack f nd) = nd_trxns nd"
  "nd_db (on_stack f nd) = nd_db nd" "nd_app_queue (on_stack f nd) = nd_app_queue nd"
  "nd_n4_queue (on_stack f nd) = nd_n4_queue nd" "nd_switch (on_stack f nd) = nd_switch nd"
  by (simp_all add: on_stack_def)

lemma fresh_on_db: "fresh_trxn nv (on_db f nd) t = fresh_trxn nv nd t"
  by (simp add: fresh_trxn_def)

lemma node_good_put: "assoc_ok (nv_nodes nv) k a \<Longrightarrow> node_good nv T nd T (on_db (put_association k a) nd)"
  by (rule node_good_db) (rule db_ok_put)

text \<open>An operation that is good when the invariant holds is good.\<close>

lemma node_goodI:
  "nd_trxns nd \<le> nd_trxns nd' \<Longrightarrow>
   (node_inv nv T nd \<Longrightarrow> nd_trxns nd' \<le> nv_draws nv \<Longrightarrow> node_good nv T nd T' nd') \<Longrightarrow> node_good nv T nd T' nd'"
  unfolding node_good_def by blast

lemma node_good_inv: "node_good nv T nd T' nd' \<Longrightarrow> node_inv nv T nd \<Longrightarrow> nd_trxns nd' \<le> nv_draws nv \<Longrightarrow> node_inv nv T' nd'"
  by (simp add: node_good_def)

text \<open>No operation gives a transaction back.\<close>

lemma trxns_generate: "generate_trxn_id nv nd = (t, nd') \<Longrightarrow> nd_trxns nd' = Suc (nd_trxns nd)"
  by (auto simp: generate_trxn_id_def)

lemma trxns_timer: "heartbeat_timer a b nd = (nd', t) \<Longrightarrow> nd_trxns nd' = nd_trxns nd"
  by (auto simp: heartbeat_timer_def split: prod.splits)

lemma trxns_trigger [simp]: "nd_trxns (trigger_heartbeat_request_procedure k a nd) = nd_trxns nd"
  by (auto simp: trigger_heartbeat_request_procedure_def split: prod.splits dest: trxns_timer)

lemma trxns_heartbeat_request: "nd_trxns nd \<le> nd_trxns (n4_send_heartbeat_request nv k a nd)"
  by (auto simp: n4_send_heartbeat_request_def split: prod.splits dest!: trxns_generate trxns_timer)

lemma trxns_initiate: "nd_trxns nd \<le> nd_trxns (initiate_loop nv hash ks nd)"
proof (induction ks arbitrary: nd)
  case (Cons k ks)
  then show ?case by (auto split: option.split intro: order_trans [OF trxns_heartbeat_request])
qed simp

lemma trxns_heartbeat_response [simp]: "nd_trxns (assoc_heartbeat_response t nd) = nd_trxns nd"
  by (simp add: assoc_heartbeat_response_def split: option.split)

lemma trxns_report_to [simp]: "nd_trxns (send_report_to nv t f m a nd) = nd_trxns nd"
  by (simp add: send_report_to_def Let_def)

lemma trxns_report: "nd_trxns nd \<le> nd_trxns (send_session_report nv f m nd)"
  by (auto simp: send_session_report_def split: prod.splits option.splits dest: trxns_generate)

lemma trxns_report_locked: "send_session_report_locked nv k f m nd = Some nd' \<Longrightarrow> nd_trxns nd \<le> nd_trxns nd'"
  by (auto simp: send_session_report_locked_def split: prod.splits option.splits if_splits dest!: trxns_generate)

lemma trxns_reports_locked: "send_reports_locked nv k ms nd = Some nd' \<Longrightarrow> nd_trxns nd \<le> nd_trxns nd'"
proof (induction ms arbitrary: nd)
  case (Cons x ms)
  obtain f m where "x = (f, m)" by force
  with Cons show ?case by (fastforce simp: bind_eq_Some_conv dest!: trxns_report_locked intro: order_trans)
qed simp

lemma trxns_del_sessions: "del_sessions_loop nv now k fs nd = Some nd' \<Longrightarrow> nd_trxns nd \<le> nd_trxns nd'"
proof (induction fs arbitrary: nd)
  case (Cons f fs)
  then obtain ms sw nd1 g where "send_reports_locked nv k ms (nd\<lparr>nd_switch := sw\<rparr>) = Some nd1"
    "del_sessions_loop nv now k fs (on_db g nd1) = Some nd'" by (auto simp: Let_def bind_eq_Some_conv)
  with trxns_reports_locked [OF this(1)] Cons.IH [OF this(2)] show ?case by simp
qed simp

lemma trxns_timeout: "timeout_loop nv now hash ks nd = Some nd' \<Longrightarrow> nd_trxns nd \<le> nd_trxns nd'"
proof (induction ks arbitrary: nd)
  case (Cons k ks)
  show ?case
  proof (cases "map_of (associations (nd_db nd)) k")
    case (Some a)
    with Cons.prems Cons.IH show ?thesis
      by (auto split: if_splits intro: order_trans [OF trxns_heartbeat_request] dest: trxns_del_sessions)
  qed (use Cons in simp)
qed simp

lemma trxns_associate [simp]: "nd_trxns (store_association nv n a nd) = nd_trxns nd"
  "nd_trxns (add_association nv n ts ff nd) = nd_trxns nd" "nd_trxns (associate nv i ep nd) = nd_trxns nd"
  by (simp_all add: store_association_def add_association_def associate_def Let_def split: prod.split)

lemma trxns_start: "nd_trxns nd \<le> nd_trxns (start_association nv n nd)"
  by (auto simp: start_association_def split: prod.splits option.splits dest!: trxns_generate)

lemma heartbeat_request_good:
  assumes "nv_ok nv" "assoc_ok (nv_nodes nv) k a"
  shows "node_good nv T nd T (n4_send_heartbeat_request nv k a nd)"
proof (rule node_goodI [OF trxns_heartbeat_request])
  assume i: "node_inv nv T nd" and b: "nd_trxns (n4_send_heartbeat_request nv k a nd) \<le> nv_draws nv"
  show "node_good nv T nd T (n4_send_heartbeat_request nv k a nd)"
  proof (cases "is_ipv4_node nv (as_node_id a)")
    case True
    obtain nd1 t where 1: "heartbeat_timer TASK_UPF_N4_TIMEOUT_HEARTBEAT_REQUEST (as_hash_node_id a) nd = (nd1, t)" by force
    obtain trxn nd2 where 2: "generate_trxn_id nv nd1 = (trxn, nd2)" by force
    note T = node_good_heartbeat_timer [OF 1] and G = generate_good [OF 2]
    let ?a = "a\<lparr>as_timer_heartbeat := t, as_trxn_id_heartbeat := trxn\<rparr>"
    have ok: "assoc_ok (nv_nodes nv) k ?a" using assms(2) by (simp add: assoc_ok_def)
    have f: "fresh_trxn nv (on_db (put_association k ?a) nd2) trxn"
      using G(4) [OF assms(1) node_good_inv [OF T(1) i]] b True 1 2 trxns_generate [OF 2]
      by (simp add: fresh_on_db n4_send_heartbeat_request_def)
    from node_good_trans [OF T(1) node_good_trans [OF G(1) node_good_trans [OF node_good_put [OF ok] send_request_node_good [OF f]]]]
    show ?thesis using True 1 2 by (simp add: n4_send_heartbeat_request_def request_defs)
  next
    case False
    then show ?thesis using assms(2) by (simp add: n4_send_heartbeat_request_def node_good_put)
  qed
qed

lemma trigger_good: "assoc_ok (nv_nodes nv) k a \<Longrightarrow> node_good nv T nd T (trigger_heartbeat_request_procedure k a nd)"
proof -
  assume a: "assoc_ok (nv_nodes nv) k a"
  obtain nd1 t where 1: "heartbeat_timer TASK_UPF_N4_TRIGGER_HEARTBEAT_REQUEST (as_hash_node_id a) nd = (nd1, t)" by force
  have ok: "assoc_ok (nv_nodes nv) k (a\<lparr>as_timer_heartbeat := t\<rparr>)" using a by (simp add: assoc_ok_def)
  from node_good_trans [OF node_good_heartbeat_timer(1) [OF 1] node_good_put [OF ok]]
  show ?thesis using 1 by (simp add: trigger_heartbeat_request_procedure_def)
qed

lemma initiate_loop_good: "nv_ok nv \<Longrightarrow> node_good nv T nd T (initiate_loop nv hash ks nd)"
proof (induction ks arbitrary: nd)
  case (Cons k ks)
  show ?case
  proof (rule node_goodI [OF trxns_initiate])
    assume i: "node_inv nv T nd"
    show "node_good nv T nd T (initiate_loop nv hash (k # ks) nd)"
    proof (cases "map_of (associations (nd_db nd)) k")
      case (Some a)
      then have "assoc_ok (nv_nodes nv) k (a\<lparr>as_num_retries := 0\<rparr>)"
        using i db_ok_entry [of "nv_nodes nv" "nd_db nd" k a] by (simp add: node_inv_def assoc_ok_def)
      note H = heartbeat_request_good [OF Cons.prems this]
      show ?thesis
        using Some Cons.IH [OF Cons.prems] node_good_trans [OF H Cons.IH [OF Cons.prems]] by simp
    qed (use Cons in simp)
  qed
qed (simp add: node_good_refl)

lemma heartbeat_response_good: "node_good nv T nd T (assoc_heartbeat_response trxn nd)"
proof (rule node_goodI)
  show "nd_trxns nd \<le> nd_trxns (assoc_heartbeat_response trxn nd)" by simp
  assume i: "node_inv nv T nd"
  show "node_good nv T nd T (assoc_heartbeat_response trxn nd)"
  proof (cases "find (\<lambda>(k, a). as_trxn_id_heartbeat a = trxn) (associations (nd_db nd))")
    case (Some x)
    obtain k a where x: "x = (k, a)" by force
    have "assoc_ok (nv_nodes nv) k a"
      using i find_SomeD [OF Some] x by (auto simp: node_inv_def db_ok_def)
    moreover have "node_good nv T nd T (on_stack (timer_remove (as_timer_heartbeat a)) nd)"
      by (rule node_good_timers) (simp_all add: same_procedures_ops)
    ultimately show ?thesis using Some x node_good_trans [OF _ trigger_good]
      by (simp add: assoc_heartbeat_response_def)
  qed (simp add: assoc_heartbeat_response_def node_good_refl)
qed

lemma send_report_to_good: "fresh_trxn nv nd t \<Longrightarrow> node_good nv T nd T (send_report_to nv t f m a nd)"
  by (auto simp: send_report_to_def Let_def request_defs send_request_node_good node_good_refl)

lemma session_report_good:
  assumes "nv_ok nv"
  shows "node_good nv T nd T (send_session_report nv f m nd)"
proof (rule node_goodI [OF trxns_report])
  assume i: "node_inv nv T nd" and b: "nd_trxns (send_session_report nv f m nd) \<le> nv_draws nv"
  obtain t nd1 where 1: "generate_trxn_id nv nd = (t, nd1)" by force
  note G = generate_good [OF 1]
  have "nd_trxns nd1 \<le> nv_draws nv" using b 1 by (simp add: send_session_report_def split: option.splits prod.splits)
  then show "node_good nv T nd T (send_session_report nv f m nd)"
    using 1 G(1) node_good_trans [OF G(1) send_report_to_good [OF G(4) [OF assms i]]]
    by (simp add: send_session_report_def split: option.split prod.split)
qed

lemma session_report_locked_good:
  assumes "nv_ok nv" "send_session_report_locked nv k f m nd = Some nd'"
  shows "node_good nv T nd T nd'"
proof (rule node_goodI [OF trxns_report_locked [OF assms(2)]])
  assume i: "node_inv nv T nd" and b: "nd_trxns nd' \<le> nv_draws nv"
  obtain t nd1 where 1: "generate_trxn_id nv nd = (t, nd1)" by force
  note G = generate_good [OF 1]
  have "nd_trxns nd1 \<le> nv_draws nv" using b assms(2) 1
    by (auto simp: send_session_report_locked_def split: option.splits prod.splits if_splits)
  then show "node_good nv T nd T nd'"
    using assms(2) 1 G(1) node_good_trans [OF G(1) send_report_to_good [OF G(4) [OF assms(1) i]]]
    by (auto simp: send_session_report_locked_def split: option.splits prod.splits if_splits)
qed

lemma reports_locked_good: "nv_ok nv \<Longrightarrow> send_reports_locked nv k ms nd = Some nd' \<Longrightarrow> node_good nv T nd T nd'"
proof (induction ms arbitrary: nd)
  case (Cons x ms)
  obtain f m where x: "x = (f, m)" by force
  with Cons.prems obtain nd1 where 1: "send_session_report_locked nv k f m nd = Some nd1" "send_reports_locked nv k ms nd1 = Some nd'"
    by (auto simp: bind_eq_Some_conv)
  from session_report_locked_good [OF Cons.prems(1) 1(1)] Cons.IH [OF Cons.prems(1) 1(2)] show ?case
    by (rule node_good_trans)
qed (simp add: node_good_refl)

lemma del_sessions_good: "nv_ok nv \<Longrightarrow> del_sessions_loop nv now k fs nd = Some nd' \<Longrightarrow> node_good nv T nd T nd'"
proof (induction fs arbitrary: nd)
  case (Cons f fs)
  let ?sw = "remove_pfcp_session_by_cp_fseid (nv_cfg nv) now f (nd_switch nd)"
  let ?f = "\<lambda>db. case map_of (associations db) k of None \<Rightarrow> db | Some a \<Rightarrow> put_association k (as_notify_del_session f a) db"
  from Cons.prems(2) obtain nd1 where 1: "send_reports_locked nv k (drop (length (n4_out (nd_switch nd))) (n4_out ?sw)) (nd\<lparr>nd_switch := ?sw\<rparr>) = Some nd1"
    "del_sessions_loop nv now k fs (on_db ?f nd1) = Some nd'"
    by (auto simp: Let_def bind_eq_Some_conv)
  have "node_good nv T nd T (nd\<lparr>nd_switch := ?sw\<rparr>)" by (rule node_good_frame) simp_all
  moreover have "node_good nv T nd1 T (on_db ?f nd1)"
    by (rule node_good_db) (auto split: option.split intro!: db_ok_put dest: db_ok_entry
        simp: assoc_ok_def as_notify_del_session_def distinct_remove_first)
  ultimately show ?case
    using reports_locked_good [OF Cons.prems(1) 1(1)] Cons.IH [OF Cons.prems(1) 1(2)] node_good_trans by blast
qed (simp add: node_good_refl)

lemma timeout_loop_good: "nv_ok nv \<Longrightarrow> timeout_loop nv now hash ks nd = Some nd' \<Longrightarrow> node_good nv T nd T nd'"
proof (induction ks arbitrary: nd)
  case (Cons k ks)
  show ?case
  proof (rule node_goodI [OF trxns_timeout [OF Cons.prems(2)]])
    assume i: "node_inv nv T nd"
    show "node_good nv T nd T nd'"
    proof (cases "map_of (associations (nd_db nd)) k")
      case None
      with Cons show ?thesis by simp
    next
      case (Some a)
      have ok: "assoc_ok (nv_nodes nv) k (a\<lparr>as_num_retries := n\<rparr>)" for n
        using Some i db_ok_entry [of "nv_nodes nv" "nd_db nd" k a] by (simp add: node_inv_def assoc_ok_def)
      consider "as_hash_node_id a \<noteq> hash"
        | "as_hash_node_id a = hash" "as_num_retries a < PFCP_ASSOCIATION_HEARTBEAT_MAX_RETRIES"
        | "as_hash_node_id a = hash" "\<not> as_num_retries a < PFCP_ASSOCIATION_HEARTBEAT_MAX_RETRIES" by blast
      then show ?thesis
      proof cases
        case 2
        with Cons.prems(2) Some have
          "timeout_loop nv now hash ks (n4_send_heartbeat_request nv k (a\<lparr>as_num_retries := as_num_retries a + 1\<rparr>) nd) = Some nd'"
          by simp
        from node_good_trans [OF heartbeat_request_good [OF Cons.prems(1) ok] Cons.IH [OF Cons.prems(1) this]] show ?thesis .
      next
        case 3
        with Cons.prems(2) Some obtain nd1 where 1: "del_sessions_loop nv now k (as_sessions a) nd = Some nd1"
          "nd' = on_db (\<lambda>db. add_peer_candidate_node (nv_nodes nv) (as_node_id a) (erase_association (ucast (as_hash_node_id a)) db)) nd1"
          by auto
        have "node_good nv T nd1 T nd'" unfolding 1(2) by (rule node_good_db) (intro db_ok_add_candidate db_ok_erase)
        with del_sessions_good [OF Cons.prems(1) 1(1)] show ?thesis by (rule node_good_trans)
      qed (use Cons Some in simp)
    qed
  qed
qed (simp add: node_good_refl)

section \<open>Associating and receiving\<close>

lemma store_association_good:
  "assoc_ok (nv_nodes nv) (assoc_key (nv_nodes nv) n) a \<Longrightarrow> node_good nv T nd T (store_association nv n a nd)"
  by (simp add: store_association_def Let_def trigger_good node_good_put)

lemma add_association_good: "node_good nv T nd T (add_association nv n ts ff nd)"
proof (rule node_goodI)
  show "nd_trxns nd \<le> nd_trxns (add_association nv n ts ff nd)" by simp
  assume i: "node_inv nv T nd"
  obtain db a where t: "take_candidate (nv_nodes nv) n ts ff (nd_db nd) = (db, a)" by force
  have "db_ok (nv_nodes nv) (nd_db nd)" using i by (simp add: node_inv_def)
  note F = take_candidate_ok [OF this t]
  have "node_good nv T nd T (on_db (\<lambda>_. db) nd)" by (rule node_good_db) (rule F(1))
  from node_good_trans [OF this store_association_good [OF F(2)]]
  show "node_good nv T nd T (add_association nv n ts ff nd)" using t by (simp add: add_association_def on_db_def)
qed

lemma associate_good: "node_good nv T nd T (associate nv i ep nd)"
  unfolding associate_def by (rule node_good_trans [OF add_association_good node_good_db]) (rule db_ok_set_peer_addr)

lemma start_association_good:
  assumes "nv_ok nv"
  shows "node_good nv T nd T (start_association nv n nd)"
proof (rule node_goodI [OF trxns_start])
  assume i: "node_inv nv T nd" and b: "nd_trxns (start_association nv n nd) \<le> nv_draws nv"
  let ?nd = "on_db (add_peer_candidate_node (nv_nodes nv) n) nd"
  obtain t nd1 where 1: "generate_trxn_id nv ?nd = (t, nd1)" by force
  have C: "node_good nv T nd T ?nd" by (rule node_good_db) (rule db_ok_add_candidate)
  note G = generate_good [OF 1]
  have "nd_trxns nd1 = nd_trxns (start_association nv n nd)" using 1 by (simp add: start_association_def split: option.split)
  then have b': "nd_trxns nd1 \<le> nv_draws nv" using b by simp
  then have "nd_trxns ?nd \<le> nv_draws nv" using trxns_generate [OF 1] by simp
  note S = node_good_trans [OF node_good_trans [OF C G(1)] send_request_node_good [OF G(4) [OF assms node_good_inv [OF C i this] b']]]
  show "node_good nv T nd T (start_association nv n nd)"
    using 1 node_good_trans [OF C G(1)] S by (simp add: start_association_def request_defs split: option.split)
qed

text \<open>A received message starts a procedure of its own, belongs to one, or changes nothing.\<close>

definition received_node :: "n4_env \<Rightarrow> n4_msg_in \<Rightarrow> n4_stack \<Rightarrow> n4_node \<Rightarrow> n4_node" where
  "received_node nv msg st nd =
     nd\<lparr>nd_stack := st, nd_trxns :=
       (if pending_procedures (nd_stack nd) (msg_seq msg) = None \<and> check_request_type (nv_lib nv) (msg_type msg)
        then Suc (nd_trxns nd) else nd_trxns nd)\<rparr>"

lemma accept_message_eq:
  "handle_receive_message_cb (nv_lib nv) (nv_trxn nv (nd_trxns nd)) msg (nd_stack nd) = (st, err, trxn) \<Longrightarrow>
   accept_message nv msg go nd = (if err then received_node nv msg st nd else go trxn (received_node nv msg st nd))"
  by (simp add: accept_message_def received_node_def Let_def)

lemma receive_keeps:
  assumes "nv_ok nv" "node_inv nv T nd"
    and r: "handle_receive_message_cb (nv_lib nv) (nv_trxn nv (nd_trxns nd)) msg (nd_stack nd) = (st, err, trxn)"
    and b: "nd_trxns (received_node nv msg st nd) \<le> nv_draws nv"
  shows "node_inv nv T (received_node nv msg st nd)" (is ?inv) "keeps_own (nd_stack nd) st" (is ?own)
    "\<not> err \<Longrightarrow> served_request (nv_lib nv) (msg_type msg) \<Longrightarrow> node_inv nv (trxn # T) (received_node nv msg st nd)" (is "_ \<Longrightarrow> _ \<Longrightarrow> ?more")
proof -
  let ?st = "nd_stack nd" and ?u = "nv_trxn nv (nd_trxns nd)"
  have db: "db_ok (nv_nodes nv) (nd_db nd)" and nr: "never_repeated ?st" and dT: "distinct T"
    and o: "\<And>t. t \<in> set T \<Longrightarrow> owed_to ?st t" and dm: "dom (trxn_id2seq_num ?st) \<subseteq> nv_trxn nv ` {..<nd_trxns nd}"
    using assms(2) by (auto simp: node_inv_def)
  have fresh: "trxn_id2seq_num ?st ?u = None" if "nd_trxns (received_node nv msg st nd) = Suc (nd_trxns nd)"
    by (rule next_trxn_fresh [OF assms(1,2)]) (use b that in simp)
  consider (new) p where "pending_procedures ?st (msg_seq msg) = None" "check_request_type (nv_lib nv) (msg_type msg)"
      "\<not> err" "trxn = ?u" "retry_msg p = None" "retry_count p = 0" "trxn_id p = ?u"
      "pending_procedures st = (pending_procedures ?st)(msg_seq msg \<mapsto> p)"
      "trxn_id2seq_num st = map_insert ?u (msg_seq msg) (trxn_id2seq_num ?st)"
    | (same) "err" "st = ?st" "nd_trxns (received_node nv msg st nd) = nd_trxns nd"
    | (old) p p' where "pending_procedures ?st (msg_seq msg) = Some p" "\<not> err"
      "\<exists>i. check_response_type (nv_lib nv) i (msg_type msg)"
      "pending_procedures st = (pending_procedures ?st)(msg_seq msg \<mapsto> p')" "trxn_id2seq_num st = trxn_id2seq_num ?st"
      "trxn_id p' = trxn_id p" "retry_msg p' = retry_msg p" "retry_count p' = retry_count p"
    using receive_effect [OF r] by (auto simp: received_node_def)
  then have "?inv \<and> ?own \<and> (\<not> err \<longrightarrow> served_request (nv_lib nv) (msg_type msg) \<longrightarrow> ?more)"
  proof cases
    case new
    then have fresh: "trxn_id2seq_num ?st ?u = None" using fresh by (simp add: received_node_def)
    then have no: "\<not> owed_to ?st ?u" by (simp add: owed_to_def)
    have o': "owed_to st ?u" using new fresh by (auto simp: owed_to_def map_insert_def)
    have keep: "owed_to st t" if o: "owed_to ?st t" for t
    proof -
      obtain seq q where q: "trxn_id2seq_num ?st t = Some seq" "pending_procedures ?st seq = Some q" "trxn_id q = t" "retry_msg q = None"
        using o by (auto simp: owed_to_def)
      moreover have "t \<noteq> ?u" using o no by blast
      ultimately show ?thesis unfolding owed_to_def
        by (intro exI [of _ seq] exI [of _ q]) (use new(1,8,9) fresh in \<open>auto simp: map_insert_def\<close>)
    qed
    have "never_repeated st" using nr new by (auto simp: never_repeated_def)
    moreover have "dom (trxn_id2seq_num st) \<subseteq> nv_trxn nv ` {..<Suc (nd_trxns nd)}"
      using dm new(9) by (fastforce simp: map_insert_def lessThan_Suc split: if_splits)
    ultimately have "node_inv nv (?u # T) (received_node nv msg st nd)"
      using db dT o o' keep no new(1,2) by (auto simp: node_inv_def received_node_def)
    moreover have ?own using new(1,8) by (auto simp: keeps_own_def)
    ultimately show ?thesis using new(4) by (simp add: node_inv_def)
  next
    case same
    then show ?thesis using assms(2) by (simp add: node_inv_def received_node_def keeps_own_refl)
  next
    case old
    have "owed_to st t" if "owed_to ?st t" for t
      using that old(1,4-7) unfolding owed_to_def by auto
    moreover have "never_repeated st" using nr old(1,4,8) by (auto simp: never_repeated_def)
    ultimately have ?inv using db dT o dm old(1,5) by (auto simp: node_inv_def received_node_def)
    moreover have ?own using old(1,4,7) by (auto simp: keeps_own_def)
    moreover have "\<not> served_request (nv_lib nv) (msg_type msg)"
      using old(3) served_request_no_response assms(1) by (auto simp: nv_ok_def)
    ultimately show ?thesis by blast
  qed
  then show ?inv ?own "\<not> err \<Longrightarrow> served_request (nv_lib nv) (msg_type msg) \<Longrightarrow> ?more" by blast+
qed

text \<open>The transactions whose responses are on their way through the queues.\<close>

fun app_trxns :: "app_msg \<Rightarrow> u64 list" where
  "app_trxns (AppEstablish ep t r) = [t]"
| "app_trxns (AppModify ep t r) = [t]"
| "app_trxns (AppDelete ep t seid) = [t]"
| "app_trxns (AppReportResponse t) = []"

fun n4_trxns :: "n4_task_msg \<Rightarrow> u64 list" where
  "n4_trxns (N4SessionResponse k ep seid i t) = [t]"
| "n4_trxns (N4Timeout t a b) = []"

definition owed :: "n4_node \<Rightarrow> u64 list" where
  "owed nd = concat (map app_trxns (nd_app_queue nd)) @ concat (map n4_trxns (nd_n4_queue nd))"

definition queues :: "n4_node \<Rightarrow> app_msg list \<times> n4_task_msg list" where
  "queues nd = (nd_app_queue nd, nd_n4_queue nd)"

lemma queues_owed: "queues nd' = queues nd \<Longrightarrow> owed nd' = owed nd"
  by (simp add: queues_def owed_def)

lemma queues_ops [simp]:
  "queues (on_db f nd) = queues nd" "queues (on_stack g nd) = queues nd"
  "queues (nd\<lparr>nd_switch := sw\<rparr>) = queues nd" "queues (nd\<lparr>nd_db := db\<rparr>) = queues nd"
  "queues (received_node nv msg st nd) = queues nd"
  by (simp_all add: queues_def received_node_def)

lemma queues_generate: "generate_trxn_id nv nd = (t, nd') \<Longrightarrow> queues nd' = queues nd"
  by (auto simp: queues_def generate_trxn_id_def)

lemma queues_timer: "heartbeat_timer a b nd = (nd', t) \<Longrightarrow> queues nd' = queues nd"
  by (auto simp: queues_def heartbeat_timer_def split: prod.splits)

lemma queues_heartbeats [simp]:
  "queues (n4_send_heartbeat_request nv k a nd) = queues nd"
  "queues (trigger_heartbeat_request_procedure k a nd) = queues nd"
  by (auto simp: n4_send_heartbeat_request_def trigger_heartbeat_request_procedure_def split: prod.splits
      dest: queues_timer) (metis queues_generate queues_timer)

lemma queues_heartbeat_response [simp]: "queues (assoc_heartbeat_response t nd) = queues nd"
  by (simp add: assoc_heartbeat_response_def split: prod.split option.split)

lemma queues_initiate [simp]: "queues (initiate_loop nv hash ks nd) = queues nd"
  by (induction ks arbitrary: nd) (auto split: option.splits)

lemma queues_report_to [simp]: "queues (send_report_to nv t f m a nd) = queues nd"
  by (simp add: send_report_to_def Let_def)

lemma queues_report [simp]: "queues (send_session_report nv f m nd) = queues nd"
  by (auto simp: send_session_report_def split: prod.splits option.splits dest: queues_generate)

lemma queues_report_locked: "send_session_report_locked nv k f m nd = Some nd' \<Longrightarrow> queues nd' = queues nd"
  by (auto simp: send_session_report_locked_def split: prod.splits option.splits if_splits dest: queues_generate)

lemma queues_reports_locked: "send_reports_locked nv k ms nd = Some nd' \<Longrightarrow> queues nd' = queues nd"
proof (induction ms arbitrary: nd)
  case (Cons x ms)
  obtain f m where "x = (f, m)" by force
  with Cons.prems obtain nd1 where "send_session_report_locked nv k f m nd = Some nd1" "send_reports_locked nv k ms nd1 = Some nd'"
    by (auto simp: bind_eq_Some_conv)
  then show ?case using Cons.IH queues_report_locked by metis
qed simp

lemma queues_del_sessions: "del_sessions_loop nv now k fs nd = Some nd' \<Longrightarrow> queues nd' = queues nd"
proof (induction fs arbitrary: nd)
  case (Cons f fs)
  then obtain ms sw nd1 g where "send_reports_locked nv k ms (nd\<lparr>nd_switch := sw\<rparr>) = Some nd1"
    "del_sessions_loop nv now k fs (on_db g nd1) = Some nd'" by (auto simp: Let_def bind_eq_Some_conv)
  with Cons.IH queues_reports_locked show ?case by fastforce
qed simp

lemma queues_timeout: "timeout_loop nv now hash ks nd = Some nd' \<Longrightarrow> queues nd' = queues nd"
proof (induction ks arbitrary: nd)
  case (Cons k ks)
  show ?case
  proof (cases "map_of (associations (nd_db nd)) k")
    case (Some a)
    with Cons.prems Cons.IH show ?thesis
      by (auto split: if_splits dest: queues_del_sessions)
  qed (use Cons in simp)
qed simp

lemma queues_store [simp]: "queues (store_association nv n a nd) = queues nd"
  by (simp add: store_association_def Let_def)

lemma queues_associate [simp]: "queues (associate nv i ep nd) = queues nd"
  by (simp add: associate_def add_association_def split: prod.split)

lemma queues_start [simp]: "queues (start_association nv n nd) = queues nd"
  by (auto simp: start_association_def split: prod.splits option.splits dest: queues_generate)

lemma owed_on_queues [simp]: "owed (to_app m nd) = concat (map app_trxns (nd_app_queue nd)) @ app_trxns m @ concat (map n4_trxns (nd_n4_queue nd))"
  "owed (to_n4 m' nd) = owed nd @ n4_trxns m'"
  by (simp_all add: owed_def to_app_def to_n4_def)

section \<open>Steps\<close>

text \<open>Served requests: each opens a procedure and hands its transaction to the handler.\<close>

lemma trxns_received: "nd_trxns nd \<le> nd_trxns (received_node nv msg st nd)"
  by (simp add: received_node_def)

lemma accept_request_good:
  assumes "nv_ok nv" "served_request (nv_lib nv) (msg_type msg)"
    and go: "\<And>t nd'. node_good nv (t # owed nd') nd' (owed (go t nd')) (go t nd')"
  shows "node_good nv (owed nd) nd (owed (accept_message nv msg go nd)) (accept_message nv msg go nd)"
proof -
  obtain st err trxn where r: "handle_receive_message_cb (nv_lib nv) (nv_trxn nv (nd_trxns nd)) msg (nd_stack nd) = (st, err, trxn)"
    by (metis prod_cases3)
  let ?nd = "received_node nv msg st nd"
  note K = receive_keeps [OF assms(1) _ r]
  have q: "owed ?nd = owed nd" by (rule queues_owed) simp
  have s: "nd_stack ?nd = st" by (simp add: received_node_def)
  show "node_good nv (owed nd) nd (owed (accept_message nv msg go nd)) (accept_message nv msg go nd)"
  proof (cases err)
    case True
    with K(1,2) q s trxns_received show ?thesis by (simp add: accept_message_eq [OF r] node_good_def)
  next
    case False
    then have "node_good nv (owed nd) nd (trxn # owed ?nd) ?nd"
      using K(2) K(3) [OF _ _ False assms(2)] q s trxns_received by (simp add: node_good_def)
    from node_good_trans [OF this go] False show ?thesis by (simp add: accept_message_eq [OF r])
  qed
qed

lemma accept_response_good:
  assumes "nv_ok nv" and go: "\<And>t nd'. node_good nv (owed nd') nd' (owed (go t nd')) (go t nd')"
  shows "node_good nv (owed nd) nd (owed (accept_message nv msg go nd)) (accept_message nv msg go nd)"
proof -
  obtain st err trxn where r: "handle_receive_message_cb (nv_lib nv) (nv_trxn nv (nd_trxns nd)) msg (nd_stack nd) = (st, err, trxn)"
    by (metis prod_cases3)
  let ?nd = "received_node nv msg st nd"
  have q: "owed ?nd = owed nd" by (rule queues_owed) simp
  have "node_good nv (owed nd) nd (owed ?nd) ?nd"
    using receive_keeps(1,2) [OF assms(1) _ r] q trxns_received
    by (simp add: node_good_def) (simp add: received_node_def)
  with node_good_trans [OF this go]
  show "node_good nv (owed nd) nd (owed (accept_message nv msg go nd)) (accept_message nv msg go nd)"
    by (simp add: accept_message_eq [OF r])
qed

lemma respond_good:
  "queues nd' = queues nd \<Longrightarrow> node_good nv (t # owed nd) nd (t # owed nd) nd' \<Longrightarrow>
   node_good nv (t # owed nd) nd (owed (on_stack (send_response lib ty seid ies dest t DELETE_TX) nd'))
     (on_stack (send_response lib ty seid ies dest t DELETE_TX) nd')"
  using node_good_trans [OF _ send_response_node_good, of nv "t # owed nd" nd t "owed nd" nd' lib ty seid ies dest]
    queues_owed [of "on_stack (send_response lib ty seid ies dest t DELETE_TX) nd'" nd]
  by simp

lemma no_response_good:
  "queues nd' = queues nd \<Longrightarrow> node_good nv (t # owed nd) nd (t # owed nd) nd' \<Longrightarrow> node_good nv (t # owed nd) nd (owed nd') nd'"
  using node_good_trans [OF _ node_good_drop, of nv "t # owed nd" nd t "owed nd" nd'] queues_owed [of nd' nd] by simp

lemma heartbeat_request_received_good:
  assumes "nv_ok nv" "served_request (nv_lib nv) (msg_type msg)"
  shows "node_good nv (owed nd) nd (owed (handle_receive_heartbeat_request nv msg ep nd)) (handle_receive_heartbeat_request nv msg ep nd)"
  unfolding handle_receive_heartbeat_request_def n4_send_heartbeat_response_def response_defs
  by (rule accept_request_good [OF assms]) (auto intro: respond_good node_good_drop node_good_refl)

lemma setup_request_received_good:
  assumes "nv_ok nv" "served_request (nv_lib nv) (msg_type msg)"
  shows "node_good nv (owed nd) nd (owed (handle_receive_association_setup_request nv msg ep nd))
     (handle_receive_association_setup_request nv msg ep nd)"
  unfolding handle_receive_association_setup_request_def response_defs Let_def
  by (rule accept_request_good [OF assms])
    (auto split: option.split intro: respond_good no_response_good associate_good node_good_drop)

lemma session_request_received_good:
  assumes "nv_ok nv" "served_request (nv_lib nv) (msg_type msg)"
  shows "node_good nv (owed nd) nd (owed (handle_receive_session_request nv k msg ep nd)) (handle_receive_session_request nv k msg ep nd)"
  unfolding handle_receive_session_request_def
proof (rule accept_request_good [OF assms])
  fix t nd'
  have pass: "node_good nv (t # owed nd') nd' (owed (to_app m nd')) (to_app m nd')" if "app_trxns m = [t]" for m
    by (rule node_good_trans [OF node_good_perm node_good_frame]) (use that in \<open>auto simp: owed_def to_app_def\<close>)
  show "node_good nv (t # owed nd') nd'
     (owed (case (k, n4_body (msg_ies msg)) of
            (Establishment, EstRequest r) \<Rightarrow> to_app (AppEstablish ep t r) nd'
          | (Modification, ModRequest r) \<Rightarrow> to_app (AppModify ep t (r\<lparr>mr_seid := msg_get_seid nv msg\<rparr>)) nd'
          | (Deletion, _) \<Rightarrow> to_app (AppDelete ep t (msg_get_seid nv msg)) nd'
          | _ \<Rightarrow> nd'))
     (case (k, n4_body (msg_ies msg)) of
            (Establishment, EstRequest r) \<Rightarrow> to_app (AppEstablish ep t r) nd'
          | (Modification, ModRequest r) \<Rightarrow> to_app (AppModify ep t (r\<lparr>mr_seid := msg_get_seid nv msg\<rparr>)) nd'
          | (Deletion, _) \<Rightarrow> to_app (AppDelete ep t (msg_get_seid nv msg)) nd'
          | _ \<Rightarrow> nd')"
    by (cases k; cases "n4_body (msg_ies msg)") (simp_all add: pass node_good_drop del: owed_on_queues)
qed

lemma responses_received_good:
  assumes "nv_ok nv"
  shows "node_good nv (owed nd) nd (owed (handle_receive_heartbeat_response nv msg nd)) (handle_receive_heartbeat_response nv msg nd)"
    "node_good nv (owed nd) nd (owed (handle_receive_association_setup_response nv msg ep nd)) (handle_receive_association_setup_response nv msg ep nd)"
    "node_good nv (owed nd) nd (owed (handle_receive_session_report_response nv msg nd)) (handle_receive_session_report_response nv msg nd)"
proof -
  have 1: "owed (assoc_heartbeat_response t nd') = owed nd'" "owed (associate nv i ep nd') = owed nd'" for t nd' i
    by (rule queues_owed, simp)+
  have 2: "node_good nv (owed nd') nd' (owed (to_app (AppReportResponse t) nd')) (to_app (AppReportResponse t) nd')" for t nd'
    by (rule node_good_trans [OF node_good_perm node_good_frame]) (auto simp: owed_def to_app_def)
  show "node_good nv (owed nd) nd (owed (handle_receive_heartbeat_response nv msg nd)) (handle_receive_heartbeat_response nv msg nd)"
    unfolding handle_receive_heartbeat_response_def
    by (rule accept_response_good [OF assms]) (auto simp: 1 heartbeat_response_good node_good_refl)
  show "node_good nv (owed nd) nd (owed (handle_receive_association_setup_response nv msg ep nd)) (handle_receive_association_setup_response nv msg ep nd)"
    unfolding handle_receive_association_setup_response_def
    by (rule accept_response_good [OF assms]) (auto simp: 1 associate_good node_good_refl)
  show "node_good nv (owed nd) nd (owed (handle_receive_session_report_response nv msg nd)) (handle_receive_session_report_response nv msg nd)"
    unfolding handle_receive_session_report_response_def by (rule accept_response_good [OF assms 2])
qed

lemma receive_good: "nv_ok nv \<Longrightarrow> node_good nv (owed nd) nd (owed (n4_handle_receive nv d ep nd)) (n4_handle_receive nv d ep nd)"
  by (auto simp: n4_handle_receive_def handle_receive_pfcp_msg_def Let_def served_request_def node_good_refl
      split: option.split intro: responses_received_good heartbeat_request_received_good setup_request_received_good
      session_request_received_good)

text \<open>The application task: what the handler reports and registers, then the response it queues.\<close>

lemma reports_good: "nv_ok nv \<Longrightarrow> node_good nv T nd T (fold (\<lambda>(f, m). send_session_report nv f m) ms nd)"
proof (induction ms arbitrary: nd)
  case (Cons x ms)
  obtain f m where "x = (f, m)" by force
  with node_good_trans [OF session_report_good [OF Cons.prems] Cons.IH [OF Cons.prems]] show ?case by simp
qed (simp add: node_good_refl)

lemma queues_reports [simp]: "queues (fold (\<lambda>(f, m). send_session_report nv f m) ms nd) = queues nd"
  by (induction ms arbitrary: nd) auto

lemma db_ok_fold_notify: "db_ok lib db \<Longrightarrow> db_ok lib (fold (assoc_notify lib) cs db)"
  by (induction cs arbitrary: db) (auto intro: db_ok_notify)

lemma after_handler_good:
  assumes "nv_ok nv"
  shows "node_good nv T nd T (after_handler nv sw nd)" "queues (after_handler nv sw nd) = queues nd"
proof -
  have "node_good nv T nd T (nd\<lparr>nd_switch := sw\<rparr>)" by (rule node_good_frame) simp_all
  from node_good_trans [OF this node_good_trans [OF reports_good [OF assms] node_good_db [OF db_ok_fold_notify]]]
  show "node_good nv T nd T (after_handler nv sw nd)" unfolding after_handler_def Let_def .
  show "queues (after_handler nv sw nd) = queues nd"
    unfolding after_handler_def Let_def by (simp only: queues_ops queues_reports)
qed

lemma answer_good:
  assumes "nv_ok nv"
  shows "node_good nv (t # owed nd) nd (owed (to_n4 (N4SessionResponse k ep seid i t) (after_handler nv sw nd)))
     (to_n4 (N4SessionResponse k ep seid i t) (after_handler nv sw nd))"
proof -
  note A = after_handler_good(1) [OF assms, of "t # owed nd" nd sw] queues_owed [OF after_handler_good(2) [OF assms, of sw nd]]
  have "node_good nv (t # owed nd) (after_handler nv sw nd) (owed nd @ [t]) (after_handler nv sw nd)"
    by (rule node_good_perm) auto
  moreover have "node_good nv (owed nd @ [t]) (after_handler nv sw nd) (owed nd @ [t]) (to_n4 (N4SessionResponse k ep seid i t) (after_handler nv sw nd))"
    by (rule node_good_frame) (simp_all add: to_n4_def)
  ultimately show ?thesis using A node_good_trans [OF A(1) node_good_trans] by simp
qed

lemma app_handle_good:
  assumes "nv_ok nv" "app_handle nv now m nd = Some nd'"
  shows "node_good nv (app_trxns m @ owed nd) nd (owed nd') nd'"
  using assms answer_good [OF assms(1)]
  by (cases m) (auto simp del: owed_on_queues split: prod.splits intro: node_good_refl)

lemma node_good_pop_app: "nd_app_queue nd = m # ms \<Longrightarrow> node_good nv (owed nd) nd (app_trxns m @ owed (nd\<lparr>nd_app_queue := ms\<rparr>)) (nd\<lparr>nd_app_queue := ms\<rparr>)"
  by (rule node_good_trans [OF node_good_perm node_good_frame]) (auto simp: owed_def)

lemma node_good_pop_n4: "nd_n4_queue nd = m # ms \<Longrightarrow> node_good nv (owed nd) nd (n4_trxns m @ owed (nd\<lparr>nd_n4_queue := ms\<rparr>)) (nd\<lparr>nd_n4_queue := ms\<rparr>)"
  by (rule node_good_trans [OF node_good_perm node_good_frame]) (auto simp: owed_def)

lemma app_step_good: "nv_ok nv \<Longrightarrow> n4_app_step nv now nd = Some nd' \<Longrightarrow> node_good nv (owed nd) nd (owed nd') nd'"
  unfolding n4_app_step_def using node_good_trans [OF node_good_pop_app app_handle_good]
  by (auto split: list.splits intro: node_good_refl)

lemma n4_handle_good:
  assumes "nv_ok nv" "n4_task_handle nv now m nd = Some nd'"
  shows "node_good nv (n4_trxns m @ owed nd) nd (owed nd') nd'"
proof (cases m)
  case (N4SessionResponse k ep seid i t)
  with assms(2) show ?thesis
    by (cases k) (auto simp: response_defs intro: respond_good node_good_refl)
next
  case (N4Timeout t a b)
  have "queues nd' = queues nd" using assms(2) N4Timeout
    by (auto simp: initiate_heartbeat_request_def timeout_heartbeat_request_def split: if_splits dest: queues_timeout)
  then have "owed nd' = owed nd" by (rule queues_owed)
  with assms N4Timeout show ?thesis
    by (auto simp: initiate_heartbeat_request_def timeout_heartbeat_request_def split: if_splits
        intro: initiate_loop_good timeout_loop_good node_good_refl)
qed

lemma n4_task_step_good: "nv_ok nv \<Longrightarrow> n4_task_step nv now nd = Some nd' \<Longrightarrow> node_good nv (owed nd) nd (owed nd') nd'"
  unfolding n4_task_step_def using node_good_trans [OF node_good_pop_n4 n4_handle_good]
  by (auto split: list.splits intro: node_good_refl)

lemma expire_good: "node_good nv (owed nd) nd (owed (timer_expires t nd)) (timer_expires t nd)"
proof -
  obtain a b where e: "timer_args nd t = (a, b)" by force
  have q: "owed (timer_expires t nd) = owed nd"
    using queues_owed [of "on_stack (timer_remove t) nd" nd] by (simp add: timer_expires_def e)
  have "node_good nv (owed nd) nd (owed nd) (on_stack (timer_remove t) nd)"
    by (rule node_good_timers) (simp_all add: same_procedures_ops)
  moreover have "node_good nv (owed nd) (on_stack (timer_remove t) nd) (owed nd) (timer_expires t nd)"
    by (rule node_good_frame) (simp_all add: timer_expires_def e to_n4_def)
  ultimately show ?thesis unfolding q by (rule node_good_trans)
qed

lemma node_step_good: "nv_ok nv \<Longrightarrow> node_step nv nd nd' \<Longrightarrow> node_good nv (owed nd) nd (owed nd') nd'"
proof (erule node_step.cases)
  fix nda n
  assume "nv_ok nv" "nd = nda" "nd' = start_association nv n nda"
  then show ?thesis using start_association_good [of nv "owed nda" nda n] queues_owed [OF queues_start [of nv n nda]] by simp
next
  fix nda f m
  assume "nv_ok nv" "nd = nda" "nd' = send_session_report nv f m nda"
  then show ?thesis using session_report_good [of nv "owed nda" nda f m] queues_owed [OF queues_report [of nv f m nda]] by simp
qed (simp_all add: receive_good app_step_good n4_task_step_good expire_good)

lemma node_steps_good: "(node_step nv)\<^sup>*\<^sup>* nd nd' \<Longrightarrow> nv_ok nv \<Longrightarrow> node_good nv (owed nd) nd (owed nd') nd'"
  by (induction rule: rtranclp_induct) (auto intro: node_good_refl node_good_trans node_step_good)

lemma node_inv_new: "node_inv nv (owed (n4_node_new nsec)) (n4_node_new nsec)"
  by (simp add: node_inv_def n4_node_new_def owed_def db_ok_new never_repeated_def pfcp_stack_new_def)

lemma node_reachable_inv: "nv_ok nv \<Longrightarrow> node_reachable nv nsec nd \<Longrightarrow> nd_trxns nd \<le> nv_draws nv \<Longrightarrow> node_inv nv (owed nd) nd"
  using node_steps_good node_inv_new node_good_inv unfolding node_reachable_def by blast

section \<open>What follows for requests and responses\<close>

lemma own_request_kept:
  assumes "nv_ok nv" "node_reachable nv nsec nd" "(node_step nv)\<^sup>*\<^sup>* nd nd'" "nd_trxns nd' \<le> nv_draws nv"
    and "pending_procedures (nd_stack nd) seq = Some p" "retry_msg p = Some m"
  shows "\<exists>p'. pending_procedures (nd_stack nd') seq = Some p' \<and> retry_msg p' = Some m \<and> retry_count p' = 0"
proof -
  note G = node_steps_good [OF assms(3,1)]
  have i: "node_inv nv (owed nd) nd"
    by (rule node_reachable_inv [OF assms(1,2)]) (use node_good_mono [OF G] assms(4) in simp)
  from i G assms(4) have "keeps_own (nd_stack nd) (nd_stack nd')" and "never_repeated (nd_stack nd')"
    by (simp_all add: node_good_def node_inv_def)
  then show ?thesis using assms(5,6) unfolding keeps_own_def never_repeated_def by blast
qed

text \<open>A served request under a number that is taken.\<close>

lemma accept_taken:
  assumes "codes_ok (nv_lib nv)" "served_request (nv_lib nv) (msg_type msg)"
    and "pending_procedures (nd_stack nd) (msg_seq msg) = Some p"
  shows "accept_message nv msg go nd = nd"
  using assms served_request_no_response [OF assms(1,2)]
  by (simp add: accept_message_def handle_receive_message_cb_def Let_def)

lemma pending_number_discards:
  assumes "codes_ok (nv_lib nv)" "served_request (nv_lib nv) (msg_type msg)"
    and "pending_procedures (nd_stack nd) (msg_seq msg) = Some p"
  shows "n4_handle_receive nv (Some msg) ep nd = nd"
  unfolding n4_handle_receive_def option.case handle_receive_pfcp_msg_def Let_def
    handle_receive_association_setup_response_def handle_receive_session_request_def
    handle_receive_session_report_response_def handle_receive_heartbeat_request_def
    handle_receive_heartbeat_response_def handle_receive_association_setup_request_def
    accept_taken [OF assms] by simp

text \<open>The session procedures and their responses.\<close>

fun response_code :: "session_procedure \<Rightarrow> PfcpTransactions.pfcp_lib \<Rightarrow> u8" where
  "response_code Establishment = PFCP_SESSION_ESTABLISHMENT_RESPONSE"
| "response_code Modification = PFCP_SESSION_MODIFICATION_RESPONSE"
| "response_code Deletion = PFCP_SESSION_DELETION_RESPONSE"

lemma session_response_type_eq:
  "session_response_type k lib seid i ep t act st = send_response lib (response_code k lib) (Some seid) i ep t act st"
  by (cases k) (simp_all add: response_defs)

lemma send_response_owed:
  assumes "trxn_id2seq_num st t = Some seq" "pending_procedures st seq = Some p" "trxn_id p = t"
  shows "sent (send_response lib ty seid ies dest t DELETE_TX st) =
      sent st @ [From8805 \<lparr>msg_type = ty, msg_seid = seid, msg_seq = stored_seq lib seq, msg_ies = ies\<rparr> (Some dest)]"
    "pending_procedures (send_response lib ty seid ies dest t DELETE_TX st) = (pending_procedures st)(seq := None)"
  using assms by (simp_all add: send_response_def Let_def stop_proc_cleanup_timer_def timer_remove_def)

lemma queued_response_sent:
  assumes "node_inv nv (owed nd) nd" "nd_n4_queue nd = N4SessionResponse k ep seid i t # ms"
  shows "\<exists>seq p nd'. trxn_id2seq_num (nd_stack nd) t = Some seq \<and> nd_switch nd' = nd_switch nd \<and> nd_db nd' = nd_db nd \<and>
     pending_procedures (nd_stack nd) seq = Some p \<and> trxn_id p = t \<and> retry_msg p = None \<and>
     n4_task_step nv now nd = Some nd' \<and> nd_n4_queue nd' = ms \<and> pending_procedures (nd_stack nd') seq = None \<and>
     sent (nd_stack nd') = sent (nd_stack nd) @
       [From8805 \<lparr>msg_type = response_code k (nv_lib nv), msg_seid = Some seid, msg_seq = stored_seq (nv_lib nv) seq,
                  msg_ies = i\<rparr> (Some ep)]"
proof -
  have "owed_to (nd_stack nd) t" using assms by (simp add: node_inv_def owed_def)
  then obtain seq p where p: "trxn_id2seq_num (nd_stack nd) t = Some seq" "pending_procedures (nd_stack nd) seq = Some p"
    "trxn_id p = t" "retry_msg p = None" by (auto simp: owed_to_def)
  note S = send_response_owed [OF p(1-3), of "nv_lib nv" "response_code k (nv_lib nv)" "Some seid" i ep]
  show ?thesis
    by (rule exI [of _ seq], rule exI [of _ p])
      (use assms(2) p S in \<open>simp add: n4_task_step_def session_response_type_eq\<close>)
qed

end
