(* ===== verification/UpfN4Props.thy ===== *)
theory UpfN4Props
  imports UpfN4Inv HandlerProps
begin

text \<open>
  The properties of the N4 node: what every run keeps (\<open>UpfN4Inv\<close>), and what single exchanges do.
\<close>

section \<open>An example\<close>

definition ex_nodes :: node_lib where
  "ex_nodes = \<lparr>node_hash = (\<lambda>n. of_nat (sum_list (map unat n))), node_id_type_of = (\<lambda>_. NODE_ID_TYPE_IPV4_ADDRESS),
     node_ipv4_address = (\<lambda>_. 0x0A000001), fseid_less = (\<lambda>f g. fs_seid f < fs_seid g)\<rparr>"

definition ex_node_env :: n4_env where
  "ex_node_env = \<lparr>nv_lib = lib_29244, nv_nodes = ex_nodes, nv_session_lib = ex_lib, nv_dp = (\<lambda>_ _ x. x), nv_cfg = ex_env,
     nv_uids = ex_uids, nv_trxn = (\<lambda>n. of_nat n + 100), nv_draws = 2 ^ 32, nv_no_seid = 0, nv_own_node_id = Some [9],
     nv_recovery_time_stamp = 77, nv_up_features = [1], nv_enterprise = [2]\<rparr>"

lemma ex_node_env_ok [simp]: "nv_ok ex_node_env"
proof -
  have "inj_on (\<lambda>n. of_nat n + 100 :: u64) {..<2 ^ 32}"
  proof (rule inj_onI)
    fix m n assume mn: "m \<in> {..<2 ^ 32 :: nat}" "n \<in> {..<2 ^ 32 :: nat}" "of_nat m + 100 = (of_nat n + 100 :: u64)"
    then have "(of_nat m :: u64) = of_nat n" by simp
    then have "m mod 2 ^ 64 = n mod 2 ^ 64" by (simp add: word_of_nat_eq_iff take_bit_eq_mod)
    with mn(1,2) show "m = n" by simp
  qed
  then show ?thesis
    by (simp add: nv_ok_def ex_node_env_def codes_ok_def lib_29244_def)
qed

text \<open>A node that has started to associate with its first peer.\<close>

definition ex_started :: n4_node where
  "ex_started = start_association ex_node_env [1] (n4_node_new 0)"

lemmas stack_evals = send_request_def Let_def start_msg_retry_timer_eq start_proc_cleanup_timer_eq get_next_seq_num_def
  pfcp_stack_new_def lib_29244_def pfcp_procedure_new_def map_insert_def

lemma ex_started_reachable: "node_reachable ex_node_env 0 ex_started"
  unfolding node_reachable_def ex_started_def by (rule r_into_rtranclp) (rule node_step.start)

lemma ex_started_eval:
  "\<exists>p m. pending_procedures (nd_stack ex_started) 1 = Some p \<and> retry_msg p = Some m"
  "nd_trxns ex_started = 1" "itti_armed (nd_stack ex_started) = [1 \<mapsto> (1, 0), 2 \<mapsto> (5, 0)]"
  by (simp_all add: ex_started_def start_association_def n4_node_new_def generate_trxn_id_def ex_node_env_def
      request_defs stack_evals is_ipv4_node_def ex_nodes_def on_stack_def on_db_def
      PFCP_T1_RESPONSE_MS_def PFCP_PROC_TIME_OUT_MS_def)

section \<open>Requests of the UPF\<close>

text \<open>A request the UPF has sent stays pending for ever, and is never sent again. In every run of the
  node, whatever is received and whichever timers expire, the procedure of that request is still
  there, with the request in it and a retry count of zero: the timers of the PFCP stack reach the task
  as messages, but no branch of the task gives them to the stack.\<close>

lemma own_request_stays_pending:
  assumes "nv_ok nv" "node_reachable nv nsec nd" "(node_step nv)\<^sup>*\<^sup>* nd nd'" "nd_trxns nd' \<le> nv_draws nv"
    and "pending_procedures (nd_stack nd) seq = Some p" "retry_msg p = Some m"
  shows "\<exists>p'. pending_procedures (nd_stack nd') seq = Some p' \<and> retry_msg p' = Some m \<and> retry_count p' = 0"
  by (rule own_request_kept [OF assms])

text \<open>A request of a peer that carries the number of a request the UPF has sent before is discarded
  for ever: in every later state of the node, receiving it changes nothing at all.\<close>

lemma colliding_request_is_discarded:
  assumes "nv_ok nv" "node_reachable nv nsec nd" "(node_step nv)\<^sup>*\<^sup>* nd nd'" "nd_trxns nd' \<le> nv_draws nv"
    and "pending_procedures (nd_stack nd) (msg_seq msg) = Some p" "retry_msg p = Some m"
    and "served_request (nv_lib nv) (msg_type msg)"
  shows "n4_handle_receive nv (Some msg) ep nd' = nd'"
proof -
  obtain p' where "pending_procedures (nd_stack nd') (msg_seq msg) = Some p'"
    using own_request_kept [OF assms(1-6)] by blast
  with assms(1,7) show ?thesis by (intro pending_number_discards) (simp add: nv_ok_def)+
qed

section \<open>Answers\<close>

text \<open>No answer is lost and none goes to the wrong request. In every reachable state a session response
  at the head of the task's queue belongs to a pending procedure that a peer started; handling it
  sends exactly that response, to the endpoint of the request and under the request's number, and
  closes the procedure.\<close>

lemma queued_response_is_sent:
  assumes "nv_ok nv" "node_reachable nv nsec nd" "nd_trxns nd \<le> nv_draws nv"
    and "nd_n4_queue nd = N4SessionResponse k ep seid i t # ms"
  shows "\<exists>seq p nd'. pending_procedures (nd_stack nd) seq = Some p \<and> trxn_id p = t \<and> retry_msg p = None \<and>
     n4_task_step nv now nd = Some nd' \<and> nd_n4_queue nd' = ms \<and> pending_procedures (nd_stack nd') seq = None \<and>
     sent (nd_stack nd') = sent (nd_stack nd) @
       [From8805 \<lparr>msg_type = response_code k (nv_lib nv), msg_seid = Some seid, msg_seq = stored_seq (nv_lib nv) seq,
                  msg_ies = i\<rparr> (Some ep)]"
  using queued_response_sent [OF node_reachable_inv [OF assms(1-3)] assms(4)] by blast

text \<open>A deletion of a session that does not exist, waiting to be answered.\<close>

definition ex_delete :: n4_msg_in where
  "ex_delete = \<lparr>msg_type = 54, msg_seid = Some 3, msg_seq = 6, msg_ies = no_ies\<rparr>"

definition ex_not_found :: n4_ies where
  "ex_not_found = response_ies (rsp_new\<lparr>rsp_cause := CAUSE_VALUE_SESSION_CONTEXT_NOT_FOUND\<rparr>)"

definition ex_answering :: n4_node where
  "ex_answering = the (n4_app_step ex_node_env 0 (n4_handle_receive ex_node_env (Some ex_delete) (InetEndpoint 4 5) (n4_node_new 0)))"

lemma delete_nothing:
  "handle_deletion dp env now seid switch_new =
     (rsp_new\<lparr>rsp_cause := CAUSE_VALUE_SESSION_CONTEXT_NOT_FOUND\<rparr>, switch_new\<lparr>assoc_calls := [NotifyDelSession fseid_zero]\<rparr>)"
proof -
  have "get_pfcp_session_by_up_seid switch_new seid = None"
    by (simp add: get_pfcp_session_by_up_seid_def switch_new_def um_new_empty)
  moreover have "assoc_calls switch_new = []" by (simp add: switch_new_def)
  ultimately show ?thesis by (simp add: handle_deletion_def)
qed

lemma ex_answering_steps:
  "n4_app_step ex_node_env 0 (n4_handle_receive ex_node_env (Some ex_delete) (InetEndpoint 4 5) (n4_node_new 0)) = Some ex_answering"
  "nd_n4_queue ex_answering = [N4SessionResponse Deletion (InetEndpoint 4 5) 0 ex_not_found 100]"
  "nd_trxns ex_answering = 1" "sent (nd_stack ex_answering) = []"
proof -
  define nd1 where "nd1 = n4_handle_receive ex_node_env (Some ex_delete) (InetEndpoint 4 5) (n4_node_new 0)"
  have 1: "nd_app_queue nd1 = [AppDelete (InetEndpoint 4 5) 100 3]" "nd_n4_queue nd1 = []" "nd_switch nd1 = switch_new"
    "nd_trxns nd1 = 1" "sent (nd_stack nd1) = []"
    by (simp_all add: nd1_def n4_handle_receive_def handle_receive_pfcp_msg_def handle_receive_session_request_def
        accept_message_def handle_receive_message_cb_def stack_evals n4_node_new_def ex_node_env_def ex_delete_def
        to_app_def msg_get_seid_def check_request_type_def)
  have o: "n4_out switch_new = []" "assoc_calls switch_new = []" "rsp_seid rsp_new = 0" by (simp_all add: switch_new_def rsp_new_def)
  have 2: "n4_app_step ex_node_env 0 nd1 = Some (to_n4 (N4SessionResponse Deletion (InetEndpoint 4 5) 0 ex_not_found 100)
      (after_handler ex_node_env (switch_new\<lparr>assoc_calls := [NotifyDelSession fseid_zero]\<rparr>) (nd1\<lparr>nd_app_queue := []\<rparr>)))"
    using 1 o by (simp add: n4_app_step_def delete_nothing ex_not_found_def)
  then show "n4_app_step ex_node_env 0 (n4_handle_receive ex_node_env (Some ex_delete) (InetEndpoint 4 5) (n4_node_new 0)) = Some ex_answering"
    unfolding ex_answering_def nd1_def by simp
  have e: "ex_answering = to_n4 (N4SessionResponse Deletion (InetEndpoint 4 5) 0 ex_not_found 100)
      (after_handler ex_node_env (switch_new\<lparr>assoc_calls := [NotifyDelSession fseid_zero]\<rparr>) (nd1\<lparr>nd_app_queue := []\<rparr>))"
    using 2 unfolding ex_answering_def nd1_def by simp
  show "nd_n4_queue ex_answering = [N4SessionResponse Deletion (InetEndpoint 4 5) 0 ex_not_found 100]"
    "nd_trxns ex_answering = 1" "sent (nd_stack ex_answering) = []"
    using 1 o by (simp_all add: e to_n4_def after_handler_def)
qed

lemma ex_answering_reachable: "node_reachable ex_node_env 0 ex_answering"
proof -
  have "(node_step ex_node_env)\<^sup>*\<^sup>* (n4_node_new 0) (n4_handle_receive ex_node_env (Some ex_delete) (InetEndpoint 4 5) (n4_node_new 0))"
    by (rule r_into_rtranclp) (rule node_step.receive)
  then show ?thesis unfolding node_reachable_def by (rule rtranclp.rtrancl_into_rtrancl) (rule node_step.app [OF ex_answering_steps(1)])
qed

section \<open>The switch under the node\<close>

text \<open>Only session handlers and lost peers change the switch.\<close>

lemma switch_stays [simp]:
  "nd_switch (trigger_heartbeat_request_procedure k a nd) = nd_switch nd"
  "nd_switch (n4_send_heartbeat_request nv k a nd) = nd_switch nd"
  "nd_switch (send_report_to nv t f m a nd) = nd_switch nd"
  "nd_switch (send_session_report nv f m nd) = nd_switch nd"
  "nd_switch (start_association nv n nd) = nd_switch nd"
  "nd_switch (received_node nv msg st nd) = nd_switch nd"
  by (simp_all add: trigger_heartbeat_request_procedure_def n4_send_heartbeat_request_def heartbeat_timer_def
      generate_trxn_id_def send_report_to_def send_session_report_def start_association_def received_node_def Let_def
      split: prod.split option.split)

lemma switch_stays_loops [simp]:
  "nd_switch (initiate_loop nv hash ks nd) = nd_switch nd"
  "nd_switch (assoc_heartbeat_response t nd) = nd_switch nd"
  "nd_switch (store_association nv n a nd) = nd_switch nd"
  by (induction ks arbitrary: nd) (simp_all add: assoc_heartbeat_response_def store_association_def Let_def split: option.split)

lemma switch_stays_associate [simp]: "nd_switch (associate nv i ep nd) = nd_switch nd"
  by (simp add: associate_def add_association_def split: prod.split)

lemma switch_stays_accept: "(\<And>t nd'. nd_switch (go t nd') = nd_switch nd') \<Longrightarrow> nd_switch (accept_message nv msg go nd) = nd_switch nd"
proof -
  assume go: "\<And>t nd'. nd_switch (go t nd') = nd_switch nd'"
  obtain st err trxn where r: "handle_receive_message_cb (nv_lib nv) (nv_trxn nv (nd_trxns nd)) msg (nd_stack nd) = (st, err, trxn)"
    by (metis prod_cases3)
  show ?thesis by (simp add: accept_message_eq [OF r] go)
qed

lemma switch_stays_receive: "nd_switch (n4_handle_receive nv d ep nd) = nd_switch nd"
proof -
  have "nd_switch (handle_receive_heartbeat_request nv m ep nd) = nd_switch nd"
    "nd_switch (handle_receive_heartbeat_response nv m nd) = nd_switch nd"
    "nd_switch (handle_receive_association_setup_response nv m ep nd) = nd_switch nd"
    "nd_switch (handle_receive_association_setup_request nv m ep nd) = nd_switch nd"
    "nd_switch (handle_receive_session_report_response nv m nd) = nd_switch nd"
    "nd_switch (handle_receive_session_request nv k m ep nd) = nd_switch nd" for m k
    unfolding handle_receive_heartbeat_request_def handle_receive_heartbeat_response_def
      handle_receive_association_setup_response_def handle_receive_association_setup_request_def
      handle_receive_session_report_response_def handle_receive_session_request_def
    by (rule switch_stays_accept; simp add: n4_send_heartbeat_response_def Let_def to_app_def
        split: option.split session_procedure.split n4_body.split)+
  then show ?thesis by (simp add: n4_handle_receive_def handle_receive_pfcp_msg_def Let_def split: option.split)
qed

lemma switch_stays_reports [simp]: "nd_switch (fold (\<lambda>(f, m). send_session_report nv f m) ms nd) = nd_switch nd"
  by (induction ms arbitrary: nd) auto

lemma after_handler_switch [simp]: "nd_switch (after_handler nv sw nd) = sw"
  by (simp add: after_handler_def Let_def)

lemma switch_stays_locked: "send_session_report_locked nv k f m nd = Some nd' \<Longrightarrow> nd_switch nd' = nd_switch nd"
  by (auto simp: send_session_report_locked_def generate_trxn_id_def split: option.splits prod.splits if_splits)

lemma switch_stays_reports_locked: "send_reports_locked nv k ms nd = Some nd' \<Longrightarrow> nd_switch nd' = nd_switch nd"
proof (induction ms arbitrary: nd)
  case (Cons x ms)
  obtain f m where "x = (f, m)" by force
  with Cons.prems obtain nd1 where "send_session_report_locked nv k f m nd = Some nd1" "send_reports_locked nv k ms nd1 = Some nd'"
    by (auto simp: bind_eq_Some_conv)
  then show ?case using Cons.IH switch_stays_locked by metis
qed simp

lemma remove_by_cp_fseid_keeps: "n4_inv sw \<Longrightarrow> n4_inv (remove_pfcp_session_by_cp_fseid env now f sw)"
proof -
  assume i: "n4_inv sw"
  show ?thesis
  proof (cases "get_pfcp_session_by_cp_fseid sw f")
    case (Some r)
    then obtain s where "sess_heap sw r = Some s" using n4_invD(5) [OF i] by blast
    from remove_keeps_n4_inv [OF i this] Some show ?thesis by (simp add: remove_pfcp_session_by_cp_fseid_def)
  qed (use i in \<open>simp add: remove_pfcp_session_by_cp_fseid_def\<close>)
qed

lemma del_sessions_switch: "del_sessions_loop nv now k fs nd = Some nd' \<Longrightarrow> n4_inv (nd_switch nd) \<Longrightarrow> n4_inv (nd_switch nd')"
proof (induction fs arbitrary: nd)
  case (Cons f fs)
  let ?sw = "remove_pfcp_session_by_cp_fseid (nv_cfg nv) now f (nd_switch nd)"
  from Cons.prems(1) obtain ms g nd1 where 1: "send_reports_locked nv k ms (nd\<lparr>nd_switch := ?sw\<rparr>) = Some nd1"
    "del_sessions_loop nv now k fs (on_db g nd1) = Some nd'" by (auto simp: Let_def bind_eq_Some_conv)
  from switch_stays_reports_locked [OF 1(1)] remove_by_cp_fseid_keeps [OF Cons.prems(2)]
  have "n4_inv (nd_switch (on_db g nd1))" by simp
  from Cons.IH [OF 1(2) this] show ?case .
qed simp

lemma timeout_switch: "timeout_loop nv now hash ks nd = Some nd' \<Longrightarrow> n4_inv (nd_switch nd) \<Longrightarrow> n4_inv (nd_switch nd')"
proof (induction ks arbitrary: nd)
  case (Cons k ks)
  show ?case
  proof (cases "map_of (associations (nd_db nd)) k")
    case (Some a)
    with Cons.prems Cons.IH show ?thesis by (auto split: if_splits dest: del_sessions_switch)
  qed (use Cons in simp)
qed simp

lemma app_handle_switch:
  assumes "simple (nv_cfg nv)" "n4_inv (nd_switch nd)"
  shows "\<exists>nd'. app_handle nv now m nd = Some nd' \<and> n4_inv (nd_switch nd')"
proof (cases m)
  case (AppEstablish ep t r)
  then show ?thesis using n4_step_keeps [OF assms, of "nv_session_lib nv" "nv_dp nv" "nv_uids nv" "Establish r now"]
    by (auto simp: to_n4_def)
next
  case (AppModify ep t r)
  then show ?thesis using n4_step_keeps [OF assms, of "nv_session_lib nv" "nv_dp nv" "nv_uids nv" "Modify r"]
    by (auto simp: to_n4_def)
next
  case (AppDelete ep t seid)
  then show ?thesis using n4_step_keeps [OF assms, of "nv_session_lib nv" "nv_dp nv" "nv_uids nv" "Delete seid now"]
    by (auto simp: to_n4_def)
qed (use assms in simp)

lemma app_step_switch:
  "simple (nv_cfg nv) \<Longrightarrow> n4_inv (nd_switch nd) \<Longrightarrow> \<exists>nd'. n4_app_step nv now nd = Some nd' \<and> n4_inv (nd_switch nd')"
  using app_handle_switch [of nv "nd\<lparr>nd_app_queue := ms\<rparr>" for ms] by (auto simp: n4_app_step_def split: list.split)

lemma n4_handle_switch: "n4_task_handle nv now m nd = Some nd' \<Longrightarrow> n4_inv (nd_switch nd) \<Longrightarrow> n4_inv (nd_switch nd')"
  by (cases m) (auto simp: initiate_heartbeat_request_def timeout_heartbeat_request_def split: if_splits intro: timeout_switch)

lemma node_step_switch:
  assumes "simple (nv_cfg nv)" "node_step nv nd nd'" "n4_inv (nd_switch nd)"
  shows "n4_inv (nd_switch nd')"
  using assms(2)
proof cases
  case (app now)
  with app_step_switch [OF assms(1,3), of now] show ?thesis by simp
next
  case (n4 now)
  then show ?thesis using assms(3) by (auto simp: n4_task_step_def split: list.splits intro: n4_handle_switch)
qed (use assms(3) in \<open>simp_all add: switch_stays_receive timer_expires_def to_n4_def split: prod.split\<close>)

lemma reachable_switch:
  assumes "simple (nv_cfg nv)" "node_reachable nv nsec nd"
  shows "n4_inv (nd_switch nd)"
  using assms(2) unfolding node_reachable_def
proof (induction rule: rtranclp_induct)
  case base
  then show ?case by (simp add: n4_node_new_def n4_inv_new)
next
  case (step nd1 nd2)
  from node_step_switch [OF assms(1) step(2,3)] show ?case .
qed



end
