(* ===== verification/UpfN4Sessions.thy ===== *)
theory UpfN4Sessions
  imports UpfN4Props
begin

text \<open>
  A session establishment from the datagram to the answer: the N4 node receives the request, the
  application task runs the handler of the switch and notifies the association, the N4 task answers.
  Then what a new association does to the sessions of the old one.
\<close>

section \<open>Receiving\<close>

lemma accept_fresh:
  assumes "nv_ok nv" "node_inv nv (owed nd) nd" "nd_trxns nd < nv_draws nv" "served_request (nv_lib nv) (msg_type msg)"
    and "pending_procedures (nd_stack nd) (msg_seq msg) = None"
  obtains st where "accept_message nv msg go nd = go (nv_trxn nv (nd_trxns nd)) (received_node nv msg st nd)"
    "trxn_id2seq_num st (nv_trxn nv (nd_trxns nd)) = Some (msg_seq msg)" "sent st = sent (nd_stack nd)"
    "nd_trxns (received_node nv msg st nd) = Suc (nd_trxns nd)"
    "\<exists>p. pending_procedures st (msg_seq msg) = Some p \<and> trxn_id p = nv_trxn nv (nd_trxns nd)"
proof -
  let ?u = "nv_trxn nv (nd_trxns nd)"
  note ty = served_request_is_request [OF assms(4)]
  obtain st err trxn where r: "handle_receive_message_cb (nv_lib nv) ?u msg (nd_stack nd) = (st, err, trxn)"
    by (metis prod_cases3)
  have "trxn_id2seq_num (nd_stack nd) ?u = None" by (rule next_trxn_fresh [OF assms(1-3)])
  moreover have "\<not> err \<and> trxn = ?u \<and> trxn_id2seq_num st = map_insert ?u (msg_seq msg) (trxn_id2seq_num (nd_stack nd)) \<and>
      (\<exists>p. pending_procedures st (msg_seq msg) = Some p \<and> trxn_id p = ?u)"
    using receive_effect [OF r] assms(5) ty by auto
  moreover have "sent st = sent (nd_stack nd)"
    using r assms(5) ty
    by (auto simp: handle_receive_message_cb_def Let_def start_proc_cleanup_timer_eq split: prod.splits)
  ultimately show thesis using that [of st] accept_message_eq [OF r, of go] assms(5) ty
    by (simp add: map_insert_def received_node_def)
qed

lemma receive_establishment:
  assumes "nv_ok nv" "msg_type msg = PFCP_SESSION_ESTABLISHMENT_REQUEST (nv_lib nv)" "n4_body (msg_ies msg) = EstRequest r"
  shows "n4_handle_receive nv (Some msg) ep nd = accept_message nv msg (\<lambda>t nd. to_app (AppEstablish ep t r) nd) nd"
proof -
  have "PFCP_SESSION_ESTABLISHMENT_REQUEST (nv_lib nv) \<noteq> PFCP_ASSOCIATION_SETUP_RESPONSE (nv_lib nv)"
    using codes_distinct [of "nv_lib nv"] assms(1) by (auto simp: nv_ok_def)
  with assms(2,3) show ?thesis
    by (simp add: n4_handle_receive_def handle_receive_pfcp_msg_def Let_def handle_receive_session_request_def)
qed

section \<open>The application step\<close>

lemma after_quiet_handler:
  "n4_out sw = n4_out (nd_switch nd) \<Longrightarrow>
   after_handler nv sw nd = on_db (fold (assoc_notify (nv_nodes nv)) (drop (length (assoc_calls (nd_switch nd))) (assoc_calls sw)))
     (nd\<lparr>nd_switch := sw\<rparr>)"
  by (simp add: after_handler_def Let_def)

lemma notify_add_registers:
  "get_association lib n db = Some a \<Longrightarrow>
   \<exists>a'. get_association lib n (assoc_notify lib (NotifyAddSession n f) db) = Some a' \<and> has_session f a' \<and> as_node_id a' = as_node_id a"
  by (auto simp: notify_add_session_def get_association_def as_notify_add_session_def has_session_def set_insert_before)

section \<open>The whole exchange\<close>

definition establishment_response :: "n4_env \<Rightarrow> establishment_request \<Rightarrow> PfcpHandlers.response \<Rightarrow> u32 \<Rightarrow> n4_msg_in" where
  "establishment_response nv r rsp seq =
     \<lparr>msg_type = PFCP_SESSION_ESTABLISHMENT_RESPONSE (nv_lib nv), msg_seid = Some (fs_seid (ie_val (er_cp_fseid r))),
      msg_seq = stored_seq (nv_lib nv) seq,
      msg_ies = (response_ies rsp)\<lparr>n4_node_id := (True, case nv_own_node_id nv of None \<Rightarrow> [] | Some me \<Rightarrow> me)\<rparr>\<rparr>"

text \<open>C3: a session establishment runs from the request to the answer. In a reachable state with nothing
  queued, a request under a free number goes to the handler of the switch, and two steps later its
  response, and nothing else, has been sent: to the endpoint the request came from and under the
  request's number. The procedure is closed, the queues are empty, the switch is as the handler left
  it. If the session was accepted and the peer is associated, the session belongs to the peer's
  association from then on.\<close>

theorem establishment_is_answered:
  assumes "nv_ok nv" "node_reachable nv nsec nd" "simple (nv_cfg nv)" "nd_app_queue nd = []" "nd_n4_queue nd = []"
    and "msg_type msg = PFCP_SESSION_ESTABLISHMENT_REQUEST (nv_lib nv)" "n4_body (msg_ies msg) = EstRequest r"
    and "pending_procedures (nd_stack nd) (msg_seq msg) = None" "nd_trxns nd < nv_draws nv"
    and "um_room (up_seid2pfcp_sessions (nd_switch nd)) (fst (generate_seid (nv_uids nv) (nd_switch nd)))"
  shows "\<exists>rsp sw nd3.
     handle_establishment (nv_session_lib nv) (nv_dp nv) (nv_cfg nv) (nv_uids nv) now r (nd_switch nd) = Some (rsp, sw) \<and>
     Option.bind (n4_app_step nv now (n4_handle_receive nv (Some msg) ep nd)) (n4_task_step nv now) = Some nd3 \<and>
     nd_app_queue nd3 = [] \<and> nd_n4_queue nd3 = [] \<and> nd_switch nd3 = sw \<and>
     sent (nd_stack nd3) = sent (nd_stack nd) @ [From8805 (establishment_response nv r rsp (msg_seq msg)) (Some ep)] \<and>
     pending_procedures (nd_stack nd3) (msg_seq msg) = None \<and>
     (rsp_cause rsp = CAUSE_VALUE_REQUEST_ACCEPTED \<and> get_association (nv_nodes nv) (er_node_id r) (nd_db nd) \<noteq> None \<longrightarrow>
        (\<exists>a. get_association (nv_nodes nv) (er_node_id r) (nd_db nd3) = Some a \<and> has_session (ie_val (er_cp_fseid r)) a))"
proof -
  let ?nd1 = "n4_handle_receive nv (Some msg) ep nd" and ?u = "nv_trxn nv (nd_trxns nd)"
  obtain rsp sw where e: "handle_establishment (nv_session_lib nv) (nv_dp nv) (nv_cfg nv) (nv_uids nv) now r (nd_switch nd) = Some (rsp, sw)"
    using establishment_total [OF assms(3)] by (metis prod.collapse)
  have inv: "node_inv nv (owed nd) nd" by (rule node_reachable_inv [OF assms(1,2)]) (use assms(9) in simp)
  have switch: "n4_inv (nd_switch nd)" by (rule reachable_switch [OF assms(3,2)])
  have served: "served_request (nv_lib nv) (msg_type msg)" using assms(6) by (simp add: served_request_def)
  obtain st where A: "?nd1 = to_app (AppEstablish ep ?u r) (received_node nv msg st nd)"
    "trxn_id2seq_num st ?u = Some (msg_seq msg)" "sent st = sent (nd_stack nd)"
    "nd_trxns (received_node nv msg st nd) = Suc (nd_trxns nd)"
    using accept_fresh [OF assms(1) inv assms(9) served assms(8), of "\<lambda>t nd. to_app (AppEstablish ep t r) nd"]
    unfolding receive_establishment [OF assms(1,6,7)] by metis
  let ?nd = "received_node nv msg st nd"
  have f: "nd_app_queue ?nd = []" "nd_n4_queue ?nd = []" "nd_switch ?nd = nd_switch nd" "nd_db ?nd = nd_db nd" "nd_stack ?nd = st"
    using assms(4,5) by (simp_all add: received_node_def)
  let ?i = "(response_ies rsp)\<lparr>n4_node_id := (True, case nv_own_node_id nv of None \<Rightarrow> [] | Some me \<Rightarrow> me)\<rparr>"
  let ?m = "N4SessionResponse Establishment ep (fs_seid (ie_val (er_cp_fseid r))) ?i ?u"
  let ?calls = "drop (length (assoc_calls (nd_switch nd))) (assoc_calls sw)"
  define nd2 where "nd2 = to_n4 ?m (on_db (fold (assoc_notify (nv_nodes nv)) ?calls) (?nd\<lparr>nd_switch := sw\<rparr>))"
  have "nd_app_queue ?nd1 = [AppEstablish ep ?u r]" "?nd1\<lparr>nd_app_queue := []\<rparr> = ?nd"
    using f(1) by (simp_all add: A(1) to_app_def)
  then have app: "n4_app_step nv now ?nd1 = Some nd2"
    using e f(3) switch_stays_receive [of nv "Some msg" ep nd]
      after_quiet_handler [of sw ?nd nv] establishment_reports_nothing [OF assms(3) switch e assms(10)]
    by (simp add: n4_app_step_def nd2_def)
  have d2: "nd_n4_queue nd2 = [?m]" "nd_app_queue nd2 = []" "nd_stack nd2 = st" "nd_switch nd2 = sw"
    "nd_db nd2 = fold (assoc_notify (nv_nodes nv)) ?calls (nd_db nd)" "nd_trxns nd2 = Suc (nd_trxns nd)"
    using f A(4) by (simp_all add: nd2_def to_n4_def)
  have "node_reachable nv nsec nd2"
    using assms(2) node_step.receive [of nv nd "Some msg" ep] node_step.app [OF app]
    unfolding node_reachable_def by (meson rtranclp.rtrancl_into_rtrancl)
  then have "node_inv nv (owed nd2) nd2" using assms(9) d2(6) by (intro node_reachable_inv [OF assms(1)]) simp_all
  then obtain nd3 where nd3: "n4_task_step nv now nd2 = Some nd3" "nd_n4_queue nd3 = []" "nd_switch nd3 = nd_switch nd2"
    "nd_db nd3 = nd_db nd2" "pending_procedures (nd_stack nd3) (msg_seq msg) = None"
    "sent (nd_stack nd3) = sent (nd_stack nd2) @ [From8805 (establishment_response nv r rsp (msg_seq msg)) (Some ep)]"
    using queued_response_sent [OF _ d2(1), of nv now] A(2) d2(3) by (auto simp: establishment_response_def)
  have "nd_app_queue nd3 = []" using nd3(1) d2(1,2) by (auto simp: n4_task_step_def)
  moreover have "\<exists>a. get_association (nv_nodes nv) (er_node_id r) (nd_db nd3) = Some a \<and> has_session (ie_val (er_cp_fseid r)) a"
    if acc: "rsp_cause rsp = CAUSE_VALUE_REQUEST_ACCEPTED" "get_association (nv_nodes nv) (er_node_id r) (nd_db nd) \<noteq> None"
  proof -
    have "assoc_calls sw = assoc_calls (nd_switch nd) @ [NotifyAddSession (er_node_id r) (ie_val (er_cp_fseid r))]"
      using est_registers [OF assms(3) switch e acc(1) assms(10)] by metis
    then have "nd_db nd3 = assoc_notify (nv_nodes nv) (NotifyAddSession (er_node_id r) (ie_val (er_cp_fseid r))) (nd_db nd)"
      using d2(5) nd3(4) by simp
    with acc(2) notify_add_registers [of "nv_nodes nv" "er_node_id r" "nd_db nd"] show ?thesis by fastforce
  qed
  ultimately show ?thesis using e app nd3 d2(3,4) A(3) by auto
qed

section \<open>A new association\<close>

lemma timer_stack:
  "heartbeat_timer a b nd = (nd', t) \<Longrightarrow> nd_db nd' = nd_db nd \<and> sent (nd_stack nd') = sent (nd_stack nd) \<and>
     pending_procedures (nd_stack nd') = pending_procedures (nd_stack nd) \<and>
     trxn_id2seq_num (nd_stack nd') = trxn_id2seq_num (nd_stack nd)"
  by (auto simp: heartbeat_timer_def timer_setup_def Let_def)

lemma store_association_effect:
  "\<exists>t. nd_db (store_association nv n a nd) = put_association (assoc_key (nv_nodes nv) n) (a\<lparr>as_timer_heartbeat := t\<rparr>) (nd_db nd)"
  "sent (nd_stack (store_association nv n a nd)) = sent (nd_stack nd)"
  "pending_procedures (nd_stack (store_association nv n a nd)) = pending_procedures (nd_stack nd)"
  "trxn_id2seq_num (nd_stack (store_association nv n a nd)) = trxn_id2seq_num (nd_stack nd)"
proof -
  let ?k = "assoc_key (nv_nodes nv) n"
  have "(\<exists>t. nd_db (store_association nv n a nd) = put_association ?k (a\<lparr>as_timer_heartbeat := t\<rparr>) (nd_db nd)) \<and>
      sent (nd_stack (store_association nv n a nd)) = sent (nd_stack nd) \<and>
      pending_procedures (nd_stack (store_association nv n a nd)) = pending_procedures (nd_stack nd) \<and>
      trxn_id2seq_num (nd_stack (store_association nv n a nd)) = trxn_id2seq_num (nd_stack nd)"
  proof (cases "is_ipv4_node nv n")
    case True
    obtain nd' t where 1: "heartbeat_timer TASK_UPF_N4_TRIGGER_HEARTBEAT_REQUEST (as_hash_node_id a) nd = (nd', t)" by force
    from timer_stack [OF 1] 1 True show ?thesis
      by (auto simp: store_association_def Let_def trigger_heartbeat_request_procedure_def)
  next
    case False
    then show ?thesis
      by (auto simp: store_association_def Let_def intro: exI [of _ "as_timer_heartbeat a"])
  qed
  then show "\<exists>t. nd_db (store_association nv n a nd) = put_association ?k (a\<lparr>as_timer_heartbeat := t\<rparr>) (nd_db nd)"
    "sent (nd_stack (store_association nv n a nd)) = sent (nd_stack nd)"
    "pending_procedures (nd_stack (store_association nv n a nd)) = pending_procedures (nd_stack nd)"
    "trxn_id2seq_num (nd_stack (store_association nv n a nd)) = trxn_id2seq_num (nd_stack nd)" by blast+
qed

lemma associate_effect:
  assumes "db_ok (nv_nodes nv) (nd_db nd)"
  shows "sent (nd_stack (associate nv i ep nd)) = sent (nd_stack nd)"
    "pending_procedures (nd_stack (associate nv i ep nd)) = pending_procedures (nd_stack nd)"
    "trxn_id2seq_num (nd_stack (associate nv i ep nd)) = trxn_id2seq_num (nd_stack nd)"
    "\<exists>a. map_of (associations (nd_db (associate nv i ep nd))) =
        (map_of (associations (nd_db nd)))(assoc_key (nv_nodes nv) (ie_val (n4_node_id i)) \<mapsto> a) \<and>
      as_node_id a = ie_val (n4_node_id i) \<and> as_recovery_time_stamp a = ie_val (n4_recovery_time_stamp i) \<and> as_sessions a = [] \<and>
      (\<forall>ip. endpoint_ipv4 ep = Some ip \<longrightarrow> as_has_peer_addr a \<and> as_peer_addr a = ip)"
proof -
  let ?n = "ie_val (n4_node_id i)" and ?ts = "ie_val (n4_recovery_time_stamp i)"
  let ?k = "assoc_key (nv_nodes nv) ?n"
  obtain db a where t: "take_candidate (nv_nodes nv) ?n ?ts (n4_cp_function_features i) (nd_db nd) = (db, a)" by force
  note T = take_candidate_ok [OF assms t]
  have ts: "as_recovery_time_stamp a = ?ts" using t by (auto simp: take_candidate_def Let_def split: prod.splits)
  let ?nd = "store_association nv ?n a (nd\<lparr>nd_db := db\<rparr>)"
  have e: "associate nv i ep nd = on_db (set_peer_addr (nv_nodes nv) ?n (endpoint_ipv4 ep)) ?nd"
    using t by (simp add: associate_def add_association_def)
  note S = store_association_effect [of nv ?n a "nd\<lparr>nd_db := db\<rparr>"]
  show "sent (nd_stack (associate nv i ep nd)) = sent (nd_stack nd)"
    "pending_procedures (nd_stack (associate nv i ep nd)) = pending_procedures (nd_stack nd)"
    "trxn_id2seq_num (nd_stack (associate nv i ep nd)) = trxn_id2seq_num (nd_stack nd)"
    using S(2-4) by (simp_all add: e)
  obtain u where u: "nd_db ?nd = put_association ?k (a\<lparr>as_timer_heartbeat := u\<rparr>) db" using S(1) by auto
  show "\<exists>a. map_of (associations (nd_db (associate nv i ep nd))) = (map_of (associations (nd_db nd)))(?k \<mapsto> a) \<and>
      as_node_id a = ?n \<and> as_recovery_time_stamp a = ?ts \<and> as_sessions a = [] \<and>
      (\<forall>ip. endpoint_ipv4 ep = Some ip \<longrightarrow> as_has_peer_addr a \<and> as_peer_addr a = ip)"
  proof (cases "endpoint_ipv4 ep")
    case None
    then show ?thesis using T(3-5) ts u
      by (intro exI [of _ "a\<lparr>as_timer_heartbeat := u\<rparr>"]) (simp add: e set_peer_addr_def)
  next
    case (Some ip)
    then show ?thesis using T(3-5) ts u
      by (intro exI [of _ "a\<lparr>as_timer_heartbeat := u, as_peer_addr := ip, as_has_peer_addr := True\<rparr>"])
        (simp add: e set_peer_addr_def get_association_def)
  qed
qed

lemma receive_setup_request:
  assumes "nv_ok nv" "msg_type msg = PFCP_ASSOCIATION_SETUP_REQUEST (nv_lib nv)"
  shows "n4_handle_receive nv (Some msg) ep nd = handle_receive_association_setup_request nv msg ep nd"
proof -
  have c: "PFCP_ASSOCIATION_SETUP_REQUEST (nv_lib nv) \<notin> {PFCP_ASSOCIATION_SETUP_RESPONSE (nv_lib nv),
      PFCP_SESSION_ESTABLISHMENT_REQUEST (nv_lib nv), PFCP_SESSION_MODIFICATION_REQUEST (nv_lib nv),
      PFCP_SESSION_DELETION_REQUEST (nv_lib nv), PFCP_SESSION_REPORT_RESPONSE (nv_lib nv),
      PFCP_HEARTBEAT_REQUEST (nv_lib nv), PFCP_HEARTBEAT_RESPONSE (nv_lib nv)}"
    using codes_distinct [of "nv_lib nv"] assms(1) by (auto simp: nv_ok_def)
  show ?thesis unfolding n4_handle_receive_def handle_receive_pfcp_msg_def option.case Let_def assms(2)
    using c by (simp only: insert_iff empty_iff de_Morgan_disj if_False if_True refl simp_thms)
qed

definition setup_response :: "n4_env \<Rightarrow> payload \<Rightarrow> u32 \<Rightarrow> n4_msg_in" where
  "setup_response nv me seq =
     \<lparr>msg_type = PFCP_ASSOCIATION_SETUP_RESPONSE (nv_lib nv), msg_seid = None, msg_seq = stored_seq (nv_lib nv) seq,
      msg_ies = (recovery_ies nv)\<lparr>n4_cause := Some CAUSE_VALUE_REQUEST_ACCEPTED, n4_node_id := (True, me),
        n4_up_function_features := (True, nv_up_features nv), n4_enterprise_specific := (True, nv_enterprise nv)\<rparr>\<rparr>"

lemma setup_request_effect:
  assumes "nv_ok nv" "node_reachable nv nsec nd" "nd_trxns nd < nv_draws nv"
    and "msg_type msg = PFCP_ASSOCIATION_SETUP_REQUEST (nv_lib nv)" "pending_procedures (nd_stack nd) (msg_seq msg) = None"
    and "n4_node_id (msg_ies msg) = (True, n)" "n4_recovery_time_stamp (msg_ies msg) = (True, ts)"
    and "nv_own_node_id nv = Some me" "node_id_type_of (nv_nodes nv) me \<noteq> NODE_ID_TYPE_IPV6_ADDRESS"
  shows "\<exists>nd' a. n4_handle_receive nv (Some msg) ep nd = nd' \<and>
     map_of (associations (nd_db nd')) = (map_of (associations (nd_db nd)))(assoc_key (nv_nodes nv) n \<mapsto> a) \<and>
     as_node_id a = n \<and> as_recovery_time_stamp a = ts \<and> as_sessions a = [] \<and>
     (\<forall>ip. endpoint_ipv4 ep = Some ip \<longrightarrow> as_has_peer_addr a \<and> as_peer_addr a = ip) \<and>
     sent (nd_stack nd') = sent (nd_stack nd) @ [From8805 (setup_response nv me (msg_seq msg)) (Some ep)] \<and>
     pending_procedures (nd_stack nd') (msg_seq msg) = None"
proof -
  let ?u = "nv_trxn nv (nd_trxns nd)" and ?i = "msg_ies msg"
  have inv: "node_inv nv (owed nd) nd" by (rule node_reachable_inv [OF assms(1,2)]) (use assms(3) in simp)
  have served: "served_request (nv_lib nv) (msg_type msg)" using assms(4) by (simp add: served_request_def)
  let ?answer = "\<lambda>t nd. on_stack (send_response (nv_lib nv) (PFCP_ASSOCIATION_SETUP_RESPONSE (nv_lib nv)) None
      ((recovery_ies nv)\<lparr>n4_cause := Some CAUSE_VALUE_REQUEST_ACCEPTED, n4_node_id := (True, me),
        n4_up_function_features := (True, nv_up_features nv), n4_enterprise_specific := (True, nv_enterprise nv)\<rparr>) ep t DELETE_TX)
      (associate nv ?i ep nd)"
  have recv: "n4_handle_receive nv (Some msg) ep nd = accept_message nv msg ?answer nd"
    unfolding receive_setup_request [OF assms(1,4)] handle_receive_association_setup_request_def
    using assms(6-9) by (simp add: send_association_setup_response_def Let_def)
  obtain st where A: "n4_handle_receive nv (Some msg) ep nd = ?answer ?u (received_node nv msg st nd)"
    "trxn_id2seq_num st ?u = Some (msg_seq msg)" "sent st = sent (nd_stack nd)"
    "nd_trxns (received_node nv msg st nd) = Suc (nd_trxns nd)" "\<exists>p. pending_procedures st (msg_seq msg) = Some p \<and> trxn_id p = ?u"
    using accept_fresh [OF assms(1) inv assms(3) served assms(5), of ?answer] unfolding recv by metis
  let ?nd = "received_node nv msg st nd"
  have f: "nd_db ?nd = nd_db nd" "nd_stack ?nd = st" by (simp_all add: received_node_def)
  have ok: "db_ok (nv_nodes nv) (nd_db ?nd)" using inv f(1) by (simp add: node_inv_def)
  note C = associate_effect [OF ok, of ?i ep]
  obtain p where p: "pending_procedures (nd_stack (associate nv ?i ep ?nd)) (msg_seq msg) = Some p" "trxn_id p = ?u"
    "trxn_id2seq_num (nd_stack (associate nv ?i ep ?nd)) ?u = Some (msg_seq msg)"
    using A(2,5) C(2,3) f(2) by auto
  note R = send_response_owed [OF p(3,1,2)]
  obtain a where "map_of (associations (nd_db (associate nv ?i ep ?nd))) = (map_of (associations (nd_db nd)))(assoc_key (nv_nodes nv) n \<mapsto> a)"
    "as_node_id a = n" "as_recovery_time_stamp a = ts" "as_sessions a = []"
    "\<forall>ip. endpoint_ipv4 ep = Some ip \<longrightarrow> as_has_peer_addr a \<and> as_peer_addr a = ip"
    using C(4) assms(6,7) f(1) by auto
  then show ?thesis using R C(1) A(1,3) f(2)
    by (intro exI [of _ "n4_handle_receive nv (Some msg) ep nd"] exI [of _ a]) (simp add: setup_response_def)
qed

text \<open>An association setup request with node id and time stamp makes the sender an associated peer.
  The association found for its node afterwards carries that node id, the time stamp and the sender's
  address, and no session; every association under another key is as before; the one message sent is
  the acceptance, under the request's number and to the sender, and the procedure is closed.\<close>

lemma setup_request_associates:
  assumes "nv_ok nv" "node_reachable nv nsec nd" "nd_trxns nd < nv_draws nv"
    and "msg_type msg = PFCP_ASSOCIATION_SETUP_REQUEST (nv_lib nv)" "pending_procedures (nd_stack nd) (msg_seq msg) = None"
    and "n4_node_id (msg_ies msg) = (True, n)" "n4_recovery_time_stamp (msg_ies msg) = (True, ts)"
    and "nv_own_node_id nv = Some me" "node_id_type_of (nv_nodes nv) me \<noteq> NODE_ID_TYPE_IPV6_ADDRESS"
  shows "\<exists>nd' a. n4_handle_receive nv (Some msg) ep nd = nd' \<and>
     map_of (associations (nd_db nd')) = (map_of (associations (nd_db nd)))(assoc_key (nv_nodes nv) n \<mapsto> a) \<and>
     as_node_id a = n \<and> as_recovery_time_stamp a = ts \<and> as_sessions a = [] \<and>
     (\<forall>ip. endpoint_ipv4 ep = Some ip \<longrightarrow> as_has_peer_addr a \<and> as_peer_addr a = ip) \<and>
     sent (nd_stack nd') = sent (nd_stack nd) @ [From8805 (setup_response nv me (msg_seq msg)) (Some ep)] \<and>
     pending_procedures (nd_stack nd') (msg_seq msg) = None"
  by (rule setup_request_effect [OF assms])

definition ex_setup :: n4_msg_in where
  "ex_setup = \<lparr>msg_type = 5, msg_seid = None, msg_seq = 2,
     msg_ies = no_ies\<lparr>n4_node_id := (True, [1]), n4_recovery_time_stamp := (True, 33)\<rparr>\<rparr>"

definition ex_associated :: n4_node where
  "ex_associated = n4_handle_receive ex_node_env (Some ex_setup) (InetEndpoint 0x0A000001 8805) (n4_node_new 0)"

lemma ex_new_reachable: "node_reachable nv nsec (n4_node_new nsec)"
  by (simp add: node_reachable_def)

lemma ex_new_eval:
  "nd_trxns (n4_node_new 0) = 0" "pending_procedures (nd_stack (n4_node_new 0)) = Map.empty" "sent (nd_stack (n4_node_new 0)) = []"
  "nd_switch (n4_node_new 0) = switch_new" "associations (nd_db (n4_node_new 0)) = []"
  by (simp_all add: n4_node_new_def pfcp_stack_new_def pfcp_associations_new_def)

lemmas setup_evals = n4_handle_receive_def handle_receive_pfcp_msg_def handle_receive_association_setup_request_def
  accept_message_def handle_receive_message_cb_def stack_evals check_request_type_def associate_def add_association_def
  take_candidate_def remove_peer_candidate_node_def pfcp_associations_new_def store_association_def is_ipv4_node_def
  trigger_heartbeat_request_procedure_def heartbeat_timer_def timer_setup_def send_association_setup_response_def
  send_response_def stop_proc_cleanup_timer_def timer_remove_def on_db_def on_stack_def n4_node_new_def

lemma ex_associated_eval:
  "nd_app_queue ex_associated = []" "nd_n4_queue ex_associated = []" "pending_procedures (nd_stack ex_associated) 7 = None"
  "nd_trxns ex_associated = 1" "nd_switch ex_associated = switch_new"
  by (simp_all add: ex_associated_def ex_setup_def no_ies_def ex_node_env_def ex_nodes_def setup_evals)

lemma ex_associated_reachable: "node_reachable ex_node_env 0 ex_associated"
  unfolding node_reachable_def ex_associated_def by (rule r_into_rtranclp) (rule node_step.receive)

lemma ex_associated_peer: "get_association (nv_nodes ex_node_env) [1] (nd_db ex_associated) \<noteq> None"
  by (simp add: ex_associated_def ex_setup_def no_ies_def ex_node_env_def ex_nodes_def setup_evals endpoint_ipv4_def
      set_peer_addr_def get_association_def assoc_key_def put_association_def)

definition ex_establish :: n4_msg_in where
  "ex_establish = \<lparr>msg_type = 50, msg_seid = Some 0, msg_seq = 7, msg_ies = no_ies\<lparr>n4_body := EstRequest ex_request\<rparr>\<rparr>"

theorem establishment_is_answered_witness:
  "\<exists>rsp nd3 a. Option.bind (n4_app_step ex_node_env 0 (n4_handle_receive ex_node_env (Some ex_establish) (InetEndpoint 0x0A000001 8805) ex_associated))
       (n4_task_step ex_node_env 0) = Some nd3 \<and> rsp_cause rsp = CAUSE_VALUE_REQUEST_ACCEPTED \<and>
     last (sent (nd_stack nd3)) = From8805 (establishment_response ex_node_env ex_request rsp 7) (Some (InetEndpoint 0x0A000001 8805)) \<and>
     get_association ex_nodes [1] (nd_db nd3) = Some a \<and> has_session \<lparr>fs_seid = 9, fs_addr = []\<rparr> a"
proof -
  note E = ex_associated_eval
  have e: "nv_session_lib ex_node_env = ex_lib" "nv_dp ex_node_env = (\<lambda>_ _ x. x)" "nv_cfg ex_node_env = ex_env"
    "nv_uids ex_node_env = ex_uids" "nv_nodes ex_node_env = ex_nodes" by (simp_all add: ex_node_env_def)
  obtain rsp sw where h: "handle_establishment ex_lib (\<lambda>_ _ x. x) ex_env ex_uids 0 ex_request switch_new = Some (rsp, sw)"
    and c: "rsp_cause rsp = CAUSE_VALUE_REQUEST_ACCEPTED" by (rule ex_established)
  have r: "er_node_id ex_request = [1]" "ie_val (er_cp_fseid ex_request) = \<lparr>fs_seid = 9, fs_addr = []\<rparr>"
    by (simp_all add: ex_request_def)
  have "simple (nv_cfg ex_node_env)" "msg_type ex_establish = PFCP_SESSION_ESTABLISHMENT_REQUEST (nv_lib ex_node_env)"
    "n4_body (msg_ies ex_establish) = EstRequest ex_request"
    "pending_procedures (nd_stack ex_associated) (msg_seq ex_establish) = None" "nd_trxns ex_associated < nv_draws ex_node_env"
    by (simp_all add: e E ex_establish_def) (simp_all add: ex_node_env_def lib_29244_def)
  moreover have "um_room (up_seid2pfcp_sessions (nd_switch ex_associated))
      (fst (generate_seid (nv_uids ex_node_env) (nd_switch ex_associated)))" unfolding E by (rule ex_room)
  ultimately show ?thesis
    using establishment_is_answered [OF ex_node_env_ok ex_associated_reachable, of ex_establish ex_request 0 "InetEndpoint 0x0A000001 8805"]
      h c r ex_associated_peer
    by (auto simp: E e ex_establish_def)
qed

end
