(* ===== verification/UpfN4Peers.thy ===== *)
theory UpfN4Peers
  imports UpfN4Sessions
begin

text \<open>
  What happens to a peer that does not answer: it is asked again, and in the end forgotten together
  with its sessions, unless a last usage report is due.
\<close>

section \<open>One association among many\<close>

lemma initiate_skip:
  "(\<And>k a. k \<in> set ks \<Longrightarrow> map_of (associations (nd_db nd)) k = Some a \<Longrightarrow> as_hash_node_id a \<noteq> hash) \<Longrightarrow>
   initiate_loop nv hash ks nd = nd"
  by (induction ks) (auto split: option.split)

lemma timeout_skip:
  "(\<And>k a. k \<in> set ks \<Longrightarrow> map_of (associations (nd_db nd)) k = Some a \<Longrightarrow> as_hash_node_id a \<noteq> hash) \<Longrightarrow>
   timeout_loop nv now hash ks nd = Some nd"
  by (induction ks) (auto split: option.split)

lemma timeout_skip_append:
  "(\<And>k a. k \<in> set xs \<Longrightarrow> map_of (associations (nd_db nd)) k = Some a \<Longrightarrow> as_hash_node_id a \<noteq> hash) \<Longrightarrow>
   timeout_loop nv now hash (xs @ ys) nd = timeout_loop nv now hash ys nd"
  by (induction xs) (auto split: option.split)

lemma initiate_skip_append:
  "(\<And>k a. k \<in> set xs \<Longrightarrow> map_of (associations (nd_db nd)) k = Some a \<Longrightarrow> as_hash_node_id a \<noteq> hash) \<Longrightarrow>
   initiate_loop nv hash (xs @ ys) nd = initiate_loop nv hash ys nd"
  by (induction xs) (auto split: option.split)

text \<open>A heartbeat request to an IPv4 peer: one message, and the association changed.\<close>

definition heartbeat_request_to :: "n4_env \<Rightarrow> payload \<Rightarrow> (n4_ies, n4_endpoint) datagram \<Rightarrow> bool" where
  "heartbeat_request_to nv n d \<longleftrightarrow>
     (\<exists>m. d = FromAllocated m (node_endpoint nv n) \<and> msg_type m = PFCP_HEARTBEAT_REQUEST (nv_lib nv))"

lemma heartbeat_request_effect:
  assumes "is_ipv4_node nv (as_node_id a)"
  shows "\<exists>t u d. nd_db (n4_send_heartbeat_request nv k a nd) =
        put_association k (a\<lparr>as_timer_heartbeat := t, as_trxn_id_heartbeat := u\<rparr>) (nd_db nd) \<and>
      sent (nd_stack (n4_send_heartbeat_request nv k a nd)) = sent (nd_stack nd) @ [d] \<and> heartbeat_request_to nv (as_node_id a) d"
proof -
  obtain nd1 t where 1: "heartbeat_timer TASK_UPF_N4_TIMEOUT_HEARTBEAT_REQUEST (as_hash_node_id a) nd = (nd1, t)" by force
  obtain u nd2 where 2: "generate_trxn_id nv nd1 = (u, nd2)" by force
  note T = timer_stack [OF 1]
  have G: "nd_db nd2 = nd_db nd1" "nd_stack nd2 = nd_stack nd1" using 2 by (auto simp: generate_trxn_id_def)
  let ?st = "fst (send_request (nv_lib nv) (PFCP_HEARTBEAT_REQUEST (nv_lib nv)) None (recovery_ies nv)
      (node_endpoint nv (as_node_id a)) u (nd_stack nd1))"
  obtain d where d: "sent ?st = sent (nd_stack nd) @ [d]" "heartbeat_request_to nv (as_node_id a) d"
    using T by (simp add: send_request_def Let_def start_msg_retry_timer_eq start_proc_cleanup_timer_eq
        get_next_seq_num_def heartbeat_request_to_def)
  then show ?thesis using 1 2 T G assms
    by (intro exI [of _ t] exI [of _ u] exI [of _ d]) (simp add: n4_send_heartbeat_request_def send_heartbeat_request_def)
qed

text \<open>The association that is meant, in a well-formed state.\<close>

definition peer_at :: "n4_env \<Rightarrow> u32 \<Rightarrow> pfcp_association \<Rightarrow> n4_node \<Rightarrow> bool" where
  "peer_at nv k a nd \<longleftrightarrow> db_ok (nv_nodes nv) (nd_db nd) \<and> map_of (associations (nd_db nd)) k = Some a"

lemma peer_keys:
  assumes "peer_at nv k a nd"
  obtains xs ys where "map fst (associations (nd_db nd)) = xs @ k # ys" "k \<notin> set xs" "k \<notin> set ys"
    "\<And>k' b. k' \<noteq> k \<Longrightarrow> map_of (associations (nd_db nd)) k' = Some b \<Longrightarrow> as_hash_node_id b \<noteq> as_hash_node_id a"
proof -
  have ok: "db_ok (nv_nodes nv) (nd_db nd)" and m: "map_of (associations (nd_db nd)) k = Some a"
    using assms by (simp_all add: peer_at_def)
  have "k \<in> set (map fst (associations (nd_db nd)))" using m by (metis domI dom_map_of_conv_image_fst set_map)
  then obtain xs ys where xy: "map fst (associations (nd_db nd)) = xs @ k # ys" by (meson split_list)
  have "distinct (xs @ k # ys)" using ok xy by (metis db_ok_def)
  then have d: "k \<notin> set xs" "k \<notin> set ys" by auto
  have "as_hash_node_id b \<noteq> as_hash_node_id a" if "k' \<noteq> k" "map_of (associations (nd_db nd)) k' = Some b" for k' b
    using db_ok_entry [OF ok m] db_ok_entry [OF ok that(2)] that(1) by (auto simp: assoc_ok_def)
  with that [OF xy d] show thesis .
qed

lemma initiate_peer:
  assumes "peer_at nv k a nd"
  shows "initiate_heartbeat_request nv (as_hash_node_id a) nd = n4_send_heartbeat_request nv k (a\<lparr>as_num_retries := 0\<rparr>) nd"
proof -
  obtain xs ys where k: "map fst (associations (nd_db nd)) = xs @ k # ys" "k \<notin> set xs" "k \<notin> set ys"
    and o: "\<And>k' b. k' \<noteq> k \<Longrightarrow> map_of (associations (nd_db nd)) k' = Some b \<Longrightarrow> as_hash_node_id b \<noteq> as_hash_node_id a"
    using peer_keys [OF assms] by metis
  let ?nd = "n4_send_heartbeat_request nv k (a\<lparr>as_num_retries := 0\<rparr>) nd"
  have "map_of (associations (nd_db ?nd)) k' = map_of (associations (nd_db nd)) k'" if "k' \<noteq> k" for k'
    using that by (simp add: n4_send_heartbeat_request_def heartbeat_timer_def generate_trxn_id_def split: prod.split)
  then have "initiate_loop nv (as_hash_node_id a) ys ?nd = ?nd"
    using o k(3) by (intro initiate_skip) metis
  moreover have "initiate_loop nv (as_hash_node_id a) (xs @ k # ys) nd = initiate_loop nv (as_hash_node_id a) (k # ys) nd"
    using o k(2) by (intro initiate_skip_append) metis
  ultimately show ?thesis using assms by (simp add: initiate_heartbeat_request_def k(1) peer_at_def)
qed

lemma timeout_peer:
  assumes "peer_at nv k a nd"
  shows "as_num_retries a < PFCP_ASSOCIATION_HEARTBEAT_MAX_RETRIES \<Longrightarrow>
      timeout_heartbeat_request nv now (as_hash_node_id a) nd =
        Some (n4_send_heartbeat_request nv k (a\<lparr>as_num_retries := as_num_retries a + 1\<rparr>) nd)"
    "\<not> as_num_retries a < PFCP_ASSOCIATION_HEARTBEAT_MAX_RETRIES \<Longrightarrow>
      timeout_heartbeat_request nv now (as_hash_node_id a) nd =
        map_option (on_db (\<lambda>db. add_peer_candidate_node (nv_nodes nv) (as_node_id a) (erase_association k db)))
          (del_sessions_loop nv now k (as_sessions a) nd)"
proof -
  obtain xs ys where k: "map fst (associations (nd_db nd)) = xs @ k # ys" "k \<notin> set xs" "k \<notin> set ys"
    and o: "\<And>k' b. k' \<noteq> k \<Longrightarrow> map_of (associations (nd_db nd)) k' = Some b \<Longrightarrow> as_hash_node_id b \<noteq> as_hash_node_id a"
    using peer_keys [OF assms] by metis
  let ?nd = "n4_send_heartbeat_request nv k (a\<lparr>as_num_retries := as_num_retries a + 1\<rparr>) nd"
  have "map_of (associations (nd_db ?nd)) k' = map_of (associations (nd_db nd)) k'" if "k' \<noteq> k" for k'
    using that by (simp add: n4_send_heartbeat_request_def heartbeat_timer_def generate_trxn_id_def split: prod.split)
  then have rest: "timeout_loop nv now (as_hash_node_id a) ys ?nd = Some ?nd"
    using o k(3) by (intro timeout_skip) metis
  have first: "timeout_loop nv now (as_hash_node_id a) (xs @ k # ys) nd = timeout_loop nv now (as_hash_node_id a) (k # ys) nd"
    using o k(2) by (intro timeout_skip_append) metis
  have key: "ucast (as_hash_node_id a) = k" using db_ok_entry [of "nv_nodes nv" "nd_db nd" k a] assms by (simp add: peer_at_def assoc_ok_def)
  show "as_num_retries a < PFCP_ASSOCIATION_HEARTBEAT_MAX_RETRIES \<Longrightarrow>
      timeout_heartbeat_request nv now (as_hash_node_id a) nd =
        Some (n4_send_heartbeat_request nv k (a\<lparr>as_num_retries := as_num_retries a + 1\<rparr>) nd)"
    using assms rest by (simp add: timeout_heartbeat_request_def k(1) first peer_at_def)
  show "\<not> as_num_retries a < PFCP_ASSOCIATION_HEARTBEAT_MAX_RETRIES \<Longrightarrow>
      timeout_heartbeat_request nv now (as_hash_node_id a) nd =
        map_option (on_db (\<lambda>db. add_peer_candidate_node (nv_nodes nv) (as_node_id a) (erase_association k db)))
          (del_sessions_loop nv now k (as_sessions a) nd)"
    using assms by (simp add: timeout_heartbeat_request_def k(1) first peer_at_def key)
qed

section \<open>Time-outs in a row\<close>

fun silence :: "n4_env \<Rightarrow> u64 \<Rightarrow> u64 \<Rightarrow> nat \<Rightarrow> n4_node \<Rightarrow> n4_node option" where
  "silence nv now hash 0 nd = Some nd"
| "silence nv now hash (Suc n) nd = Option.bind (timeout_heartbeat_request nv now hash nd) (silence nv now hash n)"

text \<open>What stays while a peer is only asked: everything but its own entry, to which \<open>j\<close> retries count.\<close>

definition asked :: "n4_env \<Rightarrow> u32 \<Rightarrow> pfcp_association \<Rightarrow> n4_node \<Rightarrow> int \<Rightarrow> nat \<Rightarrow> n4_node \<Rightarrow> bool" where
  "asked nv k a nd j n nd' \<longleftrightarrow>
     (\<exists>b ds. peer_at nv k b nd' \<and> as_node_id b = as_node_id a \<and> as_hash_node_id b = as_hash_node_id a \<and>
        as_sessions b = as_sessions a \<and> as_num_retries b = j \<and>
        (\<forall>k'. k' \<noteq> k \<longrightarrow> map_of (associations (nd_db nd')) k' = map_of (associations (nd_db nd)) k') \<and>
        pending_associations (nd_db nd') = pending_associations (nd_db nd) \<and> nd_switch nd' = nd_switch nd \<and>
        sent (nd_stack nd') = sent (nd_stack nd) @ ds \<and> length ds = n \<and>
        (\<forall>d \<in> set ds. heartbeat_request_to nv (as_node_id a) d))"

lemma put_pending [simp]: "pending_associations (put_association k a db) = pending_associations db"
  by (simp add: put_association_def)

lemma asked_once:
  assumes "asked nv k a nd j n nd'" "peer_at nv k b nd'" "is_ipv4_node nv (as_node_id a)"
  shows "asked nv k a nd i (Suc n) (n4_send_heartbeat_request nv k (b\<lparr>as_num_retries := i\<rparr>) nd')"
proof -
  obtain ds where b: "as_node_id b = as_node_id a" "as_hash_node_id b = as_hash_node_id a" "as_sessions b = as_sessions a"
    "\<forall>k'. k' \<noteq> k \<longrightarrow> map_of (associations (nd_db nd')) k' = map_of (associations (nd_db nd)) k'"
    "pending_associations (nd_db nd') = pending_associations (nd_db nd)" "nd_switch nd' = nd_switch nd"
    "sent (nd_stack nd') = sent (nd_stack nd) @ ds" "length ds = n" "\<forall>d \<in> set ds. heartbeat_request_to nv (as_node_id a) d"
    using assms(1,2) unfolding asked_def peer_at_def by auto
  let ?b = "b\<lparr>as_num_retries := i\<rparr>"
  have ip: "is_ipv4_node nv (as_node_id ?b)" using assms(3) b(1) by simp
  obtain t u d where e: "nd_db (n4_send_heartbeat_request nv k ?b nd') =
        put_association k (?b\<lparr>as_timer_heartbeat := t, as_trxn_id_heartbeat := u\<rparr>) (nd_db nd')"
      "sent (nd_stack (n4_send_heartbeat_request nv k ?b nd')) = sent (nd_stack nd') @ [d]" "heartbeat_request_to nv (as_node_id a) d"
    using heartbeat_request_effect [OF ip, of k nd'] b(1) by auto
  have ok: "db_ok (nv_nodes nv) (nd_db nd')" "assoc_ok (nv_nodes nv) k b"
    using assms(2) db_ok_entry by (auto simp: peer_at_def)
  then have "assoc_ok (nv_nodes nv) k (?b\<lparr>as_timer_heartbeat := t, as_trxn_id_heartbeat := u\<rparr>)" by (simp add: assoc_ok_def)
  then have "peer_at nv k (?b\<lparr>as_timer_heartbeat := t, as_trxn_id_heartbeat := u\<rparr>) (n4_send_heartbeat_request nv k ?b nd')"
    using db_ok_put [OF ok(1)] by (simp add: peer_at_def e(1))
  then show ?thesis unfolding asked_def
    by (intro exI [of _ "?b\<lparr>as_timer_heartbeat := t, as_trxn_id_heartbeat := u\<rparr>"] exI [of _ "ds @ [d]"])
      (use b e in auto)
qed

lemma silence_retries:
  assumes "asked nv k a nd j m nd'" "is_ipv4_node nv (as_node_id a)" "j + int n \<le> PFCP_ASSOCIATION_HEARTBEAT_MAX_RETRIES"
  shows "\<exists>nd''. silence nv now (as_hash_node_id a) n nd' = Some nd'' \<and> asked nv k a nd (j + int n) (m + n) nd''"
  using assms(1,3)
proof (induction n arbitrary: j m nd')
  case (Suc n)
  obtain b where b: "peer_at nv k b nd'" "as_hash_node_id b = as_hash_node_id a" "as_num_retries b = j"
    using Suc.prems(1) by (auto simp: asked_def)
  have "timeout_heartbeat_request nv now (as_hash_node_id a) nd' =
      Some (n4_send_heartbeat_request nv k (b\<lparr>as_num_retries := j + 1\<rparr>) nd')"
    using timeout_peer(1) [OF b(1), of now] b(2,3) Suc.prems(2) by simp
  moreover have "asked nv k a nd (j + 1) (Suc m) (n4_send_heartbeat_request nv k (b\<lparr>as_num_retries := j + 1\<rparr>) nd')"
    by (rule asked_once [OF Suc.prems(1) b(1) assms(2)])
  ultimately show ?case
    using Suc.IH [of "j + 1" "Suc m" "n4_send_heartbeat_request nv k (b\<lparr>as_num_retries := j + 1\<rparr>) nd'"] Suc.prems(2)
    by (simp add: algebra_simps)
qed simp

lemma silence_last: "silence nv now h (Suc n) x = Option.bind (silence nv now h n x) (timeout_heartbeat_request nv now h)"
proof (induction n arbitrary: x)
  case 0
  show ?case by (cases "timeout_heartbeat_request nv now h x") simp_all
next
  case (Suc n)
  show ?case
  proof (cases "timeout_heartbeat_request nv now h x")
    case (Some y)
    from Suc [of y] Some show ?thesis by simp
  qed simp
qed

section \<open>The sessions of a lost peer\<close>

text \<open>Sessions filed under the CP F-SEID they carry.\<close>

definition filed_as :: "upf_switch \<Rightarrow> fseid \<Rightarrow> bool" where
  "filed_as sw f \<longleftrightarrow> (\<forall>r s. get_pfcp_session_by_cp_fseid sw f = Some r \<and> sess_heap sw r = Some s \<longrightarrow> s_cp_fseid s = f)"

lemma remove_quietly:
  assumes "\<not> enable_urr env" "n4_inv sw" "filed_as sw f"
  shows "get_pfcp_session_by_cp_fseid (remove_pfcp_session_by_cp_fseid env now f sw) = (get_pfcp_session_by_cp_fseid sw)(f := None)"
    "n4_out (remove_pfcp_session_by_cp_fseid env now f sw) = n4_out sw"
    "filed_as sw g \<Longrightarrow> filed_as (remove_pfcp_session_by_cp_fseid env now f sw) g"
proof -
  let ?sw = "remove_pfcp_session_by_cp_fseid env now f sw"
  have "get_pfcp_session_by_cp_fseid ?sw = (get_pfcp_session_by_cp_fseid sw)(f := None) \<and> n4_out ?sw = n4_out sw \<and>
     (filed_as sw g \<longrightarrow> filed_as ?sw g)"
  proof (cases "get_pfcp_session_by_cp_fseid sw f")
    case None
    then show ?thesis by (auto simp: remove_pfcp_session_by_cp_fseid_def fun_eq_iff)
  next
    case (Some r)
    then obtain s where s: "sess_heap sw r = Some s" using n4_invD(5) [OF assms(2)] by blast
    have f: "s_cp_fseid s = f" using assms(3) Some s by (simp add: filed_as_def)
    obtain s2 sw2 where c: "cleanup env s sw = (s2, sw2)" by force
    have eq: "?sw = sw2\<lparr>sess_heap := (sess_heap sw2)(r \<mapsto> s2),
           cp_fseid2pfcp_sessions := (cp_fseid2pfcp_sessions sw2)(s_cp_fseid s2 := None),
           up_seid2pfcp_sessions := fst (um_erase (up_seid2pfcp_sessions sw2) (s_seid s2))\<rparr>"
      unfolding remove_pfcp_session_by_cp_fseid_def Some option.case remove_pfcp_session_def s option.sel Let_def
      using assms(1) c by simp
    have "registry sw2 = registry sw" "ident s2 = ident s" using cleanup_framed [OF c] by (simp_all add: framed_def)
    then have R: "cp_fseid2pfcp_sessions sw2 = cp_fseid2pfcp_sessions sw" "n4_out sw2 = n4_out sw" "sess_heap sw2 = sess_heap sw"
      "s_cp_fseid s2 = f" using f by (simp_all add: registry_def ident_def)
    have cp: "get_pfcp_session_by_cp_fseid ?sw = (get_pfcp_session_by_cp_fseid sw)(f := None)"
      by (simp add: eq R get_pfcp_session_by_cp_fseid_def fun_eq_iff)
    have "filed_as ?sw g" if "filed_as sw g"
      using that f s unfolding filed_as_def cp by (auto simp: eq R split: if_splits)
    with cp show ?thesis by (simp add: eq R)
  qed
  then show "get_pfcp_session_by_cp_fseid ?sw = (get_pfcp_session_by_cp_fseid sw)(f := None)"
    "n4_out ?sw = n4_out sw" "filed_as sw g \<Longrightarrow> filed_as ?sw g" by blast+
qed

lemma del_sessions_quietly:
  assumes "\<not> enable_urr (nv_cfg nv)" "n4_inv (nd_switch nd)" "\<forall>f \<in> set fs. filed_as (nd_switch nd) f"
  shows "\<exists>nd'. del_sessions_loop nv now k fs nd = Some nd' \<and>
     (\<forall>f. get_pfcp_session_by_cp_fseid (nd_switch nd') f = (if f \<in> set fs then None else get_pfcp_session_by_cp_fseid (nd_switch nd) f)) \<and>
     (\<forall>k'. k' \<noteq> k \<longrightarrow> map_of (associations (nd_db nd')) k' = map_of (associations (nd_db nd)) k') \<and>
     pending_associations (nd_db nd') = pending_associations (nd_db nd) \<and> nd_stack nd' = nd_stack nd"
  using assms(2,3)
proof (induction fs arbitrary: nd)
  case (Cons f fs)
  let ?sw = "remove_pfcp_session_by_cp_fseid (nv_cfg nv) now f (nd_switch nd)"
  note R = remove_quietly [OF assms(1) Cons.prems(1), where f = f and now = now]
  have f: "filed_as (nd_switch nd) f" using Cons.prems(2) by simp
  let ?g = "\<lambda>db. case map_of (associations db) k of None \<Rightarrow> db | Some a \<Rightarrow> put_association k (as_notify_del_session f a) db"
  let ?nd = "on_db ?g (nd\<lparr>nd_switch := ?sw\<rparr>)"
  have e: "del_sessions_loop nv now k (f # fs) nd = del_sessions_loop nv now k fs ?nd" using R(2) [OF f] by (simp add: Let_def)
  have "n4_inv (nd_switch ?nd)" using remove_by_cp_fseid_keeps [OF Cons.prems(1)] by simp
  moreover have "\<forall>g \<in> set fs. filed_as (nd_switch ?nd) g" using R(3) [OF f] Cons.prems(2) by simp
  ultimately obtain nd' where nd': "del_sessions_loop nv now k fs ?nd = Some nd'"
    "\<And>g. get_pfcp_session_by_cp_fseid (nd_switch nd') g = (if g \<in> set fs then None else get_pfcp_session_by_cp_fseid (nd_switch ?nd) g)"
    "\<And>k'. k' \<noteq> k \<Longrightarrow> map_of (associations (nd_db nd')) k' = map_of (associations (nd_db ?nd)) k'"
    "pending_associations (nd_db nd') = pending_associations (nd_db ?nd)" "nd_stack nd' = nd_stack ?nd"
    using Cons.IH [of ?nd] by blast
  show ?case
    unfolding e nd'(1)
    by (rule exI [of _ nd']) (auto simp: nd'(2-5) R(1) [OF f] split: option.split)
qed simp

section \<open>A peer that does not answer\<close>


text \<open>The example peer, with usage reporting switched off.\<close>

definition ex_quiet_env :: n4_env where
  "ex_quiet_env = ex_node_env\<lparr>nv_cfg := ex_env\<lparr>enable_urr := False\<rparr>\<rparr>"


section \<open>A last report that is due\<close>

text \<open>With usage reporting on, a lost peer whose session still has traffic to report stops the N4 task for
  good: the report looks for the association of the session, which asks the very set of sessions that
  this thread has locked.\<close>

lemma last_report_deadlocks:
  assumes "n4_out (remove_pfcp_session_by_cp_fseid (nv_cfg nv) now f (nd_switch nd)) = n4_out (nd_switch nd) @ [(f, m)]"
    and "map_of (associations (nd_db nd)) k = Some a"
    and "\<And>k' b. (k', b) \<in> set (associations (nd_db nd)) \<Longrightarrow> has_session f b \<Longrightarrow> k' = k"
  shows "del_sessions_loop nv now k (f # fs) nd = None"
proof -
  let ?nd = "nd\<lparr>nd_switch := remove_pfcp_session_by_cp_fseid (nv_cfg nv) now f (nd_switch nd)\<rparr>"
  have "find (\<lambda>(k', b). k' = k \<or> has_session f b) (associations (nd_db nd)) \<noteq> None"
    using assms(2) by (auto simp: find_None_iff dest: map_of_SomeD)
  then obtain k' b where x: "find (\<lambda>(k', b). k' = k \<or> has_session f b) (associations (nd_db nd)) = Some (k', b)" by auto
  from find_SomeD [OF x] assms(3) have "k' = k" by auto
  with x have "send_session_report_locked nv k f m ?nd = None"
    by (simp add: send_session_report_locked_def generate_trxn_id_def)
  then show ?thesis using assms(1) by (simp add: Let_def)
qed

lemma lost_peer_with_traffic_deadlocks:
  assumes "peer_at nv k a nd" "\<not> as_num_retries a < PFCP_ASSOCIATION_HEARTBEAT_MAX_RETRIES" "as_sessions a = f # fs"
    and "\<And>k' b. (k', b) \<in> set (associations (nd_db nd)) \<Longrightarrow> has_session f b \<Longrightarrow> k' = k"
    and "enable_urr (nv_cfg nv)" "\<not> enable_bpf_datapath (nv_cfg nv)"
    and "get_pfcp_session_by_cp_fseid (nd_switch nd) f = Some r" "sess_heap (nd_switch nd) r = Some s" "s_cp_fseid s = f"
    and "total_ul_octets s \<noteq> ul_octets (s_reported s)"
  shows "timeout_heartbeat_request nv now (as_hash_node_id a) nd = None"
proof -
  let ?sw = "nd_switch nd"
  obtain s1 sw1 m where u: "send_usage_report False now s ?sw = (s1, sw1, True)" "n4_out sw1 = n4_out ?sw @ [(f, m)]"
    using assms(9,10) by (auto simp: send_usage_report_def Let_def)
  obtain s2 sw2 where c: "cleanup (nv_cfg nv) s1 sw1 = (s2, sw2)" by force
  have "registry sw2 = registry sw1" using cleanup_framed [OF c] by (simp add: framed_def)
  then have "n4_out sw2 = n4_out sw1" by (simp add: registry_def)
  moreover have "remove_pfcp_session_by_cp_fseid (nv_cfg nv) now f ?sw =
      sw2\<lparr>sess_heap := (sess_heap sw2)(r \<mapsto> s2), cp_fseid2pfcp_sessions := (cp_fseid2pfcp_sessions sw2)(s_cp_fseid s2 := None),
           up_seid2pfcp_sessions := fst (um_erase (up_seid2pfcp_sessions sw2) (s_seid s2))\<rparr>"
    using assms(5-8) u c by (simp add: remove_pfcp_session_by_cp_fseid_def remove_pfcp_session_def)
  ultimately have "n4_out (remove_pfcp_session_by_cp_fseid (nv_cfg nv) now f ?sw) = n4_out ?sw @ [(f, m)]" using u(2) by simp
  from last_report_deadlocks [OF this _ assms(4)] timeout_peer(2) [OF assms(1,2), of now] assms(1,3)
  show ?thesis by (simp add: peer_at_def)
qed

end
