(* ===== verification/BpfMaps.thy ===== *)
theory BpfMaps
  imports UpfMap "HOL-Library.AList"
begin

text \<open>
  The wrapper the control plane writes BPF hash maps through (\<open>user/wrappers/BPFMap.hpp\<close>), and the
  shape of code that may throw. A map is its entries and its size; the answers of the kernel are those
  the wrapper's header documents: \<open>-EEXIST\<close> for a key that exists under \<open>BPF_NOEXIST\<close>, \<open>-ENOENT\<close> for
  one that does not under \<open>BPF_EXIST\<close>, \<open>-E2BIG\<close> for a new key in a full map. The wrapper throws on
  each of them, on \<open>-EEXIST\<close> too, but a removal of an absent key only returns. A map written without
  restriction meets the contract of the look-up tables of the other datapath.
\<close>

section \<open>Maps\<close>

record ('k, 'v) bpf_map =
  bm_elems :: "('k \<times> 'v) list"
  bm_max_entries :: nat

datatype bpf_flags = BPF_ANY | BPF_NOEXIST | BPF_EXIST

definition bm_new :: "nat \<Rightarrow> ('k, 'v) bpf_map" where
  "bm_new n = \<lparr>bm_elems = [], bm_max_entries = n\<rparr>"

definition bm_lookup :: "('k, 'v) bpf_map \<Rightarrow> 'k \<Rightarrow> 'v option" where
  "bm_lookup m k = map_of (bm_elems m) k"

text \<open>Whether the kernel refuses an update.\<close>

definition bm_refuses :: "bpf_flags \<Rightarrow> ('k, 'v) bpf_map \<Rightarrow> 'k \<Rightarrow> bool" where
  "bm_refuses f m k =
     (case bm_lookup m k of
        Some _ \<Rightarrow> f = BPF_NOEXIST
      | None \<Rightarrow> f = BPF_EXIST \<or> length (bm_elems m) \<ge> bm_max_entries m)"

text \<open>The second component is False when the wrapper throws.\<close>

definition bm_update :: "bpf_flags \<Rightarrow> ('k, 'v) bpf_map \<Rightarrow> 'k \<Rightarrow> 'v \<Rightarrow> ('k, 'v) bpf_map \<times> bool" where
  "bm_update f m k v =
     (if bm_refuses f m k then (m, False) else (m\<lparr>bm_elems := AList.update k v (bm_elems m)\<rparr>, True))"

text \<open>The second component is False for \<open>-ENOENT\<close>.\<close>

definition bm_remove :: "('k, 'v) bpf_map \<Rightarrow> 'k \<Rightarrow> ('k, 'v) bpf_map \<times> bool" where
  "bm_remove m k = (m\<lparr>bm_elems := AList.delete k (bm_elems m)\<rparr>, bm_lookup m k \<noteq> None)"

section \<open>Contract\<close>

definition bm_inv :: "('k, 'v) bpf_map \<Rightarrow> bool" where
  "bm_inv m \<longleftrightarrow> distinct (map fst (bm_elems m)) \<and> length (bm_elems m) \<le> bm_max_entries m"

named_theorems bm_simps \<open>rewriting map operations\<close>

lemma bm_lookup_new [bm_simps]: "bm_lookup (bm_new n) k = None"
  by (simp add: bm_lookup_def bm_new_def)

lemma bm_inv_new [bm_simps]: "bm_inv (bm_new n)"
  by (simp add: bm_inv_def bm_new_def)

lemma bm_lookup_update:
  "bm_lookup (fst (bm_update f m k v)) = (if bm_refuses f m k then bm_lookup m else (bm_lookup m)(k \<mapsto> v))"
  by (auto simp: bm_update_def bm_lookup_def update_conv')

lemma bm_lookup_remove [bm_simps]: "bm_lookup (fst (bm_remove m k)) = (bm_lookup m)(k := None)"
  by (auto simp: bm_remove_def bm_lookup_def delete_conv')

lemma snd_bm_update: "snd (bm_update f m k v) \<longleftrightarrow> \<not> bm_refuses f m k"
  by (simp add: bm_update_def)

lemma bm_update_other [bm_simps]: "k' \<noteq> k \<Longrightarrow> bm_lookup (fst (bm_update f m k v)) k' = bm_lookup m k'"
  by (simp add: bm_lookup_update)

text \<open>A key that is present cannot be refused under \<open>BPF_ANY\<close>, and is always refused under
  \<open>BPF_NOEXIST\<close>.\<close>

lemma bm_refuses_present:
  "bm_lookup m k = Some v \<Longrightarrow> bm_refuses f m k \<longleftrightarrow> f = BPF_NOEXIST"
  by (simp add: bm_refuses_def)

lemma length_alist_update:
  "length (AList.update k v al) = (if map_of al k = None then Suc (length al) else length al)"
  by (induction al) auto

lemma length_alist_delete: "length (AList.delete k al) \<le> length al"
  by (simp add: AList.delete_eq)

lemma bm_inv_update: "bm_inv m \<Longrightarrow> bm_inv (fst (bm_update f m k v))"
  by (auto simp: bm_inv_def bm_update_def bm_refuses_def bm_lookup_def distinct_update length_alist_update
      split: option.splits)

lemma bm_inv_remove: "bm_inv m \<Longrightarrow> bm_inv (fst (bm_remove m k))"
  using length_alist_delete [of k "bm_elems m"]
  by (auto simp: bm_inv_def bm_remove_def distinct_delete)

interpretation bm: lookup_table bm_inv bm_lookup "bm_update BPF_ANY" bm_remove
proof
  fix t t' :: "('a, 'b) bpf_map" and k v
  assume i: "bm_inv t"
  show "bm_inv t' \<and> bm_lookup t' = (bm_lookup t)(k \<mapsto> v)" if u: "bm_update BPF_ANY t k v = (t', True)"
    using bm_inv_update [OF i, of BPF_ANY k v] bm_lookup_update [of BPF_ANY t k v] snd_bm_update [of BPF_ANY t k v] u
    by auto
  show "t' = t \<and> bm_lookup t k = None" if u: "bm_update BPF_ANY t k v = (t', False)"
    using u by (auto simp: bm_update_def bm_refuses_def split: if_splits option.splits)
next
  fix t t' :: "('a, 'b) bpf_map" and k b
  assume i: "bm_inv t" and r: "bm_remove t k = (t', b)"
  show "bm_inv t' \<and> bm_lookup t' = (bm_lookup t)(k := None) \<and> (b \<longleftrightarrow> bm_lookup t k \<noteq> None)"
    using bm_inv_remove [OF i, of k] bm_lookup_remove [of t k] r by (auto simp: bm_remove_def)
qed

section \<open>Code that may throw\<close>

text \<open>The exceptions of the control plane, each with the data its message shows.\<close>

datatype failure =
    TooManyPdrs | NoXdpProgram | MissingPdi u16 | FarNotFound u16 | NoGnbIp | SdfTooLong
  | BpfUpdateFailed | NoInterfaceIndex

text \<open>A run ends in a state, and in an exception unless the second component is None.\<close>

type_synonym 's run = "'s \<times> failure option"

definition and_then :: "'s run \<Rightarrow> ('s \<Rightarrow> 's run) \<Rightarrow> 's run" where
  "and_then r f = (case r of (s, None) \<Rightarrow> f s | (s, Some e) \<Rightarrow> (s, Some e))"

fun until_throws :: "('a \<Rightarrow> 's \<Rightarrow> 's run) \<Rightarrow> 'a list \<Rightarrow> 's \<Rightarrow> 's run" where
  "until_throws f [] s = (s, None)"
| "until_throws f (x # xs) s = and_then (f x s) (until_throws f xs)"

named_theorems run_simps \<open>runs that return\<close>

lemma and_then_simps [run_simps]:
  "and_then (s, None) f = f s" "and_then (s, Some e) f = (s, Some e)"
  by (simp_all add: and_then_def)

lemma and_then_None:
  "and_then r f = (s', None) \<longleftrightarrow> (\<exists>s. r = (s, None) \<and> f s = (s', None))"
  by (auto simp: and_then_def split: prod.splits option.splits)

text \<open>What every step keeps is kept whether or not the run throws.\<close>

lemma and_then_keeps: "P (fst r) \<Longrightarrow> (\<And>s. P s \<Longrightarrow> P (fst (f s))) \<Longrightarrow> P (fst (and_then r f))"
  by (auto simp: and_then_def split: prod.splits option.splits)

lemma until_throws_keeps:
  "P s \<Longrightarrow> (\<And>x s. x \<in> set xs \<Longrightarrow> P s \<Longrightarrow> P (fst (f x s))) \<Longrightarrow> P (fst (until_throws f xs s))"
proof (induction xs arbitrary: s)
  case (Cons x xs)
  have "P (fst (until_throws f xs s'))" if "P s'" for s'
    using Cons.IH [OF that] Cons.prems(2) by simp
  moreover have "P (fst (f x s))" using Cons.prems by simp
  ultimately show ?case by (simp add: and_then_keeps)
qed simp

lemma until_throws_append:
  "until_throws f (xs @ ys) s = and_then (until_throws f xs s) (until_throws f ys)"
  by (induction xs arbitrary: s) (auto simp: and_then_def split: prod.splits option.splits)

end
