(* ===== verification/BpfConvert.thy ===== *)
theory BpfConvert
  imports PfcpSession
begin

text \<open>
  The rules as the BPF programs read them: the structures of \<open>kernel/pfcp\<close> and the conversions of
  \<open>SessionProgramManager::ConvertFar\<close>, \<open>ConvertPdr\<close>, \<open>ConvertQer\<close>, \<open>ConvertUrr\<close>, \<open>ConvertBar\<close> and
  \<open>ConvertMar\<close> (\<open>control/SessionProgramManager.cpp\<close>). A member the conversions never write stays zero
  and is left out. A bit field keeps the low bits of what is assigned to it. The elements of a URR the
  other components only copy are read here by the accessors of the library (\<open>ie_readers\<close>), and so is
  the byte that follows the flag of an optional Outer Header Removal.
\<close>

section \<open>Structures\<close>

record bpf_far =
  bf_far_id :: u32
  bf_apply_action :: apply_action
  bf_interface_value :: u8
  bf_ohc_description :: u16
  bf_ohc_teid :: u32
  bf_ohc_ipv4_address :: u32
  bf_ohc_port_number :: u16

record bpf_pdr =
  bp_rule_id :: u16
  bp_precedence :: u32
  bp_interface_value :: u8
  bp_teid :: u32
  bp_ue_ipv4_address :: u32
  bp_flow_desc_len :: u16
  bp_flow_description :: string
  bp_qfi :: u8
  bp_ohr_description :: u8
  bp_ohr_gtpu_ext_hdr_deletion :: u8
  bp_far_id :: u32
  bp_urr_id :: u32
  bp_qer_id :: u32
  bp_mar_id :: u16

record bpf_qer =
  bq_qer_id :: u32
  bq_ul_gate :: u8
  bq_dl_gate :: u8
  bq_ul_mbr :: u64
  bq_dl_mbr :: u64
  bq_ul_gbr :: u64
  bq_dl_gbr :: u64
  bq_qfi :: u8
  bq_rqi :: bool

record reporting_triggers =
  tr_volth :: bool
  tr_volqu :: bool
  tr_timth :: bool
  tr_timqu :: bool
  tr_perio :: bool
  tr_start :: bool
  tr_stop :: bool
  tr_droth :: bool

record volumes =
  total_volume :: u64
  uplink_volume :: u64
  downlink_volume :: u64

record dropped_threshold =
  dd_flags :: u8
  dd_downlink_packets :: u64
  dd_downlink_bytes :: u64

record bpf_urr =
  bu_urr_id :: u32
  bu_triggers :: reporting_triggers
  bu_volume_threshold :: volumes
  bu_volume_quota :: volumes
  bu_measurement_period :: u32
  bu_time_threshold :: u32
  bu_monitoring_time :: u32
  bu_dropped :: dropped_threshold

record bpf_bar =
  bb_bar_id :: u8
  bb_packet_count :: u8
  bb_delay_value :: u8

record bpf_mar =
  bm_mar_id :: u16
  bm_steer_mode_value :: u8
  bm_afai_1_far_id :: u32
  bm_afai_2_far_id :: u32

section \<open>Accessors of the library\<close>

text \<open>\<open>rd_dropped\<close> gives \<open>dlpa\<close> with the packets and \<open>dlby\<close> with the bytes.\<close>

record ie_readers =
  rd_triggers :: "payload \<Rightarrow> reporting_triggers"
  rd_volumes :: "payload \<Rightarrow> volumes"
  rd_seconds :: "payload \<Rightarrow> u32"
  rd_dropped :: "payload \<Rightarrow> (bool \<times> u64) \<times> (bool \<times> u64)"
  ohr_byte :: "ohr_description \<Rightarrow> u8"

text \<open>The numbers of TS 29.244 for the values the sources name.\<close>

fun interface_byte :: "interface_value \<Rightarrow> u8" where
  "interface_byte INTERFACE_VALUE_ACCESS = 0"
| "interface_byte INTERFACE_VALUE_CORE = 1"
| "interface_byte INTERFACE_VALUE_CP_FUNCTION = 3"
| "interface_byte (INTERFACE_VALUE_OTHER b) = b"

fun ohc_word :: "ohc_description \<Rightarrow> u16" where
  "ohc_word OUTER_HEADER_CREATION_GTPU_UDP_IPV4 = 0x0100"
| "ohc_word OUTER_HEADER_CREATION_GTPU_UDP_IPV6 = 0x0200"
| "ohc_word OUTER_HEADER_CREATION_UDP_IPV4 = 0x0400"
| "ohc_word OUTER_HEADER_CREATION_UDP_IPV6 = 0x0800"
| "ohc_word (OUTER_HEADER_CREATION_OTHER w) = w"

section \<open>Zeroed structures\<close>

definition no_action :: apply_action where
  "no_action = \<lparr>aa_drop = False, aa_forw = False, aa_buff = False, aa_nocp = False, aa_dupl = False\<rparr>"

definition bpf_far_zero :: bpf_far where
  "bpf_far_zero = \<lparr>bf_far_id = 0, bf_apply_action = no_action, bf_interface_value = 0, bf_ohc_description = 0,
     bf_ohc_teid = 0, bf_ohc_ipv4_address = 0, bf_ohc_port_number = 0\<rparr>"

definition bpf_pdr_zero :: bpf_pdr where
  "bpf_pdr_zero = \<lparr>bp_rule_id = 0, bp_precedence = 0, bp_interface_value = 0, bp_teid = 0, bp_ue_ipv4_address = 0,
     bp_flow_desc_len = 0, bp_flow_description = [], bp_qfi = 0, bp_ohr_description = 0,
     bp_ohr_gtpu_ext_hdr_deletion = 0, bp_far_id = 0, bp_urr_id = 0, bp_qer_id = 0, bp_mar_id = 0\<rparr>"

definition bpf_qer_zero :: bpf_qer where
  "bpf_qer_zero = \<lparr>bq_qer_id = 0, bq_ul_gate = 0, bq_dl_gate = 0, bq_ul_mbr = 0, bq_dl_mbr = 0, bq_ul_gbr = 0,
     bq_dl_gbr = 0, bq_qfi = 0, bq_rqi = False\<rparr>"

definition no_triggers :: reporting_triggers where
  "no_triggers = \<lparr>tr_volth = False, tr_volqu = False, tr_timth = False, tr_timqu = False, tr_perio = False,
     tr_start = False, tr_stop = False, tr_droth = False\<rparr>"

definition no_volumes :: volumes where
  "no_volumes = \<lparr>total_volume = 0, uplink_volume = 0, downlink_volume = 0\<rparr>"

definition bpf_urr_zero :: bpf_urr where
  "bpf_urr_zero = \<lparr>bu_urr_id = 0, bu_triggers = no_triggers, bu_volume_threshold = no_volumes,
     bu_volume_quota = no_volumes, bu_measurement_period = 0, bu_time_threshold = 0, bu_monitoring_time = 0,
     bu_dropped = \<lparr>dd_flags = 0, dd_downlink_packets = 0, dd_downlink_bytes = 0\<rparr>\<rparr>"

definition bpf_bar_zero :: bpf_bar where
  "bpf_bar_zero = \<lparr>bb_bar_id = 0, bb_packet_count = 0, bb_delay_value = 0\<rparr>"

definition bpf_mar_zero :: bpf_mar where
  "bpf_mar_zero = \<lparr>bm_mar_id = 0, bm_steer_mode_value = 0, bm_afai_1_far_id = 0, bm_afai_2_far_id = 0\<rparr>"

section \<open>Conversions\<close>

text \<open>The argument is None for the null pointer of a rule that was not found.\<close>

definition ConvertFar :: "pfcp_far option \<Rightarrow> bpf_far" where
  "ConvertFar r =
     (case r of None \<Rightarrow> bpf_far_zero
      | Some f \<Rightarrow>
          let b0 = bpf_far_zero\<lparr>bf_far_id := far_id f, bf_apply_action := far_apply_action f\<rparr>;
              fp = ie_val (far_forwarding_parameters f);
              o' = ie_val (fp_outer_header_creation fp);
              b1 = b0\<lparr>bf_interface_value := interface_byte (ie_val (fp_destination_interface fp)) AND 0xF\<rparr>
          in if \<not> present (far_forwarding_parameters f) then b0
             else if \<not> present (fp_outer_header_creation fp) then b1
             else b1\<lparr>bf_ohc_teid := ohc_teid o', bf_ohc_port_number := ohc_port_number o',
                     bf_ohc_description := ohc_word (ohc_description o'), bf_ohc_ipv4_address := ohc_ipv4_address o'\<rparr>)"

definition PFCP_SDF_FLOW_DESC_MAX_LEN :: nat where "PFCP_SDF_FLOW_DESC_MAX_LEN = 256"

text \<open>Filling the PDI throws on a flow description that does not fit (None).\<close>

definition convert_pdi :: "pdi \<Rightarrow> bpf_pdr \<Rightarrow> bpf_pdr option" where
  "convert_pdi d b =
     (let b1 = b\<lparr>bp_interface_value := interface_byte (ie_val (pdi_source_interface d)) AND 0xF\<rparr>;
          b2 = (if present (pdi_local_fteid d) then b1\<lparr>bp_teid := ft_teid (ie_val (pdi_local_fteid d))\<rparr> else b1);
          b3 = (if present (pdi_ue_ip_address d)
                then b2\<lparr>bp_ue_ipv4_address := ue_ipv4_address (ie_val (pdi_ue_ip_address d))\<rparr> else b2);
          fd = ie_val (pdi_sdf_filter d);
          b4 = (if present (pdi_sdf_filter d)
                then b3\<lparr>bp_flow_desc_len := word_of_nat (length fd), bp_flow_description := fd\<rparr> else b3)
      in if present (pdi_sdf_filter d) \<and> length fd \<ge> PFCP_SDF_FLOW_DESC_MAX_LEN then None
         else Some (if present (pdi_qfi d) then b4\<lparr>bp_qfi := ie_val (pdi_qfi d) AND 0x3F\<rparr> else b4))"

text \<open>\<open>memcpy\<close> from the optional Outer Header Removal copies its flag first, which is 1.\<close>

definition ConvertPdr :: "ie_readers \<Rightarrow> pfcp_pdr \<Rightarrow> bpf_pdr option" where
  "ConvertPdr rd p =
     (let b0 = bpf_pdr_zero\<lparr>bp_rule_id := pdr_id p, bp_precedence := ie_val (pdr_precedence p),
                             bp_far_id := ie_val (pdr_far_id p), bp_qer_id := ie_val (pdr_qer_id p),
                             bp_urr_id := ie_val (pdr_urr_id p)\<rparr>
      in map_option
           (\<lambda>b. if present (pdr_outer_header_removal p)
                 then b\<lparr>bp_ohr_description := 1, bp_ohr_gtpu_ext_hdr_deletion := ohr_byte rd (ie_val (pdr_outer_header_removal p))\<rparr>
                 else b)
           (if present (pdr_pdi p) then convert_pdi (ie_val (pdr_pdi p)) b0 else Some b0))"

definition ConvertQer :: "pfcp_qer option \<Rightarrow> bpf_qer" where
  "ConvertQer r =
     (case r of None \<Rightarrow> bpf_qer_zero
      | Some q \<Rightarrow>
          let b0 = bpf_qer_zero\<lparr>bq_qer_id := ie_val (qer_id q)\<rparr>;
              b1 = (if present (qer_gate_status q)
                    then b0\<lparr>bq_ul_gate := fst (ie_val (qer_gate_status q)) AND 3,
                            bq_dl_gate := snd (ie_val (qer_gate_status q)) AND 3\<rparr> else b0);
              b2 = (if present (qer_maximum_bitrate q)
                    then b1\<lparr>bq_ul_mbr := fst (ie_val (qer_maximum_bitrate q)), bq_dl_mbr := snd (ie_val (qer_maximum_bitrate q))\<rparr>
                    else b1);
              b3 = (if present (qer_guaranteed_bitrate q)
                    then b2\<lparr>bq_ul_gbr := fst (ie_val (qer_guaranteed_bitrate q)),
                            bq_dl_gbr := snd (ie_val (qer_guaranteed_bitrate q))\<rparr> else b2);
              b4 = (if present (qer_qos_flow_id q) then b3\<lparr>bq_qfi := ie_val (qer_qos_flow_id q) AND 0x3F\<rparr> else b3)
          in if present (qer_reflective_qos q) then b4\<lparr>bq_rqi := ie_val (qer_reflective_qos q)\<rparr> else b4)"

text \<open>\<open>static_cast<uint64_t>(seconds) * 1000000000ULL\<close>, assigned to a 32-bit member.\<close>

definition seconds_in_ns :: "u32 \<Rightarrow> u32" where
  "seconds_in_ns s = ucast ((ucast s :: u64) * 1000000000)"

definition DDTH_FLAG_DLPA :: u8 where "DDTH_FLAG_DLPA = 1"
definition DDTH_FLAG_DLBY :: u8 where "DDTH_FLAG_DLBY = 2"

definition convert_dropped :: "(bool \<times> u64) \<times> (bool \<times> u64) \<Rightarrow> dropped_threshold" where
  "convert_dropped x =
     (let d0 = \<lparr>dd_flags = 0, dd_downlink_packets = 0, dd_downlink_bytes = 0\<rparr>;
          d1 = (if fst (fst x) then d0\<lparr>dd_flags := dd_flags d0 OR DDTH_FLAG_DLPA, dd_downlink_packets := snd (fst x)\<rparr> else d0)
      in if fst (snd x) then d1\<lparr>dd_flags := dd_flags d1 OR DDTH_FLAG_DLBY, dd_downlink_bytes := snd (snd x)\<rparr> else d1)"

definition ConvertUrr :: "ie_readers \<Rightarrow> pfcp_urr option \<Rightarrow> bpf_urr" where
  "ConvertUrr rd r =
     (case r of None \<Rightarrow> bpf_urr_zero
      | Some u \<Rightarrow>
          let b0 = bpf_urr_zero\<lparr>bu_urr_id := ie_val (urr_id u)\<rparr>;
              b1 = (if present (urr_reporting_triggers u)
                    then b0\<lparr>bu_triggers := rd_triggers rd (ie_val (urr_reporting_triggers u))\<rparr> else b0);
              b2 = (if present (urr_volume_threshold u)
                    then b1\<lparr>bu_volume_threshold := rd_volumes rd (ie_val (urr_volume_threshold u))\<rparr> else b1);
              b3 = (if present (urr_volume_quota u)
                    then b2\<lparr>bu_volume_quota := rd_volumes rd (ie_val (urr_volume_quota u))\<rparr> else b2);
              b4 = (if present (urr_measurement_period u)
                    then b3\<lparr>bu_measurement_period := seconds_in_ns (rd_seconds rd (ie_val (urr_measurement_period u)))\<rparr> else b3);
              b5 = (if present (urr_time_threshold u)
                    then b4\<lparr>bu_time_threshold := seconds_in_ns (rd_seconds rd (ie_val (urr_time_threshold u)))\<rparr> else b4);
              b6 = (if present (urr_monitoring_time u)
                    then b5\<lparr>bu_monitoring_time := seconds_in_ns (rd_seconds rd (ie_val (urr_monitoring_time u)))\<rparr> else b5)
          in if present (urr_dropped_dl_traffic_threshold u)
             then b6\<lparr>bu_dropped := convert_dropped (rd_dropped rd (ie_val (urr_dropped_dl_traffic_threshold u)))\<rparr> else b6)"

definition ConvertBar :: "pfcp_bar option \<Rightarrow> bpf_bar" where
  "ConvertBar r =
     (case r of None \<Rightarrow> bpf_bar_zero
      | Some b \<Rightarrow>
          let b0 = bpf_bar_zero\<lparr>bb_bar_id := ie_val (bar_id b)\<rparr>;
              b1 = (if present (bar_suggested_buffering_packets_count b)
                    then b0\<lparr>bb_packet_count := ie_val (bar_suggested_buffering_packets_count b)\<rparr> else b0)
          in if present (bar_downlink_data_notification_delay b)
             then b1\<lparr>bb_delay_value := ie_val (bar_downlink_data_notification_delay b)\<rparr> else b1)"

definition ConvertMar :: "pfcp_mar option \<Rightarrow> bpf_mar" where
  "ConvertMar r =
     (case r of None \<Rightarrow> bpf_mar_zero
      | Some a \<Rightarrow>
          let b0 = bpf_mar_zero\<lparr>bm_mar_id := ucast (ie_val (mar_id a))\<rparr>;
              b1 = (if present (mar_steering_mode a) then b0\<lparr>bm_steer_mode_value := ie_val (mar_steering_mode a)\<rparr> else b0);
              b2 = (if present (mar_afai_1 a) then b1\<lparr>bm_afai_1_far_id := maf_far_id (ie_val (mar_afai_1 a))\<rparr> else b1)
          in if present (mar_afai_2 a) then b2\<lparr>bm_afai_2_far_id := maf_far_id (ie_val (mar_afai_2 a))\<rparr> else b2)"

section \<open>What the conversions keep and lose\<close>

lemma ConvertPdr_rule_id: "ConvertPdr rd p = Some b \<Longrightarrow> bp_rule_id b = pdr_id p"
  by (auto simp: ConvertPdr_def convert_pdi_def Let_def split: if_splits)

text \<open>A PDR is not convertible exactly when its flow description is too long.\<close>

lemma ConvertPdr_None:
  "ConvertPdr rd p = None \<longleftrightarrow>
     present (pdr_pdi p) \<and> present (pdi_sdf_filter (ie_val (pdr_pdi p))) \<and>
     PFCP_SDF_FLOW_DESC_MAX_LEN \<le> length (ie_val (pdi_sdf_filter (ie_val (pdr_pdi p))))"
  by (auto simp: ConvertPdr_def convert_pdi_def Let_def)

text \<open>The description of an Outer Header Removal is lost: every value is converted to 1, which is
  GTP-U/UDP/IPv6.\<close>

lemma ohr_description_is_lost:
  "ConvertPdr rd p = Some b \<Longrightarrow>
   bp_ohr_description b = (if present (pdr_outer_header_removal p) then 1 else 0)"
  by (auto simp: ConvertPdr_def convert_pdi_def bpf_pdr_zero_def Let_def split: if_splits)

text \<open>Times in nanoseconds do not fit: the conversion is right up to four seconds and never after.\<close>

lemma unat_seconds_in_ns: "unat (seconds_in_ns s) = (unat s * 1000000000) mod 2 ^ 32"
proof -
  have l: "unat s < 4294967296" using unsigned_less [of s] by simp
  from l have "unat s * 1000000000 < 18446744073709551616" by linarith
  moreover have "unat (ucast s :: u64) = unat s"
    using l by (simp add: unsigned_ucast_eq take_bit_nat_eq_self_iff)
  ultimately have "unat ((ucast s :: u64) * 1000000000) = unat s * 1000000000"
    by (simp add: unat_word_ariths)
  then show ?thesis
    by (simp add: seconds_in_ns_def unsigned_ucast_eq take_bit_eq_mod)
qed

lemma seconds_in_ns_exact_iff: "unat (seconds_in_ns s) = unat s * 1000000000 \<longleftrightarrow> unat s \<le> 4"
  unfolding unat_seconds_in_ns by (auto simp: mod_less_eq_dividend)

end
