(* ===== verification/SdfParser.thy ===== *)
theory SdfParser
  imports SdfFilter
begin

text \<open>
  The parser of flow descriptions on the BPF side (\<open>helpers/SdfFilterParser.cpp\<close>): the text is matched
  against one regular expression, whose groups are then converted. No two groups of the expression can
  share a character at their border, so what \<open>std::regex_match\<close> captures is what reading each group as
  far as it goes captures. \<open>inet_pton\<close> is a parameter for each family; it gives the address as the
  little-endian host loads it.
\<close>

section \<open>The filter\<close>

record ip_subnet =
  sn_type :: u8
  sn_ip :: "128 word"
  sn_mask :: "128 word"

record sdf_filtr =
  sf_protocol :: u16
  sf_src_addr :: ip_subnet
  sf_src_port :: "u16 \<times> u16"
  sf_dst_addr :: ip_subnet
  sf_dst_port :: "u16 \<times> u16"
  sf_seid :: u64
  sf_qfi :: u8

definition any_subnet :: ip_subnet where
  "any_subnet = \<lparr>sn_type = 0, sn_ip = 0, sn_mask = 0\<rparr>"

section \<open>Conversion of the groups\<close>

definition ParseProtocol :: "string \<Rightarrow> u16 option" where
  "ParseProtocol p =
     map_of [(''icmp'', 1), (''ip'', 0), (''tcp'', 6), (''udp'', 17), (''icmp6'', 58),
             (''0'', 0), (''1'', 1), (''6'', 6), (''17'', 17), (''58'', 58)] p"

text \<open>A mask is a group of digits, so \<open>std::stoi\<close> fails only beyond its range. Shifting 128 bits by 128 is
  undefined in the source, and taken for 0 here.\<close>

definition prefix128 :: "nat \<Rightarrow> 128 word" where
  "prefix128 n = (if n = 0 then 0 else NOT (drop_bit n (- 1)))"

definition ParseCidrIp ::
    "(string \<Rightarrow> u32 option) \<Rightarrow> (string \<Rightarrow> 128 word option) \<Rightarrow> string \<Rightarrow> string \<Rightarrow> ip_subnet option" where
  "ParseCidrIp pton pton6 ip msk =
     (let found = (case pton ip of
                     Some a \<Rightarrow> Some (1, ucast (bswap32 a), 32)
                   | None \<Rightarrow> map_option (\<lambda>a. (2, a, 128)) (pton6 ip))
      in case found of
           None \<Rightarrow> None
         | Some (t, a, longest) \<Rightarrow>
             (if msk \<noteq> [] \<and> (digits_val msk > longest \<or> digits_val msk \<ge> 2 ^ 31) then None
              else Some \<lparr>sn_type = t, sn_ip = a, sn_mask = prefix128 (if msk = [] then longest else digits_val msk)\<rparr>))"

definition ParsePort :: "string \<Rightarrow> u16 option" where
  "ParsePort s = (if s = [] \<or> digits_val s > 65535 then None else Some (word_of_nat (digits_val s)))"

definition ParsePortRange :: "string \<Rightarrow> (u16 \<times> u16) option" where
  "ParsePortRange s =
     (let lo = takeWhile is_digit s; r = dropWhile is_digit s;
          hi = (if r = [] then lo else tl r)
      in if r \<noteq> [] \<and> (hd r \<noteq> CHR ''-'' \<or> \<not> list_all is_digit hi) then None
         else case (ParsePort lo, ParsePort hi) of
                (Some a, Some b) \<Rightarrow> if a > b then None else Some (a, b)
              | _ \<Rightarrow> None)"

section \<open>The regular expression\<close>

definition strip_prefix :: "string \<Rightarrow> string \<Rightarrow> string option" where
  "strip_prefix p s = (if take (length p) s = p then Some (drop (length p) s) else None)"

definition is_hex :: "char \<Rightarrow> bool" where
  "is_hex c \<longleftrightarrow> is_digit c \<or> (let n = of_char c :: nat in (65 \<le> n \<and> n \<le> 70) \<or> (97 \<le> n \<and> n \<le> 102))"

definition address_word :: "bool \<Rightarrow> string \<Rightarrow> bool" where
  "address_word assigned w \<longleftrightarrow>
     w = ''any'' \<or> (assigned \<and> w = ''assigned'') \<or>
     (w \<noteq> [] \<and> list_all (\<lambda>c. is_digit c \<or> c = CHR ''.'') w) \<or>
     (w \<noteq> [] \<and> list_all (\<lambda>c. is_hex c \<or> c = CHR '':'') w)"

definition protocol_word :: "string \<Rightarrow> bool" where
  "protocol_word w \<longleftrightarrow> w \<in> {''icmp'', ''ip'', ''tcp'', ''udp''} \<or> (w \<noteq> [] \<and> list_all is_digit w)"

text \<open>A word ends before a white space and before the slash of a prefix length.\<close>

definition word_char :: "char \<Rightarrow> bool" where
  "word_char c \<longleftrightarrow> \<not> is_space c \<and> c \<noteq> CHR ''/''"

text \<open>An address with its optional prefix length: the two groups and what follows.\<close>

definition regex_address :: "bool \<Rightarrow> string \<Rightarrow> (string \<times> string option \<times> string) option" where
  "regex_address assigned s =
     (let w = takeWhile word_char s; r = dropWhile word_char s
      in if \<not> address_word assigned w then None
         else if r \<noteq> [] \<and> hd r = CHR ''/''
         then (let n = takeWhile is_digit (tl r)
               in if n = [] then None else Some (w, Some n, dropWhile is_digit (tl r)))
         else Some (w, None, r))"

text \<open>Optional ports behind white space.\<close>

definition regex_ports :: "string \<Rightarrow> string option \<times> string" where
  "regex_ports s =
     (let r = dropWhile is_space s; lo = takeWhile is_digit r; r1 = dropWhile is_digit r
      in if r = s \<or> lo = [] then (None, s)
         else if r1 \<noteq> [] \<and> hd r1 = CHR ''-'' \<and> takeWhile is_digit (tl r1) \<noteq> []
         then (Some (lo @ ''-'' @ takeWhile is_digit (tl r1)), dropWhile is_digit (tl r1))
         else (Some lo, r1))"

type_synonym flow_groups =
  "string \<times> (string \<times> string option \<times> string option) \<times> (string \<times> string option \<times> string option)"

definition regex_end :: "bool \<Rightarrow> string \<Rightarrow> ((string \<times> string option \<times> string option) \<times> string) option" where
  "regex_end assigned s =
     (case regex_address assigned s of
        None \<Rightarrow> None
      | Some (a, n, r) \<Rightarrow> (case regex_ports r of (p, r1) \<Rightarrow> Some ((a, n, p), r1)))"

definition flow_regex :: "string \<Rightarrow> flow_groups option" where
  "flow_regex s =
     Option.bind (strip_prefix ''permit out '' s) (\<lambda>s1.
       let p = takeWhile (\<lambda>c. \<not> is_space c) s1
       in if \<not> protocol_word p then None
          else Option.bind (strip_prefix '' from '' (dropWhile (\<lambda>c. \<not> is_space c) s1)) (\<lambda>s2.
            Option.bind (regex_end False s2) (\<lambda>(src, s3).
              Option.bind (strip_prefix '' to '' s3) (\<lambda>s4.
                Option.bind (regex_end True s4) (\<lambda>(dst, s5).
                  if s5 = [] then Some (p, src, dst) else None)))))"

section \<open>The parser\<close>

definition group_ports :: "string option \<Rightarrow> (u16 \<times> u16) option" where
  "group_ports g = (case g of None \<Rightarrow> Some (0, 65535) | Some s \<Rightarrow> ParsePortRange s)"

definition ParseSdfFilter ::
    "(string \<Rightarrow> u32 option) \<Rightarrow> (string \<Rightarrow> 128 word option) \<Rightarrow> string \<Rightarrow> sdf_filtr option" where
  "ParseSdfFilter pton pton6 flow =
     Option.bind (flow_regex flow) (\<lambda>(p, (src, src_n, src_p), (dst, dst_n, dst_p)).
       let text_of = (\<lambda>n. case n of None \<Rightarrow> [] | Some t \<Rightarrow> t)
       in Option.bind (ParseProtocol p) (\<lambda>proto.
            Option.bind (if src = ''any'' then (if src_n \<noteq> None then None else Some any_subnet)
                         else ParseCidrIp pton pton6 src (text_of src_n)) (\<lambda>src_addr.
              Option.bind (group_ports src_p) (\<lambda>src_port.
                Option.bind (if dst = ''assigned'' \<or> dst = ''any'' then Some any_subnet
                             else ParseCidrIp pton pton6 dst (text_of dst_n)) (\<lambda>dst_addr.
                  map_option (\<lambda>dst_port.
                      \<lparr>sf_protocol = proto, sf_src_addr = src_addr, sf_src_port = src_port,
                       sf_dst_addr = dst_addr, sf_dst_port = dst_port, sf_seid = 0, sf_qfi = 0\<rparr>)
                    (group_ports dst_p))))))"

section \<open>Reading a rule back\<close>

text \<open>The rules the parser understands: outgoing, a protocol it has in its table, addresses of digits and
  points, no \<open>assigned\<close> source.\<close>

fun known_proto :: "proto_spec \<Rightarrow> bool" where
  "known_proto ProtoSctp = False"
| "known_proto (ProtoNum n) = (n \<in> {0, 1, 6, 17, 58})"
| "known_proto _ = True"

fun v4_words :: "endpoint \<Rightarrow> bool" where
  "v4_words (NetAddr ip _) = list_all (\<lambda>c. is_digit c \<or> c = CHR ''.'') ip"
| "v4_words _ = True"

definition bpf_rule :: "rule_spec \<Rightarrow> bool" where
  "bpf_rule s \<longleftrightarrow> rs_out s \<and> known_proto (rs_proto s) \<and> rs_src s \<noteq> AssignedAddr \<and>
     v4_words (rs_src s) \<and> v4_words (rs_dst s)"

fun subnet_of :: "(string \<Rightarrow> u32 option) \<Rightarrow> endpoint \<Rightarrow> ip_subnet" where
  "subnet_of pton (NetAddr ip n) =
     \<lparr>sn_type = 1, sn_ip = ucast (bswap32 (the (pton ip))),
      sn_mask = prefix128 (case n of None \<Rightarrow> 32 | Some n \<Rightarrow> n)\<rparr>"
| "subnet_of pton _ = any_subnet"

fun ports_of :: "port_spec \<Rightarrow> u16 \<times> u16" where
  "ports_of NoPorts = (0, 65535)"
| "ports_of (OnePort n) = (word_of_nat n, word_of_nat n)"
| "ports_of (PortRange a b) = (word_of_nat a, word_of_nat b)"

definition filter_of :: "(string \<Rightarrow> u32 option) \<Rightarrow> rule_spec \<Rightarrow> sdf_filtr" where
  "filter_of pton s =
     \<lparr>sf_protocol = ucast (proto_num (rs_proto s)), sf_src_addr = subnet_of pton (rs_src s),
      sf_src_port = ports_of (rs_src_ports s), sf_dst_addr = subnet_of pton (rs_dst s),
      sf_dst_port = ports_of (rs_dst_ports s), sf_seid = 0, sf_qfi = 0\<rparr>"

lemma strip_prefix_append [simp]: "strip_prefix p (p @ s) = Some s"
  by (simp add: strip_prefix_def)

lemma takeWhile_word: "\<forall>c\<in>set w. P c \<Longrightarrow> r = [] \<or> \<not> P (hd r) \<Longrightarrow> takeWhile P (w @ r) = w \<and> dropWhile P (w @ r) = r"
  by (cases r) (auto simp: takeWhile_append2 dropWhile_append3)

lemma word_char_digit: "is_digit c \<Longrightarrow> word_char c"
  by (simp add: word_char_def digit_props)

lemma show_nat_inj: "show_nat m = show_nat n \<longleftrightarrow> m = n"
  by (metis digits_val_show)

lemma show_nat_small:
  "show_nat 0 = ''0''" "show_nat 1 = ''1''" "show_nat 6 = ''6''" "show_nat 17 = ''17''" "show_nat 58 = ''58''"
  by (simp_all add: show_nat.simps digit_char_def char_of_def bit_0)

lemma ParseProtocol_text:
  "known_proto p \<Longrightarrow> ParseProtocol (proto_text p) = Some (ucast (proto_num p))"
  by (cases p) (auto simp: ParseProtocol_def show_nat_small [unfolded One_nat_def])

lemma protocol_word_text: "known_proto p \<Longrightarrow> protocol_word (proto_text p) \<and> (\<forall>c\<in>set (proto_text p). \<not> is_space c)"
  using show_nat_digits digit_props(1)
  by (cases p) (auto simp: protocol_word_def list_all_iff is_space_def)

lemma ParsePort_show: "n \<le> 65535 \<Longrightarrow> ParsePort (show_nat n) = Some (word_of_nat n)"
  by (simp add: ParsePort_def digits_val_show)

text \<open>The groups a rule is captured in.\<close>

fun group_addr :: "endpoint \<Rightarrow> string \<times> string option" where
  "group_addr AnyAddr = (''any'', None)"
| "group_addr AssignedAddr = (''assigned'', None)"
| "group_addr (NetAddr ip n) = (ip, map_option show_nat n)"

fun group_of_ports :: "port_spec \<Rightarrow> string option" where
  "group_of_ports NoPorts = None"
| "group_of_ports (OnePort n) = Some (show_nat n)"
| "group_of_ports (PortRange a b) = Some (show_nat a @ ''-'' @ show_nat b)"

definition end_text :: "endpoint \<Rightarrow> port_spec \<Rightarrow> string" where
  "end_text e q = addr_text e @ (case group_of_ports q of None \<Rightarrow> [] | Some w \<Rightarrow> '' '' @ w)"

lemma rule_text:
  assumes "rs_out s"
  shows "unwords (rule_tokens s) =
     ''permit out '' @ proto_text (rs_proto s) @ '' from '' @ end_text (rs_src s) (rs_src_ports s) @
     '' to '' @ end_text (rs_dst s) (rs_dst_ports s)"
  using assms
  by (cases "rs_src_ports s"; cases "rs_dst_ports s") (simp_all add: rule_tokens_def end_text_def)

text \<open>What may follow a group: nothing, or white space.\<close>

definition stops :: "string \<Rightarrow> bool" where
  "stops r \<longleftrightarrow> r = [] \<or> is_space (hd r)"

lemma space_no_digit: "is_space c \<Longrightarrow> \<not> is_digit c \<and> \<not> word_char c \<and> c \<noteq> CHR ''/'' \<and> c \<noteq> CHR ''-''"
  by (auto simp: is_space_def is_digit_def word_char_def)

lemma read_number:
  "stops r \<Longrightarrow> takeWhile is_digit (show_nat n @ r) = show_nat n \<and> dropWhile is_digit (show_nat n @ r) = r"
  using show_nat_digits space_no_digit by (intro takeWhile_word) (auto simp: stops_def)

lemma regex_address_text:
  assumes "addr_wf pton e" "v4_words e" "e = AssignedAddr \<longrightarrow> assigned" "stops r"
  shows "regex_address assigned (addr_text e @ r) = Some (fst (group_addr e), snd (group_addr e), r)"
proof -
  have word: "takeWhile word_char (w @ t) = w \<and> dropWhile word_char (w @ t) = t"
    if "\<forall>c\<in>set w. word_char c" "t = [] \<or> \<not> word_char (hd t)" for w t
    by (rule takeWhile_word [OF that])
  have r: "r = [] \<or> \<not> word_char (hd r)" "\<not> (r \<noteq> [] \<and> hd r = CHR ''/'')"
    using assms(4) space_no_digit by (auto simp: stops_def)
  show ?thesis
  proof (cases e)
    case AnyAddr
    have "\<forall>c\<in>set ''any''. word_char c" by (simp add: word_char_def is_space_def)
    from word [OF this r(1)] AnyAddr r show ?thesis by (simp add: regex_address_def address_word_def Let_def)
  next
    case AssignedAddr
    have "\<forall>c\<in>set ''assigned''. word_char c" by (simp add: word_char_def is_space_def)
    from word [OF this r(1)] AssignedAddr r assms(3) show ?thesis by (simp add: regex_address_def address_word_def Let_def)
  next
    case (NetAddr ip n)
    have ip: "ip_wf pton ip" using assms(1) NetAddr by (cases n) auto
    then have w: "\<forall>c\<in>set ip. word_char c" "ip \<noteq> []" by (auto simp: ip_wf_def word_char_def)
    have a: "address_word assigned ip" using assms(2) NetAddr w by (simp add: address_word_def)
    show ?thesis
    proof (cases n)
      case None
      then show ?thesis using word [OF w(1) r(1)] NetAddr r a by (simp add: regex_address_def Let_def)
    next
      case (Some k)
      have "takeWhile word_char (ip @ CHR ''/'' # show_nat k @ r) = ip \<and>
            dropWhile word_char (ip @ CHR ''/'' # show_nat k @ r) = CHR ''/'' # show_nat k @ r"
        by (rule word [OF w(1)]) (simp add: word_char_def)
      then show ?thesis using NetAddr Some a read_number [OF assms(4), of k] by (simp add: regex_address_def Let_def)
    qed
  qed
qed

text \<open>\<open> to \<close> is not taken for ports.\<close>

definition no_ports_ahead :: "string \<Rightarrow> bool" where
  "no_ports_ahead r \<longleftrightarrow> takeWhile is_digit (dropWhile is_space r) = []"

lemma regex_ports_text:
  assumes "stops r" "no_ports_ahead r"
  shows "regex_ports ((case group_of_ports q of None \<Rightarrow> [] | Some w \<Rightarrow> '' '' @ w) @ r) = (group_of_ports q, r)"
proof -
  have d: "dropWhile is_space (CHR '' '' # show_nat n @ t) = show_nat n @ t" for n t
  proof -
    obtain c cs where c: "show_nat n = c # cs" by (cases "show_nat n") auto
    then have "is_digit c" using show_nat_digits [of n] by simp
    then have "\<not> is_space c" by (rule digit_props)
    then show ?thesis using c by (simp add: is_space_def)
  qed
  have ne: "show_nat n @ t \<noteq> CHR '' '' # show_nat n @ t" for n t
    by (metis append_eq_Cons_conv length_Cons n_not_Suc_n)
  have r: "\<not> (r \<noteq> [] \<and> hd r = CHR ''-'')" using assms(1) space_no_digit by (auto simp: stops_def)
  show ?thesis
  proof (cases q)
    case NoPorts
    then show ?thesis using assms(2) by (simp add: regex_ports_def Let_def no_ports_ahead_def)
  next
    case (OnePort n)
    then show ?thesis using d [of n r] ne [of n r] read_number [OF assms(1), of n] r by (auto simp: regex_ports_def Let_def)
  next
    case (PortRange a b)
    have a: "takeWhile is_digit (show_nat a @ CHR ''-'' # t) = show_nat a \<and>
             dropWhile is_digit (show_nat a @ CHR ''-'' # t) = CHR ''-'' # t" for t
      using show_nat_digits by (intro takeWhile_word) (auto simp: is_digit_def)
    show ?thesis
      using PortRange d [of a "CHR ''-'' # show_nat b @ r"] ne [of a "CHR ''-'' # show_nat b @ r"]
        a [of "show_nat b @ r"] read_number [OF assms(1), of b]
      by (simp add: regex_ports_def Let_def)
  qed
qed

lemma regex_end_text:
  assumes "addr_wf pton e" "v4_words e" "e = AssignedAddr \<longrightarrow> assigned" "stops r" "no_ports_ahead r"
  shows "regex_end assigned (end_text e q @ r) = Some ((fst (group_addr e), snd (group_addr e), group_of_ports q), r)"
proof -
  let ?t = "(case group_of_ports q of None \<Rightarrow> [] | Some w \<Rightarrow> '' '' @ w) @ r"
  have "stops ?t" using assms(4) by (auto simp: stops_def is_space_def split: option.split)
  from regex_address_text [OF assms(1-3) this]
  have "regex_address assigned (end_text e q @ r) = Some (fst (group_addr e), snd (group_addr e), ?t)"
    by (simp add: end_text_def)
  then show ?thesis using regex_ports_text [OF assms(4,5), of q] by (simp add: regex_end_def)
qed

lemma flow_regex_text:
  assumes "rule_wf pton s" "bpf_rule s"
  shows "flow_regex (unwords (rule_tokens s)) =
     Some (proto_text (rs_proto s),
           (fst (group_addr (rs_src s)), snd (group_addr (rs_src s)), group_of_ports (rs_src_ports s)),
           (fst (group_addr (rs_dst s)), snd (group_addr (rs_dst s)), group_of_ports (rs_dst_ports s)))"
proof -
  have wf: "addr_wf pton (rs_src s)" "addr_wf pton (rs_dst s)" using assms(1) by (simp_all add: rule_wf_def)
  have b: "rs_out s" "known_proto (rs_proto s)" "rs_src s = AssignedAddr \<longrightarrow> False" "v4_words (rs_src s)" "v4_words (rs_dst s)"
    using assms(2) by (simp_all add: bpf_rule_def)
  let ?dst = "end_text (rs_dst s) (rs_dst_ports s)"
  let ?src = "end_text (rs_src s) (rs_src_ports s)"
  let ?p = "proto_text (rs_proto s)"
  note p = protocol_word_text [OF b(2)]
  have tw: "takeWhile (\<lambda>c. \<not> is_space c) (?p @ '' from '' @ t) = ?p \<and>
            dropWhile (\<lambda>c. \<not> is_space c) (?p @ '' from '' @ t) = '' from '' @ t" for t
    using p by (intro takeWhile_word) (auto simp: is_space_def)
  have t: "stops ('' to '' @ ?dst)" "no_ports_ahead ('' to '' @ ?dst)" "stops []" "no_ports_ahead []"
    by (simp_all add: stops_def no_ports_ahead_def is_space_def is_digit_def)
  have src: "regex_end False (?src @ '' to '' @ ?dst) =
      Some ((fst (group_addr (rs_src s)), snd (group_addr (rs_src s)), group_of_ports (rs_src_ports s)), '' to '' @ ?dst)"
    by (rule regex_end_text [OF wf(1) b(4,3) t(1,2)])
  have dst: "regex_end True ?dst =
      Some ((fst (group_addr (rs_dst s)), snd (group_addr (rs_dst s)), group_of_ports (rs_dst_ports s)), [])"
    using regex_end_text [OF wf(2) b(5) _ t(3,4), of True "rs_dst_ports s"] by simp
  show ?thesis
    unfolding flow_regex_def rule_text [OF b(1)] strip_prefix_append Option.bind.bind_lunit Let_def
      tw [THEN conjunct1] tw [THEN conjunct2]
    using p by (simp add: src dst del: append.simps)
qed

lemma group_ports_text: "ports_wf q \<Longrightarrow> group_ports (group_of_ports q) = Some (ports_of q)"
proof (cases q)
  case (OnePort n)
  have t: "takeWhile is_digit (show_nat n) = show_nat n" "dropWhile is_digit (show_nat n) = []"
    using read_number [of "[]" n] by (simp_all add: stops_def)
  show "ports_wf q \<Longrightarrow> ?thesis"
    unfolding OnePort group_of_ports.simps group_ports_def option.case ParsePortRange_def t Let_def
    by (simp add: ParsePort_show)
next
  case (PortRange a b)
  have t: "takeWhile is_digit (show_nat a @ CHR ''-'' # show_nat b) = show_nat a \<and>
        dropWhile is_digit (show_nat a @ CHR ''-'' # show_nat b) = CHR ''-'' # show_nat b"
    using show_nat_digits by (intro takeWhile_word) (auto simp: is_digit_def)
  assume "ports_wf q"
  then have "a \<le> b" "b \<le> 65535" using PortRange by auto
  then have "\<not> (word_of_nat b :: u16) < word_of_nat a" by (simp add: word_less_nat_alt unat_of_nat)
  then show ?thesis using PortRange t show_nat_digits \<open>a \<le> b\<close> \<open>b \<le> 65535\<close>
    by (simp add: group_ports_def ParsePortRange_def Let_def ParsePort_show list_all_iff)
qed (simp add: group_ports_def)

lemma address_text:
  assumes "addr_wf pton e"
  shows "(if fst (group_addr e) = ''assigned'' \<or> fst (group_addr e) = ''any'' then Some any_subnet
          else ParseCidrIp pton pton6 (fst (group_addr e)) (case snd (group_addr e) of None \<Rightarrow> [] | Some t \<Rightarrow> t)) =
         Some (subnet_of pton e)"
proof (cases e)
  case (NetAddr ip n)
  then have "ip_wf pton ip" using assms by (cases n) auto
  then obtain a where "pton ip = Some a" "ip \<noteq> ''any''" "ip \<noteq> ''assigned''" by (auto simp: ip_wf_def)
  with NetAddr assms show ?thesis by (cases n) (auto simp: ParseCidrIp_def digits_val_show)
qed simp_all

lemma group_word:
  assumes "addr_wf pton e"
  shows "fst (group_addr e) = ''any'' \<longleftrightarrow> e = AnyAddr" "fst (group_addr e) = ''assigned'' \<longleftrightarrow> e = AssignedAddr"
proof -
  have "ip_wf pton ip" if "e = NetAddr ip n" for ip n using assms that by (cases n) auto
  then show "fst (group_addr e) = ''any'' \<longleftrightarrow> e = AnyAddr" "fst (group_addr e) = ''assigned'' \<longleftrightarrow> e = AssignedAddr"
    by (cases e; auto simp: ip_wf_def)+
qed

text \<open>The parser reads every rule it has words for as exactly that rule: an outgoing filter with a
  protocol of its table, addresses in IPv4 notation with or without prefix lengths, ports or ranges.\<close>

lemma parse_text:
  assumes "rule_wf pton s" and "bpf_rule s"
  shows "ParseSdfFilter pton pton6 (unwords (rule_tokens s)) = Some (filter_of pton s)"
proof -
  have wf: "addr_wf pton (rs_src s)" "addr_wf pton (rs_dst s)" "ports_wf (rs_src_ports s)" "ports_wf (rs_dst_ports s)"
    using assms(1) by (simp_all add: rule_wf_def)
  have b: "known_proto (rs_proto s)" "rs_src s \<noteq> AssignedAddr" using assms(2) by (simp_all add: bpf_rule_def)
  have src: "fst (group_addr (rs_src s)) = ''any'' \<Longrightarrow> rs_src s = AnyAddr" "fst (group_addr (rs_src s)) \<noteq> ''assigned''"
    using b(2) group_word [OF wf(1)] by auto
  show ?thesis
    using address_text [OF wf(1), of pton6] address_text [OF wf(2), of pton6] src
      ParseProtocol_text [OF b(1)] group_ports_text [OF wf(3)] group_ports_text [OF wf(4)]
    by (auto simp: ParseSdfFilter_def flow_regex_text [OF assms] Let_def filter_of_def)
qed

end
