(* ===== verification/SessionPrograms.thy ===== *)
theory SessionPrograms
  imports BpfMaps BpfConvert SdfParser
begin

text \<open>
  The BPF side of a session (\<open>control/SessionProgramManager.cpp\<close>, the per-session parts of
  \<open>user/qer_tc_user.cpp\<close>, \<open>urr_apply_user.cpp\<close>, \<open>bar_apply_user.cpp\<close>, \<open>mar_apply_user.cpp\<close>): creating,
  modifying and removing what the XDP programs read about it. The state \<open>pipeline\<close> is the maps and the
  members of the manager. A function that may throw is a run; what it did before it threw stays done.

  The maps of the session look-up for IP are always loaded, those for Ethernet only in an Ethernet
  pipeline, those of URR, BAR and MAR when the feature is on. The address resolution threads are
  recorded as tasks. The calls run one at a time, under the lock of \<open>SessionManager\<close>. Parsing of
  addresses, routing, the shell commands of traffic control and their results are parameters.
\<close>

section \<open>State\<close>

record session_id =
  si_teid_ul :: u32
  si_teid_dl :: u32
  si_seid :: u64

record eth_session_id =
  ei_teid_ul :: u32
  ei_teid_dl :: u32
  ei_ipv4_address :: u32
  ei_seid :: u64

record rules_match_pdr =
  rm_far :: bpf_far
  rm_qer :: bpf_qer
  rm_urr :: bpf_urr
  rm_bar :: bpf_bar
  rm_mar :: bpf_mar

datatype pdu_session_type = PduIP | PduEthernet

datatype arp_task = ArpN6 u32 | ArpN3 u32 u64

text \<open>A command of traffic control on the N3 interface: the root qdisc, a class under a parent with its
  rate and ceiling (parent 0 is the root), the filter, the removal of a class.\<close>

datatype tc_cmd = TcRoot | TcClassAdd u16 u16 u64 u64 | TcFilter | TcClassDel u16

text \<open>The maps of URR, BAR and MAR are declared with a 64-bit key: of the \<open>(seid, id)\<close> the user side
  passes, the kernel reads the SEID. \<open>urr_volume_counters_map\<close> and \<open>bar_state_map\<close> hold what the XDP
  programs count there.\<close>

record pipeline =
  session_by_ue_ip_map :: "(u32, session_id) bpf_map"
  eth_session_mapping_map :: "(u32, eth_session_id) bpf_map"
  pdrs_per_session_map :: "(u64, bpf_pdr list) bpf_map"
  eth_session_pdrs_map :: "(u64, bpf_pdr list) bpf_map"
  rules_match_pdr_map :: "(u16 \<times> u64, rules_match_pdr) bpf_map"
  eth_rules_match_pdr_map :: "(u16 \<times> u64, rules_match_pdr) bpf_map"
  sdf_filters_map :: "(u8 \<times> u64, sdf_filtr) bpf_map"
  session_rules_enabled_map :: "(u64, u32) bpf_map"
  urr_config_map :: "(u64, bpf_urr) bpf_map"
  urr_volume_counters_map :: "(u64, u64 list) bpf_map"
  bar_config_map :: "(u64, bpf_bar) bpf_map"
  bar_state_map :: "(u64, u64 list) bpf_map"
  mar_config_map :: "(u64, bpf_mar) bpf_map"
  arp_table_map :: "(u32, byte list \<times> u32) bpf_map"
  session_pdu_type_map :: "u64 \<rightharpoonup> pdu_session_type"
  session_ue_ip_key_map :: "u64 \<Rightarrow> u32 list"
  session_n6_arp_cache :: "u64 \<Rightarrow> u32 list"
  session_n3_arp_cache :: "u64 \<Rightarrow> u32 list"
  qer_programs_map :: "u64 \<rightharpoonup> u16 list"
  arp_tasks :: "arp_task list"
  tc_log :: "tc_cmd list"

record bpf_env =
  be_cfg :: upf_env
  be_program :: bool
  be_eth_pipeline :: bool
  be_readers :: ie_readers
  be_pton :: "string \<Rightarrow> u32 option"
  be_pton6 :: "string \<Rightarrow> 128 word option"
  be_dn_ip :: u32
  be_n3_ip :: u32
  be_n6_ip :: u32
  be_ifindex_ok :: bool
  be_max_rate :: u32
  be_four_fifths :: "u64 \<Rightarrow> u64"
  be_no_root_qdisc :: "tc_cmd list \<Rightarrow> bool"
  be_no_tc_filter :: "tc_cmd list \<Rightarrow> bool"
  be_system :: "tc_cmd list \<Rightarrow> tc_cmd \<Rightarrow> bool"
  be_same_subnet :: "u32 \<Rightarrow> u32 \<Rightarrow> bool"
  be_gateway :: "u32 \<Rightarrow> u32 option"
  be_next_hop_mac :: "u32 \<Rightarrow> byte list option"

definition urr_loaded :: "bpf_env \<Rightarrow> bool" where
  "urr_loaded e \<longleftrightarrow> enable_bpf_datapath (be_cfg e) \<and> enable_urr (be_cfg e)"

definition bar_loaded :: "bpf_env \<Rightarrow> bool" where
  "bar_loaded e \<longleftrightarrow> enable_bpf_datapath (be_cfg e) \<and> enable_bar (be_cfg e)"

definition mar_loaded :: "bpf_env \<Rightarrow> bool" where
  "mar_loaded e \<longleftrightarrow> enable_bpf_datapath (be_cfg e) \<and> enable_mar (be_cfg e)"

text \<open>An update of one map, through its selector and its assignment; it throws when refused.\<close>

definition put ::
    "('p \<Rightarrow> ('k, 'v) bpf_map) \<Rightarrow> (('k, 'v) bpf_map \<Rightarrow> 'p \<Rightarrow> 'p) \<Rightarrow> bpf_flags \<Rightarrow> 'k \<Rightarrow> 'v \<Rightarrow> 'p \<Rightarrow> 'p run" where
  "put get upd f k v p =
     (case bm_update f (get p) k v of (m, ok) \<Rightarrow> (upd m p, if ok then None else Some BpfUpdateFailed))"

section \<open>Session mappings\<close>

text \<open>The arguments are stored in the byte order of the network. An entry of this session only gets the
  identifiers it misses.\<close>

definition session_entry :: "session_id option \<Rightarrow> u32 \<Rightarrow> u32 \<Rightarrow> u64 \<Rightarrow> session_id" where
  "session_entry old teid_ul teid_dl seid =
     (case old of
        Some s \<Rightarrow>
          if si_seid s = seid
          then let s1 = (if si_teid_ul s = 0 then s\<lparr>si_teid_ul := (if teid_ul \<noteq> 0 then teid_ul else teid_dl)\<rparr> else s)
               in if si_teid_dl s1 = 0 then s1\<lparr>si_teid_dl := (if teid_dl \<noteq> 0 then teid_dl else teid_ul)\<rparr> else s1
          else \<lparr>si_teid_ul = teid_ul, si_teid_dl = teid_dl, si_seid = seid\<rparr>
      | None \<Rightarrow> \<lparr>si_teid_ul = teid_ul, si_teid_dl = teid_dl, si_seid = seid\<rparr>)"

text \<open>An exception of the map is caught: the result is False.\<close>

definition StorePduSessionInMap :: "u32 \<Rightarrow> u32 \<Rightarrow> u32 \<Rightarrow> u64 \<Rightarrow> pipeline \<Rightarrow> pipeline \<times> bool" where
  "StorePduSessionInMap ue_ip teid_ul teid_dl seid p =
     (let k = bswap32 ue_ip;
          v = session_entry (bm_lookup (session_by_ue_ip_map p) k) (bswap32 teid_ul) (bswap32 teid_dl) seid
      in case bm_update BPF_ANY (session_by_ue_ip_map p) k v of (m, ok) \<Rightarrow>
           let p1 = p\<lparr>session_by_ue_ip_map := m\<rparr>
           in if ok
              then (p1\<lparr>session_ue_ip_key_map := (session_ue_ip_key_map p1)(seid := List.insert k (session_ue_ip_key_map p1 seid))\<rparr>, True)
              else (p1, False))"

definition RemoveUeIpMappingIfOwned :: "u64 \<Rightarrow> u32 \<Rightarrow> pipeline \<Rightarrow> pipeline" where
  "RemoveUeIpMappingIfOwned seid k p =
     (case bm_lookup (session_by_ue_ip_map p) k of
        Some s \<Rightarrow> if si_seid s = seid then p\<lparr>session_by_ue_ip_map := fst (bm_remove (session_by_ue_ip_map p) k)\<rparr> else p
      | None \<Rightarrow> p)"

definition StoreEthPduSessionInMap :: "bpf_env \<Rightarrow> u32 \<Rightarrow> u32 \<Rightarrow> u32 \<Rightarrow> u64 \<Rightarrow> pipeline \<Rightarrow> pipeline" where
  "StoreEthPduSessionInMap e teid_ul teid_dl gnb_ip seid p =
     (if be_eth_pipeline e
      then p\<lparr>eth_session_mapping_map :=
               fst (bm_update BPF_ANY (eth_session_mapping_map p) (bswap32 teid_ul)
                     \<lparr>ei_teid_ul = bswap32 teid_ul, ei_teid_dl = bswap32 teid_dl, ei_ipv4_address = gnb_ip, ei_seid = seid\<rparr>)\<rparr>
      else p)"

section \<open>Looking rules up\<close>

definition GetFarForPdr :: "upf_switch \<Rightarrow> pfcp_session \<Rightarrow> pfcp_pdr \<Rightarrow> pfcp_far option" where
  "GetFarForPdr sw s p =
     (if present (pdr_far_id p) then map_option (far_at sw) (get_far sw s (ie_val (pdr_far_id p))) else None)"

definition GetQerForPdr :: "pfcp_session \<Rightarrow> pfcp_pdr \<Rightarrow> pfcp_qer option" where
  "GetQerForPdr s p = (if present (pdr_qer_id p) then get_qer s (ie_val (pdr_qer_id p)) else None)"

definition GetUrrForPdr :: "pfcp_session \<Rightarrow> pfcp_pdr \<Rightarrow> pfcp_urr option" where
  "GetUrrForPdr s p = (if present (pdr_urr_id p) then get_urr s (ie_val (pdr_urr_id p)) else None)"

definition GetBarForFar :: "pfcp_session \<Rightarrow> pfcp_far \<Rightarrow> pfcp_bar option" where
  "GetBarForFar s f = (if present (far_bar_id f) then get_bar s (ie_val (far_bar_id f)) else None)"

definition GetMarForPdr :: "pfcp_session \<Rightarrow> pfcp_pdr \<Rightarrow> pfcp_mar option" where
  "GetMarForPdr s p = (if present (pdr_mar_id p) then get_mar s (ie_val (pdr_mar_id p)) else None)"

definition GetUplinkTeidFromPdr :: "pfcp_pdr \<Rightarrow> u32" where
  "GetUplinkTeidFromPdr p =
     (let d = ie_val (pdr_pdi p)
      in if present (pdr_pdi p) \<and> present (pdi_source_interface d) \<and>
            ie_val (pdi_source_interface d) = INTERFACE_VALUE_ACCESS \<and> present (pdi_local_fteid d)
         then ft_teid (ie_val (pdi_local_fteid d)) else 0)"

definition GetDownlinkTeidFromFar :: "pfcp_far \<Rightarrow> u32" where
  "GetDownlinkTeidFromFar f =
     (let fp = ie_val (far_forwarding_parameters f)
      in if present (far_forwarding_parameters f) \<and> present (fp_destination_interface fp) \<and>
            ie_val (fp_destination_interface fp) = INTERFACE_VALUE_ACCESS \<and> present (fp_outer_header_creation fp)
         then ohc_teid (ie_val (fp_outer_header_creation fp)) else 0)"

text \<open>None is the exception.\<close>

definition GetGnodebIp :: "pfcp_far \<Rightarrow> u32 option" where
  "GetGnodebIp f =
     (let fp = ie_val (far_forwarding_parameters f)
      in if \<not> present (far_forwarding_parameters f) then None
         else Some (if present (fp_outer_header_creation fp) then ohc_ipv4_address (ie_val (fp_outer_header_creation fp)) else 0))"

definition to_access :: "pfcp_far \<Rightarrow> bool" where
  "to_access f \<longleftrightarrow>
     (let fp = ie_val (far_forwarding_parameters f)
      in present (far_forwarding_parameters f) \<and> present (fp_destination_interface fp) \<and>
         ie_val (fp_destination_interface fp) = INTERFACE_VALUE_ACCESS \<and> present (fp_outer_header_creation fp))"

definition RetrieveGnbIp :: "upf_switch \<Rightarrow> pfcp_session \<Rightarrow> u32" where
  "RetrieveGnbIp sw s =
     (case find (\<lambda>r. to_access (far_at sw r)) (s_fars s) of
        Some r \<Rightarrow> ohc_ipv4_address (ie_val (fp_outer_header_creation (ie_val (far_forwarding_parameters (far_at sw r)))))
      | None \<Rightarrow> 0)"

definition has_ue_ip :: "pfcp_pdr \<Rightarrow> bool" where
  "has_ue_ip p \<longleftrightarrow> present (pdr_pdi p) \<and> present (pdi_ue_ip_address (ie_val (pdr_pdi p)))"

definition RetrieveUeIp :: "upf_switch \<Rightarrow> pfcp_session \<Rightarrow> u32" where
  "RetrieveUeIp sw s =
     (case find (\<lambda>r. has_ue_ip (pdr_at sw r)) (s_pdrs s) of
        Some r \<Rightarrow> ue_ipv4_address (ie_val (pdi_ue_ip_address (ie_val (pdr_pdi (pdr_at sw r)))))
      | None \<Rightarrow> 0)"

section \<open>Flags and session type\<close>

definition RULE_QER_ENABLED :: u32 where "RULE_QER_ENABLED = 1"
definition RULE_URR_ENABLED :: u32 where "RULE_URR_ENABLED = 2"
definition RULE_BAR_ENABLED :: u32 where "RULE_BAR_ENABLED = 4"
definition RULE_MAR_ENABLED :: u32 where "RULE_MAR_ENABLED = 8"

definition ComputeRulesEnabledFlags :: "bpf_env \<Rightarrow> upf_switch \<Rightarrow> pfcp_session \<Rightarrow> u32" where
  "ComputeRulesEnabledFlags e sw s =
     (let f0 = 0;
          f1 = (if \<exists>r\<in>set (s_pdrs s). present (pdr_qer_id (pdr_at sw r)) then f0 OR RULE_QER_ENABLED else f0);
          f2 = (if \<exists>r\<in>set (s_pdrs s). present (pdr_urr_id (pdr_at sw r)) then f1 OR RULE_URR_ENABLED else f1);
          f3 = (if \<exists>r\<in>set (s_fars s). present (far_bar_id (far_at sw r)) then f2 OR RULE_BAR_ENABLED else f2);
          f4 = (if \<exists>r\<in>set (s_pdrs s). present (pdr_mar_id (pdr_at sw r)) then f3 OR RULE_MAR_ENABLED else f3);
          g1 = (if \<not> enable_qos (be_cfg e) then f4 AND NOT RULE_QER_ENABLED else f4);
          g2 = (if \<not> enable_urr (be_cfg e) then g1 AND NOT RULE_URR_ENABLED else g1);
          g3 = (if \<not> enable_bar (be_cfg e) then g2 AND NOT RULE_BAR_ENABLED else g2)
      in if \<not> enable_mar (be_cfg e) then g3 AND NOT RULE_MAR_ENABLED else g3)"

definition UpdateRulesEnabledMap :: "u64 \<Rightarrow> u32 \<Rightarrow> pipeline \<Rightarrow> pipeline run" where
  "UpdateRulesEnabledMap seid flags =
     put session_rules_enabled_map (\<lambda>m p. p\<lparr>session_rules_enabled_map := m\<rparr>) BPF_ANY seid flags"

definition names_ue :: "pfcp_pdr \<Rightarrow> bool" where
  "names_ue p \<longleftrightarrow> has_ue_ip p \<and> ue_ipv4_address (ie_val (pdi_ue_ip_address (ie_val (pdr_pdi p)))) \<noteq> 0"

definition DetectPduSessionType :: "upf_switch \<Rightarrow> pfcp_session \<Rightarrow> pdu_session_type" where
  "DetectPduSessionType sw s =
     (if \<exists>r\<in>set (s_pdrs s). names_ue (pdr_at sw r) then PduIP
      else if s_pdrs s \<noteq> [] then PduEthernet else PduIP)"

section \<open>Rate shaping\<close>

text \<open>\<open>generate_minor_id\<close> (\<open>kernel/include/sdf_types.h\<close>).\<close>

definition generate_minor_id :: "u64 \<Rightarrow> u8 \<Rightarrow> u16" where
  "generate_minor_id seid qfi =
     (let hash = ucast (seid XOR drop_bit 16 seid XOR drop_bit 32 seid XOR drop_bit 48 seid) :: u16;
          minor = hash + ucast qfi * 37;
          limited = (if minor > 9999 then 9999 else minor)
      in if limited \<noteq> 0 then limited else 1)"

definition DEFAULT_CLASS_HANDLE :: nat where "DEFAULT_CLASS_HANDLE = 65535"
definition DEFAULT_CLASS_RATE :: u64 where "DEFAULT_CLASS_RATE = 1024"
definition DEFAULT_CLASS_CEIL :: u64 where "DEFAULT_CLASS_CEIL = 2048"

text \<open>\<open>system(cmd)\<close> and whether it succeeds; a class that was created is recorded in
  \<open>created_classids_\<close>, the second component.\<close>

type_synonym tc_state = "tc_cmd list \<times> u16 list"

definition tc_run :: "bpf_env \<Rightarrow> tc_cmd \<Rightarrow> tc_state \<Rightarrow> tc_state \<times> bool" where
  "tc_run e c t = ((fst t @ [c], snd t), be_system e (fst t) c)"

definition tc_class :: "bpf_env \<Rightarrow> u16 \<Rightarrow> u16 \<Rightarrow> u64 \<Rightarrow> u64 \<Rightarrow> tc_state \<Rightarrow> tc_state \<times> bool" where
  "tc_class e parent cid rate ceil t =
     (case tc_run e (TcClassAdd parent cid rate ceil) t of (t', ok) \<Rightarrow>
        (if ok then ((fst t', snd t' @ [cid]), True) else (t', False)))"

definition RetrieveDefaultQer :: "pfcp_qer list \<Rightarrow> pfcp_qer option" where
  "RetrieveDefaultQer = find (\<lambda>q. \<not> present (qer_guaranteed_bitrate q) \<and> \<not> present (qer_maximum_bitrate q))"

text \<open>The default flow gets a class under the session's, and a class under that; any other flow with a
  maximum bit rate gets one class under the session's.\<close>

definition tc_qer :: "bpf_env \<Rightarrow> u64 \<Rightarrow> pfcp_qer option \<Rightarrow> pfcp_qer \<Rightarrow> tc_state \<Rightarrow> tc_state" where
  "tc_qer e seid default_qer q t =
     (let minor = generate_minor_id seid (ie_val (qer_qos_flow_id q));
          default_minor = word_of_nat ((DEFAULT_CLASS_HANDLE - unat minor) mod 10000);
          dl_ceil = max (snd (ie_val (qer_maximum_bitrate q))) 1;
          dl_rate = (if present (qer_guaranteed_bitrate q) then max (snd (ie_val (qer_guaranteed_bitrate q))) 1
                     else max (be_four_fifths e dl_ceil) 1)
      in if Some q = default_qer
         then (case tc_class e (ucast seid) default_minor DEFAULT_CLASS_RATE DEFAULT_CLASS_CEIL t of (t1, ok) \<Rightarrow>
                 if ok then fst (tc_class e default_minor minor DEFAULT_CLASS_RATE DEFAULT_CLASS_CEIL t1) else t1)
         else if present (qer_maximum_bitrate q)
         then fst (tc_class e (ucast seid) minor dl_rate dl_ceil t)
         else t)"

text \<open>\<open>QERTCProgram::Setup\<close>, for a list that is not empty; it throws when an interface is missing.\<close>

definition QERTCProgram_Setup :: "bpf_env \<Rightarrow> u64 \<Rightarrow> pfcp_qer list \<Rightarrow> pipeline \<Rightarrow> pipeline run" where
  "QERTCProgram_Setup e seid qers p =
     (if \<not> be_ifindex_ok e then (p, Some NoInterfaceIndex)
      else
        let t0 = (tc_log p, []);
            t1 = (if be_no_root_qdisc e (fst t0) then fst (tc_run e TcRoot t0) else t0);
            t2 = fst (tc_class e 0 (ucast seid) (ucast (be_max_rate e)) (ucast (be_max_rate e)) t1);
            t3 = fold (tc_qer e seid (RetrieveDefaultQer qers)) qers t2;
            t4 = (if be_no_tc_filter e (fst t3) then fst (tc_run e TcFilter t3) else t3)
        in (p\<lparr>tc_log := fst t4, qer_programs_map := (qer_programs_map p)(seid \<mapsto> snd t4)\<rparr>, None))"

text \<open>Children go first: the classes are removed against the order of their creation. Failures only log.\<close>

definition QERTCProgram_TearDown :: "u64 \<Rightarrow> pipeline \<Rightarrow> pipeline" where
  "QERTCProgram_TearDown seid p =
     (case qer_programs_map p seid of
        None \<Rightarrow> p
      | Some cs \<Rightarrow> p\<lparr>tc_log := tc_log p @ map TcClassDel (rev cs), qer_programs_map := (qer_programs_map p)(seid := None)\<rparr>)"

section \<open>Enforcement of a session\<close>

definition urr_setup :: "bpf_env \<Rightarrow> u64 \<Rightarrow> pfcp_urr \<Rightarrow> pipeline \<Rightarrow> pipeline run" where
  "urr_setup e seid u p =
     and_then (put urr_config_map (\<lambda>m p. p\<lparr>urr_config_map := m\<rparr>) BPF_ANY seid (ConvertUrr (be_readers e) (Some u)) p)
       (put urr_volume_counters_map (\<lambda>m p. p\<lparr>urr_volume_counters_map := m\<rparr>) BPF_NOEXIST seid [0, 0, 0, 0])"

definition bar_setup :: "u64 \<Rightarrow> pfcp_bar \<Rightarrow> pipeline \<Rightarrow> pipeline run" where
  "bar_setup seid b p =
     and_then (put bar_config_map (\<lambda>m p. p\<lparr>bar_config_map := m\<rparr>) BPF_ANY seid (ConvertBar (Some b)) p)
       (put bar_state_map (\<lambda>m p. p\<lparr>bar_state_map := m\<rparr>) BPF_NOEXIST seid [0, 0])"

definition mar_setup :: "u64 \<Rightarrow> pfcp_mar \<Rightarrow> pipeline \<Rightarrow> pipeline run" where
  "mar_setup seid a =
     put mar_config_map (\<lambda>m p. p\<lparr>mar_config_map := m\<rparr>) BPF_ANY seid (ConvertMar (Some a))"

text \<open>A call of the enforcement programs under a flag of the session.\<close>

definition enforce :: "bool \<Rightarrow> ('a \<Rightarrow> pipeline \<Rightarrow> pipeline run) \<Rightarrow> 'a list \<Rightarrow> pipeline \<Rightarrow> pipeline run" where
  "enforce on f xs p = (if on \<and> xs \<noteq> [] then until_throws f xs p else (p, None))"

definition flag_on :: "u32 \<Rightarrow> u32 \<Rightarrow> bool" where
  "flag_on flags rule \<longleftrightarrow> flags AND rule \<noteq> 0"

definition SetupSessionEnforcementPrograms ::
    "bpf_env \<Rightarrow> pfcp_session \<Rightarrow> pfcp_qer list \<Rightarrow> u32 \<Rightarrow> pipeline \<Rightarrow> pipeline run" where
  "SetupSessionEnforcementPrograms e s qers_downlink flags p =
     (let seid = get_up_seid s;
          p0 = QERTCProgram_TearDown seid p
      in and_then (if flag_on flags RULE_QER_ENABLED \<and> qers_downlink \<noteq> [] then QERTCProgram_Setup e seid qers_downlink p0 else (p0, None))
           (\<lambda>p1. and_then (enforce (flag_on flags RULE_URR_ENABLED \<and> urr_loaded e) (urr_setup e seid) (s_urrs s) p1)
             (\<lambda>p2. and_then (enforce (flag_on flags RULE_BAR_ENABLED \<and> bar_loaded e) (bar_setup seid) (s_bars s) p2)
               (enforce (flag_on flags RULE_MAR_ENABLED \<and> mar_loaded e) (mar_setup seid) (s_mars s)))))"

section \<open>Rules of a PDR\<close>

definition ParseAndStoreSdfFilter :: "bpf_env \<Rightarrow> u64 \<Rightarrow> pfcp_pdr \<Rightarrow> u8 \<Rightarrow> pipeline \<Rightarrow> pipeline run" where
  "ParseAndStoreSdfFilter e seid r qfi p =
     (let d = ie_val (pdr_pdi r)
      in if \<not> present (pdr_qer_id r) \<or> \<not> (present (pdr_pdi r) \<and> present (pdi_sdf_filter d)) then (p, None)
         else case ParseSdfFilter (be_pton e) (be_pton6 e) (ie_val (pdi_sdf_filter d)) of
                None \<Rightarrow> (p, None)
              | Some f \<Rightarrow> put sdf_filters_map (\<lambda>m p. p\<lparr>sdf_filters_map := m\<rparr>) BPF_ANY (qfi, seid)
                            (f\<lparr>sf_seid := seid, sf_qfi := qfi\<rparr>) p)"

text \<open>The rules of a PDR, found through its ids, and the PDR itself, whose QFI comes from the QER when it
  has none.\<close>

definition rules_of :: "bpf_env \<Rightarrow> pfcp_session \<Rightarrow> pfcp_pdr \<Rightarrow> pfcp_far \<Rightarrow> rules_match_pdr" where
  "rules_of e s r f =
     \<lparr>rm_far = ConvertFar (Some f), rm_qer = ConvertQer (GetQerForPdr s r),
      rm_urr = ConvertUrr (be_readers e) (GetUrrForPdr s r), rm_bar = ConvertBar (GetBarForFar s f),
      rm_mar = ConvertMar (GetMarForPdr s r)\<rparr>"

definition bpf_pdr_of :: "bpf_env \<Rightarrow> pfcp_session \<Rightarrow> pfcp_pdr \<Rightarrow> bpf_pdr option" where
  "bpf_pdr_of e s r =
     map_option
       (\<lambda>b. let q = ConvertQer (GetQerForPdr s r)
             in if bp_qfi b = 0 \<and> bq_qfi q \<noteq> 0 then b\<lparr>bp_qfi := bq_qfi q\<rparr> else b)
       (ConvertPdr (be_readers e) r)"

definition store_rules :: "bpf_env \<Rightarrow> bool \<Rightarrow> u64 \<Rightarrow> u16 \<Rightarrow> rules_match_pdr \<Rightarrow> pipeline \<Rightarrow> pipeline run" where
  "store_rules e is_eth seid i rules p =
     (if \<not> is_eth
      then put rules_match_pdr_map (\<lambda>m p. p\<lparr>rules_match_pdr_map := m\<rparr>) BPF_ANY (i, seid) rules p
      else if be_eth_pipeline e
      then put eth_rules_match_pdr_map (\<lambda>m p. p\<lparr>eth_rules_match_pdr_map := m\<rparr>) BPF_ANY (i, seid) rules p
      else (p, None))"

definition MAX_PDRS_PER_PDU_SESSION_LIMIT :: nat where "MAX_PDRS_PER_PDU_SESSION_LIMIT = 16"

text \<open>The array of PDRs is written whole, zeroed after the last one.\<close>

definition store_pdrs :: "bpf_env \<Rightarrow> bool \<Rightarrow> u64 \<Rightarrow> bpf_pdr list \<Rightarrow> pipeline \<Rightarrow> pipeline run" where
  "store_pdrs e is_eth seid bs p =
     (let v = bs @ replicate (MAX_PDRS_PER_PDU_SESSION_LIMIT - length bs) bpf_pdr_zero
      in if \<not> is_eth
         then put pdrs_per_session_map (\<lambda>m p. p\<lparr>pdrs_per_session_map := m\<rparr>) BPF_ANY seid v p
         else if be_eth_pipeline e
         then put eth_session_pdrs_map (\<lambda>m p. p\<lparr>eth_session_pdrs_map := m\<rparr>) BPF_ANY seid v p
         else (p, None))"

text \<open>An address is resolved once per session, for an uplink PDR towards the data network, for a downlink
  PDR towards the gNB.\<close>

definition launch_arp :: "bpf_env \<Rightarrow> u64 \<Rightarrow> u32 \<Rightarrow> interface_value \<Rightarrow> pipeline \<Rightarrow> pipeline" where
  "launch_arp e seid gnb_ip si p =
     (if si = INTERFACE_VALUE_ACCESS
      then if be_dn_ip e > 0 \<and> be_dn_ip e \<notin> set (session_n6_arp_cache p seid)
           then p\<lparr>session_n6_arp_cache := (session_n6_arp_cache p)(seid := be_dn_ip e # session_n6_arp_cache p seid),
                  arp_tasks := arp_tasks p @ [ArpN6 (be_dn_ip e)]\<rparr>
           else p
      else if si = INTERFACE_VALUE_CORE
      then if gnb_ip > 0 \<and> gnb_ip \<notin> set (session_n3_arp_cache p seid)
           then p\<lparr>session_n3_arp_cache := (session_n3_arp_cache p)(seid := gnb_ip # session_n3_arp_cache p seid),
                  arp_tasks := arp_tasks p @ [ArpN3 gnb_ip seid]\<rparr>
           else p
      else p)"

end
