(* ===== verification/SessionPipeline.thy ===== *)
theory SessionPipeline
  imports SessionPrograms
begin

text \<open>
  The three calls \<open>SessionManager\<close> makes on the BPF side (\<open>control/SessionProgramManager.cpp\<close>):
  \<open>CreatePipeline\<close>, \<open>ModifyPipeline\<close> and \<open>RemovePipeline\<close>, the reset of all sessions, and the tasks that
  resolve addresses. A session is passed with the downlink lists \<open>SessionManager\<close> sorted it into.
\<close>

section \<open>Stale entries\<close>

text \<open>The PDR ids recorded for a session, each with its QFI; a later slot replaces an earlier one.\<close>

definition recorded_pdrs :: "bpf_env \<Rightarrow> u64 \<Rightarrow> bool \<Rightarrow> pipeline \<Rightarrow> bpf_pdr list option" where
  "recorded_pdrs e seid is_eth p =
     (if \<not> is_eth then bm_lookup (pdrs_per_session_map p) seid
      else if be_eth_pipeline e then bm_lookup (eth_session_pdrs_map p) seid else None)"

definition GetTrackedPdrQfis :: "bpf_env \<Rightarrow> u64 \<Rightarrow> bool \<Rightarrow> pipeline \<Rightarrow> (u16 \<times> u8) list" where
  "GetTrackedPdrQfis e seid is_eth p =
     (case recorded_pdrs e seid is_eth p of
        None \<Rightarrow> []
      | Some bs \<Rightarrow> fold (\<lambda>b m. if bp_rule_id b \<noteq> 0 then AList.update (bp_rule_id b) (bp_qfi b) m else m) bs [])"

definition drop_rules :: "bpf_env \<Rightarrow> bool \<Rightarrow> u64 \<Rightarrow> u16 \<Rightarrow> pipeline \<Rightarrow> pipeline" where
  "drop_rules e is_eth seid i p =
     (if \<not> is_eth then p\<lparr>rules_match_pdr_map := fst (bm_remove (rules_match_pdr_map p) (i, seid))\<rparr>
      else if be_eth_pipeline e then p\<lparr>eth_rules_match_pdr_map := fst (bm_remove (eth_rules_match_pdr_map p) (i, seid))\<rparr>
      else p)"

definition drop_sdf :: "u64 \<Rightarrow> u8 \<Rightarrow> pipeline \<Rightarrow> pipeline" where
  "drop_sdf seid q p = p\<lparr>sdf_filters_map := fst (bm_remove (sdf_filters_map p) (q, seid))\<rparr>"

definition PruneStaleRuleEntries :: "bpf_env \<Rightarrow> u64 \<Rightarrow> bool \<Rightarrow> u16 list \<Rightarrow> u8 list \<Rightarrow> pipeline \<Rightarrow> pipeline" where
  "PruneStaleRuleEntries e seid is_eth ids qfis p =
     fold (drop_sdf seid) qfis (fold (drop_rules e is_eth seid) ids p)"

section \<open>Creation\<close>

text \<open>The variables of the loop over the PDRs.\<close>

record pipe_vars =
  pv_p :: pipeline
  pv_pdrs :: "bpf_pdr list"
  pv_ul_teid :: u32
  pv_dl_teid :: u32
  pv_gnb_ip :: u32

definition on_pipeline :: "(pipeline \<Rightarrow> pipeline run) \<Rightarrow> pipe_vars \<Rightarrow> pipe_vars run" where
  "on_pipeline f v = (case f (pv_p v) of (p, x) \<Rightarrow> (v\<lparr>pv_p := p\<rparr>, x))"

text \<open>The mapping of one PDR; a missing F-TEID or address counts as 0.\<close>

definition create_mapping :: "bpf_env \<Rightarrow> bool \<Rightarrow> u64 \<Rightarrow> pdi \<Rightarrow> pipeline \<Rightarrow> pipeline" where
  "create_mapping e is_eth seid d p =
     (let teid = (if present (pdi_local_fteid d) then ft_teid (ie_val (pdi_local_fteid d)) else 0);
          ue_ip = (if present (pdi_ue_ip_address d) then ue_ipv4_address (ie_val (pdi_ue_ip_address d)) else 0)
      in if is_eth then StoreEthPduSessionInMap e teid 0 0 seid p
         else fst (StorePduSessionInMap ue_ip teid 0 seid p))"

text \<open>The tunnels of an Ethernet session, kept for after the loop.\<close>

definition note_eth_tunnel :: "bool \<Rightarrow> pdi \<Rightarrow> pfcp_far \<Rightarrow> pipe_vars \<Rightarrow> pipe_vars run" where
  "note_eth_tunnel is_eth d f v =
     (let si = ie_val (pdi_source_interface d);
          teid = (if present (pdi_local_fteid d) then ft_teid (ie_val (pdi_local_fteid d)) else 0)
      in if is_eth \<and> si = INTERFACE_VALUE_CORE
         then (case GetGnodebIp f of
                 None \<Rightarrow> (v\<lparr>pv_dl_teid := GetDownlinkTeidFromFar f\<rparr>, Some NoGnbIp)
               | Some ip \<Rightarrow> (v\<lparr>pv_dl_teid := GetDownlinkTeidFromFar f, pv_gnb_ip := ip\<rparr>, None))
         else if is_eth \<and> si = INTERFACE_VALUE_ACCESS then (v\<lparr>pv_ul_teid := teid\<rparr>, None)
         else (v, None))"

definition create_step ::
    "bpf_env \<Rightarrow> upf_switch \<Rightarrow> pfcp_session \<Rightarrow> bool \<Rightarrow> nat \<Rightarrow> pipe_vars \<Rightarrow> pipe_vars run" where
  "create_step e sw s is_eth r v =
     (let seid = get_up_seid s; x = pdr_at sw r; i = pdr_id x; d = ie_val (pdr_pdi x); si = pdi_source_interface d
      in if \<not> (present (pdr_pdi x) \<and> present si) then (v, Some (MissingPdi i))
         else let v1 = v\<lparr>pv_p := create_mapping e is_eth seid d (pv_p v)\<rparr>
         in case GetFarForPdr sw s x of
              None \<Rightarrow> (v1, Some (FarNotFound i))
            | Some f \<Rightarrow> and_then (note_eth_tunnel is_eth d f v1)
                (\<lambda>v2. case bpf_pdr_of e s x of
                    None \<Rightarrow> (v2, Some SdfTooLong)
                  | Some b \<Rightarrow> and_then (on_pipeline (store_rules e is_eth seid i (rules_of e s x f)) v2)
                      (\<lambda>v3. and_then (on_pipeline (ParseAndStoreSdfFilter e seid x (bp_qfi b)) v3)
                        (\<lambda>v4. (v4\<lparr>pv_p := launch_arp e seid (RetrieveGnbIp sw s) (ie_val si) (pv_p v4),
                                  pv_pdrs := pv_pdrs v4 @ [b]\<rparr>, None)))))"

definition set_pdu_type :: "u64 \<Rightarrow> pdu_session_type \<Rightarrow> pipeline \<Rightarrow> pipeline" where
  "set_pdu_type seid t p = p\<lparr>session_pdu_type_map := (session_pdu_type_map p)(seid \<mapsto> t)\<rparr>"

definition vars_new :: "pipeline \<Rightarrow> pipe_vars" where
  "vars_new p = \<lparr>pv_p = p, pv_pdrs = [], pv_ul_teid = 0, pv_dl_teid = 0, pv_gnb_ip = 0\<rparr>"

definition CreatePipeline ::
    "bpf_env \<Rightarrow> upf_switch \<Rightarrow> pfcp_session \<Rightarrow> pfcp_qer list \<Rightarrow> pipeline \<Rightarrow> pipeline run" where
  "CreatePipeline e sw s qers_downlink p =
     (if length (s_pdrs s) > MAX_PDRS_PER_PDU_SESSION_LIMIT then (p, Some TooManyPdrs)
      else if \<not> be_program e then (p, Some NoXdpProgram)
      else
        let seid = get_up_seid s; pdu_type = DetectPduSessionType sw s; is_eth = (pdu_type = PduEthernet);
            flags = ComputeRulesEnabledFlags e sw s
        in case until_throws (create_step e sw s is_eth) (s_pdrs s) (vars_new (set_pdu_type seid pdu_type p)) of
             (v, Some x) \<Rightarrow> (pv_p v, Some x)
           | (v, None) \<Rightarrow>
               let p1 = (if is_eth \<and> pv_ul_teid v \<noteq> 0
                         then StoreEthPduSessionInMap e (pv_ul_teid v) (pv_dl_teid v) (pv_gnb_ip v) seid (pv_p v)
                         else pv_p v)
               in and_then (store_pdrs e is_eth seid (pv_pdrs v) p1)
                    (\<lambda>p2. and_then (UpdateRulesEnabledMap seid flags p2)
                      (SetupSessionEnforcementPrograms e s qers_downlink flags)))"

section \<open>Modification\<close>

text \<open>\<open>add_unique\<close>, over a list of identifiers.\<close>

definition add_unique :: "u32 list \<Rightarrow> u32 \<Rightarrow> u32 list" where
  "add_unique teids t = (if t \<noteq> 0 \<and> t \<notin> set teids then teids @ [t] else teids)"

definition uplink_teids :: "upf_switch \<Rightarrow> nat list \<Rightarrow> u32 list" where
  "uplink_teids sw pdrs_uplink = foldl add_unique [] (map (\<lambda>r. GetUplinkTeidFromPdr (pdr_at sw r)) pdrs_uplink)"

definition downlink_teids :: "upf_switch \<Rightarrow> pfcp_session \<Rightarrow> nat list \<Rightarrow> u32 list" where
  "downlink_teids sw s pdrs_downlink =
     foldl add_unique [] (map GetDownlinkTeidFromFar (List.map_filter (\<lambda>r. GetFarForPdr sw s (pdr_at sw r)) pdrs_downlink))"

definition first_or_0 :: "u32 list \<Rightarrow> u32" where
  "first_or_0 ts = (case ts of [] \<Rightarrow> 0 | t # _ \<Rightarrow> t)"

text \<open>The mapping of an IP session moves to its present address.\<close>

definition move_mapping :: "u32 \<Rightarrow> u32 \<Rightarrow> u32 \<Rightarrow> u64 \<Rightarrow> pipeline \<Rightarrow> pipeline" where
  "move_mapping ue_ip ul dl seid p =
     (case StorePduSessionInMap ue_ip ul dl seid p of (p1, stored) \<Rightarrow>
        if stored
        then (let k = bswap32 ue_ip;
                  p2 = fold (RemoveUeIpMappingIfOwned seid) (filter (\<lambda>old. old \<noteq> k) (session_ue_ip_key_map p1 seid)) p1
              in p2\<lparr>session_ue_ip_key_map := (session_ue_ip_key_map p2)(seid := [k])\<rparr>)
        else p1)"

text \<open>The sorted lists of the session (\<open>pdrs_uplink\<close>, \<open>pdrs_downlink\<close>, \<open>qers_downlink\<close>).\<close>

record directions =
  pdrs_uplink :: "nat list"
  pdrs_downlink :: "nat list"
  qers_uplink :: "pfcp_qer list"
  qers_downlink :: "pfcp_qer list"

definition modify_mapping :: "bpf_env \<Rightarrow> upf_switch \<Rightarrow> pfcp_session \<Rightarrow> directions \<Rightarrow> bool \<Rightarrow> pipeline \<Rightarrow> pipeline" where
  "modify_mapping e sw s ds is_eth p =
     (let uls = uplink_teids sw (pdrs_uplink ds); dls = downlink_teids sw s (pdrs_downlink ds); seid = get_up_seid s
      in if uls = [] \<and> dls = [] then p
         else if is_eth then StoreEthPduSessionInMap e (first_or_0 uls) (first_or_0 dls) (RetrieveGnbIp sw s) seid p
         else move_mapping (RetrieveUeIp sw s) (first_or_0 uls) (first_or_0 dls) seid p)"

definition modify_step ::
    "bpf_env \<Rightarrow> upf_switch \<Rightarrow> pfcp_session \<Rightarrow> bool \<Rightarrow> nat \<Rightarrow> pipe_vars \<Rightarrow> pipe_vars run" where
  "modify_step e sw s is_eth r v =
     (let seid = get_up_seid s; x = pdr_at sw r; i = pdr_id x; d = ie_val (pdr_pdi x); si = pdi_source_interface d
      in case GetFarForPdr sw s x of
           None \<Rightarrow> (v, Some (FarNotFound i))
         | Some f \<Rightarrow>
             (case bpf_pdr_of e s x of
                None \<Rightarrow> (v, Some SdfTooLong)
              | Some b \<Rightarrow> and_then (on_pipeline (store_rules e is_eth seid i (rules_of e s x f)) v)
                  (\<lambda>v1. let v2 = (if present (pdr_pdi x) \<and> present si
                                  then v1\<lparr>pv_p := launch_arp e seid (RetrieveGnbIp sw s) (ie_val si) (pv_p v1)\<rparr> else v1)
                        in and_then (on_pipeline (ParseAndStoreSdfFilter e seid x (bp_qfi b)) v2)
                             (\<lambda>v3. (v3\<lparr>pv_pdrs := pv_pdrs v3 @ [b]\<rparr>, None)))))"

definition ModifyPipeline ::
    "bpf_env \<Rightarrow> upf_switch \<Rightarrow> pfcp_session \<Rightarrow> directions \<Rightarrow> pipeline \<Rightarrow> pipeline run" where
  "ModifyPipeline e sw s ds p =
     (if length (s_pdrs s) > MAX_PDRS_PER_PDU_SESSION_LIMIT then (p, Some TooManyPdrs)
      else if \<not> be_program e then (p, Some NoXdpProgram)
      else
        let seid = get_up_seid s;
            pdu_type = (case session_pdu_type_map p seid of Some t \<Rightarrow> t | None \<Rightarrow> DetectPduSessionType sw s);
            is_eth = (pdu_type = PduEthernet);
            old_pdr_qfis = GetTrackedPdrQfis e seid is_eth p;
            flags = ComputeRulesEnabledFlags e sw s
        in and_then (UpdateRulesEnabledMap seid flags (set_pdu_type seid pdu_type p))
             (\<lambda>p1. and_then (SetupSessionEnforcementPrograms e s (qers_downlink ds) flags p1)
               (\<lambda>p2. case until_throws (modify_step e sw s is_eth) (s_pdrs s) (vars_new (modify_mapping e sw s ds is_eth p2)) of
                   (v, Some x) \<Rightarrow> (pv_p v, Some x)
                 | (v, None) \<Rightarrow>
                     and_then (store_pdrs e is_eth seid (pv_pdrs v) (pv_p v))
                       (\<lambda>p3. let new_ids = map (\<lambda>r. pdr_id (pdr_at sw r)) (s_pdrs s);
                                 new_qfis = filter (\<lambda>q. q \<noteq> 0) (map bp_qfi (pv_pdrs v))
                             in (PruneStaleRuleEntries e seid is_eth
                                   (filter (\<lambda>i. i \<notin> set new_ids) (map fst old_pdr_qfis))
                                   (filter (\<lambda>q. q \<noteq> 0 \<and> q \<notin> set new_qfis) (map snd old_pdr_qfis)) p3, None)))))"

section \<open>Removal\<close>

text \<open>\<open>mar_rules_map\<close> is not a map of the program, so the MAR of the session is not removed.\<close>

definition drop_enforcement :: "bpf_env \<Rightarrow> u64 \<Rightarrow> pipeline \<Rightarrow> pipeline" where
  "drop_enforcement e seid p =
     (let p1 = (if urr_loaded e
                then p\<lparr>urr_config_map := fst (bm_remove (urr_config_map p) seid),
                       urr_volume_counters_map := fst (bm_remove (urr_volume_counters_map p) seid)\<rparr> else p)
      in if bar_loaded e
         then p1\<lparr>bar_config_map := fst (bm_remove (bar_config_map p1) seid),
                 bar_state_map := fst (bm_remove (bar_state_map p1) seid)\<rparr> else p1)"

definition drop_pdrs :: "bpf_env \<Rightarrow> bool \<Rightarrow> u64 \<Rightarrow> pipeline \<Rightarrow> pipeline" where
  "drop_pdrs e is_eth seid p =
     (if \<not> is_eth then p\<lparr>pdrs_per_session_map := fst (bm_remove (pdrs_per_session_map p) seid)\<rparr>
      else if be_eth_pipeline e then p\<lparr>eth_session_pdrs_map := fst (bm_remove (eth_session_pdrs_map p) seid)\<rparr>
      else p)"

definition drop_addresses :: "u64 \<Rightarrow> pipeline \<Rightarrow> pipeline" where
  "drop_addresses seid p =
     (let p1 = fold (RemoveUeIpMappingIfOwned seid) (session_ue_ip_key_map p seid) p
      in p1\<lparr>session_ue_ip_key_map := (session_ue_ip_key_map p1)(seid := [])\<rparr>)"

definition RemovePipeline :: "bpf_env \<Rightarrow> u64 \<Rightarrow> pipeline \<Rightarrow> pipeline" where
  "RemovePipeline e seid p =
     (let p0 = QERTCProgram_TearDown seid p;
          p4 = (if be_program e
                then let p1 = p0\<lparr>session_rules_enabled_map := fst (bm_remove (session_rules_enabled_map p0) seid)\<rparr>;
                         is_eth = (session_pdu_type_map p1 seid = Some PduEthernet);
                         p2 = drop_enforcement e seid (p1\<lparr>session_pdu_type_map := (session_pdu_type_map p1)(seid := None)\<rparr>);
                         old = GetTrackedPdrQfis e seid is_eth p2;
                         p3 = PruneStaleRuleEntries e seid is_eth (map fst old) (filter (\<lambda>q. q \<noteq> 0) (map snd old)) p2
                     in drop_addresses seid (drop_pdrs e is_eth seid p3)
                else p0)
      in p4\<lparr>session_n6_arp_cache := (session_n6_arp_cache p4)(seid := []),
            session_n3_arp_cache := (session_n3_arp_cache p4)(seid := [])\<rparr>)"

text \<open>The reset at shutdown: the manager forgets the sessions, the maps keep their entries.\<close>

definition RemoveAllSessions :: "u64 list \<Rightarrow> pipeline \<Rightarrow> pipeline" where
  "RemoveAllSessions programs p =
     (fold QERTCProgram_TearDown programs p)
       \<lparr>qer_programs_map := Map.empty, session_n6_arp_cache := (\<lambda>_. []), session_n3_arp_cache := (\<lambda>_. []),
        session_pdu_type_map := Map.empty, session_ue_ip_key_map := (\<lambda>_. [])\<rparr>"

section \<open>Address resolution\<close>

definition GetNextHopIp :: "bpf_env \<Rightarrow> u32 \<Rightarrow> u32 \<Rightarrow> u32 option" where
  "GetNextHopIp e local_ip remote_ip = (if be_same_subnet e local_ip remote_ip then Some remote_ip else be_gateway e remote_ip)"

text \<open>Both tasks file the peer's MAC under the peer's address; when a look-up or the update throws,
  nothing changes.\<close>

definition UpdateArpTable :: "bpf_env \<Rightarrow> u32 \<Rightarrow> u32 \<Rightarrow> pipeline \<Rightarrow> pipeline" where
  "UpdateArpTable e local_ip remote_ip p =
     (case GetNextHopIp e local_ip remote_ip of
        None \<Rightarrow> p
      | Some hop \<Rightarrow>
          (case be_next_hop_mac e hop of
             None \<Rightarrow> p
           | Some mac \<Rightarrow> p\<lparr>arp_table_map := fst (bm_update BPF_ANY (arp_table_map p) hop (mac, hop))\<rparr>))"

fun run_arp_task :: "bpf_env \<Rightarrow> arp_task \<Rightarrow> pipeline \<Rightarrow> pipeline" where
  "run_arp_task e (ArpN6 dn_ip) p = UpdateArpTable e (be_n6_ip e) dn_ip p"
| "run_arp_task e (ArpN3 gnb_ip seid) p = UpdateArpTable e (be_n3_ip e) gnb_ip p"

end
