(* ===== verification/SessionManager.thy ===== *)
theory SessionManager
  imports SessionPipeline PfcpHandlers
begin

text \<open>
  The registry of sessions on the BPF side (\<open>control/SessionManager.cpp\<close>) and the call that reaches it
  from the switch (\<open>pfcp_switch::call_datapath\<close>). Each call makes a copy of the session; the registry
  and the vector of sessions hold copies by reference, and a copy nothing holds any more is destroyed,
  which cleans it up. The rules themselves are shared with the switch. QERs, URRs, BARs and MARs are
  values of a copy: what a modification writes into one of them it writes into the copy.

  Functions that throw are runs. A function that takes the lock of the manager while it is held never
  returns: the result is None.
\<close>

section \<open>State\<close>

record session_copy =
  c_session :: pfcp_session
  c_directions :: directions

record manager =
  m_sessions :: "nat list"
  m_registry :: "u64 \<rightharpoonup> nat"
  m_copies :: "nat \<rightharpoonup> session_copy"
  m_next :: nat
  m_sw :: upf_switch
  m_pipe :: pipeline

text \<open>\<open>sm_sort\<close> is \<open>std::sort\<close> by a key. The others are library functions: the update methods of the two
  parameter groups of a FAR, the predefined rules an Update PDR activates and deactivates, and the value
  of a Steering Functionality that is declared and not assigned.\<close>

record sm_lib =
  sm_sort :: "(nat \<Rightarrow> u32) \<Rightarrow> nat list \<Rightarrow> nat list"
  sm_fp_update :: "forwarding_parameters \<Rightarrow> forwarding_parameters \<Rightarrow> forwarding_parameters"
  sm_dp_update :: "payload \<Rightarrow> payload \<Rightarrow> payload"
  sm_activate :: "update_pdr_ie \<Rightarrow> payload list"
  sm_deactivate :: "update_pdr_ie \<Rightarrow> payload list"
  sm_unset_steering :: u8
  sm_uids :: uids

datatype op_message =
    InvalidSessionPointer | SessionAlreadyExists | SessionCreated | SessionNotFound | SessionUpdated
  | SessionDeleted | NoPdrsInSession | NullRequest | ExceptionText failure

record operation_result =
  op_success :: bool
  op_message :: op_message
  op_seid :: u64

abbreviation succeeded :: "op_message \<Rightarrow> u64 \<Rightarrow> operation_result" where
  "succeeded m i \<equiv> \<lparr>op_success = True, op_message = m, op_seid = i\<rparr>"

abbreviation failed :: "op_message \<Rightarrow> u64 \<Rightarrow> operation_result" where
  "failed m i \<equiv> \<lparr>op_success = False, op_message = m, op_seid = i\<rparr>"

abbreviation copy_at :: "manager \<Rightarrow> nat \<Rightarrow> session_copy" where "copy_at m r \<equiv> the (m_copies m r)"
abbreviation session_at :: "manager \<Rightarrow> nat \<Rightarrow> pfcp_session" where "session_at m r \<equiv> c_session (copy_at m r)"

definition edit_session :: "nat \<Rightarrow> (pfcp_session \<Rightarrow> pfcp_session) \<Rightarrow> manager \<Rightarrow> manager" where
  "edit_session r f m = m\<lparr>m_copies := (m_copies m)(r \<mapsto> (copy_at m r)\<lparr>c_session := f (session_at m r)\<rparr>)\<rparr>"

definition set_directions :: "nat \<Rightarrow> directions \<Rightarrow> manager \<Rightarrow> manager" where
  "set_directions r ds m = m\<lparr>m_copies := (m_copies m)(r \<mapsto> (copy_at m r)\<lparr>c_directions := ds\<rparr>)\<rparr>"

section \<open>Sorting the PDRs\<close>

definition from_interface :: "interface_value \<Rightarrow> pfcp_pdr \<Rightarrow> bool" where
  "from_interface i p \<longleftrightarrow>
     present (pdr_pdi p) \<and> present (pdi_source_interface (ie_val (pdr_pdi p))) \<and>
     ie_val (pdi_source_interface (ie_val (pdr_pdi p))) = i"

definition CategorizePdrs :: "upf_switch \<Rightarrow> pfcp_session \<Rightarrow> directions" where
  "CategorizePdrs sw s =
     (let ul = filter (\<lambda>r. from_interface INTERFACE_VALUE_ACCESS (pdr_at sw r)) (s_pdrs s);
          dl = filter (\<lambda>r. from_interface INTERFACE_VALUE_CORE (pdr_at sw r)) (s_pdrs s)
      in \<lparr>pdrs_uplink = ul, pdrs_downlink = dl,
          qers_uplink = List.map_filter (\<lambda>r. GetQerForPdr s (pdr_at sw r)) ul,
          qers_downlink = List.map_filter (\<lambda>r. GetQerForPdr s (pdr_at sw r)) dl\<rparr>)"

definition precedence_at :: "upf_switch \<Rightarrow> nat \<Rightarrow> u32" where
  "precedence_at sw r = ie_val (pdr_precedence (pdr_at sw r))"

definition SortPdrs :: "sm_lib \<Rightarrow> upf_switch \<Rightarrow> nat list \<Rightarrow> nat list" where
  "SortPdrs l sw rs = sm_sort l (precedence_at sw) rs"

definition sort_directions :: "sm_lib \<Rightarrow> upf_switch \<Rightarrow> directions \<Rightarrow> directions" where
  "sort_directions l sw ds =
     ds\<lparr>pdrs_uplink := SortPdrs l sw (pdrs_uplink ds), pdrs_downlink := SortPdrs l sw (pdrs_downlink ds)\<rparr>"

definition categorize :: "nat \<Rightarrow> manager \<Rightarrow> manager" where
  "categorize r m = set_directions r (CategorizePdrs (m_sw m) (session_at m r)) m"

definition sort_lists :: "sm_lib \<Rightarrow> nat \<Rightarrow> manager \<Rightarrow> manager" where
  "sort_lists l r m = set_directions r (sort_directions l (m_sw m) (c_directions (copy_at m r))) m"

definition categorize_and_sort :: "sm_lib \<Rightarrow> nat \<Rightarrow> manager \<Rightarrow> manager" where
  "categorize_and_sort l r m = sort_lists l r (categorize r m)"

section \<open>Pipelines of a copy\<close>

definition create_pipeline :: "bpf_env \<Rightarrow> nat \<Rightarrow> manager \<Rightarrow> manager run" where
  "create_pipeline e r m =
     (case CreatePipeline e (m_sw m) (session_at m r) (qers_downlink (c_directions (copy_at m r))) (m_pipe m) of
        (p, x) \<Rightarrow> (m\<lparr>m_pipe := p\<rparr>, x))"

definition modify_pipeline :: "bpf_env \<Rightarrow> nat \<Rightarrow> manager \<Rightarrow> manager run" where
  "modify_pipeline e r m =
     (case ModifyPipeline e (m_sw m) (session_at m r) (c_directions (copy_at m r)) (m_pipe m) of
        (p, x) \<Rightarrow> (m\<lparr>m_pipe := p\<rparr>, x))"

text \<open>The destructor of a copy that neither the registry nor the vector holds.\<close>

definition destroy_copy :: "bpf_env \<Rightarrow> nat \<Rightarrow> manager \<Rightarrow> manager" where
  "destroy_copy e r m =
     (if m_copies m r = None \<or> r \<in> set (m_sessions m) \<or> m_registry m (get_up_seid (session_at m r)) = Some r then m
      else m\<lparr>m_sw := snd (cleanup (be_cfg e) (session_at m r) (m_sw m)), m_copies := (m_copies m)(r := None)\<rparr>)"

section \<open>Lifecycle\<close>

definition CreateSession :: "bpf_env \<Rightarrow> sm_lib \<Rightarrow> nat \<Rightarrow> manager \<Rightarrow> manager \<times> operation_result" where
  "CreateSession e l r m =
     (let seid = get_up_seid (session_at m r)
      in if m_registry m seid \<noteq> None then (m, failed SessionAlreadyExists seid)
         else case create_pipeline e r
                     (categorize_and_sort l r
                        (m\<lparr>m_sessions := m_sessions m @ [r], m_registry := (m_registry m)(seid \<mapsto> r)\<rparr>)) of
                (m', None) \<Rightarrow> (m', succeeded SessionCreated seid)
              | (m', Some x) \<Rightarrow> (m', failed (ExceptionText x) seid))"

definition UpdateSession :: "bpf_env \<Rightarrow> sm_lib \<Rightarrow> nat \<Rightarrow> manager \<Rightarrow> manager \<times> operation_result" where
  "UpdateSession e l r m =
     (let seid = get_up_seid (session_at m r)
      in case m_registry m seid of
           None \<Rightarrow> (m, failed SessionNotFound seid)
         | Some old \<Rightarrow>
             (let m1 = destroy_copy e old (m\<lparr>m_registry := (m_registry m)(seid \<mapsto> r)\<rparr>)
              in case modify_pipeline e r (categorize_and_sort l r m1) of
                   (m', None) \<Rightarrow> (m', succeeded SessionUpdated seid)
                 | (m', Some x) \<Rightarrow> (m', failed (ExceptionText x) seid)))"

definition DeleteSession :: "bpf_env \<Rightarrow> u64 \<Rightarrow> manager \<Rightarrow> manager \<times> operation_result" where
  "DeleteSession e seid m =
     (case m_registry m seid of
        None \<Rightarrow> (m, failed SessionNotFound seid)
      | Some r \<Rightarrow>
          (let gone = filter (\<lambda>c. get_up_seid (session_at m c) = seid) (m_sessions m);
               m1 = m\<lparr>m_pipe := RemovePipeline e seid (m_pipe m), m_registry := (m_registry m)(seid := None),
                      m_sessions := filter (\<lambda>c. get_up_seid (session_at m c) \<noteq> seid) (m_sessions m)\<rparr>
           in (fold (destroy_copy e) (gone @ [r]) m1, succeeded SessionDeleted seid)))"

definition GetSession :: "manager \<Rightarrow> u64 \<Rightarrow> nat option" where
  "GetSession m seid = m_registry m seid"

definition GetAllSessions :: "manager \<Rightarrow> nat list" where
  "GetAllSessions m = m_sessions m"

section \<open>Updates of a modification\<close>

text \<open>Each loop changes the rules it finds and counts them; the pipeline is modified once when the count
  is not 0. The second component of a step says whether a rule was found.\<close>

fun apply_updates :: "('u \<Rightarrow> manager \<Rightarrow> manager \<times> bool) \<Rightarrow> 'u list \<Rightarrow> manager \<Rightarrow> manager \<times> nat" where
  "apply_updates f [] m = (m, 0)"
| "apply_updates f (u # us) m =
     (case f u m of (m1, found) \<Rightarrow> case apply_updates f us m1 of (m2, n) \<Rightarrow> (m2, if found then Suc n else n))"

definition after_updates :: "(manager \<Rightarrow> manager run) \<Rightarrow> manager \<times> nat \<Rightarrow> manager run" where
  "after_updates f x = (if snd x > 0 then f (fst x) else (fst x, None))"

definition deactivate :: "payload \<Rightarrow> pfcp_pdr \<Rightarrow> pfcp_pdr" where
  "deactivate name p =
     (if present (pdr_activate_predefined_rules p) \<and> ie_val (pdr_activate_predefined_rules p) = name
      then p\<lparr>pdr_activate_predefined_rules := (False, name)\<rparr> else p)"

text \<open>The rule is changed in place, so the switch sees it too. CHOOSE allocates a tunnel of its own.\<close>

definition update_pdr_in_place :: "bpf_env \<Rightarrow> sm_lib \<Rightarrow> update_pdr_ie \<Rightarrow> nat \<Rightarrow> upf_switch \<Rightarrow> upf_switch" where
  "update_pdr_in_place e l u r sw =
     (let p1 = fst (pdr_update (be_cfg e) u (pdr_at sw r));
          p2 = fold (\<lambda>name p. p\<lparr>pdr_activate_predefined_rules := (True, name)\<rparr>) (sm_activate l u) p1;
          p3 = fold deactivate (sm_deactivate l u) p2;
          d = ie_val (updr_pdi u); sw1 = sw\<lparr>pdr_heap := (pdr_heap sw)(r \<mapsto> p3)\<rparr>
      in if present (updr_pdi u) \<and> present (pdi_local_fteid d) \<and> ft_ch (ie_val (pdi_local_fteid d))
         then (case generate_fteid_n3 (be_cfg e) (sm_uids l) sw1 of (f, sw2) \<Rightarrow> modify_pdr r (pdr_set_fteid f) sw2)
         else sw1)"

definition pdr_update_step :: "bpf_env \<Rightarrow> sm_lib \<Rightarrow> nat \<Rightarrow> update_pdr_ie \<Rightarrow> manager \<Rightarrow> manager \<times> bool" where
  "pdr_update_step e l r u m =
     (case (if present (updr_pdr_id u) then get_pdr (m_sw m) (session_at m r) (ie_val (updr_pdr_id u)) else None) of
        None \<Rightarrow> (m, False)
      | Some p \<Rightarrow> (m\<lparr>m_sw := update_pdr_in_place e l u p (m_sw m)\<rparr>, True))"

definition HandlePdrUpdates :: "bpf_env \<Rightarrow> sm_lib \<Rightarrow> nat \<Rightarrow> modification_request \<Rightarrow> manager \<Rightarrow> manager run" where
  "HandlePdrUpdates e l r req m =
     after_updates (\<lambda>m. modify_pipeline e r (categorize_and_sort l r m))
       (apply_updates (pdr_update_step e l r) (mr_update_pdrs req) m)"

definition far_update_step :: "sm_lib \<Rightarrow> nat \<Rightarrow> update_far_ie \<Rightarrow> manager \<Rightarrow> manager \<times> bool" where
  "far_update_step l r u m =
     (case get_far (m_sw m) (session_at m r) (ufar_far_id u) of
        None \<Rightarrow> (m, False)
      | Some f \<Rightarrow>
          (m\<lparr>m_sw := (m_sw m)\<lparr>far_heap := (far_heap (m_sw m))
               (f \<mapsto> fst (far_update (sm_fp_update l) (sm_dp_update l) u (far_at (m_sw m) f)))\<rparr>\<rparr>, True))"

definition HandleFarUpdates :: "bpf_env \<Rightarrow> sm_lib \<Rightarrow> nat \<Rightarrow> modification_request \<Rightarrow> manager \<Rightarrow> manager run" where
  "HandleFarUpdates e l r req m =
     after_updates (modify_pipeline e r) (apply_updates (far_update_step l r) (mr_update_fars req) m)"

text \<open>An update of a rule kept by value.\<close>

definition value_update_step ::
    "(pfcp_session \<Rightarrow> 'a list) \<Rightarrow> (('a list \<Rightarrow> 'a list) \<Rightarrow> pfcp_session \<Rightarrow> pfcp_session) \<Rightarrow> ('a \<Rightarrow> bool) \<Rightarrow> ('a \<Rightarrow> 'a) \<Rightarrow>
     bool \<Rightarrow> nat \<Rightarrow> manager \<Rightarrow> manager \<times> bool" where
  "value_update_step get upd P f has_id r m =
     (if has_id \<and> (\<exists>x\<in>set (get (session_at m r)). P x)
      then (edit_session r (upd (update_first P f)) m, True) else (m, False))"

definition HandleQerUpdates :: "bpf_env \<Rightarrow> nat \<Rightarrow> modification_request \<Rightarrow> manager \<Rightarrow> manager run" where
  "HandleQerUpdates e r req m =
     after_updates (\<lambda>m. modify_pipeline e r (categorize r m))
       (apply_updates
          (\<lambda>u. value_update_step s_qers s_qers_update (\<lambda>q. qer_key q = ie_val (qer_id u)) (\<lambda>q. fst (qer_update u q))
                 (present (qer_id u)) r)
          (mr_update_qers req) m)"

definition HandleUrrUpdates :: "bpf_env \<Rightarrow> nat \<Rightarrow> modification_request \<Rightarrow> manager \<Rightarrow> manager run" where
  "HandleUrrUpdates e r req m =
     after_updates (modify_pipeline e r)
       (apply_updates
          (\<lambda>u. value_update_step s_urrs s_urrs_update (\<lambda>q. urr_key q = ie_val (urr_id u)) (urr_update u) (present (urr_id u)) r)
          (mr_update_urrs req) m)"

definition HandleBarUpdates :: "bpf_env \<Rightarrow> nat \<Rightarrow> modification_request \<Rightarrow> manager \<Rightarrow> manager run" where
  "HandleBarUpdates e r req m =
     after_updates (modify_pipeline e r)
       (apply_updates
          (\<lambda>u. value_update_step s_bars s_bars_update (\<lambda>q. bar_key q = ie_val (ubar_bar_id u)) (\<lambda>b. fst (bar_update u b))
                 (present (ubar_bar_id u)) r)
          (opt_list (mr_update_bar req)) m)"

text \<open>The Steering Functionality written is the local variable, which is never read from the update.\<close>

definition mar_update_in_place :: "sm_lib \<Rightarrow> mar_ies \<Rightarrow> pfcp_mar \<Rightarrow> pfcp_mar" where
  "mar_update_in_place l u a =
     (let a1 = (if present (cmar_steering_functionality u)
                then a\<lparr>mar_steering_functionality := (True, sm_unset_steering l)\<rparr> else a);
          a2 = (if present (cmar_steering_mode u) then a1\<lparr>mar_steering_mode := (True, ie_val (cmar_steering_mode u))\<rparr> else a1);
          a3 = (if present (cmar_afai_1 u) then a2\<lparr>mar_afai_1 := (True, convert_afai (ie_val (cmar_afai_1 u)))\<rparr> else a2)
      in if present (cmar_afai_2 u) then a3\<lparr>mar_afai_2 := (True, convert_afai (ie_val (cmar_afai_2 u)))\<rparr> else a3)"

definition HandleMarUpdates :: "bpf_env \<Rightarrow> sm_lib \<Rightarrow> nat \<Rightarrow> modification_request \<Rightarrow> manager \<Rightarrow> manager run" where
  "HandleMarUpdates e l r req m =
     after_updates (modify_pipeline e r)
       (apply_updates
          (\<lambda>u. value_update_step s_mars s_mars_update (\<lambda>q. mar_key q = ie_val (cmar_mar_id u)) (mar_update_in_place l u)
                 (present (cmar_mar_id u)) r)
          (mr_update_mars req) m)"

section \<open>Removals of a modification\<close>

text \<open>A removal works on the copy that is registered, which during a modification is the previous one.
  Its exceptions are caught: the result is False, the effects stay. All entries of the id go.\<close>

abbreviation drop_all :: "('a \<Rightarrow> bool) \<Rightarrow> 'a list \<Rightarrow> 'a list" where
  "drop_all P \<equiv> filter (\<lambda>x. \<not> P x)"

definition returned :: "'s run \<Rightarrow> 's \<times> bool" where
  "returned x = (fst x, snd x = None)"

definition on_registered :: "u64 \<Rightarrow> (nat \<Rightarrow> manager \<Rightarrow> manager run) \<Rightarrow> manager \<Rightarrow> manager \<times> bool" where
  "on_registered seid f m = (case m_registry m seid of None \<Rightarrow> (m, False) | Some r \<Rightarrow> returned (f r m))"

definition RemovePdrUnlocked :: "bpf_env \<Rightarrow> sm_lib \<Rightarrow> u64 \<Rightarrow> u16 \<Rightarrow> manager \<Rightarrow> manager \<times> bool" where
  "RemovePdrUnlocked e l seid i =
     on_registered seid (\<lambda>r m.
       let P = (\<lambda>x. pdr_id (pdr_at (m_sw m) x) = i);
           m1 = edit_session r (\<lambda>s. s\<lparr>s_pdrs := drop_all P (s_pdrs s)\<rparr>) m;
           ds = c_directions (copy_at m1 r);
           m2 = set_directions r (ds\<lparr>pdrs_uplink := drop_all P (pdrs_uplink ds),
                                     pdrs_downlink := drop_all P (pdrs_downlink ds)\<rparr>) m1
       in modify_pipeline e r (sort_lists l r m2))"

definition RemoveFarUnlocked :: "bpf_env \<Rightarrow> u64 \<Rightarrow> u32 \<Rightarrow> manager \<Rightarrow> manager \<times> bool" where
  "RemoveFarUnlocked e seid i =
     on_registered seid (\<lambda>r m.
       modify_pipeline e r
         (edit_session r (\<lambda>s. s\<lparr>s_fars := drop_all (\<lambda>x. far_id (far_at (m_sw m) x) = i) (s_fars s)\<rparr>) m))"

definition RemoveQerUnlocked :: "bpf_env \<Rightarrow> u64 \<Rightarrow> u32 \<Rightarrow> manager \<Rightarrow> manager \<times> bool" where
  "RemoveQerUnlocked e seid i =
     on_registered seid (\<lambda>r m.
       let P = (\<lambda>q. qer_key q = i);
           m1 = edit_session r (\<lambda>s. s\<lparr>s_qers := drop_all P (s_qers s)\<rparr>) m;
           ds = c_directions (copy_at m1 r)
       in modify_pipeline e r
            (set_directions r (ds\<lparr>qers_uplink := drop_all P (qers_uplink ds),
                                  qers_downlink := drop_all P (qers_downlink ds)\<rparr>) m1))"

definition RemoveUrrUnlocked :: "bpf_env \<Rightarrow> u64 \<Rightarrow> u32 \<Rightarrow> manager \<Rightarrow> manager \<times> bool" where
  "RemoveUrrUnlocked e seid i =
     on_registered seid (\<lambda>r m.
       modify_pipeline e r (edit_session r (\<lambda>s. s\<lparr>s_urrs := drop_all (\<lambda>u. urr_key u = i) (s_urrs s)\<rparr>) m))"

definition RemoveBarUnlocked :: "bpf_env \<Rightarrow> u64 \<Rightarrow> u8 \<Rightarrow> manager \<Rightarrow> manager \<times> bool" where
  "RemoveBarUnlocked e seid i =
     on_registered seid (\<lambda>r m.
       modify_pipeline e r (edit_session r (\<lambda>s. s\<lparr>s_bars := drop_all (\<lambda>b. bar_key b = i) (s_bars s)\<rparr>) m))"

text \<open>\<open>RemoveMar\<close> takes the lock itself.\<close>

definition RemoveMar :: "bpf_env \<Rightarrow> u64 \<Rightarrow> u8 \<Rightarrow> manager \<Rightarrow> manager \<times> bool" where
  "RemoveMar e seid i =
     on_registered seid (\<lambda>r m.
       modify_pipeline e r (edit_session r (\<lambda>s. s\<lparr>s_mars := drop_all (\<lambda>a. mar_key a = i) (s_mars s)\<rparr>) m))"

text \<open>The loops over the ids of a request.\<close>

definition remove_each :: "('i \<Rightarrow> manager \<Rightarrow> manager \<times> bool) \<Rightarrow> 'i ie list \<Rightarrow> manager \<Rightarrow> manager" where
  "remove_each f is m = fold (\<lambda>i m. if present i then fst (f (ie_val i) m) else m) is m"

definition HandlePdrRemoval :: "bpf_env \<Rightarrow> sm_lib \<Rightarrow> u64 \<Rightarrow> modification_request \<Rightarrow> manager \<Rightarrow> manager" where
  "HandlePdrRemoval e l seid req = remove_each (RemovePdrUnlocked e l seid) (mr_remove_pdrs req)"

definition HandleFarRemoval :: "bpf_env \<Rightarrow> u64 \<Rightarrow> modification_request \<Rightarrow> manager \<Rightarrow> manager" where
  "HandleFarRemoval e seid req = remove_each (RemoveFarUnlocked e seid) (mr_remove_fars req)"

definition HandleQerRemoval :: "bpf_env \<Rightarrow> u64 \<Rightarrow> modification_request \<Rightarrow> manager \<Rightarrow> manager" where
  "HandleQerRemoval e seid req = remove_each (RemoveQerUnlocked e seid) (mr_remove_qers req)"

definition HandleUrrRemoval :: "bpf_env \<Rightarrow> u64 \<Rightarrow> modification_request \<Rightarrow> manager \<Rightarrow> manager" where
  "HandleUrrRemoval e seid req = remove_each (RemoveUrrUnlocked e seid) (mr_remove_urrs req)"

definition HandleBarRemoval :: "bpf_env \<Rightarrow> u64 \<Rightarrow> modification_request \<Rightarrow> manager \<Rightarrow> manager" where
  "HandleBarRemoval e seid req = remove_each (RemoveBarUnlocked e seid) (opt_list (mr_remove_bar req))"

text \<open>Called with the lock held: the first removal that names a MAR waits for it for ever.\<close>

definition HandleMarRemoval :: "modification_request \<Rightarrow> manager \<Rightarrow> manager option" where
  "HandleMarRemoval req m = (if \<exists>i\<in>set (mr_remove_mars req). present i then None else Some m)"

section \<open>Single rules\<close>

text \<open>The calls that add or replace one rule of the registered copy. Adding only appends; replacing writes
  over the first rule of that id, and fails without one. The lists are made anew for a PDR, sorted too,
  and for a QER, not sorted.\<close>

definition AddPdr :: "bpf_env \<Rightarrow> sm_lib \<Rightarrow> u64 \<Rightarrow> nat \<Rightarrow> manager \<Rightarrow> manager \<times> bool" where
  "AddPdr e l seid x =
     on_registered seid (\<lambda>r m.
       create_pipeline e r (categorize_and_sort l r (edit_session r (\<lambda>s. s\<lparr>s_pdrs := s_pdrs s @ [x]\<rparr>) m)))"

definition AddFar :: "bpf_env \<Rightarrow> u64 \<Rightarrow> nat \<Rightarrow> manager \<Rightarrow> manager \<times> bool" where
  "AddFar e seid x =
     on_registered seid (\<lambda>r m. create_pipeline e r (edit_session r (\<lambda>s. s\<lparr>s_fars := s_fars s @ [x]\<rparr>) m))"

definition AddQer :: "bpf_env \<Rightarrow> u64 \<Rightarrow> pfcp_qer \<Rightarrow> manager \<Rightarrow> manager \<times> bool" where
  "AddQer e seid x =
     on_registered seid (\<lambda>r m.
       create_pipeline e r (categorize r (edit_session r (\<lambda>s. s\<lparr>s_qers := s_qers s @ [x]\<rparr>) m)))"

definition AddUrr :: "bpf_env \<Rightarrow> u64 \<Rightarrow> pfcp_urr \<Rightarrow> manager \<Rightarrow> manager \<times> bool" where
  "AddUrr e seid x =
     on_registered seid (\<lambda>r m. create_pipeline e r (edit_session r (\<lambda>s. s\<lparr>s_urrs := s_urrs s @ [x]\<rparr>) m))"

definition AddBar :: "bpf_env \<Rightarrow> u64 \<Rightarrow> pfcp_bar \<Rightarrow> manager \<Rightarrow> manager \<times> bool" where
  "AddBar e seid x =
     on_registered seid (\<lambda>r m. create_pipeline e r (edit_session r (\<lambda>s. s\<lparr>s_bars := s_bars s @ [x]\<rparr>) m))"

definition AddMar :: "bpf_env \<Rightarrow> u64 \<Rightarrow> pfcp_mar \<Rightarrow> manager \<Rightarrow> manager \<times> bool" where
  "AddMar e seid x =
     on_registered seid (\<lambda>r m. create_pipeline e r (edit_session r (\<lambda>s. s\<lparr>s_mars := s_mars s @ [x]\<rparr>) m))"

definition replace_rule ::
    "(upf_switch \<Rightarrow> 'a \<Rightarrow> bool) \<Rightarrow> 'a \<Rightarrow> (pfcp_session \<Rightarrow> 'a list) \<Rightarrow>
     (('a list \<Rightarrow> 'a list) \<Rightarrow> pfcp_session \<Rightarrow> pfcp_session) \<Rightarrow> (nat \<Rightarrow> manager \<Rightarrow> manager run) \<Rightarrow>
     u64 \<Rightarrow> manager \<Rightarrow> manager \<times> bool" where
  "replace_rule P x get upd f seid m =
     (case m_registry m seid of
        None \<Rightarrow> (m, False)
      | Some r \<Rightarrow>
          if \<exists>y\<in>set (get (session_at m r)). P (m_sw m) y
          then returned (f r (edit_session r (upd (update_first (P (m_sw m)) (\<lambda>_. x))) m))
          else (m, False))"

definition UpdatePdr :: "bpf_env \<Rightarrow> sm_lib \<Rightarrow> u64 \<Rightarrow> nat \<Rightarrow> manager \<Rightarrow> manager \<times> bool" where
  "UpdatePdr e l seid x =
     replace_rule (\<lambda>sw y. pdr_id (pdr_at sw y) = pdr_id (pdr_at sw x)) x s_pdrs s_pdrs_update
       (\<lambda>r m. modify_pipeline e r (categorize_and_sort l r m)) seid"

definition UpdateFar :: "bpf_env \<Rightarrow> u64 \<Rightarrow> nat \<Rightarrow> manager \<Rightarrow> manager \<times> bool" where
  "UpdateFar e seid x =
     replace_rule (\<lambda>sw y. far_id (far_at sw y) = far_id (far_at sw x)) x s_fars s_fars_update (modify_pipeline e) seid"

definition UpdateQer :: "bpf_env \<Rightarrow> u64 \<Rightarrow> pfcp_qer \<Rightarrow> manager \<Rightarrow> manager \<times> bool" where
  "UpdateQer e seid x =
     replace_rule (\<lambda>_ y. qer_key y = qer_key x) x s_qers s_qers_update
       (\<lambda>r m. modify_pipeline e r (categorize r m)) seid"

definition UpdateUrr :: "bpf_env \<Rightarrow> u64 \<Rightarrow> pfcp_urr \<Rightarrow> manager \<Rightarrow> manager \<times> bool" where
  "UpdateUrr e seid x =
     replace_rule (\<lambda>_ y. urr_key y = urr_key x) x s_urrs s_urrs_update (modify_pipeline e) seid"

definition UpdateBar :: "bpf_env \<Rightarrow> u64 \<Rightarrow> pfcp_bar \<Rightarrow> manager \<Rightarrow> manager \<times> bool" where
  "UpdateBar e seid x =
     replace_rule (\<lambda>_ y. bar_key y = bar_key x) x s_bars s_bars_update (modify_pipeline e) seid"

definition UpdateMar :: "bpf_env \<Rightarrow> u64 \<Rightarrow> pfcp_mar \<Rightarrow> manager \<Rightarrow> manager \<times> bool" where
  "UpdateMar e seid x =
     replace_rule (\<lambda>_ y. mar_key y = mar_key x) x s_mars s_mars_update (modify_pipeline e) seid"

section \<open>The N4 operations\<close>

definition EstablishSession :: "bpf_env \<Rightarrow> sm_lib \<Rightarrow> nat \<Rightarrow> manager \<Rightarrow> manager \<times> operation_result" where
  "EstablishSession e l r m =
     (if s_pdrs (session_at m r) = [] then (m, failed NoPdrsInSession (get_up_seid (session_at m r)))
      else CreateSession e l r m)"

definition handle_updates :: "bpf_env \<Rightarrow> sm_lib \<Rightarrow> nat \<Rightarrow> modification_request \<Rightarrow> manager \<Rightarrow> manager run" where
  "handle_updates e l r req m =
     until_throws (\<lambda>h. h) [HandlePdrUpdates e l r req, HandleFarUpdates e l r req, HandleQerUpdates e r req,
       HandleUrrUpdates e r req, HandleBarUpdates e r req, HandleMarUpdates e l r req] m"

definition handle_removals :: "bpf_env \<Rightarrow> sm_lib \<Rightarrow> u64 \<Rightarrow> modification_request \<Rightarrow> manager \<Rightarrow> manager option" where
  "handle_removals e l seid req m =
     HandleMarRemoval req
       (HandleBarRemoval e seid req (HandleUrrRemoval e seid req (HandleQerRemoval e seid req
         (HandleFarRemoval e seid req (HandlePdrRemoval e l seid req m)))))"

definition ModifySession ::
    "bpf_env \<Rightarrow> sm_lib \<Rightarrow> nat \<Rightarrow> modification_request \<Rightarrow> manager \<Rightarrow> (manager \<times> operation_result) option" where
  "ModifySession e l r req m =
     (let seid = get_up_seid (session_at m r)
      in if m_registry m seid = None then Some (m, failed SessionNotFound seid)
         else case handle_updates e l r req m of
                (m1, Some x) \<Rightarrow> Some (m1, failed (ExceptionText x) seid)
              | (m1, None) \<Rightarrow> map_option (UpdateSession e l r) (handle_removals e l seid req m1))"

definition RemoveSession :: "bpf_env \<Rightarrow> nat \<Rightarrow> manager \<Rightarrow> manager \<times> operation_result" where
  "RemoveSession e r m = DeleteSession e (get_up_seid (session_at m r)) m"

section \<open>The call from the switch\<close>

text \<open>The copy constructor: the far view is published anew, the tunnels chosen, the counters and the lists
  of the manager are those of a new session.\<close>

definition copy_session :: "pfcp_session \<Rightarrow> u64 \<Rightarrow> session_copy" where
  "copy_session s now =
     \<lparr>c_session = publish_fars ((session_new (s_cp_fseid s) (s_seid s) now)
        \<lparr>s_pdrs := s_pdrs s, s_fars := s_fars s, s_qers := s_qers s, s_urrs := s_urrs s, s_bars := s_bars s,
         s_mars := s_mars s, s_teid_uplink := s_teid_uplink s, s_qos_session_ul := s_qos_session_ul s,
         s_qos_session_dl := s_qos_session_dl s, s_pdn_type := s_pdn_type s\<rparr>),
      c_directions = \<lparr>pdrs_uplink = [], pdrs_downlink = [], qers_uplink = [], qers_downlink = []\<rparr>\<rparr>"

definition new_copy :: "pfcp_session \<Rightarrow> u64 \<Rightarrow> manager \<Rightarrow> manager" where
  "new_copy s now m = m\<lparr>m_copies := (m_copies m)(m_next m \<mapsto> copy_session s now), m_next := Suc (m_next m)\<rparr>"

datatype crud = CrudEstablish | CrudModify modification_request | CrudRemove

definition run_crud :: "bpf_env \<Rightarrow> sm_lib \<Rightarrow> crud \<Rightarrow> nat \<Rightarrow> manager \<Rightarrow> (manager \<times> operation_result) option" where
  "run_crud e l c r m =
     (case c of CrudEstablish \<Rightarrow> Some (EstablishSession e l r m)
      | CrudModify req \<Rightarrow> ModifySession e l r req m
      | CrudRemove \<Rightarrow> Some (RemoveSession e r m))"

text \<open>The copy of the call is destroyed unless the manager kept it. A failure is only logged.\<close>

definition call_datapath :: "bpf_env \<Rightarrow> sm_lib \<Rightarrow> u64 \<Rightarrow> pfcp_session \<Rightarrow> crud \<Rightarrow> manager \<Rightarrow> manager option" where
  "call_datapath e l now s c m =
     map_option (\<lambda>x. destroy_copy e (m_next m) (fst x)) (run_crud e l c (m_next m) (new_copy s now m))"

end
