(* ===== verification/PipelineProps.thy ===== *)
theory PipelineProps
  imports SessionPipeline
begin

text \<open>
  What the calls of the BPF side keep, whether they return or throw: the entries of the other sessions,
  the record of the addresses that lead to a session. Each of these is a predicate on the pipeline
  that every step of a call keeps; \<open>and_then_keeps\<close> and \<open>until_throws_keeps\<close> carry it over the call.
\<close>

section \<open>Updates of one map\<close>

lemma fst_put: "fst (put get upd f k v p) = upd (fst (bm_update f (get p) k v)) p"
  by (simp add: put_def split: prod.splits)

lemma snd_put: "snd (put get upd f k v p) = (if bm_refuses f (get p) k then Some BpfUpdateFailed else None)"
  by (simp add: put_def bm_update_def)

lemma put_None:
  "put get upd f k v p = (p', None) \<longleftrightarrow>
     \<not> bm_refuses f (get p) k \<and> p' = upd (fst (bm_update f (get p) k v)) p"
  using fst_put [of get upd f k v p] snd_put [of get upd f k v p]
  by (cases "put get upd f k v p") auto

lemma bm_update_accepted:
  "\<not> bm_refuses f m k \<Longrightarrow> bm_lookup (fst (bm_update f m k v)) = (bm_lookup m)(k \<mapsto> v)"
  by (simp add: bm_lookup_update)

lemma fst_on_pipeline: "pv_p (fst (on_pipeline f v)) = fst (f (pv_p v))"
  by (simp add: on_pipeline_def split: prod.splits)

section \<open>Other sessions\<close>

text \<open>Every entry keyed by the session \<open>t\<close> is the same in both states.\<close>

definition same_session :: "u64 \<Rightarrow> pipeline \<Rightarrow> pipeline \<Rightarrow> bool" where
  "same_session t p p' \<longleftrightarrow>
     (\<forall>i. bm_lookup (rules_match_pdr_map p') (i, t) = bm_lookup (rules_match_pdr_map p) (i, t)) \<and>
     (\<forall>i. bm_lookup (eth_rules_match_pdr_map p') (i, t) = bm_lookup (eth_rules_match_pdr_map p) (i, t)) \<and>
     (\<forall>q. bm_lookup (sdf_filters_map p') (q, t) = bm_lookup (sdf_filters_map p) (q, t)) \<and>
     bm_lookup (pdrs_per_session_map p') t = bm_lookup (pdrs_per_session_map p) t \<and>
     bm_lookup (eth_session_pdrs_map p') t = bm_lookup (eth_session_pdrs_map p) t \<and>
     bm_lookup (session_rules_enabled_map p') t = bm_lookup (session_rules_enabled_map p) t \<and>
     bm_lookup (urr_config_map p') t = bm_lookup (urr_config_map p) t \<and>
     bm_lookup (urr_volume_counters_map p') t = bm_lookup (urr_volume_counters_map p) t \<and>
     bm_lookup (bar_config_map p') t = bm_lookup (bar_config_map p) t \<and>
     bm_lookup (bar_state_map p') t = bm_lookup (bar_state_map p) t \<and>
     bm_lookup (mar_config_map p') t = bm_lookup (mar_config_map p) t \<and>
     session_pdu_type_map p' t = session_pdu_type_map p t \<and>
     session_ue_ip_key_map p' t = session_ue_ip_key_map p t \<and>
     qer_programs_map p' t = qer_programs_map p t"

lemma same_session_refl [simp]: "same_session t p p"
  by (simp add: same_session_def)

lemma same_session_trans: "same_session t p p' \<Longrightarrow> same_session t p' p'' \<Longrightarrow> same_session t p p''"
  by (simp add: same_session_def)

text \<open>A step that keeps the entries of \<open>t\<close> keeps what they were in an earlier state.\<close>

lemma same_session_step: "same_session t p0 p \<Longrightarrow> (\<And>q. same_session t q (f q)) \<Longrightarrow> same_session t p0 (f p)"
  by (blast intro: same_session_trans)

lemma same_session_fold: "(\<And>x q. same_session t q (f x q)) \<Longrightarrow> same_session t p (fold f xs p)"
  by (induction xs arbitrary: p) (auto intro: same_session_trans)

named_theorems other_sessions \<open>steps that keep the entries of other sessions\<close>

lemma put_other_session:
  "(\<And>m q. (\<And>k'. k' \<noteq> k \<Longrightarrow> bm_lookup m k' = bm_lookup (get q) k') \<Longrightarrow> same_session t q (upd m q)) \<Longrightarrow>
   same_session t p (fst (put get upd f k v p))"
  by (simp add: fst_put bm_update_other)

lemma store_rules_other [other_sessions]:
  "t \<noteq> seid \<Longrightarrow> same_session t p (fst (store_rules e is_eth seid i rules p))"
  unfolding store_rules_def by (auto simp: fst_put same_session_def bm_simps)

lemma store_pdrs_other [other_sessions]: "t \<noteq> seid \<Longrightarrow> same_session t p (fst (store_pdrs e is_eth seid bs p))"
  unfolding store_pdrs_def Let_def by (auto simp: fst_put same_session_def bm_simps)

lemma ParseAndStoreSdfFilter_other [other_sessions]:
  "t \<noteq> seid \<Longrightarrow> same_session t p (fst (ParseAndStoreSdfFilter e seid x q p))"
  unfolding ParseAndStoreSdfFilter_def Let_def
  by (auto simp: fst_put same_session_def bm_simps split: option.splits)

lemma UpdateRulesEnabledMap_other [other_sessions]:
  "t \<noteq> seid \<Longrightarrow> same_session t p (fst (UpdateRulesEnabledMap seid flags p))"
  unfolding UpdateRulesEnabledMap_def by (auto simp: fst_put same_session_def bm_simps)

lemma launch_arp_other [other_sessions]: "same_session t p (launch_arp e seid gnb si p)"
  by (simp add: launch_arp_def same_session_def)

lemma StorePduSessionInMap_other [other_sessions]:
  "t \<noteq> seid \<Longrightarrow> same_session t p (fst (StorePduSessionInMap ue ul dl seid p))"
  by (auto simp: StorePduSessionInMap_def Let_def same_session_def split: prod.splits)

lemma StoreEthPduSessionInMap_other [other_sessions]: "same_session t p (StoreEthPduSessionInMap e ul dl gnb seid p)"
  by (simp add: StoreEthPduSessionInMap_def same_session_def)

lemma RemoveUeIpMappingIfOwned_other [other_sessions]: "same_session t p (RemoveUeIpMappingIfOwned seid k p)"
  by (auto simp: RemoveUeIpMappingIfOwned_def same_session_def split: option.splits)

lemma create_mapping_other [other_sessions]: "t \<noteq> seid \<Longrightarrow> same_session t p (create_mapping e is_eth seid d p)"
  by (simp add: create_mapping_def Let_def other_sessions)

lemma set_pdu_type_other [other_sessions]: "t \<noteq> seid \<Longrightarrow> same_session t p (set_pdu_type seid ty p)"
  by (simp add: set_pdu_type_def same_session_def)

lemma QERTCProgram_Setup_other [other_sessions]:
  "t \<noteq> seid \<Longrightarrow> same_session t p (fst (QERTCProgram_Setup e seid qs p))"
  by (simp add: QERTCProgram_Setup_def Let_def same_session_def)

lemma QERTCProgram_TearDown_other [other_sessions]: "t \<noteq> seid \<Longrightarrow> same_session t p (QERTCProgram_TearDown seid p)"
  by (auto simp: QERTCProgram_TearDown_def same_session_def split: option.splits)

lemma urr_setup_other [other_sessions]: "t \<noteq> seid \<Longrightarrow> same_session t p (fst (urr_setup e seid u p))"
  unfolding urr_setup_def
  by (rule and_then_keeps) (auto simp: fst_put same_session_def bm_simps)

lemma bar_setup_other [other_sessions]: "t \<noteq> seid \<Longrightarrow> same_session t p (fst (bar_setup seid b p))"
  unfolding bar_setup_def
  by (rule and_then_keeps) (auto simp: fst_put same_session_def bm_simps)

lemma mar_setup_other [other_sessions]: "t \<noteq> seid \<Longrightarrow> same_session t p (fst (mar_setup seid a p))"
  unfolding mar_setup_def by (auto simp: fst_put same_session_def bm_simps)

lemma drop_rules_other [other_sessions]: "t \<noteq> seid \<Longrightarrow> same_session t p (drop_rules e is_eth seid i p)"
  by (simp add: drop_rules_def same_session_def bm_simps)

lemma drop_sdf_other [other_sessions]: "t \<noteq> seid \<Longrightarrow> same_session t p (drop_sdf seid q p)"
  by (simp add: drop_sdf_def same_session_def bm_simps)

lemma drop_enforcement_other [other_sessions]: "t \<noteq> seid \<Longrightarrow> same_session t p (drop_enforcement e seid p)"
  by (simp add: drop_enforcement_def Let_def same_session_def bm_simps)

lemma drop_pdrs_other [other_sessions]: "t \<noteq> seid \<Longrightarrow> same_session t p (drop_pdrs e is_eth seid p)"
  by (simp add: drop_pdrs_def same_session_def bm_simps)

lemma owned_fold_other: "same_session t p (fold (RemoveUeIpMappingIfOwned seid) ks p)"
  by (rule same_session_fold) (rule RemoveUeIpMappingIfOwned_other)

lemma same_session_keys:
  "t \<noteq> seid \<Longrightarrow>
     same_session t p (q\<lparr>session_ue_ip_key_map := (session_ue_ip_key_map q)(seid := ks)\<rparr>) \<longleftrightarrow> same_session t p q"
  by (simp add: same_session_def)

lemma drop_addresses_other [other_sessions]: "t \<noteq> seid \<Longrightarrow> same_session t p (drop_addresses seid p)"
  by (simp add: drop_addresses_def Let_def same_session_keys owned_fold_other)

lemma move_mapping_other [other_sessions]: "t \<noteq> seid \<Longrightarrow> same_session t p (move_mapping ue ul dl seid p)"
  using StorePduSessionInMap_other [of t seid p ue ul dl]
  by (auto simp: move_mapping_def Let_def same_session_keys split: prod.splits
      intro: same_session_trans owned_fold_other)

lemma modify_mapping_other [other_sessions]:
  "t \<noteq> get_up_seid s \<Longrightarrow> same_session t p (modify_mapping e sw s ds is_eth p)"
  by (simp add: modify_mapping_def Let_def other_sessions)

section \<open>Branches of a call\<close>

lemma if_keeps: "(c \<Longrightarrow> P (fst a)) \<Longrightarrow> (\<not> c \<Longrightarrow> P (fst b)) \<Longrightarrow> P (fst (if c then a else b))"
  by simp

lemma option_keeps:
  "(x = None \<Longrightarrow> P (fst a)) \<Longrightarrow> (\<And>y. x = Some y \<Longrightarrow> P (fst (f y))) \<Longrightarrow>
   P (fst (case x of None \<Rightarrow> a | Some y \<Rightarrow> f y))"
  by (cases x) simp_all

lemma run_case_keeps:
  "(\<And>v. r = (v, None) \<Longrightarrow> P (fst (f v))) \<Longrightarrow> (\<And>v x. r = (v, Some x) \<Longrightarrow> P (fst (g v x))) \<Longrightarrow>
   P (fst (case r of (v, None) \<Rightarrow> f v | (v, Some x) \<Rightarrow> g v x))"
  by (auto split: prod.splits option.splits)

section \<open>What every step of a call keeps\<close>

text \<open>A predicate that the steps taken for one session keep is kept by the calls for it.\<close>

locale kept_by_steps =
  fixes e :: bpf_env and P :: "pipeline \<Rightarrow> bool" and seid :: u64
  assumes typed: "P p \<Longrightarrow> P (set_pdu_type seid ty p)"
    and untyped: "P p \<Longrightarrow> P (p\<lparr>session_pdu_type_map := (session_pdu_type_map p)(seid := None)\<rparr>)"
    and flagged: "P p \<Longrightarrow> P (fst (UpdateRulesEnabledMap seid flags p))"
    and unflagged: "P p \<Longrightarrow> P (p\<lparr>session_rules_enabled_map := fst (bm_remove (session_rules_enabled_map p) seid)\<rparr>)"
    and shaped: "P p \<Longrightarrow> P (fst (QERTCProgram_Setup e seid qs p))"
    and unshaped: "P p \<Longrightarrow> P (QERTCProgram_TearDown seid p)"
    and urr: "P p \<Longrightarrow> urr_loaded e \<Longrightarrow> P (fst (urr_setup e seid u p))"
    and bar: "P p \<Longrightarrow> bar_loaded e \<Longrightarrow> P (fst (bar_setup seid b p))"
    and mar: "P p \<Longrightarrow> mar_loaded e \<Longrightarrow> P (fst (mar_setup seid a p))"
    and mapped: "P p \<Longrightarrow> P (create_mapping e is_eth seid d p)"
    and mapped_eth: "P p \<Longrightarrow> P (StoreEthPduSessionInMap e ul dl gnb seid p)"
    and moved: "P p \<Longrightarrow> P (move_mapping ue ul dl seid p)"
    and ruled: "P p \<Longrightarrow> P (fst (store_rules e is_eth seid i rules p))"
    and unruled: "P p \<Longrightarrow> P (drop_rules e is_eth seid i p)"
    and filtered: "P p \<Longrightarrow> P (fst (ParseAndStoreSdfFilter e seid x q p))"
    and unfiltered: "P p \<Longrightarrow> P (drop_sdf seid q p)"
    and recorded: "P p \<Longrightarrow> P (fst (store_pdrs e is_eth seid bs p))"
    and unrecorded: "P p \<Longrightarrow> P (drop_pdrs e is_eth seid p)"
    and resolved: "P p \<Longrightarrow> P (launch_arp e seid gnb si p)"
    and unenforced: "P p \<Longrightarrow> P (drop_enforcement e seid p)"
    and unmapped: "P p \<Longrightarrow> P (drop_addresses seid p)"
    and forgotten: "P p \<Longrightarrow> P (p\<lparr>session_n6_arp_cache := (session_n6_arp_cache p)(seid := []),
                                  session_n3_arp_cache := (session_n3_arp_cache p)(seid := [])\<rparr>)"
begin

lemmas run_keeps = and_then_keeps [where P = P] if_keeps [where P = P] option_keeps [where P = P] run_case_keeps [where P = P]
lemmas step_keeps = and_then_keeps [where P = "\<lambda>v. P (pv_p v)"] if_keeps [where P = "\<lambda>v. P (pv_p v)"]
  option_keeps [where P = "\<lambda>v. P (pv_p v)"]

lemma enforce_keeps: "P p \<Longrightarrow> (\<And>x p. on \<Longrightarrow> P p \<Longrightarrow> P (fst (f x p))) \<Longrightarrow> P (fst (enforce on f xs p))"
  by (auto simp: enforce_def intro: until_throws_keeps)

lemma enforcement_keeps:
  assumes "P p" and "get_up_seid s = seid"
  shows "P (fst (SetupSessionEnforcementPrograms e s qs flags p))"
  unfolding SetupSessionEnforcementPrograms_def Let_def assms(2)
  by (intro run_keeps enforce_keeps) (simp_all add: assms(1) shaped unshaped urr bar mar)

lemma note_eth_tunnel_pipeline [simp]: "pv_p (fst (note_eth_tunnel is_eth d f v)) = pv_p v"
  by (simp add: note_eth_tunnel_def Let_def split: option.splits)

lemma create_step_keeps:
  assumes "P (pv_p v)" and s: "get_up_seid s = seid"
  shows "P (pv_p (fst (create_step e sw s is_eth r v)))"
  unfolding create_step_def Let_def s
  by (intro step_keeps) (simp_all add: assms(1) mapped ruled filtered resolved fst_on_pipeline)

lemma create_keeps:
  assumes "P p" and s: "get_up_seid s = seid"
  shows "P (fst (CreatePipeline e sw s qs p))"
proof -
  have loop: "P (pv_p v')"
    if "until_throws (create_step e sw s is_eth) (s_pdrs s) v = (v', x)" and "P (pv_p v)" for v v' x is_eth
    using until_throws_keeps [where P = "\<lambda>v. P (pv_p v)" and f = "create_step e sw s is_eth" and xs = "s_pdrs s", OF that(2)]
    by (simp add: that(1) create_step_keeps s)
  show ?thesis
    unfolding CreatePipeline_def Let_def s
    by (intro run_keeps) (auto simp: assms vars_new_def typed recorded flagged enforcement_keeps mapped_eth dest: loop)
qed

lemma mapping_keeps: "P p \<Longrightarrow> get_up_seid s = seid \<Longrightarrow> P (modify_mapping e sw s ds is_eth p)"
  by (simp add: modify_mapping_def Let_def mapped_eth moved)

lemma modify_step_keeps:
  assumes "P (pv_p v)" and s: "get_up_seid s = seid"
  shows "P (pv_p (fst (modify_step e sw s is_eth r v)))"
  unfolding modify_step_def Let_def s
  by (intro step_keeps) (simp_all add: assms(1) ruled filtered resolved fst_on_pipeline)

lemma prune_keeps: "P p \<Longrightarrow> P (PruneStaleRuleEntries e seid is_eth ids qs p)"
proof -
  have "P (fold (drop_rules e is_eth seid) ids p)" if "P p" for ids p
    using that by (induction ids arbitrary: p) (auto simp: unruled)
  moreover have "P (fold (drop_sdf seid) qs p)" if "P p" for qs p
    using that by (induction qs arbitrary: p) (auto simp: unfiltered)
  ultimately show "P p \<Longrightarrow> ?thesis" by (simp add: PruneStaleRuleEntries_def)
qed

lemma modify_keeps:
  assumes "P p" and s: "get_up_seid s = seid"
  shows "P (fst (ModifyPipeline e sw s ds p))"
proof -
  have loop: "P (pv_p v')" if "until_throws (modify_step e sw s is_eth) (s_pdrs s) v = (v', x)" and "P (pv_p v)" for v v' x is_eth
    using until_throws_keeps [where P = "\<lambda>v. P (pv_p v)" and f = "modify_step e sw s is_eth" and xs = "s_pdrs s", OF that(2)]
    by (simp add: that(1) modify_step_keeps s)
  show ?thesis
    unfolding ModifyPipeline_def Let_def s
    by (intro run_keeps)
      (auto simp: assms vars_new_def typed recorded flagged enforcement_keeps mapping_keeps prune_keeps dest: loop)
qed

lemma remove_keeps: "P p \<Longrightarrow> P (RemovePipeline e seid p)"
  unfolding RemovePipeline_def Let_def
  by (rule forgotten) (simp only: unmapped unrecorded prune_keeps unenforced untyped unflagged unshaped simp_thms split: if_split)

end

interpretation others: kept_by_steps e "\<lambda>q. t \<noteq> seid \<longrightarrow> same_session t p q" seid for e t seid p
proof
  have step: "t \<noteq> seid \<longrightarrow> same_session t p (f q)"
    if "t \<noteq> seid \<longrightarrow> same_session t p q" and "t \<noteq> seid \<Longrightarrow> same_session t q (f q)"
    for f :: "pipeline \<Rightarrow> pipeline" and q
    using that by (blast intro: same_session_trans)
  fix q assume q: "t \<noteq> seid \<longrightarrow> same_session t p q"
  show "t \<noteq> seid \<longrightarrow> same_session t p (set_pdu_type seid ty q)" for ty
    by (rule step [OF q]) (rule set_pdu_type_other)
  show "t \<noteq> seid \<longrightarrow> same_session t p (q\<lparr>session_pdu_type_map := (session_pdu_type_map q)(seid := None)\<rparr>)"
    by (rule step [OF q]) (simp add: same_session_def)
  show "t \<noteq> seid \<longrightarrow> same_session t p (q\<lparr>session_rules_enabled_map := fst (bm_remove (session_rules_enabled_map q) seid)\<rparr>)"
    by (rule step [OF q]) (simp add: same_session_def bm_simps)
  show "t \<noteq> seid \<longrightarrow> same_session t p (q\<lparr>session_n6_arp_cache := (session_n6_arp_cache q)(seid := []),
          session_n3_arp_cache := (session_n3_arp_cache q)(seid := [])\<rparr>)"
    by (rule step [OF q]) (simp add: same_session_def)
  show "t \<noteq> seid \<longrightarrow> same_session t p (fst (UpdateRulesEnabledMap seid flags q))" for flags
    by (rule step [OF q]) (rule UpdateRulesEnabledMap_other)
  show "t \<noteq> seid \<longrightarrow> same_session t p (fst (QERTCProgram_Setup e seid qs q))" for qs
    by (rule step [OF q]) (rule QERTCProgram_Setup_other)
  show "t \<noteq> seid \<longrightarrow> same_session t p (QERTCProgram_TearDown seid q)"
    by (rule step [OF q]) (rule QERTCProgram_TearDown_other)
  show "t \<noteq> seid \<longrightarrow> same_session t p (fst (urr_setup e seid u q))" for u
    by (rule step [OF q]) (rule urr_setup_other)
  show "t \<noteq> seid \<longrightarrow> same_session t p (fst (bar_setup seid b q))" for b
    by (rule step [OF q]) (rule bar_setup_other)
  show "t \<noteq> seid \<longrightarrow> same_session t p (fst (mar_setup seid a q))" for a
    by (rule step [OF q]) (rule mar_setup_other)
  show "t \<noteq> seid \<longrightarrow> same_session t p (create_mapping e is_eth seid d q)" for is_eth d
    by (rule step [OF q]) (rule create_mapping_other)
  show "t \<noteq> seid \<longrightarrow> same_session t p (StoreEthPduSessionInMap e ul dl gnb seid q)" for ul dl gnb
    by (rule step [OF q]) (rule StoreEthPduSessionInMap_other)
  show "t \<noteq> seid \<longrightarrow> same_session t p (move_mapping ue ul dl seid q)" for ue ul dl
    by (rule step [OF q]) (rule move_mapping_other)
  show "t \<noteq> seid \<longrightarrow> same_session t p (fst (store_rules e is_eth seid i rules q))" for is_eth i rules
    by (rule step [OF q]) (rule store_rules_other)
  show "t \<noteq> seid \<longrightarrow> same_session t p (drop_rules e is_eth seid i q)" for is_eth i
    by (rule step [OF q]) (rule drop_rules_other)
  show "t \<noteq> seid \<longrightarrow> same_session t p (fst (ParseAndStoreSdfFilter e seid x qf q))" for x qf
    by (rule step [OF q]) (rule ParseAndStoreSdfFilter_other)
  show "t \<noteq> seid \<longrightarrow> same_session t p (drop_sdf seid qf q)" for qf
    by (rule step [OF q]) (rule drop_sdf_other)
  show "t \<noteq> seid \<longrightarrow> same_session t p (fst (store_pdrs e is_eth seid bs q))" for is_eth bs
    by (rule step [OF q]) (rule store_pdrs_other)
  show "t \<noteq> seid \<longrightarrow> same_session t p (drop_pdrs e is_eth seid q)" for is_eth
    by (rule step [OF q]) (rule drop_pdrs_other)
  show "t \<noteq> seid \<longrightarrow> same_session t p (launch_arp e seid gnb si q)" for gnb si
    by (rule step [OF q]) (rule launch_arp_other)
  show "t \<noteq> seid \<longrightarrow> same_session t p (drop_enforcement e seid q)"
    by (rule step [OF q]) (rule drop_enforcement_other)
  show "t \<noteq> seid \<longrightarrow> same_session t p (drop_addresses seid q)"
    by (rule step [OF q]) (rule drop_addresses_other)
qed

section \<open>The addresses of a session\<close>

text \<open>Every address that leads to a session is recorded for it.\<close>

definition addresses_recorded :: "pipeline \<Rightarrow> bool" where
  "addresses_recorded p \<longleftrightarrow>
     (\<forall>k s. bm_lookup (session_by_ue_ip_map p) k = Some s \<longrightarrow> k \<in> set (session_ue_ip_key_map p (si_seid s)))"

lemma si_seid_session_entry [simp]: "si_seid (session_entry old ul dl seid) = seid"
  by (simp add: session_entry_def Let_def split: option.splits)

lemma addresses_unchanged:
  "session_by_ue_ip_map q = session_by_ue_ip_map p \<Longrightarrow> session_ue_ip_key_map q = session_ue_ip_key_map p \<Longrightarrow>
   addresses_recorded p \<Longrightarrow> addresses_recorded q"
  by (simp add: addresses_recorded_def)

lemma owned_lookup:
  "bm_lookup (session_by_ue_ip_map (fold (RemoveUeIpMappingIfOwned seid) ks p)) k =
     (case bm_lookup (session_by_ue_ip_map p) k of
        None \<Rightarrow> None | Some s \<Rightarrow> if si_seid s = seid \<and> k \<in> set ks then None else Some s)"
  by (induction ks arbitrary: p) (auto simp: RemoveUeIpMappingIfOwned_def bm_simps split: option.splits)

lemma owned_keys [simp]:
  "session_ue_ip_key_map (fold (RemoveUeIpMappingIfOwned seid) ks p) = session_ue_ip_key_map p"
  by (induction ks arbitrary: p) (auto simp: RemoveUeIpMappingIfOwned_def split: option.splits)

lemma StorePduSessionInMap_recorded:
  "addresses_recorded p \<Longrightarrow> addresses_recorded (fst (StorePduSessionInMap ue ul dl seid p))"
  by (auto simp: StorePduSessionInMap_def Let_def addresses_recorded_def bm_update_def bm_lookup_def update_conv'
      split: if_splits)

lemma snd_StorePduSessionInMap:
  "snd (StorePduSessionInMap ue ul dl seid p) \<Longrightarrow>
     bswap32 ue \<in> set (session_ue_ip_key_map (fst (StorePduSessionInMap ue ul dl seid p)) seid)"
  by (auto simp: StorePduSessionInMap_def Let_def split: prod.splits if_splits)

text \<open>Removing all recorded addresses of a session but some, and recording those.\<close>

lemma forget_addresses:
  assumes "addresses_recorded p"
  shows "addresses_recorded
     ((fold (RemoveUeIpMappingIfOwned seid) (filter (\<lambda>k. k \<notin> set ks) (session_ue_ip_key_map p seid)) p)
        \<lparr>session_ue_ip_key_map := (session_ue_ip_key_map p)(seid := ks)\<rparr>)"
  using assms by (auto simp: addresses_recorded_def owned_lookup split: option.splits if_splits)

lemma move_mapping_recorded: "addresses_recorded p \<Longrightarrow> addresses_recorded (move_mapping ue ul dl seid p)"
  using StorePduSessionInMap_recorded [of p ue ul dl seid]
    forget_addresses [where p = "fst (StorePduSessionInMap ue ul dl seid p)" and seid = seid and ks = "[bswap32 ue]"]
  by (auto simp: move_mapping_def Let_def split: prod.splits)

lemma drop_addresses_recorded: "addresses_recorded p \<Longrightarrow> addresses_recorded (drop_addresses seid p)"
  using forget_addresses [of p seid "[]"] by (simp add: drop_addresses_def Let_def)

lemma drop_addresses_owner:
  "addresses_recorded p \<Longrightarrow> bm_lookup (session_by_ue_ip_map (drop_addresses seid p)) k = Some s \<Longrightarrow> si_seid s \<noteq> seid"
  by (auto simp: drop_addresses_def Let_def owned_lookup addresses_recorded_def split: option.splits if_splits)

text \<open>Most steps touch neither map.\<close>

definition same_addresses :: "pipeline \<Rightarrow> pipeline \<Rightarrow> bool" where
  "same_addresses p q \<longleftrightarrow>
     session_by_ue_ip_map q = session_by_ue_ip_map p \<and> session_ue_ip_key_map q = session_ue_ip_key_map p"

lemma same_addresses_step: "addresses_recorded p \<Longrightarrow> same_addresses p q \<Longrightarrow> addresses_recorded q"
  by (auto simp: same_addresses_def addresses_unchanged)

lemma same_addresses_refl [simp]: "same_addresses p p"
  by (simp add: same_addresses_def)

lemma same_addresses_trans: "same_addresses p q \<Longrightarrow> same_addresses q r \<Longrightarrow> same_addresses p r"
  by (simp add: same_addresses_def)

lemma put_addresses:
  "(\<And>m. same_addresses p (upd m p)) \<Longrightarrow> same_addresses p (fst (put get upd f k v p))"
  by (simp add: fst_put)

lemma and_then_addresses:
  "same_addresses p (fst r) \<Longrightarrow> (\<And>q. same_addresses q (fst (f q))) \<Longrightarrow> same_addresses p (fst (and_then r f))"
  by (rule and_then_keeps) (auto intro: same_addresses_trans)

lemmas address_frame = fst_put same_addresses_def

interpretation recorded: kept_by_steps e addresses_recorded seid for e seid
proof
  fix q assume q: "addresses_recorded q"
  note frame = same_addresses_step [OF q]
  show "addresses_recorded (set_pdu_type seid ty q)" for ty
    by (rule frame) (simp add: set_pdu_type_def address_frame)
  show "addresses_recorded (q\<lparr>session_pdu_type_map := (session_pdu_type_map q)(seid := None)\<rparr>)"
    by (rule frame) (simp add: address_frame)
  show "addresses_recorded (q\<lparr>session_rules_enabled_map := fst (bm_remove (session_rules_enabled_map q) seid)\<rparr>)"
    by (rule frame) (simp add: address_frame)
  show "addresses_recorded (q\<lparr>session_n6_arp_cache := (session_n6_arp_cache q)(seid := []),
          session_n3_arp_cache := (session_n3_arp_cache q)(seid := [])\<rparr>)"
    by (rule frame) (simp add: address_frame)
  show "addresses_recorded (fst (UpdateRulesEnabledMap seid flags q))" for flags
    by (rule frame) (simp add: UpdateRulesEnabledMap_def address_frame)
  show "addresses_recorded (fst (QERTCProgram_Setup e seid qs q))" for qs
    by (rule frame) (simp add: QERTCProgram_Setup_def Let_def address_frame)
  show "addresses_recorded (QERTCProgram_TearDown seid q)"
    by (rule frame) (simp add: QERTCProgram_TearDown_def address_frame split: option.split)
  show "addresses_recorded (fst (urr_setup e seid u q))" for u
    by (rule frame, unfold urr_setup_def, rule and_then_addresses) (simp_all add: address_frame)
  show "addresses_recorded (fst (bar_setup seid b q))" for b
    by (rule frame, unfold bar_setup_def, rule and_then_addresses) (simp_all add: address_frame)
  show "addresses_recorded (fst (mar_setup seid a q))" for a
    by (rule frame) (simp add: mar_setup_def address_frame)
  show "addresses_recorded (StoreEthPduSessionInMap e ul dl gnb seid q)" for ul dl gnb
    by (rule frame) (simp add: StoreEthPduSessionInMap_def address_frame)
  then show "addresses_recorded (create_mapping e is_eth seid d q)" for is_eth d
    by (simp add: create_mapping_def Let_def StorePduSessionInMap_recorded q)
  show "addresses_recorded (move_mapping ue ul dl seid q)" for ue ul dl
    by (rule move_mapping_recorded [OF q])
  show "addresses_recorded (drop_addresses seid q)"
    by (rule drop_addresses_recorded [OF q])
  show "addresses_recorded (fst (store_rules e is_eth seid i rules q))" for is_eth i rules
    by (rule frame) (simp add: store_rules_def address_frame)
  show "addresses_recorded (drop_rules e is_eth seid i q)" for is_eth i
    by (rule frame) (simp add: drop_rules_def address_frame)
  show "addresses_recorded (fst (ParseAndStoreSdfFilter e seid x qf q))" for x qf
    by (rule frame) (simp add: ParseAndStoreSdfFilter_def Let_def address_frame split: option.split)
  show "addresses_recorded (drop_sdf seid qf q)" for qf
    by (rule frame) (simp add: drop_sdf_def address_frame)
  show "addresses_recorded (fst (store_pdrs e is_eth seid bs q))" for is_eth bs
    by (rule frame) (simp add: store_pdrs_def Let_def address_frame)
  show "addresses_recorded (drop_pdrs e is_eth seid q)" for is_eth
    by (rule frame) (simp add: drop_pdrs_def address_frame)
  show "addresses_recorded (launch_arp e seid gnb si q)" for gnb si
    by (rule frame) (simp add: launch_arp_def address_frame)
  show "addresses_recorded (drop_enforcement e seid q)"
    by (rule frame) (simp add: drop_enforcement_def Let_def address_frame)
qed

text \<open>A removed session has no address left, whatever happened before.\<close>

lemma RemovePipeline_owner:
  assumes "addresses_recorded p" and "be_program e"
    and "bm_lookup (session_by_ue_ip_map (RemovePipeline e seid p)) k = Some s"
  shows "si_seid s \<noteq> seid"
proof -
  define q where "q = (let p1 = (QERTCProgram_TearDown seid p)\<lparr>session_rules_enabled_map :=
        fst (bm_remove (session_rules_enabled_map (QERTCProgram_TearDown seid p)) seid)\<rparr>;
      is_eth = (session_pdu_type_map p1 seid = Some PduEthernet);
      p2 = drop_enforcement e seid (p1\<lparr>session_pdu_type_map := (session_pdu_type_map p1)(seid := None)\<rparr>);
      old = GetTrackedPdrQfis e seid is_eth p2
    in drop_pdrs e is_eth seid
         (PruneStaleRuleEntries e seid is_eth (map fst old) (filter (\<lambda>q. q \<noteq> 0) (map snd old)) p2))"
  have "addresses_recorded q"
    unfolding q_def Let_def
    by (simp only: recorded.unrecorded recorded.prune_keeps recorded.unenforced recorded.untyped recorded.unflagged
        recorded.unshaped assms(1))
  moreover have "bm_lookup (session_by_ue_ip_map (drop_addresses seid q)) k = Some s"
    using assms(2, 3) by (simp add: RemovePipeline_def q_def Let_def)
  ultimately show ?thesis by (rule drop_addresses_owner)
qed

end
