(* ===== verification/SessionShown.thy ===== *)
theory SessionShown
  imports PipelineProps
begin

text \<open>
  What a session promises to the XDP programs: its flags, the array of its PDRs and, under each PDR id,
  the rules that PDR refers to. \<open>shown\<close> says that the maps hold this for one session and nothing else.
  A call that returns leaves its session shown, whatever mixture of PDRs was there before, as long as the
  PDR ids it knew were recorded; and a session that was created, modified and removed leaves nothing.
\<close>

section \<open>Specification\<close>

definition rules_map :: "bool \<Rightarrow> pipeline \<Rightarrow> (u16 \<times> u64, rules_match_pdr) bpf_map" where
  "rules_map is_eth p = (if is_eth then eth_rules_match_pdr_map p else rules_match_pdr_map p)"

definition pdrs_map :: "bool \<Rightarrow> pipeline \<Rightarrow> (u64, bpf_pdr list) bpf_map" where
  "pdrs_map is_eth p = (if is_eth then eth_session_pdrs_map p else pdrs_per_session_map p)"

definition rule_entry :: "bpf_env \<Rightarrow> upf_switch \<Rightarrow> pfcp_session \<Rightarrow> nat \<Rightarrow> u16 \<times> rules_match_pdr" where
  "rule_entry e sw s r =
     (pdr_id (pdr_at sw r), rules_of e s (pdr_at sw r) (the (GetFarForPdr sw s (pdr_at sw r))))"

definition pdr_entry :: "bpf_env \<Rightarrow> upf_switch \<Rightarrow> pfcp_session \<Rightarrow> nat \<Rightarrow> bpf_pdr" where
  "pdr_entry e sw s r = the (bpf_pdr_of e s (pdr_at sw r))"

definition pdr_array :: "bpf_pdr list \<Rightarrow> bpf_pdr list" where
  "pdr_array bs = bs @ replicate (MAX_PDRS_PER_PDU_SESSION_LIMIT - length bs) bpf_pdr_zero"

text \<open>The rules of a session by PDR id; of two PDRs with one id the later counts.\<close>

definition session_rules :: "bpf_env \<Rightarrow> upf_switch \<Rightarrow> pfcp_session \<Rightarrow> u16 \<rightharpoonup> rules_match_pdr" where
  "session_rules e sw s = map_of (rev (map (rule_entry e sw s) (s_pdrs s)))"

definition shown :: "bpf_env \<Rightarrow> upf_switch \<Rightarrow> pfcp_session \<Rightarrow> bool \<Rightarrow> pipeline \<Rightarrow> bool" where
  "shown e sw s is_eth p \<longleftrightarrow>
     (\<forall>i. bm_lookup (rules_map is_eth p) (i, get_up_seid s) = session_rules e sw s i) \<and>
     bm_lookup (pdrs_map is_eth p) (get_up_seid s) = Some (pdr_array (map (pdr_entry e sw s) (s_pdrs s))) \<and>
     bm_lookup (session_rules_enabled_map p) (get_up_seid s) = Some (ComputeRulesEnabledFlags e sw s)"

section \<open>Fields a step touches\<close>

text \<open>The maps of the specification, and the type of the session.\<close>

definition content :: "pipeline \<Rightarrow>
    (u16 \<times> u64, rules_match_pdr) bpf_map \<times> (u16 \<times> u64, rules_match_pdr) bpf_map \<times>
    (u64, bpf_pdr list) bpf_map \<times> (u64, bpf_pdr list) bpf_map \<times> (u64, u32) bpf_map \<times> (u64 \<rightharpoonup> pdu_session_type)" where
  "content p = (rules_match_pdr_map p, eth_rules_match_pdr_map p, pdrs_per_session_map p, eth_session_pdrs_map p,
                session_rules_enabled_map p, session_pdu_type_map p)"

lemma contentD:
  assumes "content q = content p"
  shows "rules_map is_eth q = rules_map is_eth p" and "pdrs_map is_eth q = pdrs_map is_eth p"
    and "session_rules_enabled_map q = session_rules_enabled_map p"
    and "session_pdu_type_map q = session_pdu_type_map p"
    and "recorded_pdrs e seid is_eth q = recorded_pdrs e seid is_eth p"
  using assms by (simp_all add: content_def rules_map_def pdrs_map_def recorded_pdrs_def)

named_theorems content_simps \<open>steps that leave the content\<close>

lemma content_StorePdu [content_simps]: "content (fst (StorePduSessionInMap ue ul dl seid p)) = content p"
  by (simp add: StorePduSessionInMap_def Let_def content_def split: prod.split)

lemma content_StoreEth [content_simps]: "content (StoreEthPduSessionInMap e ul dl gnb seid p) = content p"
  by (simp add: StoreEthPduSessionInMap_def content_def)

lemma content_create_mapping [content_simps]: "content (create_mapping e is_eth seid d p) = content p"
  by (simp add: create_mapping_def Let_def content_simps)

lemma content_owned [content_simps]: "content (fold (RemoveUeIpMappingIfOwned seid) ks p) = content p"
  by (induction ks arbitrary: p) (auto simp: RemoveUeIpMappingIfOwned_def content_def split: option.splits)

lemma content_keys [content_simps]: "content (p\<lparr>session_ue_ip_key_map := ks\<rparr>) = content p"
  by (simp add: content_def)

lemma content_move_mapping [content_simps]: "content (move_mapping ue ul dl seid p) = content p"
  by (simp add: move_mapping_def case_prod_beta Let_def content_simps)

lemma content_modify_mapping [content_simps]: "content (modify_mapping e sw s ds is_eth p) = content p"
  by (simp add: modify_mapping_def Let_def content_simps)

lemma content_launch_arp [content_simps]: "content (launch_arp e seid gnb si p) = content p"
  by (simp add: launch_arp_def content_def)

lemma content_sdf [content_simps]: "content (fst (ParseAndStoreSdfFilter e seid x q p)) = content p"
  by (simp add: ParseAndStoreSdfFilter_def Let_def fst_put content_def split: option.split)

lemma content_teardown [content_simps]: "content (QERTCProgram_TearDown seid p) = content p"
  by (simp add: QERTCProgram_TearDown_def content_def split: option.split)

lemma content_setup [content_simps]: "content (fst (QERTCProgram_Setup e seid qs p)) = content p"
  by (simp add: QERTCProgram_Setup_def Let_def content_def)

lemma content_and_then:
  "content (fst r) = c \<Longrightarrow> (\<And>q. content (fst (f q)) = content q) \<Longrightarrow> content (fst (and_then r f)) = c"
  by (rule and_then_keeps [where P = "\<lambda>q. content q = c"]) simp_all

lemma content_put [content_simps]:
  "(\<And>m. content (upd m p) = content p) \<Longrightarrow> content (fst (put get upd f k v p)) = content p"
  by (simp add: fst_put)

lemma content_urr_setup [content_simps]: "content (fst (urr_setup e seid u p)) = content p"
  unfolding urr_setup_def by (rule content_and_then) (simp_all add: fst_put content_def)

lemma content_bar_setup [content_simps]: "content (fst (bar_setup seid b p)) = content p"
  unfolding bar_setup_def by (rule content_and_then) (simp_all add: fst_put content_def)

lemma content_mar_setup [content_simps]: "content (fst (mar_setup seid a p)) = content p"
  unfolding mar_setup_def by (simp add: fst_put content_def)

lemma content_enforce [content_simps]:
  "(\<And>x p. content (fst (f x p)) = content p) \<Longrightarrow> content (fst (enforce on f xs p)) = content p"
  by (simp add: enforce_def until_throws_keeps [where P = "\<lambda>q. content q = content p"])

lemma content_enforcement [content_simps]:
  "content (fst (SetupSessionEnforcementPrograms e s qs flags p)) = content p"
  unfolding SetupSessionEnforcementPrograms_def Let_def
  by (intro content_and_then) (simp_all add: content_simps)

section \<open>Steps of the loops\<close>

text \<open>What a step of either loop does: the rules of its PDR are filed, the PDR is collected.\<close>

definition files_pdr :: "bpf_env \<Rightarrow> upf_switch \<Rightarrow> pfcp_session \<Rightarrow> bool \<Rightarrow> nat \<Rightarrow> pipe_vars \<Rightarrow> pipe_vars \<Rightarrow> bool" where
  "files_pdr e sw s is_eth r v v' \<longleftrightarrow>
     bm_lookup (rules_map is_eth (pv_p v')) =
       (bm_lookup (rules_map is_eth (pv_p v)))((fst (rule_entry e sw s r), get_up_seid s) \<mapsto> snd (rule_entry e sw s r)) \<and>
     pdrs_map is_eth (pv_p v') = pdrs_map is_eth (pv_p v) \<and>
     session_rules_enabled_map (pv_p v') = session_rules_enabled_map (pv_p v) \<and>
     session_pdu_type_map (pv_p v') = session_pdu_type_map (pv_p v) \<and>
     pv_pdrs v' = pv_pdrs v @ [pdr_entry e sw s r] \<and> bpf_pdr_of e s (pdr_at sw r) \<noteq> None"

lemma on_pipeline_None:
  "on_pipeline f v = (v', None) \<longleftrightarrow> (\<exists>p. f (pv_p v) = (p, None) \<and> v' = v\<lparr>pv_p := p\<rparr>)"
  by (auto simp: on_pipeline_def split: prod.splits)

lemma note_eth_tunnel_pdrs: "pv_pdrs (fst (note_eth_tunnel is_eth d f v)) = pv_pdrs v"
  by (simp add: note_eth_tunnel_def Let_def split: option.splits)

lemma note_eth_tunnel_frame:
  "note_eth_tunnel is_eth d f v = (v', None) \<Longrightarrow> pv_p v' = pv_p v \<and> pv_pdrs v' = pv_pdrs v"
  using note_eth_tunnel_pdrs [of is_eth d f v] recorded.note_eth_tunnel_pipeline [of is_eth d f v] by simp

lemma sdf_None_content: "ParseAndStoreSdfFilter e seid x q p = (p', None) \<Longrightarrow> content p' = content p"
  using content_sdf [of e seid x q p] by simp

lemma store_rules_None:
  assumes "store_rules e is_eth seid i rules p = (p', None)" and "is_eth \<longrightarrow> be_eth_pipeline e"
  shows "bm_lookup (rules_map is_eth p') = (bm_lookup (rules_map is_eth p))((i, seid) \<mapsto> rules)"
    and "pdrs_map is_eth p' = pdrs_map is_eth p"
    and "session_rules_enabled_map p' = session_rules_enabled_map p"
    and "session_pdu_type_map p' = session_pdu_type_map p"
  using assms by (auto simp: store_rules_def put_None rules_map_def pdrs_map_def bm_update_accepted split: if_splits)

lemma files_pdrI:
  assumes "content p1 = content (pv_p v)" and "is_eth \<longrightarrow> be_eth_pipeline e"
    and "store_rules e is_eth (get_up_seid s) (pdr_id (pdr_at sw r)) (rules_of e s (pdr_at sw r) f) p1 = (p2, None)"
    and "content (pv_p v') = content p2" and "GetFarForPdr sw s (pdr_at sw r) = Some f"
    and "bpf_pdr_of e s (pdr_at sw r) = Some b" and "pv_pdrs v' = pv_pdrs v @ [b]"
  shows "files_pdr e sw s is_eth r v v'"
  using store_rules_None [OF assms(3, 2)] contentD(1-4) [OF assms(1)] contentD(1-4) [OF assms(4)] assms(5-7)
  by (simp add: files_pdr_def rule_entry_def pdr_entry_def)

lemma create_step_files:
  assumes "create_step e sw s is_eth r v = (v', None)" and "is_eth \<longrightarrow> be_eth_pipeline e"
  shows "files_pdr e sw s is_eth r v v'"
proof -
  let ?x = "pdr_at sw r" and ?seid = "get_up_seid s"
  let ?d = "ie_val (pdr_pdi ?x)"
  obtain f b v2 p3 p4 where f: "GetFarForPdr sw s ?x = Some f" and b: "bpf_pdr_of e s ?x = Some b"
    and v2: "note_eth_tunnel is_eth ?d f (v\<lparr>pv_p := create_mapping e is_eth ?seid ?d (pv_p v)\<rparr>) = (v2, None)"
    and p3: "store_rules e is_eth ?seid (pdr_id ?x) (rules_of e s ?x f) (pv_p v2) = (p3, None)"
    and p4: "ParseAndStoreSdfFilter e ?seid ?x (bp_qfi b) p3 = (p4, None)"
    and v': "v' = v2\<lparr>pv_p := launch_arp e ?seid (RetrieveGnbIp sw s) (ie_val (pdi_source_interface ?d)) p4,
                     pv_pdrs := pv_pdrs v2 @ [b]\<rparr>"
    using assms(1) by (auto simp: create_step_def Let_def and_then_None on_pipeline_None split: if_splits option.splits)
  note frame = note_eth_tunnel_frame [OF v2]
  show ?thesis
    by (rule files_pdrI [OF _ assms(2) p3 _ f b])
      (use frame sdf_None_content [OF p4] in \<open>simp_all add: v' content_simps\<close>)
qed

lemma pipe_vars_if: "(if c then v\<lparr>pv_p := q\<rparr> else v) = v\<lparr>pv_p := (if c then q else pv_p v)\<rparr>"
  by simp

lemma modify_step_files:
  assumes "modify_step e sw s is_eth r v = (v', None)" and "is_eth \<longrightarrow> be_eth_pipeline e"
  shows "files_pdr e sw s is_eth r v v'"
proof -
  let ?x = "pdr_at sw r" and ?seid = "get_up_seid s"
  let ?d = "ie_val (pdr_pdi ?x)"
  define arp where "arp p = (if present (pdr_pdi ?x) \<and> present (pdi_source_interface ?d)
      then launch_arp e ?seid (RetrieveGnbIp sw s) (ie_val (pdi_source_interface ?d)) p else p)" for p
  obtain f b p1 p3 where f: "GetFarForPdr sw s ?x = Some f" and b: "bpf_pdr_of e s ?x = Some b"
    and p1: "store_rules e is_eth ?seid (pdr_id ?x) (rules_of e s ?x f) (pv_p v) = (p1, None)"
    and p3: "ParseAndStoreSdfFilter e ?seid ?x (bp_qfi b) (arp p1) = (p3, None)"
    and v': "v' = v\<lparr>pv_p := p3, pv_pdrs := pv_pdrs v @ [b]\<rparr>"
    using assms(1) by (auto simp: modify_step_def Let_def and_then_None on_pipeline_None pipe_vars_if arp_def
        split: option.splits split del: if_split cong: if_cong)
  have "content (arp p1) = content p1" by (simp add: arp_def content_simps)
  then show ?thesis
    by (intro files_pdrI [OF _ assms(2) p1 _ f b]) (use sdf_None_content [OF p3] in \<open>simp_all add: v'\<close>)
qed

text \<open>The whole loop.\<close>

lemma loop_files:
  assumes "until_throws f rs v = (v', None)"
    and "\<And>r v v'. f r v = (v', None) \<Longrightarrow> files_pdr e sw s is_eth r v v'"
  shows "(\<forall>i. bm_lookup (rules_map is_eth (pv_p v')) (i, get_up_seid s) =
              (case map_of (rev (map (rule_entry e sw s) rs)) i of
                 Some x \<Rightarrow> Some x | None \<Rightarrow> bm_lookup (rules_map is_eth (pv_p v)) (i, get_up_seid s))) \<and>
     pdrs_map is_eth (pv_p v') = pdrs_map is_eth (pv_p v) \<and>
     session_rules_enabled_map (pv_p v') = session_rules_enabled_map (pv_p v) \<and>
     session_pdu_type_map (pv_p v') = session_pdu_type_map (pv_p v) \<and>
     pv_pdrs v' = pv_pdrs v @ map (pdr_entry e sw s) rs \<and> (\<forall>r\<in>set rs. bpf_pdr_of e s (pdr_at sw r) \<noteq> None)"
  using assms(1)
proof (induction rs arbitrary: v)
  case (Cons r rs)
  then obtain v1 where v1: "f r v = (v1, None)" and rest: "until_throws f rs v1 = (v', None)"
    by (auto simp: and_then_None)
  from Cons.IH [OF rest] assms(2) [OF v1] show ?case
    by (auto simp: files_pdr_def map_add_def split: option.splits)
qed simp

section \<open>Recorded PDRs\<close>

definition convertible :: "bpf_env \<Rightarrow> upf_switch \<Rightarrow> pfcp_session \<Rightarrow> bool" where
  "convertible e sw s \<longleftrightarrow> (\<forall>r\<in>set (s_pdrs s). bpf_pdr_of e s (pdr_at sw r) \<noteq> None)"

definition pdr_ids :: "upf_switch \<Rightarrow> pfcp_session \<Rightarrow> u16 list" where
  "pdr_ids sw s = map (\<lambda>r. pdr_id (pdr_at sw r)) (s_pdrs s)"

text \<open>Every PDR id that has rules is among those recorded for the session.\<close>

definition rules_recorded :: "bpf_env \<Rightarrow> u64 \<Rightarrow> bool \<Rightarrow> pipeline \<Rightarrow> bool" where
  "rules_recorded e seid is_eth p \<longleftrightarrow>
     (\<forall>i. bm_lookup (rules_map is_eth p) (i, seid) \<noteq> None \<longrightarrow> i \<in> fst ` set (GetTrackedPdrQfis e seid is_eth p))"

lemma recorded_pdrs_map:
  "is_eth \<longrightarrow> be_eth_pipeline e \<Longrightarrow> recorded_pdrs e seid is_eth p = bm_lookup (pdrs_map is_eth p) seid"
  by (simp add: recorded_pdrs_def pdrs_map_def)

lemma dom_tracked:
  "fst ` set (fold (\<lambda>b m. if bp_rule_id b \<noteq> 0 then AList.update (bp_rule_id b) (bp_qfi b) m else m) bs m) =
     fst ` set m \<union> (bp_rule_id ` set bs - {0})"
  by (induction bs arbitrary: m) (auto simp: dom_update)

lemma pdr_entry_id:
  "bpf_pdr_of e s (pdr_at sw r) \<noteq> None \<Longrightarrow> bp_rule_id (pdr_entry e sw s r) = pdr_id (pdr_at sw r)"
  by (auto simp: pdr_entry_def bpf_pdr_of_def Let_def dest: ConvertPdr_rule_id)

lemma shown_tracked:
  assumes "shown e sw s is_eth p" and "convertible e sw s" and "is_eth \<longrightarrow> be_eth_pipeline e"
  shows "fst ` set (GetTrackedPdrQfis e (get_up_seid s) is_eth p) = set (pdr_ids sw s) - {0}"
proof -
  have "bp_rule_id ` set (pdr_array (map (pdr_entry e sw s) (s_pdrs s))) - {0} = set (pdr_ids sw s) - {0}"
    using assms(2) by (force simp: pdr_array_def pdr_ids_def convertible_def bpf_pdr_zero_def pdr_entry_id)
  then show ?thesis
    using assms(1) by (simp add: GetTrackedPdrQfis_def recorded_pdrs_map [OF assms(3)] shown_def dom_tracked)
qed

lemma session_rules_ids: "session_rules e sw s i \<noteq> None \<longleftrightarrow> i \<in> set (pdr_ids sw s)"
  by (auto simp: session_rules_def map_of_eq_None_iff pdr_ids_def rule_entry_def image_image)

lemma shown_recorded:
  assumes "shown e sw s is_eth p" and "convertible e sw s" and "is_eth \<longrightarrow> be_eth_pipeline e"
    and "0 \<notin> set (pdr_ids sw s)"
  shows "rules_recorded e (get_up_seid s) is_eth p"
  using assms(1, 4) shown_tracked [OF assms(1-3)] session_rules_ids [of e sw s]
  by (simp add: rules_recorded_def shown_def)

section \<open>Storing the array, pruning\<close>

lemma store_pdrs_None:
  assumes "store_pdrs e is_eth seid bs p = (p', None)" and "is_eth \<longrightarrow> be_eth_pipeline e"
  shows "bm_lookup (pdrs_map is_eth p') seid = Some (pdr_array bs)" and "rules_map is_eth p' = rules_map is_eth p"
    and "session_rules_enabled_map p' = session_rules_enabled_map p" and "session_pdu_type_map p' = session_pdu_type_map p"
  using assms
  by (auto simp: store_pdrs_def Let_def put_None rules_map_def pdrs_map_def bm_update_accepted pdr_array_def split: if_splits)

lemma flags_None:
  assumes "UpdateRulesEnabledMap seid flags p = (p', None)"
  shows "bm_lookup (session_rules_enabled_map p') seid = Some flags" and "rules_map is_eth p' = rules_map is_eth p"
    and "pdrs_map is_eth p' = pdrs_map is_eth p" and "session_pdu_type_map p' = session_pdu_type_map p"
  using assms by (auto simp: UpdateRulesEnabledMap_def put_None rules_map_def pdrs_map_def bm_update_accepted)

lemma drop_sdf_content: "content (fold (drop_sdf seid) qs p) = content p"
  by (induction qs arbitrary: p) (simp_all add: drop_sdf_def content_def)

lemma drop_rules_fold:
  assumes "is_eth \<longrightarrow> be_eth_pipeline e"
  shows "bm_lookup (rules_map is_eth (fold (drop_rules e is_eth seid) ids p)) (i, seid) =
      (if i \<in> set ids then None else bm_lookup (rules_map is_eth p) (i, seid))"
    and "pdrs_map is_eth (fold (drop_rules e is_eth seid) ids p) = pdrs_map is_eth p"
    and "session_rules_enabled_map (fold (drop_rules e is_eth seid) ids p) = session_rules_enabled_map p"
    and "session_pdu_type_map (fold (drop_rules e is_eth seid) ids p) = session_pdu_type_map p"
  using assms by (induction ids arbitrary: p) (auto simp: drop_rules_def rules_map_def pdrs_map_def bm_simps)

lemma prune_shown:
  assumes "is_eth \<longrightarrow> be_eth_pipeline e"
  shows "bm_lookup (rules_map is_eth (PruneStaleRuleEntries e seid is_eth ids qs p)) (i, seid) =
      (if i \<in> set ids then None else bm_lookup (rules_map is_eth p) (i, seid))"
    and "pdrs_map is_eth (PruneStaleRuleEntries e seid is_eth ids qs p) = pdrs_map is_eth p"
    and "session_rules_enabled_map (PruneStaleRuleEntries e seid is_eth ids qs p) = session_rules_enabled_map p"
    and "session_pdu_type_map (PruneStaleRuleEntries e seid is_eth ids qs p) = session_pdu_type_map p"
  using contentD(1-4) [OF drop_sdf_content [of seid qs "fold (drop_rules e is_eth seid) ids p"]]
    drop_rules_fold [OF assms, of seid ids p]
  by (simp_all add: PruneStaleRuleEntries_def)

section \<open>A call that returns shows its session\<close>

lemma CreatePipeline_shown:
  assumes "CreatePipeline e sw s qs p = (p', None)" and is_eth: "is_eth \<longleftrightarrow> DetectPduSessionType sw s = PduEthernet"
    and eth: "is_eth \<longrightarrow> be_eth_pipeline e"
    and fresh: "\<And>i. bm_lookup (rules_map is_eth p) (i, get_up_seid s) = None"
  shows "shown e sw s is_eth p'" and "convertible e sw s"
    and "session_pdu_type_map p' (get_up_seid s) = Some (DetectPduSessionType sw s)" and "be_program e"
proof -
  let ?seid = "get_up_seid s" and ?ty = "DetectPduSessionType sw s" and ?flags = "ComputeRulesEnabledFlags e sw s"
  define v0 where "v0 = vars_new (set_pdu_type ?seid ?ty p)"
  define last_map where "last_map v = (if is_eth \<and> pv_ul_teid v \<noteq> 0
      then StoreEthPduSessionInMap e (pv_ul_teid v) (pv_dl_teid v) (pv_gnb_ip v) ?seid (pv_p v) else pv_p v)" for v :: pipe_vars
  have guards: "\<not> length (s_pdrs s) > MAX_PDRS_PER_PDU_SESSION_LIMIT" and prog: "be_program e"
    using assms(1) by (auto simp: CreatePipeline_def split: if_splits)
  obtain v p2 p3 where loop: "until_throws (create_step e sw s is_eth) (s_pdrs s) v0 = (v, None)"
    and p2: "store_pdrs e is_eth ?seid (pv_pdrs v) (last_map v) = (p2, None)"
    and p3: "UpdateRulesEnabledMap ?seid ?flags p2 = (p3, None)"
    and p': "SetupSessionEnforcementPrograms e s qs ?flags p3 = (p', None)"
    using assms(1) unfolding CreatePipeline_def Let_def v0_def last_map_def is_eth if_not_P [OF guards]
    by (auto simp: prog and_then_None split: prod.splits option.splits split del: if_split)
  have p1: "content (last_map v) = content (pv_p v)" by (simp add: last_map_def content_simps)
  have "content p' = content p3" using content_enforcement [of e s qs ?flags p3] p' by simp
  note steps = contentD(1-4) [OF this] flags_None [OF p3] store_pdrs_None [OF p2 eth] contentD(1-4) [OF p1]
  have v0: "rules_map is_eth (pv_p v0) = rules_map is_eth p" "session_pdu_type_map (pv_p v0) ?seid = Some ?ty" "pv_pdrs v0 = []"
    by (simp_all add: v0_def vars_new_def set_pdu_type_def rules_map_def)
  note files = loop_files [OF loop, OF create_step_files [OF _ eth]]
  show "shown e sw s is_eth p'" "convertible e sw s" "session_pdu_type_map p' ?seid = Some ?ty" "be_program e"
    using files v0 fresh prog
    by (auto simp: shown_def steps convertible_def session_rules_def split: option.splits)
qed

lemma run_case_None:
  "(case r of (v, Some x) \<Rightarrow> (h v, Some x) | (v, None) \<Rightarrow> f v) = (s', None) \<longleftrightarrow> (\<exists>v. r = (v, None) \<and> f v = (s', None))"
  by (auto split: prod.splits option.splits)

lemma ModifyPipeline_shown:
  assumes "ModifyPipeline e sw s ds p = (p', None)" and ty: "session_pdu_type_map p (get_up_seid s) = Some ty"
    and is_eth: "is_eth \<longleftrightarrow> ty = PduEthernet" and eth: "is_eth \<longrightarrow> be_eth_pipeline e"
    and recorded: "rules_recorded e (get_up_seid s) is_eth p"
  shows "shown e sw s is_eth p'" and "convertible e sw s" and "session_pdu_type_map p' (get_up_seid s) = Some ty"
proof -
  let ?seid = "get_up_seid s" and ?flags = "ComputeRulesEnabledFlags e sw s"
  let ?old = "GetTrackedPdrQfis e ?seid is_eth p"
  have guards: "\<not> length (s_pdrs s) > MAX_PDRS_PER_PDU_SESSION_LIMIT" and prog: "be_program e"
    using assms(1) by (auto simp: ModifyPipeline_def split: if_splits)
  obtain p1 p2 v p3 qs where p1: "UpdateRulesEnabledMap ?seid ?flags (set_pdu_type ?seid ty p) = (p1, None)"
    and p2: "SetupSessionEnforcementPrograms e s (qers_downlink ds) ?flags p1 = (p2, None)"
    and loop: "until_throws (modify_step e sw s is_eth) (s_pdrs s) (vars_new (modify_mapping e sw s ds is_eth p2)) = (v, None)"
    and p3: "store_pdrs e is_eth ?seid (pv_pdrs v) (pv_p v) = (p3, None)"
    and p': "p' = PruneStaleRuleEntries e ?seid is_eth (filter (\<lambda>i. i \<notin> set (pdr_ids sw s)) (map fst ?old)) qs p3"
    using assms(1) unfolding ModifyPipeline_def Let_def ty option.case pdr_ids_def is_eth if_not_P [OF guards]
    by (auto simp: prog and_then_None run_case_None)
  have "content p2 = content p1" using content_enforcement [of e s "qers_downlink ds" ?flags p1] p2 by simp
  note steps = prune_shown [OF eth, folded p'] store_pdrs_None [OF p3 eth] contentD(1-4) [OF content_modify_mapping]
    contentD(1-4) [OF this] flags_None [OF p1]
  have start: "rules_map is_eth (set_pdu_type ?seid ty p) = rules_map is_eth p"
      "session_pdu_type_map (set_pdu_type ?seid ty p) ?seid = Some ty"
    by (simp_all add: set_pdu_type_def rules_map_def)
  note files = loop_files [OF loop, OF modify_step_files [OF _ eth]]
  have gone: "bm_lookup (rules_map is_eth p) (i, ?seid) = None" if "i \<notin> set (pdr_ids sw s)" "i \<notin> fst ` set ?old" for i
    using recorded that(2) by (auto simp: rules_recorded_def)
  show "convertible e sw s" using files by (simp add: convertible_def)
  show "session_pdu_type_map p' ?seid = Some ty"
    using files start by (simp add: p' prune_shown [OF eth] steps vars_new_def)
  have "bm_lookup (rules_map is_eth p') (i, ?seid) = session_rules e sw s i" for i
    using files start gone [of i] session_rules_ids [of e sw s i]
    by (auto simp: p' prune_shown [OF eth] steps vars_new_def session_rules_def split: option.splits)
  then show "shown e sw s is_eth p'"
    using files start by (simp add: shown_def p' prune_shown [OF eth] steps vars_new_def)
qed

section \<open>Removal\<close>

lemma drop_addresses_content: "content (drop_addresses seid p) = content p"
  by (simp add: drop_addresses_def Let_def content_simps)

lemma drop_enforcement_content: "content (drop_enforcement e seid p) = content p"
  by (simp add: drop_enforcement_def Let_def content_def)

lemma drop_pdrs_shown:
  assumes "is_eth \<longrightarrow> be_eth_pipeline e"
  shows "bm_lookup (pdrs_map is_eth (drop_pdrs e is_eth seid p)) seid = None"
    and "rules_map is_eth (drop_pdrs e is_eth seid p) = rules_map is_eth p"
    and "session_rules_enabled_map (drop_pdrs e is_eth seid p) = session_rules_enabled_map p"
    and "session_pdu_type_map (drop_pdrs e is_eth seid p) = session_pdu_type_map p"
  using assms by (auto simp: drop_pdrs_def pdrs_map_def rules_map_def bm_simps)

text \<open>Nothing of a session is left in the maps of the specification, nor an address that leads to it.\<close>

definition unknown_session :: "u64 \<Rightarrow> bool \<Rightarrow> pipeline \<Rightarrow> bool" where
  "unknown_session seid is_eth p \<longleftrightarrow>
     (\<forall>i. bm_lookup (rules_map is_eth p) (i, seid) = None) \<and> bm_lookup (pdrs_map is_eth p) seid = None \<and>
     bm_lookup (session_rules_enabled_map p) seid = None \<and> session_pdu_type_map p seid = None \<and>
     (\<forall>k s. bm_lookup (session_by_ue_ip_map p) k = Some s \<longrightarrow> si_seid s \<noteq> seid)"

lemma RemovePipeline_unknown:
  assumes prog: "be_program e" and ty: "session_pdu_type_map p seid = Some ty" and is_eth: "is_eth \<longleftrightarrow> ty = PduEthernet"
    and eth: "is_eth \<longrightarrow> be_eth_pipeline e" and recorded: "rules_recorded e seid is_eth p" and "addresses_recorded p"
  shows "unknown_session seid is_eth (RemovePipeline e seid p)"
proof -
  define p1 where "p1 = (QERTCProgram_TearDown seid p)\<lparr>session_rules_enabled_map :=
    fst (bm_remove (session_rules_enabled_map (QERTCProgram_TearDown seid p)) seid)\<rparr>"
  define p2 where "p2 = drop_enforcement e seid (p1\<lparr>session_pdu_type_map := (session_pdu_type_map p1)(seid := None)\<rparr>)"
  let ?old = "GetTrackedPdrQfis e seid is_eth p2"
  define p3 where "p3 = PruneStaleRuleEntries e seid is_eth (map fst ?old) (filter (\<lambda>q. q \<noteq> 0) (map snd ?old)) p2"
  define p4 where "p4 = drop_addresses seid (drop_pdrs e is_eth seid p3)"
  note tear = content_teardown [of seid p, unfolded content_def prod.inject]
  note enf = drop_enforcement_content [unfolded content_def prod.inject]
  have ty1: "session_pdu_type_map p1 seid = Some ty" using tear ty by (simp add: p1_def)
  then have final: "content (RemovePipeline e seid p) = content p4"
    unfolding RemovePipeline_def Let_def if_P [OF prog] p1_def [symmetric]
    by (simp only: is_eth [symmetric] option.inject p2_def [symmetric] p3_def [symmetric] p4_def [symmetric])
      (simp add: content_def)
  have p2: "rules_map is_eth p2 = rules_map is_eth p" "session_rules_enabled_map p2 = session_rules_enabled_map p1"
      "session_pdu_type_map p2 seid = None" "GetTrackedPdrQfis e seid is_eth p2 = GetTrackedPdrQfis e seid is_eth p"
    using tear by (simp_all add: p2_def p1_def enf GetTrackedPdrQfis_def rules_map_def recorded_pdrs_def)
  have flags: "bm_lookup (session_rules_enabled_map p1) seid = None" by (simp add: p1_def bm_simps)
  have "bm_lookup (rules_map is_eth p3) (i, seid) = None" for i
    using recorded by (auto simp: p3_def prune_shown [OF eth] p2 rules_recorded_def)
  moreover have "session_rules_enabled_map p3 = session_rules_enabled_map p1" "session_pdu_type_map p3 seid = None"
    by (simp_all add: p3_def prune_shown [OF eth] p2)
  ultimately show ?thesis
    using contentD(1-4) [OF final] RemovePipeline_owner [OF assms(6) prog, of seid] flags
    by (simp add: unknown_session_def p4_def contentD(1-4) [OF drop_addresses_content] drop_pdrs_shown [OF eth])
qed

end
