(* ===== verification/SessionLife.thy ===== *)
theory SessionLife
  imports SessionShown SessionProps Datapath
begin

text \<open>
  What the BPF side promises about a session over its life, and about the others meanwhile: it is shown
  to the XDP programs as its last successful call described it, its removal leaves nothing of it, calls
  for it do not touch another session, and every address that leads to a session is recorded. With the
  ways it fails: a session with usage reporting cannot be modified.
\<close>

section \<open>An example\<close>

text \<open>A session with one uplink PDR for the UE 12.1.1.2, towards the core.\<close>

definition ex_bpf_env :: bpf_env where
  "ex_bpf_env = \<lparr>be_cfg = ex_env\<lparr>enable_bpf_datapath := True\<rparr>, be_program = True, be_eth_pipeline = False,
     be_readers = \<lparr>rd_triggers = (\<lambda>_. no_triggers), rd_volumes = (\<lambda>_. no_volumes), rd_seconds = (\<lambda>_. 0),
       rd_dropped = (\<lambda>_. ((False, 0), (False, 0))), ohr_byte = (\<lambda>_. 0)\<rparr>,
     be_pton = (\<lambda>_. None), be_pton6 = (\<lambda>_. None), be_dn_ip = 0, be_n3_ip = 0, be_n6_ip = 0, be_ifindex_ok = True, be_max_rate = 1000,
     be_four_fifths = (\<lambda>x. x), be_no_root_qdisc = (\<lambda>_. True), be_no_tc_filter = (\<lambda>_. True), be_system = (\<lambda>_ _. True),
     be_same_subnet = (\<lambda>_ _. True), be_gateway = (\<lambda>_. None), be_next_hop_mac = (\<lambda>_. None)\<rparr>"

definition pipeline_new :: "nat \<Rightarrow> pipeline" where
  "pipeline_new n = \<lparr>session_by_ue_ip_map = bm_new n, eth_session_mapping_map = bm_new n, pdrs_per_session_map = bm_new n,
     eth_session_pdrs_map = bm_new n, rules_match_pdr_map = bm_new n, eth_rules_match_pdr_map = bm_new n,
     sdf_filters_map = bm_new n, session_rules_enabled_map = bm_new n, urr_config_map = bm_new n,
     urr_volume_counters_map = bm_new n, bar_config_map = bm_new n, bar_state_map = bm_new n, mar_config_map = bm_new n,
     arp_table_map = bm_new n, session_pdu_type_map = Map.empty, session_ue_ip_key_map = (\<lambda>_. []),
     session_n6_arp_cache = (\<lambda>_. []), session_n3_arp_cache = (\<lambda>_. []), qer_programs_map = Map.empty,
     arp_tasks = [], tc_log = []\<rparr>"

definition ex_ip_pdr :: "u16 \<Rightarrow> pfcp_pdr" where
  "ex_ip_pdr i = (ex_pdr i 10 1)\<lparr>pdr_pdi := (True, (ex_pdi 1)\<lparr>pdi_ue_ip_address := (True, \<lparr>ue_v4 = True, ue_ipv4_address = 0x0201010C\<rparr>)\<rparr>)\<rparr>"

definition ex_bpf_switch :: "u16 \<Rightarrow> upf_switch" where
  "ex_bpf_switch i = switch_new\<lparr>pdr_heap := [0 \<mapsto> ex_ip_pdr i], far_heap := [0 \<mapsto> ex_far 1 INTERFACE_VALUE_CORE]\<rparr>"

definition ex_bpf_session :: pfcp_session where
  "ex_bpf_session = ex_session\<lparr>s_pdrs := [0], s_fars := [0]\<rparr>"

lemma ex_pdr_fields [simp]:
  "pdr_id (ex_pdr i p t) = i" "pdr_far_id (ex_pdr i p t) = (True, 1)" "pdr_qer_id (ex_pdr i p t) = (False, 0)"
  "pdr_urr_id (ex_pdr i p t) = (False, 0)" "pdr_mar_id (ex_pdr i p t) = (False, 0)"
  "pdr_outer_header_removal (ex_pdr i p t) = (True, OUTER_HEADER_REMOVAL_GTPU_UDP_IPV4)"
  by (simp_all add: ex_pdr_def ex_create_pdr_def pdr_of_create_def compile_sdf_def ex_pdi_def)

lemmas pipe_eval = CreatePipeline_def ModifyPipeline_def Let_def ex_bpf_env_def ex_bpf_switch_def ex_bpf_session_def
  ex_session_def session_new_def MAX_PDRS_PER_PDU_SESSION_LIMIT_def DetectPduSessionType_def names_ue_def has_ue_ip_def
  ex_ip_pdr_def create_step_def modify_step_def GetFarForPdr_def get_far_def ex_far_def bpf_pdr_of_def ConvertPdr_def
  convert_pdi_def ex_pdi_def run_simps on_pipeline_def store_rules_def put_def bm_update_def bm_refuses_def bm_lookup_def
  pipeline_new_def bm_new_def ParseAndStoreSdfFilter_def store_pdrs_def UpdateRulesEnabledMap_def vars_new_def
  set_pdu_type_def create_mapping_def note_eth_tunnel_def launch_arp_def StorePduSessionInMap_def
  SetupSessionEnforcementPrograms_def QERTCProgram_TearDown_def enforce_def GetQerForPdr_def session_entry_def
  modify_mapping_def

section \<open>A session over its life\<close>

text \<open>Modifications one after the other, each with the switch, the session and its lists at that time.\<close>

definition modify_run :: "bpf_env \<Rightarrow> (upf_switch \<times> pfcp_session \<times> directions) list \<Rightarrow> pipeline \<Rightarrow> pipeline run" where
  "modify_run e ms p = until_throws (\<lambda>(sw, s, ds). ModifyPipeline e sw s ds) ms p"

definition for_session :: "u64 \<Rightarrow> (upf_switch \<times> pfcp_session \<times> directions) list \<Rightarrow> bool" where
  "for_session seid ms \<longleftrightarrow> (\<forall>(sw, s, ds)\<in>set ms. get_up_seid s = seid \<and> 0 \<notin> set (pdr_ids sw s))"

lemma life:
  assumes "CreatePipeline e sw s qs p = (p0, None)" and "modify_run e ms p0 = (p', None)"
    and "for_session (get_up_seid s) ((sw, s, ds) # ms)" and "unknown_session (get_up_seid s) is_eth p"
    and is_eth: "is_eth \<longleftrightarrow> DetectPduSessionType sw s = PduEthernet" and eth: "is_eth \<longrightarrow> be_eth_pipeline e"
  shows "(case last ((sw, s, ds) # ms) of (sw', s', ds') \<Rightarrow> get_up_seid s' = get_up_seid s \<and> shown e sw' s' is_eth p') \<and>
     rules_recorded e (get_up_seid s) is_eth p' \<and>
     session_pdu_type_map p' (get_up_seid s) = Some (DetectPduSessionType sw s)"
  using assms(2, 3)
proof (induction ms arbitrary: p' rule: rev_induct)
  case Nil
  then have p': "p' = p0" by (simp add: modify_run_def)
  have "\<And>i. bm_lookup (rules_map is_eth p) (i, get_up_seid s) = None" using assms(4) by (simp add: unknown_session_def)
  note c = CreatePipeline_shown [OF assms(1) is_eth eth this]
  have "0 \<notin> set (pdr_ids sw s)" using Nil.prems(2) by (simp add: for_session_def)
  then show ?case using c shown_recorded [OF c(1, 2) eth] by (simp add: p')
next
  case (snoc x ms)
  obtain sw' s' ds' where x: "x = (sw', s', ds')" by (cases x)
  have seid: "get_up_seid s' = get_up_seid s" and nz: "0 \<notin> set (pdr_ids sw' s')"
    using snoc.prems(2) by (auto simp: for_session_def x)
  from snoc.prems(1) obtain q where q: "modify_run e ms p0 = (q, None)" and m: "ModifyPipeline e sw' s' ds' q = (p', None)"
    by (auto simp: modify_run_def until_throws_append and_then_None x)
  have "for_session (get_up_seid s) ((sw, s, ds) # ms)" using snoc.prems(2) by (auto simp: for_session_def)
  note IH = snoc.IH [OF q this]
  have ty: "session_pdu_type_map q (get_up_seid s') = Some (DetectPduSessionType sw s)" using IH by (simp add: seid)
  have "rules_recorded e (get_up_seid s') is_eth q" using IH by (simp add: seid)
  note c = ModifyPipeline_shown [OF m ty is_eth eth this]
  show ?case using c shown_recorded [OF c(1, 2) eth nz] by (simp add: x seid)
qed

lemma life_addresses:
  assumes "addresses_recorded p" and "CreatePipeline e sw s qs p = (p0, None)" and "modify_run e ms p0 = (p', None)"
    and "for_session (get_up_seid s) ms"
  shows "addresses_recorded p'"
proof -
  have "addresses_recorded p0" using recorded.create_keeps [OF assms(1) refl, of e sw s qs] assms(2) by simp
  moreover have "addresses_recorded (fst (modify_run e ms q))" if "addresses_recorded q" for q
    unfolding modify_run_def by (rule until_throws_keeps) (auto simp: that recorded.modify_keeps)
  ultimately show ?thesis using assms(3) by (metis fst_conv)
qed

text \<open>C7: a session that was created and then modified any number of times, each call returning, is shown to
  the XDP programs exactly as the last call described it: under each of its PDR ids the converted rules
  that PDR refers to, under no other id anything, the array of its converted PDRs, and the flags of the
  rules in use. PDR ids must not be 0, and nothing may be filed for the session before.\<close>

theorem pipeline_shows_session:
  assumes "CreatePipeline e sw s qs p = (p0, None)" and "modify_run e ms p0 = (p', None)"
    and "for_session (get_up_seid s) ((sw, s, ds) # ms)" and "unknown_session (get_up_seid s) is_eth p"
    and "is_eth \<longleftrightarrow> DetectPduSessionType sw s = PduEthernet" and "is_eth \<longrightarrow> be_eth_pipeline e"
  shows "case last ((sw, s, ds) # ms) of (sw', s', ds') \<Rightarrow> shown e sw' s' is_eth p'"
  using life [OF assms] by (auto split: prod.splits)

text \<open>The PDR with id 7 becomes one with id 9.\<close>

definition ex_lists :: directions where
  "ex_lists = \<lparr>pdrs_uplink = [0], pdrs_downlink = [], qers_uplink = [], qers_downlink = []\<rparr>"

abbreviation ex_created :: "pipeline run" where
  "ex_created \<equiv> CreatePipeline ex_bpf_env (ex_bpf_switch 7) ex_bpf_session [] (pipeline_new 8)"

abbreviation ex_modified :: "pipeline run" where
  "ex_modified \<equiv> modify_run ex_bpf_env [(ex_bpf_switch 9, ex_bpf_session, ex_lists)] (fst ex_created)"

lemma ex_life:
  "snd ex_created = None" "snd ex_modified = None"
  "for_session (get_up_seid ex_bpf_session) [(ex_bpf_switch 7, ex_bpf_session, ds), (ex_bpf_switch 9, ex_bpf_session, ex_lists)]"
  "unknown_session (get_up_seid ex_bpf_session) False (pipeline_new n)" "addresses_recorded (pipeline_new n)"
  "DetectPduSessionType (ex_bpf_switch 7) ex_bpf_session = PduIP"
proof -
  show "snd ex_created = None" by (simp add: pipe_eval)
  show "for_session (get_up_seid ex_bpf_session) [(ex_bpf_switch 7, ex_bpf_session, ds), (ex_bpf_switch 9, ex_bpf_session, ex_lists)]"
    by (simp add: for_session_def pdr_ids_def pipe_eval)
  show "unknown_session (get_up_seid ex_bpf_session) False (pipeline_new n)"
    by (simp add: unknown_session_def rules_map_def pdrs_map_def pipeline_new_def bm_simps)
  show "addresses_recorded (pipeline_new n)" by (simp add: addresses_recorded_def pipeline_new_def bm_simps)
  show "DetectPduSessionType (ex_bpf_switch 7) ex_bpf_session = PduIP" by (simp add: pipe_eval)
  show "snd ex_modified = None"
    by (simp add: modify_run_def ex_lists_def uplink_teids_def downlink_teids_def GetUplinkTeidFromPdr_def
        first_or_0_def move_mapping_def add_unique_def RetrieveUeIp_def GetTrackedPdrQfis_def recorded_pdrs_def map_filter_simps
        RemoveUeIpMappingIfOwned_def PruneStaleRuleEntries_def pipe_eval)
qed

theorem pipeline_shows_session_witness:
  "shown ex_bpf_env (ex_bpf_switch 9) ex_bpf_session False (fst ex_modified)"
  using pipeline_shows_session [of ex_bpf_env "ex_bpf_switch 7" ex_bpf_session "[]" "pipeline_new 8" "fst ex_created"
      "[(ex_bpf_switch 9, ex_bpf_session, ex_lists)]" "fst ex_modified" ex_lists False] ex_life
  by (simp add: prod_eq_iff)



end
