(* ===== verification/SessionCalls.thy ===== *)
theory SessionCalls
  imports SessionLife
begin

text \<open>
  Any sequence of calls to the BPF side, returning or throwing, for any sessions: what it cannot do to a
  session it is not for, and what a removal guarantees ever after. Then the calls that always throw.
\<close>

section \<open>Sequences of calls\<close>

datatype pipe_call =
    CallCreate upf_switch pfcp_session "pfcp_qer list"
  | CallModify upf_switch pfcp_session directions
  | CallRemove u64

fun call_seid :: "pipe_call \<Rightarrow> u64" where
  "call_seid (CallCreate sw s qs) = get_up_seid s"
| "call_seid (CallModify sw s ds) = get_up_seid s"
| "call_seid (CallRemove seid) = seid"

text \<open>The state a call leaves; an exception is not an effect.\<close>

fun run_call :: "bpf_env \<Rightarrow> pipe_call \<Rightarrow> pipeline \<Rightarrow> pipeline" where
  "run_call e (CallCreate sw s qs) p = fst (CreatePipeline e sw s qs p)"
| "run_call e (CallModify sw s ds) p = fst (ModifyPipeline e sw s ds p)"
| "run_call e (CallRemove seid) p = RemovePipeline e seid p"

lemma run_call_other: "t \<noteq> call_seid c \<Longrightarrow> same_session t p (run_call e c p)"
proof (cases c)
  case (CallCreate sw s qs)
  assume "t \<noteq> call_seid c"
  then show ?thesis using others.create_keeps [OF _ refl, THEN mp, of t s p p e sw qs] by (simp add: CallCreate)
next
  case (CallModify sw s ds)
  assume "t \<noteq> call_seid c"
  then show ?thesis using others.modify_keeps [OF _ refl, THEN mp, of t s p p e sw ds] by (simp add: CallModify)
next
  case (CallRemove seid)
  assume "t \<noteq> call_seid c"
  then show ?thesis using others.remove_keeps [THEN mp, of t seid p p e] by (simp add: CallRemove)
qed

lemma run_call_recorded: "addresses_recorded p \<Longrightarrow> addresses_recorded (run_call e c p)"
  by (cases c) (auto simp: recorded.create_keeps recorded.modify_keeps recorded.remove_keeps)

lemma run_calls_recorded: "addresses_recorded p \<Longrightarrow> addresses_recorded (fold (run_call e) cs p)"
  by (induction cs arbitrary: p) (auto simp: run_call_recorded)

lemma run_calls_other: "\<forall>c\<in>set cs. call_seid c \<noteq> t \<Longrightarrow> same_session t p (fold (run_call e) cs p)"
proof (induction cs arbitrary: p)
  case (Cons c cs)
  have "same_session t p (run_call e c p)" using Cons.prems by (intro run_call_other) auto
  moreover have "same_session t (run_call e c p) (fold (run_call e) cs (run_call e c p))" using Cons by simp
  ultimately show ?case by (auto intro: same_session_trans)
qed simp



lemma RemovePipeline_keys: "be_program e \<Longrightarrow> session_ue_ip_key_map (RemovePipeline e seid p) seid = []"
  by (simp add: RemovePipeline_def Let_def drop_addresses_def)

text \<open>Once a session has been removed, no address leads to it, whatever was called before and is called
  for other sessions after, returning or throwing: a UE that gets the address of a removed session
  is never taken for it.\<close>

lemma removed_session_owns_no_address:
  assumes "be_program e" and "\<forall>c\<in>set after. call_seid c \<noteq> t"
    and "bm_lookup (session_by_ue_ip_map
           (fold (run_call e) (before @ CallRemove t # after) (pipeline_new n))) k = Some s"
  shows "si_seid s \<noteq> t"
proof -
  let ?p = "RemovePipeline e t (fold (run_call e) before (pipeline_new n))"
  let ?q = "fold (run_call e) after ?p"
  have recorded: "addresses_recorded ?q"
    by (intro run_calls_recorded recorded.remove_keeps ex_life)
  have "session_ue_ip_key_map ?q t = []"
    using run_calls_other [OF assms(2), of ?p e] RemovePipeline_keys [OF assms(1), of t]
    by (simp add: same_session_def)
  moreover have "k \<in> set (session_ue_ip_key_map ?q (si_seid s))"
    using recorded assms(3) by (simp add: addresses_recorded_def)
  ultimately show ?thesis by auto
qed

abbreviation ex_calls_after :: pipeline where
  "ex_calls_after \<equiv> fold (run_call ex_bpf_env)
     ([] @ CallRemove 1 # [CallCreate (ex_bpf_switch 7) (ex_bpf_session\<lparr>s_seid := 2\<rparr>) []]) (pipeline_new 8)"

lemma ex_address_taken:
  "bm_lookup (session_by_ue_ip_map ex_calls_after) (bswap32 0x0201010C) =
     Some \<lparr>si_teid_ul = bswap32 1, si_teid_dl = bswap32 0, si_seid = 2\<rparr>"
  by (simp add: RemovePipeline_def drop_addresses_def drop_pdrs_def drop_enforcement_def urr_loaded_def bar_loaded_def
      GetTrackedPdrQfis_def recorded_pdrs_def PruneStaleRuleEntries_def bm_remove_def get_up_seid_def ex_env_def
      fteid_zero_def pipe_eval)

section \<open>Usage reporting\<close>

definition reports_usage :: "upf_switch \<Rightarrow> pfcp_session \<Rightarrow> bool" where
  "reports_usage sw s \<longleftrightarrow> (\<exists>r\<in>set (s_pdrs s). present (pdr_urr_id (pdr_at sw r))) \<and> s_urrs s \<noteq> []"

text \<open>The flags a session gets, rule by rule.\<close>

lemma flags_exact:
  "flag_on (ComputeRulesEnabledFlags e sw s) RULE_QER_ENABLED \<longleftrightarrow>
     enable_qos (be_cfg e) \<and> (\<exists>r\<in>set (s_pdrs s). present (pdr_qer_id (pdr_at sw r)))"
  "flag_on (ComputeRulesEnabledFlags e sw s) RULE_URR_ENABLED \<longleftrightarrow>
     enable_urr (be_cfg e) \<and> (\<exists>r\<in>set (s_pdrs s). present (pdr_urr_id (pdr_at sw r)))"
  "flag_on (ComputeRulesEnabledFlags e sw s) RULE_BAR_ENABLED \<longleftrightarrow>
     enable_bar (be_cfg e) \<and> (\<exists>r\<in>set (s_fars s). present (far_bar_id (far_at sw r)))"
  "flag_on (ComputeRulesEnabledFlags e sw s) RULE_MAR_ENABLED \<longleftrightarrow>
     enable_mar (be_cfg e) \<and> (\<exists>r\<in>set (s_pdrs s). present (pdr_mar_id (pdr_at sw r)))"
  unfolding flag_on_def ComputeRulesEnabledFlags_def Let_def RULE_QER_ENABLED_def RULE_URR_ENABLED_def
    RULE_BAR_ENABLED_def RULE_MAR_ENABLED_def
  by (simp_all split: if_split)

text \<open>A session that is counted.\<close>

definition counted :: "u64 \<Rightarrow> pipeline \<Rightarrow> bool" where
  "counted seid p \<longleftrightarrow> bm_lookup (urr_volume_counters_map p) seid \<noteq> None"

lemma counted_put: "(\<And>m. urr_volume_counters_map (upd m p) = urr_volume_counters_map p) \<Longrightarrow>
    counted seid (fst (put get upd f k v p)) \<longleftrightarrow> counted seid p"
  by (simp add: counted_def fst_put)

lemma urr_setup_throws: "counted seid p \<Longrightarrow> snd (urr_setup e seid u p) \<noteq> None"
  by (auto simp: urr_setup_def counted_def fst_put snd_put and_then_def bm_refuses_present put_def bm_update_def
      split: prod.splits option.splits if_splits)

lemma urr_setup_counts: "urr_setup e seid u p = (p', None) \<Longrightarrow> counted seid p'"
  by (auto simp: urr_setup_def counted_def and_then_None put_None bm_update_accepted)

lemma and_then_throws: "snd r \<noteq> None \<Longrightarrow> and_then r f = r"
  by (cases r) (auto simp: and_then_def)

lemma until_throws_snd: "xs \<noteq> [] \<Longrightarrow> (\<And>x. snd (f x s) \<noteq> None) \<Longrightarrow> snd (until_throws f xs s) \<noteq> None"
  by (cases xs) (simp_all add: and_then_throws)

lemma until_throws_last:
  "until_throws f xs s = (s', None) \<Longrightarrow> xs \<noteq> [] \<Longrightarrow> (\<And>x s s'. f x s = (s', None) \<Longrightarrow> P s') \<Longrightarrow> P s'"
proof (induction xs arbitrary: s)
  case (Cons x xs)
  then show ?case by (cases xs) (auto simp: and_then_None)
qed simp

lemma counted_keeps: "(\<And>x p. counted seid p \<Longrightarrow> counted seid (fst (f x p))) \<Longrightarrow> counted seid p \<Longrightarrow> counted seid (fst (enforce on f xs p))"
  by (auto simp: enforce_def intro: until_throws_keeps)

lemma counted_teardown [simp]: "counted seid (QERTCProgram_TearDown t p) \<longleftrightarrow> counted seid p"
  by (simp add: counted_def QERTCProgram_TearDown_def split: option.split)

lemma counted_setup [simp]: "counted seid (fst (QERTCProgram_Setup e t qs p)) \<longleftrightarrow> counted seid p"
  by (simp add: counted_def QERTCProgram_Setup_def Let_def)

lemma counted_bar: "counted seid p \<Longrightarrow> counted seid (fst (bar_setup t b p))"
  unfolding bar_setup_def by (rule and_then_keeps) (simp_all add: counted_def fst_put)

lemma counted_mar: "counted seid p \<Longrightarrow> counted seid (fst (mar_setup t a p))"
  by (simp add: mar_setup_def counted_def fst_put)

text \<open>The enforcement of a session that reports: it throws if the session is counted already, and a session
  for which it returns is counted.\<close>

lemma enforcement_throws:
  assumes "counted (get_up_seid s) p" and "flag_on flags RULE_URR_ENABLED" and "urr_loaded e" and "s_urrs s \<noteq> []"
  shows "snd (SetupSessionEnforcementPrograms e s qs flags p) \<noteq> None"
proof -
  let ?seid = "get_up_seid s"
  define r where "r = (if flag_on flags RULE_QER_ENABLED \<and> qs \<noteq> []
    then QERTCProgram_Setup e ?seid qs (QERTCProgram_TearDown ?seid p) else (QERTCProgram_TearDown ?seid p, None))"
  have "counted ?seid (fst r)" using assms(1) by (simp add: r_def)
  then have "snd (until_throws (urr_setup e ?seid) (s_urrs s) (fst r)) \<noteq> None"
    using assms(4) by (intro until_throws_snd urr_setup_throws)
  then show ?thesis
    using assms(2-4) unfolding SetupSessionEnforcementPrograms_def Let_def r_def [symmetric]
    by (auto simp: and_then_def enforce_def split: prod.splits option.splits)
qed

lemma enforcement_counts:
  assumes "SetupSessionEnforcementPrograms e s qs flags p = (p', None)" and "flag_on flags RULE_URR_ENABLED"
    and "urr_loaded e" and "s_urrs s \<noteq> []"
  shows "counted (get_up_seid s) p'"
proof -
  let ?seid = "get_up_seid s"
  obtain p1 p2 p3 where u: "until_throws (urr_setup e ?seid) (s_urrs s) p1 = (p2, None)"
    and b: "enforce (flag_on flags RULE_BAR_ENABLED \<and> bar_loaded e) (bar_setup ?seid) (s_bars s) p2 = (p3, None)"
    and m: "enforce (flag_on flags RULE_MAR_ENABLED \<and> mar_loaded e) (mar_setup ?seid) (s_mars s) p3 = (p', None)"
    using assms unfolding SetupSessionEnforcementPrograms_def Let_def
    by (auto simp: and_then_None enforce_def [of _ "urr_setup e ?seid"])
  have "counted ?seid p2" by (rule until_throws_last [OF u assms(4)]) (rule urr_setup_counts)
  then have "counted ?seid p3"
    using counted_keeps [of ?seid "bar_setup ?seid" p2 _ "s_bars s"] counted_bar b by (metis fst_conv)
  then show ?thesis
    using counted_keeps [of ?seid "mar_setup ?seid" p3 _ "s_mars s"] counted_mar m by (metis fst_conv)
qed

text \<open>Once a session has been created that reports usage, no modification of it succeeds: the call
  throws, with the rules and the PDRs of every session left as they were. The counters are
  initialised anew with the flag that forbids replacing them, and the wrapper throws on the refusal.\<close>

lemma usage_reporting_blocks_modification:
  assumes "CreatePipeline e sw s qs p = (p0, None)" and "urr_loaded e" and "reports_usage sw s"
    and "get_up_seid s' = get_up_seid s" and "reports_usage sw' s'"
  shows "snd (ModifyPipeline e sw' s' ds p0) \<noteq> None \<and>
     (\<forall>is_eth. rules_map is_eth (fst (ModifyPipeline e sw' s' ds p0)) = rules_map is_eth p0 \<and>
        pdrs_map is_eth (fst (ModifyPipeline e sw' s' ds p0)) = pdrs_map is_eth p0)"
proof -
  let ?seid = "get_up_seid s"
  have flags: "flag_on (ComputeRulesEnabledFlags e sw s) RULE_URR_ENABLED" "flag_on (ComputeRulesEnabledFlags e sw' s') RULE_URR_ENABLED"
    using assms(2, 3, 5) by (simp_all add: flags_exact urr_loaded_def reports_usage_def)
  have urrs: "s_urrs s \<noteq> []" "s_urrs s' \<noteq> []" using assms(3, 5) by (simp_all add: reports_usage_def)
  obtain q where "SetupSessionEnforcementPrograms e s qs (ComputeRulesEnabledFlags e sw s) q = (p0, None)"
    using assms(1) unfolding CreatePipeline_def Let_def
    by (auto simp: and_then_None split: if_splits prod.splits option.splits)
  from enforcement_counts [OF this flags(1) assms(2) urrs(1)] have c: "counted ?seid p0" .
  define r where "r = UpdateRulesEnabledMap ?seid (ComputeRulesEnabledFlags e sw' s')
    (set_pdu_type ?seid (case session_pdu_type_map p0 ?seid of Some t \<Rightarrow> t | None \<Rightarrow> DetectPduSessionType sw' s') p0)"
  have "counted ?seid (fst r)" using c by (simp add: r_def UpdateRulesEnabledMap_def set_pdu_type_def counted_def fst_put)
  note fails = enforcement_throws [of s' "fst r", unfolded assms(4), OF this flags(2) assms(2) urrs(2)]
  have frame: "rules_map is_eth (fst r) = rules_map is_eth p0" "pdrs_map is_eth (fst r) = pdrs_map is_eth p0" for is_eth
    by (simp_all add: r_def UpdateRulesEnabledMap_def set_pdu_type_def rules_map_def pdrs_map_def fst_put)
  have m: "ModifyPipeline e sw' s' ds p0 \<in> {(p0, Some TooManyPdrs), (p0, Some NoXdpProgram),
      and_then r (SetupSessionEnforcementPrograms e s' (qers_downlink ds) (ComputeRulesEnabledFlags e sw' s'))}"
  proof -
    have "and_then r (\<lambda>p1. and_then (SetupSessionEnforcementPrograms e s' (qers_downlink ds) (ComputeRulesEnabledFlags e sw' s') p1) g) =
        and_then r (SetupSessionEnforcementPrograms e s' (qers_downlink ds) (ComputeRulesEnabledFlags e sw' s'))" for g
      using fails [of "qers_downlink ds"] by (cases r; cases "snd r") (auto simp: run_simps and_then_throws)
    then show ?thesis unfolding ModifyPipeline_def Let_def assms(4) r_def [symmetric] by simp
  qed
  have "snd (and_then r (SetupSessionEnforcementPrograms e s' (qers_downlink ds) (ComputeRulesEnabledFlags e sw' s'))) \<noteq> None"
    using fails [of "qers_downlink ds"] by (cases r; cases "snd r") (auto simp: run_simps)
  moreover have "content (fst (and_then r (SetupSessionEnforcementPrograms e s' (qers_downlink ds) (ComputeRulesEnabledFlags e sw' s')))) = content (fst r)"
    by (rule content_and_then [OF refl content_enforcement])
  note same = contentD(1, 2) [OF this, unfolded frame]
  ultimately show ?thesis using m same by (elim insertE emptyE) simp_all
qed

definition ex_urr :: pfcp_urr where
  "ex_urr = \<lparr>urr_id = (True, 3), urr_measurement_method = (False, []),
     urr_reporting_triggers = (False, []), urr_measurement_period = (False, []),
     urr_volume_threshold = (False, []), urr_volume_quota = (False, []), urr_time_threshold = (False, []),
     urr_time_quota = (False, []), urr_quota_holding_time = (False, []),
     urr_dropped_dl_traffic_threshold = (False, []), urr_monitoring_time = (False, []),
     urr_subsequent_volume_threshold = (False, []), urr_subsequent_time_threshold = (False, []),
     urr_subsequent_volume_quota = (False, []), urr_subsequent_time_quota = (False, []),
     urr_inactivity_detection_time = (False, []), urr_linked_urr_id = (False, []),
     urr_measurement_information = (False, []), urr_time_quota_mechanism = (False, []),
     urr_aggregated_urrs = (False, []), urr_far_id_for_quota_action = (False, []),
     urr_ethernet_inactivity_timer = (False, []), urr_additional_monitoring_time = (False, []),
     urr_event_information = (False, [])\<rparr>"

definition ex_counted_switch :: upf_switch where
  "ex_counted_switch = switch_new\<lparr>pdr_heap := [0 \<mapsto> (ex_ip_pdr 7)\<lparr>pdr_urr_id := (True, 3)\<rparr>],
     far_heap := [0 \<mapsto> ex_far 1 INTERFACE_VALUE_CORE]\<rparr>"

definition ex_counted_session :: pfcp_session where
  "ex_counted_session = ex_bpf_session\<lparr>s_urrs := [ex_urr]\<rparr>"

abbreviation ex_counted_created :: "pipeline run" where
  "ex_counted_created \<equiv> CreatePipeline ex_bpf_env ex_counted_switch ex_counted_session [] (pipeline_new 8)"

lemma ex_counted_created: "snd ex_counted_created = None"
  by (simp add: ex_counted_switch_def ex_counted_session_def urr_setup_def urr_loaded_def flag_on_def
      ComputeRulesEnabledFlags_def RULE_QER_ENABLED_def RULE_URR_ENABLED_def RULE_BAR_ENABLED_def RULE_MAR_ENABLED_def
      GetUrrForPdr_def get_urr_def ex_env_def pipe_eval)

end
