(* ===== verification/SessionRegistry.thy ===== *)
theory SessionRegistry
  imports SessionManager SessionCalls "HOL-Library.Multiset"
begin

text \<open>
  The registry of the BPF side: what a registered session is, in every state the calls of the switch and
  the calls on single rules can reach, the order of the PDR lists, and the ways an operation fails.
\<close>

section \<open>Registered copies\<close>

definition alive :: "manager \<Rightarrow> nat \<Rightarrow> bool" where
  "alive m r \<longleftrightarrow> m_copies m r \<noteq> None"

text \<open>Every registered copy exists and has the SEID it is registered under; so do those in the vector, and
  a reference not given yet has no copy.\<close>

definition manager_ok :: "manager \<Rightarrow> bool" where
  "manager_ok m \<longleftrightarrow>
     (\<forall>seid r. m_registry m seid = Some r \<longrightarrow> alive m r \<and> get_up_seid (session_at m r) = seid) \<and>
     (\<forall>r\<in>set (m_sessions m). alive m r) \<and> (\<forall>r. alive m r \<longrightarrow> r < m_next m)"

text \<open>The pipeline changed by calls.\<close>

definition by_calls :: "bpf_env \<Rightarrow> pipeline \<Rightarrow> pipeline \<Rightarrow> bool" where
  "by_calls e p p' \<longleftrightarrow> (\<exists>cs. p' = fold (run_call e) cs p)"

lemma by_calls_refl [simp]: "by_calls e p p"
  unfolding by_calls_def by (rule exI [of _ "[]"]) simp

lemma by_calls_trans: "by_calls e p p' \<Longrightarrow> by_calls e p' p'' \<Longrightarrow> by_calls e p p''"
  unfolding by_calls_def by (metis comp_apply fold_append)

lemma by_calls_one: "by_calls e p (run_call e c p)"
  unfolding by_calls_def by (rule exI [of _ "[c]"]) simp

text \<open>What an operation on one copy leaves: the registry, the vector, the copies that exist and their SEIDs.
  The pipeline changes by calls only.\<close>

definition same_registry :: "bpf_env \<Rightarrow> manager \<Rightarrow> manager \<Rightarrow> bool" where
  "same_registry e m m' \<longleftrightarrow>
     by_calls e (m_pipe m) (m_pipe m') \<and> m_registry m' = m_registry m \<and> m_sessions m' = m_sessions m \<and> m_next m' = m_next m \<and>
     (\<forall>r. alive m' r = alive m r) \<and> (\<forall>r. alive m r \<longrightarrow> get_up_seid (session_at m' r) = get_up_seid (session_at m r))"

lemma same_registry_refl [simp]: "same_registry e m m"
  by (simp add: same_registry_def)

lemma same_registry_trans: "same_registry e m m' \<Longrightarrow> same_registry e m' m'' \<Longrightarrow> same_registry e m m''"
  by (auto simp: same_registry_def intro: by_calls_trans)

lemma manager_ok_same: "manager_ok m \<Longrightarrow> same_registry e m m' \<Longrightarrow> manager_ok m'"
  unfolding manager_ok_def same_registry_def by metis

named_theorems registry_steps \<open>steps that leave the registry\<close>

lemma same_registry_pipe [registry_steps]: "by_calls e (m_pipe m) p \<Longrightarrow> same_registry e m (m\<lparr>m_pipe := p\<rparr>)"
  by (simp add: same_registry_def alive_def)

lemma same_registry_sw [registry_steps]: "same_registry e m (m\<lparr>m_sw := sw\<rparr>)"
  by (simp add: same_registry_def alive_def)

lemma same_registry_edit [registry_steps]:
  "alive m r \<Longrightarrow> (\<And>s. get_up_seid (f s) = get_up_seid s) \<Longrightarrow> same_registry e m (edit_session r f m)"
  by (auto simp: same_registry_def alive_def edit_session_def)

lemma same_registry_directions [registry_steps]: "alive m r \<Longrightarrow> same_registry e m (set_directions r ds m)"
  by (auto simp: same_registry_def alive_def set_directions_def)

lemma alive_same: "same_registry e m m' \<Longrightarrow> alive m r \<Longrightarrow> alive m' r"
  by (simp add: same_registry_def)

lemma same_registry_sorted [registry_steps]: "alive m r \<Longrightarrow> same_registry e m (categorize_and_sort l r m)"
  unfolding categorize_and_sort_def sort_lists_def categorize_def
  by (rule same_registry_trans [OF same_registry_directions])
    (auto intro!: same_registry_directions intro: alive_same [OF same_registry_directions])

lemma same_registry_create [registry_steps]: "same_registry e m (fst (create_pipeline e r m))"
  using by_calls_one [of e "m_pipe m" "CallCreate (m_sw m) (session_at m r) (qers_downlink (c_directions (copy_at m r)))"]
  by (auto simp: create_pipeline_def intro: same_registry_pipe split: prod.split)

lemma same_registry_modify [registry_steps]: "same_registry e m (fst (modify_pipeline e r m))"
  using by_calls_one [of e "m_pipe m" "CallModify (m_sw m) (session_at m r) (c_directions (copy_at m r))"]
  by (auto simp: modify_pipeline_def intro: same_registry_pipe split: prod.split)

section \<open>Destruction\<close>

lemma manager_ok_destroy: "manager_ok m \<Longrightarrow> manager_ok (destroy_copy e r m)"
  unfolding manager_ok_def destroy_copy_def alive_def by auto

lemma manager_ok_destroy_fold: "manager_ok m \<Longrightarrow> manager_ok (fold (destroy_copy e) rs m)"
  by (induction rs arbitrary: m) (auto simp: manager_ok_destroy)

lemma destroy_copy_registry [simp]:
  "m_registry (destroy_copy e r m) = m_registry m" "m_sessions (destroy_copy e r m) = m_sessions m"
  "m_next (destroy_copy e r m) = m_next m" "m_pipe (destroy_copy e r m) = m_pipe m"
  by (simp_all add: destroy_copy_def)

section \<open>Operations on one copy\<close>

text \<open>A function on the manager that leaves the registry when the copy exists.\<close>

definition on_copy :: "bpf_env \<Rightarrow> nat \<Rightarrow> (manager \<Rightarrow> manager \<times> 'x) \<Rightarrow> bool" where
  "on_copy e r f \<longleftrightarrow> (\<forall>m. alive m r \<longrightarrow> same_registry e m (fst (f m)))"

lemma on_copyD: "on_copy e r f \<Longrightarrow> alive m r \<Longrightarrow> same_registry e m (fst (f m))"
  by (simp add: on_copy_def)

lemma apply_updates_on_copy:
  assumes "\<And>u. on_copy e r (f u)" shows "on_copy e r (apply_updates f us)"
proof -
  have "alive m r \<Longrightarrow> same_registry e m (fst (apply_updates f us m))" for m
  proof (induction us arbitrary: m)
    case (Cons u us)
    note u = on_copyD [OF assms [of u] Cons.prems]
    have "same_registry e (fst (f u m)) (fst (apply_updates f us (fst (f u m))))"
      by (rule Cons.IH) (rule alive_same [OF u Cons.prems])
    then show ?case using u by (auto simp: case_prod_beta intro: same_registry_trans)
  qed simp
  then show ?thesis by (simp add: on_copy_def)
qed

lemma after_updates_on_copy:
  "on_copy e r g \<Longrightarrow> on_copy e r f \<Longrightarrow> on_copy e r (\<lambda>m. after_updates f (g m))"
  unfolding on_copy_def after_updates_def by (auto intro: same_registry_trans alive_same)

lemma modify_on_copy: "on_copy e r (modify_pipeline e r)"
  by (simp add: on_copy_def registry_steps)

lemma sorted_modify_on_copy: "on_copy e r (\<lambda>m. modify_pipeline e r (categorize_and_sort l r m))"
  unfolding on_copy_def by (blast intro: same_registry_trans registry_steps)

lemma categorize_registry [registry_steps]: "alive m r \<Longrightarrow> same_registry e m (categorize r m)"
  by (simp add: categorize_def registry_steps)

lemma categorized_modify_on_copy: "on_copy e r (\<lambda>m. modify_pipeline e r (categorize r m))"
  unfolding on_copy_def by (blast intro: same_registry_trans registry_steps)

lemma pdr_step_on_copy: "on_copy e r (pdr_update_step e l r u)"
  unfolding on_copy_def pdr_update_step_def by (auto simp: registry_steps split: option.split)

lemma far_step_on_copy: "on_copy e r (far_update_step l r u)"
  unfolding on_copy_def far_update_step_def by (auto simp: registry_steps split: option.split)

lemma value_step_on_copy:
  "(\<And>f s. get_up_seid (upd f s) = get_up_seid s) \<Longrightarrow> on_copy e r (value_update_step get upd P f has_id r)"
  unfolding on_copy_def value_update_step_def by (auto simp: registry_steps)

lemma update_handlers_on_copy:
  "on_copy e r (HandlePdrUpdates e l r req)" "on_copy e r (HandleFarUpdates e l r req)" "on_copy e r (HandleQerUpdates e r req)"
  "on_copy e r (HandleUrrUpdates e r req)" "on_copy e r (HandleBarUpdates e r req)" "on_copy e r (HandleMarUpdates e l r req)"
  unfolding HandlePdrUpdates_def HandleFarUpdates_def HandleQerUpdates_def HandleUrrUpdates_def HandleBarUpdates_def
    HandleMarUpdates_def
  by (intro after_updates_on_copy apply_updates_on_copy pdr_step_on_copy far_step_on_copy value_step_on_copy
      sorted_modify_on_copy modify_on_copy categorized_modify_on_copy; simp add: get_up_seid_def)+

lemma until_throws_on_copy: "\<forall>f\<in>set fs. on_copy e r f \<Longrightarrow> on_copy e r (until_throws (\<lambda>h. h) fs)"
  unfolding on_copy_def
proof (intro allI impI)
  fix m assume fs: "\<forall>f\<in>set fs. \<forall>m. alive m r \<longrightarrow> same_registry e m (fst (f m))" and r: "alive m r"
  show "same_registry e m (fst (until_throws (\<lambda>h. h) fs m))"
    by (rule until_throws_keeps [where P = "same_registry e m"])
      (use fs r in \<open>auto intro: same_registry_trans alive_same\<close>)
qed

lemma updates_registry: "alive m r \<Longrightarrow> same_registry e m (fst (handle_updates e l r req m))"
  unfolding handle_updates_def by (rule on_copyD [OF until_throws_on_copy]) (auto simp: update_handlers_on_copy)

section \<open>Operations on the registered copy\<close>

lemma on_registered_ok:
  assumes "manager_ok m" and "\<And>r. on_copy e r (f r)"
  shows "same_registry e m (fst (on_registered seid f m))"
  using assms by (auto simp: on_registered_def returned_def on_copy_def manager_ok_def split: option.split)

lemma edit_modify_on_copy:
  "(\<And>m s. get_up_seid (g m s) = get_up_seid s) \<Longrightarrow> on_copy e r (\<lambda>m. modify_pipeline e r (edit_session r (g m) m))"
  unfolding on_copy_def by (blast intro: same_registry_trans registry_steps)

lemma remove_pdr_on_copy: "same_registry e m (fst (RemovePdrUnlocked e l seid i m))" if "manager_ok m"
  unfolding RemovePdrUnlocked_def
proof (rule on_registered_ok [OF that], unfold on_copy_def Let_def, intro allI impI)
  fix r m assume r: "alive m r"
  let ?e = "edit_session r (\<lambda>s. s\<lparr>s_pdrs := filter (\<lambda>x. \<not> pdr_id (pdr_at (m_sw m) x) = i) (s_pdrs s)\<rparr>) m"
  have e: "same_registry e m ?e" by (rule same_registry_edit [OF r]) (simp add: get_up_seid_def)
  have d: "same_registry e m (set_directions r ds ?e)" for ds
    by (rule same_registry_trans [OF e same_registry_directions [OF alive_same [OF e r]]])
  have "same_registry e m (sort_lists l r (set_directions r ds ?e))" for ds
    unfolding sort_lists_def by (rule same_registry_trans [OF d same_registry_directions [OF alive_same [OF d r]]])
  then show "same_registry e m (fst (modify_pipeline e r (sort_lists l r (set_directions r
      (c_directions (copy_at ?e r)\<lparr>pdrs_uplink := filter (\<lambda>x. \<not> pdr_id (pdr_at (m_sw m) x) = i) (pdrs_uplink (c_directions (copy_at ?e r))),
         pdrs_downlink := filter (\<lambda>x. \<not> pdr_id (pdr_at (m_sw m) x) = i) (pdrs_downlink (c_directions (copy_at ?e r)))\<rparr>) ?e))))"
    by (blast intro: same_registry_trans registry_steps)
qed

lemma remove_qer_on_copy: "same_registry e m (fst (RemoveQerUnlocked e seid i m))" if "manager_ok m"
  unfolding RemoveQerUnlocked_def
proof (rule on_registered_ok [OF that], unfold on_copy_def Let_def, intro allI impI)
  fix r m assume r: "alive m r"
  let ?e = "edit_session r (\<lambda>s. s\<lparr>s_qers := filter (\<lambda>x. \<not> qer_key x = i) (s_qers s)\<rparr>) m"
  have e: "same_registry e m ?e" by (rule same_registry_edit [OF r]) (simp add: get_up_seid_def)
  have "same_registry e m (set_directions r ds ?e)" for ds
    by (rule same_registry_trans [OF e same_registry_directions [OF alive_same [OF e r]]])
  then show "same_registry e m (fst (modify_pipeline e r (set_directions r
      (c_directions (copy_at ?e r)\<lparr>qers_uplink := filter (\<lambda>x. \<not> qer_key x = i) (qers_uplink (c_directions (copy_at ?e r))),
         qers_downlink := filter (\<lambda>x. \<not> qer_key x = i) (qers_downlink (c_directions (copy_at ?e r)))\<rparr>) ?e)))"
    by (blast intro: same_registry_trans registry_steps)
qed

lemma remove_value_on_copy:
  assumes "manager_ok m"
  shows "same_registry e m (fst (RemoveFarUnlocked e seid i m))" "same_registry e m (fst (RemoveUrrUnlocked e seid j m))"
    "same_registry e m (fst (RemoveBarUnlocked e seid k m))" "same_registry e m (fst (RemoveMar e seid n m))"
  unfolding RemoveFarUnlocked_def RemoveUrrUnlocked_def RemoveBarUnlocked_def RemoveMar_def
  by (rule on_registered_ok [OF assms], rule edit_modify_on_copy, simp add: get_up_seid_def)+

lemma on_copy_after: "(\<And>m. alive m r \<Longrightarrow> same_registry e m (g m)) \<Longrightarrow> on_copy e r f \<Longrightarrow> on_copy e r (\<lambda>m. f (g m))"
  unfolding on_copy_def by (blast intro: same_registry_trans alive_same)

lemma create_on_copy: "on_copy e r (create_pipeline e r)"
  by (simp add: on_copy_def registry_steps)

lemma add_value_on_copy:
  assumes "\<And>m s. get_up_seid (g m s) = get_up_seid s"
  shows "on_copy e r (\<lambda>m. create_pipeline e r (edit_session r (g m) m))"
    and "on_copy e r (\<lambda>m. create_pipeline e r (categorize r (edit_session r (g m) m)))"
    and "on_copy e r (\<lambda>m. create_pipeline e r (categorize_and_sort l r (edit_session r (g m) m)))"
  using assms
  by (intro on_copy_after [where g = "\<lambda>m. edit_session r (g m) m"] create_on_copy on_copy_after [where g = "categorize r"]
      on_copy_after [where g = "categorize_and_sort l r"] registry_steps; simp)+

lemma adds_on_copy:
  assumes "manager_ok m"
  shows "same_registry e m (fst (AddPdr e l seid x m))" "same_registry e m (fst (AddFar e seid x m))"
    "same_registry e m (fst (AddQer e seid q m))" "same_registry e m (fst (AddUrr e seid u m))"
    "same_registry e m (fst (AddBar e seid b m))" "same_registry e m (fst (AddMar e seid a m))"
  unfolding AddPdr_def AddFar_def AddQer_def AddUrr_def AddBar_def AddMar_def
  by (rule on_registered_ok [OF assms], rule add_value_on_copy, simp add: get_up_seid_def)+

lemma replace_on_copy:
  assumes "manager_ok m" and "\<And>r. on_copy e r (f r)" and "\<And>g s. get_up_seid (upd g s) = get_up_seid s"
  shows "same_registry e m (fst (replace_rule P x get upd f seid m))"
proof (cases "m_registry m seid")
  case (Some r)
  then have r: "alive m r" using assms(1) by (simp add: manager_ok_def)
  have e: "same_registry e m (edit_session r (upd g) m)" for g by (rule same_registry_edit [OF r assms(3)])
  have "same_registry e m (fst (f r (edit_session r (upd g) m)))" for g
    by (rule same_registry_trans [OF e on_copyD [OF assms(2) alive_same [OF e r]]])
  then show ?thesis by (simp add: replace_rule_def Some returned_def)
qed (simp add: replace_rule_def)

lemma replaces_on_copy:
  assumes "manager_ok m"
  shows "same_registry e m (fst (UpdatePdr e l seid x m))" "same_registry e m (fst (UpdateFar e seid x m))"
    "same_registry e m (fst (UpdateQer e seid q m))" "same_registry e m (fst (UpdateUrr e seid u m))"
    "same_registry e m (fst (UpdateBar e seid b m))" "same_registry e m (fst (UpdateMar e seid a m))"
  unfolding UpdatePdr_def UpdateFar_def UpdateQer_def UpdateUrr_def UpdateBar_def UpdateMar_def
  by (rule replace_on_copy [OF assms]; simp add: get_up_seid_def modify_on_copy sorted_modify_on_copy categorized_modify_on_copy)+

lemma remove_each_registry:
  assumes "\<And>i m. manager_ok m \<Longrightarrow> same_registry e m (fst (f i m))" and "manager_ok m"
  shows "same_registry e m (remove_each f is m)"
  using assms(2)
proof (induction "is" arbitrary: m)
  case (Cons i "is")
  let ?m = "if present i then fst (f (ie_val i) m) else m"
  have "same_registry e m ?m" using assms(1) [OF Cons.prems] by simp
  moreover from this have "same_registry e ?m (remove_each f is ?m)"
    by (intro Cons.IH manager_ok_same [OF Cons.prems])
  ultimately have "same_registry e m (remove_each f is ?m)" by (rule same_registry_trans)
  then show ?case by (simp add: remove_each_def)
qed (simp add: remove_each_def)

lemma removals_registry:
  assumes "manager_ok m" and "handle_removals e l seid req m = Some m'" shows "same_registry e m m'"
proof -
  have step: "same_registry e m (h q)" if "same_registry e m q" "\<And>q. manager_ok q \<Longrightarrow> same_registry e q (h q)"
    for h :: "manager \<Rightarrow> manager" and q
    using that assms(1) by (blast intro: same_registry_trans manager_ok_same)
  have "same_registry e m (HandleBarRemoval e seid req (HandleUrrRemoval e seid req (HandleQerRemoval e seid req
      (HandleFarRemoval e seid req (HandlePdrRemoval e l seid req m)))))"
    unfolding HandleBarRemoval_def HandleUrrRemoval_def HandleQerRemoval_def HandleFarRemoval_def HandlePdrRemoval_def
    by (intro step [where h = "remove_each _ _"] same_registry_refl remove_each_registry remove_pdr_on_copy
        remove_qer_on_copy remove_value_on_copy) simp_all
  then show ?thesis using assms(2) by (simp add: handle_removals_def HandleMarRemoval_def split: if_splits)
qed

section \<open>Lifecycle operations\<close>

lemma manager_ok_register:
  "manager_ok m \<Longrightarrow> alive m r \<Longrightarrow>
     manager_ok (m\<lparr>m_sessions := m_sessions m @ [r], m_registry := (m_registry m)(get_up_seid (session_at m r) \<mapsto> r)\<rparr>)"
  "manager_ok m \<Longrightarrow> alive m r \<Longrightarrow> manager_ok (m\<lparr>m_registry := (m_registry m)(get_up_seid (session_at m r) \<mapsto> r)\<rparr>)"
  by (auto simp: manager_ok_def alive_def)

lemma CreateSession_ok:
  assumes "manager_ok m" and "alive m r" shows "manager_ok (fst (CreateSession e l r m)) \<and> by_calls e (m_pipe m) (m_pipe (fst (CreateSession e l r m)))"
proof -
  let ?m = "m\<lparr>m_sessions := m_sessions m @ [r], m_registry := (m_registry m)(get_up_seid (session_at m r) \<mapsto> r)\<rparr>"
  have ok: "manager_ok ?m" by (rule manager_ok_register [OF assms])
  have "alive ?m r" using assms(2) by (simp add: alive_def)
  then have "same_registry e ?m (fst (create_pipeline e r (categorize_and_sort l r ?m)))"
    by (rule same_registry_trans [OF same_registry_sorted same_registry_create])
  note ok' = manager_ok_same [OF ok this] this
  obtain q x where q: "create_pipeline e r (categorize_and_sort l r ?m) = (q, x)" by (rule prod.exhaust)
  have "fst (CreateSession e l r m) = (if m_registry m (get_up_seid (session_at m r)) \<noteq> None then m else q)"
    by (cases x) (simp_all only: CreateSession_def Let_def q prod.case option.case fst_conv if_distrib [of fst])
  then show ?thesis using assms(1) ok' by (simp add: q same_registry_def)
qed

lemma alive_destroy: "alive m r \<Longrightarrow> m_registry m (get_up_seid (session_at m r)) = Some r \<Longrightarrow> alive (destroy_copy e c m) r"
  by (auto simp: destroy_copy_def alive_def)

lemma UpdateSession_ok:
  assumes "manager_ok m" and "alive m r" shows "manager_ok (fst (UpdateSession e l r m)) \<and> by_calls e (m_pipe m) (m_pipe (fst (UpdateSession e l r m)))"
proof (cases "m_registry m (get_up_seid (session_at m r))")
  case (Some old)
  let ?m = "m\<lparr>m_registry := (m_registry m)(get_up_seid (session_at m r) \<mapsto> r)\<rparr>"
  have ok: "manager_ok (destroy_copy e old ?m)" by (intro manager_ok_destroy manager_ok_register assms)
  have "alive (destroy_copy e old ?m) r" by (rule alive_destroy) (use assms(2) in \<open>simp_all add: alive_def\<close>)
  then have "same_registry e (destroy_copy e old ?m) (fst (modify_pipeline e r (categorize_and_sort l r (destroy_copy e old ?m))))"
    by (rule same_registry_trans [OF same_registry_sorted same_registry_modify])
  note ok' = manager_ok_same [OF ok this] this
  obtain q x where q: "modify_pipeline e r (categorize_and_sort l r (destroy_copy e old ?m)) = (q, x)" by (rule prod.exhaust)
  have "fst (UpdateSession e l r m) = q"
    by (cases x) (simp_all only: UpdateSession_def Let_def Some q prod.case option.case fst_conv)
  then show ?thesis using ok' by (simp add: q same_registry_def)
qed (simp add: UpdateSession_def assms)

lemma destroy_fold_pipe [simp]: "m_pipe (fold (destroy_copy e) rs m) = m_pipe m"
  by (induction rs arbitrary: m) simp_all

lemma DeleteSession_ok:
  "manager_ok m \<Longrightarrow> manager_ok (fst (DeleteSession e seid m)) \<and> by_calls e (m_pipe m) (m_pipe (fst (DeleteSession e seid m)))"
proof (cases "m_registry m seid")
  case (Some r)
  assume "manager_ok m"
  then have "manager_ok (m\<lparr>m_pipe := RemovePipeline e seid (m_pipe m), m_registry := (m_registry m)(seid := None),
      m_sessions := filter (\<lambda>c. get_up_seid (session_at m c) \<noteq> seid) (m_sessions m)\<rparr>)"
    by (auto simp: manager_ok_def alive_def)
  then show ?thesis using manager_ok_destroy manager_ok_destroy_fold by_calls_one [of e "m_pipe m" "CallRemove seid"]
    by (simp add: DeleteSession_def Some Let_def)
qed (simp add: DeleteSession_def)

lemma ModifySession_ok:
  assumes "manager_ok m" and "alive m r" and "ModifySession e l r req m = Some (m', x)"
  shows "manager_ok m' \<and> by_calls e (m_pipe m) (m_pipe m')"
proof -
  let ?seid = "get_up_seid (session_at m r)"
  note u = updates_registry [OF assms(2), of e l req]
  have ok: "manager_ok (fst (handle_updates e l r req m))" "alive (fst (handle_updates e l r req m)) r"
    by (rule manager_ok_same [OF assms(1) u], rule alive_same [OF u assms(2)])
  consider "m' = m" | "m' = fst (handle_updates e l r req m)"
    | m2 where "handle_removals e l ?seid req (fst (handle_updates e l r req m)) = Some m2" "(m', x) = UpdateSession e l r m2"
    using assms(3) by (auto simp: ModifySession_def Let_def split: if_splits prod.splits option.splits)
  then show ?thesis
  proof cases
    case 3
    note s = removals_registry [OF ok(1) 3(1)]
    have "by_calls e (m_pipe m) (m_pipe m2)" using u s by (auto simp: same_registry_def intro: by_calls_trans)
    moreover note UpdateSession_ok [OF manager_ok_same [OF ok(1) s] alive_same [OF s ok(2)], of e l]
    moreover have "m' = fst (UpdateSession e l r m2)" using 3(2) by (metis fst_conv)
    ultimately show ?thesis by (auto intro: by_calls_trans)
  qed (use assms(1) ok u in \<open>simp_all add: same_registry_def\<close>)
qed

lemma new_copy_ok:
  assumes "manager_ok m" shows "manager_ok (new_copy s now m) \<and> alive (new_copy s now m) (m_next m)"
proof -
  have "\<not> alive m (m_next m)" using assms by (auto simp: manager_ok_def)
  then have "m_registry m seid \<noteq> Some (m_next m)" "m_next m \<notin> set (m_sessions m)" for seid
    using assms by (auto simp: manager_ok_def)
  then show ?thesis
    using assms by (auto simp: manager_ok_def new_copy_def alive_def less_Suc_eq)
qed

lemma call_datapath_ok:
  assumes "manager_ok m" and "call_datapath e l now s c m = Some m'"
  shows "manager_ok m' \<and> by_calls e (m_pipe m) (m_pipe m')"
proof -
  obtain m1 x where run: "run_crud e l c (m_next m) (new_copy s now m) = Some (m1, x)"
    and m': "m' = destroy_copy e (m_next m) m1"
    using assms(2) by (auto simp: call_datapath_def)
  have n: "manager_ok (new_copy s now m)" "alive (new_copy s now m) (m_next m)" using new_copy_ok [OF assms(1)] by auto
  have "manager_ok m1 \<and> by_calls e (m_pipe (new_copy s now m)) (m_pipe m1)"
  proof (cases c)
    case CrudEstablish
    then show ?thesis
      using run n(1) CreateSession_ok [OF n, of e l] by (auto simp: run_crud_def EstablishSession_def split: if_splits)
  next
    case (CrudModify req)
    then show ?thesis using run ModifySession_ok [OF n] by (simp add: run_crud_def)
  next
    case CrudRemove
    then show ?thesis using run DeleteSession_ok [OF n(1), of e "get_up_seid (session_at (new_copy s now m) (m_next m))"]
      by (auto simp: run_crud_def RemoveSession_def)
  qed
  then show ?thesis unfolding m' by (simp add: manager_ok_destroy new_copy_def)
qed

section \<open>Reachable registries\<close>

text \<open>Everything that happens to the manager: calls of the switch that return, calls on single rules, and the
  switch changing its tables and rules in between.\<close>

inductive manager_step :: "bpf_env \<Rightarrow> sm_lib \<Rightarrow> manager \<Rightarrow> manager \<Rightarrow> bool" for e l where
  called: "call_datapath e l now s c m = Some m' \<Longrightarrow> manager_step e l m m'"
| add_pdr: "manager_step e l m (fst (AddPdr e l seid x m))"
| add_far: "manager_step e l m (fst (AddFar e seid x m))"
| add_qer: "manager_step e l m (fst (AddQer e seid q m))"
| add_urr: "manager_step e l m (fst (AddUrr e seid u m))"
| add_bar: "manager_step e l m (fst (AddBar e seid b m))"
| add_mar: "manager_step e l m (fst (AddMar e seid a m))"
| replace_pdr: "manager_step e l m (fst (UpdatePdr e l seid x m))"
| replace_far: "manager_step e l m (fst (UpdateFar e seid x m))"
| replace_qer: "manager_step e l m (fst (UpdateQer e seid q m))"
| replace_urr: "manager_step e l m (fst (UpdateUrr e seid u m))"
| replace_bar: "manager_step e l m (fst (UpdateBar e seid b m))"
| replace_mar: "manager_step e l m (fst (UpdateMar e seid a m))"
| remove_pdr: "manager_step e l m (fst (RemovePdrUnlocked e l seid i m))"
| remove_far: "manager_step e l m (fst (RemoveFarUnlocked e seid j m))"
| remove_qer: "manager_step e l m (fst (RemoveQerUnlocked e seid j m))"
| remove_urr: "manager_step e l m (fst (RemoveUrrUnlocked e seid j m))"
| remove_bar: "manager_step e l m (fst (RemoveBarUnlocked e seid k m))"
| remove_mar: "manager_step e l m (fst (RemoveMar e seid k m))"
| switched: "manager_step e l m (m\<lparr>m_sw := sw\<rparr>)"

definition manager_new :: "upf_switch \<Rightarrow> pipeline \<Rightarrow> manager" where
  "manager_new sw p = \<lparr>m_sessions = [], m_registry = Map.empty, m_copies = Map.empty, m_next = 0, m_sw = sw, m_pipe = p\<rparr>"

lemma manager_ok_new [simp]: "manager_ok (manager_new sw p)"
  by (simp add: manager_ok_def manager_new_def alive_def)

lemma same_registry_result: "manager_ok m \<Longrightarrow> same_registry e m m' \<Longrightarrow> manager_ok m' \<and> by_calls e (m_pipe m) (m_pipe m')"
  by (auto intro: manager_ok_same simp: same_registry_def)

lemma manager_step_ok: "manager_step e l m m' \<Longrightarrow> manager_ok m \<Longrightarrow> manager_ok m' \<and> by_calls e (m_pipe m) (m_pipe m')"
proof (induction rule: manager_step.induct)
  case (called now s c m m')
  show ?case by (rule call_datapath_ok [OF called(2) called(1)])
qed (rule same_registry_result, assumption, (rule adds_on_copy replaces_on_copy remove_pdr_on_copy remove_qer_on_copy
    remove_value_on_copy same_registry_sw, assumption?))+

lemma manager_reachable_ok:
  "(manager_step e l)\<^sup>*\<^sup>* (manager_new sw p) m \<Longrightarrow> manager_ok m \<and> by_calls e p (m_pipe m)"
proof (induction rule: rtranclp_induct)
  case base
  have "m_pipe (manager_new sw p) = p" by (simp add: manager_new_def)
  then show ?case by simp
next
  case (step m m')
  then show ?case using manager_step_ok [OF step(2)] by (auto intro: by_calls_trans)
qed


text \<open>C29: a deletion that succeeds takes the session out of the registry and leaves no address that leads to
  it, in every state the manager can reach, with failed calls before.\<close>

theorem deleted_session_is_forgotten:
  assumes "(manager_step e l)\<^sup>*\<^sup>* (manager_new sw (pipeline_new n)) m" and "be_program e"
    and "DeleteSession e seid m = (m', res)" and "op_success res"
  shows "GetSession m' seid = None \<and> (\<forall>k s. bm_lookup (session_by_ue_ip_map (m_pipe m')) k = Some s \<longrightarrow> si_seid s \<noteq> seid)"
proof -
  obtain r where r: "m_registry m seid = Some r" using assms(3, 4) by (auto simp: DeleteSession_def split: option.splits)
  obtain cs where cs: "m_pipe m = fold (run_call e) cs (pipeline_new n)"
    using manager_reachable_ok [OF assms(1)] by (auto simp: by_calls_def)
  have "addresses_recorded (m_pipe m)" unfolding cs by (intro run_calls_recorded ex_life)
  note owner = RemovePipeline_owner [OF this assms(2), of seid]
  have m': "m' = fst (DeleteSession e seid m)" by (simp add: assms(3))
  have registry: "m_registry (fold (destroy_copy e) rs q) = m_registry q" for rs q
    by (induction rs arbitrary: q) simp_all
  show ?thesis using owner by (simp add: m' DeleteSession_def r Let_def GetSession_def registry)
qed

section \<open>An example\<close>

definition ex_sm :: sm_lib where
  "ex_sm = \<lparr>sm_sort = sort_key, sm_fp_update = (\<lambda>u f. f), sm_dp_update = (\<lambda>u f. f), sm_activate = (\<lambda>_. []),
     sm_deactivate = (\<lambda>_. []), sm_unset_steering = 0, sm_uids = ex_uids\<rparr>"

definition ex_manager :: manager where
  "ex_manager = manager_new (ex_bpf_switch 7) (pipeline_new 8)"

text \<open>The session is established through the switch.\<close>

definition ex_settled :: manager where
  "ex_settled = the (call_datapath ex_bpf_env ex_sm 0 ex_bpf_session CrudEstablish ex_manager)"

lemma CreateSession_registers:
  assumes "alive m r" and "m_registry m (get_up_seid (session_at m r)) = None"
  shows "m_registry (fst (CreateSession e l r m)) = (m_registry m)(get_up_seid (session_at m r) \<mapsto> r)"
proof -
  let ?m = "m\<lparr>m_sessions := m_sessions m @ [r], m_registry := (m_registry m)(get_up_seid (session_at m r) \<mapsto> r)\<rparr>"
  have "alive ?m r" using assms(1) by (simp add: alive_def)
  then have s: "same_registry e ?m (fst (create_pipeline e r (categorize_and_sort l r ?m)))"
    by (rule same_registry_trans [OF same_registry_sorted same_registry_create])
  obtain q x where q: "create_pipeline e r (categorize_and_sort l r ?m) = (q, x)" by (rule prod.exhaust)
  have "fst (CreateSession e l r m) = q"
    by (cases x) (simp_all only: CreateSession_def Let_def q prod.case option.case fst_conv if_distrib [of fst] assms(2) simp_thms if_False)
  then show ?thesis using s by (simp add: q same_registry_def)
qed

lemma ex_settled:
  "(manager_step ex_bpf_env ex_sm)\<^sup>*\<^sup>* ex_manager ex_settled" "GetSession ex_settled 1 = Some 0"
proof -
  let ?m = "new_copy ex_bpf_session 0 ex_manager"
  have seid: "get_up_seid (session_at ?m 0) = 1" "s_pdrs (session_at ?m 0) = [0]"
    by (simp_all add: new_copy_def ex_manager_def manager_new_def copy_session_def publish_fars_def session_new_def
        get_up_seid_def ex_bpf_session_def ex_session_def)
  have n: "m_next ex_manager = 0" by (simp add: ex_manager_def manager_new_def)
  have call: "call_datapath ex_bpf_env ex_sm 0 ex_bpf_session CrudEstablish ex_manager =
      Some (destroy_copy ex_bpf_env 0 (fst (CreateSession ex_bpf_env ex_sm 0 ?m)))"
    by (simp add: call_datapath_def run_crud_def EstablishSession_def seid n)
  show "(manager_step ex_bpf_env ex_sm)\<^sup>*\<^sup>* ex_manager ex_settled"
    by (rule r_into_rtranclp) (rule manager_step.called [of _ _ 0 ex_bpf_session CrudEstablish], simp add: ex_settled_def call)
  have "alive ?m 0" by (simp add: alive_def new_copy_def ex_manager_def manager_new_def)
  moreover have "m_registry ?m 1 = None" by (simp add: new_copy_def ex_manager_def manager_new_def)
  ultimately show "GetSession ex_settled 1 = Some 0"
    using CreateSession_registers [of ?m 0 ex_bpf_env ex_sm] by (simp add: GetSession_def ex_settled_def call seid)
qed


theorem deleted_session_is_forgotten_witness:
  "GetSession (fst (DeleteSession ex_bpf_env 1 ex_settled)) 1 = None"
  using deleted_session_is_forgotten [OF ex_settled(1) [unfolded ex_manager_def] _ prod.collapse [symmetric], of 1]
    ex_settled(2)
  by (simp add: GetSession_def ex_bpf_env_def DeleteSession_def Let_def)

lemma registered_alive_seid: "get_up_seid (session_at ex_settled 0) = 1"
  using manager_reachable_ok [OF ex_settled(1) [unfolded ex_manager_def]] ex_settled(2)
  by (simp add: manager_ok_def GetSession_def)

section \<open>Failures\<close>

text \<open>An establishment that fails because its pipeline throws leaves the session registered: establishing
  the same session again is refused, by any copy of it, and changes nothing.\<close>

lemma failed_establishment_blocks_retry:
  assumes "EstablishSession e l r m = (m', failed (ExceptionText x) seid)" and "alive m r"
    and "get_up_seid (session_at m' r') = seid" and "s_pdrs (session_at m' r') \<noteq> []"
  shows "EstablishSession e l r' m' = (m', failed SessionAlreadyExists seid)"
proof -
  have c: "CreateSession e l r m = (m', failed (ExceptionText x) seid)"
    using assms(1) by (auto simp: EstablishSession_def split: if_splits)
  have seid: "get_up_seid (session_at m r) = seid" and "m_registry m seid = None"
    using c by (auto simp: CreateSession_def Let_def split: if_splits prod.splits option.splits)
  then have "m_registry m' seid = Some r" using CreateSession_registers [OF assms(2), of e l] by (simp add: c)
  then show ?thesis using assms(3, 4) by (simp add: EstablishSession_def CreateSession_def Let_def)
qed

text \<open>The session is too large: the pipeline throws before it has done anything.\<close>

definition ex_too_large :: pfcp_session where
  "ex_too_large = ex_bpf_session\<lparr>s_pdrs := replicate 17 0\<rparr>"

definition ex_two_copies :: manager where
  "ex_two_copies = new_copy ex_too_large 0 (new_copy ex_too_large 0 ex_manager)"

lemma ex_two_copies:
  "alive ex_two_copies 0" "get_up_seid (session_at ex_two_copies r) = 1 \<or> r > 1"
  "m_registry ex_two_copies = Map.empty" "r \<le> 1 \<Longrightarrow> s_pdrs (session_at ex_two_copies r) = replicate 17 0"
  by (auto simp: ex_two_copies_def new_copy_def ex_manager_def manager_new_def alive_def copy_session_def publish_fars_def
      session_new_def get_up_seid_def ex_too_large_def ex_bpf_session_def ex_session_def)

lemma categorize_session:
  "session_at (categorize_and_sort l r m) r = session_at m r" "r' \<noteq> r \<Longrightarrow> m_copies (categorize_and_sort l r m) r' = m_copies m r'"
  "m_sw (categorize_and_sort l r m) = m_sw m"
  by (simp_all add: categorize_and_sort_def sort_lists_def categorize_def set_directions_def)

lemma ex_first_fails:
  "\<exists>m'. EstablishSession ex_bpf_env ex_sm 0 ex_two_copies = (m', failed (ExceptionText TooManyPdrs) 1) \<and>
     m_copies m' 1 = m_copies ex_two_copies 1"
proof -
  let ?m = "ex_two_copies\<lparr>m_sessions := m_sessions ex_two_copies @ [0], m_registry := [1 \<mapsto> 0]\<rparr>"
  have "create_pipeline ex_bpf_env 0 (categorize_and_sort ex_sm 0 ?m) = (categorize_and_sort ex_sm 0 ?m, Some TooManyPdrs)"
    by (simp add: create_pipeline_def CreatePipeline_def categorize_session ex_two_copies MAX_PDRS_PER_PDU_SESSION_LIMIT_def)
  moreover have "get_up_seid (session_at ex_two_copies 0) = 1" using ex_two_copies(2) [of 0] by simp
  ultimately show ?thesis
    by (simp add: EstablishSession_def CreateSession_def Let_def ex_two_copies categorize_session(2))
qed

text \<open>A modification that removes a MAR never returns, once its updates went through: the removal of the
  other rules works under the lock that is held, the removal of a MAR takes it again. With the whole call
  of the switch, nothing after it runs either.\<close>

lemma mar_removal_never_returns:
  assumes "m_registry m (get_up_seid (session_at m r)) \<noteq> None" and "snd (handle_updates e l r req m) = None"
    and "\<exists>i\<in>set (mr_remove_mars req). present i"
  shows "ModifySession e l r req m = None"
  using assms by (auto simp: ModifySession_def Let_def handle_removals_def HandleMarRemoval_def split: prod.splits option.splits)

definition ex_mar_request :: modification_request where
  "ex_mar_request = \<lparr>mr_seid = 1, mr_cp_fseid = (False, \<lparr>fs_seid = 0, fs_addr = []\<rparr>), mr_remove_pdrs = [], mr_remove_fars = [],
     mr_remove_qers = [], mr_remove_urrs = [], mr_remove_bar = (False, (False, 0)), mr_remove_mars = [(True, 4)],
     mr_create_fars = [], mr_create_pdrs = [], mr_create_qers = [], mr_create_urrs = [],
     mr_create_bar = (False, \<lparr>cbar_bar_id = (False, 0),
       cbar_suggested_buffering_packets_count = (False, 0), cbar_downlink_data_notification_delay = (False, 0)\<rparr>), mr_create_mars = [], mr_update_pdrs = [], mr_update_fars = [], mr_update_qers = [],
     mr_update_urrs = [], mr_update_bar = (False, \<lparr>ubar_bar_id = (False, 0), ubar_downlink_data_notification_delay = (False, 0),
       ubar_suggested_buffering_packets_count = (False, 0)\<rparr>), mr_update_mars = []\<rparr>"

lemma ex_no_updates: "handle_updates e l r ex_mar_request m = (m, None)"
  by (simp add: handle_updates_def HandlePdrUpdates_def HandleFarUpdates_def HandleQerUpdates_def HandleUrrUpdates_def
      HandleBarUpdates_def HandleMarUpdates_def after_updates_def ex_mar_request_def opt_list_def run_simps)

section \<open>Order of the lists\<close>

text \<open>The contract of \<open>std::sort\<close> by a key: the elements stay, and the keys ascend.\<close>

definition sorts :: "sm_lib \<Rightarrow> bool" where
  "sorts l \<longleftrightarrow> (\<forall>key xs. mset (sm_sort l key xs) = mset xs \<and> sorted (map key (sm_sort l key xs)))"

definition lists_in_order :: "upf_switch \<Rightarrow> session_copy \<Rightarrow> bool" where
  "lists_in_order sw c \<longleftrightarrow>
     sorted (map (precedence_at sw) (pdrs_uplink (c_directions c))) \<and>
     sorted (map (precedence_at sw) (pdrs_downlink (c_directions c))) \<and>
     mset (pdrs_uplink (c_directions c)) =
       mset (filter (\<lambda>r. from_interface INTERFACE_VALUE_ACCESS (pdr_at sw r)) (s_pdrs (c_session c))) \<and>
     mset (pdrs_downlink (c_directions c)) =
       mset (filter (\<lambda>r. from_interface INTERFACE_VALUE_CORE (pdr_at sw r)) (s_pdrs (c_session c)))"

lemma categorize_and_sort_order: "sorts l \<Longrightarrow> lists_in_order (m_sw m) (copy_at (categorize_and_sort l r m) r)"
  by (simp add: lists_in_order_def categorize_and_sort_def sort_lists_def categorize_def set_directions_def
      sort_directions_def SortPdrs_def CategorizePdrs_def Let_def sorts_def)

lemma categorize_and_sort_sw [simp]: "m_sw (categorize_and_sort l r m) = m_sw m"
  by (simp add: categorize_and_sort_def categorize_def sort_lists_def set_directions_def)

lemma pipeline_result:
  "\<exists>p x. create_pipeline e r m = (m\<lparr>m_pipe := p\<rparr>, x)"
  "\<exists>p x. modify_pipeline e r m = (m\<lparr>m_pipe := p\<rparr>, x)"
  unfolding create_pipeline_def modify_pipeline_def by (simp_all add: case_prod_beta) blast+

text \<open>Establishing or modifying a session leaves its uplink list with exactly its PDRs from the access
  side and its downlink list with exactly those from the core, each by ascending precedence value, also
  when the pipeline throws.\<close>

lemma lists_are_sorted:
  assumes "sorts l"
  shows "case m_registry m (get_up_seid (session_at m r)) of
      None \<Rightarrow> lists_in_order (m_sw (fst (CreateSession e l r m))) (copy_at (fst (CreateSession e l r m)) r)
    | Some _ \<Rightarrow> lists_in_order (m_sw (fst (UpdateSession e l r m))) (copy_at (fst (UpdateSession e l r m)) r)"
proof (cases "m_registry m (get_up_seid (session_at m r))")
  case None
  let ?m = "m\<lparr>m_sessions := m_sessions m @ [r], m_registry := (m_registry m)(get_up_seid (session_at m r) \<mapsto> r)\<rparr>"
  obtain p x where p: "create_pipeline e r (categorize_and_sort l r ?m) = ((categorize_and_sort l r ?m)\<lparr>m_pipe := p\<rparr>, x)"
    using pipeline_result(1) by blast
  have "fst (CreateSession e l r m) = (categorize_and_sort l r ?m)\<lparr>m_pipe := p\<rparr>"
    by (cases x) (simp_all only: CreateSession_def Let_def p None prod.case option.case fst_conv if_distrib [of fst] simp_thms if_False)
  then show ?thesis using categorize_and_sort_order [OF assms, of ?m r] by (simp add: None)
next
  case (Some old)
  let ?m = "destroy_copy e old (m\<lparr>m_registry := (m_registry m)(get_up_seid (session_at m r) \<mapsto> r)\<rparr>)"
  obtain p x where p: "modify_pipeline e r (categorize_and_sort l r ?m) = ((categorize_and_sort l r ?m)\<lparr>m_pipe := p\<rparr>, x)"
    using pipeline_result(2) by blast
  have "fst (UpdateSession e l r m) = (categorize_and_sort l r ?m)\<lparr>m_pipe := p\<rparr>"
    by (cases x) (simp_all only: UpdateSession_def Let_def p Some prod.case option.case fst_conv)
  then show ?thesis using categorize_and_sort_order [OF assms, of ?m r] by (simp add: Some)
qed

end
