(* ===== verification/XdpPacket.thy ===== *)
theory XdpPacket
  imports SessionPipeline GtpuMessages
begin

text \<open>
  What the XDP programs work on (\<open>kernel/include/packet_context.h\<close>, \<open>kernel/protocols\<close>,
  \<open>kernel/utils/csum.h\<close>, the two GTP-U functions of \<open>kernel/xdp/xdp_far_apply_kern.c\<close>): the state of
  one CPU with the maps it reads, the parsers of the headers, and GTP-U encapsulation and
  decapsulation over the bytes of the packet.

  A program is a function on the state. The memory of a packet is three byte lists: what is in front of
  it, the metadata it hands to traffic control, its data. Addresses the sources keep in network byte
  order are integers as a little-endian host loads them. The kernel helpers answer as they are
  documented; the route look-up, the checksum difference, the clock, the loaded programs, the
  interfaces, the configured number of PDRs and the room in the ring buffers are parameters.

  The maps of URR, BAR and MAR are those the kernel side declares. The user side writes structures of
  another layout to them, so what it writes is not what these fields hold.
\<close>

section \<open>Packet context\<close>

datatype session_type = IpUplink | IpDownlink | EthUplink | EthDownlink

fun IS_UPLINK :: "session_type \<Rightarrow> bool" where
  "IS_UPLINK st \<longleftrightarrow> st = IpUplink \<or> st = EthUplink"

fun IS_DOWNLINK :: "session_type \<Rightarrow> bool" where
  "IS_DOWNLINK st \<longleftrightarrow> st = IpDownlink \<or> st = EthDownlink"

fun IS_ETH_PDU :: "session_type \<Rightarrow> bool" where
  "IS_ETH_PDU st \<longleftrightarrow> st = EthUplink \<or> st = EthDownlink"

datatype final_action = RedirectUl | RedirectDl | PassToTc | ActionDrop | ActionPass

record packet_context =
  pc_session_type :: session_type
  pc_ue_ip :: u32
  pc_qfi :: u8
  pc_pkt_teid :: u32
  pc_src_ip :: u32
  pc_dst_ip :: u32
  pc_src_port :: u16
  pc_dst_port :: u16
  pc_protocol :: u8
  pc_seid :: u64
  pc_teid_ul :: u32
  pc_teid_dl :: u32
  pc_rules_enabled :: u32
  pc_pdr_id :: u32
  pc_final_action :: final_action
  pc_inner_eth_src :: "byte list"
  pc_inner_eth_dst :: "byte list"
  pc_inner_eth_proto :: u16
  pc_gnb_ipv4 :: u32
  pc_pdr_mar_id :: u16

section \<open>Structures of the kernel's maps\<close>

record urr_volume =
  ul_bytes :: u64
  dl_bytes :: u64
  ul_pkts :: u64
  dl_pkts :: u64
  total_bytes :: u64
  total_pkts :: u64
  dropped_dl_bytes :: u64
  dropped_dl_packets :: u64

record urr_config =
  uc_urr_id :: u32
  uc_reporting_triggers :: u8
  uc_volume_threshold_total :: u64
  uc_volume_threshold_ul :: u64
  uc_volume_threshold_dl :: u64
  uc_volume_quota_total :: u64
  uc_volume_quota_ul :: u64
  uc_volume_quota_dl :: u64
  uc_time_threshold_ns :: u64
  uc_time_quota_ns :: u64
  uc_dropped_dl_threshold_bytes :: u64
  uc_dropped_dl_threshold_pkts :: u32
  uc_monitoring_time_ns :: u64
  uc_measurement_period_ns :: u64
  uc_last_report_ns :: u64

record urr_report_event =
  ue_seid :: u64
  ue_urr_id :: u32
  ue_trigger :: u8
  ue_vol :: urr_volume
  ue_timestamp_ns :: u64
  ue_start_time_ns :: u64

record bar_config =
  bc_bar_id :: u32
  bc_suggested_buf_pkt_cnt :: u16
  bc_dl_notification_delay_sec :: u8

record bar_state =
  bs_last_ddn_ns :: u64
  bs_buffered_pkt_count :: u32
  bs_notification_sent :: u8

record bar_ddn_event =
  de_seid :: u64
  de_bar_id :: u32
  de_pdr_id :: u32
  de_timestamp_ns :: u64
  de_ue_ip :: u32

record mar_config =
  mc_mar_id :: u16
  mc_steer_mode :: u8
  mc_active_access :: u8
  mc_standby_access :: u8
  mc_priority_access :: u8
  mc_weight_3gpp :: u8
  mc_weight_non3gpp :: u8

record mar_access_state =
  ma_rtt_3gpp_ns :: u64
  ma_rtt_non3gpp_ns :: u64
  ma_rtt_updated_ns :: u64
  ma_status_3gpp :: u8
  ma_status_non3gpp :: u8

section \<open>State of a CPU and its environment\<close>

datatype xdp_action = XDP_ABORTED | XDP_DROP | XDP_PASS | XDP_TX | XDP_REDIRECT

datatype upf_prog =
  PROG_SESSION_LOOKUP_IP | PROG_SESSION_LOOKUP_ETH | PROG_PDR_MATCH | PROG_FAR_APPLY
  | PROG_QER_APPLY | PROG_URR_APPLY | PROG_BAR_APPLY | PROG_MAR_APPLY

datatype reference_point = N3_INTERFACE | N6_INTERFACE

text \<open>\<open>xs_head\<close> is the memory in front of the metadata; \<open>xs_stats\<close> counts packets and bytes by verdict.\<close>

record xdp_state =
  xs_maps :: pipeline
  xs_pctx :: packet_context
  xs_head :: "byte list"
  xs_meta :: "byte list"
  xs_data :: "byte list"
  xs_stats :: "xdp_action \<Rightarrow> u64 \<times> u64"
  xs_redirect :: "u32 option"
  xs_n3_ip :: "u32 option"
  xs_mac_table :: "(byte list, u32 \<times> u32) bpf_map"
  xs_urr_volume :: "(u64, urr_volume) bpf_map"
  xs_urr_config :: "(u64, urr_config) bpf_map"
  xs_bar_config :: "(u64, bar_config) bpf_map"
  xs_bar_state :: "(u64, bar_state) bpf_map"
  xs_mar_config :: "(u64, mar_config) bpf_map"
  xs_mar_state :: "(u64, mar_access_state) bpf_map"
  xs_reports :: "urr_report_event list"
  xs_ddns :: "bar_ddn_event list"

record fib_params =
  fp_tos :: u8
  fp_l4_protocol :: u8
  fp_tot_len :: u16
  fp_ipv4_src :: u32
  fp_ipv4_dst :: u32

record fib_result =
  fr_success :: bool
  fr_ipv4_dst :: u32
  fr_dmac :: "byte list"
  fr_smac :: "byte list"

record xdp_env =
  xe_loaded :: "upf_prog \<Rightarrow> bool"
  xe_interface :: "reference_point \<Rightarrow> u32 option"
  xe_redirect :: "u32 \<Rightarrow> u32 option"
  xe_fib :: "fib_params \<Rightarrow> fib_result"
  xe_csum_diff :: "byte list \<Rightarrow> u32"
  xe_now :: u64
  xe_max_pdrs :: nat
  xe_report_room :: "urr_report_event list \<Rightarrow> bool"
  xe_ddn_room :: "bar_ddn_event list \<Rightarrow> bool"

type_synonym xdp_prog = "xdp_state \<Rightarrow> xdp_action \<times> xdp_state"

text \<open>An update of the context, and of a value through the pointer a look-up returned.\<close>

definition set_pctx :: "(packet_context \<Rightarrow> packet_context) \<Rightarrow> xdp_state \<Rightarrow> xdp_state" where
  "set_pctx f s = s\<lparr>xs_pctx := f (xs_pctx s)\<rparr>"

definition bm_modify :: "'k \<Rightarrow> ('v \<Rightarrow> 'v) \<Rightarrow> ('k, 'v) bpf_map \<Rightarrow> ('k, 'v) bpf_map" where
  "bm_modify k f m = m\<lparr>bm_elems := AList.map_entry k f (bm_elems m)\<rparr>"

text \<open>\<open>stats_maps.h\<close>; every verdict has its entry.\<close>

definition xdp_stats_record_action :: "xdp_action \<Rightarrow> xdp_prog" where
  "xdp_stats_record_action a s =
     (a, s\<lparr>xs_stats := (xs_stats s)(a := (fst (xs_stats s a) + 1, snd (xs_stats s a) + word_of_nat (length (xs_data s))))\<rparr>)"

text \<open>\<open>TAIL_CALL_NEXT\<close>: a loaded program takes over for good, an empty slot falls through.\<close>

definition tail_call :: "xdp_env \<Rightarrow> upf_prog \<Rightarrow> xdp_prog \<Rightarrow> xdp_prog \<Rightarrow> xdp_prog" where
  "tail_call e p next fall s = (if xe_loaded e p then next s else fall s)"

text \<open>\<open>bpf_redirect_map(map, key, 0)\<close>, with the slots of \<open>custom_types.h\<close>.\<close>

definition DOWNLINK :: u32 where "DOWNLINK = 0"
definition UPLINK :: u32 where "UPLINK = 1"

definition redirect_map :: "xdp_env \<Rightarrow> u32 \<Rightarrow> xdp_prog" where
  "redirect_map e k s =
     (case xe_redirect e k of
        None \<Rightarrow> xdp_stats_record_action XDP_ABORTED s
      | Some i \<Rightarrow> xdp_stats_record_action XDP_REDIRECT (s\<lparr>xs_redirect := Some i\<rparr>))"

definition EXECUTE_FINAL_ACTION :: "xdp_env \<Rightarrow> xdp_prog" where
  "EXECUTE_FINAL_ACTION e s =
     (case pc_final_action (xs_pctx s) of
        RedirectUl \<Rightarrow> redirect_map e UPLINK s
      | RedirectDl \<Rightarrow> redirect_map e DOWNLINK s
      | PassToTc \<Rightarrow> xdp_stats_record_action XDP_PASS s
      | ActionDrop \<Rightarrow> xdp_stats_record_action XDP_DROP s
      | ActionPass \<Rightarrow> xdp_stats_record_action XDP_PASS s)"

section \<open>Headers\<close>

definition bytes_at :: "nat \<Rightarrow> nat \<Rightarrow> byte list \<Rightarrow> byte list" where
  "bytes_at n i d = take n (drop i d)"

text \<open>A field in network byte order as the host loads it, and as it is stored.\<close>

definition load_net32 :: "nat \<Rightarrow> byte list \<Rightarrow> u32" where
  "load_net32 i d = bswap32 (of_be32 (bytes_at 4 i d))"

definition net32 :: "u32 \<Rightarrow> byte list" where
  "net32 a = be32 (bswap32 a)"

definition ETH_HLEN :: nat where "ETH_HLEN = 14"
definition IPHDR :: nat where "IPHDR = 20"
definition UDPHDR :: nat where "UDPHDR = 8"
definition TCPHDR :: nat where "TCPHDR = 20"
definition GTPUHDR :: nat where "GTPUHDR = 12"
definition PDU_SESSION_CONTAINER :: nat where "PDU_SESSION_CONTAINER = 4"
definition GTP_ENCAPSULATED_SIZE :: nat where
  "GTP_ENCAPSULATED_SIZE = IPHDR + UDPHDR + GTPUHDR + PDU_SESSION_CONTAINER"
definition GTP_UDP_PORT :: u16 where "GTP_UDP_PORT = 2152"
definition ETH_P_IP :: u16 where "ETH_P_IP = 0x0800"
definition ETH_P_ARP :: u16 where "ETH_P_ARP = 0x0806"

text \<open>The protocol and \<open>pass\<close>; 0 without \<open>pass\<close> is a bounds error.\<close>

definition parse_eth :: "byte list \<Rightarrow> u16 \<times> bool" where
  "parse_eth d =
     (if length d < ETH_HLEN then (0, False)
      else let proto = of_be16 (bytes_at 2 12 d)
           in if proto = ETH_P_IP then (ETH_P_IP, False) else (proto, True))"

text \<open>The parsers get the offset of their header; success and, where they have one, \<open>pass\<close>.\<close>

definition parse_ipv4 :: "nat \<Rightarrow> byte list \<Rightarrow> bool" where
  "parse_ipv4 i d \<longleftrightarrow> i + IPHDR \<le> length d"

definition parse_udp_gtpu :: "nat \<Rightarrow> byte list \<Rightarrow> bool \<times> bool" where
  "parse_udp_gtpu i d =
     (if length d < i + UDPHDR then (False, False)
      else if of_be16 (bytes_at 2 (i + 2) d) \<noteq> GTP_UDP_PORT then (False, True)
      else (True, False))"

definition GTPU_MSG_G_PDU :: byte where "GTPU_MSG_G_PDU = 255"

definition parse_gtpu_hdr :: "nat \<Rightarrow> byte list \<Rightarrow> u32 option \<times> bool" where
  "parse_gtpu_hdr i d =
     (if length d < i + GTPUHDR then (None, False)
      else if d ! (i + 1) \<noteq> GTPU_MSG_G_PDU then (None, True)
      else (Some (of_be32 (bytes_at 4 (i + 4) d)), False))"

definition parse_gtpu_ext_hdr :: "nat \<Rightarrow> byte list \<Rightarrow> u8 option" where
  "parse_gtpu_ext_hdr i d = (if length d < i + PDU_SESSION_CONTAINER then None else Some (d ! (i + 2)))"

definition parse_inner_ipv4 :: "nat \<Rightarrow> byte list \<Rightarrow> u32 option" where
  "parse_inner_ipv4 i d = (if length d < i + IPHDR then None else Some (of_be32 (bytes_at 4 (i + 12) d)))"

text \<open>Source and destination, protocol, ports; the fields are written before a bounds error is found.\<close>

definition l4_header :: "u8 \<Rightarrow> nat" where
  "l4_header proto = (if proto = IPPROTO_TCP then TCPHDR else if proto = IPPROTO_UDP then UDPHDR else 0)"

definition extract_5tuple :: "nat \<Rightarrow> byte list \<Rightarrow> packet_context \<Rightarrow> packet_context \<times> bool" where
  "extract_5tuple i d c =
     (let proto = d ! (i + 9);
          c1 = c\<lparr>pc_src_ip := of_be32 (bytes_at 4 (i + 12) d), pc_dst_ip := of_be32 (bytes_at 4 (i + 16) d),
                 pc_protocol := proto, pc_src_port := 0, pc_dst_port := 0\<rparr>
      in if l4_header proto = 0 then (c1, True)
         else if length d < i + IPHDR + l4_header proto then (c1, False)
         else (c1\<lparr>pc_src_port := of_be16 (bytes_at 2 (i + IPHDR) d),
                  pc_dst_port := of_be16 (bytes_at 2 (i + IPHDR + 2) d)\<rparr>, True))"

section \<open>Checksums\<close>

definition pcn_csum_fold :: "u32 \<Rightarrow> u16" where
  "pcn_csum_fold csum =
     (let a = (csum AND 0xFFFF) + drop_bit 16 csum; b = (a AND 0xFFFF) + drop_bit 16 a
      in ucast (NOT b))"

definition pcn_csum16_add :: "u16 \<Rightarrow> u16 \<Rightarrow> u16" where
  "pcn_csum16_add csum addend = (let res = csum + addend in res + (if res < addend then 1 else 0))"

definition pcn_csum_add :: "u32 \<Rightarrow> u32 \<Rightarrow> u32" where
  "pcn_csum_add csum addend = (let res = csum + addend in res + (if res < addend then 1 else 0))"

definition pcn_csum_replace_by_diff :: "u16 \<Rightarrow> u32 \<Rightarrow> u16" where
  "pcn_csum_replace_by_diff cur diff = pcn_csum_fold (pcn_csum_add diff (NOT (ucast cur)))"

text \<open>\<open>None\<close> is an error; \<open>flags\<close> is the size of the field that changed.\<close>

definition pcn_l3_csum_replace :: "nat \<Rightarrow> u32 \<Rightarrow> u32 \<Rightarrow> nat \<Rightarrow> byte list \<Rightarrow> byte list option" where
  "pcn_l3_csum_replace off old_value new_value flags d =
     (if 15 < flags \<or> 0xFFFF < off \<or> odd off \<or> length d < off + 2 then None
      else let cur = word_of_nat (load_le (bytes_at 2 off d)) :: u16
           in if flags = 0 then Some (store16 off (pcn_csum_replace_by_diff cur new_value) d)
              else if flags = 2
              then Some (store16 off (NOT (pcn_csum16_add (pcn_csum16_add (NOT cur) (NOT (ucast old_value))) (ucast new_value))) d)
              else if flags = 4
              then Some (store16 off (pcn_csum_replace_by_diff cur (pcn_csum_add new_value (NOT old_value))) d)
              else None)"

definition IP_CSUM_OFFSET :: nat where "IP_CSUM_OFFSET = ETH_HLEN + 10"

section \<open>Memory of a packet\<close>

text \<open>\<open>bpf_xdp_adjust_head\<close>, to the front: the metadata moves along, the bytes uncovered are what was
  there. To the back: at least an Ethernet header must remain.\<close>

definition grow_head :: "nat \<Rightarrow> xdp_state \<Rightarrow> xdp_state option" where
  "grow_head n s =
     (if length (xs_head s) < n then None
      else let m = xs_head s @ xs_meta s
           in Some (s\<lparr>xs_head := take (length (xs_head s) - n) (xs_head s),
                      xs_data := drop (length m - n) m @ xs_data s\<rparr>))"

definition strip_head :: "nat \<Rightarrow> xdp_state \<Rightarrow> xdp_state option" where
  "strip_head n s =
     (if length (xs_data s) < n + ETH_HLEN then None
      else Some (s\<lparr>xs_head := take (length (xs_head s) + n) (xs_head s @ xs_meta s @ xs_data s),
                   xs_data := drop n (xs_data s)\<rparr>))"

text \<open>\<open>bpf_xdp_adjust_meta(ctx, -sizeof(struct session_qfi))\<close>.\<close>

definition SESSION_QFI_SIZE :: nat where "SESSION_QFI_SIZE = 16"

definition reserve_meta :: "xdp_state \<Rightarrow> xdp_state option" where
  "reserve_meta s =
     (if length (xs_head s) < SESSION_QFI_SIZE then None
      else let k = length (xs_head s) - SESSION_QFI_SIZE
           in Some (s\<lparr>xs_head := take k (xs_head s), xs_meta := drop k (xs_head s) @ xs_meta s\<rparr>))"

section \<open>Encapsulation\<close>

datatype ret_code = RET_FAILURE | RET_SUCCESS | RET_DROP

text \<open>The headers behind the outer Ethernet header, the checksum still to come; \<open>len\<close> is the length of
  what is tunnelled, as its own header gives it.\<close>

definition outer_ipv4 :: "u32 \<Rightarrow> u32 \<Rightarrow> u16 \<Rightarrow> byte list" where
  "outer_ipv4 saddr daddr tot_len =
     [0x45, 0] @ be16 tot_len @ [0, 0, 0x40, 0, 64, IPPROTO_UDP, 0, 0] @ net32 saddr @ net32 daddr"

definition GTP_EXT_FLAGS :: byte where "GTP_EXT_FLAGS = 0x34"
definition GTP_NEXT_EXT_TYPE :: byte where "GTP_NEXT_EXT_TYPE = 0x85"

definition tunnel_headers :: "u16 \<Rightarrow> byte list \<Rightarrow> u8 \<Rightarrow> byte list" where
  "tunnel_headers len teid qfi =
     be16 GTP_UDP_PORT @ be16 GTP_UDP_PORT @
     be16 (len + word_of_nat (UDPHDR + GTPUHDR + PDU_SESSION_CONTAINER)) @ [0, 0] @
     [GTP_EXT_FLAGS, GTPU_MSG_G_PDU] @ be16 (len + word_of_nat (PDU_SESSION_CONTAINER + 4)) @ teid @
     [0, 0, 0, GTP_NEXT_EXT_TYPE] @ [1, 0, qfi, 0]"

text \<open>The address of the N3 interface is read once.\<close>

definition cached_n3_ip :: "xdp_env \<Rightarrow> xdp_state \<Rightarrow> (u32 \<times> xdp_state) option" where
  "cached_n3_ip e s =
     (case xs_n3_ip s of
        Some ip \<Rightarrow> Some (ip, s)
      | None \<Rightarrow> (case xe_interface e N3_INTERFACE of
                   None \<Rightarrow> None
                 | Some ip \<Rightarrow> Some (ip, s\<lparr>xs_n3_ip := Some ip\<rparr>)))"

text \<open>The frame with room in front of it becomes the tunnelled one.\<close>

definition outer_csum :: "xdp_env \<Rightarrow> byte list \<Rightarrow> byte list" where
  "outer_csum e d =
     (case pcn_l3_csum_replace IP_CSUM_OFFSET 0 (xe_csum_diff e (bytes_at IPHDR ETH_HLEN d)) 0 d of
        None \<Rightarrow> d | Some d1 \<Rightarrow> d1)"

definition encap_data :: "xdp_env \<Rightarrow> u32 \<Rightarrow> byte list \<Rightarrow> bpf_far \<Rightarrow> u8 \<Rightarrow> byte list \<Rightarrow> byte list" where
  "encap_data e n3_ip mac far qfi d =
     (let G = GTP_ENCAPSULATED_SIZE; len = of_be16 (bytes_at 2 (ETH_HLEN + G + 2) d)
      in outer_csum e
           (mac @ bytes_at 8 (G + 6) d @
            outer_ipv4 n3_ip (bf_ohc_ipv4_address far) (len + word_of_nat G) @
            tunnel_headers len (be32 (bf_ohc_teid far)) qfi @ drop (ETH_HLEN + G) d))"

definition gtpu_encap_ipv4 :: "xdp_env \<Rightarrow> bpf_far \<Rightarrow> u8 \<Rightarrow> xdp_state \<Rightarrow> ret_code \<times> xdp_state" where
  "gtpu_encap_ipv4 e far qfi s =
     (let G = GTP_ENCAPSULATED_SIZE
      in case grow_head G s of
           None \<Rightarrow> (RET_DROP, s)
         | Some s1 \<Rightarrow>
             (case cached_n3_ip e s1 of
                None \<Rightarrow> (RET_FAILURE, s1)
              | Some (n3_ip, s2) \<Rightarrow>
                  (case bm_lookup (arp_table_map (xs_maps s2)) (bf_ohc_ipv4_address far) of
                     None \<Rightarrow> (RET_FAILURE, s2)
                   | Some (mac, _) \<Rightarrow>
                       (let d = xs_data s2
                        in if length d < G + ETH_HLEN then (RET_DROP, s2)
                           else if length d < G + ETH_HLEN + IPHDR
                           then (RET_DROP, s2\<lparr>xs_data := mac @ bytes_at 8 (G + 6) d @ drop ETH_HLEN d\<rparr>)
                           else (RET_SUCCESS, s2\<lparr>xs_data := encap_data e n3_ip mac far qfi d\<rparr>)))))"

section \<open>Decapsulation\<close>

text \<open>The outer Ethernet header is copied in front of the inner packet and gets the addresses of the next
  hop, from the route or from the table of resolved addresses.\<close>

definition write_at :: "nat \<Rightarrow> byte list \<Rightarrow> byte list \<Rightarrow> byte list" where
  "write_at i b d = take i d @ b @ drop (i + length b) d"

definition inner_route :: "xdp_env \<Rightarrow> nat \<Rightarrow> byte list \<Rightarrow> fib_result" where
  "inner_route e i d =
     xe_fib e \<lparr>fp_tos = d ! (i + 1), fp_l4_protocol = d ! (i + 9), fp_tot_len = of_be16 (bytes_at 2 (i + 2) d),
               fp_ipv4_src = load_net32 (i + 12) d, fp_ipv4_dst = load_net32 (i + 16) d\<rparr>"

definition n6_neighbour :: "pipeline \<Rightarrow> u32 \<Rightarrow> u32 \<Rightarrow> byte list option" where
  "n6_neighbour p fib_dst dst =
     map_option fst
       (case bm_lookup (arp_table_map p) (if fib_dst \<noteq> 0 then fib_dst else dst) of
          Some a \<Rightarrow> Some a
        | None \<Rightarrow> bm_lookup (arp_table_map p) dst)"

definition gtpu_decap_ipv4 :: "xdp_env \<Rightarrow> bpf_far \<Rightarrow> xdp_state \<Rightarrow> ret_code \<times> xdp_state" where
  "gtpu_decap_ipv4 e far s =
     (let G = GTP_ENCAPSULATED_SIZE; d = xs_data s
      in if length d < ETH_HLEN then (RET_DROP, s)
         else if \<not> aa_forw (bf_apply_action far) then (RET_FAILURE, s)
         else if length d < G + ETH_HLEN then (RET_DROP, s)
         else let d1 = write_at G (take ETH_HLEN d) d; s1 = s\<lparr>xs_data := d1\<rparr>
              in if length d < G + ETH_HLEN + IPHDR then (RET_DROP, s1)
                 else let r = inner_route e (G + ETH_HLEN) d1;
                          d2 = (if fr_success r then Some (write_at G (fr_dmac r @ fr_smac r) d1)
                                else map_option (\<lambda>mac. write_at G mac d1)
                                       (n6_neighbour (xs_maps s) (fr_ipv4_dst r) (load_net32 (G + ETH_HLEN + 16) d1)))
                      in case d2 of
                           None \<Rightarrow> (RET_FAILURE, s1)
                         | Some d3 \<Rightarrow>
                             (case strip_head G (s\<lparr>xs_data := d3\<rparr>) of
                                None \<Rightarrow> (RET_DROP, s\<lparr>xs_data := d3\<rparr>)
                              | Some s2 \<Rightarrow> (RET_SUCCESS, s2)))"

end
