(* ===== verification/XdpChain.thy ===== *)
theory XdpChain
  imports XdpPacket
begin

text \<open>
  The chain of XDP programs (\<open>kernel/xdp\<close>, \<open>kernel/include/tail_call_dispatcher.h\<close>): the entry points
  find the user address of a packet, the session look-up finds its session, PDR matching its rule, and
  the FAR is applied; QER, URR and MAR follow where the session has them, BAR takes packets to buffer.
  A program ends in a verdict or in a tail call. Programs are defined from the last of the chain to the
  first, so a tail call is a call.
\<close>

section \<open>MAR\<close>

definition ACCESS_3GPP :: u8 where "ACCESS_3GPP = 0"
definition ACCESS_NON_3GPP :: u8 where "ACCESS_NON_3GPP = 1"
definition PATH_STATUS_DOWN :: u8 where "PATH_STATUS_DOWN = 1"
definition REDIRECT_N9 :: u32 where "REDIRECT_N9 = 2"
definition RTT_STALENESS_NS :: u64 where "RTT_STALENESS_NS = 10 * 1000000000"

definition mar_steer_active_standby :: "mar_config \<Rightarrow> mar_access_state \<Rightarrow> u8" where
  "mar_steer_active_standby cfg st =
     (if mc_active_access cfg = ACCESS_3GPP \<and> ma_status_3gpp st = PATH_STATUS_DOWN then mc_standby_access cfg
      else if mc_active_access cfg = ACCESS_NON_3GPP \<and> ma_status_non3gpp st = PATH_STATUS_DOWN
      then mc_standby_access cfg
      else mc_active_access cfg)"

definition mar_steer_smallest_delay :: "mar_access_state \<Rightarrow> u64 \<Rightarrow> u8" where
  "mar_steer_smallest_delay st now =
     (if ma_rtt_updated_ns st = 0 \<or> now - ma_rtt_updated_ns st > RTT_STALENESS_NS then ACCESS_3GPP
      else if ma_rtt_3gpp_ns st = 0 \<or> ma_rtt_non3gpp_ns st = 0 then ACCESS_3GPP
      else if ma_rtt_non3gpp_ns st < ma_rtt_3gpp_ns st then ACCESS_NON_3GPP
      else ACCESS_3GPP)"

definition flow_bucket :: "packet_context \<Rightarrow> u32" where
  "flow_bucket c =
     drop_bit 16 ((pc_src_ip c XOR pc_dst_ip c XOR
                   (push_bit 16 (ucast (pc_src_port c)) OR ucast (pc_dst_port c)) XOR ucast (pc_protocol c)) * 2654435761)
     mod 100"

definition mar_steer_load_balance :: "mar_config \<Rightarrow> packet_context \<Rightarrow> u8" where
  "mar_steer_load_balance cfg c =
     (if flow_bucket c < ucast (mc_weight_3gpp cfg) then ACCESS_3GPP else ACCESS_NON_3GPP)"

definition mar_steer_priority :: "mar_config \<Rightarrow> mar_access_state \<Rightarrow> u8" where
  "mar_steer_priority cfg st =
     (let preferred = mc_priority_access cfg;
          fallback = (if preferred = ACCESS_3GPP then ACCESS_NON_3GPP else ACCESS_3GPP)
      in if preferred = ACCESS_3GPP \<and> ma_status_3gpp st = PATH_STATUS_DOWN then fallback
         else if preferred = ACCESS_NON_3GPP \<and> ma_status_non3gpp st = PATH_STATUS_DOWN then fallback
         else preferred)"

text \<open>The modes are active-standby, smallest delay, load balancing and priority.\<close>

definition mar_select_access :: "xdp_env \<Rightarrow> mar_config \<Rightarrow> xdp_state \<Rightarrow> u8" where
  "mar_select_access e cfg s =
     (let st = bm_lookup (xs_mar_state s) (pc_seid (xs_pctx s))
      in if mc_steer_mode cfg = 0
         then (case st of None \<Rightarrow> mc_active_access cfg | Some a \<Rightarrow> mar_steer_active_standby cfg a)
         else if mc_steer_mode cfg = 1
         then (case st of None \<Rightarrow> ACCESS_3GPP | Some a \<Rightarrow> mar_steer_smallest_delay a (xe_now e))
         else if mc_steer_mode cfg = 2 then mar_steer_load_balance cfg (xs_pctx s)
         else if mc_steer_mode cfg = 3
         then (case st of None \<Rightarrow> mc_priority_access cfg | Some a \<Rightarrow> mar_steer_priority cfg a)
         else ACCESS_3GPP)"

definition mar_apply :: "xdp_env \<Rightarrow> xdp_prog" where
  "mar_apply e s =
     (if IS_UPLINK (pc_session_type (xs_pctx s)) \<or> pc_pdr_mar_id (xs_pctx s) = 0 then EXECUTE_FINAL_ACTION e s
      else case bm_lookup (xs_mar_config s) (pc_seid (xs_pctx s)) of
             None \<Rightarrow> EXECUTE_FINAL_ACTION e s
           | Some cfg \<Rightarrow> if mar_select_access e cfg s = ACCESS_NON_3GPP then redirect_map e REDIRECT_N9 s
                         else EXECUTE_FINAL_ACTION e s)"

section \<open>URR\<close>

definition URR_TRIGGER_VOLTH :: u8 where "URR_TRIGGER_VOLTH = 1"
definition URR_TRIGGER_VOLQU :: u8 where "URR_TRIGGER_VOLQU = 2"
definition URR_TRIGGER_TIMTH :: u8 where "URR_TRIGGER_TIMTH = 4"
definition URR_TRIGGER_TIMQU :: u8 where "URR_TRIGGER_TIMQU = 8"
definition URR_TRIGGER_PERIO :: u8 where "URR_TRIGGER_PERIO = 16"
definition URR_TRIGGER_DROTH :: u8 where "URR_TRIGGER_DROTH = 128"

definition urr_update_volume :: "u32 \<Rightarrow> bool \<Rightarrow> urr_volume \<Rightarrow> urr_volume" where
  "urr_update_volume pkt_len is_uplink v =
     (let v1 = (if is_uplink then v\<lparr>ul_bytes := ul_bytes v + ucast pkt_len, ul_pkts := ul_pkts v + 1\<rparr>
                else v\<lparr>dl_bytes := dl_bytes v + ucast pkt_len, dl_pkts := dl_pkts v + 1\<rparr>)
      in v1\<lparr>total_bytes := total_bytes v1 + ucast pkt_len, total_pkts := total_pkts v1 + 1\<rparr>)"

definition urr_submit_report :: "xdp_env \<Rightarrow> u64 \<Rightarrow> urr_config \<Rightarrow> urr_volume \<Rightarrow> u8 \<Rightarrow> xdp_state \<Rightarrow> xdp_state" where
  "urr_submit_report e seid cfg vol trigger s =
     (if \<not> xe_report_room e (xs_reports s) then s
      else s\<lparr>xs_reports := xs_reports s @
               [\<lparr>ue_seid = seid, ue_urr_id = uc_urr_id cfg, ue_trigger = trigger, ue_vol = vol,
                 ue_timestamp_ns = xe_now e, ue_start_time_ns = uc_monitoring_time_ns cfg\<rparr>]\<rparr>)"

text \<open>A limit is set when it is not 0. The limits of the other direction do not count.\<close>

definition volume_reached :: "u64 \<Rightarrow> u64 \<Rightarrow> u64 \<Rightarrow> urr_volume \<Rightarrow> bool \<Rightarrow> bool" where
  "volume_reached tot ul dl v is_uplink \<longleftrightarrow>
     (tot > 0 \<and> total_bytes v \<ge> tot) \<or>
     (is_uplink \<and> ul > 0 \<and> ul_bytes v \<ge> ul) \<or>
     (\<not> is_uplink \<and> dl > 0 \<and> dl_bytes v \<ge> dl)"

definition threshold_crossed :: "urr_config \<Rightarrow> urr_volume \<Rightarrow> bool \<Rightarrow> bool" where
  "threshold_crossed cfg v is_uplink \<longleftrightarrow>
     uc_reporting_triggers cfg AND URR_TRIGGER_VOLTH \<noteq> 0 \<and>
     volume_reached (uc_volume_threshold_total cfg) (uc_volume_threshold_ul cfg) (uc_volume_threshold_dl cfg) v is_uplink"

definition quota_exhausted :: "urr_config \<Rightarrow> urr_volume \<Rightarrow> bool \<Rightarrow> bool" where
  "quota_exhausted cfg v is_uplink \<longleftrightarrow>
     uc_reporting_triggers cfg AND URR_TRIGGER_VOLQU \<noteq> 0 \<and>
     volume_reached (uc_volume_quota_total cfg) (uc_volume_quota_ul cfg) (uc_volume_quota_dl cfg) v is_uplink"

definition time_reached :: "urr_config \<Rightarrow> u8 \<Rightarrow> u64 \<Rightarrow> u64 \<Rightarrow> bool" where
  "time_reached cfg trigger limit now \<longleftrightarrow>
     uc_reporting_triggers cfg AND trigger \<noteq> 0 \<and> limit > 0 \<and> uc_monitoring_time_ns cfg > 0 \<and>
     now - uc_monitoring_time_ns cfg \<ge> limit"

definition period_over :: "urr_config \<Rightarrow> u64 \<Rightarrow> bool" where
  "period_over cfg now \<longleftrightarrow>
     uc_reporting_triggers cfg AND URR_TRIGGER_PERIO \<noteq> 0 \<and> uc_measurement_period_ns cfg > 0 \<and>
     now - uc_last_report_ns cfg \<ge> uc_measurement_period_ns cfg"

definition dropped_crossed :: "urr_config \<Rightarrow> urr_volume \<Rightarrow> bool" where
  "dropped_crossed cfg v \<longleftrightarrow>
     uc_reporting_triggers cfg AND URR_TRIGGER_DROTH \<noteq> 0 \<and>
     ((uc_dropped_dl_threshold_bytes cfg > 0 \<and> dropped_dl_bytes v \<ge> uc_dropped_dl_threshold_bytes cfg) \<or>
      (uc_dropped_dl_threshold_pkts cfg > 0 \<and> dropped_dl_packets v \<ge> ucast (uc_dropped_dl_threshold_pkts cfg)))"

text \<open>The reports in the order of the checks, and whether the packet is to be dropped.\<close>

definition urr_check_thresholds ::
    "xdp_env \<Rightarrow> u64 \<Rightarrow> urr_config \<Rightarrow> urr_volume \<Rightarrow> bool \<Rightarrow> xdp_state \<Rightarrow> xdp_state \<times> bool" where
  "urr_check_thresholds e seid cfg vol is_uplink s =
     (let report = urr_submit_report e seid cfg vol; now = xe_now e;
          s1 = (if threshold_crossed cfg vol is_uplink then report URR_TRIGGER_VOLTH s else s);
          s2 = (if quota_exhausted cfg vol is_uplink then report URR_TRIGGER_VOLQU s1 else s1);
          s3 = (if time_reached cfg URR_TRIGGER_TIMTH (uc_time_threshold_ns cfg) now then report URR_TRIGGER_TIMTH s2 else s2);
          s4 = (if period_over cfg now
                then (report URR_TRIGGER_PERIO s3)
                       \<lparr>xs_urr_config := bm_modify seid (\<lambda>c. c\<lparr>uc_last_report_ns := now\<rparr>) (xs_urr_config s3)\<rparr>
                else s3);
          s5 = (if time_reached cfg URR_TRIGGER_TIMQU (uc_time_quota_ns cfg) now then report URR_TRIGGER_TIMQU s4 else s4);
          s6 = (if dropped_crossed cfg vol then report URR_TRIGGER_DROTH s5 else s5)
      in (s6, quota_exhausted cfg vol is_uplink \<or> time_reached cfg URR_TRIGGER_TIMQU (uc_time_quota_ns cfg) now))"

definition dispatch_after_urr :: "xdp_env \<Rightarrow> xdp_prog \<Rightarrow> xdp_prog" where
  "dispatch_after_urr e fall s =
     (if flag_on (pc_rules_enabled (xs_pctx s)) RULE_MAR_ENABLED then tail_call e PROG_MAR_APPLY (mar_apply e) fall s
      else fall s)"

text \<open>The volume of a session, the packet of the current length counted.\<close>

definition measure_volume :: "xdp_state \<Rightarrow> xdp_state" where
  "measure_volume s =
     s\<lparr>xs_urr_volume := bm_modify (pc_seid (xs_pctx s))
         (urr_update_volume (word_of_nat (length (xs_data s))) (IS_UPLINK (pc_session_type (xs_pctx s)))) (xs_urr_volume s)\<rparr>"

definition urr_apply :: "xdp_env \<Rightarrow> xdp_prog" where
  "urr_apply e s =
     (let seid = pc_seid (xs_pctx s); is_uplink = IS_UPLINK (pc_session_type (xs_pctx s));
          s2 = (if bm_lookup (xs_urr_volume s) seid = None then s
                else let s1 = measure_volume s
                     in case (bm_lookup (xs_urr_config s1) seid, bm_lookup (xs_urr_volume s1) seid) of
                          (Some cfg, Some vol) \<Rightarrow>
                            (case urr_check_thresholds e seid cfg vol is_uplink s1 of
                               (t, should_drop) \<Rightarrow> if should_drop then set_pctx (\<lambda>c. c\<lparr>pc_final_action := ActionDrop\<rparr>) t else t)
                        | _ \<Rightarrow> s1)
      in dispatch_after_urr e (EXECUTE_FINAL_ACTION e) s2)"

section \<open>QER\<close>

definition dispatch_after_qer :: "xdp_env \<Rightarrow> xdp_prog \<Rightarrow> xdp_prog" where
  "dispatch_after_qer e fall s =
     (let mar = dispatch_after_urr e fall
      in if flag_on (pc_rules_enabled (xs_pctx s)) RULE_URR_ENABLED then tail_call e PROG_URR_APPLY (urr_apply e) mar s
         else mar s)"

text \<open>The key of the rules, in the maps of the control plane.\<close>

definition le64 :: "u64 \<Rightarrow> byte list" where
  "le64 w = map (\<lambda>i. ucast (drop_bit (8 * i) w)) [0..<8]"

definition rules_key :: "packet_context \<Rightarrow> u16 \<times> u64" where
  "rules_key c = (ucast (pc_pdr_id c), pc_seid c)"

definition gate_closed :: "packet_context \<Rightarrow> bpf_qer \<Rightarrow> bool" where
  "gate_closed c q \<longleftrightarrow> (if IS_DOWNLINK (pc_session_type c) then bq_dl_gate q \<noteq> 0 else bq_ul_gate q \<noteq> 0)"

definition qer_apply :: "xdp_env \<Rightarrow> xdp_prog" where
  "qer_apply e s =
     (let c = xs_pctx s
      in case bm_lookup (rules_match_pdr_map (xs_maps s)) (rules_key c) of
           None \<Rightarrow> xdp_stats_record_action XDP_DROP s
         | Some rules \<Rightarrow>
             if gate_closed c (rm_qer rules) then xdp_stats_record_action XDP_DROP s
             else if IS_DOWNLINK (pc_session_type c)
             then if length (xs_meta s) < SESSION_QFI_SIZE then xdp_stats_record_action XDP_DROP s
                  else dispatch_after_qer e (EXECUTE_FINAL_ACTION e)
                         (s\<lparr>xs_meta := write_at 0 (le64 (pc_seid c) @ [pc_qfi c]) (xs_meta s)\<rparr>)
             else dispatch_after_qer e (EXECUTE_FINAL_ACTION e) s)"

section \<open>BAR\<close>

definition bar_submit_ddn :: "xdp_env \<Rightarrow> bar_config \<Rightarrow> xdp_state \<Rightarrow> xdp_state" where
  "bar_submit_ddn e cfg s =
     (if \<not> xe_ddn_room e (xs_ddns s) then s
      else s\<lparr>xs_ddns := xs_ddns s @
               [\<lparr>de_seid = pc_seid (xs_pctx s), de_bar_id = bc_bar_id cfg, de_pdr_id = pc_pdr_id (xs_pctx s),
                 de_timestamp_ns = xe_now e, de_ue_ip = pc_ue_ip (xs_pctx s)\<rparr>]\<rparr>)"

definition bar_should_notify :: "bar_state \<Rightarrow> u8 \<Rightarrow> u64 \<Rightarrow> bool" where
  "bar_should_notify st delay_sec now \<longleftrightarrow>
     bs_notification_sent st = 0 \<or> delay_sec = 0 \<or> now - bs_last_ddn_ns st \<ge> ucast delay_sec * 1000000000"

definition bar_apply :: "xdp_env \<Rightarrow> xdp_prog" where
  "bar_apply e s =
     (let seid = pc_seid (xs_pctx s)
      in case bm_lookup (xs_bar_config s) seid of
           None \<Rightarrow> xdp_stats_record_action XDP_DROP s
         | Some cfg \<Rightarrow>
             (case bm_lookup (xs_bar_state s) seid of
                None \<Rightarrow> xdp_stats_record_action XDP_DROP (bar_submit_ddn e cfg s)
              | Some st \<Rightarrow>
                  (let s1 = (if bar_should_notify st (bc_dl_notification_delay_sec cfg) (xe_now e)
                             then (bar_submit_ddn e cfg s)
                                    \<lparr>xs_bar_state := bm_modify seid
                                       (\<lambda>b. b\<lparr>bs_last_ddn_ns := xe_now e, bs_notification_sent := 1\<rparr>) (xs_bar_state s)\<rparr>
                             else s);
                       s2 = s1\<lparr>xs_bar_state := bm_modify seid
                                 (\<lambda>b. b\<lparr>bs_buffered_pkt_count := bs_buffered_pkt_count b + 1\<rparr>) (xs_bar_state s1)\<rparr>
                   in if bc_suggested_buf_pkt_cnt cfg > 0 \<and> bs_buffered_pkt_count st \<ge> ucast (bc_suggested_buf_pkt_cnt cfg)
                      then xdp_stats_record_action XDP_DROP s2
                      else xdp_stats_record_action XDP_PASS s2)))"

section \<open>FAR\<close>

text \<open>The first stage that is enabled and loaded: QER where the path needs it, URR, MAR.\<close>

definition dispatch_after_far :: "xdp_env \<Rightarrow> bool \<Rightarrow> xdp_prog \<Rightarrow> xdp_prog" where
  "dispatch_after_far e qer_needed fall s =
     (let rest = dispatch_after_qer e fall
      in if qer_needed \<and> flag_on (pc_rules_enabled (xs_pctx s)) RULE_QER_ENABLED
         then tail_call e PROG_QER_APPLY (qer_apply e) rest s else rest s)"

definition eth_is_bcast_or_mcast :: "byte list \<Rightarrow> bool" where
  "eth_is_bcast_or_mcast mac \<longleftrightarrow> mac ! 0 AND 1 \<noteq> 0"

text \<open>After encapsulation or decapsulation: a failure is passed to the kernel, a drop dropped.\<close>

definition after_tunnel :: "(xdp_state \<Rightarrow> xdp_action \<times> xdp_state) \<Rightarrow> ret_code \<times> xdp_state \<Rightarrow> xdp_action \<times> xdp_state" where
  "after_tunnel k r =
     (case r of
        (RET_SUCCESS, s) \<Rightarrow> k s
      | (RET_DROP, s) \<Rightarrow> xdp_stats_record_action XDP_DROP s
      | (RET_FAILURE, s) \<Rightarrow> xdp_stats_record_action XDP_PASS s)"

definition final_is :: "final_action \<Rightarrow> xdp_state \<Rightarrow> xdp_state" where
  "final_is a = set_pctx (\<lambda>c. c\<lparr>pc_final_action := a\<rparr>)"

definition far_forward :: "xdp_env \<Rightarrow> bpf_far \<Rightarrow> xdp_prog" where
  "far_forward e far s =
     (let c = xs_pctx s; qer_needed = flag_on (pc_rules_enabled c) RULE_QER_ENABLED
      in if IS_ETH_PDU (pc_session_type c) \<and> IS_UPLINK (pc_session_type c)
         then if eth_is_bcast_or_mcast (pc_inner_eth_dst c)
              then dispatch_after_far e False (xdp_stats_record_action XDP_PASS) (final_is PassToTc s)
              else after_tunnel
                     (\<lambda>s1. dispatch_after_far e qer_needed (redirect_map e UPLINK) (final_is RedirectUl s1))
                     (gtpu_decap_ipv4 e far s)
         else if IS_UPLINK (pc_session_type c)
         then after_tunnel
                (\<lambda>s1. dispatch_after_far e False (redirect_map e UPLINK) (final_is RedirectUl s1))
                (gtpu_decap_ipv4 e far s)
         else after_tunnel
                (\<lambda>s1. dispatch_after_far e qer_needed (EXECUTE_FINAL_ACTION e)
                        (final_is (if qer_needed then PassToTc else RedirectDl) s1))
                (gtpu_encap_ipv4 e far (pc_qfi c) s))"

text \<open>What is done with the rules a PDR refers to. NOCP and DUPL alone only pass the packet on.\<close>

definition far_action :: "xdp_env \<Rightarrow> rules_match_pdr \<Rightarrow> xdp_prog" where
  "far_action e rules s =
     (let far = rm_far rules; action = bf_apply_action far
      in if bf_far_id far = 0 then xdp_stats_record_action XDP_PASS s
         else if aa_drop action
         then dispatch_after_far e False (xdp_stats_record_action XDP_DROP) (final_is ActionDrop s)
         else if aa_forw action then far_forward e far s
         else if aa_buff action
         then if flag_on (pc_rules_enabled (xs_pctx s)) RULE_BAR_ENABLED
              then tail_call e PROG_BAR_APPLY (bar_apply e) (xdp_stats_record_action XDP_DROP) (final_is ActionDrop s)
              else xdp_stats_record_action XDP_DROP s
         else xdp_stats_record_action XDP_PASS s)"

definition far_apply :: "xdp_env \<Rightarrow> xdp_prog" where
  "far_apply e s =
     (let c = xs_pctx s
      in case bm_lookup ((if IS_ETH_PDU (pc_session_type c) then eth_rules_match_pdr_map else rules_match_pdr_map) (xs_maps s))
                (rules_key c) of
           None \<Rightarrow> xdp_stats_record_action XDP_PASS s
         | Some rules \<Rightarrow> far_action e rules s)"

section \<open>PDR matching\<close>

text \<open>The addresses of a filter are in the low, its masks in the high 32 bits.\<close>

definition match_sdf_filter :: "packet_context \<Rightarrow> sdf_filtr \<Rightarrow> bool" where
  "match_sdf_filter c f \<longleftrightarrow>
     (let net = (\<lambda>a. bswap32 (ucast a) :: u32)
      in (sf_protocol f = 0 \<or> ucast (pc_protocol c) = sf_protocol f) \<and>
         bswap32 (pc_src_ip c) AND net (drop_bit 96 (sn_mask (sf_src_addr f))) = net (sn_ip (sf_src_addr f)) \<and>
         bswap32 (pc_dst_ip c) AND net (drop_bit 96 (sn_mask (sf_dst_addr f))) = net (sn_ip (sf_dst_addr f)) \<and>
         fst (sf_src_port f) \<le> pc_src_port c \<and> pc_src_port c \<le> snd (sf_src_port f) \<and>
         fst (sf_dst_port f) \<le> pc_dst_port c \<and> pc_dst_port c \<le> snd (sf_dst_port f))"

definition popcount :: "u32 \<Rightarrow> nat" where
  "popcount w = length (filter (bit w) [0..<32])"

definition port_points :: "u16 \<times> u16 \<Rightarrow> nat" where
  "port_points p = (let range = unat (snd p - fst p) in if range < 65535 then (65535 - range) div 1000 else 0)"

text \<open>At most 495, far from the 32 bits of the score.\<close>

definition calc_sdf_specificity :: "sdf_filtr \<Rightarrow> u8 \<Rightarrow> nat" where
  "calc_sdf_specificity f pkt_proto =
     (if sf_protocol f = 0 then 100 else if sf_protocol f = ucast pkt_proto then 300 else 50) +
     popcount (ucast (drop_bit 96 (sn_mask (sf_src_addr f)))) +
     popcount (ucast (drop_bit 96 (sn_mask (sf_dst_addr f)))) +
     port_points (sf_src_port f) + port_points (sf_dst_port f)"

text \<open>The array of PDRs, as far as it is configured.\<close>

definition configured_pdrs :: "xdp_env \<Rightarrow> bpf_pdr list \<Rightarrow> bpf_pdr list" where
  "configured_pdrs e bs = take (min (xe_max_pdrs e) MAX_PDRS_PER_PDU_SESSION_LIMIT) bs"

definition tunnel_matches :: "u32 \<Rightarrow> u8 \<Rightarrow> bpf_pdr \<Rightarrow> bool" where
  "tunnel_matches pkt_teid pkt_qfi b \<longleftrightarrow>
     bswap32 (ucast (bp_interface_value b)) = 0 \<and>
     (bp_teid b = 0 \<or> bp_teid b = pkt_teid) \<and> (bp_qfi b = 0 \<or> bp_qfi b = pkt_qfi)"

definition match_pdr_n3 :: "xdp_env \<Rightarrow> xdp_state \<Rightarrow> bpf_pdr option" where
  "match_pdr_n3 e s =
     (let c = xs_pctx s
      in case bm_lookup (pdrs_per_session_map (xs_maps s)) (pc_seid c) of
           None \<Rightarrow> None
         | Some bs \<Rightarrow>
             find (\<lambda>b. bp_rule_id b \<noteq> 0 \<and>
                       (bswap32 (bp_ue_ipv4_address b) = 0 \<or> bswap32 (bp_ue_ipv4_address b) = pc_ue_ip c) \<and>
                       tunnel_matches (pc_pkt_teid c) (pc_qfi c) b)
               (configured_pdrs e bs))"

definition match_pdr_eth_n3 :: "xdp_env \<Rightarrow> xdp_state \<Rightarrow> bpf_pdr option" where
  "match_pdr_eth_n3 e s =
     (let c = xs_pctx s
      in case bm_lookup (eth_session_pdrs_map (xs_maps s)) (pc_seid c) of
           None \<Rightarrow> None
         | Some bs \<Rightarrow> find (\<lambda>b. bp_rule_id b \<noteq> 0 \<and> tunnel_matches (pc_pkt_teid c) (pc_qfi c) b) (configured_pdrs e bs))"

definition dl_candidate :: "packet_context \<Rightarrow> bpf_pdr \<Rightarrow> bool" where
  "dl_candidate c b \<longleftrightarrow>
     bp_rule_id b \<noteq> 0 \<and> bswap32 (bp_ue_ipv4_address b) = pc_ue_ip c \<and> bp_interface_value b = 1"

text \<open>The loop with QoS: the best PDR with its specificity and precedence.\<close>

fun best_pdr :: "xdp_state \<Rightarrow> (bpf_pdr \<times> nat \<times> u32) option \<Rightarrow> bpf_pdr list \<Rightarrow> bpf_pdr option" where
  "best_pdr s best [] = map_option fst best"
| "best_pdr s best (b # bs) =
     (if \<not> dl_candidate (xs_pctx s) b then best_pdr s best bs
      else case bm_lookup (sdf_filters_map (xs_maps s)) (bp_qfi b, pc_seid (xs_pctx s)) of
             None \<Rightarrow> best_pdr s (if best = None then Some (b, 0, bp_precedence b) else best) bs
           | Some f \<Rightarrow>
               if \<not> match_sdf_filter (xs_pctx s) f then best_pdr s best bs
               else let spec = calc_sdf_specificity f (pc_protocol (xs_pctx s));
                        is_better = (case best of None \<Rightarrow> True
                                     | Some (_, best_spec, best_prec) \<Rightarrow>
                                         spec > best_spec \<or> (spec = best_spec \<and> bp_precedence b < best_prec))
                    in best_pdr s (if is_better then Some (b, spec, bp_precedence b) else best) bs)"

definition match_pdr_n6 :: "xdp_env \<Rightarrow> xdp_state \<Rightarrow> bpf_pdr option" where
  "match_pdr_n6 e s =
     (case bm_lookup (pdrs_per_session_map (xs_maps s)) (pc_seid (xs_pctx s)) of
        None \<Rightarrow> None
      | Some bs \<Rightarrow>
          if flag_on (pc_rules_enabled (xs_pctx s)) RULE_QER_ENABLED then best_pdr s None (configured_pdrs e bs)
          else find (dl_candidate (xs_pctx s)) (configured_pdrs e bs))"

text \<open>The QFI of a downlink packet is that of its rule.\<close>

definition pdr_match :: "xdp_env \<Rightarrow> xdp_prog" where
  "pdr_match e s =
     (let st = pc_session_type (xs_pctx s);
          found = (if IS_ETH_PDU st then match_pdr_eth_n3 e s else if IS_UPLINK st then match_pdr_n3 e s
                   else match_pdr_n6 e s)
      in case found of
           None \<Rightarrow> xdp_stats_record_action XDP_PASS s
         | Some b \<Rightarrow>
             tail_call e PROG_FAR_APPLY (far_apply e) (xdp_stats_record_action XDP_PASS)
               (set_pctx (\<lambda>c. c\<lparr>pc_pdr_id := ucast (bp_rule_id b),
                                pc_qfi := (if IS_ETH_PDU st \<or> IS_UPLINK st then pc_qfi c else bp_qfi b),
                                pc_pdr_mar_id := bp_mar_id b\<rparr>) s))"

section \<open>Session look-up\<close>

definition enabled_flags :: "xdp_state \<Rightarrow> u64 \<Rightarrow> u32" where
  "enabled_flags s seid = (case bm_lookup (session_rules_enabled_map (xs_maps s)) seid of None \<Rightarrow> 0 | Some f \<Rightarrow> f)"

definition session_lookup_ip :: "xdp_env \<Rightarrow> xdp_prog" where
  "session_lookup_ip e s =
     (case bm_lookup (session_by_ue_ip_map (xs_maps s)) (pc_ue_ip (xs_pctx s)) of
        None \<Rightarrow> xdp_stats_record_action XDP_PASS s
      | Some i \<Rightarrow>
          tail_call e PROG_PDR_MATCH (pdr_match e) (xdp_stats_record_action XDP_PASS)
            (set_pctx (\<lambda>c. c\<lparr>pc_seid := si_seid i, pc_teid_ul := bswap32 (si_teid_ul i),
                             pc_teid_dl := bswap32 (si_teid_dl i), pc_rules_enabled := enabled_flags s (si_seid i)\<rparr>) s))"

section \<open>Entry points for IP\<close>

text \<open>The headers of an uplink packet up to the container: the tunnel and the QFI, or the verdict.\<close>

definition parse_gpdu :: "byte list \<Rightarrow> xdp_action + (u32 \<times> u8)" where
  "parse_gpdu d =
     (case parse_eth d of (proto, pass) \<Rightarrow>
        if pass then Inl XDP_PASS
        else if proto = 0 then Inl XDP_DROP
        else if \<not> parse_ipv4 ETH_HLEN d then Inl XDP_DROP
        else case parse_udp_gtpu (ETH_HLEN + IPHDR) d of (ok, pass) \<Rightarrow>
          if \<not> ok then Inl (if pass then XDP_PASS else XDP_DROP)
          else case parse_gtpu_hdr (ETH_HLEN + IPHDR + UDPHDR) d of
                 (None, pass) \<Rightarrow> Inl (if pass then XDP_PASS else XDP_DROP)
               | (Some teid, _) \<Rightarrow>
                   (case parse_gtpu_ext_hdr (ETH_HLEN + IPHDR + UDPHDR + GTPUHDR) d of
                      None \<Rightarrow> Inl XDP_DROP
                    | Some qfi \<Rightarrow> Inr (teid, qfi)))"

definition xdp_n3_entry :: "xdp_env \<Rightarrow> xdp_prog" where
  "xdp_n3_entry e s =
     (case parse_gpdu (xs_data s) of
        Inl a \<Rightarrow> xdp_stats_record_action a s
      | Inr (teid, qfi) \<Rightarrow>
          (case parse_inner_ipv4 (ETH_HLEN + GTP_ENCAPSULATED_SIZE) (xs_data s) of
             None \<Rightarrow> xdp_stats_record_action XDP_DROP s
           | Some ue_ip \<Rightarrow>
               tail_call e PROG_SESSION_LOOKUP_IP (session_lookup_ip e) (xdp_stats_record_action XDP_PASS)
                 (set_pctx (\<lambda>c. c\<lparr>pc_session_type := IpUplink, pc_ue_ip := ue_ip, pc_qfi := qfi, pc_pkt_teid := teid\<rparr>) s)))"

text \<open>A downlink packet from its IP header on.\<close>

definition downlink_ip :: "xdp_env \<Rightarrow> xdp_prog" where
  "downlink_ip e s =
     (let d = xs_data s; ue_ip = of_be32 (bytes_at 4 (ETH_HLEN + 16) d)
      in case extract_5tuple ETH_HLEN d ((xs_pctx s)\<lparr>pc_session_type := IpDownlink, pc_ue_ip := ue_ip, pc_pkt_teid := 0\<rparr>) of
           (c, ok) \<Rightarrow>
             if \<not> ok then xdp_stats_record_action XDP_DROP (set_pctx (\<lambda>_. c) s)
             else tail_call e PROG_SESSION_LOOKUP_IP (session_lookup_ip e) (xdp_stats_record_action XDP_PASS)
                    (set_pctx (\<lambda>_. c) s))"

definition xdp_n6_entry :: "xdp_env \<Rightarrow> xdp_prog" where
  "xdp_n6_entry e s =
     (case reserve_meta s of
        None \<Rightarrow> xdp_stats_record_action XDP_DROP s
      | Some s1 \<Rightarrow>
          (case parse_eth (xs_data s1) of (proto, pass) \<Rightarrow>
             if pass then xdp_stats_record_action XDP_PASS s1
             else if proto = 0 then xdp_stats_record_action XDP_DROP s1
             else if \<not> parse_ipv4 ETH_HLEN (xs_data s1) then xdp_stats_record_action XDP_DROP s1
             else downlink_ip e s1))"

end
