(* ===== verification/XdpEth.thy ===== *)
theory XdpEth
  imports XdpChain
begin

text \<open>
  Ethernet sessions in the XDP programs (\<open>xdp_n3_eth_entry_kern.c\<close>, \<open>xdp_session_lookup_eth_kern.c\<close>,
  \<open>xdp_n6_eth_entry_kern.c\<close>) and the programs of traffic control (\<open>kernel/tc\<close>): the classifier that
  reads what QER left in the metadata, the redirect, the fan-out of broadcast frames.
\<close>

section \<open>Uplink\<close>

definition session_lookup_eth :: "xdp_env \<Rightarrow> xdp_prog" where
  "session_lookup_eth e s =
     (case bm_lookup (eth_session_mapping_map (xs_maps s)) (pc_pkt_teid (xs_pctx s)) of
        None \<Rightarrow> xdp_stats_record_action XDP_DROP s
      | Some i \<Rightarrow>
          (let learned = s\<lparr>xs_mac_table := fst (bm_update BPF_ANY (xs_mac_table s) (pc_inner_eth_src (xs_pctx s))
                                                 (ei_teid_dl i, pc_gnb_ipv4 (xs_pctx s)))\<rparr>
           in tail_call e PROG_PDR_MATCH (pdr_match e) (xdp_stats_record_action XDP_PASS)
                (set_pctx (\<lambda>c. c\<lparr>pc_seid := ei_seid i, pc_teid_ul := bswap32 (ei_teid_ul i),
                                 pc_teid_dl := bswap32 (ei_teid_dl i),
                                 pc_rules_enabled := enabled_flags s (ei_seid i)\<rparr>) learned)))"

text \<open>The inner packet is IP when its first nibble says so, an Ethernet frame otherwise. The tunnel of an
  IP packet is kept in the order of the host, that of a frame in the order of the network.\<close>

definition xdp_n3_eth_entry :: "xdp_env \<Rightarrow> xdp_prog" where
  "xdp_n3_eth_entry e s =
     (let d = xs_data s; inner = ETH_HLEN + GTP_ENCAPSULATED_SIZE; gnb = load_net32 (ETH_HLEN + 12) d
      in case parse_gpdu d of
           Inl a \<Rightarrow> xdp_stats_record_action a s
         | Inr (teid, qfi) \<Rightarrow>
             if length d < inner + 1 then xdp_stats_record_action XDP_DROP s
             else if drop_bit 4 (d ! inner) = 4 \<or> drop_bit 4 (d ! inner) = 6
             then (case parse_inner_ipv4 inner d of
                     None \<Rightarrow> xdp_stats_record_action XDP_DROP s
                   | Some ue_ip \<Rightarrow>
                       tail_call e PROG_SESSION_LOOKUP_IP (session_lookup_ip e) (xdp_stats_record_action XDP_PASS)
                         (set_pctx (\<lambda>c. c\<lparr>pc_session_type := IpUplink, pc_ue_ip := ue_ip, pc_qfi := qfi,
                                          pc_pkt_teid := teid, pc_gnb_ipv4 := gnb, pc_inner_eth_proto := 0,
                                          pc_inner_eth_src := replicate 6 0, pc_inner_eth_dst := replicate 6 0\<rparr>) s))
             else if length d < inner + ETH_HLEN then xdp_stats_record_action XDP_DROP s
             else tail_call e PROG_SESSION_LOOKUP_ETH (session_lookup_eth e) (xdp_stats_record_action XDP_PASS)
                    (set_pctx (\<lambda>c. c\<lparr>pc_session_type := EthUplink, pc_pkt_teid := bswap32 teid, pc_qfi := qfi,
                                     pc_gnb_ipv4 := gnb, pc_inner_eth_src := bytes_at 6 (inner + 6) d,
                                     pc_inner_eth_dst := bytes_at 6 inner d,
                                     pc_inner_eth_proto := bswap16 (of_be16 (bytes_at 2 (inner + 12) d)),
                                     pc_ue_ip := 0, pc_src_ip := 0, pc_dst_ip := 0, pc_src_port := 0,
                                     pc_dst_port := 0, pc_protocol := 0\<rparr>) s))"

section \<open>Downlink\<close>

text \<open>\<open>update_mac_address\<close> (\<open>utils/mac_resolution.h\<close>): the first 12 bytes of the frame, whose IP header
  follows the Ethernet header. A route gives both addresses; otherwise the neighbour is looked for
  under the address of the interface.\<close>

definition update_mac_address :: "xdp_env \<Rightarrow> pipeline \<Rightarrow> reference_point \<Rightarrow> byte list \<Rightarrow> byte list" where
  "update_mac_address e p direction d =
     (let r = inner_route e ETH_HLEN d
      in if fr_success r then write_at 0 (fr_dmac r @ fr_smac r) d
         else case xe_interface e direction of
                None \<Rightarrow> d
              | Some ip \<Rightarrow> (case bm_lookup (arp_table_map p) ip of
                              None \<Rightarrow> d
                            | Some (mac, _) \<Rightarrow> write_at 0 mac d))"

text \<open>The frame becomes the payload of a tunnel of its own. The result is None for a drop; the bounds
  checks behind the growth of the head cannot fail.\<close>

definition create_outer_header_gtpu_ethernet :: "xdp_env \<Rightarrow> u32 \<Rightarrow> u32 \<Rightarrow> u8 \<Rightarrow> xdp_state \<Rightarrow> xdp_state option" where
  "create_outer_header_gtpu_ethernet e teid dst_ipv4 qfi s =
     (let R = GTP_ENCAPSULATED_SIZE + ETH_HLEN; pkt_len = word_of_nat (length (xs_data s))
      in case (grow_head R s, xe_interface e N3_INTERFACE) of
           (Some s1, Some n3_ip) \<Rightarrow>
             (let d = xs_data s1;
                  ip = outer_ipv4 n3_ip dst_ipv4 (word_of_nat (length d - ETH_HLEN));
                  d1 = update_mac_address e (xs_maps s1) N3_INTERFACE (write_at 12 (be16 ETH_P_IP @ ip) d);
                  d2 = write_at (ETH_HLEN + IPHDR) (tunnel_headers pkt_len (net32 teid) qfi) d1
              in Some (s1\<lparr>xs_data := outer_csum e d2\<rparr>))
         | _ \<Rightarrow> None)"

text \<open>Where \<open>None\<close> leaves the packet: with its head grown, when only the interface is missing.\<close>

definition dropped_outer :: "xdp_state \<Rightarrow> xdp_state" where
  "dropped_outer s = (case grow_head (GTP_ENCAPSULATED_SIZE + ETH_HLEN) s of None \<Rightarrow> s | Some s1 \<Rightarrow> s1)"

definition is_local :: "u32 \<Rightarrow> byte list \<Rightarrow> xdp_action option" where
  "is_local n6_ip d =
     (let proto = of_be16 (bytes_at 2 12 d)
      in if proto = ETH_P_IP
         then if length d < ETH_HLEN + IPHDR then Some XDP_DROP
              else if load_net32 (ETH_HLEN + 16) d = n6_ip then Some XDP_PASS else None
         else if proto = ETH_P_ARP
         then if length d < ETH_HLEN + 28 then Some XDP_DROP
              else if load_net32 (ETH_HLEN + 24) d = n6_ip then Some XDP_PASS else None
         else None)"

definition xdp_n6_eth_entry :: "xdp_env \<Rightarrow> xdp_prog" where
  "xdp_n6_eth_entry e s =
     (let d = xs_data s
      in if length d < ETH_HLEN then xdp_stats_record_action XDP_DROP s
         else case bm_lookup (xs_mac_table s) (bytes_at 6 0 d) of
           Some (teid, ip) \<Rightarrow>
             (case create_outer_header_gtpu_ethernet e teid ip 1 s of
                None \<Rightarrow> xdp_stats_record_action XDP_DROP (dropped_outer s)
              | Some s1 \<Rightarrow> redirect_map e DOWNLINK s1)
         | None \<Rightarrow>
             (case is_local (case xe_interface e N6_INTERFACE of None \<Rightarrow> 0 | Some ip \<Rightarrow> ip) d of
                Some a \<Rightarrow> xdp_stats_record_action a s
              | None \<Rightarrow>
                  if of_be16 (bytes_at 2 12 d) = ETH_P_IP
                  then (case reserve_meta s of
                          None \<Rightarrow> xdp_stats_record_action XDP_DROP s
                        | Some s1 \<Rightarrow> downlink_ip e s1)
                  else (case create_outer_header_gtpu_ethernet e 0 0 1 s of
                          None \<Rightarrow> xdp_stats_record_action XDP_DROP (dropped_outer s)
                        | Some s1 \<Rightarrow> xdp_stats_record_action XDP_PASS s1)))"

section \<open>Traffic control: the class of a packet\<close>

datatype tc_action = TC_ACT_OK | TC_ACT_SHOT | TC_ACT_RECLASSIFY | TcRedirect nat

definition HTB_ROOT_MAJOR :: u32 where "HTB_ROOT_MAJOR = 1"

definition TC_H_MAKE :: "u32 \<Rightarrow> u16 \<Rightarrow> u32" where
  "TC_H_MAKE major minor = push_bit 16 major OR ucast minor"

definition meta_seid :: "byte list \<Rightarrow> u64" where
  "meta_seid m = word_of_nat (load_le (take 8 m))"

text \<open>The verdict and the class, from the metadata and the data of the packet.\<close>

definition tc_filter_traffic :: "byte list \<Rightarrow> byte list \<Rightarrow> tc_action \<times> u32 option" where
  "tc_filter_traffic m d =
     (if length d < ETH_HLEN then (TC_ACT_SHOT, None)
      else if of_be16 (bytes_at 2 12 d) \<noteq> ETH_P_IP then (TC_ACT_OK, None)
      else if length d < ETH_HLEN + IPHDR then (TC_ACT_SHOT, None)
      else if d ! (ETH_HLEN + 9) \<noteq> IPPROTO_UDP then (TC_ACT_OK, None)
      else if length d < ETH_HLEN + IPHDR + UDPHDR then (TC_ACT_SHOT, None)
      else if of_be16 (bytes_at 2 (ETH_HLEN + IPHDR + 2) d) \<noteq> GTP_UDP_PORT then (TC_ACT_OK, None)
      else if length d < ETH_HLEN + GTP_ENCAPSULATED_SIZE then (TC_ACT_SHOT, None)
      else if length m < SESSION_QFI_SIZE then (TC_ACT_SHOT, None)
      else (TC_ACT_OK, Some (TC_H_MAKE HTB_ROOT_MAJOR (generate_minor_id (meta_seid m) (m ! 8)))))"

text \<open>The interface of the downlink direction, when it is configured.\<close>

definition tc_redirect_traffic :: "(u32 \<Rightarrow> nat option) \<Rightarrow> byte list \<Rightarrow> byte list \<Rightarrow> tc_action" where
  "tc_redirect_traffic egress m d =
     (if length m < SESSION_QFI_SIZE \<or> length d < ETH_HLEN then TC_ACT_SHOT
      else if of_be16 (bytes_at 2 12 d) \<noteq> ETH_P_IP then TC_ACT_OK
      else case egress DOWNLINK of None \<Rightarrow> TC_ACT_SHOT | Some i \<Rightarrow> TcRedirect i)"

section \<open>Traffic control: broadcast\<close>

definition MAX_BROADCAST_FANOUT :: nat where "MAX_BROADCAST_FANOUT = 50"
definition ETH_P_AARP :: u16 where "ETH_P_AARP = 0x80F3"

text \<open>The tunnels visited, the frame, whose tunnel and destination are rewritten for every clone, the
  clones, and whether a clone has failed.\<close>

record callback_ctx =
  cb_pdu_sessions :: "u32 list"
  cb_data :: "byte list"
  cb_clones :: "byte list list"
  cb_stopped :: bool

definition broadcast_callback_fn :: "(byte list \<Rightarrow> bool) \<Rightarrow> eth_session_id \<Rightarrow> callback_ctx \<Rightarrow> callback_ctx" where
  "broadcast_callback_fn clone_ok i c =
     (let d = cb_data c
      in if cb_stopped c \<or> length d < ETH_HLEN + IPHDR + UDPHDR + GTPUHDR then c
         else if ei_teid_dl i \<in> set (cb_pdu_sessions c) \<or> length (cb_pdu_sessions c) \<ge> MAX_BROADCAST_FANOUT \<or>
                 ei_teid_dl i = 0 then c
         else let d1 = write_at (ETH_HLEN + 16) (net32 (ei_ipv4_address i))
                         (write_at (ETH_HLEN + IPHDR + UDPHDR + 4) (net32 (ei_teid_dl i)) d);
                  c1 = c\<lparr>cb_pdu_sessions := cb_pdu_sessions c @ [ei_teid_dl i], cb_data := d1\<rparr>
              in if clone_ok d1 then c1\<lparr>cb_clones := cb_clones c @ [d1]\<rparr> else c1\<lparr>cb_stopped := True\<rparr>)"

definition is_broadcast_frame :: "byte list \<Rightarrow> bool" where
  "is_broadcast_frame f \<longleftrightarrow>
     of_be16 (bytes_at 2 12 f) = ETH_P_ARP \<or> of_be16 (bytes_at 2 12 f) = ETH_P_AARP \<or> eth_is_bcast_or_mcast f"

text \<open>The interfaces by direction, the one the frame came in on, whether the room in front can be taken
  away, and the sessions in the order the kernel walks them. The result is the verdict, the frame that
  goes on, and the clones.\<close>

definition handle_broadcast ::
    "(u32 \<Rightarrow> nat option) \<Rightarrow> nat \<Rightarrow> (byte list \<Rightarrow> bool) \<Rightarrow> bool \<Rightarrow> eth_session_id list \<Rightarrow> byte list \<Rightarrow>
     tc_action \<times> byte list \<times> byte list list" where
  "handle_broadcast egress ifindex clone_ok room_ok sessions d =
     (let R = ETH_HLEN + GTP_ENCAPSULATED_SIZE; frame = drop R d
      in if length d < ETH_HLEN + IPHDR + UDPHDR \<or>
            of_be16 (bytes_at 2 (ETH_HLEN + IPHDR + 2) d) \<noteq> GTP_UDP_PORT then (TC_ACT_OK, d, [])
         else case egress DOWNLINK of
                None \<Rightarrow> (TC_ACT_OK, d, [])
              | Some n3 \<Rightarrow>
                  if length d < R + ETH_HLEN then (TC_ACT_OK, d, [])
                  else if \<not> is_broadcast_frame frame then (TC_ACT_RECLASSIFY, d, [])
                  else let is_uplink = (n3 = ifindex);
                           visited = (if is_uplink then [load_net32 (ETH_HLEN + IPHDR + UDPHDR + 4) d] else []);
                           c = fold (broadcast_callback_fn clone_ok) sessions
                                 \<lparr>cb_pdu_sessions = visited, cb_data = d, cb_clones = [], cb_stopped = False\<rparr>
                       in if \<not> is_uplink then (TC_ACT_SHOT, cb_data c, cb_clones c)
                          else case egress UPLINK of
                                 None \<Rightarrow> (TC_ACT_SHOT, cb_data c, cb_clones c)
                               | Some n6 \<Rightarrow>
                                   if room_ok then (TcRedirect n6, take ETH_HLEN frame @ drop (R + ETH_HLEN) (cb_data c), cb_clones c)
                                   else (TC_ACT_SHOT, cb_data c, cb_clones c))"

end
