(* ===== verification/XdpTunnel.thy ===== *)
theory XdpTunnel
  imports XdpEth SessionLife GtpuWalk
begin

text \<open>
  GTP-U in the XDP programs: what \<open>gtpu_encap_ipv4\<close> sends is a valid packet, it is found again by the
  parsers of the XDP programs and by the walk of the other datapath, and \<open>gtpu_decap_ipv4\<close> undoes it.
\<close>

section \<open>Checksum\<close>

lemma pcn_fold_oc: "unat (pcn_csum_fold s) = 65535 - oc16 (unat s)"
proof -
  define a where "a = (s AND 0xFFFF) + drop_bit 16 s"
  define b where "b = (a AND 0xFFFF) + drop_bit 16 a"
  note h = halves32(1) [unfolded mask_numerals]
  have step: "oc_eq (m mod 65536 + m div 65536) m" for m
  proof -
    have "oc_eq (65536 * (m div 65536)) (m div 65536)" by (rule oc_eq_shift) simp
    from oc_eq_add [OF oc_eq_refl [of "m mod 65536"] oc_eq_sym [OF this]] show ?thesis by simp
  qed
  have oc: "oc_eq (unat a) (unat s)" "oc_eq (unat b) (unat a)"
    using step [of "unat s"] step [of "unat a"] by (simp_all add: a_def b_def h)
  have "unat s < 65536 * 65536" using unsigned_less [of s] by simp
  then have "unat s div 65536 < 65536" by (rule less_mult_imp_div_less)
  then have a: "unat a \<le> 131070" using mod_less_divisor [of 65536 "unat s"] by (simp add: a_def h)
  have "unat a mod 65536 + unat a div 65536 \<le> 65535"
  proof (cases "unat a < 65536")
    case False
    then have "unat a mod 65536 = unat a - 65536" "unat a div 65536 = 1"
      using a by (simp_all add: mod_if [of "unat a"] div_if [of "unat a"])
    then show ?thesis using a by simp
  qed simp
  then have b: "unat b \<le> 65535" by (simp add: b_def h)
  have not16: "unat (NOT x) = 65535 - unat x" for x :: u16
  proof -
    have "NOT x = - 1 - x" by (simp add: not_eq_complement)
    moreover have "unat (- 1 - x) = unat (- 1 :: u16) - unat x" by (rule unat_sub) simp
    ultimately show ?thesis by (simp add: unsigned_minus_1_eq_mask mask_eq_exp_minus_1)
  qed
  have "ucast (NOT b) = NOT (ucast b :: u16)" by (rule bit_word_eqI) (simp add: bit_simps)
  moreover have "unat (ucast b :: u16) = unat b" using b by (simp add: unsigned_ucast_eq take_bit_nat_eq_self)
  moreover have "unat b = oc16 (unat s)" using oc_eq_trans [OF oc(2,1)] by (rule oc_eq_word [OF b])
  ultimately show ?thesis by (simp add: pcn_csum_fold_def a_def [symmetric] b_def [symmetric] not16)
qed

lemma pcn_add_oc: "oc_eq (unat (pcn_csum_add acc w)) (unat acc + unat w)"
proof (cases "unat acc + unat w < 2 ^ 32")
  case True
  then have u: "unat (acc + w) = unat acc + unat w" by (simp add: unat_plus_if')
  then have "\<not> acc + w < w" by (simp add: word_less_nat_alt)
  then show ?thesis using u by (simp add: pcn_csum_add_def Let_def)
next
  case False
  then have u: "unat (acc + w) = unat acc + unat w - 2 ^ 32" by (simp add: unat_plus_if')
  moreover have "unat acc < 2 ^ 32" "unat w < 2 ^ 32" using unsigned_less [of acc] unsigned_less [of w] by simp_all
  ultimately have c: "unat (acc + w) < unat w" "unat (acc + w) + 1 < 2 ^ 32" using False by simp_all
  have s: "unat (pcn_csum_add acc w) = unat (acc + w) + 1"
    using c by (simp add: pcn_csum_add_def Let_def word_less_nat_alt unat_plus_if')
  then have v: "unat (pcn_csum_add acc w) + 4294967295 = unat acc + unat w" using False u by simp
  have "(unat (pcn_csum_add acc w) + 65537 * 65535) mod 65535 = unat (pcn_csum_add acc w) mod 65535"
    by (rule mod_mult_self1)
  then have "unat (pcn_csum_add acc w) mod 65535 = (unat acc + unat w) mod 65535" by (simp add: v)
  then show ?thesis using False s unfolding oc_eq_def by auto
qed

text \<open>With a checksum field of 0, the sum that is stored complements that of the header.\<close>

lemma pcn_replace_oc:
  assumes "oc_eq (unat diff) n" "0 < n"
  shows "unat (pcn_csum_replace_by_diff 0 diff) = 65535 - oc16 n"
proof -
  have m: "unat (NOT (0 :: u32)) = 65537 * 65535"
    by (simp add: unsigned_minus_1_eq_mask mask_eq_exp_minus_1)
  have "(n + 65537 * 65535) mod 65535 = n mod 65535" by (rule mod_mult_self1)
  then have "oc_eq (n + 65537 * 65535) n" using assms(2) by (simp add: oc_eq_def)
  then have "oc_eq (unat (pcn_csum_add diff (NOT 0))) n"
    using oc_eq_trans [OF pcn_add_oc [of diff "NOT 0"] oc_eq_add [OF assms(1) oc_eq_refl [of "unat (NOT (0 :: u32))"]]] oc_eq_trans
    unfolding m by blast
  from oc16_cong [OF this] show ?thesis by (simp add: pcn_csum_replace_by_diff_def pcn_fold_oc)
qed

section \<open>The outer headers\<close>

lemmas header_sizes = GTP_ENCAPSULATED_SIZE_def ETH_HLEN_def IPHDR_def UDPHDR_def GTPUHDR_def PDU_SESSION_CONTAINER_def

lemma length_outer_ipv4 [simp]: "length (outer_ipv4 a b l) = 20"
  by (simp add: outer_ipv4_def net32_def)

lemma length_tunnel_headers [simp]: "length teid = 4 \<Longrightarrow> length (tunnel_headers l teid q) = 24"
  by (simp add: tunnel_headers_def)

lemma length_bytes_at [simp]: "i + n \<le> length d \<Longrightarrow> length (bytes_at n i d) = n"
  by (simp add: bytes_at_def)

lemma bytes_at_append: "length xs = i \<Longrightarrow> bytes_at n (i + j) (xs @ ys) = bytes_at n j ys"
  by (simp add: bytes_at_def)

lemma bytes_at_prefix: "length xs = n \<Longrightarrow> bytes_at n 0 (xs @ ys) = xs"
  by (simp add: bytes_at_def)

text \<open>The header with its checksum, behind 14 bytes of Ethernet header.\<close>

definition ip_sum :: "xdp_env \<Rightarrow> byte list \<Rightarrow> u16" where
  "ip_sum e h = pcn_csum_replace_by_diff 0 (xe_csum_diff e h)"

lemma outer_csum_eth:
  assumes "length m = 14" "length h = 20" "drop 10 h = 0 # 0 # t"
  shows "outer_csum e (m @ h @ r) = m @ store16 10 (ip_sum e h) h @ r"
proof -
  have b: "bytes_at 20 14 (m @ h @ r) = h" using assms by (simp add: bytes_at_def)
  have "drop 24 (m @ h @ r) = drop 10 h @ r" using assms by simp
  then have "take 2 (drop 24 (m @ h @ r)) = [0, 0]" using assms by simp
  then have c: "bytes_at 2 24 (m @ h @ r) = [0, 0]" by (simp add: bytes_at_def)
  have "store16 24 v (m @ h @ r) = m @ store16 10 v h @ r" for v
    using assms by (simp add: store16_split)
  then show ?thesis
    using assms by (simp add: outer_csum_def pcn_l3_csum_replace_def IP_CSUM_OFFSET_def header_sizes b c ip_sum_def)
qed

lemma outer_ipv4_zero: "drop 10 (outer_ipv4 a b l) = 0 # 0 # net32 a @ net32 b"
  by (simp add: outer_ipv4_def be16_def)

definition outer_header :: "xdp_env \<Rightarrow> u32 \<Rightarrow> u32 \<Rightarrow> u16 \<Rightarrow> byte list" where
  "outer_header e a b l = store16 10 (ip_sum e (outer_ipv4 a b l)) (outer_ipv4 a b l)"

lemma length_outer_header [simp]: "length (outer_header e a b l) = 20"
  by (simp add: outer_header_def)

lemma outer_header_verifies:
  assumes "oc_eq (unat (xe_csum_diff e (outer_ipv4 a b l))) (sum16 (outer_ipv4 a b l))"
  shows "oc16 (sum16 (outer_header e a b l)) = 65535"
proof -
  let ?h = "outer_ipv4 a b l"
  have z: "store16 10 0 ?h = ?h" by (simp add: store16_split le_bytes16_def outer_ipv4_def be16_def net32_def be32_def)
  have "0 < sum16 ?h" by (simp add: outer_ipv4_def)
  from pcn_replace_oc [OF assms this]
  have "unat (ip_sum e ?h) = 65535 - oc16 (0 + sum16 (store16 10 0 ?h))" by (simp add: ip_sum_def z)
  from store_complement_verifies [OF _ _ this] show ?thesis by (simp add: outer_header_def)
qed

section \<open>Encapsulation\<close>

text \<open>A frame and its tunnelled form.\<close>

definition tunnelled :: "xdp_env \<Rightarrow> u32 \<Rightarrow> byte list \<Rightarrow> bpf_far \<Rightarrow> u8 \<Rightarrow> byte list \<Rightarrow> byte list" where
  "tunnelled e n3_ip mac far qfi d =
     (let len = of_be16 (bytes_at 2 16 d)
      in (mac @ bytes_at 8 6 d) @ outer_header e n3_ip (bf_ohc_ipv4_address far) (len + 44) @
         tunnel_headers len (be32 (bf_ohc_teid far)) qfi @ drop 14 d)"

lemma encap_data_tunnelled:
  assumes "length mac = 6" "length room = 44" "34 \<le> length d"
  shows "encap_data e n3_ip mac far qfi (room @ d) = tunnelled e n3_ip mac far qfi d"
proof -
  have b: "bytes_at n (44 + k) (room @ d) = bytes_at n k d" for n k
    using assms(2) by (rule bytes_at_append)
  note b = b [of 2 16, simplified] b [of 8 6, simplified]
  let ?len = "of_be16 (bytes_at 2 16 d)"
  have c: "outer_csum e ((mac @ bytes_at 8 6 d) @ outer_ipv4 n3_ip (bf_ohc_ipv4_address far) (?len + 44) @
        tunnel_headers ?len (be32 (bf_ohc_teid far)) qfi @ drop 14 d) = tunnelled e n3_ip mac far qfi d"
    using assms(1,3) unfolding tunnelled_def Let_def outer_header_def
    by (intro outer_csum_eth) (simp_all add: outer_ipv4_zero)
  show ?thesis
    using assms unfolding encap_data_def Let_def header_sizes by (simp add: b c [symmetric])
qed

section \<open>Reading it back\<close>

text \<open>The bytes of a tunnelled packet the parsers look at.\<close>

lemma tunnelled_parts:
  assumes "length mac = 6" "34 \<le> length d"
  shows "drop 12 (tunnelled e n3_ip mac far qfi d) =
     bytes_at 2 12 d @ outer_header e n3_ip (bf_ohc_ipv4_address far) (of_be16 (bytes_at 2 16 d) + 44) @
     tunnel_headers (of_be16 (bytes_at 2 16 d)) (be32 (bf_ohc_teid far)) qfi @ drop 14 d"
    and "drop 34 (tunnelled e n3_ip mac far qfi d) =
     tunnel_headers (of_be16 (bytes_at 2 16 d)) (be32 (bf_ohc_teid far)) qfi @ drop 14 d"
    and "length (tunnelled e n3_ip mac far qfi d) = 44 + length d"
proof -
  have "drop 6 (bytes_at 8 6 d) = bytes_at 2 12 d" by (simp add: bytes_at_def drop_take)
  then show "drop 12 (tunnelled e n3_ip mac far qfi d) =
     bytes_at 2 12 d @ outer_header e n3_ip (bf_ohc_ipv4_address far) (of_be16 (bytes_at 2 16 d) + 44) @
     tunnel_headers (of_be16 (bytes_at 2 16 d)) (be32 (bf_ohc_teid far)) qfi @ drop 14 d"
    "drop 34 (tunnelled e n3_ip mac far qfi d) =
     tunnel_headers (of_be16 (bytes_at 2 16 d)) (be32 (bf_ohc_teid far)) qfi @ drop 14 d"
    "length (tunnelled e n3_ip mac far qfi d) = 44 + length d"
    using assms by (simp_all add: tunnelled_def Let_def)
qed

lemma bytes_at_drop: "bytes_at n i d = take n (drop i d)"
  by (simp add: bytes_at_def)

lemma nth_drop': "k \<le> i \<Longrightarrow> i < length d \<Longrightarrow> d ! i = drop k d ! (i - k)"
  by simp

lemma parse_tunnelled:
  assumes "length mac = 6" "34 \<le> length d" "of_be16 (bytes_at 2 12 d) = ETH_P_IP"
  shows "parse_gpdu (tunnelled e n3_ip mac far qfi d) = Inr (bf_ohc_teid far, qfi)"
proof -
  let ?t = "tunnelled e n3_ip mac far qfi d" and ?len = "of_be16 (bytes_at 2 16 d)"
  note p = tunnelled_parts [OF assms(1,2), of e n3_ip far qfi]
  have "bytes_at 2 12 ?t = bytes_at 2 12 d" using assms(2) by (simp add: bytes_at_def [of 2 12 ?t] p(1))
  then have eth: "parse_eth ?t = (ETH_P_IP, False)" "parse_ipv4 14 ?t"
    using assms(2,3) by (simp_all add: parse_eth_def parse_ipv4_def header_sizes p(3))
  have tail: "drop (34 + k) ?t = drop k (tunnel_headers ?len (be32 (bf_ohc_teid far)) qfi @ drop 14 d)" for k
    by (metis p(2) drop_drop add.commute)
  have at: "?t ! (34 + k) = (tunnel_headers ?len (be32 (bf_ohc_teid far)) qfi @ drop 14 d) ! k" if "k < 24" for k
    using that nth_drop [of 34 ?t k] p by simp
  have udp: "parse_udp_gtpu 34 ?t = (True, False)"
    using tail [of 2] assms(2) by (simp add: parse_udp_gtpu_def header_sizes p(3) bytes_at_def tunnel_headers_def be16_def
        of_be16_be16 [unfolded be16_def])
  have gtp: "parse_gtpu_hdr 42 ?t = (Some (bf_ohc_teid far), False)"
    using tail [of 12] at [of 9] assms(2) by (simp add: parse_gtpu_hdr_def header_sizes p(3) bytes_at_def tunnel_headers_def be16_def
        nth_append)
  have ext: "parse_gtpu_ext_hdr 54 ?t = Some qfi"
    using at [of 22] assms(2) by (simp add: parse_gtpu_ext_hdr_def header_sizes p(3) tunnel_headers_def be16_def be32_def)
  show ?thesis by (simp add: parse_gpdu_def eth udp gtp ext header_sizes ETH_P_IP_def)
qed

text \<open>The walk of the other datapath, on the payload of the UDP datagram.\<close>

lemma walk_tunnelled:
  assumes "length mac = 6" "34 \<le> length d"
  shows "gtpu_inner (drop 42 (tunnelled e n3_ip mac far qfi d)) = Inner 16 (length d - 14)"
proof -
  let ?len = "of_be16 (bytes_at 2 16 d)"
  let ?rest = "[GTPU_MSG_G_PDU] @ be16 (?len + word_of_nat (PDU_SESSION_CONTAINER + 4)) @ be32 (bf_ohc_teid far)"
  have "drop 42 (tunnelled e n3_ip mac far qfi d) = drop 8 (tunnel_headers ?len (be32 (bf_ohc_teid far)) qfi @ drop 14 d)"
    unfolding tunnelled_parts(2) [OF assms, of e n3_ip far qfi, symmetric] by simp
  also have "\<dots> = enc_gpdu GTP_EXT_FLAGS ?rest [0, 0, 0] [(GTP_NEXT_EXT_TYPE, [0, qfi])] (drop 14 d)"
    by (simp add: enc_gpdu_def tunnel_headers_def first_type_def GTP_EXT_FLAGS_def GTPU_E_def GTPU_S_def GTPU_PN_def be16_def)
  finally have t: "drop 42 (tunnelled e n3_ip mac far qfi d) = enc_gpdu GTP_EXT_FLAGS ?rest [0, 0, 0] [(GTP_NEXT_EXT_TYPE, [0, qfi])] (drop 14 d)" .
  have "ext_ok (GTP_NEXT_EXT_TYPE, [0, qfi])" by (auto simp: ext_ok_def GTP_NEXT_EXT_TYPE_def intro!: exI [of _ 1])
  then have "gtpu_inner (drop 42 (tunnelled e n3_ip mac far qfi d)) =
      Inner (length (drop 42 (tunnelled e n3_ip mac far qfi d)) - length (drop 14 d)) (length (drop 14 d))"
    unfolding t using assms(2) by (intro gtpu_inner_finds_payload) (auto simp: GTP_EXT_FLAGS_def GTPU_E_def)
  then show ?thesis using assms(2) tunnelled_parts(3) [OF assms, of e n3_ip far qfi] by simp
qed

section \<open>Decapsulation\<close>

lemma size_sums: "GTP_ENCAPSULATED_SIZE = 44" "ETH_HLEN = 14" "IPHDR = 20" "44 + 14 = (58 :: nat)" "58 + 20 = (78 :: nat)"
  "58 + 16 = (74 :: nat)"
  by (simp_all add: header_sizes)

text \<open>Addresses the environment gives are Ethernet addresses.\<close>

definition macs_ok :: "xdp_env \<Rightarrow> pipeline \<Rightarrow> bool" where
  "macs_ok e p \<longleftrightarrow> (\<forall>q. length (fr_dmac (xe_fib e q)) = 6 \<and> length (fr_smac (xe_fib e q)) = 6) \<and>
     (\<forall>ip mac s. bm_lookup (arp_table_map p) ip = Some (mac, s) \<longrightarrow> length mac = 6)"

lemma gtpu_decap_data:
  assumes "gtpu_decap_ipv4 e far s = (RET_SUCCESS, s')" "macs_ok e (xs_maps s)"
  shows "drop 12 (xs_data s') = bytes_at 2 12 (xs_data s) @ drop 58 (xs_data s)"
    and "length (xs_data s') + 44 = length (xs_data s)"
proof -
  let ?d = "xs_data s"
  let ?d1 = "write_at 44 (take 14 ?d) ?d"
  let ?r = "inner_route e 58 ?d1"
  let ?d2 = "if fr_success ?r then Some (write_at 44 (fr_dmac ?r @ fr_smac ?r) ?d1)
      else map_option (\<lambda>mac. write_at 44 mac ?d1) (n6_neighbour (xs_maps s) (fr_ipv4_dst ?r) (load_net32 74 ?d1))"
  have guards: "\<not> length ?d < 14" "aa_forw (bf_apply_action far)" "\<not> length ?d < 58" "\<not> length ?d < 78"
    using assms(1) by (simp_all add: gtpu_decap_ipv4_def Let_def header_sizes split: if_splits)
  have run: "(case ?d2 of None \<Rightarrow> (RET_FAILURE, s\<lparr>xs_data := ?d1\<rparr>)
      | Some d3 \<Rightarrow> (case strip_head 44 (s\<lparr>xs_data := d3\<rparr>) of None \<Rightarrow> (RET_DROP, s\<lparr>xs_data := d3\<rparr>)
                    | Some s2 \<Rightarrow> (RET_SUCCESS, s2))) = (RET_SUCCESS, s')"
    using assms(1) guards unfolding gtpu_decap_ipv4_def Let_def size_sums by simp
  then obtain d3 where d3: "?d2 = Some d3" "strip_head 44 (s\<lparr>xs_data := d3\<rparr>) = Some s'"
    by (auto split: option.splits)
  have l: "78 \<le> length ?d" using guards by simp
  have arp: "length m \<le> 12" if "n6_neighbour (xs_maps s) x y = Some m" for m x y
    using assms(2) that by (fastforce simp: n6_neighbour_def macs_ok_def split: option.splits if_splits)
  have "length (fr_dmac ?r @ fr_smac ?r) \<le> 12" using assms(2) by (simp add: macs_ok_def inner_route_def)
  with d3(1) arp have "\<exists>m. length m \<le> 12 \<and> d3 = write_at 44 m ?d1"
  proof (cases "fr_success ?r")
    case True
    then show ?thesis using d3(1) \<open>length (fr_dmac ?r @ fr_smac ?r) \<le> 12\<close>
      by (intro exI [of _ "fr_dmac ?r @ fr_smac ?r"]) simp
  qed auto
  then obtain m where m: "length m \<le> 12" "d3 = write_at 44 m ?d1" by blast
  have s': "xs_data s' = drop 44 d3" using d3(2) by (auto simp: strip_head_def split: if_splits)
  have "drop 56 d3 = drop 56 ?d1" using m l by (simp add: write_at_def)
  also have "\<dots> = bytes_at 2 12 ?d @ drop 58 ?d"
    using l by (simp add: write_at_def bytes_at_def drop_take)
  finally show "drop 12 (xs_data s') = bytes_at 2 12 ?d @ drop 58 ?d" by (simp add: s')
  show "length (xs_data s') + 44 = length ?d" using m l by (simp add: s' write_at_def)
qed

section \<open>There and back\<close>

lemma cached_n3_ip_frame: "cached_n3_ip e s = Some (ip, s') \<Longrightarrow> s' = s\<lparr>xs_n3_ip := Some ip\<rparr>"
  by (cases s) (auto simp: cached_n3_ip_def split: option.splits)

lemma gtpu_encap_cases:
  assumes "gtpu_encap_ipv4 e far qfi s = (RET_SUCCESS, s')"
  obtains s1 n3_ip mac i where "grow_head 44 s = Some s1" "bm_lookup (arp_table_map (xs_maps s1)) (bf_ohc_ipv4_address far) = Some (mac, i)"
    "78 \<le> length (xs_data s1)" "s' = s1\<lparr>xs_n3_ip := Some n3_ip, xs_data := encap_data e n3_ip mac far qfi (xs_data s1)\<rparr>"
proof -
  obtain s1 where s1: "grow_head 44 s = Some s1"
    using assms by (cases "grow_head 44 s") (simp_all add: gtpu_encap_ipv4_def header_sizes)
  obtain n3_ip s2 where s2: "cached_n3_ip e s1 = Some (n3_ip, s2)"
    using assms s1 by (cases "cached_n3_ip e s1") (auto simp: gtpu_encap_ipv4_def header_sizes)
  then have o': "s2 = s1\<lparr>xs_n3_ip := Some n3_ip\<rparr>" by (rule cached_n3_ip_frame)
  obtain mac i where m: "bm_lookup (arp_table_map (xs_maps s1)) (bf_ohc_ipv4_address far) = Some (mac, i)"
    using assms s1 s2 o'
    by (cases "bm_lookup (arp_table_map (xs_maps s1)) (bf_ohc_ipv4_address far)") (auto simp: gtpu_encap_ipv4_def header_sizes)
  have "78 \<le> length (xs_data s1)" "s' = s2\<lparr>xs_data := encap_data e n3_ip mac far qfi (xs_data s2)\<rparr>"
    using assms s1 s2 o' m by (simp_all add: gtpu_encap_ipv4_def header_sizes Let_def split: if_splits)
  with that s1 m o' show thesis by simp
qed

lemma grow_head_data:
  assumes "grow_head n s = Some s1"
  obtains room where "length room = n" "xs_data s1 = room @ xs_data s" "xs_maps s1 = xs_maps s"
  using assms that [of "drop (length (xs_head s @ xs_meta s) - n) (xs_head s @ xs_meta s)"]
  by (simp add: grow_head_def Let_def split: if_splits del: drop_append length_append)
     (cases s; force simp del: drop_append)

lemma gtpu_encap_data:
  assumes "gtpu_encap_ipv4 e far qfi s = (RET_SUCCESS, s')" "macs_ok e (xs_maps s)"
  obtains n3_ip mac where "length mac = 6" "34 \<le> length (xs_data s)"
    "xs_data s' = tunnelled e n3_ip mac far qfi (xs_data s)" "xs_maps s' = xs_maps s"
    "xs_n3_ip s' = Some n3_ip"
proof -
  from gtpu_encap_cases [OF assms(1)] obtain s1 n3_ip mac i where g: "grow_head 44 s = Some s1"
    "bm_lookup (arp_table_map (xs_maps s1)) (bf_ohc_ipv4_address far) = Some (mac, i)"
    "78 \<le> length (xs_data s1)" "s' = s1\<lparr>xs_n3_ip := Some n3_ip, xs_data := encap_data e n3_ip mac far qfi (xs_data s1)\<rparr>" .
  from grow_head_data [OF g(1)] obtain room where r: "length room = 44" "xs_data s1 = room @ xs_data s" "xs_maps s1 = xs_maps s" .
  have m: "length mac = 6" "34 \<le> length (xs_data s)" using g(2,3) r assms(2) by (auto simp: macs_ok_def)
  from that [OF m] show thesis using g(4) r(2,3) encap_data_tunnelled [OF m(1) r(1) m(2)] by simp
qed

text \<open>C10: a downlink packet that was encapsulated is found again, with the tunnel of the FAR and the QFI
  it was sent with: the parsers of the XDP programs and the walk of the other datapath read that tunnel
  and reach the packet, and decapsulation, wherever it succeeds on it, gives back the frame but for its
  two addresses.\<close>

theorem xdp_tunnel_roundtrip:
  assumes "gtpu_encap_ipv4 e far qfi s = (RET_SUCCESS, s1)" and "macs_ok e (xs_maps s)"
    and "of_be16 (bytes_at 2 12 (xs_data s)) = ETH_P_IP"
    and "gtpu_decap_ipv4 e' far' t = (RET_SUCCESS, t')" and "xs_data t = xs_data s1" and "macs_ok e' (xs_maps t)"
  shows "parse_gpdu (xs_data s1) = Inr (bf_ohc_teid far, qfi) \<and>
         gtpu_inner (drop 42 (xs_data s1)) = Inner 16 (length (xs_data s) - 14) \<and>
         drop 58 (xs_data s1) = drop 14 (xs_data s) \<and>
         drop 12 (xs_data t') = drop 12 (xs_data s) \<and> length (xs_data t') = length (xs_data s)"
proof -
  from gtpu_encap_data [OF assms(1,2)] obtain n3_ip mac where m: "length mac = 6" "34 \<le> length (xs_data s)"
    and d: "xs_data s1 = tunnelled e n3_ip mac far qfi (xs_data s)" by metis
  let ?t = "tunnelled e n3_ip mac far qfi (xs_data s)"
  note p = tunnelled_parts [OF m, of e n3_ip far qfi]
  have "drop 58 ?t = drop 46 (drop 12 ?t)" by simp
  also have "\<dots> = drop 14 (xs_data s)" using m unfolding p(1) by simp
  finally have payload: "drop 58 ?t = drop 14 (xs_data s)" .
  have "bytes_at 2 12 ?t = bytes_at 2 12 (xs_data s)" using m(2) by (simp add: bytes_at_def [of 2 12 ?t] p(1))
  moreover have "drop 12 (xs_data s) = bytes_at 2 12 (xs_data s) @ drop 14 (xs_data s)"
    using append_take_drop_id [of 2 "drop 12 (xs_data s)"] by (simp add: bytes_at_def)
  ultimately show ?thesis
    using gtpu_decap_data [OF assms(4,6)] parse_tunnelled [OF m assms(3)] walk_tunnelled [OF m] p(3)
    by (simp add: assms(5) d payload)
qed

lemma u16_add: "unat a + unat b < 65536 \<Longrightarrow> unat (a + b :: u16) = unat a + unat b"
  by (simp add: unat_plus_if')

text \<open>C34: what encapsulation sends is a valid packet: from the N3 address to the address of the FAR, its
  header checksum verifies, and the three length fields count what follows, provided the packet is as
  long as its header says and stays below 64 KiB. \<open>bpf_csum_diff\<close> is taken to sum the header.\<close>

theorem encapsulated_packet_is_valid:
  assumes "gtpu_encap_ipv4 e far qfi s = (RET_SUCCESS, s1)" and "macs_ok e (xs_maps s)"
    and "\<And>h. length h = IPHDR \<Longrightarrow> oc_eq (unat (xe_csum_diff e h)) (sum16 h)"
    and "unat (of_be16 (bytes_at 2 16 (xs_data s))) = length (xs_data s) - ETH_HLEN"
    and "length (xs_data s) + GTP_ENCAPSULATED_SIZE < 65536"
  shows "oc16 (sum16 (bytes_at 20 14 (xs_data s1))) = 65535 \<and>
         bytes_at 4 30 (xs_data s1) = net32 (bf_ohc_ipv4_address far) \<and>
         Some (bytes_at 4 26 (xs_data s1)) = map_option net32 (xs_n3_ip s1) \<and>
         unat (of_be16 (bytes_at 2 16 (xs_data s1))) = length (xs_data s1) - 14 \<and>
         unat (of_be16 (bytes_at 2 38 (xs_data s1))) = length (xs_data s1) - 34 \<and>
         unat (of_be16 (bytes_at 2 44 (xs_data s1))) = length (xs_data s1) - 50"
proof -
  from gtpu_encap_data [OF assms(1,2)] obtain n3_ip mac where m: "length mac = 6" "34 \<le> length (xs_data s)"
    and d: "xs_data s1 = tunnelled e n3_ip mac far qfi (xs_data s)" "xs_n3_ip s1 = Some n3_ip" by metis
  let ?t = "tunnelled e n3_ip mac far qfi (xs_data s)" and ?len = "of_be16 (bytes_at 2 16 (xs_data s))"
  let ?h = "outer_header e n3_ip (bf_ohc_ipv4_address far) (?len + 44)"
  note p = tunnelled_parts [OF m, of e n3_ip far qfi]
  have at: "bytes_at n (14 + k) ?t = bytes_at n k (?h @ tunnel_headers ?len (be32 (bf_ohc_teid far)) qfi @ drop 14 (xs_data s))" for n k
  proof -
    have "drop 14 ?t = drop 2 (drop 12 ?t)" by simp
    also have "\<dots> = ?h @ tunnel_headers ?len (be32 (bf_ohc_teid far)) qfi @ drop 14 (xs_data s)"
      using m unfolding p(1) by simp
    finally show ?thesis by (metis bytes_at_def drop_drop add.commute)
  qed
  have h: "?h = take 10 ?h @ take 2 (drop 10 ?h) @ net32 n3_ip @ net32 (bf_ohc_ipv4_address far)"
    "take 10 ?h = take 10 (outer_ipv4 n3_ip (bf_ohc_ipv4_address far) (?len + 44))"
    by (simp_all add: outer_header_def store16_split outer_ipv4_def be16_def)
  have "bytes_at 20 14 ?t = ?h" using at [of 20 0] by (simp add: bytes_at_prefix)
  moreover have "oc16 (sum16 ?h) = 65535" by (rule outer_header_verifies) (simp add: assms(3) IPHDR_def)
  moreover have "bytes_at 4 26 ?t = net32 n3_ip" "bytes_at 4 30 ?t = net32 (bf_ohc_ipv4_address far)"
    using at [of 4 12] at [of 4 16] by (subst (asm) (1 2) h(1), simp add: bytes_at_def net32_def)+
  moreover have "take 4 ?h = [0x45, 0] @ be16 (?len + 44)"
    using arg_cong [OF h(2), of "take 4"] by (simp add: outer_ipv4_def be16_def)
  then have "bytes_at 2 16 ?t = be16 (?len + 44)"
    using at [of 2 2] by (simp add: bytes_at_def take_drop)
  moreover have "bytes_at 2 38 ?t = be16 (?len + 24)" "bytes_at 2 44 ?t = be16 (?len + 8)"
    using at [of 2 24] at [of 2 30] by (simp_all add: bytes_at_def tunnel_headers_def be16_def header_sizes)
  moreover have "unat ?len + 44 < 65536" using assms(5) m(2) unfolding assms(4) header_sizes by simp
  then have n: "unat (?len + 44) = unat ?len + 44" "unat (?len + 24) = unat ?len + 24" "unat (?len + 8) = unat ?len + 8"
    using u16_add [of ?len 44] u16_add [of ?len 24] u16_add [of ?len 8] by simp_all
  have "unat (of_be16 (be16 (?len + 44))) = length ?t - 14" "unat (of_be16 (be16 (?len + 24))) = length ?t - 34"
    "unat (of_be16 (be16 (?len + 8))) = length ?t - 50"
    unfolding of_be16_be16 n assms(4) p(3) ETH_HLEN_def using m(2) by simp_all
  ultimately show ?thesis unfolding d by simp
qed

section \<open>An example\<close>

text \<open>A UDP packet from 10.1.2.3 to the UE 12.1.1.2 in an Ethernet frame; a gNB at 192.168.1.1.\<close>

definition ex_frame :: "byte list" where
  "ex_frame = [2, 0, 0, 0, 0, 1, 2, 0, 0, 0, 0, 2, 8, 0] @
     [0x45, 0, 0, 28, 0, 0, 0, 0, 64, 17, 0, 0, 10, 1, 2, 3, 12, 1, 1, 2] @ [0, 80, 19, 137, 0, 8, 0, 0]"

definition ex_gnb :: u32 where "ex_gnb = 0x0101A8C0"

definition ex_xdp_env :: xdp_env where
  "ex_xdp_env = \<lparr>xe_loaded = (\<lambda>_. True), xe_interface = (\<lambda>_. Some 0x0201A8C0), xe_redirect = Some,
     xe_fib = (\<lambda>_. \<lparr>fr_success = True, fr_ipv4_dst = 0, fr_dmac = replicate 6 3, fr_smac = replicate 6 4\<rparr>),
     xe_csum_diff = (\<lambda>h. word_of_nat (sum16 h)), xe_now = 1000, xe_max_pdrs = 8,
     xe_report_room = (\<lambda>_. True), xe_ddn_room = (\<lambda>_. True)\<rparr>"

definition ex_pctx :: packet_context where
  "ex_pctx = \<lparr>pc_session_type = IpDownlink, pc_ue_ip = 0x0C010102, pc_qfi = 0, pc_pkt_teid = 0, pc_src_ip = 0, pc_dst_ip = 0,
     pc_src_port = 0, pc_dst_port = 0, pc_protocol = 0, pc_seid = 0, pc_teid_ul = 0, pc_teid_dl = 0, pc_rules_enabled = 0,
     pc_pdr_id = 0, pc_final_action = ActionPass, pc_inner_eth_src = [], pc_inner_eth_dst = [], pc_inner_eth_proto = 0,
     pc_gnb_ipv4 = 0, pc_pdr_mar_id = 0\<rparr>"

definition ex_xdp_state :: "pipeline \<Rightarrow> byte list \<Rightarrow> xdp_state" where
  "ex_xdp_state p d = \<lparr>xs_maps = p, xs_pctx = ex_pctx, xs_head = replicate 256 0, xs_meta = [], xs_data = d,
     xs_stats = (\<lambda>_. (0, 0)), xs_redirect = None, xs_n3_ip = None, xs_mac_table = bm_new 8, xs_urr_volume = bm_new 8,
     xs_urr_config = bm_new 8, xs_bar_config = bm_new 8, xs_bar_state = bm_new 8, xs_mar_config = bm_new 8,
     xs_mar_state = bm_new 8, xs_reports = [], xs_ddns = []\<rparr>"

definition ex_arp :: "pipeline \<Rightarrow> pipeline" where
  "ex_arp p = p\<lparr>arp_table_map := (bm_new 8)\<lparr>bm_elems := [(ex_gnb, (replicate 6 1, 0))]\<rparr>\<rparr>"

definition ex_dl_far :: bpf_far where
  "ex_dl_far = bpf_far_zero\<lparr>bf_far_id := 1, bf_apply_action := (bf_apply_action bpf_far_zero)\<lparr>aa_forw := True\<rparr>,
     bf_ohc_teid := 7, bf_ohc_ipv4_address := ex_gnb\<rparr>"

abbreviation ex_dl_state :: xdp_state where
  "ex_dl_state \<equiv> ex_xdp_state (ex_arp (pipeline_new 8)) ex_frame"

abbreviation ex_encapsulated :: "ret_code \<times> xdp_state" where
  "ex_encapsulated \<equiv> gtpu_encap_ipv4 ex_xdp_env ex_dl_far 9 ex_dl_state"

lemma ex_macs_ok: "macs_ok ex_xdp_env (ex_arp p)"
  by (auto simp: macs_ok_def ex_xdp_env_def ex_arp_def bm_lookup_def bm_new_def split: if_splits)

lemma ex_encap_ok: "fst ex_encapsulated = RET_SUCCESS"
  by (simp add: gtpu_encap_ipv4_def grow_head_def cached_n3_ip_def Let_def header_sizes ex_xdp_state_def ex_xdp_env_def
      ex_arp_def ex_dl_far_def bm_lookup_def ex_frame_def)

lemma ex_encap: "ex_encapsulated = (RET_SUCCESS, snd ex_encapsulated)"
  using ex_encap_ok by (cases ex_encapsulated) simp

lemma ex_encap_maps: "xs_maps (snd ex_encapsulated) = ex_arp (pipeline_new 8)" "length (xs_data (snd ex_encapsulated)) = 86"
proof -
  have l: "xs_maps ex_dl_state = ex_arp (pipeline_new 8)" "length (xs_data ex_dl_state) = 42"
    by (simp_all add: ex_xdp_state_def ex_frame_def)
  obtain n3_ip mac where "length mac = 6" "34 \<le> length (xs_data ex_dl_state)"
    "xs_data (snd ex_encapsulated) = tunnelled ex_xdp_env n3_ip mac ex_dl_far 9 (xs_data ex_dl_state)"
    "xs_maps (snd ex_encapsulated) = xs_maps ex_dl_state"
    using gtpu_encap_data [OF ex_encap] ex_macs_ok l(1) by metis
  with l tunnelled_parts(3) [of mac "xs_data ex_dl_state" ex_xdp_env n3_ip ex_dl_far 9]
  show "xs_maps (snd ex_encapsulated) = ex_arp (pipeline_new 8)" "length (xs_data (snd ex_encapsulated)) = 86"
    by simp_all
qed

text \<open>With a route and a packet that is long enough decapsulation succeeds.\<close>

lemma decap_succeeds:
  assumes "aa_forw (bf_apply_action far)" "78 \<le> length (xs_data s)" "\<And>q. fr_success (xe_fib e q)" "macs_ok e (xs_maps s)"
  shows "\<exists>s'. gtpu_decap_ipv4 e far s = (RET_SUCCESS, s')"
proof -
  let ?d1 = "write_at 44 (take 14 (xs_data s)) (xs_data s)"
  let ?r = "inner_route e 58 ?d1"
  let ?d3 = "write_at 44 (fr_dmac ?r @ fr_smac ?r) ?d1"
  have r: "fr_success ?r" "length (fr_dmac ?r @ fr_smac ?r) = 12"
    using assms(3,4) by (simp_all add: inner_route_def macs_ok_def)
  have "length ?d1 = length (xs_data s)" using assms(2) by (simp add: write_at_def)
  then have "length ?d3 = length (xs_data s)" using assms(2) r(2) by (simp add: write_at_def)
  then have "strip_head 44 (s\<lparr>xs_data := ?d3\<rparr>) \<noteq> None" using assms(2) by (simp add: strip_head_def header_sizes)
  then show ?thesis
    using assms(1,2) r(1) unfolding gtpu_decap_ipv4_def Let_def size_sums by auto
qed

theorem xdp_tunnel_roundtrip_witness:
  "parse_gpdu (xs_data (snd ex_encapsulated)) = Inr (7, 9) \<and>
   drop 12 (xs_data (snd (gtpu_decap_ipv4 ex_xdp_env ex_dl_far (snd ex_encapsulated)))) = drop 12 ex_frame"
proof -
  have d: "xs_data ex_dl_state = ex_frame" "xs_maps ex_dl_state = ex_arp (pipeline_new 8)" by (simp_all add: ex_xdp_state_def)
  have "\<exists>s'. gtpu_decap_ipv4 ex_xdp_env ex_dl_far (snd ex_encapsulated) = (RET_SUCCESS, s')"
    by (rule decap_succeeds) (simp_all add: ex_encap_maps ex_macs_ok, simp_all add: ex_dl_far_def ex_xdp_env_def)
  then obtain s' where s': "gtpu_decap_ipv4 ex_xdp_env ex_dl_far (snd ex_encapsulated) = (RET_SUCCESS, s')" by blast
  have ip: "of_be16 (bytes_at 2 12 ex_frame) = ETH_P_IP"
    by (simp add: ex_frame_def bytes_at_def of_be16_def ETH_P_IP_def)
  show ?thesis
    using xdp_tunnel_roundtrip [OF ex_encap _ _ s' refl] d ip
    by (simp add: ex_macs_ok ex_encap_maps s') (simp add: ex_dl_far_def)
qed

lemma byte_less: "unat (a :: byte) < 256"
  using unsigned_less [of a] by simp

lemma sum16_bound: "sum16 h \<le> 65535 * length h"
proof (induction h rule: sum16.induct)
  case (2 a)
  then show ?case using byte_less [of a] by simp
next
  case (3 a b bs)
  have "unat a + 256 * unat b \<le> 65535" using byte_less [of a] byte_less [of b] by simp
  with 3 show ?case by simp
qed simp

theorem encapsulated_packet_is_valid_witness:
  "oc16 (sum16 (bytes_at 20 14 (xs_data (snd ex_encapsulated)))) = 65535 \<and>
   bytes_at 4 30 (xs_data (snd ex_encapsulated)) = [192, 168, 1, 1]"
proof -
  have d: "xs_data ex_dl_state = ex_frame" "xs_maps ex_dl_state = ex_arp (pipeline_new 8)" by (simp_all add: ex_xdp_state_def)
  have c: "oc_eq (unat (xe_csum_diff ex_xdp_env h)) (sum16 h)" if "length h = IPHDR" for h
    using that sum16_bound [of h] by (simp add: ex_xdp_env_def unat_of_nat IPHDR_def)
  have l: "unat (of_be16 (bytes_at 2 16 ex_frame)) = length ex_frame - ETH_HLEN" "length ex_frame = 42"
    by (simp_all add: ex_frame_def bytes_at_def of_be16_def ETH_HLEN_def)
  have "net32 (bf_ohc_ipv4_address ex_dl_far) = [192, 168, 1, 1]"
    by (simp add: ex_dl_far_def ex_gnb_def net32_def bswap32_def be32_def)
  with encapsulated_packet_is_valid [OF ex_encap _ c] d l show ?thesis by (simp add: ex_macs_ok header_sizes)
qed

end
