(* ===== verification/XdpMatch.thy ===== *)
theory XdpMatch
  imports XdpTunnel
begin

text \<open>
  What the matching of the XDP programs amounts to: a filter matches the packets its rule describes,
  the same as in the other datapath; the rule chosen for a downlink packet is the most specific; the
  rule chosen is one of the session, and what is applied is what that rule refers to.
\<close>

section \<open>Filters\<close>

lemma low_byte:
  fixes w :: u32
  shows "ucast (a :: byte) + 256 * w = ucast a OR push_bit 8 w"
proof -
  have "256 * w = push_bit 8 w" by (simp add: push_bit_eq_mult mult.commute)
  moreover have "ucast a + push_bit 8 w = ucast a OR push_bit 8 w"
  proof (rule disjunctive_add_eq_or)
    show "ucast a AND push_bit 8 w = 0"
      by (rule bit_word_eqI) (auto simp: bit_simps dest: bit_imp_le_length)
  qed
  ultimately show ?thesis by simp
qed

lemma load32_bytes:
  assumes "take 4 (drop i p) = [a, b, c, d]"
  shows "load32 p i = ucast a OR push_bit 8 (ucast b OR push_bit 8 (ucast c OR push_bit 8 (ucast d)))"
  by (simp add: load32_def assms low_byte [symmetric])

lemma four_items: "length xs = 4 \<Longrightarrow> \<exists>a b c d. xs = [a, b, c, d]"
  by (auto simp: length_Suc_conv numeral_eq_Suc)

lemma two_items: "length xs = 2 \<Longrightarrow> \<exists>a b. xs = [a, b]"
  by (auto simp: length_Suc_conv numeral_eq_Suc)

lemma of_be32_load:
  assumes "i + 4 \<le> length p"
  shows "of_be32 (bytes_at 4 i p) = bswap32 (load32 p i)"
proof -
  obtain a b c d where w: "take 4 (drop i p) = [a, b, c, d]"
    using four_items [of "take 4 (drop i p)"] assms by auto
  have hi: "\<not> bit (x :: byte) k" if "8 \<le> k" for x k
    using bit_imp_le_length [of x k] that by auto
  have "\<forall>n<32. bit (of_be32 (bytes_at 4 i p)) n = bit (bswap32 (load32 p i)) n"
    unfolding all_less_32
    by (simp add: of_be32_def bytes_at_def w bit_bswap32 load32_bytes [OF w] bit_simps hi) (simp add: numeral_2_eq_2)
  then show ?thesis by (auto intro: bit_word_eqI)
qed

lemma of_be16_load:
  assumes "i + 2 \<le> length p"
  shows "of_be16 (bytes_at 2 i p) = bswap16 (load16 p i)"
proof -
  obtain a b where w: "take 2 (drop i p) = [a, b]"
    using two_items [of "take 2 (drop i p)"] assms by auto
  have "load16 p i = ucast a + 256 * ucast b"
    by (simp add: load16_def w)
  also have "\<dots> = ucast a OR push_bit 8 (ucast b)"
  proof -
    have "256 * ucast b = push_bit 8 (ucast b :: u16)" by (simp add: push_bit_eq_mult mult.commute)
    moreover have "ucast a + push_bit 8 (ucast b) = ucast a OR push_bit 8 (ucast b :: u16)"
      by (rule disjunctive_add_eq_or, rule bit_word_eqI) (auto simp: bit_simps dest: bit_imp_le_length)
    ultimately show ?thesis by simp
  qed
  finally have l: "load16 p i = ucast a OR push_bit 8 (ucast b)" .
  show ?thesis
    by (rule bit_word_eqI) (auto simp: of_be16_def bytes_at_def w l bswap16_def bit_simps dest: bit_imp_le_length)
qed

lemma prefix128_high: "n \<le> 32 \<Longrightarrow> ucast (drop_bit 96 (prefix128 n)) = (if n = 0 then 0 else push_bit (32 - n) 0xFFFFFFFF :: u32)"
proof -
  assume n: "n \<le> 32"
  have ones: "(0xFFFFFFFF :: u32) = - 1" by simp
  show ?thesis
    unfolding ones
    by (rule bit_word_eqI) (use n in \<open>auto simp: prefix128_def bit_simps\<close>)
qed

lemma prefix128_net: "n \<le> 32 \<Longrightarrow> bswap32 (ucast (drop_bit 96 (prefix128 n))) = SdfFilter.prefix_mask n"
  by (simp add: prefix128_high SdfFilter.prefix_mask_def)

text \<open>Addresses of a rule without bits behind their prefix; rules that name the protocol 0 as a number
  are the other exception: here 0 is any protocol.\<close>

fun no_host_bits :: "(string \<Rightarrow> u32 option) \<Rightarrow> endpoint \<Rightarrow> bool" where
  "no_host_bits pt (NetAddr ip n) \<longleftrightarrow> the (pt ip) AND addr_mask (NetAddr ip n) = the (pt ip)"
| "no_host_bits pt _ \<longleftrightarrow> True"

lemma subnet_matches:
  assumes "addr_wf pt e" "no_host_bits pt e" "e = AssignedAddr \<longrightarrow> ue = a"
  shows "a AND bswap32 (ucast (drop_bit 96 (sn_mask (subnet_of pt e)))) = bswap32 (ucast (sn_ip (subnet_of pt e))) \<longleftrightarrow>
         endpoint_matches pt e ue a"
proof (cases e)
  case (NetAddr ip n)
  then have n: "(case n of None \<Rightarrow> 32 | Some n \<Rightarrow> n) \<le> 32" (is "?n \<le> 32") using assms(1) by (cases n) auto
  have u: "ucast (ucast w :: 128 word) = w" for w :: u32 by (rule bit_word_eqI) (auto simp: bit_simps)
  have "a AND SdfFilter.prefix_mask ?n = the (pt ip) \<longleftrightarrow>
        a AND SdfFilter.prefix_mask ?n = the (pt ip) AND SdfFilter.prefix_mask ?n"
    using assms(2) NetAddr by simp
  with prefix_mask_semantics [OF n, of a "the (pt ip)"] NetAddr show ?thesis
    by (simp add: prefix128_net [OF n] u Let_def)
qed (use assms(3) in \<open>auto simp: any_subnet_def\<close>)

text \<open>With bits behind the prefix nothing is matched.\<close>

lemma host_bits_match_nothing:
  assumes "addr_wf pt e" "\<not> no_host_bits pt e"
  shows "a AND bswap32 (ucast (drop_bit 96 (sn_mask (subnet_of pt e)))) \<noteq> bswap32 (ucast (sn_ip (subnet_of pt e)))"
proof (cases e)
  case (NetAddr ip n)
  then have n: "(case n of None \<Rightarrow> 32 | Some n \<Rightarrow> n) \<le> 32" (is "?n \<le> 32") using assms(1) by (cases n) auto
  have u: "ucast (ucast w :: 128 word) = w" for w :: u32 by (rule bit_word_eqI) (auto simp: bit_simps)
  have "a AND SdfFilter.prefix_mask ?n \<noteq> the (pt ip)"
  proof
    assume "a AND SdfFilter.prefix_mask ?n = the (pt ip)"
    then have "the (pt ip) AND SdfFilter.prefix_mask ?n = the (pt ip)" by (metis and.assoc and.idem)
    with assms(2) NetAddr show False by simp
  qed
  with NetAddr show ?thesis by (simp add: prefix128_net [OF n] u)
qed (use assms(2) in auto)

lemma port_range_matches:
  "ports_wf q \<Longrightarrow> fst (ports_of q) \<le> p \<and> p \<le> snd (ports_of q) \<longleftrightarrow> port_matches q p"
proof (cases q)
  case NoPorts
  have "(65535 :: u16) = - 1" by simp
  then have "p \<le> 65535" by (simp only: word_n1_ge)
  then show ?thesis using NoPorts by simp
qed (auto simp: word_le_nat_alt unat_of_nat)

lemma protocol_matches:
  assumes "p \<noteq> ProtoNum 0" "proto_wf p"
  shows "(ucast (proto_num p) :: u16) = 0 \<or> ucast (x :: u8) = (ucast (proto_num p) :: u16) \<longleftrightarrow> proto_matches p x"
proof -
  have "ucast (ucast w :: u16) = w" for w :: u8 by (rule bit_word_eqI) (auto simp: bit_simps)
  then have inj: "ucast (x :: u8) = (ucast y :: u16) \<longleftrightarrow> x = y" for x y by metis
  have "proto_num p \<noteq> 0" if "p \<noteq> ProtoAny"
    using assms that by (cases p) (auto simp: word_unat_eq_iff unat_of_nat)
  then have "(ucast (proto_num p) :: u16) \<noteq> 0" if "p \<noteq> ProtoAny"
    using that inj [of "proto_num p" 0] by simp
  moreover have "proto_matches p x \<longleftrightarrow> x = proto_num p" if "p \<noteq> ProtoAny"
    using that by (cases p) auto
  ultimately show ?thesis by (cases "p = ProtoAny") (simp_all only: inj, simp_all)
qed

text \<open>A downlink packet from its IP header on: five-tuple and addresses are what the other datapath reads.\<close>

lemma extract_5tuple_fields:
  assumes "extract_5tuple i d c0 = (c, True)" "i + IPHDR \<le> length d"
  shows "pc_protocol c = drop i d ! 9" "bswap32 (pc_src_ip c) = load32 (drop i d) 12"
    "bswap32 (pc_dst_ip c) = load32 (drop i d) 16" "pc_ue_ip c = pc_ue_ip c0"
    "l4_header (pc_protocol c) \<noteq> 0 \<Longrightarrow> i + IPHDR + l4_header (pc_protocol c) \<le> length d \<and>
       pc_src_port c = bswap16 (load16 (drop i d) 20) \<and> pc_dst_port c = bswap16 (load16 (drop i d) 22)"
    "l4_header (pc_protocol c) = 0 \<Longrightarrow> pc_src_port c = 0 \<and> pc_dst_port c = 0"
proof -
  have l: "load32 (drop i d) k = load32 d (i + k)" "load16 (drop i d) k = load16 d (i + k)" for k
    by (simp_all add: load32_def load16_def add.commute)
  have h: "IPHDR = 20" "l4_header p \<noteq> 0 \<Longrightarrow> 8 \<le> l4_header p" for p
    by (simp_all add: IPHDR_def l4_header_def TCPHDR_def UDPHDR_def split: if_splits)
  note b = of_be32_load [of "i + 12" d] of_be32_load [of "i + 16" d] of_be16_load [of "i + 20" d] of_be16_load [of "i + 22" d]
  show "pc_protocol c = drop i d ! 9" "bswap32 (pc_src_ip c) = load32 (drop i d) 12"
    "bswap32 (pc_dst_ip c) = load32 (drop i d) 16" "pc_ue_ip c = pc_ue_ip c0"
    using assms b by (auto simp: extract_5tuple_def Let_def l h split: if_splits)
  show "l4_header (pc_protocol c) \<noteq> 0 \<Longrightarrow> i + IPHDR + l4_header (pc_protocol c) \<le> length d \<and>
       pc_src_port c = bswap16 (load16 (drop i d) 20) \<and> pc_dst_port c = bswap16 (load16 (drop i d) 22)"
    using assms b h(2) [of "d ! (i + 9)"] by (auto simp: extract_5tuple_def Let_def l h(1) add.assoc add.commute [of 22 i] split: if_splits)
  show "l4_header (pc_protocol c) = 0 \<Longrightarrow> pc_src_port c = 0 \<and> pc_dst_port c = 0"
    using assms by (auto simp: extract_5tuple_def Let_def split: if_splits)
qed

section \<open>The two datapaths\<close>

text \<open>A TCP or UDP packet whose header has no options, not fragmented.\<close>

definition plain_l4 :: "byte list \<Rightarrow> bool" where
  "plain_l4 p \<longleftrightarrow> ihl_bytes p = 20 \<and> load16 p 6 AND bswap16 0x1FFF = 0 \<and> p ! 9 \<in> {IPPROTO_TCP, IPPROTO_UDP}"

text \<open>C13: one flow description means the same in both datapaths: of a downlink TCP or UDP packet, neither
  fragmented nor with IP options, the XDP programs match the filter the control plane parsed exactly
  when the user-space switch matches the rule it compiled from the same text, where the description is
  one the parser of the BPF side has words for, its addresses have no bits behind their prefixes and its
  protocol is not the number 0.\<close>

theorem datapaths_agree_on_filters:
  assumes "rule_wf pt s" and "bpf_rule s"
    and "no_host_bits pt (rs_src s)" and "no_host_bits pt (rs_dst s)" and "rs_proto s \<noteq> ProtoNum 0"
    and "extract_5tuple i d c0 = (c, True)" and "i + IPHDR \<le> length d" and "plain_l4 (drop i d)"
    and "ParseSdfFilter pt pt6 (unwords (rule_tokens s)) = Some f"
  shows "match_sdf_filter c f \<longleftrightarrow>
         sdf_match (sdf_compile pt (unwords (rule_tokens s))) (drop i d) (length d - i) False (load32 (drop i d) 16)"
proof -
  let ?p = "drop i d"
  have wf: "addr_wf pt (rs_src s)" "addr_wf pt (rs_dst s)" "ports_wf (rs_src_ports s)" "ports_wf (rs_dst_ports s)"
    "proto_wf (rs_proto s)"
    using assms(1) by (simp_all add: rule_wf_def)
  have b: "rs_out s" "rs_src s \<noteq> AssignedAddr" using assms(2) by (simp_all add: bpf_rule_def)
  have f: "f = filter_of pt s" using assms(9) parse_text [OF assms(1,2), of pt6] by simp
  note c = extract_5tuple_fields [OF assms(6,7)]
  have l4: "l4_header (pc_protocol c) \<ge> 8"
    using assms(8) c(1) by (auto simp: plain_l4_def l4_header_def TCPHDR_def UDPHDR_def)
  then have ports: "i + 28 \<le> length d" "pc_src_port c = bswap16 (load16 ?p 20)" "pc_dst_port c = bswap16 (load16 ?p 22)"
    using c(5) by (auto simp: IPHDR_def)
  have vis: "l4_ports ?p (length d - i) = Some (bswap16 (load16 ?p 20), bswap16 (load16 ?p 22))"
    using assms(8) ports(1) by (auto simp: plain_l4_def l4_ports_def)
  have "match_sdf_filter c f \<longleftrightarrow>
      proto_matches (rs_proto s) (?p ! 9) \<and> endpoint_matches pt (rs_src s) (load32 ?p 16) (load32 ?p 12) \<and>
      endpoint_matches pt (rs_dst s) (load32 ?p 16) (load32 ?p 16) \<and>
      port_matches (rs_src_ports s) (bswap16 (load16 ?p 20)) \<and> port_matches (rs_dst_ports s) (bswap16 (load16 ?p 22))"
    unfolding match_sdf_filter_def Let_def f filter_of_def sdf_filtr.simps c(1-3) ports(2,3)
      protocol_matches [OF assms(5) wf(5)]
      subnet_matches [OF wf(1) assms(3), of "load32 ?p 16" "load32 ?p 12"]
      subnet_matches [OF wf(2) assms(4), of "load32 ?p 16" "load32 ?p 16"]
      port_range_matches [OF wf(3), symmetric] port_range_matches [OF wf(4), symmetric]
    using subnet_matches [OF wf(1) assms(3), of "load32 ?p 16" "load32 ?p 12"] b(2)
      subnet_matches [OF wf(2) assms(4), of "load32 ?p 16" "load32 ?p 16"]
    by simp
  also have "\<dots> \<longleftrightarrow> sdf_match (rule_meaning pt s) ?p (length d - i) False (load32 ?p 16)"
    unfolding match_semantics [OF assms(1)] vis using b(1)
    by (cases "rs_src_ports s"; cases "rs_dst_ports s") simp_all
  finally show ?thesis unfolding parse_rule_text [OF assms(1)] .
qed

definition ex_udp_rule :: rule_spec where
  "ex_udp_rule = spec_example\<lparr>rs_proto := ProtoUdp\<rparr>"

theorem datapaths_agree_on_filters_witness:
  "match_sdf_filter (fst (extract_5tuple 14 ex_frame ex_pctx)) (filter_of pton_example ex_udp_rule) \<longleftrightarrow>
   sdf_match (sdf_compile pton_example (unwords (rule_tokens ex_udp_rule))) (drop 14 ex_frame) 28 False 0x0201010C"
proof -
  have wf: "rule_wf pton_example ex_udp_rule" "bpf_rule ex_udp_rule"
    using spec_example_wf
    by (simp_all add: rule_wf_def ex_udp_rule_def bpf_rule_def spec_example_def is_digit_def)
  have host: "no_host_bits pton_example (rs_src ex_udp_rule)" "no_host_bits pton_example (rs_dst ex_udp_rule)"
    "rs_proto ex_udp_rule \<noteq> ProtoNum 0"
    by (simp_all add: ex_udp_rule_def spec_example_def pton_example_def SdfFilter.prefix_mask_def bswap32_def)
  have x: "extract_5tuple 14 ex_frame ex_pctx = (fst (extract_5tuple 14 ex_frame ex_pctx), True)"
    by (simp add: extract_5tuple_def Let_def ex_frame_def header_sizes l4_header_def IPPROTO_TCP_def IPPROTO_UDP_def)
  have p: "14 + IPHDR \<le> length ex_frame" "plain_l4 (drop 14 ex_frame)" "length ex_frame - 14 = 28"
    "load32 (drop 14 ex_frame) 16 = 0x0201010C"
    by (simp_all add: ex_frame_def header_sizes plain_l4_def ihl_bytes_def load16_def load32_def IPPROTO_UDP_def IPPROTO_TCP_def)
  from datapaths_agree_on_filters [OF wf host x p(1,2) parse_text [OF wf, of "\<lambda>_. None"]] show ?thesis
    unfolding p .
qed

section \<open>The best rule\<close>

text \<open>A PDR without a filter for its QFI matches every packet of its UE, and counts for nothing against one
  with a filter.\<close>

definition dl_filter :: "xdp_state \<Rightarrow> bpf_pdr \<Rightarrow> sdf_filtr option" where
  "dl_filter s b = bm_lookup (sdf_filters_map (xs_maps s)) (bp_qfi b, pc_seid (xs_pctx s))"

definition dl_matches :: "xdp_state \<Rightarrow> bpf_pdr \<Rightarrow> bool" where
  "dl_matches s b \<longleftrightarrow> dl_candidate (xs_pctx s) b \<and>
     (case dl_filter s b of None \<Rightarrow> True | Some f \<Rightarrow> match_sdf_filter (xs_pctx s) f)"

definition dl_specificity :: "xdp_state \<Rightarrow> bpf_pdr \<Rightarrow> nat" where
  "dl_specificity s b =
     (case dl_filter s b of None \<Rightarrow> 0 | Some f \<Rightarrow> calc_sdf_specificity f (pc_protocol (xs_pctx s)))"

definition beats :: "xdp_state \<Rightarrow> bpf_pdr \<Rightarrow> bpf_pdr \<Rightarrow> bool" where
  "beats s a b \<longleftrightarrow> dl_specificity s b < dl_specificity s a \<or>
     (dl_specificity s a = dl_specificity s b \<and> dl_specificity s b \<noteq> 0 \<and> bp_precedence a < bp_precedence b)"

definition unbeaten :: "xdp_state \<Rightarrow> bpf_pdr list \<Rightarrow> bpf_pdr \<Rightarrow> bool" where
  "unbeaten s bs b \<longleftrightarrow> dl_matches s b \<and> (\<forall>a\<in>set bs. dl_matches s a \<longrightarrow> \<not> beats s a b)"

text \<open>What a PDR weighs: less than another if and only if it is beaten by it.\<close>

definition weight :: "xdp_state \<Rightarrow> bpf_pdr \<Rightarrow> int" where
  "weight s b = int (dl_specificity s b) * 2 ^ 32 - (if dl_specificity s b = 0 then 0 else uint (bp_precedence b))"

lemma beats_weight: "beats s a b \<longleftrightarrow> weight s b < weight s a"
proof -
  have u: "0 \<le> uint (bp_precedence x)" "uint (bp_precedence x) < 4294967296" for x
    using uint_lt2p [of "bp_precedence x"] by simp_all
  have key: "(n < m \<or> m = n \<and> n \<noteq> 0 \<and> p < q) \<longleftrightarrow>
      int n * 4294967296 - (if n = 0 then 0 else q) < int m * 4294967296 - (if m = 0 then 0 else p)"
    if "0 \<le> p" "p < 4294967296" "0 \<le> q" "q < 4294967296" for m n :: nat and p q
    using that by (cases "n = 0"; cases "m = 0"; cases n m rule: linorder_cases) auto
  show ?thesis
    using key [OF u u, of "dl_specificity s b" "dl_specificity s a" a b] by (simp add: beats_def weight_def word_less_def)
qed

lemma specificity_positive: "dl_filter s b \<noteq> None \<Longrightarrow> 0 < dl_specificity s b"
  by (auto simp: dl_specificity_def calc_sdf_specificity_def)

text \<open>A step of the loop, by what it beats.\<close>

lemma best_pdr_step:
  assumes "best = Some (b0, dl_specificity s b0, bp_precedence b0)"
  shows "best_pdr s best (b # bs) =
    best_pdr s (if dl_matches s b \<and> beats s b b0 then Some (b, dl_specificity s b, bp_precedence b) else best) bs"
    "best_pdr s None (b # bs) =
    best_pdr s (if dl_matches s b then Some (b, dl_specificity s b, bp_precedence b) else None) bs"
  using assms specificity_positive [of s b]
  by (auto simp: dl_matches_def beats_def dl_specificity_def dl_filter_def Let_def split: option.splits)

lemma unbeaten_drop: "\<not> dl_matches s b \<Longrightarrow> unbeaten s (b # bs) = unbeaten s bs"
  by (auto simp: unbeaten_def fun_eq_iff)

lemma best_pdr_some:
  "dl_matches s b0 \<Longrightarrow>
   best_pdr s (Some (b0, dl_specificity s b0, bp_precedence b0)) bs = find (unbeaten s (b0 # bs)) (b0 # bs)"
proof (induction bs arbitrary: b0)
  case Nil
  then show ?case by (simp add: unbeaten_def beats_weight)
next
  case (Cons b bs)
  have swap: "unbeaten s (b0 # b # bs) = unbeaten s (b # b0 # bs)" by (auto simp: unbeaten_def fun_eq_iff)
  consider "\<not> dl_matches s b" | "dl_matches s b" "beats s b b0" | "dl_matches s b" "\<not> beats s b b0" by blast
  then show ?case
  proof cases
    case 1
    then have "\<not> unbeaten s (b # b0 # bs) b" by (simp add: unbeaten_def)
    then show ?thesis
      using 1 Cons unfolding best_pdr_step(1) [OF refl] swap by (simp add: unbeaten_drop)
  next
    case 2
    then have "unbeaten s (b0 # b # bs) = (\<lambda>x. x \<noteq> b0 \<and> unbeaten s (b0 # b # bs) x)"
      by (auto simp: unbeaten_def fun_eq_iff)
    have no: "\<not> unbeaten s (b0 # b # bs) b0" using 2 by (simp add: unbeaten_def)
    have "unbeaten s (b0 # b # bs) = unbeaten s (b # bs)"
      using 2 Cons.prems by (auto simp: unbeaten_def fun_eq_iff beats_weight)
    with no 2 Cons.IH [OF 2(1)] show ?thesis
      unfolding best_pdr_step(1) [OF refl] by simp
  next
    case 3
    have IH: "best_pdr s (Some (b0, dl_specificity s b0, bp_precedence b0)) (b # bs) = find (unbeaten s (b0 # bs)) (b0 # bs)"
      using 3 Cons.IH [OF Cons.prems] unfolding best_pdr_step(1) [OF refl] by simp
    show ?thesis
    proof (cases "unbeaten s (b0 # bs) b0")
      case True
      then have "unbeaten s (b0 # b # bs) b0" using 3 by (simp add: unbeaten_def)
      with True IH show ?thesis by simp
    next
      case False
      then obtain x where x: "x \<in> set bs" "dl_matches s x" "weight s b0 < weight s x"
        using Cons.prems by (auto simp: unbeaten_def beats_weight)
      then have "\<not> unbeaten s (b0 # b # bs) b0" "\<not> unbeaten s (b0 # b # bs) b"
        using 3(2) by (force simp: unbeaten_def beats_weight)+
      moreover have "unbeaten s (b0 # b # bs) = unbeaten s (b0 # bs)"
      proof (rule ext)
        fix y
        show "unbeaten s (b0 # b # bs) y = unbeaten s (b0 # bs) y"
          using x 3 by (force simp: unbeaten_def beats_weight)
      qed
      ultimately show ?thesis unfolding IH using False by simp
    qed
  qed
qed

lemma best_pdr_unbeaten: "best_pdr s None bs = find (unbeaten s bs) bs"
proof (induction bs)
  case (Cons b bs)
  show ?case
  proof (cases "dl_matches s b")
    case True
    then show ?thesis unfolding best_pdr_step(2) [OF refl] using best_pdr_some [OF True, of bs] by simp
  next
    case False
    then have "\<not> unbeaten s (b # bs) b" by (simp add: unbeaten_def)
    with False Cons show ?thesis unfolding best_pdr_step(2) [OF refl] by (simp add: unbeaten_drop)
  qed
qed simp

text \<open>C21: with QoS a downlink packet gets, of the PDRs configured for its session that match it, the first
  that no other one beats: a more specific filter beats a less specific one and any filter beats none;
  between filters of one specificity the lower precedence value does, between PDRs without a filter
  the order of the array alone counts.\<close>

theorem best_rule_is_unbeaten:
  assumes "bm_lookup (pdrs_per_session_map (xs_maps s)) (pc_seid (xs_pctx s)) = Some bs"
    and "flag_on (pc_rules_enabled (xs_pctx s)) RULE_QER_ENABLED"
  shows "match_pdr_n6 e s = find (unbeaten s (configured_pdrs e bs)) (configured_pdrs e bs)"
  using assms by (simp add: match_pdr_n6_def best_pdr_unbeaten)

text \<open>Of a PDR without a filter and one with a filter for everything the second is taken.\<close>

definition ex_dl_pdr :: "u16 \<Rightarrow> u8 \<Rightarrow> bpf_pdr" where
  "ex_dl_pdr i q = bpf_pdr_zero\<lparr>bp_rule_id := i, bp_qfi := q, bp_ue_ipv4_address := 0x0201010C, bp_interface_value := 1\<rparr>"

definition ex_best_state :: xdp_state where
  "ex_best_state = (ex_xdp_state ((pipeline_new 8)
       \<lparr>pdrs_per_session_map := (bm_new 8)\<lparr>bm_elems := [(5, [ex_dl_pdr 1 3, ex_dl_pdr 2 4])]\<rparr>,
        sdf_filters_map := (bm_new 8)\<lparr>bm_elems := [((4, 5), \<lparr>sf_protocol = 0, sf_src_addr = any_subnet, sf_src_port = (0, 65535),
          sf_dst_addr = any_subnet, sf_dst_port = (0, 65535), sf_seid = 5, sf_qfi = 4\<rparr>)]\<rparr>\<rparr>) ex_frame)
     \<lparr>xs_pctx := ex_pctx\<lparr>pc_seid := 5, pc_rules_enabled := RULE_QER_ENABLED\<rparr>\<rparr>"

theorem best_rule_is_unbeaten_witness: "match_pdr_n6 ex_xdp_env ex_best_state = Some (ex_dl_pdr 2 4)"
proof -
  let ?s = ex_best_state and ?b1 = "ex_dl_pdr 1 3" and ?b2 = "ex_dl_pdr 2 4"
  have bs: "bm_lookup (pdrs_per_session_map (xs_maps ?s)) (pc_seid (xs_pctx ?s)) = Some [?b1, ?b2]"
    "configured_pdrs ex_xdp_env [?b1, ?b2] = [?b1, ?b2]" "flag_on (pc_rules_enabled (xs_pctx ?s)) RULE_QER_ENABLED"
    by (simp_all add: ex_best_state_def ex_xdp_state_def bm_lookup_def configured_pdrs_def ex_xdp_env_def
        MAX_PDRS_PER_PDU_SESSION_LIMIT_def flag_on_def RULE_QER_ENABLED_def)
  have f: "dl_filter ?s ?b1 = None" "\<exists>f. dl_filter ?s ?b2 = Some f \<and> match_sdf_filter (xs_pctx ?s) f"
    by (simp_all add: dl_filter_def ex_best_state_def ex_xdp_state_def bm_lookup_def ex_dl_pdr_def match_sdf_filter_def
        any_subnet_def ex_pctx_def)
  have c: "dl_candidate (xs_pctx ?s) ?b1" "dl_candidate (xs_pctx ?s) ?b2"
    by (simp_all add: dl_candidate_def ex_dl_pdr_def ex_best_state_def ex_xdp_state_def ex_pctx_def bswap32_def)
  have d: "dl_matches ?s ?b1" "dl_matches ?s ?b2" using c f by (auto simp: dl_matches_def)
  have "dl_specificity ?s ?b1 = 0" "0 < dl_specificity ?s ?b2"
    using f specificity_positive [of ?s ?b2] by (auto simp: dl_specificity_def)
  with d have "\<not> unbeaten ?s [?b1, ?b2] ?b1" "unbeaten ?s [?b1, ?b2] ?b2"
    by (auto simp: unbeaten_def beats_def)
  then show ?thesis using best_rule_is_unbeaten [OF bs(1,3), of ex_xdp_env] by (simp add: bs(2))
qed

section \<open>The rules of a session\<close>

text \<open>The PDR an IP packet is matched with.\<close>

definition match_pdr_ip :: "xdp_env \<Rightarrow> xdp_state \<Rightarrow> bpf_pdr option" where
  "match_pdr_ip e s = (if IS_UPLINK (pc_session_type (xs_pctx s)) then match_pdr_n3 e s else match_pdr_n6 e s)"

lemma best_pdr_in: "best_pdr s None bs = Some b \<Longrightarrow> b \<in> set bs \<and> bp_rule_id b \<noteq> 0"
  by (auto simp: best_pdr_unbeaten find_Some_iff unbeaten_def dl_matches_def dl_candidate_def)

lemma match_pdr_ip_in:
  assumes "match_pdr_ip e s = Some b"
    and "bm_lookup (pdrs_per_session_map (xs_maps s)) (pc_seid (xs_pctx s)) = Some bs"
  shows "b \<in> set bs \<and> bp_rule_id b \<noteq> 0"
proof -
  have "b \<in> set (configured_pdrs e bs) \<and> bp_rule_id b \<noteq> 0"
    using assms
    by (auto simp: match_pdr_ip_def match_pdr_n3_def match_pdr_n6_def dl_candidate_def find_Some_iff Let_def
        dest: best_pdr_in split: if_splits)
  then show ?thesis by (auto simp: configured_pdrs_def dest: in_set_takeD)
qed

lemma session_rules_distinct:
  assumes "distinct (pdr_ids sw s)" "r \<in> set (s_pdrs s)"
  shows "session_rules e sw s (pdr_id (pdr_at sw r)) = Some (rules_of e s (pdr_at sw r) (the (GetFarForPdr sw s (pdr_at sw r))))"
proof -
  have "map fst (map (rule_entry e sw s) (s_pdrs s)) = pdr_ids sw s"
    by (simp add: pdr_ids_def rule_entry_def)
  then have "distinct (map fst (rev (map (rule_entry e sw s) (s_pdrs s))))" using assms(1) by (simp add: rev_map [symmetric] del: map_map)
  moreover have "rule_entry e sw s r \<in> set (rev (map (rule_entry e sw s) (s_pdrs s)))" using assms(2) by simp
  ultimately show ?thesis by (simp add: session_rules_def rule_entry_def map_of_is_SomeI del: map_map)
qed


definition ex_up_state :: xdp_state where
  "ex_up_state = (ex_xdp_state (fst ex_created) ex_frame)
     \<lparr>xs_pctx := ex_pctx\<lparr>pc_session_type := IpUplink, pc_seid := get_up_seid ex_bpf_session, pc_pkt_teid := 1\<rparr>\<rparr>"


end
