(* ===== verification/XdpProps.thy ===== *)
theory XdpProps
  imports XdpMatch
begin

text \<open>
  What the chain of XDP programs keeps. Two locales collect the steps the programs are made of: those
  behind the FAR, which leave the packet alone, and all of them. What every step keeps the programs
  keep; the interpretations are the packet itself, the state of other sessions, and the balance of the
  counters.
\<close>

section \<open>Steps of a program\<close>

text \<open>The steps of the programs that follow the FAR. A step never takes a packet to another session.\<close>

locale verdict_steps =
  fixes R :: "xdp_state \<Rightarrow> xdp_state \<Rightarrow> bool"
  assumes stays: "R s s"
    and then_R: "R s t \<Longrightarrow> R t u \<Longrightarrow> R s u"
    and stats_step: "R s (s\<lparr>xs_stats := v\<rparr>)"
    and redirect_step: "R s (s\<lparr>xs_redirect := i\<rparr>)"
    and context_step: "\<lbrakk>\<And>c. pc_seid (f c) = pc_seid c; \<And>c. pc_session_type (f c) = pc_session_type c\<rbrakk> \<Longrightarrow> R s (set_pctx f s)"
    and measure_step: "R s (measure_volume s)"
    and config_step: "R s (s\<lparr>xs_urr_config := bm_modify (pc_seid (xs_pctx s)) cf (xs_urr_config s)\<rparr>)"
    and report_step: "ue_seid r = pc_seid (xs_pctx s) \<Longrightarrow> R s (s\<lparr>xs_reports := xs_reports s @ [r]\<rparr>)"
    and bar_step: "R s (s\<lparr>xs_bar_state := bm_modify (pc_seid (xs_pctx s)) bf (xs_bar_state s)\<rparr>)"
    and ddn_step: "de_seid d = pc_seid (xs_pctx s) \<Longrightarrow> R s (s\<lparr>xs_ddns := xs_ddns s @ [d]\<rparr>)"
begin

lemma record_R: "R s (snd (xdp_stats_record_action a s))"
  by (simp add: xdp_stats_record_action_def stats_step)

lemma redirect_R: "R s (snd (redirect_map e k s))"
  using then_R [OF redirect_step record_R] by (auto simp: redirect_map_def record_R split: option.split)

lemma final_R: "R s (snd (EXECUTE_FINAL_ACTION e s))"
  by (simp add: EXECUTE_FINAL_ACTION_def redirect_R record_R split: final_action.split)

lemma tail_call_R:
  "R s (snd (next s)) \<Longrightarrow> R s (snd (fall s)) \<Longrightarrow> R s (snd (tail_call e p next fall s))"
  by (simp add: tail_call_def)

lemma mar_R: "R s (snd (mar_apply e s))"
  by (auto simp: mar_apply_def final_R redirect_R split: option.split)

lemma after_urr_R: "(\<And>t. R t (snd (fall t))) \<Longrightarrow> R s (snd (dispatch_after_urr e fall s))"
  by (simp add: dispatch_after_urr_def tail_call_R mar_R)

lemma submit_R:
  assumes "R s t" "xs_pctx t = xs_pctx s" "seid = pc_seid (xs_pctx s)"
  shows "R s (urr_submit_report e seid cfg vol trg t) \<and> xs_pctx (urr_submit_report e seid cfg vol trg t) = xs_pctx s"
  using assms then_R [OF assms(1) report_step] by (simp add: urr_submit_report_def)

lemma submit_config: "xs_urr_config (urr_submit_report e seid cfg vol trg t) = xs_urr_config t"
  by (simp add: urr_submit_report_def)

lemma thresholds_R:
  assumes "seid = pc_seid (xs_pctx s)"
  shows "R s (fst (urr_check_thresholds e seid cfg vol up s)) \<and> xs_pctx (fst (urr_check_thresholds e seid cfg vol up s)) = xs_pctx s"
proof -
  define ok where "ok t \<longleftrightarrow> R s t \<and> xs_pctx t = xs_pctx s" for t
  have rep: "ok t \<Longrightarrow> ok (if b then urr_submit_report e seid cfg vol trg t else t)" for t b trg
    using submit_R [of s t seid] assms by (simp add: ok_def)
  have per: "ok (if b then (urr_submit_report e seid cfg vol trg t)\<lparr>xs_urr_config := bm_modify seid f (xs_urr_config t)\<rparr> else t)"
    if "ok t" for t b trg f
  proof -
    let ?u = "urr_submit_report e seid cfg vol trg t"
    have "ok ?u" using rep [OF that, of True] by simp
    then show ?thesis
      using that then_R [OF _ config_step, of s ?u f] assms by (simp add: ok_def submit_config)
  qed
  have "ok s" by (simp add: ok_def stays)
  then have "ok (fst (urr_check_thresholds e seid cfg vol up s))"
    unfolding urr_check_thresholds_def Let_def fst_conv by (intro rep per)
  then show ?thesis by (simp add: ok_def)
qed

lemma urr_R: "R s (snd (urr_apply e s))"
proof -
  have pctx: "xs_pctx (measure_volume s) = xs_pctx s" by (simp add: measure_volume_def)
  have rest: "R t (snd (dispatch_after_urr e (EXECUTE_FINAL_ACTION e) t))" for t
    by (rule after_urr_R) (rule final_R)
  have t: "R s (fst (urr_check_thresholds e (pc_seid (xs_pctx s)) cfg vol up (measure_volume s)))" for cfg vol up
    using then_R [OF measure_step [of s]] thresholds_R [of "pc_seid (xs_pctx s)" "measure_volume s" e cfg vol up] by (simp add: pctx)
  show ?thesis
    using then_R [OF _ rest] then_R [OF t context_step] t measure_step [of s] stays
    by (auto simp: urr_apply_def Let_def case_prod_beta split: option.split)
qed

lemma after_qer_R: "(\<And>t. R t (snd (fall t))) \<Longrightarrow> R s (snd (dispatch_after_qer e fall s))"
  by (simp add: dispatch_after_qer_def Let_def tail_call_R urr_R after_urr_R)

lemma bar_submit_R: "R s (bar_submit_ddn e cfg s)"
  by (simp add: bar_submit_ddn_def stays ddn_step)

lemma bar_R: "R s (snd (bar_apply e s))"
proof (cases "bm_lookup (xs_bar_config s) (pc_seid (xs_pctx s))")
  case None
  then show ?thesis by (simp add: bar_apply_def Let_def record_R)
next
  case (Some cfg)
  let ?seid = "pc_seid (xs_pctx s)"
  have sub: "xs_bar_state (bar_submit_ddn e cfg s) = xs_bar_state s" "xs_pctx (bar_submit_ddn e cfg s) = xs_pctx s"
    by (simp_all add: bar_submit_ddn_def)
  define notified where "notified st =
    (if bar_should_notify st (bc_dl_notification_delay_sec cfg) (xe_now e)
     then (bar_submit_ddn e cfg s)\<lparr>xs_bar_state := bm_modify ?seid
       (\<lambda>b. b\<lparr>bs_last_ddn_ns := xe_now e, bs_notification_sent := 1\<rparr>) (xs_bar_state s)\<rparr> else s)" for st
  have n: "R s (notified st)" "xs_pctx (notified st) = xs_pctx s" for st
    using then_R [OF bar_submit_R [of s e cfg] bar_step] stays by (simp_all add: notified_def sub)
  have "R s ((notified st)\<lparr>xs_bar_state := bm_modify ?seid f (xs_bar_state (notified st))\<rparr>)" for st f
    using then_R [OF n(1) bar_step [of "notified st" f]] by (simp add: n(2))
  note counted = then_R [OF this record_R]
  show ?thesis
    using Some counted then_R [OF bar_submit_R record_R]
    by (simp add: bar_apply_def notified_def [symmetric] Let_def split: option.split)
qed

end

text \<open>All steps: the memory of the packet may change too.\<close>

locale program_steps = verdict_steps +
  assumes memory_step: "R s (s\<lparr>xs_head := h, xs_meta := m, xs_data := d\<rparr>)"
    and n3_ip_step: "R s (s\<lparr>xs_n3_ip := ip\<rparr>)"
begin

lemma data_R: "R s (s\<lparr>xs_data := d\<rparr>)"
  using memory_step [where s = s and h = "xs_head s" and m = "xs_meta s" and d = d] by simp

lemma meta_R: "R s (s\<lparr>xs_meta := m\<rparr>)"
  using memory_step [where s = s and h = "xs_head s" and m = m and d = "xs_data s"] by simp

lemma grow_R: "grow_head n s = Some t \<Longrightarrow> R s t"
  using memory_step [where s = s and m = "xs_meta s"] by (auto simp: grow_head_def Let_def split: if_splits)

lemma strip_R: "strip_head n s = Some t \<Longrightarrow> R s t"
  using memory_step [where s = s and m = "xs_meta s"] by (auto simp: strip_head_def split: if_splits)

lemma reserve_R: "reserve_meta s = Some t \<Longrightarrow> R s t"
  using memory_step [where s = s and d = "xs_data s"] by (auto simp: reserve_meta_def Let_def split: if_splits)

lemma n3_R: "cached_n3_ip e s = Some (ip, t) \<Longrightarrow> R s t"
  using cached_n3_ip_frame n3_ip_step by metis

lemma encap_R: "R s (snd (gtpu_encap_ipv4 e far q s))"
proof (cases "grow_head GTP_ENCAPSULATED_SIZE s")
  case (Some s1)
  note g = grow_R [OF Some]
  show ?thesis
  proof (cases "cached_n3_ip e s1")
    case None
    then show ?thesis using Some g by (simp add: gtpu_encap_ipv4_def)
  next
    case (Some a)
    then obtain ip s2 where s2: "cached_n3_ip e s1 = Some (ip, s2)" by (cases a) simp
    then have "R s s2" using then_R [OF g n3_R] by blast
    then show ?thesis
      using s2 \<open>grow_head GTP_ENCAPSULATED_SIZE s = Some s1\<close> then_R [OF _ data_R]
      by (simp add: gtpu_encap_ipv4_def Let_def split: option.split)
  qed
qed (simp add: gtpu_encap_ipv4_def stays)

lemma decap_R: "R s (snd (gtpu_decap_ipv4 e far s))"
  using then_R [OF data_R strip_R] data_R stays
  by (auto simp: gtpu_decap_ipv4_def Let_def split: option.split)

lemma tunnel_R:
  "R s (snd r) \<Longrightarrow> (\<And>t. R t (snd (k t))) \<Longrightarrow> R s (snd (after_tunnel k r))"
  using then_R [of s "snd r"] record_R by (auto simp: after_tunnel_def split: prod.splits ret_code.splits)

lemma qer_R: "R s (snd (qer_apply e s))"
  using then_R [OF meta_R after_qer_R] after_qer_R final_R
  by (auto simp: qer_apply_def Let_def record_R split: option.split)

lemma after_far_R: "(\<And>t. R t (snd (fall t))) \<Longrightarrow> R s (snd (dispatch_after_far e q fall s))"
  by (simp add: dispatch_after_far_def Let_def tail_call_R qer_R after_qer_R)

lemma set_final_R: "R s (final_is a s)"
  unfolding final_is_def by (rule context_step) simp_all

lemma final_after_R: "(\<And>t. R t (snd (fall t))) \<Longrightarrow> R s (snd (dispatch_after_far e q fall (final_is a s)))"
  using then_R [OF set_final_R after_far_R] by blast

lemma forward_R: "R s (snd (far_forward e far s))"
  by (auto simp: far_forward_def Let_def intro!: final_after_R tunnel_R decap_R encap_R record_R redirect_R final_R)

lemma action_R: "R s (snd (far_action e rules s))"
proof -
  have "R t (snd (tail_call e PROG_BAR_APPLY (bar_apply e) (xdp_stats_record_action XDP_DROP) t))" for t
    by (rule tail_call_R [OF bar_R record_R])
  note buffered = then_R [OF set_final_R this]
  show ?thesis
    by (simp add: far_action_def Let_def record_R forward_R buffered final_after_R [OF record_R])
qed

lemma far_R: "R s (snd (far_apply e s))"
  by (auto simp: far_apply_def Let_def action_R record_R split: option.split)

lemma match_R: "R s (snd (pdr_match e s))"
proof -
  have "R t (snd (tail_call e PROG_FAR_APPLY (far_apply e) (xdp_stats_record_action XDP_PASS) t))" for t
    by (rule tail_call_R [OF far_R record_R])
  note rest = then_R [OF context_step this]
  show ?thesis by (simp add: pdr_match_def Let_def record_R rest split: option.split)
qed

end

section \<open>What belongs to a session\<close>

lemma bm_lookup_modify: "bm_lookup (bm_modify k f m) j = (if j = k then map_option f (bm_lookup m j) else bm_lookup m j)"
  by (auto simp: bm_lookup_def bm_modify_def map_of_map_entry map_option_case split: option.split)

text \<open>The counters, limits and buffering state of a session, the reports and notifications sent for it.\<close>

definition session_state :: "u64 \<Rightarrow> xdp_state \<Rightarrow>
    urr_volume option \<times> urr_config option \<times> bar_state option \<times> urr_report_event list \<times> bar_ddn_event list" where
  "session_state k s = (bm_lookup (xs_urr_volume s) k, bm_lookup (xs_urr_config s) k, bm_lookup (xs_bar_state s) k,
     filter (\<lambda>r. ue_seid r = k) (xs_reports s), filter (\<lambda>d. de_seid d = k) (xs_ddns s))"

text \<open>The maps of the control plane are only read, and a packet of another session leaves this one alone.\<close>

definition spares :: "u64 \<Rightarrow> xdp_state \<Rightarrow> xdp_state \<Rightarrow> bool" where
  "spares k s t \<longleftrightarrow> xs_maps t = xs_maps s \<and> pc_seid (xs_pctx t) = pc_seid (xs_pctx s) \<and>
     (pc_seid (xs_pctx s) \<noteq> k \<longrightarrow> session_state k t = session_state k s)"

interpretation others: program_steps "spares k" for k
  by unfold_locales (auto simp: spares_def session_state_def set_pctx_def measure_volume_def bm_lookup_modify)

text \<open>What is counted in total is what is counted in the two directions.\<close>

definition balanced :: "xdp_state \<Rightarrow> bool" where
  "balanced s \<longleftrightarrow> (\<forall>k v. bm_lookup (xs_urr_volume s) k = Some v \<longrightarrow>
     total_bytes v = ul_bytes v + dl_bytes v \<and> total_pkts v = ul_pkts v + dl_pkts v)"

lemma balanced_measure: "balanced s \<Longrightarrow> balanced (measure_volume s)"
  by (fastforce simp: balanced_def measure_volume_def bm_lookup_modify urr_update_volume_def Let_def split: if_splits)

interpretation balance: program_steps "\<lambda>s t. balanced s \<longrightarrow> balanced t"
  by unfold_locales (simp_all add: balanced_measure, simp_all add: balanced_def set_pctx_def)

text \<open>The programs behind the FAR leave the packet and what was written for traffic control alone.\<close>

definition same_packet :: "xdp_state \<Rightarrow> xdp_state \<Rightarrow> bool" where
  "same_packet s t \<longleftrightarrow> xs_data t = xs_data s \<and> xs_meta t = xs_meta s"

interpretation packet: verdict_steps same_packet
  by unfold_locales (simp_all add: same_packet_def set_pctx_def measure_volume_def)

section \<open>Entry points\<close>

text \<open>The address a packet is looked up by.\<close>

definition uplink_ue :: "byte list \<Rightarrow> u32" where
  "uplink_ue d = of_be32 (bytes_at 4 (ETH_HLEN + GTP_ENCAPSULATED_SIZE + 12) d)"

definition downlink_ue :: "byte list \<Rightarrow> u32" where
  "downlink_ue d = of_be32 (bytes_at 4 (ETH_HLEN + 16) d)"

text \<open>What no program does to the state of session \<open>k\<close> on its way to a verdict.\<close>

definition leaves :: "u64 \<Rightarrow> xdp_state \<Rightarrow> xdp_state \<Rightarrow> bool" where
  "leaves k s t \<longleftrightarrow> xs_maps t = xs_maps s \<and> session_state k t = session_state k s"

lemma leaves_record: "leaves k s t \<Longrightarrow> leaves k s (snd (xdp_stats_record_action a t))"
  by (simp add: leaves_def xdp_stats_record_action_def session_state_def)

lemma leaves_context: "leaves k s t \<Longrightarrow> leaves k s (set_pctx f t)"
  by (simp add: leaves_def set_pctx_def session_state_def)

lemma pctx_set: "xs_pctx (set_pctx f s) = f (xs_pctx s)"
  by (simp add: set_pctx_def)

lemma leaves_refl: "leaves k s s"
  by (simp add: leaves_def)

lemma leaves_match:
  assumes "leaves k s t" "pc_seid (xs_pctx t) \<noteq> k"
  shows "leaves k s (snd (tail_call e PROG_PDR_MATCH (pdr_match e) (xdp_stats_record_action XDP_PASS) t))"
proof -
  have "spares k t (snd (tail_call e PROG_PDR_MATCH (pdr_match e) (xdp_stats_record_action XDP_PASS) t))"
    by (rule others.tail_call_R [OF others.match_R others.record_R])
  then show ?thesis using assms by (simp add: leaves_def spares_def)
qed

text \<open>The session an address leads to is another one than \<open>k\<close>, if there is any.\<close>

definition not_to :: "u64 \<Rightarrow> pipeline \<Rightarrow> u32 \<Rightarrow> bool" where
  "not_to k p ue \<longleftrightarrow> (case bm_lookup (session_by_ue_ip_map p) ue of None \<Rightarrow> True | Some i \<Rightarrow> si_seid i \<noteq> k)"

lemma leaves_lookup:
  assumes "leaves k s t" "not_to k (xs_maps s) (pc_ue_ip (xs_pctx t))"
  shows "leaves k s (snd (tail_call e PROG_SESSION_LOOKUP_IP (session_lookup_ip e) (xdp_stats_record_action XDP_PASS) t))"
proof -
  have m: "xs_maps t = xs_maps s" using assms(1) by (simp add: leaves_def)
  have "leaves k s (snd (session_lookup_ip e t))"
    using assms leaves_match [OF leaves_context [OF assms(1)]]
    by (auto simp: session_lookup_ip_def not_to_def m leaves_record pctx_set split: option.splits)
  with leaves_record [OF assms(1)] show ?thesis by (simp add: tail_call_def)
qed

lemma extract_5tuple_ue: "pc_ue_ip (fst (extract_5tuple i d c)) = pc_ue_ip c"
  by (simp add: extract_5tuple_def Let_def)

lemma reserve_meta_frame:
  "reserve_meta s = Some t \<Longrightarrow> leaves k s t \<and> xs_data t = xs_data s \<and> (balanced s \<longrightarrow> balanced t) \<and> length (xs_meta t) \<ge> 16"
  by (auto simp: reserve_meta_def leaves_def session_state_def balanced_def SESSION_QFI_SIZE_def Let_def split: if_splits)

lemma leaves_downlink:
  assumes "leaves k s t" "not_to k (xs_maps s) (downlink_ue (xs_data t))"
  shows "leaves k s (snd (downlink_ip e t))"
  using assms leaves_lookup [OF leaves_context [OF assms(1)]] extract_5tuple_ue
  by (auto simp: downlink_ip_def Let_def downlink_ue_def leaves_record leaves_context pctx_set case_prod_beta)

lemma leaves_n6:
  assumes "not_to k (xs_maps s) (downlink_ue (xs_data s))"
  shows "leaves k s (snd (xdp_n6_entry e s))"
proof (cases "reserve_meta s")
  case (Some t)
  have "leaves k s t" "xs_data t = xs_data s" using reserve_meta_frame [OF Some] by blast+
  with assms leaves_downlink [of k s t] leaves_record [of k s t] show ?thesis
    by (auto simp: xdp_n6_entry_def Some split: prod.split)
qed (simp add: xdp_n6_entry_def leaves_record leaves_refl)

lemma leaves_n3:
  assumes "not_to k (xs_maps s) (uplink_ue (xs_data s))"
  shows "leaves k s (snd (xdp_n3_entry e s))"
  using assms leaves_lookup [OF leaves_context [OF leaves_refl]]
  by (auto simp: xdp_n3_entry_def parse_inner_ipv4_def uplink_ue_def leaves_record leaves_refl pctx_set
      split: sum.split option.split)

text \<open>The tunnel an Ethernet frame came through, in the order of the network.\<close>

definition uplink_tunnel :: "byte list \<Rightarrow> u32" where
  "uplink_tunnel d = bswap32 (of_be32 (bytes_at 4 (ETH_HLEN + IPHDR + UDPHDR + 4) d))"

definition eth_not_to :: "u64 \<Rightarrow> pipeline \<Rightarrow> u32 \<Rightarrow> bool" where
  "eth_not_to k p t \<longleftrightarrow> (case bm_lookup (eth_session_mapping_map p) t of None \<Rightarrow> True | Some i \<Rightarrow> ei_seid i \<noteq> k)"

lemma parse_gpdu_teid: "parse_gpdu d = Inr (teid, qfi) \<Longrightarrow> bswap32 teid = uplink_tunnel d"
  by (auto simp: parse_gpdu_def parse_gtpu_hdr_def uplink_tunnel_def split: prod.splits if_splits option.splits)

lemma leaves_lookup_eth:
  assumes "leaves k s t" "eth_not_to k (xs_maps s) (pc_pkt_teid (xs_pctx t))"
  shows "leaves k s (snd (tail_call e PROG_SESSION_LOOKUP_ETH (session_lookup_eth e) (xdp_stats_record_action XDP_PASS) t))"
proof -
  have m: "xs_maps t = xs_maps s" using assms(1) by (simp add: leaves_def)
  have mac: "leaves k s (t\<lparr>xs_mac_table := x\<rparr>)" for x
    using assms(1) by (simp add: leaves_def session_state_def)
  have "leaves k s (snd (session_lookup_eth e t))"
    using assms leaves_match [OF leaves_context [OF mac]]
    by (auto simp: session_lookup_eth_def eth_not_to_def m leaves_record pctx_set Let_def split: option.splits)
  with leaves_record [OF assms(1)] show ?thesis by (simp add: tail_call_def)
qed

lemma leaves_n3_eth:
  assumes "not_to k (xs_maps s) (uplink_ue (xs_data s))" "eth_not_to k (xs_maps s) (uplink_tunnel (xs_data s))"
  shows "leaves k s (snd (xdp_n3_eth_entry e s))"
proof (cases "parse_gpdu (xs_data s)")
  case (Inr a)
  obtain teid qfi where a: "a = (teid, qfi)" by (cases a)
  have t: "bswap32 teid = uplink_tunnel (xs_data s)" using Inr parse_gpdu_teid by (simp add: a)
  have ip: "leaves k s (snd (tail_call e PROG_SESSION_LOOKUP_IP (session_lookup_ip e) (xdp_stats_record_action XDP_PASS) (set_pctx f s)))"
    if "pc_ue_ip (f (xs_pctx s)) = uplink_ue (xs_data s)" for f
    using that assms(1) by (intro leaves_lookup leaves_context leaves_refl) (simp add: pctx_set)
  have eth: "leaves k s (snd (tail_call e PROG_SESSION_LOOKUP_ETH (session_lookup_eth e) (xdp_stats_record_action XDP_PASS) (set_pctx f s)))"
    if "pc_pkt_teid (f (xs_pctx s)) = uplink_tunnel (xs_data s)" for f
    using that assms(2) by (intro leaves_lookup_eth leaves_context leaves_refl) (simp add: pctx_set)
  show ?thesis
    by (simp add: xdp_n3_eth_entry_def Let_def Inr a parse_inner_ipv4_def uplink_ue_def [symmetric] leaves_record leaves_refl ip eth t)
qed (simp add: xdp_n3_eth_entry_def leaves_record leaves_refl Let_def)

lemma grow_frame: "grow_head n s = Some t \<Longrightarrow> leaves k s t \<and> (balanced s \<longrightarrow> balanced t)"
  by (auto simp: grow_head_def leaves_def session_state_def balanced_def Let_def split: if_splits)

lemma outer_frame:
  "create_outer_header_gtpu_ethernet e teid ip q s = Some t \<Longrightarrow> leaves k s t \<and> (balanced s \<longrightarrow> balanced t)"
  "leaves k s (dropped_outer s) \<and> (balanced s \<longrightarrow> balanced (dropped_outer s))"
proof -
  have d: "leaves k s (u\<lparr>xs_data := x\<rparr>) = leaves k s u" "balanced (u\<lparr>xs_data := x\<rparr>) = balanced u" for u x
    by (simp_all add: leaves_def session_state_def balanced_def)
  show "leaves k s t \<and> (balanced s \<longrightarrow> balanced t)" if "create_outer_header_gtpu_ethernet e teid ip q s = Some t"
    using that grow_frame [of _ s _ k]
    by (cases "grow_head (GTP_ENCAPSULATED_SIZE + ETH_HLEN) s"; cases "xe_interface e N3_INTERFACE")
      (auto simp: create_outer_header_gtpu_ethernet_def Let_def d)
  show "leaves k s (dropped_outer s) \<and> (balanced s \<longrightarrow> balanced (dropped_outer s))"
    using grow_frame [of _ s _ k] leaves_refl [of k s] by (simp add: dropped_outer_def split: option.split)
qed

lemma leaves_redirect: "leaves k s t \<Longrightarrow> leaves k s (snd (redirect_map e i t))"
  by (simp add: redirect_map_def xdp_stats_record_action_def leaves_def session_state_def split: option.split)

lemma leaves_n6_eth:
  assumes "not_to k (xs_maps s) (downlink_ue (xs_data s))"
  shows "leaves k s (snd (xdp_n6_eth_entry e s))"
proof -
  have "leaves k s (snd (downlink_ip e t))" if "reserve_meta s = Some t" for t
    using assms leaves_downlink [of k s t] reserve_meta_frame [OF that, of k] by simp
  then show ?thesis
    using outer_frame(1) [of e _ _ _ s _ k] outer_frame(2) [of k s] leaves_refl [of k s]
    by (auto simp: xdp_n6_eth_entry_def Let_def intro!: leaves_record leaves_redirect split: option.split)
qed

text \<open>C17: a packet touches no session but the one it is looked up for. Whatever the packet, at each of the
  four entry points the counters, usage limits and buffering state of any other session stay as they
  are, no report or notification is sent for it, and the maps of the control plane are only read.\<close>

theorem packets_leave_other_sessions:
  "(not_to k (xs_maps s) (downlink_ue (xs_data s)) \<longrightarrow>
      leaves k s (snd (xdp_n6_entry e s)) \<and> leaves k s (snd (xdp_n6_eth_entry e s))) \<and>
   (not_to k (xs_maps s) (uplink_ue (xs_data s)) \<and> eth_not_to k (xs_maps s) (uplink_tunnel (xs_data s)) \<longrightarrow>
      leaves k s (snd (xdp_n3_entry e s)) \<and> leaves k s (snd (xdp_n3_eth_entry e s)))"
  using leaves_n6 leaves_n6_eth leaves_n3 leaves_n3_eth by blast

theorem packets_leave_other_sessions_witness:
  "session_state 5 (snd (xdp_n6_entry ex_xdp_env ex_dl_state)) = session_state 5 ex_dl_state"
proof -
  have "not_to 5 (xs_maps ex_dl_state) (downlink_ue (xs_data ex_dl_state))"
    by (simp add: not_to_def ex_xdp_state_def ex_arp_def pipeline_new_def bm_lookup_def bm_new_def)
  then show ?thesis using packets_leave_other_sessions [of 5 ex_dl_state ex_xdp_env] by (simp add: leaves_def)
qed

end
