(* ===== verification/XdpTc.thy ===== *)
theory XdpTc
  imports XdpCount
begin

text \<open>
  From the XDP programs to traffic control: the class a packet is scheduled in is the one the control
  plane made for its flow, and a broadcast frame is sent once into every tunnel.
\<close>

section \<open>The class of a packet\<close>

lemma div_mod_256: "n div 256 ^ a mod 256 ^ Suc k = n div 256 ^ a mod 256 + 256 * (n div 256 ^ Suc a mod 256 ^ k)" for n :: nat
proof -
  have "n div 256 ^ a mod (256 * 256 ^ k) = 256 * (n div 256 ^ a div 256 mod 256 ^ k) + n div 256 ^ a mod 256"
    by (rule mod_mult2_eq)
  moreover have "n div 256 ^ a div 256 = n div 256 ^ Suc a" by (simp only: power_Suc2 div_mult2_eq)
  ultimately show ?thesis by simp
qed

lemma load_le_bytes:
  fixes w :: u64
  shows "load_le (map (\<lambda>i. ucast (drop_bit (8 * i) w) :: byte) [a..<a + k]) = unat w div 256 ^ a mod 256 ^ k"
proof (induction k arbitrary: a)
  case (Suc k)
  have p: "(2::nat) ^ (8 * a) = 256 ^ a" by (simp add: power_mult)
  have "unat (drop_bit (8 * a) w) = unat w div 256 ^ a" 
    by (simp only: unat_drop_bit_eq) (simp only: drop_bit_eq_div p)
  then have "unat (ucast (drop_bit (8 * a) w) :: byte) = unat w div 256 ^ a mod 256"
    by (simp only: unsigned_ucast_eq take_bit_eq_mod) simp
  moreover have "[a..<a + Suc k] = a # [Suc a..<Suc a + k]" by (simp add: upt_rec)
  ultimately show ?case using Suc.IH [of "Suc a"] by (simp only: list.map load_le.simps div_mod_256)
qed simp

lemma meta_seid_le64: "meta_seid (le64 w @ m) = w"
proof -
  have "unat w < 256 ^ 8" using unsigned_less [of w] by simp
  then have "load_le (le64 w) = unat w" using load_le_bytes [of w 0 8] by (simp add: le64_def)
  then show ?thesis by (simp add: meta_seid_def le64_def)
qed

lemma length_le64 [simp]: "length (le64 w) = 8"
  by (simp add: le64_def)

text \<open>QER leaves the session and the QFI in the metadata, and the rest of the chain keeps both.\<close>

lemma qer_marks:
  assumes "pc_session_type (xs_pctx s) = IpDownlink"
    and "bm_lookup (rules_match_pdr_map (xs_maps s)) (rules_key (xs_pctx s)) = Some rules"
    and "\<not> gate_closed (xs_pctx s) (rm_qer rules)" and "SESSION_QFI_SIZE \<le> length (xs_meta s)"
  shows "xs_data (snd (qer_apply e s)) = xs_data s \<and>
     xs_meta (snd (qer_apply e s)) = write_at 0 (le64 (pc_seid (xs_pctx s)) @ [pc_qfi (xs_pctx s)]) (xs_meta s)"
proof -
  let ?t = "s\<lparr>xs_meta := write_at 0 (le64 (pc_seid (xs_pctx s)) @ [pc_qfi (xs_pctx s)]) (xs_meta s)\<rparr>"
  have "qer_apply e s = dispatch_after_qer e (EXECUTE_FINAL_ACTION e) ?t"
    using assms by (simp add: qer_apply_def Let_def)
  moreover have "same_packet ?t (snd (dispatch_after_qer e (EXECUTE_FINAL_ACTION e) ?t))"
    by (rule packet.after_qer_R) (rule packet.final_R)
  ultimately show ?thesis by (simp add: same_packet_def)
qed

lemma tc_offsets: "ETH_HLEN = 14" "IPHDR = 20" "UDPHDR = 8" "GTP_ENCAPSULATED_SIZE = 44" "SESSION_QFI_SIZE = 16"
  "14 + 20 = (34 :: nat)" "34 + 8 = (42 :: nat)" "14 + 44 = (58 :: nat)" "14 + 9 = (23 :: nat)" "34 + 2 = (36 :: nat)"
  by (simp_all add: header_sizes SESSION_QFI_SIZE_def)

lemma classified:
  assumes "length mac = 6" "34 \<le> length d" "of_be16 (bytes_at 2 12 d) = ETH_P_IP" "SESSION_QFI_SIZE \<le> length m"
  shows "tc_filter_traffic (write_at 0 (le64 seid @ [q]) m) (tunnelled e n3_ip mac far qfi d) =
     (TC_ACT_OK, Some (TC_H_MAKE HTB_ROOT_MAJOR (generate_minor_id seid q)))"
proof -
  let ?t = "tunnelled e n3_ip mac far qfi d" and ?m = "write_at 0 (le64 seid @ [q]) m" and ?len = "of_be16 (bytes_at 2 16 d)"
  note p = tunnelled_parts [OF assms(1,2), of e n3_ip far qfi]
  let ?h = "outer_header e n3_ip (bf_ohc_ipv4_address far) (?len + 44)"
  have "bytes_at 2 12 ?t = bytes_at 2 12 d" using assms(2) by (simp add: bytes_at_def [of 2 12 ?t] p(1))
  then have eth: "of_be16 (bytes_at 2 12 ?t) = ETH_P_IP" using assms(3) by simp
  have "?t ! (12 + 11) = (bytes_at 2 12 d @ ?h @ tunnel_headers ?len (be32 (bf_ohc_teid far)) qfi @ drop 14 d) ! 11"
    using nth_drop [of 12 ?t 11] p assms(2) by simp
  also have "\<dots> = ?h ! 9" using assms(2) by (simp add: nth_append)
  also have "?h ! 9 = IPPROTO_UDP" by (simp add: outer_header_def store16_other) (simp add: outer_ipv4_def be16_def)
  finally have udp: "?t ! 23 = IPPROTO_UDP" by simp
  have "bytes_at 2 36 ?t = take 2 (drop 2 (drop 34 ?t))" by (simp add: bytes_at_def)
  also have "\<dots> = be16 GTP_UDP_PORT" unfolding p(2) by (simp add: tunnel_headers_def be16_def)
  finally have port: "of_be16 (bytes_at 2 36 ?t) = GTP_UDP_PORT" by simp
  have meta: "length ?m = length m" "meta_seid ?m = seid" "?m ! 8 = q"
    using assms(4) meta_seid_le64 [of seid] by (simp_all add: write_at_def SESSION_QFI_SIZE_def nth_append)
  have len: "\<not> length ?t < 14" "\<not> length ?t < 34" "\<not> length ?t < 42" "\<not> length ?t < 58" "\<not> length ?m < 16"
    using assms(2,4) unfolding p(3) meta(1) SESSION_QFI_SIZE_def by simp_all
  show ?thesis
    unfolding tc_filter_traffic_def tc_offsets eth udp port meta(2,3) using len by (simp del: not_less)
qed

lemma encap_frame:
  assumes "gtpu_encap_ipv4 e far qfi s = (RET_SUCCESS, s1)"
  shows "xs_meta s1 = xs_meta s \<and> xs_pctx s1 = xs_pctx s"
proof -
  from gtpu_encap_cases [OF assms] obtain t n3_ip mac i where t: "grow_head 44 s = Some t"
    "s1 = t\<lparr>xs_n3_ip := Some n3_ip, xs_data := encap_data e n3_ip mac far qfi (xs_data t)\<rparr>" by metis
  from t(1) have "xs_meta t = xs_meta s \<and> xs_pctx t = xs_pctx s"
    by (auto simp: grow_head_def Let_def split: if_splits)
  then show ?thesis unfolding t(2) by simp
qed

text \<open>C30: a downlink packet of a session with QoS is scheduled in the class of its flow. Once it is
  encapsulated and its gate is open, the classifier reads from what the programs left with the packet the
  class of its session and QFI; and that class is the one the control plane asks for when it sets up a
  QER with this QFI and a maximum bit rate, the default flow apart.\<close>

theorem scheduled_in_the_class_of_its_flow:
  assumes "far_forward e far s = (a, s')" and "pc_session_type (xs_pctx s) = IpDownlink"
    and "flag_on (pc_rules_enabled (xs_pctx s)) RULE_QER_ENABLED" and "xe_loaded e PROG_QER_APPLY"
    and "gtpu_encap_ipv4 e far (pc_qfi (xs_pctx s)) s = (RET_SUCCESS, s1)" and "macs_ok e (xs_maps s)"
    and "of_be16 (bytes_at 2 12 (xs_data s)) = ETH_P_IP"
    and "bm_lookup (rules_match_pdr_map (xs_maps s)) (rules_key (xs_pctx s)) = Some rules"
    and "\<not> gate_closed (xs_pctx s) (rm_qer rules)" and "SESSION_QFI_SIZE \<le> length (xs_meta s)"
    and "ie_val (qer_qos_flow_id q) = pc_qfi (xs_pctx s)" and "present (qer_maximum_bitrate q)" and "Some q \<noteq> dq"
  shows "\<exists>minor rate ceil. tc_filter_traffic (xs_meta s') (xs_data s') = (TC_ACT_OK, Some (TC_H_MAKE HTB_ROOT_MAJOR minor)) \<and>
     last (fst (tc_qer be (pc_seid (xs_pctx s)) dq q t)) = TcClassAdd (ucast (pc_seid (xs_pctx s))) minor rate ceil"
proof -
  let ?c = "xs_pctx s"
  from gtpu_encap_data [OF assms(5,6)] obtain n3_ip mac where m: "length mac = 6" "34 \<le> length (xs_data s)"
    and d: "xs_data s1 = tunnelled e n3_ip mac far (pc_qfi ?c) (xs_data s)" "xs_maps s1 = xs_maps s" by metis
  note f = encap_frame [OF assms(5)]
  let ?u = "final_is PassToTc s1"
  have u: "xs_pctx ?u = ?c\<lparr>pc_final_action := PassToTc\<rparr>" "xs_maps ?u = xs_maps s" "xs_meta ?u = xs_meta s" "xs_data ?u = xs_data s1"
    using f d(2) by (simp_all add: final_is_def set_pctx_def)
  have "s' = snd (qer_apply e ?u)"
    using assms(1-5) f by (simp add: far_forward_def Let_def after_tunnel_def dispatch_after_far_def tail_call_def u)
  moreover have "xs_data (snd (qer_apply e ?u)) = xs_data ?u \<and>
      xs_meta (snd (qer_apply e ?u)) = write_at 0 (le64 (pc_seid (xs_pctx ?u)) @ [pc_qfi (xs_pctx ?u)]) (xs_meta ?u)"
    by (rule qer_marks [where rules = rules]) (use assms(2,8-10) in \<open>simp_all add: u rules_key_def gate_closed_def\<close>)
  ultimately have "tc_filter_traffic (xs_meta s') (xs_data s') =
      (TC_ACT_OK, Some (TC_H_MAKE HTB_ROOT_MAJOR (generate_minor_id (pc_seid ?c) (pc_qfi ?c))))"
    using classified [OF m assms(7,10)] by (simp add: u d(1))
  moreover have "\<exists>rate ceil. last (fst (tc_qer be (pc_seid ?c) dq q t)) =
      TcClassAdd (ucast (pc_seid ?c)) (generate_minor_id (pc_seid ?c) (pc_qfi ?c)) rate ceil"
    using assms(11-13) by (simp add: tc_qer_def Let_def tc_class_def tc_run_def split: prod.split)
  ultimately show ?thesis by blast
qed

definition ex_rules :: rules_match_pdr where
  "ex_rules = \<lparr>rm_far = ex_dl_far, rm_qer = ConvertQer None, rm_urr = ConvertUrr (be_readers ex_bpf_env) None,
     rm_bar = ConvertBar None, rm_mar = ConvertMar None\<rparr>"

definition ex_qos_state :: xdp_state where
  "ex_qos_state = (ex_xdp_state (ex_arp ((pipeline_new 8)\<lparr>rules_match_pdr_map := (bm_new 8)\<lparr>bm_elems := [((0, 5), ex_rules)]\<rparr>\<rparr>)) ex_frame)
     \<lparr>xs_meta := replicate 16 0, xs_pctx := ex_pctx\<lparr>pc_seid := 5, pc_qfi := 9, pc_rules_enabled := RULE_QER_ENABLED\<rparr>\<rparr>"

theorem scheduled_in_the_class_of_its_flow_witness:
  "\<exists>minor rate ceil. tc_filter_traffic (xs_meta (snd (far_forward ex_xdp_env ex_dl_far ex_qos_state)))
       (xs_data (snd (far_forward ex_xdp_env ex_dl_far ex_qos_state))) = (TC_ACT_OK, Some (TC_H_MAKE HTB_ROOT_MAJOR minor)) \<and>
     last (fst (tc_qer ex_bpf_env 5 None (qer_default\<lparr>qer_qos_flow_id := (True, 9), qer_maximum_bitrate := (True, (1, 1))\<rparr>) ([], []))) =
       TcClassAdd 5 minor rate ceil"
proof -
  let ?s = ex_qos_state
  let ?q = "qer_default\<lparr>qer_qos_flow_id := (True, 9), qer_maximum_bitrate := (True, (1, 1))\<rparr>"
  have c: "pc_session_type (xs_pctx ?s) = IpDownlink" "flag_on (pc_rules_enabled (xs_pctx ?s)) RULE_QER_ENABLED"
    "xe_loaded ex_xdp_env PROG_QER_APPLY" "pc_seid (xs_pctx ?s) = 5" "pc_qfi (xs_pctx ?s) = 9" "xs_data ?s = ex_frame"
    "SESSION_QFI_SIZE \<le> length (xs_meta ?s)"
    by (simp_all add: ex_qos_state_def ex_xdp_state_def ex_pctx_def flag_on_def RULE_QER_ENABLED_def ex_xdp_env_def SESSION_QFI_SIZE_def)
  have ok: "macs_ok ex_xdp_env (xs_maps ?s)" using ex_macs_ok by (simp add: ex_qos_state_def ex_xdp_state_def)
  have "fst (gtpu_encap_ipv4 ex_xdp_env ex_dl_far (pc_qfi (xs_pctx ?s)) ?s) = RET_SUCCESS"
    by (simp add: gtpu_encap_ipv4_def grow_head_def cached_n3_ip_def Let_def header_sizes ex_qos_state_def ex_xdp_state_def ex_xdp_env_def
        ex_arp_def ex_dl_far_def bm_lookup_def ex_frame_def)
  then have en: "gtpu_encap_ipv4 ex_xdp_env ex_dl_far (pc_qfi (xs_pctx ?s)) ?s =
      (RET_SUCCESS, snd (gtpu_encap_ipv4 ex_xdp_env ex_dl_far (pc_qfi (xs_pctx ?s)) ?s))"
    by (metis prod.collapse)
  have ip: "of_be16 (bytes_at 2 12 (xs_data ?s)) = ETH_P_IP"
    unfolding c by (simp add: ex_frame_def bytes_at_def of_be16_def ETH_P_IP_def)
  have r: "bm_lookup (rules_match_pdr_map (xs_maps ?s)) (rules_key (xs_pctx ?s)) = Some ex_rules"
    by (simp add: ex_qos_state_def ex_xdp_state_def ex_arp_def bm_lookup_def rules_key_def ex_pctx_def)
  have g: "\<not> gate_closed (xs_pctx ?s) (rm_qer ex_rules)"
    by (simp add: gate_closed_def ex_rules_def ConvertQer_def bpf_qer_zero_def)
  show ?thesis
    using scheduled_in_the_class_of_its_flow [OF prod.collapse [symmetric] c(1-3) en ok ip r g c(7), of ?q None ex_bpf_env "([], [])"]
    by (simp add: c)
qed

section \<open>Broadcast\<close>

text \<open>The tunnel of a frame.\<close>

definition tunnel_of :: "byte list \<Rightarrow> u32" where
  "tunnel_of x = load_net32 46 x"

text \<open>What holds while the sessions are walked: the clones carry the frame, each its own tunnel; the last
  tunnel visited may have none, when its clone failed.\<close>

definition walked :: "byte list \<Rightarrow> u32 list \<Rightarrow> u32 set \<Rightarrow> callback_ctx \<Rightarrow> bool" where
  "walked d seen T c \<longleftrightarrow> length (cb_data c) = length d \<and> drop 50 (cb_data c) = drop 50 d \<and>
     (\<forall>x\<in>set (cb_clones c). drop 50 x = drop 50 d) \<and> length (cb_pdu_sessions c) \<le> MAX_BROADCAST_FANOUT \<and>
     (\<exists>new. cb_pdu_sessions c = seen @ new \<and> distinct (seen @ new) \<and> 0 \<notin> set new \<and> set new \<subseteq> T \<and>
        map tunnel_of (cb_clones c) = (if cb_stopped c then butlast new else new))"

lemma rewritten_frame:
  assumes "54 \<le> length d"
  shows "tunnel_of (write_at 30 (net32 a) (write_at 46 (net32 t) d)) = t"
    and "drop 50 (write_at 30 (net32 a) (write_at 46 (net32 t) d)) = drop 50 d"
    and "length (write_at 30 (net32 a) (write_at 46 (net32 t) d)) = length d"
proof -
  let ?w = "write_at 46 (net32 t) d"
  have l: "length (net32 x) = 4" for x by (simp add: net32_def)
  have w: "take 4 (drop 46 ?w) = net32 t" "drop 50 ?w = drop 50 d" "length ?w = length d"
    using assms by (simp_all add: write_at_def l)
  have "take 4 (drop 46 (write_at 30 (net32 a) ?w)) = take 4 (drop 46 ?w)"
    using assms w(3) by (simp add: write_at_def [of 30] l)
  with w(1) show "tunnel_of (write_at 30 (net32 a) ?w) = t"
    by (simp add: tunnel_of_def load_net32_def bytes_at_def net32_def)
  show "drop 50 (write_at 30 (net32 a) ?w) = drop 50 d"
    using assms w by (simp add: write_at_def [of 30] l)
  show "length (write_at 30 (net32 a) ?w) = length d"
    using assms w by (simp add: write_at_def [of 30] l)
qed

lemma broadcast_offsets: "ETH_HLEN + 16 = 30" "ETH_HLEN + IPHDR + UDPHDR + 4 = 46" "ETH_HLEN + IPHDR + UDPHDR + GTPUHDR = 54"
  by (simp_all add: header_sizes)

lemma callback_walked:
  assumes "walked d seen T c" "54 \<le> length d" "ei_teid_dl i \<in> T"
  shows "walked d seen T (broadcast_callback_fn ok i c)"
proof (cases "cb_stopped c \<or> ei_teid_dl i \<in> set (cb_pdu_sessions c) \<or> length (cb_pdu_sessions c) \<ge> MAX_BROADCAST_FANOUT \<or> ei_teid_dl i = 0")
  case True
  then show ?thesis using assms(1) by (auto simp: broadcast_callback_fn_def Let_def)
next
  case False
  let ?t = "ei_teid_dl i"
  let ?d1 = "write_at 30 (net32 (ei_ipv4_address i)) (write_at 46 (net32 ?t) (cb_data c))"
  have l: "length (cb_data c) = length d" "drop 50 (cb_data c) = drop 50 d" using assms(1) by (simp_all add: walked_def)
  note r = rewritten_frame [of "cb_data c" "ei_ipv4_address i" ?t]
  obtain new where "cb_pdu_sessions c = seen @ new \<and> distinct (seen @ new) \<and> 0 \<notin> set new \<and> set new \<subseteq> T \<and>
      map tunnel_of (cb_clones c) = (if cb_stopped c then butlast new else new)"
    using assms(1) unfolding walked_def by blast
  then have new: "cb_pdu_sessions c = seen @ new" "distinct (seen @ new)" "0 \<notin> set new" "set new \<subseteq> T"
      "map tunnel_of (cb_clones c) = new"
    using False by simp_all
  have b: "broadcast_callback_fn ok i c =
      (let c1 = c\<lparr>cb_pdu_sessions := cb_pdu_sessions c @ [?t], cb_data := ?d1\<rparr>
       in if ok ?d1 then c1\<lparr>cb_clones := cb_clones c @ [?d1]\<rparr> else c1\<lparr>cb_stopped := True\<rparr>)"
    using False assms(2) l(1) unfolding broadcast_callback_fn_def Let_def broadcast_offsets by simp
  have "walked d seen T (broadcast_callback_fn ok i c) \<longleftrightarrow> True"
    using assms False new l r unfolding b walked_def Let_def
    by (auto intro!: exI [of _ "new @ [?t]"])
  then show ?thesis by simp
qed

lemma fold_walked:
  "walked d seen T c \<Longrightarrow> 54 \<le> length d \<Longrightarrow> ei_teid_dl ` set is \<subseteq> T \<Longrightarrow> walked d seen T (fold (broadcast_callback_fn ok) is c)"
  by (induction "is" arbitrary: c) (auto simp: callback_walked)

text \<open>When every clone succeeds and there is room for all, no tunnel is left out.\<close>

lemma callback_complete:
  assumes "walked d seen T c" "54 \<le> length d" "ei_teid_dl i \<in> T" "\<not> cb_stopped c" "length (cb_pdu_sessions c) < MAX_BROADCAST_FANOUT"
    and "\<And>x. ok x"
  shows "\<not> cb_stopped (broadcast_callback_fn ok i c) \<and>
     set (cb_pdu_sessions (broadcast_callback_fn ok i c)) = set (cb_pdu_sessions c) \<union> ({ei_teid_dl i} - {0}) \<and>
     length (cb_pdu_sessions (broadcast_callback_fn ok i c)) \<le> Suc (length (cb_pdu_sessions c))"
proof -
  have "length (cb_data c) = length d" using assms(1) by (simp add: walked_def)
  then show ?thesis
    using assms(2,4-6) unfolding broadcast_callback_fn_def Let_def broadcast_offsets by auto
qed

lemma fold_complete:
  assumes "walked d seen T c" "54 \<le> length d" "ei_teid_dl ` set is \<subseteq> T" "\<not> cb_stopped c"
    and "length (cb_pdu_sessions c) + length is \<le> MAX_BROADCAST_FANOUT" and "\<And>x. ok x"
  shows "\<not> cb_stopped (fold (broadcast_callback_fn ok) is c) \<and>
     set (cb_pdu_sessions (fold (broadcast_callback_fn ok) is c)) = set (cb_pdu_sessions c) \<union> (ei_teid_dl ` set is - {0})"
  using assms
proof (induction "is" arbitrary: c)
  case (Cons i "is")
  let ?c = "broadcast_callback_fn ok i c"
  have s: "\<not> cb_stopped ?c" "set (cb_pdu_sessions ?c) = set (cb_pdu_sessions c) \<union> ({ei_teid_dl i} - {0})"
    "length (cb_pdu_sessions ?c) \<le> Suc (length (cb_pdu_sessions c))"
    using callback_complete [of d seen T c i ok] Cons.prems by auto
  have w: "walked d seen T ?c" using callback_walked [of d seen T c i ok] Cons.prems by auto
  have "\<not> cb_stopped (fold (broadcast_callback_fn ok) is ?c) \<and>
      set (cb_pdu_sessions (fold (broadcast_callback_fn ok) is ?c)) = set (cb_pdu_sessions ?c) \<union> (ei_teid_dl ` set is - {0})"
    by (rule Cons.IH [OF w Cons.prems(2) _ s(1)]) (use Cons.prems s(3) in auto)
  then show ?case unfolding s(2) by auto
qed simp

lemma walked_start:
  "length seen \<le> 1 \<Longrightarrow> walked d seen T \<lparr>cb_pdu_sessions = seen, cb_data = d, cb_clones = [], cb_stopped = False\<rparr>"
  by (cases seen) (auto simp: walked_def MAX_BROADCAST_FANOUT_def)

lemma walked_clones:
  assumes "walked d seen T c"
  shows "distinct (map tunnel_of (cb_clones c)) \<and> 0 \<notin> tunnel_of ` set (cb_clones c) \<and> tunnel_of ` set (cb_clones c) \<subseteq> T - set seen \<and>
     length (cb_clones c) \<le> MAX_BROADCAST_FANOUT \<and> (\<forall>x\<in>set (cb_clones c). drop 50 x = drop 50 d) \<and>
     (\<not> cb_stopped c \<longrightarrow> tunnel_of ` set (cb_clones c) = set (cb_pdu_sessions c) - set seen)"
proof -
  obtain new where n: "cb_pdu_sessions c = seen @ new" "distinct (seen @ new)" "0 \<notin> set new" "set new \<subseteq> T"
      "map tunnel_of (cb_clones c) = (if cb_stopped c then butlast new else new)"
    using assms unfolding walked_def by blast
  have m: "map tunnel_of (cb_clones c) = new \<or> map tunnel_of (cb_clones c) = butlast new" using n(5) by simp
  have s: "tunnel_of ` set (cb_clones c) \<subseteq> set new" "distinct (map tunnel_of (cb_clones c))"
    using m n(2) in_set_butlastD by (metis list.set_map subsetI, metis distinct_append distinct_butlast)
  have "length (cb_clones c) = length (map tunnel_of (cb_clones c))" by simp
  also have "\<dots> \<le> length new" using m by (metis diff_le_self length_butlast order_refl)
  also have "\<dots> \<le> MAX_BROADCAST_FANOUT" using assms n(1) by (simp add: walked_def)
  finally have l: "length (cb_clones c) \<le> MAX_BROADCAST_FANOUT" .
  have "tunnel_of ` set (cb_clones c) = set new" if "\<not> cb_stopped c" using n(5) that by (metis list.set_map)
  then show ?thesis using s l n(1-4) assms by (auto simp: walked_def)
qed

definition start_walk :: "nat option \<Rightarrow> nat \<Rightarrow> byte list \<Rightarrow> callback_ctx" where
  "start_walk n3 ifindex d =
     \<lparr>cb_pdu_sessions = (if n3 = Some ifindex then [tunnel_of d] else []), cb_data = d, cb_clones = [], cb_stopped = False\<rparr>"

lemma broadcast_walk:
  assumes "handle_broadcast egress ifindex ok room_ok sessions d = (v, f, clones)"
  shows "(clones = [] \<and> v \<in> {TC_ACT_OK, TC_ACT_RECLASSIFY}) \<or>
     (\<not> length d < ETH_HLEN + GTP_ENCAPSULATED_SIZE + ETH_HLEN \<and>
      clones = cb_clones (fold (broadcast_callback_fn ok) sessions (start_walk (egress DOWNLINK) ifindex d)))"
proof -
  define walk where "walk = (\<lambda>x. fold (broadcast_callback_fn ok) sessions x)"
  define frame where "frame = drop (ETH_HLEN + GTP_ENCAPSULATED_SIZE) d"
  have t: "load_net32 (ETH_HLEN + IPHDR + UDPHDR + 4) d = tunnel_of d" unfolding tunnel_of_def broadcast_offsets ..
  show ?thesis
    using assms unfolding handle_broadcast_def Let_def t walk_def [symmetric] frame_def [symmetric] start_walk_def
    by (cases "egress DOWNLINK"; cases "egress UPLINK"; auto split: if_split_asm)
qed


text \<open>An ARP request from one of two sessions.\<close>

definition ex_arp_request :: "byte list" where
  "ex_arp_request = [0, 0, 0, 0, 0, 0, 0, 0, 0, 0, 0, 0, 8, 0] @ [0x45, 0, 0, 0, 0, 0, 0, 0, 64, 17, 0, 0, 0, 0, 0, 0, 0, 0, 0, 0] @
     tunnel_headers 42 [7, 0, 0, 0] 1 @ replicate 6 255 @ [2, 0, 0, 0, 0, 2, 8, 6] @ replicate 28 0"

definition ex_eth_sessions :: "eth_session_id list" where
  "ex_eth_sessions = [\<lparr>ei_teid_ul = 7, ei_teid_dl = 8, ei_ipv4_address = 0, ei_seid = 1\<rparr>,
     \<lparr>ei_teid_ul = 9, ei_teid_dl = 10, ei_ipv4_address = 0, ei_seid = 2\<rparr>]"


end
