(* ===== verification/Spec2Isabelle.thy ===== *)
theory Spec2Isabelle
  imports Prelude UpfMap UpfRcu Checksum GtpuWalk QosMbr SdfFilter PfcpTransactions SessionProps
    UsageReports PfcpQos HandlerProps GsoSegment FramedRouting ShapingQueue Datapath UpfN3 UpfN4Peers SessionManager SessionCalls SessionRegistry
    XdpTc
begin

text \<open>
  A verification library for the OAI user plane function (oai-cn5g-upf), C++ sources under \<open>src/src\<close>.

  \<^bold>\<open>The program.\<close> The UPF forwards the packets of mobile users between the radio network (N3, GTP-U)
  and the data network (N6, a tun device), as the control plane tells it over PFCP (N4). A PFCP session
  holds rules: PDRs that recognise packets, FARs that forward them, QERs that limit their rate, URRs
  that count them. Two datapaths serve the sessions. The library covers both. The simple switch runs in
  user space (\<open>upf_app/simpleswitch\<close>), with what it stands on: PFCP transactions (\<open>pfcp\<close>), GTP-U
  (\<open>gtpv1u\<close>), the N4 node with its associations (\<open>upf_app/app\<close>) and framed routes
  (\<open>upf_app/framed_routing\<close>). The BPF datapath has a control side, which keeps the maps sessions and rules
  are found by (\<open>upf_app/control\<close>, with the rule structures of \<open>kernel/pfcp\<close> and the enforcement programs of
  \<open>user\<close>), and the programs that run on packets in the kernel (\<open>kernel/xdp\<close>, \<open>kernel/tc\<close>).

  \<^bold>\<open>How the parts interact.\<close> A PFCP message reaches the N4 task, whose transaction layer matches it to
  its procedure and hands it on. A session request goes to the application task and runs a handler of
  the switch; the handler changes the session through its operations and files its PDRs in two look-up
  tables, by tunnel and by user address, which the packet threads read without locks. The response goes
  back through the N4 task. Where the BPF datapath is on, the handler also gives a copy of the session
  to the session manager (\<open>call_datapath\<close>), which writes its rules to the BPF maps. What a table no longer reaches goes to the RCU
  domain and is freed when no reader can hold it. A packet is looked up, metered, perhaps held in the
  thread's shaping queue, counted in its session and sent as its FAR says. In the BPF datapath an XDP
  entry program looks its session up, PDR matching finds its rule, the FAR takes the tunnel off or puts
  it on, and QER, URR and MAR follow by tail calls; the traffic control layer then schedules it.

  \<^bold>\<open>Theories, from the bottom.\<close>

  \<^item> \<open>Prelude\<close>: machine integers, byte order, optional elements, searching and editing of vectors.
  \<^item> \<open>UpfMap\<close> (\<open>upf_map.hpp\<close>): the bounded open-addressing table; record \<open>upf_map\<close> is its slot vector,
    mask, count and retired nodes. It refines a partial map (\<open>um_refines_map\<close>); the contract its clients
    use is the locale \<open>lookup_table\<close>. \<open>UpfRcu\<close> (\<open>upf_rcu.hpp\<close>): epochs, reader slots and reclamation;
    a step relation interleaves readers, updates and a scan slot by slot.
  \<^item> \<open>Checksum\<close> (\<open>csum.hpp\<close>, \<open>vnet_hdr.hpp\<close>), \<open>GtpuWalk\<close> (\<open>gtpu_walk.hpp\<close>), \<open>GsoSegment\<close>
    (\<open>segment_and_forward\<close> and its caller in \<open>pdn_read_loop\<close>): what is done to bytes. Packets are byte
    lists, integers are words of the source's width.
  \<^item> \<open>QosMbr\<close> (\<open>qos_mbr.hpp\<close>): rates as departure clocks. \<open>SdfFilter\<close> (\<open>sdf_filter.cpp\<close>): the compiler and
    matcher of flow descriptions. \<open>FramedRouting\<close> (\<open>FramedRouting.cpp\<close>, \<open>LocalRouting.cpp\<close>).
  \<^item> \<open>PfcpTransactions\<close> (\<open>pfcp/pfcp.cpp\<close>): the transaction layer as a step relation over requests,
    responses and timers.
  \<^item> \<open>PfcpRules\<close> (\<open>pfcp_pdr\<close>, \<open>pfcp_far\<close>, \<open>pfcp_qer\<close>, \<open>pfcp_urr\<close>, \<open>pfcp_bar\<close>, \<open>pfcp_mar\<close>), \<open>PfcpTables\<close>
    (the state of \<open>pfcp_switch\<close> and its tables), \<open>RuleVectors\<close> (the contract \<open>rule_vector\<close> of a vector
    searched by id, interpreted for all six kinds of rule), \<open>PfcpSession\<close> (every operation of
    \<open>pfcp_session.cpp\<close>), \<open>SessionInv\<close>, \<open>SessionRun\<close>, \<open>SessionProps\<close> (its invariants, runs and promises).
  \<^item> \<open>UsageReports\<close> and \<open>PfcpQos\<close> (reporting, QFIs and meters of \<open>pfcp_switch.cpp\<close>), \<open>PfcpHandlers\<close>,
    \<open>HandlerInv\<close>, \<open>HandlerProps\<close> (the three session handlers).
  \<^item> \<open>ShapingQueue\<close> and \<open>Datapath\<close> (the packet path of \<open>pfcp_switch.cpp\<close>).
  \<^item> \<open>GtpuMessages\<close> (\<open>gtpv1u/3gpp_29.281\<close>): signalling messages, dumped and loaded. \<open>UpfN3\<close>
    (\<open>simple_switch.cpp\<close>, \<open>gtpv1u.cpp\<close>): the receiving loop, what is signalled, what is sent.
  \<^item> \<open>PfcpAssociations\<close> (\<open>upf_pfcp_association.cpp\<close>) and \<open>UpfN4\<close> (\<open>upf_n4.cpp\<close>, the N4 part of
    \<open>upf_app.cpp\<close>): the node with its transaction layer, associations and switch, as a step relation over
    datagrams, queued tasks and timers. \<open>UpfN4Inv\<close>, \<open>UpfN4Props\<close>, \<open>UpfN4Sessions\<close>, \<open>UpfN4Peers\<close>: its
    invariants, its exchanges, its peers.
  \<^item> \<open>BpfMaps\<close> (\<open>user/wrappers/BPFMap.hpp\<close>), \<open>BpfConvert\<close> (the rules in the structures of
    \<open>kernel/pfcp\<close>), \<open>SessionPrograms\<close> and \<open>SessionPipeline\<close> (\<open>SessionProgramManager.cpp\<close> with the
    enforcement programs): record \<open>pipeline\<close> holds the BPF maps and what the manager remembers of them;
    its operations return the pipeline reached and the exception thrown, if any. \<open>SessionManager\<close>
    (\<open>SessionManager.cpp\<close>): the registry of session copies.
  \<^item> \<open>PipelineProps\<close> (the contract \<open>kept_by_steps\<close> of a property every step of a call keeps, interpreted
    for the entries of other sessions and for the recorded addresses), \<open>SessionShown\<close> (the abstract
    specification of what a session shows the XDP programs), \<open>SessionLife\<close>, \<open>SessionCalls\<close>,
    \<open>SessionRegistry\<close>: what holds over a session's life, over any calls, and of the registry.
  \<^item> \<open>SdfParser\<close> (\<open>helpers/SdfFilterParser.cpp\<close>): flow descriptions as the BPF side reads them.
  \<^item> \<open>XdpPacket\<close> (\<open>kernel/protocols\<close>, \<open>utils/csum.h\<close>, \<open>packet_context.h\<close>, the tunnels of
    \<open>xdp_far_apply_kern.c\<close>): record \<open>xdp_state\<close> is a packet with the room in front of it, its metadata and
    context, and the maps; \<open>xdp_env\<close> are the kernel's helpers. \<open>XdpChain\<close> (the programs of \<open>kernel/xdp\<close>):
    a program is a function to a verdict and a state, and a tail call that is taken never returns.
    \<open>XdpEth\<close>: the programs of Ethernet sessions, the classifier and redirect (\<open>qer_tc_kern.c\<close>), the fan-out
    of broadcast frames (\<open>eth_broadcast.h\<close>, \<open>eth_broadcast_tc_kern.c\<close>).
  \<^item> \<open>XdpTunnel\<close>, \<open>XdpMatch\<close>, \<open>XdpProps\<close> (the contracts \<open>verdict_steps\<close> and \<open>program_steps\<close> of a property
    every step of a packet keeps, interpreted for the entries of other sessions, the balance of the
    counters and the bytes of the packet), \<open>XdpCount\<close>, \<open>XdpTc\<close>: what holds of tunnels, of matching, of any
    packet, of runs of packets, and of scheduling.

  \<^bold>\<open>State.\<close> \<open>upf_switch\<close> is the object \<open>pfcp_switch\<close>: PDRs, FARs, meters, rate buckets and sessions, which
  the source shares by pointer, live in heaps indexed by references; the vectors in the tables are
  values, for the source replaces them and never edits one; what other components are told (framed
  routes, associations, N4 messages) is recorded in order. A session operation gets the session by
  value next to the switch, and the handler stores it back. A handler's locals are the record
  \<open>handler\<close>. A packet thread is \<open>datapath_state\<close>: the switch it sees, its shaping queue, its clock
  readings and what it has sent. Errors are causes, options or sums, as in the source.

  \<^bold>\<open>What the lemmas show.\<close>
  \<^item> Data structures: the table answers as a map over any run, hands exactly the unlinked nodes to the
    RCU domain, and nothing is freed under a reader in any interleaving.
  \<^item> Bytes: the checksum loops compute the RFC 1071 sum; the GTP-U walk stays in bounds and finds the
    payload; segmentation keeps the payload and makes valid packets, and its loop ends.
  \<^item> Rules and sessions: one rule per id, a published FAR view in step, updates that never edit a
    published rule, compiled filters in step with their PDI, honest causes, PDRs filed under exactly
    their key and in precedence order, nothing left filed after a clean-up.
  \<^item> Handlers: every sequence of requests keeps the switch consistent; establishment and deletion undo
    each other; a refused establishment registers nothing.
  \<^item> Packets: the deciding rule has the lowest precedence value among the matching; a packet is counted
    exactly when it is forwarded; look-ups and the release of held packets return, and no slot is lost;
    reports account for every octet; the traffic a rate admits is bounded.
  \<^item> Node: the N4 node keeps the switch consistent whatever arrives; a queued response is sent to the peer
    that asked; a silent peer is forgotten with its sessions; G-PDUs and signalling messages are read
    back as they were sent.
  \<^item> BPF maps: a session is shown exactly as its last successful call described it, its removal leaves
    nothing of it, no call touches another session, and no address leads to a removed one; the registry
    holds living copies only.
  \<^item> XDP programs: a packet of a session the control plane created is handled by rules one of its own PDRs
    refers to, and touches the state of no other session; both datapaths read one flow description
    alike; a tunnelled packet is valid and is read back by the same programs and by the switch; every
    packet is counted once, under its verdict, and the volumes add up; a used-up quota cuts off; a
    packet is scheduled in the class of its flow; a broadcast reaches every tunnel once.
  \<^item> Where the code does something other than what it means to, a theorem says what it does:
    \<open>changed_cp_fseid_stays_registered\<close>, \<open>core_loop_never_returns\<close>, \<open>remove_entry_removes_by_address\<close>,
    \<open>same_key_update_not_resorted\<close>, \<open>cleanup_timer_entry_stays\<close>, \<open>peer_request_collides\<close>,
    \<open>own_request_stays_pending\<close>, \<open>lost_peer_with_traffic_deadlocks\<close>, \<open>tv_element_ends_the_list\<close>,
    \<open>loop_back_leaves_the_buffer\<close>, \<open>usage_reporting_blocks_modification\<close>, \<open>mar_removal_never_returns\<close>,
    \<open>failed_establishment_blocks_retry\<close>, \<open>seconds_in_ns_exact_iff\<close>, \<open>host_bits_match_nothing\<close>.

  \<^bold>\<open>Bounds and fuel.\<close> Loops that end by their own counters are functions with a measure (table probes,
  checksum folds, extension headers, prefixes). Three loops have no bound of their own and are partial
  functions whose result \<open>None\<close> is not returning: \<open>fan_out\<close>, proved to return always; \<open>look_up_core\<close> and
  \<open>release_loop\<close>, proved to return when no downlink rule forwards to the core side, and the first proved
  not to return otherwise. No fuel is used. Times are 64-bit nanoseconds, with the hypothesis that the
  clock does not run backwards or wrap where it matters.

  \<^bold>\<open>Parameters.\<close> The PFCP library and other code outside the tree are arguments: look-ups in a request
  (\<open>pfcp_lib\<close>), identifier generators (\<open>uids\<close>), \<open>inet_pton\<close> (\<open>pton\<close>), the success of operating system
  commands, the clock, the order \<open>std::pop_heap\<close> chooses among equals. On the N4 node, what messages
  decode to and which transaction ids are drawn (\<open>n4_env\<close>; its assumption \<open>nv_ok\<close> is that the ids drawn
  are distinct and message types have distinct codes). On the BPF side, the readers of rule elements,
  routes, interfaces and the results of \<open>tc\<close> commands (\<open>bpf_env\<close>), \<open>std::sort\<close> and the setters of the
  PFCP library (\<open>sm_lib\<close>); in the kernel, the look-up of routes, the checksum difference (assumed, where a
  theorem needs it, to sum the bytes it is given), the clock, the interfaces, the programs that are
  loaded, and the room left in ring buffers (\<open>xdp_env\<close>). Configuration is \<open>upf_env\<close>.

  \<^bold>\<open>Not modelled.\<close> Of the BPF datapath the loading and attaching of programs (\<open>user\<close>). The maps of
  sessions, rules, PDRs and filters are the same in the control plane and the programs; those of URRs,
  BARs and MARs have layouts of their own on each side, which are not connected here. XDP programs run
  one packet at a time; the counters of the source are per CPU or racy. The handlers of the switch take what it does as the argument \<open>dp\<close>, and their
  theorems assume it is off, while \<open>call_datapath\<close> in \<open>SessionManager\<close> is what that argument stands for.
  Sessions are copied with their PDRs and FARs shared, as the source shares them; QERs, URRs, BARs and
  MARs are values, so that an edit through one copy is not seen by another. Sockets (\<open>udp\<close>), ITTI apart
  from its timers and queues, registration at the NRF, configuration, banner: input and output, or glue
  over libraries. IPv6 look-ups are empty in the source. The packet path is one thread on a fixed switch
  state; the interleaving of readers and the control plane is treated in \<open>UpfRcu\<close> alone, on a
  sequentially consistent memory.
\<close>

end
